(* ===== verification/Prelude.thy ===== *)
theory Prelude
  imports Complex_Main "HOL-Library.AList"
begin

section \<open>Prelude: Python values, exceptions and shared list lemmas\<close>

text \<open>
  What every component of the model shares: the reading of Python's floats, integers,
  rounding, dictionaries and exceptions, and the generic lemmas on lists and loops.

  Python floats are read as exact real numbers (\<open>pyfloat\<close>): the model keeps every
  comparison, every tolerance constant and every \<open>round\<close> call of the code, and leaves out
  the rounding error of binary floating point. Infinities, where the code produces them, are
  a separate datatype value and never a real number.
\<close>

type_synonym pyfloat = real

subsection \<open>Exceptions\<close>

datatype py_exn =
    ValueError string
  | KeyError string
  | ZeroDivisionError
  | OtherError string

type_synonym 'a result = "py_exn + 'a"

text \<open>A computation that goes on with the value, if there is one.\<close>

definition bind_result :: "'a result \<Rightarrow> ('a \<Rightarrow> 'b result) \<Rightarrow> 'b result" where
  "bind_result r f = (case r of Inl e \<Rightarrow> Inl e | Inr x \<Rightarrow> f x)"

text \<open>
  A method that mutates its object and returns nothing is a function into \<open>'s outcome\<close>: the
  object as the method left it, and the exception it raised, if it did. The mutations made
  before a raise stay, as in Python.
\<close>

type_synonym 's outcome = "'s \<times> py_exn option"

definition returns :: "'s \<Rightarrow> 's outcome" where
  "returns s = (s, None)"

definition raises :: "py_exn \<Rightarrow> 's \<Rightarrow> 's outcome" where
  "raises e s = (s, Some e)"

definition seq :: "'s outcome \<Rightarrow> ('s \<Rightarrow> 's outcome) \<Rightarrow> 's outcome" where
  "seq r f = (case snd r of None \<Rightarrow> f (fst r) | Some e \<Rightarrow> r)"

text \<open>A \<open>for\<close> loop over a list that was copied before the loop; an exception leaves it.\<close>

fun for_each :: "('a \<Rightarrow> 's \<Rightarrow> 's outcome) \<Rightarrow> 'a list \<Rightarrow> 's \<Rightarrow> 's outcome" where
  "for_each f [] s = returns s"
| "for_each f (x # xs) s = seq (f x s) (for_each f xs)"

lemma fst_returns [simp]: "fst (returns s) = s"
  by (simp add: returns_def)

lemma snd_returns [simp]: "snd (returns s) = None"
  by (simp add: returns_def)

lemma fst_raises [simp]: "fst (raises e s) = s"
  by (simp add: raises_def)

lemma snd_raises [simp]: "snd (raises e s) = Some e"
  by (simp add: raises_def)

lemma seq_returns [simp]: "seq (returns s) f = f s"
  by (simp add: seq_def)

lemma seq_raises [simp]: "seq (raises e s) f = raises e s"
  by (simp add: seq_def raises_def)

lemma seq_None [simp]: "snd r = None \<Longrightarrow> seq r f = f (fst r)"
  by (simp add: seq_def)

lemma seq_Some [simp]: "snd r = Some e \<Longrightarrow> seq r f = r"
  by (simp add: seq_def)

lemma fst_seq_invariant:
  "I (fst r) \<Longrightarrow> (\<And>s. I s \<Longrightarrow> I (fst (f s))) \<Longrightarrow> I (fst (seq r f))"
  by (cases "snd r") auto

lemma snd_seq_NoneI:
  "snd r = None \<Longrightarrow> snd (f (fst r)) = None \<Longrightarrow> snd (seq r f) = None"
  by simp

lemma for_each_invariant:
  assumes "\<And>x s. x \<in> set xs \<Longrightarrow> I s \<Longrightarrow> I (fst (f x s))" and "I s"
  shows "I (fst (for_each f xs s))"
  using assms
proof (induction xs arbitrary: s)
  case Nil
  then show ?case by simp
next
  case (Cons x xs)
  then show ?case by (auto intro!: fst_seq_invariant[where I = I])
qed

lemma for_each_no_raise:
  assumes "\<And>x s. x \<in> set xs \<Longrightarrow> I s \<Longrightarrow> I (fst (f x s)) \<and> snd (f x s) = None" and "I s"
  shows "I (fst (for_each f xs s)) \<and> snd (for_each f xs s) = None"
  using assms
proof (induction xs arbitrary: s)
  case Nil
  then show ?case by simp
next
  case (Cons x xs)
  then have "I (fst (f x s))" and "snd (f x s) = None" by auto
  with Cons show ?case by auto
qed

subsection \<open>Numbers\<close>

text \<open>\<open>int(x)\<close> truncates towards zero.\<close>

definition py_int :: "pyfloat \<Rightarrow> int" where
  "py_int x = (if x < 0 then - \<lfloor>- x\<rfloor> else \<lfloor>x\<rfloor>)"

text \<open>\<open>round(x, n)\<close> rounds to the nearest multiple of \<open>10 ^ -n\<close>, ties to the even one.\<close>

definition round_half_even :: "pyfloat \<Rightarrow> int" where
  "round_half_even x =
     (let f = \<lfloor>x\<rfloor>; d = x - of_int f in
      if d < 1 / 2 then f
      else if d > 1 / 2 then f + 1
      else if even f then f else f + 1)"

definition py_round :: "pyfloat \<Rightarrow> nat \<Rightarrow> pyfloat" where
  "py_round x n = of_int (round_half_even (x * 10 ^ n)) / 10 ^ n"

lemma round_half_even_of_int [simp]: "round_half_even (of_int k) = k"
  by (simp add: round_half_even_def)

lemma round_half_even_0 [simp]: "round_half_even 0 = 0"
  using round_half_even_of_int[of 0] by simp

lemma round_half_even_error: "\<bar>of_int (round_half_even x) - x\<bar> \<le> 1 / 2"
  unfolding round_half_even_def Let_def abs_le_iff by auto linarith+

lemma round_half_even_mono:
  assumes "x \<le> y"
  shows "round_half_even x \<le> round_half_even y"
proof (cases "\<lfloor>x\<rfloor> = \<lfloor>y\<rfloor>")
  case True
  with assms show ?thesis by (auto simp: round_half_even_def Let_def)
next
  case False
  with assms have less: "\<lfloor>x\<rfloor> + 1 \<le> \<lfloor>y\<rfloor>" using floor_mono[of x y] by linarith
  have "round_half_even x \<le> \<lfloor>x\<rfloor> + 1" by (simp add: round_half_even_def Let_def)
  also have "\<dots> \<le> \<lfloor>y\<rfloor>" by (rule less)
  also have "\<dots> \<le> round_half_even y" by (simp add: round_half_even_def Let_def)
  finally show ?thesis .
qed

lemma py_round_error: "\<bar>py_round x n - x\<bar> \<le> 1 / (2 * 10 ^ n)"
proof -
  have "\<bar>of_int (round_half_even (x * 10 ^ n)) - x * 10 ^ n\<bar> \<le> (1 / 2 :: real)"
    by (rule round_half_even_error)
  then have "\<bar>of_int (round_half_even (x * 10 ^ n)) - x * 10 ^ n\<bar> / 10 ^ n \<le> (1 / 2) / (10 ^ n :: real)"
    by (rule divide_right_mono) simp
  moreover have "py_round x n - x = (of_int (round_half_even (x * 10 ^ n)) - x * 10 ^ n) / 10 ^ n"
    by (simp add: py_round_def field_simps)
  ultimately show ?thesis by (simp add: abs_divide)
qed

lemma py_round_mono: "x \<le> y \<Longrightarrow> py_round x n \<le> py_round y n"
  unfolding py_round_def
  by (intro divide_right_mono) (auto intro!: round_half_even_mono mult_right_mono)

lemma py_round_0 [simp]: "py_round 0 n = 0"
  by (simp add: py_round_def)

lemma py_round_nonneg: "0 \<le> x \<Longrightarrow> 0 \<le> py_round x n"
  using py_round_mono[of 0 x n] by simp

lemma py_round_exact: "x * 10 ^ n = of_int k \<Longrightarrow> py_round x n = x"
  by (simp add: py_round_def field_simps)

text \<open>\<open>sum\<close> over a list with a key.\<close>

lemma sum_list_nonneg_map: "(\<And>x. x \<in> set xs \<Longrightarrow> 0 \<le> f x) \<Longrightarrow> 0 \<le> (\<Sum>x\<leftarrow>xs. f x :: real)"
  by (induction xs) auto

subsection \<open>Lists: first maximum, last elements\<close>

text \<open>\<open>max(xs, key=f)\<close> on a non-empty list \<open>b # xs\<close>: the first element with the largest key.\<close>

fun max_by :: "('a \<Rightarrow> pyfloat) \<Rightarrow> 'a \<Rightarrow> 'a list \<Rightarrow> 'a" where
  "max_by f b [] = b"
| "max_by f b (x # xs) = max_by f (if f x > f b then x else b) xs"

lemma max_by_in: "max_by f b xs \<in> set (b # xs)"
proof (induction xs arbitrary: b)
  case Nil
  then show ?case by simp
next
  case (Cons x xs)
  then show ?case by (cases "f x > f b") (simp_all, blast+)
qed

lemma max_by_ge: "x \<in> set (b # xs) \<Longrightarrow> f x \<le> f (max_by f b xs)"
proof (induction xs arbitrary: b x)
  case Nil
  then show ?case by simp
next
  case (Cons y ys)
  let ?b = "if f y > f b then y else b"
  have b: "f ?b \<le> f (max_by f ?b ys)" by (rule Cons.IH, simp only: list.set_intros)
  from Cons.prems consider "x = b" | "x = y" | "x \<in> set ys" by auto
  then show ?case
  proof cases
    case 1
    with b show ?thesis by (auto split: if_splits)
  next
    case 2
    with b show ?thesis by (auto split: if_splits)
  next
    case 3
    then have "f x \<le> f (max_by f ?b ys)" by (intro Cons.IH) simp
    then show ?thesis by simp
  qed
qed

text \<open>\<open>xs[-n:]\<close> for a positive \<open>n\<close>.\<close>

definition take_last :: "nat \<Rightarrow> 'a list \<Rightarrow> 'a list" where
  "take_last n xs = drop (length xs - n) xs"

lemma length_take_last [simp]: "length (take_last n xs) = min n (length xs)"
  by (simp add: take_last_def)

lemma take_last_short: "length xs \<le> n \<Longrightarrow> take_last n xs = xs"
  by (simp add: take_last_def)

lemma take_last_take_last_append:
  "take_last n (take_last n xs @ ys) = take_last n (xs @ ys)"
proof (cases "length xs \<le> n")
  case True
  then show ?thesis by (simp add: take_last_short)
next
  case False
  then have "length xs - n + (length ys) = length xs + length ys - n" by simp
  with False show ?thesis by (simp add: take_last_def add.commute)
qed

lemma set_take_last_subset: "set (take_last n xs) \<subseteq> set xs"
  by (simp add: take_last_def set_drop_subset)

lemma sorted_wrt_take_last: "sorted_wrt P xs \<Longrightarrow> sorted_wrt P (take_last n xs)"
  by (simp add: take_last_def sorted_wrt_drop)

lemma take_last_snoc_full:
  "length xs = n \<Longrightarrow> 0 < n \<Longrightarrow> take_last n (xs @ [x]) = tl xs @ [x]"
  by (cases xs) (auto simp: take_last_def)

lemma take_last_overflow:
  assumes "length xs \<le> n" and "n < Suc (length xs)"
  shows "take_last n (xs @ [x]) = tl (xs @ [x])"
proof -
  from assms have "length (xs @ [x]) - n = 1" by simp
  then show ?thesis by (simp only: take_last_def drop_Suc One_nat_def drop_0)
qed

text \<open>
  Python dictionaries iterate in insertion order; where the code iterates over one, it is an
  association list with distinct keys, read with \<open>map_of\<close> and written with \<open>AList.update\<close>
  (in place, or appended) and \<open>AList.delete\<close>.
\<close>

lemma map_of_update_same [simp]: "map_of (AList.update k v al) k = Some v"
  by (simp add: update_conv')

lemma map_of_update_other: "k' \<noteq> k \<Longrightarrow> map_of (AList.update k v al) k' = map_of al k'"
  by (simp add: update_conv')

lemma set_update_subset: "set (AList.update k v al) \<subseteq> insert (k, v) (set al)"
  by (induction al) auto

lemma set_delete_subset: "set (AList.delete k al) \<subseteq> set al"
  by (induction al) auto

lemma delete_update_same [simp]: "AList.delete k (AList.update k v al) = AList.delete k al"
  by (induction al) auto

lemma update_update_same [simp]: "AList.update k v (AList.update k w al) = AList.update k v al"
  by (induction al) auto

lemma update_same_value: "map_of al k = Some v \<Longrightarrow> AList.update k v al = al"
  by (induction al) (auto split: if_splits)

lemma map_fst_update_existing [simp]:
  "map_of al k = Some v \<Longrightarrow> List.map fst (AList.update k v' al) = List.map fst al"
  by (induction al) (auto split: if_splits)

lemma map_snd_update_existing:
  assumes "map_of al k = Some v" and "f v' = f v"
  shows "List.map (f \<circ> snd) (AList.update k v' al) = List.map (f \<circ> snd) al"
  using assms by (induction al) (auto split: if_splits)

lemma map_snd_delete:
  assumes "map_of al k = Some v" and "distinct (List.map fst al)" and "distinct (List.map (f \<circ> snd) al)"
  shows "distinct (List.map (f \<circ> snd) (AList.delete k al)) \<and>
    set (List.map (f \<circ> snd) (AList.delete k al)) = set (List.map (f \<circ> snd) al) - {f v}"
  using assms
proof (induction al)
  case Nil
  then show ?case by simp
next
  case (Cons x al)
  show ?case
  proof (cases "fst x = k")
    case True
    with Cons.prems have "k \<notin> fst ` set al" "snd x = v" by (auto simp: rev_image_eqI)
    then have "AList.delete k al = al" by (simp add: delete_id)
    then show ?thesis using True Cons.prems \<open>snd x = v\<close> by (cases x) auto
  next
    case False
    then have "map_of al k = Some v" using Cons.prems(1) by (cases x) auto
    from Cons.IH[OF this] Cons.prems False map_of_SomeD[OF this] show ?thesis
      by (cases x) (auto simp: rev_image_eqI)
  qed
qed

lemma length_delete_existing:
  assumes "map_of al k = Some v" and "distinct (List.map fst al)"
  shows "Suc (length (AList.delete k al)) = length al"
  using assms
proof (induction al)
  case Nil
  then show ?case by simp
next
  case (Cons x al)
  then show ?case by (cases x) (auto simp: delete_id rev_image_eqI)
qed

lemma length_update_existing [simp]:
  "map_of al k = Some v \<Longrightarrow> length (AList.update k v' al) = length al"
  by (induction al) (auto split: if_splits)

lemma set_delete: "set (AList.delete k al) = {x \<in> set al. fst x \<noteq> k}"
  by (induction al) auto

lemma set_update:
  "distinct (List.map fst al) \<Longrightarrow> set (AList.update k v al) = insert (k, v) {x \<in> set al. fst x \<noteq> k}"
  by (induction al) (auto simp: rev_image_eqI)

subsection \<open>Maxima and minima of a non-empty list\<close>

lemma fold_max_ge: "y \<in> set (x # xs) \<Longrightarrow> y \<le> fold max xs x" for y :: "'a::linorder"
proof (induction xs arbitrary: x)
  case (Cons a xs)
  have "y = max a x \<or> y \<in> set xs \<or> y \<le> max a x" using Cons.prems by auto
  moreover have "z \<le> fold max xs z" for z by (induction xs arbitrary: z) (auto intro: order.trans[OF max.cobounded2])
  then have "max a x \<le> fold max xs (max a x)" .
  ultimately show ?case using Cons.IH[of "max a x"] by (auto simp del: max.bounded_iff intro: order.trans)
qed simp

lemma fold_max_in: "fold max xs x \<in> set (x # xs)" for x :: "'a::linorder"
proof (induction xs arbitrary: x)
  case (Cons y ys)
  then show ?case using Cons.IH[of "max y x"] by (auto simp: max_def split: if_splits)
qed simp

lemma fold_min_le: "y \<in> set (x # xs) \<Longrightarrow> fold min xs x \<le> y" for y :: "'a::linorder"
proof (induction xs arbitrary: x)
  case (Cons a xs)
  have "y = min a x \<or> y \<in> set xs \<or> min a x \<le> y" using Cons.prems by auto
  moreover have "fold min xs z \<le> z" for z by (induction xs arbitrary: z) (auto intro: order.trans[OF _ min.cobounded2])
  then have "fold min xs (min a x) \<le> min a x" .
  ultimately show ?case using Cons.IH[of "min a x"] by (auto simp del: min.bounded_iff intro: order.trans)
qed simp

lemma fold_min_in: "fold min xs x \<in> set (x # xs)" for x :: "'a::linorder"
proof (induction xs arbitrary: x)
  case (Cons y ys)
  then show ?case using Cons.IH[of "min y x"] by (auto simp: min_def split: if_splits)
qed simp

end
