(* ===== verification/Core_Models.thy ===== *)
theory Core_Models
  imports Prelude
begin

section \<open>Core domain models\<close>

text \<open>
  The data that flows between the modules (\<open>app/core/models.py\<close>, the \<open>Tick\<close> of
  \<open>app/broker/base.py\<close>): one record per dataclass, one datatype per enum, and the one
  operation they carry, \<open>Position.close\<close>. Field names have a prefix where two records share
  a name in the source.
\<close>

datatype timeframe = M1 | M5 | M15 | M30 | H1 | D1

fun timeframe_value :: "timeframe \<Rightarrow> string" where
  "timeframe_value M1 = ''1m''"
| "timeframe_value M5 = ''5m''"
| "timeframe_value M15 = ''15m''"
| "timeframe_value M30 = ''30m''"
| "timeframe_value H1 = ''1h''"
| "timeframe_value D1 = ''1d''"

datatype order_side = BUY | SELL

datatype core_position_status = Pos_OPEN | Pos_CLOSED

record tick =
  tk_exchange :: string
  tk_segment :: string
  tk_token :: string
  ltp :: pyfloat
  tk_ms :: pyfloat
  tk_bid :: pyfloat
  tk_ask :: pyfloat

record candle =
  c_exchange :: string
  c_segment :: string
  c_token :: string
  c_timeframe :: timeframe
  c_ms :: pyfloat
  c_open :: pyfloat
  c_high :: pyfloat
  c_low :: pyfloat
  c_close :: pyfloat
  c_volume :: int

record core_position =
  cp_id :: string
  cp_exchange :: string
  cp_segment :: string
  cp_token :: string
  cp_side :: order_side
  cp_quantity :: int
  cp_entry_price :: pyfloat
  cp_entry_time_ms :: pyfloat
  cp_strategy_name :: string
  cp_status :: core_position_status
  cp_exit_price :: pyfloat
  cp_exit_time_ms :: pyfloat
  cp_pnl :: pyfloat
  cp_pnl_pct :: pyfloat
  cp_close_reason :: string
  cp_stop_loss :: pyfloat
  cp_take_profit :: pyfloat
  cp_max_favorable_price :: pyfloat
  cp_max_adverse_price :: pyfloat

definition cp_is_open :: "core_position \<Rightarrow> bool" where
  "cp_is_open p \<longleftrightarrow> cp_status p = Pos_OPEN"

text \<open>
  \<open>Position.close\<close>. The percentage divides by \<open>entry_price * quantity\<close>, guarded by
  \<open>entry_price > 0\<close> only: with a zero quantity it raises, after every other field is set.
\<close>

definition position_close ::
  "core_position \<Rightarrow> pyfloat \<Rightarrow> pyfloat \<Rightarrow> string \<Rightarrow> core_position outcome" where
  "position_close p exit_price exit_time_ms reason =
     (let p1 = p\<lparr>cp_exit_price := exit_price, cp_exit_time_ms := exit_time_ms,
                 cp_status := Pos_CLOSED, cp_close_reason := reason\<rparr>;
          p2 = (if cp_side p1 = BUY
                then p1\<lparr>cp_pnl := (cp_exit_price p1 - cp_entry_price p1) * of_int (cp_quantity p1)\<rparr>
                else p1\<lparr>cp_pnl := (cp_entry_price p1 - cp_exit_price p1) * of_int (cp_quantity p1)\<rparr>)
      in if cp_entry_price p2 > 0 then
           (if cp_quantity p2 = 0 then raises ZeroDivisionError p2
            else returns (p2\<lparr>cp_pnl_pct :=
                   (cp_pnl p2 / (cp_entry_price p2 * of_int (cp_quantity p2))) * 100\<rparr>))
         else returns p2)"

text \<open>A well-formed bar: both ends of the body lie in its range.\<close>

definition ohlc_ok :: "candle \<Rightarrow> bool" where
  "ohlc_ok c \<longleftrightarrow> c_low c \<le> c_open c \<and> c_open c \<le> c_high c \<and>
                 c_low c \<le> c_close c \<and> c_close c \<le> c_high c"

lemma ohlc_ok_range: "ohlc_ok c \<Longrightarrow> c_low c \<le> c_high c"
  by (auto simp: ohlc_ok_def)

lemma position_close_pnl:
  "cp_pnl (fst (position_close p x t r)) =
     (if cp_side p = BUY then x - cp_entry_price p else cp_entry_price p - x) * of_int (cp_quantity p)"
  by (auto simp: position_close_def Let_def)

lemma position_close_status: "cp_status (fst (position_close p x t r)) = Pos_CLOSED"
  by (auto simp: position_close_def Let_def)

lemma position_close_raises_iff:
  "snd (position_close p x t r) \<noteq> None \<longleftrightarrow> cp_entry_price p > 0 \<and> cp_quantity p = 0"
  by (auto simp: position_close_def Let_def)

lemma position_close_pct:
  assumes "cp_entry_price p > 0" and "cp_quantity p > 0"
  shows "cp_pnl_pct (fst (position_close p x t r)) =
     (if cp_side p = BUY then 1 else -1) * (x / cp_entry_price p - 1) * 100"
  using assms by (auto simp: position_close_def Let_def field_simps)

end
