(* ===== verification/Event_Bus.thy ===== *)
theory Event_Bus
  imports Prelude
begin

section \<open>Event bus\<close>

text \<open>
  \<open>app/core/events.py\<close>: the synchronous publish/subscribe bus. A handler is an identity of
  type \<open>'h\<close>; what calling it does is the argument \<open>run\<close> of \<open>emit\<close>, which takes the
  handler, the event's arguments and the state of everything the handlers can change, and
  returns an outcome. No handler of the repository subscribes or unsubscribes while an event
  is being emitted, so the list is fixed during the loop.
\<close>

record 'h event_bus =
  handlers :: "string \<Rightarrow> 'h list"

definition empty_bus :: "'h event_bus" where
  "empty_bus = \<lparr>handlers = (\<lambda>_. [])\<rparr>"

definition subscribe :: "string \<Rightarrow> 'h \<Rightarrow> 'h event_bus \<Rightarrow> 'h event_bus" where
  "subscribe event handler b =
     b\<lparr>handlers := (handlers b)(event := handlers b event @ [handler])\<rparr>"

definition unsubscribe :: "string \<Rightarrow> 'h \<Rightarrow> 'h event_bus \<Rightarrow> 'h event_bus" where
  "unsubscribe event handler b =
     (if handler \<in> set (handlers b event)
      then b\<lparr>handlers := (handlers b)(event := remove1 handler (handlers b event))\<rparr>
      else b)"

text \<open>The loop of \<open>emit\<close>: an exception of a handler is logged and the next handler runs.\<close>

fun emit_loop :: "('h \<Rightarrow> 'a \<Rightarrow> 's \<Rightarrow> 's outcome) \<Rightarrow> 'a \<Rightarrow> 'h list \<Rightarrow> 's \<Rightarrow> 's" where
  "emit_loop run args [] s = s"
| "emit_loop run args (h # hs) s =
     (case run h args s of
        (s', None) \<Rightarrow> emit_loop run args hs s'
      | (s', Some e) \<Rightarrow> emit_loop run args hs s')"

definition emit ::
  "('h \<Rightarrow> 'a \<Rightarrow> 's \<Rightarrow> 's outcome) \<Rightarrow> 'h event_bus \<Rightarrow> string \<Rightarrow> 'a \<Rightarrow> 's \<Rightarrow> 's" where
  "emit run b event args s = emit_loop run args (handlers b event) s"

lemma emit_loop_fold: "emit_loop run args hs s = fold (\<lambda>h s. fst (run h args s)) hs s"
  by (induction hs arbitrary: s) (auto split: prod.splits option.splits)

lemma handlers_subscribe:
  "handlers (subscribe ev h b) ev' = (if ev' = ev then handlers b ev @ [h] else handlers b ev')"
  by (simp add: subscribe_def)

lemma handlers_unsubscribe:
  "handlers (unsubscribe ev h b) ev' =
     (if ev' = ev then remove1 h (handlers b ev) else handlers b ev')"
  by (simp add: unsubscribe_def remove1_idem)

lemma unsubscribe_subscribe:
  assumes "h \<notin> set (handlers b ev)"
  shows "unsubscribe ev h (subscribe ev h b) = b"
proof -
  have "handlers (unsubscribe ev h (subscribe ev h b)) = handlers b"
    using assms by (auto simp: handlers_unsubscribe handlers_subscribe remove1_append)
  then show ?thesis by simp
qed

lemma emit_append:
  "handlers b ev = hs1 @ hs2 \<Longrightarrow>
   emit run b ev args s = emit_loop run args hs2 (emit_loop run args hs1 s)"
  by (simp add: emit_def emit_loop_fold)

end
