(* ===== verification/Bounded_Buffer.thy ===== *)
theory Bounded_Buffer
  imports Prelude
begin

section \<open>The contract of a bounded history buffer\<close>

text \<open>
  Several components keep "the last N" of something in a list they trim by hand: append and
  pop the front, or append and slice. The contract says what all of them promise: after a
  push the buffer holds the last \<open>cap\<close> elements of what it held followed by what came in.
  The elements that come in may depend on the buffer (duplicates are filtered out).
\<close>

locale bounded_buffer =
  fixes push :: "'x \<Rightarrow> 'b \<Rightarrow> 'b"
    and contents :: "'b \<Rightarrow> 'a list"
    and cap :: "'b \<Rightarrow> nat"
    and items :: "'b \<Rightarrow> 'x \<Rightarrow> 'a list"
  assumes cap_push: "cap (push x b) = cap b"
    and contents_push: "length (contents b) \<le> cap b \<Longrightarrow>
          contents (push x b) = take_last (cap b) (contents b @ items b x)"
begin

lemma length_push: "length (contents b) \<le> cap b \<Longrightarrow> length (contents (push x b)) \<le> cap (push x b)"
  by (simp add: contents_push cap_push)

lemma set_push:
  "length (contents b) \<le> cap b \<Longrightarrow> set (contents (push x b)) \<subseteq> set (contents b) \<union> set (items b x)"
  using set_take_last_subset[of "cap b" "contents b @ items b x"] by (simp add: contents_push)

lemma newest_kept:
  "length (contents b) \<le> cap b \<Longrightarrow> length (items b x) \<le> cap b \<Longrightarrow>
   \<exists>old. contents (push x b) = old @ items b x"
  by (auto simp: contents_push take_last_def intro!: exI)

lemma length_fold_push:
  "length (contents b) \<le> cap b \<Longrightarrow> length (contents (fold push xs b)) \<le> cap b"
proof (induction xs arbitrary: b)
  case (Cons x xs)
  then show ?case using length_push[OF Cons.prems, of x] Cons.IH[of "push x b"] by (simp add: cap_push)
qed simp

end

text \<open>Pushing one element at a time: the buffer is the last \<open>cap\<close> of everything pushed.\<close>

locale ring_buffer = bounded_buffer push contents cap "\<lambda>b x. [x]"
  for push :: "'a \<Rightarrow> 'b \<Rightarrow> 'b" and contents cap
begin

lemma contents_fold:
  "length (contents b) \<le> cap b \<Longrightarrow>
   contents (fold push xs b) = take_last (cap b) (contents b @ xs)"
proof (induction xs arbitrary: b)
  case Nil
  then show ?case by (simp add: take_last_short)
next
  case (Cons x xs)
  then show ?case
    using length_push[OF Cons.prems, of x]
    by (simp add: cap_push contents_push take_last_take_last_append)
qed

end

end
