(* ===== verification/Candle_Builder.thy ===== *)
theory Candle_Builder
  imports Core_Models Event_Bus Bounded_Buffer
begin

section \<open>Candle builder\<close>

text \<open>
  \<open>app/core/candle_builder.py\<close>: ticks are aggregated into one bar per instrument and
  timeframe. The two dictionaries of the class are maps keyed by (token, timeframe); the
  \<open>candle\<close> events a call emits are returned as a list in the order of emission
  (\<open>_emit_candle\<close> hands each to the event bus before the code goes on).
\<close>

fun TIMEFRAME_MS :: "timeframe \<Rightarrow> int" where
  "TIMEFRAME_MS M1 = 60000"
| "TIMEFRAME_MS M5 = 300000"
| "TIMEFRAME_MS M15 = 900000"
| "TIMEFRAME_MS M30 = 1800000"
| "TIMEFRAME_MS H1 = 3600000"
| "TIMEFRAME_MS D1 = 86400000"

record candle_state =
  cs_exchange :: string
  cs_segment :: string
  cs_token :: string
  cs_open :: pyfloat
  cs_high :: pyfloat
  cs_low :: pyfloat
  cs_close :: pyfloat
  cs_volume :: int
  cs_open_time_ms :: pyfloat
  cs_tick_count :: nat
  cs_last_tick_ms :: pyfloat

definition fresh_state :: "pyfloat \<Rightarrow> candle_state" where
  "fresh_state open_time_ms =
     \<lparr>cs_exchange = '''', cs_segment = '''', cs_token = '''', cs_open = 0, cs_high = 0,
      cs_low = 0, cs_close = 0, cs_volume = 0, cs_open_time_ms = open_time_ms,
      cs_tick_count = 0, cs_last_tick_ms = 0\<rparr>"

definition update_state :: "tick \<Rightarrow> candle_state \<Rightarrow> candle_state" where
  "update_state t st0 =
     (let st = st0\<lparr>cs_exchange := tk_exchange t, cs_segment := tk_segment t,
                   cs_token := tk_token t\<rparr>;
          price = ltp t;
          st1 = (if cs_tick_count st = 0
                 then st\<lparr>cs_open := price, cs_high := price, cs_low := price\<rparr>
                 else st\<lparr>cs_high := max (cs_high st) price, cs_low := min (cs_low st) price\<rparr>)
      in st1\<lparr>cs_close := price, cs_tick_count := cs_tick_count st1 + 1,
             cs_volume := cs_volume st1 + 1, cs_last_tick_ms := tk_ms t\<rparr>)"

definition to_candle :: "timeframe \<Rightarrow> candle_state \<Rightarrow> candle" where
  "to_candle tf st =
     \<lparr>c_exchange = cs_exchange st, c_segment = cs_segment st, c_token = cs_token st,
      c_timeframe = tf, c_ms = cs_open_time_ms st, c_open = cs_open st, c_high = cs_high st,
      c_low = cs_low st, c_close = cs_close st, c_volume = cs_volume st\<rparr>"

definition reset_state :: "pyfloat \<Rightarrow> candle_state \<Rightarrow> candle_state" where
  "reset_state open_time_ms st =
     st\<lparr>cs_open := 0, cs_high := 0, cs_low := 0, cs_close := 0, cs_volume := 0,
        cs_open_time_ms := open_time_ms, cs_tick_count := 0, cs_last_tick_ms := 0\<rparr>"

type_synonym candle_key = "string \<times> timeframe"

record candle_builder =
  cb_timeframes :: "timeframe list"
  cb_states :: "candle_key \<rightharpoonup> candle_state"
  cb_history :: "candle_key \<rightharpoonup> candle list"
  cb_max_history :: nat

definition new_builder :: "timeframe list option \<Rightarrow> candle_builder" where
  "new_builder timeframes =
     \<lparr>cb_timeframes = (case timeframes of None \<Rightarrow> [M1] | Some [] \<Rightarrow> [M1] | Some (tf # tfs) \<Rightarrow> tf # tfs),
      cb_states = Map.empty, cb_history = Map.empty, cb_max_history = 500\<rparr>"

definition floor_timestamp :: "pyfloat \<Rightarrow> int \<Rightarrow> pyfloat" where
  "floor_timestamp timestamp_ms interval_ms =
     of_int ((py_int timestamp_ms div interval_ms) * interval_ms)"

definition history_of :: "candle_builder \<Rightarrow> candle_key \<Rightarrow> candle list" where
  "history_of b key = (case cb_history b key of None \<Rightarrow> [] | Some h \<Rightarrow> h)"

text \<open>\<open>_emit_candle\<close>: append, and drop the oldest once if the buffer grew past its limit.\<close>

definition emit_candle :: "candle \<Rightarrow> candle_key \<Rightarrow> candle_builder \<Rightarrow> candle_builder" where
  "emit_candle c key b =
     (let h = history_of b key @ [c];
          h' = (if length h > cb_max_history b then tl h else h)
      in b\<lparr>cb_history := (cb_history b)(key \<mapsto> h')\<rparr>)"

definition process_tick ::
  "tick \<Rightarrow> timeframe \<Rightarrow> candle_builder \<Rightarrow> candle_builder \<times> candle list" where
  "process_tick t tf b =
     (let key = (tk_token t, tf);
          interval_ms = TIMEFRAME_MS tf;
          candle_open_time = floor_timestamp (tk_ms t) interval_ms
      in case cb_states b key of
           None \<Rightarrow>
             (b\<lparr>cb_states := (cb_states b)(key \<mapsto> update_state t (fresh_state candle_open_time))\<rparr>, [])
         | Some st \<Rightarrow>
             if candle_open_time > cs_open_time_ms st \<and> cs_tick_count st > 0 then
               (let time_since_last_tick = tk_ms t - cs_last_tick_ms st;
                    max_acceptable_gap = of_int (interval_ms * 2);
                    (b1, out) = (if time_since_last_tick > max_acceptable_gap then (b, [])
                                 else (emit_candle (to_candle tf st) key b, [to_candle tf st]));
                    st1 = update_state t (reset_state candle_open_time st)
                in (b1\<lparr>cb_states := (cb_states b1)(key \<mapsto> st1)\<rparr>, out))
             else (b\<lparr>cb_states := (cb_states b)(key \<mapsto> update_state t st)\<rparr>, []))"

fun on_tick_timeframes ::
  "tick \<Rightarrow> timeframe list \<Rightarrow> candle_builder \<Rightarrow> candle_builder \<times> candle list" where
  "on_tick_timeframes t [] b = (b, [])"
| "on_tick_timeframes t (tf # tfs) b =
     (let (b1, out1) = process_tick t tf b; (b2, out2) = on_tick_timeframes t tfs b1
      in (b2, out1 @ out2))"

definition on_tick :: "tick \<Rightarrow> candle_builder \<Rightarrow> candle_builder \<times> candle list" where
  "on_tick t b = on_tick_timeframes t (cb_timeframes b) b"

text \<open>A feed of ticks, with everything it emits.\<close>

fun on_ticks :: "tick list \<Rightarrow> candle_builder \<Rightarrow> candle_builder \<times> candle list" where
  "on_ticks [] b = (b, [])"
| "on_ticks (t # ts) b =
     (let (b1, out1) = on_tick t b; (b2, out2) = on_ticks ts b1 in (b2, out1 @ out2))"

definition inject_history ::
  "string \<Rightarrow> timeframe \<Rightarrow> candle list \<Rightarrow> candle_builder \<Rightarrow> candle_builder" where
  "inject_history exchange_token tf candles b =
     (if candles = [] then b
      else
        let key = (exchange_token, tf);
            existing = history_of b key;
            new_candles = filter (\<lambda>c. c_ms c \<notin> c_ms ` set existing) candles;
            h = (if new_candles = [] then existing
                 else (let j = existing @ new_candles in
                       if length j > cb_max_history b then take_last (cb_max_history b) j else j))
        in b\<lparr>cb_history := (cb_history b)(key \<mapsto> h)\<rparr>)"

text \<open>
  \<open>get_history\<close>: \<open>count\<close> of \<open>None\<close> or 0 gives a copy of everything; \<open>history[-count:]\<close>
  with a negative count skips that many from the front.
\<close>

definition get_history ::
  "string \<Rightarrow> timeframe \<Rightarrow> int option \<Rightarrow> candle_builder \<Rightarrow> candle list" where
  "get_history exchange_token tf count b =
     (let history = history_of b (exchange_token, tf) in
      case count of
        None \<Rightarrow> history
      | Some n \<Rightarrow> if n = 0 then history
                 else if n > 0 then take_last (nat n) history
                 else drop (nat (- n)) history)"

definition get_current_candle :: "string \<Rightarrow> timeframe \<Rightarrow> candle_builder \<Rightarrow> candle option" where
  "get_current_candle exchange_token tf b =
     (case cb_states b (exchange_token, tf) of
        None \<Rightarrow> None
      | Some st \<Rightarrow> if cs_tick_count st > 0 then Some (to_candle tf st) else None)"

subsection \<open>Single bars\<close>

definition candle_state_ok :: "candle_state \<Rightarrow> bool" where
  "candle_state_ok st \<longleftrightarrow> cs_tick_count st > 0 \<and> cs_volume st = int (cs_tick_count st) \<and>
     cs_low st \<le> cs_open st \<and> cs_open st \<le> cs_high st \<and>
     cs_low st \<le> cs_close st \<and> cs_close st \<le> cs_high st"

lemma update_state_ok: "candle_state_ok st \<Longrightarrow> candle_state_ok (update_state t st)"
  by (auto simp: candle_state_ok_def update_state_def Let_def)

lemma update_fresh_ok: "candle_state_ok (update_state t (fresh_state p))"
  by (auto simp: candle_state_ok_def update_state_def fresh_state_def Let_def)

lemma update_reset_ok: "candle_state_ok (update_state t (reset_state p st))"
  by (auto simp: candle_state_ok_def update_state_def reset_state_def Let_def)

lemma to_candle_ok: "candle_state_ok st \<Longrightarrow> ohlc_ok (to_candle tf st)"
  by (auto simp: candle_state_ok_def ohlc_ok_def to_candle_def)

lemma update_state_open_time [simp]: "cs_open_time_ms (update_state t st) = cs_open_time_ms st"
  by (simp add: update_state_def Let_def)

lemma update_state_token [simp]: "cs_token (update_state t st) = tk_token t"
  by (simp add: update_state_def Let_def)

lemma update_state_labels [simp]:
  "cs_exchange (update_state t st) = tk_exchange t" "cs_segment (update_state t st) = tk_segment t"
  by (simp_all add: update_state_def Let_def)

lemma update_state_last [simp]: "cs_last_tick_ms (update_state t st) = tk_ms t"
  by (simp add: update_state_def Let_def)

lemma reset_state_open_time [simp]: "cs_open_time_ms (reset_state p st) = p"
  by (simp add: reset_state_def)

lemma fresh_state_open_time [simp]: "cs_open_time_ms (fresh_state p) = p"
  by (simp add: fresh_state_def)

lemma to_candle_simps [simp]:
  "c_ms (to_candle tf st) = cs_open_time_ms st" "c_token (to_candle tf st) = cs_token st"
  "c_timeframe (to_candle tf st) = tf"
  by (simp_all add: to_candle_def)

text \<open>The bar of a list of ticks: first, maximum, minimum, last price, and the tick count.\<close>

lemma fold_update_state:
  assumes "candle_state_ok st"
  shows "let st' = fold update_state ts st in
     cs_open st' = cs_open st \<and>
     cs_high st' = Max (insert (cs_high st) (ltp ` set ts)) \<and>
     cs_low st' = Min (insert (cs_low st) (ltp ` set ts)) \<and>
     cs_close st' = last (cs_close st # map ltp ts) \<and>
     cs_volume st' = cs_volume st + int (length ts) \<and>
     cs_open_time_ms st' = cs_open_time_ms st \<and>
     candle_state_ok st'"
  using assms
proof (induction ts arbitrary: st)
  case Nil
  then show ?case by simp
next
  case (Cons t ts)
  let ?st = "update_state t st"
  have pos: "cs_tick_count st > 0" using Cons.prems by (simp add: candle_state_ok_def)
  have step: "cs_open ?st = cs_open st" "cs_high ?st = max (cs_high st) (ltp t)"
    "cs_low ?st = min (cs_low st) (ltp t)" "cs_close ?st = ltp t" "cs_volume ?st = cs_volume st + 1"
    using pos by (simp_all add: update_state_def Let_def)
  have "Max (insert (max (cs_high st) (ltp t)) (ltp ` set ts)) =
        Max (insert (cs_high st) (insert (ltp t) (ltp ` set ts)))"
    by (cases "ts = []") (simp_all add: max.assoc)
  moreover have "Min (insert (min (cs_low st) (ltp t)) (ltp ` set ts)) =
        Min (insert (cs_low st) (insert (ltp t) (ltp ` set ts)))"
    by (cases "ts = []") (simp_all add: min.assoc)
  ultimately show ?case
    using Cons.IH[OF update_state_ok[OF Cons.prems, of t]] step by (simp add: Let_def)
qed

subsection \<open>The history buffers keep the buffer contract\<close>

lemma history_of_emit [simp]:
  "history_of (emit_candle c key b) key' =
     (if key' = key
      then (if length (history_of b key) + 1 > cb_max_history b
            then tl (history_of b key @ [c]) else history_of b key @ [c])
      else history_of b key')"
  by (simp add: emit_candle_def history_of_def Let_def)

lemma emit_candle_frame [simp]:
  "cb_states (emit_candle c key b) = cb_states b"
  "cb_max_history (emit_candle c key b) = cb_max_history b"
  "cb_timeframes (emit_candle c key b) = cb_timeframes b"
  by (simp_all add: emit_candle_def Let_def)

interpretation emit_buf: ring_buffer "\<lambda>c. emit_candle c key" "\<lambda>b. history_of b key" cb_max_history
  for key :: candle_key
proof unfold_locales
  fix b :: candle_builder and c :: candle
  assume "length (history_of b key) \<le> cb_max_history b"
  then show "history_of (emit_candle c key b) key =
      take_last (cb_max_history b) (history_of b key @ [c])"
    by (auto simp: take_last_short take_last_overflow)
qed simp

definition injected :: "candle_key \<Rightarrow> candle_builder \<Rightarrow> candle list \<Rightarrow> candle list" where
  "injected key b candles = filter (\<lambda>c. c_ms c \<notin> c_ms ` set (history_of b key)) candles"

lemma inject_history_frame [simp]:
  "cb_states (inject_history tok tf cs b) = cb_states b"
  "cb_max_history (inject_history tok tf cs b) = cb_max_history b"
  "cb_timeframes (inject_history tok tf cs b) = cb_timeframes b"
  by (simp_all add: inject_history_def Let_def)

interpretation inject_buf:
  bounded_buffer "inject_history tok tf" "\<lambda>b. history_of b (tok, tf)" cb_max_history
    "injected (tok, tf)"
  for tok :: string and tf :: timeframe
proof unfold_locales
  fix b :: candle_builder and cs :: "candle list"
  assume "length (history_of b (tok, tf)) \<le> cb_max_history b"
  then show "history_of (inject_history tok tf cs b) (tok, tf) =
      take_last (cb_max_history b) (history_of b (tok, tf) @ injected (tok, tf) b cs)"
    by (auto simp: inject_history_def injected_def history_of_def Let_def take_last_short)
qed simp

subsection \<open>A whole feed\<close>

text \<open>
  What a feed of ticks has emitted for one instrument and timeframe, and the invariant that
  ties the history buffer and the bar under construction to it.
\<close>

definition emitted_for :: "candle_key \<Rightarrow> candle list \<Rightarrow> candle list" where
  "emitted_for key out = filter (\<lambda>c. (c_token c, c_timeframe c) = key) out"

definition aligned :: "candle \<Rightarrow> bool" where
  "aligned c \<longleftrightarrow> (\<exists>k. c_ms c = of_int (k * TIMEFRAME_MS (c_timeframe c)))"

definition key_inv :: "candle_key \<Rightarrow> candle_builder \<Rightarrow> candle list \<Rightarrow> bool" where
  "key_inv key b es \<longleftrightarrow>
     history_of b key = take_last (cb_max_history b) es \<and>
     sorted_wrt (<) (map c_ms es) \<and> (\<forall>c \<in> set es. ohlc_ok c \<and> aligned c) \<and>
     (case cb_states b key of
        None \<Rightarrow> es = []
      | Some st \<Rightarrow> candle_state_ok st \<and> cs_token st = fst key \<and>
          aligned (to_candle (snd key) st) \<and> (\<forall>c \<in> set es. c_ms c < cs_open_time_ms st))"

definition feed_inv :: "candle_builder \<Rightarrow> candle list \<Rightarrow> bool" where
  "feed_inv b out \<longleftrightarrow> (\<forall>key. key_inv key b (emitted_for key out))"

lemma emitted_for_append [simp]:
  "emitted_for key (xs @ ys) = emitted_for key xs @ emitted_for key ys"
  by (simp add: emitted_for_def)

lemma emitted_for_Nil [simp]: "emitted_for key [] = []"
  by (simp add: emitted_for_def)

lemma aligned_floor: "c_ms c = floor_timestamp x (TIMEFRAME_MS (c_timeframe c)) \<Longrightarrow> aligned c"
  by (auto simp: aligned_def floor_timestamp_def)

lemma key_inv_frame:
  assumes "key_inv key b es" and "cb_states b' key = cb_states b key"
    and "history_of b' key = history_of b key" and "cb_max_history b' = cb_max_history b"
  shows "key_inv key b' es"
  using assms by (simp add: key_inv_def)

lemma process_tick_other_key:
  assumes "process_tick t tf b = (b', out)" and "key \<noteq> (tk_token t, tf)"
  shows "cb_states b' key = cb_states b key" and "history_of b' key = history_of b key"
  using assms
  by (auto simp: process_tick_def Let_def history_of_def emit_candle_def
      split: option.splits if_splits prod.splits)

lemma process_tick_frame:
  assumes "process_tick t tf b = (b', out)"
  shows "cb_max_history b' = cb_max_history b" and "cb_timeframes b' = cb_timeframes b"
  using assms
  by (auto simp: process_tick_def Let_def emit_candle_def split: option.splits if_splits prod.splits)

lemma process_tick_out:
  assumes "process_tick t tf b = (b', out)"
  shows "out = [] \<or> (\<exists>st. cb_states b (tk_token t, tf) = Some st \<and> out = [to_candle tf st])"
  using assms by (auto simp: process_tick_def Let_def split: option.splits if_splits prod.splits)

lemma history_emit_take_last:
  assumes "history_of b key = take_last (cb_max_history b) es"
  shows "history_of (emit_candle c key b) key = take_last (cb_max_history b) (es @ [c])"
  using assms emit_buf.contents_push[of b key c]
  by (simp add: take_last_take_last_append del: history_of_emit)

lemma history_of_states_update [simp]:
  "history_of (b\<lparr>cb_states := f\<rparr>) key = history_of b key"
  by (simp add: history_of_def)

lemma process_tick_same_key:
  assumes inv: "key_inv (tk_token t, tf) b es" and step: "process_tick t tf b = (b', out)"
  shows "key_inv (tk_token t, tf) b' (es @ out)"
proof -
  let ?key = "(tk_token t, tf)"
  let ?p = "floor_timestamp (tk_ms t) (TIMEFRAME_MS tf)"
  show ?thesis
  proof (cases "cb_states b ?key")
    case None
    then have b': "b' = b\<lparr>cb_states := (cb_states b)(?key \<mapsto> update_state t (fresh_state ?p))\<rparr>"
      and out: "out = []"
      using step by (simp_all add: process_tick_def Let_def)
    from inv None have "es = []" by (simp add: key_inv_def)
    with inv out b' show ?thesis
      by (auto simp: key_inv_def update_fresh_ok intro: aligned_floor)
  next
    case (Some st)
    note st = this
    from inv st have ok: "candle_state_ok st" "cs_token st = tk_token t"
      "aligned (to_candle tf st)" "\<forall>c \<in> set es. c_ms c < cs_open_time_ms st"
      by (simp_all add: key_inv_def)
    show ?thesis
    proof (cases "?p > cs_open_time_ms st \<and> cs_tick_count st > 0")
      case False
      then have "b' = b\<lparr>cb_states := (cb_states b)(?key \<mapsto> update_state t st)\<rparr>" and "out = []"
        using step st by (auto simp: process_tick_def Let_def)
      with inv ok show ?thesis
        by (auto simp: key_inv_def update_state_ok aligned_def)
    next
      case new: True
      let ?st' = "update_state t (reset_state ?p st)"
      have st': "candle_state_ok ?st'" "cs_token ?st' = tk_token t" "cs_open_time_ms ?st' = ?p"
        "aligned (to_candle tf ?st')"
        by (auto simp: update_reset_ok intro: aligned_floor)
      show ?thesis
      proof (cases "tk_ms t - cs_last_tick_ms st > of_int (TIMEFRAME_MS tf * 2)")
        case True
        then have "b' = b\<lparr>cb_states := (cb_states b)(?key \<mapsto> ?st')\<rparr>" and "out = []"
          using step st new by (auto simp: process_tick_def Let_def)
        with inv ok st' new show ?thesis by (force simp: key_inv_def)
      next
        case False
        let ?c = "to_candle tf st"
        let ?b = "emit_candle ?c ?key b"
        from False have b': "b' = ?b\<lparr>cb_states := (cb_states ?b)(?key \<mapsto> ?st')\<rparr>" and out: "out = [?c]"
          using step st new by (auto simp: process_tick_def Let_def)
        have "history_of b' ?key = take_last (cb_max_history b') (es @ [?c])"
          using inv by (simp add: b' key_inv_def history_emit_take_last del: history_of_emit)
        moreover have "sorted_wrt (<) (map c_ms (es @ [?c]))"
          using inv ok by (auto simp: key_inv_def sorted_wrt_append)
        moreover have "\<forall>c \<in> set (es @ [?c]). ohlc_ok c \<and> aligned c \<and> c_ms c < ?p"
          using inv ok new by (force simp: key_inv_def to_candle_ok)
        ultimately show ?thesis using st' by (simp add: key_inv_def out b')
      qed
    qed
  qed
qed

lemma process_tick_inv:
  assumes "feed_inv b out" and step: "process_tick t tf b = (b', out')"
  shows "feed_inv b' (out @ out')"
  unfolding feed_inv_def
proof
  fix key
  have inv: "key_inv k b (emitted_for k out)" for k using assms(1) unfolding feed_inv_def by (rule spec)
  have out': "emitted_for k out' = (if k = (tk_token t, tf) then out' else [])" for k
    using process_tick_out[OF step] inv[of "(tk_token t, tf)"]
    by (auto simp: emitted_for_def key_inv_def)
  show "key_inv key b' (emitted_for key (out @ out'))"
  proof (cases "key = (tk_token t, tf)")
    case True
    with inv[of "(tk_token t, tf)"] show ?thesis
      by (simp add: out' process_tick_same_key[OF _ step])
  next
    case False
    then show ?thesis
      using key_inv_frame[OF inv process_tick_other_key[OF step False] process_tick_frame(1)[OF step]]
      by (simp add: out')
  qed
qed

lemma on_tick_timeframes_inv:
  "feed_inv b out \<Longrightarrow> on_tick_timeframes t tfs b = (b', out') \<Longrightarrow> feed_inv b' (out @ out')"
proof (induction tfs arbitrary: b out b' out')
  case Nil
  then show ?case by simp
next
  case (Cons tf tfs)
  obtain b1 out1 where s1: "process_tick t tf b = (b1, out1)" by fastforce
  obtain b2 out2 where s2: "on_tick_timeframes t tfs b1 = (b2, out2)" by fastforce
  have "feed_inv b2 ((out @ out1) @ out2)"
    by (rule Cons.IH[OF process_tick_inv[OF Cons.prems(1) s1] s2])
  with Cons.prems(2) s1 s2 show ?case by simp
qed

lemma on_ticks_inv:
  "feed_inv b out \<Longrightarrow> on_ticks ts b = (b', out') \<Longrightarrow> feed_inv b' (out @ out')"
proof (induction ts arbitrary: b out b' out')
  case Nil
  then show ?case by simp
next
  case (Cons t ts)
  obtain b1 out1 where s1: "on_tick t b = (b1, out1)" by fastforce
  obtain b2 out2 where s2: "on_ticks ts b1 = (b2, out2)" by fastforce
  have "feed_inv b1 (out @ out1)"
    using on_tick_timeframes_inv[OF Cons.prems(1)] s1 by (simp add: on_tick_def)
  from Cons.IH[OF this s2] Cons.prems(2) s1 s2 show ?case by simp
qed

lemma new_builder_inv: "feed_inv (new_builder tfs) []"
  by (simp add: feed_inv_def key_inv_def new_builder_def history_of_def take_last_def)

lemma on_ticks_max_history:
  assumes "on_ticks ts b = (b', out)"
  shows "cb_max_history b' = cb_max_history b"
proof -
  have tfs: "cb_max_history (fst (on_tick_timeframes t tfs c)) = cb_max_history c" for t tfs c
  proof (induction tfs arbitrary: c)
    case (Cons tf tfs)
    obtain b1 out1 where s1: "process_tick t tf c = (b1, out1)" by fastforce
    with Cons.IH[of b1] process_tick_frame(1)[OF s1] show ?case by (simp add: Let_def case_prod_beta)
  qed simp
  have "cb_max_history (fst (on_ticks ts b)) = cb_max_history b"
  proof (induction ts arbitrary: b)
    case (Cons t ts)
    then show ?case using tfs[of t "cb_timeframes b" b]
      by (simp add: on_tick_def Let_def case_prod_beta)
  qed simp
  with assms show ?thesis by simp
qed

subsection \<open>One bar per period\<close>

text \<open>
  The ticks of one period, then the first tick of a later one: what the builder emits is the
  bar of exactly those ticks.
\<close>

definition bar_of :: "timeframe \<Rightarrow> pyfloat \<Rightarrow> tick \<Rightarrow> tick list \<Rightarrow> candle" where
  "bar_of tf p t ts =
     \<lparr>c_exchange = tk_exchange (last (t # ts)), c_segment = tk_segment (last (t # ts)),
      c_token = tk_token (last (t # ts)), c_timeframe = tf, c_ms = p, c_open = ltp t,
      c_high = Max (ltp ` set (t # ts)), c_low = Min (ltp ` set (t # ts)),
      c_close = ltp (last (t # ts)), c_volume = int (length (t # ts))\<rparr>"

definition same_period :: "string \<Rightarrow> timeframe \<Rightarrow> pyfloat \<Rightarrow> tick list \<Rightarrow> bool" where
  "same_period tok tf p ts \<longleftrightarrow>
     list_all (\<lambda>t. tk_token t = tok \<and> floor_timestamp (tk_ms t) (TIMEFRAME_MS tf) = p) ts"

lemma fold_update_labels:
  "cs_exchange (fold update_state ts (update_state t st)) = tk_exchange (last (t # ts)) \<and>
   cs_segment (fold update_state ts (update_state t st)) = tk_segment (last (t # ts)) \<and>
   cs_token (fold update_state ts (update_state t st)) = tk_token (last (t # ts)) \<and>
   cs_last_tick_ms (fold update_state ts (update_state t st)) = tk_ms (last (t # ts))"
  by (induction ts arbitrary: t st) simp_all

lemma to_candle_bar_of:
  "to_candle tf (fold update_state ts (update_state t (fresh_state p))) = bar_of tf p t ts"
proof -
  let ?st = "update_state t (fresh_state p)"
  have last: "last (ltp t # map ltp ts) = ltp (last (t # ts))" by (simp add: last_map)
  have "cs_open ?st = ltp t" "cs_high ?st = ltp t" "cs_low ?st = ltp t" "cs_close ?st = ltp t"
    "cs_volume ?st = 1"
    by (simp_all add: update_state_def fresh_state_def Let_def)
  with fold_update_state[OF update_fresh_ok, of ts t p] last show ?thesis
    by (simp add: to_candle_def bar_of_def Let_def fold_update_labels)
qed

lemma on_ticks_same_period:
  assumes "cb_timeframes b = [tf]" and "same_period tok tf p ts"
    and "cb_states b (tok, tf) = Some st" and "cs_open_time_ms st = p"
  shows "on_ticks ts b = (b\<lparr>cb_states := (cb_states b)((tok, tf) \<mapsto> fold update_state ts st)\<rparr>, [])"
  using assms
proof (induction ts arbitrary: b st)
  case Nil
  then have "(cb_states b)((tok, tf) \<mapsto> st) = cb_states b" by auto
  then show ?case by simp
next
  case (Cons t ts)
  let ?b = "b\<lparr>cb_states := (cb_states b)((tok, tf) \<mapsto> update_state t st)\<rparr>"
  have "on_tick t b = (?b, [])"
    using Cons.prems by (simp add: on_tick_def process_tick_def same_period_def)
  moreover have "on_ticks ts ?b =
      (?b\<lparr>cb_states := (cb_states ?b)((tok, tf) \<mapsto> fold update_state ts (update_state t st))\<rparr>, [])"
    using Cons.prems by (intro Cons.IH) (simp_all add: same_period_def)
  ultimately show ?case by (simp add: fun_upd_def cong: if_cong)
qed

lemma on_ticks_append:
  "on_ticks (xs @ ys) b =
     (let (b1, out1) = on_ticks xs b; (b2, out2) = on_ticks ys b1 in (b2, out1 @ out2))"
  by (induction xs arbitrary: b) (simp_all add: Let_def case_prod_beta)

lemma on_ticks_period:
  assumes tfs: "cb_timeframes b = [tf]" and none: "cb_states b (tok, tf) = None"
    and same: "same_period tok tf p (t # ts)"
  shows "on_ticks (t # ts) b =
    (b\<lparr>cb_states := (cb_states b)((tok, tf) \<mapsto>
        fold update_state ts (update_state t (fresh_state p)))\<rparr>, [])"
proof -
  let ?st = "update_state t (fresh_state p)"
  let ?b = "b\<lparr>cb_states := (cb_states b)((tok, tf) \<mapsto> ?st)\<rparr>"
  have "on_tick t b = (?b, [])"
    using same by (simp add: on_tick_def process_tick_def none tfs same_period_def)
  moreover have "on_ticks ts ?b = (?b\<lparr>cb_states := (cb_states ?b)((tok, tf) \<mapsto> fold update_state ts ?st)\<rparr>, [])"
    using same tfs by (intro on_ticks_same_period[where p = p]) (simp_all add: same_period_def)
  ultimately show ?thesis by (simp add: fun_upd_def cong: if_cong)
qed

lemma on_ticks_next_period:
  assumes tfs: "cb_timeframes b = [tf]" and st: "cb_states b (tok, tf) = Some st"
    and pos: "cs_tick_count st > 0" and tok: "tk_token u = tok"
    and later: "cs_open_time_ms st < floor_timestamp (tk_ms u) (TIMEFRAME_MS tf)"
  shows "snd (on_ticks [u] b) =
      (if tk_ms u - cs_last_tick_ms st > of_int (TIMEFRAME_MS tf * 2) then [] else [to_candle tf st])"
    and "get_current_candle tok tf (fst (on_ticks [u] b)) =
      Some (bar_of tf (floor_timestamp (tk_ms u) (TIMEFRAME_MS tf)) u [])"
proof -
  have new: "to_candle tf (update_state u (reset_state q st)) = bar_of tf q u []" for q
    by (simp add: to_candle_def update_state_def reset_state_def bar_of_def Let_def)
  have count: "cs_tick_count (update_state u (reset_state q st)) > 0" for q
    by (simp add: update_state_def Let_def)
  show "snd (on_ticks [u] b) =
      (if tk_ms u - cs_last_tick_ms st > of_int (TIMEFRAME_MS tf * 2) then [] else [to_candle tf st])"
    using assms by (simp add: on_tick_def process_tick_def Let_def)
  show "get_current_candle tok tf (fst (on_ticks [u] b)) =
      Some (bar_of tf (floor_timestamp (tk_ms u) (TIMEFRAME_MS tf)) u [])"
    using assms new count by (simp add: on_tick_def process_tick_def Let_def get_current_candle_def)
qed

text \<open>C17: Every bar a feed of ticks emits is well formed (low and high bound open and close) and
  aligned to its timeframe's grid; the bars of one instrument and timeframe carry strictly
  increasing open times; and the history buffer is the last 500 of them, no matter in which
  order the ticks of the feed arrive.\<close>

theorem candle_feed_correct:
  "let (b, out) = on_ticks ts (new_builder tfs) in
     list_all (\<lambda>c. ohlc_ok c \<and> aligned c) (emitted_for key out) \<and>
     sorted_wrt (<) (map c_ms (emitted_for key out)) \<and>
     history_of b key = take_last 500 (emitted_for key out)"
proof -
  obtain b out where run: "on_ticks ts (new_builder tfs) = (b, out)" by fastforce
  have "feed_inv b out" using on_ticks_inv[OF new_builder_inv run] by simp
  then have "key_inv key b (emitted_for key out)" unfolding feed_inv_def by (rule spec)
  moreover have "cb_max_history b = 500"
    using on_ticks_max_history[OF run] by (simp add: new_builder_def)
  ultimately show ?thesis by (simp add: run key_inv_def list_all_iff)
qed

text \<open>One bar per period: after the ticks of one period, the first tick of a later period
  emits the bar whose open, high, low, close and volume are the first, greatest, smallest and
  last price and the number of those ticks, unless the feed was silent for more than twice the
  interval, when the bar is discarded; either way a new bar starts with the new tick alone.\<close>

theorem period_bar:
  assumes "cb_timeframes b = [tf]" and "cb_states b (tok, tf) = None"
    and "same_period tok tf p (t # ts)"
    and "tk_token u = tok" and "p < floor_timestamp (tk_ms u) (TIMEFRAME_MS tf)"
  shows "snd (on_ticks ((t # ts) @ [u]) b) =
      (if tk_ms u - tk_ms (last (t # ts)) > of_int (TIMEFRAME_MS tf * 2) then []
       else [bar_of tf p t ts]) \<and>
    get_current_candle tok tf (fst (on_ticks ((t # ts) @ [u]) b)) =
      Some (bar_of tf (floor_timestamp (tk_ms u) (TIMEFRAME_MS tf)) u [])"
proof -
  let ?st = "fold update_state ts (update_state t (fresh_state p))"
  let ?b = "b\<lparr>cb_states := (cb_states b)((tok, tf) \<mapsto> ?st)\<rparr>"
  have run: "on_ticks (t # ts) b = (?b, [])" by (rule on_ticks_period[OF assms(1-3)])
  have st: "candle_state_ok ?st" "cs_open_time_ms ?st = p"
    using fold_update_state[OF update_fresh_ok, of ts t p] by (simp_all add: Let_def)
  have next_tick: "cb_timeframes ?b = [tf]" "cb_states ?b (tok, tf) = Some ?st" "cs_tick_count ?st > 0"
    "cs_open_time_ms ?st < floor_timestamp (tk_ms u) (TIMEFRAME_MS tf)"
    using assms st by (simp_all add: candle_state_ok_def)
  note n = on_ticks_next_period[OF next_tick(1-3) assms(4) next_tick(4)]
  from n show ?thesis
    by (simp only: on_ticks_append run Let_def case_prod_beta fst_conv snd_conv append_Nil
        fold_update_labels to_candle_bar_of)
qed

definition demo_tick :: "pyfloat \<Rightarrow> pyfloat \<Rightarrow> tick" where
  "demo_tick price ms = \<lparr>tk_exchange = ''ICMARKETS'', tk_segment = ''CFD'', tk_token = ''XAUUSD'',
     ltp = price, tk_ms = ms, tk_bid = price, tk_ask = price\<rparr>"

theorem period_bar_witness:
  "snd (on_ticks ([demo_tick 2400 60001, demo_tick 2405 90000, demo_tick 2399 119000] @
       [demo_tick 2401 120500]) (new_builder None)) =
     [bar_of M1 60000 (demo_tick 2400 60001) [demo_tick 2405 90000, demo_tick 2399 119000]]"
  using period_bar[of "new_builder None" M1 "''XAUUSD''" 60000 "demo_tick 2400 60001"
      "[demo_tick 2405 90000, demo_tick 2399 119000]" "demo_tick 2401 120500"]
  by (simp add: new_builder_def same_period_def demo_tick_def floor_timestamp_def py_int_def)

end
