(* ===== verification/Instruments.thy ===== *)
theory Instruments
  imports Prelude
begin

section \<open>CFD instrument specifications\<close>

text \<open>
  \<open>app/cfd_risk/instruments.py\<close>: the specification of an instrument, the module-level
  registry (a dictionary, here an association list that the functions take and return), the
  ten instruments it holds after import, the lookup, and the two ways a broker's contract size
  gets in. The dataclass's default lot constraints and margin are the arguments the ten
  registrations leave out, so they appear here written out.
\<close>

datatype instrument_category = METAL | FX | INDEX | COMMODITY

record cfd_instrument =
  i_symbol :: string
  i_name :: string
  i_category :: instrument_category
  pip_size :: pyfloat
  contract_size :: pyfloat
  pip_value_per_lot :: pyfloat
  point_value_per_lot :: pyfloat
  typical_spread_pips :: pyfloat
  commission_per_lot :: pyfloat
  typical_slippage_price :: pyfloat
  min_lot :: pyfloat
  max_lot :: pyfloat
  lot_step :: pyfloat
  margin_pct :: pyfloat

definition spread_cost_per_lot :: "cfd_instrument \<Rightarrow> pyfloat" where
  "spread_cost_per_lot i = typical_spread_pips i * pip_value_per_lot i"

definition total_entry_cost_per_lot :: "cfd_instrument \<Rightarrow> pyfloat" where
  "total_entry_cost_per_lot i = spread_cost_per_lot i + commission_per_lot i"

definition price_to_pips :: "cfd_instrument \<Rightarrow> pyfloat \<Rightarrow> pyfloat result" where
  "price_to_pips i d = (if pip_size i = 0 then Inl ZeroDivisionError else Inr (d / pip_size i))"

definition pips_to_price :: "cfd_instrument \<Rightarrow> pyfloat \<Rightarrow> pyfloat" where
  "pips_to_price i p = p * pip_size i"

definition sl_cost_per_lot :: "cfd_instrument \<Rightarrow> pyfloat \<Rightarrow> pyfloat" where
  "sl_cost_per_lot i d = \<bar>d\<bar> * point_value_per_lot i"

type_synonym registry = "(string \<times> cfd_instrument) list"

definition register_inst :: "cfd_instrument \<Rightarrow> registry \<Rightarrow> registry" where
  "register_inst i reg = AList.update (i_symbol i) i reg"

text \<open>\<open>str.upper\<close> on ASCII text.\<close>

definition upper_char :: "char \<Rightarrow> char" where
  "upper_char c = (let n = (of_char c :: nat) in if 97 \<le> n \<and> n \<le> 122 then char_of (n - 32) else c)"

definition upper :: "string \<Rightarrow> string" where
  "upper s = List.map upper_char s"

definition XAUUSD :: cfd_instrument where
  "XAUUSD = \<lparr>i_symbol = ''XAUUSD'', i_name = ''Gold'', i_category = METAL, pip_size = 1/100,
     contract_size = 100, pip_value_per_lot = 1, point_value_per_lot = 100,
     typical_spread_pips = 7, commission_per_lot = 7, typical_slippage_price = 8/100,
     min_lot = 1/100, max_lot = 100, lot_step = 1/100, margin_pct = 1\<rparr>"

definition XAGUSD :: cfd_instrument where
  "XAGUSD = \<lparr>i_symbol = ''XAGUSD'', i_name = ''Silver'', i_category = METAL, pip_size = 1/1000,
     contract_size = 1000, pip_value_per_lot = 1, point_value_per_lot = 1000,
     typical_spread_pips = 2, commission_per_lot = 7, typical_slippage_price = 8/1000,
     min_lot = 1/100, max_lot = 100, lot_step = 1/100, margin_pct = 1\<rparr>"

definition EURUSD :: cfd_instrument where
  "EURUSD = \<lparr>i_symbol = ''EURUSD'', i_name = ''Euro/USD'', i_category = FX, pip_size = 1/10000,
     contract_size = 100000, pip_value_per_lot = 10, point_value_per_lot = 100000,
     typical_spread_pips = 1/10, commission_per_lot = 7, typical_slippage_price = 3/100000,
     min_lot = 1/100, max_lot = 100, lot_step = 1/100, margin_pct = 1\<rparr>"

definition GBPUSD :: cfd_instrument where
  "GBPUSD = \<lparr>i_symbol = ''GBPUSD'', i_name = ''Pound/USD'', i_category = FX, pip_size = 1/10000,
     contract_size = 100000, pip_value_per_lot = 10, point_value_per_lot = 100000,
     typical_spread_pips = 4/10, commission_per_lot = 7, typical_slippage_price = 5/100000,
     min_lot = 1/100, max_lot = 100, lot_step = 1/100, margin_pct = 1\<rparr>"

definition USDJPY :: cfd_instrument where
  "USDJPY = \<lparr>i_symbol = ''USDJPY'', i_name = ''USD/Yen'', i_category = FX, pip_size = 1/100,
     contract_size = 100000, pip_value_per_lot = 65/10, point_value_per_lot = 64935/100,
     typical_spread_pips = 3/10, commission_per_lot = 7, typical_slippage_price = 5/1000,
     min_lot = 1/100, max_lot = 100, lot_step = 1/100, margin_pct = 1\<rparr>"

definition US30 :: cfd_instrument where
  "US30 = \<lparr>i_symbol = ''US30'', i_name = ''Dow Jones'', i_category = INDEX, pip_size = 1,
     contract_size = 1, pip_value_per_lot = 1, point_value_per_lot = 1,
     typical_spread_pips = 14/10, commission_per_lot = 0, typical_slippage_price = 15/10,
     min_lot = 1/100, max_lot = 100, lot_step = 1/100, margin_pct = 1\<rparr>"

definition US500 :: cfd_instrument where
  "US500 = \<lparr>i_symbol = ''US500'', i_name = ''S&P 500'', i_category = INDEX, pip_size = 1/10,
     contract_size = 1, pip_value_per_lot = 1/10, point_value_per_lot = 1,
     typical_spread_pips = 5, commission_per_lot = 0, typical_slippage_price = 3/10,
     min_lot = 1/100, max_lot = 100, lot_step = 1/100, margin_pct = 1\<rparr>"

definition USTEC :: cfd_instrument where
  "USTEC = \<lparr>i_symbol = ''USTEC'', i_name = ''Nasdaq 100'', i_category = INDEX, pip_size = 1/10,
     contract_size = 1, pip_value_per_lot = 1/10, point_value_per_lot = 1,
     typical_spread_pips = 18, commission_per_lot = 0, typical_slippage_price = 2,
     min_lot = 1/100, max_lot = 100, lot_step = 1/100, margin_pct = 1\<rparr>"

definition DE40 :: cfd_instrument where
  "DE40 = \<lparr>i_symbol = ''DE40'', i_name = ''DAX'', i_category = INDEX, pip_size = 1/10,
     contract_size = 1, pip_value_per_lot = 1/10, point_value_per_lot = 1,
     typical_spread_pips = 13, commission_per_lot = 0, typical_slippage_price = 15/10,
     min_lot = 1/100, max_lot = 100, lot_step = 1/100, margin_pct = 1\<rparr>"

definition XTIUSD :: cfd_instrument where
  "XTIUSD = \<lparr>i_symbol = ''XTIUSD'', i_name = ''WTI Crude Oil'', i_category = COMMODITY, pip_size = 1/100,
     contract_size = 100, pip_value_per_lot = 1, point_value_per_lot = 100,
     typical_spread_pips = 34/10, commission_per_lot = 0, typical_slippage_price = 3/100,
     min_lot = 1/100, max_lot = 100, lot_step = 1/100, margin_pct = 1\<rparr>"

definition default_instruments :: "cfd_instrument list" where
  "default_instruments = [XAUUSD, XAGUSD, EURUSD, GBPUSD, USDJPY, US30, US500, USTEC, DE40, XTIUSD]"

definition default_registry :: registry where
  "default_registry = fold register_inst default_instruments []"

definition get_instrument :: "registry \<Rightarrow> string \<Rightarrow> cfd_instrument result" where
  "get_instrument reg symbol =
     (case map_of reg (upper symbol) of
        None \<Rightarrow> Inl (KeyError symbol)
      | Some i \<Rightarrow> Inr i)"

definition get_instruments_by_category ::
  "registry \<Rightarrow> instrument_category \<Rightarrow> cfd_instrument list" where
  "get_instruments_by_category reg cat = filter (\<lambda>i. i_category i = cat) (List.map snd reg)"

text \<open>
  \<open>set_contract_size\<close>: the values linear in the contract size are rescaled; a change below
  \<open>1e-9\<close> is none. Besides the result, the registry after the call.
\<close>

definition set_contract_size ::
  "string \<Rightarrow> pyfloat \<Rightarrow> registry \<Rightarrow> cfd_instrument result \<times> registry" where
  "set_contract_size symbol new_contract_size reg =
     (let key = upper symbol in
      case map_of reg key of
        None \<Rightarrow> (Inl (KeyError symbol), reg)
      | Some inst \<Rightarrow>
          if new_contract_size \<le> 0 then (Inl (ValueError ''contract_size must be > 0''), reg)
          else if contract_size inst \<le> 0
          then (Inl (ValueError ''non-positive base contract_size''), reg)
          else if \<bar>new_contract_size - contract_size inst\<bar> < 1 / 10^9 then (Inr inst, reg)
          else
            let ratio = new_contract_size / contract_size inst;
                updated = inst\<lparr>contract_size := new_contract_size,
                               pip_value_per_lot := pip_value_per_lot inst * ratio,
                               point_value_per_lot := point_value_per_lot inst * ratio\<rparr>
            in (Inr updated, AList.update key updated reg))"

text \<open>\<open>apply_broker_spec\<close>: the broker's tick value and size give the point value.\<close>

definition apply_broker_spec ::
  "string \<Rightarrow> pyfloat \<Rightarrow> pyfloat \<Rightarrow> pyfloat \<Rightarrow> registry \<Rightarrow> cfd_instrument result \<times> registry" where
  "apply_broker_spec symbol csize tick_value tick_size reg =
     (let key = upper symbol in
      case map_of reg key of
        None \<Rightarrow> (Inl (KeyError symbol), reg)
      | Some inst \<Rightarrow>
          if tick_size = 0 \<or> tick_size \<le> 0 \<or> csize = 0 \<or> csize \<le> 0
          then (Inl (ValueError ''invalid broker spec''), reg)
          else
            let point_value = tick_value / tick_size;
                pip_value = point_value * pip_size inst;
                updated = inst\<lparr>contract_size := csize, point_value_per_lot := point_value,
                               pip_value_per_lot := pip_value\<rparr>
            in (Inr updated, AList.update key updated reg))"

text \<open>
  \<open>_apply_env_overrides\<close>: what the environment holds for \<open>CFD_CONTRACT_SIZE_<SYMBOL>\<close>
  after \<open>strip\<close> and \<open>float\<close> is the argument \<open>env\<close>; an override that is not a number, or
  that \<open>set_contract_size\<close> refuses, is logged and skipped.
\<close>

datatype env_float = Unset | NotANumber | Number pyfloat

definition apply_env_override :: "(string \<Rightarrow> env_float) \<Rightarrow> string \<Rightarrow> registry \<Rightarrow> registry" where
  "apply_env_override env key reg =
     (case env key of
        Unset \<Rightarrow> reg
      | NotANumber \<Rightarrow> reg
      | Number sz \<Rightarrow> snd (set_contract_size key sz reg))"

definition apply_env_overrides :: "(string \<Rightarrow> env_float) \<Rightarrow> registry \<Rightarrow> registry" where
  "apply_env_overrides env reg = fold (apply_env_override env) (List.map fst reg) reg"

subsection \<open>Well-formed specifications\<close>

definition wf_instrument :: "cfd_instrument \<Rightarrow> bool" where
  "wf_instrument i \<longleftrightarrow>
     0 < pip_size i \<and> 0 < contract_size i \<and> 0 < pip_value_per_lot i \<and> 0 < point_value_per_lot i \<and>
     0 \<le> typical_spread_pips i \<and> 0 \<le> commission_per_lot i \<and> 0 \<le> typical_slippage_price i \<and>
     0 < lot_step i \<and> 0 < min_lot i \<and> min_lot i \<le> max_lot i"

text \<open>Lot sizes on the grid of hundredths, to which results are rounded.\<close>

definition cent_lots :: "cfd_instrument \<Rightarrow> bool" where
  "cent_lots i \<longleftrightarrow> lot_step i * 100 \<in> \<int> \<and> max_lot i * 100 \<in> \<int>"

definition wf_registry :: "registry \<Rightarrow> bool" where
  "wf_registry reg \<longleftrightarrow> distinct (List.map fst reg) \<and>
     list_all (\<lambda>(k, i). wf_instrument i \<and> cent_lots i \<and> i_symbol i = k) reg"

lemma wf_registry_lookup:
  "wf_registry reg \<Longrightarrow> map_of reg k = Some i \<Longrightarrow> wf_instrument i \<and> cent_lots i \<and> i_symbol i = k"
  by (auto simp: wf_registry_def list_all_iff dest: map_of_SomeD)

lemma get_instrument_wf:
  "wf_registry reg \<Longrightarrow> get_instrument reg s = Inr i \<Longrightarrow>
   wf_instrument i \<and> cent_lots i \<and> i_symbol i = upper s"
  by (auto simp: get_instrument_def wf_registry_lookup split: option.splits)

lemma wf_registry_update:
  "wf_registry reg \<Longrightarrow> wf_instrument i \<Longrightarrow> cent_lots i \<Longrightarrow> i_symbol i = k \<Longrightarrow>
   wf_registry (AList.update k i reg)"
  using set_update_subset[of k i reg]
  by (fastforce simp: wf_registry_def list_all_iff distinct_update)

lemmas instrument_defs =
  XAUUSD_def XAGUSD_def EURUSD_def GBPUSD_def USDJPY_def US30_def US500_def USTEC_def DE40_def
  XTIUSD_def

lemma wf_default_instruments:
  "list_all (\<lambda>i. wf_instrument i \<and> cent_lots i) default_instruments"
  by (simp add: default_instruments_def wf_instrument_def cent_lots_def instrument_defs)

lemma wf_fold_register:
  "list_all (\<lambda>i. wf_instrument i \<and> cent_lots i) is \<Longrightarrow> wf_registry reg \<Longrightarrow>
   wf_registry (fold register_inst is reg)"
  by (induction "is" arbitrary: reg) (auto simp: register_inst_def intro!: wf_registry_update)

lemma wf_default_registry: "wf_registry default_registry"
  unfolding default_registry_def
  by (intro wf_fold_register wf_default_instruments) (simp add: wf_registry_def)

lemma default_registry_eq:
  "default_registry = List.map (\<lambda>i. (i_symbol i, i)) default_instruments"
  by (simp add: default_registry_def default_instruments_def register_inst_def instrument_defs)

text \<open>A registry with one entry, for concrete instances.\<close>

definition gold_registry :: registry where
  "gold_registry = [(''XAUUSD'', XAUUSD)]"

lemma upper_gold [simp]: "upper ''XAUUSD'' = ''XAUUSD''"
  by code_simp

lemma gold_fields [simp]:
  "i_symbol XAUUSD = ''XAUUSD''" "pip_size XAUUSD = 1/100" "contract_size XAUUSD = 100"
  "pip_value_per_lot XAUUSD = 1" "point_value_per_lot XAUUSD = 100"
  "typical_spread_pips XAUUSD = 7" "commission_per_lot XAUUSD = 7"
  "typical_slippage_price XAUUSD = 8/100" "min_lot XAUUSD = 1/100" "max_lot XAUUSD = 100"
  "lot_step XAUUSD = 1/100"
  by (simp_all add: XAUUSD_def)

lemma gold_wf: "wf_instrument XAUUSD" "cent_lots XAUUSD"
  by (simp_all add: wf_instrument_def cent_lots_def)

lemma gold_registry_wf: "wf_registry gold_registry"
  by (simp add: wf_registry_def gold_registry_def gold_wf)

lemma gold_lookup: "get_instrument gold_registry ''XAUUSD'' = Inr XAUUSD"
  by (simp add: get_instrument_def gold_registry_def)

subsection \<open>Lookup and updates\<close>

text \<open>
  What the cost model, the position sizing and the executors rely on: whatever a lookup
  returns is a usable specification, and whatever updates the registry keeps that.
\<close>

locale instrument_source =
  fixes lookup :: "'r \<Rightarrow> string \<Rightarrow> cfd_instrument result"
    and ok :: "'r \<Rightarrow> bool"
  assumes lookup_wf: "ok r \<Longrightarrow> lookup r s = Inr i \<Longrightarrow> wf_instrument i \<and> cent_lots i"
begin

lemma lookup_point_value: "ok r \<Longrightarrow> lookup r s = Inr i \<Longrightarrow> 0 < point_value_per_lot i"
  by (drule (1) lookup_wf) (simp add: wf_instrument_def)

lemma lookup_sl_cost: "ok r \<Longrightarrow> lookup r s = Inr i \<Longrightarrow> d \<noteq> 0 \<Longrightarrow> 0 < sl_cost_per_lot i d"
  by (drule (1) lookup_wf) (simp add: wf_instrument_def sl_cost_per_lot_def)

lemma lookup_pips: "ok r \<Longrightarrow> lookup r s = Inr i \<Longrightarrow> price_to_pips i d = Inr (d / pip_size i)"
  by (drule (1) lookup_wf) (simp add: wf_instrument_def price_to_pips_def)

end

interpretation registry_source: instrument_source get_instrument wf_registry
  by unfold_locales (auto dest: get_instrument_wf)

lemma set_contract_size_cases:
  assumes "map_of reg (upper s) = Some i" and "0 < n" and "0 < contract_size i"
  shows "set_contract_size s n reg =
    (if \<bar>n - contract_size i\<bar> < 1 / 10^9 then (Inr i, reg)
     else let j = i\<lparr>contract_size := n,
                    pip_value_per_lot := pip_value_per_lot i * (n / contract_size i),
                    point_value_per_lot := point_value_per_lot i * (n / contract_size i)\<rparr>
          in (Inr j, AList.update (upper s) j reg))"
  using assms by (simp add: set_contract_size_def Let_def)

lemma set_contract_size_wf:
  assumes "wf_registry reg"
  shows "wf_registry (snd (set_contract_size s n reg))"
proof (cases "map_of reg (upper s)")
  case None
  with assms show ?thesis by (simp add: set_contract_size_def)
next
  case (Some i)
  with assms have i: "wf_instrument i" "cent_lots i" "i_symbol i = upper s"
    using wf_registry_lookup by blast+
  then show ?thesis
    using assms Some
    by (auto simp: set_contract_size_def Let_def wf_instrument_def cent_lots_def
        intro!: wf_registry_update)
qed

lemma apply_broker_spec_wf:
  assumes "wf_registry reg" and "0 < tick_value"
  shows "wf_registry (snd (apply_broker_spec s n tick_value tick_size reg))"
proof (cases "map_of reg (upper s)")
  case None
  with assms show ?thesis by (simp add: apply_broker_spec_def)
next
  case (Some i)
  with assms have i: "wf_instrument i" "cent_lots i" "i_symbol i = upper s"
    using wf_registry_lookup by blast+
  then show ?thesis
    using assms Some
    by (auto simp: apply_broker_spec_def Let_def wf_instrument_def cent_lots_def
        intro!: wf_registry_update)
qed

lemma set_contract_size_keys:
  "dom (map_of (snd (set_contract_size s n reg))) = dom (map_of reg)"
  by (auto simp: set_contract_size_def Let_def update_conv' dom_def split: option.splits if_splits)

lemma apply_env_overrides_wf:
  assumes "wf_registry reg"
  shows "wf_registry (apply_env_overrides env reg)"
proof -
  have "wf_registry (fold (apply_env_override env) ks r)" if "wf_registry r" for ks r
    using that
    by (induction ks arbitrary: r)
       (auto simp: apply_env_override_def set_contract_size_wf split: env_float.splits)
  with assms show ?thesis by (simp add: apply_env_overrides_def)
qed

text \<open>Overriding a contract size and putting the old one back restores the specification
  exactly (for a change of at least \<open>1e-9\<close>, below which the call changes nothing), and in
  between the dollar value of a move per unit of contract is the one it was.\<close>

theorem contract_size_roundtrip:
  assumes "wf_registry reg" and "get_instrument reg s = Inr i" and "0 < n"
    and "1 / 10^9 \<le> \<bar>n - contract_size i\<bar>"
  shows "let (r1, reg1) = set_contract_size s n reg;
             (r2, reg2) = set_contract_size s (contract_size i) reg1
         in r2 = Inr i \<and> get_instrument reg2 s = Inr i \<and>
            get_instrument reg1 s = r1 \<and>
            (case r1 of Inl e \<Rightarrow> False
             | Inr j \<Rightarrow> contract_size j = n \<and>
                 point_value_per_lot j / n = point_value_per_lot i / contract_size i \<and>
                 pip_value_per_lot j / n = pip_value_per_lot i / contract_size i)"
proof -
  from assms(2) have look: "map_of reg (upper s) = Some i"
    by (simp add: get_instrument_def split: option.splits)
  have pos: "0 < contract_size i"
    using get_instrument_wf[OF assms(1,2)] by (simp add: wf_instrument_def)
  let ?j = "i\<lparr>contract_size := n,
              pip_value_per_lot := pip_value_per_lot i * (n / contract_size i),
              point_value_per_lot := point_value_per_lot i * (n / contract_size i)\<rparr>"
  let ?reg1 = "AList.update (upper s) ?j reg"
  have s1: "set_contract_size s n reg = (Inr ?j, ?reg1)"
    using assms(3,4) by (simp add: set_contract_size_cases[OF look _ pos] Let_def)
  have look1: "map_of ?reg1 (upper s) = Some ?j" by simp
  have s2: "set_contract_size s (contract_size i) ?reg1 = (Inr i, AList.update (upper s) i ?reg1)"
    using assms(3,4) pos
    by (simp add: set_contract_size_def look1 Let_def abs_minus_commute)
  from s1 s2 assms(3) pos show ?thesis by (simp add: get_instrument_def)
qed

theorem contract_size_roundtrip_witness:
  "snd (set_contract_size ''xagusd'' 1000
      (snd (set_contract_size ''xagusd'' 5000 [(''XAGUSD'', XAGUSD)]))) = [(''XAGUSD'', XAGUSD)]
   \<and> get_instrument [(''XAGUSD'', XAGUSD)] ''xagusd'' = Inr XAGUSD"
proof -
  have up: "upper ''xagusd'' = ''XAGUSD''" by code_simp
  have wf: "wf_registry [(''XAGUSD'', XAGUSD)]"
    by (simp add: wf_registry_def wf_instrument_def cent_lots_def XAGUSD_def)
  have look: "get_instrument [(''XAGUSD'', XAGUSD)] ''xagusd'' = Inr XAGUSD"
    by (simp add: get_instrument_def up)
  have "1 / 10^9 \<le> \<bar>5000 - contract_size XAGUSD\<bar>" "(0::real) < 5000"
    by (simp_all add: XAGUSD_def)
  from contract_size_roundtrip[OF wf look this(2,1)] look show ?thesis
    by (simp add: set_contract_size_def up XAGUSD_def Let_def)
qed

end
