(* ===== verification/Costs.thy ===== *)
theory Costs
  imports Instruments
begin

section \<open>CFD cost model\<close>

text \<open>
  \<open>app/cfd_risk/costs.py\<close>: spread, commission, slippage and swap of a round trip, each
  rounded to cents, and the pre-built models. The functions take the instrument registry the
  Python reads from the module \<open>instruments\<close>.
\<close>

record trade_cost =
  tc_symbol :: string
  tc_lot_size :: pyfloat
  spread_usd :: pyfloat
  commission_usd :: pyfloat
  slippage_usd :: pyfloat
  swap_usd :: pyfloat
  total_usd :: pyfloat

record cost_model =
  cm_name :: string
  slippage_pips :: pyfloat
  spread_multiplier :: pyfloat
  commission_multiplier :: pyfloat
  open_spread_multiplier :: pyfloat
  slippage_price_multiplier :: "pyfloat option"
  swap_per_night_usd :: pyfloat
  nights_held :: int

definition default_cost_model :: cost_model where
  "default_cost_model = \<lparr>cm_name = ''default'', slippage_pips = 1/2, spread_multiplier = 1,
     commission_multiplier = 1, open_spread_multiplier = 1, slippage_price_multiplier = None,
     swap_per_night_usd = 0, nights_held = 0\<rparr>"

definition COST_MODEL_INTRADAY :: cost_model where
  "COST_MODEL_INTRADAY = default_cost_model\<lparr>cm_name := ''intraday'', slippage_pips := 1/2,
     spread_multiplier := 1, swap_per_night_usd := 0, nights_held := 0\<rparr>"

definition COST_MODEL_CONSERVATIVE :: cost_model where
  "COST_MODEL_CONSERVATIVE = default_cost_model\<lparr>cm_name := ''conservative'', slippage_pips := 1,
     spread_multiplier := 15/10, swap_per_night_usd := 0, nights_held := 0\<rparr>"

definition COST_MODEL_SESSION_OPEN :: cost_model where
  "COST_MODEL_SESSION_OPEN = default_cost_model\<lparr>cm_name := ''session_open'', spread_multiplier := 1,
     open_spread_multiplier := 2, slippage_price_multiplier := Some 1, slippage_pips := 0,
     swap_per_night_usd := 0, nights_held := 0\<rparr>"

definition COST_MODEL_ZERO :: cost_model where
  "COST_MODEL_ZERO = default_cost_model\<lparr>cm_name := ''zero'', slippage_pips := 0,
     spread_multiplier := 0, swap_per_night_usd := 0, nights_held := 0\<rparr>"

definition COST_MODEL_RAW :: cost_model where
  "COST_MODEL_RAW = default_cost_model\<lparr>cm_name := ''raw'', slippage_pips := 0,
     spread_multiplier := 0, commission_multiplier := 0, swap_per_night_usd := 0, nights_held := 0\<rparr>"

text \<open>
  \<open>calculate_trade_cost\<close> with its keyword arguments in the source's order; the defaults are
  the caller's. A model replaces every individual parameter except an explicit
  \<open>slippage_pips\<close>.
\<close>

definition calculate_trade_cost ::
  "registry \<Rightarrow> string \<Rightarrow> pyfloat \<Rightarrow> pyfloat option \<Rightarrow> pyfloat \<Rightarrow> pyfloat \<Rightarrow> int \<Rightarrow>
   cost_model option \<Rightarrow> cfd_instrument option \<Rightarrow> trade_cost result" where
  "calculate_trade_cost reg symbol lot_size slip_pips0 spread_mult0 swap0 nights0 model instrument =
     (case (case instrument of Some i \<Rightarrow> Inr i | None \<Rightarrow> get_instrument reg symbol) of
        Inl e \<Rightarrow> Inl e
      | Inr inst \<Rightarrow>
          let slip_pips1 = (case model of
                 None \<Rightarrow> slip_pips0
               | Some m \<Rightarrow> (case slip_pips0 of None \<Rightarrow> Some (slippage_pips m) | Some x \<Rightarrow> Some x));
              spread_mult = (case model of None \<Rightarrow> spread_mult0 | Some m \<Rightarrow> spread_multiplier m);
              open_mult = (case model of None \<Rightarrow> 1 | Some m \<Rightarrow> open_spread_multiplier m);
              slip_price_mult = (case model of None \<Rightarrow> None | Some m \<Rightarrow> slippage_price_multiplier m);
              comm_mult = (case model of None \<Rightarrow> 1 | Some m \<Rightarrow> commission_multiplier m);
              swap_night = (case model of None \<Rightarrow> swap0 | Some m \<Rightarrow> swap_per_night_usd m);
              nights = (case model of None \<Rightarrow> nights0 | Some m \<Rightarrow> nights_held m);
              slip_pips = (case slip_pips1 of None \<Rightarrow> 1/2 | Some x \<Rightarrow> x);
              spread = typical_spread_pips inst * pip_value_per_lot inst * lot_size
                         * spread_mult * open_mult;
              commission = commission_per_lot inst * lot_size * comm_mult;
              slippage = (case slip_price_mult of
                 Some k \<Rightarrow> typical_slippage_price inst * point_value_per_lot inst * lot_size * k
               | None \<Rightarrow> slip_pips * pip_value_per_lot inst * lot_size);
              swap = swap_night * lot_size * of_int nights;
              total = spread + commission + slippage + swap
          in Inr \<lparr>tc_symbol = i_symbol inst, tc_lot_size = lot_size,
                  spread_usd = py_round spread 2, commission_usd = py_round commission 2,
                  slippage_usd = py_round slippage 2, swap_usd = py_round swap 2,
                  total_usd = py_round total 2\<rparr>)"

definition total_pips :: "registry \<Rightarrow> trade_cost \<Rightarrow> pyfloat result" where
  "total_pips reg c =
     (case get_instrument reg (tc_symbol c) of
        Inl e \<Rightarrow> Inl e
      | Inr inst \<Rightarrow> if pip_value_per_lot inst \<le> 0 \<or> tc_lot_size c \<le> 0 then Inr 0
                   else Inr (total_usd c / (pip_value_per_lot inst * tc_lot_size c)))"

text \<open>The call both executors make: a model and a pre-fetched instrument.\<close>

definition model_cost :: "cost_model \<Rightarrow> cfd_instrument \<Rightarrow> pyfloat \<Rightarrow> pyfloat" where
  "model_cost m inst lots =
     (case calculate_trade_cost [] (i_symbol inst) lots None 1 0 0 (Some m) (Some inst) of
        Inl e \<Rightarrow> 0 | Inr c \<Rightarrow> total_usd c)"

definition cost_per_lot_usd :: "registry \<Rightarrow> string \<Rightarrow> cost_model option \<Rightarrow> pyfloat result" where
  "cost_per_lot_usd reg symbol model =
     (let m = (case model of None \<Rightarrow> COST_MODEL_INTRADAY | Some m \<Rightarrow> m) in
      case calculate_trade_cost reg symbol 1 None 1 0 0 (Some m) None of
        Inl e \<Rightarrow> Inl e | Inr c \<Rightarrow> Inr (total_usd c))"

definition cost_in_pips :: "registry \<Rightarrow> string \<Rightarrow> cost_model option \<Rightarrow> pyfloat result" where
  "cost_in_pips reg symbol model =
     (let m = (case model of None \<Rightarrow> COST_MODEL_INTRADAY | Some m \<Rightarrow> m) in
      case calculate_trade_cost reg symbol 1 None 1 0 0 (Some m) None of
        Inl e \<Rightarrow> Inl e | Inr c \<Rightarrow> total_pips reg c)"

lemmas cost_model_defs =
  default_cost_model_def COST_MODEL_INTRADAY_def COST_MODEL_CONSERVATIVE_def
  COST_MODEL_SESSION_OPEN_def COST_MODEL_ZERO_def COST_MODEL_RAW_def

subsection \<open>The exact cost before rounding\<close>

definition wf_cost_model :: "cost_model \<Rightarrow> bool" where
  "wf_cost_model m \<longleftrightarrow> 0 \<le> slippage_pips m \<and> 0 \<le> spread_multiplier m \<and>
     0 \<le> commission_multiplier m \<and> 0 \<le> open_spread_multiplier m \<and>
     (case slippage_price_multiplier m of None \<Rightarrow> True | Some k \<Rightarrow> 0 \<le> k) \<and>
     0 \<le> swap_per_night_usd m \<and> 0 \<le> nights_held m"

definition slippage_per_lot :: "cost_model \<Rightarrow> cfd_instrument \<Rightarrow> pyfloat" where
  "slippage_per_lot m i = (case slippage_price_multiplier m of
     Some k \<Rightarrow> typical_slippage_price i * point_value_per_lot i * k
   | None \<Rightarrow> slippage_pips m * pip_value_per_lot i)"

definition exact_cost_per_lot :: "cost_model \<Rightarrow> cfd_instrument \<Rightarrow> pyfloat" where
  "exact_cost_per_lot m i =
     typical_spread_pips i * pip_value_per_lot i * spread_multiplier m * open_spread_multiplier m
     + commission_per_lot i * commission_multiplier m + slippage_per_lot m i
     + swap_per_night_usd m * of_int (nights_held m)"

lemma model_cost_eq: "model_cost m i lots = py_round (exact_cost_per_lot m i * lots) 2"
proof -
  have "slippage_per_lot m i * lots = (case slippage_price_multiplier m of
       Some k \<Rightarrow> typical_slippage_price i * point_value_per_lot i * lots * k
     | None \<Rightarrow> slippage_pips m * pip_value_per_lot i * lots)"
    by (simp add: slippage_per_lot_def split: option.split)
  then have "exact_cost_per_lot m i * lots =
      typical_spread_pips i * pip_value_per_lot i * lots * spread_multiplier m * open_spread_multiplier m
      + commission_per_lot i * lots * commission_multiplier m
      + (case slippage_price_multiplier m of
           Some k \<Rightarrow> typical_slippage_price i * point_value_per_lot i * lots * k
         | None \<Rightarrow> slippage_pips m * pip_value_per_lot i * lots)
      + swap_per_night_usd m * lots * of_int (nights_held m)"
    by (simp add: exact_cost_per_lot_def distrib_right)
  then show ?thesis
    by (simp add: model_cost_def calculate_trade_cost_def Let_def split: option.split)
qed

lemma calculate_trade_cost_model:
  "calculate_trade_cost reg s lots None sm sw nh (Some m) (Some i) = Inr c \<Longrightarrow>
   total_usd c = model_cost m i lots"
  by (auto simp: calculate_trade_cost_def model_cost_def Let_def)

lemma exact_cost_nonneg: "wf_instrument i \<Longrightarrow> wf_cost_model m \<Longrightarrow> 0 \<le> exact_cost_per_lot m i"
  by (auto simp: exact_cost_per_lot_def slippage_per_lot_def wf_instrument_def wf_cost_model_def
      intro!: add_nonneg_nonneg mult_nonneg_nonneg split: option.splits)

lemma wf_prebuilt_models:
  "list_all wf_cost_model [COST_MODEL_INTRADAY, COST_MODEL_CONSERVATIVE, COST_MODEL_SESSION_OPEN,
     COST_MODEL_ZERO, COST_MODEL_RAW]"
  by (simp add: wf_cost_model_def cost_model_defs)

lemma model_cost_nonneg:
  "wf_instrument i \<Longrightarrow> wf_cost_model m \<Longrightarrow> 0 \<le> lots \<Longrightarrow> 0 \<le> model_cost m i lots"
  by (simp add: model_cost_eq py_round_nonneg exact_cost_nonneg)

lemma model_cost_mono:
  "wf_instrument i \<Longrightarrow> wf_cost_model m \<Longrightarrow> lots \<le> lots' \<Longrightarrow> model_cost m i lots \<le> model_cost m i lots'"
  by (simp add: model_cost_eq py_round_mono mult_left_mono exact_cost_nonneg)

text \<open>The cost charged for a trade is the linear per-lot cost (spread times its two
  multipliers, commission, slippage in pips or in the instrument's own price units, swap) to
  within half a cent; it is never negative and grows with the lot size; the model that charges
  nothing charges exactly nothing, and the zero model exactly the rounded commission.\<close>

theorem trade_cost_correct:
  assumes "wf_registry reg" and "get_instrument reg s = Inr i" and "wf_cost_model m"
    and "0 \<le> lots" and "lots \<le> lots'"
  shows "(case calculate_trade_cost reg s lots None 1 0 0 (Some m) None of
      Inl e \<Rightarrow> False
    | Inr c \<Rightarrow> \<bar>total_usd c - exact_cost_per_lot m i * lots\<bar> \<le> 1 / 200 \<and> 0 \<le> total_usd c \<and>
        total_usd c = model_cost m i lots \<and> total_usd c \<le> model_cost m i lots') \<and>
    model_cost COST_MODEL_RAW i lots = 0 \<and>
    model_cost COST_MODEL_ZERO i lots = py_round (commission_per_lot i * lots) 2"
proof (intro conjI)
  have wf: "wf_instrument i" using get_instrument_wf[OF assms(1,2)] by simp
  have c: "calculate_trade_cost reg s lots None 1 0 0 (Some m) None =
      calculate_trade_cost [] (i_symbol i) lots None 1 0 0 (Some m) (Some i)"
    using assms(2) by (simp add: calculate_trade_cost_def)
  obtain c where r: "calculate_trade_cost [] (i_symbol i) lots None 1 0 0 (Some m) (Some i) = Inr c"
    by (simp add: calculate_trade_cost_def Let_def)
  from calculate_trade_cost_model[OF r] have "total_usd c = model_cost m i lots" .
  from this show "case calculate_trade_cost reg s lots None 1 0 0 (Some m) None of
      Inl e \<Rightarrow> False
    | Inr c \<Rightarrow> \<bar>total_usd c - exact_cost_per_lot m i * lots\<bar> \<le> 1 / 200 \<and> 0 \<le> total_usd c \<and>
        total_usd c = model_cost m i lots \<and> total_usd c \<le> model_cost m i lots'"
    using py_round_error[of "exact_cost_per_lot m i * lots" 2]
      model_cost_nonneg[OF wf assms(3,4)] model_cost_mono[OF wf assms(3,5)]
    by (simp add: c r model_cost_eq)
  show "model_cost COST_MODEL_RAW i lots = 0"
    by (simp add: model_cost_eq exact_cost_per_lot_def slippage_per_lot_def cost_model_defs)
  show "model_cost COST_MODEL_ZERO i lots = py_round (commission_per_lot i * lots) 2"
    by (simp add: model_cost_eq exact_cost_per_lot_def slippage_per_lot_def cost_model_defs)
qed

theorem trade_cost_correct_witness:
  "case calculate_trade_cost gold_registry ''XAUUSD'' (1/2) None 1 0 0
      (Some COST_MODEL_INTRADAY) None of
     Inl e \<Rightarrow> False
   | Inr c \<Rightarrow> \<bar>total_usd c - 29/4\<bar> \<le> 1/200"
proof -
  have m: "wf_cost_model COST_MODEL_INTRADAY" using wf_prebuilt_models by simp
  have e: "exact_cost_per_lot COST_MODEL_INTRADAY XAUUSD = 29/2"
    by (simp add: exact_cost_per_lot_def slippage_per_lot_def cost_model_defs)
  from trade_cost_correct[OF gold_registry_wf gold_lookup m, of "1/2" "1/2", unfolded e]
  show ?thesis by (auto split: sum.splits)
qed

text \<open>
  The docstring says that \<open>spread_multiplier\<close> "overrides cost_model"; the code gives the
  model the last word, and only an explicit \<open>slippage_pips\<close> survives it, unless the model
  prices slippage in price units.
\<close>

lemma explicit_spread_multiplier_ignored:
  "calculate_trade_cost reg s lots sp sm sw nh (Some m) inst =
   calculate_trade_cost reg s lots sp sm' sw' nh' (Some m) inst"
  by (simp add: calculate_trade_cost_def Let_def split: sum.split option.split)

lemma explicit_slippage_pips_ignored:
  "slippage_price_multiplier m = Some k \<Longrightarrow>
   calculate_trade_cost reg s lots sp sm sw nh (Some m) inst =
   calculate_trade_cost reg s lots sp' sm sw nh (Some m) inst"
  by (simp add: calculate_trade_cost_def Let_def split: sum.split option.split)

end
