(* ===== verification/Position_Sizing.thy ===== *)
theory Position_Sizing
  imports Instruments
begin

section \<open>Position sizing\<close>

text \<open>
  \<open>app/cfd_risk/position_sizing.py\<close>: the lot size for a risk budget and a stop distance,
  rounded down to the instrument's lot step and clamped to its limits. The reason strings,
  which carry formatted numbers, are constructors with the numbers as arguments.
\<close>

datatype reject_reason =
    Accepted
  | SL_distance_zero
  | Balance_not_positive
  | SL_cost_zero
  | Below_min_lot pyfloat pyfloat

record size_result =
  lot_size :: pyfloat
  risk_usd :: pyfloat
  sz_risk_pct :: pyfloat
  raw_lots :: pyfloat
  rejected :: bool
  reject_reason :: reject_reason
  sl_pips :: pyfloat
  sz_sl_cost_per_lot :: pyfloat

definition reject_with ::
  "reject_reason \<Rightarrow> pyfloat \<Rightarrow> pyfloat \<Rightarrow> pyfloat \<Rightarrow> size_result" where
  "reject_with why raw pips cost =
     \<lparr>lot_size = 0, risk_usd = 0, sz_risk_pct = 0, raw_lots = raw, rejected = True,
      reject_reason = why, sl_pips = pips, sz_sl_cost_per_lot = cost\<rparr>"

definition calculate_lot_size ::
  "registry \<Rightarrow> string \<Rightarrow> pyfloat \<Rightarrow> pyfloat \<Rightarrow> pyfloat \<Rightarrow> cfd_instrument option \<Rightarrow> size_result result" where
  "calculate_lot_size reg symbol account_balance risk_pct sl_distance_price instrument =
     (case (case instrument of Some i \<Rightarrow> Inr i | None \<Rightarrow> get_instrument reg symbol) of
        Inl e \<Rightarrow> Inl e
      | Inr inst \<Rightarrow>
          let sl_distance = \<bar>sl_distance_price\<bar> in
          if sl_distance \<le> 0 then Inr (reject_with SL_distance_zero 0 0 0)
          else if account_balance \<le> 0 then Inr (reject_with Balance_not_positive 0 0 0)
          else
            let risk_amount_usd = account_balance * (risk_pct / 100);
                sl_cost = sl_cost_per_lot inst sl_distance
            in case price_to_pips inst sl_distance of
                 Inl e \<Rightarrow> Inl e
               | Inr pips \<Rightarrow>
                   if sl_cost \<le> 0 then Inr (reject_with SL_cost_zero 0 pips 0)
                   else
                     let raw = risk_amount_usd / sl_cost in
                     if lot_step inst = 0 then Inl ZeroDivisionError
                     else
                       let lot0 = of_int \<lfloor>raw / lot_step inst\<rfloor> * lot_step inst;
                           lot = min lot0 (max_lot inst)
                       in if lot < min_lot inst
                          then Inr (reject_with (Below_min_lot raw (min_lot inst)) raw pips sl_cost)
                          else
                            let actual_risk_usd = lot * sl_cost;
                                actual_risk_pct = (actual_risk_usd / account_balance) * 100
                            in Inr \<lparr>lot_size = py_round lot 2,
                                    risk_usd = py_round actual_risk_usd 2,
                                    sz_risk_pct = py_round actual_risk_pct 4,
                                    raw_lots = py_round raw 6, rejected = False,
                                    reject_reason = Accepted, sl_pips = py_round pips 1,
                                    sz_sl_cost_per_lot = py_round sl_cost 2\<rparr>)"

definition max_lot_for_risk ::
  "registry \<Rightarrow> string \<Rightarrow> pyfloat \<Rightarrow> pyfloat \<Rightarrow> pyfloat \<Rightarrow> pyfloat result" where
  "max_lot_for_risk reg symbol account_balance risk_pct sl_distance_price =
     (case calculate_lot_size reg symbol account_balance risk_pct sl_distance_price None of
        Inl e \<Rightarrow> Inl e | Inr r \<Rightarrow> Inr (lot_size r))"

subsection \<open>The lot grid\<close>

text \<open>The largest multiple of a step that is not above a raw size.\<close>

definition grid_floor :: "pyfloat \<Rightarrow> pyfloat \<Rightarrow> pyfloat" where
  "grid_floor step raw = of_int \<lfloor>raw / step\<rfloor> * step"

lemma grid_floor_le: "0 < step \<Longrightarrow> grid_floor step raw \<le> raw"
  using mult_right_mono[OF of_int_floor_le[of "raw / step"], of step] by (simp add: grid_floor_def)

lemma grid_floor_next: "0 < step \<Longrightarrow> raw < grid_floor step raw + step"
  using mult_strict_right_mono[OF conjunct2[OF floor_correct[of "raw / step"]], of step]
  by (simp add: grid_floor_def distrib_right)

lemma py_round_cents: "x * 100 \<in> \<int> \<Longrightarrow> py_round x 2 = x"
  by (auto elim!: Ints_cases intro: py_round_exact)

lemma clamp_cents:
  assumes "cent_lots i"
  shows "py_round (min (grid_floor (lot_step i) raw) (max_lot i)) 2 =
    min (grid_floor (lot_step i) raw) (max_lot i)"
proof -
  have "grid_floor (lot_step i) raw * 100 = of_int \<lfloor>raw / lot_step i\<rfloor> * (lot_step i * 100)"
    by (simp add: grid_floor_def)
  moreover have "lot_step i * 100 \<in> \<int>" using assms by (simp add: cent_lots_def)
  then have "of_int \<lfloor>raw / lot_step i\<rfloor> * (lot_step i * 100) \<in> \<int>"
    by (rule Ints_mult[OF Ints_of_int])
  ultimately have "grid_floor (lot_step i) raw * 100 \<in> \<int>" by metis
  then show ?thesis
    using assms by (intro py_round_cents) (simp add: cent_lots_def min_def)
qed

text \<open>What the function returns for a usable specification, as one equation.\<close>

lemma calculate_lot_size_eq:
  assumes "wf_instrument i" and "cent_lots i"
  shows "calculate_lot_size reg s balance pct d (Some i) =
    (if d = 0 then Inr (reject_with SL_distance_zero 0 0 0)
     else if balance \<le> 0 then Inr (reject_with Balance_not_positive 0 0 0)
     else
       let cost = sl_cost_per_lot i d; raw = balance * (pct / 100) / cost;
           lot = min (grid_floor (lot_step i) raw) (max_lot i); pips = \<bar>d\<bar> / pip_size i
       in if lot < min_lot i then Inr (reject_with (Below_min_lot raw (min_lot i)) raw pips cost)
          else Inr \<lparr>lot_size = lot, risk_usd = py_round (lot * cost) 2,
                    sz_risk_pct = py_round (lot * cost / balance * 100) 4,
                    raw_lots = py_round raw 6, rejected = False, reject_reason = Accepted,
                    sl_pips = py_round pips 1, sz_sl_cost_per_lot = py_round cost 2\<rparr>)"
proof -
  have "d \<noteq> 0 \<Longrightarrow> 0 < sl_cost_per_lot i d"
    using assms by (simp add: wf_instrument_def sl_cost_per_lot_def)
  then have "d \<noteq> 0 \<Longrightarrow> \<not> sl_cost_per_lot i d \<le> 0" by linarith
  moreover have "lot_step i \<noteq> 0" "pip_size i \<noteq> 0" "sl_cost_per_lot i \<bar>d\<bar> = sl_cost_per_lot i d"
    using assms by (auto simp: wf_instrument_def sl_cost_per_lot_def)
  ultimately show ?thesis
    by (simp add: calculate_lot_size_def Let_def price_to_pips_def grid_floor_def[symmetric]
        clamp_cents[OF assms(2)] del: times_divide_eq_right divide_divide_eq_left)
qed

lemma calculate_lot_size_total:
  "wf_instrument i \<Longrightarrow> cent_lots i \<Longrightarrow> \<exists>r. calculate_lot_size reg s balance pct d (Some i) = Inr r"
  by (simp add: calculate_lot_size_eq Let_def)

lemma lot_size_instrument:
  "get_instrument reg s = Inr i \<Longrightarrow>
   calculate_lot_size reg s b p d None = calculate_lot_size reg s b p d (Some i)"
  by (simp add: calculate_lot_size_def)

lemma accepted_lot:
  assumes "wf_instrument i" and "cent_lots i"
    and "calculate_lot_size reg s balance pct d (Some i) = Inr r" and "\<not> rejected r"
  shows "lot_size r = min (grid_floor (lot_step i) (balance * (pct / 100) / sl_cost_per_lot i d)) (max_lot i)"
    and "min_lot i \<le> lot_size r" and "d \<noteq> 0" and "0 < balance"
    and "risk_usd r = py_round (lot_size r * sl_cost_per_lot i d) 2"
  using assms(3,4)
  by (auto simp: calculate_lot_size_eq[OF assms(1,2)] Let_def reject_with_def split: if_splits)

lemma accepted_lot_pos:
  assumes "wf_instrument i" and "cent_lots i"
    and "calculate_lot_size reg s balance pct d (Some i) = Inr r" and "\<not> rejected r"
  shows "0 < lot_size r"
  using accepted_lot(2)[OF assms] assms(1) by (simp add: wf_instrument_def)

lemma accepted_cost_le:
  assumes "wf_instrument i" and "cent_lots i"
    and "calculate_lot_size reg s balance pct d (Some i) = Inr r" and "\<not> rejected r"
  shows "lot_size r * sl_cost_per_lot i d \<le> balance * pct / 100"
proof -
  note acc = accepted_lot[OF assms]
  let ?raw = "balance * (pct / 100) / sl_cost_per_lot i d"
  have cost: "0 < sl_cost_per_lot i d" and step: "0 < lot_step i"
    using assms(1) acc(3) by (auto simp: wf_instrument_def sl_cost_per_lot_def)
  have "lot_size r \<le> ?raw" using acc(1) grid_floor_le[OF step, of ?raw] by linarith
  then show ?thesis using cost by (simp add: field_simps)
qed

lemma sl_cost_abs [simp]: "sl_cost_per_lot i \<bar>d\<bar> = sl_cost_per_lot i d"
  by (simp add: sl_cost_per_lot_def)

lemma rejected_zero:
  assumes "calculate_lot_size reg s balance pct d io = Inr r" and "rejected r"
  shows "lot_size r = 0 \<and> risk_usd r = 0"
  using assms
  by (auto simp: calculate_lot_size_def Let_def reject_with_def split: sum.splits if_splits option.splits)

text \<open>C6: An accepted size never risks more than the budget: the stop loss at that size costs
  at most the requested percentage of the balance; the size lies between the instrument's
  limits; and it is the largest such size on the lot grid (one step more would exceed the
  budget or the maximum). The reported risk is the true one to within half a cent.\<close>

theorem sizing_never_over_risks:
  assumes "wf_registry reg" and "get_instrument reg s = Inr i"
    and "calculate_lot_size reg s balance pct d None = Inr r" and "\<not> rejected r"
  shows "lot_size r * sl_cost_per_lot i d \<le> balance * pct / 100 \<and>
    min_lot i \<le> lot_size r \<and> lot_size r \<le> max_lot i \<and>
    (lot_size r = max_lot i \<or> balance * pct / 100 < (lot_size r + lot_step i) * sl_cost_per_lot i d) \<and>
    \<bar>risk_usd r - lot_size r * sl_cost_per_lot i d\<bar> \<le> 1 / 200"
proof -
  have wf: "wf_instrument i" "cent_lots i" using get_instrument_wf[OF assms(1,2)] by auto
  note acc = accepted_lot[OF wf assms(3)[unfolded lot_size_instrument[OF assms(2)]] assms(4)]
  let ?cost = "sl_cost_per_lot i d" and ?raw = "balance * (pct / 100) / sl_cost_per_lot i d"
  have cost: "0 < ?cost" and step: "0 < lot_step i"
    using wf(1) acc(3) by (auto simp: wf_instrument_def sl_cost_per_lot_def)
  have "lot_size r * ?cost \<le> balance * pct / 100"
    by (rule accepted_cost_le[OF wf assms(3)[unfolded lot_size_instrument[OF assms(2)]] assms(4)])
  moreover have "balance * pct / 100 < (lot_size r + lot_step i) * ?cost" if "lot_size r \<noteq> max_lot i"
  proof -
    have "?raw < lot_size r + lot_step i"
      using that acc(1) grid_floor_next[OF step, of ?raw] by (simp add: min_def split: if_splits)
    then show ?thesis using cost by (simp add: field_simps)
  qed
  moreover have "\<bar>risk_usd r - lot_size r * ?cost\<bar> \<le> 1 / 200"
    using py_round_error[of "lot_size r * ?cost" 2] by (simp add: acc(5))
  moreover have "lot_size r \<le> max_lot i" using acc(1) by simp
  ultimately show ?thesis using acc(2) by blast
qed

lemma sizing_gold_example:
  "calculate_lot_size gold_registry ''XAUUSD'' 100000 1 10 None =
   Inr \<lparr>lot_size = 1, risk_usd = 1000, sz_risk_pct = 1, raw_lots = 1, rejected = False,
        reject_reason = Accepted, sl_pips = 1000, sz_sl_cost_per_lot = 1000\<rparr>"
  by (simp add: calculate_lot_size_def gold_lookup sl_cost_per_lot_def
      price_to_pips_def Let_def py_round_def round_half_even_def)

theorem sizing_never_over_risks_witness:
  "case calculate_lot_size gold_registry ''XAUUSD'' 100000 1 10 None of
     Inl e \<Rightarrow> False
   | Inr r \<Rightarrow> \<not> rejected r \<and> lot_size r * 1000 \<le> 1000"
  using sizing_never_over_risks[OF gold_registry_wf gold_lookup sizing_gold_example]
  by (simp add: sizing_gold_example sl_cost_per_lot_def)

text \<open>For a registered instrument the sizing never raises, and it rejects a trade exactly
  when the stop distance is zero, the balance is not positive, or the budget does not pay for
  the minimum lot; a rejected trade has size and risk zero.\<close>

theorem sizing_rejects_iff:
  assumes "wf_registry reg" and "get_instrument reg s = Inr i"
  shows "case calculate_lot_size reg s balance pct d None of
      Inl e \<Rightarrow> False
    | Inr r \<Rightarrow> (rejected r \<longleftrightarrow> d = 0 \<or> balance \<le> 0 \<or>
          min (grid_floor (lot_step i) (balance * (pct / 100) / sl_cost_per_lot i d)) (max_lot i) < min_lot i) \<and>
        (if rejected r then lot_size r = 0 \<and> risk_usd r = 0 else 0 < lot_size r)"
proof -
  have wf: "wf_instrument i" "cent_lots i" using get_instrument_wf[OF assms] by auto
  then have "0 < min_lot i" by (simp add: wf_instrument_def)
  then show ?thesis
    by (auto simp: lot_size_instrument[OF assms(2)] calculate_lot_size_eq[OF wf] Let_def
        reject_with_def)
qed

theorem sizing_rejects_iff_witness:
  "case calculate_lot_size gold_registry ''XAUUSD'' 10000 1 0 None of
     Inl e \<Rightarrow> False | Inr r \<Rightarrow> rejected r"
  using sizing_rejects_iff[OF gold_registry_wf gold_lookup, where balance = 10000 and pct = 1 and d = 0]
  by (auto split: sum.splits)

end
