(* ===== verification/Risk_Guard.thy ===== *)
theory Risk_Guard
  imports Prelude
begin

section \<open>Prop-firm risk guard\<close>

text \<open>
  \<open>app/cfd_risk/risk_guard.py\<close>: the daily and the maximum drawdown limit of an account, and
  the gate before a trade. The class's fields are the record \<open>risk_guard\<close>; every method
  takes the guard and returns it changed. Times are epoch milliseconds; the reset instant of
  the day is computed from them exactly (Python's \<open>datetime\<close> would first round to
  microseconds). \<open>force_daily_reset\<close> and a missing \<open>current_time_ms\<close> read the system
  clock, which is an argument.
\<close>

datatype risk_status = ACTIVE | DAILY_HALT | MAX_DD_BREACH

record risk_config =
  initial_balance :: pyfloat
  daily_dd_pct :: pyfloat
  max_dd_pct :: pyfloat
  reset_hour :: int
  reset_minute :: int
  reset_utc_offset_hours :: pyfloat
  max_risk_per_trade_pct :: pyfloat
  max_open_risk_pct :: pyfloat
  flatten_before_weekend :: bool
  flatten_before_daily_reset :: bool

record daily_state =
  start_of_day_equity :: pyfloat
  daily_realized_pnl :: pyfloat
  daily_lowest_equity :: pyfloat
  reset_timestamp :: pyfloat
  trades_today :: nat

record risk_guard =
  rg_config :: risk_config
  rg_balance :: pyfloat
  rg_unrealized :: pyfloat
  rg_peak :: pyfloat
  rg_status :: risk_status
  rg_daily :: daily_state
  rg_floor :: pyfloat
  rg_total_realized :: pyfloat
  rg_total_trades :: nat
  rg_daily_halts :: nat

definition fresh_day :: "pyfloat \<Rightarrow> pyfloat \<Rightarrow> daily_state" where
  "fresh_day sod ts = \<lparr>start_of_day_equity = sod, daily_realized_pnl = 0,
     daily_lowest_equity = sod, reset_timestamp = ts, trades_today = 0\<rparr>"

definition dd_floor :: "risk_config \<Rightarrow> pyfloat \<Rightarrow> pyfloat" where
  "dd_floor cfg base = base * (1 - max_dd_pct cfg / 100)"

definition new_guard :: "risk_config \<Rightarrow> risk_guard" where
  "new_guard cfg =
     \<lparr>rg_config = cfg, rg_balance = initial_balance cfg, rg_unrealized = 0,
      rg_peak = initial_balance cfg, rg_status = ACTIVE,
      rg_daily = fresh_day (initial_balance cfg) 0, rg_floor = dd_floor cfg (initial_balance cfg),
      rg_total_realized = 0, rg_total_trades = 0, rg_daily_halts = 0\<rparr>"

definition equity :: "risk_guard \<Rightarrow> pyfloat" where
  "equity g = rg_balance g + rg_unrealized g"

definition daily_pnl :: "risk_guard \<Rightarrow> pyfloat" where
  "daily_pnl g = equity g - start_of_day_equity (rg_daily g)"

definition daily_dd_used_pct :: "risk_guard \<Rightarrow> pyfloat" where
  "daily_dd_used_pct g =
     (let sod = start_of_day_equity (rg_daily g) in
      if sod \<le> 0 then 0 else max 0 (sod - equity g) / sod * 100)"

definition daily_dd_remaining_usd :: "risk_guard \<Rightarrow> pyfloat" where
  "daily_dd_remaining_usd g =
     (let sod = start_of_day_equity (rg_daily g);
          allowed_loss = sod * (daily_dd_pct (rg_config g) / 100);
          current_loss = max 0 (sod - equity g)
      in max 0 (allowed_loss - current_loss))"

definition max_dd_used_pct :: "risk_guard \<Rightarrow> pyfloat result" where
  "max_dd_used_pct g =
     (let base = initial_balance (rg_config g); loss = max 0 (base - equity g) in
      if base = 0 then Inl ZeroDivisionError else Inr (loss / base * 100))"

definition max_dd_remaining_usd :: "risk_guard \<Rightarrow> pyfloat" where
  "max_dd_remaining_usd g = max 0 (equity g - rg_floor g)"

definition total_pnl_pct :: "risk_guard \<Rightarrow> pyfloat result" where
  "total_pnl_pct g =
     (let base = initial_balance (rg_config g) in
      if base = 0 then Inl ZeroDivisionError else Inr (rg_total_realized g / base * 100))"

definition daily_dd_limit :: "risk_guard \<Rightarrow> pyfloat" where
  "daily_dd_limit g = start_of_day_equity (rg_daily g) * (daily_dd_pct (rg_config g) / 100)"

definition check_dd_breach :: "risk_guard \<Rightarrow> risk_guard" where
  "check_dd_breach g =
     (if rg_status g = MAX_DD_BREACH then g
      else if equity g \<le> rg_floor g then g\<lparr>rg_status := MAX_DD_BREACH\<rparr>
      else if rg_status g = DAILY_HALT then g
      else if start_of_day_equity (rg_daily g) - equity g \<ge> daily_dd_limit g
      then g\<lparr>rg_status := DAILY_HALT, rg_daily_halts := rg_daily_halts g + 1\<rparr>
      else g)"

definition can_trade :: "risk_guard \<Rightarrow> bool \<times> risk_guard" where
  "can_trade g = (let g1 = check_dd_breach g in (rg_status g1 = ACTIVE, g1))"

text \<open>The formatted refusals of \<open>check_trade_risk\<close>, as constructors.\<close>

datatype risk_verdict =
    Allowed
  | Halted risk_status
  | Exceeds_per_trade pyfloat
  | Exceeds_daily_budget pyfloat

definition check_trade_risk :: "pyfloat \<Rightarrow> risk_guard \<Rightarrow> risk_verdict \<times> risk_guard" where
  "check_trade_risk risk g =
     (let (ok, g1) = can_trade g in
      if \<not> ok then (Halted (rg_status g1), g1)
      else
        let max_per_trade = initial_balance (rg_config g1) * (max_risk_per_trade_pct (rg_config g1) / 100)
        in if risk > max_per_trade then (Exceeds_per_trade max_per_trade, g1)
           else if risk > daily_dd_remaining_usd g1
           then (Exceeds_daily_budget (daily_dd_remaining_usd g1), g1)
           else (Allowed, g1))"

definition add_realized_pnl :: "pyfloat \<Rightarrow> risk_guard \<Rightarrow> risk_guard" where
  "add_realized_pnl pnl g =
     (let d = rg_daily g;
          g1 = g\<lparr>rg_balance := rg_balance g + pnl,
                 rg_total_realized := rg_total_realized g + pnl,
                 rg_total_trades := rg_total_trades g + 1,
                 rg_daily := d\<lparr>daily_realized_pnl := daily_realized_pnl d + pnl,
                               trades_today := trades_today d + 1\<rparr>\<rparr>;
          g2 = (if rg_balance g1 > rg_peak g1 then g1\<lparr>rg_peak := rg_balance g1\<rparr> else g1)
      in check_dd_breach g2)"

definition update_unrealized_pnl :: "pyfloat \<Rightarrow> risk_guard \<Rightarrow> risk_guard" where
  "update_unrealized_pnl floating g =
     (let g1 = g\<lparr>rg_unrealized := floating\<rparr>;
          g2 = (if equity g1 < daily_lowest_equity (rg_daily g1)
                then g1\<lparr>rg_daily := (rg_daily g1)\<lparr>daily_lowest_equity := equity g1\<rparr>\<rparr> else g1)
      in check_dd_breach g2)"

definition perform_daily_reset :: "pyfloat \<Rightarrow> risk_guard \<Rightarrow> risk_guard" where
  "perform_daily_reset ts g =
     (let sod = max (rg_balance g) (equity g);
          g1 = g\<lparr>rg_daily := fresh_day sod ts\<rparr>
      in if rg_status g1 = DAILY_HALT then g1\<lparr>rg_status := ACTIVE\<rparr> else g1)"

text \<open>
  The reset instant of the local day \<open>now\<close> falls in: midnight of that day in the firm's
  fixed offset, plus the reset hour and minute. \<open>timezone\<close> and \<open>replace\<close> refuse an offset
  of a day or more and an hour or minute out of range.
\<close>

definition today_reset_ms :: "risk_config \<Rightarrow> pyfloat \<Rightarrow> pyfloat" where
  "today_reset_ms cfg now =
     (let off = reset_utc_offset_hours cfg * 3600000;
          local = now + off;
          midnight = of_int \<lfloor>local / 86400000\<rfloor> * 86400000
      in midnight + of_int (reset_hour cfg) * 3600000 + of_int (reset_minute cfg) * 60000 - off)"

definition reset_schedule_ok :: "risk_config \<Rightarrow> bool" where
  "reset_schedule_ok cfg \<longleftrightarrow> \<bar>reset_utc_offset_hours cfg\<bar> < 24 \<and>
     0 \<le> reset_hour cfg \<and> reset_hour cfg \<le> 23 \<and> 0 \<le> reset_minute cfg \<and> reset_minute cfg \<le> 59"

definition check_daily_reset ::
  "pyfloat \<Rightarrow> pyfloat option \<Rightarrow> risk_guard \<Rightarrow> bool result \<times> risk_guard" where
  "check_daily_reset clock current_time_ms g =
     (let now = (case current_time_ms of None \<Rightarrow> clock | Some t \<Rightarrow> if t = 0 then clock else t);
          cfg = rg_config g
      in if \<not> reset_schedule_ok cfg then (Inl (ValueError ''reset schedule''), g)
         else if today_reset_ms cfg now > reset_timestamp (rg_daily g) \<and> now \<ge> today_reset_ms cfg now
         then (Inr True, perform_daily_reset now g)
         else (Inr False, g))"

definition force_daily_reset :: "pyfloat \<Rightarrow> risk_guard \<Rightarrow> risk_guard" where
  "force_daily_reset clock g = perform_daily_reset clock g"

definition reset_account :: "pyfloat option \<Rightarrow> risk_guard \<Rightarrow> risk_guard" where
  "reset_account new_balance g =
     (let balance = (case new_balance of
             None \<Rightarrow> initial_balance (rg_config g)
           | Some b \<Rightarrow> if b = 0 then initial_balance (rg_config g) else b);
          cfg = (rg_config g)\<lparr>initial_balance := balance\<rparr>
      in \<lparr>rg_config = cfg, rg_balance = balance, rg_unrealized = 0, rg_peak = balance,
          rg_status = ACTIVE, rg_daily = fresh_day balance 0, rg_floor = dd_floor cfg balance,
          rg_total_realized = 0, rg_total_trades = 0, rg_daily_halts = 0\<rparr>)"

definition seed_balance :: "pyfloat \<Rightarrow> risk_guard \<Rightarrow> risk_guard" where
  "seed_balance real_balance g =
     \<lparr>rg_config = rg_config g, rg_balance = real_balance, rg_unrealized = 0,
      rg_peak = real_balance, rg_status = ACTIVE, rg_daily = fresh_day real_balance 0,
      rg_floor = dd_floor (rg_config g) real_balance, rg_total_realized = 0,
      rg_total_trades = 0, rg_daily_halts = 0\<rparr>"

subsection \<open>The breach check\<close>

lemma check_dd_breach_frame [simp]:
  "rg_config (check_dd_breach g) = rg_config g" "rg_balance (check_dd_breach g) = rg_balance g"
  "rg_unrealized (check_dd_breach g) = rg_unrealized g" "rg_peak (check_dd_breach g) = rg_peak g"
  "rg_daily (check_dd_breach g) = rg_daily g" "rg_floor (check_dd_breach g) = rg_floor g"
  "rg_total_realized (check_dd_breach g) = rg_total_realized g"
  "rg_total_trades (check_dd_breach g) = rg_total_trades g"
  "equity (check_dd_breach g) = equity g"
  "daily_dd_limit (check_dd_breach g) = daily_dd_limit g"
  by (simp_all add: check_dd_breach_def equity_def daily_dd_limit_def)

lemma check_dd_breach_idem [simp]: "check_dd_breach (check_dd_breach g) = check_dd_breach g"
  by (simp add: check_dd_breach_def equity_def daily_dd_limit_def)

text \<open>Within both limits, by the guard's own strict comparisons.\<close>

definition within_limits :: "risk_guard \<Rightarrow> bool" where
  "within_limits g \<longleftrightarrow> rg_floor g < equity g \<and>
     start_of_day_equity (rg_daily g) - equity g < daily_dd_limit g"

lemma check_dd_breach_active:
  "rg_status (check_dd_breach g) = ACTIVE \<longleftrightarrow> rg_status g = ACTIVE \<and> within_limits g"
  by (cases "rg_status g") (auto simp: check_dd_breach_def within_limits_def)

lemma check_dd_breach_dead:
  "rg_status (check_dd_breach g) = MAX_DD_BREACH \<longleftrightarrow>
   rg_status g = MAX_DD_BREACH \<or> equity g \<le> rg_floor g"
  by (auto simp: check_dd_breach_def)

lemma check_dd_breach_keeps_dead: "rg_status g = MAX_DD_BREACH \<Longrightarrow> check_dd_breach g = g"
  by (simp add: check_dd_breach_def)

lemma snd_can_trade [simp]: "snd (can_trade g) = check_dd_breach g"
  by (simp add: can_trade_def Let_def)

lemma fst_can_trade: "fst (can_trade g) \<longleftrightarrow> rg_status g = ACTIVE \<and> within_limits g"
  by (simp add: can_trade_def Let_def check_dd_breach_active)

lemma snd_check_trade_risk [simp]: "snd (check_trade_risk r g) = check_dd_breach g"
  by (simp add: check_trade_risk_def can_trade_def Let_def)

lemma check_trade_risk_allowed:
  "fst (check_trade_risk r g) = Allowed \<longleftrightarrow>
     fst (can_trade g) \<and>
     r \<le> initial_balance (rg_config g) * (max_risk_per_trade_pct (rg_config g) / 100) \<and>
     r \<le> daily_dd_remaining_usd g"
  by (auto simp: check_trade_risk_def can_trade_def Let_def daily_dd_remaining_usd_def)

lemma add_realized_pnl_frame [simp]:
  "rg_config (add_realized_pnl x g) = rg_config g"
  "rg_floor (add_realized_pnl x g) = rg_floor g"
  "rg_balance (add_realized_pnl x g) = rg_balance g + x"
  "rg_unrealized (add_realized_pnl x g) = rg_unrealized g"
  "rg_total_realized (add_realized_pnl x g) = rg_total_realized g + x"
  "rg_total_trades (add_realized_pnl x g) = rg_total_trades g + 1"
  "start_of_day_equity (rg_daily (add_realized_pnl x g)) = start_of_day_equity (rg_daily g)"
  "reset_timestamp (rg_daily (add_realized_pnl x g)) = reset_timestamp (rg_daily g)"
  "rg_peak (add_realized_pnl x g) = max (rg_peak g) (rg_balance g + x)"
  by (simp_all add: add_realized_pnl_def Let_def)

lemma update_unrealized_pnl_frame [simp]:
  "rg_config (update_unrealized_pnl x g) = rg_config g"
  "rg_floor (update_unrealized_pnl x g) = rg_floor g"
  "rg_balance (update_unrealized_pnl x g) = rg_balance g"
  "rg_unrealized (update_unrealized_pnl x g) = x"
  "rg_total_realized (update_unrealized_pnl x g) = rg_total_realized g"
  "rg_total_trades (update_unrealized_pnl x g) = rg_total_trades g"
  "start_of_day_equity (rg_daily (update_unrealized_pnl x g)) = start_of_day_equity (rg_daily g)"
  "reset_timestamp (rg_daily (update_unrealized_pnl x g)) = reset_timestamp (rg_daily g)"
  "rg_peak (update_unrealized_pnl x g) = rg_peak g"
  by (simp_all add: update_unrealized_pnl_def Let_def)

lemma perform_daily_reset_frame [simp]:
  "rg_config (perform_daily_reset t g) = rg_config g"
  "rg_floor (perform_daily_reset t g) = rg_floor g"
  "rg_balance (perform_daily_reset t g) = rg_balance g"
  "rg_unrealized (perform_daily_reset t g) = rg_unrealized g"
  "rg_total_realized (perform_daily_reset t g) = rg_total_realized g"
  "rg_total_trades (perform_daily_reset t g) = rg_total_trades g"
  "rg_peak (perform_daily_reset t g) = rg_peak g"
  "rg_daily (perform_daily_reset t g) = fresh_day (max (rg_balance g) (equity g)) t"
  "rg_status (perform_daily_reset t g) = (if rg_status g = DAILY_HALT then ACTIVE else rg_status g)"
  by (simp_all add: perform_daily_reset_def Let_def)

lemma snd_check_daily_reset:
  "snd (check_daily_reset clock now g) = g \<or>
   (\<exists>t. snd (check_daily_reset clock now g) = perform_daily_reset t g)"
  by (auto simp: check_daily_reset_def Let_def)

lemma check_daily_reset_total:
  assumes "reset_schedule_ok (rg_config g)"
  obtains b g' where "check_daily_reset clock ms g = (Inr b, g')"
    and "g' = g \<or> (\<exists>t. g' = perform_daily_reset t g)"
proof -
  have "\<exists>b. fst (check_daily_reset clock ms g) = Inr b"
    using assms by (auto simp: check_daily_reset_def Let_def)
  then show ?thesis using snd_check_daily_reset[of clock ms g] by (metis prod.collapse that)
qed

subsection \<open>The life of an account\<close>

text \<open>The calls the executors make between two account resets.\<close>

datatype guard_op =
    Realize pyfloat
  | Mark pyfloat
  | Ask
  | Ask_risk pyfloat
  | Day pyfloat "pyfloat option"

fun guard_step :: "guard_op \<Rightarrow> risk_guard \<Rightarrow> risk_guard" where
  "guard_step (Realize x) g = add_realized_pnl x g"
| "guard_step (Mark x) g = update_unrealized_pnl x g"
| "guard_step Ask g = snd (can_trade g)"
| "guard_step (Ask_risk r) g = snd (check_trade_risk r g)"
| "guard_step (Day clock t) g = snd (check_daily_reset clock t g)"

text \<open>
  What an executor relies on when it asks a guard before a trade: a dead account stays dead
  whatever is called, a dead account never allows a trade, and an allowed one is above its
  floor.
\<close>

locale drawdown_guard =
  fixes step :: "'o \<Rightarrow> 'g \<Rightarrow> 'g"
    and allows :: "'g \<Rightarrow> bool"
    and dead :: "'g \<Rightarrow> bool"
    and alive_equity :: "'g \<Rightarrow> bool"
  assumes dead_step: "dead g \<Longrightarrow> dead (step op g)"
    and dead_refuses: "dead g \<Longrightarrow> \<not> allows g"
    and allows_alive: "allows g \<Longrightarrow> alive_equity g"
begin

lemma dead_fold: "dead g \<Longrightarrow> dead (fold step ops g)"
  by (induction ops arbitrary: g) (auto intro: dead_step)

lemma dead_forever: "dead g \<Longrightarrow> \<not> allows (fold step ops g)"
  by (rule dead_refuses[OF dead_fold])

lemma allowed_history: "allows (fold step (xs @ ys) g) \<Longrightarrow> \<not> dead (fold step xs g)"
  using dead_forever[of "fold step xs g" ys] by auto

end

lemma guard_step_dead:
  "rg_status g = MAX_DD_BREACH \<Longrightarrow> rg_status (guard_step op g) = MAX_DD_BREACH"
proof (induction op)
  case (Day clock t)
  then show ?case using snd_check_daily_reset[of clock t g] by auto
qed (auto simp: add_realized_pnl_def update_unrealized_pnl_def Let_def check_dd_breach_def)

interpretation account_guard:
  drawdown_guard guard_step "\<lambda>g. fst (can_trade g)" "\<lambda>g. rg_status g = MAX_DD_BREACH" within_limits
  by unfold_locales (auto simp: guard_step_dead fst_can_trade)

lemma guard_step_floor [simp]: "rg_floor (guard_step op g) = rg_floor g"
proof (induction op)
  case (Day clock t)
  then show ?case using snd_check_daily_reset[of clock t g] by auto
qed simp_all

lemma fold_guard_floor: "rg_floor (fold guard_step ops g) = rg_floor g"
  by (induction ops arbitrary: g) simp_all

text \<open>The guard's books: balance and peak agree with the realized profit.\<close>

definition guard_books :: "pyfloat \<Rightarrow> risk_guard \<Rightarrow> bool" where
  "guard_books base g \<longleftrightarrow> rg_balance g = base + rg_total_realized g \<and> rg_balance g \<le> rg_peak g \<and>
     base \<le> rg_peak g"

lemma guard_step_books: "guard_books base g \<Longrightarrow> guard_books base (guard_step op g)"
proof (induction op)
  case (Day clock t)
  then show ?case using snd_check_daily_reset[of clock t g] by (auto simp: guard_books_def)
qed (auto simp: guard_books_def)

lemma fold_guard_books: "guard_books base g \<Longrightarrow> guard_books base (fold guard_step ops g)"
  by (induction ops arbitrary: g) (simp_all add: guard_step_books)

lemma new_guard_books: "guard_books (initial_balance cfg) (new_guard cfg)"
  by (simp add: guard_books_def new_guard_def)

definition breach_recorded :: "risk_guard \<Rightarrow> bool" where
  "breach_recorded g \<longleftrightarrow> equity g > rg_floor g \<or> rg_status g = MAX_DD_BREACH"

lemma breach_recorded_check: "breach_recorded (check_dd_breach g)"
  by (auto simp: breach_recorded_def check_dd_breach_def equity_def)

lemma guard_step_breach_recorded: "breach_recorded g \<Longrightarrow> breach_recorded (guard_step op g)"
proof (induction op)
  case (Day clock t)
  then show ?case
    using snd_check_daily_reset[of clock t g] by (auto simp: breach_recorded_def equity_def)
qed (simp_all add: add_realized_pnl_def update_unrealized_pnl_def Let_def breach_recorded_check)

lemma fold_breach_recorded: "breach_recorded g \<Longrightarrow> breach_recorded (fold guard_step ops g)"
  by (induction ops arbitrary: g) (simp_all add: guard_step_breach_recorded)

lemma new_guard_breach_recorded:
  "0 < initial_balance cfg \<Longrightarrow> 0 < max_dd_pct cfg \<Longrightarrow> breach_recorded (new_guard cfg)"
  by (simp add: breach_recorded_def new_guard_def equity_def dd_floor_def field_simps)

subsection \<open>The daily reset\<close>

definition reset_instant :: "risk_config \<Rightarrow> int \<Rightarrow> pyfloat" where
  "reset_instant cfg k = of_int k * 86400000 + of_int (reset_hour cfg) * 3600000 +
     of_int (reset_minute cfg) * 60000 - reset_utc_offset_hours cfg * 3600000"

definition local_day :: "risk_config \<Rightarrow> pyfloat \<Rightarrow> int" where
  "local_day cfg now = \<lfloor>(now + reset_utc_offset_hours cfg * 3600000) / 86400000\<rfloor>"

lemma today_reset_instant: "today_reset_ms cfg now = reset_instant cfg (local_day cfg now)"
  by (simp add: today_reset_ms_def reset_instant_def local_day_def Let_def)

lemma reset_instant_mono: "j \<le> k \<Longrightarrow> reset_instant cfg j \<le> reset_instant cfg k"
  by (simp add: reset_instant_def)

lemma local_day_bounds:
  "of_int (local_day cfg now) * 86400000 \<le> now + reset_utc_offset_hours cfg * 3600000"
  "now + reset_utc_offset_hours cfg * 3600000 < (of_int (local_day cfg now) + 1) * 86400000"
  using floor_correct[of "(now + reset_utc_offset_hours cfg * 3600000) / 86400000"]
  by (simp_all add: local_day_def field_simps)

lemma reset_instant_le_imp_day:
  assumes "reset_schedule_ok cfg" and "reset_instant cfg k \<le> now"
  shows "k \<le> local_day cfg now"
proof -
  have "of_int k * 86400000 \<le> now + reset_utc_offset_hours cfg * 3600000"
    using assms by (simp add: reset_instant_def reset_schedule_ok_def)
  from le_less_trans[OF this local_day_bounds(2)]
  have "(of_int k :: real) < of_int (local_day cfg now) + 1" by simp
  then show ?thesis by linarith
qed

lemma check_daily_reset_fires:
  assumes "reset_schedule_ok (rg_config g)" and "now \<noteq> 0"
  shows "fst (check_daily_reset clock (Some now) g) =
     Inr (reset_timestamp (rg_daily g) < today_reset_ms (rg_config g) now \<and>
          today_reset_ms (rg_config g) now \<le> now)"
  using assms by (simp add: check_daily_reset_def Let_def)

text \<open>A maximum-drawdown breach is permanent: once the equity of an account has touched the
  static floor after any history of calls, then after any further calls (realized and floating
  profits however large, risk queries, daily resets) the status is still
  \<open>MAX_DD_BREACH\<close> and no trade is allowed.\<close>

theorem max_breach_permanent:
  assumes "0 < initial_balance cfg" and "0 < max_dd_pct cfg"
    and "equity (fold guard_step before (new_guard cfg)) \<le> dd_floor cfg (initial_balance cfg)"
  shows "rg_status (fold guard_step (before @ after) (new_guard cfg)) = MAX_DD_BREACH \<and>
    \<not> fst (can_trade (fold guard_step (before @ after) (new_guard cfg)))"
proof -
  let ?g = "fold guard_step before (new_guard cfg)"
  have "breach_recorded ?g"
    by (rule fold_breach_recorded[OF new_guard_breach_recorded[OF assms(1,2)]])
  moreover have "rg_floor ?g = dd_floor cfg (initial_balance cfg)"
    by (simp add: fold_guard_floor) (simp add: new_guard_def)
  ultimately have dead: "rg_status ?g = MAX_DD_BREACH"
    using assms(3) by (auto simp: breach_recorded_def)
  show ?thesis
    using account_guard.dead_fold[OF dead] account_guard.dead_forever[OF dead] by simp
qed

definition demo_config :: risk_config where
  "demo_config = \<lparr>initial_balance = 100000, daily_dd_pct = 5, max_dd_pct = 10, reset_hour = 0,
     reset_minute = 0, reset_utc_offset_hours = 3, max_risk_per_trade_pct = 1,
     max_open_risk_pct = 3, flatten_before_weekend = False, flatten_before_daily_reset = False\<rparr>"

theorem max_breach_permanent_witness:
  "rg_status (fold guard_step ([Mark (-12000)] @ [Mark 50000, Day 1 (Some 90000000)])
     (new_guard demo_config)) = MAX_DD_BREACH"
proof -
  have h: "0 < initial_balance demo_config" "0 < max_dd_pct demo_config"
    "equity (fold guard_step [Mark (-12000)] (new_guard demo_config))
       \<le> dd_floor demo_config (initial_balance demo_config)"
    by (simp_all add: demo_config_def equity_def dd_floor_def new_guard_def)
  show ?thesis using max_breach_permanent[OF h] by blast
qed

text \<open>C16: The gate before a trade is sound: a risk is allowed exactly when the account is
  active, its equity is strictly above the floor and its loss since the start of the day
  strictly below the daily limit, and the risk fits the per-trade cap and what is left of the
  daily budget; and then losing that whole risk does not exceed the daily limit.\<close>

theorem risk_gate_sound:
  "(fst (check_trade_risk r g) = Allowed \<longleftrightarrow>
      rg_status g = ACTIVE \<and> rg_floor g < equity g \<and>
      start_of_day_equity (rg_daily g) - equity g < daily_dd_limit g \<and>
      r \<le> initial_balance (rg_config g) * (max_risk_per_trade_pct (rg_config g) / 100) \<and>
      r \<le> daily_dd_remaining_usd g) \<and>
   (fst (check_trade_risk r g) = Allowed \<longrightarrow>
      start_of_day_equity (rg_daily g) - equity (add_realized_pnl (- r) (snd (check_trade_risk r g)))
        \<le> daily_dd_limit g)"
proof (intro conjI impI)
  show "fst (check_trade_risk r g) = Allowed \<longleftrightarrow>
      rg_status g = ACTIVE \<and> rg_floor g < equity g \<and>
      start_of_day_equity (rg_daily g) - equity g < daily_dd_limit g \<and>
      r \<le> initial_balance (rg_config g) * (max_risk_per_trade_pct (rg_config g) / 100) \<and>
      r \<le> daily_dd_remaining_usd g"
    by (auto simp: check_trade_risk_allowed fst_can_trade within_limits_def)
  assume "fst (check_trade_risk r g) = Allowed"
  then have "r \<le> daily_dd_remaining_usd g"
    and "start_of_day_equity (rg_daily g) - equity g < daily_dd_limit g"
    by (simp_all add: check_trade_risk_allowed fst_can_trade within_limits_def)
  then have "start_of_day_equity (rg_daily g) - (equity g - r) \<le> daily_dd_limit g"
    by (simp add: daily_dd_remaining_usd_def daily_dd_limit_def Let_def max_def split: if_splits)
  then show "start_of_day_equity (rg_daily g) -
      equity (add_realized_pnl (- r) (snd (check_trade_risk r g))) \<le> daily_dd_limit g"
    by (simp add: equity_def)
qed

theorem risk_gate_sound_witness:
  "start_of_day_equity (rg_daily (new_guard demo_config)) -
     equity (add_realized_pnl (- 1000) (snd (check_trade_risk 1000 (new_guard demo_config))))
     \<le> daily_dd_limit (new_guard demo_config)"
proof -
  have "fst (check_trade_risk 1000 (new_guard demo_config)) = Allowed"
    by (simp add: check_trade_risk_allowed fst_can_trade within_limits_def new_guard_def
        demo_config_def equity_def dd_floor_def daily_dd_limit_def daily_dd_remaining_usd_def
        fresh_day_def Let_def)
  then show ?thesis using risk_gate_sound[of 1000 "new_guard demo_config"] by blast
qed

text \<open>C18: With the reset at local midnight, the daily reset runs exactly when a reset instant
  lies between the last reset and now: never twice for one instant, never missed. It starts
  the day at the higher of balance and equity and lifts a daily halt, never a breach.\<close>

theorem daily_reset_exact:
  assumes "reset_schedule_ok (rg_config g)" and "reset_hour (rg_config g) = 0"
    and "reset_minute (rg_config g) = 0" and "now \<noteq> 0"
  shows "fst (check_daily_reset clock (Some now) g) =
      Inr (\<exists>k. reset_timestamp (rg_daily g) < reset_instant (rg_config g) k \<and>
               reset_instant (rg_config g) k \<le> now) \<and>
    (let g' = snd (check_daily_reset clock (Some now) g) in
     fst (check_daily_reset clock (Some now) g) = Inr True \<longrightarrow>
       rg_daily g' = fresh_day (max (rg_balance g) (equity g)) now \<and>
       rg_status g' = (if rg_status g = DAILY_HALT then ACTIVE else rg_status g) \<and>
       fst (check_daily_reset clock (Some now) g') = Inr False)"
proof -
  let ?cfg = "rg_config g" and ?T = "reset_timestamp (rg_daily g)"
  let ?R = "today_reset_ms ?cfg now"
  have now: "?R \<le> now"
    using local_day_bounds(1)[of ?cfg now] assms(2,3)
    by (simp add: today_reset_instant reset_instant_def)
  have iff: "(?T < ?R \<and> ?R \<le> now) \<longleftrightarrow>
      (\<exists>k. ?T < reset_instant ?cfg k \<and> reset_instant ?cfg k \<le> now)"
  proof
    assume "\<exists>k. ?T < reset_instant ?cfg k \<and> reset_instant ?cfg k \<le> now"
    then obtain k where k: "?T < reset_instant ?cfg k" "reset_instant ?cfg k \<le> now" by blast
    have "reset_instant ?cfg k \<le> ?R"
      unfolding today_reset_instant
      by (rule reset_instant_mono[OF reset_instant_le_imp_day[OF assms(1) k(2)]])
    with k(1) now show "?T < ?R \<and> ?R \<le> now" by linarith
  qed (auto simp: today_reset_instant)
  have fires: "fst (check_daily_reset clock (Some now) g) = Inr (?T < ?R \<and> ?R \<le> now)"
    by (rule check_daily_reset_fires[OF assms(1,4)])
  have after: "snd (check_daily_reset clock (Some now) g) = perform_daily_reset now g"
    if "?T < ?R \<and> ?R \<le> now"
    using that assms(1,4) by (simp add: check_daily_reset_def Let_def)
  have again: "fst (check_daily_reset clock (Some now) (perform_daily_reset now g)) = Inr False"
    using now assms(1,4) by (simp add: check_daily_reset_fires fresh_day_def)
  from fires iff after again show ?thesis by (auto simp: Let_def)
qed

theorem daily_reset_exact_witness:
  "fst (check_daily_reset 0 (Some 1000) (new_guard demo_config)) =
     Inr (\<exists>k. 0 < reset_instant demo_config k \<and> reset_instant demo_config k \<le> 1000)"
proof -
  have h: "reset_schedule_ok (rg_config (new_guard demo_config))"
    "reset_hour (rg_config (new_guard demo_config)) = 0"
    "reset_minute (rg_config (new_guard demo_config)) = 0" "(1000::real) \<noteq> 0"
    by (simp_all add: new_guard_def demo_config_def reset_schedule_ok_def)
  show ?thesis using daily_reset_exact[OF h, of 0] by (simp add: new_guard_def fresh_day_def)
qed

text \<open>
  What the gate does not check: the distance to the floor. A guard a few hundred
  dollars above its floor allows a trade whose full loss breaches the maximum drawdown.
\<close>

lemma allowed_risk_may_breach_floor:
  "let g = perform_daily_reset 1 (add_realized_pnl (-4500) (perform_daily_reset 1
             (add_realized_pnl (-4900) (new_guard demo_config))))
   in fst (check_trade_risk 1000 g) = Allowed \<and>
      rg_status (add_realized_pnl (-1000) g) = MAX_DD_BREACH"
  by (simp add: check_trade_risk_def can_trade_def check_dd_breach_def add_realized_pnl_def
      perform_daily_reset_def new_guard_def demo_config_def equity_def dd_floor_def
      daily_dd_limit_def daily_dd_remaining_usd_def fresh_day_def Let_def)

text \<open>
  With a reset hour later than midnight, a reset nobody asked for on its own day is not made
  up the next morning: the check compares with the current day's instant only.
\<close>

lemma missed_reset_waits:
  "let cfg = demo_config\<lparr>reset_hour := 17, reset_utc_offset_hours := 0\<rparr>;
       g = perform_daily_reset (16 * 3600000) (new_guard cfg)
   in reset_instant cfg 0 = 17 * 3600000 \<and>
      fst (check_daily_reset 0 (Some (24 * 3600000 + 1)) g) = Inr False"
  by (simp add: check_daily_reset_def reset_schedule_ok_def demo_config_def new_guard_def
      perform_daily_reset_def fresh_day_def today_reset_ms_def reset_instant_def Let_def)

end
