(* ===== verification/Strategy_Base.thy ===== *)
theory Strategy_Base
  imports Core_Models
begin

section \<open>CFD strategy contracts: exit plans and signals\<close>

text \<open>
  \<open>app/cfd_strategy/base.py\<close>: the frozen dataclasses a strategy emits. A dataclass whose
  \<open>__post_init__\<close> raises is a record with a constructor function into \<open>result\<close>: the checks
  in the source's order, each refusal a \<open>ValueError\<close> with the check's name (the messages of
  the source carry formatted numbers).
\<close>

definition MIN_RR :: pyfloat where
  "MIN_RR = 2"

definition RR_EPSILON :: pyfloat where
  "RR_EPSILON = 1 / 10^6"

datatype direction = LONG | SHORT

definition sign :: "direction \<Rightarrow> pyfloat" where
  "sign d = (if d = LONG then 1 else -1)"

datatype entry_mode = CANDLE_CLOSE | INTRABAR

record take_profit =
  tp_price :: pyfloat
  close_fraction :: pyfloat

definition mk_take_profit :: "pyfloat \<Rightarrow> pyfloat \<Rightarrow> take_profit result" where
  "mk_take_profit price fr =
     (if \<not> (0 < fr \<and> fr \<le> 1) then Inl (ValueError ''close_fraction'')
      else if price \<le> 0 then Inl (ValueError ''TakeProfit.price'')
      else Inr \<lparr>tp_price = price, close_fraction = fr\<rparr>)"

record exit_policy =
  breakeven_at_r :: "pyfloat option"
  breakeven_offset_r :: pyfloat
  trail_r :: "pyfloat option"
  trail_distance :: "pyfloat option"
  time_stop_bars :: "int option"

definition mk_exit_policy :: "exit_policy \<Rightarrow> exit_policy result" where
  "mk_exit_policy p =
     (if (case breakeven_at_r p of None \<Rightarrow> False | Some x \<Rightarrow> x \<le> 0)
      then Inl (ValueError ''breakeven_at_r'')
      else if (case trail_r p of None \<Rightarrow> False | Some x \<Rightarrow> x \<le> 0) then Inl (ValueError ''trail_r'')
      else if (case trail_distance p of None \<Rightarrow> False | Some x \<Rightarrow> x \<le> 0)
      then Inl (ValueError ''trail_distance'')
      else if (case time_stop_bars p of None \<Rightarrow> False | Some n \<Rightarrow> n < 1)
      then Inl (ValueError ''time_stop_bars'')
      else Inr p)"

definition is_dynamic :: "exit_policy \<Rightarrow> bool" where
  "is_dynamic p \<longleftrightarrow> breakeven_at_r p \<noteq> None \<or> trail_r p \<noteq> None \<or> trail_distance p \<noteq> None \<or>
     time_stop_bars p \<noteq> None"

record exit_plan =
  plan_direction :: direction
  plan_entry_price :: pyfloat
  plan_stop_loss :: pyfloat
  take_profits :: "take_profit list"
  plan_min_rr :: pyfloat
  plan_exit_model :: string
  plan_policy :: "exit_policy option"

definition risk_distance :: "exit_plan \<Rightarrow> pyfloat" where
  "risk_distance p = \<bar>plan_entry_price p - plan_stop_loss p\<bar>"

definition tp_distance :: "exit_plan \<Rightarrow> take_profit \<Rightarrow> pyfloat" where
  "tp_distance p tp = (tp_price tp - plan_entry_price p) * sign (plan_direction p)"

text \<open>\<open>max_rr\<close>: \<open>max\<close> raises on an empty tuple, which no constructed plan has.\<close>

definition max_rr :: "exit_plan \<Rightarrow> pyfloat" where
  "max_rr p =
     (let risk = risk_distance p in
      if risk \<le> 0 then 0
      else case take_profits p of
             [] \<Rightarrow> 0
           | tp # tps \<Rightarrow> \<bar>tp_price (max_by (tp_distance p) tp tps) - plan_entry_price p\<bar> / risk)"

definition blended_rr :: "exit_plan \<Rightarrow> pyfloat" where
  "blended_rr p =
     (let risk = risk_distance p in
      if risk \<le> 0 then 0
      else
        let total_r = (\<Sum>tp\<leftarrow>take_profits p. \<bar>tp_price tp - plan_entry_price p\<bar> / risk * close_fraction tp);
            allocated = (\<Sum>tp\<leftarrow>take_profits p. close_fraction tp);
            remainder = max 0 (1 - allocated)
        in if remainder > 0 then total_r + max_rr p * remainder else total_r)"

definition take_profit_prices :: "exit_plan \<Rightarrow> pyfloat list" where
  "take_profit_prices p = List.map tp_price (take_profits p)"

definition mk_exit_plan :: "exit_plan \<Rightarrow> exit_plan result" where
  "mk_exit_plan p =
     (if plan_entry_price p \<le> 0 then Inl (ValueError ''entry_price'')
      else if plan_stop_loss p \<le> 0 then Inl (ValueError ''stop_loss'')
      else if take_profits p = [] then Inl (ValueError ''take_profits'')
      else if (plan_entry_price p - plan_stop_loss p) * sign (plan_direction p) \<le> 0
      then Inl (ValueError ''stop_loss side'')
      else if list_ex (\<lambda>tp. tp_distance p tp \<le> 0) (take_profits p)
      then Inl (ValueError ''take_profit side'')
      else if (\<Sum>tp\<leftarrow>take_profits p. close_fraction tp) > 1 + 1 / 10^9
      then Inl (ValueError ''close fractions'')
      else if max_rr p + RR_EPSILON < plan_min_rr p then Inl (ValueError ''min_rr'')
      else Inr p)"

record cfd_signal =
  strategy_id :: string
  variant_id :: string
  instrument :: string
  sig_direction :: direction
  entry_mode :: entry_mode
  sig_entry_price :: pyfloat
  sig_plan :: exit_plan
  sig_ms :: pyfloat
  expiry_candles :: int
  sig_reason :: string

definition mk_signal :: "cfd_signal \<Rightarrow> cfd_signal result" where
  "mk_signal s =
     (if \<bar>plan_entry_price (sig_plan s) - sig_entry_price s\<bar> > 1 / 10^6
      then Inl (ValueError ''entry_price mismatch'')
      else if plan_direction (sig_plan s) \<noteq> sig_direction s
      then Inl (ValueError ''direction mismatch'')
      else if expiry_candles s < 1 then Inl (ValueError ''expiry_candles'')
      else Inr s)"

definition sig_stop_loss :: "cfd_signal \<Rightarrow> pyfloat" where
  "sig_stop_loss s = plan_stop_loss (sig_plan s)"

record strategy_context =
  ctx_instrument :: string
  ctx_timeframe :: timeframe
  ctx_candle :: candle
  ctx_history :: "candle list"

text \<open>
  A strategy: the class attributes the runners read. The method \<open>evaluate\<close>, which each
  subclass brings with a state of its own, is a parameter of the runners.
\<close>

record cfd_strategy =
  st_id :: string
  st_timeframe :: timeframe
  st_instruments :: "string list"
  st_min_history :: nat
  st_variants :: "string list"

definition applies_to :: "cfd_strategy \<Rightarrow> string \<Rightarrow> bool" where
  "applies_to st inst \<longleftrightarrow> st_instruments st = [] \<or> inst \<in> set (st_instruments st)"

definition has_enough_history :: "cfd_strategy \<Rightarrow> strategy_context \<Rightarrow> bool" where
  "has_enough_history st ctx \<longleftrightarrow> length (ctx_history ctx) \<ge> st_min_history st"

text \<open>
  \<open>build_rr_exit_plan\<close>. The take-profits are built in order; the first constructor that
  raises ends the call. A missing list of fractions is an even split whose last leg takes the
  rest.
\<close>

fun build_tps :: "direction \<Rightarrow> pyfloat \<Rightarrow> pyfloat \<Rightarrow> (pyfloat \<times> pyfloat) list \<Rightarrow> take_profit list result" where
  "build_tps d entry risk [] = Inr []"
| "build_tps d entry risk ((rr, fr) # rest) =
     (case mk_take_profit (entry + sign d * (rr * risk)) fr of
        Inl e \<Rightarrow> Inl e
      | Inr tp \<Rightarrow> (case build_tps d entry risk rest of Inl e \<Rightarrow> Inl e | Inr tps \<Rightarrow> Inr (tp # tps)))"

definition default_fractions :: "nat \<Rightarrow> pyfloat list" where
  "default_fractions n =
     (let fr = 1 / of_nat n in (replicate n fr)[n - 1 := 1 - fr * of_int (int n - 1)])"

definition build_rr_exit_plan ::
  "direction \<Rightarrow> pyfloat \<Rightarrow> pyfloat \<Rightarrow> pyfloat list option \<Rightarrow> pyfloat list option \<Rightarrow> string \<Rightarrow>
   pyfloat \<Rightarrow> exit_policy option \<Rightarrow> exit_plan result" where
  "build_rr_exit_plan d entry sl rr_targets close_fractions exit_model min_rr policy =
     (let rrs = (case rr_targets of None \<Rightarrow> [min_rr] | Some rs \<Rightarrow> rs) in
      if rrs = [] then Inl (ValueError ''rr_targets'')
      else
        let risk = \<bar>entry - sl\<bar> in
        if risk \<le> 0 then Inl (ValueError ''risk distance is zero'')
        else
          let fracs = (case close_fractions of None \<Rightarrow> default_fractions (length rrs) | Some fs \<Rightarrow> fs) in
          if length fracs \<noteq> length rrs then Inl (ValueError ''close_fractions length'')
          else case build_tps d entry risk (zip rrs fracs) of
                 Inl e \<Rightarrow> Inl e
               | Inr tps \<Rightarrow> mk_exit_plan
                   \<lparr>plan_direction = d, plan_entry_price = entry, plan_stop_loss = sl,
                    take_profits = tps, plan_min_rr = min_rr, plan_exit_model = exit_model,
                    plan_policy = policy\<rparr>)"

subsection \<open>What a constructed plan guarantees\<close>

definition valid_plan :: "exit_plan \<Rightarrow> bool" where
  "valid_plan p \<longleftrightarrow> 0 < plan_entry_price p \<and> 0 < plan_stop_loss p \<and> take_profits p \<noteq> [] \<and>
     0 < (plan_entry_price p - plan_stop_loss p) * sign (plan_direction p) \<and>
     (\<forall>tp \<in> set (take_profits p). 0 < tp_distance p tp) \<and>
     (\<Sum>tp\<leftarrow>take_profits p. close_fraction tp) \<le> 1 + 1 / 10^9 \<and>
     plan_min_rr p \<le> max_rr p + RR_EPSILON"

lemma sign_simps [simp]: "sign LONG = 1" "sign SHORT = -1"
  by (simp_all add: sign_def)

lemma sign_square [simp]: "sign d * sign d = 1"
  by (cases d) simp_all

lemma abs_sign [simp]: "\<bar>sign d\<bar> = 1"
  by (cases d) simp_all

lemma sign_nonzero [simp]: "sign d \<noteq> 0"
  by (cases d) simp_all

lemma mk_exit_plan_iff: "mk_exit_plan p = Inr q \<longleftrightarrow> q = p \<and> valid_plan p"
  by (auto simp: mk_exit_plan_def valid_plan_def list_ex_iff not_le not_less)

lemma valid_plan_risk: "valid_plan p \<Longrightarrow>
   risk_distance p = (plan_entry_price p - plan_stop_loss p) * sign (plan_direction p) \<and> 0 < risk_distance p"
  by (cases "plan_direction p") (auto simp: valid_plan_def risk_distance_def)

lemma tp_distance_abs: "0 < tp_distance p tp \<Longrightarrow> \<bar>tp_price tp - plan_entry_price p\<bar> = tp_distance p tp"
  by (cases "plan_direction p") (auto simp: tp_distance_def)

lemma max_rr_ge:
  assumes "valid_plan p" and "tp \<in> set (take_profits p)"
  shows "tp_distance p tp / risk_distance p \<le> max_rr p"
proof -
  obtain t ts where tps: "take_profits p = t # ts" using assms(2) by (cases "take_profits p") auto
  let ?m = "max_by (tp_distance p) t ts"
  have "?m \<in> set (take_profits p)" using max_by_in tps by metis
  then have "0 < tp_distance p ?m" using assms(1) by (simp add: valid_plan_def)
  then have "max_rr p = tp_distance p ?m / risk_distance p"
    using valid_plan_risk[OF assms(1)] tps by (simp add: max_rr_def Let_def tp_distance_abs)
  moreover have "tp_distance p tp \<le> tp_distance p ?m"
    using assms(2) tps max_by_ge[of tp t ts "tp_distance p"] by simp
  ultimately show ?thesis using valid_plan_risk[OF assms(1)] by (simp add: divide_right_mono)
qed

lemma max_rr_attained:
  assumes "valid_plan p"
  shows "\<exists>tp \<in> set (take_profits p). max_rr p = tp_distance p tp / risk_distance p"
proof -
  obtain t ts where tps: "take_profits p = t # ts"
    using assms by (cases "take_profits p") (auto simp: valid_plan_def)
  let ?m = "max_by (tp_distance p) t ts"
  have m: "?m \<in> set (take_profits p)" using max_by_in tps by metis
  then have "0 < tp_distance p ?m" using assms by (simp add: valid_plan_def)
  then have "max_rr p = tp_distance p ?m / risk_distance p"
    using valid_plan_risk[OF assms] tps by (simp add: max_rr_def Let_def tp_distance_abs)
  with m show ?thesis by blast
qed

lemma default_fractions_snoc:
  "default_fractions (Suc m) = replicate m (1 / of_nat (Suc m)) @ [1 - 1 / of_nat (Suc m) * of_nat m]"
proof -
  have "(replicate (Suc m) a)[m := x] = replicate m a @ [x]" for a x :: pyfloat
  proof -
    have "replicate (Suc m) a = replicate m a @ [a]" by (simp add: replicate_append_same)
    then show ?thesis by (simp only: list_update_append length_replicate) simp
  qed
  then show ?thesis by (simp add: default_fractions_def Let_def)
qed

lemma sum_list_default_fractions: "0 < n \<Longrightarrow> sum_list (default_fractions n) = 1"
  by (cases n) (simp_all add: default_fractions_snoc sum_list_replicate)

lemma length_default_fractions [simp]: "length (default_fractions n) = n"
  by (simp add: default_fractions_def Let_def)

lemma build_tps_Inr:
  "build_tps d entry risk xs = Inr tps \<Longrightarrow>
   tps = List.map (\<lambda>(rr, f). \<lparr>tp_price = entry + sign d * (rr * risk), close_fraction = f\<rparr>) xs \<and>
   (\<forall>tp \<in> set tps. 0 < close_fraction tp \<and> close_fraction tp \<le> 1 \<and> 0 < tp_price tp)"
proof (induction xs arbitrary: tps)
  case Nil
  then show ?case by simp
next
  case (Cons x xs)
  then show ?case
    by (cases x) (auto simp: mk_take_profit_def split: sum.splits if_splits)
qed

text \<open>C15: A plan can be constructed exactly when it is money-safe: entry and stop positive,
  the stop strictly on the losing side, at least one take-profit, every take-profit strictly
  on the winning side, close fractions of at most the whole position, and the furthest target
  at the required multiple of the risk (all with the code's tolerances). The multiple is that
  of an actual target and no target has a larger one.\<close>

theorem exit_plan_invariant:
  "(mk_exit_plan p = Inr q \<longleftrightarrow> q = p \<and> valid_plan p) \<and>
   (mk_exit_plan p = Inr q \<longrightarrow>
      0 < risk_distance q \<and>
      list_all (\<lambda>tp. tp_distance q tp / risk_distance q \<le> max_rr q) (take_profits q) \<and>
      list_ex (\<lambda>tp. tp_distance q tp / risk_distance q = max_rr q) (take_profits q) \<and>
      plan_min_rr q - RR_EPSILON \<le> max_rr q)"
proof (intro conjI impI)
  show "mk_exit_plan p = Inr q \<longleftrightarrow> q = p \<and> valid_plan p" by (rule mk_exit_plan_iff)
  assume "mk_exit_plan p = Inr q"
  then have v: "valid_plan q" by (simp add: mk_exit_plan_iff)
  show "0 < risk_distance q" using valid_plan_risk[OF v] by simp
  show "list_all (\<lambda>tp. tp_distance q tp / risk_distance q \<le> max_rr q) (take_profits q)"
    using max_rr_ge[OF v] by (simp add: list_all_iff)
  show "list_ex (\<lambda>tp. tp_distance q tp / risk_distance q = max_rr q) (take_profits q)"
    using max_rr_attained[OF v] by (auto simp: list_ex_iff)
  show "plan_min_rr q - RR_EPSILON \<le> max_rr q" using v by (simp add: valid_plan_def)
qed

definition demo_plan :: exit_plan where
  "demo_plan = \<lparr>plan_direction = LONG, plan_entry_price = 2400, plan_stop_loss = 2390,
     take_profits = [\<lparr>tp_price = 2420, close_fraction = 1/2\<rparr>, \<lparr>tp_price = 2430, close_fraction = 1/2\<rparr>],
     plan_min_rr = 2, plan_exit_model = '''', plan_policy = None\<rparr>"

lemma demo_plan_simps [simp]:
  "plan_direction demo_plan = LONG" "plan_entry_price demo_plan = 2400"
  "plan_stop_loss demo_plan = 2390" "plan_policy demo_plan = None" "plan_min_rr demo_plan = 2"
  "take_profits demo_plan =
     [\<lparr>tp_price = 2420, close_fraction = 1/2\<rparr>, \<lparr>tp_price = 2430, close_fraction = 1/2\<rparr>]"
  "risk_distance demo_plan = 10"
  by (simp_all add: demo_plan_def risk_distance_def)

lemma demo_plan_rr [simp]: "max_rr demo_plan = 3"
  by (simp add: max_rr_def Let_def tp_distance_def)

lemma demo_plan_valid: "valid_plan demo_plan"
  by (simp add: valid_plan_def tp_distance_def RR_EPSILON_def)

theorem exit_plan_invariant_witness:
  "mk_exit_plan demo_plan = Inr demo_plan \<and> 0 < risk_distance demo_plan"
  using exit_plan_invariant[of demo_plan demo_plan] demo_plan_valid by blast

text \<open>\<open>build_rr_exit_plan\<close> delivers the targets it was asked for: each take-profit lies at
  exactly its R multiple of the stop distance with its fraction, the plan's R:R is the largest
  multiple requested, which is at least the floor (to \<open>1e-6\<close>), and fractions left to the
  default close exactly the whole position.\<close>

theorem build_rr_exit_plan_correct:
  assumes "build_rr_exit_plan d entry sl (Some rrs) fracs em min_rr pol = Inr p"
  shows "valid_plan p \<and>
    List.map (\<lambda>tp. tp_distance p tp / risk_distance p) (take_profits p) = rrs \<and>
    max_rr p = Max (set rrs) \<and> min_rr - RR_EPSILON \<le> Max (set rrs) \<and>
    List.map close_fraction (take_profits p) =
      (case fracs of None \<Rightarrow> default_fractions (length rrs) | Some fs \<Rightarrow> fs) \<and>
    (fracs = None \<longrightarrow> sum_list (List.map close_fraction (take_profits p)) = 1)"
proof -
  let ?fs = "case fracs of None \<Rightarrow> default_fractions (length rrs) | Some fs \<Rightarrow> fs"
  let ?risk = "\<bar>entry - sl\<bar>"
  from assms obtain tps where ne: "rrs \<noteq> []" and risk: "0 < ?risk" and len: "length ?fs = length rrs"
    and tps: "build_tps d entry ?risk (zip rrs ?fs) = Inr tps"
    and mk: "mk_exit_plan \<lparr>plan_direction = d, plan_entry_price = entry, plan_stop_loss = sl,
        take_profits = tps, plan_min_rr = min_rr, plan_exit_model = em, plan_policy = pol\<rparr> = Inr p"
    by (auto simp: build_rr_exit_plan_def Let_def split: if_splits sum.splits)
  from mk have v: "valid_plan p" and p: "take_profits p = tps" "plan_direction p = d"
    "plan_entry_price p = entry" "plan_stop_loss p = sl" "plan_min_rr p = min_rr"
    by (auto simp: mk_exit_plan_iff)
  have eq: "tps = List.map (\<lambda>(rr, f). \<lparr>tp_price = entry + sign d * (rr * ?risk), close_fraction = f\<rparr>)
      (zip rrs ?fs)"
    using build_tps_Inr[OF tps] by simp
  have dist: "tp_distance p \<lparr>tp_price = entry + sign d * (rr * ?risk), close_fraction = f\<rparr> / risk_distance p = rr"
    for rr f
    using risk by (cases d) (simp_all add: tp_distance_def p risk_distance_def)
  have rr: "List.map (\<lambda>tp. tp_distance p tp / risk_distance p) (take_profits p) = rrs"
    using len dist by (simp add: p(1) eq comp_def case_prod_beta)
  have fr: "List.map close_fraction (take_profits p) = ?fs"
    using len by (simp add: p(1) eq comp_def case_prod_beta)
  have set_rr: "set rrs = (\<lambda>tp. tp_distance p tp / risk_distance p) ` set (take_profits p)"
    using arg_cong[OF rr, of set] by simp
  have "max_rr p = Max (set rrs)"
    using max_rr_attained[OF v] max_rr_ge[OF v] by (intro Max_eqI[symmetric]) (auto simp: set_rr)
  moreover have "min_rr - RR_EPSILON \<le> max_rr p" using v by (simp add: valid_plan_def p)
  ultimately show ?thesis using v rr fr ne by (simp add: sum_list_default_fractions)
qed

theorem build_rr_exit_plan_correct_witness:
  "case build_rr_exit_plan LONG 2400 2390 (Some [2, 3]) None '''' 2 None of
     Inl e \<Rightarrow> False | Inr p \<Rightarrow> max_rr p = Max {2, 3}"
proof -
  have b: "build_rr_exit_plan LONG 2400 2390 (Some [2, 3]) None '''' 2 None = Inr demo_plan"
    by (simp add: build_rr_exit_plan_def Let_def default_fractions_def mk_take_profit_def
        mk_exit_plan_iff demo_plan_valid demo_plan_def[symmetric])
  from build_rr_exit_plan_correct[OF b] show ?thesis by (simp add: b)
qed

end
