(* ===== verification/Exec_Base.thy ===== *)
theory Exec_Base
  imports Strategy_Base
begin

section \<open>Managed positions and exit evaluation\<close>

text \<open>
  \<open>app/cfd_execution/base.py\<close>: the state of an open trade and the two decisions every
  executor shares, \<open>evaluate_exit\<close> (stop first, then take-profits) and
  \<open>apply_dynamic_stop\<close> (breakeven and trailing), with the time stop.
\<close>

datatype position_status = PENDING | OPEN | CLOSED

datatype exit_reason =
    STOP_LOSS | TAKE_PROFIT | TRAILING_STOP | TIME_STOP | MANUAL | EOD_FLATTEN | RISK_HALT | EXPIRED

record partial_close =
  pc_price :: pyfloat
  pc_fraction :: pyfloat
  pc_reason :: exit_reason
  pc_ms :: pyfloat
  pc_rr :: pyfloat
  pc_pnl_price :: pyfloat

record managed_position =
  position_id :: string
  mp_strategy_id :: string
  mp_variant_id :: string
  mp_instrument :: string
  mp_direction :: direction
  entry_price :: pyfloat
  entry_time_ms :: pyfloat
  lots :: pyfloat
  mp_plan :: exit_plan
  mp_account_id :: string
  status :: position_status
  remaining_fraction :: pyfloat
  partial_closes :: "partial_close list"
  tp_taken :: "int set"
  max_favorable_price :: pyfloat
  max_adverse_price :: pyfloat
  current_stop :: pyfloat
  bars_open :: int
  exit_price :: pyfloat
  exit_time_ms :: pyfloat
  final_reason :: "exit_reason option"

text \<open>The constructor call the executors make, with the dataclass's defaults and \<open>__post_init__\<close>.\<close>

definition new_position ::
  "string \<Rightarrow> string \<Rightarrow> string \<Rightarrow> string \<Rightarrow> direction \<Rightarrow> pyfloat \<Rightarrow> pyfloat \<Rightarrow> pyfloat \<Rightarrow>
   exit_plan \<Rightarrow> string \<Rightarrow> managed_position" where
  "new_position pid sid vid inst d entry t lot plan acct =
     \<lparr>position_id = pid, mp_strategy_id = sid, mp_variant_id = vid, mp_instrument = inst,
      mp_direction = d, entry_price = entry, entry_time_ms = t, lots = lot, mp_plan = plan,
      mp_account_id = acct, status = OPEN, remaining_fraction = 1, partial_closes = [],
      tp_taken = {}, max_favorable_price = entry, max_adverse_price = entry,
      current_stop = plan_stop_loss plan, bars_open = 0, exit_price = 0, exit_time_ms = 0,
      final_reason = None\<rparr>"

definition is_open :: "managed_position \<Rightarrow> bool" where
  "is_open p \<longleftrightarrow> status p = OPEN"

definition price_pnl_per_unit :: "managed_position \<Rightarrow> pyfloat \<Rightarrow> pyfloat" where
  "price_pnl_per_unit p price = (price - entry_price p) * sign (mp_direction p)"

definition rr_at :: "managed_position \<Rightarrow> pyfloat \<Rightarrow> pyfloat" where
  "rr_at p price =
     (let risk = risk_distance (mp_plan p) in
      if risk \<le> 0 then 0 else price_pnl_per_unit p price / risk)"

definition update_excursion :: "pyfloat \<Rightarrow> managed_position \<Rightarrow> managed_position" where
  "update_excursion price p =
     (if mp_direction p = LONG
      then p\<lparr>max_favorable_price := max (max_favorable_price p) price,
             max_adverse_price := min (max_adverse_price p) price\<rparr>
      else p\<lparr>max_favorable_price := min (max_favorable_price p) price,
             max_adverse_price := max (max_adverse_price p) price\<rparr>)"

definition mfe_price :: "managed_position \<Rightarrow> pyfloat" where
  "mfe_price p = \<bar>max_favorable_price p - entry_price p\<bar>"

definition mae_price :: "managed_position \<Rightarrow> pyfloat" where
  "mae_price p = \<bar>max_adverse_price p - entry_price p\<bar>"

record exit_decision =
  d_reason :: exit_reason
  d_price :: pyfloat
  d_fraction :: pyfloat
  d_tp_index :: int
  fully_closed :: bool

text \<open>
  \<open>evaluate_exit\<close>. The stop is checked against the whole range first; otherwise the
  take-profits run in order of their distance from the entry (a stable sort of the indexed
  list), each bounded by what remains. Decisions are only built when something was hit, so
  the dataclass's \<open>hit\<close> is always true and its \<open>reason\<close> always present.
\<close>

definition stop_touched :: "managed_position \<Rightarrow> pyfloat \<Rightarrow> pyfloat \<Rightarrow> bool" where
  "stop_touched p high low \<longleftrightarrow>
     (if mp_direction p = LONG then low \<le> current_stop p else high \<ge> current_stop p)"

definition tp_touched :: "managed_position \<Rightarrow> pyfloat \<Rightarrow> pyfloat \<Rightarrow> take_profit \<Rightarrow> bool" where
  "tp_touched p high low tp \<longleftrightarrow>
     (if mp_direction p = LONG then high \<ge> tp_price tp else low \<le> tp_price tp)"

definition ordered_tps :: "managed_position \<Rightarrow> (nat \<times> take_profit) list" where
  "ordered_tps p =
     sort_key (\<lambda>it. (tp_price (snd it) - entry_price p) * sign (mp_direction p))
       (List.enumerate 0 (take_profits (mp_plan p)))"

fun tp_loop ::
  "managed_position \<Rightarrow> pyfloat \<Rightarrow> pyfloat \<Rightarrow> (nat \<times> take_profit) list \<Rightarrow> pyfloat \<Rightarrow> exit_decision list" where
  "tp_loop p high low [] running = []"
| "tp_loop p high low ((idx, tp) # rest) running =
     (if int idx \<in> tp_taken p then tp_loop p high low rest running
      else if \<not> tp_touched p high low tp then tp_loop p high low rest running
      else
        let fr = min (close_fraction tp) running in
        if fr \<le> 0 then tp_loop p high low rest running
        else
          let running' = running - fr; fully = (running' \<le> 1 / 10^9);
              d = \<lparr>d_reason = TAKE_PROFIT, d_price = tp_price tp, d_fraction = fr,
                   d_tp_index = int idx, fully_closed = fully\<rparr>
          in if fully then [d] else d # tp_loop p high low rest running')"

definition evaluate_exit :: "managed_position \<Rightarrow> pyfloat \<Rightarrow> pyfloat \<Rightarrow> exit_decision list" where
  "evaluate_exit p high low =
     (if \<not> is_open p then []
      else if stop_touched p high low
      then [\<lparr>d_reason = STOP_LOSS, d_price = current_stop p, d_fraction = remaining_fraction p,
             d_tp_index = -1, fully_closed = True\<rparr>]
      else tp_loop p high low (ordered_tps p) (remaining_fraction p))"

definition tighter_stop :: "pyfloat \<Rightarrow> pyfloat \<Rightarrow> pyfloat \<Rightarrow> pyfloat" where
  "tighter_stop sg a b = (if sg > 0 then max a b else min a b)"

text \<open>\<open>apply_dynamic_stop\<close>: whether the stop moved, and the position with the stop moved.\<close>

definition breakeven_stop :: "exit_policy \<Rightarrow> managed_position \<Rightarrow> pyfloat \<Rightarrow> pyfloat" where
  "breakeven_stop policy p stop0 =
     (let R = risk_distance (mp_plan p); sg = sign (mp_direction p) in
      case breakeven_at_r policy of
        None \<Rightarrow> stop0
      | Some at_r \<Rightarrow>
          if (max_favorable_price p - entry_price p) * sg / R \<ge> at_r - 1 / 10^12
          then tighter_stop sg stop0 (entry_price p + sg * breakeven_offset_r policy * R)
          else stop0)"

definition trailing_stop :: "exit_policy \<Rightarrow> managed_position \<Rightarrow> pyfloat \<Rightarrow> pyfloat" where
  "trailing_stop policy p stop1 =
     (let R = risk_distance (mp_plan p); sg = sign (mp_direction p);
          dist = (case trail_distance policy of
                    Some x \<Rightarrow> Some x
                  | None \<Rightarrow> (case trail_r policy of Some r \<Rightarrow> Some (r * R) | None \<Rightarrow> None))
      in case dist of
           None \<Rightarrow> stop1
         | Some x \<Rightarrow> if x > 0 then tighter_stop sg stop1 (max_favorable_price p - sg * x) else stop1)"

definition apply_dynamic_stop :: "managed_position \<Rightarrow> bool \<times> managed_position" where
  "apply_dynamic_stop p =
     (case plan_policy (mp_plan p) of
        None \<Rightarrow> (False, p)
      | Some policy \<Rightarrow>
          if \<not> is_dynamic policy then (False, p)
          else if risk_distance (mp_plan p) \<le> 0 then (False, p)
          else
            let sg = sign (mp_direction p); old = current_stop p;
                new_stop = trailing_stop policy p (breakeven_stop policy p old)
            in if (sg > 0 \<and> new_stop > old + 1 / 10^12) \<or> (sg < 0 \<and> new_stop < old - 1 / 10^12)
               then (True, p\<lparr>current_stop := new_stop\<rparr>)
               else (False, p))"

definition time_stop_reached :: "managed_position \<Rightarrow> bool" where
  "time_stop_reached p \<longleftrightarrow>
     (case plan_policy (mp_plan p) of
        None \<Rightarrow> False
      | Some policy \<Rightarrow> (case time_stop_bars policy of None \<Rightarrow> False | Some n \<Rightarrow> bars_open p \<ge> n))"

text \<open>
  The bookkeeping of a partial or full close, which the paper executor's \<open>_apply_exit\<close> and
  the backtest's \<open>_apply\<close> both write out: append the record, remember the take-profit,
  reduce the remaining fraction.
\<close>

definition close_record ::
  "managed_position \<Rightarrow> pyfloat \<Rightarrow> pyfloat \<Rightarrow> exit_reason \<Rightarrow> pyfloat \<Rightarrow> partial_close" where
  "close_record p price fraction reason ms =
     \<lparr>pc_price = price, pc_fraction = fraction, pc_reason = reason, pc_ms = ms,
      pc_rr = rr_at p price, pc_pnl_price = price_pnl_per_unit p price\<rparr>"

definition book_close ::
  "managed_position \<Rightarrow> pyfloat \<Rightarrow> pyfloat \<Rightarrow> exit_reason \<Rightarrow> pyfloat \<Rightarrow> int \<Rightarrow> managed_position" where
  "book_close p price fraction reason ms tp_index =
     p\<lparr>partial_closes := partial_closes p @ [close_record p price fraction reason ms],
       tp_taken := (if tp_index \<ge> 0 then insert tp_index (tp_taken p) else tp_taken p),
       remaining_fraction := remaining_fraction p - fraction\<rparr>"

definition closes_position :: "managed_position \<Rightarrow> exit_reason \<Rightarrow> bool" where
  "closes_position p reason \<longleftrightarrow> remaining_fraction p \<le> 1 / 10^9 \<or> reason = STOP_LOSS"

subsection \<open>What the decisions look like\<close>

definition decided_fraction :: "exit_decision list \<Rightarrow> pyfloat" where
  "decided_fraction ds = (\<Sum>d\<leftarrow>ds. d_fraction d)"

lemma tp_loop_decision:
  "d \<in> set (tp_loop p high low its running) \<Longrightarrow>
   \<exists>idx tp. (idx, tp) \<in> set its \<and> int idx \<notin> tp_taken p \<and> tp_touched p high low tp \<and>
     d_reason d = TAKE_PROFIT \<and> d_price d = tp_price tp \<and> d_tp_index d = int idx \<and>
     0 < d_fraction d \<and> d_fraction d \<le> close_fraction tp"
proof (induction its arbitrary: running)
  case Nil
  then show ?case by simp
next
  case (Cons it its)
  obtain idx tp where it: "it = (idx, tp)" by fastforce
  from Cons show ?case by (fastforce simp: it Let_def split: if_splits)
qed

lemma tp_loop_sum:
  "0 \<le> running \<Longrightarrow> decided_fraction (tp_loop p high low its running) \<le> running"
proof (induction its arbitrary: running)
  case Nil
  then show ?case by (simp add: decided_fraction_def)
next
  case (Cons it its)
  obtain idx tp where it: "it = (idx, tp)" by fastforce
  let ?fr = "min (close_fraction tp) running"
  have le: "0 \<le> running - ?fr" by simp
  from Cons.IH[OF Cons.prems] Cons.IH[OF le] Cons.prems show ?case
    by (auto simp: it Let_def decided_fraction_def)
qed

lemma tp_loop_last: "list_all (\<lambda>d. \<not> fully_closed d) (butlast (tp_loop p high low its running))"
proof (induction its arbitrary: running)
  case Nil
  then show ?case by simp
next
  case (Cons it its)
  then show ?case by (cases it) (auto simp: Let_def)
qed

lemma set_ordered_tps: "set (ordered_tps p) = set (List.enumerate 0 (take_profits (mp_plan p)))"
  by (simp add: ordered_tps_def)

lemma tp_loop_sorted:
  "sorted (List.map (\<lambda>it. (tp_price (snd it) - e) * s) its) \<Longrightarrow>
   sorted (List.map (\<lambda>d. (d_price d - e) * s) (tp_loop p high low its running))"
proof (induction its arbitrary: running)
  case Nil
  then show ?case by simp
next
  case (Cons it its)
  obtain idx tp where it: "it = (idx, tp)" by fastforce
  have "(tp_price tp - e) * s \<le> (d_price d - e) * s"
    if "d \<in> set (tp_loop p high low its r)" for d r
    using tp_loop_decision[OF that] Cons.prems by (auto simp: it)
  then show ?case using Cons by (auto simp: it Let_def)
qed

subsection \<open>Closing a position by a list of decisions\<close>

text \<open>The loop both executors run over the decisions of one price update.\<close>

fun apply_decisions ::
  "(exit_decision \<Rightarrow> 'p \<Rightarrow> 'p) \<Rightarrow> exit_decision list \<Rightarrow> 'p \<Rightarrow> 'p" where
  "apply_decisions close_by [] p = p"
| "apply_decisions close_by (d # ds) p =
     (let p' = close_by d p in if fully_closed d then p' else apply_decisions close_by ds p')"

definition closed_fraction :: "managed_position \<Rightarrow> pyfloat" where
  "closed_fraction p = (\<Sum>pc\<leftarrow>partial_closes p. pc_fraction pc)"

definition realized_rr :: "managed_position \<Rightarrow> pyfloat" where
  "realized_rr p = (\<Sum>pc\<leftarrow>partial_closes p. pc_rr pc * pc_fraction pc)"

definition weighted_pnl :: "managed_position \<Rightarrow> pyfloat" where
  "weighted_pnl p = (\<Sum>pc\<leftarrow>partial_closes p. pc_pnl_price pc * pc_fraction pc)"

text \<open>
  The books of a position: what was closed and what remains make the whole position, every
  recorded close has a positive fraction and the R and the profit of its price, and the
  position is open exactly while something is left to close.
\<close>

definition leg_ok :: "managed_position \<Rightarrow> partial_close \<Rightarrow> bool" where
  "leg_ok p pc \<longleftrightarrow> 0 < pc_fraction pc \<and> pc_rr pc = rr_at p (pc_price pc) \<and>
     pc_pnl_price pc = price_pnl_per_unit p (pc_price pc)"

definition position_books :: "managed_position \<Rightarrow> bool" where
  "position_books p \<longleftrightarrow> closed_fraction p + remaining_fraction p = 1 \<and> 0 \<le> remaining_fraction p \<and>
     list_all (leg_ok p) (partial_closes p) \<and> (is_open p \<longleftrightarrow> 1 / 10^9 < remaining_fraction p)"

text \<open>The part of a position a close never changes.\<close>

definition same_trade :: "managed_position \<Rightarrow> managed_position \<Rightarrow> bool" where
  "same_trade p q \<longleftrightarrow> entry_price p = entry_price q \<and> mp_plan p = mp_plan q \<and>
     mp_direction p = mp_direction q \<and> current_stop p = current_stop q \<and>
     mp_instrument p = mp_instrument q \<and> lots p = lots q \<and> position_id p = position_id q \<and>
     mp_strategy_id p = mp_strategy_id q \<and> mp_variant_id p = mp_variant_id q \<and>
     max_favorable_price p = max_favorable_price q \<and> max_adverse_price p = max_adverse_price q \<and>
     bars_open p = bars_open q \<and> mp_account_id p = mp_account_id q"

lemma same_trade_refl [simp]: "same_trade p p"
  by (simp add: same_trade_def)

lemma same_trade_trans: "same_trade p q \<Longrightarrow> same_trade q r \<Longrightarrow> same_trade p r"
  by (simp add: same_trade_def)

lemma same_trade_leg_ok: "same_trade p q \<Longrightarrow> leg_ok p = leg_ok q"
  by (intro ext) (simp add: same_trade_def leg_ok_def rr_at_def price_pnl_per_unit_def Let_def)

lemma leg_ok_close_record: "0 < fr \<Longrightarrow> leg_ok p (close_record p price fr reason ms)"
  by (simp add: leg_ok_def close_record_def)

lemma new_position_books [simp]: "position_books (new_position pid sid vid inst d e t lot plan acct)"
  by (simp add: position_books_def new_position_def closed_fraction_def is_open_def)

lemma new_position_open [simp]: "is_open (new_position pid sid vid inst d e t lot plan acct)"
  by (simp add: is_open_def new_position_def)

text \<open>
  The contract of an operation that executes one exit decision. It is kept by the backtest's
  \<open>_apply\<close> and by the position half of the paper executor's \<open>_apply_exit\<close>.
\<close>

locale position_closer =
  fixes close_by :: "pyfloat \<Rightarrow> exit_decision \<Rightarrow> managed_position \<Rightarrow> managed_position"
  assumes close_remaining: "is_open p \<Longrightarrow> 0 < d_fraction d \<Longrightarrow>
        remaining_fraction (close_by t d p) = remaining_fraction p - d_fraction d"
    and close_records: "is_open p \<Longrightarrow> 0 < d_fraction d \<Longrightarrow>
        partial_closes (close_by t d p) =
          partial_closes p @ [close_record p (d_price d) (d_fraction d) (d_reason d) t]"
    and close_status: "is_open p \<Longrightarrow> 0 < d_fraction d \<Longrightarrow>
        is_open (close_by t d p) \<longleftrightarrow>
          \<not> (remaining_fraction p - d_fraction d \<le> 1 / 10^9 \<or> d_reason d = STOP_LOSS)"
    and close_same: "same_trade (close_by t d p) p"
begin

lemma close_books:
  assumes "position_books p" and "is_open p" and "0 < d_fraction d"
    and "d_fraction d \<le> remaining_fraction p"
    and "d_reason d = STOP_LOSS \<Longrightarrow> d_fraction d = remaining_fraction p"
  shows "position_books (close_by t d p)"
proof -
  have "closed_fraction (close_by t d p) = closed_fraction p + d_fraction d"
    using assms(2,3) by (simp add: closed_fraction_def close_records close_record_def)
  moreover have "list_all (leg_ok (close_by t d p)) (partial_closes (close_by t d p))"
    using assms same_trade_leg_ok[OF close_same, of t d p]
    by (simp add: close_records position_books_def leg_ok_close_record)
  moreover have "is_open (close_by t d p) \<longleftrightarrow> 1 / 10^9 < remaining_fraction p - d_fraction d"
    using assms(2,3,5) by (auto simp: close_status not_le)
  ultimately show ?thesis
    using assms by (simp add: position_books_def close_remaining)
qed

lemma apply_tp_loop:
  assumes "position_books q" and "is_open q" and "remaining_fraction q = running"
  shows "position_books (apply_decisions (close_by t) (tp_loop p high low its running) q) \<and>
    same_trade (apply_decisions (close_by t) (tp_loop p high low its running) q) q \<and>
    (is_open (apply_decisions (close_by t) (tp_loop p high low its running) q) \<longleftrightarrow>
       list_all (\<lambda>d. \<not> fully_closed d) (tp_loop p high low its running))"
  using assms
proof (induction its arbitrary: q running)
  case Nil
  then show ?case by simp
next
  case (Cons it its)
  obtain idx tp where it: "it = (idx, tp)" by fastforce
  let ?fr = "min (close_fraction tp) running"
  let ?d = "\<lparr>d_reason = TAKE_PROFIT, d_price = tp_price tp, d_fraction = ?fr,
             d_tp_index = int idx, fully_closed = (running - ?fr \<le> 1 / 10^9)\<rparr>"
  let ?q = "close_by t ?d q"
  show ?case
  proof (cases "int idx \<in> tp_taken p \<or> \<not> tp_touched p high low tp \<or> ?fr \<le> 0")
    case True
    then have "tp_loop p high low (it # its) running = tp_loop p high low its running"
      by (auto simp: it Let_def)
    then show ?thesis using Cons.IH[OF Cons.prems] by simp
  next
    case False
    then have fr: "0 < ?fr" "?fr \<le> running" by auto
    have books: "position_books ?q" using close_books[of q ?d t] Cons.prems fr by simp
    have open_q: "is_open ?q \<longleftrightarrow> \<not> running - ?fr \<le> 1 / 10^9"
      using close_status[of q ?d t] Cons.prems fr by simp
    have rem: "remaining_fraction ?q = running - ?fr"
      using close_remaining[of q ?d t] Cons.prems fr by simp
    have loop: "tp_loop p high low (it # its) running =
        (if running - ?fr \<le> 1 / 10^9 then [?d] else ?d # tp_loop p high low its (running - ?fr))"
      using False by (auto simp: it Let_def)
    show ?thesis
    proof (cases "running - ?fr \<le> 1 / 10^9")
      case True
      then show ?thesis using books open_q close_same[of t ?d q] unfolding loop by simp
    next
      case False
      from Cons.IH[OF books _ rem] False open_q close_same[of t ?d q]
      show ?thesis unfolding loop by (auto dest: same_trade_trans)
    qed
  qed
qed

text \<open>One price update on an open position: the books stay right, the position ends open
  exactly when no decision closed it fully.\<close>

lemma apply_evaluated:
  assumes "position_books p" and "is_open p"
  shows "position_books (apply_decisions (close_by t) (evaluate_exit p high low) p) \<and>
    same_trade (apply_decisions (close_by t) (evaluate_exit p high low) p) p \<and>
    (is_open (apply_decisions (close_by t) (evaluate_exit p high low) p) \<longleftrightarrow>
       list_all (\<lambda>d. \<not> fully_closed d) (evaluate_exit p high low))"
proof (cases "stop_touched p high low")
  case True
  let ?d = "\<lparr>d_reason = STOP_LOSS, d_price = current_stop p, d_fraction = remaining_fraction p,
             d_tp_index = -1, fully_closed = True\<rparr>"
  have ev: "evaluate_exit p high low = [?d]" using assms(2) True by (simp add: evaluate_exit_def)
  have fr: "0 < remaining_fraction p" using assms by (simp add: position_books_def order_less_trans[rotated])
  show ?thesis
    using close_books[of p ?d t] close_status[of p ?d t] close_same[of t ?d p] assms fr
    unfolding ev by simp
next
  case False
  then have "evaluate_exit p high low = tp_loop p high low (ordered_tps p) (remaining_fraction p)"
    using assms(2) by (simp add: evaluate_exit_def)
  then show ?thesis using apply_tp_loop[OF assms, of _ t p high low] by simp
qed

end

subsection \<open>The two decisions\<close>


definition demo_position :: managed_position where
  "demo_position = new_position ''p'' ''s'' ''v'' ''XAUUSD'' LONG 2400 0 1 demo_plan ''a''"


text \<open>
  The price of a stop decision is the stop itself, even when the whole range has jumped over
  it: a bar that opens and stays below a long's stop still fills at the stop.
\<close>

lemma stop_fill_may_lie_outside_the_bar:
  "evaluate_exit demo_position 2380 2370 =
     [\<lparr>d_reason = STOP_LOSS, d_price = 2390, d_fraction = 1, d_tp_index = -1, fully_closed = True\<rparr>]"
  by (simp add: evaluate_exit_def demo_position_def new_position_def is_open_def stop_touched_def)

text \<open>How far a stop lies in the trade's favour.\<close>

definition favour :: "managed_position \<Rightarrow> pyfloat \<Rightarrow> pyfloat" where
  "favour p stop = stop * sign (mp_direction p)"

lemma favour_tighter: "favour p (tighter_stop (sign (mp_direction p)) a b) = max (favour p a) (favour p b)"
  by (cases "mp_direction p") (auto simp: favour_def tighter_stop_def)

lemma favour_breakeven_ge: "favour p s \<le> favour p (breakeven_stop pol p s)"
  by (simp add: breakeven_stop_def Let_def favour_tighter split: option.split)

lemma favour_trailing_ge: "favour p s \<le> favour p (trailing_stop pol p s)"
  by (simp add: trailing_stop_def Let_def favour_tighter split: option.split)

lemma moved_iff:
  "(sign d > 0 \<and> n > old + 1 / 10^12) \<or> (sign d < 0 \<and> n < old - 1 / 10^12) \<longleftrightarrow>
   n * sign d > old * sign d + 1 / 10^12"
  by (cases d) auto

lemma apply_dynamic_stop_cases:
  assumes "plan_policy (mp_plan p) = Some pol" and "is_dynamic pol" and "0 < risk_distance (mp_plan p)"
  shows "apply_dynamic_stop p =
    (let n = trailing_stop pol p (breakeven_stop pol p (current_stop p)) in
     if favour p n > favour p (current_stop p) + 1 / 10^12 then (True, p\<lparr>current_stop := n\<rparr>)
     else (False, p))"
  using assms by (cases "mp_direction p") (auto simp: apply_dynamic_stop_def Let_def favour_def)

lemma apply_dynamic_stop_shape:
  "snd (apply_dynamic_stop p) = p \<and> \<not> fst (apply_dynamic_stop p) \<or>
   (\<exists>n. snd (apply_dynamic_stop p) = p\<lparr>current_stop := n\<rparr> \<and> fst (apply_dynamic_stop p) \<and>
      favour p (current_stop p) + 1 / 10^12 < favour p n)"
  unfolding apply_dynamic_stop_def Let_def moved_iff
  by (auto simp: favour_def moved_iff split: option.splits)


definition demo_trailing :: managed_position where
  "demo_trailing = demo_position\<lparr>mp_plan := demo_plan\<lparr>plan_policy :=
       Some \<lparr>breakeven_at_r = Some 1, breakeven_offset_r = 0, trail_r = None,
             trail_distance = Some 5, time_stop_bars = None\<rparr>\<rparr>,
     max_favorable_price := 2412\<rparr>"


end
