(* ===== verification/Exit_Simulator.thy ===== *)
theory Exit_Simulator
  imports Exec_Base Costs
begin

section \<open>Backtest exit simulator\<close>

text \<open>
  \<open>app/cfd_backtest/exit_simulator.py\<close>: one position walked over the bars after its entry.
  The loop's variables \<open>exit_price\<close>, \<open>exit_time_ms\<close> and \<open>exit_reason\<close> are the record
  \<open>exit_info\<close>; \<open>break\<close> is the Boolean the inner loops return. The research tags, which the
  replay fills in later, are fields of the trade with their defaults.
\<close>

record exit_info =
  xi_price :: pyfloat
  xi_ms :: pyfloat
  xi_reason :: exit_reason

record simulated_trade =
  t_instrument :: string
  t_direction :: direction
  t_entry_price :: pyfloat
  t_entry_ms :: pyfloat
  t_exit_price :: pyfloat
  t_exit_ms :: pyfloat
  t_exit_reason :: exit_reason
  t_lots :: pyfloat
  t_planned_rr :: pyfloat
  t_realized_rr :: pyfloat
  t_pnl_price :: pyfloat
  t_pnl_usd :: pyfloat
  t_cost_usd :: pyfloat
  t_net_pnl_usd :: pyfloat
  t_mfe_price :: pyfloat
  t_mae_price :: pyfloat
  t_bars_held :: nat
  t_partials :: "partial_close list"
  t_closed :: bool
  t_strategy_id :: string
  t_session :: string
  t_regime :: string
  t_volatility :: string
  t_exit_model :: string
  t_timeframe :: string

definition synthetic_tick_path :: "candle \<Rightarrow> pyfloat list" where
  "synthetic_tick_path c =
     (if c_close c \<ge> c_open c then [c_open c, c_low c, c_high c, c_close c]
      else [c_open c, c_high c, c_low c, c_close c])"

definition sim_apply :: "pyfloat \<Rightarrow> exit_decision \<Rightarrow> managed_position \<Rightarrow> managed_position" where
  "sim_apply ms d p =
     (if d_fraction d \<le> 0 then p
      else
        let p1 = book_close p (d_price d) (d_fraction d) (d_reason d) ms (d_tp_index d)
        in if closes_position p1 (d_reason d) then p1\<lparr>status := CLOSED\<rparr> else p1)"

fun sim_decisions ::
  "pyfloat \<Rightarrow> exit_decision list \<Rightarrow> managed_position \<Rightarrow> exit_info \<Rightarrow> managed_position \<times> exit_info \<times> bool" where
  "sim_decisions ms [] p x = (p, x, False)"
| "sim_decisions ms (d # ds) p x =
     (let p' = sim_apply ms d p;
          x' = \<lparr>xi_price = d_price d, xi_ms = ms, xi_reason = d_reason d\<rparr>
      in if fully_closed d then (p', x', True) else sim_decisions ms ds p' x')"

fun sim_path ::
  "pyfloat \<Rightarrow> pyfloat list \<Rightarrow> managed_position \<Rightarrow> exit_info \<Rightarrow> managed_position \<times> exit_info \<times> bool" where
  "sim_path ms [] p x = (p, x, False)"
| "sim_path ms (price # prices) p x =
     (let (p', x', bar_closed) = sim_decisions ms (evaluate_exit p price price) p x
      in if bar_closed then (p', x', True) else sim_path ms prices p' x')"

text \<open>One bar: excursions, the stop on the whole range, then the synthetic path.\<close>

definition sim_bar ::
  "candle \<Rightarrow> managed_position \<Rightarrow> exit_info \<Rightarrow> managed_position \<times> exit_info \<times> bool" where
  "sim_bar c p0 x =
     (let p = update_excursion (c_low c) (update_excursion (c_high c) p0);
          decisions = evaluate_exit p (c_high c) (c_low c)
      in case decisions of
           d # ds \<Rightarrow>
             if d_reason d = STOP_LOSS
             then (sim_apply (c_ms c) d p,
                   \<lparr>xi_price = d_price d, xi_ms = c_ms c, xi_reason = d_reason d\<rparr>, True)
             else sim_path (c_ms c) (synthetic_tick_path c) p x
         | [] \<Rightarrow> sim_path (c_ms c) (synthetic_tick_path c) p x)"

fun sim_bars ::
  "candle list \<Rightarrow> nat \<Rightarrow> managed_position \<Rightarrow> exit_info \<Rightarrow> managed_position \<times> exit_info \<times> nat \<times> bool" where
  "sim_bars [] held p x = (p, x, held, False)"
| "sim_bars (c # cs) held p x =
     (let (p', x', closed) = sim_bar c p x
      in if closed then (p', x', held + 1, True) else sim_bars cs (held + 1) p' x')"

text \<open>The forced flatten of what is left when the window ends.\<close>

definition flatten_rest :: "candle \<Rightarrow> managed_position \<Rightarrow> managed_position" where
  "flatten_rest c p =
     (if remaining_fraction p > 1 / 10^9
      then p\<lparr>partial_closes := partial_closes p @
               [close_record p (c_close c) (remaining_fraction p) EOD_FLATTEN (c_ms c)],
             remaining_fraction := 0\<rparr>
      else p)"

definition simulate_position ::
  "managed_position \<Rightarrow> candle list \<Rightarrow> managed_position \<times> exit_info \<times> nat \<times> bool" where
  "simulate_position p0 future =
     (let (p, x, held, closed) = sim_bars future 0 p0
            \<lparr>xi_price = entry_price p0, xi_ms = entry_time_ms p0, xi_reason = EOD_FLATTEN\<rparr>
      in if \<not> closed \<and> future \<noteq> []
         then (flatten_rest (last future) p,
               \<lparr>xi_price = c_close (last future), xi_ms = c_ms (last future), xi_reason = EOD_FLATTEN\<rparr>,
               held, closed)
         else (p, x, held, closed))"

definition simulate_exit ::
  "registry \<Rightarrow> string \<Rightarrow> direction \<Rightarrow> pyfloat \<Rightarrow> pyfloat \<Rightarrow> pyfloat \<Rightarrow> exit_plan \<Rightarrow> candle list \<Rightarrow>
   cost_model option \<Rightarrow> simulated_trade result" where
  "simulate_exit reg inst_name d entry ms lot plan future model =
     (let cm = (case model of None \<Rightarrow> COST_MODEL_INTRADAY | Some m \<Rightarrow> m) in
      case get_instrument reg inst_name of
        Inl e \<Rightarrow> Inl e
      | Inr inst \<Rightarrow>
          let p0 = new_position ''SIM'' '''' '''' inst_name d entry ms lot plan ''default'';
              (p, x, held, closed) = simulate_position p0 future;
              pnl_price = weighted_pnl p;
              rr = realized_rr p;
              pnl_usd = pnl_price * point_value_per_lot inst * lot
          in case calculate_trade_cost reg inst_name lot None 1 0 0 (Some cm) (Some inst) of
               Inl e \<Rightarrow> Inl e
             | Inr cost \<Rightarrow>
                 Inr \<lparr>t_instrument = inst_name, t_direction = d, t_entry_price = entry,
                   t_entry_ms = ms, t_exit_price = xi_price x, t_exit_ms = xi_ms x,
                   t_exit_reason = xi_reason x, t_lots = lot, t_planned_rr = max_rr plan,
                   t_realized_rr = rr, t_pnl_price = pnl_price, t_pnl_usd = pnl_usd,
                   t_cost_usd = total_usd cost, t_net_pnl_usd = pnl_usd - total_usd cost,
                   t_mfe_price = mfe_price p, t_mae_price = mae_price p, t_bars_held = held,
                   t_partials = partial_closes p, t_closed = closed, t_strategy_id = '''', t_session = '''',
                   t_regime = '''', t_volatility = '''', t_exit_model = '''', t_timeframe = ''''\<rparr>)"

subsection \<open>The simulator's close keeps the contract\<close>

interpretation sim_closer: position_closer sim_apply
  by unfold_locales
    (auto simp: sim_apply_def book_close_def closes_position_def is_open_def same_trade_def Let_def)

lemma sim_decisions_eq:
  "fst (sim_decisions ms ds p x) = apply_decisions (sim_apply ms) ds p \<and>
   snd (snd (sim_decisions ms ds p x)) = list_ex fully_closed ds"
  by (induction ds arbitrary: p x) (simp_all add: Let_def)

lemma sim_decisions_exit:
  "snd (snd (sim_decisions ms ds p x)) \<Longrightarrow> xi_ms (fst (snd (sim_decisions ms ds p x))) = ms"
  by (induction ds arbitrary: p x) (auto simp: Let_def split: if_splits)

lemma same_trade_update_excursion [simp]:
  "entry_price (update_excursion x p) = entry_price p" "mp_plan (update_excursion x p) = mp_plan p"
  "mp_direction (update_excursion x p) = mp_direction p"
  "current_stop (update_excursion x p) = current_stop p"
  "partial_closes (update_excursion x p) = partial_closes p"
  "remaining_fraction (update_excursion x p) = remaining_fraction p"
  "status (update_excursion x p) = status p" "is_open (update_excursion x p) = is_open p"
  "tp_taken (update_excursion x p) = tp_taken p"
  by (simp_all add: update_excursion_def is_open_def)

lemma leg_ok_update_excursion [simp]: "leg_ok (update_excursion x p) = leg_ok p"
  by (intro ext) (simp add: leg_ok_def rr_at_def price_pnl_per_unit_def Let_def)

lemma position_books_update_excursion [simp]:
  "position_books (update_excursion x p) = position_books p"
  by (simp add: position_books_def closed_fraction_def)

subsection \<open>No trade loses more than its risk\<close>

text \<open>
  The state of a simulated position between bars: its books are right, its stop is the plan's,
  and every leg closed so far realized at least minus one R.
\<close>

definition sim_inv :: "managed_position \<Rightarrow> bool" where
  "sim_inv p \<longleftrightarrow> position_books p \<and> valid_plan (mp_plan p) \<and>
     plan_direction (mp_plan p) = mp_direction p \<and> plan_entry_price (mp_plan p) = entry_price p \<and>
     current_stop p = plan_stop_loss (mp_plan p) \<and>
     list_all (\<lambda>pc. -1 \<le> pc_rr pc) (partial_closes p)"

lemma rr_at_bound:
  assumes "valid_plan (mp_plan p)" and "plan_direction (mp_plan p) = mp_direction p"
    and "plan_entry_price (mp_plan p) = entry_price p"
  shows "-1 \<le> rr_at p x \<longleftrightarrow> favour p (plan_stop_loss (mp_plan p)) \<le> favour p x"
  using valid_plan_risk[OF assms(1)] assms(2,3)
  by (cases "mp_direction p")
     (auto simp: rr_at_def Let_def price_pnl_per_unit_def favour_def field_simps)

lemma decision_above_stop:
  assumes "sim_inv p" and "d \<in> set (evaluate_exit p high low)"
  shows "favour p (plan_stop_loss (mp_plan p)) \<le> favour p (d_price d)"
proof (cases "stop_touched p high low")
  case True
  then show ?thesis using assms by (auto simp: evaluate_exit_def sim_inv_def split: if_splits)
next
  case False
  then have "d \<in> set (tp_loop p high low (ordered_tps p) (remaining_fraction p))"
    using assms(2) by (auto simp: evaluate_exit_def split: if_splits)
  then obtain idx tp where "(idx, tp) \<in> set (ordered_tps p)" and price: "d_price d = tp_price tp"
    using tp_loop_decision by blast
  then have "tp \<in> set (take_profits (mp_plan p))"
    by (auto simp: set_ordered_tps in_set_enumerate_eq)
  then have "0 < tp_distance (mp_plan p) tp" "0 < (plan_entry_price (mp_plan p) - plan_stop_loss (mp_plan p)) * sign (plan_direction (mp_plan p))"
    using assms(1) by (auto simp: sim_inv_def valid_plan_def)
  then show ?thesis
    using assms(1) by (cases "mp_direction p") (auto simp: favour_def price tp_distance_def sim_inv_def)
qed

lemma apply_decisions_legs:
  assumes "\<And>d. d \<in> set ds \<Longrightarrow> -1 \<le> rr_at p (d_price d)" and "same_trade q p"
    and "list_all (\<lambda>pc. -1 \<le> pc_rr pc) (partial_closes q)"
  shows "list_all (\<lambda>pc. -1 \<le> pc_rr pc) (partial_closes (apply_decisions (sim_apply ms) ds q))"
  using assms
proof (induction ds arbitrary: q)
  case Nil
  then show ?case by simp
next
  case (Cons d ds)
  have same: "same_trade (sim_apply ms d q) p"
    using sim_closer.close_same Cons.prems(2) same_trade_trans by blast
  have "rr_at q (d_price d) = rr_at p (d_price d)"
    using Cons.prems(2) by (simp add: rr_at_def price_pnl_per_unit_def same_trade_def Let_def)
  then have legs: "list_all (\<lambda>pc. -1 \<le> pc_rr pc) (partial_closes (sim_apply ms d q))"
    using Cons.prems(1)[of d] Cons.prems(3)
    by (simp add: sim_apply_def book_close_def close_record_def Let_def)
  then show ?case using Cons.IH[OF Cons.prems(1) same legs] by (simp add: Let_def)
qed

lemma evaluated_sim_inv:
  assumes "sim_inv p" and "is_open p"
  shows "sim_inv (apply_decisions (sim_apply ms) (evaluate_exit p high low) p) \<and>
    (is_open (apply_decisions (sim_apply ms) (evaluate_exit p high low) p) \<longleftrightarrow>
       \<not> list_ex fully_closed (evaluate_exit p high low))"
proof -
  let ?q = "apply_decisions (sim_apply ms) (evaluate_exit p high low) p"
  have books: "position_books p" using assms(1) by (simp add: sim_inv_def)
  note ev = sim_closer.apply_evaluated[OF books assms(2), of ms high low]
  have "-1 \<le> rr_at p (d_price d)" if "d \<in> set (evaluate_exit p high low)" for d
    using rr_at_bound[of p "d_price d"] decision_above_stop[OF assms(1) that] assms(1)
    by (simp add: sim_inv_def)
  then have "list_all (\<lambda>pc. -1 \<le> pc_rr pc) (partial_closes ?q)"
    using assms(1) by (intro apply_decisions_legs) (auto simp: sim_inv_def)
  moreover have "list_all (\<lambda>d. \<not> fully_closed d) ds \<longleftrightarrow> \<not> list_ex fully_closed ds" for ds
    by (auto simp: list_all_iff list_ex_iff)
  ultimately show ?thesis using ev assms(1) by (auto simp: sim_inv_def same_trade_def)
qed

lemma sim_path_inv:
  assumes "sim_inv p" and "is_open p" and "sim_path ms prices p x = (q, y, c)"
  shows "sim_inv q \<and> (is_open q \<longleftrightarrow> \<not> c) \<and> (c \<longrightarrow> xi_ms y = ms) \<and>
    entry_price q = entry_price p \<and> mp_plan q = mp_plan p \<and> mp_direction q = mp_direction p"
  using assms
proof (induction prices arbitrary: p x)
  case Nil
  then show ?case by simp
next
  case (Cons price prices)
  obtain p' x' b where d: "sim_decisions ms (evaluate_exit p price price) p x = (p', x', b)"
    by (metis prod_cases3)
  have p': "p' = apply_decisions (sim_apply ms) (evaluate_exit p price price) p"
    "b \<longleftrightarrow> list_ex fully_closed (evaluate_exit p price price)" "b \<Longrightarrow> xi_ms x' = ms"
    using sim_decisions_eq[of ms "evaluate_exit p price price" p x]
      sim_decisions_exit[of ms "evaluate_exit p price price" p x] by (simp_all add: d)
  note inv = evaluated_sim_inv[OF Cons.prems(1,2), of ms price price, folded p'(1,2)]
  have books: "position_books p" using Cons.prems(1) by (simp add: sim_inv_def)
  have same: "same_trade p' p"
    using sim_closer.apply_evaluated[OF books Cons.prems(2), of ms price price] by (simp add: p'(1))
  show ?case
  proof (cases b)
    case True
    then show ?thesis using Cons.prems(3) inv p'(3) same by (auto simp: d same_trade_def)
  next
    case False
    with Cons.prems(3) have "sim_path ms prices p' x' = (q, y, c)" by (simp add: d)
    from Cons.IH[OF _ _ this] inv False same show ?thesis by (auto simp: same_trade_def)
  qed
qed

lemma sim_inv_update_excursion [simp]: "sim_inv (update_excursion x p) = sim_inv p"
  by (simp add: sim_inv_def)

lemma sim_bar_inv:
  assumes inv: "sim_inv p0" and op: "is_open p0" and ok: "ohlc_ok c"
    and bar: "sim_bar c p0 x = (q, y, cl)"
  shows "sim_inv q \<and> (is_open q \<longleftrightarrow> \<not> cl) \<and> (cl \<longrightarrow> xi_ms y = c_ms c) \<and>
    entry_price q = entry_price p0 \<and> mp_plan q = mp_plan p0 \<and> mp_direction q = mp_direction p0 \<and>
    (\<not> cl \<longrightarrow> favour q (plan_stop_loss (mp_plan q)) \<le> favour q (c_close c))"
proof -
  let ?p = "update_excursion (c_low c) (update_excursion (c_high c) p0)"
  let ?ds = "evaluate_exit ?p (c_high c) (c_low c)"
  have p: "sim_inv ?p" "is_open ?p" using inv op by simp_all
  show ?thesis
  proof (cases "stop_touched ?p (c_high c) (c_low c)")
    case True
    let ?d = "\<lparr>d_reason = STOP_LOSS, d_price = current_stop ?p, d_fraction = remaining_fraction ?p,
               d_tp_index = -1, fully_closed = True\<rparr>"
    have ds: "?ds = [?d]" using True p(2) by (simp add: evaluate_exit_def)
    from bar have q: "q = sim_apply (c_ms c) ?d ?p" "cl" "xi_ms y = c_ms c"
      unfolding sim_bar_def Let_def ds by auto
    have "q = apply_decisions (sim_apply (c_ms c)) ?ds ?p" unfolding ds by (simp add: q)
    with evaluated_sim_inv[OF p, of "c_ms c" "c_high c" "c_low c"] q
      sim_closer.close_same[of "c_ms c" ?d ?p]
    show ?thesis unfolding ds by (simp add: same_trade_def)
  next
    case False
    then have "?ds = tp_loop ?p (c_high c) (c_low c) (ordered_tps ?p) (remaining_fraction ?p)"
      using p(2) by (simp add: evaluate_exit_def)
    then have "d_reason d = TAKE_PROFIT" if "d \<in> set ?ds" for d
      using that tp_loop_decision[of d] by metis
    then have path: "sim_path (c_ms c) (synthetic_tick_path c) ?p x = (q, y, cl)"
      using bar by (auto simp: sim_bar_def Let_def split: list.splits)
    have "favour ?p (plan_stop_loss (mp_plan ?p)) \<le> favour ?p (c_close c)"
      using False ok p(1)
      by (cases "mp_direction p0") (auto simp: stop_touched_def sim_inv_def favour_def ohlc_ok_def)
    with sim_path_inv[OF p path] show ?thesis by (auto simp: favour_def)
  qed
qed

lemma sim_bars_inv:
  assumes "sim_inv p" and "is_open p" and "list_all ohlc_ok cs" and "sim_bars cs held p x = (q, y, h, cl)"
  shows "sim_inv q \<and> (is_open q \<longleftrightarrow> \<not> cl) \<and> mp_plan q = mp_plan p \<and> entry_price q = entry_price p \<and>
    held \<le> h \<and> h \<le> held + length cs \<and>
    (cl \<longrightarrow> held < h \<and> xi_ms y = c_ms (cs ! (h - held - 1))) \<and>
    (\<not> cl \<and> cs \<noteq> [] \<longrightarrow> favour q (plan_stop_loss (mp_plan q)) \<le> favour q (c_close (last cs)))"
  using assms
proof (induction cs arbitrary: held p x)
  case Nil
  then show ?case by simp
next
  case (Cons c cs)
  obtain p' x' b where bar: "sim_bar c p x = (p', x', b)" by (metis prod_cases3)
  have "ohlc_ok c" using Cons.prems(3) by simp
  note inv = sim_bar_inv[OF Cons.prems(1,2) this bar]
  show ?case
  proof (cases b)
    case True
    then show ?thesis using Cons.prems(4) inv by (auto simp: bar)
  next
    case False
    with Cons.prems(4) have rest: "sim_bars cs (held + 1) p' x' = (q, y, h, cl)" by (simp add: bar)
    have cs: "list_all ohlc_ok cs" using Cons.prems(3) by simp
    note ih = Cons.IH[OF _ _ cs rest]
    have "(c # cs) ! (h - held - 1) = cs ! (h - (held + 1) - 1)" if "held + 1 < h"
      using that by (simp add: nth_Cons')
    then show ?thesis using ih inv False Cons.prems(4) rest by (cases "cs = []") (auto simp: bar)
  qed
qed

lemma sum_legs_bound:
  assumes "list_all (\<lambda>pc. 0 < pc_fraction pc \<and> -1 \<le> pc_rr pc) pcs"
  shows "- (\<Sum>pc\<leftarrow>pcs. pc_fraction pc) \<le> (\<Sum>pc\<leftarrow>pcs. pc_rr pc * pc_fraction pc)"
  using assms
proof (induction pcs)
  case Nil
  then show ?case by simp
next
  case (Cons pc pcs)
  then have "-1 * pc_fraction pc \<le> pc_rr pc * pc_fraction pc"
    by (intro mult_right_mono) auto
  with Cons show ?case by simp
qed

lemma sim_inv_new_position:
  assumes "valid_plan plan" and "plan_direction plan = d" and "plan_entry_price plan = e"
  shows "sim_inv (new_position pid sid vid inst d e t lot plan acct)"
  using assms by (simp add: sim_inv_def) (simp add: new_position_def)

text \<open>The books of a finished simulation.\<close>

definition settled :: "managed_position \<Rightarrow> bool" where
  "settled p \<longleftrightarrow> 1 - 1 / 10^9 \<le> closed_fraction p \<and> closed_fraction p \<le> 1 \<and>
     list_all (\<lambda>pc. leg_ok p pc \<and> -1 \<le> pc_rr pc) (partial_closes p)"

lemma settled_rr:
  assumes "settled p"
  shows "-1 \<le> realized_rr p"
proof -
  have "list_all (\<lambda>pc. 0 < pc_fraction pc \<and> -1 \<le> pc_rr pc) (partial_closes p)"
    using assms by (auto simp: settled_def list_all_iff leg_ok_def)
  from sum_legs_bound[OF this] have "- closed_fraction p \<le> realized_rr p"
    by (simp add: closed_fraction_def realized_rr_def)
  then show ?thesis using assms by (simp add: settled_def)
qed

lemma flatten_settled:
  assumes "sim_inv p" and "is_open p"
    and "favour p (plan_stop_loss (mp_plan p)) \<le> favour p (c_close c)"
  shows "settled (flatten_rest c p)"
proof -
  let ?rec = "close_record p (c_close c) (remaining_fraction p) EOD_FLATTEN (c_ms c)"
  let ?q = "p\<lparr>partial_closes := partial_closes p @ [?rec], remaining_fraction := 0\<rparr>"
  have rem: "1 / 10^9 < remaining_fraction p" and sum: "closed_fraction p + remaining_fraction p = 1"
    using assms(1,2) by (simp_all add: sim_inv_def position_books_def)
  have q: "flatten_rest c p = ?q" using rem by (simp add: flatten_rest_def)
  have pos: "0 < remaining_fraction p" using rem by (rule order_less_trans[rotated]) simp
  have same: "leg_ok ?q = leg_ok p"
    by (intro ext) (simp add: leg_ok_def rr_at_def price_pnl_per_unit_def Let_def)
  have "-1 \<le> rr_at p (c_close c)"
    using rr_at_bound[of p "c_close c"] assms(1,3) by (simp add: sim_inv_def)
  then show ?thesis
    using assms(1) sum leg_ok_close_record[OF pos, of p "c_close c" EOD_FLATTEN "c_ms c"]
    unfolding q settled_def same
    by (auto simp: closed_fraction_def close_record_def sim_inv_def position_books_def list_all_iff)
qed

lemma closed_settled:
  assumes "sim_inv p" and "\<not> is_open p"
  shows "settled p"
  using assms by (auto simp: settled_def sim_inv_def position_books_def list_all_iff)

lemma weighted_pnl_rr:
  assumes "valid_plan (mp_plan p)" and "list_all (leg_ok p) (partial_closes p)"
  shows "weighted_pnl p = realized_rr p * risk_distance (mp_plan p)"
proof -
  have "pc_pnl_price pc * pc_fraction pc = pc_rr pc * pc_fraction pc * risk_distance (mp_plan p)"
    if "pc \<in> set (partial_closes p)" for pc
    using that assms valid_plan_risk[OF assms(1)]
    by (auto simp: list_all_iff leg_ok_def rr_at_def Let_def)
  then have "weighted_pnl p = (\<Sum>pc\<leftarrow>partial_closes p. pc_rr pc * pc_fraction pc * risk_distance (mp_plan p))"
    unfolding weighted_pnl_def by (intro arg_cong[of _ _ sum_list] map_cong) auto
  then show ?thesis by (simp add: realized_rr_def sum_list_mult_const)
qed

lemma flatten_rest_frame [simp]: "mp_plan (flatten_rest c p) = mp_plan p"
  by (simp add: flatten_rest_def)

lemma simulate_position_settled:
  assumes "sim_inv p0" and "is_open p0" and "partial_closes p0 = []" and "list_all ohlc_ok future"
    and "simulate_position p0 future = (p, x, held, cl')"
  shows "mp_plan p = mp_plan p0 \<and> held \<le> length future \<and>
    (if future = [] then partial_closes p = [] else settled p) \<and>
    (cl' \<longrightarrow> 0 < held \<and> xi_ms x = c_ms (future ! (held - 1)))"
proof -
  let ?x0 = "\<lparr>xi_price = entry_price p0, xi_ms = entry_time_ms p0, xi_reason = EOD_FLATTEN\<rparr>"
  obtain q y h cl where bars: "sim_bars future 0 p0 ?x0 = (q, y, h, cl)" by (metis prod_cases4)
  note inv = sim_bars_inv[OF assms(1,2,4) bars]
  show ?thesis
  proof (cases "future = []")
    case True
    then show ?thesis using assms(3,5) by (simp add: simulate_position_def)
  next
    case False
    show ?thesis
    proof (cases cl)
      case True
      then have "settled q" using closed_settled[of q] inv by simp
      then show ?thesis
        using True False inv assms(5) by (auto simp: simulate_position_def bars)
    next
      case cl: False
      have "settled (flatten_rest (last future) q)"
        by (rule flatten_settled) (use inv cl False in auto)
      then show ?thesis
        using cl False inv assms(5) by (auto simp: simulate_position_def bars)
    qed
  qed
qed

lemma simulate_exit_facts:
  assumes "valid_plan plan" and "plan_direction plan = d" and "plan_entry_price plan = entry"
    and "list_all ohlc_ok future" and "get_instrument reg s = Inr inst"
    and "simulate_exit reg s d entry ms lot plan future model = Inr t"
  shows "-1 \<le> t_realized_rr t \<and> t_bars_held t \<le> length future \<and>
    (future = [] \<longrightarrow> t_partials t = []) \<and>
    (future \<noteq> [] \<longrightarrow> 1 - 1 / 10^9 \<le> (\<Sum>pc\<leftarrow>t_partials t. pc_fraction pc) \<and>
       (\<Sum>pc\<leftarrow>t_partials t. pc_fraction pc) \<le> 1) \<and>
    (t_closed t \<longrightarrow> t_exit_ms t = c_ms (future ! (t_bars_held t - 1))) \<and>
    t_pnl_usd t = t_realized_rr t * (risk_distance plan * point_value_per_lot inst * lot) \<and>
    t_net_pnl_usd t = t_pnl_usd t - t_cost_usd t"
proof -
  let ?p0 = "new_position ''SIM'' '''' '''' s d entry ms lot plan ''default''"
  obtain p x held cl where sim: "simulate_position ?p0 future = (p, x, held, cl)"
    by (metis prod_cases4)
  have p0: "sim_inv ?p0" "is_open ?p0" "partial_closes ?p0 = []" "mp_plan ?p0 = plan"
    using sim_inv_new_position[OF assms(1-3)] by simp_all (simp_all add: new_position_def)
  note st = simulate_position_settled[OF p0(1-3) assms(4) sim]
  have t: "t_realized_rr t = realized_rr p" "t_partials t = partial_closes p" "t_bars_held t = held"
    "t_closed t = cl" "t_exit_ms t = xi_ms x" "t_net_pnl_usd t = t_pnl_usd t - t_cost_usd t"
    "t_pnl_usd t = weighted_pnl p * point_value_per_lot inst * lot"
    using assms(5,6) by (auto simp: simulate_exit_def sim Let_def split: sum.splits)
  have legs: "list_all (leg_ok p) (partial_closes p)"
    using st by (cases "future = []") (auto simp: settled_def list_all_iff)
  have rr: "-1 \<le> realized_rr p"
    using st settled_rr[of p] by (cases "future = []") (auto simp: realized_rr_def)
  have "weighted_pnl p = realized_rr p * risk_distance plan"
    using weighted_pnl_rr[of p] legs st p0(4) assms(1) by simp
  then show ?thesis using st rr by (auto simp: t settled_def closed_fraction_def)
qed

text \<open>C3: A simulated trade never loses more than the risk it was planned with: over any
  well-formed bars the realized multiple is at least minus one R; the legs close the whole
  position (to \<open>1e-9\<close>) and never more; a closed trade exits on the bar it is reported to
  have been held for; and the dollar result is that multiple of the dollar risk, less the
  cost.\<close>

theorem simulated_loss_bounded:
  assumes "valid_plan plan" and "plan_direction plan = d" and "plan_entry_price plan = entry"
    and "list_all ohlc_ok future" and "get_instrument reg s = Inr inst"
    and "simulate_exit reg s d entry ms lot plan future model = Inr t"
  shows "-1 \<le> t_realized_rr t \<and> t_bars_held t \<le> length future \<and>
    (future = [] \<longrightarrow> t_partials t = []) \<and>
    (future \<noteq> [] \<longrightarrow> 1 - 1 / 10^9 \<le> (\<Sum>pc\<leftarrow>t_partials t. pc_fraction pc) \<and>
       (\<Sum>pc\<leftarrow>t_partials t. pc_fraction pc) \<le> 1) \<and>
    (t_closed t \<longrightarrow> t_exit_ms t = c_ms (future ! (t_bars_held t - 1))) \<and>
    t_pnl_usd t = t_realized_rr t * (risk_distance plan * point_value_per_lot inst * lot) \<and>
    t_net_pnl_usd t = t_pnl_usd t - t_cost_usd t"
  using simulate_exit_facts[OF assms] .

definition demo_bar :: "pyfloat \<Rightarrow> pyfloat \<Rightarrow> pyfloat \<Rightarrow> pyfloat \<Rightarrow> pyfloat \<Rightarrow> candle" where
  "demo_bar ms oo hh ll cc = \<lparr>c_exchange = ''ICMARKETS'', c_segment = ''CFD'',
     c_token = ''XAUUSD'', c_timeframe = M5, c_ms = ms, c_open = oo, c_high = hh, c_low = ll,
     c_close = cc, c_volume = 1\<rparr>"

theorem simulated_loss_bounded_witness:
  "case simulate_exit gold_registry ''XAUUSD'' LONG 2400 0 1 demo_plan
      [demo_bar 300000 2401 2425 2399 2418, demo_bar 600000 2418 2419 2380 2385] None of
     Inl e \<Rightarrow> False
   | Inr t \<Rightarrow> -1 \<le> t_realized_rr t"
proof -
  let ?bars = "[demo_bar 300000 2401 2425 2399 2418, demo_bar 600000 2418 2419 2380 2385]"
  have bars: "list_all ohlc_ok ?bars" by (simp add: ohlc_ok_def demo_bar_def)
  obtain t where t: "simulate_exit gold_registry ''XAUUSD'' LONG 2400 0 1 demo_plan ?bars None = Inr t"
    by (simp add: simulate_exit_def gold_lookup calculate_trade_cost_def Let_def case_prod_beta)
  from simulated_loss_bounded[OF demo_plan_valid _ _ bars gold_lookup t] show ?thesis by (simp add: t)
qed

text \<open>
  The simulator never looks at the plan's exit policy: a plan with a trailing stop or a time
  stop is resolved as if it had none, which the paper and the live executor do not do.
\<close>

lemma simulate_position_ignores_policy_example:
  "let plan = demo_plan\<lparr>plan_policy := Some \<lparr>breakeven_at_r = Some 1, breakeven_offset_r = 0,
         trail_r = None, trail_distance = None, time_stop_bars = Some 1\<rparr>\<rparr>;
       p0 = new_position ''SIM'' '''' '''' ''XAUUSD'' LONG 2400 0 1 plan ''default'';
       bars = [demo_bar 300000 2401 2415 2400 2414, demo_bar 600000 2414 2414 2380 2385]
   in xi_price (fst (snd (simulate_position p0 bars))) = 2390"
  by (simp add: simulate_position_def sim_bar_def evaluate_exit_def new_position_def Let_def
      update_excursion_def is_open_def stop_touched_def demo_bar_def synthetic_tick_path_def
      ordered_tps_def tp_touched_def sim_apply_def book_close_def closes_position_def
      close_record_def)

end
