(* ===== verification/Paper_Executor.thy ===== *)
theory Paper_Executor
  imports Exec_Base Costs Position_Sizing Risk_Guard
begin

section \<open>Paper executor\<close>

text \<open>
  \<open>app/cfd_execution/account.py\<close> and \<open>app/cfd_execution/paper_executor.py\<close>: one account's
  simulated execution. The dictionaries the code iterates over are association lists in
  insertion order; positions are objects shared between the dictionary and the loops over a
  snapshot of its values, so a loop here runs over the snapshot's ids and reads the current
  object. A method returns the executor and the exception it raised, if any.

  Outside the model are the row \<open>_persist_trade\<close> writes and the messages \<open>_notify_entry\<close>
  and \<open>_notify_exit\<close> send; what they are called with is kept in \<open>pe_log\<close>. The ids
  \<open>uuid4\<close> draws are a supply \<open>pe_draws\<close>, read in order.
\<close>

subsection \<open>Accounts\<close>

record prop_firm_rules =
  firm_name :: string
  rules_daily_dd_pct :: pyfloat
  rules_max_dd_pct :: pyfloat
  max_dd_is_trailing :: bool
  profit_target_pct :: pyfloat
  min_trading_days :: int
  max_trading_days :: int
  rules_reset_hour :: int
  rules_reset_minute :: int
  reset_tz_offset_hours :: pyfloat
  rules_max_risk_per_trade_pct :: pyfloat
  rules_max_open_risk_pct :: pyfloat
  rules_flatten_before_weekend :: bool
  rules_flatten_before_daily_reset :: bool
  news_trading_allowed :: bool

definition GENERIC_RULES :: prop_firm_rules where
  "GENERIC_RULES = \<lparr>firm_name = ''generic'', rules_daily_dd_pct = 5, rules_max_dd_pct = 10,
     max_dd_is_trailing = False, profit_target_pct = 0, min_trading_days = 0, max_trading_days = 0,
     rules_reset_hour = 0, rules_reset_minute = 0, reset_tz_offset_hours = 3,
     rules_max_risk_per_trade_pct = 1, rules_max_open_risk_pct = 3,
     rules_flatten_before_weekend = True, rules_flatten_before_daily_reset = False,
     news_trading_allowed = True\<rparr>"

record account_config =
  account_id :: string
  acct_initial_balance :: pyfloat
  acct_rules :: prop_firm_rules
  ctrader_account_id :: int
  acct_enabled :: bool
  risk_per_trade_pct :: "pyfloat option"

definition effective_risk_per_trade_pct :: "account_config \<Rightarrow> pyfloat" where
  "effective_risk_per_trade_pct a =
     (case risk_per_trade_pct a of Some x \<Rightarrow> x | None \<Rightarrow> rules_max_risk_per_trade_pct (acct_rules a))"

definition to_risk_guard_config :: "account_config \<Rightarrow> risk_config" where
  "to_risk_guard_config a =
     \<lparr>initial_balance = acct_initial_balance a, daily_dd_pct = rules_daily_dd_pct (acct_rules a),
      max_dd_pct = rules_max_dd_pct (acct_rules a), reset_hour = rules_reset_hour (acct_rules a),
      reset_minute = rules_reset_minute (acct_rules a),
      reset_utc_offset_hours = reset_tz_offset_hours (acct_rules a),
      max_risk_per_trade_pct = rules_max_risk_per_trade_pct (acct_rules a),
      max_open_risk_pct = rules_max_open_risk_pct (acct_rules a),
      flatten_before_weekend = rules_flatten_before_weekend (acct_rules a),
      flatten_before_daily_reset = rules_flatten_before_daily_reset (acct_rules a)\<rparr>"

subsection \<open>The executor's state\<close>

type_synonym trade_key = "string \<times> string \<times> string \<times> direction"

record arm =
  arm_signal :: cfd_signal
  candles_remaining :: int

text \<open>What \<open>_persist_trade\<close> is called with.\<close>

record closed_trade =
  ct_position :: managed_position
  ct_realized_rr :: pyfloat
  ct_pnl_price :: pyfloat
  ct_pnl_usd :: pyfloat
  ct_cost_usd :: pyfloat
  ct_net_usd :: pyfloat

record paper_executor =
  pe_account :: account_config
  pe_cost_model :: cost_model
  pe_risk :: risk_guard
  pe_risk_pct :: pyfloat
  pe_sizing_balance :: pyfloat
  pe_positions :: "(string \<times> managed_position) list"
  pe_arms :: "(trade_key \<times> arm) list"
  pe_open_keys :: "trade_key set"
  pe_last_price :: "string \<rightharpoonup> pyfloat"
  pe_trades_opened :: nat
  pe_trades_closed :: nat
  pe_draws :: "nat \<Rightarrow> string"
  pe_drawn :: nat
  pe_log :: "closed_trade list"

definition new_executor :: "account_config \<Rightarrow> cost_model option \<Rightarrow> (nat \<Rightarrow> string) \<Rightarrow> paper_executor" where
  "new_executor acct cm draws =
     \<lparr>pe_account = acct,
      pe_cost_model = (case cm of None \<Rightarrow> COST_MODEL_INTRADAY | Some m \<Rightarrow> m),
      pe_risk = new_guard (to_risk_guard_config acct),
      pe_risk_pct = effective_risk_per_trade_pct acct,
      pe_sizing_balance = acct_initial_balance acct,
      pe_positions = [], pe_arms = [], pe_open_keys = {}, pe_last_price = Map.empty,
      pe_trades_opened = 0, pe_trades_closed = 0, pe_draws = draws, pe_drawn = 0, pe_log = []\<rparr>"

definition signal_key :: "cfd_signal \<Rightarrow> trade_key" where
  "signal_key s = (strategy_id s, variant_id s, instrument s, sig_direction s)"

definition position_key :: "managed_position \<Rightarrow> trade_key" where
  "position_key p = (mp_strategy_id p, mp_variant_id p, mp_instrument p, mp_direction p)"

definition put_position :: "managed_position \<Rightarrow> paper_executor \<Rightarrow> paper_executor" where
  "put_position p ex = ex\<lparr>pe_positions := AList.update (position_id p) p (pe_positions ex)\<rparr>"

subsection \<open>Fills\<close>

definition fill ::
  "registry \<Rightarrow> cfd_signal \<Rightarrow> pyfloat \<Rightarrow> pyfloat \<Rightarrow> paper_executor \<Rightarrow> paper_executor outcome" where
  "fill reg sig fill_price fill_ms ex =
     (case get_instrument reg (instrument sig) of
        Inl e \<Rightarrow> raises e ex
      | Inr inst \<Rightarrow>
          (case calculate_lot_size reg (instrument sig) (pe_sizing_balance ex) (pe_risk_pct ex)
                  \<bar>fill_price - sig_stop_loss sig\<bar> (Some inst) of
             Inl e \<Rightarrow> raises e ex
           | Inr sizing \<Rightarrow>
               if rejected sizing then returns ex
               else
                 let (verdict, g) = check_trade_risk (risk_usd sizing) (pe_risk ex);
                     ex1 = ex\<lparr>pe_risk := g\<rparr>
                 in if verdict \<noteq> Allowed then returns ex1
                    else
                      let pos = new_position (pe_draws ex1 (pe_drawn ex1)) (strategy_id sig)
                                  (variant_id sig) (instrument sig) (sig_direction sig) fill_price
                                  fill_ms (lot_size sizing) (sig_plan sig) (account_id (pe_account ex1));
                          ex2 = put_position pos (ex1\<lparr>pe_drawn := pe_drawn ex1 + 1\<rparr>)
                      in returns (ex2\<lparr>pe_open_keys := insert (signal_key sig) (pe_open_keys ex2),
                                      pe_trades_opened := pe_trades_opened ex2 + 1\<rparr>)))"

definition on_signal :: "registry \<Rightarrow> cfd_signal \<Rightarrow> paper_executor \<Rightarrow> paper_executor outcome" where
  "on_signal reg sig ex =
     (let key = signal_key sig in
      if \<not> acct_enabled (pe_account ex) then returns ex
      else if key \<in> pe_open_keys ex then returns ex
      else if map_of (pe_arms ex) key \<noteq> None
      then returns (ex\<lparr>pe_arms := AList.update key
              \<lparr>arm_signal = sig, candles_remaining = expiry_candles sig\<rparr> (pe_arms ex)\<rparr>)
      else
        let (ok, g) = can_trade (pe_risk ex); ex1 = ex\<lparr>pe_risk := g\<rparr> in
        if \<not> ok then returns ex1
        else if entry_mode sig = CANDLE_CLOSE
        then fill reg sig (sig_entry_price sig) (sig_ms sig) ex1
        else returns (ex1\<lparr>pe_arms := AList.update key
              \<lparr>arm_signal = sig, candles_remaining = expiry_candles sig\<rparr> (pe_arms ex1)\<rparr>))"

definition trigger_reached :: "cfd_signal \<Rightarrow> pyfloat \<Rightarrow> bool" where
  "trigger_reached sig price \<longleftrightarrow>
     (if sig_direction sig = LONG then price \<ge> sig_entry_price sig else price \<le> sig_entry_price sig)"

definition arms_to_fill :: "string \<Rightarrow> pyfloat \<Rightarrow> paper_executor \<Rightarrow> arm list" where
  "arms_to_fill inst price ex =
     filter (\<lambda>a. instrument (arm_signal a) = inst \<and> trigger_reached (arm_signal a) price)
       (List.map snd (pe_arms ex))"

definition fill_arm :: "registry \<Rightarrow> pyfloat \<Rightarrow> arm \<Rightarrow> paper_executor \<Rightarrow> paper_executor outcome" where
  "fill_arm reg ms a ex =
     (let key = signal_key (arm_signal a);
          ex1 = ex\<lparr>pe_arms := AList.delete key (pe_arms ex)\<rparr>
      in if key \<in> pe_open_keys ex1 then returns ex1
         else
           let (ok, g) = can_trade (pe_risk ex1); ex2 = ex1\<lparr>pe_risk := g\<rparr> in
           if \<not> ok then returns ex2
           else fill reg (arm_signal a) (sig_entry_price (arm_signal a)) ms ex2)"

definition check_arms ::
  "registry \<Rightarrow> string \<Rightarrow> pyfloat \<Rightarrow> pyfloat \<Rightarrow> paper_executor \<Rightarrow> paper_executor outcome" where
  "check_arms reg inst price ms ex = for_each (fill_arm reg ms) (arms_to_fill inst price ex) ex"

subsection \<open>Exits\<close>

definition mark_closed ::
  "pyfloat \<Rightarrow> exit_reason \<Rightarrow> pyfloat \<Rightarrow> managed_position \<Rightarrow> managed_position" where
  "mark_closed price reason ms p =
     p\<lparr>status := CLOSED, exit_price := price, exit_time_ms := ms, final_reason := Some reason\<rparr>"

definition close_position ::
  "registry \<Rightarrow> managed_position \<Rightarrow> pyfloat \<Rightarrow> exit_reason \<Rightarrow> pyfloat \<Rightarrow> paper_executor \<Rightarrow> paper_executor outcome" where
  "close_position reg p0 price reason ms ex0 =
     (let p = mark_closed price reason ms p0; ex = put_position p ex0 in
      case get_instrument reg (mp_instrument p) of
        Inl e \<Rightarrow> raises e ex
      | Inr inst \<Rightarrow>
          let pnl_usd = weighted_pnl p * point_value_per_lot inst * lots p in
          case calculate_trade_cost reg (mp_instrument p) (lots p) None 1 0 0
                 (Some (pe_cost_model ex)) (Some inst) of
            Inl e \<Rightarrow> raises e ex
          | Inr cost \<Rightarrow>
              let net = pnl_usd - total_usd cost in
              returns (ex\<lparr>pe_risk := add_realized_pnl net (pe_risk ex),
                          pe_open_keys := pe_open_keys ex - {position_key p},
                          pe_positions := AList.delete (position_id p) (pe_positions ex),
                          pe_trades_closed := pe_trades_closed ex + 1,
                          pe_log := pe_log ex @ [\<lparr>ct_position = p, ct_realized_rr = realized_rr p,
                            ct_pnl_price = weighted_pnl p, ct_pnl_usd = pnl_usd,
                            ct_cost_usd = total_usd cost, ct_net_usd = net\<rparr>]\<rparr>))"

definition apply_exit ::
  "registry \<Rightarrow> pyfloat \<Rightarrow> string \<Rightarrow> exit_decision \<Rightarrow> paper_executor \<Rightarrow> paper_executor outcome" where
  "apply_exit reg ms pid d ex =
     (case map_of (pe_positions ex) pid of
        None \<Rightarrow> returns ex
      | Some p \<Rightarrow>
          if d_fraction d \<le> 0 \<or> \<not> is_open p then returns ex
          else
            let p1 = book_close p (d_price d) (d_fraction d) (d_reason d) ms (d_tp_index d);
                ex1 = put_position p1 ex
            in if closes_position p1 (d_reason d)
               then close_position reg p1 (d_price d) (d_reason d) ms ex1
               else returns ex1)"

fun exit_loop ::
  "registry \<Rightarrow> pyfloat \<Rightarrow> string \<Rightarrow> exit_decision list \<Rightarrow> paper_executor \<Rightarrow> paper_executor outcome" where
  "exit_loop reg ms pid [] ex = returns ex"
| "exit_loop reg ms pid (d # ds) ex =
     seq (apply_exit reg ms pid d ex)
       (\<lambda>ex'. if fully_closed d then returns ex' else exit_loop reg ms pid ds ex')"

definition manage_position ::
  "registry \<Rightarrow> string \<Rightarrow> pyfloat \<Rightarrow> pyfloat \<Rightarrow> string \<Rightarrow> paper_executor \<Rightarrow> paper_executor outcome" where
  "manage_position reg inst price ms pid ex =
     (case map_of (pe_positions ex) pid of
        None \<Rightarrow> returns ex
      | Some p \<Rightarrow>
          if mp_instrument p \<noteq> inst \<or> \<not> is_open p then returns ex
          else
            let p1 = snd (apply_dynamic_stop (update_excursion price p)) in
            exit_loop reg ms pid (evaluate_exit p1 price price) (put_position p1 ex))"

definition manage_positions ::
  "registry \<Rightarrow> string \<Rightarrow> pyfloat \<Rightarrow> pyfloat \<Rightarrow> paper_executor \<Rightarrow> paper_executor outcome" where
  "manage_positions reg inst price ms ex =
     for_each (manage_position reg inst price ms) (List.map fst (pe_positions ex)) ex"

subsection \<open>Ticks, candles, the day\<close>

fun floating_pnl ::
  "registry \<Rightarrow> (string \<rightharpoonup> pyfloat) \<Rightarrow> managed_position list \<Rightarrow> pyfloat \<Rightarrow> pyfloat result" where
  "floating_pnl reg last_price [] acc = Inr acc"
| "floating_pnl reg last_price (p # ps) acc =
     (case last_price (mp_instrument p) of
        None \<Rightarrow> floating_pnl reg last_price ps acc
      | Some price \<Rightarrow>
          (case get_instrument reg (mp_instrument p) of
             Inl e \<Rightarrow> Inl e
           | Inr inst \<Rightarrow> floating_pnl reg last_price ps
               (acc + price_pnl_per_unit p price * remaining_fraction p
                        * point_value_per_lot inst * lots p)))"

definition update_floating :: "registry \<Rightarrow> paper_executor \<Rightarrow> paper_executor outcome" where
  "update_floating reg ex =
     (case floating_pnl reg (pe_last_price ex) (List.map snd (pe_positions ex)) 0 of
        Inl e \<Rightarrow> raises e ex
      | Inr x \<Rightarrow> returns (ex\<lparr>pe_risk := update_unrealized_pnl x (pe_risk ex)\<rparr>))"

definition pe_on_tick ::
  "registry \<Rightarrow> string \<Rightarrow> pyfloat \<Rightarrow> pyfloat \<Rightarrow> pyfloat \<Rightarrow> paper_executor \<Rightarrow> paper_executor outcome" where
  "pe_on_tick reg inst bid ask ms ex =
     (if bid \<le> 0 then returns ex
      else
        let ex0 = ex\<lparr>pe_last_price := (pe_last_price ex)(inst \<mapsto> bid)\<rparr>
        in seq (seq (check_arms reg inst bid ms ex0) (manage_positions reg inst bid ms))
             (update_floating reg))"

definition age_arm :: "string \<Rightarrow> trade_key \<times> arm \<Rightarrow> paper_executor \<Rightarrow> paper_executor" where
  "age_arm inst = (\<lambda>(key, a) ex.
     if instrument (arm_signal a) \<noteq> inst then ex
     else
       let a' = a\<lparr>candles_remaining := candles_remaining a - 1\<rparr>
       in if candles_remaining a' \<le> 0
          then ex\<lparr>pe_arms := AList.delete key (pe_arms ex)\<rparr>
          else ex\<lparr>pe_arms := AList.update key a' (pe_arms ex)\<rparr>)"

definition age_position ::
  "registry \<Rightarrow> string \<Rightarrow> pyfloat \<Rightarrow> string \<Rightarrow> paper_executor \<Rightarrow> paper_executor outcome" where
  "age_position reg inst ms pid ex =
     (case map_of (pe_positions ex) pid of
        None \<Rightarrow> returns ex
      | Some p \<Rightarrow>
          if mp_instrument p \<noteq> inst \<or> \<not> is_open p then returns ex
          else
            let p1 = p\<lparr>bars_open := bars_open p + 1\<rparr>; ex1 = put_position p1 ex in
            if time_stop_reached p1
            then
              let price = (case pe_last_price ex1 inst of None \<Rightarrow> entry_price p1 | Some x \<Rightarrow> x)
              in apply_exit reg ms pid
                   \<lparr>d_reason = TIME_STOP, d_price = price, d_fraction = remaining_fraction p1,
                    d_tp_index = -1, fully_closed = True\<rparr> ex1
            else returns ex1)"

definition on_candle_close ::
  "registry \<Rightarrow> string \<Rightarrow> pyfloat \<Rightarrow> paper_executor \<Rightarrow> paper_executor outcome" where
  "on_candle_close reg inst ms ex =
     (let ex1 = fold (age_arm inst) (pe_arms ex) ex
      in for_each (age_position reg inst ms) (List.map fst (pe_positions ex1)) ex1)"

definition on_day_reset :: "pyfloat \<Rightarrow> pyfloat option \<Rightarrow> paper_executor \<Rightarrow> paper_executor outcome" where
  "on_day_reset clock ms ex =
     (let (r, g) = check_daily_reset clock ms (pe_risk ex); ex1 = ex\<lparr>pe_risk := g\<rparr>
      in case r of Inl e \<Rightarrow> raises e ex1 | Inr _ \<Rightarrow> returns ex1)"

definition open_positions :: "string option \<Rightarrow> paper_executor \<Rightarrow> managed_position list" where
  "open_positions inst ex =
     (let ps = filter is_open (List.map snd (pe_positions ex)) in
      case inst of None \<Rightarrow> ps | Some i \<Rightarrow> filter (\<lambda>p. mp_instrument p = i) ps)"

definition flatten_position ::
  "registry \<Rightarrow> exit_reason \<Rightarrow> pyfloat \<Rightarrow> (managed_position \<Rightarrow> bool) \<Rightarrow> string \<Rightarrow> paper_executor \<Rightarrow> paper_executor outcome" where
  "flatten_position reg reason now wanted pid ex =
     (case map_of (pe_positions ex) pid of
        None \<Rightarrow> returns ex
      | Some p \<Rightarrow>
          if \<not> wanted p \<or> \<not> is_open p then returns ex
          else
            let price = (case pe_last_price ex (mp_instrument p) of None \<Rightarrow> entry_price p | Some x \<Rightarrow> x)
            in close_position reg p price reason now ex)"

definition flatten_all :: "registry \<Rightarrow> exit_reason \<Rightarrow> pyfloat \<Rightarrow> paper_executor \<Rightarrow> paper_executor outcome" where
  "flatten_all reg reason now ex =
     for_each (flatten_position reg reason now (\<lambda>_. True)) (List.map fst (pe_positions ex)) ex"

text \<open>\<open>flatten_instrument\<close> also returns how many positions it closed.\<close>

definition flatten_instrument ::
  "registry \<Rightarrow> string \<Rightarrow> exit_reason \<Rightarrow> pyfloat \<Rightarrow> paper_executor \<Rightarrow> paper_executor outcome \<times> nat" where
  "flatten_instrument reg inst reason now ex =
     (let r = for_each (flatten_position reg reason now (\<lambda>p. mp_instrument p = inst))
                (List.map fst (pe_positions ex)) ex
      in (r, pe_trades_closed (fst r) - pe_trades_closed ex))"

subsection \<open>The position half of an exit\<close>

text \<open>
  What \<open>_apply_exit\<close> and \<open>_close_position\<close> do to the position object. It keeps the contract
  of \<open>position_closer\<close>, so the facts about decision lists hold for the paper executor too.
\<close>

definition paper_close :: "pyfloat \<Rightarrow> exit_decision \<Rightarrow> managed_position \<Rightarrow> managed_position" where
  "paper_close ms d p =
     (if d_fraction d \<le> 0 \<or> \<not> is_open p then p
      else
        let p1 = book_close p (d_price d) (d_fraction d) (d_reason d) ms (d_tp_index d)
        in if closes_position p1 (d_reason d) then mark_closed (d_price d) (d_reason d) ms p1 else p1)"

lemma mark_closed_frame [simp]:
  "position_id (mark_closed x r t p) = position_id p" "partial_closes (mark_closed x r t p) = partial_closes p"
  "remaining_fraction (mark_closed x r t p) = remaining_fraction p" "lots (mark_closed x r t p) = lots p"
  "mp_instrument (mark_closed x r t p) = mp_instrument p" "\<not> is_open (mark_closed x r t p)"
  "position_key (mark_closed x r t p) = position_key p" "same_trade (mark_closed x r t p) p"
  by (simp_all add: mark_closed_def is_open_def position_key_def same_trade_def)

lemma book_close_frame [simp]:
  "position_id (book_close p x f r t k) = position_id p" "lots (book_close p x f r t k) = lots p"
  "mp_instrument (book_close p x f r t k) = mp_instrument p"
  "is_open (book_close p x f r t k) = is_open p"
  "position_key (book_close p x f r t k) = position_key p" "same_trade (book_close p x f r t k) p"
  by (simp_all add: book_close_def is_open_def position_key_def same_trade_def)

lemma paper_close_same: "same_trade (paper_close t d p) p"
  using same_trade_trans[OF mark_closed_frame(8) book_close_frame(6)]
  by (simp add: paper_close_def Let_def)

interpretation paper_closer: position_closer paper_close
  by unfold_locales
    (auto simp: paper_close_same, auto simp: paper_close_def book_close_def closes_position_def
      mark_closed_def is_open_def Let_def)

lemma same_trade_key: "same_trade p q \<Longrightarrow> position_key p = position_key q"
  by (simp add: same_trade_def position_key_def)

lemma paper_close_closed [simp]: "\<not> is_open p \<Longrightarrow> paper_close t d p = p"
  by (simp add: paper_close_def)

lemma paper_decisions_closed [simp]: "\<not> is_open p \<Longrightarrow> apply_decisions (paper_close t) ds p = p"
  by (induction ds) (simp_all add: Let_def)

lemma paper_decisions_same: "same_trade (apply_decisions (paper_close t) ds p) p"
proof (induction ds arbitrary: p)
  case Nil
  then show ?case by simp
next
  case (Cons d ds)
  then show ?case using paper_close_same same_trade_trans by (simp add: Let_def) blast
qed

subsection \<open>Closing, as one equation\<close>

text \<open>The executor after a position was closed for good.\<close>

definition settle :: "cfd_instrument \<Rightarrow> managed_position \<Rightarrow> paper_executor \<Rightarrow> paper_executor" where
  "settle i p ex =
     (let pnl = weighted_pnl p * point_value_per_lot i * lots p;
          cost = model_cost (pe_cost_model ex) i (lots p)
      in ex\<lparr>pe_risk := add_realized_pnl (pnl - cost) (pe_risk ex),
            pe_open_keys := pe_open_keys ex - {position_key p},
            pe_positions := AList.delete (position_id p) (pe_positions ex),
            pe_trades_closed := pe_trades_closed ex + 1,
            pe_log := pe_log ex @ [\<lparr>ct_position = p, ct_realized_rr = realized_rr p,
              ct_pnl_price = weighted_pnl p, ct_pnl_usd = pnl, ct_cost_usd = cost,
              ct_net_usd = pnl - cost\<rparr>]\<rparr>)"

lemma put_put [simp]:
  "position_id p = position_id q \<Longrightarrow> put_position p (put_position q ex) = put_position p ex"
  by (simp add: put_position_def)

lemma put_same: "map_of (pe_positions ex) (position_id p) = Some p \<Longrightarrow> put_position p ex = ex"
  by (simp add: put_position_def update_same_value)

lemma settle_put [simp]: "position_id p = position_id q \<Longrightarrow> settle i p (put_position q ex) = settle i p ex"
  by (simp add: put_position_def settle_def Let_def)

lemma close_position_eq:
  assumes "get_instrument reg (mp_instrument p) = Inr i"
  shows "close_position reg p x r t ex = returns (settle i (mark_closed x r t p) ex)"
proof -
  have "settle i (mark_closed x r t p) (put_position (mark_closed x r t p) ex) = settle i (mark_closed x r t p) ex"
    by simp
  then show ?thesis
    using assms
    by (simp add: close_position_def Let_def calculate_trade_cost_def settle_def model_cost_def put_position_def)
qed


end
