(* ===== verification/Paper_Account.thy ===== *)
theory Paper_Account
  imports Paper_Executor
begin

section \<open>Paper accounts: what every history keeps\<close>

text \<open>
  The paper executor under any history of signals, ticks, candle closes, day resets and
  flattens: its dictionaries stay consistent, its positions stay protected by a stop and sized
  within the budget, its ledger adds up, and no method raises.
\<close>

subsection \<open>The exit loop on the executor and on the position\<close>

text \<open>Where a position goes after its decisions: back into the dictionary, or to the log.\<close>

definition place :: "cfd_instrument \<Rightarrow> managed_position \<Rightarrow> paper_executor \<Rightarrow> paper_executor" where
  "place i q ex = (if is_open q then put_position q ex else settle i q ex)"

lemma place_put [simp]: "position_id q = position_id p \<Longrightarrow> place i q (put_position p ex) = place i q ex"
  by (simp add: place_def)

lemma same_trade_id: "same_trade p q \<Longrightarrow> position_id p = position_id q"
  by (simp add: same_trade_def)

lemma put_lookup [simp]: "map_of (pe_positions (put_position p ex)) (position_id p) = Some p"
  by (simp add: put_position_def)

lemma apply_exit_eq:
  assumes "map_of (pe_positions ex) pid = Some p" and "position_id p = pid" and "is_open p"
    and "get_instrument reg (mp_instrument p) = Inr i"
  shows "apply_exit reg ms pid d ex = returns (place i (paper_close ms d p) ex)"
  using assms
  by (auto simp: apply_exit_def paper_close_def Let_def place_def put_same close_position_eq)

lemma exit_loop_none: "map_of (pe_positions ex) pid = None \<Longrightarrow> exit_loop reg ms pid ds ex = returns ex"
  by (induction ds) (simp_all add: apply_exit_def)

declare map_of_eq_Some_iff [simp del]

lemma settle_gone:
  "distinct (List.map fst (pe_positions ex)) \<Longrightarrow> map_of (pe_positions (settle i q ex)) (position_id q) = None"
  by (simp add: settle_def Let_def delete_conv')

lemma exit_loop_eq:
  assumes "map_of (pe_positions ex) (position_id p) = Some p" and "is_open p"
    and "get_instrument reg (mp_instrument p) = Inr i" and "distinct (List.map fst (pe_positions ex))"
  shows "exit_loop reg ms (position_id p) ds ex = returns (place i (apply_decisions (paper_close ms) ds p) ex)"
  using assms
proof (induction ds arbitrary: p ex)
  case Nil
  then show ?case by (simp add: place_def put_same)
next
  case (Cons d ds)
  let ?q = "paper_close ms d p"
  have q: "position_id ?q = position_id p" "mp_instrument ?q = mp_instrument p"
    using paper_close_same[of ms d p] by (simp_all add: same_trade_def)
  note step = apply_exit_eq[OF Cons.prems(1) refl Cons.prems(2,3), of ms d]
  show ?case
  proof (cases "is_open ?q")
    case True
    have ex: "distinct (List.map fst (pe_positions (put_position ?q ex)))"
      using Cons.prems(4) by (simp add: put_position_def distinct_update)
    have "exit_loop reg ms (position_id p) ds (put_position ?q ex) =
        returns (place i (apply_decisions (paper_close ms) ds ?q) (put_position ?q ex))"
      using Cons.IH[OF put_lookup True _ ex] Cons.prems(3) q by simp
    moreover have "position_id (apply_decisions (paper_close ms) ds ?q) = position_id ?q"
      by (rule same_trade_id[OF paper_decisions_same])
    ultimately show ?thesis using True by (simp add: step Let_def place_def)
  next
    case False
    have "exit_loop reg ms (position_id p) ds (settle i ?q ex) = returns (settle i ?q ex)"
      using settle_gone[OF Cons.prems(4), of i ?q] q by (intro exit_loop_none) simp
    then show ?thesis using False by (simp add: step Let_def place_def)
  qed
qed

text \<open>The position after the stop was moved for a tick.\<close>

definition tick_stop :: "pyfloat \<Rightarrow> managed_position \<Rightarrow> managed_position" where
  "tick_stop price p = snd (apply_dynamic_stop (update_excursion price p))"

definition ticked :: "pyfloat \<Rightarrow> pyfloat \<Rightarrow> managed_position \<Rightarrow> managed_position" where
  "ticked ms price p =
     (let p1 = tick_stop price p in apply_decisions (paper_close ms) (evaluate_exit p1 price price) p1)"

lemma tick_stop_shape:
  "\<exists>n. tick_stop price p = (update_excursion price p)\<lparr>current_stop := n\<rparr> \<and>
     favour p (current_stop p) \<le> favour p n"
proof -
  let ?u = "update_excursion price p"
  have u: "current_stop ?u = current_stop p" "mp_direction ?u = mp_direction p"
    by (simp_all add: update_excursion_def)
  from apply_dynamic_stop_shape[of ?u] show ?thesis
  proof
    assume "snd (apply_dynamic_stop ?u) = ?u \<and> \<not> fst (apply_dynamic_stop ?u)"
    then have "tick_stop price p = ?u\<lparr>current_stop := current_stop p\<rparr>"
      using u by (simp add: tick_stop_def)
    then show ?thesis by blast
  next
    assume "\<exists>n. snd (apply_dynamic_stop ?u) = ?u\<lparr>current_stop := n\<rparr> \<and> fst (apply_dynamic_stop ?u) \<and>
      favour ?u (current_stop ?u) + 1 / 10^12 < favour ?u n"
    then obtain n where n: "tick_stop price p = ?u\<lparr>current_stop := n\<rparr>"
      "favour ?u (current_stop ?u) + 1 / 10^12 < favour ?u n" by (auto simp: tick_stop_def)
    have "favour p (current_stop p) < favour p n"
      using n(2) u by (simp add: favour_def order_le_less_trans[rotated])
    with n(1) show ?thesis by (intro exI[of _ n]) simp
  qed
qed

lemma tick_stop_frame [simp]:
  "position_id (tick_stop x p) = position_id p" "mp_instrument (tick_stop x p) = mp_instrument p"
  "is_open (tick_stop x p) = is_open p" "partial_closes (tick_stop x p) = partial_closes p"
  "remaining_fraction (tick_stop x p) = remaining_fraction p" "entry_price (tick_stop x p) = entry_price p"
  "mp_direction (tick_stop x p) = mp_direction p" "mp_plan (tick_stop x p) = mp_plan p"
  "lots (tick_stop x p) = lots p" "position_key (tick_stop x p) = position_key p"
  "mp_account_id (tick_stop x p) = mp_account_id p"
  using tick_stop_shape[of x p]
  by (auto simp: update_excursion_def is_open_def position_key_def split: if_splits)

lemma manage_position_eq:
  assumes "map_of (pe_positions ex) (position_id p) = Some p" and "is_open p" and "mp_instrument p = inst"
    and "get_instrument reg inst = Inr i" and "distinct (List.map fst (pe_positions ex))"
  shows "manage_position reg inst price ms (position_id p) ex = returns (place i (ticked ms price p) ex)"
proof -
  let ?p = "tick_stop price p"
  have d: "distinct (List.map fst (pe_positions (put_position ?p ex)))"
    using assms(5) by (simp add: put_position_def distinct_update)
  have "exit_loop reg ms (position_id ?p) (evaluate_exit ?p price price) (put_position ?p ex) =
      returns (place i (ticked ms price p) (put_position ?p ex))"
    using exit_loop_eq[of "put_position ?p ex" ?p reg i ms] assms d put_lookup[of ?p ex]
    by (simp add: ticked_def Let_def)
  moreover have "position_id (ticked ms price p) = position_id ?p"
    unfolding ticked_def Let_def by (rule same_trade_id[OF paper_decisions_same])
  ultimately show ?thesis
    using assms(1-3) by (simp add: manage_position_def Let_def tick_stop_def[symmetric])
qed

subsection \<open>What an open position keeps\<close>

definition planned_loss :: "managed_position \<Rightarrow> pyfloat" where
  "planned_loss p = \<bar>entry_price p - plan_stop_loss (mp_plan p)\<bar>"

definition funded :: "registry \<Rightarrow> pyfloat \<Rightarrow> managed_position \<Rightarrow> bool" where
  "funded reg budget p \<longleftrightarrow>
     (case get_instrument reg (mp_instrument p) of
        Inl e \<Rightarrow> False
      | Inr i \<Rightarrow> 0 < lots p \<and> lots p * sl_cost_per_lot i (planned_loss p) \<le> budget)"

text \<open>The stop protects at least as well as the plan's, and so did every leg but a time stop.\<close>

definition guarded :: "managed_position \<Rightarrow> bool" where
  "guarded p \<longleftrightarrow> valid_plan (mp_plan p) \<and> plan_direction (mp_plan p) = mp_direction p \<and>
     favour p (plan_stop_loss (mp_plan p)) \<le> favour p (current_stop p)"

definition leg_guarded :: "managed_position \<Rightarrow> partial_close \<Rightarrow> bool" where
  "leg_guarded p pc \<longleftrightarrow>
     (pc_reason pc = TIME_STOP \<or> favour p (plan_stop_loss (mp_plan p)) \<le> favour p (pc_price pc))"

definition live :: "registry \<Rightarrow> pyfloat \<Rightarrow> managed_position \<Rightarrow> bool" where
  "live reg budget p \<longleftrightarrow> is_open p \<and> position_books p \<and> funded reg budget p \<and> guarded p \<and>
     list_all (leg_guarded p) (partial_closes p)"

lemma live_instrument:
  "live reg budget p \<Longrightarrow> \<exists>i. get_instrument reg (mp_instrument p) = Inr i"
  by (auto simp: live_def funded_def split: sum.splits)

lemma same_trade_preserves:
  assumes "same_trade q p"
  shows "funded reg budget q = funded reg budget p" "guarded q = guarded p" "leg_guarded q = leg_guarded p"
  using assms
  by (auto simp: same_trade_def funded_def guarded_def leg_guarded_def planned_loss_def favour_def fun_eq_iff
      split: sum.split)

lemma books_tick_stop [simp]: "position_books (tick_stop x p) = position_books p"
  by (simp add: position_books_def closed_fraction_def leg_ok_def rr_at_def price_pnl_per_unit_def
      Let_def list_all_iff)

lemma live_tick_stop: "live reg budget p \<Longrightarrow> live reg budget (tick_stop x p)"
  using tick_stop_shape[of x p]
  by (auto simp: live_def funded_def guarded_def leg_guarded_def planned_loss_def favour_def
      list_all_iff update_excursion_def split: sum.splits if_splits)

lemma decision_beyond_stop:
  assumes "guarded p" and "d \<in> set (evaluate_exit p high low)"
  shows "favour p (plan_stop_loss (mp_plan p)) \<le> favour p (d_price d)"
proof (cases "stop_touched p high low")
  case True
  then show ?thesis using assms by (auto simp: evaluate_exit_def guarded_def split: if_splits)
next
  case False
  then have "d \<in> set (tp_loop p high low (ordered_tps p) (remaining_fraction p))"
    using assms(2) by (auto simp: evaluate_exit_def split: if_splits)
  then obtain idx tp where "(idx, tp) \<in> set (ordered_tps p)" and price: "d_price d = tp_price tp"
    using tp_loop_decision by blast
  then have "tp \<in> set (take_profits (mp_plan p))"
    by (auto simp: set_ordered_tps in_set_enumerate_eq)
  then have "0 < tp_distance (mp_plan p) tp"
    "0 < (plan_entry_price (mp_plan p) - plan_stop_loss (mp_plan p)) * sign (plan_direction (mp_plan p))"
    using assms(1) by (auto simp: guarded_def valid_plan_def)
  then show ?thesis
    using assms(1) by (cases "mp_direction p") (auto simp: favour_def price tp_distance_def guarded_def)
qed

lemma paper_close_legs:
  assumes "list_all (leg_guarded p) (partial_closes p)"
    and "d_reason d = TIME_STOP \<or> favour p (plan_stop_loss (mp_plan p)) \<le> favour p (d_price d)"
  shows "list_all (leg_guarded (paper_close ms d p)) (partial_closes (paper_close ms d p))"
proof -
  have "leg_guarded (paper_close ms d p) = leg_guarded p"
    by (rule same_trade_preserves(3)[OF paper_close_same])
  then show ?thesis
    using assms
    by (auto simp: paper_close_def Let_def book_close_def close_record_def leg_guarded_def mark_closed_def)
qed

lemma paper_decisions_legs:
  assumes "\<And>d. d \<in> set ds \<Longrightarrow> favour p (plan_stop_loss (mp_plan p)) \<le> favour p (d_price d)"
    and "list_all (leg_guarded q) (partial_closes q)" and "same_trade q p"
  shows "list_all (leg_guarded (apply_decisions (paper_close ms) ds q))
    (partial_closes (apply_decisions (paper_close ms) ds q))"
  using assms
proof (induction ds arbitrary: q)
  case Nil
  then show ?case by simp
next
  case (Cons d ds)
  have q: "favour q (plan_stop_loss (mp_plan q)) \<le> favour q (d_price d)"
    using Cons.prems(1)[of d] Cons.prems(3) by (simp add: same_trade_def favour_def)
  have legs: "list_all (leg_guarded (paper_close ms d q)) (partial_closes (paper_close ms d q))"
    by (rule paper_close_legs) (use Cons.prems q in auto)
  have same: "same_trade (paper_close ms d q) p"
    using paper_close_same Cons.prems(3) by (rule same_trade_trans)
  show ?case using Cons.IH[OF _ legs same] Cons.prems(1) legs by (simp add: Let_def)
qed

text \<open>
  A position a method is done with: its books hold, and what it lost on guarded legs is at
  most what was planned.
\<close>

definition finished :: "registry \<Rightarrow> pyfloat \<Rightarrow> managed_position \<Rightarrow> bool" where
  "finished reg budget p \<longleftrightarrow> funded reg budget p \<and> guarded p \<and>
     closed_fraction p + remaining_fraction p = 1 \<and> 0 \<le> remaining_fraction p \<and>
     list_all (leg_ok p) (partial_closes p) \<and> list_all (leg_guarded p) (partial_closes p)"

lemma ticked_keeps:
  assumes "live reg budget p"
  shows "finished reg budget (ticked ms x p) \<and> position_id (ticked ms x p) = position_id p \<and>
    position_key (ticked ms x p) = position_key p \<and> mp_instrument (ticked ms x p) = mp_instrument p \<and>
    position_books (ticked ms x p) \<and>
    (is_open (ticked ms x p) \<longrightarrow> live reg budget (ticked ms x p))"
proof -
  let ?p = "tick_stop x p" and ?q = "ticked ms x p"
  have p: "live reg budget ?p" using assms by (rule live_tick_stop)
  have same: "same_trade ?q ?p" unfolding ticked_def Let_def by (rule paper_decisions_same)
  have books: "position_books ?q"
    using paper_closer.apply_evaluated[of ?p ms x x] p by (simp add: live_def ticked_def Let_def)
  have "list_all (leg_guarded ?q) (partial_closes ?q)"
    unfolding ticked_def Let_def using p decision_beyond_stop[of ?p _ x x]
    by (intro paper_decisions_legs[where p = ?p]) (auto simp: live_def)
  then show ?thesis
    using books p same same_trade_preserves[OF same] same_trade_key[OF same]
    by (auto simp: finished_def live_def position_books_def same_trade_def)
qed


lemma finished_loss:
  assumes "finished reg budget p" and "get_instrument reg (mp_instrument p) = Inr i" and "wf_registry reg"
    and "list_all (\<lambda>pc. pc_reason pc \<noteq> TIME_STOP) (partial_closes p)"
  shows "- budget \<le> weighted_pnl p * point_value_per_lot i * lots p"
proof -
  let ?D = "planned_loss p"
  have ppv: "0 < point_value_per_lot i" using registry_source.lookup_point_value[OF assms(3,2)] .
  have lots: "0 < lots p" "lots p * sl_cost_per_lot i ?D \<le> budget"
    using assms(1,2) by (simp_all add: finished_def funded_def)
  have leg: "- ?D * pc_fraction pc \<le> pc_pnl_price pc * pc_fraction pc" if "pc \<in> set (partial_closes p)" for pc
  proof (rule mult_right_mono)
    have pc: "leg_ok p pc" "leg_guarded p pc" "pc_reason pc \<noteq> TIME_STOP"
      using that assms(1,4) by (auto simp: finished_def list_all_iff)
    then show "0 \<le> pc_fraction pc" by (simp add: leg_ok_def)
    show "- ?D \<le> pc_pnl_price pc"
      using pc by (cases "mp_direction p")
        (auto simp: leg_ok_def leg_guarded_def favour_def price_pnl_per_unit_def planned_loss_def)
  qed
  have "(\<Sum>pc\<leftarrow>partial_closes p. - ?D * pc_fraction pc) \<le> weighted_pnl p"
    unfolding weighted_pnl_def by (rule sum_list_mono) (rule leg)
  moreover have "(\<Sum>pc\<leftarrow>partial_closes p. - ?D * pc_fraction pc) = - ?D * closed_fraction p"
    unfolding closed_fraction_def by (rule sum_list_const_mult)
  ultimately have "- ?D * closed_fraction p \<le> weighted_pnl p" by linarith
  moreover have "- ?D \<le> - ?D * closed_fraction p"
    using assms(1) mult_left_mono[of "closed_fraction p" 1 ?D]
    by (simp add: finished_def planned_loss_def)
  ultimately have "- ?D \<le> weighted_pnl p" by linarith
  then have "- ?D * (point_value_per_lot i * lots p) \<le> weighted_pnl p * (point_value_per_lot i * lots p)"
    using ppv lots(1) by (intro mult_right_mono) simp_all
  moreover have "- ?D * (point_value_per_lot i * lots p) = - (lots p * sl_cost_per_lot i ?D)"
    by (simp add: sl_cost_per_lot_def planned_loss_def)
  ultimately show ?thesis
    using lots(2) mult.assoc[of "weighted_pnl p" "point_value_per_lot i" "lots p"] by linarith
qed

subsection \<open>The executor's invariant\<close>

definition risk_budget :: "account_config \<Rightarrow> pyfloat" where
  "risk_budget a = acct_initial_balance a * effective_risk_per_trade_pct a / 100"

definition acceptable :: "registry \<Rightarrow> cfd_signal \<Rightarrow> bool" where
  "acceptable reg s \<longleftrightarrow> valid_plan (sig_plan s) \<and> plan_direction (sig_plan s) = sig_direction s \<and>
     (case get_instrument reg (instrument s) of Inl e \<Rightarrow> False | Inr i \<Rightarrow> True)"

lemma constructed_acceptable:
  "mk_exit_plan pl = Inr (sig_plan s) \<Longrightarrow> mk_signal s0 = Inr s \<Longrightarrow> get_instrument reg (instrument s) = Inr i \<Longrightarrow>
   acceptable reg s"
  by (auto simp: acceptable_def mk_exit_plan_iff mk_signal_def split: if_splits)

text \<open>The positions dictionary and the set of open keys.\<close>

definition positions_ok :: "registry \<Rightarrow> account_config \<Rightarrow> paper_executor \<Rightarrow> bool" where
  "positions_ok reg a ex \<longleftrightarrow> distinct (List.map fst (pe_positions ex)) \<and>
     list_all (\<lambda>(k, p). k = position_id p \<and> live reg (risk_budget a) p \<and>
        mp_account_id p = account_id a) (pe_positions ex) \<and>
     distinct (List.map (position_key \<circ> snd) (pe_positions ex)) \<and>
     pe_open_keys ex = set (List.map (position_key \<circ> snd) (pe_positions ex))"

definition arms_ok :: "registry \<Rightarrow> paper_executor \<Rightarrow> bool" where
  "arms_ok reg ex \<longleftrightarrow> distinct (List.map fst (pe_arms ex)) \<and>
     list_all (\<lambda>(k, x). k = signal_key (arm_signal x) \<and> acceptable reg (arm_signal x) \<and>
        k \<notin> pe_open_keys ex) (pe_arms ex)"

text \<open>Ids are drawn once each, trades are counted, and the log's money is in the balance.\<close>

definition ids_ok :: "(nat \<Rightarrow> string) \<Rightarrow> paper_executor \<Rightarrow> bool" where
  "ids_ok draws ex \<longleftrightarrow> pe_draws ex = draws \<and>
     fst ` set (pe_positions ex) \<subseteq> draws ` {..<pe_drawn ex}"

definition trade_ok :: "registry \<Rightarrow> pyfloat \<Rightarrow> closed_trade \<Rightarrow> bool" where
  "trade_ok reg budget t \<longleftrightarrow> finished reg budget (ct_position t) \<and>
     ct_net_usd t = ct_pnl_usd t - ct_cost_usd t \<and>
     (list_all (\<lambda>pc. pc_reason pc \<noteq> TIME_STOP) (partial_closes (ct_position t)) \<longrightarrow> - budget \<le> ct_pnl_usd t)"

definition log_ok :: "registry \<Rightarrow> account_config \<Rightarrow> paper_executor \<Rightarrow> bool" where
  "log_ok reg a ex \<longleftrightarrow> list_all (trade_ok reg (risk_budget a)) (pe_log ex) \<and>
     pe_trades_closed ex = length (pe_log ex) \<and>
     pe_trades_opened ex = pe_trades_closed ex + length (pe_positions ex)"

definition ledger_ok :: "account_config \<Rightarrow> paper_executor \<Rightarrow> bool" where
  "ledger_ok a ex \<longleftrightarrow> pe_account ex = a \<and> pe_sizing_balance ex = acct_initial_balance a \<and>
     pe_risk_pct ex = effective_risk_per_trade_pct a \<and>
     rg_config (pe_risk ex) = to_risk_guard_config a \<and>
     rg_balance (pe_risk ex) = acct_initial_balance a + (\<Sum>t\<leftarrow>pe_log ex. ct_net_usd t) \<and>
     rg_total_trades (pe_risk ex) = length (pe_log ex)"

definition executor_ok :: "registry \<Rightarrow> account_config \<Rightarrow> (nat \<Rightarrow> string) \<Rightarrow> paper_executor \<Rightarrow> bool" where
  "executor_ok reg a draws ex \<longleftrightarrow>
     positions_ok reg a ex \<and> arms_ok reg ex \<and> ids_ok draws ex \<and> log_ok reg a ex \<and> ledger_ok a ex"

lemma new_executor_ok: "executor_ok reg a draws (new_executor a cm draws)"
  by (simp add: executor_ok_def positions_ok_def arms_ok_def ids_ok_def log_ok_def ledger_ok_def
      new_executor_def new_guard_def to_risk_guard_config_def)

text \<open>The parts of the state a step leaves alone keep their part of the invariant.\<close>

lemma executor_ok_price [simp]:
  "executor_ok reg a draws (ex\<lparr>pe_last_price := m\<rparr>) = executor_ok reg a draws ex"
  by (simp add: executor_ok_def positions_ok_def arms_ok_def ids_ok_def log_ok_def ledger_ok_def)

lemma risk_frame [simp]:
  "positions_ok reg a (ex\<lparr>pe_risk := g\<rparr>) = positions_ok reg a ex"
  "arms_ok reg (ex\<lparr>pe_risk := g\<rparr>) = arms_ok reg ex" "ids_ok draws (ex\<lparr>pe_risk := g\<rparr>) = ids_ok draws ex"
  "log_ok reg a (ex\<lparr>pe_risk := g\<rparr>) = log_ok reg a ex"
  by (simp_all add: positions_ok_def arms_ok_def ids_ok_def log_ok_def)

lemma arms_frame [simp]:
  "positions_ok reg a (ex\<lparr>pe_arms := x\<rparr>) = positions_ok reg a ex"
  "ids_ok draws (ex\<lparr>pe_arms := x\<rparr>) = ids_ok draws ex" "ledger_ok a (ex\<lparr>pe_arms := x\<rparr>) = ledger_ok a ex"
  "log_ok reg a (ex\<lparr>pe_arms := x\<rparr>) = log_ok reg a ex"
  by (simp_all add: positions_ok_def ids_ok_def log_ok_def ledger_ok_def)

lemma executor_ok_risk:
  assumes "executor_ok reg a draws ex"
    and "rg_config g = rg_config (pe_risk ex)" "rg_balance g = rg_balance (pe_risk ex)"
      "rg_total_trades g = rg_total_trades (pe_risk ex)"
  shows "executor_ok reg a draws (ex\<lparr>pe_risk := g\<rparr>)"
  using assms by (simp add: executor_ok_def ledger_ok_def)

lemma executor_ok_arm_delete:
  "executor_ok reg a draws ex \<Longrightarrow> executor_ok reg a draws (ex\<lparr>pe_arms := AList.delete k (pe_arms ex)\<rparr>)"
  using set_delete_subset[of k "pe_arms ex"]
  by (auto simp: executor_ok_def arms_ok_def distinct_delete list_all_iff)

lemma executor_ok_arm_put:
  assumes "executor_ok reg a draws ex" and "acceptable reg (arm_signal x)"
    and "signal_key (arm_signal x) \<notin> pe_open_keys ex"
  shows "executor_ok reg a draws
    (ex\<lparr>pe_arms := AList.update (signal_key (arm_signal x)) x (pe_arms ex)\<rparr>)"
  using assms set_update_subset[of "signal_key (arm_signal x)" x "pe_arms ex"]
  by (auto simp: executor_ok_def arms_ok_def distinct_update list_all_iff)


lemma executor_ok_lookup:
  assumes "executor_ok reg a draws ex" and "map_of (pe_positions ex) pid = Some p"
  shows "position_id p = pid \<and> live reg (risk_budget a) p \<and> mp_account_id p = account_id a"
proof -
  have "(pid, p) \<in> set (pe_positions ex)" using assms(2) by (rule map_of_SomeD)
  then show ?thesis
    using assms(1) by (auto simp: executor_ok_def positions_ok_def list_all_iff)
qed

lemma executor_ok_put:
  assumes ok: "executor_ok reg a draws ex" and p: "map_of (pe_positions ex) (position_id p) = Some p"
    and q: "position_id q = position_id p" "position_key q = position_key p" "mp_account_id q = mp_account_id p"
    and "live reg (risk_budget a) q"
  shows "executor_ok reg a draws (put_position q ex)"
proof -
  let ?al = "AList.update (position_id q) q (pe_positions ex)"
  have p': "map_of (pe_positions ex) (position_id q) = Some p" using p q by simp
  note keys = map_snd_update_existing[OF p', of position_key q, OF q(2)]
  have acct: "mp_account_id q = account_id a" using executor_ok_lookup[OF ok p] q by simp
  have "list_all (\<lambda>(k, p). k = position_id p \<and> live reg (risk_budget a) p \<and>
      mp_account_id p = account_id a) ?al"
    using ok assms(6) acct set_update_subset[of "position_id q" q "pe_positions ex"]
    by (auto simp: executor_ok_def positions_ok_def list_all_iff)
  then have "positions_ok reg a (put_position q ex)"
    using ok by (simp add: executor_ok_def positions_ok_def put_position_def keys distinct_update
        del: set_map map_map)
  moreover have "fst ` set ?al = fst ` set (pe_positions ex)"
    using arg_cong[OF map_fst_update_existing[OF p', of q], of set] by simp
  moreover have "length ?al = length (pe_positions ex)" by (rule length_update_existing[OF p'])
  ultimately show ?thesis
    using ok by (simp add: executor_ok_def arms_ok_def ids_ok_def log_ok_def ledger_ok_def put_position_def)
qed

lemma executor_ok_settle:
  assumes ok: "executor_ok reg a draws ex" and wf: "wf_registry reg"
    and p: "map_of (pe_positions ex) (position_id p) = Some p"
    and q: "position_id q = position_id p" "position_key q = position_key p"
    and fin: "finished reg (risk_budget a) q" and i: "get_instrument reg (mp_instrument q) = Inr i"
  shows "executor_ok reg a draws (settle i q ex)"
proof -
  let ?al = "AList.delete (position_id q) (pe_positions ex)"
  have p': "map_of (pe_positions ex) (position_id q) = Some p" using p q by simp
  have d: "distinct (List.map fst (pe_positions ex))"
    "distinct (List.map (position_key \<circ> snd) (pe_positions ex))"
    using ok by (simp_all add: executor_ok_def positions_ok_def)
  note del = map_snd_delete[OF p' d]
  have sub: "set ?al \<subseteq> set (pe_positions ex)" by (rule set_delete_subset)
  have "distinct (List.map fst ?al)" by (rule distinct_delete[OF d(1)])
  then have "positions_ok reg a (settle i q ex)"
    using ok del sub q(2) by (auto simp: settle_def Let_def positions_ok_def executor_ok_def list_all_iff)
  moreover have "arms_ok reg (settle i q ex)"
    using ok by (auto simp: settle_def Let_def arms_ok_def executor_ok_def list_all_iff)
  moreover have "ids_ok draws (settle i q ex)"
    using ok sub by (auto simp: settle_def Let_def ids_ok_def executor_ok_def)
  moreover have "log_ok reg a (settle i q ex)"
    using ok fin finished_loss[OF fin i wf] length_delete_existing[OF p' d(1)]
    by (auto simp: settle_def Let_def log_ok_def executor_ok_def trade_ok_def)
  moreover have "ledger_ok a (settle i q ex)"
    using ok by (simp add: settle_def Let_def ledger_ok_def executor_ok_def)
  ultimately show ?thesis by (simp add: executor_ok_def)
qed

lemma executor_ok_place:
  assumes "executor_ok reg a draws ex" and "wf_registry reg"
    and "map_of (pe_positions ex) (position_id p) = Some p"
    and "position_id q = position_id p" "position_key q = position_key p" "mp_account_id q = mp_account_id p"
    and "finished reg (risk_budget a) q" and "get_instrument reg (mp_instrument q) = Inr i"
    and "is_open q \<Longrightarrow> live reg (risk_budget a) q"
  shows "executor_ok reg a draws (place i q ex)"
  using executor_ok_put[OF assms(1,3-6)] executor_ok_settle[OF assms(1-5,7,8)] assms(9)
  by (simp add: place_def)

lemma executor_ok_distinct: "executor_ok reg a draws ex \<Longrightarrow> distinct (List.map fst (pe_positions ex))"
  by (simp add: executor_ok_def positions_ok_def)

lemma manage_position_ok:
  assumes ok: "executor_ok reg a draws ex" and wf: "wf_registry reg"
  shows "executor_ok reg a draws (fst (manage_position reg inst price ms pid ex)) \<and>
    snd (manage_position reg inst price ms pid ex) = None"
proof (cases "map_of (pe_positions ex) pid")
  case None
  then show ?thesis using ok by (simp add: manage_position_def)
next
  case (Some p)
  note lk = executor_ok_lookup[OF ok Some]
  show ?thesis
  proof (cases "mp_instrument p = inst")
    case False
    then show ?thesis using ok Some by (simp add: manage_position_def)
  next
    case True
    obtain i where i: "get_instrument reg (mp_instrument p) = Inr i" using live_instrument lk by blast
    have p: "map_of (pe_positions ex) (position_id p) = Some p" using Some lk by simp
    have k: "finished reg (risk_budget a) (ticked ms price p) \<and> position_id (ticked ms price p) = position_id p \<and>
      position_key (ticked ms price p) = position_key p \<and> mp_instrument (ticked ms price p) = mp_instrument p \<and>
      position_books (ticked ms price p) \<and>
      (is_open (ticked ms price p) \<longrightarrow> live reg (risk_budget a) (ticked ms price p))"
      by (rule ticked_keeps) (use lk in simp)
    have acct: "mp_account_id (ticked ms price p) = mp_account_id p"
      using paper_decisions_same[of ms _ "tick_stop price p"] by (simp add: ticked_def Let_def same_trade_def)
    have eq: "manage_position reg inst price ms pid ex = returns (place i (ticked ms price p) ex)"
      using manage_position_eq[OF p _ True _ executor_ok_distinct[OF ok], of reg i price ms] lk True i
      by (simp add: live_def)
    show ?thesis
      unfolding eq using executor_ok_place[OF ok wf p, of "ticked ms price p" i] k acct i by simp
  qed
qed


subsection \<open>Every method keeps it, and none raises\<close>

definition keeps :: "registry \<Rightarrow> account_config \<Rightarrow> (nat \<Rightarrow> string) \<Rightarrow> paper_executor outcome \<Rightarrow> bool" where
  "keeps reg a draws r \<longleftrightarrow> executor_ok reg a draws (fst r) \<and> snd r = None"

lemma keeps_returns [simp]: "keeps reg a draws (returns ex) = executor_ok reg a draws ex"
  by (simp add: keeps_def)

lemma keeps_seq:
  "keeps reg a draws r \<Longrightarrow> (\<And>ex. executor_ok reg a draws ex \<Longrightarrow> keeps reg a draws (f ex)) \<Longrightarrow>
   keeps reg a draws (seq r f)"
  by (simp add: keeps_def)

lemma keeps_for_each:
  assumes "executor_ok reg a draws ex"
    and "\<And>x ex. x \<in> set xs \<Longrightarrow> executor_ok reg a draws ex \<Longrightarrow> keeps reg a draws (f x ex)"
  shows "keeps reg a draws (for_each f xs ex)"
  unfolding keeps_def
  by (rule for_each_no_raise[where I = "executor_ok reg a draws"]) (use assms in \<open>auto simp: keeps_def\<close>)

lemma executor_ok_gate:
  "executor_ok reg a draws ex \<Longrightarrow> executor_ok reg a draws (ex\<lparr>pe_risk := check_dd_breach (pe_risk ex)\<rparr>)"
  by (rule executor_ok_risk) simp_all

text \<open>The position a fill opens.\<close>

definition opened ::
  "cfd_signal \<Rightarrow> pyfloat \<Rightarrow> pyfloat \<Rightarrow> size_result \<Rightarrow> paper_executor \<Rightarrow> managed_position" where
  "opened s price ms r ex = new_position (pe_draws ex (pe_drawn ex)) (strategy_id s) (variant_id s)
     (instrument s) (sig_direction s) price ms (lot_size r) (sig_plan s) (account_id (pe_account ex))"

lemma opened_simps [simp]:
  "position_id (opened s x t r ex) = pe_draws ex (pe_drawn ex)"
  "position_key (opened s x t r ex) = signal_key s" "lots (opened s x t r ex) = lot_size r"
  "mp_instrument (opened s x t r ex) = instrument s" "entry_price (opened s x t r ex) = x"
  "mp_plan (opened s x t r ex) = sig_plan s" "mp_direction (opened s x t r ex) = sig_direction s"
  "mp_account_id (opened s x t r ex) = account_id (pe_account ex)"
  "current_stop (opened s x t r ex) = plan_stop_loss (sig_plan s)"
  "partial_closes (opened s x t r ex) = []" "is_open (opened s x t r ex)"
  "position_books (opened s x t r ex)"
  unfolding opened_def
  by (simp_all del: new_position_books new_position_open add: new_position_books)
    (simp_all add: new_position_def position_key_def signal_key_def is_open_def)

text \<open>
  A fill either opens a position on an allowed risk, or leaves the executor as it was but for
  the breach check.
\<close>

lemma fill_cases:
  assumes "get_instrument reg (instrument s) = Inr i" and "wf_registry reg"
  obtains
    (skipped) g where "fill reg s price ms ex = returns (ex\<lparr>pe_risk := g\<rparr>)"
      and "g = pe_risk ex \<or> g = check_dd_breach (pe_risk ex)"
  | (filled) r where "calculate_lot_size reg (instrument s) (pe_sizing_balance ex) (pe_risk_pct ex)
          \<bar>price - sig_stop_loss s\<bar> (Some i) = Inr r"
      and "\<not> rejected r" and "fst (check_trade_risk (risk_usd r) (pe_risk ex)) = Allowed"
      and "fill reg s price ms ex = returns (ex\<lparr>pe_risk := check_dd_breach (pe_risk ex),
             pe_drawn := pe_drawn ex + 1,
             pe_positions := AList.update (pe_draws ex (pe_drawn ex)) (opened s price ms r ex) (pe_positions ex),
             pe_open_keys := insert (signal_key s) (pe_open_keys ex),
             pe_trades_opened := pe_trades_opened ex + 1\<rparr>)"
proof -
  have wf: "wf_instrument i" "cent_lots i" using get_instrument_wf[OF assms(2,1)] by auto
  obtain r where r: "calculate_lot_size reg (instrument s) (pe_sizing_balance ex) (pe_risk_pct ex)
      \<bar>price - sig_stop_loss s\<bar> (Some i) = Inr r"
    using calculate_lot_size_total[OF wf] by blast
  obtain v where v: "check_trade_risk (risk_usd r) (pe_risk ex) = (v, check_dd_breach (pe_risk ex))"
    using snd_check_trade_risk[of "risk_usd r" "pe_risk ex"] by (metis prod.collapse)
  consider "rejected r" | "\<not> rejected r" "v \<noteq> Allowed" | "\<not> rejected r" "v = Allowed" by blast
  then show ?thesis
  proof cases
    case 1
    then have "fill reg s price ms ex = returns (ex\<lparr>pe_risk := pe_risk ex\<rparr>)"
      by (simp add: fill_def assms(1) r)
    then show ?thesis by (rule skipped) simp
  next
    case 2
    then have "fill reg s price ms ex = returns (ex\<lparr>pe_risk := check_dd_breach (pe_risk ex)\<rparr>)"
      by (simp add: fill_def assms(1) r v)
    then show ?thesis by (rule skipped) simp
  next
    case 3
    then show ?thesis
      by (intro filled[OF r])
        (simp_all add: fill_def assms(1) r v Let_def put_position_def opened_def new_position_def)
  qed
qed

lemma update_new: "k \<notin> fst ` set al \<Longrightarrow> AList.update k v al = al @ [(k, v)]"
  by (induction al) auto

lemma opened_live:
  assumes "acceptable reg s" and "get_instrument reg (instrument s) = Inr i" and "wf_registry reg"
    and "calculate_lot_size reg (instrument s) b pct \<bar>price - sig_stop_loss s\<bar> (Some i) = Inr r"
    and "\<not> rejected r" and "b * pct / 100 = budget"
  shows "live reg budget (opened s price ms r ex)"
proof -
  have wf: "wf_instrument i" "cent_lots i" using get_instrument_wf[OF assms(3,2)] by auto
  have "lot_size r * sl_cost_per_lot i (price - plan_stop_loss (sig_plan s)) \<le> budget"
    using accepted_cost_le[OF wf assms(4,5)] assms(6) by (simp add: sig_stop_loss_def)
  moreover have "0 < lot_size r" by (rule accepted_lot_pos[OF wf assms(4,5)])
  ultimately show ?thesis
    using assms(1,2) by (simp add: live_def funded_def planned_loss_def guarded_def acceptable_def)
qed

lemma fill_ok:
  assumes ok: "executor_ok reg a draws ex" and wf: "wf_registry reg" and inj: "inj draws"
    and s: "acceptable reg s" and key: "signal_key s \<notin> pe_open_keys ex"
    and arm: "map_of (pe_arms ex) (signal_key s) = None"
  shows "keeps reg a draws (fill reg s price ms ex)"
proof -
  obtain i where i: "get_instrument reg (instrument s) = Inr i"
    using s by (auto simp: acceptable_def split: sum.splits)
  show ?thesis
  proof (rule fill_cases[OF i wf, where price = price and ms = ms and ex = ex])
    fix g assume skipped: "fill reg s price ms ex = returns (ex\<lparr>pe_risk := g\<rparr>)"
      "g = pe_risk ex \<or> g = check_dd_breach (pe_risk ex)"
    then have "executor_ok reg a draws (ex\<lparr>pe_risk := g\<rparr>)"
      by (intro executor_ok_risk[OF ok]) auto
    then show ?thesis by (simp add: skipped(1))
  next
    fix r assume filled: "calculate_lot_size reg (instrument s) (pe_sizing_balance ex) (pe_risk_pct ex)
          \<bar>price - sig_stop_loss s\<bar> (Some i) = Inr r"
      "\<not> rejected r" "fst (check_trade_risk (risk_usd r) (pe_risk ex)) = Allowed"
      "fill reg s price ms ex = returns (ex\<lparr>pe_risk := check_dd_breach (pe_risk ex),
             pe_drawn := pe_drawn ex + 1,
             pe_positions := AList.update (pe_draws ex (pe_drawn ex)) (opened s price ms r ex) (pe_positions ex),
             pe_open_keys := insert (signal_key s) (pe_open_keys ex),
             pe_trades_opened := pe_trades_opened ex + 1\<rparr>)"
    let ?p = "opened s price ms r ex" and ?k = "pe_draws ex (pe_drawn ex)"
    have live: "live reg (risk_budget a) ?p"
      by (rule opened_live[OF s i wf filled(1,2)])
        (use ok in \<open>simp add: executor_ok_def ledger_ok_def risk_budget_def\<close>)
    have "?k \<notin> fst ` set (pe_positions ex)"
    proof
      assume "?k \<in> fst ` set (pe_positions ex)"
      moreover have "fst ` set (pe_positions ex) \<subseteq> draws ` {..<pe_drawn ex}" "pe_draws ex = draws"
        using ok by (simp_all add: executor_ok_def ids_ok_def)
      ultimately obtain n where "n < pe_drawn ex" "draws n = draws (pe_drawn ex)" by auto
      then show False using injD[OF inj] by blast
    qed
    then have up: "AList.update ?k ?p (pe_positions ex) = pe_positions ex @ [(?k, ?p)]"
      and new: "?k \<notin> fst ` set (pe_positions ex)" by (simp_all add: update_new)
    have arms: "signal_key s \<notin> fst ` set (pe_arms ex)" using arm by (simp add: map_of_eq_None_iff)
    let ?ex = "ex\<lparr>pe_risk := check_dd_breach (pe_risk ex), pe_drawn := pe_drawn ex + 1,
          pe_positions := pe_positions ex @ [(?k, ?p)], pe_open_keys := insert (signal_key s) (pe_open_keys ex),
          pe_trades_opened := pe_trades_opened ex + 1\<rparr>"
    have parts: "positions_ok reg a ex" "arms_ok reg ex" "ids_ok draws ex" "log_ok reg a ex" "ledger_ok a ex"
      using ok by (simp_all add: executor_ok_def)
    have acct: "pe_account ex = a" using parts(5) by (simp add: ledger_ok_def)
    have "positions_ok reg a ?ex"
      using parts(1) live new key acct unfolding positions_ok_def by simp
    moreover have "arms_ok reg ?ex"
      using parts(2) arms unfolding arms_ok_def list_all_iff by (auto simp: rev_image_eqI)
    moreover have "ids_ok draws ?ex"
      using parts(3) by (auto simp: ids_ok_def lessThan_Suc)
    moreover have "log_ok reg a ?ex" using parts(4) by (simp add: log_ok_def)
    moreover have "ledger_ok a ?ex" using parts(5) by (simp add: ledger_ok_def)
    ultimately show ?thesis unfolding filled(4) up keeps_returns executor_ok_def by blast
  qed
qed


lemma fill_arm_ok:
  assumes ok: "executor_ok reg a draws ex" and wf: "wf_registry reg" and inj: "inj draws"
    and s: "acceptable reg (arm_signal x)"
  shows "keeps reg a draws (fill_arm reg ms x ex)"
proof -
  let ?k = "signal_key (arm_signal x)"
  let ?ex1 = "ex\<lparr>pe_arms := AList.delete ?k (pe_arms ex)\<rparr>"
  have ok1: "executor_ok reg a draws ?ex1" by (rule executor_ok_arm_delete[OF ok])
  show ?thesis
  proof (cases "?k \<in> pe_open_keys ex")
    case True
    then show ?thesis using ok1 by (simp add: fill_arm_def Let_def)
  next
    case False
    obtain b where b: "can_trade (pe_risk ex) = (b, check_dd_breach (pe_risk ex))"
      using snd_can_trade[of "pe_risk ex"] by (metis prod.collapse)
    let ?ex2 = "?ex1\<lparr>pe_risk := check_dd_breach (pe_risk ex)\<rparr>"
    have ok2: "executor_ok reg a draws ?ex2" using executor_ok_gate[OF ok1] by simp
    have "keeps reg a draws (fill reg (arm_signal x) (sig_entry_price (arm_signal x)) ms ?ex2)"
      using fill_ok[OF ok2 wf inj s] False by (simp add: delete_conv')
    then show ?thesis using False ok2 by (simp add: fill_arm_def b Let_def)
  qed
qed

lemma check_arms_ok:
  assumes ok: "executor_ok reg a draws ex" and wf: "wf_registry reg" and inj: "inj draws"
  shows "keeps reg a draws (check_arms reg inst price ms ex)"
  unfolding check_arms_def
proof (rule keeps_for_each[OF ok])
  fix x ex' assume "x \<in> set (arms_to_fill inst price ex)" and ok': "executor_ok reg a draws ex'"
  then have "acceptable reg (arm_signal x)"
    using ok by (auto simp: arms_to_fill_def executor_ok_def arms_ok_def list_all_iff)
  then show "keeps reg a draws (fill_arm reg ms x ex')" by (rule fill_arm_ok[OF ok' wf inj])
qed

lemma on_signal_ok:
  assumes ok: "executor_ok reg a draws ex" and wf: "wf_registry reg" and inj: "inj draws"
    and s: "acceptable reg s"
  shows "keeps reg a draws (on_signal reg s ex)"
proof -
  let ?x = "\<lparr>arm_signal = s, candles_remaining = expiry_candles s\<rparr>"
  let ?ex = "ex\<lparr>pe_risk := check_dd_breach (pe_risk ex)\<rparr>"
  obtain b where b: "can_trade (pe_risk ex) = (b, check_dd_breach (pe_risk ex))"
    using snd_can_trade[of "pe_risk ex"] by (metis prod.collapse)
  have ok1: "executor_ok reg a draws ?ex" by (rule executor_ok_gate[OF ok])
  show ?thesis
  proof (cases "signal_key s \<in> pe_open_keys ex")
    case True
    then show ?thesis using ok by (simp add: on_signal_def Let_def)
  next
    case False
    have "executor_ok reg a draws (ex\<lparr>pe_arms := AList.update (signal_key s) ?x (pe_arms ex)\<rparr>)"
      "executor_ok reg a draws (?ex\<lparr>pe_arms := AList.update (signal_key s) ?x (pe_arms ex)\<rparr>)"
      using executor_ok_arm_put[OF ok, of ?x] executor_ok_arm_put[OF ok1, of ?x] s False by simp_all
    moreover have "keeps reg a draws (fill reg s (sig_entry_price s) (sig_ms s) ?ex)"
      if "map_of (pe_arms ex) (signal_key s) = None"
      using fill_ok[OF ok1 wf inj s] False that by simp
    ultimately show ?thesis using ok ok1 False by (simp add: on_signal_def b Let_def)
  qed
qed

lemma manage_positions_ok:
  "executor_ok reg a draws ex \<Longrightarrow> wf_registry reg \<Longrightarrow> keeps reg a draws (manage_positions reg inst price ms ex)"
  unfolding manage_positions_def
  by (rule keeps_for_each) (simp_all add: keeps_def manage_position_ok)

lemma floating_total:
  "list_all (live reg budget) ps \<Longrightarrow> \<exists>x. floating_pnl reg prices ps acc = Inr x"
proof (induction ps arbitrary: acc)
  case Nil
  then show ?case by simp
next
  case (Cons p ps)
  obtain i where "get_instrument reg (mp_instrument p) = Inr i" using Cons.prems live_instrument by force
  then show ?case using Cons by (simp split: option.split)
qed

lemma update_floating_ok:
  assumes "executor_ok reg a draws ex"
  shows "keeps reg a draws (update_floating reg ex)"
proof -
  have "list_all (live reg (risk_budget a)) (List.map snd (pe_positions ex))"
    using assms by (auto simp: executor_ok_def positions_ok_def list_all_iff)
  then obtain x where "floating_pnl reg (pe_last_price ex) (List.map snd (pe_positions ex)) 0 = Inr x"
    using floating_total by blast
  then show ?thesis using executor_ok_risk[OF assms] by (simp add: update_floating_def)
qed

lemma on_tick_ok:
  assumes "executor_ok reg a draws ex" and "wf_registry reg" and "inj draws"
  shows "keeps reg a draws (pe_on_tick reg inst bid ask ms ex)"
  using assms
  by (auto simp: pe_on_tick_def Let_def intro!: keeps_seq check_arms_ok manage_positions_ok update_floating_ok)


lemma age_arm_ok:
  assumes "executor_ok reg a draws ex \<and> pe_open_keys ex = K"
    and "fst kx = signal_key (arm_signal (snd kx))" "acceptable reg (arm_signal (snd kx))" "fst kx \<notin> K"
  shows "executor_ok reg a draws (age_arm inst kx ex) \<and> pe_open_keys (age_arm inst kx ex) = K"
proof -
  obtain k x where kx: "kx = (k, x)" by fastforce
  let ?x = "x\<lparr>candles_remaining := candles_remaining x - 1\<rparr>"
  have "executor_ok reg a draws (ex\<lparr>pe_arms := AList.update k ?x (pe_arms ex)\<rparr>)"
    using executor_ok_arm_put[of reg a draws ex ?x] assms by (simp add: kx)
  then show ?thesis
    using assms executor_ok_arm_delete[of reg a draws ex k] by (simp add: age_arm_def kx Let_def)
qed

lemma age_arms_ok:
  assumes ok: "executor_ok reg a draws ex"
  shows "executor_ok reg a draws (fold (age_arm inst) (pe_arms ex) ex)"
proof -
  let ?Q = "\<lambda>kx :: trade_key \<times> arm. fst kx = signal_key (arm_signal (snd kx)) \<and> acceptable reg (arm_signal (snd kx)) \<and>
    fst kx \<notin> pe_open_keys ex"
  let ?P = "\<lambda>ex'. executor_ok reg a draws ex' \<and> pe_open_keys ex' = pe_open_keys ex"
  have "?P (fold (age_arm inst) (pe_arms ex) ex)"
  proof (rule fold_invariant[where Q = ?Q])
    fix kx assume "kx \<in> set (pe_arms ex)"
    then show "?Q kx" using ok by (auto simp: executor_ok_def arms_ok_def list_all_iff)
  next
    fix kx ex' assume "?Q kx" "?P ex'"
    then show "?P (age_arm inst kx ex')" using age_arm_ok by blast
  qed (use ok in simp)
  then show ?thesis by simp
qed

lemma paper_close_all:
  assumes "live reg budget p" and "d_reason d = TIME_STOP" and "d_fraction d = remaining_fraction p"
  shows "finished reg budget (paper_close ms d p) \<and> \<not> is_open (paper_close ms d p)"
proof -
  let ?q = "paper_close ms d p"
  have p: "position_books p" "is_open p" using assms(1) by (simp_all add: live_def)
  have fr: "0 < remaining_fraction p"
    using p by (simp add: position_books_def order_less_trans[rotated])
  have books: "position_books ?q" by (rule paper_closer.close_books) (use assms p fr in auto)
  have "\<not> is_open ?q" using paper_closer.close_status[of p d ms] assms p fr by simp
  moreover have "list_all (leg_guarded ?q) (partial_closes ?q)"
    by (rule paper_close_legs) (use assms in \<open>auto simp: live_def\<close>)
  ultimately show ?thesis
    using books assms(1) same_trade_preserves[OF paper_close_same]
    by (simp add: finished_def live_def position_books_def)
qed

lemma live_older [simp]: "live reg budget (p\<lparr>bars_open := n\<rparr>) = live reg budget p"
proof -
  have "leg_ok (p\<lparr>bars_open := n\<rparr>) = leg_ok p" "leg_guarded (p\<lparr>bars_open := n\<rparr>) = leg_guarded p"
    by (auto simp: leg_ok_def leg_guarded_def rr_at_def price_pnl_per_unit_def favour_def Let_def fun_eq_iff)
  then show ?thesis
    by (simp add: live_def is_open_def position_books_def closed_fraction_def funded_def planned_loss_def
        guarded_def favour_def split: sum.split)
qed

lemma age_position_ok:
  assumes ok: "executor_ok reg a draws ex" and wf: "wf_registry reg"
  shows "keeps reg a draws (age_position reg inst ms pid ex)"
proof (cases "map_of (pe_positions ex) pid")
  case None
  then show ?thesis using ok by (simp add: age_position_def)
next
  case (Some p)
  note lk = executor_ok_lookup[OF ok Some]
  let ?p = "p\<lparr>bars_open := bars_open p + 1\<rparr>"
  have id: "position_id ?p = position_id p" "position_key ?p = position_key p"
    "mp_account_id ?p = mp_account_id p" "mp_instrument ?p = mp_instrument p" "is_open ?p = is_open p"
    by (simp_all add: position_key_def is_open_def)
  have p: "map_of (pe_positions ex) (position_id p) = Some p" using Some lk by simp
  have live: "live reg (risk_budget a) ?p" using lk by simp
  have put: "executor_ok reg a draws (put_position ?p ex)"
    by (rule executor_ok_put[OF ok p id(1-3) live])
  obtain i where i: "get_instrument reg (mp_instrument ?p) = Inr i" using live_instrument[OF live] by blast
  have p2: "map_of (pe_positions (put_position ?p ex)) pid = Some ?p"
    using put_lookup[of ?p ex] lk id(1) by simp
  have "keeps reg a draws (apply_exit reg ms pid \<lparr>d_reason = TIME_STOP, d_price = price,
      d_fraction = remaining_fraction ?p, d_tp_index = -1, fully_closed = True\<rparr> (put_position ?p ex))" for price
  proof -
    let ?d = "\<lparr>d_reason = TIME_STOP, d_price = price, d_fraction = remaining_fraction ?p,
      d_tp_index = -1, fully_closed = True\<rparr>"
    have same: "same_trade (paper_close ms ?d ?p) ?p" by (rule paper_close_same)
    have "executor_ok reg a draws (place i (paper_close ms ?d ?p) (put_position ?p ex))"
      by (rule executor_ok_place[OF put wf, where p = ?p])
        (use paper_close_all[OF live, of ?d ms] same same_trade_key[OF same] put_lookup[of ?p ex] i
          in \<open>simp_all add: same_trade_def\<close>)
    moreover have "apply_exit reg ms pid ?d (put_position ?p ex) =
        returns (place i (paper_close ms ?d ?p) (put_position ?p ex))"
      by (rule apply_exit_eq[OF p2 _ _ i]) (use lk id live in \<open>auto simp: live_def\<close>)
    ultimately show ?thesis by simp
  qed
  then show ?thesis using ok put Some by (simp add: age_position_def Let_def)
qed

lemma on_candle_close_ok:
  "executor_ok reg a draws ex \<Longrightarrow> wf_registry reg \<Longrightarrow> keeps reg a draws (on_candle_close reg inst ms ex)"
  unfolding on_candle_close_def Let_def
  by (rule keeps_for_each) (simp_all add: age_arms_ok age_position_ok)

lemma flatten_position_ok:
  assumes ok: "executor_ok reg a draws ex" and wf: "wf_registry reg"
  shows "keeps reg a draws (flatten_position reg reason now wanted pid ex)"
proof (cases "map_of (pe_positions ex) pid")
  case None
  then show ?thesis using ok by (simp add: flatten_position_def)
next
  case (Some p)
  note lk = executor_ok_lookup[OF ok Some]
  obtain i where i: "get_instrument reg (mp_instrument p) = Inr i" using live_instrument lk by blast
  have p: "map_of (pe_positions ex) (position_id p) = Some p" using Some lk by simp
  have "finished reg (risk_budget a) (mark_closed x reason now p)" for x
    using lk same_trade_preserves[OF mark_closed_frame(8)] same_trade_leg_ok[OF mark_closed_frame(8)]
    by (simp add: finished_def live_def position_books_def closed_fraction_def)
  then have "executor_ok reg a draws (settle i (mark_closed x reason now p) ex)" for x
    by (intro executor_ok_settle[OF ok wf p]) (use i in simp_all)
  then show ?thesis
    using ok Some i by (simp add: flatten_position_def Let_def close_position_eq)
qed

lemma flatten_ok:
  assumes "executor_ok reg a draws ex" and "wf_registry reg"
  shows "keeps reg a draws (flatten_all reg reason now ex)"
    and "keeps reg a draws (fst (flatten_instrument reg inst reason now ex))"
  using assms
  by (auto simp: flatten_all_def flatten_instrument_def Let_def intro!: keeps_for_each flatten_position_ok)

lemma on_day_reset_ok:
  assumes "executor_ok reg a draws ex" and "reset_schedule_ok (to_risk_guard_config a)"
  shows "keeps reg a draws (on_day_reset clock ms ex)"
proof -
  have cfg: "rg_config (pe_risk ex) = to_risk_guard_config a"
    using assms(1) by (simp add: executor_ok_def ledger_ok_def)
  obtain b g where r: "check_daily_reset clock ms (pe_risk ex) = (Inr b, g)"
    and g: "g = pe_risk ex \<or> (\<exists>t. g = perform_daily_reset t (pe_risk ex))"
    by (rule check_daily_reset_total[of "pe_risk ex"]) (use assms(2) cfg in simp_all)
  have "executor_ok reg a draws (ex\<lparr>pe_risk := g\<rparr>)"
    by (rule executor_ok_risk[OF assms(1)]) (use g in auto)
  then show ?thesis by (simp add: on_day_reset_def r Let_def)
qed


subsection \<open>Histories\<close>

text \<open>What the runner does to an executor between its creation and now.\<close>

datatype exec_event =
    Signal cfd_signal
  | Tick string pyfloat pyfloat pyfloat
  | Candle string pyfloat
  | Day_reset pyfloat "pyfloat option"
  | Flatten_all exit_reason pyfloat
  | Flatten_instrument string exit_reason pyfloat

fun exec_step :: "registry \<Rightarrow> exec_event \<Rightarrow> paper_executor \<Rightarrow> paper_executor outcome" where
  "exec_step reg (Signal s) ex = on_signal reg s ex"
| "exec_step reg (Tick inst bid ask ms) ex = pe_on_tick reg inst bid ask ms ex"
| "exec_step reg (Candle inst ms) ex = on_candle_close reg inst ms ex"
| "exec_step reg (Day_reset clock ms) ex = on_day_reset clock ms ex"
| "exec_step reg (Flatten_all reason now) ex = flatten_all reg reason now ex"
| "exec_step reg (Flatten_instrument inst reason now) ex = fst (flatten_instrument reg inst reason now ex)"

text \<open>
  Signals come from the strategies: their plan was constructed, and they trade a registered
  instrument. Nothing is assumed of ticks, candles and the clock.
\<close>

fun event_ok :: "registry \<Rightarrow> exec_event \<Rightarrow> bool" where
  "event_ok reg (Signal s) = acceptable reg s"
| "event_ok reg _ = True"

inductive reachable ::
  "registry \<Rightarrow> account_config \<Rightarrow> cost_model option \<Rightarrow> (nat \<Rightarrow> string) \<Rightarrow> paper_executor \<Rightarrow> bool"
  for reg a cm draws where
  start: "reachable reg a cm draws (new_executor a cm draws)"
| step: "reachable reg a cm draws ex \<Longrightarrow> event_ok reg e \<Longrightarrow>
    reachable reg a cm draws (fst (exec_step reg e ex))"

inductive_cases reachableE: "reachable reg a cm draws ex"

text \<open>The conditions on the surroundings: a usable registry, a reset schedule the clock accepts,
  ids that never repeat.\<close>

definition sound_setup :: "registry \<Rightarrow> account_config \<Rightarrow> (nat \<Rightarrow> string) \<Rightarrow> bool" where
  "sound_setup reg a draws \<longleftrightarrow> wf_registry reg \<and> reset_schedule_ok (to_risk_guard_config a) \<and> inj draws"

lemma exec_step_ok:
  assumes "executor_ok reg a draws ex" and "sound_setup reg a draws" and "event_ok reg e"
  shows "keeps reg a draws (exec_step reg e ex)"
  using assms
  by (cases e) (simp_all add: sound_setup_def on_signal_ok on_tick_ok on_candle_close_ok on_day_reset_ok
      flatten_ok)

lemma reachable_ok:
  assumes "reachable reg a cm draws ex" and "sound_setup reg a draws"
  shows "executor_ok reg a draws ex"
  using assms(1)
proof (induction rule: reachable.induct)
  case start
  show ?case by (rule new_executor_ok)
next
  case (step ex e)
  then show ?case using exec_step_ok[OF step.IH assms(2) step.hyps(2)] by (simp add: keeps_def)
qed

fun exec_run :: "registry \<Rightarrow> exec_event list \<Rightarrow> paper_executor \<Rightarrow> paper_executor" where
  "exec_run reg [] ex = ex"
| "exec_run reg (e # es) ex = exec_run reg es (fst (exec_step reg e ex))"

lemma reachable_run:
  "reachable reg a cm draws ex \<Longrightarrow> list_all (event_ok reg) es \<Longrightarrow> reachable reg a cm draws (exec_run reg es ex)"
  by (induction es arbitrary: ex) (auto intro: reachable.step)

subsection \<open>A dead account\<close>

definition frozen :: "nat \<Rightarrow> paper_executor \<Rightarrow> bool" where
  "frozen n ex \<longleftrightarrow> rg_status (pe_risk ex) = MAX_DD_BREACH \<and> pe_trades_opened ex = n"

lemma dead_guard [simp]:
  assumes "rg_status g = MAX_DD_BREACH"
  shows "check_dd_breach g = g" "can_trade g = (False, g)" "check_trade_risk r g = (Halted MAX_DD_BREACH, g)"
    "rg_status (add_realized_pnl x g) = MAX_DD_BREACH"
    "rg_status (update_unrealized_pnl x g) = MAX_DD_BREACH"
    "rg_status (snd (check_daily_reset c t g)) = MAX_DD_BREACH"
  using assms guard_step_dead[of g "Realize x"] guard_step_dead[of g "Mark x"] guard_step_dead[of g "Day c t"]
  by (simp_all add: check_dd_breach_keeps_dead can_trade_def check_trade_risk_def Let_def)

lemma frozen_fill: "frozen n ex \<Longrightarrow> frozen n (fst (fill reg s x ms ex))"
  by (auto simp: frozen_def fill_def Let_def split: sum.split)

lemma frozen_signal: "frozen n ex \<Longrightarrow> frozen n (fst (on_signal reg s ex))"
  by (auto simp: on_signal_def Let_def) (auto simp: frozen_def)

lemma frozen_fill_arm: "frozen n ex \<Longrightarrow> frozen n (fst (fill_arm reg ms x ex))"
  by (auto simp: fill_arm_def Let_def) (auto simp: frozen_def)

lemma frozen_put [simp]: "frozen n (put_position p ex) = frozen n ex"
  by (simp add: frozen_def put_position_def)

lemma frozen_close: "frozen n ex \<Longrightarrow> frozen n (fst (close_position reg p x r ms ex))"
  by (auto simp: close_position_def Let_def put_position_def frozen_def split: sum.split)

lemma frozen_exit: "frozen n ex \<Longrightarrow> frozen n (fst (apply_exit reg ms pid d ex))"
  by (auto simp: apply_exit_def Let_def frozen_close split: option.split)

lemma frozen_exit_loop: "frozen n ex \<Longrightarrow> frozen n (fst (exit_loop reg ms pid ds ex))"
proof (induction ds arbitrary: ex)
  case Nil
  then show ?case by simp
next
  case (Cons d ds)
  show ?case
    unfolding exit_loop.simps
    by (rule fst_seq_invariant[where I = "frozen n"]) (use Cons in \<open>simp_all add: frozen_exit\<close>)
qed

lemma frozen_manage: "frozen n ex \<Longrightarrow> frozen n (fst (manage_position reg inst x ms pid ex))"
  by (auto simp: manage_position_def Let_def frozen_exit_loop split: option.split)

lemma frozen_floating: "frozen n ex \<Longrightarrow> frozen n (fst (update_floating reg ex))"
  by (auto simp: update_floating_def split: sum.split) (auto simp: frozen_def)

lemma frozen_tick: "frozen n ex \<Longrightarrow> frozen n (fst (pe_on_tick reg inst bid ask ms ex))"
proof -
  assume ex: "frozen n ex"
  let ?ex = "ex\<lparr>pe_last_price := (pe_last_price ex)(inst \<mapsto> bid)\<rparr>"
  have "frozen n ?ex" using ex by (simp add: frozen_def)
  then have "frozen n (fst (check_arms reg inst bid ms ?ex))"
    unfolding check_arms_def by (intro for_each_invariant[where I = "frozen n"] frozen_fill_arm)
  moreover have "frozen n (fst (manage_positions reg inst bid ms s))" if "frozen n s" for s
    unfolding manage_positions_def using that
    by (intro for_each_invariant[where I = "frozen n"] frozen_manage)
  ultimately have "frozen n (fst (seq (seq (check_arms reg inst bid ms ?ex) (manage_positions reg inst bid ms))
      (update_floating reg)))"
    by (intro fst_seq_invariant[where I = "frozen n"] frozen_floating)
  then show ?thesis using ex by (simp add: pe_on_tick_def Let_def)
qed

lemma frozen_age_arm: "frozen n ex \<Longrightarrow> frozen n (age_arm inst kx ex)"
  by (simp add: age_arm_def frozen_def Let_def case_prod_beta)

lemma frozen_age_position: "frozen n ex \<Longrightarrow> frozen n (fst (age_position reg inst ms pid ex))"
  by (auto simp: age_position_def Let_def frozen_exit split: option.split)

lemma frozen_candle: "frozen n ex \<Longrightarrow> frozen n (fst (on_candle_close reg inst ms ex))"
  unfolding on_candle_close_def Let_def
  by (rule for_each_invariant[where I = "frozen n"])
    (auto intro: frozen_age_position fold_invariant[where Q = "\<lambda>_. True"] frozen_age_arm)

lemma frozen_flatten_position: "frozen n ex \<Longrightarrow> frozen n (fst (flatten_position reg r t w pid ex))"
  by (auto simp: flatten_position_def Let_def frozen_close split: option.split)

lemma frozen_step: "frozen n ex \<Longrightarrow> frozen n (fst (exec_step reg e ex))"
proof (induction e)
  case (Day_reset clock ms)
  then show ?case by (simp add: on_day_reset_def Let_def case_prod_beta split: sum.split) (simp add: frozen_def)
qed (auto simp: frozen_signal frozen_tick frozen_candle flatten_all_def flatten_instrument_def Let_def
      intro!: for_each_invariant[where I = "frozen n"] frozen_flatten_position)

lemma frozen_run: "frozen n ex \<Longrightarrow> frozen n (exec_run reg es ex)"
  by (induction es arbitrary: ex) (simp_all add: frozen_step)


subsection \<open>After a tick\<close>

lemma arms_fill [simp]: "pe_arms (fst (fill reg s x ms ex)) = pe_arms ex"
  by (simp add: fill_def put_position_def Let_def case_prod_beta split: sum.split)

lemma arms_fill_arm [simp]:
  "pe_arms (fst (fill_arm reg ms x ex)) = AList.delete (signal_key (arm_signal x)) (pe_arms ex)"
  by (simp add: fill_arm_def Let_def case_prod_beta)

lemma arms_after_fills:
  assumes "snd (for_each (fill_arm reg ms) xs ex) = None"
    and "(k, y) \<in> set (pe_arms (fst (for_each (fill_arm reg ms) xs ex)))"
  shows "(k, y) \<in> set (pe_arms ex) \<and> k \<notin> (\<lambda>x. signal_key (arm_signal x)) ` set xs"
  using assms
proof (induction xs arbitrary: ex)
  case Nil
  then show ?case by simp
next
  case (Cons x xs)
  show ?case
  proof (cases "snd (fill_arm reg ms x ex)")
    case None
    with Cons.prems Cons.IH[of "fst (fill_arm reg ms x ex)"]
    have "(k, y) \<in> set (AList.delete (signal_key (arm_signal x)) (pe_arms ex)) \<and>
        k \<notin> (\<lambda>x. signal_key (arm_signal x)) ` set xs" by simp
    then show ?thesis by (auto simp: set_delete)
  next
    case (Some e)
    then show ?thesis using Cons.prems(1) by simp
  qed
qed

lemma arms_place [simp]: "pe_arms (place i q ex) = pe_arms ex"
  by (simp add: place_def put_position_def settle_def Let_def)

text \<open>Past its stop at a price, a position of the instrument is not left open.\<close>

definition holds_through :: "string \<Rightarrow> pyfloat \<Rightarrow> managed_position \<Rightarrow> bool" where
  "holds_through inst price p \<longleftrightarrow> mp_instrument p \<noteq> inst \<or> \<not> stop_touched p price price"

lemma ticked_holds:
  assumes "is_open (ticked ms price p)" and "live reg budget p"
  shows "\<not> stop_touched (ticked ms price p) price price"
proof -
  let ?p = "tick_stop price p"
  have live: "live reg budget ?p" by (rule live_tick_stop[OF assms(2)])
  have same: "same_trade (ticked ms price p) ?p" unfolding ticked_def Let_def by (rule paper_decisions_same)
  have "\<not> stop_touched ?p price price"
  proof
    assume "stop_touched ?p price price"
    then have "evaluate_exit ?p price price = [\<lparr>d_reason = STOP_LOSS, d_price = current_stop ?p,
        d_fraction = remaining_fraction ?p, d_tp_index = -1, fully_closed = True\<rparr>]"
      using live by (simp add: evaluate_exit_def live_def)
    moreover have "is_open (ticked ms price p) \<longleftrightarrow> list_all (\<lambda>d. \<not> fully_closed d) (evaluate_exit ?p price price)"
      using paper_closer.apply_evaluated[of ?p ms price price] live by (simp add: ticked_def Let_def live_def)
    ultimately show False using assms(1) by simp
  qed
  with same show ?thesis by (auto simp: stop_touched_def same_trade_def split: if_splits)
qed

lemma manage_position_effect:
  assumes ok: "executor_ok reg a draws ex" and wf: "wf_registry reg"
  shows "pe_arms (fst (manage_position reg inst price ms pid ex)) = pe_arms ex \<and>
    (\<forall>kp \<in> set (pe_positions (fst (manage_position reg inst price ms pid ex))).
       (kp \<in> set (pe_positions ex) \<and> fst kp \<noteq> pid) \<or> fst kp = pid \<and> holds_through inst price (snd kp))"
proof (cases "map_of (pe_positions ex) pid")
  case None
  then have "manage_position reg inst price ms pid ex = returns ex" by (simp add: manage_position_def)
  moreover have "pid \<notin> fst ` set (pe_positions ex)" using None by (simp add: map_of_eq_None_iff)
  ultimately show ?thesis by auto
next
  case (Some p)
  note lk = executor_ok_lookup[OF ok Some]
  have dist: "distinct (List.map fst (pe_positions ex))" by (rule executor_ok_distinct[OF ok])
  show ?thesis
  proof (cases "mp_instrument p = inst")
    case False
    then have "holds_through inst price q" if "(pid, q) \<in> set (pe_positions ex)" for q
      using that Some dist by (simp add: holds_through_def map_of_eq_Some_iff)
    moreover have "manage_position reg inst price ms pid ex = returns ex"
      by (simp add: manage_position_def Some False)
    ultimately show ?thesis by auto
  next
    case True
    obtain i where i: "get_instrument reg (mp_instrument p) = Inr i" using live_instrument lk by blast
    have p: "map_of (pe_positions ex) (position_id p) = Some p" using Some lk by simp
    have eq: "manage_position reg inst price ms pid ex = returns (place i (ticked ms price p) ex)"
      using manage_position_eq[OF p _ True _ dist, of reg i price ms] lk True i by (simp add: live_def)
    have id: "position_id (ticked ms price p) = pid"
      using same_trade_id[OF paper_decisions_same] lk by (simp add: ticked_def Let_def)
    show ?thesis
    proof (cases "is_open (ticked ms price p)")
      case open_q: True
      have "\<not> stop_touched (ticked ms price p) price price" using ticked_holds[OF open_q] lk by blast
      then show ?thesis
        unfolding eq using open_q id by (auto simp: place_def put_position_def holds_through_def set_update[OF dist])
    next
      case False
      then show ?thesis
        unfolding eq using id by (auto simp: place_def settle_def Let_def set_delete)
    qed
  qed
qed


lemma manage_loop_effect:
  assumes "executor_ok reg a draws ex" and "wf_registry reg"
  shows "pe_arms (fst (for_each (manage_position reg inst price ms) pids ex)) = pe_arms ex \<and>
    (\<forall>kp \<in> set (pe_positions (fst (for_each (manage_position reg inst price ms) pids ex))).
       (kp \<in> set (pe_positions ex) \<and> fst kp \<notin> set pids) \<or>
       fst kp \<in> set pids \<and> holds_through inst price (snd kp))"
  using assms(1)
proof (induction pids arbitrary: ex)
  case Nil
  then show ?case by simp
next
  case (Cons pid pids)
  let ?ex = "fst (manage_position reg inst price ms pid ex)"
  have ok: "executor_ok reg a draws ?ex" and none: "snd (manage_position reg inst price ms pid ex) = None"
    using manage_position_ok[OF Cons.prems assms(2)] by simp_all
  have eff: "pe_arms ?ex = pe_arms ex \<and>
    (\<forall>kp \<in> set (pe_positions ?ex).
       (kp \<in> set (pe_positions ex) \<and> fst kp \<noteq> pid) \<or> fst kp = pid \<and> holds_through inst price (snd kp))"
    by (rule manage_position_effect[OF Cons.prems assms(2)])
  have loop: "for_each (manage_position reg inst price ms) (pid # pids) ex =
      for_each (manage_position reg inst price ms) pids ?ex" using none by simp
  show ?case unfolding loop using Cons.IH[OF ok] eff by (metis (no_types, lifting) list.set_intros set_ConsD)
qed

lemma manage_positions_effect:
  assumes "executor_ok reg a draws ex" and "wf_registry reg"
  shows "pe_arms (fst (manage_positions reg inst price ms ex)) = pe_arms ex \<and>
    list_all (\<lambda>(k, p). holds_through inst price p) (pe_positions (fst (manage_positions reg inst price ms ex)))"
  using manage_loop_effect[OF assms, of inst price ms "List.map fst (pe_positions ex)"]
  by (fastforce simp: manage_positions_def list_all_iff)

definition waits :: "string \<Rightarrow> pyfloat \<Rightarrow> arm \<Rightarrow> bool" where
  "waits inst price x \<longleftrightarrow> instrument (arm_signal x) \<noteq> inst \<or> \<not> trigger_reached (arm_signal x) price"

lemma check_arms_effect:
  assumes ok: "executor_ok reg a draws ex" and "wf_registry reg" and "inj draws"
  shows "list_all (\<lambda>(k, x). waits inst price x) (pe_arms (fst (check_arms reg inst price ms ex)))"
proof -
  let ?xs = "arms_to_fill inst price ex" and ?r = "check_arms reg inst price ms ex"
  have none: "snd ?r = None" using check_arms_ok[OF assms] by (simp add: keeps_def)
  have "waits inst price x" if kx: "(k, x) \<in> set (pe_arms (fst ?r))" for k x
  proof -
    have "(k, x) \<in> set (pe_arms ex)" "k \<notin> (\<lambda>x. signal_key (arm_signal x)) ` set ?xs"
      using arms_after_fills[of reg ms ?xs ex k x] none kx by (simp_all add: check_arms_def)
    moreover from this(1) have "k = signal_key (arm_signal x)"
      using ok by (auto simp: executor_ok_def arms_ok_def list_all_iff)
    ultimately have "x \<notin> set ?xs" "x \<in> snd ` set (pe_arms ex)" by (auto simp: rev_image_eqI)
    then show ?thesis by (auto simp: arms_to_fill_def waits_def)
  qed
  then show ?thesis by (auto simp: list_all_iff)
qed


subsection \<open>The properties of an account\<close>

text \<open>C1: Whatever the account went through, its state is safe: at most one open position per
  strategy, variant, instrument and direction, and the set of open keys says exactly which; no
  arm competes with an open position; every position in the dictionary is open under its own
  id, with closed and remaining fractions adding up to the whole, a managed stop at least as
  tight as the plan's, and a loss at the plan's stop that the risk budget covers.\<close>

theorem account_state_safe:
  assumes "reachable reg a cm draws ex" and "sound_setup reg a draws"
  shows "distinct (List.map (position_key \<circ> snd) (pe_positions ex)) \<and>
    pe_open_keys ex = set (List.map (position_key \<circ> snd) (pe_positions ex)) \<and>
    pe_open_keys ex \<inter> fst ` set (pe_arms ex) = {} \<and>
    list_all (\<lambda>(k, p). k = position_id p \<and> is_open p \<and>
       closed_fraction p + remaining_fraction p = 1 \<and> 1 / 10^9 < remaining_fraction p \<and>
       favour p (plan_stop_loss (mp_plan p)) \<le> favour p (current_stop p) \<and>
       (case get_instrument reg (mp_instrument p) of
          Inl e \<Rightarrow> False
        | Inr i \<Rightarrow> 0 < lots p \<and> lots p * sl_cost_per_lot i (planned_loss p) \<le> risk_budget a))
      (pe_positions ex)"
proof -
  have ok: "executor_ok reg a draws ex" by (rule reachable_ok[OF assms])
  then have "pe_open_keys ex \<inter> fst ` set (pe_arms ex) = {}"
    by (auto simp: executor_ok_def arms_ok_def list_all_iff)
  with ok show ?thesis
    by (auto simp: executor_ok_def positions_ok_def live_def position_books_def funded_def guarded_def list_all_iff)
qed

definition demo_account :: account_config where
  "demo_account = \<lparr>account_id = ''demo'', acct_initial_balance = 100000, acct_rules = GENERIC_RULES,
     ctrader_account_id = 0, acct_enabled = True, risk_per_trade_pct = None\<rparr>"

definition demo_ids :: "nat \<Rightarrow> string" where
  "demo_ids n = replicate n CHR ''0''"

definition demo_signal :: cfd_signal where
  "demo_signal = \<lparr>strategy_id = ''s'', variant_id = ''v'', instrument = ''XAUUSD'', sig_direction = LONG,
     entry_mode = CANDLE_CLOSE, sig_entry_price = 2400, sig_plan = demo_plan, sig_ms = 0,
     expiry_candles = 1, sig_reason = ''''\<rparr>"

definition demo_history :: "exec_event list" where
  "demo_history = [Signal demo_signal, Tick ''XAUUSD'' 2405 2406 60000, Candle ''XAUUSD'' 300000,
     Tick ''XAUUSD'' 2389 2390 360000, Day_reset 0 (Some 86400000)]"

lemma demo_setup: "sound_setup gold_registry demo_account demo_ids"
proof -
  have "inj demo_ids"
    by (rule inj_on_inverseI[where g = length]) (simp add: demo_ids_def)
  then show ?thesis
    using gold_registry_wf
    by (simp add: sound_setup_def reset_schedule_ok_def to_risk_guard_config_def demo_account_def GENERIC_RULES_def)
qed

lemma demo_events: "list_all (event_ok gold_registry) demo_history"
  by (simp add: demo_history_def acceptable_def demo_signal_def demo_plan_valid gold_lookup)

lemma demo_reachable:
  "reachable gold_registry demo_account None demo_ids
     (exec_run gold_registry demo_history (new_executor demo_account None demo_ids))"
  by (rule reachable_run[OF reachable.start demo_events])

theorem account_state_safe_witness:
  "pe_open_keys (exec_run gold_registry demo_history (new_executor demo_account None demo_ids)) \<inter>
   fst ` set (pe_arms (exec_run gold_registry demo_history (new_executor demo_account None demo_ids))) = {}"
  using account_state_safe[OF demo_reachable demo_setup] by blast



text \<open>C2: A closed trade never costs more than the risk budget, plus its trading costs: every
  entry of the log whose position was not cut by the time stop has a profit of at least minus
  the budget, however far a tick jumped over the stop, and its net is that profit less the
  cost.\<close>

theorem closed_trade_loss_bounded:
  assumes "reachable reg a cm draws ex" and "sound_setup reg a draws"
  shows "list_all (\<lambda>t. ct_net_usd t = ct_pnl_usd t - ct_cost_usd t \<and>
     (list_ex (\<lambda>pc. pc_reason pc = TIME_STOP) (partial_closes (ct_position t)) \<or>
      - risk_budget a \<le> ct_pnl_usd t)) (pe_log ex)"
  using reachable_ok[OF assms]
  by (auto simp: executor_ok_def log_ok_def trade_ok_def list_all_iff list_ex_iff)

theorem closed_trade_loss_bounded_witness:
  "list_all (\<lambda>t. list_ex (\<lambda>pc. pc_reason pc = TIME_STOP) (partial_closes (ct_position t)) \<or>
      - risk_budget demo_account \<le> ct_pnl_usd t)
    (pe_log (exec_run gold_registry demo_history (new_executor demo_account None demo_ids)))"
  using closed_trade_loss_bounded[OF demo_reachable demo_setup] by (simp add: list_all_iff)

text \<open>C8: The account's ledger adds up: the risk guard's balance is the initial balance plus the
  net results of the logged trades and nothing else, the guard counted exactly those trades,
  and every trade ever opened is either logged or still open.\<close>

theorem account_ledger:
  assumes "reachable reg a cm draws ex" and "sound_setup reg a draws"
  shows "rg_balance (pe_risk ex) = acct_initial_balance a + (\<Sum>t\<leftarrow>pe_log ex. ct_net_usd t) \<and>
    rg_total_trades (pe_risk ex) = length (pe_log ex) \<and> pe_trades_closed ex = length (pe_log ex) \<and>
    pe_trades_opened ex = pe_trades_closed ex + length (open_positions None ex)"
proof -
  have ok: "executor_ok reg a draws ex" by (rule reachable_ok[OF assms])
  then have "filter is_open (List.map snd (pe_positions ex)) = List.map snd (pe_positions ex)"
    by (auto simp: executor_ok_def positions_ok_def live_def list_all_iff filter_id_conv)
  with ok show ?thesis by (simp add: executor_ok_def log_ok_def ledger_ok_def open_positions_def)
qed

theorem account_ledger_witness:
  "pe_trades_closed (exec_run gold_registry demo_history (new_executor demo_account None demo_ids)) =
   length (pe_log (exec_run gold_registry demo_history (new_executor demo_account None demo_ids)))"
  using account_ledger[OF demo_reachable demo_setup] by blast

text \<open>C5: A tick is honoured in full: after it no position of the instrument is left open with
  its managed stop at or beyond the price, and no arm of the instrument is left waiting whose
  trigger the price has reached.\<close>

theorem tick_honours_stops:
  assumes "reachable reg a cm draws ex" and "sound_setup reg a draws" and "0 < bid"
  shows "list_all (\<lambda>(k, p). mp_instrument p \<noteq> inst \<or> \<not> stop_touched p bid bid)
      (pe_positions (fst (pe_on_tick reg inst bid ask ms ex))) \<and>
    list_all (\<lambda>(k, x). instrument (arm_signal x) \<noteq> inst \<or> \<not> trigger_reached (arm_signal x) bid)
      (pe_arms (fst (pe_on_tick reg inst bid ask ms ex)))"
proof -
  let ?ex0 = "ex\<lparr>pe_last_price := (pe_last_price ex)(inst \<mapsto> bid)\<rparr>"
  let ?ex1 = "fst (check_arms reg inst bid ms ?ex0)"
  let ?ex2 = "fst (manage_positions reg inst bid ms ?ex1)"
  have wf: "wf_registry reg" "inj draws" using assms(2) by (simp_all add: sound_setup_def)
  have ok0: "executor_ok reg a draws ?ex0" using reachable_ok[OF assms(1,2)] by simp
  note ok1 = check_arms_ok[OF ok0 wf, of inst bid ms, unfolded keeps_def]
  note ok2 = manage_positions_ok[OF conjunct1[OF ok1] wf(1), of inst bid ms, unfolded keeps_def]
  have tick: "pe_on_tick reg inst bid ask ms ex = update_floating reg ?ex2"
    using assms(3) ok1 ok2 by (simp add: pe_on_tick_def Let_def)
  have "pe_positions (fst (update_floating reg s)) = pe_positions s \<and>
      pe_arms (fst (update_floating reg s)) = pe_arms s" for s
    by (simp add: update_floating_def split: sum.split)
  with manage_positions_effect[OF conjunct1[OF ok1] wf(1), of inst bid ms]
    check_arms_effect[OF ok0 wf, of inst bid ms]
  show ?thesis by (simp add: tick holds_through_def waits_def)
qed

theorem tick_honours_stops_witness:
  "list_all (\<lambda>(k, p). mp_instrument p \<noteq> ''XAUUSD'' \<or> \<not> stop_touched p 2380 2380)
     (pe_positions (fst (pe_on_tick gold_registry ''XAUUSD'' 2380 2381 0
        (exec_run gold_registry [Signal demo_signal] (new_executor demo_account None demo_ids)))))"
proof -
  have "list_all (event_ok gold_registry) [Signal demo_signal]"
    by (simp add: acceptable_def demo_signal_def demo_plan_valid gold_lookup)
  then have "reachable gold_registry demo_account None demo_ids
      (exec_run gold_registry [Signal demo_signal] (new_executor demo_account None demo_ids))"
    by (rule reachable_run[OF reachable.start])
  from tick_honours_stops[OF this demo_setup, of 2380 "''XAUUSD''" 2381 0] show ?thesis by simp
qed


text \<open>C4: The drawdown kill switch: if a tick leaves the account's equity at or below its
  drawdown floor, then whatever signals, ticks, candles, day resets and flattens follow, the
  account never opens another trade.\<close>

theorem drawdown_kill_switch:
  assumes "0 < bid" and "snd (pe_on_tick reg inst bid ask ms ex) = None"
    and "ex1 = fst (pe_on_tick reg inst bid ask ms ex)" and "equity (pe_risk ex1) \<le> rg_floor (pe_risk ex1)"
  shows "rg_status (pe_risk (exec_run reg es ex1)) = MAX_DD_BREACH \<and>
    pe_trades_opened (exec_run reg es ex1) = pe_trades_opened ex1"
proof -
  obtain s where s: "ex1 = fst (update_floating reg s)" "snd (update_floating reg s) = None"
  proof -
    let ?r = "seq (check_arms reg inst bid ms (ex\<lparr>pe_last_price := (pe_last_price ex)(inst \<mapsto> bid)\<rparr>))
        (manage_positions reg inst bid ms)"
    have tick: "pe_on_tick reg inst bid ask ms ex = seq ?r (update_floating reg)"
      using assms(1) by (simp add: pe_on_tick_def Let_def)
    have "snd ?r = None" using assms(2) unfolding tick by (cases "snd ?r") simp_all
    then show thesis using that[of "fst ?r"] assms(2,3) unfolding tick by simp
  qed
  then obtain x where "pe_risk ex1 = update_unrealized_pnl x (pe_risk s)"
    by (auto simp: update_floating_def split: sum.splits)
  then have "breach_recorded (pe_risk ex1)"
    by (simp add: update_unrealized_pnl_def Let_def breach_recorded_check)
  then have "frozen (pe_trades_opened ex1) ex1"
    using assms(4) by (simp add: breach_recorded_def frozen_def)
  from frozen_run[OF this, of reg es] show ?thesis by (simp add: frozen_def)
qed

theorem drawdown_kill_switch_witness:
  "let ex = (new_executor demo_account None demo_ids)
         \<lparr>pe_risk := (pe_risk (new_executor demo_account None demo_ids))\<lparr>rg_balance := 89000\<rparr>\<rparr>;
       ex1 = fst (pe_on_tick gold_registry ''XAUUSD'' 2400 2401 0 ex)
   in pe_trades_opened (exec_run gold_registry demo_history ex1) = pe_trades_opened ex1"
proof -
  let ?ex = "(new_executor demo_account None demo_ids)
         \<lparr>pe_risk := (pe_risk (new_executor demo_account None demo_ids))\<lparr>rg_balance := 89000\<rparr>\<rparr>"
  have t: "pe_on_tick gold_registry ''XAUUSD'' 2400 2401 0 ?ex =
      returns (?ex\<lparr>pe_last_price := [''XAUUSD'' \<mapsto> 2400], pe_risk := update_unrealized_pnl 0 (pe_risk ?ex)\<rparr>)"
    by (simp add: pe_on_tick_def check_arms_def arms_to_fill_def manage_positions_def update_floating_def
        new_executor_def Let_def)
  have "equity (update_unrealized_pnl 0 (pe_risk ?ex)) \<le> rg_floor (update_unrealized_pnl 0 (pe_risk ?ex))"
    by (simp add: equity_def) (simp add: new_executor_def new_guard_def dd_floor_def
        to_risk_guard_config_def demo_account_def GENERIC_RULES_def)
  then have "pe_trades_opened (exec_run gold_registry demo_history
      (fst (pe_on_tick gold_registry ''XAUUSD'' 2400 2401 0 ?ex))) =
    pe_trades_opened (fst (pe_on_tick gold_registry ''XAUUSD'' 2400 2401 0 ?ex))"
    by (intro conjunct2[OF drawdown_kill_switch[where bid = 2400 and ex = ?ex, OF _ _ refl]]) (simp_all add: t)
  then show ?thesis by (simp add: Let_def)
qed

text \<open>C11: A candle-close signal opens a position exactly when the account is enabled, its key has
  neither an open position nor an arm, the risk guard lets the account trade, the sizing
  accepts the stop distance and the guard allows the sized risk. The position opened has the
  signal's entry, plan and direction, the sized lots, a fresh id, and its whole size left.\<close>

theorem candle_signal_opens_iff:
  assumes "get_instrument reg (instrument s) = Inr i" and "wf_registry reg" and "entry_mode s = CANDLE_CLOSE"
    and "calculate_lot_size reg (instrument s) (pe_sizing_balance ex) (pe_risk_pct ex)
           \<bar>sig_entry_price s - sig_stop_loss s\<bar> (Some i) = Inr r"
  shows "let go = (acct_enabled (pe_account ex) \<and> signal_key s \<notin> pe_open_keys ex \<and>
             map_of (pe_arms ex) (signal_key s) = None \<and> fst (can_trade (pe_risk ex)) \<and> \<not> rejected r \<and>
             fst (check_trade_risk (risk_usd r) (check_dd_breach (pe_risk ex))) = Allowed);
             ex1 = fst (on_signal reg s ex)
    in pe_trades_opened ex1 = pe_trades_opened ex + (if go then 1 else 0) \<and>
       pe_positions ex1 = (if go then AList.update (pe_draws ex (pe_drawn ex))
          (new_position (pe_draws ex (pe_drawn ex)) (strategy_id s) (variant_id s) (instrument s)
             (sig_direction s) (sig_entry_price s) (sig_ms s) (lot_size r) (sig_plan s)
             (account_id (pe_account ex))) (pe_positions ex) else pe_positions ex) \<and>
       (go \<longrightarrow> signal_key s \<in> pe_open_keys ex1)"
proof -
  obtain b where b: "can_trade (pe_risk ex) = (b, check_dd_breach (pe_risk ex))"
    using snd_can_trade[of "pe_risk ex"] by (metis prod.collapse)
  obtain v where v: "check_trade_risk (risk_usd r) (check_dd_breach (pe_risk ex)) = (v, check_dd_breach (pe_risk ex))"
    using snd_check_trade_risk[of "risk_usd r" "check_dd_breach (pe_risk ex)"]
    by (metis check_dd_breach_idem prod.collapse)
  show ?thesis
    using assms by (auto simp: on_signal_def Let_def b v fill_def put_position_def new_position_def)
qed

theorem candle_signal_opens_iff_witness:
  "pe_trades_opened (fst (on_signal gold_registry demo_signal (new_executor demo_account None demo_ids))) = 1"
proof -
  let ?ex = "new_executor demo_account None demo_ids"
  have r: "calculate_lot_size gold_registry (instrument demo_signal) (pe_sizing_balance ?ex) (pe_risk_pct ?ex)
      \<bar>sig_entry_price demo_signal - sig_stop_loss demo_signal\<bar> (Some XAUUSD) =
      Inr \<lparr>lot_size = 1, risk_usd = 1000, sz_risk_pct = 1, raw_lots = 1, rejected = False,
        reject_reason = Accepted, sl_pips = 1000, sz_sl_cost_per_lot = 1000\<rparr>"
    using sizing_gold_example lot_size_instrument[OF gold_lookup]
    by (simp add: demo_signal_def new_executor_def demo_account_def effective_risk_per_trade_pct_def
        GENERIC_RULES_def sig_stop_loss_def)
  have i: "get_instrument gold_registry (instrument demo_signal) = Inr XAUUSD"
    by (simp add: demo_signal_def gold_lookup)
  have "entry_mode demo_signal = CANDLE_CLOSE" by (simp add: demo_signal_def)
  from candle_signal_opens_iff[OF i gold_registry_wf this r] show ?thesis
    by (simp add: Let_def new_executor_def new_guard_def can_trade_def check_dd_breach_def equity_def
        dd_floor_def daily_dd_limit_def fresh_day_def check_trade_risk_def daily_dd_remaining_usd_def
        to_risk_guard_config_def demo_account_def GENERIC_RULES_def)
qed

subsection \<open>Flattening forgets what was open\<close>

text \<open>
  \<open>flatten_all\<close> and \<open>flatten_instrument\<close> go straight to \<open>_close_position\<close>, which adds up the
  recorded legs; the remainder they close is not recorded. A position without partial closes is
  booked with a profit of zero, whatever the price.
\<close>

lemma flatten_drops_open_profit:
  assumes "map_of (pe_positions ex) pid = Some p" and "is_open p" and "wanted p" and "partial_closes p = []"
    and "get_instrument reg (mp_instrument p) = Inr i"
  shows "\<exists>t. pe_log (fst (flatten_position reg reason now wanted pid ex)) = pe_log ex @ [t] \<and>
    ct_pnl_usd t = 0 \<and> ct_net_usd t = - model_cost (pe_cost_model ex) i (lots p)"
  using assms
  by (simp add: flatten_position_def Let_def close_position_eq settle_def weighted_pnl_def)


end
