(* ===== verification/Multi_Account.thy ===== *)
theory Multi_Account
  imports Paper_Account
begin

section \<open>Accounts side by side\<close>

text \<open>
  \<open>app/cfd_execution/multi_account.py\<close>: one executor per account, and the fan-out of signals,
  ticks and the other calls to all of them. \<open>on_signal\<close>, \<open>on_tick\<close>,
  \<open>flatten_all_blocking\<close> and \<open>flatten_instrument\<close> catch what an executor raises and go on;
  \<open>on_candle_close\<close>, \<open>on_day_reset\<close> and \<open>flatten_all\<close> do not. The executors here are
  paper executors; the cTrader executor needs the broker.
\<close>

record account_manager =
  am_cost_model :: "cost_model option"
  am_executors :: "(string \<times> paper_executor) list"

definition new_manager :: "cost_model option \<Rightarrow> account_manager" where
  "new_manager cm = \<lparr>am_cost_model = cm, am_executors = []\<rparr>"

definition executor_id :: "paper_executor \<Rightarrow> string" where
  "executor_id ex = account_id (pe_account ex)"

definition add_executor :: "paper_executor \<Rightarrow> account_manager \<Rightarrow> account_manager outcome" where
  "add_executor ex m =
     (if map_of (am_executors m) (executor_id ex) \<noteq> None then raises (ValueError ''already added'') m
      else returns (m\<lparr>am_executors := AList.update (executor_id ex) ex (am_executors m)\<rparr>))"

definition add_account ::
  "account_config \<Rightarrow> (nat \<Rightarrow> string) \<Rightarrow> account_manager \<Rightarrow> account_manager outcome" where
  "add_account acct draws m = add_executor (new_executor acct (am_cost_model m) draws) m"

definition get_executor :: "string \<Rightarrow> account_manager \<Rightarrow> paper_executor result" where
  "get_executor aid m =
     (case map_of (am_executors m) aid of None \<Rightarrow> Inl (KeyError aid) | Some ex \<Rightarrow> Inr ex)"

definition executors :: "account_manager \<Rightarrow> paper_executor list" where
  "executors m = List.map snd (am_executors m)"

definition account_ids :: "account_manager \<Rightarrow> string list" where
  "account_ids m = List.map fst (am_executors m)"

text \<open>
  The two fan-out loops: over the dictionary's values, each call on the executor object itself.
  The guarded one logs an exception and keeps what the executor's call had done.
\<close>

definition fan_out ::
  "(paper_executor \<Rightarrow> paper_executor outcome) \<Rightarrow> account_manager \<Rightarrow> account_manager" where
  "fan_out f m = m\<lparr>am_executors := List.map (\<lambda>(k, ex). (k, fst (f ex))) (am_executors m)\<rparr>"

fun fan_out_loop ::
  "(paper_executor \<Rightarrow> paper_executor outcome) \<Rightarrow> (string \<times> paper_executor) list \<Rightarrow>
   (string \<times> paper_executor) list \<times> py_exn option" where
  "fan_out_loop f [] = ([], None)"
| "fan_out_loop f ((k, ex) # rest) =
     (case snd (f ex) of
        Some e \<Rightarrow> ((k, fst (f ex)) # rest, Some e)
      | None \<Rightarrow> (let (rest', e) = fan_out_loop f rest in ((k, fst (f ex)) # rest', e)))"

definition fan_out_strict ::
  "(paper_executor \<Rightarrow> paper_executor outcome) \<Rightarrow> account_manager \<Rightarrow> account_manager outcome" where
  "fan_out_strict f m =
     (let (exs, e) = fan_out_loop f (am_executors m) in (m\<lparr>am_executors := exs\<rparr>, e))"

definition m_on_signal :: "registry \<Rightarrow> cfd_signal \<Rightarrow> account_manager \<Rightarrow> account_manager" where
  "m_on_signal reg s m = fan_out (on_signal reg s) m"

definition m_on_tick ::
  "registry \<Rightarrow> string \<Rightarrow> pyfloat \<Rightarrow> pyfloat \<Rightarrow> pyfloat \<Rightarrow> account_manager \<Rightarrow> account_manager" where
  "m_on_tick reg inst bid ask ms m = fan_out (pe_on_tick reg inst bid ask ms) m"

definition m_on_candle_close ::
  "registry \<Rightarrow> string \<Rightarrow> pyfloat \<Rightarrow> account_manager \<Rightarrow> account_manager outcome" where
  "m_on_candle_close reg inst ms m = fan_out_strict (on_candle_close reg inst ms) m"

definition m_on_day_reset ::
  "pyfloat \<Rightarrow> pyfloat option \<Rightarrow> account_manager \<Rightarrow> account_manager outcome" where
  "m_on_day_reset clock ms m = fan_out_strict (on_day_reset clock ms) m"

definition m_flatten_all ::
  "registry \<Rightarrow> exit_reason \<Rightarrow> pyfloat \<Rightarrow> account_manager \<Rightarrow> account_manager outcome" where
  "m_flatten_all reg reason now m = fan_out_strict (flatten_all reg reason now) m"

definition m_flatten_all_blocking ::
  "registry \<Rightarrow> exit_reason \<Rightarrow> pyfloat \<Rightarrow> account_manager \<Rightarrow> account_manager" where
  "m_flatten_all_blocking reg reason now m = fan_out (flatten_all reg reason now) m"

text \<open>An executor whose flatten raises adds nothing to the count.\<close>

definition m_flatten_instrument ::
  "registry \<Rightarrow> string \<Rightarrow> exit_reason \<Rightarrow> pyfloat \<Rightarrow> account_manager \<Rightarrow> account_manager \<times> nat" where
  "m_flatten_instrument reg inst reason now m =
     (fan_out (\<lambda>ex. fst (flatten_instrument reg inst reason now ex)) m,
      \<Sum>(k, ex)\<leftarrow>am_executors m. let (r, n) = flatten_instrument reg inst reason now ex
        in if snd r = None then n else 0)"

definition m_open_positions ::
  "string option \<Rightarrow> account_manager \<Rightarrow> (string \<times> managed_position list) list" where
  "m_open_positions inst m = List.map (\<lambda>(k, ex). (k, open_positions inst ex)) (am_executors m)"

subsection \<open>The interface of an executor\<close>

text \<open>
  What the manager relies on: an executor in a good state handles every acceptable event
  without raising and stays in a good state. The state predicate may depend on the account.
\<close>

locale account_executor =
  fixes handle :: "'e \<Rightarrow> paper_executor \<Rightarrow> paper_executor outcome"
    and fine :: "string \<Rightarrow> paper_executor \<Rightarrow> bool"
    and admissible :: "'e \<Rightarrow> bool"
  assumes handle_fine: "fine k ex \<Longrightarrow> admissible e \<Longrightarrow> fine k (fst (handle e ex)) \<and> snd (handle e ex) = None"
begin

definition all_fine :: "account_manager \<Rightarrow> bool" where
  "all_fine m \<longleftrightarrow> list_all (\<lambda>(k, ex). fine k ex) (am_executors m)"

lemma fan_out_fine: "all_fine m \<Longrightarrow> admissible e \<Longrightarrow> all_fine (fan_out (handle e) m)"
  using handle_fine by (auto simp: all_fine_def fan_out_def list_all_iff)

lemma fan_out_loop_fine:
  "list_all (\<lambda>(k, ex). fine k ex) xs \<Longrightarrow> admissible e \<Longrightarrow>
   fan_out_loop (handle e) xs = (List.map (\<lambda>(k, ex). (k, fst (handle e ex))) xs, None)"
  using handle_fine by (induction xs) auto

text \<open>In good states the two loops do the same, and neither raises.\<close>

lemma fan_out_strict_fine:
  "all_fine m \<Longrightarrow> admissible e \<Longrightarrow> fan_out_strict (handle e) m = returns (fan_out (handle e) m)"
  by (simp add: all_fine_def fan_out_strict_def fan_out_def fan_out_loop_fine returns_def)

end

text \<open>The paper executor provides it, with the invariant of its histories.\<close>

definition fine_account ::
  "registry \<Rightarrow> (string \<Rightarrow> account_config) \<Rightarrow> (string \<Rightarrow> nat \<Rightarrow> string) \<Rightarrow> string \<Rightarrow> paper_executor \<Rightarrow> bool" where
  "fine_account reg accts draws k ex \<longleftrightarrow>
     sound_setup reg (accts k) (draws k) \<and> executor_ok reg (accts k) (draws k) ex"

interpretation paper_accounts: account_executor "exec_step reg" "fine_account reg accts draws" "event_ok reg"
  for reg accts draws
  by unfold_locales (use exec_step_ok in \<open>auto simp: fine_account_def keeps_def\<close>)

subsection \<open>The manager's calls\<close>

text \<open>The manager's call for each event, and whether it raised.\<close>

fun manager_step :: "registry \<Rightarrow> exec_event \<Rightarrow> account_manager \<Rightarrow> account_manager outcome" where
  "manager_step reg (Signal s) m = returns (m_on_signal reg s m)"
| "manager_step reg (Tick inst bid ask ms) m = returns (m_on_tick reg inst bid ask ms m)"
| "manager_step reg (Candle inst ms) m = m_on_candle_close reg inst ms m"
| "manager_step reg (Day_reset clock ms) m = m_on_day_reset clock ms m"
| "manager_step reg (Flatten_all reason now) m = m_flatten_all reg reason now m"
| "manager_step reg (Flatten_instrument inst reason now) m =
     returns (fst (m_flatten_instrument reg inst reason now m))"

fun manager_run :: "registry \<Rightarrow> exec_event list \<Rightarrow> account_manager \<Rightarrow> account_manager" where
  "manager_run reg [] m = m"
| "manager_run reg (e # es) m = manager_run reg es (fst (manager_step reg e m))"

lemma exec_step_funs:
  "exec_step reg (Signal s) = on_signal reg s" "exec_step reg (Tick i b k ms) = pe_on_tick reg i b k ms"
  "exec_step reg (Candle i ms) = on_candle_close reg i ms" "exec_step reg (Day_reset c t) = on_day_reset c t"
  "exec_step reg (Flatten_all r now) = flatten_all reg r now"
  "exec_step reg (Flatten_instrument i r now) = (\<lambda>ex. fst (flatten_instrument reg i r now ex))"
  by (simp_all add: fun_eq_iff)

lemma manager_step_fine:
  assumes "paper_accounts.all_fine reg accts draws m" and "event_ok reg e"
  shows "manager_step reg e m = returns (fan_out (exec_step reg e) m)"
  using assms paper_accounts.fan_out_strict_fine[OF assms]
  by (cases e) (simp_all add: exec_step_funs m_on_signal_def m_on_tick_def m_on_candle_close_def
      m_on_day_reset_def m_flatten_all_def m_flatten_instrument_def)

lemma map_of_fan_out:
  "map_of (List.map (\<lambda>(k, ex). (k, f ex)) xs) aid = map_option f (map_of xs aid)"
  by (induction xs) auto

lemma manager_run_account:
  assumes "paper_accounts.all_fine reg accts draws m" and "list_all (event_ok reg) es"
  shows "paper_accounts.all_fine reg accts draws (manager_run reg es m) \<and>
    map_of (am_executors (manager_run reg es m)) aid = map_option (exec_run reg es) (map_of (am_executors m) aid)"
  using assms
proof (induction es arbitrary: m)
  case Nil
  then show ?case by (cases "map_of (am_executors m) aid") simp_all
next
  case (Cons e es)
  have e: "event_ok reg e" "list_all (event_ok reg) es" using Cons.prems(2) by simp_all
  have step: "fst (manager_step reg e m) = fan_out (exec_step reg e) m"
    using manager_step_fine[OF Cons.prems(1) e(1)] by simp
  show ?case
    using Cons.IH[OF paper_accounts.fan_out_fine[OF Cons.prems(1) e(1)] e(2)]
    by (cases "map_of (am_executors m) aid") (simp_all add: step fan_out_def map_of_fan_out)
qed

lemma manager_run_ids:
  assumes "paper_accounts.all_fine reg accts draws m" and "list_all (event_ok reg) es"
  shows "account_ids (manager_run reg es m) = account_ids m"
  using assms
proof (induction es arbitrary: m)
  case Nil
  then show ?case by simp
next
  case (Cons e es)
  then have e: "event_ok reg e" by simp
  have "account_ids (fan_out (exec_step reg e) m) = account_ids m"
    by (simp add: account_ids_def fan_out_def case_prod_beta comp_def)
  then show ?case
    using Cons.IH[OF paper_accounts.fan_out_fine[OF Cons.prems(1) e]] Cons.prems
    by (simp add: manager_step_fine[OF Cons.prems(1) e])
qed

fun add_accounts :: "(account_config \<times> (nat \<Rightarrow> string)) list \<Rightarrow> account_manager \<Rightarrow> account_manager outcome" where
  "add_accounts [] m = returns m"
| "add_accounts ((a, d) # rest) m = seq (add_account a d m) (add_accounts rest)"

lemma add_account_ok:
  assumes "snd (add_account a d m) = None"
  shows "account_id a \<notin> fst ` set (am_executors m)" and
    "fst (add_account a d m) = m\<lparr>am_executors := am_executors m @ [(account_id a, new_executor a (am_cost_model m) d)]\<rparr>"
  using assms
  by (auto simp: add_account_def add_executor_def executor_id_def new_executor_def map_of_eq_None_iff
      update_new split: if_splits)

lemma add_accounts_ok:
  assumes "snd (add_accounts ads m) = None"
  shows "fst (add_accounts ads m) = m\<lparr>am_executors := am_executors m @
      List.map (\<lambda>(a, d). (account_id a, new_executor a (am_cost_model m) d)) ads\<rparr> \<and>
    (distinct (List.map fst (am_executors m)) \<longrightarrow>
       distinct (List.map fst (am_executors (fst (add_accounts ads m)))))"
  using assms
proof (induction ads arbitrary: m)
  case Nil
  then show ?case by simp
next
  case (Cons ad ads)
  obtain a d where ad: "ad = (a, d)" by fastforce
  have none: "snd (add_account a d m) = None"
    using Cons.prems by (cases "snd (add_account a d m)") (simp_all add: ad)
  note one = add_account_ok[OF none]
  have rest: "snd (add_accounts ads (fst (add_account a d m))) = None"
    using Cons.prems none by (simp add: ad)
  have dist: "distinct (List.map fst (am_executors m)) \<Longrightarrow>
      distinct (List.map fst (am_executors (fst (add_account a d m))))"
    using one by simp
  note ih = Cons.IH[OF rest]
  have eq: "fst (add_accounts (ad # ads) m) = fst (add_accounts ads (fst (add_account a d m)))"
    by (simp add: ad none)
  show ?case
  proof (intro conjI impI)
    show "fst (add_accounts (ad # ads) m) = m\<lparr>am_executors := am_executors m @
        List.map (\<lambda>(a, d). (account_id a, new_executor a (am_cost_model m) d)) (ad # ads)\<rparr>"
      unfolding eq conjunct1[OF ih] by (simp add: one(2) ad)
    assume "distinct (List.map fst (am_executors m))"
    then show "distinct (List.map fst (am_executors (fst (add_accounts (ad # ads) m))))"
      unfolding eq using conjunct2[OF ih] dist by blast
  qed
qed



text \<open>
  One account's exception never reaches another: the guarded calls apply to every account
  whatever the others raised. The unguarded ones stop at the first account that raises.
\<close>

lemma guarded_calls_reach_every_account:
  "map_of (am_executors (m_on_signal reg s m)) aid = map_option (\<lambda>ex. fst (on_signal reg s ex)) (map_of (am_executors m) aid)"
  "map_of (am_executors (m_on_tick reg inst bid ask ms m)) aid =
     map_option (\<lambda>ex. fst (pe_on_tick reg inst bid ask ms ex)) (map_of (am_executors m) aid)"
  by (simp_all add: m_on_signal_def m_on_tick_def fan_out_def map_of_fan_out)

lemma unguarded_call_stops:
  "snd (f ex) = Some e \<Longrightarrow>
   fan_out_loop f ((k, ex) # rest) = ((k, fst (f ex)) # rest, Some e)"
  by simp


end
