(* ===== verification/Indicators.thy ===== *)
theory Indicators
  imports Core_Models
begin

section \<open>Technical indicators\<close>

text \<open>
  \<open>app/strategy/indicators.py\<close>: pure functions of closes and candles. Periods are natural
  numbers; \<open>None\<close> for too little data is \<open>Inr None\<close>, and a period of zero, which passes the
  length tests, ends in the division by the period. The loops that carry a value through the
  rest of a list are \<open>foldl\<close> over the same list.
\<close>

subsection \<open>Averages\<close>

definition mean_of :: "nat \<Rightarrow> pyfloat list \<Rightarrow> pyfloat" where
  "mean_of period xs = sum_list xs / of_nat period"

definition sma :: "pyfloat list \<Rightarrow> nat \<Rightarrow> pyfloat option result" where
  "sma values period =
     (if length values < period then Inr None
      else if period = 0 then Inl ZeroDivisionError
      else Inr (Some (mean_of period (take_last period values))))"

definition ema_step :: "nat \<Rightarrow> pyfloat \<Rightarrow> pyfloat \<Rightarrow> pyfloat" where
  "ema_step period ema_val price =
     (let k = 2 / (of_nat period + 1) in price * k + ema_val * (1 - k))"

definition ema :: "pyfloat list \<Rightarrow> nat \<Rightarrow> pyfloat option result" where
  "ema values period =
     (if length values < period then Inr None
      else if period = 0 then Inl ZeroDivisionError
      else Inr (Some (foldl (ema_step period) (mean_of period (take period values)) (drop period values))))"

text \<open>The values a carried variable takes, from its seed on.\<close>

fun carried :: "('a \<Rightarrow> 'b \<Rightarrow> 'a) \<Rightarrow> 'a \<Rightarrow> 'b list \<Rightarrow> 'a list" where
  "carried f s [] = [s]"
| "carried f s (x # xs) = s # carried f (f s x) xs"

definition ema_series :: "pyfloat list \<Rightarrow> nat \<Rightarrow> pyfloat list result" where
  "ema_series values period =
     (if length values < period then Inr []
      else if period = 0 then Inl ZeroDivisionError
      else Inr (replicate (period - 1) 0 @
        carried (ema_step period) (mean_of period (take period values)) (drop period values)))"

subsection \<open>Wilder's smoothing: RSI and ATR\<close>

definition wilder :: "nat \<Rightarrow> pyfloat \<Rightarrow> pyfloat \<Rightarrow> pyfloat" where
  "wilder period avg x = (avg * (of_nat period - 1) + x) / of_nat period"

fun changes :: "pyfloat list \<Rightarrow> pyfloat list" where
  "changes (x # y # xs) = (y - x) # changes (y # xs)"
| "changes _ = []"

definition gain :: "pyfloat \<Rightarrow> pyfloat" where
  "gain c = max c 0"

definition loss :: "pyfloat \<Rightarrow> pyfloat" where
  "loss c = \<bar>min c 0\<bar>"

definition rsi :: "pyfloat list \<Rightarrow> nat \<Rightarrow> pyfloat option result" where
  "rsi closes period =
     (if length closes < period + 1 then Inr None
      else if period = 0 then Inl ZeroDivisionError
      else
        let cs = changes closes;
            avg_gain = foldl (\<lambda>a c. wilder period a (gain c)) (mean_of period (List.map gain (take period cs))) (drop period cs);
            avg_loss = foldl (\<lambda>a c. wilder period a (loss c)) (mean_of period (List.map loss (take period cs))) (drop period cs)
        in if avg_loss = 0 then Inr (Some 100)
           else
             let rs = avg_gain / avg_loss in
             if 1 + rs = 0 then Inl ZeroDivisionError
             else Inr (Some (100 - 100 / (1 + rs))))"

definition true_range :: "candle \<Rightarrow> candle \<Rightarrow> pyfloat" where
  "true_range prev c =
     max (max (c_high c - c_low c) \<bar>c_high c - c_close prev\<bar>) \<bar>c_low c - c_close prev\<bar>"

fun true_ranges :: "candle list \<Rightarrow> pyfloat list" where
  "true_ranges (p # c # cs) = true_range p c # true_ranges (c # cs)"
| "true_ranges _ = []"

definition atr :: "candle list \<Rightarrow> nat \<Rightarrow> pyfloat option result" where
  "atr candles period =
     (if length candles < period + 1 then Inr None
      else if period = 0 then Inl ZeroDivisionError
      else
        let trs = true_ranges candles
        in Inr (Some (foldl (wilder period) (mean_of period (take period trs)) (drop period trs))))"

definition atr_series :: "candle list \<Rightarrow> nat \<Rightarrow> pyfloat list result" where
  "atr_series candles period =
     (if length candles < period + 1 then Inr []
      else if period = 0 then Inl ZeroDivisionError
      else
        let trs = true_ranges candles
        in Inr (replicate period 0 @ carried (wilder period) (mean_of period (take period trs)) (drop period trs)))"

definition vwap :: "candle list \<Rightarrow> pyfloat option" where
  "vwap candles =
     (let (tp_vol, vol) = foldl (\<lambda>(a, v) c. (a + (c_high c + c_low c + c_close c) / 3 * of_int (c_volume c), v + c_volume c))
            (0, 0) candles
      in if vol = 0 then None else Some (tp_vol / of_int vol))"

subsection \<open>ADX\<close>

definition plus_dm :: "candle \<Rightarrow> candle \<Rightarrow> pyfloat" where
  "plus_dm prev c =
     (let up_move = c_high c - c_high prev; down_move = c_low prev - c_low c in
      if up_move > down_move \<and> up_move > 0 then up_move else 0)"

definition minus_dm :: "candle \<Rightarrow> candle \<Rightarrow> pyfloat" where
  "minus_dm prev c =
     (let up_move = c_high c - c_high prev; down_move = c_low prev - c_low c in
      if down_move > up_move \<and> down_move > 0 then down_move else 0)"

definition pairwise :: "(candle \<Rightarrow> candle \<Rightarrow> pyfloat) \<Rightarrow> candle list \<Rightarrow> pyfloat list" where
  "pairwise f candles = map2 f (butlast candles) (tl candles)"

definition wilder_smooth :: "pyfloat list \<Rightarrow> nat \<Rightarrow> pyfloat list" where
  "wilder_smooth values p =
     (if length values < p then []
      else carried (\<lambda>s v. s - s / of_nat p + v) (sum_list (take p values)) (drop p values))"

definition dx_of :: "pyfloat \<Rightarrow> pyfloat \<Rightarrow> pyfloat \<Rightarrow> pyfloat" where
  "dx_of str sp sm =
     (let plus_di = 100 * sp / str; minus_di = 100 * sm / str; di_sum = plus_di + minus_di
      in if di_sum = 0 then 0 else 100 * \<bar>plus_di - minus_di\<bar> / di_sum)"

fun dx_list :: "pyfloat list \<Rightarrow> pyfloat list \<Rightarrow> pyfloat list \<Rightarrow> pyfloat list" where
  "dx_list (str # trs) (sp # sps) (sm # sms) =
     (if str = 0 then dx_list trs sps sms else dx_of str sp sm # dx_list trs sps sms)"
| "dx_list _ _ _ = []"

definition adx :: "candle list \<Rightarrow> nat \<Rightarrow> pyfloat option result" where
  "adx candles period =
     (if length candles < 2 * period + 1 then Inr None
      else if period = 0 then Inl ZeroDivisionError
      else
        let smooth_tr = wilder_smooth (true_ranges candles) period;
            smooth_plus = wilder_smooth (pairwise plus_dm candles) period;
            smooth_minus = wilder_smooth (pairwise minus_dm candles) period
        in if smooth_tr = [] \<or> smooth_plus = [] \<or> smooth_minus = [] then Inr None
           else
             let dxs = dx_list smooth_tr smooth_plus smooth_minus in
             if length dxs < period then Inr None
             else Inr (Some (foldl (wilder period) (mean_of period (take period dxs)) (drop period dxs))))"

subsection \<open>Bands and channels\<close>

definition bollinger_bands :: "candle list \<Rightarrow> nat \<Rightarrow> pyfloat \<Rightarrow> (pyfloat \<times> pyfloat \<times> pyfloat) option result" where
  "bollinger_bands candles period std_dev =
     (if length candles < period then Inr None
      else if period = 0 then Inl ZeroDivisionError
      else
        let closes = List.map c_close (take_last period candles);
            middle = mean_of period closes;
            variance = mean_of period (List.map (\<lambda>c. (c - middle) ^ 2) closes);
            std = sqrt variance
        in Inr (Some (middle + std_dev * std, middle, middle - std_dev * std)))"

definition bb_width :: "candle list \<Rightarrow> nat \<Rightarrow> pyfloat \<Rightarrow> pyfloat option result" where
  "bb_width candles period std_dev =
     (case bollinger_bands candles period std_dev of
        Inl e \<Rightarrow> Inl e
      | Inr None \<Rightarrow> Inr None
      | Inr (Some (upper, middle, lower)) \<Rightarrow>
          if middle = 0 then Inr None else Inr (Some ((upper - lower) / middle)))"

fun widths_upto :: "candle list \<Rightarrow> nat \<Rightarrow> pyfloat \<Rightarrow> nat list \<Rightarrow> pyfloat list result" where
  "widths_upto candles period std_dev [] = Inr []"
| "widths_upto candles period std_dev (end_idx # rest) =
     (case bb_width (take end_idx candles) period std_dev of
        Inl e \<Rightarrow> Inl e
      | Inr w \<Rightarrow>
          (case widths_upto candles period std_dev rest of
             Inl e \<Rightarrow> Inl e
           | Inr ws \<Rightarrow> Inr ((case w of None \<Rightarrow> 0 | Some x \<Rightarrow> x) # ws)))"

definition bb_width_series :: "candle list \<Rightarrow> nat \<Rightarrow> pyfloat \<Rightarrow> nat \<Rightarrow> pyfloat list result" where
  "bb_width_series candles period std_dev lookback =
     (if length candles < period + lookback then Inr []
      else widths_upto candles period std_dev
        (List.map (\<lambda>i. length candles - lookback + i + 1) [0..<lookback]))"

definition keltner_channels ::
  "candle list \<Rightarrow> nat \<Rightarrow> nat \<Rightarrow> pyfloat \<Rightarrow> (pyfloat \<times> pyfloat \<times> pyfloat) option result" where
  "keltner_channels candles ema_period atr_period multiplier =
     (if length candles < max ema_period (atr_period + 1) then Inr None
      else case ema (List.map c_close candles) ema_period of
             Inl e \<Rightarrow> Inl e
           | Inr None \<Rightarrow> Inr None
           | Inr (Some middle) \<Rightarrow>
               (case atr candles atr_period of
                  Inl e \<Rightarrow> Inl e
                | Inr None \<Rightarrow> Inr None
                | Inr (Some a) \<Rightarrow> Inr (Some (middle + multiplier * a, middle, middle - multiplier * a))))"

definition is_squeeze ::
  "candle list \<Rightarrow> nat \<Rightarrow> pyfloat \<Rightarrow> nat \<Rightarrow> nat \<Rightarrow> pyfloat \<Rightarrow> bool option result" where
  "is_squeeze candles bb_period bb_std kc_ema_period kc_atr_period kc_multiplier =
     (case bollinger_bands candles bb_period bb_std of
        Inl e \<Rightarrow> Inl e
      | Inr bb \<Rightarrow>
          (case keltner_channels candles kc_ema_period kc_atr_period kc_multiplier of
             Inl e \<Rightarrow> Inl e
           | Inr kc \<Rightarrow>
               (case (bb, kc) of
                  (Some (bb_upper, _, bb_lower), Some (kc_upper, _, kc_lower)) \<Rightarrow>
                    Inr (Some (bb_upper < kc_upper \<and> bb_lower > kc_lower))
                | _ \<Rightarrow> Inr None)))"

subsection \<open>SuperTrend\<close>

text \<open>
  The state the loop carries from bar to bar: the bands, the direction, the value, and the
  close it compares the next bar's bands with.
\<close>

record st_state =
  st_upper :: pyfloat
  st_lower :: pyfloat
  st_up :: bool
  st_value :: pyfloat
  st_close :: pyfloat

definition st_start :: "pyfloat \<Rightarrow> candle \<Rightarrow> pyfloat \<Rightarrow> st_state" where
  "st_start multiplier c atr_val =
     (let hl2 = (c_high c + c_low c) / 2;
          upper = hl2 + multiplier * atr_val; lower = hl2 - multiplier * atr_val;
          up = (c_close c > upper)
      in \<lparr>st_upper = upper, st_lower = lower, st_up = up,
          st_value = (if up then lower else upper), st_close = c_close c\<rparr>)"

definition st_step :: "pyfloat \<Rightarrow> st_state \<Rightarrow> candle \<times> pyfloat \<Rightarrow> st_state" where
  "st_step multiplier s = (\<lambda>(c, atr_val).
     (let hl2 = (c_high c + c_low c) / 2;
          basic_upper = hl2 + multiplier * atr_val; basic_lower = hl2 - multiplier * atr_val;
          upper = (if st_close s \<le> st_upper s then min basic_upper (st_upper s) else basic_upper);
          lower = (if st_close s \<ge> st_lower s then max basic_lower (st_lower s) else basic_lower);
          up = (if st_up s then c_close c \<ge> lower else c_close c > upper)
      in \<lparr>st_upper = upper, st_lower = lower, st_up = up,
          st_value = (if up then lower else upper), st_close = c_close c\<rparr>))"

text \<open>The states from the first bar with an ATR on; both functions run the same loop.\<close>

definition st_states :: "candle list \<Rightarrow> nat \<Rightarrow> pyfloat \<Rightarrow> pyfloat list \<Rightarrow> st_state list" where
  "st_states candles atr_period multiplier atr_vals =
     (case drop atr_period (zip candles atr_vals) of
        [] \<Rightarrow> []
      | (c, a) # rest \<Rightarrow> carried (st_step multiplier) (st_start multiplier c a) rest)"

definition supertrend :: "candle list \<Rightarrow> nat \<Rightarrow> pyfloat \<Rightarrow> (pyfloat \<times> bool) option result" where
  "supertrend candles atr_period multiplier =
     (if length candles < atr_period + 2 then Inr None
      else case atr_series candles atr_period of
             Inl e \<Rightarrow> Inl e
           | Inr atr_vals \<Rightarrow>
               if atr_vals = [] \<or> length atr_vals \<noteq> length candles then Inr None
               else
                 let s = last (st_states candles atr_period multiplier atr_vals)
                 in Inr (Some (st_value s, st_up s)))"

definition supertrend_with_prev ::
  "candle list \<Rightarrow> nat \<Rightarrow> pyfloat \<Rightarrow> (pyfloat \<times> bool \<times> pyfloat \<times> bool) option result" where
  "supertrend_with_prev candles atr_period multiplier =
     (if length candles < atr_period + 3 then Inr None
      else case atr_series candles atr_period of
             Inl e \<Rightarrow> Inl e
           | Inr atr_vals \<Rightarrow>
               if atr_vals = [] \<or> length atr_vals \<noteq> length candles then Inr None
               else
                 let ss = st_states candles atr_period multiplier atr_vals; s = last ss;
                     p = last (butlast ss)
                 in Inr (Some (st_value s, st_up s, st_value p, st_up p)))"

subsection \<open>Bounds kept by the carried loops\<close>

lemma mean_of_ge:
  assumes "list_all (\<lambda>x. lo \<le> x) xs" and "length xs = n" and "0 < n"
  shows "lo \<le> mean_of n xs"
proof -
  have "of_nat (length xs) * lo \<le> sum_list xs"
    using assms(1) by (induction xs) (auto simp: distrib_right)
  then show ?thesis using assms(2,3) by (simp add: mean_of_def pos_le_divide_eq mult.commute)
qed

lemma mean_of_le:
  assumes "list_all (\<lambda>x. x \<le> hi) xs" and "length xs = n" and "0 < n"
  shows "mean_of n xs \<le> hi"
proof -
  have "sum_list xs \<le> of_nat (length xs) * hi"
    using assms(1) by (induction xs) (auto simp: distrib_right)
  then show ?thesis using assms(2,3) by (simp add: mean_of_def pos_divide_le_eq mult.commute)
qed

lemma foldl_invariant:
  "P s \<Longrightarrow> (\<And>a x. x \<in> set xs \<Longrightarrow> P a \<Longrightarrow> P (f a x)) \<Longrightarrow> P (foldl f s xs)"
  by (induction xs arbitrary: s) auto

lemma weighted_between:
  fixes a b k :: real
  assumes "0 \<le> k" and "k \<le> 1" and "lo \<le> a" "a \<le> hi" and "lo \<le> b" "b \<le> hi"
  shows "lo \<le> a * k + b * (1 - k) \<and> a * k + b * (1 - k) \<le> hi"
proof -
  have "lo * k + lo * (1 - k) \<le> a * k + b * (1 - k)" "a * k + b * (1 - k) \<le> hi * k + hi * (1 - k)"
    using assms by (auto intro!: add_mono mult_right_mono)
  then show ?thesis by (simp add: algebra_simps)
qed

lemma ema_step_between:
  assumes "0 < period" and "lo \<le> e" "e \<le> hi" and "lo \<le> x" "x \<le> hi"
  shows "lo \<le> ema_step period e x \<and> ema_step period e x \<le> hi"
  using weighted_between[of "2 / (of_nat period + 1)" lo x hi e] assms by (simp add: ema_step_def Let_def)

lemma wilder_weighted:
  assumes "0 < period"
  shows "wilder period a x = x * (1 / of_nat period) + a * (1 - 1 / of_nat period)"
  using assms by (simp add: wilder_def field_simps)

lemma wilder_between:
  assumes "0 < period" and "lo \<le> a" "a \<le> hi" and "lo \<le> x" "x \<le> hi"
  shows "lo \<le> wilder period a x \<and> wilder period a x \<le> hi"
  unfolding wilder_weighted[OF assms(1)]
  by (rule weighted_between) (use assms in simp_all)

lemma wilder_nonneg: "0 < period \<Longrightarrow> 0 \<le> a \<Longrightarrow> 0 \<le> x \<Longrightarrow> 0 \<le> wilder period a x"
  by (simp add: wilder_def divide_nonneg_nonneg)

lemma smoothed_nonneg:
  assumes "0 < period" and "period \<le> length xs" and "list_all (\<lambda>x. 0 \<le> x) xs"
  shows "0 \<le> foldl (wilder period) (mean_of period (take period xs)) (drop period xs)"
proof (rule foldl_invariant)
  have "list_all (\<lambda>x. 0 \<le> x) (take period xs)" using assms(3) by (auto simp: list_all_iff dest: in_set_takeD)
  then show "0 \<le> mean_of period (take period xs)" using assms(1,2) by (intro mean_of_ge) auto
next
  fix a x :: real assume "x \<in> set (drop period xs)" and "0 \<le> a"
  then show "0 \<le> wilder period a x" using assms(1,3) by (auto simp: list_all_iff intro!: wilder_nonneg dest: in_set_dropD)
qed

lemma smoothed_le:
  assumes "0 < period" and "period \<le> length xs" and "list_all (\<lambda>x. 0 \<le> x \<and> x \<le> hi) xs"
  shows "foldl (wilder period) (mean_of period (take period xs)) (drop period xs) \<le> hi"
proof -
  let ?P = "\<lambda>a. 0 \<le> a \<and> a \<le> hi"
  have "?P (foldl (wilder period) (mean_of period (take period xs)) (drop period xs))"
  proof (rule foldl_invariant[where P = ?P])
    have "list_all (\<lambda>x. 0 \<le> x) (take period xs)" "list_all (\<lambda>x. x \<le> hi) (take period xs)"
      using assms(3) by (auto simp: list_all_iff dest: in_set_takeD)
    then show "?P (mean_of period (take period xs))"
      using assms(1,2) by (auto intro!: mean_of_ge mean_of_le)
  next
    fix a x :: real assume "x \<in> set (drop period xs)" and "?P a"
    then show "?P (wilder period a x)"
      using assms(1,3) wilder_between[of period 0 a hi x] by (auto simp: list_all_iff dest: in_set_dropD)
  qed
  then show ?thesis by simp
qed

lemma length_changes [simp]: "length (changes xs) = length xs - 1"
  by (induction xs rule: changes.induct) auto

lemma length_true_ranges [simp]: "length (true_ranges cs) = length cs - 1"
  by (induction cs rule: true_ranges.induct) auto

lemma true_ranges_nonneg: "list_all (\<lambda>x. 0 \<le> x) (true_ranges cs)"
  by (induction cs rule: true_ranges.induct) (auto simp: true_range_def)

lemma carried_last [simp]: "last (carried f s xs) = foldl f s xs"
proof (induction xs arbitrary: s)
  case Nil
  then show ?case by simp
next
  case (Cons x xs)
  have "carried f (f s x) xs \<noteq> []" by (cases xs) simp_all
  then show ?case using Cons by simp
qed

lemma length_carried [simp]: "length (carried f s xs) = Suc (length xs)"
  by (induction xs arbitrary: s) auto

lemma carried_not_Nil [simp]: "carried f s xs \<noteq> []"
  by (cases xs) simp_all

subsection \<open>What the indicators compute\<close>

text \<open>The RSI is a number between 0 and 100 whenever there is enough data, \<open>None\<close>
  exactly when there is not, and never divides by zero but for a period of zero; it is 100
  when no close ever fell.\<close>

theorem rsi_in_range:
  "case rsi closes period of
     Inl e \<Rightarrow> period = 0 \<and> closes \<noteq> []
   | Inr None \<Rightarrow> length closes \<le> period
   | Inr (Some r) \<Rightarrow> 0 \<le> r \<and> r \<le> 100 \<and> (list_all (\<lambda>c. c \<ge> 0) (changes closes) \<longrightarrow> r = 100)"
proof (cases "length closes < period + 1 \<or> period = 0")
  case True
  then show ?thesis by (auto simp: rsi_def)
next
  case False
  let ?cs = "changes closes"
  let ?avg = "\<lambda>f. foldl (\<lambda>a c. wilder period a (f c)) (mean_of period (List.map f (take period ?cs))) (drop period ?cs)"
  have shape: "?avg f = foldl (wilder period) (mean_of period (take period (List.map f ?cs))) (drop period (List.map f ?cs))"
    for f by (simp add: foldl_map take_map drop_map)
  have len: "period \<le> length (List.map f ?cs)" for f :: "real \<Rightarrow> real" using False by auto
  have g: "0 \<le> ?avg gain" unfolding shape
    by (rule smoothed_nonneg[OF _ len]) (use False in \<open>auto simp: list_all_iff gain_def\<close>)
  have l: "0 \<le> ?avg loss" unfolding shape
    by (rule smoothed_nonneg[OF _ len]) (use False in \<open>auto simp: list_all_iff loss_def\<close>)
  have up: "?avg loss = 0" if "list_all (\<lambda>c. c \<ge> 0) ?cs"
  proof -
    have "?avg loss \<le> 0" unfolding shape
      by (rule smoothed_le[OF _ len]) (use False that in \<open>auto simp: list_all_iff loss_def\<close>)
    then show ?thesis using l by simp
  qed
  show ?thesis
  proof (cases "?avg loss = 0")
    case True
    then show ?thesis using False by (simp add: rsi_def Let_def)
  next
    case loss: False
    then have rs: "0 \<le> ?avg gain / ?avg loss" using g l by simp
    then have "0 \<le> 100 / (1 + ?avg gain / ?avg loss)" "100 / (1 + ?avg gain / ?avg loss) \<le> 100"
      by (simp_all add: divide_le_eq)
    moreover have "rsi closes period = Inr (Some (100 - 100 / (1 + ?avg gain / ?avg loss)))"
      using False loss rs by (simp add: rsi_def Let_def)
    ultimately show ?thesis using up loss by auto
  qed
qed

theorem rsi_in_range_witness:
  "case rsi [1, 2, 3] 2 of Inl e \<Rightarrow> False | Inr None \<Rightarrow> False | Inr (Some r) \<Rightarrow> r = 100"
  using rsi_in_range[of 2 "[1, 2, 3]"] by (auto split: sum.splits option.splits)

text \<open>The moving averages are averages: the EMA lies between any bounds on the values it
  is fed, so does the SMA, and the ATR is never negative.\<close>

theorem averages_between:
  assumes "list_all (\<lambda>x. lo \<le> x \<and> x \<le> hi) values"
  shows "(case ema values period of Inr (Some e) \<Rightarrow> lo \<le> e \<and> e \<le> hi | _ \<Rightarrow> period = 0 \<or> length values < period) \<and>
    (case sma values period of Inr (Some e) \<Rightarrow> lo \<le> e \<and> e \<le> hi | _ \<Rightarrow> period = 0 \<or> length values < period) \<and>
    (case atr candles n of Inr (Some a) \<Rightarrow> 0 \<le> a | _ \<Rightarrow> n = 0 \<or> length candles \<le> n)"
proof (intro conjI)
  have bounds: "list_all (\<lambda>x. lo \<le> x) xs" "list_all (\<lambda>x. x \<le> hi) xs" if "set xs \<subseteq> set values" for xs
    using assms that by (auto simp: list_all_iff)
  show "case ema values period of Inr (Some e) \<Rightarrow> lo \<le> e \<and> e \<le> hi | _ \<Rightarrow> period = 0 \<or> length values < period"
  proof (cases "period = 0 \<or> length values < period")
    case False
    let ?P = "\<lambda>e. lo \<le> e \<and> e \<le> hi"
    have "?P (foldl (ema_step period) (mean_of period (take period values)) (drop period values))"
    proof (rule foldl_invariant[where P = ?P])
      show "?P (mean_of period (take period values))"
        using False bounds[OF set_take_subset] by (auto intro!: mean_of_ge mean_of_le)
      fix a x :: real assume "x \<in> set (drop period values)" and "?P a"
      then show "?P (ema_step period a x)"
        using False assms by (intro ema_step_between) (auto simp: list_all_iff dest: in_set_dropD)
    qed
    then show ?thesis using False by (simp add: ema_def)
  qed (auto simp: ema_def)
  show "case sma values period of Inr (Some e) \<Rightarrow> lo \<le> e \<and> e \<le> hi | _ \<Rightarrow> period = 0 \<or> length values < period"
    using bounds[OF set_take_last_subset[of period "values"]]
    by (auto simp: sma_def intro!: mean_of_ge mean_of_le)
  show "case atr candles n of Inr (Some a) \<Rightarrow> 0 \<le> a | _ \<Rightarrow> n = 0 \<or> length candles \<le> n"
    using smoothed_nonneg[of n "true_ranges candles"] true_ranges_nonneg
    by (auto simp: atr_def Let_def)
qed

theorem averages_between_witness:
  "case ema [1, 2, 3, 4] 2 of Inl e \<Rightarrow> False | Inr None \<Rightarrow> False | Inr (Some e) \<Rightarrow> 1 \<le> e \<and> e \<le> 4"
proof -
  have "list_all (\<lambda>x. 1 \<le> x \<and> x \<le> 4) [1, 2, 3, 4 :: real]" by simp
  from averages_between[OF this, of 2 0 "[]"] show ?thesis by (simp split: sum.splits option.splits)
qed

text \<open>The series agree with the single values: \<open>ema_series\<close> and \<open>atr_series\<close> have one
  entry per input, and their last entry is what \<open>ema\<close> and \<open>atr\<close> return.\<close>

theorem series_agree:
  "(case ema_series values period of
      Inl e \<Rightarrow> ema values period = Inl e
    | Inr es \<Rightarrow> if length values < period then es = [] \<and> ema values period = Inr None
        else length es = length values \<and> ema values period = Inr (Some (last es))) \<and>
   (case atr_series candles n of
      Inl e \<Rightarrow> atr candles n = Inl e
    | Inr as \<Rightarrow> if length candles \<le> n then as = [] \<and> atr candles n = Inr None
        else length as = length candles \<and> atr candles n = Inr (Some (last as)))"
  by (auto simp: ema_series_def ema_def atr_series_def atr_def Let_def)


lemma carried_invariant:
  "P s \<Longrightarrow> (\<And>a x. x \<in> set xs \<Longrightarrow> P a \<Longrightarrow> P (f a x)) \<Longrightarrow> list_all P (carried f s xs)"
  by (induction xs arbitrary: s) auto

lemma wilder_smooth_nonneg:
  assumes "0 < p" and "list_all (\<lambda>x. 0 \<le> x) xs"
  shows "list_all (\<lambda>x. 0 \<le> x) (wilder_smooth xs p)"
proof (cases "length xs < p")
  case False
  have "list_all (\<lambda>x. 0 \<le> x) (carried (\<lambda>s v. s - s / of_nat p + v) (sum_list (take p xs)) (drop p xs))"
  proof (rule carried_invariant)
    show "0 \<le> sum_list (take p xs)"
      using assms(2) by (auto intro!: sum_list_nonneg simp: list_all_iff dest: in_set_takeD)
    fix a x :: real assume "x \<in> set (drop p xs)" and "0 \<le> a"
    moreover have "a / of_nat p \<le> a" using \<open>0 \<le> a\<close> assms(1) by (simp add: divide_le_eq mult_le_cancel_left1)
    ultimately show "0 \<le> a - a / of_nat p + x" using assms(2) by (auto simp: list_all_iff dest: in_set_dropD)
  qed
  then show ?thesis using False by (simp add: wilder_smooth_def)
qed (simp add: wilder_smooth_def)

lemma pairwise_nonneg: "(\<And>p c. 0 \<le> f p c) \<Longrightarrow> list_all (\<lambda>x. 0 \<le> x) (pairwise f cs)"
  by (auto simp: pairwise_def list_all_iff in_set_zip)

lemma dx_of_range:
  assumes "0 < str" and "0 \<le> sp" and "0 \<le> sm"
  shows "0 \<le> dx_of str sp sm \<and> dx_of str sp sm \<le> 100"
proof -
  let ?p = "100 * sp / str" and ?m = "100 * sm / str"
  have pm: "0 \<le> ?p" "0 \<le> ?m" using assms by simp_all
  show ?thesis
  proof (cases "?p + ?m = 0")
    case True
    then show ?thesis by (simp add: dx_of_def Let_def)
  next
    case False
    then have "0 < ?p + ?m" using pm by linarith
    moreover have "\<bar>?p - ?m\<bar> \<le> ?p + ?m" using pm by linarith
    ultimately have "0 \<le> 100 * \<bar>?p - ?m\<bar> / (?p + ?m)" "100 * \<bar>?p - ?m\<bar> / (?p + ?m) \<le> 100"
      by (simp_all only: pos_divide_le_eq mult_left_mono divide_nonneg_pos) (simp_all)
    then show ?thesis using False unfolding dx_of_def Let_def by simp
  qed
qed

lemma dx_list_range:
  "list_all (\<lambda>x. 0 \<le> x) a \<Longrightarrow> list_all (\<lambda>x. 0 \<le> x) b \<Longrightarrow> list_all (\<lambda>x. 0 \<le> x) c \<Longrightarrow>
   list_all (\<lambda>x. 0 \<le> x \<and> x \<le> 100) (dx_list a b c)"
proof (induction a b c rule: dx_list.induct)
  case (1 str trs sp sps sm sms)
  then show ?case using dx_of_range[of str sp sm] by (auto simp: order_le_less)
qed simp_all

text \<open>The ADX is a number between 0 and 100 whenever there is one, and it raises only for
  a period of zero.\<close>

theorem adx_in_range:
  "case adx candles period of
     Inl e \<Rightarrow> period = 0 \<and> e = ZeroDivisionError
   | Inr None \<Rightarrow> True
   | Inr (Some a) \<Rightarrow> 0 \<le> a \<and> a \<le> 100"
proof -
  let ?tr = "wilder_smooth (true_ranges candles) period"
  let ?plus = "wilder_smooth (pairwise plus_dm candles) period"
  let ?minus = "wilder_smooth (pairwise minus_dm candles) period"
  let ?dx = "dx_list ?tr ?plus ?minus"
  show ?thesis
  proof (cases "length candles < 2 * period + 1 \<or> period = 0 \<or> length ?dx < period")
    case True
    then show ?thesis by (auto simp: adx_def Let_def)
  next
    case False
    have "list_all (\<lambda>x. 0 \<le> x) (pairwise plus_dm candles)" "list_all (\<lambda>x. 0 \<le> x) (pairwise minus_dm candles)"
      by (rule pairwise_nonneg, simp add: plus_dm_def minus_dm_def Let_def)+
    then have dx: "list_all (\<lambda>x. 0 \<le> x \<and> x \<le> 100) ?dx"
      using False by (intro dx_list_range wilder_smooth_nonneg true_ranges_nonneg) auto
    then have "0 \<le> foldl (wilder period) (mean_of period (take period ?dx)) (drop period ?dx) \<and>
        foldl (wilder period) (mean_of period (take period ?dx)) (drop period ?dx) \<le> 100"
      using False by (intro conjI smoothed_nonneg smoothed_le) (auto simp: list_all_iff)
    then show ?thesis using False by (auto simp: adx_def Let_def)
  qed
qed

text \<open>
  While the direction does not change, the SuperTrend value is on the side of the close it
  claims; the bands ratchet while the close stays inside them.
\<close>

lemma st_step_side:
  assumes "st_up (st_step m s (c, a)) = st_up s"
  shows "if st_up s then st_value (st_step m s (c, a)) \<le> c_close c else c_close c \<le> st_value (st_step m s (c, a))"
  using assms by (auto simp: st_step_def Let_def split: if_splits)

lemma st_step_ratchet:
  "(st_close s \<ge> st_lower s \<longrightarrow> st_lower s \<le> st_lower (st_step m s (c, a))) \<and>
   (st_close s \<le> st_upper s \<longrightarrow> st_upper (st_step m s (c, a)) \<le> st_upper s)"
  by (auto simp: st_step_def Let_def)

text \<open>On the bar of a flip it need not be: the two bands may have crossed.\<close>

lemma st_flip_may_lie_above_close:
  "let s = \<lparr>st_upper = 110, st_lower = 100, st_up = False, st_value = 110, st_close = 105\<rparr>;
       c = \<lparr>c_exchange = '''', c_segment = '''', c_token = '''', c_timeframe = M5, c_ms = 0, c_open = 114,
            c_high = 126, c_low = 114, c_close = 115, c_volume = 1\<rparr>;
       s' = st_step 1 s (c, 1)
   in st_up s' \<and> c_close c < st_value s'"
  by (simp add: st_step_def Let_def)


end
