(* ===== verification/Forex_Hours.thy ===== *)
theory Forex_Hours
  imports Text
begin

section \<open>The forex clock\<close>

text \<open>
  \<open>app/utils/forex_hours.py\<close>. An instant is its epoch milliseconds in UTC. The IANA time
  zones are data of the host: a zone is a pair of functions, \<open>to_wall\<close> from an instant to the
  wall clock (in milliseconds, as if the wall clock were UTC) and \<open>of_wall\<close> back
  (\<open>astimezone\<close> in both directions). Arithmetic and comparison on datetimes of one zone are
  on the wall clock, as in Python. Dates are day numbers since 1970-01-01; \<open>trading_day\<close>
  returns one (the code its ISO text). The environment is a record of the raw settings.
\<close>

record zone_clock =
  to_wall :: "pyfloat \<Rightarrow> pyfloat"
  of_wall :: "pyfloat \<Rightarrow> pyfloat"

datatype fx_zone = NY | LONDON | TOKYO | SYDNEY

type_synonym zones = "fx_zone \<Rightarrow> zone_clock"

text \<open>Zones that all keep UTC, for evaluating examples.\<close>

definition utc_zones :: zones where
  "utc_zones _ = \<lparr>to_wall = \<lambda>n. n, of_wall = \<lambda>n. n\<rparr>"

definition day_ms :: pyfloat where
  "day_ms = 86400000"

definition hour_ms :: pyfloat where
  "hour_ms = 3600000"

definition wall_day :: "pyfloat \<Rightarrow> int" where
  "wall_day w = \<lfloor>w / day_ms\<rfloor>"

definition wall_time :: "pyfloat \<Rightarrow> pyfloat" where
  "wall_time w = w - of_int (wall_day w) * day_ms"

text \<open>\<open>weekday()\<close>: Monday is 0; day 0 was a Thursday.\<close>

definition weekday :: "int \<Rightarrow> int" where
  "weekday d = (d + 3) mod 7"

definition combine :: "int \<Rightarrow> pyfloat \<Rightarrow> pyfloat" where
  "combine d t = of_int d * day_ms + t"

text \<open>Month and day of a day number in the proleptic Gregorian calendar.\<close>

definition month_day :: "int \<Rightarrow> int \<times> int" where
  "month_day d =
     (let z = d + 719468; era = z div 146097; doe = z mod 146097;
          yoe = (doe - doe div 1460 + doe div 36524 - doe div 146096) div 365;
          doy = doe - (365 * yoe + yoe div 4 - yoe div 100);
          mp = (5 * doy + 2) div 153;
          day = doy - (153 * mp + 2) div 5 + 1;
          month = (if mp < 10 then mp + 3 else mp - 9)
      in (month, day))"

definition WEEK_ANCHOR :: pyfloat where
  "WEEK_ANCHOR = 17 * hour_ms"

definition SESSIONS :: "(string \<times> fx_zone \<times> pyfloat \<times> pyfloat) list" where
  "SESSIONS =
     [(''sydney'', SYDNEY, 7 * hour_ms, 16 * hour_ms), (''tokyo'', TOKYO, 9 * hour_ms, 18 * hour_ms),
      (''london'', LONDON, 8 * hour_ms, 17 * hour_ms), (''new_york'', NY, 8 * hour_ms, 17 * hour_ms)]"

definition FX_HOLIDAYS :: "(int \<times> int) list" where
  "FX_HOLIDAYS = [(12, 25), (1, 1)]"

subsection \<open>Settings\<close>

text \<open>
  The raw environment strings, \<open>int(text)\<close> (\<open>None\<close> where it raises) and the zone named for
  the reset, which falls back to New York when the name is unknown.
\<close>

record fx_env =
  env_sessions :: "string option"
  env_weekend_min :: "string option"
  env_reset_hour :: "string option"
  env_reset_min :: "string option"
  env_int :: "string \<Rightarrow> int option"
  env_reset_zone :: "zone_clock option"

definition configured_sessions :: "fx_env \<Rightarrow> string list" where
  "configured_sessions env =
     (let raw = (case env_sessions env of None \<Rightarrow> ''london,new_york'' | Some s \<Rightarrow> s);
          out = List.map (\<lambda>s. py_lower (py_strip s)) (filter (\<lambda>s. py_strip s \<noteq> []) (split_on CHR '','' raw));
          known = filter (\<lambda>s. s \<in> fst ` set SESSIONS) out
      in if known = [] then [''london'', ''new_york''] else known)"

definition int_setting :: "fx_env \<Rightarrow> string option \<Rightarrow> int \<Rightarrow> int" where
  "int_setting env raw dflt =
     (case raw of None \<Rightarrow> dflt
      | Some s \<Rightarrow> (case env_int env s of None \<Rightarrow> dflt | Some n \<Rightarrow> n))"

definition flatten_before_weekend_min :: "fx_env \<Rightarrow> int" where
  "flatten_before_weekend_min env = int_setting env (env_weekend_min env) 60"

definition fx_reset_hour :: "fx_env \<Rightarrow> int" where
  "fx_reset_hour env = int_setting env (env_reset_hour env) 17"

definition flatten_before_reset_min :: "fx_env \<Rightarrow> int" where
  "flatten_before_reset_min env = int_setting env (env_reset_min env) 5"

definition reset_tz :: "zones \<Rightarrow> fx_env \<Rightarrow> zone_clock" where
  "reset_tz tz env = (case env_reset_zone env of None \<Rightarrow> tz NY | Some z \<Rightarrow> z)"

subsection \<open>The week\<close>

definition is_holiday :: "pyfloat \<Rightarrow> bool" where
  "is_holiday n \<longleftrightarrow> month_day (wall_day n) \<in> set FX_HOLIDAYS"

definition is_market_open :: "zones \<Rightarrow> pyfloat \<Rightarrow> bool" where
  "is_market_open tz n =
     (if is_holiday n then False
      else
        let ny = to_wall (tz NY) n; wd = weekday (wall_day ny); t = wall_time ny in
        if wd = 5 then False
        else if wd = 4 \<and> t \<ge> WEEK_ANCHOR then False
        else if wd = 6 \<and> t < WEEK_ANCHOR then False
        else True)"

definition next_open_wall :: "pyfloat \<Rightarrow> pyfloat" where
  "next_open_wall ny =
     (let days_ahead = (6 - weekday (wall_day ny)) mod 7;
          candidate = wall_day ny + days_ahead; open_ny = combine candidate WEEK_ANCHOR
      in if open_ny \<le> ny then combine (candidate + 7) WEEK_ANCHOR else open_ny)"

definition next_open_dt :: "zones \<Rightarrow> pyfloat \<Rightarrow> pyfloat" where
  "next_open_dt tz n = of_wall (tz NY) (next_open_wall (to_wall (tz NY) n))"

definition seconds_until_market_open :: "zones \<Rightarrow> pyfloat \<Rightarrow> pyfloat" where
  "seconds_until_market_open tz n =
     (if is_market_open tz n then 0 else max 0 ((next_open_dt tz n - n) / 1000))"

definition friday_close_wall :: "pyfloat \<Rightarrow> pyfloat" where
  "friday_close_wall ny =
     (let days_ahead = (4 - weekday (wall_day ny)) mod 7;
          d = wall_day ny + days_ahead; close_ny = combine d WEEK_ANCHOR
      in if close_ny < ny then combine (d + 7) WEEK_ANCHOR else close_ny)"

definition friday_close_dt :: "zones \<Rightarrow> pyfloat \<Rightarrow> pyfloat" where
  "friday_close_dt tz n = of_wall (tz NY) (friday_close_wall (to_wall (tz NY) n))"

subsection \<open>Sessions\<close>

definition is_session_active :: "zones \<Rightarrow> string \<Rightarrow> pyfloat \<Rightarrow> bool" where
  "is_session_active tz session n =
     (case map_of SESSIONS (py_lower session) of
        None \<Rightarrow> False
      | Some (zone, open_t, close_t) \<Rightarrow>
          if \<not> is_market_open tz n then False
          else let t = wall_time (to_wall (tz zone) n) in open_t \<le> t \<and> t < close_t)"

definition active_sessions :: "zones \<Rightarrow> pyfloat \<Rightarrow> string list" where
  "active_sessions tz n =
     (if \<not> is_market_open tz n then []
      else filter (\<lambda>s. is_session_active tz s n) (List.map fst SESSIONS))"

definition session_tag :: "zones \<Rightarrow> pyfloat \<Rightarrow> string" where
  "session_tag tz n =
     (if \<not> is_market_open tz n then ''closed''
      else
        let active = active_sessions tz n
        in if active = [] then ''off'' else join_with CHR ''+'' active)"

definition trading_day :: "zones \<Rightarrow> pyfloat \<Rightarrow> int" where
  "trading_day tz n =
     (let ny = to_wall (tz NY) n; d = wall_day ny in if wall_time ny \<ge> WEEK_ANCHOR then d + 1 else d)"

subsection \<open>Gates\<close>

definition should_process_for_strategy :: "zones \<Rightarrow> pyfloat \<Rightarrow> bool" where
  "should_process_for_strategy tz n = is_market_open tz n"

definition in_trading_window :: "zones \<Rightarrow> fx_env \<Rightarrow> pyfloat \<Rightarrow> bool" where
  "in_trading_window tz env n =
     (if \<not> is_market_open tz n then False
      else list_ex (\<lambda>s. is_session_active tz s n) (configured_sessions env))"

definition should_flatten_before_weekend :: "zones \<Rightarrow> fx_env \<Rightarrow> int option \<Rightarrow> pyfloat \<Rightarrow> bool" where
  "should_flatten_before_weekend tz env minutes n =
     (if \<not> is_market_open tz n then False
      else
        let window = (case minutes of None \<Rightarrow> flatten_before_weekend_min env | Some m \<Rightarrow> m);
            left = friday_close_dt tz n - n
        in 0 \<le> left \<and> left \<le> of_int window * 60000)"

text \<open>\<open>replace(hour=...)\<close> refuses an hour outside the day.\<close>

definition next_daily_reset_dt :: "zones \<Rightarrow> fx_env \<Rightarrow> pyfloat \<Rightarrow> pyfloat result" where
  "next_daily_reset_dt tz env n =
     (let z = reset_tz tz env; local = to_wall z n; h = fx_reset_hour env in
      if h < 0 \<or> 23 < h then Inl (ValueError ''hour must be in 0..23'')
      else
        let reset = combine (wall_day local) (of_int h * hour_ms);
            reset' = (if local \<ge> reset then reset + day_ms else reset)
        in Inr (of_wall z reset'))"

definition seconds_until_daily_reset :: "zones \<Rightarrow> fx_env \<Rightarrow> pyfloat \<Rightarrow> pyfloat result" where
  "seconds_until_daily_reset tz env n =
     (case next_daily_reset_dt tz env n of Inl e \<Rightarrow> Inl e | Inr x \<Rightarrow> Inr (max 0 ((x - n) / 1000)))"

definition should_flatten_before_daily_reset ::
  "zones \<Rightarrow> fx_env \<Rightarrow> int option \<Rightarrow> pyfloat \<Rightarrow> bool result" where
  "should_flatten_before_daily_reset tz env minutes n =
     (if \<not> is_market_open tz n then Inr False
      else
        let window = (case minutes of None \<Rightarrow> flatten_before_reset_min env | Some m \<Rightarrow> m)
        in case next_daily_reset_dt tz env n of
             Inl e \<Rightarrow> Inl e
           | Inr nxt \<Rightarrow> Inr (0 \<le> nxt - n \<and> nxt - n \<le> of_int window * 60000))"

definition can_open_new_position :: "zones \<Rightarrow> fx_env \<Rightarrow> pyfloat \<Rightarrow> bool" where
  "can_open_new_position tz env n \<longleftrightarrow>
     in_trading_window tz env n \<and> \<not> should_flatten_before_weekend tz env None n"

subsection \<open>The week as one interval\<close>

text \<open>How far into the week, counted from Sunday 17:00, a wall clock is.\<close>

definition week_ms :: pyfloat where
  "week_ms = 7 * day_ms"

definition week_position :: "pyfloat \<Rightarrow> pyfloat" where
  "week_position w =
     (let since = w - combine 3 WEEK_ANCHOR in since - of_int \<lfloor>since / week_ms\<rfloor> * week_ms)"

lemmas clock_units = day_ms_def hour_ms_def week_ms_def WEEK_ANCHOR_def combine_def

lemma wall_split: "w = of_int (wall_day w) * day_ms + wall_time w"
  by (simp add: wall_time_def)

lemma wall_time_bounds: "0 \<le> wall_time w" "wall_time w < day_ms"
proof -
  have "of_int \<lfloor>w / day_ms\<rfloor> \<le> w / day_ms" "w / day_ms < of_int \<lfloor>w / day_ms\<rfloor> + 1"
    by (simp_all add: floor_correct)
  then show "0 \<le> wall_time w" "wall_time w < day_ms"
    by (simp_all add: wall_time_def wall_day_def day_ms_def field_simps)
qed

lemma weekday_bounds: "0 \<le> weekday d" "weekday d < 7"
  by (simp_all add: weekday_def)

lemma weekday_split: "d = 7 * ((d + 3) div 7) + weekday d - 3"
  using div_mult_mod_eq[of "d + 3" 7] by (simp add: weekday_def)

lemma week_position_day:
  "week_position w =
     (if weekday (wall_day w) = 6 \<and> WEEK_ANCHOR \<le> wall_time w then wall_time w - WEEK_ANCHOR
      else of_int (weekday (wall_day w) + 1) * day_ms + wall_time w - WEEK_ANCHOR)"
proof -
  let ?d = "wall_day w" and ?t = "wall_time w"
  let ?k = "(?d + 3) div 7" and ?wd = "weekday ?d"
  have wd: "0 \<le> ?wd" "?wd \<le> 6" using weekday_bounds[of ?d] by auto
  have t: "0 \<le> ?t" "?t < 86400000" using wall_time_bounds[of w] by (simp_all add: day_ms_def)
  have "real_of_int ?d = 7 * of_int ?k + of_int ?wd - 3" using weekday_split[of ?d] by linarith
  then have since: "w - combine 3 WEEK_ANCHOR =
      of_int ?k * week_ms + (of_int (?wd - 6) * day_ms + ?t - WEEK_ANCHOR)"
    using wall_split[of w] by (simp add: clock_units algebra_simps)
  show ?thesis
  proof (cases "?wd = 6 \<and> WEEK_ANCHOR \<le> ?t")
    case True
    then have "\<lfloor>(w - combine 3 WEEK_ANCHOR) / week_ms\<rfloor> = ?k"
      using t unfolding since by (intro floor_unique) (simp_all add: clock_units field_simps)
    then show ?thesis using True by (simp add: week_position_def Let_def since)
  next
    case False
    have "of_int (?wd - 6) * day_ms + ?t - WEEK_ANCHOR < 0"
      "- week_ms \<le> of_int (?wd - 6) * day_ms + ?t - WEEK_ANCHOR"
    proof -
      have "?wd \<le> 5 \<or> ?wd = 6 \<and> ?t < WEEK_ANCHOR" using False wd by linarith
      then have "real_of_int ?wd \<le> 5 \<or> ?wd = 6 \<and> ?t < WEEK_ANCHOR" by linarith
      then show "of_int (?wd - 6) * day_ms + ?t - WEEK_ANCHOR < 0"
        using t by (auto simp: clock_units)
      have "0 \<le> real_of_int ?wd" using wd by simp
      then show "- week_ms \<le> of_int (?wd - 6) * day_ms + ?t - WEEK_ANCHOR"
        using t by (simp add: clock_units)
    qed
    then have "\<lfloor>(w - combine 3 WEEK_ANCHOR) / week_ms\<rfloor> = ?k - 1"
      unfolding since by (intro floor_unique) (simp_all add: clock_units field_simps)
    then have "week_position w =
        of_int ?k * week_ms + (of_int (?wd - 6) * day_ms + ?t - WEEK_ANCHOR) - of_int (?k - 1) * week_ms"
      unfolding week_position_def Let_def by (simp only: since)
    also have "\<dots> = of_int (?wd + 1) * day_ms + ?t - WEEK_ANCHOR" by (simp add: clock_units algebra_simps)
    finally show ?thesis by (simp only: False if_False)
  qed
qed

lemma week_position_open:
  "week_position w < 5 * day_ms \<longleftrightarrow>
   \<not> (weekday (wall_day w) = 5 \<or> weekday (wall_day w) = 4 \<and> WEEK_ANCHOR \<le> wall_time w \<or>
      weekday (wall_day w) = 6 \<and> wall_time w < WEEK_ANCHOR)"
proof -
  let ?wd = "weekday (wall_day w)"
  have t: "0 \<le> wall_time w" "wall_time w < 86400000" using wall_time_bounds[of w] by (simp_all add: day_ms_def)
  have "?wd \<in> {0, 1, 2, 3, 4, 5, 6}" using weekday_bounds[of "wall_day w"] by auto
  then show ?thesis
    using t unfolding week_position_day by (auto simp: clock_units)
qed

text \<open>The forex week is one interval: outside holidays the market is open exactly in the
  first five days counted from Sunday 17:00 New York time; a session is only ever active while
  the market is open, and a position may only be opened in an active configured session, never
  in the configured minutes before the Friday close.\<close>

theorem forex_week:
  "(is_market_open tz n \<longleftrightarrow> \<not> is_holiday n \<and> week_position (to_wall (tz NY) n) < 5 * day_ms) \<and>
   (session_tag tz n = ''closed'' \<longleftrightarrow> \<not> is_market_open tz n) \<and>
   (can_open_new_position tz env n \<longleftrightarrow>
      list_ex (\<lambda>s. is_session_active tz s n) (configured_sessions env) \<and>
      \<not> (0 \<le> friday_close_dt tz n - n \<and>
          friday_close_dt tz n - n \<le> of_int (flatten_before_weekend_min env) * 60000))"
proof (intro conjI)
  show "is_market_open tz n \<longleftrightarrow> \<not> is_holiday n \<and> week_position (to_wall (tz NY) n) < 5 * day_ms"
    unfolding week_position_open by (auto simp: is_market_open_def Let_def)
  have "join_with CHR ''+'' (filter P (List.map fst SESSIONS)) \<noteq> ''closed''" for P
    by (cases "P ''sydney''"; cases "P ''tokyo''"; cases "P ''london''"; cases "P ''new_york''")
      (simp_all add: SESSIONS_def)
  then show "session_tag tz n = ''closed'' \<longleftrightarrow> \<not> is_market_open tz n"
    by (simp add: session_tag_def active_sessions_def Let_def)
  have "is_session_active tz s n \<Longrightarrow> is_market_open tz n" for s
    by (auto simp: is_session_active_def Let_def split: option.splits if_splits)
  then show "can_open_new_position tz env n \<longleftrightarrow>
      list_ex (\<lambda>s. is_session_active tz s n) (configured_sessions env) \<and>
      \<not> (0 \<le> friday_close_dt tz n - n \<and>
          friday_close_dt tz n - n \<le> of_int (flatten_before_weekend_min env) * 60000)"
    by (auto simp: can_open_new_position_def in_trading_window_def should_flatten_before_weekend_def Let_def
        list_ex_iff)
qed

text \<open>The next opening and the next close, on the wall clock.\<close>

lemma combine_split:
  assumes "0 \<le> t" and "t < day_ms"
  shows "wall_day (combine d t) = d" "wall_time (combine d t) = t"
proof -
  show "wall_day (combine d t) = d" unfolding wall_day_def
    by (rule floor_unique) (use assms in \<open>simp_all add: combine_def day_ms_def field_simps\<close>)
  then show "wall_time (combine d t) = t" by (simp add: wall_time_def combine_def)
qed

lemma anchor_bounds: "0 \<le> WEEK_ANCHOR" "WEEK_ANCHOR < day_ms"
  by (simp_all add: clock_units)

lemma weekday_ahead: "0 \<le> k \<Longrightarrow> k < 7 \<Longrightarrow> weekday (d + (k - weekday d) mod 7) = k"
proof -
  assume k: "0 \<le> k" "k < 7"
  let ?a = "d + 3"
  have "weekday (d + (k - weekday d) mod 7) = (?a + (k - ?a mod 7) mod 7) mod 7"
    by (simp add: weekday_def algebra_simps)
  also have "\<dots> = (?a + (k - ?a mod 7)) mod 7" by (simp only: mod_add_right_eq)
  also have "?a + (k - ?a mod 7) = k + 7 * (?a div 7)" using div_mult_mod_eq[of ?a 7] by linarith
  also have "(k + 7 * (?a div 7)) mod 7 = k mod 7" by (rule mod_mult_self2)
  finally show ?thesis using k by simp
qed


lemma weekday_week: "weekday (d + 7) = weekday d"
proof -
  have "(d + 7 + 3) mod 7 = ((d + 3) + 7) mod 7" by (simp add: add.commute)
  then show ?thesis unfolding weekday_def by (simp only: mod_add_self2)
qed

lemma week_position_shift: "week_position (w + of_int k * week_ms) = week_position w"
proof -
  have "(w + of_int k * week_ms - combine 3 WEEK_ANCHOR) / week_ms =
      (w - combine 3 WEEK_ANCHOR) / week_ms + of_int k"
    by (simp add: clock_units field_simps)
  then have "\<lfloor>(w + of_int k * week_ms - combine 3 WEEK_ANCHOR) / week_ms\<rfloor> =
      \<lfloor>(w - combine 3 WEEK_ANCHOR) / week_ms\<rfloor> + k" by simp
  then show ?thesis by (simp add: week_position_def Let_def algebra_simps)
qed

text \<open>A boundary: the first day of a given weekday on or after the wall clock's, at 17:00.\<close>

lemma boundary_on_day:
  assumes "0 \<le> k" and "k < 7"
  shows "weekday (wall_day (combine (wall_day w + (k - weekday (wall_day w)) mod 7) WEEK_ANCHOR)) = k \<and>
    wall_time (combine (wall_day w + (k - weekday (wall_day w)) mod 7) WEEK_ANCHOR) = WEEK_ANCHOR \<and>
    w - day_ms < combine (wall_day w + (k - weekday (wall_day w)) mod 7) WEEK_ANCHOR \<and>
    combine (wall_day w + (k - weekday (wall_day w)) mod 7) WEEK_ANCHOR < w + week_ms"
proof -
  let ?m = "(k - weekday (wall_day w)) mod 7"
  have "0 \<le> ?m" "?m < 7" by simp_all
  then have "0 \<le> real_of_int ?m" "real_of_int ?m \<le> 6" by linarith+
  moreover have "combine (wall_day w + ?m) WEEK_ANCHOR = w + (of_int ?m * day_ms + (WEEK_ANCHOR - wall_time w))"
    using wall_split[of w] by (simp add: combine_def algebra_simps)
  moreover have "0 \<le> wall_time w" "wall_time w < 86400000"
    using wall_time_bounds[of w] by (simp_all add: day_ms_def)
  ultimately have "w - day_ms < combine (wall_day w + ?m) WEEK_ANCHOR"
    "combine (wall_day w + ?m) WEEK_ANCHOR < w + week_ms"
    by (simp_all add: day_ms_def week_ms_def WEEK_ANCHOR_def hour_ms_def)
  then show ?thesis
    using weekday_ahead[OF assms, of "wall_day w"] combine_split[OF anchor_bounds] by simp
qed


lemma week_position_range: "0 \<le> week_position w" "week_position w < week_ms"
proof -
  let ?s = "(w - combine 3 WEEK_ANCHOR) / week_ms"
  have "of_int \<lfloor>?s\<rfloor> \<le> ?s" "?s < of_int \<lfloor>?s\<rfloor> + 1" by (simp_all add: floor_correct)
  then show "0 \<le> week_position w" "week_position w < week_ms"
    by (simp_all add: week_position_def Let_def week_ms_def day_ms_def field_simps)
qed

text \<open>Two walls at the same position lie a whole number of weeks apart.\<close>

lemma position_of_boundary:
  assumes "wall_time b = WEEK_ANCHOR"
  shows "weekday (wall_day b) = 6 \<Longrightarrow> week_position b = 0"
    and "weekday (wall_day b) = 4 \<Longrightarrow> week_position b = 5 * day_ms"
  using assms by (simp_all add: week_position_day)

lemma week_distance: "\<exists>k. b - w = week_position b - week_position w + of_int k * week_ms"
proof -
  let ?f = "\<lambda>x. \<lfloor>(x - combine 3 WEEK_ANCHOR) / week_ms\<rfloor>"
  have "b - w = week_position b - week_position w + of_int (?f b - ?f w) * week_ms"
    by (simp add: week_position_def Let_def algebra_simps)
  then show ?thesis by blast
qed

lemma week_multiple:
  assumes "x = y + of_int k * week_ms" and "0 < x" "x \<le> week_ms" and "0 < y" "y \<le> week_ms"
  shows "x = y"
proof -
  have "k = 0"
  proof (rule ccontr)
    assume "k \<noteq> 0"
    then have "k \<le> -1 \<or> 1 \<le> k" by linarith
    then have "real_of_int k \<le> -1 \<or> 1 \<le> real_of_int k" by linarith
    then show False using assms by (auto simp: week_ms_def day_ms_def)
  qed
  then show ?thesis using assms(1) by simp
qed

text \<open>The week's boundaries are where they should be: the next opening the code computes is
  the first Sunday 17:00 strictly after the wall clock, that is, the week has
  \<open>week_ms - week_position\<close> left until then; and the Friday close it computes is the first
  Friday 17:00 at or after the wall clock, which while the market is open is
  \<open>5 * day_ms - week_position\<close> away.\<close>

theorem week_boundaries:
  "next_open_wall w = w + (week_ms - week_position w) \<and>
   weekday (wall_day (next_open_wall w)) = 6 \<and> wall_time (next_open_wall w) = WEEK_ANCHOR \<and>
   friday_close_wall w = w + (if week_position w \<le> 5 * day_ms then 5 * day_ms - week_position w
       else 12 * day_ms - week_position w) \<and>
   weekday (wall_day (friday_close_wall w)) = 4 \<and> wall_time (friday_close_wall w) = WEEK_ANCHOR"
proof -
  note b6 = boundary_on_day[of 6 w] and b4 = boundary_on_day[of 4 w]
  have shift: "combine (d + 7) WEEK_ANCHOR = combine d WEEK_ANCHOR + week_ms" for d
    by (simp add: clock_units algebra_simps)
  have on: "weekday (wall_day (combine (d + 7) WEEK_ANCHOR)) = weekday (wall_day (combine d WEEK_ANCHOR))"
    "wall_time (combine (d + 7) WEEK_ANCHOR) = WEEK_ANCHOR" for d
    using combine_split[OF anchor_bounds] weekday_week by simp_all
  have o: "weekday (wall_day (next_open_wall w)) = 6" "wall_time (next_open_wall w) = WEEK_ANCHOR"
    "w < next_open_wall w" "next_open_wall w \<le> w + week_ms"
    using b6 on shift by (auto simp: next_open_wall_def Let_def day_ms_def week_ms_def)
  have c: "weekday (wall_day (friday_close_wall w)) = 4" "wall_time (friday_close_wall w) = WEEK_ANCHOR"
    "w \<le> friday_close_wall w" "friday_close_wall w < w + week_ms"
    using b4 on shift by (auto simp: friday_close_wall_def Let_def day_ms_def week_ms_def)
  obtain k where "next_open_wall w - w = (week_ms - week_position w) + of_int (k - 1) * week_ms"
    using week_distance[of "next_open_wall w" w] position_of_boundary(1)[OF o(2,1)]
    by (auto simp: algebra_simps)
  then have opens: "next_open_wall w - w = week_ms - week_position w"
    by (rule week_multiple) (use o week_position_range[of w] in simp_all)
  let ?left = "if week_position w \<le> 5 * day_ms then 5 * day_ms - week_position w else 12 * day_ms - week_position w"
  obtain j where j: "friday_close_wall w - w = 5 * day_ms - week_position w + of_int j * week_ms"
    using week_distance[of "friday_close_wall w" w] position_of_boundary(2)[OF c(2,1)] by auto
  have "friday_close_wall w - w + day_ms = ?left + day_ms" if "week_position w \<le> 5 * day_ms"
  proof -
    have "j = 0"
    proof (rule ccontr)
      assume "j \<noteq> 0"
      then have "real_of_int j \<le> -1 \<or> 1 \<le> real_of_int j" by linarith
      then show False
        using j c that week_position_range[of w] by (auto simp: week_ms_def day_ms_def)
    qed
    then show ?thesis using j that by simp
  qed
  moreover have "friday_close_wall w - w + day_ms = ?left + day_ms" if "\<not> week_position w \<le> 5 * day_ms"
  proof -
    have "j = 1"
    proof (rule ccontr)
      assume "j \<noteq> 1"
      then have "real_of_int j \<le> 0 \<or> 2 \<le> real_of_int j" by linarith
      then show False
        using j c that week_position_range[of w] by (auto simp: week_ms_def day_ms_def)
    qed
    then show ?thesis using j that by (simp add: week_ms_def)
  qed
  ultimately show ?thesis using o c opens by (auto simp: algebra_simps)
qed


end
