(* ===== verification/Regime.thy ===== *)
theory Regime
  imports Indicators
begin

section \<open>Market regime tags\<close>

text \<open>
  \<open>app/cfd_research/regime.py\<close>: the trend/range label and the volatility bucket of a history.
  The labels are the code's strings; the indicator periods are arguments, the defaults are
  those of the code.
\<close>

definition classify_regime ::
  "candle list \<Rightarrow> nat \<Rightarrow> nat \<Rightarrow> nat \<Rightarrow> pyfloat \<Rightarrow> string result" where
  "classify_regime candles adx_period ema_fast ema_slow adx_trend_threshold =
     (if length candles < ema_slow + 1 then Inr ''unknown''
      else
        let closes = List.map c_close candles in
        case ema closes ema_fast of
          Inl e \<Rightarrow> Inl e
        | Inr ef \<Rightarrow>
            (case ema closes ema_slow of
               Inl e \<Rightarrow> Inl e
             | Inr es \<Rightarrow>
                 (case adx candles adx_period of
                    Inl e \<Rightarrow> Inl e
                  | Inr adx_val \<Rightarrow>
                      (case (ef, es, adx_val) of
                         (Some f, Some s, Some a) \<Rightarrow>
                           if a \<ge> adx_trend_threshold
                           then Inr (if f \<ge> s then ''trend_up'' else ''trend_down'')
                           else Inr ''range''
                       | _ \<Rightarrow> Inr ''unknown''))))"

text \<open>\<open>xs[-n:]\<close>, which is the whole list for \<open>n = 0\<close>.\<close>

definition last_bars :: "nat \<Rightarrow> 'a list \<Rightarrow> 'a list" where
  "last_bars n xs = (if n = 0 then xs else take_last n xs)"

definition classify_volatility ::
  "candle list \<Rightarrow> nat \<Rightarrow> nat \<Rightarrow> pyfloat \<Rightarrow> pyfloat \<Rightarrow> string result" where
  "classify_volatility candles atr_period lookback lo hi =
     (if length candles < atr_period + 5 then Inr ''unknown''
      else case atr candles atr_period of
             Inl e \<Rightarrow> Inl e
           | Inr None \<Rightarrow> Inr ''unknown''
           | Inr (Some cur) \<Rightarrow>
               if cur \<le> 0 then Inr ''unknown''
               else
                 (case atr_series (last_bars lookback candles) atr_period of
                    Inl e \<Rightarrow> Inl e
                  | Inr vs \<Rightarrow>
                      let series = filter (\<lambda>v. v > 0) vs in
                      if length series < 5 then Inr ''unknown''
                      else
                        let median = sort series ! (length series div 2) in
                        if median \<le> 0 then Inr ''unknown''
                        else
                          let ratio = cur / median in
                          if ratio \<le> lo then Inr ''loVol''
                          else if ratio \<ge> hi then Inr ''hiVol''
                          else Inr ''normalVol''))"

definition regime_of :: "candle list \<Rightarrow> string result" where
  "regime_of candles = classify_regime candles 14 20 50 22"

definition volatility_of :: "candle list \<Rightarrow> string result" where
  "volatility_of candles = classify_volatility candles 14 100 (8/10) (125/100)"

lemma ema_total: "0 < p \<Longrightarrow> \<exists>v. ema xs p = Inr v"
  by (simp add: ema_def)

lemma atr_total: "0 < p \<Longrightarrow> \<exists>v. atr cs p = Inr v"
  by (simp add: atr_def Let_def)

lemma atr_series_total: "0 < p \<Longrightarrow> \<exists>v. atr_series cs p = Inr v"
  by (simp add: atr_series_def Let_def)

lemma adx_total: "0 < p \<Longrightarrow> \<exists>v. adx cs p = Inr v"
  by (simp add: adx_def Let_def)

text \<open>The tags are total: with the default periods neither classifier raises on any history,
  each returns one of its labels, the regime is \<open>unknown\<close> for fewer than 51 candles, and with a
  classified trend the direction is that of the two moving averages.\<close>

theorem regime_tags_total:
  "(\<exists>r. regime_of cs = Inr r \<and> r \<in> {''trend_up'', ''trend_down'', ''range'', ''unknown''} \<and>
      (length cs < 51 \<longrightarrow> r = ''unknown'') \<and>
      (r = ''trend_up'' \<longrightarrow> (\<exists>f s a. ema (List.map c_close cs) 20 = Inr (Some f) \<and>
          ema (List.map c_close cs) 50 = Inr (Some s) \<and> adx cs 14 = Inr (Some a) \<and> s \<le> f \<and> 22 \<le> a))) \<and>
   (\<exists>v. volatility_of cs = Inr v \<and> v \<in> {''loVol'', ''hiVol'', ''normalVol'', ''unknown''})"
proof (intro conjI)
  obtain f s a where v: "ema (List.map c_close cs) 20 = Inr f" "ema (List.map c_close cs) 50 = Inr s"
    "adx cs 14 = Inr a"
    using ema_total[of 20] ema_total[of 50] adx_total[of 14] by (metis zero_less_numeral)
  show "\<exists>r. regime_of cs = Inr r \<and> r \<in> {''trend_up'', ''trend_down'', ''range'', ''unknown''} \<and>
      (length cs < 51 \<longrightarrow> r = ''unknown'') \<and>
      (r = ''trend_up'' \<longrightarrow> (\<exists>f s a. ema (List.map c_close cs) 20 = Inr (Some f) \<and>
          ema (List.map c_close cs) 50 = Inr (Some s) \<and> adx cs 14 = Inr (Some a) \<and> s \<le> f \<and> 22 \<le> a))"
    by (cases f; cases s; cases a)
      (simp_all add: regime_of_def classify_regime_def v Let_def)
  obtain c vs where a: "atr cs 14 = Inr c" "atr_series (last_bars 100 cs) 14 = Inr vs"
    using atr_total[of 14] atr_series_total[of 14] by (metis zero_less_numeral)
  show "\<exists>v. volatility_of cs = Inr v \<and> v \<in> {''loVol'', ''hiVol'', ''normalVol'', ''unknown''}"
    by (cases c) (simp_all add: volatility_of_def classify_volatility_def a Let_def)
qed

theorem regime_tags_total_witness: "regime_of [] = Inr ''unknown''"
  using regime_tags_total[of "[]"] by auto

end
