(* ===== verification/Backtest_Replay.thy ===== *)
theory Backtest_Replay
  imports Exit_Simulator Position_Sizing Regime Forex_Hours "HOL-Library.Multiset"
begin

section \<open>Backtest replay\<close>

text \<open>
  \<open>app/cfd_backtest/replay.py\<close>: strategies replayed over stored candles. A strategy is its
  class attributes, its state and its \<open>evaluate\<close>, which returns signals or raises and leaves a
  state. The database is a function from an instrument to its candles in the date range
  (\<open>_load_candles\<close> copies rows into candles); persisting a trade is output and left out. A
  method that may raise returns its state and the exception, as in the executors.
\<close>

record 'st live_strategy =
  ls_class :: cfd_strategy
  ls_state :: 'st
  ls_evaluate :: "strategy_context \<Rightarrow> 'st \<Rightarrow> cfd_signal list result \<times> 'st"

record backtest_config =
  bt_starting_balance :: pyfloat
  bt_risk_pct :: pyfloat
  bt_compound :: bool
  bt_cost_model :: cost_model
  bt_max_hold_bars :: nat
  bt_record_all_signals :: bool

text \<open>\<open>None\<close>, or the fill bar, price and time. An intrabar signal scans the bars the arm lives.\<close>

definition bar_touches :: "cfd_signal \<Rightarrow> candle \<Rightarrow> bool" where
  "bar_touches sig c \<longleftrightarrow>
     (if sig_direction sig = LONG then c_high c \<ge> sig_entry_price sig else c_low c \<le> sig_entry_price sig)"

fun scan_fill :: "cfd_signal \<Rightarrow> candle list \<Rightarrow> nat list \<Rightarrow> (nat \<times> pyfloat \<times> pyfloat) option" where
  "scan_fill sig candles [] = None"
| "scan_fill sig candles (j # js) =
     (if bar_touches sig (candles ! j) then Some (j, sig_entry_price sig, c_ms (candles ! j))
      else scan_fill sig candles js)"

definition resolve_fill :: "cfd_signal \<Rightarrow> candle list \<Rightarrow> nat \<Rightarrow> (nat \<times> pyfloat \<times> pyfloat) option" where
  "resolve_fill sig candles signal_idx =
     (if entry_mode sig = CANDLE_CLOSE
      then Some (signal_idx, sig_entry_price sig, c_ms (candles ! signal_idx))
      else
        let last_idx = min (int signal_idx + expiry_candles sig) (int (length candles) - 1)
        in scan_fill sig candles [signal_idx + 1 ..< nat (last_idx + 1)])"

type_synonym busy_map = "string \<times> string \<times> direction \<Rightarrow> pyfloat option"

definition busy_key :: "cfd_signal \<Rightarrow> string \<times> string \<times> direction" where
  "busy_key sig = (strategy_id sig, variant_id sig, sig_direction sig)"

definition handle_signal ::
  "registry \<Rightarrow> backtest_config \<Rightarrow> cfd_signal \<Rightarrow> candle list \<Rightarrow> nat \<Rightarrow> pyfloat \<Rightarrow> busy_map \<Rightarrow>
   (simulated_trade option \<times> busy_map) result" where
  "handle_signal reg cfg sig candles signal_idx balance busy_until =
     (let key = busy_key sig;
          busy = (case busy_until key of None \<Rightarrow> 0 | Some x \<Rightarrow> x)
      in if \<not> bt_record_all_signals cfg \<and> sig_ms sig < busy then Inr (None, busy_until)
         else case resolve_fill sig candles signal_idx of
                None \<Rightarrow> Inr (None, busy_until)
              | Some (fill_idx, fill_price, fill_time) \<Rightarrow>
                  let future = take (bt_max_hold_bars cfg) (drop (fill_idx + 1) candles) in
                  if future = [] then Inr (None, busy_until)
                  else case calculate_lot_size reg (instrument sig) balance (bt_risk_pct cfg)
                              \<bar>fill_price - sig_stop_loss sig\<bar> None of
                         Inl e \<Rightarrow> Inl e
                       | Inr sizing \<Rightarrow>
                           if rejected sizing then Inr (None, busy_until)
                           else case simulate_exit reg (instrument sig) (sig_direction sig) fill_price fill_time
                                       (lot_size sizing) (sig_plan sig) future (Some (bt_cost_model cfg)) of
                                  Inl e \<Rightarrow> Inl e
                                | Inr t \<Rightarrow>
                                    Inr (Some t, if bt_record_all_signals cfg then busy_until
                                                 else busy_until(key \<mapsto> t_exit_ms t)))"

definition tag_trade ::
  "zones \<Rightarrow> cfd_signal \<Rightarrow> candle list \<Rightarrow> timeframe \<Rightarrow> simulated_trade \<Rightarrow> simulated_trade result" where
  "tag_trade tz sig history tf t =
     (case regime_of history of
        Inl e \<Rightarrow> Inl e
      | Inr r \<Rightarrow>
          (case volatility_of history of
             Inl e \<Rightarrow> Inl e
           | Inr v \<Rightarrow>
               Inr (t\<lparr>t_session := session_tag tz (t_entry_ms t), t_regime := r, t_volatility := v,
                      t_exit_model := (if plan_exit_model (sig_plan sig) = [] then ''default''
                                       else plan_exit_model (sig_plan sig)),
                      t_timeframe := timeframe_value tf\<rparr>)))"

subsection \<open>The walk\<close>

record 'st replay_state =
  rs_strategies :: "'st live_strategy list"
  rs_trades :: "simulated_trade list"
  rs_balance :: pyfloat
  rs_busy :: busy_map

definition take_signal ::
  "registry \<Rightarrow> zones \<Rightarrow> backtest_config \<Rightarrow> candle list \<Rightarrow> nat \<Rightarrow> timeframe \<Rightarrow> cfd_signal \<Rightarrow>
   'st replay_state \<Rightarrow> 'st replay_state outcome" where
  "take_signal reg tz cfg candles i tf sig s =
     (case handle_signal reg cfg sig candles i (rs_balance s) (rs_busy s) of
        Inl e \<Rightarrow> raises e s
      | Inr (None, busy) \<Rightarrow> returns (s\<lparr>rs_busy := busy\<rparr>)
      | Inr (Some t, busy) \<Rightarrow>
          (case tag_trade tz sig (take (i + 1) candles) tf t of
             Inl e \<Rightarrow> raises e (s\<lparr>rs_busy := busy\<rparr>)
           | Inr t' \<Rightarrow> returns (s\<lparr>rs_busy := busy, rs_trades := rs_trades s @ [t'],
                 rs_balance := (if bt_compound cfg then rs_balance s + t_net_pnl_usd t' else rs_balance s)\<rparr>)))"

definition run_strategy ::
  "registry \<Rightarrow> zones \<Rightarrow> backtest_config \<Rightarrow> string \<Rightarrow> timeframe \<Rightarrow> candle list \<Rightarrow> nat \<Rightarrow> nat \<Rightarrow>
   'st replay_state \<Rightarrow> 'st replay_state outcome" where
  "run_strategy reg tz cfg inst tf candles i k s =
     (let strat = rs_strategies s ! k; cls = ls_class strat; history = take (i + 1) candles in
      if \<not> (applies_to cls inst \<and> st_timeframe cls = tf) then returns s
      else if length history < st_min_history cls then returns s
      else
        let ctx = \<lparr>ctx_instrument = inst, ctx_timeframe = st_timeframe cls, ctx_candle = candles ! i,
                   ctx_history = history\<rparr>;
            (r, st') = ls_evaluate strat ctx (ls_state strat);
            s1 = s\<lparr>rs_strategies := (rs_strategies s)[k := strat\<lparr>ls_state := st'\<rparr>]\<rparr>
        in case r of
             Inl e \<Rightarrow> returns s1
           | Inr sigs \<Rightarrow> for_each (take_signal reg tz cfg candles i (st_timeframe cls)) sigs s1)"

definition replay_bar ::
  "registry \<Rightarrow> zones \<Rightarrow> backtest_config \<Rightarrow> string \<Rightarrow> timeframe \<Rightarrow> candle list \<Rightarrow> nat \<Rightarrow>
   'st replay_state \<Rightarrow> 'st replay_state outcome" where
  "replay_bar reg tz cfg inst tf candles i s =
     for_each (run_strategy reg tz cfg inst tf candles i) [0 ..< length (rs_strategies s)] s"

text \<open>
  One instrument. The busy times start empty; the instrument is skipped, keeping them, when it
  has fewer than ten candles or no strategy for it.
\<close>

definition replay_instrument ::
  "registry \<Rightarrow> zones \<Rightarrow> backtest_config \<Rightarrow> timeframe \<Rightarrow> (string \<Rightarrow> candle list) \<Rightarrow> string \<Rightarrow>
   'st replay_state \<Rightarrow> 'st replay_state outcome" where
  "replay_instrument reg tz cfg tf load inst s =
     (let candles = load inst in
      if length candles < 10 then returns s
      else if list_ex (\<lambda>st. applies_to (ls_class st) inst \<and> st_timeframe (ls_class st) = tf) (rs_strategies s)
      then for_each (replay_bar reg tz cfg inst tf candles) [0 ..< length candles] (s\<lparr>rs_busy := Map.empty\<rparr>)
      else returns s)"

definition candles_processed :: "(string \<Rightarrow> candle list) \<Rightarrow> string list \<Rightarrow> nat" where
  "candles_processed load insts =
     (\<Sum>inst\<leftarrow>insts. if length (load inst) < 10 then 0 else length (load inst))"

subsection \<open>Statistics\<close>

datatype profit_ratio = Ratio pyfloat | Infinite

record backtest_result =
  br_trades :: "simulated_trade list"
  br_starting_balance :: pyfloat
  br_ending_balance :: pyfloat
  br_candles_processed :: nat
  br_instruments :: "string list"
  br_total_trades :: nat
  br_wins :: nat
  br_losses :: nat
  br_win_rate :: pyfloat
  br_gross_profit_usd :: pyfloat
  br_gross_loss_usd :: pyfloat
  br_net_pnl_usd :: pyfloat
  br_profit_factor :: profit_ratio
  br_avg_rr :: pyfloat
  br_expectancy_usd :: pyfloat
  br_max_drawdown_usd :: pyfloat

fun drawdown_loop :: "pyfloat list \<Rightarrow> pyfloat \<Rightarrow> pyfloat \<Rightarrow> pyfloat \<Rightarrow> pyfloat" where
  "drawdown_loop [] equity peak max_dd = max_dd"
| "drawdown_loop (x # xs) equity peak max_dd =
     (let equity' = equity + x; peak' = max peak equity'
      in drawdown_loop xs equity' peak' (max max_dd (peak' - equity')))"

definition build_result ::
  "simulated_trade list \<Rightarrow> pyfloat \<Rightarrow> pyfloat \<Rightarrow> string list \<Rightarrow> nat \<Rightarrow> backtest_result" where
  "build_result trades starting ending insts n =
     (let res = \<lparr>br_trades = trades, br_starting_balance = starting, br_ending_balance = ending,
            br_candles_processed = n, br_instruments = insts, br_total_trades = length trades,
            br_wins = 0, br_losses = 0, br_win_rate = 0, br_gross_profit_usd = 0, br_gross_loss_usd = 0,
            br_net_pnl_usd = 0, br_profit_factor = Ratio 0, br_avg_rr = 0, br_expectancy_usd = 0,
            br_max_drawdown_usd = 0\<rparr>
      in if trades = [] then res
         else
           let wins = filter (\<lambda>t. t_net_pnl_usd t > 0) trades;
               losses = filter (\<lambda>t. t_net_pnl_usd t \<le> 0) trades;
               gp = (\<Sum>t\<leftarrow>wins. t_net_pnl_usd t);
               gl = (\<Sum>t\<leftarrow>losses. t_net_pnl_usd t);
               net = (\<Sum>t\<leftarrow>trades. t_net_pnl_usd t)
           in res\<lparr>br_wins := length wins, br_losses := length losses,
                  br_win_rate := of_nat (length wins) / of_nat (length trades) * 100,
                  br_gross_profit_usd := gp, br_gross_loss_usd := gl, br_net_pnl_usd := net,
                  br_avg_rr := (\<Sum>t\<leftarrow>trades. t_realized_rr t) / of_nat (length trades),
                  br_expectancy_usd := net / of_nat (length trades),
                  br_profit_factor := (if gl \<noteq> 0 then Ratio (gp / \<bar>gl\<bar>)
                                       else if gp > 0 then Infinite else Ratio 0),
                  br_max_drawdown_usd :=
                    drawdown_loop (List.map t_net_pnl_usd (sort_key t_exit_ms trades)) starting starting 0\<rparr>)"

text \<open>\<open>run\<close>: the instruments in order, then the statistics, unless a call raised.\<close>

definition run_backtest ::
  "registry \<Rightarrow> zones \<Rightarrow> backtest_config \<Rightarrow> timeframe \<Rightarrow> (string \<Rightarrow> candle list) \<Rightarrow> 'st live_strategy list \<Rightarrow>
   string list \<Rightarrow> backtest_result result" where
  "run_backtest reg tz cfg tf load strats insts =
     (let s0 = \<lparr>rs_strategies = strats, rs_trades = [], rs_balance = bt_starting_balance cfg,
                rs_busy = Map.empty\<rparr>;
          (s, e) = for_each (replay_instrument reg tz cfg tf load) insts s0
      in case e of
           Some x \<Rightarrow> Inl x
         | None \<Rightarrow> Inr (build_result (rs_trades s) (bt_starting_balance cfg) (rs_balance s) insts
                      (candles_processed load insts)))"

subsection \<open>Fills\<close>

lemma scan_fill_sound:
  "case scan_fill sig candles js of
     None \<Rightarrow> list_all (\<lambda>j. \<not> bar_touches sig (candles ! j)) js
   | Some (j, p, t) \<Rightarrow> \<exists>before after. js = before @ j # after \<and> p = sig_entry_price sig \<and>
       t = c_ms (candles ! j) \<and> bar_touches sig (candles ! j) \<and>
       list_all (\<lambda>k. \<not> bar_touches sig (candles ! k)) before"
proof (induction js)
  case Nil
  then show ?case by simp
next
  case (Cons j js)
  show ?case
  proof (cases "bar_touches sig (candles ! j)")
    case True
    then show ?thesis by (force intro: exI[of _ "[]"])
  next
    case False
    show ?thesis
    proof (cases "scan_fill sig candles js")
      case None
      then show ?thesis using Cons False by simp
    next
      case (Some r)
      obtain k p t where r: "r = (k, p, t)" by (metis prod_cases3)
      from Cons Some r obtain before after where "js = before @ k # after" "p = sig_entry_price sig"
        "t = c_ms (candles ! k)" "bar_touches sig (candles ! k)"
        "list_all (\<lambda>k. \<not> bar_touches sig (candles ! k)) before" by auto
      note x = this
      have eq: "scan_fill sig candles (j # js) = Some (k, p, t)" using False Some r by simp
      show ?thesis
        unfolding eq option.case prod.case using x False
        by (intro exI[of _ "j # before"] exI[of _ after]) simp
    qed
  qed
qed

lemma upt_split_Cons:
  assumes "[a ..< b] = before @ j # after"
  shows "before = [a ..< j] \<and> a \<le> j \<and> j < b"
proof -
  have len: "length before < b - a" using arg_cong[OF assms, of length] by simp
  have "j = [a ..< b] ! length before" using assms by simp
  then have j: "j = a + length before" using len by simp
  have "before = take (length before) [a ..< b]" using assms by simp
  then have "before = [a ..< j]" using j len by (simp add: take_upt)
  then show ?thesis using j len by simp
qed

text \<open>A fill is the first touch: a candle-close signal fills on its own bar; an intrabar
  signal fills at its trigger price on the first later bar, within its expiry and the data,
  whose range reaches the trigger, and stays unfilled exactly when there is none.\<close>

theorem fill_is_first_touch:
  assumes "i < length candles" and "0 < expiry_candles sig"
  shows "case resolve_fill sig candles i of
      None \<Rightarrow> entry_mode sig \<noteq> CANDLE_CLOSE \<and>
        list_all (\<lambda>j. int i + expiry_candles sig < int j \<or> \<not> bar_touches sig (candles ! j))
          [i + 1 ..< length candles]
    | Some (j, p, t) \<Rightarrow> p = sig_entry_price sig \<and> t = c_ms (candles ! j) \<and> j < length candles \<and>
        (if entry_mode sig = CANDLE_CLOSE then j = i
         else i < j \<and> int j \<le> int i + expiry_candles sig \<and> bar_touches sig (candles ! j) \<and>
           list_all (\<lambda>k. \<not> bar_touches sig (candles ! k)) [i + 1 ..< j])"
proof (cases "entry_mode sig = CANDLE_CLOSE")
  case True
  then show ?thesis using assms by (simp add: resolve_fill_def)
next
  case False
  let ?stop = "nat (min (int i + expiry_candles sig) (int (length candles) - 1) + 1)"
  have fill: "resolve_fill sig candles i = scan_fill sig candles [i + 1 ..< ?stop]"
    using False by (simp add: resolve_fill_def Let_def)
  have stop: "j < ?stop \<longleftrightarrow> int j \<le> int i + expiry_candles sig \<and> j < length candles" for j
    using assms by linarith
  note scan = scan_fill_sound[of sig candles "[i + 1 ..< ?stop]", folded fill]
  show ?thesis
  proof (cases "resolve_fill sig candles i")
    case None
    then have all: "list_all (\<lambda>j. \<not> bar_touches sig (candles ! j)) [i + 1 ..< ?stop]" using scan by simp
    have none: "\<not> bar_touches sig (candles ! j)" if "i < j" "j < ?stop" for j
    proof -
      have "j \<in> set [i + 1 ..< ?stop]" unfolding set_upt using that by auto
      then show ?thesis using all unfolding list_all_iff by blast
    qed
    have "int i + expiry_candles sig < int j \<or> \<not> bar_touches sig (candles ! j)"
      if "i < j" "j < length candles" for j
      using that none[of j] stop[of j] by (cases "int j \<le> int i + expiry_candles sig") auto
    then show ?thesis using None False by (simp add: list_all_iff)
  next
    case (Some r)
    obtain j p t where r: "r = (j, p, t)" by (metis prod_cases3)
    with scan Some obtain before after where s: "[i + 1 ..< ?stop] = before @ j # after"
      "p = sig_entry_price sig" "t = c_ms (candles ! j)" "bar_touches sig (candles ! j)"
      "list_all (\<lambda>k. \<not> bar_touches sig (candles ! k)) before" by auto
    note up = upt_split_Cons[OF s(1)]
    then show ?thesis using Some r s False stop[of j] by simp
  qed
qed

definition demo_breakout :: cfd_signal where
  "demo_breakout = \<lparr>strategy_id = ''s'', variant_id = ''v'', instrument = ''XAUUSD'', sig_direction = LONG,
     entry_mode = INTRABAR, sig_entry_price = 2400, sig_plan = demo_plan, sig_ms = 0,
     expiry_candles = 2, sig_reason = ''''\<rparr>"

theorem fill_is_first_touch_witness:
  "resolve_fill demo_breakout [demo_bar 0 2390 2395 2385 2391, demo_bar 300000 2391 2398 2390 2397,
     demo_bar 600000 2397 2404 2396 2403] 0 \<noteq> None"
proof
  let ?bars = "[demo_bar 0 2390 2395 2385 2391, demo_bar 300000 2391 2398 2390 2397,
     demo_bar 600000 2397 2404 2396 2403]"
  assume "resolve_fill demo_breakout ?bars 0 = None"
  then show False
    using fill_is_first_touch[of 0 ?bars demo_breakout]
    by (simp add: demo_breakout_def bar_touches_def demo_bar_def upt_conv_Cons)
qed

subsection \<open>The drawdown statistic\<close>

text \<open>The equity after each trade, and every loss from an earlier point to a later one.\<close>

definition equity_curve :: "pyfloat \<Rightarrow> pyfloat list \<Rightarrow> pyfloat list" where
  "equity_curve start xs = carried (+) start xs"

definition drops :: "pyfloat list \<Rightarrow> pyfloat list" where
  "drops eq = [eq ! i - eq ! j. j \<leftarrow> [0 ..< length eq], i \<leftarrow> [0 ..< Suc j]]"

lemma set_drops: "set (drops eq) = {eq ! i - eq ! j | i j. i \<le> j \<and> j < length eq}"
  by (auto simp: drops_def less_Suc_eq_le simp del: upt_Suc) blast

lemma dropsI:
  "i \<le> j \<Longrightarrow> j \<le> length xs \<Longrightarrow> x = carried (+) start xs ! i - carried (+) start xs ! j \<Longrightarrow>
   x \<in> set (drops (equity_curve start xs))"
  unfolding set_drops equity_curve_def mem_Collect_eq by (intro exI[of _ i] exI[of _ j]) simp

lemma drawdown_loop_upper:
  assumes "i \<le> j" and "j \<le> length xs" and "e \<le> p"
  shows "m \<le> drawdown_loop xs e p m \<and> (0 < j \<longrightarrow> p - carried (+) e xs ! j \<le> drawdown_loop xs e p m \<and>
    carried (+) e xs ! i - carried (+) e xs ! j \<le> drawdown_loop xs e p m)"
  using assms
proof (induction xs arbitrary: i j e p m)
  case Nil
  then show ?case by simp
next
  case (Cons x xs)
  let ?p = "max p (e + x)" and ?m = "max m (max p (e + x) - (e + x))"
  have loop: "drawdown_loop (x # xs) e p m = drawdown_loop xs (e + x) ?p ?m" by (simp add: Let_def)
  have m: "?m \<le> drawdown_loop xs (e + x) ?p ?m" using Cons.IH[of 0 0 "e + x" ?p ?m] by simp
  have "0 \<le> ?m \<or> ?m < 0" "?p - (e + x) \<le> ?m" by linarith+
  then have nonneg: "0 \<le> drawdown_loop xs (e + x) ?p ?m" using m by linarith
  show ?case
  proof (cases j)
    case 0
    then show ?thesis using m loop by simp
  next
    case (Suc j')
    have first: "carried (+) (e + x) xs ! 0 = e + x" by (cases xs) simp_all
    have p: "?p - carried (+) (e + x) xs ! j' \<le> drawdown_loop xs (e + x) ?p ?m"
      using Cons.IH[of 0 j' "e + x" ?p ?m] Cons.prems Suc m first by (cases j') auto
    have "carried (+) e (x # xs) ! i - carried (+) e (x # xs) ! j \<le> drawdown_loop xs (e + x) ?p ?m"
    proof (cases i)
      case 0
      then show ?thesis using p Suc Cons.prems(3) by simp
    next
      case (Suc i')
      then show ?thesis
        using Cons.IH[of i' j' "e + x" ?p ?m] Cons.prems \<open>j = Suc j'\<close> nonneg by (cases j') auto
    qed
    moreover have "p - carried (+) (e + x) xs ! j' \<le> drawdown_loop xs (e + x) ?p ?m"
      using p max.cobounded1[of p "e + x"] by linarith
    ultimately show ?thesis using m Suc loop by simp
  qed
qed

lemma drawdown_loop_attained:
  "drawdown_loop xs e p m = m \<or>
   (\<exists>j \<le> length xs. drawdown_loop xs e p m = p - carried (+) e xs ! j) \<or>
   (\<exists>i j. i \<le> j \<and> j \<le> length xs \<and> drawdown_loop xs e p m = carried (+) e xs ! i - carried (+) e xs ! j)"
proof (induction xs arbitrary: e p m)
  case Nil
  then show ?case by simp
next
  case (Cons x xs)
  let ?p = "max p (e + x)" and ?m = "max m (max p (e + x) - (e + x))"
  have first: "carried (+) (e + x) xs ! 0 = e + x" by (cases xs) simp_all
  consider (m) "drawdown_loop xs (e + x) ?p ?m = ?m"
    | (p) j where "j \<le> length xs" "drawdown_loop xs (e + x) ?p ?m = ?p - carried (+) (e + x) xs ! j"
    | (ij) i j where "i \<le> j" "j \<le> length xs"
        "drawdown_loop xs (e + x) ?p ?m = carried (+) (e + x) xs ! i - carried (+) (e + x) xs ! j"
    using Cons.IH[of "e + x" ?p ?m] by blast
  then show ?case
  proof cases
    case m
    then have "drawdown_loop (x # xs) e p m = m \<or> drawdown_loop (x # xs) e p m = p - (e + x) \<or>
        drawdown_loop (x # xs) e p m = (e + x) - (e + x)"
      by (auto simp: Let_def max_def split: if_splits)
    then show ?thesis
    proof (elim disjE)
      assume "drawdown_loop (x # xs) e p m = p - (e + x)"
      then show ?thesis using first by (intro disjI2 disjI1 exI[of _ 1]) simp
    next
      assume "drawdown_loop (x # xs) e p m = (e + x) - (e + x)"
      then show ?thesis using first by (intro disjI2 exI[of _ 1]) simp
    qed blast
  next
    case p
    then have "drawdown_loop (x # xs) e p m = p - carried (+) (e + x) xs ! j \<or>
        drawdown_loop (x # xs) e p m = carried (+) (e + x) xs ! 0 - carried (+) (e + x) xs ! j"
      using first by (auto simp: Let_def max_def split: if_splits)
    then show ?thesis
    proof
      assume "drawdown_loop (x # xs) e p m = p - carried (+) (e + x) xs ! j"
      then show ?thesis using p(1) by (intro disjI2 disjI1 exI[of _ "Suc j"]) simp
    next
      assume "drawdown_loop (x # xs) e p m = carried (+) (e + x) xs ! 0 - carried (+) (e + x) xs ! j"
      then show ?thesis using p(1) by (intro disjI2 exI[of _ 1] exI[of _ "Suc j"]) simp
    qed
  next
    case ij
    then show ?thesis by (intro disjI2 exI[of _ "Suc i"] exI[of _ "Suc j"]) (simp add: Let_def)
  qed
qed

lemma drawdown_loop_Max: "drawdown_loop xs start start 0 = Max (set (drops (equity_curve start xs)))"
proof (rule Max_eqI[symmetric])
  show "finite (set (drops (equity_curve start xs)))" by simp
  fix y assume "y \<in> set (drops (equity_curve start xs))"
  then obtain i j where "i \<le> j" "j \<le> length xs" "y = equity_curve start xs ! i - equity_curve start xs ! j"
    by (auto simp: set_drops equity_curve_def)
  then show "y \<le> drawdown_loop xs start start 0"
    using drawdown_loop_upper[of i j xs start start 0] by (cases "j = 0") (auto simp: equity_curve_def)
next
  have zero: "carried (+) start xs ! 0 = start" by (cases xs) simp_all
  from drawdown_loop_attained[of xs start start 0]
  show "drawdown_loop xs start start 0 \<in> set (drops (equity_curve start xs))"
  proof (elim disjE exE conjE)
    assume "drawdown_loop xs start start 0 = 0"
    then show ?thesis by (intro dropsI[of 0 0]) simp_all
  next
    fix j assume "j \<le> length xs" "drawdown_loop xs start start 0 = start - carried (+) start xs ! j"
    then show ?thesis using zero by (intro dropsI[of 0 j]) simp_all
  next
    fix i j assume "i \<le> j" "j \<le> length xs"
      "drawdown_loop xs start start 0 = carried (+) start xs ! i - carried (+) start xs ! j"
    then show ?thesis by (rule dropsI)
  qed
qed


lemma sum_list_split:
  "(\<Sum>t\<leftarrow>filter P xs. f t :: real) + (\<Sum>t\<leftarrow>filter (\<lambda>t. \<not> P t) xs. f t) = (\<Sum>t\<leftarrow>xs. f t)"
  by (induction xs) auto

lemma length_split: "length (filter P xs) + length (filter (\<lambda>t. \<not> P t) xs) = length xs"
  by (rule sum_length_filter_compl)

lemma sum_list_sort_key: "(\<Sum>t\<leftarrow>sort_key k xs. f t :: real) = (\<Sum>t\<leftarrow>xs. f t)"
  by (metis mset_map mset_sort sum_mset_sum_list)

text \<open>The backtest statistics are what they are called: wins and losses partition the trades;
  the net is the gross profit plus the (non-positive) gross loss and the sum over all trades;
  expectancy times trades is the net; the profit factor is their ratio, infinite only without a
  loss; and the maximum drawdown is the largest fall of the equity curve, in exit order, from
  any point to any later one.\<close>

theorem backtest_statistics:
  "let r = build_result trades start ending insts n;
       curve = equity_curve start (List.map t_net_pnl_usd (sort_key t_exit_ms trades)) in
   br_wins r + br_losses r = length trades \<and> br_total_trades r = length trades \<and>
   br_net_pnl_usd r = br_gross_profit_usd r + br_gross_loss_usd r \<and>
   br_net_pnl_usd r = (\<Sum>t\<leftarrow>trades. t_net_pnl_usd t) \<and>
   0 \<le> br_gross_profit_usd r \<and> br_gross_loss_usd r \<le> 0 \<and>
   br_expectancy_usd r * of_nat (length trades) = br_net_pnl_usd r \<and>
   (case br_profit_factor r of
      Infinite \<Rightarrow> br_gross_loss_usd r = 0 \<and> 0 < br_gross_profit_usd r
    | Ratio f \<Rightarrow> f * - br_gross_loss_usd r = (if br_gross_loss_usd r = 0 then 0 else br_gross_profit_usd r)) \<and>
   br_max_drawdown_usd r = Max (set (drops curve))"
proof (cases "trades = []")
  case True
  have "drops (equity_curve start []) = [0]" by (simp add: drops_def equity_curve_def)
  then show ?thesis using True by (simp add: build_result_def Let_def)
next
  case False
  let ?loss = "filter (\<lambda>t. t_net_pnl_usd t \<le> 0) trades" and ?win = "filter (\<lambda>t. t_net_pnl_usd t > 0) trades"
  have l: "?loss = filter (\<lambda>t. \<not> t_net_pnl_usd t > 0) trades" by (simp add: not_less)
  have "0 \<le> (\<Sum>t\<leftarrow>?win. t_net_pnl_usd t)" by (rule sum_list_nonneg_map) auto
  moreover have "(\<Sum>t\<leftarrow>?loss. t_net_pnl_usd t) \<le> 0" by (induction trades) auto
  moreover have "length ?win + length ?loss = length trades" unfolding l by (rule length_split)
  moreover have "(\<Sum>t\<leftarrow>?win. t_net_pnl_usd t) + (\<Sum>t\<leftarrow>?loss. t_net_pnl_usd t) = (\<Sum>t\<leftarrow>trades. t_net_pnl_usd t)"
    unfolding l by (rule sum_list_split)
  ultimately show ?thesis
    using False by (simp add: build_result_def Let_def drawdown_loop_Max)
qed

subsection \<open>Every trade of a backtest\<close>

text \<open>Signals as the strategies build them: one entry price in the plan and the signal.\<close>

definition replay_signal :: "cfd_signal \<Rightarrow> bool" where
  "replay_signal s \<longleftrightarrow> valid_plan (sig_plan s) \<and> plan_direction (sig_plan s) = sig_direction s \<and>
     plan_entry_price (sig_plan s) = sig_entry_price s"

definition honest :: "'st live_strategy \<Rightarrow> bool" where
  "honest st \<longleftrightarrow> (\<forall>ctx state. case fst (ls_evaluate st ctx state) of
     Inl e \<Rightarrow> True | Inr sigs \<Rightarrow> list_all replay_signal sigs)"

definition trade_sound :: "pyfloat \<Rightarrow> simulated_trade \<Rightarrow> bool" where
  "trade_sound budget t \<longleftrightarrow> -1 \<le> t_realized_rr t \<and> - budget \<le> t_pnl_usd t \<and> 0 < t_lots t \<and>
     t_net_pnl_usd t = t_pnl_usd t - t_cost_usd t \<and> 0 < t_bars_held t"

lemma resolve_fill_price:
  "resolve_fill sig candles i = Some (j, p, t) \<Longrightarrow> p = sig_entry_price sig"
  using scan_fill_sound[of sig candles "[i + 1 ..< nat (min (int i + expiry_candles sig) (int (length candles) - 1) + 1)]"]
  by (auto simp: resolve_fill_def Let_def split: if_splits)

lemma sim_bars_held: "sim_bars cs held p x = (q, y, h, cl) \<Longrightarrow> cs \<noteq> [] \<Longrightarrow> held < h"
proof (induction cs arbitrary: held p x)
  case Nil
  then show ?case by simp
next
  case (Cons c cs)
  obtain p' x' b where bar: "sim_bar c p x = (p', x', b)" by (metis prod_cases3)
  show ?case
  proof (cases "b \<or> cs = []")
    case True
    then show ?thesis using Cons.prems by (auto simp: bar split: if_splits)
  next
    case False
    then have "sim_bars cs (held + 1) p' x' = (q, y, h, cl)" using Cons.prems by (simp add: bar)
    then show ?thesis using Cons.IH False by fastforce
  qed
qed

lemma simulate_exit_fields:
  assumes "simulate_exit reg s d e ms lot plan future model = Inr t" and "future \<noteq> []"
  shows "t_lots t = lot \<and> 0 < t_bars_held t"
proof -
  let ?p = "new_position ''SIM'' '''' '''' s d e ms lot plan ''default''"
  let ?x = "\<lparr>xi_price = entry_price ?p, xi_ms = entry_time_ms ?p, xi_reason = EOD_FLATTEN\<rparr>"
  obtain q y h cl where bars: "sim_bars future 0 ?p ?x = (q, y, h, cl)" by (metis prod_cases4)
  have "0 < h" by (rule sim_bars_held[OF bars assms(2)])
  then show ?thesis
    using assms by (auto simp: simulate_exit_def simulate_position_def bars Let_def split: sum.splits if_splits)
qed

lemma handle_signal_sound:
  assumes "handle_signal reg cfg sig candles i balance busy = Inr (Some t, busy')"
    and "replay_signal sig" and "wf_registry reg" and "list_all ohlc_ok candles"
  shows "trade_sound (balance * bt_risk_pct cfg / 100) t"
proof -
  from assms(1) obtain j price ms sizing where
    fill: "resolve_fill sig candles i = Some (j, price, ms)"
    and future: "take (bt_max_hold_bars cfg) (drop (j + 1) candles) \<noteq> []"
    and sz: "calculate_lot_size reg (instrument sig) balance (bt_risk_pct cfg) \<bar>price - sig_stop_loss sig\<bar> None = Inr sizing"
    "\<not> rejected sizing"
    and sim: "simulate_exit reg (instrument sig) (sig_direction sig) price ms (lot_size sizing) (sig_plan sig)
        (take (bt_max_hold_bars cfg) (drop (j + 1) candles)) (Some (bt_cost_model cfg)) = Inr t"
    by (auto simp: handle_signal_def Let_def split: if_splits option.splits sum.splits)
  let ?future = "take (bt_max_hold_bars cfg) (drop (j + 1) candles)"
  obtain inst where inst: "get_instrument reg (instrument sig) = Inr inst"
    using sz(1) by (auto simp: calculate_lot_size_def split: sum.splits)
  have wf: "wf_instrument inst" "cent_lots inst" using get_instrument_wf[OF assms(3) inst] by auto
  have price: "price = sig_entry_price sig" by (rule resolve_fill_price[OF fill])
  have plan: "valid_plan (sig_plan sig)" "plan_direction (sig_plan sig) = sig_direction sig"
    "plan_entry_price (sig_plan sig) = price" using assms(2) price by (simp_all add: replay_signal_def)
  have bars: "list_all ohlc_ok ?future"
    using assms(4) by (auto simp: list_all_iff dest!: in_set_takeD in_set_dropD)
  note facts = simulate_exit_facts[OF plan bars inst sim]
  note fields = simulate_exit_fields[OF sim future]
  note size = sz(1)[unfolded lot_size_instrument[OF inst]]
  have lots: "0 < lot_size sizing" by (rule accepted_lot_pos[OF wf size sz(2)])
  have "lot_size sizing * sl_cost_per_lot inst (price - sig_stop_loss sig) \<le> balance * bt_risk_pct cfg / 100"
    using accepted_cost_le[OF wf size sz(2)] by simp
  then have cost: "risk_distance (sig_plan sig) * point_value_per_lot inst * lot_size sizing \<le> balance * bt_risk_pct cfg / 100"
    using plan(3) by (simp add: sl_cost_per_lot_def sig_stop_loss_def risk_distance_def mult.commute)
  have "0 < risk_distance (sig_plan sig) * point_value_per_lot inst * lot_size sizing"
    using valid_plan_risk[OF plan(1)] wf(1) lots by (simp add: wf_instrument_def)
  then have "-1 * (risk_distance (sig_plan sig) * point_value_per_lot inst * lot_size sizing) \<le> t_pnl_usd t"
    using facts by (simp add: mult_right_mono[of "-1" "t_realized_rr t", simplified])
  then show ?thesis using cost facts fields lots by (simp add: trade_sound_def)
qed


text \<open>The invariant of the walk, for a fixed size budget when profits do not compound.\<close>

definition walk_ok :: "backtest_config \<Rightarrow> 'st replay_state \<Rightarrow> bool" where
  "walk_ok cfg s \<longleftrightarrow> list_all honest (rs_strategies s) \<and>
     rs_balance s = bt_starting_balance cfg +
       (if bt_compound cfg then (\<Sum>t\<leftarrow>rs_trades s. t_net_pnl_usd t) else 0) \<and>
     (bt_compound cfg \<or>
      list_all (trade_sound (bt_starting_balance cfg * bt_risk_pct cfg / 100)) (rs_trades s))"

lemma tag_trade_frame:
  "tag_trade tz sig h tf t = Inr t' \<Longrightarrow>
   trade_sound b t' = trade_sound b t \<and> t_net_pnl_usd t' = t_net_pnl_usd t"
  by (auto simp: tag_trade_def trade_sound_def split: sum.splits)

lemma walk_ok_busy [simp]: "walk_ok cfg (s\<lparr>rs_busy := b\<rparr>) = walk_ok cfg s"
  by (simp add: walk_ok_def)

lemma take_signal_ok:
  assumes "walk_ok cfg s" and "replay_signal sig" and "wf_registry reg" and "list_all ohlc_ok candles"
  shows "walk_ok cfg (fst (take_signal reg tz cfg candles i tf sig s))"
proof (cases "handle_signal reg cfg sig candles i (rs_balance s) (rs_busy s)")
  case (Inl e)
  then show ?thesis using assms(1) by (simp add: take_signal_def)
next
  case (Inr r)
  obtain ot busy where r: "r = (ot, busy)" by fastforce
  show ?thesis
  proof (cases ot)
    case None
    then show ?thesis using assms(1) Inr r by (simp add: take_signal_def)
  next
    case (Some t)
    have sound: "trade_sound (rs_balance s * bt_risk_pct cfg / 100) t"
      using handle_signal_sound[OF _ assms(2-4)] Inr r Some by blast
    show ?thesis
    proof (cases "tag_trade tz sig (take (i + 1) candles) tf t")
      case (Inl e)
      then show ?thesis using assms(1) Inr r Some by (simp add: take_signal_def)
    next
      case tag: (Inr t')
      note frame = tag_trade_frame[OF tag]
      have step: "fst (take_signal reg tz cfg candles i tf sig s) = s\<lparr>rs_busy := busy, rs_trades := rs_trades s @ [t'],
          rs_balance := (if bt_compound cfg then rs_balance s + t_net_pnl_usd t' else rs_balance s)\<rparr>"
        using Inr r Some tag by (simp add: take_signal_def)
      show ?thesis
      proof (cases "bt_compound cfg")
        case True
        then show ?thesis unfolding step using assms(1) by (simp add: walk_ok_def)
      next
        case False
        then have "trade_sound (bt_starting_balance cfg * bt_risk_pct cfg / 100) t'"
          using sound frame assms(1) by (simp add: walk_ok_def)
        then show ?thesis unfolding step using assms(1) False by (simp add: walk_ok_def)
      qed
    qed
  qed
qed

lemma take_signal_strategies:
  "rs_strategies (fst (take_signal reg tz cfg candles i tf sig s)) = rs_strategies s"
  by (simp add: take_signal_def split: sum.split prod.split option.split)

lemma run_strategy_ok:
  assumes ok: "walk_ok cfg s" and "k < length (rs_strategies s)" and "wf_registry reg" and "list_all ohlc_ok candles"
  shows "walk_ok cfg (fst (run_strategy reg tz cfg inst tf candles i k s)) \<and>
    length (rs_strategies (fst (run_strategy reg tz cfg inst tf candles i k s))) = length (rs_strategies s)"
proof -
  let ?st = "rs_strategies s ! k"
  let ?ctx = "\<lparr>ctx_instrument = inst, ctx_timeframe = st_timeframe (ls_class ?st), ctx_candle = candles ! i,
                   ctx_history = take (i + 1) candles\<rparr>"
  obtain r st' where ev: "ls_evaluate ?st ?ctx (ls_state ?st) = (r, st')" by fastforce
  let ?s1 = "s\<lparr>rs_strategies := (rs_strategies s)[k := ?st\<lparr>ls_state := st'\<rparr>]\<rparr>"
  have honest: "honest ?st" using ok assms(2) by (auto simp: walk_ok_def list_all_length)
  then have "honest (?st\<lparr>ls_state := st'\<rparr>)" by (simp add: honest_def)
  then have ok1: "walk_ok cfg ?s1"
    using ok by (auto simp: walk_ok_def list_all_iff dest!: set_update_subset_insert[THEN subsetD])
  let ?I = "\<lambda>s'. walk_ok cfg s' \<and> length (rs_strategies s') = length (rs_strategies s)"
  have "?I (fst (for_each (take_signal reg tz cfg candles i (st_timeframe (ls_class ?st))) sigs ?s1))"
    if "r = Inr sigs" for sigs
  proof (rule for_each_invariant[where I = ?I])
    show "?I ?s1" using ok1 by simp
    fix sig s' assume sig: "sig \<in> set sigs" and s': "?I s'"
    have "replay_signal sig"
      using honest sig that ev unfolding honest_def by (metis (no_types, lifting) fst_conv list_all_iff sum.simps(6))
    then show "?I (fst (take_signal reg tz cfg candles i (st_timeframe (ls_class ?st)) sig s'))"
      using take_signal_ok[OF _ _ assms(3,4)] s' by (auto simp: take_signal_strategies)
  qed
  note taken = this
  have eq: "run_strategy reg tz cfg inst tf candles i k s =
      (if \<not> (applies_to (ls_class ?st) inst \<and> st_timeframe (ls_class ?st) = tf) then returns s
       else if length (take (i + 1) candles) < st_min_history (ls_class ?st) then returns s
       else case r of Inl e \<Rightarrow> returns ?s1
            | Inr sigs \<Rightarrow> for_each (take_signal reg tz cfg candles i (st_timeframe (ls_class ?st))) sigs ?s1)"
    unfolding run_strategy_def Let_def ev prod.case ..
  show ?thesis
  proof (cases r)
    case (Inl e)
    then show ?thesis using ok ok1 by (simp add: eq)
  next
    case (Inr sigs)
    then show ?thesis using ok taken[OF Inr] unfolding eq by auto
  qed
qed

lemma replay_bar_ok:
  assumes "walk_ok cfg s" and wf: "wf_registry reg" and bars: "list_all ohlc_ok candles"
  shows "walk_ok cfg (fst (replay_bar reg tz cfg inst tf candles i s))"
proof -
  let ?I = "\<lambda>t. walk_ok cfg t \<and> length (rs_strategies t) = length (rs_strategies s)"
  have "?I (fst (for_each (run_strategy reg tz cfg inst tf candles i) [0 ..< length (rs_strategies s)] s))"
  proof (rule for_each_invariant[where I = ?I])
    show "?I s" using assms(1) by simp
    fix k s' assume "k \<in> set [0 ..< length (rs_strategies s)]" and "?I s'"
    then show "?I (fst (run_strategy reg tz cfg inst tf candles i k s'))"
      using run_strategy_ok[OF _ _ wf bars, of cfg s' k] by simp
  qed
  then show ?thesis by (simp add: replay_bar_def)
qed

lemma replay_instrument_ok:
  assumes ok: "walk_ok cfg s" and wf: "wf_registry reg" and bars: "list_all ohlc_ok (load inst)"
  shows "walk_ok cfg (fst (replay_instrument reg tz cfg tf load inst s))"
proof -
  have "walk_ok cfg (fst (for_each (replay_bar reg tz cfg inst tf (load inst)) [0 ..< length (load inst)]
      (s\<lparr>rs_busy := Map.empty\<rparr>)))"
    by (rule for_each_invariant[where I = "walk_ok cfg"]) (use ok replay_bar_ok[OF _ wf bars] in auto)
  then show ?thesis using ok by (simp add: replay_instrument_def Let_def)
qed

text \<open>C31: A backtest never books a loss its sizing did not allow: when strategies emit constructed
  plans at the signal's price, bars are well formed and sizing does not compound, every trade
  realizes at least minus one R, loses at most the configured percentage of the starting balance
  before costs, has a positive size, is held at least one bar after its entry bar, and nets its
  profit less its cost; and the ending balance is the starting balance, plus the net of all
  trades if the run compounds.\<close>

theorem backtest_trades_sound:
  assumes "run_backtest reg tz cfg tf load strats insts = Inr r" and "list_all honest strats"
    and "wf_registry reg" and "list_all (\<lambda>inst. list_all ohlc_ok (load inst)) insts"
  shows "br_ending_balance r = bt_starting_balance cfg +
      (if bt_compound cfg then (\<Sum>t\<leftarrow>br_trades r. t_net_pnl_usd t) else 0) \<and>
    (bt_compound cfg \<or> list_all (\<lambda>t. -1 \<le> t_realized_rr t \<and>
       - (bt_starting_balance cfg * bt_risk_pct cfg / 100) \<le> t_pnl_usd t \<and> 0 < t_lots t \<and>
       t_net_pnl_usd t = t_pnl_usd t - t_cost_usd t \<and> 0 < t_bars_held t) (br_trades r))"
proof -
  let ?start = "\<lparr>rs_strategies = strats, rs_trades = [], rs_balance = bt_starting_balance cfg,
                rs_busy = Map.empty\<rparr>"
  let ?run = "for_each (replay_instrument reg tz cfg tf load) insts ?start"
  have "walk_ok cfg (fst ?run)"
  proof (rule for_each_invariant[where I = "walk_ok cfg"])
    show "walk_ok cfg ?start" using assms(2) by (simp add: walk_ok_def)
    fix inst s assume "inst \<in> set insts" and "walk_ok cfg s"
    then show "walk_ok cfg (fst (replay_instrument reg tz cfg tf load inst s))"
      using assms(3,4) by (intro replay_instrument_ok) (auto simp: list_all_iff)
  qed
  moreover have "r = build_result (rs_trades (fst ?run)) (bt_starting_balance cfg) (rs_balance (fst ?run)) insts
      (candles_processed load insts)"
    using assms(1) by (simp add: run_backtest_def Let_def case_prod_beta split: option.splits)
  then have "br_trades r = rs_trades (fst ?run)" "br_ending_balance r = rs_balance (fst ?run)"
    by (simp_all add: build_result_def Let_def)
  ultimately show ?thesis unfolding walk_ok_def trade_sound_def by simp
qed


definition demo_strategy :: cfd_strategy where
  "demo_strategy = \<lparr>st_id = ''s'', st_timeframe = M5, st_instruments = [], st_min_history = 10,
     st_variants = [''v'']\<rparr>"

definition demo_runner :: "bool live_strategy" where
  "demo_runner = \<lparr>ls_class = demo_strategy, ls_state = False,
     ls_evaluate = \<lambda>ctx done. (Inr (if done then [] else
       [demo_breakout\<lparr>entry_mode := CANDLE_CLOSE\<rparr>]), True)\<rparr>"

definition demo_bars :: "candle list" where
  "demo_bars = replicate 10 (demo_bar 0 2400 2401 2399 2400) @ [demo_bar 300000 2401 2425 2399 2418]"

definition demo_replay :: backtest_config where
  "demo_replay = \<lparr>bt_starting_balance = 100000, bt_risk_pct = 1, bt_compound = False,
     bt_cost_model = COST_MODEL_ZERO, bt_max_hold_bars = 500, bt_record_all_signals = False\<rparr>"

lemma demo_signal_handled:
  "\<exists>t busy. handle_signal gold_registry demo_replay (demo_breakout\<lparr>entry_mode := CANDLE_CLOSE\<rparr>) demo_bars 9
     100000 Map.empty = Inr (Some t, busy)"
proof -
  have len: "length demo_bars = 11" by (simp add: demo_bars_def)
  obtain sz where sz: "calculate_lot_size gold_registry ''XAUUSD'' 100000 1 10 None = Inr sz" "\<not> rejected sz"
    using sizing_gold_example by auto
  have fut: "take 500 (drop 10 demo_bars) = [demo_bar 300000 2401 2425 2399 2418]"
    by (simp add: demo_bars_def)
  show ?thesis
    by (simp add: handle_signal_def demo_breakout_def demo_replay_def resolve_fill_def sig_stop_loss_def fut sz
        simulate_exit_def gold_lookup calculate_trade_cost_def Let_def case_prod_beta len)
qed

lemma demo_run_strategy:
  assumes "ls_class (rs_strategies s ! k) = demo_strategy"
  shows "i < 9 \<Longrightarrow> run_strategy reg tz cfg inst tf demo_bars i k s = returns s"
  using assms by (simp add: run_strategy_def Let_def demo_strategy_def demo_bars_def)

lemma demo_backtest_returns:
  "\<exists>r. run_backtest gold_registry utc_zones demo_replay M5 (\<lambda>_. demo_bars) [demo_runner] [''XAUUSD''] = Inr r \<and>
     br_total_trades r = 1"
proof -
  let ?s0 = "\<lparr>rs_strategies = [demo_runner], rs_trades = [], rs_balance = 100000, rs_busy = Map.empty\<rparr>"
  let ?bar = "replay_bar gold_registry utc_zones demo_replay ''XAUUSD'' M5 demo_bars"
  obtain t busy where h: "handle_signal gold_registry demo_replay (demo_breakout\<lparr>entry_mode := CANDLE_CLOSE\<rparr>)
      demo_bars 9 100000 Map.empty = Inr (Some t, busy)" using demo_signal_handled by blast
  obtain t' where tag: "tag_trade utc_zones (demo_breakout\<lparr>entry_mode := CANDLE_CLOSE\<rparr>) (take 10 demo_bars) M5 t = Inr t'"
    by (simp add: tag_trade_def regime_of_def classify_regime_def volatility_of_def classify_volatility_def
        demo_bars_def)
  have len: "length demo_bars = 11" by (simp add: demo_bars_def)
  have flat: "\<not> bt_compound demo_replay" by (simp add: demo_replay_def)
  let ?s1 = "\<lparr>rs_strategies = [demo_runner\<lparr>ls_state := True\<rparr>], rs_trades = [t'], rs_balance = 100000, rs_busy = busy\<rparr>"
  have early: "?bar i ?s0 = returns ?s0" if "i < 9" for i
    using that demo_run_strategy[of ?s0 0 i] by (simp add: replay_bar_def demo_runner_def)
  have "?bar 9 ?s0 = returns ?s1"
    by (simp add: replay_bar_def run_strategy_def demo_runner_def demo_strategy_def applies_to_def len
        take_signal_def h tag Let_def flat)
  moreover have "?bar 10 ?s1 = returns ?s1"
    by (simp add: replay_bar_def run_strategy_def demo_runner_def demo_strategy_def applies_to_def len Let_def)
  moreover have "[0 ..< 11] = [0, 1, 2, 3, 4, 5, 6, 7, 8, 9, 10::nat]" by code_simp
  ultimately have "for_each ?bar [0 ..< 11] ?s0 = returns ?s1"
    using early by simp
  then have "replay_instrument gold_registry utc_zones demo_replay M5 (\<lambda>_. demo_bars) ''XAUUSD'' ?s0 = returns ?s1"
    by (simp add: replay_instrument_def len applies_to_def demo_runner_def demo_strategy_def)
  then show ?thesis
    by (simp add: run_backtest_def Let_def demo_replay_def build_result_def returns_def)
qed

theorem backtest_trades_sound_witness:
  "case run_backtest gold_registry utc_zones demo_replay M5 (\<lambda>_. demo_bars) [demo_runner] [''XAUUSD''] of
     Inl e \<Rightarrow> False
   | Inr r \<Rightarrow> br_total_trades r = 1 \<and> list_all (\<lambda>t. - 1000 \<le> t_pnl_usd t) (br_trades r)"
proof -
  obtain r where r: "run_backtest gold_registry utc_zones demo_replay M5 (\<lambda>_. demo_bars) [demo_runner] [''XAUUSD''] = Inr r"
    "br_total_trades r = 1" using demo_backtest_returns by blast
  have honest: "list_all honest [demo_runner]"
    by (simp add: honest_def demo_runner_def replay_signal_def demo_breakout_def demo_plan_valid)
  have bars: "list_all (\<lambda>inst. list_all ohlc_ok demo_bars) [''XAUUSD'']"
    by (simp add: demo_bars_def ohlc_ok_def demo_bar_def list_all_iff)
  from backtest_trades_sound[OF r(1) honest gold_registry_wf bars] show ?thesis
    unfolding r(1) sum.case using r(2) by (auto simp: demo_replay_def list_all_iff)
qed

end
