(* ===== verification/Exit_Models.thy ===== *)
theory Exit_Models
  imports Exit_Simulator Position_Sizing
begin

section \<open>Research exit models\<close>

text \<open>
  \<open>app/cfd_research/exit_models.py\<close>: one entry resolved under one of six exit models. The
  subclasses of \<open>ExitModel\<close> are the constructors of a datatype with their parameters; each
  \<open>simulate\<close> is its loop over the bars after the entry. A model that runs out of bars closes
  at the last close; on no bars at all Python raises an \<open>IndexError\<close> there, which the model
  returns as an error. \<open>fmt\<close> stands for Python's \<open>format(x, 'g')\<close> in the names.
\<close>

record entry_intent =
  in_instrument :: string
  in_direction :: direction
  in_entry :: pyfloat
  in_stop :: pyfloat
  in_ms :: pyfloat
  in_reason :: string
  in_target :: "pyfloat option"

definition r_distance :: "entry_intent \<Rightarrow> pyfloat" where
  "r_distance i = \<bar>in_entry i - in_stop i\<bar>"

type_synonym leg = "pyfloat \<times> pyfloat \<times> exit_reason"

record exit_outcome =
  eo_legs :: "leg list"
  eo_exit_ms :: pyfloat
  eo_bars_held :: nat
  eo_max_fav :: pyfloat
  eo_max_adv :: pyfloat
  eo_closed :: bool

definition stop_hit :: "direction \<Rightarrow> pyfloat \<Rightarrow> candle \<Rightarrow> bool" where
  "stop_hit d stop c \<longleftrightarrow> (if d = LONG then c_low c \<le> stop else c_high c \<ge> stop)"

definition tp_hit :: "direction \<Rightarrow> pyfloat \<Rightarrow> candle \<Rightarrow> bool" where
  "tp_hit d tp c \<longleftrightarrow> (if d = LONG then c_high c \<ge> tp else c_low c \<le> tp)"

definition excursion :: "direction \<Rightarrow> pyfloat \<Rightarrow> pyfloat \<Rightarrow> candle \<Rightarrow> pyfloat \<times> pyfloat" where
  "excursion d best worst c =
     (if d = LONG then (max best (c_high c), min worst (c_low c))
      else (min best (c_low c), max worst (c_high c)))"

definition ratchet :: "direction \<Rightarrow> pyfloat \<Rightarrow> pyfloat \<Rightarrow> pyfloat \<Rightarrow> pyfloat option \<Rightarrow> pyfloat" where
  "ratchet d cur_stop best gap floor_at =
     (if d = LONG
      then let new = best - gap;
               new' = (case floor_at of None \<Rightarrow> new | Some f \<Rightarrow> max new f)
           in max cur_stop new'
      else let new = best + gap;
               new' = (case floor_at of None \<Rightarrow> new | Some f \<Rightarrow> min new f)
           in min cur_stop new')"

definition closed_out :: "leg list \<Rightarrow> candle \<Rightarrow> nat \<Rightarrow> pyfloat \<Rightarrow> pyfloat \<Rightarrow> exit_outcome result" where
  "closed_out legs c bars best worst =
     Inr \<lparr>eo_legs = legs, eo_exit_ms = c_ms c, eo_bars_held = bars, eo_max_fav = best,
          eo_max_adv = worst, eo_closed = True\<rparr>"

text \<open>\<open>_flatten\<close> and the end of \<open>ScaleRunner.simulate\<close>: the legs so far and the rest at the last close.\<close>

definition flatten_legs ::
  "leg list \<Rightarrow> pyfloat \<Rightarrow> candle list \<Rightarrow> nat \<Rightarrow> pyfloat \<Rightarrow> pyfloat \<Rightarrow> exit_outcome result" where
  "flatten_legs legs remaining future bars best worst =
     (if future = [] then Inl (OtherError ''IndexError'')
      else Inr \<lparr>eo_legs = legs @ [(remaining, c_close (last future), EOD_FLATTEN)],
             eo_exit_ms = c_ms (last future), eo_bars_held = bars, eo_max_fav = best,
             eo_max_adv = worst, eo_closed = False\<rparr>)"

datatype exit_model =
    FixedRR pyfloat
  | BreakevenAfter1R pyfloat pyfloat
  | TimeStop pyfloat int
  | AtrTrailing pyfloat
  | ScaleRunner pyfloat pyfloat pyfloat
  | MeanTargetExit pyfloat

fun target_rr :: "exit_model \<Rightarrow> pyfloat" where
  "target_rr (FixedRR rr) = rr"
| "target_rr (BreakevenAfter1R rr be_at) = rr"
| "target_rr (TimeStop rr max_bars) = rr"
| "target_rr (AtrTrailing mult) = 2"
| "target_rr (ScaleRunner first_rr first_frac mult) = first_rr"
| "target_rr (MeanTargetExit rr) = rr"

fun model_name :: "(pyfloat \<Rightarrow> string) \<Rightarrow> exit_model \<Rightarrow> string" where
  "model_name fmt (FixedRR rr) = ''fixed_rr'' @ fmt rr"
| "model_name fmt (BreakevenAfter1R rr be_at) = ''breakeven'' @ fmt be_at @ ''R_rr'' @ fmt rr"
| "model_name fmt (TimeStop rr max_bars) =
     ''time_stop_rr'' @ fmt rr @ ''_'' @ fmt (of_int max_bars) @ ''b''"
| "model_name fmt (AtrTrailing mult) = ''atr_trail'' @ fmt mult"
| "model_name fmt (ScaleRunner first_rr first_frac mult) =
     ''scale_rr'' @ fmt first_rr @ ''_trail'' @ fmt mult"
| "model_name fmt (MeanTargetExit rr) = ''target_mean''"

subsection \<open>The loops\<close>

text \<open>Stop, then target: the loop of \<open>FixedRR\<close> and of \<open>MeanTargetExit\<close>.\<close>

fun fixed_walk ::
  "direction \<Rightarrow> pyfloat \<Rightarrow> pyfloat \<Rightarrow> candle list \<Rightarrow> candle list \<Rightarrow> nat \<Rightarrow> pyfloat \<Rightarrow> pyfloat \<Rightarrow>
   exit_outcome result" where
  "fixed_walk d stop tp future [] bars best worst = flatten_legs [] 1 future bars best worst"
| "fixed_walk d stop tp future (c # cs) bars best worst =
     (let bars = bars + 1; (best, worst) = excursion d best worst c in
      if stop_hit d stop c then closed_out [(1, stop, STOP_LOSS)] c bars best worst
      else if tp_hit d tp c then closed_out [(1, tp, TAKE_PROFIT)] c bars best worst
      else fixed_walk d stop tp future cs bars best worst)"

fun time_walk ::
  "direction \<Rightarrow> pyfloat \<Rightarrow> pyfloat \<Rightarrow> int \<Rightarrow> candle list \<Rightarrow> candle list \<Rightarrow> nat \<Rightarrow> pyfloat \<Rightarrow> pyfloat \<Rightarrow>
   exit_outcome result" where
  "time_walk d stop tp max_bars future [] bars best worst = flatten_legs [] 1 future bars best worst"
| "time_walk d stop tp max_bars future (c # cs) bars best worst =
     (let bars = bars + 1; (best, worst) = excursion d best worst c in
      if stop_hit d stop c then closed_out [(1, stop, STOP_LOSS)] c bars best worst
      else if tp_hit d tp c then closed_out [(1, tp, TAKE_PROFIT)] c bars best worst
      else if int bars \<ge> max_bars then closed_out [(1, c_close c, TIME_STOP)] c bars best worst
      else time_walk d stop tp max_bars future cs bars best worst)"

fun breakeven_walk ::
  "direction \<Rightarrow> pyfloat \<Rightarrow> pyfloat \<Rightarrow> pyfloat \<Rightarrow> candle list \<Rightarrow> candle list \<Rightarrow> pyfloat \<Rightarrow> bool \<Rightarrow> nat \<Rightarrow>
   pyfloat \<Rightarrow> pyfloat \<Rightarrow> exit_outcome result" where
  "breakeven_walk d entry tp be_trigger future [] cur_stop be_active bars best worst =
     flatten_legs [] 1 future bars best worst"
| "breakeven_walk d entry tp be_trigger future (c # cs) cur_stop be_active bars best worst =
     (let bars = bars + 1; (best, worst) = excursion d best worst c in
      if stop_hit d cur_stop c then closed_out [(1, cur_stop, STOP_LOSS)] c bars best worst
      else if tp_hit d tp c then closed_out [(1, tp, TAKE_PROFIT)] c bars best worst
      else if \<not> be_active \<and> tp_hit d be_trigger c
      then breakeven_walk d entry tp be_trigger future cs entry True bars best worst
      else breakeven_walk d entry tp be_trigger future cs cur_stop be_active bars best worst)"

fun trail_walk ::
  "direction \<Rightarrow> pyfloat \<Rightarrow> pyfloat \<Rightarrow> candle list \<Rightarrow> candle list \<Rightarrow> pyfloat \<Rightarrow> nat \<Rightarrow> pyfloat \<Rightarrow> pyfloat \<Rightarrow>
   exit_outcome result" where
  "trail_walk d stop gap future [] cur_stop bars best worst = flatten_legs [] 1 future bars best worst"
| "trail_walk d stop gap future (c # cs) cur_stop bars best worst =
     (let bars = bars + 1; (best', worst') = excursion d best worst c in
      if stop_hit d cur_stop c
      then closed_out [(1, cur_stop, if \<bar>cur_stop - stop\<bar> > 1 / 10^9 then TRAILING_STOP else STOP_LOSS)]
             c bars best' worst'
      else trail_walk d stop gap future cs (ratchet d cur_stop best' gap None) bars best' worst')"

text \<open>The runner of \<open>ScaleRunner\<close> after its first target, then the loop before it.\<close>

fun runner_walk ::
  "direction \<Rightarrow> pyfloat \<Rightarrow> pyfloat \<Rightarrow> leg list \<Rightarrow> pyfloat \<Rightarrow> candle list \<Rightarrow> candle list \<Rightarrow> pyfloat \<Rightarrow> nat \<Rightarrow>
   pyfloat \<Rightarrow> pyfloat \<Rightarrow> exit_outcome result" where
  "runner_walk d entry gap legs remaining future [] cur_stop bars best worst =
     flatten_legs legs remaining future bars best worst"
| "runner_walk d entry gap legs remaining future (c # cs) cur_stop bars best worst =
     (let bars = bars + 1 in
      if stop_hit d cur_stop c
      then closed_out (legs @ [(remaining, cur_stop,
             if \<bar>cur_stop - entry\<bar> > 1 / 10^9 then TRAILING_STOP else STOP_LOSS)]) c bars best worst
      else let (best, worst) = excursion d best worst c
           in runner_walk d entry gap legs remaining future cs
                (ratchet d cur_stop best gap (Some entry)) bars best worst)"

fun scale_walk ::
  "direction \<Rightarrow> pyfloat \<Rightarrow> pyfloat \<Rightarrow> pyfloat \<Rightarrow> pyfloat \<Rightarrow> pyfloat \<Rightarrow> candle list \<Rightarrow> candle list \<Rightarrow> nat \<Rightarrow>
   pyfloat \<Rightarrow> pyfloat \<Rightarrow> exit_outcome result" where
  "scale_walk d entry stop first_tp first_frac gap future [] bars best worst =
     flatten_legs [] 1 future bars best worst"
| "scale_walk d entry stop first_tp first_frac gap future (c # cs) bars best worst =
     (let bars = bars + 1; (best, worst) = excursion d best worst c in
      if stop_hit d stop c then closed_out [(1, stop, STOP_LOSS)] c bars best worst
      else if tp_hit d first_tp c
      then runner_walk d entry gap [(first_frac, first_tp, TAKE_PROFIT)] (1 - first_frac) future cs
             (ratchet d entry best gap (Some entry)) bars best worst
      else scale_walk d entry stop first_tp first_frac gap future cs bars best worst)"

definition trail_base :: "pyfloat option \<Rightarrow> pyfloat \<Rightarrow> pyfloat" where
  "trail_base atr_at_entry R = (case atr_at_entry of Some a \<Rightarrow> if a > 0 then a else R | None \<Rightarrow> R)"

definition mean_target :: "direction \<Rightarrow> pyfloat \<Rightarrow> pyfloat \<Rightarrow> pyfloat option \<Rightarrow> pyfloat \<Rightarrow> pyfloat" where
  "mean_target d entry R target rr =
     (case target of
        Some t \<Rightarrow> if (t - entry) * sign d > 0 then t else entry + rr * R * sign d
      | None \<Rightarrow> entry + rr * R * sign d)"

fun model_simulate ::
  "exit_model \<Rightarrow> pyfloat \<Rightarrow> direction \<Rightarrow> pyfloat \<Rightarrow> candle list \<Rightarrow> pyfloat option \<Rightarrow> pyfloat option \<Rightarrow>
   exit_outcome result" where
  "model_simulate (FixedRR rr) entry d stop future atr target =
     fixed_walk d stop (entry + rr * \<bar>entry - stop\<bar> * sign d) future future 0 entry entry"
| "model_simulate (BreakevenAfter1R rr be_at) entry d stop future atr target =
     breakeven_walk d entry (entry + rr * \<bar>entry - stop\<bar> * sign d)
       (entry + be_at * \<bar>entry - stop\<bar> * sign d) future future stop False 0 entry entry"
| "model_simulate (TimeStop rr max_bars) entry d stop future atr target =
     time_walk d stop (entry + rr * \<bar>entry - stop\<bar> * sign d) max_bars future future 0 entry entry"
| "model_simulate (AtrTrailing mult) entry d stop future atr target =
     trail_walk d stop (mult * trail_base atr \<bar>entry - stop\<bar>) future future stop 0 entry entry"
| "model_simulate (ScaleRunner first_rr first_frac mult) entry d stop future atr target =
     scale_walk d entry stop (entry + first_rr * \<bar>entry - stop\<bar> * sign d) first_frac
       (mult * trail_base atr \<bar>entry - stop\<bar>) future future 0 entry entry"
| "model_simulate (MeanTargetExit rr) entry d stop future atr target =
     fixed_walk d stop (mean_target d entry \<bar>entry - stop\<bar> target rr) future future 0 entry entry"

definition default_exit_models :: "exit_model list" where
  "default_exit_models =
     [FixedRR 2, BreakevenAfter1R 2 1, ScaleRunner 2 (1/2) 2, AtrTrailing 2, TimeStop 2 24, MeanTargetExit 2]"

subsection \<open>One entry under one model\<close>

definition leg_close :: "pyfloat \<Rightarrow> direction \<Rightarrow> pyfloat \<Rightarrow> pyfloat \<Rightarrow> leg \<Rightarrow> partial_close" where
  "leg_close entry d R ms l =
     (case l of (fr, price, reason) \<Rightarrow>
        \<lparr>pc_price = price, pc_fraction = fr, pc_reason = reason, pc_ms = ms,
         pc_rr = (price - entry) * sign d / R, pc_pnl_price = (price - entry) * sign d\<rparr>)"

definition legs_pnl :: "pyfloat \<Rightarrow> direction \<Rightarrow> leg list \<Rightarrow> pyfloat" where
  "legs_pnl entry d legs = (\<Sum>(fr, price, reason)\<leftarrow>legs. fr * (price - entry) * sign d)"

definition legs_rr :: "pyfloat \<Rightarrow> direction \<Rightarrow> pyfloat \<Rightarrow> leg list \<Rightarrow> pyfloat" where
  "legs_rr entry d R legs = (\<Sum>(fr, price, reason)\<leftarrow>legs. fr * ((price - entry) * sign d / R))"

definition entry_trade ::
  "(pyfloat \<Rightarrow> string) \<Rightarrow> entry_intent \<Rightarrow> exit_model \<Rightarrow> cfd_instrument \<Rightarrow> pyfloat \<Rightarrow> pyfloat \<Rightarrow>
   exit_outcome \<Rightarrow> simulated_trade" where
  "entry_trade fmt intent model inst lot cost_usd out =
     (let d = in_direction intent; entry = in_entry intent; R = r_distance intent;
          pnl_price = legs_pnl entry d (eo_legs out);
          pnl_usd = pnl_price * point_value_per_lot inst * lot
      in \<lparr>t_instrument = in_instrument intent, t_direction = d, t_entry_price = entry,
          t_entry_ms = in_ms intent, t_exit_price = fst (snd (last (eo_legs out))),
          t_exit_ms = eo_exit_ms out, t_exit_reason = snd (snd (last (eo_legs out))),
          t_lots = lot, t_planned_rr = target_rr model,
          t_realized_rr = legs_rr entry d R (eo_legs out), t_pnl_price = pnl_price,
          t_pnl_usd = pnl_usd, t_cost_usd = cost_usd, t_net_pnl_usd = pnl_usd - cost_usd,
          t_mfe_price = \<bar>eo_max_fav out - entry\<bar>,
          t_mae_price = min \<bar>eo_max_adv out - entry\<bar> R,
          t_bars_held = eo_bars_held out,
          t_partials = List.map (leg_close entry d R (eo_exit_ms out)) (eo_legs out),
          t_closed = eo_closed out, t_strategy_id = '''', t_session = '''', t_regime = '''', t_volatility = '''',
          t_exit_model = model_name fmt model, t_timeframe = ''''\<rparr>)"

definition simulate_entry ::
  "registry \<Rightarrow> (pyfloat \<Rightarrow> string) \<Rightarrow> entry_intent \<Rightarrow> candle list \<Rightarrow> exit_model \<Rightarrow> pyfloat \<Rightarrow> pyfloat \<Rightarrow>
   cost_model option \<Rightarrow> pyfloat option \<Rightarrow> simulated_trade option result" where
  "simulate_entry reg fmt intent future model risk_pct ref_balance cost atr =
     (let cm = (case cost of None \<Rightarrow> COST_MODEL_INTRADAY | Some m \<Rightarrow> m); R = r_distance intent in
      if R \<le> 0 \<or> future = [] then Inr None
      else case get_instrument reg (in_instrument intent) of
        Inl e \<Rightarrow> Inl e
      | Inr inst \<Rightarrow>
         (case calculate_lot_size reg (in_instrument intent) ref_balance risk_pct R None of
            Inl e \<Rightarrow> Inl e
          | Inr sizing \<Rightarrow>
              if rejected sizing then Inr None
              else case model_simulate model (in_entry intent) (in_direction intent) (in_stop intent) future
                          atr (in_target intent) of
                     Inl e \<Rightarrow> Inl e
                   | Inr out \<Rightarrow>
                       if eo_legs out = [] then Inr None
                       else case calculate_trade_cost reg (in_instrument intent) (lot_size sizing) None 1 0 0
                                   (Some cm) (Some inst) of
                              Inl e \<Rightarrow> Inl e
                            | Inr c \<Rightarrow>
                                Inr (Some (entry_trade fmt intent model inst (lot_size sizing) (total_usd c) out))))"

subsection \<open>No exit model risks more than the stop\<close>

text \<open>How far a price lies on the profit side of the entry.\<close>

definition gain :: "pyfloat \<Rightarrow> direction \<Rightarrow> pyfloat \<Rightarrow> pyfloat" where
  "gain entry d price = (price - entry) * sign d"

definition legs_cover :: "pyfloat \<Rightarrow> pyfloat \<Rightarrow> direction \<Rightarrow> leg list \<Rightarrow> bool" where
  "legs_cover lo entry d legs \<longleftrightarrow> legs \<noteq> [] \<and> (\<Sum>l\<leftarrow>legs. fst l) = 1 \<and>
     list_all (\<lambda>l. 0 \<le> fst l \<and> lo \<le> gain entry d (fst (snd l))) legs"

text \<open>The bars still to walk are the end of the window, whose last close is safe if none is left.\<close>

definition tail_of :: "(pyfloat \<Rightarrow> bool) \<Rightarrow> candle list \<Rightarrow> candle list \<Rightarrow> bool" where
  "tail_of ok future cs \<longleftrightarrow> future \<noteq> [] \<and> list_all ohlc_ok cs \<and>
     (if cs = [] then ok (c_close (last future)) else last future = last cs)"

lemma tail_of_start: "future \<noteq> [] \<Longrightarrow> list_all ohlc_ok future \<Longrightarrow> tail_of ok future future"
  by (simp add: tail_of_def)

lemma tail_of_step:
  "tail_of ok future (c # cs) \<Longrightarrow> (ohlc_ok c \<Longrightarrow> ok (c_close c)) \<Longrightarrow> tail_of ok future cs"
  by (auto simp: tail_of_def split: if_splits)

lemma tail_of_mono:
  "tail_of ok future cs \<Longrightarrow> (\<And>p. ok p \<Longrightarrow> ok' p) \<Longrightarrow> tail_of ok' future cs"
  by (auto simp: tail_of_def)

lemma not_stop_hit: "\<not> stop_hit d s c \<Longrightarrow> ohlc_ok c \<Longrightarrow> gain e d s \<le> gain e d (c_close c)"
  by (cases d) (auto simp: stop_hit_def gain_def sign_def ohlc_ok_def)

lemma not_tp_hit: "\<not> tp_hit d t c \<Longrightarrow> ohlc_ok c \<Longrightarrow> gain e d (c_close c) \<le> gain e d t"
  by (cases d) (auto simp: tp_hit_def gain_def sign_def ohlc_ok_def)

text \<open>A single leg of the whole position, its price between two levels.\<close>

definition one_leg :: "(pyfloat \<Rightarrow> bool) \<Rightarrow> exit_outcome result \<Rightarrow> bool" where
  "one_leg ok r \<longleftrightarrow> (case r of Inl e \<Rightarrow> False
     | Inr out \<Rightarrow> (case eo_legs out of [(fr, p, why)] \<Rightarrow> fr = 1 \<and> ok p | _ \<Rightarrow> False))"

lemma one_leg_closed_out [simp]: "one_leg ok (closed_out [(1, p, why)] c bars b w) = ok p"
  by (simp add: one_leg_def closed_out_def)

lemma one_leg_flatten: "tail_of ok future [] \<Longrightarrow> one_leg ok (flatten_legs [] 1 future bars b w)"
  by (simp add: one_leg_def flatten_legs_def tail_of_def)

lemma fixed_walk_leg:
  assumes "tail_of (\<lambda>p. gain e d stop \<le> gain e d p \<and> gain e d p \<le> gain e d tp) future cs"
    and "gain e d stop \<le> gain e d tp"
  shows "one_leg (\<lambda>p. gain e d stop \<le> gain e d p \<and> gain e d p \<le> gain e d tp)
    (fixed_walk d stop tp future cs bars b w)"
  using assms
proof (induction cs arbitrary: bars b w)
  case Nil
  then show ?case by (simp add: one_leg_flatten)
next
  case (Cons c cs)
  obtain b' w' where x: "excursion d b w c = (b', w')" by fastforce
  show ?case
  proof (cases "stop_hit d stop c \<or> tp_hit d tp c")
    case True
    then show ?thesis using Cons.prems(2) by (auto simp: x Let_def)
  next
    case False
    then show ?thesis
      using Cons.IH[OF tail_of_step[OF Cons.prems(1)] Cons.prems(2)] not_stop_hit not_tp_hit by (simp add: x Let_def)
  qed
qed

lemma time_walk_leg:
  assumes "tail_of (\<lambda>p. gain e d stop \<le> gain e d p \<and> gain e d p \<le> gain e d tp) future cs"
    and "gain e d stop \<le> gain e d tp"
  shows "one_leg (\<lambda>p. gain e d stop \<le> gain e d p \<and> gain e d p \<le> gain e d tp)
    (time_walk d stop tp n future cs bars b w)"
  using assms
proof (induction cs arbitrary: bars b w)
  case Nil
  then show ?case by (simp add: one_leg_flatten)
next
  case (Cons c cs)
  obtain b' w' where x: "excursion d b w c = (b', w')" by fastforce
  have bar: "ohlc_ok c" using Cons.prems(1) by (simp add: tail_of_def)
  show ?case
  proof (cases "stop_hit d stop c \<or> tp_hit d tp c")
    case True
    then show ?thesis using Cons.prems(2) by (auto simp: x Let_def)
  next
    case False
    then show ?thesis
      using Cons.IH[OF tail_of_step[OF Cons.prems(1)] Cons.prems(2)] not_stop_hit not_tp_hit bar
      by (simp add: x Let_def)
  qed
qed

lemma breakeven_walk_leg:
  assumes "tail_of (\<lambda>p. lo \<le> gain e d p \<and> gain e d p \<le> gain e d tp) future cs"
    and "lo \<le> gain e d cur" and "gain e d cur \<le> gain e d tp" and "lo \<le> 0" and "0 \<le> gain e d tp"
  shows "one_leg (\<lambda>p. lo \<le> gain e d p \<and> gain e d p \<le> gain e d tp)
    (breakeven_walk d e tp trig future cs cur act bars b w)"
  using assms
proof (induction cs arbitrary: cur act bars b w)
  case Nil
  then show ?case by (simp add: one_leg_flatten)
next
  case (Cons c cs)
  obtain b' w' where x: "excursion d b w c = (b', w')" by fastforce
  show ?case
  proof (cases "stop_hit d cur c \<or> tp_hit d tp c")
    case True
    then show ?thesis using Cons.prems by (auto simp: x Let_def)
  next
    case False
    have tail: "tail_of (\<lambda>p. lo \<le> gain e d p \<and> gain e d p \<le> gain e d tp) future cs"
      using tail_of_step[OF Cons.prems(1)] not_stop_hit[of d cur c e] not_tp_hit[of d tp c e] False Cons.prems(2)
      by (meson order.trans)
    have e: "gain e d e = 0" by (simp add: gain_def)
    show ?thesis
      using False Cons.IH[OF tail Cons.prems(2-5)] Cons.IH[OF tail _ _ Cons.prems(4,5), of e] Cons.prems(4,5)
      by (auto simp: x Let_def e)
  qed
qed

lemma ratchet_ge: "gain e d cur \<le> gain e d (ratchet d cur best gap fl)"
  by (cases d) (auto simp: ratchet_def gain_def sign_def Let_def)

lemma trail_walk_leg:
  assumes "tail_of (\<lambda>p. lo \<le> gain e d p) future cs" and "lo \<le> gain e d cur"
  shows "one_leg (\<lambda>p. lo \<le> gain e d p) (trail_walk d stop gap future cs cur bars b w)"
  using assms
proof (induction cs arbitrary: cur bars b w)
  case Nil
  then show ?case by (simp add: one_leg_flatten)
next
  case (Cons c cs)
  obtain b' w' where x: "excursion d b w c = (b', w')" by fastforce
  show ?case
  proof (cases "stop_hit d cur c")
    case True
    then show ?thesis using Cons.prems by (simp add: x Let_def)
  next
    case False
    have "tail_of (\<lambda>p. lo \<le> gain e d p) future cs"
      using tail_of_step[OF Cons.prems(1)] not_stop_hit[OF False, of e] Cons.prems(2) by (meson order.trans)
    then show ?thesis
      using False Cons.IH[of "ratchet d cur b' gap None"] Cons.prems(2) ratchet_ge[of e d cur b' gap None]
      by (simp add: x Let_def)
  qed
qed


definition covers :: "pyfloat \<Rightarrow> pyfloat \<Rightarrow> direction \<Rightarrow> exit_outcome result \<Rightarrow> bool" where
  "covers lo e d r \<longleftrightarrow> (case r of Inl x \<Rightarrow> False | Inr out \<Rightarrow> legs_cover lo e d (eo_legs out))"

lemma one_leg_covers: "one_leg (\<lambda>p. lo \<le> gain e d p \<and> q p) r \<Longrightarrow> covers lo e d r"
  by (auto simp: one_leg_def covers_def legs_cover_def split: sum.splits list.splits)

lemma one_leg_covers': "one_leg (\<lambda>p. lo \<le> gain e d p) r \<Longrightarrow> covers lo e d r"
  using one_leg_covers[where q = "\<lambda>_. True"] by simp

lemma runner_walk_covers:
  assumes "tail_of (\<lambda>p. lo \<le> gain e d p) future cs" and "lo \<le> gain e d cur"
    and "legs_cover lo e d (legs @ [(rest, cur, STOP_LOSS)])"
  shows "covers lo e d (runner_walk d e gap legs rest future cs cur bars b w)"
  using assms
proof (induction cs arbitrary: cur bars b w)
  case Nil
  then show ?case by (simp add: covers_def flatten_legs_def legs_cover_def tail_of_def)
next
  case (Cons c cs)
  obtain b' w' where x: "excursion d b w c = (b', w')" by fastforce
  show ?case
  proof (cases "stop_hit d cur c")
    case True
    then show ?thesis using Cons.prems by (simp add: covers_def closed_out_def legs_cover_def)
  next
    case False
    let ?cur = "ratchet d cur b' gap (Some e)"
    have tail: "tail_of (\<lambda>p. lo \<le> gain e d p) future cs"
      using tail_of_step[OF Cons.prems(1)] not_stop_hit[OF False, of e] Cons.prems(2) by (meson order.trans)
    have "lo \<le> gain e d ?cur" using Cons.prems(2) ratchet_ge by (rule order.trans)
    moreover from this have "legs_cover lo e d (legs @ [(rest, ?cur, STOP_LOSS)])"
      using Cons.prems(3) by (simp add: legs_cover_def)
    ultimately show ?thesis using False Cons.IH[OF tail] by (simp add: x Let_def)
  qed
qed

lemma scale_walk_covers:
  assumes "tail_of (\<lambda>p. lo \<le> gain e d p) future cs" and "lo \<le> gain e d stop" and "lo \<le> 0"
    and "0 \<le> gain e d tp" and "0 \<le> fr" and "fr \<le> 1"
  shows "covers lo e d (scale_walk d e stop tp fr gap future cs bars b w)"
  using assms(1)
proof (induction cs arbitrary: bars b w)
  case Nil
  then show ?case by (intro one_leg_covers') (simp add: one_leg_flatten)
next
  case (Cons c cs)
  obtain b' w' where x: "excursion d b w c = (b', w')" by fastforce
  show ?case
  proof (cases "stop_hit d stop c")
    case True
    then show ?thesis using assms(2) by (simp add: x Let_def covers_def closed_out_def legs_cover_def)
  next
    case False
    have tail: "tail_of (\<lambda>p. lo \<le> gain e d p) future cs"
      using tail_of_step[OF Cons.prems(1)] not_stop_hit[OF False, of e] assms(2) by (meson order.trans)
    have e: "gain e d e = 0" by (simp add: gain_def)
    let ?cur = "ratchet d e b' gap (Some e)"
    have cur: "lo \<le> gain e d ?cur" using ratchet_ge[of e d e] assms(3) e by (metis order.trans)
    then have legs: "legs_cover lo e d ([(fr, tp, TAKE_PROFIT)] @ [(1 - fr, ?cur, STOP_LOSS)])"
      using assms by (simp add: legs_cover_def)
    show ?thesis using False Cons.IH[OF tail] runner_walk_covers[OF tail cur legs] by (simp add: x Let_def)
  qed
qed

text \<open>The parameters a model is constructed with: a target on the profit side, a fraction.\<close>

fun wf_model :: "exit_model \<Rightarrow> bool" where
  "wf_model (FixedRR rr) = (0 \<le> rr)"
| "wf_model (BreakevenAfter1R rr be_at) = (0 \<le> rr)"
| "wf_model (TimeStop rr max_bars) = (0 \<le> rr)"
| "wf_model (AtrTrailing mult) = True"
| "wf_model (ScaleRunner first_rr first_frac mult) = (0 \<le> first_rr \<and> 0 \<le> first_frac \<and> first_frac \<le> 1)"
| "wf_model (MeanTargetExit rr) = (0 \<le> rr)"

fun capped :: "exit_model \<Rightarrow> bool" where
  "capped (FixedRR rr) = True"
| "capped (BreakevenAfter1R rr be_at) = True"
| "capped (TimeStop rr max_bars) = True"
| "capped m = False"

lemma gain_target: "gain e d (e + rr * \<bar>e - s\<bar> * sign d) = rr * \<bar>e - s\<bar>"
  by (cases d) (simp_all add: gain_def sign_def)

lemma gain_stop: "0 < (e - s) * sign d \<Longrightarrow> gain e d s = - \<bar>e - s\<bar>"
  by (cases d) (simp_all add: gain_def sign_def)

lemma gain_mean_target: "0 \<le> rr \<Longrightarrow> 0 \<le> gain e d (mean_target d e \<bar>e - s\<bar> target rr)"
  by (auto simp: mean_target_def gain_target split: option.split) (simp add: gain_def)

lemma capped_one_leg:
  assumes "capped m" "wf_model m" and side: "0 < (e - s) * sign d"
    and bars: "future \<noteq> []" "list_all ohlc_ok future"
  shows "one_leg (\<lambda>p. - \<bar>e - s\<bar> \<le> gain e d p \<and> gain e d p \<le> target_rr m * \<bar>e - s\<bar>)
    (model_simulate m e d s future atr target)"
proof -
  note tail = tail_of_start[OF bars]
  note stop = gain_stop[OF side]
  have le: "- \<bar>e - s\<bar> \<le> rr * \<bar>e - s\<bar>" if "0 \<le> rr" for rr
    using mult_nonneg_nonneg[OF that abs_ge_zero, of "e - s"] by linarith
  show ?thesis
  proof (cases m)
    case (FixedRR rr)
    with assms le[of rr] fixed_walk_leg[OF tail, of e d s "e + rr * \<bar>e - s\<bar> * sign d"] show ?thesis
      by (simp add: gain_target stop)
  next
    case (BreakevenAfter1R rr be)
    let ?tp = "e + rr * \<bar>e - s\<bar> * sign d"
    have "0 \<le> rr" using assms(2) BreakevenAfter1R by simp
    then have "one_leg (\<lambda>p. - \<bar>e - s\<bar> \<le> gain e d p \<and> gain e d p \<le> gain e d ?tp)
        (breakeven_walk d e ?tp (e + be * \<bar>e - s\<bar> * sign d) future future s False 0 e e)"
      by (intro breakeven_walk_leg[OF tail]) (simp_all add: gain_target stop le)
    then show ?thesis using BreakevenAfter1R by (simp add: gain_target)
  next
    case (TimeStop rr n)
    with assms le[of rr] time_walk_leg[OF tail, of e d s "e + rr * \<bar>e - s\<bar> * sign d"] show ?thesis
      by (simp add: gain_target stop)
  qed (use assms in simp_all)
qed

lemma model_covers:
  assumes wf: "wf_model m" and side: "0 < (e - s) * sign d"
    and bars: "future \<noteq> []" "list_all ohlc_ok future"
  shows "covers (- \<bar>e - s\<bar>) e d (model_simulate m e d s future atr target)"
proof (cases "capped m")
  case True
  show ?thesis by (rule one_leg_covers[OF capped_one_leg[OF True assms]])
next
  case False
  note tail = tail_of_start[OF bars]
  note stop = gain_stop[OF side]
  show ?thesis
  proof (cases m)
    case (AtrTrailing k)
    have "- \<bar>e - s\<bar> \<le> gain e d s" by (simp add: stop)
    from one_leg_covers'[OF trail_walk_leg[OF tail this]] show ?thesis using AtrTrailing by simp
  next
    case (ScaleRunner rr fr k)
    with wf show ?thesis by (auto intro!: scale_walk_covers tail simp: stop gain_target)
  next
    case (MeanTargetExit rr)
    let ?tp = "mean_target d e \<bar>e - s\<bar> target rr"
    have tp: "0 \<le> gain e d ?tp" using wf MeanTargetExit by (intro gain_mean_target) simp
    then have "gain e d s \<le> gain e d ?tp" by (simp add: stop)
    note leg = fixed_walk_leg[OF tail this]
    show ?thesis
      unfolding MeanTargetExit model_simulate.simps by (rule one_leg_covers[OF leg[unfolded stop]])
  qed (use False in simp_all)
qed



lemma legs_rr_bound:
  assumes "legs_cover (- R) e d legs" and "0 < R"
  shows "-1 \<le> legs_rr e d R legs"
proof -
  have "list_all (\<lambda>l. 0 \<le> fst l \<and> - R \<le> gain e d (fst (snd l))) ls \<Longrightarrow>
      - (\<Sum>l\<leftarrow>ls. fst l) \<le> legs_rr e d R ls" for ls
  proof (induction ls)
    case Nil
    then show ?case by (simp add: legs_rr_def)
  next
    case (Cons l ls)
    obtain fr p why where l: "l = (fr, p, why)" by (metis prod_cases3)
    have "-1 \<le> (p - e) * sign d / R" using Cons.prems assms(2) by (simp add: l gain_def field_simps)
    then have "fr * -1 \<le> fr * ((p - e) * sign d / R)" using Cons.prems by (intro mult_left_mono) (simp_all add: l)
    with Cons show ?case by (simp add: l legs_rr_def)
  qed
  from this[of legs] show ?thesis using assms(1) by (simp add: legs_cover_def)
qed

lemma legs_pnl_rr: "R \<noteq> 0 \<Longrightarrow> legs_pnl e d legs = legs_rr e d R legs * R"
  by (induction legs) (auto simp: legs_pnl_def legs_rr_def field_simps)

lemma one_leg_rr:
  assumes "one_leg (\<lambda>p. lo \<le> gain e d p \<and> gain e d p \<le> k * R) (Inr out)" and "0 < R"
  shows "legs_rr e d R (eo_legs out) \<le> k"
  using assms by (auto simp: one_leg_def legs_rr_def gain_def field_simps split: list.splits)

text \<open>A trade simulate_entry returned: how it came about.\<close>

lemma simulate_entry_cases:
  assumes "simulate_entry reg fmt intent future m pct bal cost atr = Inr (Some t)"
  obtains inst sz out cost_usd where "get_instrument reg (in_instrument intent) = Inr inst"
    and "calculate_lot_size reg (in_instrument intent) bal pct (r_distance intent) None = Inr sz"
    and "\<not> rejected sz" and "future \<noteq> []" and "0 < r_distance intent"
    and "model_simulate m (in_entry intent) (in_direction intent) (in_stop intent) future atr (in_target intent) = Inr out"
    and "t = entry_trade fmt intent m inst (lot_size sz) cost_usd out"
proof -
  from assms have "\<exists>inst sz out cost_usd. get_instrument reg (in_instrument intent) = Inr inst \<and>
     calculate_lot_size reg (in_instrument intent) bal pct (r_distance intent) None = Inr sz \<and> \<not> rejected sz \<and>
     future \<noteq> [] \<and> 0 < r_distance intent \<and>
     model_simulate m (in_entry intent) (in_direction intent) (in_stop intent) future atr (in_target intent) = Inr out \<and>
     t = entry_trade fmt intent m inst (lot_size sz) cost_usd out"
    by (auto simp: simulate_entry_def Let_def not_le split: if_splits sum.splits)
  then show thesis by (elim exE conjE) (rule that)
qed

lemma simulate_entry_facts:
  assumes trade: "simulate_entry reg fmt intent future m pct bal cost atr = Inr (Some t)"
    and wf: "wf_registry reg" "wf_model m" and bars: "list_all ohlc_ok future"
    and side: "0 < (in_entry intent - in_stop intent) * sign (in_direction intent)"
  shows "(\<Sum>pc\<leftarrow>t_partials t. pc_fraction pc) = 1 \<and> list_all (\<lambda>pc. 0 \<le> pc_fraction pc) (t_partials t) \<and>
    -1 \<le> t_realized_rr t \<and> - (bal * pct / 100) \<le> t_pnl_usd t \<and> t_mae_price t \<le> r_distance intent \<and>
    t_net_pnl_usd t = t_pnl_usd t - t_cost_usd t \<and>
    (if capped m then t_realized_rr t \<le> target_rr m else True)"
proof -
  let ?R = "r_distance intent" and ?e = "in_entry intent" and ?d = "in_direction intent"
  obtain inst sz out cost_usd where inst: "get_instrument reg (in_instrument intent) = Inr inst"
    and sz: "calculate_lot_size reg (in_instrument intent) bal pct ?R None = Inr sz" "\<not> rejected sz"
    and future: "future \<noteq> []" and R: "0 < ?R"
    and out: "model_simulate m ?e ?d (in_stop intent) future atr (in_target intent) = Inr out"
    and t: "t = entry_trade fmt intent m inst (lot_size sz) cost_usd out"
    by (rule simulate_entry_cases[OF trade])
  have wfi: "wf_instrument inst" "cent_lots inst" using get_instrument_wf[OF wf(1) inst] by auto
  have cover: "legs_cover (- ?R) ?e ?d (eo_legs out)"
    using model_covers[OF wf(2) side future bars, of atr "in_target intent"]
    by (simp add: out covers_def r_distance_def)
  let ?rr = "legs_rr ?e ?d ?R (eo_legs out)"
  have rr: "-1 \<le> ?rr" by (rule legs_rr_bound[OF cover R])
  note size = sz(1)[unfolded lot_size_instrument[OF inst]]
  have lots: "0 < lot_size sz" by (rule accepted_lot_pos[OF wfi size sz(2)])
  have cost: "?R * point_value_per_lot inst * lot_size sz \<le> bal * pct / 100"
    using accepted_cost_le[OF wfi size sz(2)] R by (simp add: sl_cost_per_lot_def mult.commute mult.left_commute)
  have "0 \<le> ?R * point_value_per_lot inst * lot_size sz"
    using R wfi lots by (simp add: wf_instrument_def)
  from mult_right_mono[OF rr this]
  have pnl: "- (bal * pct / 100) \<le> legs_pnl ?e ?d (eo_legs out) * point_value_per_lot inst * lot_size sz"
    using cost R by (simp add: legs_pnl_rr[of ?R] mult.assoc)
  have cap: "?rr \<le> target_rr m" if "capped m"
    using one_leg_rr[OF _ R] capped_one_leg[OF that wf(2) side future bars, of atr "in_target intent"]
    by (simp add: out r_distance_def)
  have "(\<Sum>pc\<leftarrow>List.map (leg_close ?e ?d ?R ms) ls. pc_fraction pc) = (\<Sum>l\<leftarrow>ls. fst l)" for ms ls
    by (induction ls) (auto simp: leg_close_def)
  moreover have "list_all (\<lambda>pc. 0 \<le> pc_fraction pc) (List.map (leg_close ?e ?d ?R ms) ls) =
      list_all (\<lambda>l. 0 \<le> fst l) ls" for ms ls
    by (induction ls) (auto simp: leg_close_def)
  ultimately show ?thesis
    using cover rr pnl cap by (auto simp: t entry_trade_def Let_def legs_cover_def list_all_iff)
qed


text \<open>C36: An exit model never risks more than the stop: for an entry with its stop on the loss side
  and well-formed bars, every trade \<open>simulate_entry\<close> returns closes the whole position in
  non-negative parts, realizes at least minus one R, loses at most the risk budget before costs,
  reports an adverse excursion of at most one R, and under a fixed-target model realizes at most
  the target.\<close>

theorem research_trade_bounded:
  assumes trade: "simulate_entry reg fmt intent future m pct bal cost atr = Inr (Some t)"
    and wf: "wf_registry reg" "wf_model m" and bars: "list_all ohlc_ok future"
    and side: "0 < (in_entry intent - in_stop intent) * sign (in_direction intent)"
  shows "(\<Sum>pc\<leftarrow>t_partials t. pc_fraction pc) = 1 \<and> list_all (\<lambda>pc. 0 \<le> pc_fraction pc) (t_partials t) \<and>
    -1 \<le> t_realized_rr t \<and> - (bal * pct / 100) \<le> t_pnl_usd t \<and> t_mae_price t \<le> r_distance intent \<and>
    t_net_pnl_usd t = t_pnl_usd t - t_cost_usd t \<and>
    (if capped m then t_realized_rr t \<le> target_rr m else True)"
  using simulate_entry_facts[OF assms] .

definition demo_intent :: entry_intent where
  "demo_intent = \<lparr>in_instrument = ''XAUUSD'', in_direction = LONG, in_entry = 2400, in_stop = 2390,
     in_ms = 0, in_reason = '''', in_target = None\<rparr>"

theorem research_trade_bounded_witness:
  "case simulate_entry gold_registry (\<lambda>_. []) demo_intent
      [demo_bar 300000 2401 2425 2399 2418, demo_bar 600000 2418 2419 2380 2385] (ScaleRunner 2 (1/2) 2) 1 100000
      None (Some 5) of
     Inl e \<Rightarrow> False | Inr None \<Rightarrow> False
   | Inr (Some t) \<Rightarrow> -1 \<le> t_realized_rr t \<and> -1000 \<le> t_pnl_usd t \<and> t_mae_price t \<le> 10"
proof -
  let ?bars = "[demo_bar 300000 2401 2425 2399 2418, demo_bar 600000 2418 2419 2380 2385]"
  obtain t where t: "simulate_entry gold_registry (\<lambda>_. []) demo_intent ?bars (ScaleRunner 2 (1/2) 2) 1 100000
      None (Some 5) = Inr (Some t)"
    by (simp add: simulate_entry_def demo_intent_def r_distance_def gold_lookup sizing_gold_example Let_def
        stop_hit_def tp_hit_def excursion_def ratchet_def trail_base_def sign_def demo_bar_def closed_out_def
        calculate_trade_cost_def)
  have bars: "list_all ohlc_ok ?bars" by (simp add: ohlc_ok_def demo_bar_def)
  have "r_distance demo_intent = 10" by (simp add: r_distance_def demo_intent_def)
  then show ?thesis
    using research_trade_bounded[OF t gold_registry_wf _ bars] unfolding t
    by (simp add: demo_intent_def sign_def)
qed

subsection \<open>The baseline model is the backtest's exit engine\<close>

text \<open>A position before its first exit, with one take-profit for the whole of it.\<close>

definition whole_target :: "direction \<Rightarrow> pyfloat \<Rightarrow> pyfloat \<Rightarrow> managed_position \<Rightarrow> bool" where
  "whole_target d stop tp p \<longleftrightarrow> is_open p \<and> mp_direction p = d \<and> current_stop p = stop \<and>
     take_profits (mp_plan p) = [\<lparr>tp_price = tp, close_fraction = 1\<rparr>] \<and> tp_taken p = {} \<and>
     remaining_fraction p = 1 \<and> partial_closes p = []"

definition booked_legs :: "managed_position \<Rightarrow> leg list" where
  "booked_legs p = List.map (\<lambda>pc. (pc_fraction pc, pc_price pc, pc_reason pc)) (partial_closes p)"

definition target_decision :: "pyfloat \<Rightarrow> exit_decision" where
  "target_decision tp =
     \<lparr>d_reason = TAKE_PROFIT, d_price = tp, d_fraction = 1, d_tp_index = 0, fully_closed = True\<rparr>"

lemma whole_target_evaluate:
  assumes "whole_target d stop tp p"
  shows "evaluate_exit p high low =
    (if (if d = LONG then low \<le> stop else high \<ge> stop)
     then [\<lparr>d_reason = STOP_LOSS, d_price = stop, d_fraction = 1, d_tp_index = -1, fully_closed = True\<rparr>]
     else if (if d = LONG then high \<ge> tp else low \<le> tp) then [target_decision tp] else [])"
  using assms
  by (auto simp: whole_target_def evaluate_exit_def stop_touched_def ordered_tps_def tp_touched_def
      target_decision_def)

lemma whole_target_bar:
  assumes p: "whole_target d stop tp p" and c: "ohlc_ok c"
  shows "sim_bar c p x =
    (let q = update_excursion (c_low c) (update_excursion (c_high c) p) in
     if stop_hit d stop c
     then (sim_apply (c_ms c) \<lparr>d_reason = STOP_LOSS, d_price = stop, d_fraction = 1, d_tp_index = -1,
             fully_closed = True\<rparr> q, \<lparr>xi_price = stop, xi_ms = c_ms c, xi_reason = STOP_LOSS\<rparr>, True)
     else if tp_hit d tp c
     then (sim_apply (c_ms c) (target_decision tp) q,
           \<lparr>xi_price = tp, xi_ms = c_ms c, xi_reason = TAKE_PROFIT\<rparr>, True)
     else (q, x, False))"
proof -
  let ?q = "update_excursion (c_low c) (update_excursion (c_high c) p)"
  have q: "whole_target d stop tp ?q" using p by (simp add: whole_target_def)
  note ev = whole_target_evaluate[OF q]
  have range: "c_low c \<le> c_open c" "c_open c \<le> c_high c" "c_low c \<le> c_close c" "c_close c \<le> c_high c"
    using c by (simp_all add: ohlc_ok_def)
  show ?thesis
  proof (cases "stop_hit d stop c")
    case True
    then show ?thesis by (simp add: sim_bar_def ev stop_hit_def Let_def)
  next
    case False
    note stop = this
    have bar: "sim_bar c p x = sim_path (c_ms c) (synthetic_tick_path c) ?q x"
      using False by (auto simp: sim_bar_def ev stop_hit_def Let_def target_decision_def)
    have tick: "evaluate_exit ?q y y = (if (if d = LONG then y \<ge> tp else y \<le> tp) then [target_decision tp] else [])"
      if "c_low c \<le> y" "y \<le> c_high c" for y
      using False that by (auto simp: ev stop_hit_def)
    show ?thesis
      using False range
      by (auto simp: bar synthetic_tick_path_def tick tp_hit_def target_decision_def Let_def)
  qed
qed


lemma excursion_update:
  assumes "excursion d b w c = (b', w')" and "mp_direction p = d" and "max_favorable_price p = b"
    and "max_adverse_price p = w" and "ohlc_ok c"
  shows "max_favorable_price (update_excursion (c_low c) (update_excursion (c_high c) p)) = b'"
    and "max_adverse_price (update_excursion (c_low c) (update_excursion (c_high c) p)) = w'"
  using assms by (auto simp: excursion_def update_excursion_def ohlc_ok_def split: if_splits)

lemma whole_target_apply:
  assumes "whole_target d stop tp p" and "d_fraction dec = 1"
  shows "booked_legs (sim_apply ms dec p) = [(1, d_price dec, d_reason dec)]"
    and "max_favorable_price (sim_apply ms dec p) = max_favorable_price p"
    and "max_adverse_price (sim_apply ms dec p) = max_adverse_price p"
  using assms
  by (simp_all add: whole_target_def booked_legs_def sim_apply_def book_close_def close_record_def Let_def)

text \<open>What the two engines report of a trade.\<close>

definition same_report :: "exit_outcome \<Rightarrow> managed_position \<times> exit_info \<times> nat \<times> bool \<Rightarrow> bool" where
  "same_report out r \<longleftrightarrow> (case r of (p, x, held, fin) \<Rightarrow>
     eo_legs out = booked_legs p \<and> eo_exit_ms out = xi_ms x \<and> eo_bars_held out = held \<and>
     eo_closed out = fin \<and> eo_max_fav out = max_favorable_price p \<and> eo_max_adv out = max_adverse_price p)"

lemma fixed_walk_simulates:
  assumes "whole_target d stop tp p" and "max_favorable_price p = b" and "max_adverse_price p = w"
    and "tail_of (\<lambda>_. True) future cs"
  shows "\<exists>out. fixed_walk d stop tp future cs bars b w = Inr out \<and>
    (case sim_bars cs bars p x of (q, y, held, fin) \<Rightarrow>
       if fin then same_report out (q, y, held, fin)
       else whole_target d stop tp q \<and>
         same_report out (flatten_rest (last future) q,
           \<lparr>xi_price = c_close (last future), xi_ms = c_ms (last future), xi_reason = EOD_FLATTEN\<rparr>, held, fin))"
  using assms
proof (induction cs arbitrary: p x bars b w)
  case Nil
  then show ?case
    by (simp add: flatten_legs_def tail_of_def same_report_def booked_legs_def flatten_rest_def
        whole_target_def close_record_def)
next
  case (Cons c cs)
  obtain b' w' where e: "excursion d b w c = (b', w')" by fastforce
  let ?q = "update_excursion (c_low c) (update_excursion (c_high c) p)"
  have c: "ohlc_ok c" using Cons.prems(4) by (simp add: tail_of_def)
  have dir: "mp_direction p = d" using Cons.prems(1) by (simp add: whole_target_def)
  note fav = excursion_update[OF e dir Cons.prems(2,3) c]
  have q: "whole_target d stop tp ?q" using Cons.prems(1) by (simp add: whole_target_def)
  note bar = whole_target_bar[OF Cons.prems(1) c, of x]
  show ?case
  proof (cases "stop_hit d stop c \<or> tp_hit d tp c")
    case True
    then show ?thesis
      by (auto simp: bar Let_def e closed_out_def same_report_def whole_target_apply[OF q] fav target_decision_def)
  next
    case False
    have tail: "tail_of (\<lambda>_. True) future cs" by (rule tail_of_step[OF Cons.prems(4)]) simp
    show ?thesis
      using False Cons.IH[OF q fav tail, of "bars + 1" x] by (simp add: bar Let_def e)
  qed
qed

text \<open>The research engine's baseline is the backtest's exit engine: over well-formed bars, a
  fixed target of \<open>rr\<close> times the risk and the exit simulator's walk of a plan whose only
  take-profit is that target report the same legs, exit time, bars held, excursions and
  whether the trade closed.\<close>

theorem fixed_rr_is_simulate_exit:
  assumes "future \<noteq> []" and "list_all ohlc_ok future" and "plan_stop_loss plan = stop"
    and "take_profits plan = [\<lparr>tp_price = entry + rr * \<bar>entry - stop\<bar> * sign d, close_fraction = 1\<rparr>]"
  shows "\<exists>out. model_simulate (FixedRR rr) entry d stop future atr target = Inr out \<and>
    same_report out (simulate_position (new_position pid sid vid inst d entry ms lot plan acct) future)"
proof -
  let ?tp = "entry + rr * \<bar>entry - stop\<bar> * sign d"
  let ?p = "new_position pid sid vid inst d entry ms lot plan acct"
  let ?x = "\<lparr>xi_price = entry_price ?p, xi_ms = entry_time_ms ?p, xi_reason = EOD_FLATTEN\<rparr>"
  have p: "whole_target d stop ?tp ?p"
    using assms(3,4) by (simp add: whole_target_def new_position_def is_open_def)
  have start: "max_favorable_price ?p = entry" "max_adverse_price ?p = entry"
    by (simp_all add: new_position_def)
  obtain q y held fin where run: "sim_bars future 0 ?p ?x = (q, y, held, fin)" by (metis prod_cases4)
  from fixed_walk_simulates[OF p start tail_of_start[OF assms(1,2)], of 0 ?x] show ?thesis
    using assms(1) by (auto simp: run simulate_position_def)
qed

theorem fixed_rr_is_simulate_exit_witness:
  "same_report
     \<lparr>eo_legs = [(1, 2420, TAKE_PROFIT)], eo_exit_ms = 300000, eo_bars_held = 1, eo_max_fav = 2425,
      eo_max_adv = 2399, eo_closed = True\<rparr>
     (simulate_position (new_position ''SIM'' '''' '''' ''XAUUSD'' LONG 2400 0 1
        (demo_plan\<lparr>take_profits := [\<lparr>tp_price = 2420, close_fraction = 1\<rparr>]\<rparr>) ''default'')
        [demo_bar 300000 2401 2425 2399 2418])"
proof -
  let ?bars = "[demo_bar 300000 2401 2425 2399 2418]"
  have bars: "list_all ohlc_ok ?bars" by (simp add: ohlc_ok_def demo_bar_def)
  show ?thesis
    using fixed_rr_is_simulate_exit[of ?bars "demo_plan\<lparr>take_profits := [\<lparr>tp_price = 2420, close_fraction = 1\<rparr>]\<rparr>"
        2390 2400 2 LONG, OF _ bars]
    by (simp add: sign_def stop_hit_def tp_hit_def excursion_def demo_bar_def closed_out_def)
qed

end
