(* ===== verification/Challenge_Sim.thy ===== *)
theory Challenge_Sim
  imports Exit_Simulator Forex_Hours "HOL-Library.Product_Lexorder"
begin

section \<open>Prop-firm challenge simulator\<close>

text \<open>
  \<open>app/cfd_research/challenge_sim.py\<close>: a stream of trade returns (percent of the starting
  balance) walked through the phases of an evaluation, trade by trade or event by event, and the
  Monte Carlo over start dates. The loop variables of a phase are the record \<open>phase_state\<close>; a
  \<open>return\<close> in the loop is its result. Days are day numbers. The Monte Carlo loop advances a date by
  \<open>step_days\<close> and may not end, so it is a partial function: \<open>None\<close> is not returning.
\<close>

datatype phase_outcome = PASS | FAIL_DAILY_DD | FAIL_MAX_DD | TIMEOUT | INCOMPLETE

record challenge_rules =
  phase1_target_pct :: pyfloat
  phase2_target_pct :: pyfloat
  daily_dd_pct :: pyfloat
  max_dd_pct :: pyfloat
  dd_mode :: string
  min_trading_days :: int
  max_calendar_days :: "int option"
  reset_utc_offset_hours :: pyfloat

definition mk_rules :: "challenge_rules \<Rightarrow> challenge_rules result" where
  "mk_rules r = (if dd_mode r \<notin> {''static'', ''trailing''} then Inl (ValueError ''dd_mode'') else Inr r)"

definition default_rules :: challenge_rules where
  "default_rules = \<lparr>phase1_target_pct = 8, phase2_target_pct = 5, daily_dd_pct = 5, max_dd_pct = 10,
     dd_mode = ''static'', min_trading_days = 0, max_calendar_days = None, reset_utc_offset_hours = 0\<rparr>"

record trade_return =
  tr_entry_ms :: pyfloat
  tr_exit_ms :: pyfloat
  tr_ret_pct :: pyfloat
  tr_mae_pct :: pyfloat
  tr_day :: int

record phase_result =
  pr_outcome :: phase_outcome
  pr_end_return :: pyfloat
  pr_trading_days :: nat
  pr_trades_used :: nat
  pr_worst_dd :: pyfloat
  pr_next_index :: nat

definition phase_passed :: "phase_result \<Rightarrow> bool" where
  "phase_passed p \<longleftrightarrow> pr_outcome p = PASS"

subsection \<open>The return stream\<close>

definition challenge_day :: "pyfloat \<Rightarrow> pyfloat \<Rightarrow> int" where
  "challenge_day ms offset_hours = wall_day (ms + offset_hours * hour_ms)"

definition trade_to_return ::
  "registry \<Rightarrow> pyfloat \<Rightarrow> pyfloat \<Rightarrow> simulated_trade \<Rightarrow> trade_return result" where
  "trade_to_return reg ref_balance offset t =
     (case get_instrument reg (t_instrument t) of
        Inl e \<Rightarrow> Inl e
      | Inr inst \<Rightarrow>
          if ref_balance = 0 then Inl ZeroDivisionError
          else
            let mae_usd = t_mae_price t * point_value_per_lot inst * t_lots t + t_cost_usd t
            in Inr \<lparr>tr_entry_ms = t_entry_ms t, tr_exit_ms = t_exit_ms t,
                 tr_ret_pct = t_net_pnl_usd t / ref_balance * 100,
                 tr_mae_pct = max 0 (mae_usd / ref_balance * 100),
                 tr_day = challenge_day (t_entry_ms t) offset\<rparr>)"

fun collect :: "('a \<Rightarrow> 'b result) \<Rightarrow> 'a list \<Rightarrow> 'b list result" where
  "collect f [] = Inr []"
| "collect f (x # xs) =
     (case f x of Inl e \<Rightarrow> Inl e
      | Inr y \<Rightarrow> (case collect f xs of Inl e \<Rightarrow> Inl e | Inr ys \<Rightarrow> Inr (y # ys)))"

definition from_simulated_trades ::
  "registry \<Rightarrow> simulated_trade list \<Rightarrow> pyfloat \<Rightarrow> pyfloat \<Rightarrow> trade_return list result" where
  "from_simulated_trades reg trades ref_balance offset =
     (case collect (trade_to_return reg ref_balance offset) trades of
        Inl e \<Rightarrow> Inl e
      | Inr out \<Rightarrow> Inr (sort_key (\<lambda>r. (tr_exit_ms r, tr_entry_ms r)) out))"

text \<open>The running maximum of the exits starts at minus infinity, \<open>None\<close>.\<close>

fun overlap_loop :: "trade_return list \<Rightarrow> pyfloat option \<Rightarrow> bool" where
  "overlap_loop [] max_exit = False"
| "overlap_loop (r # rs) max_exit =
     (if (case max_exit of None \<Rightarrow> False | Some m \<Rightarrow> tr_entry_ms r < m - 1 / 10^6) then True
      else overlap_loop rs (Some (case max_exit of None \<Rightarrow> tr_exit_ms r | Some m \<Rightarrow> max m (tr_exit_ms r))))"

definition has_overlap :: "trade_return list \<Rightarrow> bool" where
  "has_overlap rets = overlap_loop (sort_key tr_entry_ms rets) None"

subsection \<open>One phase, one trade at a time\<close>

record phase_state =
  ph_equity :: pyfloat
  ph_peak :: pyfloat
  ph_worst :: pyfloat
  ph_day :: "int option"
  ph_sod :: pyfloat
  ph_days :: "int set"

definition timed_out :: "challenge_rules \<Rightarrow> pyfloat \<Rightarrow> pyfloat \<Rightarrow> bool" where
  "timed_out rules start_ms t \<longleftrightarrow>
     (case max_calendar_days rules of None \<Rightarrow> False | Some d \<Rightarrow> (t - start_ms) / 86400000 > of_int d)"

definition roll_day :: "int \<Rightarrow> 'a phase_state_scheme \<Rightarrow> 'a phase_state_scheme" where
  "roll_day d s = (if ph_day s \<noteq> Some d then s\<lparr>ph_day := Some d, ph_sod := ph_equity s\<rparr> else s)"

definition record_dip :: "pyfloat \<Rightarrow> 'a phase_state_scheme \<Rightarrow> 'a phase_state_scheme" where
  "record_dip low s = s\<lparr>ph_worst := max (ph_worst s) (if low < 0 then - low else 0)\<rparr>"

definition dd_breach :: "challenge_rules \<Rightarrow> pyfloat \<Rightarrow> pyfloat \<Rightarrow> pyfloat \<Rightarrow> phase_outcome option" where
  "dd_breach rules peak sod low =
     (let max_floor = (if dd_mode rules = ''trailing'' then peak - max_dd_pct rules else - max_dd_pct rules) in
      if low \<le> max_floor + 1 / 10^9 then Some FAIL_MAX_DD
      else if low \<le> (sod - daily_dd_pct rules) + 1 / 10^9 then Some FAIL_DAILY_DD
      else None)"

definition target_reached :: "challenge_rules \<Rightarrow> pyfloat \<Rightarrow> 'a phase_state_scheme \<Rightarrow> bool" where
  "target_reached rules target s \<longleftrightarrow>
     ph_equity s \<ge> target - 1 / 10^9 \<and> int (card (ph_days s)) \<ge> min_trading_days rules"

definition book_return :: "pyfloat \<Rightarrow> 'a phase_state_scheme \<Rightarrow> 'a phase_state_scheme" where
  "book_return ret s = s\<lparr>ph_equity := ph_equity s + ret, ph_peak := max (ph_peak s) (ph_equity s + ret)\<rparr>"

definition phase_end ::
  "phase_outcome \<Rightarrow> pyfloat \<Rightarrow> 'a phase_state_scheme \<Rightarrow> nat \<Rightarrow> nat \<Rightarrow> phase_result" where
  "phase_end outcome ret s used nxt =
     \<lparr>pr_outcome = outcome, pr_end_return = ret, pr_trading_days = card (ph_days s),
      pr_trades_used = used, pr_worst_dd = ph_worst s, pr_next_index = nxt\<rparr>"

fun phase_loop ::
  "challenge_rules \<Rightarrow> pyfloat \<Rightarrow> pyfloat \<Rightarrow> nat \<Rightarrow> pyfloat \<Rightarrow> nat \<Rightarrow> trade_return list \<Rightarrow> phase_state \<Rightarrow>
   phase_result" where
  "phase_loop rules target scale start start_ms i [] s = phase_end INCOMPLETE (ph_equity s) s (i - start) i"
| "phase_loop rules target scale start start_ms i (tr # trs) s =
     (if timed_out rules start_ms (tr_entry_ms tr)
      then phase_end TIMEOUT (ph_equity s) s (i - start) i
      else
        let s1 = roll_day (tr_day tr) s;
            s2 = s1\<lparr>ph_days := insert (tr_day tr) (ph_days s1)\<rparr>;
            low = ph_equity s2 - tr_mae_pct tr * scale;
            s3 = record_dip low s2
        in case dd_breach rules (ph_peak s3) (ph_sod s3) low of
             Some outcome \<Rightarrow> phase_end outcome low s3 (i - start + 1) (i + 1)
           | None \<Rightarrow>
               let s4 = book_return (tr_ret_pct tr * scale) s3 in
               if target_reached rules target s4
               then phase_end PASS (ph_equity s4) s4 (i - start + 1) (i + 1)
               else phase_loop rules target scale start start_ms (i + 1) trs s4)"

definition fresh_phase :: phase_state where
  "fresh_phase = \<lparr>ph_equity = 0, ph_peak = 0, ph_worst = 0, ph_day = None, ph_sod = 0, ph_days = {}\<rparr>"

definition simulate_phase ::
  "trade_return list \<Rightarrow> nat \<Rightarrow> challenge_rules \<Rightarrow> pyfloat \<Rightarrow> pyfloat \<Rightarrow> phase_result" where
  "simulate_phase rets start rules target scale =
     (case drop start rets of
        [] \<Rightarrow> phase_end INCOMPLETE 0 fresh_phase 0 start
      | tr # trs \<Rightarrow> phase_loop rules target scale start (tr_entry_ms tr) start (tr # trs) fresh_phase)"

subsection \<open>One phase, event by event\<close>

text \<open>An event is its time, whether it is a close, and the trade's index; opens sort first.\<close>

type_synonym phase_event = "pyfloat \<times> bool \<times> nat"

definition trade_events :: "trade_return list \<Rightarrow> phase_event list" where
  "trade_events trs =
     concat (List.map (\<lambda>(k, t). [(tr_entry_ms t, False, k), (tr_exit_ms t, True, k)]) (List.enumerate 0 trs))"

definition phase_events :: "trade_return list \<Rightarrow> phase_event list" where
  "phase_events trs = sort_key (\<lambda>(t, cls, k). (t, cls)) (trade_events trs)"

record conc_state = phase_state +
  cs_open_mae :: "(nat \<times> pyfloat) list"
  cs_booked :: nat
  cs_last_booked :: int

definition open_event :: "pyfloat \<Rightarrow> nat \<Rightarrow> trade_return \<Rightarrow> conc_state \<Rightarrow> conc_state" where
  "open_event scale k tr s =
     s\<lparr>ph_days := insert (tr_day tr) (ph_days s),
       cs_open_mae := AList.update k (tr_mae_pct tr * scale) (cs_open_mae s)\<rparr>"

definition close_event :: "pyfloat \<Rightarrow> nat \<Rightarrow> trade_return \<Rightarrow> conc_state \<Rightarrow> conc_state" where
  "close_event scale k tr s =
     (book_return (tr_ret_pct tr * scale) s)
       \<lparr>cs_open_mae := AList.delete k (cs_open_mae s), cs_booked := cs_booked s + 1,
        cs_last_booked := max (cs_last_booked s) (int k)\<rparr>"

definition conc_next :: "nat \<Rightarrow> conc_state \<Rightarrow> nat" where
  "conc_next start s = nat (int start + cs_last_booked s + 1)"

fun conc_loop ::
  "challenge_rules \<Rightarrow> pyfloat \<Rightarrow> pyfloat \<Rightarrow> nat \<Rightarrow> nat \<Rightarrow> pyfloat \<Rightarrow> trade_return list \<Rightarrow> phase_event list \<Rightarrow>
   conc_state \<Rightarrow> phase_result" where
  "conc_loop rules target scale start n start_ms trs [] s =
     phase_end INCOMPLETE (ph_equity s) s (cs_booked s) n"
| "conc_loop rules target scale start n start_ms trs ((t, cls, k) # evs) s =
     (if timed_out rules start_ms t
      then phase_end TIMEOUT (ph_equity s) s (cs_booked s) (conc_next start s)
      else
        let s1 = roll_day (challenge_day t (reset_utc_offset_hours rules)) s;
            s2 = (if cls then s1 else open_event scale k (trs ! k) s1);
            low = ph_equity s2 - (\<Sum>m\<leftarrow>List.map snd (cs_open_mae s2). m);
            s3 = record_dip low s2
        in case dd_breach rules (ph_peak s3) (ph_sod s3) low of
             Some outcome \<Rightarrow> phase_end outcome low s3 (cs_booked s3 + 1) (conc_next start s3)
           | None \<Rightarrow>
               if \<not> cls then conc_loop rules target scale start n start_ms trs evs s3
               else
                 let s4 = close_event scale k (trs ! k) s3 in
                 if target_reached rules target s4
                 then phase_end PASS (ph_equity s4) s4 (cs_booked s4) (conc_next start s4)
                 else conc_loop rules target scale start n start_ms trs evs s4)"

definition fresh_conc :: conc_state where
  "fresh_conc = phase_state.extend fresh_phase (conc_state.fields [] 0 (- 1))"

definition simulate_phase_concurrent ::
  "trade_return list \<Rightarrow> nat \<Rightarrow> challenge_rules \<Rightarrow> pyfloat \<Rightarrow> pyfloat \<Rightarrow> phase_result" where
  "simulate_phase_concurrent rets start rules target scale =
     (case drop start rets of
        [] \<Rightarrow> phase_end INCOMPLETE 0 fresh_phase 0 start
      | tr # trs \<Rightarrow> conc_loop rules target scale start (length rets) (tr_entry_ms tr) (tr # trs)
                     (phase_events (tr # trs)) fresh_conc)"

subsection \<open>The challenge\<close>

record challenge_result =
  cr_outcome :: phase_outcome
  cr_phase1 :: phase_result
  cr_phase2 :: "phase_result option"
  cr_total_days :: nat
  cr_start_ms :: pyfloat

definition cr_passed :: "challenge_result \<Rightarrow> bool" where
  "cr_passed c \<longleftrightarrow> cr_outcome c = PASS"

definition blew_up :: "challenge_result \<Rightarrow> bool" where
  "blew_up c \<longleftrightarrow> pr_outcome (cr_phase1 c) = FAIL_MAX_DD \<or>
     (case cr_phase2 c of None \<Rightarrow> False | Some p \<Rightarrow> pr_outcome p = FAIL_MAX_DD)"

definition simulate_challenge ::
  "trade_return list \<Rightarrow> nat \<Rightarrow> challenge_rules \<Rightarrow> pyfloat \<Rightarrow> bool \<Rightarrow> challenge_result" where
  "simulate_challenge rets start rules scale conc =
     (let phase_fn = (if conc then simulate_phase_concurrent else simulate_phase);
          start_ms = (if start < length rets then tr_entry_ms (rets ! start) else 0);
          p1 = phase_fn rets start rules (phase1_target_pct rules) scale
      in if \<not> phase_passed p1 \<or> phase2_target_pct rules \<le> 0
         then \<lparr>cr_outcome = (if \<not> phase_passed p1 then pr_outcome p1 else PASS), cr_phase1 = p1,
               cr_phase2 = None, cr_total_days = pr_trading_days p1, cr_start_ms = start_ms\<rparr>
         else
           let p2 = phase_fn rets (pr_next_index p1) rules (phase2_target_pct rules) scale
           in \<lparr>cr_outcome = (if phase_passed p2 then PASS else pr_outcome p2), cr_phase1 = p1,
               cr_phase2 = Some p2, cr_total_days = pr_trading_days p1 + pr_trading_days p2,
               cr_start_ms = start_ms\<rparr>)"

subsection \<open>Monte Carlo over history\<close>

record mc_result =
  mc_runs :: nat
  mc_passed :: nat
  mc_phase1_passed :: nat
  mc_failed_daily :: nat
  mc_failed_max :: nat
  mc_timeouts :: nat
  mc_incompletes :: nat
  mc_days_to_pass :: "nat list"
  mc_worst_dd_pcts :: "pyfloat list"

definition empty_mc :: mc_result where
  "empty_mc = \<lparr>mc_runs = 0, mc_passed = 0, mc_phase1_passed = 0, mc_failed_daily = 0, mc_failed_max = 0,
     mc_timeouts = 0, mc_incompletes = 0, mc_days_to_pass = [], mc_worst_dd_pcts = []\<rparr>"

definition decisive_runs :: "mc_result \<Rightarrow> int" where
  "decisive_runs m = int (mc_runs m) - int (mc_incompletes m)"

definition rate_of :: "nat \<Rightarrow> mc_result \<Rightarrow> pyfloat" where
  "rate_of k m = (if decisive_runs m \<noteq> 0 then of_nat k / of_int (decisive_runs m) else 0)"

definition pass_rate :: "mc_result \<Rightarrow> pyfloat" where
  "pass_rate m = rate_of (mc_passed m) m"

definition phase1_pass_rate :: "mc_result \<Rightarrow> pyfloat" where
  "phase1_pass_rate m = rate_of (mc_phase1_passed m) m"

definition blowup_rate :: "mc_result \<Rightarrow> pyfloat" where
  "blowup_rate m = rate_of (mc_failed_max m) m"

definition daily_halt_rate :: "mc_result \<Rightarrow> pyfloat" where
  "daily_halt_rate m = rate_of (mc_failed_daily m) m"

definition account_ending_rate :: "mc_result \<Rightarrow> pyfloat" where
  "account_ending_rate m = rate_of (mc_failed_max m + mc_failed_daily m) m"

definition incomplete_rate :: "mc_result \<Rightarrow> pyfloat" where
  "incomplete_rate m = (if mc_runs m \<noteq> 0 then of_nat (mc_incompletes m) / of_nat (mc_runs m) else 0)"

definition avg_days_to_pass :: "mc_result \<Rightarrow> pyfloat" where
  "avg_days_to_pass m =
     (if mc_days_to_pass m \<noteq> [] then of_nat (sum_list (mc_days_to_pass m)) / of_nat (length (mc_days_to_pass m))
      else 0)"

definition median_days_to_pass :: "mc_result \<Rightarrow> pyfloat" where
  "median_days_to_pass m =
     (if mc_days_to_pass m = [] then 0
      else of_nat (sort (mc_days_to_pass m) ! (length (mc_days_to_pass m) div 2)))"

definition worst_dd_pct :: "mc_result \<Rightarrow> pyfloat" where
  "worst_dd_pct m = (case mc_worst_dd_pcts m of [] \<Rightarrow> 0 | x # xs \<Rightarrow> fold max xs x)"

definition mc_tally :: "challenge_result \<Rightarrow> mc_result \<Rightarrow> mc_result" where
  "mc_tally cr m =
     (let m1 = m\<lparr>mc_runs := mc_runs m + 1\<rparr>;
          m2 = (if phase_passed (cr_phase1 cr) then m1\<lparr>mc_phase1_passed := mc_phase1_passed m1 + 1\<rparr> else m1);
          worst = (case cr_phase2 cr of
                     None \<Rightarrow> pr_worst_dd (cr_phase1 cr)
                   | Some p2 \<Rightarrow> max (pr_worst_dd (cr_phase1 cr)) (pr_worst_dd p2));
          m3 = m2\<lparr>mc_worst_dd_pcts := mc_worst_dd_pcts m2 @ [worst]\<rparr>
      in if cr_passed cr
         then m3\<lparr>mc_passed := mc_passed m3 + 1, mc_days_to_pass := mc_days_to_pass m3 @ [cr_total_days cr]\<rparr>
         else case cr_outcome cr of
                FAIL_MAX_DD \<Rightarrow> m3\<lparr>mc_failed_max := mc_failed_max m3 + 1\<rparr>
              | FAIL_DAILY_DD \<Rightarrow> m3\<lparr>mc_failed_daily := mc_failed_daily m3 + 1\<rparr>
              | TIMEOUT \<Rightarrow> m3\<lparr>mc_timeouts := mc_timeouts m3 + 1\<rparr>
              | _ \<Rightarrow> m3\<lparr>mc_incompletes := mc_incompletes m3 + 1\<rparr>)"

text \<open>The inner loop: the first index, from \<open>j\<close> on, whose entry is not before the date.\<close>

function advance_to :: "trade_return list \<Rightarrow> pyfloat \<Rightarrow> nat \<Rightarrow> nat" where
  "advance_to rets cur j =
     (if j < length rets \<and> tr_entry_ms (rets ! j) < cur then advance_to rets cur (j + 1) else j)"
  by pat_completeness auto
termination by (relation "measure (\<lambda>(rets, cur, j). length rets - j)") auto

declare advance_to.simps [simp del]

partial_function (option) mc_loop ::
  "trade_return list \<Rightarrow> challenge_rules \<Rightarrow> pyfloat \<Rightarrow> bool \<Rightarrow> int \<Rightarrow> pyfloat \<Rightarrow> pyfloat \<Rightarrow> nat \<Rightarrow> nat set \<Rightarrow>
   mc_result \<Rightarrow> mc_result option" where
  "mc_loop rets rules scale conc step_days cur last_day j seen res =
     (if \<not> cur \<le> last_day then Some res
      else
        let j' = advance_to rets cur j in
        if j' \<ge> length rets then Some res
        else if j' \<in> seen
        then mc_loop rets rules scale conc step_days (cur + of_int step_days * day_ms) last_day j' seen res
        else mc_loop rets rules scale conc step_days (cur + of_int step_days * day_ms) last_day j'
               (insert j' seen) (mc_tally (simulate_challenge rets j' rules scale conc) res))"

definition monte_carlo ::
  "trade_return list \<Rightarrow> challenge_rules \<Rightarrow> pyfloat \<Rightarrow> int \<Rightarrow> bool option \<Rightarrow> mc_result option" where
  "monte_carlo rets rules scale step_days concurrent =
     (if rets = [] then Some empty_mc
      else
        let conc = (case concurrent of None \<Rightarrow> has_overlap rets | Some b \<Rightarrow> b)
        in mc_loop rets rules scale conc step_days (tr_entry_ms (hd rets)) (tr_entry_ms (last rets)) 0 {}
             empty_mc)"

subsection \<open>What a phase decides\<close>

text \<open>
  The account before and after each trade of a phase, without the loop: the equity is the scaled
  sum of the returns, the peak its maximum so far, a day's base the equity before the first trade
  of the unbroken run of trades of that day.
\<close>

definition equity_at :: "pyfloat \<Rightarrow> trade_return list \<Rightarrow> nat \<Rightarrow> pyfloat" where
  "equity_at scale xs k = (\<Sum>t\<leftarrow>take k xs. tr_ret_pct t * scale)"

definition peak_at :: "pyfloat \<Rightarrow> trade_return list \<Rightarrow> nat \<Rightarrow> pyfloat" where
  "peak_at scale xs k = Max ((equity_at scale xs) ` {..k})"

fun day_start :: "trade_return list \<Rightarrow> nat \<Rightarrow> nat" where
  "day_start xs 0 = 0"
| "day_start xs (Suc k) = (if tr_day (xs ! Suc k) = tr_day (xs ! k) then day_start xs k else Suc k)"

definition low_at :: "pyfloat \<Rightarrow> trade_return list \<Rightarrow> nat \<Rightarrow> pyfloat" where
  "low_at scale xs k = equity_at scale xs k - tr_mae_pct (xs ! k) * scale"

definition days_traded :: "trade_return list \<Rightarrow> nat \<Rightarrow> nat" where
  "days_traded xs k = card (tr_day ` set (take k xs))"

definition worst_dip :: "pyfloat \<Rightarrow> trade_return list \<Rightarrow> nat \<Rightarrow> pyfloat" where
  "worst_dip scale xs k = Max (insert 0 ((\<lambda>j. - low_at scale xs j) ` {..<k}))"

text \<open>The verdict a single trade of the phase would give.\<close>

definition verdict_at ::
  "challenge_rules \<Rightarrow> pyfloat \<Rightarrow> pyfloat \<Rightarrow> trade_return list \<Rightarrow> nat \<Rightarrow> phase_outcome option" where
  "verdict_at rules target scale xs k =
     (if timed_out rules (tr_entry_ms (hd xs)) (tr_entry_ms (xs ! k)) then Some TIMEOUT
      else case dd_breach rules (peak_at scale xs k) (equity_at scale xs (day_start xs k)) (low_at scale xs k) of
             Some outcome \<Rightarrow> Some outcome
           | None \<Rightarrow>
               if equity_at scale xs (Suc k) \<ge> target - 1 / 10^9 \<and>
                  int (days_traded xs (Suc k)) \<ge> min_trading_days rules
               then Some PASS else None)"

text \<open>The result of a phase that ends with a verdict at a trade.\<close>

definition verdict_result ::
  "pyfloat \<Rightarrow> trade_return list \<Rightarrow> nat \<Rightarrow> nat \<Rightarrow> phase_outcome \<Rightarrow> phase_result" where
  "verdict_result scale xs start k outcome =
     (let used = (if outcome = TIMEOUT then k else Suc k) in
      \<lparr>pr_outcome = outcome,
       pr_end_return = (if outcome = TIMEOUT then equity_at scale xs k
                        else if outcome = PASS then equity_at scale xs (Suc k) else low_at scale xs k),
       pr_trading_days = days_traded xs used, pr_trades_used = used,
       pr_worst_dd = worst_dip scale xs used, pr_next_index = start + used\<rparr>)"

definition unresolved :: "pyfloat \<Rightarrow> trade_return list \<Rightarrow> nat \<Rightarrow> phase_result" where
  "unresolved scale xs start =
     \<lparr>pr_outcome = INCOMPLETE, pr_end_return = equity_at scale xs (length xs),
      pr_trading_days = days_traded xs (length xs), pr_trades_used = length xs,
      pr_worst_dd = worst_dip scale xs (length xs), pr_next_index = start + length xs\<rparr>"

definition phase_spec ::
  "trade_return list \<Rightarrow> nat \<Rightarrow> challenge_rules \<Rightarrow> pyfloat \<Rightarrow> pyfloat \<Rightarrow> phase_result" where
  "phase_spec rets start rules target scale =
     (let xs = drop start rets in
      case find (\<lambda>k. verdict_at rules target scale xs k \<noteq> None) [0 ..< length xs] of
        Some k \<Rightarrow> verdict_result scale xs start k (the (verdict_at rules target scale xs k))
      | None \<Rightarrow> unresolved scale xs start)"

lemma equity_at_0 [simp]: "equity_at scale xs 0 = 0"
  by (simp add: equity_at_def)

lemma equity_at_Suc:
  "k < length xs \<Longrightarrow> equity_at scale xs (Suc k) = equity_at scale xs k + tr_ret_pct (xs ! k) * scale"
  by (simp add: equity_at_def take_Suc_conv_app_nth)

lemma peak_at_0 [simp]: "peak_at scale xs 0 = 0"
  by (simp add: peak_at_def)

lemma peak_at_Suc: "peak_at scale xs (Suc k) = max (peak_at scale xs k) (equity_at scale xs (Suc k))"
  by (simp add: peak_at_def atMost_Suc max.commute)

lemma worst_dip_0 [simp]: "worst_dip scale xs 0 = 0"
  by (simp add: worst_dip_def)

lemma worst_dip_Suc: "worst_dip scale xs (Suc k) = max (worst_dip scale xs k) (- low_at scale xs k)"
proof -
  have "insert 0 ((\<lambda>j. - low_at scale xs j) ` {..<Suc k}) =
      insert (- low_at scale xs k) (insert 0 ((\<lambda>j. - low_at scale xs j) ` {..<k}))"
    by (simp add: lessThan_Suc insert_commute)
  then show ?thesis by (simp add: worst_dip_def max.commute)
qed

lemma worst_dip_nonneg: "0 \<le> worst_dip scale xs k"
  by (simp add: worst_dip_def)

text \<open>The state of the loop before the trade with index \<open>k\<close>.\<close>

definition phase_inv :: "pyfloat \<Rightarrow> trade_return list \<Rightarrow> nat \<Rightarrow> phase_state \<Rightarrow> bool" where
  "phase_inv scale xs k s \<longleftrightarrow>
     ph_equity s = equity_at scale xs k \<and> ph_peak s = peak_at scale xs k \<and>
     ph_worst s = worst_dip scale xs k \<and> ph_days s = tr_day ` set (take k xs) \<and>
     (case k of 0 \<Rightarrow> ph_day s = None
      | Suc j \<Rightarrow> ph_day s = Some (tr_day (xs ! j)) \<and> ph_sod s = equity_at scale xs (day_start xs j))"

lemma roll_day_sod:
  assumes "phase_inv scale xs k s" and "k < length xs"
  shows "ph_sod (roll_day (tr_day (xs ! k)) s) = equity_at scale xs (day_start xs k)"
  using assms by (cases k) (auto simp: phase_inv_def roll_day_def)

lemma roll_day_frame [simp]:
  "ph_equity (roll_day d s) = ph_equity s" "ph_peak (roll_day d s) = ph_peak s"
  "ph_worst (roll_day d s) = ph_worst s" "ph_days (roll_day d s) = ph_days s"
  "ph_day (roll_day d s) = Some d"
  by (simp_all add: roll_day_def)

lemma record_dip_frame [simp]:
  "ph_equity (record_dip low s) = ph_equity s" "ph_peak (record_dip low s) = ph_peak s"
  "ph_sod (record_dip low s) = ph_sod s" "ph_day (record_dip low s) = ph_day s"
  "ph_days (record_dip low s) = ph_days s"
  by (simp_all add: record_dip_def)

text \<open>One round of the loop, as far as the booking.\<close>

definition after_dip :: "pyfloat \<Rightarrow> trade_return \<Rightarrow> phase_state \<Rightarrow> phase_state" where
  "after_dip scale tr s =
     (let s1 = roll_day (tr_day tr) s
      in record_dip (ph_equity s1 - tr_mae_pct tr * scale) (s1\<lparr>ph_days := insert (tr_day tr) (ph_days s1)\<rparr>))"

lemma after_dip_inv:
  assumes inv: "phase_inv scale xs k s" and k: "k < length xs"
  shows "ph_equity (after_dip scale (xs ! k) s) = equity_at scale xs k"
    and "ph_peak (after_dip scale (xs ! k) s) = peak_at scale xs k"
    and "ph_sod (after_dip scale (xs ! k) s) = equity_at scale xs (day_start xs k)"
    and "ph_worst (after_dip scale (xs ! k) s) = worst_dip scale xs (Suc k)"
    and "ph_days (after_dip scale (xs ! k) s) = tr_day ` set (take (Suc k) xs)"
    and "phase_inv scale xs (Suc k) (book_return (tr_ret_pct (xs ! k) * scale) (after_dip scale (xs ! k) s))"
proof -
  show "ph_equity (after_dip scale (xs ! k) s) = equity_at scale xs k"
    "ph_peak (after_dip scale (xs ! k) s) = peak_at scale xs k"
    using inv by (simp_all add: phase_inv_def after_dip_def record_dip_def Let_def)
  show "ph_sod (after_dip scale (xs ! k) s) = equity_at scale xs (day_start xs k)"
    using roll_day_sod[OF assms] by (simp add: after_dip_def record_dip_def Let_def)
  show "ph_worst (after_dip scale (xs ! k) s) = worst_dip scale xs (Suc k)"
    using inv worst_dip_nonneg[of scale xs k]
    by (auto simp: phase_inv_def after_dip_def record_dip_def Let_def worst_dip_Suc low_at_def)
  show "ph_days (after_dip scale (xs ! k) s) = tr_day ` set (take (Suc k) xs)"
    using inv k by (simp add: phase_inv_def after_dip_def record_dip_def Let_def take_Suc_conv_app_nth)
  moreover have "ph_day (after_dip scale (xs ! k) s) = Some (tr_day (xs ! k))"
    by (simp add: after_dip_def record_dip_def Let_def)
  ultimately show "phase_inv scale xs (Suc k)
      (book_return (tr_ret_pct (xs ! k) * scale) (after_dip scale (xs ! k) s))"
    using \<open>ph_equity _ = _\<close> \<open>ph_peak _ = _\<close> \<open>ph_sod _ = _\<close> \<open>ph_worst _ = _\<close> k
    by (simp add: phase_inv_def book_return_def equity_at_Suc peak_at_Suc)
qed


lemma phase_loop_step:
  "phase_loop rules target scale start start_ms i (tr # trs) s =
    (if timed_out rules start_ms (tr_entry_ms tr) then phase_end TIMEOUT (ph_equity s) s (i - start) i
     else
       let a = after_dip scale tr s; low = ph_equity a - tr_mae_pct tr * scale in
       case dd_breach rules (ph_peak a) (ph_sod a) low of
         Some outcome \<Rightarrow> phase_end outcome low a (i - start + 1) (i + 1)
       | None \<Rightarrow>
           let s4 = book_return (tr_ret_pct tr * scale) a in
           if target_reached rules target s4 then phase_end PASS (ph_equity s4) s4 (i - start + 1) (i + 1)
           else phase_loop rules target scale start start_ms (i + 1) trs s4)"
  by (simp add: after_dip_def Let_def split: option.split)

lemma dd_breach_outcome:
  "dd_breach rules peak sod low = Some out \<Longrightarrow> out = FAIL_MAX_DD \<or> out = FAIL_DAILY_DD"
  by (auto simp: dd_breach_def Let_def split: if_splits)

lemma phase_loop_spec:
  assumes "phase_inv scale xs k s" and "k \<le> length xs"
  shows "phase_loop rules target scale start (tr_entry_ms (hd xs)) (start + k) (drop k xs) s =
    (case find (\<lambda>k. verdict_at rules target scale xs k \<noteq> None) [k ..< length xs] of
       Some j \<Rightarrow> verdict_result scale xs start j (the (verdict_at rules target scale xs j))
     | None \<Rightarrow> unresolved scale xs start)"
  using assms
proof (induction "length xs - k" arbitrary: k s)
  case 0
  then show ?case by (simp add: phase_end_def phase_inv_def unresolved_def days_traded_def)
next
  case (Suc m)
  then have k: "k < length xs" and m: "m = length xs - Suc k" by simp_all
  let ?tr = "xs ! k" and ?rest = "drop (Suc k) xs"
  let ?a = "after_dip scale ?tr s"
  let ?s4 = "book_return (tr_ret_pct ?tr * scale) ?a"
  note a = after_dip_inv[OF Suc.prems(1) k]
  have upt: "[k ..< length xs] = k # [Suc k ..< length xs]" using k by (simp add: upt_conv_Cons)
  have drop: "drop k xs = ?tr # ?rest" using k by (simp add: Cons_nth_drop_Suc)
  have low: "equity_at scale xs k - tr_mae_pct ?tr * scale = low_at scale xs k" by (simp add: low_at_def)
  have eq4: "ph_equity ?s4 = equity_at scale xs (Suc k)" "ph_worst ?s4 = worst_dip scale xs (Suc k)"
    "ph_days ?s4 = tr_day ` set (take (Suc k) xs)"
    using a(6) by (simp_all add: phase_inv_def)
  have target: "target_reached rules target ?s4 \<longleftrightarrow> equity_at scale xs (Suc k) \<ge> target - 1 / 10^9 \<and>
      int (days_traded xs (Suc k)) \<ge> min_trading_days rules"
    by (simp add: target_reached_def eq4 days_traded_def)
  have step: "phase_loop rules target scale start (tr_entry_ms (hd xs)) (start + k) (drop k xs) s =
    (case verdict_at rules target scale xs k of
       Some out \<Rightarrow> verdict_result scale xs start k out
     | None \<Rightarrow> phase_loop rules target scale start (tr_entry_ms (hd xs)) (start + Suc k) ?rest ?s4)"
  proof (cases "timed_out rules (tr_entry_ms (hd xs)) (tr_entry_ms ?tr)")
    case True
    then show ?thesis using Suc.prems(1)
      by (simp add: drop verdict_at_def verdict_result_def phase_end_def phase_inv_def days_traded_def)
  next
    case False
    show ?thesis
    proof (cases "dd_breach rules (peak_at scale xs k) (equity_at scale xs (day_start xs k)) (low_at scale xs k)")
      case None
      then show ?thesis
        using False a eq4
        by (simp add: drop phase_loop_step Let_def low verdict_at_def target verdict_result_def phase_end_def
            days_traded_def del: phase_loop.simps)
    next
      case (Some out)
      then show ?thesis
        using False a dd_breach_outcome[OF Some]
        by (auto simp: drop phase_loop_step Let_def low verdict_at_def verdict_result_def phase_end_def
            days_traded_def simp del: phase_loop.simps)
    qed
  qed
  show ?case
  proof (cases "verdict_at rules target scale xs k")
    case None
    then show ?thesis using step Suc.hyps(1)[OF m a(6)] k by (simp add: upt)
  next
    case (Some out)
    then show ?thesis using step by (simp add: upt)
  qed
qed

text \<open>C32: A phase is decided by its first decisive trade: the loop returns exactly what its
  specification says, the verdict of the first trade that times out, touches the maximum or the
  daily drawdown at its worst moment, or reaches the target, with the equity, the days traded,
  the trades used and the deepest dip up to that trade, and is incomplete when no trade
  decides.\<close>

theorem phase_first_verdict:
  "simulate_phase rets start rules target scale = phase_spec rets start rules target scale"
proof (cases "drop start rets")
  case Nil
  then show ?thesis
    by (simp add: simulate_phase_def phase_spec_def unresolved_def phase_end_def fresh_phase_def days_traded_def)
next
  case (Cons tr trs)
  have "phase_inv scale (drop start rets) 0 fresh_phase" by (simp add: phase_inv_def fresh_phase_def)
  from phase_loop_spec[OF this, of rules target start] show ?thesis
    unfolding phase_spec_def Let_def using Cons by (simp add: simulate_phase_def del: phase_loop.simps)
qed


lemma phase_example:
  "pr_outcome (simulate_phase [\<lparr>tr_entry_ms = 0, tr_exit_ms = 1, tr_ret_pct = -1, tr_mae_pct = 2, tr_day = 0\<rparr>,
     \<lparr>tr_entry_ms = 2, tr_exit_ms = 3, tr_ret_pct = -1, tr_mae_pct = 4, tr_day = 0\<rparr>] 0 default_rules 8 1) = FAIL_DAILY_DD"
  by (simp add: simulate_phase_def default_rules_def fresh_phase_def timed_out_def roll_day_def record_dip_def
      dd_breach_def book_return_def target_reached_def phase_end_def Let_def)

subsection \<open>Trades that never overlap\<close>

text \<open>
  Trades one after the other, each within one firm day, no time limit between an entry and its
  exit: where the event walk must agree with the trade walk.
\<close>

fun one_at_a_time :: "challenge_rules \<Rightarrow> pyfloat \<Rightarrow> trade_return list \<Rightarrow> bool" where
  "one_at_a_time rules start_ms [] = True"
| "one_at_a_time rules start_ms (t # ts) \<longleftrightarrow>
     tr_entry_ms t \<le> tr_exit_ms t \<and> (case ts of [] \<Rightarrow> True | u # us \<Rightarrow> tr_exit_ms t < tr_entry_ms u) \<and>
     challenge_day (tr_entry_ms t) (reset_utc_offset_hours rules) = tr_day t \<and>
     challenge_day (tr_exit_ms t) (reset_utc_offset_hours rules) = tr_day t \<and>
     timed_out rules start_ms (tr_exit_ms t) = timed_out rules start_ms (tr_entry_ms t) \<and>
     one_at_a_time rules start_ms ts"

definition events_from :: "nat \<Rightarrow> trade_return list \<Rightarrow> phase_event list" where
  "events_from k ts = concat (List.map (\<lambda>(k, t). [(tr_entry_ms t, False, k), (tr_exit_ms t, True, k)]) (List.enumerate k ts))"

lemma events_from_simps [simp]:
  "events_from k [] = []"
  "events_from k (t # ts) = (tr_entry_ms t, False, k) # (tr_exit_ms t, True, k) # events_from (Suc k) ts"
  by (simp_all add: events_from_def)

lemma events_sorted:
  assumes "one_at_a_time rules start_ms ts"
  shows "sorted (List.map (\<lambda>(t, cls, k). (t, cls)) (events_from k ts))"
  using assms
proof (induction ts arbitrary: k)
  case Nil
  then show ?case by simp
next
  case (Cons t ts)
  then show ?case
    by (cases ts) (simp_all add: sorted2_simps less_eq_prod_simp del: sorted_wrt.simps)
qed


lemma serial_events:
  "one_at_a_time rules start_ms ts \<Longrightarrow> phase_events ts = events_from 0 ts"
  using events_sorted[of rules start_ms ts 0]
  by (simp add: phase_events_def trade_events_def events_from_def sort_key_id_if_sorted)

text \<open>The event walk between two trades, next to the trade walk.\<close>

definition in_step :: "nat \<Rightarrow> phase_state \<Rightarrow> conc_state \<Rightarrow> bool" where
  "in_step k s c \<longleftrightarrow> phase_state.truncate c = s \<and> cs_open_mae c = [] \<and> cs_booked c = k \<and>
     cs_last_booked c = int k - 1"

lemma truncate_simps [simp]:
  "phase_state.truncate (roll_day d c) = roll_day d (phase_state.truncate c)"
  "phase_state.truncate (record_dip low c) = record_dip low (phase_state.truncate c)"
  "phase_state.truncate (book_return r c) = book_return r (phase_state.truncate c)"
  for c :: "'a phase_state_scheme"
  by (simp_all add: phase_state.truncate_def roll_day_def record_dip_def book_return_def)

lemma truncate_fields:
  "ph_equity (phase_state.truncate c) = ph_equity c" "ph_peak (phase_state.truncate c) = ph_peak c"
  "ph_worst (phase_state.truncate c) = ph_worst c" "ph_sod (phase_state.truncate c) = ph_sod c"
  "ph_days (phase_state.truncate c) = ph_days c" "ph_day (phase_state.truncate c) = ph_day c"
  by (simp_all add: phase_state.truncate_def)

lemma phase_end_truncate: "phase_end out r (phase_state.truncate c) u n = phase_end out r c u n"
  by (simp add: phase_end_def truncate_fields)

lemma roll_day_same [simp]: "ph_day s = Some d \<Longrightarrow> roll_day d s = s"
  by (simp add: roll_day_def)

lemma record_dip_twice [simp]: "record_dip low (record_dip low s) = record_dip low s"
  by (simp add: record_dip_def)

definition misses :: "phase_result \<Rightarrow> phase_result" where
  "misses r = (if pr_outcome r \<in> {FAIL_MAX_DD, FAIL_DAILY_DD} then r\<lparr>pr_next_index := pr_next_index r - 1\<rparr> else r)"


definition opened :: "pyfloat \<Rightarrow> nat \<Rightarrow> trade_return \<Rightarrow> conc_state \<Rightarrow> conc_state" where
  "opened scale k t c =
     (let c1 = open_event scale k t (roll_day (tr_day t) c)
      in record_dip (ph_equity c - tr_mae_pct t * scale) c1)"

lemma opened_fields:
  assumes "in_step k s c"
  shows "phase_state.truncate (opened scale k t c) = after_dip scale t s"
    and "cs_open_mae (opened scale k t c) = [(k, tr_mae_pct t * scale)]"
    and "cs_booked (opened scale k t c) = k" and "cs_last_booked (opened scale k t c) = int k - 1"
    and "ph_day (opened scale k t c) = Some (tr_day t)" and "ph_equity (opened scale k t c) = ph_equity s"
    and "record_dip (ph_equity s - tr_mae_pct t * scale) (opened scale k t c) = opened scale k t c"
proof -
  from assms have s: "s = phase_state.truncate c" "ph_equity s = ph_equity c" by (auto simp: in_step_def truncate_fields)
  show "phase_state.truncate (opened scale k t c) = after_dip scale t s"
    unfolding s(1) by (simp add: opened_def after_dip_def open_event_def roll_day_def record_dip_def Let_def
        phase_state.truncate_def)
  show "cs_open_mae (opened scale k t c) = [(k, tr_mae_pct t * scale)]" "cs_booked (opened scale k t c) = k"
    "cs_last_booked (opened scale k t c) = int k - 1" "ph_day (opened scale k t c) = Some (tr_day t)"
    "ph_equity (opened scale k t c) = ph_equity s"
    using assms s by (auto simp: in_step_def opened_def open_event_def roll_day_def record_dip_def Let_def)
  show "record_dip (ph_equity s - tr_mae_pct t * scale) (opened scale k t c) = opened scale k t c"
    by (simp add: opened_def s(2) Let_def)
qed

lemma conc_open:
  assumes "in_step k s c" and "xs ! k = t" and "\<not> timed_out rules start_ms (tr_entry_ms t)"
    and "challenge_day (tr_entry_ms t) (reset_utc_offset_hours rules) = tr_day t"
  shows "conc_loop rules target scale start n start_ms xs ((tr_entry_ms t, False, k) # evs) c =
    (let a = after_dip scale t s; low = ph_equity a - tr_mae_pct t * scale in
     case dd_breach rules (ph_peak a) (ph_sod a) low of
       Some out \<Rightarrow> phase_end out low a (Suc k) (start + k)
     | None \<Rightarrow> conc_loop rules target scale start n start_ms xs evs (opened scale k t c))"
proof -
  note o = opened_fields[OF assms(1), where scale = scale and t = t]
  let ?o = "opened scale k t c"
  have a: "ph_equity (after_dip scale t s) = ph_equity s" "ph_peak (after_dip scale t s) = ph_peak ?o"
    "ph_sod (after_dip scale t s) = ph_sod ?o"
    unfolding o(1)[symmetric] by (simp_all add: truncate_fields o(6))
  have eq: "ph_equity c = ph_equity s" using assms(1) by (auto simp: in_step_def truncate_fields)
  have "cs_open_mae c = []" using assms(1) by (simp add: in_step_def)
  then have "cs_open_mae (open_event scale k t (roll_day (tr_day t) c)) = [(k, tr_mae_pct t * scale)]"
    by (simp add: open_event_def roll_day_def)
  moreover have "ph_equity (open_event scale k t (roll_day (tr_day t) c)) = ph_equity s"
    by (simp add: open_event_def eq)
  ultimately have "conc_loop rules target scale start n start_ms xs ((tr_entry_ms t, False, k) # evs) c =
    (case dd_breach rules (ph_peak ?o) (ph_sod ?o) (ph_equity s - tr_mae_pct t * scale) of
       Some out \<Rightarrow> phase_end out (ph_equity s - tr_mae_pct t * scale) ?o (cs_booked ?o + 1) (conc_next start ?o)
     | None \<Rightarrow> conc_loop rules target scale start n start_ms xs evs ?o)"
    using assms(2-4) by (simp add: opened_def Let_def eq split: option.split)
  moreover have "phase_end out r ?o u m = phase_end out r (after_dip scale t s) u m" for out r u m
    unfolding o(1)[symmetric] phase_end_truncate ..
  moreover have "conc_next start ?o = start + k" unfolding conc_next_def o by linarith
  ultimately show ?thesis by (simp add: a o(3) Let_def split: option.split)
qed

lemma conc_close:
  assumes "in_step k s c" and "xs ! k = t" and "\<not> timed_out rules start_ms (tr_exit_ms t)"
    and "challenge_day (tr_exit_ms t) (reset_utc_offset_hours rules) = tr_day t"
    and "a = after_dip scale t s"
    and "dd_breach rules (ph_peak a) (ph_sod a) (ph_equity a - tr_mae_pct t * scale) = None"
  shows "\<exists>c4. in_step (Suc k) (book_return (tr_ret_pct t * scale) a) c4 \<and>
    conc_loop rules target scale start n start_ms xs ((tr_exit_ms t, True, k) # evs) (opened scale k t c) =
    (if target_reached rules target (book_return (tr_ret_pct t * scale) a)
     then phase_end PASS (ph_equity c4) (book_return (tr_ret_pct t * scale) a) (Suc k) (start + Suc k)
     else conc_loop rules target scale start n start_ms xs evs c4)"
proof -
  note o = opened_fields[OF assms(1), where scale = scale and t = t]
  let ?o = "opened scale k t c"
  let ?c4 = "close_event scale k t ?o"
  have a: "ph_equity a = ph_equity s" "ph_peak a = ph_peak ?o" "ph_sod a = ph_sod ?o"
    unfolding assms(5) o(1)[symmetric] by (simp_all add: truncate_fields o(6))
  have trunc: "phase_state.truncate ?c4 = book_return (tr_ret_pct t * scale) a"
    unfolding assms(5) o(1)[symmetric] by (simp add: close_event_def phase_state.truncate_def book_return_def)
  have rest: "cs_open_mae ?c4 = []" "cs_booked ?c4 = Suc k" "cs_last_booked ?c4 = int k"
    by (simp_all add: close_event_def book_return_def o)
  have nxt: "conc_next start ?c4 = start + Suc k" unfolding conc_next_def rest by linarith
  have step: "in_step (Suc k) (book_return (tr_ret_pct t * scale) a) ?c4"
    by (simp add: in_step_def trunc rest)
  have "target_reached rules target ?c4 = target_reached rules target (book_return (tr_ret_pct t * scale) a)"
    unfolding trunc[symmetric] by (simp add: target_reached_def truncate_fields)
  moreover have "phase_end PASS r ?c4 u m = phase_end PASS r (book_return (tr_ret_pct t * scale) a) u m" for r u m
    unfolding trunc[symmetric] phase_end_truncate ..
  moreover have "roll_day (tr_day t) ?o = ?o" by (simp add: o(5))
  ultimately have "conc_loop rules target scale start n start_ms xs ((tr_exit_ms t, True, k) # evs) ?o =
    (if target_reached rules target (book_return (tr_ret_pct t * scale) a)
     then phase_end PASS (ph_equity ?c4) (book_return (tr_ret_pct t * scale) a) (Suc k) (start + Suc k)
     else conc_loop rules target scale start n start_ms xs evs ?c4)"
    using assms(2-4,6) a nxt by (simp add: o Let_def rest)
  then show ?thesis using step by blast
qed

lemma conc_loop_serial:
  assumes "in_step k s c" and "drop k xs = ts" and "k \<le> length xs" and "one_at_a_time rules start_ms ts"
  shows "conc_loop rules target scale start (start + length xs) start_ms xs (events_from k ts) c =
    misses (phase_loop rules target scale start start_ms (start + k) ts s)"
  using assms
proof (induction ts arbitrary: k s c)
  case Nil
  then have k: "length xs = k" by simp
  have s: "s = phase_state.truncate c" "cs_booked c = k" using Nil.prems(1) by (auto simp: in_step_def)
  show ?case unfolding s(1) by (simp add: k s(2) truncate_fields phase_end_truncate misses_def) (simp add: phase_end_def)
next
  case (Cons t ts)
  let ?a = "after_dip scale t s"
  let ?low = "ph_equity ?a - tr_mae_pct t * scale" and ?s4 = "book_return (tr_ret_pct t * scale) ?a"
  have k: "k < length xs" "xs ! k = t" "drop (Suc k) xs = ts"
    using Cons.prems(2) by (metis drop_eq_Nil list.discI not_le, metis nth_via_drop, metis drop_Suc list.sel(3) tl_drop)
  have serial: "one_at_a_time rules start_ms ts" using Cons.prems(4) by simp
  have s: "s = phase_state.truncate c" "cs_booked c = k" "cs_last_booked c = int k - 1"
    using Cons.prems(1) by (auto simp: in_step_def)
  show ?case
  proof (cases "timed_out rules start_ms (tr_entry_ms t)")
    case True
    have "conc_next start c = start + k" unfolding conc_next_def s(3) by linarith
    then show ?thesis unfolding s(1) using True
      by (simp add: s(2) truncate_fields phase_end_truncate misses_def) (simp add: phase_end_def)
  next
    case False
    note open_ev = conc_open[OF Cons.prems(1) k(2) False]
    have days: "challenge_day (tr_entry_ms t) (reset_utc_offset_hours rules) = tr_day t"
      "challenge_day (tr_exit_ms t) (reset_utc_offset_hours rules) = tr_day t"
      and exit: "\<not> timed_out rules start_ms (tr_exit_ms t)" using Cons.prems(4) False by simp_all
    show ?thesis
    proof (cases "dd_breach rules (ph_peak ?a) (ph_sod ?a) ?low")
      case (Some out)
      then show ?thesis
        using False dd_breach_outcome[OF Some]
        by (simp add: open_ev[OF days(1)] phase_loop_step Let_def misses_def phase_end_def del: phase_loop.simps conc_loop.simps)
    next
      case None
      obtain c4 where c4: "in_step (Suc k) ?s4 c4"
        "conc_loop rules target scale start (start + length xs) start_ms xs ((tr_exit_ms t, True, k) # events_from (Suc k) ts)
           (opened scale k t c) =
         (if target_reached rules target ?s4 then phase_end PASS (ph_equity c4) ?s4 (Suc k) (start + Suc k)
          else conc_loop rules target scale start (start + length xs) start_ms xs (events_from (Suc k) ts) c4)"
        using conc_close[OF Cons.prems(1) k(2) exit days(2) refl None] by blast
      have "ph_equity c4 = ph_equity ?s4" using c4(1) by (metis in_step_def truncate_fields(1))
      moreover note Cons.IH[OF c4(1) k(3) _ serial] k(1)
      ultimately show ?thesis
        using False None c4(2)
        by (simp add: open_ev[OF days(1)] phase_loop_step Let_def misses_def phase_end_def del: phase_loop.simps conc_loop.simps)
    qed
  qed
qed



definition demo_returns :: "trade_return list" where
  "demo_returns =
     [\<lparr>tr_entry_ms = 0, tr_exit_ms = 1000, tr_ret_pct = 1, tr_mae_pct = 2, tr_day = 0\<rparr>,
      \<lparr>tr_entry_ms = 2000, tr_exit_ms = 3000, tr_ret_pct = -1, tr_mae_pct = 4, tr_day = 0\<rparr>,
      \<lparr>tr_entry_ms = 86400000, tr_exit_ms = 86500000, tr_ret_pct = 9, tr_mae_pct = 1, tr_day = 1\<rparr>]"

lemma demo_returns_serial: "one_at_a_time default_rules 0 demo_returns"
  by (simp add: demo_returns_def default_rules_def challenge_day_def wall_day_def day_ms_def timed_out_def)



subsection \<open>The Monte Carlo loop\<close>

lemma advance_to_stop:
  "advance_to rets cur j < length rets \<Longrightarrow> \<not> tr_entry_ms (rets ! advance_to rets cur j) < cur"
proof (induction rets cur j rule: advance_to.induct)
  case (1 rets cur j)
  then show ?case
    by (cases "j < length rets \<and> tr_entry_ms (rets ! j) < cur") (simp_all add: advance_to.simps[of rets cur j])
qed

lemma advance_to_fix:
  "\<not> (j < length rets \<and> tr_entry_ms (rets ! j) < cur) \<Longrightarrow> advance_to rets cur j = j"
  by (subst advance_to.simps) auto

text \<open>What the tally keeps: each start once, each run one outcome.\<close>

definition tally_ok :: "nat \<Rightarrow> nat set \<Rightarrow> mc_result \<Rightarrow> bool" where
  "tally_ok n seen m \<longleftrightarrow> seen \<subseteq> {..<n} \<and> mc_runs m = card seen \<and>
     mc_runs m = mc_passed m + mc_failed_daily m + mc_failed_max m + mc_timeouts m + mc_incompletes m \<and>
     mc_passed m \<le> mc_phase1_passed m \<and> mc_phase1_passed m \<le> mc_runs m \<and>
     length (mc_days_to_pass m) = mc_passed m \<and> length (mc_worst_dd_pcts m) = mc_runs m"

lemma challenge_passed_phase1:
  "cr_passed (simulate_challenge rets j rules scale conc) \<Longrightarrow>
   phase_passed (cr_phase1 (simulate_challenge rets j rules scale conc))"
  by (auto simp: cr_passed_def simulate_challenge_def Let_def phase_passed_def split: if_splits)

lemma tally_ok_step:
  assumes "tally_ok n seen m" and "j < n" and "j \<notin> seen"
    and "cr_passed cr \<Longrightarrow> phase_passed (cr_phase1 cr)"
  shows "tally_ok n (insert j seen) (mc_tally cr m)"
proof -
  have "finite seen" using assms(1) finite_subset unfolding tally_ok_def by blast
  then have "card (insert j seen) = Suc (card seen)" using assms(3) by simp
  then show ?thesis
    using assms by (cases "cr_outcome cr") (auto simp: tally_ok_def mc_tally_def Let_def cr_passed_def)
qed

lemma tally_ok_runs: "tally_ok n seen m \<Longrightarrow> mc_runs m \<le> n"
  using card_mono[of "{..<n}" seen] by (simp add: tally_ok_def)

lemma mc_loop_total:
  assumes "0 < step_days" and "last_day - cur < of_nat k * (of_int step_days * day_ms)"
    and "tally_ok (length rets) seen res"
  shows "\<exists>r seen'. mc_loop rets rules scale conc step_days cur last_day j seen res = Some r \<and>
    tally_ok (length rets) seen' r"
  using assms(2,3)
proof (induction k arbitrary: cur j seen res)
  case 0
  then show ?case by (subst mc_loop.simps) auto
next
  case (Suc k)
  let ?j = "advance_to rets cur j"
  have next_date: "last_day - (cur + of_int step_days * day_ms) < of_nat k * (of_int step_days * day_ms)"
    using Suc.prems(1) by (simp add: algebra_simps)
  show ?case
  proof (cases "cur \<le> last_day \<and> ?j < length rets")
    case False
    then show ?thesis using Suc.prems(2) by (subst mc_loop.simps) (auto simp: Let_def)
  next
    case True
    show ?thesis
    proof (cases "?j \<in> seen")
      case True
      then show ?thesis
        using \<open>cur \<le> last_day \<and> ?j < length rets\<close> Suc.IH[OF next_date Suc.prems(2)]
        by (subst mc_loop.simps) (simp add: Let_def)
    next
      case False
      have "tally_ok (length rets) (insert ?j seen) (mc_tally (simulate_challenge rets ?j rules scale conc) res)"
        using \<open>cur \<le> last_day \<and> ?j < length rets\<close> False Suc.prems(2)
        by (intro tally_ok_step challenge_passed_phase1) auto
      then show ?thesis
        using \<open>cur \<le> last_day \<and> ?j < length rets\<close> False Suc.IH[OF next_date]
        by (subst mc_loop.simps) (simp add: Let_def)
    qed
  qed
qed

lemma mc_loop_diverges:
  assumes "mc_loop rets rules scale conc 0 cur last_day j seen res = Some r" and "cur \<le> last_day"
  shows "length rets \<le> advance_to rets cur j"
proof -
  let ?P = "\<lambda>(rets :: trade_return list) (rules :: challenge_rules) (scale :: pyfloat) (conc :: bool)
      (step_days :: int) (cur :: pyfloat) (last_day :: pyfloat) (j :: nat) (seen :: nat set) (res :: mc_result)
      (r :: mc_result). step_days = 0 \<longrightarrow> cur \<le> last_day \<longrightarrow> length rets \<le> advance_to rets cur j"
  have "?P rets rules scale conc 0 cur last_day j seen res r"
  proof (rule mc_loop.raw_induct[where P = ?P, OF _ assms(1)], intro impI, rule ccontr)
    fix f :: "trade_return list \<Rightarrow> challenge_rules \<Rightarrow> pyfloat \<Rightarrow> bool \<Rightarrow> int \<Rightarrow> pyfloat \<Rightarrow> pyfloat \<Rightarrow> nat \<Rightarrow>
        nat set \<Rightarrow> mc_result \<Rightarrow> mc_result option"
      and rets rules scale conc step_days cur last_day j seen res r
    assume IH: "\<And>rets rules scale conc step_days cur last_day j seen res r.
        f rets rules scale conc step_days cur last_day j seen res = Some r \<Longrightarrow>
        ?P rets rules scale conc step_days cur last_day j seen res r"
      and run: "(if \<not> cur \<le> last_day then Some res
        else let j' = advance_to rets cur j
          in if length rets \<le> j' then Some res
             else if j' \<in> seen
             then f rets rules scale conc step_days (cur + of_int step_days * day_ms) last_day j' seen res
             else f rets rules scale conc step_days (cur + of_int step_days * day_ms) last_day j' (insert j' seen)
                    (mc_tally (simulate_challenge rets j' rules scale conc) res)) = Some r"
      and bad: "step_days = 0" "cur \<le> last_day" "\<not> length rets \<le> advance_to rets cur j"
    have "advance_to rets cur (advance_to rets cur j) = advance_to rets cur j"
      by (rule advance_to_fix) (use advance_to_stop in blast)
    then show False using run bad IH by (auto simp: Let_def split: if_splits) fastforce+
  qed
  then show ?thesis using assms(2) by blast
qed

lemma tally_rates:
  assumes "tally_ok n seen m"
  shows "0 \<le> pass_rate m \<and> 0 \<le> account_ending_rate m \<and> pass_rate m + account_ending_rate m \<le> 1"
proof -
  have d: "decisive_runs m = int (mc_passed m + mc_failed_daily m + mc_failed_max m + mc_timeouts m)"
    using assms by (simp add: decisive_runs_def tally_ok_def)
  show ?thesis
  proof (cases "decisive_runs m = 0")
    case True
    then show ?thesis by (simp add: pass_rate_def account_ending_rate_def rate_of_def)
  next
    case False
    then have pos: "0 < real (mc_passed m + mc_failed_daily m + mc_failed_max m + mc_timeouts m)"
      using d by linarith
    have "real_of_int (decisive_runs m) = real (mc_passed m + mc_failed_daily m + mc_failed_max m + mc_timeouts m)"
      unfolding d by simp
    then have "pass_rate m + account_ending_rate m =
        real (mc_passed m + mc_failed_daily m + mc_failed_max m) /
        real (mc_passed m + mc_failed_daily m + mc_failed_max m + mc_timeouts m)"
      using False by (simp add: pass_rate_def account_ending_rate_def rate_of_def add_divide_distrib)
    also have "\<dots> \<le> 1" using pos by simp
    finally show ?thesis using False d
      by (simp add: pass_rate_def account_ending_rate_def rate_of_def)
  qed
qed

lemma monte_carlo_total:
  assumes "0 < step_days"
  shows "\<exists>r seen. monte_carlo rets rules scale step_days conc = Some r \<and> tally_ok (length rets) seen r"
proof (cases "rets = []")
  case True
  then show ?thesis by (intro exI[of _ empty_mc] exI[of _ "{}"]) (simp add: monte_carlo_def tally_ok_def empty_mc_def)
next
  case False
  have pos: "0 < real_of_int step_days * day_ms" using assms by (simp add: day_ms_def)
  obtain k where k: "tr_entry_ms (last rets) - tr_entry_ms (hd rets) < of_nat k * (real_of_int step_days * day_ms)"
    using reals_Archimedean3[OF pos] by blast
  have start: "tally_ok (length rets) {} empty_mc" by (simp add: tally_ok_def empty_mc_def)
  show ?thesis
    using mc_loop_total[OF assms k start] False by (simp add: monte_carlo_def Let_def)
qed



text \<open>
  The rate of phase-1 passes is not a fraction: a run that passed phase 1 and ran out of trades
  in phase 2 counts as a pass of phase 1 but not as a decisive run.
\<close>

lemma phase1_pass_rate_above_one:
  "phase1_pass_rate (mc_tally \<lparr>cr_outcome = INCOMPLETE,
       cr_phase1 = \<lparr>pr_outcome = PASS, pr_end_return = 8, pr_trading_days = 1, pr_trades_used = 1, pr_worst_dd = 0,
         pr_next_index = 1\<rparr>,
       cr_phase2 = Some \<lparr>pr_outcome = INCOMPLETE, pr_end_return = 0, pr_trading_days = 0, pr_trades_used = 0,
         pr_worst_dd = 0, pr_next_index = 1\<rparr>, cr_total_days = 1, cr_start_ms = 0\<rparr>
     (mc_tally \<lparr>cr_outcome = PASS,
       cr_phase1 = \<lparr>pr_outcome = PASS, pr_end_return = 8, pr_trading_days = 1, pr_trades_used = 1, pr_worst_dd = 0,
         pr_next_index = 1\<rparr>,
       cr_phase2 = Some \<lparr>pr_outcome = PASS, pr_end_return = 5, pr_trading_days = 1, pr_trades_used = 1,
         pr_worst_dd = 0, pr_next_index = 2\<rparr>, cr_total_days = 2, cr_start_ms = 0\<rparr> empty_mc)) = 2"
  by (simp add: mc_tally_def empty_mc_def phase1_pass_rate_def rate_of_def decisive_runs_def phase_passed_def
      cr_passed_def Let_def)

end
