(* ===== verification/Timeframe_Agg.thy ===== *)
theory Timeframe_Agg
  imports Candle_Builder
begin

section \<open>Higher-timeframe bars\<close>

text \<open>
  \<open>app/cfd_research/timeframe.py\<close>: bars of a higher timeframe built from base bars. The loop's
  forming bar (its bucket, prices, volume and last base index) is an optional pair of a candle
  and an index; \<open>INTERVAL_MS\<close> is the table of the candle builder. The specification cuts the
  base bars into runs of one bucket each and summarises every run.
\<close>

definition INTERVAL_MS :: "timeframe \<Rightarrow> int" where
  "INTERVAL_MS tf = TIMEFRAME_MS tf"

definition bucket_open :: "pyfloat \<Rightarrow> int \<Rightarrow> int" where
  "bucket_open ts interval = (py_int ts div interval) * interval"

definition start_bar :: "timeframe \<Rightarrow> int \<Rightarrow> candle \<Rightarrow> candle" where
  "start_bar tf b cd =
     \<lparr>c_exchange = c_exchange cd, c_segment = c_segment cd, c_token = c_token cd, c_timeframe = tf,
      c_ms = of_int b, c_open = c_open cd, c_high = c_high cd, c_low = c_low cd, c_close = c_close cd,
      c_volume = c_volume cd\<rparr>"

definition extend_bar :: "candle \<Rightarrow> candle \<Rightarrow> candle" where
  "extend_bar cd bar =
     bar\<lparr>c_high := (if c_high cd > c_high bar then c_high cd else c_high bar),
         c_low := (if c_low cd < c_low bar then c_low cd else c_low bar),
         c_close := c_close cd, c_volume := c_volume bar + c_volume cd\<rparr>"

fun agg_loop ::
  "timeframe \<Rightarrow> int \<Rightarrow> nat \<Rightarrow> candle list \<Rightarrow> (candle \<times> nat) option \<Rightarrow> (candle \<times> nat) list \<Rightarrow>
   (candle \<times> nat) list" where
  "agg_loop tf interval i [] cur out = (case cur of None \<Rightarrow> out | Some bar \<Rightarrow> out @ [bar])"
| "agg_loop tf interval i (cd # cds) cur out =
     (let b = bucket_open (c_ms cd) interval in
      case cur of
        None \<Rightarrow> agg_loop tf interval (i + 1) cds (Some (start_bar tf b cd, i)) out
      | Some (bar, li) \<Rightarrow>
          if of_int b \<noteq> c_ms bar
          then agg_loop tf interval (i + 1) cds (Some (start_bar tf b cd, i)) (out @ [(bar, li)])
          else agg_loop tf interval (i + 1) cds (Some (extend_bar cd bar, i)) out)"

definition aggregate_with_index :: "candle list \<Rightarrow> timeframe \<Rightarrow> (candle list \<times> nat list) result" where
  "aggregate_with_index candles tf =
     (case candles of
        [] \<Rightarrow> Inr ([], [])
      | c # cs \<Rightarrow>
          let interval = INTERVAL_MS tf; base = INTERVAL_MS (c_timeframe c) in
          if interval \<le> base then Inr (candles, [0 ..< length candles])
          else if interval mod base \<noteq> 0 then Inl (ValueError ''timeframe'')
          else let bars = agg_loop tf interval 0 candles None []
               in Inr (List.map fst bars, List.map snd bars))"

definition aggregate_htf :: "candle list \<Rightarrow> timeframe \<Rightarrow> candle list result" where
  "aggregate_htf candles tf =
     (case aggregate_with_index candles tf of Inl e \<Rightarrow> Inl e | Inr (bars, idx) \<Rightarrow> Inr bars)"

lemma start_bar_ok: "ohlc_ok cd \<Longrightarrow> ohlc_ok (start_bar tf b cd)"
  by (simp add: ohlc_ok_def start_bar_def)

lemma extend_bar_ok: "ohlc_ok cd \<Longrightarrow> ohlc_ok bar \<Longrightarrow> ohlc_ok (extend_bar cd bar)"
  by (auto simp: ohlc_ok_def extend_bar_def)

lemma agg_loop_ok:
  "list_all ohlc_ok cds \<Longrightarrow> list_all (\<lambda>b. ohlc_ok (fst b)) out \<Longrightarrow>
   (case cur of None \<Rightarrow> True | Some b \<Rightarrow> ohlc_ok (fst b)) \<Longrightarrow>
   list_all (\<lambda>b. ohlc_ok (fst b)) (agg_loop tf interval i cds cur out)"
proof (induction tf interval i cds cur out rule: agg_loop.induct)
  case (1 tf interval i cur out)
  then show ?case by (auto split: option.splits)
next
  case (2 tf interval i cd cds cur out)
  then show ?case by (auto simp: Let_def start_bar_ok extend_bar_ok split: option.splits)
qed

text \<open>Well-formed base bars aggregate to well-formed bars.\<close>

lemma aggregate_ok:
  assumes "aggregate_with_index candles tf = Inr (htf, idx)" and "list_all ohlc_ok candles"
  shows "list_all ohlc_ok htf"
  using assms agg_loop_ok[of candles "[]" None tf "INTERVAL_MS tf" 0]
  by (auto simp: aggregate_with_index_def Let_def list.pred_map comp_def split: list.splits if_splits)

subsection \<open>Runs of one bucket\<close>

text \<open>The maximal runs of neighbours with the same key.\<close>

fun key_runs :: "('a \<Rightarrow> 'k) \<Rightarrow> 'a list \<Rightarrow> 'a list list" where
  "key_runs f [] = []"
| "key_runs f (x # xs) =
     (case key_runs f xs of
        [] \<Rightarrow> [[x]]
      | r # rs \<Rightarrow> if f (hd r) = f x then (x # r) # rs else [x] # r # rs)"

lemma key_runs_nonempty: "[] \<notin> set (key_runs f xs)"
  by (induction xs) (auto split: list.splits)

lemma concat_key_runs [simp]: "concat (key_runs f xs) = xs"
  by (induction xs) (auto split: list.splits)

lemma key_runs_Nil_iff [simp]: "key_runs f xs = [] \<longleftrightarrow> xs = []"
  by (cases xs) (auto split: list.splits)

lemma hd_key_runs: "xs \<noteq> [] \<Longrightarrow> hd (hd (key_runs f xs)) = hd xs"
proof (cases xs)
  case (Cons x ys)
  then show ?thesis by (auto split: list.splits)
qed simp

lemma key_runs_same: "r \<in> set (key_runs f xs) \<Longrightarrow> x \<in> set r \<Longrightarrow> f x = f (hd r)"
proof (induction xs arbitrary: r x)
  case Nil
  then show ?case by simp
next
  case (Cons y ys)
  then show ?case by (fastforce split: list.splits if_splits)
qed

lemma key_runs_change: "successively (\<lambda>r s. f (hd r) \<noteq> f (hd s)) (key_runs f xs)"
proof (induction xs)
  case Nil
  then show ?case by simp
next
  case (Cons x xs)
  show ?case
  proof (cases "key_runs f xs")
    case Nil
    then show ?thesis by simp
  next
    case run: (Cons r rs)
    have "r \<noteq> []" using key_runs_nonempty[of f xs] run by auto
    then show ?thesis using Cons run by (cases rs) auto
  qed
qed

text \<open>With sorted keys each run has its own key, and the keys of the runs rise.\<close>

lemma key_runs_sorted:
  assumes "sorted (List.map f xs)"
  shows "sorted_wrt (<) (List.map (\<lambda>r. f (hd r)) (key_runs f xs))"
  using assms
proof (induction xs)
  case Nil
  then show ?case by simp
next
  case (Cons x xs)
  show ?case
  proof (cases "key_runs f xs")
    case Nil
    then show ?thesis by simp
  next
    case run: (Cons r rs)
    have "r \<noteq> []" "xs \<noteq> []" using key_runs_nonempty[of f xs] run by auto
    then have hd: "hd r = hd xs" using hd_key_runs[of xs f] run by simp
    then have "f x \<le> f (hd r)" using Cons.prems \<open>xs \<noteq> []\<close> by (cases xs) auto
    then show ?thesis using Cons run by (auto simp: order.strict_trans1)
  qed
qed

text \<open>The bar of a run: first open, highest high, lowest low, last close, summed volume.\<close>

definition run_bar :: "timeframe \<Rightarrow> int \<Rightarrow> candle list \<Rightarrow> candle" where
  "run_bar tf interval r =
     \<lparr>c_exchange = c_exchange (hd r), c_segment = c_segment (hd r), c_token = c_token (hd r), c_timeframe = tf,
      c_ms = of_int (bucket_open (c_ms (hd r)) interval), c_open = c_open (hd r),
      c_high = Max (set (List.map c_high r)), c_low = Min (set (List.map c_low r)),
      c_close = c_close (last r), c_volume = (\<Sum>c\<leftarrow>r. c_volume c)\<rparr>"

lemma run_bar_single: "run_bar tf interval [cd] = start_bar tf (bucket_open (c_ms cd) interval) cd"
  by (simp add: run_bar_def start_bar_def)

lemma extend_bar_eq:
  "extend_bar cd bar =
     bar\<lparr>c_high := max (c_high cd) (c_high bar), c_low := min (c_low cd) (c_low bar),
         c_close := c_close cd, c_volume := c_volume bar + c_volume cd\<rparr>"
  by (simp add: extend_bar_def max_def min_def)

lemma run_bar_snoc:
  assumes "r \<noteq> []"
  shows "run_bar tf interval (r @ [cd]) = extend_bar cd (run_bar tf interval r)"
proof -
  have "Max (insert (c_high cd) (c_high ` set r)) = max (c_high cd) (Max (c_high ` set r))"
    "Min (insert (c_low cd) (c_low ` set r)) = min (c_low cd) (Min (c_low ` set r))"
    using assms by (simp_all add: Max_insert Min_insert)
  then show ?thesis using assms by (simp add: run_bar_def extend_bar_eq)
qed

definition one_bucket :: "('a \<Rightarrow> 'k) \<Rightarrow> 'a list \<Rightarrow> bool" where
  "one_bucket f r \<longleftrightarrow> r \<noteq> [] \<and> list_all (\<lambda>x. f x = f (hd r)) r"

lemma key_runs_append:
  assumes "one_bucket f r"
  shows "key_runs f (r @ ys) =
    (case key_runs f ys of [] \<Rightarrow> [r]
     | q # qs \<Rightarrow> if f (hd q) = f (hd r) then (r @ q) # qs else r # q # qs)"
  using assms
proof (induction r)
  case Nil
  then show ?case by (simp add: one_bucket_def)
next
  case (Cons x r)
  show ?case
  proof (cases "r = []")
    case True
    then show ?thesis by (simp split: list.split)
  next
    case False
    then have "one_bucket f r" "f (hd r) = f x"
      using Cons.prems by (auto simp: one_bucket_def list_all_iff)
    then show ?thesis using Cons.IH False by (auto split: list.splits)
  qed
qed

text \<open>The index, in the base bars, of the last bar of each run.\<close>

fun run_ends :: "nat \<Rightarrow> 'a list list \<Rightarrow> nat list" where
  "run_ends s [] = []"
| "run_ends s (r # rs) = (s + length r - 1) # run_ends (s + length r) rs"

definition run_bars :: "timeframe \<Rightarrow> int \<Rightarrow> nat \<Rightarrow> candle list list \<Rightarrow> (candle \<times> nat) list" where
  "run_bars tf interval s rs = zip (List.map (run_bar tf interval) rs) (run_ends s rs)"

lemma agg_loop_runs:
  assumes "one_bucket (\<lambda>c. bucket_open (c_ms c) interval) r"
  shows "agg_loop tf interval (s + length r) cds (Some (run_bar tf interval r, s + length r - 1)) out =
    out @ run_bars tf interval s (key_runs (\<lambda>c. bucket_open (c_ms c) interval) (r @ cds))"
  using assms
proof (induction cds arbitrary: r s out)
  case Nil
  then show ?case using key_runs_append[OF Nil, of "[]"] by (simp add: run_bars_def)
next
  case (Cons cd cds)
  let ?f = "\<lambda>c. bucket_open (c_ms c) interval"
  show ?case
  proof (cases "?f cd = ?f (hd r)")
    case True
    then have bucket: "one_bucket ?f (r @ [cd])" using Cons.prems by (auto simp: one_bucket_def)
    have "r \<noteq> []" using Cons.prems by (simp add: one_bucket_def)
    note snoc = run_bar_snoc[OF this, of tf interval cd]
    show ?thesis
      using True Cons.IH[OF bucket, of s out] by (simp add: Let_def snoc run_bar_def[of tf interval r])
  next
    case False
    have "one_bucket ?f [cd]" by (simp add: one_bucket_def)
    note IH = Cons.IH[OF this, of "s + length r" "out @ [(run_bar tf interval r, s + length r - 1)]"]
    have "hd (hd (key_runs ?f (cd # cds))) = cd" using hd_key_runs[of "cd # cds" ?f] by simp
    then have "key_runs ?f (r @ cd # cds) = r # key_runs ?f (cd # cds)"
      using key_runs_append[OF Cons.prems, of "cd # cds"] False
      by (simp del: key_runs.simps split: list.splits) (metis key_runs_Nil_iff list.distinct(1))
    then show ?thesis
      using IH False by (simp add: Let_def run_bar_single run_bars_def run_bar_def[of tf interval r] del: key_runs.simps)
  qed
qed


lemma py_int_mono: "x \<le> y \<Longrightarrow> py_int x \<le> py_int y"
proof (cases "x < 0 \<and> \<not> y < 0")
  case True
  then have "0 \<le> \<lfloor>- x\<rfloor>" "0 \<le> \<lfloor>y\<rfloor>" by simp_all
  then have "- \<lfloor>- x\<rfloor> \<le> \<lfloor>y\<rfloor>" by linarith
  then show ?thesis using True unfolding py_int_def by presburger
next
  case False
  moreover assume "x \<le> y"
  ultimately show ?thesis by (auto simp: py_int_def floor_mono)
qed

lemma bucket_open_mono: "0 < interval \<Longrightarrow> x \<le> y \<Longrightarrow> bucket_open x interval \<le> bucket_open y interval"
  unfolding bucket_open_def by (intro mult_right_mono zdiv_mono1 py_int_mono) auto

lemma interval_pos: "0 < INTERVAL_MS tf"
  by (cases tf) (simp_all add: INTERVAL_MS_def)

lemma run_ends_nth:
  assumes "[] \<notin> set rs" and "i < length rs"
  shows "run_ends s rs ! i = s + length (concat (take (Suc i) rs)) - 1"
  using assms
proof (induction rs arbitrary: s i)
  case Nil
  then show ?case by simp
next
  case (Cons r rs)
  show ?case
  proof (cases i)
    case 0
    then show ?thesis by simp
  next
    case (Suc j)
    then show ?thesis using Cons by (simp add: add.assoc)
  qed
qed

lemma length_run_ends [simp]: "length (run_ends s rs) = length rs"
  by (induction rs arbitrary: s) auto

lemma take_runs:
  assumes "[] \<notin> set rs" and "i < length rs"
  shows "take (Suc (run_ends 0 rs ! i)) (concat rs) = concat (take (Suc i) rs)"
proof -
  have "take (Suc i) rs \<noteq> []" and "hd (take (Suc i) rs) \<in> set rs" using assms(2) by (cases rs; simp)+
  then have "concat (take (Suc i) rs) \<noteq> []" using assms(1) by (cases "take (Suc i) rs") auto
  then have "Suc (run_ends 0 rs ! i) = length (concat (take (Suc i) rs))"
    using run_ends_nth[OF assms, of 0] by (cases "concat (take (Suc i) rs)") auto
  moreover have "concat rs = concat (take (Suc i) rs) @ concat (drop (Suc i) rs)"
    by (metis append_take_drop_id concat_append)
  ultimately show ?thesis by simp
qed

lemma aggregate_runs:
  assumes "candles \<noteq> []" and "INTERVAL_MS (c_timeframe (hd candles)) < INTERVAL_MS tf"
    and "INTERVAL_MS tf mod INTERVAL_MS (c_timeframe (hd candles)) = 0"
  shows "aggregate_with_index candles tf =
    (let rs = key_runs (\<lambda>c. bucket_open (c_ms c) (INTERVAL_MS tf)) candles
     in Inr (List.map (run_bar tf (INTERVAL_MS tf)) rs, run_ends 0 rs))"
proof (cases candles)
  case (Cons c cs)
  have "one_bucket (\<lambda>c. bucket_open (c_ms c) (INTERVAL_MS tf)) [c]" by (simp add: one_bucket_def)
  from agg_loop_runs[OF this, of tf 0 cs "[]"]
  have "agg_loop tf (INTERVAL_MS tf) 0 candles None [] =
      run_bars tf (INTERVAL_MS tf) 0 (key_runs (\<lambda>c. bucket_open (c_ms c) (INTERVAL_MS tf)) candles)"
    by (simp add: Cons Let_def run_bar_single del: key_runs.simps)
  then show ?thesis using assms by (simp add: aggregate_with_index_def Cons Let_def run_bars_def del: key_runs.simps agg_loop.simps)
qed (use assms in simp)

text \<open>Higher-timeframe bars are summaries of whole buckets, without look-ahead: for base bars in
  time order the aggregation cuts them, all of them and in order, into the runs of one bucket;
  each bar has the first open, highest high, lowest low, last close and total volume of its run;
  the bars' times rise strictly; and the index returned with a bar is the last base bar of its
  run, so the base bars up to it are exactly the runs up to it.\<close>

theorem aggregation_correct:
  assumes "candles \<noteq> []" and "INTERVAL_MS (c_timeframe (hd candles)) < INTERVAL_MS tf"
    and "INTERVAL_MS tf mod INTERVAL_MS (c_timeframe (hd candles)) = 0"
    and "sorted (List.map c_ms candles)"
  shows "\<exists>rs. aggregate_with_index candles tf = Inr (List.map (run_bar tf (INTERVAL_MS tf)) rs, run_ends 0 rs) \<and>
    concat rs = candles \<and> [] \<notin> set rs \<and>
    list_all (\<lambda>r. list_all (\<lambda>c. bucket_open (c_ms c) (INTERVAL_MS tf) = bucket_open (c_ms (hd r)) (INTERVAL_MS tf)) r) rs \<and>
    sorted_wrt (<) (List.map (\<lambda>r. c_ms (run_bar tf (INTERVAL_MS tf) r)) rs) \<and>
    list_all (\<lambda>i. take (Suc (run_ends 0 rs ! i)) candles = concat (take (Suc i) rs)) [0 ..< length rs]"
proof -
  let ?f = "\<lambda>c. bucket_open (c_ms c) (INTERVAL_MS tf)"
  let ?rs = "key_runs ?f candles"
  have "sorted (List.map ?f candles)"
    using assms(4) by (induction candles) (auto intro: bucket_open_mono[OF interval_pos])
  from key_runs_sorted[OF this]
  have "sorted_wrt (<) (List.map (\<lambda>r. c_ms (run_bar tf (INTERVAL_MS tf) r)) ?rs)"
    by (simp add: run_bar_def sorted_wrt_map)
  moreover have "list_all (\<lambda>r. list_all (\<lambda>c. ?f c = ?f (hd r)) r) ?rs"
    by (auto simp: list_all_iff dest: key_runs_same)
  moreover have "list_all (\<lambda>i. take (Suc (run_ends 0 ?rs ! i)) candles = concat (take (Suc i) ?rs)) [0 ..< length ?rs]"
    using take_runs[OF key_runs_nonempty, of _ ?f candles] by (simp add: list_all_iff)
  ultimately show ?thesis
    using aggregate_runs[OF assms(1-3)] key_runs_nonempty[of ?f candles] by (intro exI[of _ ?rs]) (simp add: Let_def)
qed

theorem aggregation_correct_witness:
  "\<exists>rs. aggregate_with_index
     [\<lparr>c_exchange = ''E'', c_segment = ''S'', c_token = ''T'', c_timeframe = M5, c_ms = 0, c_open = 1, c_high = 3,
       c_low = 1, c_close = 2, c_volume = 1\<rparr>,
      \<lparr>c_exchange = ''E'', c_segment = ''S'', c_token = ''T'', c_timeframe = M5, c_ms = 300000, c_open = 2, c_high = 4,
       c_low = 2, c_close = 3, c_volume = 1\<rparr>] M15 = Inr (List.map (run_bar M15 900000) rs, run_ends 0 rs)"
  (is "\<exists>rs. aggregate_with_index ?bars M15 = _")
  using aggregation_correct[of ?bars M15] by (auto simp: INTERVAL_MS_def)

end
