(* ===== verification/Entry_Replay.thy ===== *)
theory Entry_Replay
  imports Exit_Models Timeframe_Agg Regime Forex_Hours
begin

section \<open>Entry replay\<close>

text \<open>
  \<open>app/cfd_research/entry_strategy.py\<close> and \<open>entry_replay.py\<close>: an entry strategy walked over the
  bars of its timeframe, every entry resolved under every exit model on the base bars after the
  signal bar. A strategy is its class attributes, its state and \<open>entries\<close>, which returns intents
  or raises and leaves a state. Empty \<open>models\<close> are the default ones, as for \<open>None\<close>.
\<close>

record entry_context =
  ec_instrument :: string
  ec_timeframe :: timeframe
  ec_candle :: candle
  ec_history :: "candle list"

record 'st entry_strategy =
  es_id :: string
  es_timeframe :: timeframe
  es_instruments :: "string list"
  es_min_history :: nat
  es_state :: 'st
  es_entries :: "entry_context \<Rightarrow> 'st \<Rightarrow> entry_intent list result \<times> 'st"

definition es_applies_to :: "'st entry_strategy \<Rightarrow> string \<Rightarrow> bool" where
  "es_applies_to s inst \<longleftrightarrow> es_instruments s = [] \<or> inst \<in> set (es_instruments s)"

record replay_options =
  ro_models :: "exit_model list"
  ro_risk_pct :: pyfloat
  ro_ref_balance :: pyfloat
  ro_cost_model :: "cost_model option"
  ro_atr_period :: nat
  ro_max_hold_bars :: nat
  ro_history_window :: nat
  ro_intraday_only :: bool

definition default_options :: replay_options where
  "default_options = \<lparr>ro_models = [], ro_risk_pct = 1, ro_ref_balance = 100000, ro_cost_model = None,
     ro_atr_period = 14, ro_max_hold_bars = 2000, ro_history_window = 400, ro_intraday_only = True\<rparr>"

record 'st entry_walk =
  ew_state :: 'st
  ew_trades :: "simulated_trade list"

text \<open>The bars an entry may use: after the signal bar, at most the hold, in the trading day.\<close>

definition entry_future ::
  "zones \<Rightarrow> replay_options \<Rightarrow> candle list \<Rightarrow> nat \<Rightarrow> pyfloat \<Rightarrow> candle list" where
  "entry_future tz opt candles last_base entry_ms =
     (let future = take (ro_max_hold_bars opt) (drop (last_base + 1) candles) in
      if ro_intraday_only opt
      then takeWhile (\<lambda>c. trading_day tz (c_ms c) = trading_day tz entry_ms) future
      else future)"

record entry_tags =
  et_session :: string
  et_regime :: string
  et_volatility :: string
  et_atr :: "pyfloat option"

definition entry_tags_of :: "zones \<Rightarrow> replay_options \<Rightarrow> pyfloat \<Rightarrow> candle list \<Rightarrow> entry_tags result" where
  "entry_tags_of tz opt entry_ms history =
     (case regime_of history of
        Inl e \<Rightarrow> Inl e
      | Inr r \<Rightarrow>
         (case volatility_of history of
            Inl e \<Rightarrow> Inl e
          | Inr v \<Rightarrow>
             (case atr history (ro_atr_period opt) of
                Inl e \<Rightarrow> Inl e
              | Inr a \<Rightarrow> Inr \<lparr>et_session = session_tag tz entry_ms, et_regime = r, et_volatility = v,
                           et_atr = a\<rparr>)))"

definition tagged :: "string \<Rightarrow> timeframe \<Rightarrow> entry_tags \<Rightarrow> simulated_trade \<Rightarrow> simulated_trade" where
  "tagged sid tf tags t =
     t\<lparr>t_strategy_id := sid, t_session := et_session tags, t_regime := et_regime tags,
       t_volatility := et_volatility tags, t_timeframe := timeframe_value tf\<rparr>"

definition take_entry ::
  "registry \<Rightarrow> (pyfloat \<Rightarrow> string) \<Rightarrow> replay_options \<Rightarrow> string \<Rightarrow> timeframe \<Rightarrow> entry_tags \<Rightarrow> candle list \<Rightarrow>
   entry_intent \<times> exit_model \<Rightarrow> 'st entry_walk \<Rightarrow> 'st entry_walk outcome" where
  "take_entry reg fmt opt sid tf tags future im w =
     (case simulate_entry reg fmt (fst im) future (snd im) (ro_risk_pct opt) (ro_ref_balance opt)
             (ro_cost_model opt) (et_atr tags) of
        Inl e \<Rightarrow> raises e w
      | Inr None \<Rightarrow> returns w
      | Inr (Some t) \<Rightarrow> returns (w\<lparr>ew_trades := ew_trades w @ [tagged sid tf tags t]\<rparr>))"

definition exit_models_of :: "replay_options \<Rightarrow> exit_model list" where
  "exit_models_of opt = (if ro_models opt = [] then default_exit_models else ro_models opt)"

definition replay_htf_bar ::
  "registry \<Rightarrow> zones \<Rightarrow> (pyfloat \<Rightarrow> string) \<Rightarrow> replay_options \<Rightarrow> string \<Rightarrow> candle list \<Rightarrow> candle list \<Rightarrow>
   nat list \<Rightarrow> 'st entry_strategy \<Rightarrow> nat \<Rightarrow> 'st entry_walk \<Rightarrow> 'st entry_walk outcome" where
  "replay_htf_bar reg tz fmt opt inst candles htf last_idx strat i w =
     (if i + 1 < es_min_history strat then returns w
      else
        let window = max (ro_history_window opt) (es_min_history strat);
            history = drop (i + 1 - window) (take (i + 1) htf);
            ctx = \<lparr>ec_instrument = inst, ec_timeframe = es_timeframe strat, ec_candle = htf ! i,
                   ec_history = history\<rparr>;
            (r, st') = es_entries strat ctx (ew_state w);
            w1 = w\<lparr>ew_state := st'\<rparr>
        in case r of
             Inl e \<Rightarrow> returns w1
           | Inr intents \<Rightarrow>
               if intents = [] then returns w1
               else
                 let future = entry_future tz opt candles (last_idx ! i) (c_ms (htf ! i)) in
                 if future = [] then returns w1
                 else case entry_tags_of tz opt (c_ms (htf ! i)) history of
                        Inl e \<Rightarrow> raises e w1
                      | Inr tags \<Rightarrow>
                          for_each (take_entry reg fmt opt (es_id strat) (es_timeframe strat) tags future)
                            (List.product intents (exit_models_of opt)) w1)"

definition replay_entries ::
  "registry \<Rightarrow> zones \<Rightarrow> (pyfloat \<Rightarrow> string) \<Rightarrow> replay_options \<Rightarrow> string \<Rightarrow> candle list \<Rightarrow> 'st entry_strategy \<Rightarrow>
   simulated_trade list result" where
  "replay_entries reg tz fmt opt inst candles strat =
     (if \<not> es_applies_to strat inst then Inr []
      else case aggregate_with_index candles (es_timeframe strat) of
             Inl e \<Rightarrow> Inl e
           | Inr (htf, last_idx) \<Rightarrow>
               (case for_each (replay_htf_bar reg tz fmt opt inst candles htf last_idx strat) [0 ..< length htf]
                       \<lparr>ew_state = es_state strat, ew_trades = []\<rparr> of
                  (w, None) \<Rightarrow> Inr (ew_trades w)
                | (w, Some e) \<Rightarrow> Inl e))"

subsection \<open>Where a trade may end\<close>

lemma walk_exit_time:
  assumes "set cs \<subseteq> set future"
  shows "fixed_walk d s tp future cs n b w = Inr out \<Longrightarrow> eo_exit_ms out \<in> c_ms ` set future"
    and "time_walk d s tp mb future cs n b w = Inr out \<Longrightarrow> eo_exit_ms out \<in> c_ms ` set future"
    and "breakeven_walk d e tp tr future cs cur act n b w = Inr out \<Longrightarrow> eo_exit_ms out \<in> c_ms ` set future"
    and "trail_walk d s gap future cs cur n b w = Inr out \<Longrightarrow> eo_exit_ms out \<in> c_ms ` set future"
    and "runner_walk d e gap legs rest future cs cur n b w = Inr out \<Longrightarrow> eo_exit_ms out \<in> c_ms ` set future"
    and "scale_walk d e s tp fr gap future cs n b w = Inr out \<Longrightarrow> eo_exit_ms out \<in> c_ms ` set future"
proof -
  note defs = closed_out_def flatten_legs_def Let_def
  show "fixed_walk d s tp future cs n b w = Inr out \<Longrightarrow> eo_exit_ms out \<in> c_ms ` set future"
    using assms by (induction cs arbitrary: n b w) (auto simp: defs split: if_splits prod.splits)
  show "time_walk d s tp mb future cs n b w = Inr out \<Longrightarrow> eo_exit_ms out \<in> c_ms ` set future"
    using assms by (induction cs arbitrary: n b w) (auto simp: defs split: if_splits prod.splits)
  show "breakeven_walk d e tp tr future cs cur act n b w = Inr out \<Longrightarrow> eo_exit_ms out \<in> c_ms ` set future"
    using assms by (induction cs arbitrary: cur act n b w) (auto simp: defs split: if_splits prod.splits)
  show "trail_walk d s gap future cs cur n b w = Inr out \<Longrightarrow> eo_exit_ms out \<in> c_ms ` set future"
    using assms by (induction cs arbitrary: cur n b w) (auto simp: defs split: if_splits prod.splits)
  have runner: "runner_walk d e gap legs rest future cs cur n b w = Inr out \<Longrightarrow> set cs \<subseteq> set future \<Longrightarrow>
      eo_exit_ms out \<in> c_ms ` set future" for cs cur n b w legs rest
    by (induction cs arbitrary: cur n b w) (auto simp: defs split: if_splits prod.splits)
  then show "runner_walk d e gap legs rest future cs cur n b w = Inr out \<Longrightarrow> eo_exit_ms out \<in> c_ms ` set future"
    using assms by blast
  show "scale_walk d e s tp fr gap future cs n b w = Inr out \<Longrightarrow> eo_exit_ms out \<in> c_ms ` set future"
    using assms by (induction cs arbitrary: n b w) (auto simp: defs dest: runner split: if_splits prod.splits)
qed

lemma model_exit_time:
  "model_simulate m e d s future a target = Inr out \<Longrightarrow> eo_exit_ms out \<in> c_ms ` set future"
  using walk_exit_time[of future future] by (cases m) auto

subsection \<open>Replayed trades\<close>

definition sound_intent :: "entry_intent \<Rightarrow> bool" where
  "sound_intent im \<longleftrightarrow> 0 < (in_entry im - in_stop im) * sign (in_direction im)"

text \<open>On a well-formed bar the strategy emits stops on the loss side only.\<close>

definition sound_entries :: "'st entry_strategy \<Rightarrow> bool" where
  "sound_entries s \<longleftrightarrow> (\<forall>ctx st. ohlc_ok (ec_candle ctx) \<longrightarrow> (case fst (es_entries s ctx st) of
     Inl e \<Rightarrow> True | Inr intents \<Rightarrow> list_all sound_intent intents))"

text \<open>A trade that ended on a base bar after its signal bar, within the day, and kept its risk.\<close>

definition replayed_ok ::
  "zones \<Rightarrow> replay_options \<Rightarrow> candle list \<Rightarrow> candle list \<Rightarrow> nat list \<Rightarrow> simulated_trade \<Rightarrow> bool" where
  "replayed_ok tz opt candles htf last_idx t \<longleftrightarrow>
     -1 \<le> t_realized_rr t \<and> - (ro_ref_balance opt * ro_risk_pct opt / 100) \<le> t_pnl_usd t \<and>
     t_net_pnl_usd t = t_pnl_usd t - t_cost_usd t \<and>
     (\<exists>i < length htf. \<exists>j < length candles. last_idx ! i < j \<and> j \<le> last_idx ! i + ro_max_hold_bars opt \<and>
        t_exit_ms t = c_ms (candles ! j) \<and>
        (ro_intraday_only opt \<longrightarrow> trading_day tz (t_exit_ms t) = trading_day tz (c_ms (htf ! i))))"

lemma entry_future_in:
  assumes "c \<in> set (entry_future tz opt candles last_base ms)"
  shows "\<exists>j < length candles. last_base < j \<and> j \<le> last_base + ro_max_hold_bars opt \<and> c = candles ! j \<and>
    (ro_intraday_only opt \<longrightarrow> trading_day tz (c_ms c) = trading_day tz ms)"
proof -
  have "c \<in> set (take (ro_max_hold_bars opt) (drop (last_base + 1) candles))"
    using assms by (auto simp: entry_future_def Let_def split: if_splits dest: set_takeWhileD)
  then obtain k where "k < ro_max_hold_bars opt" "k < length candles - (last_base + 1)"
    "c = candles ! (last_base + 1 + k)"
    by (auto simp: in_set_conv_nth)
  moreover have "ro_intraday_only opt \<longrightarrow> trading_day tz (c_ms c) = trading_day tz ms"
    using assms by (auto simp: entry_future_def Let_def dest: set_takeWhileD)
  ultimately show ?thesis by (intro exI[of _ "last_base + 1 + k"]) auto
qed

lemma simulate_entry_exit_time:
  assumes "simulate_entry reg fmt im future m pct bal cost a = Inr (Some t)"
  shows "t_exit_ms t \<in> c_ms ` set future"
proof -
  obtain inst lot out cost_usd where
    out: "model_simulate m (in_entry im) (in_direction im) (in_stop im) future a (in_target im) = Inr out"
    and t: "t = entry_trade fmt im m inst lot cost_usd out"
    by (rule simulate_entry_cases[OF assms]) blast
  then show ?thesis using model_exit_time[OF out] by (simp add: entry_trade_def Let_def)
qed

lemma tagged_frame [simp]:
  "t_realized_rr (tagged sid tf tags t) = t_realized_rr t" "t_pnl_usd (tagged sid tf tags t) = t_pnl_usd t"
  "t_net_pnl_usd (tagged sid tf tags t) = t_net_pnl_usd t" "t_cost_usd (tagged sid tf tags t) = t_cost_usd t"
  "t_exit_ms (tagged sid tf tags t) = t_exit_ms t"
  by (simp_all add: tagged_def)

lemma take_entry_ok:
  assumes ok: "list_all (replayed_ok tz opt candles htf last_idx) (ew_trades w)"
    and im: "sound_intent (fst im)" "wf_model (snd im)" and wf: "wf_registry reg"
    and bars: "list_all ohlc_ok candles" and i: "i < length htf"
  shows "list_all (replayed_ok tz opt candles htf last_idx)
    (ew_trades (fst (take_entry reg fmt opt sid tf tags
       (entry_future tz opt candles (last_idx ! i) (c_ms (htf ! i))) im w)))"
proof -
  let ?future = "entry_future tz opt candles (last_idx ! i) (c_ms (htf ! i))"
  have future: "list_all ohlc_ok ?future"
    using bars entry_future_in by (fastforce simp: list_all_iff)
  have "replayed_ok tz opt candles htf last_idx (tagged sid tf tags t)"
    if t: "simulate_entry reg fmt (fst im) ?future (snd im) (ro_risk_pct opt) (ro_ref_balance opt)
             (ro_cost_model opt) (et_atr tags) = Inr (Some t)" for t
  proof -
    obtain c where "c \<in> set ?future" "t_exit_ms t = c_ms c" using simulate_entry_exit_time[OF t] by auto
    then show ?thesis
      using simulate_entry_facts[OF t wf im(2) future] im(1) entry_future_in[of c] i
      by (fastforce simp: replayed_ok_def sound_intent_def)
  qed
  then show ?thesis
    using ok by (auto simp: take_entry_def split: sum.split option.split)
qed

lemma replay_htf_bar_ok:
  assumes ok: "list_all (replayed_ok tz opt candles htf last_idx) (ew_trades w)"
    and strat: "sound_entries strat" and models: "list_all wf_model (exit_models_of opt)"
    and wf: "wf_registry reg" and bars: "list_all ohlc_ok candles" "list_all ohlc_ok htf" and i: "i < length htf"
  shows "list_all (replayed_ok tz opt candles htf last_idx)
    (ew_trades (fst (replay_htf_bar reg tz fmt opt inst candles htf last_idx strat i w)))"
proof -
  let ?window = "max (ro_history_window opt) (es_min_history strat)"
  let ?history = "drop (i + 1 - ?window) (take (i + 1) htf)"
  let ?ctx = "\<lparr>ec_instrument = inst, ec_timeframe = es_timeframe strat, ec_candle = htf ! i, ec_history = ?history\<rparr>"
  let ?future = "entry_future tz opt candles (last_idx ! i) (c_ms (htf ! i))"
  let ?I = "\<lambda>w. list_all (replayed_ok tz opt candles htf last_idx) (ew_trades w)"
  obtain r st' where ev: "es_entries strat ?ctx (ew_state w) = (r, st')" by fastforce
  have "?I (fst (for_each (take_entry reg fmt opt (es_id strat) (es_timeframe strat) tags ?future)
      (List.product intents (exit_models_of opt)) (w\<lparr>ew_state := st'\<rparr>)))" if r: "r = Inr intents" for intents tags
  proof (rule for_each_invariant[where I = ?I])
    show "?I (w\<lparr>ew_state := st'\<rparr>)" using ok by simp
    have "ohlc_ok (ec_candle ?ctx)" using bars(2) i by (simp add: list_all_length)
    then have "list_all sound_intent intents"
      using strat ev r unfolding sound_entries_def by (metis (no_types, lifting) fst_conv sum.simps(6))
    then show "?I (fst (take_entry reg fmt opt (es_id strat) (es_timeframe strat) tags ?future im w'))"
      if "im \<in> set (List.product intents (exit_models_of opt))" "?I w'" for im w'
      using that models by (intro take_entry_ok wf bars(1) i) (auto simp: list_all_iff)
  qed
  note taken = this
  have eq: "replay_htf_bar reg tz fmt opt inst candles htf last_idx strat i w =
     (if i + 1 < es_min_history strat then returns w
      else case r of
             Inl e \<Rightarrow> returns (w\<lparr>ew_state := st'\<rparr>)
           | Inr intents \<Rightarrow>
               if intents = [] then returns (w\<lparr>ew_state := st'\<rparr>)
               else if ?future = [] then returns (w\<lparr>ew_state := st'\<rparr>)
               else case entry_tags_of tz opt (c_ms (htf ! i)) ?history of
                      Inl e \<Rightarrow> raises e (w\<lparr>ew_state := st'\<rparr>)
                    | Inr tags \<Rightarrow>
                        for_each (take_entry reg fmt opt (es_id strat) (es_timeframe strat) tags ?future)
                          (List.product intents (exit_models_of opt)) (w\<lparr>ew_state := st'\<rparr>))"
    unfolding replay_htf_bar_def Let_def ev prod.case ..
  show ?thesis
    unfolding eq using ok taken by (simp split: sum.split)
qed


definition demo_entries :: "unit entry_strategy" where
  "demo_entries = \<lparr>es_id = ''demo'', es_timeframe = M5, es_instruments = [], es_min_history = 2, es_state = (),
     es_entries = \<lambda>ctx st. (Inr (if length (ec_history ctx) = 2 then [demo_intent] else []), ())\<rparr>"

definition demo_base :: "candle list" where
  "demo_base = [demo_bar 0 2399 2401 2398 2400, demo_bar 300000 2400 2401 2399 2400,
     demo_bar 600000 2401 2425 2399 2418]"

definition demo_options :: replay_options where
  "demo_options = default_options\<lparr>ro_models := [FixedRR 2]\<rparr>"

lemma demo_replay_entries:
  "\<exists>t. replay_entries gold_registry utc_zones (\<lambda>_. []) demo_options ''XAUUSD'' demo_base demo_entries = Inr [t]"
proof -
  let ?future = "[demo_bar 600000 2401 2425 2399 2418]"
  have future: "entry_future utc_zones demo_options demo_base 1 300000 = ?future"
    by (simp add: entry_future_def demo_options_def default_options_def demo_base_def demo_bar_def trading_day_def
        utc_zones_def wall_day_def wall_time_def day_ms_def WEEK_ANCHOR_def hour_ms_def)
  obtain t where t: "simulate_entry gold_registry (\<lambda>_. []) demo_intent ?future (FixedRR 2) 1 100000 None None = Inr (Some t)"
    by (simp add: simulate_entry_def demo_intent_def r_distance_def gold_lookup sizing_gold_example Let_def
        stop_hit_def tp_hit_def excursion_def sign_def demo_bar_def closed_out_def calculate_trade_cost_def)
  obtain tags where tags: "entry_tags_of utc_zones demo_options 300000 (take 2 demo_base) = Inr tags" "et_atr tags = None"
    by (simp add: entry_tags_of_def regime_of_def classify_regime_def volatility_of_def classify_volatility_def
        demo_base_def atr_def demo_options_def default_options_def)
  let ?w = "\<lparr>ew_state = (), ew_trades = []\<rparr>"
  let ?bar = "replay_htf_bar gold_registry utc_zones (\<lambda>_. []) demo_options ''XAUUSD'' demo_base demo_base [0, 1, 2] demo_entries"
  have opt: "ro_risk_pct demo_options = 1" "ro_ref_balance demo_options = 100000" "ro_cost_model demo_options = None"
    "exit_models_of demo_options = [FixedRR 2]" "ro_history_window demo_options = 400"
    by (simp_all add: demo_options_def default_options_def exit_models_of_def)
  have len: "length demo_base = 3" "c_ms (demo_base ! 1) = 300000" by (simp_all add: demo_base_def demo_bar_def)
  have "?bar 0 ?w = returns ?w" by (simp add: replay_htf_bar_def demo_entries_def)
  moreover have "?bar 1 ?w = returns \<lparr>ew_state = (), ew_trades = [tagged ''demo'' M5 tags t]\<rparr>"
    using future t tags len
    by (simp add: replay_htf_bar_def demo_entries_def opt take_entry_def numeral_2_eq_2)
  moreover have "?bar 2 w = returns w" for w :: "unit entry_walk"
    by (cases w) (simp add: replay_htf_bar_def demo_entries_def len Let_def opt)
  moreover have "[0 ..< 3] = [0, 1, 2::nat]" by code_simp
  moreover have "aggregate_with_index demo_base M5 = Inr (demo_base, [0, 1, 2])"
    by (simp add: aggregate_with_index_def demo_base_def demo_bar_def)
  ultimately show ?thesis
    by (simp add: replay_entries_def es_applies_to_def demo_entries_def len returns_def)
qed


end
