(* ===== verification/Portfolio_Sim.thy ===== *)
theory Portfolio_Sim
  imports Challenge_Sim "HOL-Library.Multiset"
begin

section \<open>Portfolio challenge simulator\<close>

text \<open>
  \<open>app/cfd_research/portfolio_sim.py\<close>: several strategies' trades on one account, event by event,
  closes before opens at the same instant. A leg object is its position in the phase's list, so
  \<open>accepted\<close> is a set of positions; \<open>open_legs.remove\<close> takes out the first equal leg and raises if
  there is none. The loop variables shared with the single-strategy simulator are its
  \<open>phase_state\<close>.
\<close>

record portfolio_constraints =
  max_trades_per_day :: int
  max_concurrent_positions :: int
  max_open_risk_pct :: pyfloat
  one_position_per_instrument :: bool

definition default_constraints :: portfolio_constraints where
  "default_constraints = \<lparr>max_trades_per_day = 3, max_concurrent_positions = 3, max_open_risk_pct = 3,
     one_position_per_instrument = True\<rparr>"

record portfolio_leg =
  pl_strategy_id :: string
  pl_instrument :: string
  pl_entry_ms :: pyfloat
  pl_exit_ms :: pyfloat
  pl_ret_pct :: pyfloat
  pl_mae_pct :: pyfloat
  pl_risk_pct :: pyfloat
  pl_day :: int

record portfolio_result =
  pp_outcome :: phase_outcome
  pp_end_return :: pyfloat
  pp_trading_days :: nat
  pp_trades_taken :: nat
  pp_trades_skipped :: nat
  pp_worst_dd :: pyfloat
  pp_end_ms :: pyfloat

definition trade_to_leg ::
  "registry \<Rightarrow> pyfloat \<Rightarrow> pyfloat \<Rightarrow> pyfloat \<Rightarrow> string \<times> simulated_trade \<Rightarrow> portfolio_leg result" where
  "trade_to_leg reg ref_balance risk_pct offset st =
     (case trade_to_return reg ref_balance offset (snd st) of
        Inl e \<Rightarrow> Inl e
      | Inr r \<Rightarrow> Inr \<lparr>pl_strategy_id = fst st, pl_instrument = t_instrument (snd st),
           pl_entry_ms = tr_entry_ms r, pl_exit_ms = tr_exit_ms r, pl_ret_pct = tr_ret_pct r,
           pl_mae_pct = tr_mae_pct r, pl_risk_pct = risk_pct, pl_day = tr_day r\<rparr>)"

definition from_strategy_trades ::
  "registry \<Rightarrow> (string \<times> simulated_trade list) list \<Rightarrow> pyfloat \<Rightarrow> pyfloat \<Rightarrow> pyfloat \<Rightarrow>
   portfolio_leg list result" where
  "from_strategy_trades reg trades_by_strategy ref_balance risk_pct offset =
     (case collect (trade_to_leg reg ref_balance risk_pct offset)
             (concat (List.map (\<lambda>(sid, ts). List.map (Pair sid) ts) trades_by_strategy)) of
        Inl e \<Rightarrow> Inl e
      | Inr legs \<Rightarrow> Inr (sort_key (\<lambda>l. (pl_entry_ms l, pl_exit_ms l)) legs))"

subsection \<open>One phase on the shared account\<close>

record portfolio_state = phase_state +
  ps_trades_today :: int
  ps_taken :: nat
  ps_skipped :: nat
  ps_open :: "portfolio_leg list"
  ps_instruments :: "string set"
  ps_open_risk :: pyfloat
  ps_accepted :: "nat set"

definition fresh_portfolio :: portfolio_state where
  "fresh_portfolio = phase_state.extend fresh_phase (portfolio_state.fields 0 0 0 [] {} 0 {})"

definition portfolio_day :: "int \<Rightarrow> portfolio_state \<Rightarrow> portfolio_state" where
  "portfolio_day d s = (if ph_day s \<noteq> Some d then (roll_day d s)\<lparr>ps_trades_today := 0\<rparr> else s)"

definition worst_floating :: "pyfloat \<Rightarrow> portfolio_state \<Rightarrow> pyfloat" where
  "worst_floating scale s = ph_equity s - (\<Sum>l\<leftarrow>ps_open s. pl_mae_pct l * scale)"

definition close_leg :: "pyfloat \<Rightarrow> nat \<Rightarrow> portfolio_leg \<Rightarrow> portfolio_state \<Rightarrow> portfolio_state result" where
  "close_leg scale k leg s =
     (if k \<notin> ps_accepted s then Inr s
      else if leg \<notin> set (ps_open s) then Inl (ValueError ''list.remove'')
      else Inr (book_return (pl_ret_pct leg * scale)
             (s\<lparr>ps_open := remove1 leg (ps_open s), ps_instruments := ps_instruments s - {pl_instrument leg},
                ps_open_risk := ps_open_risk s - pl_risk_pct leg * scale\<rparr>)))"

definition entry_rejected ::
  "portfolio_constraints \<Rightarrow> pyfloat \<Rightarrow> portfolio_leg \<Rightarrow> portfolio_state \<Rightarrow> bool" where
  "entry_rejected cons scale leg s \<longleftrightarrow>
     ps_trades_today s \<ge> max_trades_per_day cons \<or>
     int (length (ps_open s)) \<ge> max_concurrent_positions cons \<or>
     one_position_per_instrument cons \<and> pl_instrument leg \<in> ps_instruments s \<or>
     ps_open_risk s + pl_risk_pct leg * scale > max_open_risk_pct cons + 1 / 10^9"

definition open_leg ::
  "portfolio_constraints \<Rightarrow> pyfloat \<Rightarrow> nat \<Rightarrow> portfolio_leg \<Rightarrow> int \<Rightarrow> portfolio_state \<Rightarrow> portfolio_state" where
  "open_leg cons scale k leg ev_day s0 =
     (let s = s0\<lparr>ph_days := insert ev_day (ph_days s0)\<rparr> in
      if entry_rejected cons scale leg s then s\<lparr>ps_skipped := ps_skipped s + 1\<rparr>
      else s\<lparr>ps_open := ps_open s @ [leg], ps_instruments := insert (pl_instrument leg) (ps_instruments s),
             ps_open_risk := ps_open_risk s + pl_risk_pct leg * scale,
             ps_trades_today := ps_trades_today s + 1, ps_taken := ps_taken s + 1,
             ps_accepted := insert k (ps_accepted s)\<rparr>)"

text \<open>An event is its time, whether it opens, and the leg's position; closes sort first.\<close>

definition leg_events :: "portfolio_leg list \<Rightarrow> (pyfloat \<times> bool \<times> nat) list" where
  "leg_events legs =
     sort_key (\<lambda>(t, opn, k). (t, opn))
       (concat (List.map (\<lambda>(k, l). [(pl_entry_ms l, True, k), (pl_exit_ms l, False, k)]) (List.enumerate 0 legs)))"

definition portfolio_step ::
  "challenge_rules \<Rightarrow> portfolio_constraints \<Rightarrow> pyfloat \<Rightarrow> portfolio_leg list \<Rightarrow> pyfloat \<times> bool \<times> nat \<Rightarrow>
   portfolio_state \<Rightarrow> portfolio_state result" where
  "portfolio_step rules cons scale legs ev s0 =
     (case ev of (t, opn, k) \<Rightarrow>
        let ev_day = challenge_day t (reset_utc_offset_hours rules); s1 = portfolio_day ev_day s0 in
        case (if opn then Inr (open_leg cons scale k (legs ! k) ev_day s1) else close_leg scale k (legs ! k) s1) of
          Inl e \<Rightarrow> Inl e
        | Inr s2 \<Rightarrow>
            let low = worst_floating scale s2
            in Inr (if low < 0 then s2\<lparr>ph_worst := max (ph_worst s2) (- low)\<rparr> else s2))"

definition portfolio_end :: "phase_outcome \<Rightarrow> portfolio_state \<Rightarrow> pyfloat \<Rightarrow> portfolio_result" where
  "portfolio_end outcome s end_ms =
     \<lparr>pp_outcome = outcome, pp_end_return = ph_equity s, pp_trading_days = card (ph_days s),
      pp_trades_taken = ps_taken s, pp_trades_skipped = ps_skipped s, pp_worst_dd = ph_worst s,
      pp_end_ms = end_ms\<rparr>"

fun portfolio_loop ::
  "challenge_rules \<Rightarrow> portfolio_constraints \<Rightarrow> pyfloat \<Rightarrow> pyfloat \<Rightarrow> portfolio_leg list \<Rightarrow> pyfloat \<Rightarrow> pyfloat \<Rightarrow>
   (pyfloat \<times> bool \<times> nat) list \<Rightarrow> portfolio_state \<Rightarrow> portfolio_result result" where
  "portfolio_loop rules cons target scale legs start_ms last_ms [] s = Inr (portfolio_end INCOMPLETE s last_ms)"
| "portfolio_loop rules cons target scale legs start_ms last_ms (ev # evs) s =
     (if timed_out rules start_ms (fst ev) then Inr (portfolio_end TIMEOUT s (fst ev))
      else case portfolio_step rules cons scale legs ev s of
             Inl e \<Rightarrow> Inl e
           | Inr s' \<Rightarrow>
               (case dd_breach rules (ph_peak s') (ph_sod s') (worst_floating scale s') of
                  Some outcome \<Rightarrow> Inr (portfolio_end outcome s' (fst ev))
                | None \<Rightarrow>
                    if \<not> fst (snd ev) \<and> target_reached rules target s' then Inr (portfolio_end PASS s' (fst ev))
                    else portfolio_loop rules cons target scale legs start_ms last_ms evs s'))"

definition simulate_portfolio_phase ::
  "portfolio_leg list \<Rightarrow> pyfloat \<Rightarrow> challenge_rules \<Rightarrow> portfolio_constraints \<Rightarrow> pyfloat \<Rightarrow> pyfloat \<Rightarrow>
   portfolio_result result" where
  "simulate_portfolio_phase legs start_ms rules cons target scale =
     (let phase_legs = filter (\<lambda>l. pl_entry_ms l \<ge> start_ms) legs in
      if phase_legs = []
      then Inr \<lparr>pp_outcome = INCOMPLETE, pp_end_return = 0, pp_trading_days = 0, pp_trades_taken = 0,
                pp_trades_skipped = 0, pp_worst_dd = 0, pp_end_ms = start_ms\<rparr>
      else
        let events = leg_events phase_legs
        in portfolio_loop rules cons target scale phase_legs (pl_entry_ms (hd phase_legs)) (fst (last events))
             events fresh_portfolio)"

record portfolio_challenge =
  pc_outcome :: phase_outcome
  pc_phase1 :: portfolio_result
  pc_phase2 :: "portfolio_result option"
  pc_total_days :: nat
  pc_start_ms :: pyfloat

definition simulate_portfolio_challenge ::
  "portfolio_leg list \<Rightarrow> pyfloat \<Rightarrow> challenge_rules \<Rightarrow> portfolio_constraints \<Rightarrow> pyfloat \<Rightarrow>
   portfolio_challenge result" where
  "simulate_portfolio_challenge legs start_ms rules cons scale =
     (case simulate_portfolio_phase legs start_ms rules cons (phase1_target_pct rules) scale of
        Inl e \<Rightarrow> Inl e
      | Inr p1 \<Rightarrow>
          if pp_outcome p1 \<noteq> PASS \<or> phase2_target_pct rules \<le> 0
          then Inr \<lparr>pc_outcome = pp_outcome p1, pc_phase1 = p1, pc_phase2 = None,
                    pc_total_days = pp_trading_days p1, pc_start_ms = start_ms\<rparr>
          else case simulate_portfolio_phase legs (pp_end_ms p1 + 1) rules cons (phase2_target_pct rules) scale of
                 Inl e \<Rightarrow> Inl e
               | Inr p2 \<Rightarrow> Inr \<lparr>pc_outcome = pp_outcome p2, pc_phase1 = p1, pc_phase2 = Some p2,
                    pc_total_days = pp_trading_days p1 + pp_trading_days p2, pc_start_ms = start_ms\<rparr>)"

text \<open>The tally of the portfolio is the tally of the single-strategy simulator on its fields.\<close>

definition tally_portfolio :: "portfolio_challenge \<Rightarrow> mc_result \<Rightarrow> mc_result" where
  "tally_portfolio cr m =
     (let m1 = m\<lparr>mc_runs := mc_runs m + 1\<rparr>;
          m2 = (if pp_outcome (pc_phase1 cr) = PASS
                then m1\<lparr>mc_phase1_passed := mc_phase1_passed m1 + 1\<rparr> else m1);
          worst = (case pc_phase2 cr of
                     None \<Rightarrow> pp_worst_dd (pc_phase1 cr)
                   | Some p2 \<Rightarrow> max (pp_worst_dd (pc_phase1 cr)) (pp_worst_dd p2));
          m3 = m2\<lparr>mc_worst_dd_pcts := mc_worst_dd_pcts m2 @ [worst]\<rparr>
      in case pc_outcome cr of
           PASS \<Rightarrow> m3\<lparr>mc_passed := mc_passed m3 + 1, mc_days_to_pass := mc_days_to_pass m3 @ [pc_total_days cr]\<rparr>
         | FAIL_MAX_DD \<Rightarrow> m3\<lparr>mc_failed_max := mc_failed_max m3 + 1\<rparr>
         | FAIL_DAILY_DD \<Rightarrow> m3\<lparr>mc_failed_daily := mc_failed_daily m3 + 1\<rparr>
         | TIMEOUT \<Rightarrow> m3\<lparr>mc_timeouts := mc_timeouts m3 + 1\<rparr>
         | INCOMPLETE \<Rightarrow> m3\<lparr>mc_incompletes := mc_incompletes m3 + 1\<rparr>)"

partial_function (option) mc_portfolio_loop ::
  "portfolio_leg list \<Rightarrow> challenge_rules \<Rightarrow> portfolio_constraints \<Rightarrow> pyfloat \<Rightarrow> int \<Rightarrow> pyfloat \<Rightarrow> pyfloat \<Rightarrow>
   mc_result \<Rightarrow> mc_result result option" where
  "mc_portfolio_loop legs rules cons scale step_days cur last_day res =
     (if \<not> cur \<le> last_day then Some (Inr res)
      else case simulate_portfolio_challenge legs cur rules cons scale of
             Inl e \<Rightarrow> Some (Inl e)
           | Inr cr \<Rightarrow> mc_portfolio_loop legs rules cons scale step_days (cur + of_int step_days * day_ms) last_day
                         (tally_portfolio cr res))"

definition monte_carlo_portfolio ::
  "portfolio_leg list \<Rightarrow> challenge_rules \<Rightarrow> portfolio_constraints \<Rightarrow> pyfloat \<Rightarrow> int \<Rightarrow> mc_result result option" where
  "monte_carlo_portfolio legs rules cons scale step_days =
     (if legs = [] then Some (Inr empty_mc)
      else mc_portfolio_loop legs rules cons scale step_days (pl_entry_ms (hd legs)) (pl_entry_ms (last legs))
             empty_mc)"

subsection \<open>The caps of the account\<close>

definition account_caps :: "portfolio_constraints \<Rightarrow> pyfloat \<Rightarrow> portfolio_state \<Rightarrow> bool" where
  "account_caps cons scale s \<longleftrightarrow>
     int (length (ps_open s)) \<le> max 0 (max_concurrent_positions cons) \<and>
     0 \<le> ps_trades_today s \<and> ps_trades_today s \<le> max 0 (max_trades_per_day cons) \<and>
     ps_open_risk s = (\<Sum>l\<leftarrow>ps_open s. pl_risk_pct l * scale) \<and>
     ps_open_risk s \<le> max 0 (max_open_risk_pct cons) + 1 / 10^9 \<and>
     (one_position_per_instrument cons \<longrightarrow>
        distinct (List.map pl_instrument (ps_open s)) \<and> ps_instruments s = pl_instrument ` set (ps_open s))"

text \<open>Accepted legs whose close is still to come are open; no open event is of an accepted leg.\<close>

definition pending :: "(pyfloat \<times> bool \<times> nat) list \<Rightarrow> portfolio_state \<Rightarrow> nat set" where
  "pending evs s = {k \<in> ps_accepted s. \<exists>t. (t, False, k) \<in> set evs}"

definition books_match :: "portfolio_leg list \<Rightarrow> (pyfloat \<times> bool \<times> nat) list \<Rightarrow> portfolio_state \<Rightarrow> bool" where
  "books_match legs evs s \<longleftrightarrow>
     finite (ps_accepted s) \<and> list_all (\<lambda>(t, opn, k). opn \<longrightarrow> k \<notin> ps_accepted s) evs \<and>
     image_mset ((!) legs) (mset_set (pending evs s)) \<subseteq># mset (ps_open s)"

definition once :: "(pyfloat \<times> bool \<times> nat) list \<Rightarrow> bool" where
  "once evs \<longleftrightarrow> distinct (List.map snd evs)"

lemma once_Cons: "once ((t, b, k) # evs) \<longleftrightarrow> once evs \<and> (\<forall>t'. (t', b, k) \<notin> set evs)"
  by (force simp: once_def image_iff)

lemma portfolio_day_frame [simp]:
  "ps_open (portfolio_day d s) = ps_open s" "ps_instruments (portfolio_day d s) = ps_instruments s"
  "ps_open_risk (portfolio_day d s) = ps_open_risk s" "ps_accepted (portfolio_day d s) = ps_accepted s"
  "ps_taken (portfolio_day d s) = ps_taken s" "ps_skipped (portfolio_day d s) = ps_skipped s"
  by (simp_all add: portfolio_day_def roll_day_def)

lemma portfolio_day_caps: "account_caps cons scale s \<Longrightarrow> account_caps cons scale (portfolio_day d s)"
  by (auto simp: account_caps_def portfolio_day_def roll_day_def)

lemma open_leg_caps:
  assumes "account_caps cons scale s"
  shows "account_caps cons scale (open_leg cons scale k leg d s)"
proof (cases "entry_rejected cons scale leg (s\<lparr>ph_days := insert d (ph_days s)\<rparr>)")
  case True
  then show ?thesis using assms by (simp add: open_leg_def Let_def account_caps_def)
next
  case False
  then show ?thesis
    using assms by (auto simp: open_leg_def Let_def account_caps_def entry_rejected_def image_iff)
qed

lemma close_leg_caps:
  assumes "account_caps cons scale s" and "close_leg scale k leg s = Inr s'" and "0 \<le> pl_risk_pct leg * scale"
  shows "account_caps cons scale s'"
proof (cases "k \<in> ps_accepted s")
  case False
  then show ?thesis using assms by (simp add: close_leg_def)
next
  case True
  then have leg: "leg \<in> set (ps_open s)"
    and s': "s' = book_return (pl_ret_pct leg * scale)
        (s\<lparr>ps_open := remove1 leg (ps_open s), ps_instruments := ps_instruments s - {pl_instrument leg},
           ps_open_risk := ps_open_risk s - pl_risk_pct leg * scale\<rparr>)"
    using assms(2) by (auto simp: close_leg_def split: if_splits)
  have "distinct (List.map f xs) \<Longrightarrow> x \<in> set xs \<Longrightarrow>
      distinct (List.map f (remove1 x xs)) \<and> f ` set (remove1 x xs) = f ` set xs - {f x}" for f :: "portfolio_leg \<Rightarrow> string" and x xs
    by (induction xs) (auto simp: rev_image_eqI)
  note remove = this[of pl_instrument "ps_open s" leg]
  have "(\<Sum>l\<leftarrow>remove1 leg (ps_open s). pl_risk_pct l * scale) = (\<Sum>l\<leftarrow>ps_open s. pl_risk_pct l * scale) - pl_risk_pct leg * scale"
    using sum_list_map_remove1[OF leg, of "\<lambda>l. pl_risk_pct l * scale"] by simp
  moreover have "length (remove1 leg (ps_open s)) \<le> length (ps_open s)" by (simp add: length_remove1)
  ultimately show ?thesis
    using assms(1,3) remove leg unfolding s' by (auto simp: account_caps_def book_return_def)
qed

lemma pending_open_event [simp]: "pending ((t, True, k) # evs) s = pending evs s"
  by (simp add: pending_def)

lemma open_leg_books:
  assumes "books_match legs ((t, True, k) # evs) s" and "once ((t, True, k) # evs)"
  shows "books_match legs evs (open_leg cons scale k (legs ! k) d s)"
proof -
  let ?s = "s\<lparr>ph_days := insert d (ph_days s)\<rparr>"
  have s: "finite (ps_accepted s)" "k \<notin> ps_accepted s" "list_all (\<lambda>(t, opn, k). opn \<longrightarrow> k \<notin> ps_accepted s) evs"
    "image_mset ((!) legs) (mset_set (pending evs s)) \<subseteq># mset (ps_open s)"
    using assms(1) by (simp_all add: books_match_def)
  show ?thesis
  proof (cases "entry_rejected cons scale (legs ! k) ?s")
    case True
    then show ?thesis using s by (simp add: books_match_def open_leg_def Let_def pending_def)
  next
    case False
    let ?s' = "open_leg cons scale k (legs ! k) d s"
    have fields: "ps_accepted ?s' = insert k (ps_accepted s)" "ps_open ?s' = ps_open s @ [legs ! k]"
      using False by (simp_all add: open_leg_def Let_def)
    have "pending evs ?s' \<subseteq> insert k (pending evs s)" by (auto simp: pending_def fields)
    moreover have fin: "finite (pending evs s)" using s(1) by (simp add: pending_def)
    moreover have "k \<notin> pending evs s" using s(2) by (simp add: pending_def)
    ultimately have "image_mset ((!) legs) (mset_set (pending evs ?s')) \<subseteq>#
        add_mset (legs ! k) (image_mset ((!) legs) (mset_set (pending evs s)))"
      using image_mset_subseteq_mono[OF subset_imp_msubset_mset_set, of "pending evs ?s'" "insert k (pending evs s)"]
      by simp
    also have "\<dots> \<subseteq># mset (ps_open ?s')" using s(4) by (simp add: fields)
    finally show ?thesis
      using s(1,3) assms(2) by (auto simp: books_match_def fields list_all_iff once_Cons)
  qed
qed

lemma close_leg_books:
  assumes "books_match legs ((t, False, k) # evs) s" and "once ((t, False, k) # evs)"
  shows "\<exists>s'. close_leg scale k (legs ! k) s = Inr s' \<and> books_match legs evs s'"
proof (cases "k \<in> ps_accepted s")
  case False
  then have "pending ((t, False, k) # evs) s = pending evs s" by (auto simp: pending_def)
  then show ?thesis using assms False by (simp add: close_leg_def books_match_def)
next
  case True
  have fin: "finite (pending evs s)" using assms(1) by (simp add: pending_def books_match_def)
  have "pending ((t, False, k) # evs) s = insert k (pending evs s)" using True by (auto simp: pending_def)
  moreover have "k \<notin> pending evs s" using assms(2) by (simp add: pending_def once_Cons)
  ultimately have sub: "add_mset (legs ! k) (image_mset ((!) legs) (mset_set (pending evs s))) \<subseteq># mset (ps_open s)"
    using assms(1) fin by (simp add: books_match_def)
  then have mem: "legs ! k \<in> set (ps_open s)" by (metis in_multiset_in_set insert_subset_eq_iff)
  have "image_mset ((!) legs) (mset_set (pending evs s)) \<subseteq># mset (remove1 (legs ! k) (ps_open s))"
    using sub by (simp add: insert_subset_eq_iff)
  then show ?thesis
    using True mem assms(1) by (simp add: close_leg_def books_match_def pending_def book_return_def)
qed


fun portfolio_run ::
  "challenge_rules \<Rightarrow> portfolio_constraints \<Rightarrow> pyfloat \<Rightarrow> portfolio_leg list \<Rightarrow> (pyfloat \<times> bool \<times> nat) list \<Rightarrow>
   portfolio_state \<Rightarrow> portfolio_state result" where
  "portfolio_run rules cons scale legs [] s = Inr s"
| "portfolio_run rules cons scale legs (ev # evs) s =
     (case portfolio_step rules cons scale legs ev s of
        Inl e \<Rightarrow> Inl e | Inr s' \<Rightarrow> portfolio_run rules cons scale legs evs s')"

lemma dip_frame [simp]:
  "account_caps cons scale (s\<lparr>ph_worst := w\<rparr>) = account_caps cons scale s"
  "books_match legs evs (s\<lparr>ph_worst := w\<rparr>) = books_match legs evs s"
  by (simp_all add: account_caps_def books_match_def pending_def)

lemma portfolio_day_books [simp]: "books_match legs evs (portfolio_day d s) = books_match legs evs s"
  by (simp add: books_match_def pending_def)

lemma counts [simp]:
  "ps_taken (open_leg cons scale k leg d s) + ps_skipped (open_leg cons scale k leg d s) =
     Suc (ps_taken s + ps_skipped s)"
  "close_leg scale k leg s = Inr s' \<Longrightarrow> ps_taken s' = ps_taken s \<and> ps_skipped s' = ps_skipped s"
  by (auto simp: open_leg_def close_leg_def book_return_def Let_def split: if_splits)

lemma portfolio_step_ok:
  assumes caps: "account_caps cons scale s" and books: "books_match legs (ev # evs) s" and once: "once (ev # evs)"
    and risk: "list_all (\<lambda>l. 0 \<le> pl_risk_pct l * scale) legs" and k: "snd (snd ev) < length legs"
  shows "\<exists>s'. portfolio_step rules cons scale legs ev s = Inr s' \<and> account_caps cons scale s' \<and>
    books_match legs evs s' \<and>
    ps_taken s' + ps_skipped s' = ps_taken s + ps_skipped s + (if fst (snd ev) then 1 else 0)"
proof -
  obtain t opn k where ev: "ev = (t, opn, k)" by (metis prod_cases3)
  let ?d = "challenge_day t (reset_utc_offset_hours rules)"
  let ?s1 = "portfolio_day ?d s"
  have caps1: "account_caps cons scale ?s1" using caps by (rule portfolio_day_caps)
  show ?thesis
  proof (cases opn)
    case True
    let ?s2 = "open_leg cons scale k (legs ! k) ?d ?s1"
    have "books_match legs evs ?s2" using books once True by (intro open_leg_books) (simp_all add: ev)
    then show ?thesis
      using True open_leg_caps[OF caps1, of k "legs ! k" ?d] counts(1)[of cons scale k "legs ! k" ?d ?s1]
      by (simp add: portfolio_step_def ev Let_def)
  next
    case False
    obtain s2 where s2: "close_leg scale k (legs ! k) ?s1 = Inr s2" "books_match legs evs s2"
      using close_leg_books[of legs t k evs ?s1 scale] books once False by (auto simp: ev)
    have "0 \<le> pl_risk_pct (legs ! k) * scale" using risk k by (simp add: ev list_all_length)
    then show ?thesis
      using False s2 close_leg_caps[OF caps1 s2(1)] counts(2)[OF s2(1)] by (simp add: portfolio_step_def ev Let_def)
  qed
qed

lemma portfolio_run_ok:
  assumes "account_caps cons scale s" and "books_match legs (evs @ rest) s" and "once (evs @ rest)"
    and "list_all (\<lambda>l. 0 \<le> pl_risk_pct l * scale) legs" and "list_all (\<lambda>ev. snd (snd ev) < length legs) evs"
  shows "\<exists>s'. portfolio_run rules cons scale legs evs s = Inr s' \<and> account_caps cons scale s' \<and>
    ps_taken s' + ps_skipped s' = ps_taken s + ps_skipped s + length (filter (\<lambda>ev. fst (snd ev)) evs)"
  using assms(1-3,5)
proof (induction evs arbitrary: s)
  case Nil
  then show ?case by simp
next
  case (Cons ev evs)
  obtain s' where s': "portfolio_step rules cons scale legs ev s = Inr s'" "account_caps cons scale s'"
    "books_match legs (evs @ rest) s'"
    "ps_taken s' + ps_skipped s' = ps_taken s + ps_skipped s + (if fst (snd ev) then 1 else 0)"
    using portfolio_step_ok[OF Cons.prems(1), of legs ev "evs @ rest" rules] Cons.prems assms(4) by auto
  have "once (evs @ rest)" using Cons.prems(3) by (simp add: once_def)
  from Cons.IH[OF s'(2,3) this] Cons.prems(4) show ?case using s'(1,4) by auto
qed

lemma portfolio_loop_total:
  assumes "account_caps cons scale s" and "books_match legs evs s" and "once evs"
    and "list_all (\<lambda>l. 0 \<le> pl_risk_pct l * scale) legs" and "list_all (\<lambda>ev. snd (snd ev) < length legs) evs"
  shows "\<exists>r. portfolio_loop rules cons target scale legs start_ms last_ms evs s = Inr r"
  using assms(1-3,5)
proof (induction evs arbitrary: s)
  case Nil
  then show ?case by simp
next
  case (Cons ev evs)
  obtain s' where s': "portfolio_step rules cons scale legs ev s = Inr s'" "account_caps cons scale s'"
    "books_match legs evs s'"
    using portfolio_step_ok[OF Cons.prems(1-3) assms(4), of rules] Cons.prems(4) by auto
  have "once evs" using Cons.prems(3) by (simp add: once_def)
  from Cons.IH[OF s'(2,3) this] Cons.prems(4) show ?case
    using s'(1) by (auto split: option.split)
qed

lemma once_leg_events: "once (leg_events legs)"
proof -
  let ?evs = "\<lambda>n. concat (List.map (\<lambda>(k, l). [(pl_entry_ms l, True, k), (pl_exit_ms l, False, k)]) (List.enumerate n legs))"
  have "distinct (List.map snd (?evs n))" for n
  proof (induction legs arbitrary: n)
    case Nil
    then show ?case by simp
  next
    case (Cons l legs)
    have "m \<le> k" if "(k, x) \<in> set (List.enumerate m legs)" for k x m
      using that by (auto simp: in_set_enumerate_eq)
    then show ?case using Cons by fastforce
  qed
  then have "distinct (List.map snd (?evs 0))" .
  moreover have "mset (List.map snd (leg_events legs)) = mset (List.map snd (?evs 0))"
    by (simp only: leg_events_def mset_map mset_sort)
  ultimately show ?thesis unfolding once_def using mset_eq_imp_distinct_iff by blast
qed

lemma leg_events_range: "list_all (\<lambda>ev. snd (snd ev) < length legs) (leg_events legs)"
  by (auto simp: list_all_iff leg_events_def in_set_enumerate_eq)

lemma fresh_portfolio_ok: "account_caps cons scale fresh_portfolio" "books_match legs evs fresh_portfolio"
  "ps_taken fresh_portfolio = 0" "ps_skipped fresh_portfolio = 0"
  by (simp_all add: account_caps_def books_match_def pending_def fresh_portfolio_def portfolio_state.defs
      phase_state.defs list_all_iff)



end
