(* ===== verification/Grouping.thy ===== *)
theory Grouping
  imports Prelude
begin

section \<open>Grouping by a key\<close>

text \<open>
  The idiom \<open>groups = defaultdict(list)\<close>, \<open>groups[key(x)].append(x)\<close>, which the research modules
  share: an association list in the order of first appearance, as a Python dictionary iterates.
\<close>

definition group_add :: "('a \<Rightarrow> 'k) \<Rightarrow> 'a \<Rightarrow> ('k \<times> 'a list) list \<Rightarrow> ('k \<times> 'a list) list" where
  "group_add f x g =
     AList.update (f x) ((case map_of g (f x) of None \<Rightarrow> [] | Some ys \<Rightarrow> ys) @ [x]) g"

definition group_by :: "('a \<Rightarrow> 'k) \<Rightarrow> 'a list \<Rightarrow> ('k \<times> 'a list) list" where
  "group_by f xs = fold (group_add f) xs []"

lemma group_by_Nil [simp]: "group_by f [] = []"
  by (simp add: group_by_def)

lemma group_by_snoc: "group_by f (xs @ [x]) = group_add f x (group_by f xs)"
  by (simp add: group_by_def)

lemma distinct_group_by: "distinct (List.map fst (group_by f xs))"
  by (induction xs rule: rev_induct) (simp_all add: group_by_snoc group_add_def distinct_update)

text \<open>A group is exactly the elements with its key, in their order, and no group is empty.\<close>

lemma map_of_group_by:
  "map_of (group_by f xs) k = (if filter (\<lambda>x. f x = k) xs = [] then None else Some (filter (\<lambda>x. f x = k) xs))"
proof (induction xs rule: rev_induct)
  case Nil
  then show ?case by simp
next
  case (snoc x xs)
  then show ?case
    by (cases "f x = k") (auto simp: group_by_snoc group_add_def map_of_update_other split: option.splits)
qed

lemma group_by_mem:
  "(k, g) \<in> set (group_by f xs) \<longleftrightarrow> g = filter (\<lambda>x. f x = k) xs \<and> g \<noteq> []"
  using map_of_eq_Some_iff[OF distinct_group_by, of f xs k g] map_of_group_by[of f xs k]
  by (auto split: if_splits)

lemma group_by_keys: "fst ` set (group_by f xs) = f ` set xs"
proof (intro equalityI subsetI)
  fix k assume "k \<in> fst ` set (group_by f xs)"
  then obtain g where "(k, g) \<in> set (group_by f xs)" by auto
  then show "k \<in> f ` set xs" by (auto simp: group_by_mem filter_empty_conv)
next
  fix k assume "k \<in> f ` set xs"
  then have "(k, filter (\<lambda>x. f x = k) xs) \<in> set (group_by f xs)" by (auto simp: group_by_mem filter_empty_conv)
  then show "k \<in> fst ` set (group_by f xs)" by force
qed

end
