(* ===== verification/Deployability.thy ===== *)
theory Deployability
  imports Portfolio_Sim Grouping
begin

section \<open>Deployability filters\<close>

text \<open>
  \<open>app/cfd_research/deployability.py\<close>: the four gates computed from a trade list. Dates are in
  UTC; \<open>civil_year\<close> and \<open>days_from_civil\<close> are the proleptic Gregorian calendar of
  \<open>datetime\<close>. The month named in the report is the pair of its year and month, \<open>None\<close> for the
  empty text.
\<close>

definition civil_year :: "int \<Rightarrow> int" where
  "civil_year d =
     (let z = d + 719468; era = z div 146097; doe = z mod 146097;
          yoe = (doe - doe div 1460 + doe div 36524 - doe div 146096) div 365
      in yoe + era * 400 + (if fst (month_day d) \<le> 2 then 1 else 0))"

definition days_from_civil :: "int \<Rightarrow> int \<Rightarrow> int \<Rightarrow> int" where
  "days_from_civil y m d =
     (let y' = (if m \<le> 2 then y - 1 else y); era = y' div 400; yoe = y' mod 400;
          mp = (if m > 2 then m - 3 else m + 9); doy = (153 * mp + 2) div 5 + d - 1;
          doe = yoe * 365 + yoe div 4 - yoe div 100 + doy
      in era * 146097 + doe - 719468)"

record deploy_options =
  do_min_trades_per_month :: pyfloat
  do_min_active_months :: int
  do_max_day_concentration :: pyfloat
  do_min_win_rate :: pyfloat
  do_concentration_min_trades :: int
  do_data_start_ms :: "pyfloat option"
  do_data_end_ms :: "pyfloat option"

definition default_deploy :: deploy_options where
  "default_deploy = \<lparr>do_min_trades_per_month = 5, do_min_active_months = 10,
     do_max_day_concentration = 3/10, do_min_win_rate = 4/10, do_concentration_min_trades = 5,
     do_data_start_ms = None, do_data_end_ms = None\<rparr>"

definition AVG_DAYS_PER_MONTH :: pyfloat where
  "AVG_DAYS_PER_MONTH = 30437 / 1000"

record deploy_metrics =
  dm_n_trades :: nat
  dm_trades_per_month :: pyfloat
  dm_win_rate :: pyfloat
  dm_expectancy_usd :: pyfloat
  dm_active_months :: "(int \<times> nat) list"
  dm_full_years :: "int list"
  dm_min_full_year_active :: "nat option"
  dm_worst_day_share :: pyfloat
  dm_worst_month :: "(int \<times> int) option"
  dm_pass_frequency :: bool
  dm_pass_consistency :: bool
  dm_pass_concentration :: bool
  dm_pass_quality :: bool

definition deployable :: "deploy_metrics \<Rightarrow> bool" where
  "deployable m \<longleftrightarrow> dm_pass_frequency m \<and> dm_pass_consistency m \<and> dm_pass_concentration m \<and> dm_pass_quality m"

definition full_years :: "pyfloat \<Rightarrow> pyfloat \<Rightarrow> int list" where
  "full_years first_ms last_ms =
     filter (\<lambda>y. first_ms \<le> of_int (days_from_civil y 1 1) * day_ms \<and>
                last_ms \<ge> of_int (days_from_civil y 12 31) * day_ms + 86399000)
       [civil_year (wall_day first_ms) .. civil_year (wall_day last_ms)]"

definition trade_month :: "simulated_trade \<Rightarrow> int \<times> int" where
  "trade_month t = (civil_year (wall_day (t_entry_ms t)), fst (month_day (wall_day (t_entry_ms t))))"

definition span_rate :: "pyfloat list \<Rightarrow> pyfloat" where
  "span_rate entries =
     (let es = sort entries; span = max ((last es - hd es) / 1000 / 86400 / AVG_DAYS_PER_MONTH) (1 / 10^9);
          n = of_nat (length es)
      in if span > 1 / 10^6 then n / span else n)"

text \<open>\<open>active_by_year\<close>: counted in the order of the months, then sorted by year.\<close>

definition active_by_year :: "pyfloat \<Rightarrow> ((int \<times> int) \<times> simulated_trade list) list \<Rightarrow> (int \<times> nat) list" where
  "active_by_year min_trades by_month =
     fold (\<lambda>((y, m), ts) acc.
        if of_nat (length ts) \<ge> min_trades
        then AList.update y ((case map_of acc y of None \<Rightarrow> 0 | Some k \<Rightarrow> k) + 1) acc else acc)
       by_month []"

definition day_share :: "simulated_trade list \<Rightarrow> pyfloat" where
  "day_share ts =
     (case List.map (\<lambda>(d, g). length g) (group_by (\<lambda>t. wall_day (t_entry_ms t)) ts) of
        [] \<Rightarrow> 0
      | k # ks \<Rightarrow> of_nat (fold max ks k) / of_nat (length ts))"

definition worst_share_loop ::
  "int \<Rightarrow> ((int \<times> int) \<times> simulated_trade list) list \<Rightarrow> pyfloat \<times> (int \<times> int) option" where
  "worst_share_loop min_trades by_month =
     fold (\<lambda>(ym, ts) (worst, month).
        if int (length ts) < min_trades then (worst, month)
        else if day_share ts > worst then (day_share ts, Some ym) else (worst, month))
       by_month (0, None)"

definition compute_deployability :: "deploy_options \<Rightarrow> simulated_trade list \<Rightarrow> deploy_metrics" where
  "compute_deployability opt trades =
     (if trades = []
      then \<lparr>dm_n_trades = 0, dm_trades_per_month = 0, dm_win_rate = 0, dm_expectancy_usd = 0,
            dm_active_months = [], dm_full_years = [], dm_min_full_year_active = None,
            dm_worst_day_share = 0, dm_worst_month = None, dm_pass_frequency = False,
            dm_pass_consistency = False, dm_pass_concentration = False, dm_pass_quality = False\<rparr>
      else
        let n = of_nat (length trades);
            entries = sort (List.map t_entry_ms trades);
            tpm = span_rate (List.map t_entry_ms trades);
            win_rate = of_nat (length (filter (\<lambda>t. t_net_pnl_usd t > 0) trades)) / n;
            expectancy = (\<Sum>t\<leftarrow>trades. t_net_pnl_usd t) / n;
            by_month = group_by trade_month trades;
            active = active_by_year (do_min_trades_per_month opt) by_month;
            fy_start = (case do_data_start_ms opt of Some x \<Rightarrow> x | None \<Rightarrow> hd entries);
            fy_end = (case do_data_end_ms opt of Some x \<Rightarrow> x | None \<Rightarrow> last entries);
            years = full_years fy_start fy_end;
            min_full = (case List.map (\<lambda>y. case map_of active y of None \<Rightarrow> 0 | Some k \<Rightarrow> k) years of
                          [] \<Rightarrow> None | k # ks \<Rightarrow> Some (fold min ks k));
            (worst, month) = worst_share_loop (do_concentration_min_trades opt) by_month
        in \<lparr>dm_n_trades = length trades, dm_trades_per_month = tpm, dm_win_rate = win_rate,
            dm_expectancy_usd = expectancy, dm_active_months = sort_key fst active,
            dm_full_years = years, dm_min_full_year_active = min_full, dm_worst_day_share = worst,
            dm_worst_month = month, dm_pass_frequency = (tpm \<ge> do_min_trades_per_month opt),
            dm_pass_consistency = (case min_full of None \<Rightarrow> True | Some k \<Rightarrow> int k \<ge> do_min_active_months opt),
            dm_pass_concentration = (worst \<le> do_max_day_concentration opt + 1 / 10^9),
            dm_pass_quality = (win_rate \<ge> do_min_win_rate opt \<or> expectancy > 0)\<rparr>)"

definition portfolio_trades_per_month :: "portfolio_leg list \<Rightarrow> pyfloat" where
  "portfolio_trades_per_month legs = (if legs = [] then 0 else span_rate (List.map pl_entry_ms legs))"

definition deploy_flags :: "deploy_metrics \<Rightarrow> string" where
  "deploy_flags m =
     (if dm_pass_frequency m then ''F'' else ''f'') @ '' '' @
     (if dm_pass_consistency m then ''C'' else ''c'') @ '' '' @
     (if dm_pass_concentration m then ''D'' else ''d'') @ '' '' @
     (if dm_pass_quality m then ''Q'' else ''q'')"

subsection \<open>What the gates mean\<close>

definition in_month :: "simulated_trade list \<Rightarrow> int \<times> int \<Rightarrow> simulated_trade list" where
  "in_month trades ym = filter (\<lambda>t. trade_month t = ym) trades"

definition on_day :: "simulated_trade list \<Rightarrow> int \<Rightarrow> nat" where
  "on_day trades d = length (filter (\<lambda>t. wall_day (t_entry_ms t) = d) trades)"

lemma day_share_bound: "of_nat (on_day ts d) \<le> day_share ts * of_nat (length ts)"
proof (cases "filter (\<lambda>t. wall_day (t_entry_ms t) = d) ts = []")
  case True
  have "0 \<le> day_share ts" by (simp add: day_share_def split: list.split)
  then show ?thesis using True by (simp add: on_day_def)
next
  case False
  let ?g = "group_by (\<lambda>t. wall_day (t_entry_ms t)) ts" and ?f = "filter (\<lambda>t. wall_day (t_entry_ms t) = d) ts"
  have "(d, ?f) \<in> set ?g" using False by (simp add: group_by_mem)
  then have mem: "length ?f \<in> set (List.map (\<lambda>(d, g). length g) ?g)" by force
  then obtain k ks where k: "List.map (\<lambda>(d, g). length g) ?g = k # ks" by (cases "List.map (\<lambda>(d, g). length g) ?g") auto
  have "length ?f \<le> fold max ks k" using fold_max_ge mem k by metis
  moreover have "0 < length ts" using False by (cases ts) auto
  ultimately show ?thesis by (simp add: day_share_def k on_day_def)
qed

lemma day_share_attained:
  assumes "ts \<noteq> []"
  shows "\<exists>d. day_share ts * of_nat (length ts) = of_nat (on_day ts d)"
proof -
  let ?g = "group_by (\<lambda>t. wall_day (t_entry_ms t)) ts"
  have "?g \<noteq> []" using group_by_keys[of "\<lambda>t. wall_day (t_entry_ms t)" ts] assms by auto
  then obtain k ks where k: "List.map (\<lambda>(d, g). length g) ?g = k # ks" by (cases ?g) auto
  have "fold max ks k \<in> set (List.map (\<lambda>(d, g). length g) ?g)" unfolding k by (rule fold_max_in)
  then obtain d g where "(d, g) \<in> set ?g" "fold max ks k = length g" by auto
  then have "fold max ks k = on_day ts d" by (simp add: group_by_mem on_day_def)
  then show ?thesis using assms by (intro exI[of _ d]) (simp add: day_share_def k)
qed

lemma worst_share_le_iff:
  assumes "0 \<le> b"
  shows "fst (worst_share_loop k by_month) \<le> b \<longleftrightarrow>
    list_all (\<lambda>(ym, ts). int (length ts) < k \<or> day_share ts \<le> b) by_month"
proof -
  have "fst (fold (\<lambda>(ym, ts) (worst, month).
        if int (length ts) < k then (worst, month)
        else if day_share ts > worst then (day_share ts, Some ym) else (worst, month)) by_month (w, m)) \<le> b \<longleftrightarrow>
      w \<le> b \<and> list_all (\<lambda>(ym, ts). int (length ts) < k \<or> day_share ts \<le> b) by_month" for w m
  proof (induction by_month arbitrary: w m)
    case (Cons b by_month)
    obtain ym ts where b: "b = (ym, ts)" by (cases b)
    show ?case unfolding b
      by (cases "int (length ts) < k"; cases "w < day_share ts") (auto simp: Cons.IH)
  qed simp
  then show ?thesis using assms by (simp add: worst_share_loop_def)
qed

lemma map_of_active:
  assumes "distinct (List.map fst by_month)"
  shows "(case map_of (active_by_year k by_month) y of None \<Rightarrow> 0 | Some c \<Rightarrow> c) =
    card {m. \<exists>ts. ((y, m), ts) \<in> set by_month \<and> k \<le> of_nat (length ts)}"
  using assms
proof (induction by_month rule: rev_induct)
  case Nil
  then show ?case by (simp add: active_by_year_def)
next
  case (snoc b by_month)
  obtain y' m' ts' where b: "b = ((y', m'), ts')" by (metis prod.collapse)
  let ?S = "\<lambda>l. {m. \<exists>ts. ((y, m), ts) \<in> set l \<and> k \<le> of_nat (length ts)}"
  have "?S by_month \<subseteq> (snd \<circ> fst) ` set by_month" by force
  then have fin: "finite (?S by_month)" by (rule finite_subset) simp
  have new: "(y', m') \<notin> fst ` set by_month" using snoc.prems by (simp add: b)
  have S: "?S (by_month @ [b]) = (if y' = y \<and> k \<le> of_nat (length ts') then insert m' (?S by_month) else ?S by_month)"
    by (auto simp: b)
  have "m' \<notin> ?S by_month" if "y' = y" using new that by force
  then show ?case
    using snoc S fin by (auto simp: active_by_year_def b map_of_update_other split: option.splits)
qed

text \<open>A deployable slice is what the owner asked for: its trades reach the configured rate per
  month; in every fully covered year at least the configured number of months is active; in every
  month with enough trades no day holds more than the allowed share of them; and it wins often
  enough or earns on average. The report is deployable exactly then.\<close>

theorem deployable_iff:
  assumes "trades \<noteq> []" and "0 \<le> do_max_day_concentration opt"
  shows "deployable (compute_deployability opt trades) \<longleftrightarrow>
    do_min_trades_per_month opt \<le> span_rate (List.map t_entry_ms trades) \<and>
    list_all (\<lambda>y. do_min_active_months opt \<le>
        int (card {m. in_month trades (y, m) \<noteq> [] \<and>
               do_min_trades_per_month opt \<le> of_nat (length (in_month trades (y, m)))}))
      (dm_full_years (compute_deployability opt trades)) \<and>
    (\<forall>ym d. int (length (in_month trades ym)) < do_concentration_min_trades opt \<or>
       of_nat (on_day (in_month trades ym) d) \<le>
         (do_max_day_concentration opt + 1 / 10^9) * of_nat (length (in_month trades ym))) \<and>
    (do_min_win_rate opt * of_nat (length trades) \<le> of_nat (length (filter (\<lambda>t. t_net_pnl_usd t > 0) trades)) \<or>
     0 < (\<Sum>t\<leftarrow>trades. t_net_pnl_usd t))"
proof -
  let ?g = "group_by trade_month trades" and ?k = "do_concentration_min_trades opt"
  let ?b = "do_max_day_concentration opt + 1 / 10^9"
  let ?active = "active_by_year (do_min_trades_per_month opt) ?g"
  let ?m = "compute_deployability opt trades"
  have count: "(case map_of ?active y of None \<Rightarrow> 0 | Some c \<Rightarrow> c) =
      card {m. in_month trades (y, m) \<noteq> [] \<and> do_min_trades_per_month opt \<le> of_nat (length (in_month trades (y, m)))}" for y
    unfolding map_of_active[OF distinct_group_by]
    by (rule arg_cong[of _ _ card]) (auto simp: group_by_mem in_month_def)
  have consistency: "dm_pass_consistency ?m \<longleftrightarrow> list_all (\<lambda>y. do_min_active_months opt \<le>
      int (case map_of ?active y of None \<Rightarrow> 0 | Some c \<Rightarrow> c)) (dm_full_years ?m)"
  proof -
    obtain years where y: "dm_full_years ?m = years" and
      p: "dm_pass_consistency ?m = (case (case List.map (\<lambda>y. case map_of ?active y of None \<Rightarrow> 0 | Some k \<Rightarrow> k) years of
            [] \<Rightarrow> None | k # ks \<Rightarrow> Some (fold min ks k)) of None \<Rightarrow> True | Some k \<Rightarrow> int k \<ge> do_min_active_months opt)"
      using assms(1) by (auto simp: compute_deployability_def Let_def case_prod_beta)
    have min: "do_min_active_months opt \<le> int (fold min ks k) \<longleftrightarrow> list_all (\<lambda>c. do_min_active_months opt \<le> int c) (k # ks)" for ks k
      using fold_min_in[of ks k] fold_min_le[of _ k ks] by (fastforce simp: list_all_iff)
    show ?thesis unfolding p y by (cases years) (simp_all add: min list.pred_map comp_def)
  qed
  have "dm_pass_concentration ?m \<longleftrightarrow> fst (worst_share_loop ?k ?g) \<le> ?b"
    using assms(1) by (simp add: compute_deployability_def Let_def case_prod_beta)
  also have "\<dots> \<longleftrightarrow> list_all (\<lambda>(ym, ts). int (length ts) < ?k \<or> day_share ts \<le> ?b) ?g"
    using assms(2) by (intro worst_share_le_iff) simp
  also have "\<dots> \<longleftrightarrow> (\<forall>ym d. int (length (in_month trades ym)) < ?k \<or>
      of_nat (on_day (in_month trades ym) d) \<le> ?b * of_nat (length (in_month trades ym)))"
    (is "?l \<longleftrightarrow> ?r")
  proof
    assume l: ?l
    show ?r
    proof (intro allI)
      fix ym d
      let ?ts = "in_month trades ym"
      show "int (length ?ts) < ?k \<or> of_nat (on_day ?ts d) \<le> ?b * of_nat (length ?ts)"
      proof (cases "?ts = []")
        case True
        then show ?thesis by (simp add: on_day_def)
      next
        case False
        then have "(ym, ?ts) \<in> set ?g" by (simp add: group_by_mem in_month_def)
        then have "int (length ?ts) < ?k \<or> day_share ?ts \<le> ?b" using l by (auto simp: list_all_iff)
        then show ?thesis using day_share_bound[of ?ts d] by (meson mult_right_mono of_nat_0_le_iff order.trans)
      qed
    qed
  next
    assume r: ?r
    show ?l unfolding list_all_iff
    proof (intro ballI, clarify)
      fix y m ts assume mem: "((y, m), ts) \<in> set ?g" and "\<not> day_share ts \<le> ?b"
      then have ts: "ts = in_month trades (y, m)" "ts \<noteq> []" by (auto simp: group_by_mem in_month_def)
      obtain d where "day_share ts * of_nat (length ts) = of_nat (on_day ts d)" using day_share_attained[OF ts(2)] by blast
      moreover have "?b * of_nat (length ts) < day_share ts * of_nat (length ts)"
        using \<open>\<not> day_share ts \<le> ?b\<close> ts(2) by (intro mult_strict_right_mono) auto
      ultimately show "int (length ts) < ?k" using r[rule_format, of "(y, m)" d] unfolding ts(1)[symmetric] by auto
    qed
  qed
  finally have concentration: "dm_pass_concentration ?m \<longleftrightarrow> ?r" .
  have "dm_pass_frequency ?m \<longleftrightarrow> do_min_trades_per_month opt \<le> span_rate (List.map t_entry_ms trades)"
    "dm_pass_quality ?m \<longleftrightarrow>
      do_min_win_rate opt * of_nat (length trades) \<le> of_nat (length (filter (\<lambda>t. t_net_pnl_usd t > 0) trades)) \<or>
      0 < (\<Sum>t\<leftarrow>trades. t_net_pnl_usd t)"
    using assms(1)
    by (auto simp: compute_deployability_def Let_def case_prod_beta field_simps zero_less_divide_iff)
  then show ?thesis unfolding deployable_def consistency count concentration by blast
qed


definition demo_winner :: simulated_trade where
  "demo_winner = \<lparr>t_instrument = ''EURUSD'', t_direction = LONG, t_entry_price = 1, t_entry_ms = 0, t_exit_price = 2,
     t_exit_ms = 60000, t_exit_reason = TAKE_PROFIT, t_lots = 1, t_planned_rr = 1, t_realized_rr = 1,
     t_pnl_price = 1, t_pnl_usd = 1, t_cost_usd = 0, t_net_pnl_usd = 1, t_mfe_price = 1, t_mae_price = 0,
     t_bars_held = 1, t_partials = [], t_closed = True, t_strategy_id = ''s'', t_session = [], t_regime = [],
     t_volatility = [], t_exit_model = [], t_timeframe = []\<rparr>"

text \<open>One winning trade is not enough: it comes once a month, and five are asked for.\<close>

theorem deployable_iff_witness: "\<not> deployable (compute_deployability default_deploy [demo_winner])"
  using deployable_iff[of "[demo_winner]" default_deploy] by (simp add: default_deploy_def span_rate_def Let_def)


end
