(* ===== verification/Slice_Scorer.thy ===== *)
theory Slice_Scorer
  imports Deployability
begin

section \<open>Slices of tagged trades and their out-of-sample check\<close>

text \<open>
  \<open>app/cfd_research/slice_scorer.py\<close> and \<open>oos.py\<close>: trades grouped by their tags, every group of
  enough trades run through the deployability gates and, per risk level, the challenge; the
  results ranked. \<open>validate_oos\<close> scores two windows of history and pairs the slices. A Monte
  Carlo that does not return is \<open>None\<close>. The rows of the report are output and left out.
\<close>

definition MIN_PASS_RATE :: pyfloat where
  "MIN_PASS_RATE = 6/10"

definition MAX_BLOWUP_RATE :: pyfloat where
  "MAX_BLOWUP_RATE = 5/100"

definition TAG_DIMENSIONS :: "string list" where
  "TAG_DIMENSIONS = [''instrument'', ''strategy_id'', ''session'', ''regime'', ''volatility'', ''exit_model'', ''timeframe'']"

text \<open>\<open>getattr(t, d)\<close> for a dimension, which has been checked before.\<close>

definition tag_of :: "simulated_trade \<Rightarrow> string \<Rightarrow> string" where
  "tag_of t d =
     (if d = ''instrument'' then t_instrument t else if d = ''strategy_id'' then t_strategy_id t
      else if d = ''session'' then t_session t else if d = ''regime'' then t_regime t
      else if d = ''volatility'' then t_volatility t else if d = ''exit_model'' then t_exit_model t
      else t_timeframe t)"

definition slice_has_overlap :: "simulated_trade list \<Rightarrow> bool" where
  "slice_has_overlap trades =
     overlap_loop (List.map (\<lambda>t. \<lparr>tr_entry_ms = t_entry_ms t, tr_exit_ms = t_exit_ms t, tr_ret_pct = 0,
       tr_mae_pct = 0, tr_day = 0\<rparr>) (sort_key t_entry_ms trades)) None"

record slice_result =
  sr_key :: "(string \<times> string) list"
  sr_trade_count :: nat
  sr_risk_pct :: pyfloat
  sr_mc :: mc_result
  sr_deploy :: "deploy_metrics option"
  sr_has_overlap :: bool
  sr_min_pass_rate :: pyfloat
  sr_max_blowup_rate :: pyfloat

definition passes_challenge :: "slice_result \<Rightarrow> bool" where
  "passes_challenge r \<longleftrightarrow> pass_rate (sr_mc r) \<ge> sr_min_pass_rate r \<and> account_ending_rate (sr_mc r) \<le> sr_max_blowup_rate r"

definition qualifies :: "slice_result \<Rightarrow> bool" where
  "qualifies r \<longleftrightarrow> (case sr_deploy r of None \<Rightarrow> False | Some d \<Rightarrow> deployable d \<and> passes_challenge r)"

definition slice_sort_key :: "slice_result \<Rightarrow> nat \<times> pyfloat \<times> pyfloat \<times> pyfloat" where
  "slice_sort_key r =
     (if qualifies r then 0 else 1, - pass_rate (sr_mc r), account_ending_rate (sr_mc r), - phase1_pass_rate (sr_mc r))"

fun join_texts :: "string \<Rightarrow> string list \<Rightarrow> string" where
  "join_texts sep [] = []"
| "join_texts sep [w] = w"
| "join_texts sep (w # ws) = w @ sep @ join_texts sep ws"

definition slice_label :: "slice_result \<Rightarrow> string" where
  "slice_label r = join_texts '' '' (List.map (\<lambda>(k, v). k @ ''='' @ v) (sr_key r))"

record score_options =
  so_ref_balance :: pyfloat
  so_ref_risk_pct :: pyfloat
  so_risk_levels :: "pyfloat list"
  so_step_days :: int
  so_min_trades :: nat
  so_offset_hours :: pyfloat
  so_deploy :: deploy_options
  so_min_pass_rate :: pyfloat
  so_max_blowup_rate :: pyfloat
  so_gated_only :: bool

definition default_score_options :: score_options where
  "default_score_options = \<lparr>so_ref_balance = 100000, so_ref_risk_pct = 1, so_risk_levels = [1/2, 1], so_step_days = 7,
     so_min_trades = 30, so_offset_hours = 0, so_deploy = default_deploy, so_min_pass_rate = MIN_PASS_RATE,
     so_max_blowup_rate = MAX_BLOWUP_RATE, so_gated_only = False\<rparr>"

text \<open>A dictionary comprehension: a dimension named twice has one entry.\<close>

definition slice_key :: "string list \<Rightarrow> string list \<Rightarrow> (string \<times> string) list" where
  "slice_key dims vals = fold (\<lambda>(d, v). AList.update d v) (zip dims vals) []"

definition score_group ::
  "registry \<Rightarrow> challenge_rules \<Rightarrow> score_options \<Rightarrow> string list \<Rightarrow> string list \<times> simulated_trade list \<Rightarrow>
   slice_result list result option" where
  "score_group reg rules opt dims g =
     (case g of (key_vals, grp) \<Rightarrow>
        if length grp < so_min_trades opt then Some (Inr [])
        else
          let deploy = compute_deployability (so_deploy opt) grp in
          if so_gated_only opt \<and> \<not> deployable deploy then Some (Inr [])
          else case from_simulated_trades reg grp (so_ref_balance opt) (so_offset_hours opt) of
                 Inl e \<Rightarrow> Some (Inl e)
               | Inr rets \<Rightarrow>
                   let scale = (\<lambda>level. if so_ref_risk_pct opt \<noteq> 0 then level / so_ref_risk_pct opt else 1) in
                   (case those (List.map (\<lambda>level. monte_carlo rets rules (scale level) (so_step_days opt) None)
                           (so_risk_levels opt)) of
                      None \<Rightarrow> None
                    | Some mcs \<Rightarrow> Some (Inr (map2 (\<lambda>level mc.
                        \<lparr>sr_key = slice_key dims key_vals, sr_trade_count = length grp, sr_risk_pct = level, sr_mc = mc,
                         sr_deploy = Some deploy, sr_has_overlap = slice_has_overlap grp,
                         sr_min_pass_rate = so_min_pass_rate opt, sr_max_blowup_rate = so_max_blowup_rate opt\<rparr>)
                        (so_risk_levels opt) mcs))))"

fun score_groups ::
  "(string list \<times> simulated_trade list \<Rightarrow> slice_result list result option) \<Rightarrow>
   (string list \<times> simulated_trade list) list \<Rightarrow> slice_result list \<Rightarrow> slice_result list result option" where
  "score_groups f [] out = Some (Inr out)"
| "score_groups f (g # gs) out =
     (case f g of
        None \<Rightarrow> None
      | Some (Inl e) \<Rightarrow> Some (Inl e)
      | Some (Inr rs) \<Rightarrow> score_groups f gs (out @ rs))"

definition score_slices ::
  "registry \<Rightarrow> challenge_rules \<Rightarrow> score_options \<Rightarrow> string list \<Rightarrow> simulated_trade list \<Rightarrow>
   slice_result list result option" where
  "score_slices reg rules opt dims trades =
     (if list_ex (\<lambda>d. d \<notin> set TAG_DIMENSIONS) dims then Some (Inl (ValueError ''unknown slice dimension''))
      else if ''exit_model'' \<notin> set dims then Some (Inl (ValueError ''slice dimensions MUST include exit_model''))
      else
        case score_groups (score_group reg rules opt dims) (group_by (\<lambda>t. List.map (tag_of t) dims) trades) [] of
          None \<Rightarrow> None
        | Some (Inl e) \<Rightarrow> Some (Inl e)
        | Some (Inr results) \<Rightarrow> Some (Inr (sort_key slice_sort_key results)))"

subsection \<open>Out-of-sample validation\<close>

record oos_row =
  oos_discover :: slice_result
  oos_confirm :: "slice_result option"

definition oos_robust :: "oos_row \<Rightarrow> bool" where
  "oos_robust r \<longleftrightarrow> qualifies (oos_discover r) \<and> (case oos_confirm r of None \<Rightarrow> False | Some c \<Rightarrow> qualifies c)"

definition oos_key :: "slice_result \<Rightarrow> string \<times> pyfloat" where
  "oos_key r = (slice_label r, sr_risk_pct r)"

definition oos_sort_key :: "oos_row \<Rightarrow> nat \<times> nat \<times> pyfloat" where
  "oos_sort_key r = (if oos_robust r then 0 else 1, if qualifies (oos_discover r) then 0 else 1,
     - pass_rate (sr_mc (oos_discover r)))"

text \<open>The scoring functions are arguments, as in the code; a later slice of a key replaces an earlier.\<close>

type_synonym score_fn = "simulated_trade list \<Rightarrow> pyfloat option \<Rightarrow> pyfloat option \<Rightarrow> slice_result list"

definition validate_oos ::
  "simulated_trade list \<Rightarrow> pyfloat \<Rightarrow> score_fn \<Rightarrow> score_fn \<Rightarrow> pyfloat option \<Rightarrow> pyfloat option \<Rightarrow>
   oos_row list \<times> nat \<times> nat" where
  "validate_oos trades split_ms score_discover score_confirm start_ms end_ms =
     (let discover = filter (\<lambda>t. t_entry_ms t < split_ms) trades;
          confirm = filter (\<lambda>t. t_entry_ms t \<ge> split_ms) trades;
          res_d = score_discover discover start_ms (Some split_ms);
          res_c = score_confirm confirm (Some split_ms) end_ms;
          cmap = map_of (rev (List.map (\<lambda>r. (oos_key r, r)) res_c));
          rows = List.map (\<lambda>rd. \<lparr>oos_discover = rd, oos_confirm = cmap (oos_key rd)\<rparr>) res_d
      in (sort_key oos_sort_key rows, length discover, length confirm))"

subsection \<open>What a score says\<close>

lemma those_SomeD: "those xs = Some ys \<Longrightarrow> length ys = length xs"
  by (induction xs arbitrary: ys) (auto split: option.splits)

text \<open>A scored slice: its key names the tags all its trades share, and there are enough of them.\<close>

definition slice_of :: "score_options \<Rightarrow> string list \<Rightarrow> simulated_trade list \<Rightarrow> slice_result \<Rightarrow> bool" where
  "slice_of opt dims trades r \<longleftrightarrow>
     (\<exists>vals. let grp = filter (\<lambda>t. List.map (tag_of t) dims = vals) trades in
        sr_key r = slice_key dims vals \<and> sr_trade_count r = length grp \<and> grp \<noteq> [] \<and> so_min_trades opt \<le> length grp \<and>
        sr_deploy r = Some (compute_deployability (so_deploy opt) grp) \<and> sr_risk_pct r \<in> set (so_risk_levels opt))"

lemma score_group_slices:
  assumes "score_group reg rules opt dims (vals, grp) = Some (Inr rs)" and "grp \<noteq> []"
    and "grp = filter (\<lambda>t. List.map (tag_of t) dims = vals) trades"
  shows "list_all (slice_of opt dims trades) rs"
proof -
  have "slice_of opt dims trades r" if "r \<in> set rs" for r
  proof -
    have "\<exists>level mc.
      r = \<lparr>sr_key = slice_key dims vals, sr_trade_count = length grp, sr_risk_pct = level, sr_mc = mc,
         sr_deploy = Some (compute_deployability (so_deploy opt) grp), sr_has_overlap = slice_has_overlap grp,
         sr_min_pass_rate = so_min_pass_rate opt, sr_max_blowup_rate = so_max_blowup_rate opt\<rparr> \<and>
      level \<in> set (so_risk_levels opt) \<and> \<not> length grp < so_min_trades opt"
      using assms(1) that
      by (auto simp: score_group_def Let_def split: if_splits sum.splits option.splits) (erule set_zip_leftD)+
    then obtain level mc where r:
      "r = \<lparr>sr_key = slice_key dims vals, sr_trade_count = length grp, sr_risk_pct = level, sr_mc = mc,
         sr_deploy = Some (compute_deployability (so_deploy opt) grp), sr_has_overlap = slice_has_overlap grp,
         sr_min_pass_rate = so_min_pass_rate opt, sr_max_blowup_rate = so_max_blowup_rate opt\<rparr>"
      "level \<in> set (so_risk_levels opt)" "\<not> length grp < so_min_trades opt" by blast
    then show ?thesis using assms(2,3) unfolding slice_of_def Let_def by (intro exI[of _ vals]) (simp add: not_less)
  qed
  then show ?thesis by (simp add: list_all_iff)
qed

lemma score_groups_invariant:
  assumes "score_groups f gs out = Some (Inr rs)" and "list_all P out"
    and "\<And>g xs. g \<in> set gs \<Longrightarrow> f g = Some (Inr xs) \<Longrightarrow> list_all P xs"
  shows "list_all P rs"
  using assms by (induction f gs out rule: score_groups.induct) (auto split: option.splits sum.splits)

lemma score_slices_are_slices:
  assumes "score_slices reg rules opt dims trades = Some (Inr rs)"
  shows "list_all (slice_of opt dims trades) rs \<and> sorted (List.map slice_sort_key rs) \<and> ''exit_model'' \<in> set dims"
proof -
  let ?gs = "group_by (\<lambda>t. List.map (tag_of t) dims) trades"
  obtain out where out: "score_groups (score_group reg rules opt dims) ?gs [] = Some (Inr out)"
    "rs = sort_key slice_sort_key out" "''exit_model'' \<in> set dims"
    using assms by (auto simp: score_slices_def split: if_splits option.splits sum.splits)
  have "list_all (slice_of opt dims trades) out"
  proof (rule score_groups_invariant[OF out(1)])
    fix g xs assume g: "g \<in> set ?gs" and xs: "score_group reg rules opt dims g = Some (Inr xs)"
    obtain vals grp where "g = (vals, grp)" by (cases g)
    then show "list_all (slice_of opt dims trades) xs"
      using g xs by (intro score_group_slices[of reg rules opt dims vals grp]) (auto simp: group_by_mem)
  qed simp
  then show ?thesis using out by (simp add: list_all_iff)
qed

text \<open>
  A robust row was deployable in both windows, on disjoint trades: those before the split and those
  from it on; the row's confirmation is a slice of the second window with the same tags and risk.
\<close>

lemma oos_robust_rows:
  assumes "validate_oos trades split sd sc a b = (rows, nd, nc)"
  shows "nd + nc = length trades" and "sorted (List.map oos_sort_key rows)"
    and "row \<in> set rows \<Longrightarrow> oos_robust row \<Longrightarrow>
      oos_discover row \<in> set (sd (filter (\<lambda>t. t_entry_ms t < split) trades) a (Some split)) \<and>
      qualifies (oos_discover row) \<and>
      (\<exists>c \<in> set (sc (filter (\<lambda>t. split \<le> t_entry_ms t) trades) (Some split) b).
         oos_confirm row = Some c \<and> qualifies c \<and> oos_key c = oos_key (oos_discover row))"
proof -
  note defs = validate_oos_def Let_def
  show "nd + nc = length trades" "sorted (List.map oos_sort_key rows)"
    using assms sum_length_filter_compl[of "\<lambda>t. t_entry_ms t < split" trades] by (auto simp: defs not_less)
  show "oos_discover row \<in> set (sd (filter (\<lambda>t. t_entry_ms t < split) trades) a (Some split)) \<and>
      qualifies (oos_discover row) \<and>
      (\<exists>c \<in> set (sc (filter (\<lambda>t. split \<le> t_entry_ms t) trades) (Some split) b).
         oos_confirm row = Some c \<and> qualifies c \<and> oos_key c = oos_key (oos_discover row))"
    if "row \<in> set rows" "oos_robust row"
    using assms that by (auto simp: defs oos_robust_def split: option.splits dest!: map_of_SomeD)
qed

end
