(* ===== verification/Research_Entries.thy ===== *)
theory Research_Entries
  imports Entry_Replay
begin

section \<open>Research entry rules\<close>

text \<open>
  \<open>app/cfd_research/entries\<close>: the entry strategies the replay sweeps. A strategy's object is its
  parameters (a record per class, with the arguments of its constructor) and a dictionary from
  instruments to its dataclass state; \<open>entries\<close> returns intents or raises and leaves the
  dictionary. Two shapes recur and are defined once: the cooldown of the fire-anytime rules
  (\<open>with_cooldown\<close>: new trading day clears it, a running one skips the bar, an entry starts it)
  and one entry per trading day (\<open>once_a_day\<close>). The rule itself is a function from the context.

  Trading days, which the code writes as date strings, are day numbers. The reason of an intent,
  which nothing reads, is its text up to the first figure. \<open>fmt spec x\<close> is Python's
  \<open>format(x, spec)\<close>, used in the strategy ids.
\<close>

type_synonym number_format = "string \<Rightarrow> pyfloat \<Rightarrow> string"

definition then_do :: "'a result \<Rightarrow> ('a \<Rightarrow> 'b result) \<Rightarrow> 'b result" where
  "then_do r f = (case r of Inl e \<Rightarrow> Inl e | Inr x \<Rightarrow> f x)"

lemma then_do_simps [simp]: "then_do (Inl e) f = Inl e" "then_do (Inr x) f = f x"
  by (simp_all add: then_do_def)

lemma then_do_Inr_iff: "then_do r f = Inr y \<longleftrightarrow> (\<exists>x. r = Inr x \<and> f x = Inr y)"
  by (cases r) simp_all

text \<open>\<open>max\<close> and \<open>min\<close> over a generator raise a \<open>ValueError\<close> when it is empty.\<close>

definition py_max :: "pyfloat list \<Rightarrow> pyfloat result" where
  "py_max xs = (case xs of [] \<Rightarrow> Inl (ValueError ''max() arg is an empty sequence'') | y # ys \<Rightarrow> Inr (fold max ys y))"

definition py_min :: "pyfloat list \<Rightarrow> pyfloat result" where
  "py_min xs = (case xs of [] \<Rightarrow> Inl (ValueError ''min() arg is an empty sequence'') | y # ys \<Rightarrow> Inr (fold min ys y))"

definition close_of :: "entry_context \<Rightarrow> pyfloat" where
  "close_of ctx = c_close (ec_candle ctx)"

definition closes_of :: "entry_context \<Rightarrow> pyfloat list" where
  "closes_of ctx = List.map c_close (ec_history ctx)"

definition intent_at :: "entry_context \<Rightarrow> direction \<Rightarrow> pyfloat \<Rightarrow> pyfloat option \<Rightarrow> string \<Rightarrow> entry_intent" where
  "intent_at ctx d stop target reason =
     \<lparr>in_instrument = ec_instrument ctx, in_direction = d, in_entry = close_of ctx, in_stop = stop,
      in_ms = c_ms (ec_candle ctx), in_reason = reason, in_target = target\<rparr>"

definition state_of :: "'s \<Rightarrow> (string \<rightharpoonup> 's) \<Rightarrow> string \<Rightarrow> 's" where
  "state_of fresh m inst = (case m inst of None \<Rightarrow> fresh | Some s \<Rightarrow> s)"

subsection \<open>Cooldown and one entry per day\<close>

record cool_state =
  cooldown_remaining :: int
  last_trading_day :: "int option"

definition fresh_cool :: cool_state where
  "fresh_cool = \<lparr>cooldown_remaining = 0, last_trading_day = None\<rparr>"

type_synonym cool_map = "string \<rightharpoonup> cool_state"

definition new_trading_day :: "int \<Rightarrow> cool_state \<Rightarrow> cool_state" where
  "new_trading_day today s =
     (if last_trading_day s \<noteq> Some today then s\<lparr>last_trading_day := Some today, cooldown_remaining := 0\<rparr> else s)"

definition with_cooldown ::
  "int \<Rightarrow> (entry_context \<Rightarrow> entry_intent list result) \<Rightarrow> zones \<Rightarrow> entry_context \<Rightarrow> cool_map \<Rightarrow>
   entry_intent list result \<times> cool_map" where
  "with_cooldown cooldown_bars trig tz ctx m =
     (let inst = ec_instrument ctx;
          s = new_trading_day (trading_day tz (c_ms (ec_candle ctx))) (state_of fresh_cool m inst)
      in if cooldown_remaining s > 0
         then (Inr [], m(inst \<mapsto> s\<lparr>cooldown_remaining := cooldown_remaining s - 1\<rparr>))
         else case trig ctx of
                Inl e \<Rightarrow> (Inl e, m(inst \<mapsto> s))
              | Inr ims \<Rightarrow> (Inr ims, m(inst \<mapsto> (if ims = [] then s else s\<lparr>cooldown_remaining := cooldown_bars\<rparr>))))"

record day_state =
  entered_day :: "int option"

definition once_a_day ::
  "(entry_context \<Rightarrow> entry_intent list result) \<Rightarrow> zones \<Rightarrow> entry_context \<Rightarrow> (string \<rightharpoonup> day_state) \<Rightarrow>
   entry_intent list result \<times> (string \<rightharpoonup> day_state)" where
  "once_a_day trig tz ctx m =
     (let inst = ec_instrument ctx; s = state_of \<lparr>entered_day = None\<rparr> m inst;
          today = trading_day tz (c_ms (ec_candle ctx))
      in if entered_day s = Some today then (Inr [], m(inst \<mapsto> s))
         else case trig ctx of
                Inl e \<Rightarrow> (Inl e, m(inst \<mapsto> s))
              | Inr ims \<Rightarrow> (Inr ims, m(inst \<mapsto> (if ims = [] then s else s\<lparr>entered_day := Some today\<rparr>))))"

text \<open>\<open>on_day_reset\<close> of every rule.\<close>

definition clear_states :: "(string \<rightharpoonup> 's) \<Rightarrow> (string \<rightharpoonup> 's)" where
  "clear_states m = Map.empty"

subsection \<open>Session opening-range breakout\<close>

record orb_params =
  op_session :: string
  op_range_bars :: int
  op_buffer_frac :: pyfloat
  op_trend_ema :: "nat option"
  op_allow_long :: bool
  op_allow_short :: bool
  op_instruments :: "string list"
  op_timeframe :: timeframe
  op_session_fn :: "pyfloat \<Rightarrow> string list"

definition default_session_fn :: "zones \<Rightarrow> pyfloat \<Rightarrow> string list" where
  "default_session_fn tz n = split_on CHR ''+'' (session_tag tz n)"

record orb_state =
  in_session :: bool
  range_high :: pyfloat
  range_low :: pyfloat
  orb_bars :: int
  orb_complete :: bool
  orb_entered :: bool

definition fresh_orb :: orb_state where
  "fresh_orb = \<lparr>in_session = False, range_high = 0, range_low = 0, orb_bars = 0, orb_complete = False,
     orb_entered = False\<rparr>"

definition open_range :: "candle \<Rightarrow> orb_state \<Rightarrow> orb_state" where
  "open_range c s = s\<lparr>in_session := True, range_high := c_high c, range_low := c_low c, orb_bars := 1,
     orb_complete := False, orb_entered := False\<rparr>"

definition extend_range :: "int \<Rightarrow> candle \<Rightarrow> orb_state \<Rightarrow> orb_state" where
  "extend_range n c s = s\<lparr>range_high := max (range_high s) (c_high c), range_low := min (range_low s) (c_low c),
     orb_bars := orb_bars s + 1, orb_complete := (orb_bars s + 1 \<ge> n \<or> orb_complete s)\<rparr>"

text \<open>\<open>trend_ema\<close> is tested for truth: \<open>None\<close> and \<open>0\<close> switch the filter off.\<close>

definition orb_ema :: "orb_params \<Rightarrow> nat option" where
  "orb_ema p = (if op_trend_ema p = Some 0 then None else op_trend_ema p)"

definition orb_breakout :: "orb_params \<Rightarrow> entry_context \<Rightarrow> orb_state \<Rightarrow> bool \<Rightarrow> bool \<Rightarrow> entry_intent list" where
  "orb_breakout p ctx s allow_long allow_short =
     (let buf = op_buffer_frac p * (range_high s - range_low s); close = close_of ctx in
      if allow_long \<and> close > range_high s + buf
      then [intent_at ctx LONG (range_low s) None (''ORB '' @ op_session p @ '' long breakout'')]
      else if allow_short \<and> close < range_low s - buf
      then [intent_at ctx SHORT (range_high s) None (''ORB '' @ op_session p @ '' short breakout'')]
      else [])"

definition orb_step :: "orb_params \<Rightarrow> entry_context \<Rightarrow> orb_state \<Rightarrow> entry_intent list result \<times> orb_state" where
  "orb_step p ctx s =
     (let c = ec_candle ctx in
      if op_session p \<notin> set (op_session_fn p (c_ms c)) then (Inr [], s\<lparr>in_session := False\<rparr>)
      else if \<not> in_session s then (Inr [], open_range c s)
      else if orb_bars s < op_range_bars p then (Inr [], extend_range (op_range_bars p) c s)
      else if \<not> orb_complete s \<or> orb_entered s then (Inr [], s)
      else if range_high s - range_low s \<le> 0 then (Inr [], s)
      else
        let filtered = (case orb_ema p of
              None \<Rightarrow> Inr (Some (op_allow_long p, op_allow_short p))
            | Some n \<Rightarrow> then_do (ema (closes_of ctx) n)
                (\<lambda>v. case v of
                   None \<Rightarrow> Inr None
                 | Some trend \<Rightarrow> Inr (Some (op_allow_long p \<and> close_of ctx > trend, op_allow_short p \<and> close_of ctx < trend))))
        in case filtered of
             Inl e \<Rightarrow> (Inl e, s)
           | Inr None \<Rightarrow> (Inr [], s)
           | Inr (Some (al, ash)) \<Rightarrow>
               let ims = orb_breakout p ctx s al ash
               in (Inr ims, if ims = [] then s else s\<lparr>orb_entered := True\<rparr>))"

definition orb_entries ::
  "orb_params \<Rightarrow> entry_context \<Rightarrow> (string \<rightharpoonup> orb_state) \<Rightarrow> entry_intent list result \<times> (string \<rightharpoonup> orb_state)" where
  "orb_entries p ctx m =
     (let (r, s) = orb_step p ctx (state_of fresh_orb m (ec_instrument ctx)) in (r, m(ec_instrument ctx \<mapsto> s)))"

definition session_orb :: "number_format \<Rightarrow> orb_params \<Rightarrow> (string \<rightharpoonup> orb_state) entry_strategy" where
  "session_orb fmt p =
     \<lparr>es_id = ''orb_'' @ op_session p @ ''_'' @ fmt ''d'' (of_int (op_range_bars p)) @ ''b'' @
        (if op_buffer_frac p \<noteq> 0 then ''_buf'' @ fmt ''g'' (op_buffer_frac p) else []) @
        (case orb_ema p of None \<Rightarrow> [] | Some n \<Rightarrow> ''_ema'' @ fmt ''d'' (of_nat n)),
      es_timeframe = op_timeframe p, es_instruments = op_instruments p,
      es_min_history = nat (max (op_range_bars p + 1) ((case op_trend_ema p of None \<Rightarrow> 0 | Some n \<Rightarrow> int n) + 1)),
      es_state = Map.empty, es_entries = orb_entries p\<rparr>"

subsection \<open>RSI-2 reversion\<close>

record rsi2_params =
  r2_rsi_period :: nat
  r2_oversold :: pyfloat
  r2_overbought :: pyfloat
  r2_trend_ma :: nat
  r2_exit_ma :: nat
  r2_atr_period :: nat
  r2_sl_atr_mult :: pyfloat
  r2_cooldown_bars :: int
  r2_allow_long :: bool
  r2_allow_short :: bool
  r2_instruments :: "string list"
  r2_timeframe :: timeframe

definition rsi2_defaults :: rsi2_params where
  "rsi2_defaults = \<lparr>r2_rsi_period = 2, r2_oversold = 10, r2_overbought = 90, r2_trend_ma = 200, r2_exit_ma = 5,
     r2_atr_period = 14, r2_sl_atr_mult = 3/2, r2_cooldown_bars = 3, r2_allow_long = True, r2_allow_short = True,
     r2_instruments = [], r2_timeframe = M5\<rparr>"

definition rsi2_min_history :: "rsi2_params \<Rightarrow> nat" where
  "rsi2_min_history p =
     max (max (r2_trend_ma p + 1) (r2_rsi_period p + 2)) (max (r2_atr_period p + 5) (r2_exit_ma p + 1))"

definition rsi2_intents ::
  "rsi2_params \<Rightarrow> entry_context \<Rightarrow> pyfloat \<Rightarrow> pyfloat \<Rightarrow> pyfloat \<Rightarrow> pyfloat \<Rightarrow> entry_intent list" where
  "rsi2_intents p ctx trend r mean atr_val =
     (let close = close_of ctx; stop_dist = r2_sl_atr_mult p * atr_val in
      if r2_allow_long p \<and> close > trend \<and> r < r2_oversold p
      then [intent_at ctx LONG (close - stop_dist) (Some mean) ''RSI2 long: uptrend'']
      else if r2_allow_short p \<and> close < trend \<and> r > r2_overbought p
      then [intent_at ctx SHORT (close + stop_dist) (Some mean) ''RSI2 short: downtrend'']
      else [])"

definition rsi2_trigger :: "rsi2_params \<Rightarrow> entry_context \<Rightarrow> entry_intent list result" where
  "rsi2_trigger p ctx =
     (if length (ec_history ctx) < rsi2_min_history p then Inr []
      else
        then_do (sma (closes_of ctx) (r2_trend_ma p)) (\<lambda>trend.
        then_do (rsi (closes_of ctx) (r2_rsi_period p)) (\<lambda>r.
        then_do (sma (closes_of ctx) (r2_exit_ma p)) (\<lambda>mean.
        then_do (atr (ec_history ctx) (r2_atr_period p)) (\<lambda>atr_val.
          case (trend, r, mean, atr_val) of
            (Some t, Some r, Some mu, Some a) \<Rightarrow> Inr (if a \<le> 0 then [] else rsi2_intents p ctx t r mu a)
          | _ \<Rightarrow> Inr [])))))"

definition rsi2_entries ::
  "zones \<Rightarrow> rsi2_params \<Rightarrow> entry_context \<Rightarrow> cool_map \<Rightarrow> entry_intent list result \<times> cool_map" where
  "rsi2_entries tz p = with_cooldown (r2_cooldown_bars p) (rsi2_trigger p) tz"

definition rsi2_reversion :: "number_format \<Rightarrow> zones \<Rightarrow> rsi2_params \<Rightarrow> cool_map entry_strategy" where
  "rsi2_reversion fmt tz p =
     \<lparr>es_id = ''rsi2_'' @ fmt ''d'' (of_nat (r2_rsi_period p)) @ ''_os'' @ fmt ''g'' (r2_oversold p) @ ''_ma'' @
        fmt ''d'' (of_nat (r2_trend_ma p)),
      es_timeframe = r2_timeframe p, es_instruments = r2_instruments p, es_min_history = rsi2_min_history p,
      es_state = Map.empty, es_entries = rsi2_entries tz p\<rparr>"

subsection \<open>Liquidity sweep\<close>

text \<open>The session VWAP of the mean-reversion and the sweep rule, over the bars of the day.\<close>

definition session_vwap :: "candle list \<Rightarrow> pyfloat option" where
  "session_vwap cs =
     (let cum_tpv = (\<Sum>c\<leftarrow>cs. (c_high c + c_low c + c_close c) / 3 * of_int (c_volume c));
          cum_vol = (\<Sum>c\<leftarrow>cs. c_volume c)
      in if cs = [] \<or> cum_vol = 0 then None else Some (cum_tpv / of_int cum_vol))"

definition today_candles :: "zones \<Rightarrow> entry_context \<Rightarrow> candle list" where
  "today_candles tz ctx =
     rev (takeWhile (\<lambda>c. trading_day tz (c_ms c) = trading_day tz (c_ms (ec_candle ctx))) (rev (ec_history ctx)))"

record sweep_params =
  sp_lookback :: nat
  sp_ema_len :: nat
  sp_sl_buffer_atr :: pyfloat
  sp_atr_period :: nat
  sp_require_ema :: bool
  sp_require_vwap :: bool
  sp_cooldown_bars :: int
  sp_allow_long :: bool
  sp_allow_short :: bool
  sp_instruments :: "string list"
  sp_timeframe :: timeframe

definition sweep_min_history :: "sweep_params \<Rightarrow> nat" where
  "sweep_min_history p = max (sp_lookback p + 1) (max (sp_ema_len p + 1) (sp_atr_period p + 5))"

text \<open>\<open>ema_val\<close> and \<open>vwap_val\<close> are \<open>None\<close> when their confirmation is off.\<close>

definition sweep_intents ::
  "sweep_params \<Rightarrow> entry_context \<Rightarrow> pyfloat \<Rightarrow> pyfloat \<Rightarrow> pyfloat \<Rightarrow> pyfloat option \<Rightarrow> pyfloat option \<Rightarrow>
   entry_intent list" where
  "sweep_intents p ctx swing_high swing_low buffer ema_val vwap_val =
     (let c = ec_candle ctx; close = close_of ctx;
          below = (\<lambda>v. case v of None \<Rightarrow> True | Some x \<Rightarrow> close < x);
          above = (\<lambda>v. case v of None \<Rightarrow> True | Some x \<Rightarrow> close > x)
      in if sp_allow_short p \<and> c_high c > swing_high \<and> close < swing_high
         then let stop = c_high c + buffer in
              if below ema_val \<and> below vwap_val \<and> stop > close
              then [intent_at ctx SHORT stop (Some swing_low) ''Sweep short'']
              else []
         else if sp_allow_long p \<and> c_low c < swing_low \<and> close > swing_low
         then let stop = c_low c - buffer in
              if above ema_val \<and> above vwap_val \<and> stop < close
              then [intent_at ctx LONG stop (Some swing_high) ''Sweep long'']
              else []
         else [])"

definition sweep_trigger :: "zones \<Rightarrow> sweep_params \<Rightarrow> entry_context \<Rightarrow> entry_intent list result" where
  "sweep_trigger tz p ctx =
     (let history = ec_history ctx; prior = butlast (take_last (sp_lookback p + 1) history) in
      if length history < sweep_min_history p then Inr []
      else if length prior < sp_lookback p then Inr []
      else
        then_do (py_max (List.map c_high prior)) (\<lambda>swing_high.
        then_do (py_min (List.map c_low prior)) (\<lambda>swing_low.
        then_do (atr history (sp_atr_period p)) (\<lambda>atr_val.
          case atr_val of
            None \<Rightarrow> Inr []
          | Some a \<Rightarrow>
              if a \<le> 0 then Inr []
              else
                then_do (if sp_require_ema p then ema (closes_of ctx) (sp_ema_len p) else Inr None) (\<lambda>ema_val.
                  if sp_require_ema p \<and> ema_val = None then Inr []
                  else
                    let vwap_val = (if sp_require_vwap p then session_vwap (today_candles tz ctx) else None)
                    in if sp_require_vwap p \<and> vwap_val = None then Inr []
                       else Inr (sweep_intents p ctx swing_high swing_low (sp_sl_buffer_atr p * a) ema_val vwap_val))))))"

definition sweep_entries ::
  "zones \<Rightarrow> sweep_params \<Rightarrow> entry_context \<Rightarrow> cool_map \<Rightarrow> entry_intent list result \<times> cool_map" where
  "sweep_entries tz p = with_cooldown (sp_cooldown_bars p) (sweep_trigger tz p) tz"

definition liquidity_sweep :: "number_format \<Rightarrow> zones \<Rightarrow> sweep_params \<Rightarrow> cool_map entry_strategy" where
  "liquidity_sweep fmt tz p =
     \<lparr>es_id = ''sweep_lb'' @ fmt ''d'' (of_nat (sp_lookback p)) @
        (if sp_require_ema p then ''_ema'' @ fmt ''d'' (of_nat (sp_ema_len p)) else ''_noema'') @
        (if sp_require_vwap p then [] else ''_novwap'') @
        (if sp_sl_buffer_atr p \<noteq> 1/10 then ''_buf'' @ fmt ''g'' (sp_sl_buffer_atr p) else []),
      es_timeframe = sp_timeframe p, es_instruments = sp_instruments p, es_min_history = sweep_min_history p,
      es_state = Map.empty, es_entries = sweep_entries tz p\<rparr>"

subsection \<open>Mean reversion\<close>

record mr_params =
  mr_bb_period :: nat
  mr_bb_std :: pyfloat
  mr_adx_threshold :: pyfloat
  mr_adx_period :: nat
  mr_atr_period :: nat
  mr_atr_stop_mult :: pyfloat
  mr_min_vwap_dev :: pyfloat
  mr_require_rejection :: bool
  mr_cooldown_bars :: int
  mr_session_vwap :: bool
  mr_instruments :: "string list"
  mr_timeframe :: timeframe

definition is_bullish_rejection :: "candle \<Rightarrow> bool" where
  "is_bullish_rejection c \<longleftrightarrow>
     (let body = \<bar>c_close c - c_open c\<bar>; lower_wick = min (c_close c) (c_open c) - c_low c
      in lower_wick > 2 * body \<and> c_close c > c_open c)"

definition is_bearish_rejection :: "candle \<Rightarrow> bool" where
  "is_bearish_rejection c \<longleftrightarrow>
     (let body = \<bar>c_close c - c_open c\<bar>; upper_wick = c_high c - max (c_close c) (c_open c)
      in upper_wick > 2 * body \<and> c_close c < c_open c)"

text \<open>\<open>vwap_val\<close> is \<open>None\<close> in the Bollinger-only mode and when the day has no volume.\<close>

definition mr_intents ::
  "mr_params \<Rightarrow> entry_context \<Rightarrow> pyfloat \<Rightarrow> pyfloat \<times> pyfloat \<times> pyfloat \<Rightarrow> pyfloat option \<Rightarrow> entry_intent list" where
  "mr_intents p ctx atr_val bb vwap_val =
     (case bb of (upper_bb, middle_bb, lower_bb) \<Rightarrow>
        let close = close_of ctx; c = ec_candle ctx;
            ref = (case vwap_val of Some v \<Rightarrow> v | None \<Rightarrow> middle_bb)
        in if close \<ge> upper_bb
           then if close - ref < mr_min_vwap_dev p * atr_val then []
                else if mr_require_rejection p \<and> \<not> is_bearish_rejection c then []
                else [intent_at ctx SHORT (c_high c + mr_atr_stop_mult p * atr_val) (Some ref) ''MR fade short'']
           else if close \<le> lower_bb
           then if ref - close < mr_min_vwap_dev p * atr_val then []
                else if mr_require_rejection p \<and> \<not> is_bullish_rejection c then []
                else [intent_at ctx LONG (c_low c - mr_atr_stop_mult p * atr_val) (Some ref) ''MR fade long'']
           else [])"

definition mr_trigger :: "zones \<Rightarrow> mr_params \<Rightarrow> entry_context \<Rightarrow> entry_intent list result" where
  "mr_trigger tz p ctx =
     then_do (adx (ec_history ctx) (mr_adx_period p)) (\<lambda>adx_val.
       case adx_val of
         None \<Rightarrow> Inr []
       | Some x \<Rightarrow>
           if x > mr_adx_threshold p then Inr []
           else
             then_do (atr (ec_history ctx) (mr_atr_period p)) (\<lambda>atr_val.
               case atr_val of
                 None \<Rightarrow> Inr []
               | Some a \<Rightarrow>
                   if a \<le> 0 then Inr []
                   else
                     then_do (bollinger_bands (ec_history ctx) (mr_bb_period p) (mr_bb_std p)) (\<lambda>bb.
                       case bb of
                         None \<Rightarrow> Inr []
                       | Some b \<Rightarrow> Inr (mr_intents p ctx a b
                           (if mr_session_vwap p then session_vwap (today_candles tz ctx) else None)))))"

definition mr_entries ::
  "zones \<Rightarrow> mr_params \<Rightarrow> entry_context \<Rightarrow> cool_map \<Rightarrow> entry_intent list result \<times> cool_map" where
  "mr_entries tz p = with_cooldown (mr_cooldown_bars p) (mr_trigger tz p) tz"

definition mean_reversion :: "number_format \<Rightarrow> zones \<Rightarrow> mr_params \<Rightarrow> cool_map entry_strategy" where
  "mean_reversion fmt tz p =
     \<lparr>es_id = ''mr_bb'' @ fmt ''d'' (of_nat (mr_bb_period p)) @ ''s'' @ fmt ''g'' (mr_bb_std p) @ ''_adx'' @
        fmt ''g'' (mr_adx_threshold p) @ (if mr_require_rejection p then [] else ''_norej'') @
        (if mr_atr_stop_mult p \<noteq> 1 then ''_sl'' @ fmt ''g'' (mr_atr_stop_mult p) else []) @
        (if mr_min_vwap_dev p \<noteq> 3/2 then ''_dev'' @ fmt ''g'' (mr_min_vwap_dev p) else []) @
        (if mr_session_vwap p then [] else ''_bbonly''),
      es_timeframe = mr_timeframe p, es_instruments = mr_instruments p,
      es_min_history = max (mr_bb_period p + 1) (max (2 * mr_adx_period p + 2) (mr_atr_period p + 5)),
      es_state = Map.empty, es_entries = mr_entries tz p\<rparr>"


subsection \<open>Squeeze breakout\<close>

record squeeze_params =
  sq_bb_period :: nat
  sq_bb_std :: pyfloat
  sq_kc_ema :: nat
  sq_kc_atr :: nat
  sq_kc_mult :: pyfloat
  sq_mom_len :: nat
  sq_atr_period :: nat
  sq_sl_atr_mult :: pyfloat
  sq_cooldown_bars :: int
  sq_allow_long :: bool
  sq_allow_short :: bool
  sq_instruments :: "string list"
  sq_timeframe :: timeframe

definition squeeze_min_history :: "squeeze_params \<Rightarrow> nat" where
  "squeeze_min_history p =
     max (max (sq_bb_period p) (sq_kc_ema p)) (max (sq_kc_atr p + 2) (max (sq_mom_len p) (sq_atr_period p + 5))) + 2"

definition squeeze_of :: "squeeze_params \<Rightarrow> candle list \<Rightarrow> bool option result" where
  "squeeze_of p candles = is_squeeze candles (sq_bb_period p) (sq_bb_std p) (sq_kc_ema p) (sq_kc_atr p) (sq_kc_mult p)"

definition squeeze_intents :: "squeeze_params \<Rightarrow> entry_context \<Rightarrow> pyfloat \<Rightarrow> pyfloat \<Rightarrow> entry_intent list" where
  "squeeze_intents p ctx atr_val baseline =
     (let close = close_of ctx; momentum = close - baseline; stop_dist = sq_sl_atr_mult p * atr_val in
      if momentum > 0 \<and> sq_allow_long p
      then [intent_at ctx LONG (close - stop_dist) None ''Squeeze fire long: BB expanded outside KC'']
      else if momentum < 0 \<and> sq_allow_short p
      then [intent_at ctx SHORT (close + stop_dist) None ''Squeeze fire short: BB expanded outside KC'']
      else [])"

definition squeeze_trigger :: "squeeze_params \<Rightarrow> entry_context \<Rightarrow> entry_intent list result" where
  "squeeze_trigger p ctx =
     (let history = ec_history ctx in
      if length history < squeeze_min_history p then Inr []
      else
        then_do (squeeze_of p history) (\<lambda>sq_now.
        then_do (squeeze_of p (butlast history)) (\<lambda>sq_prev.
          case (sq_now, sq_prev) of
            (Some now, Some prev) \<Rightarrow>
              if \<not> (prev \<and> \<not> now) then Inr []
              else
                then_do (atr history (sq_atr_period p)) (\<lambda>atr_val.
                  case atr_val of
                    None \<Rightarrow> Inr []
                  | Some a \<Rightarrow>
                      if a \<le> 0 then Inr []
                      else
                        let window = last_bars (sq_mom_len p) history in
                        then_do (py_max (List.map c_high window)) (\<lambda>hh.
                        then_do (py_min (List.map c_low window)) (\<lambda>ll.
                        then_do (sma (List.map c_close window) (length window)) (\<lambda>sma_c.
                          case sma_c of
                            None \<Rightarrow> Inr []
                          | Some s \<Rightarrow> Inr (squeeze_intents p ctx a (((hh + ll) / 2 + s) / 2))))))
          | _ \<Rightarrow> Inr [])))"

definition squeeze_entries ::
  "zones \<Rightarrow> squeeze_params \<Rightarrow> entry_context \<Rightarrow> cool_map \<Rightarrow> entry_intent list result \<times> cool_map" where
  "squeeze_entries tz p = with_cooldown (sq_cooldown_bars p) (squeeze_trigger p) tz"

definition squeeze_breakout :: "number_format \<Rightarrow> zones \<Rightarrow> squeeze_params \<Rightarrow> cool_map entry_strategy" where
  "squeeze_breakout fmt tz p =
     \<lparr>es_id = ''squeeze_bb'' @ fmt ''d'' (of_nat (sq_bb_period p)) @ ''_kc'' @ fmt ''g'' (sq_kc_mult p) @
        (if sq_sl_atr_mult p \<noteq> 3/2 then ''_sl'' @ fmt ''g'' (sq_sl_atr_mult p) else []),
      es_timeframe = sq_timeframe p, es_instruments = sq_instruments p, es_min_history = squeeze_min_history p,
      es_state = Map.empty, es_entries = squeeze_entries tz p\<rparr>"

subsection \<open>Trend pullback\<close>

record pullback_params =
  pb_ema_fast :: nat
  pb_ema_slow :: nat
  pb_adx_period :: nat
  pb_adx_min :: pyfloat
  pb_atr_period :: nat
  pb_sl_buffer_atr :: pyfloat
  pb_rsi_period :: nat
  pb_require_momentum :: bool
  pb_cooldown_bars :: int
  pb_allow_long :: bool
  pb_allow_short :: bool
  pb_instruments :: "string list"
  pb_timeframe :: timeframe

definition pullback_min_history :: "pullback_params \<Rightarrow> nat" where
  "pullback_min_history p =
     max (max (pb_ema_slow p + 1) (2 * pb_adx_period p + 2)) (max (pb_atr_period p + 5) (pb_rsi_period p + 1))"

text \<open>\<open>rsi_val\<close> is \<open>None\<close> when the momentum confirmation is off. The long branch falls through
  to the short one, whose trend excludes it.\<close>

definition pullback_intents ::
  "pullback_params \<Rightarrow> entry_context \<Rightarrow> pyfloat \<Rightarrow> pyfloat \<Rightarrow> pyfloat \<Rightarrow> pyfloat option \<Rightarrow> entry_intent list" where
  "pullback_intents p ctx ef es buffer rsi_val =
     (let c = ec_candle ctx; close = close_of ctx;
          uptrend = (ef > es \<and> close > es); downtrend = (ef < es \<and> close < es);
          long_ok = (c_low c \<le> ef \<and> (close > ef \<and> close > c_open c) \<and>
                     (case rsi_val of None \<Rightarrow> \<not> pb_require_momentum p | Some r \<Rightarrow> \<not> pb_require_momentum p \<or> r \<ge> 50));
          short_ok = (c_high c \<ge> ef \<and> (close < ef \<and> close < c_open c) \<and>
                     (case rsi_val of None \<Rightarrow> \<not> pb_require_momentum p | Some r \<Rightarrow> \<not> pb_require_momentum p \<or> r \<le> 50))
      in if pb_allow_long p \<and> uptrend \<and> long_ok \<and> c_low c - buffer < close
         then [intent_at ctx LONG (c_low c - buffer) None ''Trend pullback long: uptrend'']
         else if pb_allow_short p \<and> downtrend \<and> short_ok \<and> c_high c + buffer > close
         then [intent_at ctx SHORT (c_high c + buffer) None ''Trend pullback short: downtrend'']
         else [])"

definition pullback_trigger :: "pullback_params \<Rightarrow> entry_context \<Rightarrow> entry_intent list result" where
  "pullback_trigger p ctx =
     (let history = ec_history ctx; closes = closes_of ctx in
      if length history < pullback_min_history p then Inr []
      else
        then_do (ema closes (pb_ema_fast p)) (\<lambda>ef.
        then_do (ema closes (pb_ema_slow p)) (\<lambda>es.
          case (ef, es) of
            (Some f, Some s) \<Rightarrow>
              then_do (adx history (pb_adx_period p)) (\<lambda>adx_val.
                case adx_val of
                  None \<Rightarrow> Inr []
                | Some x \<Rightarrow>
                    if x < pb_adx_min p then Inr []
                    else
                      then_do (atr history (pb_atr_period p)) (\<lambda>atr_val.
                        case atr_val of
                          None \<Rightarrow> Inr []
                        | Some a \<Rightarrow>
                            if a \<le> 0 then Inr []
                            else
                              then_do (if pb_require_momentum p then rsi closes (pb_rsi_period p) else Inr None)
                                (\<lambda>rsi_val.
                                   if pb_require_momentum p \<and> rsi_val = None then Inr []
                                   else Inr (pullback_intents p ctx f s (pb_sl_buffer_atr p * a) rsi_val))))
          | _ \<Rightarrow> Inr [])))"

definition pullback_entries ::
  "zones \<Rightarrow> pullback_params \<Rightarrow> entry_context \<Rightarrow> cool_map \<Rightarrow> entry_intent list result \<times> cool_map" where
  "pullback_entries tz p = with_cooldown (pb_cooldown_bars p) (pullback_trigger p) tz"

definition trend_pullback :: "number_format \<Rightarrow> zones \<Rightarrow> pullback_params \<Rightarrow> cool_map entry_strategy" where
  "trend_pullback fmt tz p =
     \<lparr>es_id = ''pullback_ema'' @ fmt ''d'' (of_nat (pb_ema_fast p)) @ ''_'' @ fmt ''d'' (of_nat (pb_ema_slow p)) @
        ''_adx'' @ fmt ''g'' (pb_adx_min p) @ (if pb_require_momentum p then [] else ''_nomom'') @
        (if pb_sl_buffer_atr p \<noteq> 1/5 then ''_buf'' @ fmt ''g'' (pb_sl_buffer_atr p) else []),
      es_timeframe = pb_timeframe p, es_instruments = pb_instruments p, es_min_history = pullback_min_history p,
      es_state = Map.empty, es_entries = pullback_entries tz p\<rparr>"

subsection \<open>Days of a window\<close>

text \<open>
  The volatility breakout and the gap fade group their window into trading days, in the order
  the days appear: \<open>order\<close> and the dictionary \<open>days\<close> are one association list.
\<close>

definition tf_minutes :: "timeframe \<Rightarrow> int" where
  "tf_minutes tf = (case tf of M5 \<Rightarrow> 5 | M15 \<Rightarrow> 15 | M30 \<Rightarrow> 30 | H1 \<Rightarrow> 60 | _ \<Rightarrow> 5)"

definition two_and_a_half_days :: "timeframe \<Rightarrow> nat" where
  "two_and_a_half_days tf = nat (py_int (of_int (py_int (24 * 60 / of_int (tf_minutes tf))) * (5 / 2)))"

definition group_days ::
  "zones \<Rightarrow> (candle \<Rightarrow> 'v) \<Rightarrow> (candle \<Rightarrow> 'v \<Rightarrow> 'v) \<Rightarrow> candle list \<Rightarrow> (int \<times> 'v) list" where
  "group_days tz start add cs =
     fold (\<lambda>c days. let d = trading_day tz (c_ms c) in
        case map_of days d of
          None \<Rightarrow> days @ [(d, start c)]
        | Some e \<Rightarrow> AList.update d (add c e) days) cs []"

text \<open>The entry of a day and of the day before it in the window, when there is one.\<close>

definition day_and_previous :: "int \<Rightarrow> (int \<times> 'v) list \<Rightarrow> ('v \<times> 'v) option" where
  "day_and_previous today days =
     (case map_of days today of
        None \<Rightarrow> None
      | Some e \<Rightarrow>
          let idx = length (takeWhile (\<lambda>d. d \<noteq> today) (List.map fst days))
          in if idx = 0 then None else Some (e, snd (days ! (idx - 1))))"

subsection \<open>Volatility breakout\<close>

record vb_params =
  vb_k :: pyfloat
  vb_atr_period :: nat
  vb_require_vol_expansion :: bool
  vb_allow_long :: bool
  vb_allow_short :: bool
  vb_instruments :: "string list"
  vb_timeframe :: timeframe

record vb_day =
  vd_open :: pyfloat
  vd_high :: pyfloat
  vd_low :: pyfloat

definition vb_days :: "zones \<Rightarrow> candle list \<Rightarrow> (int \<times> vb_day) list" where
  "vb_days tz = group_days tz
     (\<lambda>c. \<lparr>vd_open = c_open c, vd_high = c_high c, vd_low = c_low c\<rparr>)
     (\<lambda>c e. e\<lparr>vd_high := (if c_high c > vd_high e then c_high c else vd_high e),
             vd_low := (if c_low c < vd_low e then c_low c else vd_low e)\<rparr>)"

definition vb_intents :: "vb_params \<Rightarrow> entry_context \<Rightarrow> pyfloat \<Rightarrow> pyfloat \<Rightarrow> entry_intent list" where
  "vb_intents p ctx today_open increment =
     (let close = close_of ctx in
      if vb_allow_long p \<and> close \<ge> today_open + increment
      then [intent_at ctx LONG (close - increment) None ''LW vol breakout long'']
      else if vb_allow_short p \<and> close \<le> today_open - increment
      then [intent_at ctx SHORT (close + increment) None ''LW vol breakout short'']
      else [])"

definition vb_trigger :: "zones \<Rightarrow> vb_params \<Rightarrow> entry_context \<Rightarrow> entry_intent list result" where
  "vb_trigger tz p ctx =
     (let history = ec_history ctx; today = trading_day tz (c_ms (ec_candle ctx)) in
      case day_and_previous today (vb_days tz history) of
        None \<Rightarrow> Inr []
      | Some (day, prev) \<Rightarrow>
          let prev_range = vd_high prev - vd_low prev in
          if prev_range \<le> 0 then Inr []
          else
            let ims = vb_intents p ctx (vd_open day) (vb_k p * prev_range) in
            if \<not> vb_require_vol_expansion p then Inr ims
            else
              then_do (atr history (vb_atr_period p)) (\<lambda>atr_short.
              then_do (atr history (vb_atr_period p * 4)) (\<lambda>atr_long.
                case (atr_short, atr_long) of
                  (Some s, Some l) \<Rightarrow> Inr (if s \<le> l then [] else ims)
                | _ \<Rightarrow> Inr [])))"

definition vb_entries ::
  "zones \<Rightarrow> vb_params \<Rightarrow> entry_context \<Rightarrow> (string \<rightharpoonup> day_state) \<Rightarrow> entry_intent list result \<times> (string \<rightharpoonup> day_state)" where
  "vb_entries tz p = once_a_day (vb_trigger tz p) tz"

definition volatility_breakout :: "number_format \<Rightarrow> zones \<Rightarrow> vb_params \<Rightarrow> (string \<rightharpoonup> day_state) entry_strategy" where
  "volatility_breakout fmt tz p =
     \<lparr>es_id = ''lwvb_k'' @ fmt ''g'' (vb_k p) @ (if vb_require_vol_expansion p then ''_volexp'' else []),
      es_timeframe = vb_timeframe p, es_instruments = vb_instruments p,
      es_min_history = max (two_and_a_half_days (vb_timeframe p)) (vb_atr_period p * 4 + 5),
      es_state = Map.empty, es_entries = vb_entries tz p\<rparr>"

subsection \<open>Opening gap fade\<close>

record gap_params =
  gp_min_gap_atr :: pyfloat
  gp_max_gap_atr :: pyfloat
  gp_atr_period :: nat
  gp_sl_atr_mult :: pyfloat
  gp_allow_long :: bool
  gp_allow_short :: bool
  gp_instruments :: "string list"
  gp_timeframe :: timeframe

record gap_day =
  gd_open :: pyfloat
  gd_open_ts :: pyfloat
  gd_close :: pyfloat

definition gap_days :: "zones \<Rightarrow> candle list \<Rightarrow> (int \<times> gap_day) list" where
  "gap_days tz = group_days tz
     (\<lambda>c. \<lparr>gd_open = c_open c, gd_open_ts = c_ms c, gd_close = c_close c\<rparr>) (\<lambda>c e. e\<lparr>gd_close := c_close c\<rparr>)"

definition gap_min_history :: "gap_params \<Rightarrow> nat" where
  "gap_min_history p = max (two_and_a_half_days (gp_timeframe p)) (gp_atr_period p + 5)"

definition gap_intents :: "gap_params \<Rightarrow> entry_context \<Rightarrow> pyfloat \<Rightarrow> pyfloat \<Rightarrow> pyfloat \<Rightarrow> entry_intent list" where
  "gap_intents p ctx gap prev_close stop_dist =
     (if gap > 0 \<and> gp_allow_short p
      then [intent_at ctx SHORT (close_of ctx + stop_dist) (Some prev_close) ''Gap fade short'']
      else if gap < 0 \<and> gp_allow_long p
      then [intent_at ctx LONG (close_of ctx - stop_dist) (Some prev_close) ''Gap fade long'']
      else [])"

text \<open>The code tests for an earlier day after the open-bar test; both return no entry.\<close>

definition gap_trigger :: "zones \<Rightarrow> gap_params \<Rightarrow> entry_context \<Rightarrow> entry_intent list result" where
  "gap_trigger tz p ctx =
     (let history = ec_history ctx; c = ec_candle ctx; today = trading_day tz (c_ms c) in
      if length history < gap_min_history p then Inr []
      else case day_and_previous today (gap_days tz history) of
             None \<Rightarrow> Inr []
           | Some (day, prev) \<Rightarrow>
               if c_ms c \<noteq> gd_open_ts day then Inr []
               else
                 then_do (atr history (gp_atr_period p)) (\<lambda>atr_val.
                   case atr_val of
                     None \<Rightarrow> Inr []
                   | Some a \<Rightarrow>
                       if a \<le> 0 then Inr []
                       else
                         let gap = gd_open day - gd_close prev; gap_atr = \<bar>gap\<bar> / a in
                         if gap_atr < gp_min_gap_atr p \<or> gap_atr > gp_max_gap_atr p then Inr []
                         else Inr (gap_intents p ctx gap (gd_close prev) (gp_sl_atr_mult p * a))))"

definition gap_entries ::
  "zones \<Rightarrow> gap_params \<Rightarrow> entry_context \<Rightarrow> (string \<rightharpoonup> day_state) \<Rightarrow> entry_intent list result \<times> (string \<rightharpoonup> day_state)" where
  "gap_entries tz p = once_a_day (gap_trigger tz p) tz"

definition gap_fade :: "number_format \<Rightarrow> zones \<Rightarrow> gap_params \<Rightarrow> (string \<rightharpoonup> day_state) entry_strategy" where
  "gap_fade fmt tz p =
     \<lparr>es_id = ''gapfade_g'' @ fmt ''g'' (gp_min_gap_atr p) @ ''-'' @ fmt ''g'' (gp_max_gap_atr p),
      es_timeframe = gp_timeframe p, es_instruments = gp_instruments p, es_min_history = gap_min_history p,
      es_state = Map.empty, es_entries = gap_entries tz p\<rparr>"


subsection \<open>What the rules promise\<close>

lemma intent_at_frame [simp]:
  "in_entry (intent_at ctx d stop target r) = close_of ctx" "in_stop (intent_at ctx d stop target r) = stop"
  "in_direction (intent_at ctx d stop target r) = d" "in_target (intent_at ctx d stop target r) = target"
  "in_instrument (intent_at ctx d stop target r) = ec_instrument ctx"
  "in_ms (intent_at ctx d stop target r) = c_ms (ec_candle ctx)"
  by (simp_all add: intent_at_def)

lemma sound_intent_at:
  "sound_intent (intent_at ctx d stop target r) \<longleftrightarrow> (if d = LONG then stop < close_of ctx else close_of ctx < stop)"
  by (cases d) (simp_all add: sound_intent_def)

definition one_sound :: "entry_intent list \<Rightarrow> bool" where
  "one_sound ims \<longleftrightarrow> length ims \<le> 1 \<and> list_all sound_intent ims"

lemma one_sound_simps [simp]: "one_sound []" "one_sound [im] = sound_intent im"
  by (simp_all add: one_sound_def)

definition sound_res :: "entry_intent list result \<Rightarrow> bool" where
  "sound_res r \<longleftrightarrow> (case r of Inl e \<Rightarrow> True | Inr ims \<Rightarrow> one_sound ims)"

lemma sound_res_simps [simp]: "sound_res (Inl e)" "sound_res (Inr ims) = one_sound ims"
  by (simp_all add: sound_res_def)

lemma sound_res_then_do: "(\<And>x. r = Inr x \<Longrightarrow> sound_res (f x)) \<Longrightarrow> sound_res (then_do r f)"
  by (cases r) simp_all

text \<open>
  The contract between a rule and the two machines around it: for the parameters it accepts, on a
  well-formed bar, it returns at most one intent, with its stop on the loss side. The machines keep
  the contract and add their own: silence during a cooldown, one entry per instrument and day.
\<close>

locale entry_rule =
  fixes good :: "'p \<Rightarrow> bool" and trig :: "'p \<Rightarrow> zones \<Rightarrow> entry_context \<Rightarrow> entry_intent list result"
  assumes trig_sound: "good p \<Longrightarrow> ohlc_ok (ec_candle ctx) \<Longrightarrow> sound_res (trig p tz ctx)"
begin

lemma cooled_sound:
  assumes "good p" and "ohlc_ok (ec_candle ctx)" and "with_cooldown n (trig p tz) tz ctx m = (Inr ims, m')"
  shows "one_sound ims"
  using assms trig_sound[OF assms(1,2), of tz] by (auto simp: with_cooldown_def Let_def split: if_splits sum.splits)

lemma daily_sound:
  assumes "good p" and "ohlc_ok (ec_candle ctx)" and "once_a_day (trig p tz) tz ctx m = (Inr ims, m')"
  shows "one_sound ims"
  using assms trig_sound[OF assms(1,2), of tz] by (auto simp: once_a_day_def Let_def split: if_splits sum.splits)

lemma cooled_entries_sound:
  assumes "good p" and "es_entries s = with_cooldown n (trig p tz) tz"
  shows "sound_entries s"
  unfolding sound_entries_def assms(2)
proof (intro allI impI)
  fix ctx :: entry_context and st :: cool_map
  assume "ohlc_ok (ec_candle ctx)"
  then show "case fst (with_cooldown n (trig p tz) tz ctx st) of Inl e \<Rightarrow> True | Inr ims \<Rightarrow> list_all sound_intent ims"
    using cooled_sound[OF assms(1), of ctx n tz st]
    by (cases "with_cooldown n (trig p tz) tz ctx st") (auto simp: one_sound_def split: sum.split)
qed

lemma daily_entries_sound:
  assumes "good p" and "es_entries s = once_a_day (trig p tz) tz"
  shows "sound_entries s"
  unfolding sound_entries_def assms(2)
proof (intro allI impI)
  fix ctx :: entry_context and st :: "string \<rightharpoonup> day_state"
  assume "ohlc_ok (ec_candle ctx)"
  then show "case fst (once_a_day (trig p tz) tz ctx st) of Inl e \<Rightarrow> True | Inr ims \<Rightarrow> list_all sound_intent ims"
    using daily_sound[OF assms(1), of ctx tz st]
    by (cases "once_a_day (trig p tz) tz ctx st") (auto simp: one_sound_def split: sum.split)
qed

end

lemma intents_sound:
  "0 < r2_sl_atr_mult p \<Longrightarrow> 0 < a \<Longrightarrow> one_sound (rsi2_intents p ctx t r mu a)"
  "one_sound (sweep_intents q ctx hi lo buf e v)"
  "0 < sq_sl_atr_mult s \<Longrightarrow> 0 < a \<Longrightarrow> one_sound (squeeze_intents s ctx a bl)"
  "one_sound (pullback_intents u ctx ef es buf rv)"
  "0 < inc \<Longrightarrow> one_sound (vb_intents w ctx o1 inc)"
  "0 < sd \<Longrightarrow> one_sound (gap_intents g ctx gap pc sd)"
  by (auto simp: rsi2_intents_def sweep_intents_def squeeze_intents_def pullback_intents_def vb_intents_def
      gap_intents_def sound_intent_at Let_def)

lemma mr_intents_sound:
  assumes "0 < mr_atr_stop_mult p" and "0 < a" and "ohlc_ok (ec_candle ctx)"
  shows "one_sound (mr_intents p ctx a bb v)"
proof -
  have "0 < mr_atr_stop_mult p * a" using assms by simp
  then have "c_low (ec_candle ctx) - mr_atr_stop_mult p * a < close_of ctx"
    "close_of ctx < c_high (ec_candle ctx) + mr_atr_stop_mult p * a"
    using assms(3) by (auto simp: close_of_def ohlc_ok_def)
  then show ?thesis by (cases bb) (simp add: mr_intents_def sound_intent_at Let_def)
qed

interpretation rsi2: entry_rule "\<lambda>p. 0 < r2_sl_atr_mult p" "\<lambda>p tz. rsi2_trigger p"
  by unfold_locales
    (auto simp: rsi2_trigger_def not_le intro!: sound_res_then_do intents_sound split: option.split)

interpretation sweep: entry_rule "\<lambda>p. True" "\<lambda>p tz. sweep_trigger tz p"
  by unfold_locales
    (auto simp: sweep_trigger_def Let_def intro!: sound_res_then_do intents_sound split: option.split)

interpretation mr: entry_rule "\<lambda>p. 0 < mr_atr_stop_mult p" "\<lambda>p tz. mr_trigger tz p"
  by unfold_locales
    (auto simp: mr_trigger_def not_le intro!: sound_res_then_do mr_intents_sound split: option.split)

interpretation squeeze: entry_rule "\<lambda>p. 0 < sq_sl_atr_mult p" "\<lambda>p tz. squeeze_trigger p"
  by unfold_locales
    (auto simp: squeeze_trigger_def Let_def not_le intro!: sound_res_then_do intents_sound split: option.split)

interpretation pullback: entry_rule "\<lambda>p. True" "\<lambda>p tz. pullback_trigger p"
  by unfold_locales
    (auto simp: pullback_trigger_def Let_def intro!: sound_res_then_do intents_sound split: option.split)

interpretation vb: entry_rule "\<lambda>p. 0 < vb_k p" "\<lambda>p tz. vb_trigger tz p"
  by unfold_locales
    (auto simp: vb_trigger_def Let_def not_le intro!: sound_res_then_do intents_sound split: option.split)

interpretation gap: entry_rule "\<lambda>p. 0 < gp_sl_atr_mult p" "\<lambda>p tz. gap_trigger tz p"
  by unfold_locales
    (auto simp: gap_trigger_def Let_def not_le intro!: sound_res_then_do intents_sound split: option.split)

lemma orb_breakout_sound:
  assumes "0 \<le> op_buffer_frac p" and "range_low s < range_high s"
  shows "one_sound (orb_breakout p ctx s al ash)"
proof -
  have "0 \<le> op_buffer_frac p * (range_high s - range_low s)" using assms by simp
  then have "range_high s + op_buffer_frac p * (range_high s - range_low s) < close_of ctx \<Longrightarrow> range_low s < close_of ctx"
    "close_of ctx < range_low s - op_buffer_frac p * (range_high s - range_low s) \<Longrightarrow> close_of ctx < range_high s"
    using assms(2) by linarith+
  then show ?thesis by (simp add: orb_breakout_def Let_def sound_intent_at)
qed

lemma orb_step_sound:
  assumes "0 \<le> op_buffer_frac p"
  shows "sound_res (fst (orb_step p ctx s))"
  using orb_breakout_sound[OF assms]
  by (auto simp: orb_step_def Let_def not_le then_do_def split: option.split sum.split prod.split)

lemma orb_entries_sound:
  assumes "0 \<le> op_buffer_frac p"
  shows "sound_entries (session_orb fmt p)"
proof -
  have "case fst (orb_entries p ctx m) of Inl e \<Rightarrow> True | Inr ims \<Rightarrow> list_all sound_intent ims" for ctx m
    using orb_step_sound[OF assms, of ctx "state_of fresh_orb m (ec_instrument ctx)"]
    by (auto simp: orb_entries_def one_sound_def sound_res_def split: prod.splits sum.splits)
  then show ?thesis by (simp add: sound_entries_def session_orb_def)
qed

text \<open>C38: Every research entry rule is safe to replay: with positive stop multiples and a
  non-negative breakout buffer, each of the eight strategies emits, on well-formed bars and from
  any state, only intents whose stop lies strictly on the loss side of the entry, which is what
  the bounds on replayed trades ask of a strategy.\<close>

theorem entry_rules_sound:
  assumes "0 \<le> op_buffer_frac orb" and "0 < r2_sl_atr_mult r2" and "0 < mr_atr_stop_mult mr"
    and "0 < sq_sl_atr_mult sq" and "0 < vb_k vb" and "0 < gp_sl_atr_mult gp"
  shows "sound_entries (session_orb fmt orb) \<and> sound_entries (rsi2_reversion fmt tz r2) \<and>
    sound_entries (liquidity_sweep fmt tz sp) \<and> sound_entries (mean_reversion fmt tz mr) \<and>
    sound_entries (squeeze_breakout fmt tz sq) \<and> sound_entries (trend_pullback fmt tz pb) \<and>
    sound_entries (volatility_breakout fmt tz vb) \<and> sound_entries (gap_fade fmt tz gp)"
proof (intro conjI)
  show "sound_entries (session_orb fmt orb)" by (rule orb_entries_sound[OF assms(1)])
  show "sound_entries (rsi2_reversion fmt tz r2)"
    using assms(2) by (rule rsi2.cooled_entries_sound) (simp add: rsi2_reversion_def rsi2_entries_def)
  show "sound_entries (liquidity_sweep fmt tz sp)"
    by (rule sweep.cooled_entries_sound[OF TrueI]) (simp add: liquidity_sweep_def sweep_entries_def)
  show "sound_entries (mean_reversion fmt tz mr)"
    using assms(3) by (rule mr.cooled_entries_sound) (simp add: mean_reversion_def mr_entries_def)
  show "sound_entries (squeeze_breakout fmt tz sq)"
    using assms(4) by (rule squeeze.cooled_entries_sound) (simp add: squeeze_breakout_def squeeze_entries_def)
  show "sound_entries (trend_pullback fmt tz pb)"
    by (rule pullback.cooled_entries_sound[OF TrueI]) (simp add: trend_pullback_def pullback_entries_def)
  show "sound_entries (volatility_breakout fmt tz vb)"
    using assms(5) by (rule vb.daily_entries_sound) (simp add: volatility_breakout_def vb_entries_def)
  show "sound_entries (gap_fade fmt tz gp)"
    using assms(6) by (rule gap.daily_entries_sound) (simp add: gap_fade_def gap_entries_def)
qed

definition orb_defaults :: "zones \<Rightarrow> orb_params" where
  "orb_defaults tz = \<lparr>op_session = ''london'', op_range_bars = 6, op_buffer_frac = 0, op_trend_ema = None,
     op_allow_long = True, op_allow_short = True, op_instruments = [], op_timeframe = M5,
     op_session_fn = default_session_fn tz\<rparr>"

definition sweep_defaults :: sweep_params where
  "sweep_defaults = \<lparr>sp_lookback = 20, sp_ema_len = 9, sp_sl_buffer_atr = 1/10, sp_atr_period = 14,
     sp_require_ema = True, sp_require_vwap = True, sp_cooldown_bars = 3, sp_allow_long = True, sp_allow_short = True,
     sp_instruments = [], sp_timeframe = M5\<rparr>"

definition mr_defaults :: mr_params where
  "mr_defaults = \<lparr>mr_bb_period = 20, mr_bb_std = 2, mr_adx_threshold = 25, mr_adx_period = 14, mr_atr_period = 14,
     mr_atr_stop_mult = 1, mr_min_vwap_dev = 3/2, mr_require_rejection = True, mr_cooldown_bars = 6,
     mr_session_vwap = True, mr_instruments = [], mr_timeframe = M5\<rparr>"

definition squeeze_defaults :: squeeze_params where
  "squeeze_defaults = \<lparr>sq_bb_period = 20, sq_bb_std = 2, sq_kc_ema = 20, sq_kc_atr = 10, sq_kc_mult = 3/2,
     sq_mom_len = 20, sq_atr_period = 14, sq_sl_atr_mult = 3/2, sq_cooldown_bars = 6, sq_allow_long = True,
     sq_allow_short = True, sq_instruments = [], sq_timeframe = M5\<rparr>"

definition pullback_defaults :: pullback_params where
  "pullback_defaults = \<lparr>pb_ema_fast = 20, pb_ema_slow = 50, pb_adx_period = 14, pb_adx_min = 20, pb_atr_period = 14,
     pb_sl_buffer_atr = 1/5, pb_rsi_period = 14, pb_require_momentum = True, pb_cooldown_bars = 4,
     pb_allow_long = True, pb_allow_short = True, pb_instruments = [], pb_timeframe = M5\<rparr>"

definition vb_defaults :: vb_params where
  "vb_defaults = \<lparr>vb_k = 1/2, vb_atr_period = 14, vb_require_vol_expansion = False, vb_allow_long = True,
     vb_allow_short = True, vb_instruments = [], vb_timeframe = M5\<rparr>"

definition gap_defaults :: gap_params where
  "gap_defaults = \<lparr>gp_min_gap_atr = 1/4, gp_max_gap_atr = 4, gp_atr_period = 14, gp_sl_atr_mult = 1,
     gp_allow_long = True, gp_allow_short = True, gp_instruments = [], gp_timeframe = M5\<rparr>"

theorem entry_rules_sound_witness:
  "sound_entries (session_orb (\<lambda>_ _. []) (orb_defaults utc_zones)) \<and>
   sound_entries (rsi2_reversion (\<lambda>_ _. []) utc_zones rsi2_defaults) \<and>
   sound_entries (mean_reversion (\<lambda>_ _. []) utc_zones mr_defaults) \<and>
   sound_entries (squeeze_breakout (\<lambda>_ _. []) utc_zones squeeze_defaults) \<and>
   sound_entries (volatility_breakout (\<lambda>_ _. []) utc_zones vb_defaults) \<and>
   sound_entries (gap_fade (\<lambda>_ _. []) utc_zones gap_defaults)"
  using entry_rules_sound[of "orb_defaults utc_zones" rsi2_defaults mr_defaults squeeze_defaults vb_defaults gap_defaults]
  by (simp add: orb_defaults_def rsi2_defaults_def mr_defaults_def squeeze_defaults_def vb_defaults_def
      gap_defaults_def)

subsection \<open>Pacing\<close>

text \<open>The intents of consecutive bars; a bar whose rule raises counts as none, as in the replay.\<close>

fun run_entries ::
  "(entry_context \<Rightarrow> 'st \<Rightarrow> entry_intent list result \<times> 'st) \<Rightarrow> entry_context list \<Rightarrow> 'st \<Rightarrow> entry_intent list list" where
  "run_entries f [] st = []"
| "run_entries f (ctx # ctxs) st =
     (let (r, st') = f ctx st in (case r of Inl e \<Rightarrow> [] | Inr ims \<Rightarrow> ims) # run_entries f ctxs st')"

definition same_day :: "zones \<Rightarrow> string \<Rightarrow> int \<Rightarrow> entry_context list \<Rightarrow> bool" where
  "same_day tz inst d ctxs \<longleftrightarrow>
     list_all (\<lambda>ctx. ec_instrument ctx = inst \<and> trading_day tz (c_ms (ec_candle ctx)) = d) ctxs"

text \<open>After an entry, a cooling rule is silent for its cooldown, until the day ends.\<close>

lemma cooldown_silent:
  assumes "same_day tz inst d ctxs" and "m inst = Some s" and "last_trading_day s = Some d"
    and "int k \<le> cooldown_remaining s"
  shows "take k (run_entries (with_cooldown n trig tz) ctxs m) = replicate (min k (length ctxs)) []"
  using assms
proof (induction ctxs arbitrary: m s k)
  case Nil
  then show ?case by simp
next
  case (Cons ctx ctxs)
  show ?case
  proof (cases k)
    case (Suc j)
    have day: "new_trading_day (trading_day tz (c_ms (ec_candle ctx))) (state_of fresh_cool m (ec_instrument ctx)) = s"
      using Cons.prems by (simp add: same_day_def state_of_def new_trading_day_def)
    have inst: "ec_instrument ctx = inst" using Cons.prems(1) by (simp add: same_day_def)
    let ?s = "s\<lparr>cooldown_remaining := cooldown_remaining s - 1\<rparr>"
    have step: "with_cooldown n trig tz ctx m = (Inr [], m(inst \<mapsto> ?s))"
      using Cons.prems(4) Suc day inst unfolding with_cooldown_def Let_def by simp
    have "take j (run_entries (with_cooldown n trig tz) ctxs (m(inst \<mapsto> ?s))) = replicate (min j (length ctxs)) []"
      using Cons.prems Suc by (intro Cons.IH[of _ ?s]) (auto simp: same_day_def)
    then show ?thesis using Suc by (simp add: step)
  qed simp
qed

text \<open>A daily rule enters an instrument at most once per trading day.\<close>

lemma once_a_day_silent:
  assumes "same_day tz inst d ctxs" and "m inst = Some s" and "entered_day s = Some d"
  shows "concat (run_entries (once_a_day trig tz) ctxs m) = []"
  using assms
proof (induction ctxs arbitrary: m)
  case (Cons ctx ctxs)
  have "once_a_day trig tz ctx m = (Inr [], m(inst \<mapsto> s))"
    using Cons.prems by (simp add: once_a_day_def Let_def same_day_def state_of_def)
  moreover have "concat (run_entries (once_a_day trig tz) ctxs (m(inst \<mapsto> s))) = []"
    using Cons.prems by (intro Cons.IH) (simp_all add: same_day_def)
  ultimately show ?case by simp
qed simp

context entry_rule
begin

lemma at_most_once_a_day:
  assumes "good p" and "same_day tz inst d ctxs" and "list_all (\<lambda>ctx. ohlc_ok (ec_candle ctx)) ctxs"
  shows "one_sound (concat (run_entries (once_a_day (trig p tz) tz) ctxs m))"
  using assms(2,3)
proof (induction ctxs arbitrary: m)
  case (Cons ctx ctxs)
  have inst: "ec_instrument ctx = inst" "trading_day tz (c_ms (ec_candle ctx)) = d" "same_day tz inst d ctxs"
    using Cons.prems(1) by (simp_all add: same_day_def)
  obtain r m' where ev: "once_a_day (trig p tz) tz ctx m = (r, m')" by fastforce
  show ?case
  proof (cases "\<exists>im ims. r = Inr (im # ims)")
    case True
    then have "\<exists>s. m' inst = Some s \<and> entered_day s = Some d"
      using ev inst by (auto simp: once_a_day_def Let_def split: if_splits sum.splits)
    then have "concat (run_entries (once_a_day (trig p tz) tz) ctxs m') = []"
      using once_a_day_silent[OF inst(3)] by blast
    moreover have "one_sound ims" if "r = Inr ims" for ims
      using daily_sound[OF assms(1), of ctx tz m ims m'] Cons.prems(2) ev that by simp
    ultimately show ?thesis using True by (auto simp: ev simp del: concat_eq_Nil_conv)
  next
    case False
    then have "(case r of Inl e \<Rightarrow> [] | Inr ims \<Rightarrow> ims) = []" by (cases r; cases "projr r") auto
    then show ?thesis using Cons.IH[OF inst(3), of m'] Cons.prems(2) by (simp add: ev)
  qed
qed simp

end


text \<open>The opening-range breakout enters at most once in a session.\<close>

definition session_on :: "orb_params \<Rightarrow> entry_context list \<Rightarrow> bool" where
  "session_on p ctxs \<longleftrightarrow> list_all (\<lambda>ctx. op_session p \<in> set (op_session_fn p (c_ms (ec_candle ctx)))) ctxs"

lemma orb_entered_silent:
  assumes "session_on p ctxs" and "in_session s" and "orb_entered s"
  shows "concat (run_entries (orb_step p) ctxs s) = []"
  using assms
proof (induction ctxs arbitrary: s)
  case (Cons ctx ctxs)
  have "fst (orb_step p ctx s) = Inr [] \<and> in_session (snd (orb_step p ctx s)) \<and> orb_entered (snd (orb_step p ctx s))"
    using Cons.prems by (simp add: orb_step_def session_on_def extend_range_def)
  then obtain s' where step: "orb_step p ctx s = (Inr [], s')" "in_session s'" "orb_entered s'"
    by (cases "orb_step p ctx s") simp
  then have "concat (run_entries (orb_step p) ctxs s') = []"
    using Cons.prems by (intro Cons.IH) (simp_all add: session_on_def)
  then show ?case using step by simp
qed simp

lemma orb_step_enters:
  assumes "op_session p \<in> set (op_session_fn p (c_ms (ec_candle ctx)))" and "orb_step p ctx s = (Inr ims, s')"
    and "ims \<noteq> []"
  shows "in_session s' \<and> orb_entered s'"
  using assms by (auto simp: orb_step_def Let_def split: if_splits sum.splits option.splits)

lemma orb_once_per_session:
  assumes "0 \<le> op_buffer_frac p" and "session_on p ctxs"
  shows "one_sound (concat (run_entries (orb_step p) ctxs s))"
  using assms(2)
proof (induction ctxs arbitrary: s)
  case (Cons ctx ctxs)
  obtain r s' where step: "orb_step p ctx s = (r, s')" by fastforce
  have on: "session_on p ctxs" using Cons.prems by (simp add: session_on_def)
  show ?case
  proof (cases "\<exists>ims. r = Inr ims \<and> ims \<noteq> []")
    case True
    then obtain ims where r: "r = Inr ims" "ims \<noteq> []" by blast
    then have "in_session s' \<and> orb_entered s'"
      using orb_step_enters[of p ctx s ims s'] Cons.prems step by (simp add: session_on_def)
    then have "concat (run_entries (orb_step p) ctxs s') = []" using orb_entered_silent[OF on] by blast
    moreover have "one_sound ims" using orb_step_sound[OF assms(1), of ctx s] step r by simp
    ultimately show ?thesis by (simp add: step r del: concat_eq_Nil_conv)
  next
    case False
    then have "(case r of Inl e \<Rightarrow> [] | Inr ims \<Rightarrow> ims) = []" by (cases r) auto
    then show ?thesis using Cons.IH[OF on, of s'] by (simp add: step)
  qed
qed simp


end
