(* ===== verification/Live_Strategies.thy ===== *)
theory Live_Strategies
  imports Backtest_Replay Research_Entries
begin

section \<open>The live CFD strategies\<close>

text \<open>
  \<open>app/cfd_strategy/strategies\<close>: the strategies registered with the paper runner. Each is a
  \<open>live_strategy\<close>: class attributes, a state of per-instrument dictionaries, and \<open>evaluate\<close>.
  All three build one candle-close signal with one target and turn a \<open>ValueError\<close> of the plan or
  signal constructors into no trade (\<open>caught\<close>). The two ports, RSI-2 and the session breakout,
  are compared with the research rules they were ported from in \<open>Port_Parity\<close>.
\<close>

definition caught :: "'a result \<Rightarrow> 'a list result" where
  "caught r = (case r of Inr x \<Rightarrow> Inr [x] | Inl (ValueError m) \<Rightarrow> Inr [] | Inl e \<Rightarrow> Inl e)"

text \<open>The signal of all three: \<open>build_rr_exit_plan\<close> with one target, then \<open>CFDSignal\<close> with its defaults.\<close>

definition one_target_signal ::
  "string \<Rightarrow> string \<Rightarrow> direction \<Rightarrow> pyfloat \<Rightarrow> pyfloat \<Rightarrow> pyfloat \<Rightarrow> string \<Rightarrow> exit_policy option \<Rightarrow> pyfloat \<Rightarrow>
   string \<Rightarrow> cfd_signal result" where
  "one_target_signal sid inst d entry stop rr model policy ms reason =
     then_do (build_rr_exit_plan d entry stop (Some [rr]) None model MIN_RR policy) (\<lambda>plan.
       mk_signal \<lparr>strategy_id = sid, variant_id = ''default'', instrument = inst, sig_direction = d,
         entry_mode = CANDLE_CLOSE, sig_entry_price = entry, sig_plan = plan, sig_ms = ms, expiry_candles = 1,
         sig_reason = reason\<rparr>)"

definition ctx_closes :: "strategy_context \<Rightarrow> pyfloat list" where
  "ctx_closes ctx = List.map c_close (ctx_history ctx)"

definition ctx_close :: "strategy_context \<Rightarrow> pyfloat" where
  "ctx_close ctx = c_close (ctx_candle ctx)"

subsection \<open>SMA crossover\<close>

record sma_params =
  sx_fast :: nat
  sx_slow :: nat
  sx_atr_period :: nat
  sx_atr_mult :: pyfloat
  sx_rr :: pyfloat

definition sma_defaults :: sma_params where
  "sma_defaults = \<lparr>sx_fast = 10, sx_slow = 30, sx_atr_period = 14, sx_atr_mult = 3/2, sx_rr = 2\<rparr>"

record sma_state =
  prev_fast :: "string \<rightharpoonup> pyfloat"
  prev_slow :: "string \<rightharpoonup> pyfloat"

definition sma_signal ::
  "number_format \<Rightarrow> sma_params \<Rightarrow> strategy_context \<Rightarrow> direction \<Rightarrow> pyfloat \<Rightarrow> pyfloat \<Rightarrow> string \<Rightarrow> cfd_signal list result" where
  "sma_signal fmt p ctx d entry stop reason =
     caught (one_target_signal ''sma_cross_demo'' (ctx_instrument ctx) d entry stop (sx_rr p)
       (''atr'' @ fmt '''' (sx_atr_mult p) @ ''_rr'' @ fmt '''' (sx_rr p)) None (c_ms (ctx_candle ctx)) reason)"

text \<open>The crossing of the averages, from the previous and the current readings.\<close>

definition sma_cross_of ::
  "number_format \<Rightarrow> sma_params \<Rightarrow> strategy_context \<Rightarrow> pyfloat \<Rightarrow> pyfloat \<Rightarrow> pyfloat \<Rightarrow> pyfloat option \<Rightarrow> pyfloat option \<Rightarrow>
   cfd_signal list result" where
  "sma_cross_of fmt p ctx f s a pf ps =
     (let close = ctx_close ctx in
      case (pf, ps) of
        (Some prev_f, Some prev_s) \<Rightarrow>
          if close \<le> 0 then Inr []
          else if prev_f \<le> prev_s \<and> f > s
          then sma_signal fmt p ctx LONG close (close - sx_atr_mult p * a) ''SMA fast crossed above slow''
          else if prev_f \<ge> prev_s \<and> f < s
          then sma_signal fmt p ctx SHORT close (close + sx_atr_mult p * a) ''SMA fast crossed below slow''
          else Inr []
      | _ \<Rightarrow> Inr [])"

definition sma_evaluate ::
  "number_format \<Rightarrow> sma_params \<Rightarrow> strategy_context \<Rightarrow> sma_state \<Rightarrow> cfd_signal list result \<times> sma_state" where
  "sma_evaluate fmt p ctx st =
     (if length (ctx_closes ctx) < sx_slow p + 1 then (Inr [], st)
      else case (sma (ctx_closes ctx) (sx_fast p), sma (ctx_closes ctx) (sx_slow p)) of
        (Inl e, _) \<Rightarrow> (Inl e, st)
      | (_, Inl e) \<Rightarrow> (Inl e, st)
      | (Inr (Some f), Inr (Some s)) \<Rightarrow>
          (case atr (ctx_history ctx) (sx_atr_period p) of
             Inl e \<Rightarrow> (Inl e, st)
           | Inr None \<Rightarrow> (Inr [], st)
           | Inr (Some a) \<Rightarrow>
               if a \<le> 0 then (Inr [], st)
               else let tok = ctx_instrument ctx in
                    (sma_cross_of fmt p ctx f s a (prev_fast st tok) (prev_slow st tok),
                     st\<lparr>prev_fast := (prev_fast st)(tok \<mapsto> f), prev_slow := (prev_slow st)(tok \<mapsto> s)\<rparr>))
      | _ \<Rightarrow> (Inr [], st))"

definition sma_cross :: "number_format \<Rightarrow> sma_params \<Rightarrow> sma_state live_strategy" where
  "sma_cross fmt p =
     \<lparr>ls_class = \<lparr>st_id = ''sma_cross_demo'', st_timeframe = M5, st_instruments = [],
        st_min_history = max (sx_slow p) (sx_atr_period p + 1) + 2, st_variants = [''default'']\<rparr>,
      ls_state = \<lparr>prev_fast = Map.empty, prev_slow = Map.empty\<rparr>, ls_evaluate = sma_evaluate fmt p\<rparr>"

subsection \<open>RSI-2 on USDJPY, Sydney session\<close>

record rsi2_live_state =
  rl_cooldown :: "string \<rightharpoonup> int"
  rl_last_day :: "string \<rightharpoonup> int"

definition RSI2_MIN_HISTORY :: nat where
  "RSI2_MIN_HISTORY = 200 + 30"

definition rsi2_live_day :: "zones \<Rightarrow> strategy_context \<Rightarrow> rsi2_live_state \<Rightarrow> rsi2_live_state" where
  "rsi2_live_day tz ctx st =
     (let inst = ctx_instrument ctx; today = trading_day tz (c_ms (ctx_candle ctx)) in
      if rl_last_day st inst \<noteq> Some today
      then st\<lparr>rl_last_day := (rl_last_day st)(inst \<mapsto> today), rl_cooldown := (rl_cooldown st)(inst \<mapsto> 0)\<rparr>
      else st)"

text \<open>The trigger: the direction and the ATR, when the gates and indicators allow an entry.\<close>

definition rsi2_live_trigger :: "zones \<Rightarrow> strategy_context \<Rightarrow> (direction \<times> pyfloat) option result" where
  "rsi2_live_trigger tz ctx =
     (if session_tag tz (c_ms (ctx_candle ctx)) \<noteq> ''sydney'' then Inr None
      else
        then_do (regime_of (ctx_history ctx)) (\<lambda>regime.
          if regime \<noteq> ''range'' then Inr None
          else
            then_do (sma (ctx_closes ctx) 200) (\<lambda>trend.
            then_do (rsi (ctx_closes ctx) 2) (\<lambda>r.
            then_do (atr (ctx_history ctx) 14) (\<lambda>atr_val.
              case (trend, r, atr_val) of
                (Some t, Some r, Some a) \<Rightarrow>
                  Inr (if a \<le> 0 then None
                       else if ctx_close ctx > t \<and> r < 10 then Some (LONG, a)
                       else if ctx_close ctx < t \<and> r > 90 then Some (SHORT, a)
                       else None)
              | _ \<Rightarrow> Inr None)))))"

definition rsi2_live_signal :: "strategy_context \<Rightarrow> direction \<Rightarrow> pyfloat \<Rightarrow> cfd_signal list result" where
  "rsi2_live_signal ctx d a =
     (let close = ctx_close ctx; stop = (if d = LONG then close - 3/2 * a else close + 3/2 * a) in
      caught
        (then_do (mk_exit_policy \<lparr>breakeven_at_r = None, breakeven_offset_r = 0, trail_r = None,
                    trail_distance = Some (2 * a), time_stop_bars = None\<rparr>) (\<lambda>policy.
           one_target_signal ''rsi2_usdjpy_sydney_5m'' (ctx_instrument ctx) d close stop 20 ''atr_trail2''
             (Some policy) (c_ms (ctx_candle ctx))
             (''RSI2 '' @ (if d = LONG then ''LONG'' else ''SHORT'') @ '' '' @ ctx_instrument ctx @ '' sydney/range''))))"

definition rsi2_live_evaluate ::
  "zones \<Rightarrow> strategy_context \<Rightarrow> rsi2_live_state \<Rightarrow> cfd_signal list result \<times> rsi2_live_state" where
  "rsi2_live_evaluate tz ctx st =
     (let inst = ctx_instrument ctx in
      if inst \<noteq> ''USDJPY'' then (Inr [], st)
      else if length (ctx_history ctx) < RSI2_MIN_HISTORY then (Inr [], st)
      else
        let st1 = rsi2_live_day tz ctx st; cd = (case rl_cooldown st1 inst of None \<Rightarrow> 0 | Some c \<Rightarrow> c) in
        if cd > 0 then (Inr [], st1\<lparr>rl_cooldown := (rl_cooldown st1)(inst \<mapsto> cd - 1)\<rparr>)
        else case rsi2_live_trigger tz ctx of
               Inl e \<Rightarrow> (Inl e, st1)
             | Inr None \<Rightarrow> (Inr [], st1)
             | Inr (Some (d, a)) \<Rightarrow>
                 (case rsi2_live_signal ctx d a of
                    Inl e \<Rightarrow> (Inl e, st1)
                  | Inr sigs \<Rightarrow>
                      (Inr sigs, if sigs = [] then st1
                                 else st1\<lparr>rl_cooldown := (rl_cooldown st1)(inst \<mapsto> 3)\<rparr>)))"

definition rsi2_live_day_reset :: "rsi2_live_state \<Rightarrow> rsi2_live_state" where
  "rsi2_live_day_reset st = st\<lparr>rl_cooldown := Map.empty, rl_last_day := Map.empty\<rparr>"

definition rsi2_usdjpy :: "zones \<Rightarrow> rsi2_live_state live_strategy" where
  "rsi2_usdjpy tz =
     \<lparr>ls_class = \<lparr>st_id = ''rsi2_usdjpy_sydney_5m'', st_timeframe = M5, st_instruments = [''USDJPY''],
        st_min_history = RSI2_MIN_HISTORY, st_variants = [''default'']\<rparr>,
      ls_state = \<lparr>rl_cooldown = Map.empty, rl_last_day = Map.empty\<rparr>, ls_evaluate = rsi2_live_evaluate tz\<rparr>"

subsection \<open>Session opening-range breakout on USDJPY\<close>

text \<open>The state of an instrument has the fields of the research rule's (\<open>orb_state\<close>).\<close>

record orb_live_params =
  ol_id :: string
  ol_session :: string
  ol_timeframe :: timeframe
  ol_range_bars :: int
  ol_adx_period :: nat
  ol_adx_threshold :: pyfloat
  ol_rr_target :: pyfloat

record orb_live_state =
  ol_states :: "string \<rightharpoonup> orb_state"
  ol_last_htf_ts :: "string \<rightharpoonup> int"

definition orb_htf_min :: "orb_live_params \<Rightarrow> int" where
  "orb_htf_min p = max (ol_range_bars p + 1) 51 + 6"

definition orb_min_history :: "orb_live_params \<Rightarrow> int" where
  "orb_min_history p =
     orb_htf_min p * (case ol_timeframe p of M5 \<Rightarrow> 1 | M15 \<Rightarrow> 3 | M30 \<Rightarrow> 6 | H1 \<Rightarrow> 12 | _ \<Rightarrow> 1) + 10"

definition reset_orb :: "orb_state \<Rightarrow> orb_state" where
  "reset_orb s = fresh_orb"

definition is_range_regime :: "candle list \<Rightarrow> nat \<Rightarrow> pyfloat \<Rightarrow> bool result" where
  "is_range_regime candles adx_period threshold =
     then_do (classify_regime candles adx_period 20 50 threshold) (\<lambda>r. Inr (r = ''range''))"

text \<open>One native bar: the breakout (direction and stop) it takes, and the state it leaves.\<close>

definition orb_live_step ::
  "zones \<Rightarrow> orb_live_params \<Rightarrow> candle list \<Rightarrow> orb_state \<Rightarrow> (direction \<times> pyfloat) option result \<times> orb_state" where
  "orb_live_step tz p bars s =
     (let c = last bars in
      if ol_session p \<notin> set (split_on CHR ''+'' (session_tag tz (c_ms c)))
      then (Inr None, if in_session s then reset_orb s else s)
      else if \<not> in_session s then (Inr None, open_range c s)
      else if orb_bars s < ol_range_bars p then (Inr None, extend_range (ol_range_bars p) c s)
      else if \<not> orb_complete s \<or> orb_entered s then (Inr None, s)
      else if range_high s - range_low s \<le> 0 then (Inr None, s)
      else case is_range_regime bars (ol_adx_period p) (ol_adx_threshold p) of
             Inl e \<Rightarrow> (Inl e, s)
           | Inr False \<Rightarrow> (Inr None, s)
           | Inr True \<Rightarrow>
               if c_close c > range_high s then (Inr (Some (LONG, range_low s)), s\<lparr>orb_entered := True\<rparr>)
               else if c_close c < range_low s then (Inr (Some (SHORT, range_high s)), s\<lparr>orb_entered := True\<rparr>)
               else (Inr None, s))"

definition orb_live_signal ::
  "number_format \<Rightarrow> orb_live_params \<Rightarrow> string \<Rightarrow> pyfloat \<Rightarrow> pyfloat \<Rightarrow> direction \<Rightarrow> pyfloat \<Rightarrow> cfd_signal list result" where
  "orb_live_signal fmt p inst ms close d stop =
     caught (one_target_signal (ol_id p) inst d close stop (ol_rr_target p) (''fixed_rr'' @ fmt ''g'' (ol_rr_target p)) None ms
       (''ORB '' @ ol_session p @ '' '' @ (if d = LONG then ''LONG'' else ''SHORT'') @ '' breakout''))"

text \<open>\<open>bars[-1]\<close> of no bars raises an \<open>IndexError\<close>.\<close>

definition orb_live_on_bars ::
  "number_format \<Rightarrow> zones \<Rightarrow> orb_live_params \<Rightarrow> string \<Rightarrow> candle list \<Rightarrow> pyfloat \<Rightarrow> orb_live_state \<Rightarrow>
   cfd_signal list result \<times> orb_live_state" where
  "orb_live_on_bars fmt tz p inst bars ms st =
     (if bars = [] then (Inl (OtherError ''IndexError''), st)
      else
        let (r, s) = orb_live_step tz p bars (state_of fresh_orb (ol_states st) inst);
            st' = st\<lparr>ol_states := (ol_states st)(inst \<mapsto> s)\<rparr>
        in case r of
             Inl e \<Rightarrow> (Inl e, st')
           | Inr None \<Rightarrow> (Inr [], st')
           | Inr (Some (d, stop)) \<Rightarrow> (orb_live_signal fmt p inst ms (c_close (last bars)) d stop, st'))"

definition orb_live_htf ::
  "number_format \<Rightarrow> zones \<Rightarrow> orb_live_params \<Rightarrow> strategy_context \<Rightarrow> orb_live_state \<Rightarrow>
   cfd_signal list result \<times> orb_live_state" where
  "orb_live_htf fmt tz p ctx st =
     (case aggregate_htf (ctx_history ctx) (ol_timeframe p) of
        Inl e \<Rightarrow> (Inl e, st)
      | Inr bars \<Rightarrow>
          if int (length bars) < orb_htf_min p then (Inr [], st)
          else
            let interval = INTERVAL_MS (ol_timeframe p); ms = c_ms (ctx_candle ctx); inst = ctx_instrument ctx;
                current_bucket = bucket_open ms interval;
                next_bucket = bucket_open (ms + of_int (INTERVAL_MS M5)) interval;
                last_ts = (case ol_last_htf_ts st inst of None \<Rightarrow> -1 | Some t \<Rightarrow> t)
            in if next_bucket = current_bucket then (Inr [], st)
               else if current_bucket \<le> last_ts then (Inr [], st)
               else orb_live_on_bars fmt tz p inst bars ms
                      (st\<lparr>ol_last_htf_ts := (ol_last_htf_ts st)(inst \<mapsto> current_bucket)\<rparr>))"

definition orb_live_evaluate ::
  "number_format \<Rightarrow> zones \<Rightarrow> orb_live_params \<Rightarrow> strategy_context \<Rightarrow> orb_live_state \<Rightarrow>
   cfd_signal list result \<times> orb_live_state" where
  "orb_live_evaluate fmt tz p ctx st =
     (if ol_timeframe p = M5
      then orb_live_on_bars fmt tz p (ctx_instrument ctx) (ctx_history ctx) (c_ms (ctx_candle ctx)) st
      else orb_live_htf fmt tz p ctx st)"

definition orb_live_day_reset :: "orb_live_state \<Rightarrow> orb_live_state" where
  "orb_live_day_reset st = st\<lparr>ol_states := Map.empty, ol_last_htf_ts := Map.empty\<rparr>"

definition live_session_orb :: "number_format \<Rightarrow> zones \<Rightarrow> orb_live_params \<Rightarrow> orb_live_state live_strategy" where
  "live_session_orb fmt tz p =
     \<lparr>ls_class = \<lparr>st_id = ol_id p, st_timeframe = ol_timeframe p, st_instruments = [''USDJPY''],
        st_min_history = nat (orb_min_history p), st_variants = [''default'']\<rparr>,
      ls_state = \<lparr>ol_states = Map.empty, ol_last_htf_ts = Map.empty\<rparr>, ls_evaluate = orb_live_evaluate fmt tz p\<rparr>"

definition orb_tokyo_5m :: orb_live_params where
  "orb_tokyo_5m = \<lparr>ol_id = ''orb_usdjpy_tokyo_5m'', ol_session = ''tokyo'', ol_timeframe = M5, ol_range_bars = 6,
     ol_adx_period = 14, ol_adx_threshold = 22, ol_rr_target = 2\<rparr>"

definition orb_london_15m :: orb_live_params where
  "orb_london_15m = \<lparr>ol_id = ''orb_usdjpy_london_15m'', ol_session = ''london'', ol_timeframe = M15, ol_range_bars = 6,
     ol_adx_period = 14, ol_adx_threshold = 22, ol_rr_target = 2\<rparr>"

subsection \<open>Every live signal is tradable\<close>

text \<open>
  What the runner relies on: at most one signal per evaluation, under the strategy's own id, entered
  at the close it saw, with a valid plan of at least the minimum reward for its risk.
\<close>

definition prudent_signal :: "string \<Rightarrow> strategy_context \<Rightarrow> cfd_signal \<Rightarrow> bool" where
  "prudent_signal sid ctx s \<longleftrightarrow> replay_signal s \<and> strategy_id s = sid \<and> instrument s = ctx_instrument ctx \<and>
     entry_mode s = CANDLE_CLOSE \<and> sig_ms s = c_ms (ctx_candle ctx) \<and> MIN_RR - RR_EPSILON \<le> max_rr (sig_plan s)"

definition prudent_signals :: "string \<Rightarrow> strategy_context \<Rightarrow> cfd_signal list \<Rightarrow> bool" where
  "prudent_signals sid ctx sigs \<longleftrightarrow> length sigs \<le> 1 \<and> list_all (prudent_signal sid ctx) sigs"

definition prudent_res :: "string \<Rightarrow> strategy_context \<Rightarrow> cfd_signal list result \<Rightarrow> bool" where
  "prudent_res sid ctx r \<longleftrightarrow> (case r of Inl e \<Rightarrow> True | Inr sigs \<Rightarrow> prudent_signals sid ctx sigs)"

definition prudent :: "'st live_strategy \<Rightarrow> bool" where
  "prudent s \<longleftrightarrow> (\<forall>ctx st. prudent_res (st_id (ls_class s)) ctx (fst (ls_evaluate s ctx st)))"

lemma prudent_res_simps [simp]:
  "prudent_res sid ctx (Inl e)" "prudent_res sid ctx (Inr [])"
  by (simp_all add: prudent_res_def prudent_signals_def)

lemma prudent_honest: "prudent s \<Longrightarrow> honest s"
  unfolding prudent_def honest_def prudent_res_def prudent_signals_def prudent_signal_def
  by (auto simp: list_all_iff split: sum.splits)

lemma build_rr_plan_fields:
  assumes "build_rr_exit_plan d entry stop (Some rrs) fracs em min_rr pol = Inr p"
  shows "valid_plan p \<and> plan_direction p = d \<and> plan_entry_price p = entry \<and> plan_stop_loss p = stop \<and>
    plan_min_rr p = min_rr \<and> plan_policy p = pol"
  using assms by (auto simp: build_rr_exit_plan_def Let_def mk_exit_plan_iff split: if_splits sum.splits)

lemma one_target_signal_prudent:
  assumes "one_target_signal sid inst d entry stop rr em pol ms reason = Inr s"
  shows "replay_signal s \<and> strategy_id s = sid \<and> instrument s = inst \<and> entry_mode s = CANDLE_CLOSE \<and> sig_ms s = ms \<and>
    sig_direction s = d \<and> sig_entry_price s = entry \<and> sig_stop_loss s = stop \<and> plan_policy (sig_plan s) = pol \<and>
    MIN_RR - RR_EPSILON \<le> max_rr (sig_plan s)"
proof -
  obtain p where p: "build_rr_exit_plan d entry stop (Some [rr]) None em MIN_RR pol = Inr p"
    "s = \<lparr>strategy_id = sid, variant_id = ''default'', instrument = inst, sig_direction = d,
         entry_mode = CANDLE_CLOSE, sig_entry_price = entry, sig_plan = p, sig_ms = ms, expiry_candles = 1,
         sig_reason = reason\<rparr>"
    using assms by (auto simp: one_target_signal_def then_do_Inr_iff mk_signal_def split: if_splits)
  note fields = build_rr_plan_fields[OF p(1)]
  then have "MIN_RR - RR_EPSILON \<le> max_rr p" by (simp add: valid_plan_def)
  then show ?thesis using fields by (simp add: p(2) replay_signal_def sig_stop_loss_def)
qed

lemma caught_Inr: "caught r = Inr xs \<Longrightarrow> xs = [] \<or> (\<exists>x. r = Inr x \<and> xs = [x])"
  by (auto simp: caught_def split: sum.splits py_exn.splits)

lemma prudent_caught:
  assumes "\<And>s. r = Inr s \<Longrightarrow> prudent_signal sid ctx s"
  shows "prudent_res sid ctx (caught r)"
  using assms caught_Inr[of r] by (auto simp: prudent_res_def prudent_signals_def split: sum.split)

lemma sma_signal_prudent: "prudent_res ''sma_cross_demo'' ctx (sma_signal fmt p ctx d entry stop reason)"
  unfolding sma_signal_def
  by (rule prudent_caught) (auto dest!: one_target_signal_prudent simp: prudent_signal_def)

lemma sma_cross_prudent: "prudent (sma_cross fmt p)"
  by (auto simp: prudent_def sma_cross_def sma_evaluate_def sma_cross_of_def Let_def sma_signal_prudent
      split: option.split sum.split)

lemma rsi2_signal_prudent: "prudent_res ''rsi2_usdjpy_sydney_5m'' ctx (rsi2_live_signal ctx d a)"
  unfolding rsi2_live_signal_def Let_def
  by (rule prudent_caught) (auto dest!: one_target_signal_prudent simp: prudent_signal_def then_do_Inr_iff)

lemma rsi2_signal_Inr:
  "rsi2_live_signal ctx d a = Inr sigs \<Longrightarrow> prudent_res ''rsi2_usdjpy_sydney_5m'' ctx (Inr sigs)"
  by (metis rsi2_signal_prudent)

lemma rsi2_usdjpy_prudent: "prudent (rsi2_usdjpy tz)"
  by (auto simp: prudent_def rsi2_usdjpy_def rsi2_live_evaluate_def Let_def intro: rsi2_signal_Inr
      split: option.split sum.split)

lemma orb_signal_prudent:
  "prudent_res (ol_id p) ctx (orb_live_signal fmt p (ctx_instrument ctx) (c_ms (ctx_candle ctx)) close d stop)"
  unfolding orb_live_signal_def
  by (rule prudent_caught) (auto dest!: one_target_signal_prudent simp: prudent_signal_def)

lemma orb_on_bars_prudent:
  "prudent_res (ol_id p) ctx
     (fst (orb_live_on_bars fmt tz p (ctx_instrument ctx) bars (c_ms (ctx_candle ctx)) st))"
  using orb_signal_prudent
  by (auto simp: orb_live_on_bars_def Let_def split: option.split sum.split prod.split)

lemma live_orb_prudent: "prudent (live_session_orb fmt tz p)"
  using orb_on_bars_prudent
  by (auto simp: prudent_def live_session_orb_def orb_live_evaluate_def orb_live_htf_def Let_def split: sum.split)



end
