(* ===== verification/Port_Parity.thy ===== *)
theory Port_Parity
  imports Live_Strategies
begin

section \<open>The live ports against the research rules\<close>

text \<open>
  The two live USDJPY strategies are ports of research slices: the trades a research rule takes
  on bars the regime classifier calls \<open>range\<close>. This theory runs both on the same bars. A window is
  the history at a bar, its last element the bar itself; a pick is the direction and stop of the
  entry taken there.
\<close>

subsection \<open>Session opening-range breakout\<close>

text \<open>The research rule a live breakout names: no buffer, no trend filter, both sides.\<close>

definition research_of :: "zones \<Rightarrow> orb_live_params \<Rightarrow> orb_params" where
  "research_of tz p =
     \<lparr>op_session = ol_session p, op_range_bars = ol_range_bars p, op_buffer_frac = 0, op_trend_ema = None,
      op_allow_long = True, op_allow_short = True, op_instruments = [''USDJPY''], op_timeframe = ol_timeframe p,
      op_session_fn = default_session_fn tz\<rparr>"

definition window_ctx :: "orb_live_params \<Rightarrow> candle list \<Rightarrow> entry_context" where
  "window_ctx p bars = \<lparr>ec_instrument = ''USDJPY'', ec_timeframe = ol_timeframe p, ec_candle = last bars, ec_history = bars\<rparr>"

definition live_pick :: "zones \<Rightarrow> orb_live_params \<Rightarrow> candle list \<Rightarrow> orb_state \<Rightarrow> (direction \<times> pyfloat) option \<times> orb_state" where
  "live_pick tz p bars s =
     (case orb_live_step tz p bars s of (r, s') \<Rightarrow> (case r of Inl e \<Rightarrow> None | Inr x \<Rightarrow> x, s'))"

definition research_pick :: "zones \<Rightarrow> orb_live_params \<Rightarrow> candle list \<Rightarrow> orb_state \<Rightarrow> (direction \<times> pyfloat) option \<times> orb_state" where
  "research_pick tz p bars s =
     (case orb_step (research_of tz p) (window_ctx p bars) s of
        (r, s') \<Rightarrow> (case r of Inr (im # ims) \<Rightarrow> Some (in_direction im, in_stop im) | _ \<Rightarrow> None, s'))"

fun picks :: "('w \<Rightarrow> 's \<Rightarrow> 'o option \<times> 's) \<Rightarrow> 'w list \<Rightarrow> 's \<Rightarrow> 'o option list" where
  "picks f [] s = []"
| "picks f (w # ws) s = (let (x, s') = f w s in x # picks f ws s')"

definition in_range_regime :: "orb_live_params \<Rightarrow> candle list \<Rightarrow> bool" where
  "in_range_regime p bars \<longleftrightarrow> is_range_regime bars (ol_adx_period p) (ol_adx_threshold p) = Inr True"

text \<open>
  The simulation: outside a session only the flag counts; inside one the ranges agree, and the
  research rule has entered whenever the live one has.
\<close>

definition orb_related :: "orb_state \<Rightarrow> orb_state \<Rightarrow> bool" where
  "orb_related l r \<longleftrightarrow> in_session l = in_session r \<and>
     (in_session l \<longrightarrow> range_high l = range_high r \<and> range_low l = range_low r \<and> orb_bars l = orb_bars r \<and>
        orb_complete l = orb_complete r \<and> (orb_entered l \<longrightarrow> orb_entered r))"

lemma research_pick_eq:
  "research_pick tz p bars s =
     (let c = last bars in
      if ol_session p \<notin> set (split_on CHR ''+'' (session_tag tz (c_ms c))) then (None, s\<lparr>in_session := False\<rparr>)
      else if \<not> in_session s then (None, open_range c s)
      else if orb_bars s < ol_range_bars p then (None, extend_range (ol_range_bars p) c s)
      else if \<not> orb_complete s \<or> orb_entered s then (None, s)
      else if range_high s - range_low s \<le> 0 then (None, s)
      else if c_close c > range_high s then (Some (LONG, range_low s), s\<lparr>orb_entered := True\<rparr>)
      else if c_close c < range_low s then (Some (SHORT, range_high s), s\<lparr>orb_entered := True\<rparr>)
      else (None, s))"
  by (simp add: research_pick_def orb_step_def research_of_def window_ctx_def default_session_fn_def orb_ema_def
      orb_breakout_def close_of_def Let_def)

lemma live_pick_eq:
  "live_pick tz p bars s =
     (let c = last bars in
      if ol_session p \<notin> set (split_on CHR ''+'' (session_tag tz (c_ms c)))
      then (None, if in_session s then reset_orb s else s)
      else if \<not> in_session s then (None, open_range c s)
      else if orb_bars s < ol_range_bars p then (None, extend_range (ol_range_bars p) c s)
      else if \<not> orb_complete s \<or> orb_entered s then (None, s)
      else if range_high s - range_low s \<le> 0 then (None, s)
      else if \<not> in_range_regime p bars then (None, s)
      else if c_close c > range_high s then (Some (LONG, range_low s), s\<lparr>orb_entered := True\<rparr>)
      else if c_close c < range_low s then (Some (SHORT, range_high s), s\<lparr>orb_entered := True\<rparr>)
      else (None, s))"
  by (auto simp: live_pick_def orb_live_step_def in_range_regime_def Let_def split: sum.split bool.split)

lemma orb_related_step:
  assumes "orb_related l r" and "live_pick tz p bars l = (x, l')" and "research_pick tz p bars r = (y, r')"
  shows "orb_related l' r'" and "y \<noteq> None \<Longrightarrow> in_range_regime p bars \<Longrightarrow> x = y"
    and "x \<noteq> None \<Longrightarrow> in_range_regime p bars \<and> (y = x \<or> in_session r \<and> orb_entered r)"
  using assms
  by (auto simp: orb_related_def live_pick_eq research_pick_eq Let_def open_range_def extend_range_def reset_orb_def
      fresh_orb_def split: if_splits)

lemma length_picks [simp]: "length (picks f ws s) = length ws"
  by (induction ws arbitrary: s) (auto simp: case_prod_beta Let_def)

lemma research_entered:
  assumes "research_pick tz p bars r = (y, r')" and "in_session r'" and "orb_entered r'"
  shows "y \<noteq> None \<or> in_session r \<and> orb_entered r"
  using assms by (auto simp: research_pick_eq Let_def open_range_def extend_range_def split: if_splits)

lemma orb_picks_related:
  assumes "orb_related l r" and "i < length ws"
  shows "(picks (research_pick tz p) ws r ! i \<noteq> None \<longrightarrow> in_range_regime p (ws ! i) \<longrightarrow>
      picks (live_pick tz p) ws l ! i = picks (research_pick tz p) ws r ! i) \<and>
    (picks (live_pick tz p) ws l ! i \<noteq> None \<longrightarrow> in_range_regime p (ws ! i) \<and>
      (picks (research_pick tz p) ws r ! i = picks (live_pick tz p) ws l ! i \<or>
       (\<exists>j<i. picks (research_pick tz p) ws r ! j \<noteq> None) \<or> in_session r \<and> orb_entered r))"
  using assms
proof (induction ws arbitrary: l r i)
  case (Cons w ws)
  obtain x l' y r' where step: "live_pick tz p w l = (x, l')" "research_pick tz p w r = (y, r')" by fastforce
  note rel = orb_related_step[OF Cons.prems(1) step]
  show ?case
  proof (cases i)
    case 0
    then show ?thesis using rel by (auto simp: step)
  next
    case (Suc k)
    let ?L = "picks (live_pick tz p) ws l'" and ?R = "picks (research_pick tz p) ws r'"
    have "k < length ws" using Cons.prems(2) Suc by simp
    note IH = Cons.IH[OF rel(1) this]
    have lists: "picks (live_pick tz p) (w # ws) l = x # ?L" "picks (research_pick tz p) (w # ws) r = y # ?R"
      by (simp_all add: step)
    have "(\<exists>j<Suc k. (y # ?R) ! j \<noteq> None) \<or> in_session r \<and> orb_entered r"
      if "(\<exists>j<k. ?R ! j \<noteq> None) \<or> in_session r' \<and> orb_entered r'"
      using that
    proof
      assume "\<exists>j<k. ?R ! j \<noteq> None"
      then obtain j where "j < k" "?R ! j \<noteq> None" by blast
      then have "Suc j < Suc k \<and> (y # ?R) ! Suc j \<noteq> None" by simp
      then show ?thesis by blast
    next
      assume "in_session r' \<and> orb_entered r'"
      then consider "y \<noteq> None" | "in_session r \<and> orb_entered r" using research_entered[OF step(2)] by blast
      then show ?thesis
      proof cases
        case 1
        then have "0 < Suc k \<and> (y # ?R) ! 0 \<noteq> None" by simp
        then show ?thesis by blast
      qed simp
    qed
    then show ?thesis using IH unfolding Suc lists nth_Cons_Suc by blast
  qed
qed simp

lemma orb_picks_equal:
  assumes "orb_related l r" and "in_session l \<longrightarrow> orb_entered l = orb_entered r" and "list_all (in_range_regime p) ws"
  shows "picks (live_pick tz p) ws l = picks (research_pick tz p) ws r"
  using assms
proof (induction ws arbitrary: l r)
  case (Cons w ws)
  obtain x l' y r' where step: "live_pick tz p w l = (x, l')" "research_pick tz p w r = (y, r')" by fastforce
  note rel = orb_related_step[OF Cons.prems(1) step]
  have "in_range_regime p w" using Cons.prems by simp
  then have "x = y \<and> (in_session l' \<longrightarrow> orb_entered l' = orb_entered r')"
    using Cons.prems(1,2) step
    by (auto simp: orb_related_def live_pick_eq research_pick_eq Let_def open_range_def extend_range_def reset_orb_def
        fresh_orb_def split: if_splits)
  then show ?case using Cons rel(1) by (simp add: step)
qed simp

text \<open>C40: On range bars the live breakout is the research rule it was ported from: run over the same
  bars from the start, it takes the same entry, with the same stop, wherever the research rule
  enters in the range regime; it enters only in that regime, and where the research rule does not
  enter too, that rule has already entered earlier. When every bar is a range bar the two take
  exactly the same entries. The converse fails: the live strategy does not count a breakout the
  regime filter rejected, so it may take a later one the research rule, having entered, does not.\<close>

theorem orb_port_refines:
  "(let live = picks (live_pick tz p) ws fresh_orb; research = picks (research_pick tz p) ws fresh_orb in
    list_all (\<lambda>i.
      (research ! i \<noteq> None \<and> in_range_regime p (ws ! i) \<longrightarrow> live ! i = research ! i) \<and>
      (live ! i \<noteq> None \<longrightarrow> in_range_regime p (ws ! i) \<and>
         (research ! i = live ! i \<or> list_ex (\<lambda>j. research ! j \<noteq> None) [0 ..< i]))) [0 ..< length ws] \<and>
    (list_all (in_range_regime p) ws \<longrightarrow> live = research))"
proof -
  have start: "orb_related fresh_orb fresh_orb" "\<not> in_session fresh_orb"
    by (simp_all add: orb_related_def fresh_orb_def)
  show ?thesis
    using orb_picks_related[OF start(1), of _ ws tz p] orb_picks_equal[OF start(1), of p ws tz] start(2)
    by (simp only: Let_def list_all_iff list_ex_iff set_upt atLeastLessThan_iff Ball_def Bex_def) blast
qed

subsection \<open>A breakout the research rule does not take\<close>

lemma flat_changes:
  "true_ranges (replicate (Suc n) c) = replicate n (true_range c c)"
  "pairwise f (replicate (Suc n) c) = replicate n (f c c)"
proof -
  show "true_ranges (replicate (Suc n) c) = replicate n (true_range c c)" by (induction n) auto
  have "butlast (replicate (Suc n) c) = replicate n c" by (induction n) auto
  then show "pairwise f (replicate (Suc n) c) = replicate n (f c c)" by (simp add: pairwise_def zip_replicate)
qed

lemma carried_fixed: "(\<And>x. x \<in> set xs \<Longrightarrow> f s x = s) \<Longrightarrow> carried f s xs = replicate (Suc (length xs)) s"
  by (induction xs) auto

lemma dx_list_flat: "s \<noteq> 0 \<Longrightarrow> dx_list (replicate n s) (replicate n 0) (replicate n 0) = replicate n 0"
  by (induction n) (auto simp: dx_of_def)

lemma wilder_zero: "foldl (wilder p) 0 (replicate n 0) = 0"
  by (induction n) (auto simp: wilder_def)

text \<open>A run of equal bars is a range.\<close>

lemma flat_is_range:
  assumes "c_low c < c_high c" and "c_low c \<le> c_close c" and "c_close c \<le> c_high c"
  shows "is_range_regime (replicate 60 c) 14 22 = Inr True"
proof -
  let ?t = "c_high c - c_low c"
  have tr: "true_range c c = ?t" using assms by (simp add: true_range_def)
  have sixty: "true_ranges (replicate 60 c) = replicate 59 ?t" "pairwise f (replicate 60 c) = replicate 59 (f c c)" for f
    using flat_changes(1)[of 59 c] flat_changes(2)[of f 59 c] by (simp_all add: tr del: replicate.simps replicate_Suc)
  have tr14: "wilder_smooth (replicate 59 ?t) 14 = replicate 46 (14 * ?t)"
    unfolding wilder_smooth_def by (subst carried_fixed) (simp_all add: sum_list_replicate field_simps)
  have dm14: "wilder_smooth (replicate 59 0) 14 = replicate 46 0"
    unfolding wilder_smooth_def by (subst carried_fixed) (simp_all add: sum_list_replicate)
  have "plus_dm c c = 0" "minus_dm c c = 0" by (simp_all add: plus_dm_def minus_dm_def)
  then have "adx (replicate 60 c) 14 = Inr (Some 0)"
    using assms(1)
    by (simp add: adx_def sixty tr14 dm14 dx_list_flat mean_of_def sum_list_replicate wilder_zero Let_def
        del: replicate.simps replicate_Suc)
  then show ?thesis
    by (simp add: is_range_regime_def classify_regime_def ema_def Let_def del: replicate.simps replicate_Suc)
qed

definition demo_monday :: "pyfloat \<Rightarrow> pyfloat" where
  "demo_monday minutes = 4 * day_ms + 10 * hour_ms + minutes * 60000"

definition demo_two_bars :: orb_live_params where
  "demo_two_bars = orb_tokyo_5m\<lparr>ol_range_bars := 2\<rparr>"

text \<open>Two bars make the range, a third breaks out on too little history, flat bars stay above it.\<close>

definition demo_windows :: "candle list list" where
  "demo_windows = [[demo_bar (demo_monday 0) 100 101 99 100], [demo_bar (demo_monday 5) 100 101 99 100],
     [demo_bar (demo_monday 10) 100 106 100 105], replicate 60 (demo_bar (demo_monday 15) 105 106 104 105)]"

lemma demo_monday_tag:
  assumes "0 \<le> m" and "m < 60"
  shows "''tokyo'' \<in> set (split_on CHR ''+'' (session_tag utc_zones (demo_monday m)))"
proof -
  have day: "wall_day (demo_monday m) = 4"
    unfolding wall_day_def demo_monday_def day_ms_def hour_ms_def using assms by (intro floor_unique) simp_all
  then have time: "wall_time (demo_monday m) = 10 * hour_ms + m * 60000"
    by (simp add: wall_time_def demo_monday_def)
  have monday: "weekday 4 = 0" and day4: "month_day 4 = (1, 5)" by code_simp+
  have "is_market_open utc_zones (demo_monday m)"
    by (simp add: is_market_open_def utc_zones_def day is_holiday_def monday day4 FX_HOLIDAYS_def)
  moreover have "py_lower ''tokyo'' = ''tokyo''" by code_simp
  then have "is_session_active utc_zones ''tokyo'' (demo_monday m)"
    using calculation assms
    by (simp add: is_session_active_def SESSIONS_def utc_zones_def time hour_ms_def)
  ultimately have "''tokyo'' \<in> set (active_sessions utc_zones (demo_monday m))"
    "session_tag utc_zones (demo_monday m) = join_with CHR ''+'' (active_sessions utc_zones (demo_monday m))"
    by (auto simp: active_sessions_def session_tag_def SESSIONS_def)
  moreover have "list_all (\<lambda>w. CHR ''+'' \<notin> set w) (active_sessions utc_zones (demo_monday m))"
    by (auto simp: active_sessions_def SESSIONS_def list_all_iff)
  ultimately show ?thesis
    using split_join[of "active_sessions utc_zones (demo_monday m)" "CHR ''+''"]
    by (metis empty_iff empty_set)
qed

lemma demo_windows_research:
  "picks (research_pick utc_zones demo_two_bars) demo_windows fresh_orb = [None, None, Some (LONG, 99), None]"
  by (simp add: demo_windows_def research_pick_eq demo_two_bars_def orb_tokyo_5m_def demo_monday_tag fresh_orb_def
      open_range_def extend_range_def demo_bar_def Let_def del: replicate.simps replicate_Suc)

lemma demo_windows_live:
  "picks (live_pick utc_zones demo_two_bars) demo_windows fresh_orb = [None, None, None, Some (LONG, 99)]"
proof -
  have "in_range_regime demo_two_bars (replicate 60 (demo_bar (demo_monday 15) 105 106 104 105))"
    using flat_is_range[of "demo_bar (demo_monday 15) 105 106 104 105"]
    by (simp add: in_range_regime_def demo_two_bars_def orb_tokyo_5m_def demo_bar_def)
  moreover have "\<not> in_range_regime demo_two_bars [c]" for c
    by (simp add: in_range_regime_def is_range_regime_def classify_regime_def)
  ultimately show ?thesis
    by (simp add: demo_windows_def live_pick_eq demo_two_bars_def orb_tokyo_5m_def demo_monday_tag fresh_orb_def
      open_range_def extend_range_def demo_bar_def Let_def del: replicate.simps replicate_Suc)
qed

text \<open>The witness: the live strategy takes on the fourth bar what the research rule took on the third.\<close>

theorem orb_port_refines_witness:
  "picks (live_pick utc_zones demo_two_bars) demo_windows fresh_orb \<noteq>
     picks (research_pick utc_zones demo_two_bars) demo_windows fresh_orb \<and>
   \<not> list_all (in_range_regime demo_two_bars) demo_windows"
  using orb_port_refines[of utc_zones demo_two_bars demo_windows]
  unfolding demo_windows_live demo_windows_research Let_def by blast

subsection \<open>RSI-2\<close>

definition research_ctx :: "strategy_context \<Rightarrow> entry_context" where
  "research_ctx ctx = \<lparr>ec_instrument = ctx_instrument ctx, ec_timeframe = ctx_timeframe ctx, ec_candle = ctx_candle ctx,
     ec_history = ctx_history ctx\<rparr>"

lemma rsi2_live_trigger_research:
  assumes "rsi2_live_trigger tz ctx = Inr (Some (d, a))" and "RSI2_MIN_HISTORY \<le> length (ctx_history ctx)"
  shows "\<exists>im. rsi2_trigger rsi2_defaults (research_ctx ctx) = Inr [im] \<and> in_direction im = d \<and>
    in_entry im = ctx_close ctx \<and> in_stop im = ctx_close ctx - sign d * (3/2 * a)"
proof -
  have "\<exists>mu. sma (ctx_closes ctx) 5 = Inr (Some mu)"
    using assms(2) by (simp add: sma_def ctx_closes_def RSI2_MIN_HISTORY_def)
  moreover have "closes_of (research_ctx ctx) = ctx_closes ctx" "close_of (research_ctx ctx) = ctx_close ctx"
    "ec_history (research_ctx ctx) = ctx_history ctx"
    by (simp_all add: closes_of_def close_of_def research_ctx_def ctx_closes_def ctx_close_def)
  moreover have "\<not> length (ctx_history ctx) < rsi2_min_history rsi2_defaults"
    using assms(2) by (simp add: rsi2_min_history_def rsi2_defaults_def RSI2_MIN_HISTORY_def)
  moreover obtain t r where "sma (ctx_closes ctx) 200 = Inr (Some t)" "rsi (ctx_closes ctx) 2 = Inr (Some r)"
    "atr (ctx_history ctx) 14 = Inr (Some a)" "\<not> a \<le> 0"
    "d = LONG \<and> t < ctx_close ctx \<and> r < 10 \<or> d = SHORT \<and> ctx_close ctx < t \<and> 90 < r"
  proof -
    obtain t' r' a' where i: "sma (ctx_closes ctx) 200 = Inr t'" "rsi (ctx_closes ctx) 2 = Inr r'"
      "atr (ctx_history ctx) 14 = Inr a'"
      and c: "(case (t', r', a') of (Some t, Some r, Some a) \<Rightarrow>
                  Inr (if a \<le> 0 then None
                       else if ctx_close ctx > t \<and> r < 10 then Some (LONG, a)
                       else if ctx_close ctx < t \<and> r > 90 then Some (SHORT, a)
                       else None)
              | _ \<Rightarrow> Inr None) = (Inr (Some (d, a)) :: (direction \<times> pyfloat) option result)"
      using assms(1) by (auto simp: rsi2_live_trigger_def then_do_Inr_iff split: if_splits)
    show ?thesis using c i by (cases t'; cases r'; cases a') (auto intro!: that split: if_splits)
  qed
  ultimately show ?thesis
    by (auto simp: rsi2_trigger_def rsi2_intents_def rsi2_defaults_def)
qed

text \<open>
  The live signal is the research rule's: when it trades, the rule with its defaults, were it not
  cooling down, would enter on the same bar with the same direction and stop, in the Sydney session
  and the range regime. The cooldowns themselves differ: the research rule's starts at every entry,
  in whatever session and regime, the live one only at its own.
\<close>

lemma rsi2_port_trigger:
  assumes ev: "rsi2_live_evaluate tz ctx st = (Inr sigs, st')" and sig: "sig \<in> set sigs"
  shows "\<exists>im. rsi2_trigger rsi2_defaults (research_ctx ctx) = Inr [im] \<and> in_direction im = sig_direction sig \<and>
    in_entry im = sig_entry_price sig \<and> in_stop im = sig_stop_loss sig \<and>
    session_tag tz (c_ms (ctx_candle ctx)) = ''sydney'' \<and> regime_of (ctx_history ctx) = Inr ''range''"
proof -
  obtain d a where t: "rsi2_live_trigger tz ctx = Inr (Some (d, a))" "rsi2_live_signal ctx d a = Inr sigs"
    and len: "RSI2_MIN_HISTORY \<le> length (ctx_history ctx)"
    using ev sig by (auto simp: rsi2_live_evaluate_def Let_def split: if_splits sum.splits option.splits)
  have "session_tag tz (c_ms (ctx_candle ctx)) = ''sydney'' \<and> regime_of (ctx_history ctx) = Inr ''range''"
    using t(1) by (auto simp: rsi2_live_trigger_def then_do_Inr_iff split: if_splits)
  moreover have "sig_direction sig = d \<and> sig_entry_price sig = ctx_close ctx \<and>
      sig_stop_loss sig = ctx_close ctx - sign d * (3/2 * a)"
    using caught_Inr[OF t(2)[unfolded rsi2_live_signal_def Let_def]] sig
    by (cases d) (auto simp: then_do_Inr_iff dest!: one_target_signal_prudent)
  ultimately show ?thesis using rsi2_live_trigger_research[OF t(1) len] by auto
qed


end
