(* ===== verification/Strategy_Registry.thy ===== *)
theory Strategy_Registry
  imports Strategy_Base
begin

section \<open>The strategy registry\<close>

text \<open>
  \<open>app/cfd_strategy/registry.py\<close>: strategies by id. The dictionary is iterated over in insertion
  order, so it is an association list; a strategy is its class attributes.
\<close>

type_synonym strategy_registry = "(string \<times> cfd_strategy) list"

definition new_registry :: strategy_registry where
  "new_registry = []"

definition register :: "cfd_strategy \<Rightarrow> strategy_registry \<Rightarrow> strategy_registry outcome" where
  "register s reg =
     (if map_of reg (st_id s) \<noteq> None then raises (ValueError ''already registered'') reg
      else returns (reg @ [(st_id s, s)]))"

definition get_strategy :: "strategy_registry \<Rightarrow> string \<Rightarrow> cfd_strategy result" where
  "get_strategy reg sid =
     (case map_of reg sid of None \<Rightarrow> Inl (KeyError ''No strategy registered'') | Some s \<Rightarrow> Inr s)"

definition all_strategies :: "strategy_registry \<Rightarrow> cfd_strategy list" where
  "all_strategies reg = List.map snd reg"

definition strategy_ids :: "strategy_registry \<Rightarrow> string list" where
  "strategy_ids reg = List.map fst reg"

definition for_instrument :: "strategy_registry \<Rightarrow> string \<Rightarrow> cfd_strategy list" where
  "for_instrument reg inst = filter (\<lambda>s. applies_to s inst) (all_strategies reg)"

definition clear_registry :: "strategy_registry \<Rightarrow> strategy_registry" where
  "clear_registry reg = []"

definition registry_len :: "strategy_registry \<Rightarrow> nat" where
  "registry_len reg = length reg"

definition register_instances :: "cfd_strategy list \<Rightarrow> strategy_registry \<Rightarrow> strategy_registry outcome" where
  "register_instances ss reg = for_each register ss reg"

text \<open>Every strategy is filed under its own id, once.\<close>

definition registry_ok :: "strategy_registry \<Rightarrow> bool" where
  "registry_ok reg \<longleftrightarrow> distinct (List.map fst reg) \<and> list_all (\<lambda>(k, s). k = st_id s) reg"

lemma register_ok: "registry_ok reg \<Longrightarrow> registry_ok (fst (register s reg))"
  by (auto simp: registry_ok_def register_def map_of_eq_None_iff)

lemma register_instances_ok: "registry_ok reg \<Longrightarrow> registry_ok (fst (register_instances ss reg))"
  unfolding register_instances_def by (rule for_each_invariant[where I = registry_ok]) (auto intro: register_ok)

lemma get_after_register:
  "snd (register s reg) = None \<Longrightarrow>
   get_strategy (fst (register s reg)) sid = (if sid = st_id s then Inr s else get_strategy reg sid)"
  by (auto simp: register_def get_strategy_def map_add_def split: if_splits option.splits)

lemma register_duplicate:
  "map_of reg (st_id s) \<noteq> None \<Longrightarrow> register s reg = (reg, Some (ValueError ''already registered''))"
  by (simp add: register_def raises_def)

text \<open>A batch stops at its first id already taken; before it, every strategy is registered in order.\<close>

lemma register_instances_appends:
  assumes "snd (register_instances ss reg) = None"
  shows "fst (register_instances ss reg) = reg @ List.map (\<lambda>s. (st_id s, s)) ss"
  using assms
proof (induction ss arbitrary: reg)
  case Nil
  then show ?case by (simp add: register_instances_def)
next
  case (Cons s ss)
  show ?case
  proof (cases "map_of reg (st_id s)")
    case None
    then have "register s reg = returns (reg @ [(st_id s, s)])" by (simp add: register_def)
    then show ?thesis using Cons by (simp add: register_instances_def)
  next
    case (Some t)
    then show ?thesis using Cons.prems by (simp add: register_instances_def register_def)
  qed
qed

end
