(* ===== verification/Streams.thy ===== *)
theory Streams
  imports Text
begin

section \<open>Trading streams\<close>

text \<open>
  \<open>app/cfd_execution/streams.py\<close>: which accounts run, from a JSON file or the environment. The
  environment is a function from names to optional texts, \<open>float(text)\<close> a function that is
  \<open>None\<close> where Python raises, and the file system a function from paths to parsed documents. An
  item of a document has its fields as the conversions (\<open>str\<close>, \<open>bool\<close>, \<open>float\<close>, \<open>int\<close>) leave
  them, \<open>None\<close> where the key is missing.
\<close>

definition VALID_KINDS :: "string list" where
  "VALID_KINDS = [''paper'', ''demo'', ''live'']"

record stream_config =
  stream_id :: string
  stream_kind :: string
  stream_enabled :: bool
  stream_balance :: pyfloat
  stream_risk_pct :: pyfloat
  stream_cost_model :: string
  ctrader_account_id :: int
  telegram_bot_token :: string
  telegram_chat_id :: string

definition mk_stream :: "stream_config \<Rightarrow> stream_config result" where
  "mk_stream s =
     (let k = py_strip (py_lower (stream_kind s)) in
      if k \<notin> set VALID_KINDS then Inl (ValueError ''kind'') else Inr (s\<lparr>stream_kind := k\<rparr>))"

definition is_paper :: "stream_config \<Rightarrow> bool" where
  "is_paper s \<longleftrightarrow> stream_kind s = ''paper''"

definition places_orders :: "stream_config \<Rightarrow> bool" where
  "places_orders s \<longleftrightarrow> stream_kind s = ''demo'' \<or> stream_kind s = ''live''"

definition has_own_channel :: "stream_config \<Rightarrow> bool" where
  "has_own_channel s \<longleftrightarrow> telegram_bot_token s \<noteq> [] \<and> telegram_chat_id s \<noteq> []"

record raw_stream =
  raw_id :: "string option"
  raw_kind :: "string option"
  raw_enabled :: "bool option"
  raw_balance :: "pyfloat option"
  raw_risk_pct :: "pyfloat option"
  raw_cost_model :: "string option"
  raw_ctrader_account_id :: "int option"
  raw_bot_token :: "string option"
  raw_chat_id :: "string option"

datatype json_document =
    JsonObject "raw_stream list option"
  | JsonList "raw_stream list"

record stream_world =
  sw_env :: "string \<Rightarrow> string option"
  sw_float :: "string \<Rightarrow> pyfloat option"
  sw_file :: "string \<Rightarrow> json_document option"

definition getenv :: "stream_world \<Rightarrow> string \<Rightarrow> string \<Rightarrow> string" where
  "getenv w name dflt = py_strip (case sw_env w name of None \<Rightarrow> dflt | Some s \<Rightarrow> s)"

definition env_float :: "stream_world \<Rightarrow> string \<Rightarrow> pyfloat \<Rightarrow> pyfloat" where
  "env_float w name dflt =
     (let raw = py_strip (case sw_env w name of None \<Rightarrow> [] | Some s \<Rightarrow> s) in
      if raw = [] then dflt else case sw_float w raw of None \<Rightarrow> dflt | Some x \<Rightarrow> x)"

definition or_else :: "'a option \<Rightarrow> 'a \<Rightarrow> 'a" where
  "or_else x d = (case x of None \<Rightarrow> d | Some y \<Rightarrow> y)"

definition stream_of_item :: "raw_stream \<Rightarrow> stream_config result" where
  "stream_of_item it =
     (case raw_id it of
        None \<Rightarrow> Inl (KeyError ''id'')
      | Some i \<Rightarrow>
         (case raw_kind it of
            None \<Rightarrow> Inl (KeyError ''kind'')
          | Some k \<Rightarrow> mk_stream
              \<lparr>stream_id = i, stream_kind = k, stream_enabled = or_else (raw_enabled it) True,
               stream_balance = or_else (raw_balance it) 100000, stream_risk_pct = or_else (raw_risk_pct it) 1,
               stream_cost_model = or_else (raw_cost_model it) ''intraday'',
               ctrader_account_id = or_else (raw_ctrader_account_id it) 0,
               telegram_bot_token = or_else (raw_bot_token it) [], telegram_chat_id = or_else (raw_chat_id it) []\<rparr>))"

fun streams_of_items :: "raw_stream list \<Rightarrow> stream_config list result" where
  "streams_of_items [] = Inr []"
| "streams_of_items (it # its) =
     (case stream_of_item it of
        Inl e \<Rightarrow> Inl e
      | Inr s \<Rightarrow> (case streams_of_items its of Inl e \<Rightarrow> Inl e | Inr ss \<Rightarrow> Inr (s # ss)))"

text \<open>\<open>data.get\<close> is evaluated on whatever the document is: a list has no such method.\<close>

definition load_from_json :: "json_document \<Rightarrow> stream_config list result" where
  "load_from_json doc =
     (case doc of
        JsonList items \<Rightarrow> Inl (OtherError ''AttributeError'')
      | JsonObject None \<Rightarrow> Inr []
      | JsonObject (Some items) \<Rightarrow> streams_of_items items)"

definition env_stream :: "string \<Rightarrow> string \<Rightarrow> pyfloat \<Rightarrow> pyfloat \<Rightarrow> string \<Rightarrow> stream_config" where
  "env_stream i k balance risk cost = \<lparr>stream_id = i, stream_kind = k, stream_enabled = True, stream_balance = balance,
     stream_risk_pct = risk, stream_cost_model = cost, ctrader_account_id = 0, telegram_bot_token = [],
     telegram_chat_id = []\<rparr>"

definition load_from_env :: "stream_world \<Rightarrow> stream_config list result" where
  "load_from_env w =
     (let or_text = (\<lambda>s d. if s = [] then d else s);
          mode = or_text (py_lower (getenv w ''CFD_PAPER_EXECUTION_MODE'' ''paper'')) ''paper'';
          balance = env_float w ''CFD_PAPER_BALANCE'' 100000;
          risk = env_float w ''CFD_PAPER_RISK_PCT'' 1;
          paper_cost = or_text (getenv w ''CFD_PAPER_COST_MODEL'' ''intraday'') ''intraday'';
          demo_cost = or_text (getenv w ''CFD_DEMO_COST_MODEL'' ''zero'') ''zero'';
          live_kind = (if py_lower (getenv w ''CTRADER_ENV'' ''demo'') = ''live'' then ''live'' else ''demo'');
          run_paper = (mode = ''paper'' \<or> mode = ''both'');
          run_live = (mode = ''live'' \<or> mode = ''both'');
          paper = mk_stream (env_stream (getenv w ''CFD_PAPER_ACCOUNT_ID'' (if mode = ''both'' then ''cfd_paper'' else ''cfd_demo''))
                    ''paper'' balance risk paper_cost);
          live = mk_stream (env_stream (getenv w ''CFD_DEMO_ACCOUNT_ID'' ''cfd_ctrader_demo'') live_kind balance risk demo_cost)
      in case (if run_paper then (case paper of Inl e \<Rightarrow> Inl e | Inr s \<Rightarrow> Inr [s]) else Inr []) of
           Inl e \<Rightarrow> Inl e
         | Inr ps \<Rightarrow>
            (case (if run_live then (case live of Inl e \<Rightarrow> Inl e | Inr s \<Rightarrow> Inr [s]) else Inr []) of
               Inl e \<Rightarrow> Inl e
             | Inr ls \<Rightarrow> Inr (ps @ ls)))"

definition load_streams :: "stream_world \<Rightarrow> stream_config list result" where
  "load_streams w =
     (let configured = getenv w ''CFD_STREAMS_CONFIG'' [];
          path = (if configured = [] \<and> sw_file w ''data/cfd_streams.json'' \<noteq> None then ''data/cfd_streams.json''
                  else configured)
      in case (case (if path = [] then None else sw_file w path) of
                 None \<Rightarrow> load_from_env w
               | Some doc \<Rightarrow> load_from_json doc) of
           Inl e \<Rightarrow> Inl e
         | Inr streams \<Rightarrow>
             let enabled = filter stream_enabled streams in
             if distinct (List.map stream_id enabled) then Inr enabled
             else Inl (ValueError ''duplicate stream ids''))"

subsection \<open>What the runner may assume\<close>

lemma mk_stream_kind: "mk_stream s = Inr t \<Longrightarrow> stream_kind t \<in> set VALID_KINDS"
  by (auto simp: mk_stream_def Let_def split: if_splits)

lemma streams_of_items_kinds:
  "streams_of_items its = Inr ss \<Longrightarrow> list_all (\<lambda>s. stream_kind s \<in> set VALID_KINDS) ss"
  by (induction its arbitrary: ss)
    (auto simp: stream_of_item_def split: sum.splits option.splits dest: mk_stream_kind)

text \<open>The loaded streams have distinct ids and are each exactly one of paper or order-placing.\<close>

lemma load_streams_ok:
  assumes "load_streams w = Inr ss"
  shows "distinct (List.map stream_id ss) \<and> list_all stream_enabled ss \<and>
    list_all (\<lambda>s. is_paper s \<noteq> places_orders s) ss"
proof -
  obtain streams where ss: "ss = filter stream_enabled streams" "distinct (List.map stream_id ss)"
    and src: "load_from_env w = Inr streams \<or> (\<exists>doc. load_from_json doc = Inr streams)"
    using assms by (auto simp: load_streams_def Let_def split: sum.splits option.splits if_splits)
  have "list_all (\<lambda>s. stream_kind s \<in> set VALID_KINDS) streams"
    using src
  proof
    assume "load_from_env w = Inr streams"
    then show ?thesis
      by (auto simp: load_from_env_def Let_def split: sum.splits if_splits dest!: mk_stream_kind)
  next
    assume "\<exists>doc. load_from_json doc = Inr streams"
    then obtain doc where "load_from_json doc = Inr streams" by blast
    then show ?thesis
      by (cases doc) (auto simp: load_from_json_def split: option.splits dest: streams_of_items_kinds)
  qed
  then show ?thesis using ss by (auto simp: list_all_iff VALID_KINDS_def is_paper_def places_orders_def)
qed

text \<open>A document that is a list, which the default of \<open>data.get\<close> provides for, is always an error.\<close>

lemma json_list_raises: "load_from_json (JsonList items) = Inl (OtherError ''AttributeError'')"
  by (simp add: load_from_json_def)

end
