(* ===== verification/Variant_Metrics.thy ===== *)
theory Variant_Metrics
  imports Backtest_Replay Text
begin

section \<open>Scoring: transaction costs and performance metrics\<close>

text \<open>
  \<open>app/scoring/costs.py\<close> and \<open>app/scoring/metrics.py\<close>: the cost models in points per round trip,
  and the metrics of a list of profits. A profit factor and a recovery factor are a
  \<open>profit_ratio\<close>, which has the infinite value of the code. \<open>has_sub p s\<close> is Python's \<open>p in s\<close>
  on strings, \<open>without p s\<close> is \<open>s.replace(p, "")\<close> for a non-empty \<open>p\<close>.
\<close>

definition upper_ascii :: "char \<Rightarrow> char" where
  "upper_ascii c = (let n = of_char c :: nat in if 97 \<le> n \<and> n \<le> 122 then char_of (n - 32) else c)"

definition py_upper :: "string \<Rightarrow> string" where
  "py_upper s = List.map upper_ascii s"

fun has_sub :: "string \<Rightarrow> string \<Rightarrow> bool" where
  "has_sub p [] \<longleftrightarrow> p = []"
| "has_sub p (c # s) \<longleftrightarrow> take (length p) (c # s) = p \<or> has_sub p s"

function without :: "string \<Rightarrow> string \<Rightarrow> string" where
  "without p [] = []"
| "without p (c # s) =
     (if p \<noteq> [] \<and> take (length p) (c # s) = p then without p (drop (length p) (c # s))
      else c # without p s)"
  by pat_completeness auto
termination by (relation "measure (\<lambda>(p, s). length s)") (auto simp: neq_Nil_conv)

subsection \<open>Cost models\<close>

record points_cost_model =
  cm_name :: string
  cost_points_nifty :: pyfloat
  cost_points_banknifty :: pyfloat
  cost_points_stock :: pyfloat

definition cost_per_trade_points :: "points_cost_model \<Rightarrow> string \<Rightarrow> pyfloat" where
  "cost_per_trade_points m inst =
     (let u = py_upper inst in
      if has_sub ''NIFTY'' u \<and> \<not> has_sub ''BANK'' u then cost_points_nifty m
      else if has_sub ''BANKNIFTY'' u \<or> has_sub ''BANK'' u then cost_points_banknifty m
      else cost_points_stock m)"

definition apply_costs :: "points_cost_model \<Rightarrow> pyfloat list \<Rightarrow> string \<Rightarrow> pyfloat list" where
  "apply_costs m pnls inst = (let cost = cost_per_trade_points m inst in List.map (\<lambda>p. p - cost) pnls)"

definition COST_EQUITY_INTRADAY :: points_cost_model where
  "COST_EQUITY_INTRADAY = \<lparr>cm_name = ''equity_intraday'', cost_points_nifty = 4, cost_points_banknifty = 6,
     cost_points_stock = 3\<rparr>"

definition COST_FUTURES :: points_cost_model where
  "COST_FUTURES = \<lparr>cm_name = ''futures'', cost_points_nifty = 17, cost_points_banknifty = 28, cost_points_stock = 5\<rparr>"

definition COST_OPTIONS :: points_cost_model where
  "COST_OPTIONS = \<lparr>cm_name = ''options'', cost_points_nifty = 8, cost_points_banknifty = 12, cost_points_stock = 4\<rparr>"

definition COST_NONE :: points_cost_model where
  "COST_NONE = \<lparr>cm_name = ''none'', cost_points_nifty = 0, cost_points_banknifty = 0, cost_points_stock = 0\<rparr>"

definition COST_CONSERVATIVE :: points_cost_model where
  "COST_CONSERVATIVE = \<lparr>cm_name = ''conservative'', cost_points_nifty = 8, cost_points_banknifty = 12,
     cost_points_stock = 6\<rparr>"

definition COST_MODELS :: "(string \<times> points_cost_model) list" where
  "COST_MODELS = [(''none'', COST_NONE), (''equity_intraday'', COST_EQUITY_INTRADAY), (''futures'', COST_FUTURES),
     (''options'', COST_OPTIONS), (''conservative'', COST_CONSERVATIVE)]"

definition get_cost_model :: "string \<Rightarrow> points_cost_model" where
  "get_cost_model name = (case map_of COST_MODELS name of None \<Rightarrow> COST_EQUITY_INTRADAY | Some m \<Rightarrow> m)"

subsection \<open>Metrics\<close>

record variant_metrics =
  vm_trade_count :: nat
  vm_win_count :: nat
  vm_loss_count :: nat
  vm_win_rate :: pyfloat
  vm_avg_win :: pyfloat
  vm_avg_loss :: pyfloat
  vm_expectancy :: pyfloat
  vm_profit_factor :: profit_ratio
  vm_net_pnl :: pyfloat
  vm_max_drawdown :: pyfloat
  vm_recovery_factor :: profit_ratio
  vm_gross_profit :: pyfloat
  vm_gross_loss :: pyfloat
  vm_sharpe_ratio :: pyfloat
  vm_max_consecutive_losses :: nat
  vm_max_consecutive_wins :: nat
  vm_best_exit_model :: string
  vm_best_exit_expectancy :: pyfloat

definition empty_metrics :: variant_metrics where
  "empty_metrics = \<lparr>vm_trade_count = 0, vm_win_count = 0, vm_loss_count = 0, vm_win_rate = 0, vm_avg_win = 0,
     vm_avg_loss = 0, vm_expectancy = 0, vm_profit_factor = Ratio 0, vm_net_pnl = 0, vm_max_drawdown = 0,
     vm_recovery_factor = Ratio 0, vm_gross_profit = 0, vm_gross_loss = 0, vm_sharpe_ratio = 0,
     vm_max_consecutive_losses = 0, vm_max_consecutive_wins = 0, vm_best_exit_model = '''', vm_best_exit_expectancy = 0\<rparr>"

definition mean :: "pyfloat list \<Rightarrow> pyfloat" where
  "mean xs = sum_list xs / of_nat (length xs)"

text \<open>\<open>sum((p - m) ** 2 for p in xs) / (len(xs) - 1)\<close>, read for at least two elements.\<close>

definition sample_variance :: "pyfloat list \<Rightarrow> pyfloat" where
  "sample_variance xs = (\<Sum>p\<leftarrow>xs. (p - mean xs)\<^sup>2) / (of_nat (length xs) - 1)"

definition compute_max_drawdown :: "pyfloat list \<Rightarrow> pyfloat" where
  "compute_max_drawdown pnls = (if pnls = [] then 0 else drawdown_loop pnls 0 0 0)"

fun streak_loop :: "(pyfloat \<Rightarrow> bool) \<Rightarrow> pyfloat list \<Rightarrow> nat \<Rightarrow> nat \<Rightarrow> nat" where
  "streak_loop hit [] max_streak current = max_streak"
| "streak_loop hit (p # ps) max_streak current =
     (if hit p then streak_loop hit ps (max max_streak (current + 1)) (current + 1)
      else streak_loop hit ps max_streak 0)"

definition max_consecutive :: "pyfloat list \<Rightarrow> bool \<Rightarrow> nat" where
  "max_consecutive pnls positive = streak_loop (\<lambda>p. (positive \<and> p > 0) \<or> (\<not> positive \<and> p < 0)) pnls 0 0"

definition ratio_or_inf :: "pyfloat \<Rightarrow> pyfloat \<Rightarrow> profit_ratio" where
  "ratio_or_inf a b = (if b > 0 then Ratio (a / b) else if a > 0 then Infinite else Ratio 0)"

definition compute_metrics :: "pyfloat list \<Rightarrow> variant_metrics" where
  "compute_metrics pnls =
     (if pnls = [] then empty_metrics
      else
        let n = length pnls; wins = filter (\<lambda>p. p > 0) pnls; losses = filter (\<lambda>p. p < 0) pnls;
            win_rate = of_nat (length wins) / of_nat n;
            avg_win = (if wins \<noteq> [] then mean wins else 0);
            avg_loss = (if losses \<noteq> [] then \<bar>mean losses\<bar> else 0);
            gross_profit = sum_list wins; gross_loss = \<bar>sum_list losses\<bar>;
            net = sum_list pnls; loss_rate = of_nat (length losses) / of_nat n;
            dd = compute_max_drawdown pnls;
            std = sqrt (sample_variance pnls)
        in \<lparr>vm_trade_count = n, vm_win_count = length wins, vm_loss_count = length losses, vm_win_rate = win_rate,
             vm_avg_win = avg_win, vm_avg_loss = avg_loss,
             vm_expectancy = win_rate * avg_win - loss_rate * avg_loss,
             vm_profit_factor = ratio_or_inf gross_profit gross_loss, vm_net_pnl = net, vm_max_drawdown = dd,
             vm_recovery_factor = ratio_or_inf net dd, vm_gross_profit = gross_profit, vm_gross_loss = gross_loss,
             vm_sharpe_ratio = (if n > 1 then if std > 0 then net / of_nat n / std else 0 else 0),
             vm_max_consecutive_losses = max_consecutive pnls False,
             vm_max_consecutive_wins = max_consecutive pnls True,
             vm_best_exit_model = '''', vm_best_exit_expectancy = 0\<rparr>)"

subsection \<open>What the metrics are\<close>

lemma sum_wins_losses:
  "sum_list (filter (\<lambda>p. p > 0) ps) + sum_list (filter (\<lambda>p. p < 0) ps) = sum_list (ps :: pyfloat list)"
  by (induction ps) auto

lemma sum_list_filter_pos: "0 \<le> sum_list (filter (\<lambda>p. p > 0) ps)" for ps :: "pyfloat list"
  by (induction ps) auto

lemma sum_list_filter_neg: "sum_list (filter (\<lambda>p. p < 0) ps) \<le> 0" for ps :: "pyfloat list"
  by (induction ps) auto

lemma count_wins_losses:
  "length (filter (\<lambda>p. p > 0) ps) + length (filter (\<lambda>p. p < 0) ps) \<le> length (ps :: pyfloat list)"
  by (induction ps) auto

lemma length_mean: "xs \<noteq> [] \<Longrightarrow> of_nat (length xs) * mean xs = sum_list xs"
  by (simp add: mean_def)

lemma share_mean: "of_nat (length xs) / n * (if xs \<noteq> [] then mean xs else 0) = sum_list xs / n"
  using length_mean[of xs] by (cases "xs = []") (simp_all add: mean_def)

text \<open>The expectancy, computed from rates and averages, is the mean profit per trade.\<close>

lemma expectancy_is_mean: "vm_expectancy (compute_metrics ps) = mean ps"
proof (cases "ps = []")
  case True
  then show ?thesis by (simp add: compute_metrics_def empty_metrics_def mean_def)
next
  case False
  let ?w = "filter (\<lambda>p. p > 0) ps" and ?l = "filter (\<lambda>p. p < 0) ps" and ?n = "of_nat (length ps) :: pyfloat"
  have abs: "(if ?l \<noteq> [] then \<bar>mean ?l\<bar> else 0) = - (if ?l \<noteq> [] then mean ?l else 0)"
    using sum_list_filter_neg[of ps] by (simp add: mean_def abs_if divide_less_0_iff) linarith?
  have "vm_expectancy (compute_metrics ps) =
      of_nat (length ?w) / ?n * (if ?w \<noteq> [] then mean ?w else 0) -
      of_nat (length ?l) / ?n * (if ?l \<noteq> [] then \<bar>mean ?l\<bar> else 0)"
    using False by (simp add: compute_metrics_def Let_def)
  also have "\<dots> = sum_list ?w / ?n + sum_list ?l / ?n"
    unfolding abs by (simp only: share_mean mult_minus_right diff_minus_eq_add)
  also have "\<dots> = mean ps"
    using sum_wins_losses[of ps] by (simp add: mean_def flip: add_divide_distrib)
  finally show ?thesis .
qed

text \<open>The longest run of hits: the longest hit prefix over all starting points.\<close>

fun longest_run :: "(pyfloat \<Rightarrow> bool) \<Rightarrow> pyfloat list \<Rightarrow> nat" where
  "longest_run hit [] = 0"
| "longest_run hit (p # ps) = max (length (takeWhile hit (p # ps))) (longest_run hit ps)"

lemma takeWhile_le_longest: "length (takeWhile hit ps) \<le> longest_run hit ps"
  by (cases ps) auto

lemma streak_loop_longest:
  "c \<le> m \<Longrightarrow> streak_loop hit ps m c = max m (max (c + length (takeWhile hit ps)) (longest_run hit ps))"
proof (induction ps arbitrary: m c)
  case Nil
  then show ?case by simp
next
  case (Cons p ps)
  show ?case using Cons.IH[of "c + 1" "max m (c + 1)"] Cons.IH[of 0 m] Cons.prems takeWhile_le_longest[of hit ps]
    by (auto simp: max_def)
qed

lemma max_consecutive_longest:
  "max_consecutive ps b = longest_run (\<lambda>p. (b \<and> p > 0) \<or> (\<not> b \<and> p < 0)) ps"
  unfolding max_consecutive_def using streak_loop_longest[of 0 0 _ ps] takeWhile_le_longest[of _ ps]
  by (simp add: max_absorb2)

lemma longest_run_attained:
  "\<exists>i \<le> length ps. longest_run hit ps = length (takeWhile hit (drop i ps))"
proof (induction ps)
  case Nil
  then show ?case by simp
next
  case (Cons p ps)
  then obtain i where i: "i \<le> length ps" "longest_run hit ps = length (takeWhile hit (drop i ps))" by blast
  show ?case
  proof (cases "longest_run hit ps \<le> length (takeWhile hit (p # ps))")
    case True
    then show ?thesis by (intro exI[of _ 0]) (simp add: max_absorb1)
  next
    case False
    then show ?thesis using i by (intro exI[of _ "Suc i"]) (simp add: max_def)
  qed
qed

lemma longest_run_upper: "length (takeWhile hit (drop i ps)) \<le> longest_run hit ps"
proof (induction ps arbitrary: i)
  case Nil
  then show ?case by simp
next
  case (Cons p ps)
  show ?case using Cons.IH[of "i - 1"] by (cases i) (auto simp: le_max_iff_disj)
qed

lemma drawdown_nonneg: "0 \<le> compute_max_drawdown ps"
  using drawdown_loop_upper[of 0 0 ps 0 0 0] by (simp add: compute_max_drawdown_def)

lemma max_drawdown_is_Max: "compute_max_drawdown ps = Max (set (drops (equity_curve 0 ps)))"
proof (cases "ps = []")
  case True
  then show ?thesis using drawdown_loop_Max[of "[]" 0] by (simp add: compute_max_drawdown_def)
qed (simp add: compute_max_drawdown_def drawdown_loop_Max)

text \<open>
  The gross figures, the rates, and the two special values of a ratio: it is infinite exactly when
  there is something in the numerator and nothing below it.
\<close>

lemma metrics_counts:
  "vm_trade_count (compute_metrics ps) = length ps"
  "vm_net_pnl (compute_metrics ps) = sum_list ps"
  "vm_win_count (compute_metrics ps) + vm_loss_count (compute_metrics ps) \<le> length ps"
  "vm_win_rate (compute_metrics ps) = of_nat (vm_win_count (compute_metrics ps)) / of_nat (length ps)"
  using count_wins_losses[of ps] by (simp_all add: compute_metrics_def empty_metrics_def Let_def)

lemma metrics_gross:
  "vm_net_pnl (compute_metrics ps) = vm_gross_profit (compute_metrics ps) - vm_gross_loss (compute_metrics ps)"
  "0 \<le> vm_gross_profit (compute_metrics ps)" "0 \<le> vm_gross_loss (compute_metrics ps)"
  using sum_wins_losses[of ps] sum_list_filter_neg[of ps] sum_list_filter_pos[of ps]
  by (simp_all add: compute_metrics_def empty_metrics_def Let_def)

lemma metrics_drawdown: "vm_max_drawdown (compute_metrics ps) = compute_max_drawdown ps"
  by (simp add: compute_metrics_def empty_metrics_def Let_def compute_max_drawdown_def)

lemma win_rate_bounds: "0 \<le> vm_win_rate (compute_metrics ps)" "vm_win_rate (compute_metrics ps) \<le> 1"
  using metrics_counts(3)[of ps] by (simp_all add: metrics_counts(4) divide_le_eq_1)

lemma metrics_ratios:
  "vm_profit_factor (compute_metrics ps) =
     ratio_or_inf (vm_gross_profit (compute_metrics ps)) (vm_gross_loss (compute_metrics ps))"
  "vm_recovery_factor (compute_metrics ps) =
     ratio_or_inf (vm_net_pnl (compute_metrics ps)) (vm_max_drawdown (compute_metrics ps))"
  by (simp_all add: compute_metrics_def empty_metrics_def Let_def ratio_or_inf_def)

lemma ratio_or_inf_Ratio_nonneg: "ratio_or_inf a b = Ratio r \<Longrightarrow> 0 \<le> a \<Longrightarrow> 0 \<le> r"
  by (auto simp: ratio_or_inf_def split: if_splits)

text \<open>A profitable list has a profit factor above one.\<close>

lemma profit_factor_gt_1:
  assumes "0 < vm_expectancy (compute_metrics ps)" and "vm_profit_factor (compute_metrics ps) = Ratio r"
  shows "1 < r"
proof -
  have "ps \<noteq> []" using assms(1) by (auto simp: expectancy_is_mean mean_def)
  then have "0 < sum_list ps" using assms(1) by (simp add: expectancy_is_mean mean_def zero_less_divide_iff)
  then have "vm_gross_loss (compute_metrics ps) < vm_gross_profit (compute_metrics ps)"
    using metrics_gross(1)[of ps] metrics_counts(2)[of ps] by simp
  then show ?thesis
    using assms(2) metrics_gross(3)[of ps] unfolding metrics_ratios
    by (auto simp: ratio_or_inf_def less_divide_eq split: if_splits)
qed

text \<open>Costs move every profit, and with it the expectancy, by the cost of a trade.\<close>

lemma mean_shift: "xs \<noteq> [] \<Longrightarrow> mean (List.map (\<lambda>p. p - c) xs) = mean xs - c"
proof -
  assume "xs \<noteq> []"
  moreover have "sum_list (List.map (\<lambda>p. p - c) xs) = sum_list xs - of_nat (length xs) * c"
    by (induction xs) (auto simp: algebra_simps)
  ultimately show ?thesis by (simp add: mean_def diff_divide_distrib)
qed

lemma net_expectancy:
  "ps \<noteq> [] \<Longrightarrow> vm_expectancy (compute_metrics (apply_costs m ps inst)) =
     vm_expectancy (compute_metrics ps) - cost_per_trade_points m inst"
  by (simp add: expectancy_is_mean apply_costs_def mean_shift)

end
