(* ===== verification/Stability.thy ===== *)
theory Stability
  imports Variant_Metrics Deployability "HOL-Library.Product_Lexorder"
begin

section \<open>Scoring: consistency over time\<close>

text \<open>
  \<open>app/scoring/stability.py\<close>. A research trade is a row of the store: its text columns and its
  numeric columns by name (\<open>None\<close> for NULL or an absent key) and \<open>entry_time_ms\<close>, which the
  schema declares NOT NULL. \<open>loc\<close> is the host's time zone. A period key is the pair of its year
  and its month (or ISO week), ordered like its zero-padded text.
\<close>

record research_row =
  row_text :: "string \<Rightarrow> string option"
  row_num :: "string \<Rightarrow> pyfloat option"
  row_entry_ms :: pyfloat

text \<open>\<open>trade.get(k, dflt)\<close> on a text column.\<close>

definition text_of :: "research_row \<Rightarrow> string \<Rightarrow> string \<Rightarrow> string" where
  "text_of t k dflt = (case row_text t k of None \<Rightarrow> dflt | Some s \<Rightarrow> s)"

text \<open>\<open>[t.get(col) for t in trades if t.get(col) is not None]\<close>.\<close>

definition column :: "research_row list \<Rightarrow> string \<Rightarrow> pyfloat list" where
  "column ts col = List.map_filter (\<lambda>t. row_num t col) ts"

text \<open>\<open>isocalendar()\<close>: the year of the week's Thursday, and the weeks of that year before it.\<close>

definition iso_week :: "int \<Rightarrow> int \<times> int" where
  "iso_week d =
     (let thursday = d - weekday d + 3; y = civil_year thursday
      in (y, (thursday - days_from_civil y 1 1) div 7 + 1))"

definition year_month :: "int \<Rightarrow> int \<times> int" where
  "year_month d = (civil_year d, fst (month_day d))"

definition period_key :: "zone_clock \<Rightarrow> string \<Rightarrow> pyfloat \<Rightarrow> int \<times> int" where
  "period_key loc period_type ms =
     (let d = wall_day (to_wall loc ms) in
      if period_type = ''monthly'' then year_month d
      else if period_type = ''weekly'' then iso_week d
      else year_month d)"

record stability_result =
  st_score :: pyfloat
  st_periods_analyzed :: nat
  st_periods_profitable :: nat
  st_consistency_of_expectancy :: pyfloat
  st_consistency_of_winrate :: pyfloat
  st_worst_period_pnl :: pyfloat
  st_best_period_pnl :: pyfloat
  st_pnl_concentration :: pyfloat

definition no_stability :: stability_result where
  "no_stability = \<lparr>st_score = 0, st_periods_analyzed = 0, st_periods_profitable = 0, st_consistency_of_expectancy = 0,
     st_consistency_of_winrate = 0, st_worst_period_pnl = 0, st_best_period_pnl = 0, st_pnl_concentration = 0\<rparr>"

definition coefficient_of_variation :: "pyfloat list \<Rightarrow> pyfloat" where
  "coefficient_of_variation vs =
     (if vs = [] \<or> length vs < 2 then 0
      else let m = mean vs in
        if \<bar>m\<bar> < 1 / 10^10 then 0 else sqrt (sample_variance vs) / \<bar>m\<bar>)"

text \<open>The loop that builds \<open>period_trades\<close>: trades without a result or without a time are skipped.\<close>

definition dated_pnls :: "zone_clock \<Rightarrow> string \<Rightarrow> research_row list \<Rightarrow> string \<Rightarrow> ((int \<times> int) \<times> pyfloat) list" where
  "dated_pnls loc period_type ts col =
     List.map_filter (\<lambda>t. case row_num t col of None \<Rightarrow> None
       | Some pnl \<Rightarrow> if row_entry_ms t = 0 then None
                    else Some (period_key loc period_type (row_entry_ms t), pnl)) ts"

definition values_by_key :: "('k \<times> pyfloat) list \<Rightarrow> ('k \<times> pyfloat list) list" where
  "values_by_key ps = List.map (\<lambda>(k, g). (k, List.map snd g)) (group_by fst ps)"

definition profitable_points :: "nat \<Rightarrow> nat \<Rightarrow> pyfloat" where
  "profitable_points profitable analyzed = of_nat profitable / of_nat analyzed * 30"

definition concentration_points :: "pyfloat \<Rightarrow> nat \<Rightarrow> pyfloat" where
  "concentration_points c analyzed =
     (let ideal = 1 / of_nat analyzed in
      if c \<le> ideal * 2 then 25 else if c \<le> 1/2 then 15 else if c \<le> 3/4 then 5 else 0)"

definition consistency_points :: "pyfloat \<Rightarrow> pyfloat" where
  "consistency_points cv = (if cv < 1/2 then 25 else if cv < 1 then 15 else if cv < 2 then 5 else 0)"

definition worst_points :: "pyfloat \<Rightarrow> pyfloat \<Rightarrow> pyfloat list \<Rightarrow> pyfloat" where
  "worst_points total_pnl worst period_pnls =
     (if total_pnl > 0 then
        let worst_ratio = (if worst < 0 then \<bar>worst\<bar> / total_pnl else 0)
        in if worst_ratio < 2/10 then 20 else if worst_ratio < 1/2 then 10 else 0
      else if list_all (\<lambda>p. p \<ge> 0) period_pnls then 20 else 0)"

definition period_stability :: "pyfloat list list \<Rightarrow> stability_result" where
  "period_stability pnlss =
     (let pnls = List.map sum_list pnlss;
          winrates = List.map (\<lambda>p. vm_win_rate (compute_metrics p)) pnlss;
          expectancies = List.map (\<lambda>p. vm_expectancy (compute_metrics p)) pnlss;
          analyzed = length pnls; profitable = length (filter (\<lambda>p. p > 0) pnls);
          best = Max (set pnls); worst = Min (set pnls); total_pnl = sum_list pnls;
          conc = (if total_pnl > 0 then best / total_pnl else if total_pnl < 0 then 1 else 0);
          cv = coefficient_of_variation expectancies;
          score = profitable_points profitable analyzed + concentration_points conc analyzed +
                  consistency_points cv + worst_points total_pnl worst pnls
      in \<lparr>st_score = min score 100, st_periods_analyzed = analyzed, st_periods_profitable = profitable,
           st_consistency_of_expectancy = cv, st_consistency_of_winrate = coefficient_of_variation winrates,
           st_worst_period_pnl = worst, st_best_period_pnl = best, st_pnl_concentration = conc\<rparr>)"

definition compute_stability :: "zone_clock \<Rightarrow> research_row list \<Rightarrow> string \<Rightarrow> string \<Rightarrow> stability_result" where
  "compute_stability loc ts col period_type =
     (let periods = values_by_key (dated_pnls loc period_type ts col) in
      if length periods < 2 then
        (case periods of
           [] \<Rightarrow> no_stability
         | (k, only_pnls) # _ \<Rightarrow> no_stability\<lparr>st_periods_analyzed := length periods, st_score := 30,
             st_best_period_pnl := sum_list only_pnls, st_worst_period_pnl := sum_list only_pnls\<rparr>)
      else period_stability (List.map snd (sort_key fst periods)))"

subsection \<open>Bounds\<close>

lemma period_score_bounds:
  assumes "pnlss \<noteq> []"
  shows "0 \<le> st_score (period_stability pnlss)" "st_score (period_stability pnlss) \<le> 100"
proof -
  let ?n = "length pnlss" and ?p = "length (filter (\<lambda>p. p > 0) (List.map sum_list pnlss))"
  have pp: "0 \<le> profitable_points ?p ?n" by (simp add: profitable_points_def)
  have c: "0 \<le> concentration_points x ?n" "0 \<le> consistency_points y" "0 \<le> worst_points a b cs" for x y a b cs
    by (simp_all add: concentration_points_def consistency_points_def worst_points_def Let_def)
  show "0 \<le> st_score (period_stability pnlss)"
    unfolding period_stability_def Let_def stability_result.simps length_map
    using pp c(1) c(2) c(3) by (intro min.boundedI add_nonneg_nonneg) auto
  show "st_score (period_stability pnlss) \<le> 100" by (simp add: period_stability_def Let_def)
qed

lemma profitable_le_analyzed: "st_periods_profitable (period_stability pnlss) \<le> st_periods_analyzed (period_stability pnlss)"
  by (simp add: period_stability_def Let_def length_filter_le[THEN le_trans])

text \<open>The cap at 100 never acts: the four factors add up to at most 100 points.\<close>

lemma stability_cap_idle:
  assumes "p \<le> n"
  shows "profitable_points p n + concentration_points c n + consistency_points cv + worst_points t w ps \<le> 100"
proof -
  have "of_nat p / of_nat n \<le> (1 :: pyfloat)" using assms by (auto simp: divide_le_eq_1)
  then have "profitable_points p n \<le> 30" unfolding profitable_points_def using mult_right_mono[of "of_nat p / of_nat n" 1 "30 :: pyfloat"] by simp
  moreover have "concentration_points c n \<le> 25" "consistency_points cv \<le> 25" "worst_points t w ps \<le> 20"
    by (simp_all add: concentration_points_def consistency_points_def worst_points_def Let_def)
  ultimately show ?thesis by linarith
qed

lemma stability_cases:
  obtains (none) "compute_stability loc ts col pt = no_stability"
  | (one) x where "compute_stability loc ts col pt =
      no_stability\<lparr>st_periods_analyzed := 1, st_score := 30, st_best_period_pnl := x, st_worst_period_pnl := x\<rparr>"
  | (many) pnlss where "2 \<le> length pnlss" "compute_stability loc ts col pt = period_stability pnlss"
proof -
  let ?ps = "values_by_key (dated_pnls loc pt ts col)"
  consider "?ps = []" | k x where "?ps = [(k, x)]" | "2 \<le> length ?ps"
    by (cases ?ps; cases "tl ?ps") auto
  then show ?thesis
  proof cases
    case 3
    then show ?thesis by (intro many[of "List.map snd (sort_key fst ?ps)"]) (auto simp: compute_stability_def Let_def)
  qed (auto simp: compute_stability_def Let_def intro: none one)
qed

lemma stability_bounds:
  "0 \<le> st_score (compute_stability loc ts col pt)" "st_score (compute_stability loc ts col pt) \<le> 100"
  "st_periods_profitable (compute_stability loc ts col pt) \<le> st_periods_analyzed (compute_stability loc ts col pt)"
  by (rule stability_cases[of loc ts col pt]; fastforce simp: no_stability_def profitable_le_analyzed
      intro: period_score_bounds)+

subsection \<open>The periods share out the trades\<close>

lemma mset_update_snoc:
  "mset (concat (List.map snd (AList.update k ((case map_of al k of None \<Rightarrow> [] | Some ys \<Rightarrow> ys) @ [x]) al))) =
   mset (concat (List.map snd al)) + {#x#}"
  by (induction al) auto

lemma mset_group_by: "mset (concat (List.map snd (group_by f xs))) = mset xs"
  by (induction xs rule: rev_induct) (simp_all add: group_by_snoc group_add_def mset_update_snoc del: mset_map)

lemma sum_list_mset_eq: "mset xs = mset ys \<Longrightarrow> sum_list xs = sum_list (ys :: pyfloat list)"
  by (metis sum_mset_sum_list)

lemma sum_list_concat_real: "sum_list (concat xss) = sum_list (List.map sum_list xss)" for xss :: "pyfloat list list"
  by (induction xss) auto

lemma periods_partition:
  "sum_list (List.map sum_list (List.map snd (sort_key fst (values_by_key ps)))) = sum_list (List.map snd ps)"
proof -
  have "mset (List.map sum_list (List.map snd (sort_key fst (values_by_key ps)))) =
      mset (List.map sum_list (List.map snd (values_by_key ps)))" by simp
  then have "sum_list (List.map sum_list (List.map snd (sort_key fst (values_by_key ps)))) =
      sum_list (List.map sum_list (List.map snd (values_by_key ps)))" by (rule sum_list_mset_eq)
  also have "\<dots> = sum_list (concat (List.map (List.map snd) (List.map snd (group_by fst ps))))"
    by (simp add: sum_list_concat_real values_by_key_def case_prod_unfold comp_def)
  also have "\<dots> = sum_list (List.map snd (concat (List.map snd (group_by fst ps))))" by (simp add: map_concat)
  also have "\<dots> = sum_list (List.map snd ps)"
    by (rule sum_list_mset_eq) (simp only: mset_map mset_group_by)
  finally show ?thesis .
qed

text \<open>The share of the best period is at least an even share of a positive total.\<close>

lemma sum_list_le_Max: "sum_list xs \<le> of_nat (length xs) * Max (set xs)" if "xs \<noteq> []" for xs :: "pyfloat list"
proof -
  have "sum_list xs \<le> sum_list (List.map (\<lambda>_. Max (set xs)) xs)" using sum_list_mono[of xs "\<lambda>x. x" "\<lambda>_. Max (set xs)"] by simp
  then show ?thesis by (simp add: sum_list_triv)
qed

lemma concentration_at_least_even:
  assumes "0 < sum_list (List.map sum_list pnlss)"
  shows "1 / of_nat (length pnlss) \<le> st_pnl_concentration (period_stability pnlss)"
proof -
  let ?t = "sum_list (List.map sum_list pnlss)" and ?b = "Max (set (List.map sum_list pnlss))"
  have ne: "pnlss \<noteq> []" using assms by auto
  then have "?t \<le> of_nat (length pnlss) * ?b" using sum_list_le_Max[of "List.map sum_list pnlss"] by simp
  then have "1 / of_nat (length pnlss) \<le> ?b / ?t" using assms ne by (simp add: field_simps)
  then show ?thesis using assms by (simp add: period_stability_def Let_def)
qed

text \<open>
  The coefficient of variation is zero when the mean is zero, and a total of zero leaves the
  concentration at zero; both earn full points. Two periods that win and lose the same amount score
  65 points, above every threshold in use, though they earn nothing.
\<close>

lemma alternating_periods_score:
  assumes "0 < x"
  shows "st_score (period_stability [[x], [- x]]) = 65" "st_pnl_concentration (period_stability [[x], [- x]]) = 0"
proof -
  have cv: "coefficient_of_variation [x, - x] = 0" by (simp add: coefficient_of_variation_def mean_def)
  have "profitable_points 1 2 = 15" "concentration_points 0 2 = 25" "consistency_points 0 = 25"
      "worst_points 0 (- x) [x, - x] = 0"
    using assms by (simp_all add: profitable_points_def concentration_points_def consistency_points_def worst_points_def)
  then show "st_score (period_stability [[x], [- x]]) = 65" "st_pnl_concentration (period_stability [[x], [- x]]) = 0"
    using assms cv unfolding period_stability_def Let_def list.map expectancy_is_mean
    by (simp_all add: mean_def del: One_nat_def flip: One_nat_def numeral_2_eq_2)
qed

end
