(* ===== verification/Variant_Ranker.thy ===== *)
theory Variant_Ranker
  imports Stability
begin

section \<open>Scoring: regimes and the variant ranker\<close>

text \<open>
  \<open>app/scoring/regime.py\<close> and \<open>ranker.py\<close>: the performance of a variant per value of a metadata
  dimension, its best exit model, its composite score and the ranked list. The store's query is the
  argument \<open>load\<close>; what is written back is returned as a list of writes, in their order.
\<close>

subsection \<open>Performance per regime\<close>

record regime_performance =
  rp_regime_name :: string
  rp_regime_value :: string
  rp_trade_count :: nat
  rp_win_rate :: pyfloat
  rp_expectancy :: pyfloat
  rp_net_pnl :: pyfloat
  rp_profit_factor :: profit_ratio

record regime_analysis =
  ra_best_regime :: "regime_performance option"
  ra_worst_regime :: "regime_performance option"
  ra_all_regimes :: "regime_performance list"
  ra_regime_count :: nat
  ra_profitable_regimes :: nat

definition REGIME_DIMENSIONS :: "string list" where
  "REGIME_DIMENSIONS = [''session'', ''day_of_week'', ''gap_direction'', ''volatility_regime'', ''htf_trend_1h'',
     ''market_structure'', ''instrument'']"

text \<open>\<open>groups[dim_value].append(pnl)\<close> for the trades with a result and a value.\<close>

definition dimension_groups :: "research_row list \<Rightarrow> string \<Rightarrow> string \<Rightarrow> (string \<times> pyfloat list) list" where
  "dimension_groups ts col dimension =
     values_by_key (List.map_filter (\<lambda>t. case row_num t col of None \<Rightarrow> None
       | Some pnl \<Rightarrow> let v = text_of t dimension '''' in if v = '''' then None else Some (v, pnl)) ts)"

definition dimension_performances :: "research_row list \<Rightarrow> string \<Rightarrow> string \<Rightarrow> regime_performance list" where
  "dimension_performances ts col dimension =
     List.map_filter (\<lambda>(v, pnls). if length pnls < 10 then None
       else let m = compute_metrics pnls in
         Some \<lparr>rp_regime_name = dimension, rp_regime_value = v, rp_trade_count = vm_trade_count m,
               rp_win_rate = vm_win_rate m, rp_expectancy = vm_expectancy m, rp_net_pnl = vm_net_pnl m,
               rp_profit_factor = vm_profit_factor m\<rparr>) (dimension_groups ts col dimension)"

definition compute_regime_analysis :: "research_row list \<Rightarrow> string \<Rightarrow> regime_analysis" where
  "compute_regime_analysis ts col =
     (let perfs = concat (List.map (dimension_performances ts col) REGIME_DIMENSIONS) in
      if perfs = [] then \<lparr>ra_best_regime = None, ra_worst_regime = None, ra_all_regimes = [], ra_regime_count = 0,
        ra_profitable_regimes = 0\<rparr>
      else let ranked = sort_key (\<lambda>p. - rp_expectancy p) perfs in
        \<lparr>ra_best_regime = Some (hd ranked), ra_worst_regime = Some (last ranked), ra_all_regimes = ranked,
         ra_regime_count = length ranked, ra_profitable_regimes = length (filter (\<lambda>p. rp_net_pnl p > 0) ranked)\<rparr>)"

definition compute_regime_summary ::
  "research_row list \<Rightarrow> string \<Rightarrow> (string \<times> (string \<times> pyfloat) list) list" where
  "compute_regime_summary ts col =
     List.map_filter (\<lambda>dimension.
       let vals = List.map_filter (\<lambda>(v, pnls). if length pnls \<ge> 3 then Some (v, vm_expectancy (compute_metrics pnls)) else None)
                    (dimension_groups ts col dimension)
       in if vals \<noteq> [] then Some (dimension, vals) else None) REGIME_DIMENSIONS"

subsection \<open>Ranking\<close>

definition EXIT_MODEL_COLUMNS :: "string list" where
  "EXIT_MODEL_COLUMNS = [
    ''rr1_result'', ''rr1_5_result'', ''rr2_result'', ''rr2_5_result'',
    ''rr3_result'', ''rr5_result'', ''rr10_result'',
    ''atr_stop_result'', ''swing_stop_result'', ''fixed_stop_result'',
    ''atr_trail_result'', ''ema_trail_result'', ''swing_trail_result'',
    ''partial_a_result'', ''partial_b_result'', ''partial_c_result'',
    ''time_15m_result'', ''time_30m_result'', ''time_1h_result'',
    ''time_2h_result'', ''time_4h_result'',
    ''session_morning_result'', ''session_midday_result'',
    ''session_afternoon_result'', ''session_preclose_result'',
    ''dead_30m_result'', ''dead_1h_result'', ''dead_2h_result'',
    ''be_atr_trail_result'', ''be_tight_trail_result'', ''be_wide_trail_result'',
    ''be_ema_trail_result'', ''be_rr2_target_result'', ''be_rr3_target_result'',
    ''be_rr5_target_result'',
    ''chandelier_2x_result'', ''chandelier_3x_result'', ''chandelier_4x_result'',
    ''pct_trail_05_result'', ''pct_trail_1_result'', ''pct_trail_15_result'',
    ''pct_trail_2_result'',
    ''step_trail_1r_result'', ''step_trail_05r_result'',
    ''delayed_chand_2x_result'', ''delayed_chand_3x_result'', ''delayed_chand_4x_result'',
    ''vwap_cross_result'', ''ema9_cross_result'', ''ema13_cross_result'',
    ''ema20_cross_result'', ''ema50_cross_result'',
    ''rsi_70_exit_result'', ''rsi_75_exit_result'', ''rsi_80_exit_result'',
    ''ema_9_21_xover_result'', ''ema_9_50_xover_result'']"

definition FUTURES_COST_POINTS :: "(string \<times> pyfloat) list" where
  "FUTURES_COST_POINTS = [(''26000'', 17), (''26009'', 28), (''2885'', 5), (''1333'', 5), (''4963'', 5), (''3045'', 5),
     (''5900'', 5), (''1594'', 5), (''11536'', 5), (''10604'', 5)]"

record exit_model_score =
  ms_model_name :: string
  ms_expectancy :: pyfloat
  ms_win_rate :: pyfloat
  ms_profit_factor :: profit_ratio
  ms_net_pnl :: pyfloat
  ms_trade_count :: nat

record ranking_config =
  rk_min_trade_count :: int
  rk_min_expectancy :: pyfloat
  rk_min_stability :: pyfloat
  rk_weight_expectancy :: pyfloat
  rk_weight_profit_factor :: pyfloat
  rk_weight_stability :: pyfloat
  rk_weight_sharpe :: pyfloat
  rk_weight_recovery :: pyfloat
  rk_cost_model :: string
  rk_confidence_target_trades :: int
  rk_top_n :: nat

definition default_ranking :: ranking_config where
  "default_ranking = \<lparr>rk_min_trade_count = 30, rk_min_expectancy = 0, rk_min_stability = 20,
     rk_weight_expectancy = 35/100, rk_weight_profit_factor = 20/100, rk_weight_stability = 25/100,
     rk_weight_sharpe = 10/100, rk_weight_recovery = 10/100, rk_cost_model = ''equity_intraday'',
     rk_confidence_target_trades = 100, rk_top_n = 50\<rparr>"

record ranked_variant =
  rv_rank :: nat
  rv_variant_id :: string
  rv_strategy :: string
  rv_timeframe :: string
  rv_best_exit_model :: string
  rv_best_exit_expectancy :: pyfloat
  rv_top_exit_models :: "exit_model_score list"
  rv_metrics :: variant_metrics
  rv_avg_mfe :: pyfloat
  rv_avg_mae :: pyfloat
  rv_edge_ratio :: pyfloat
  rv_stability_score :: pyfloat
  rv_periods_profitable :: nat
  rv_periods_analyzed :: nat
  rv_composite_score :: pyfloat
  rv_cost_model_name :: string
  rv_cost_per_trade :: pyfloat
  rv_net_expectancy :: pyfloat
  rv_net_profit_factor :: profit_ratio
  rv_net_net_pnl :: pyfloat
  rv_net_win_rate :: pyfloat
  rv_profitable_after_costs :: bool
  rv_best_regime :: string
  rv_worst_regime :: string
  rv_regime_details :: "(string \<times> (string \<times> pyfloat) list) list"

definition model_score :: "ranking_config \<Rightarrow> research_row list \<Rightarrow> string \<Rightarrow> exit_model_score option" where
  "model_score cfg ts col =
     (let pnls = column ts col in
      if int (length pnls) < rk_min_trade_count cfg then None
      else let m = compute_metrics pnls in
        if vm_expectancy m > 0 then
          Some \<lparr>ms_model_name = without ''_result'' col, ms_expectancy = vm_expectancy m, ms_win_rate = vm_win_rate m,
                ms_profit_factor = vm_profit_factor m, ms_net_pnl = vm_net_pnl m, ms_trade_count = vm_trade_count m\<rparr>
        else None)"

definition find_best_exit_models ::
  "ranking_config \<Rightarrow> research_row list \<Rightarrow> string option \<times> pyfloat \<times> exit_model_score list" where
  "find_best_exit_models cfg ts =
     (let scores = List.map_filter (model_score cfg ts) EXIT_MODEL_COLUMNS
      in if scores = [] then (None, 0, [])
         else let ranked = sort_key (\<lambda>s. - ms_expectancy s) scores; best = hd ranked
           in (Some (ms_model_name best @ ''_result''), ms_expectancy best, take 3 ranked))"

definition compute_edge_ratio :: "research_row list \<Rightarrow> pyfloat \<times> pyfloat \<times> pyfloat" where
  "compute_edge_ratio ts =
     (let mfes = column ts ''mfe''; maes = column ts ''mae'';
          avg_mfe = (if mfes \<noteq> [] then mean mfes else 0); avg_mae = (if maes \<noteq> [] then mean maes else 0)
      in (avg_mfe, avg_mae, if avg_mae \<noteq> 0 then avg_mfe / \<bar>avg_mae\<bar> else 0))"

text \<open>\<open>min(x, 5.0) if x != inf else 5.0\<close>.\<close>

definition cap5 :: "profit_ratio \<Rightarrow> pyfloat" where
  "cap5 r = (case r of Ratio x \<Rightarrow> min x 5 | Infinite \<Rightarrow> 5)"

definition raw_composite :: "ranking_config \<Rightarrow> variant_metrics \<Rightarrow> pyfloat \<Rightarrow> pyfloat" where
  "raw_composite cfg m stability_score =
     (let norm_exp = (if vm_expectancy m > 0 then min (vm_expectancy m / 50) 1 else 0);
          norm_pf = max 0 ((cap5 (vm_profit_factor m) - 1) / 4);
          norm_stab = stability_score / 100;
          norm_sharpe = min (max (vm_sharpe_ratio m) 0 / 2) 1;
          norm_rf = cap5 (vm_recovery_factor m) / 5
      in rk_weight_expectancy cfg * norm_exp + rk_weight_profit_factor cfg * norm_pf +
         rk_weight_stability cfg * norm_stab + rk_weight_sharpe cfg * norm_sharpe + rk_weight_recovery cfg * norm_rf)"

definition composite_score :: "ranking_config \<Rightarrow> variant_metrics \<Rightarrow> pyfloat \<Rightarrow> pyfloat result" where
  "composite_score cfg m stability_score =
     (let target = rk_confidence_target_trades cfg in
      if target = 0 then Inl ZeroDivisionError
      else let q = of_nat (vm_trade_count m) / of_int target in
        if q < 0 then Inl (ValueError ''math domain error'')
        else Inr (raw_composite cfg m stability_score * min 1 (sqrt q) * 100))"

definition regime_text :: "regime_performance option \<Rightarrow> string" where
  "regime_text r = (case r of None \<Rightarrow> '''' | Some p \<Rightarrow> rp_regime_name p @ ''='' @ rp_regime_value p)"

text \<open>\<open>_score_variant\<close>: \<open>None\<close> where the code returns \<open>None\<close>.\<close>

definition score_variant ::
  "ranking_config \<Rightarrow> points_cost_model \<Rightarrow> zone_clock \<Rightarrow> string \<Rightarrow> research_row list \<Rightarrow> ranked_variant option result" where
  "score_variant cfg cm loc vid ts =
     (if int (length ts) < rk_min_trade_count cfg then Inr None
      else case find_best_exit_models cfg ts of
        (None, _, _) \<Rightarrow> Inr None
      | (Some best_exit, best_expectancy, top_exits) \<Rightarrow>
          if best_expectancy \<le> rk_min_expectancy cfg then Inr None
          else let pnls = column ts best_exit in
            if pnls = [] then Inr None
            else let m = compute_metrics pnls; stab = compute_stability loc ts best_exit ''weekly'' in
              if st_score stab < rk_min_stability cfg then Inr None
              else case composite_score cfg m (st_score stab) of
                Inl e \<Rightarrow> Inl e
              | Inr composite \<Rightarrow>
                  (let reg = compute_regime_analysis ts best_exit;
                       (avg_mfe, avg_mae, edge_ratio) = compute_edge_ratio ts;
                       inst = text_of (hd ts) ''instrument'' ''NIFTY'';
                       net = compute_metrics (apply_costs cm pnls inst)
                   in Inr (Some \<lparr>rv_rank = 0, rv_variant_id = vid, rv_strategy = text_of (hd ts) ''strategy'' '''',
                        rv_timeframe = text_of (hd ts) ''timeframe'' '''',
                        rv_best_exit_model = without ''_result'' best_exit,
                        rv_best_exit_expectancy = best_expectancy, rv_top_exit_models = top_exits,
                        rv_metrics = m, rv_avg_mfe = avg_mfe, rv_avg_mae = avg_mae, rv_edge_ratio = edge_ratio,
                        rv_stability_score = st_score stab, rv_periods_profitable = st_periods_profitable stab,
                        rv_periods_analyzed = st_periods_analyzed stab, rv_composite_score = composite,
                        rv_cost_model_name = cm_name cm,
                        rv_cost_per_trade = (case map_of FUTURES_COST_POINTS inst of Some c \<Rightarrow> c
                                             | None \<Rightarrow> cost_per_trade_points cm inst),
                        rv_net_expectancy = vm_expectancy net, rv_net_profit_factor = vm_profit_factor net,
                        rv_net_net_pnl = vm_net_pnl net, rv_net_win_rate = vm_win_rate net,
                        rv_profitable_after_costs = (vm_expectancy net > 0),
                        rv_best_regime = regime_text (ra_best_regime reg),
                        rv_worst_regime = regime_text (ra_worst_regime reg),
                        rv_regime_details = compute_regime_summary ts best_exit\<rparr>)))"

text \<open>What \<open>_save_scores\<close> hands to the store, per ranked variant.\<close>

datatype score_write =
    WriteVariantScore ranked_variant string
  | WriteRegimeScores string string string "(string \<times> (string \<times> pyfloat) list) list"

definition save_scores :: "ranked_variant list \<Rightarrow> string \<Rightarrow> score_write list" where
  "save_scores ranked label =
     concat (List.map (\<lambda>rv. WriteVariantScore rv label #
       (if rv_regime_details rv \<noteq> []
        then [WriteRegimeScores (rv_variant_id rv) label (rv_best_exit_model rv) (rv_regime_details rv)] else [])) ranked)"

definition variant_groups :: "research_row list \<Rightarrow> (string \<times> research_row list) list" where
  "variant_groups ts = group_by (\<lambda>t. text_of t ''variant_id'' '''') (filter (\<lambda>t. text_of t ''variant_id'' '''' \<noteq> '''') ts)"

definition assign_ranks :: "ranked_variant list \<Rightarrow> ranked_variant list" where
  "assign_ranks rvs = map2 (\<lambda>i rv. rv\<lparr>rv_rank := i\<rparr>) [1 ..< Suc (length rvs)] rvs"

definition rank_variants ::
  "ranking_config \<Rightarrow> zone_clock \<Rightarrow> (pyfloat \<Rightarrow> pyfloat \<Rightarrow> research_row list) \<Rightarrow> pyfloat \<Rightarrow> pyfloat \<Rightarrow> string \<Rightarrow>
   (ranked_variant list \<times> score_write list) result" where
  "rank_variants cfg loc load start_ms end_ms label =
     (let ts = load start_ms end_ms; cm = get_cost_model (rk_cost_model cfg) in
      if ts = [] then Inr ([], [])
      else case collect (\<lambda>(vid, g). score_variant cfg cm loc vid g) (variant_groups ts) of
        Inl e \<Rightarrow> Inl e
      | Inr scored \<Rightarrow>
          let candidates = sort_key (\<lambda>rv. - rv_composite_score rv) (List.map_filter (\<lambda>s. s) scored);
              best = assign_ranks (take (rk_top_n cfg) candidates)
          in Inr (best, if label \<noteq> '''' then save_scores best label else []))"

subsection \<open>The best exit model\<close>

lemma exit_model_names: "list_all (\<lambda>col. without ''_result'' col @ ''_result'' = col) EXIT_MODEL_COLUMNS"
  by code_simp

definition eligible_model :: "ranking_config \<Rightarrow> research_row list \<Rightarrow> string \<Rightarrow> bool" where
  "eligible_model cfg ts col \<longleftrightarrow> col \<in> set EXIT_MODEL_COLUMNS \<and> rk_min_trade_count cfg \<le> int (length (column ts col)) \<and>
     0 < mean (column ts col)"

lemma hd_sort_key_max:
  fixes f :: "'a \<Rightarrow> pyfloat"
  assumes "xs \<noteq> []"
  shows "hd (sort_key (\<lambda>x. - f x) xs) \<in> set xs" "x \<in> set xs \<Longrightarrow> f x \<le> f (hd (sort_key (\<lambda>x. - f x) xs))"
proof -
  let ?s = "sort_key (\<lambda>x. - f x) xs"
  have ne: "?s \<noteq> []" using assms by (metis length_0_conv length_sort)
  then show "hd ?s \<in> set xs" by (metis hd_in_set set_sort)
  assume "x \<in> set xs"
  then have "x \<in> set ?s" by simp
  moreover have "sorted (List.map (\<lambda>x. - f x) ?s)" by simp
  ultimately show "f x \<le> f (hd ?s)" by (cases ?s) auto
qed

lemma last_sort_key_min:
  fixes f :: "'a \<Rightarrow> pyfloat"
  assumes "x \<in> set xs"
  shows "f (last (sort_key (\<lambda>x. - f x) xs)) \<le> f x"
proof -
  let ?s = "sort_key (\<lambda>x. - f x) xs"
  have "x \<in> set ?s" using assms by simp
  then obtain i where i: "i < length ?s" "?s ! i = x" by (metis in_set_conv_nth)
  have "sorted (List.map (\<lambda>x. - f x) ?s)" by simp
  then have "- f (?s ! i) \<le> - f (?s ! (length ?s - 1))"
    using i sorted_nth_mono[of "List.map (\<lambda>x. - f x) ?s" i "length ?s - 1"] by auto
  moreover have "?s \<noteq> []" using i(1) by (metis length_greater_0_conv less_zeroE neq0_conv)
  ultimately show ?thesis using i by (simp add: last_conv_nth)
qed

lemma set_map_filter: "y \<in> set (List.map_filter f xs) \<longleftrightarrow> (\<exists>x \<in> set xs. f x = Some y)"
  by (induction xs) (auto simp: List.map_filter_simps split: option.splits)

lemma map_filter_empty: "List.map_filter f xs = [] \<longleftrightarrow> (\<forall>x \<in> set xs. f x = None)"
  by (induction xs) (auto simp: List.map_filter_simps split: option.splits)

lemma model_score_Some:
  "model_score cfg ts col = Some s \<Longrightarrow> rk_min_trade_count cfg \<le> int (length (column ts col)) \<and>
     0 < mean (column ts col) \<and> ms_expectancy s = mean (column ts col) \<and> ms_model_name s = without ''_result'' col"
  by (auto simp: model_score_def Let_def expectancy_is_mean split: if_splits)

lemma model_score_None:
  "model_score cfg ts col = None \<longleftrightarrow> \<not> (rk_min_trade_count cfg \<le> int (length (column ts col)) \<and> 0 < mean (column ts col))"
  by (auto simp: model_score_def Let_def expectancy_is_mean)

lemma find_best_None:
  "fst (find_best_exit_models cfg ts) = None \<longleftrightarrow> (\<forall>col. \<not> eligible_model cfg ts col)"
  by (auto simp: find_best_exit_models_def Let_def map_filter_empty model_score_None eligible_model_def)

lemma find_best_Some:
  assumes "find_best_exit_models cfg ts = (Some c, e, tops)"
  shows "eligible_model cfg ts c" "e = mean (column ts c)" "eligible_model cfg ts c' \<Longrightarrow> mean (column ts c') \<le> e"
    "length tops \<le> 3" "tops \<noteq> []" "hd tops = the (model_score cfg ts c)"
proof -
  let ?s = "List.map_filter (model_score cfg ts) EXIT_MODEL_COLUMNS" and ?k = "\<lambda>s. - ms_expectancy s"
  let ?b = "hd (sort_key ?k ?s)"
  have ne: "?s \<noteq> []" and r: "c = ms_model_name ?b @ ''_result''" "e = ms_expectancy ?b" "tops = take 3 (sort_key ?k ?s)"
    using assms by (auto simp: find_best_exit_models_def Let_def split: if_splits)
  obtain col where col: "col \<in> set EXIT_MODEL_COLUMNS" "model_score cfg ts col = Some ?b"
    using hd_sort_key_max(1)[OF ne, of ms_expectancy] by (auto simp: set_map_filter)
  have "without ''_result'' col @ ''_result'' = col" using exit_model_names col(1) by (auto simp: list_all_iff)
  then have c: "c = col" using r(1) model_score_Some[OF col(2)] by simp
  show "eligible_model cfg ts c" "e = mean (column ts c)"
    using model_score_Some[OF col(2)] col(1) r(2) c by (auto simp: eligible_model_def)
  show "mean (column ts c') \<le> e" if el: "eligible_model cfg ts c'"
  proof -
    obtain s where s: "model_score cfg ts c' = Some s"
      using el model_score_None[of cfg ts c'] unfolding eligible_model_def by fastforce
    then have "s \<in> set ?s" using el by (auto simp: set_map_filter eligible_model_def)
    then have "ms_expectancy s \<le> ms_expectancy ?b" by (rule hd_sort_key_max(2)[OF ne])
    then show ?thesis using model_score_Some[OF s] r(2) by simp
  qed
  have "sort_key ?k ?s \<noteq> []" using ne by (metis length_0_conv length_sort)
  then show "length tops \<le> 3" "tops \<noteq> []" "hd tops = the (model_score cfg ts c)"
    using r(3) col(2) c by (auto simp: hd_take)
qed

subsection \<open>The composite score\<close>

definition sane_weights :: "ranking_config \<Rightarrow> bool" where
  "sane_weights cfg \<longleftrightarrow> 0 \<le> rk_weight_expectancy cfg \<and> 0 \<le> rk_weight_profit_factor cfg \<and>
     0 \<le> rk_weight_stability cfg \<and> 0 \<le> rk_weight_sharpe cfg \<and> 0 \<le> rk_weight_recovery cfg \<and>
     rk_weight_expectancy cfg + rk_weight_profit_factor cfg + rk_weight_stability cfg + rk_weight_sharpe cfg +
       rk_weight_recovery cfg \<le> 1"

lemma weighted_unit:
  fixes w x :: pyfloat
  assumes "0 \<le> w" "0 \<le> x" "x \<le> 1"
  shows "0 \<le> w * x" "w * x \<le> w"
  using assms by (auto intro: mult_nonneg_nonneg mult_left_le)

lemma cap5_le: "cap5 r \<le> 5"
  by (simp add: cap5_def split: profit_ratio.split)

lemma raw_composite_bounds:
  assumes "sane_weights cfg" "0 \<le> s" "s \<le> 100" "0 \<le> vm_net_pnl (compute_metrics ps)"
  shows "0 \<le> raw_composite cfg (compute_metrics ps) s" "raw_composite cfg (compute_metrics ps) s \<le> 1"
proof -
  let ?m = "compute_metrics ps"
  let ?e = "if vm_expectancy ?m > 0 then min (vm_expectancy ?m / 50) 1 else 0"
  let ?p = "max 0 ((cap5 (vm_profit_factor ?m) - 1) / 4)" and ?r = "cap5 (vm_recovery_factor ?m) / 5"
  let ?h = "min (max (vm_sharpe_ratio ?m) 0 / 2) 1" and ?s = "s / 100"
  have "0 \<le> cap5 (vm_recovery_factor ?m)"
    using assms(4) ratio_or_inf_Ratio_nonneg[of "vm_net_pnl ?m" "vm_max_drawdown ?m"]
    by (auto simp: metrics_ratios cap5_def split: profit_ratio.split)
  then have u: "0 \<le> ?e" "?e \<le> 1" "0 \<le> ?p" "?p \<le> 1" "0 \<le> ?s" "?s \<le> 1" "0 \<le> ?h" "?h \<le> 1" "0 \<le> ?r" "?r \<le> 1"
    using assms(2,3) cap5_le[of "vm_profit_factor ?m"] cap5_le[of "vm_recovery_factor ?m"] by auto
  have w: "0 \<le> rk_weight_expectancy cfg" "0 \<le> rk_weight_profit_factor cfg" "0 \<le> rk_weight_stability cfg"
      "0 \<le> rk_weight_sharpe cfg" "0 \<le> rk_weight_recovery cfg"
    using assms(1) by (auto simp: sane_weights_def)
  note b = weighted_unit[OF w(1) u(1,2)] weighted_unit[OF w(2) u(3,4)] weighted_unit[OF w(3) u(5,6)]
    weighted_unit[OF w(4) u(7,8)] weighted_unit[OF w(5) u(9,10)]
  have e: "raw_composite cfg ?m s = rk_weight_expectancy cfg * ?e + rk_weight_profit_factor cfg * ?p +
      rk_weight_stability cfg * ?s + rk_weight_sharpe cfg * ?h + rk_weight_recovery cfg * ?r"
    by (simp add: raw_composite_def Let_def)
  show "0 \<le> raw_composite cfg ?m s" unfolding e using b by linarith
  show "raw_composite cfg ?m s \<le> 1" unfolding e using b assms(1) unfolding sane_weights_def by linarith
qed

lemma composite_bounds:
  assumes "composite_score cfg (compute_metrics ps) s = Inr x" and "sane_weights cfg" "0 \<le> s" "s \<le> 100"
    and "0 \<le> vm_net_pnl (compute_metrics ps)"
  shows "0 \<le> x" "x \<le> 100"
proof -
  let ?q = "of_nat (vm_trade_count (compute_metrics ps)) / of_int (rk_confidence_target_trades cfg) :: pyfloat"
  let ?raw = "raw_composite cfg (compute_metrics ps) s"
  have x: "x = ?raw * min 1 (sqrt ?q) * 100" and q: "0 \<le> ?q"
    using assms(1) by (auto simp: composite_score_def Let_def split: if_splits)
  have r: "0 \<le> ?raw" "?raw \<le> 1" using raw_composite_bounds[OF assms(2-5)] by auto
  have c: "0 \<le> min 1 (sqrt ?q)" "min 1 (sqrt ?q) \<le> 1" using q by auto
  show "0 \<le> x" unfolding x using r c by simp
  have "?raw * min 1 (sqrt ?q) \<le> 1" using mult_le_one[OF r(2) c] by simp
  then show "x \<le> 100" unfolding x by simp
qed

lemma composite_defined: "0 < rk_confidence_target_trades cfg \<Longrightarrow> \<exists>x. composite_score cfg m s = Inr x"
  by (auto simp: composite_score_def Let_def divide_less_0_iff)

subsection \<open>The ranked list\<close>

text \<open>
  What a ranked variant promises of the trades \<open>ts\<close> it was scored on: enough trades, the best exit
  model of those the configuration admits, and the figures of that model.
\<close>

definition justified :: "ranking_config \<Rightarrow> zone_clock \<Rightarrow> research_row list \<Rightarrow> ranked_variant \<Rightarrow> bool" where
  "justified cfg loc ts rv \<longleftrightarrow>
     (let col = rv_best_exit_model rv @ ''_result''; pnls = column ts col in
      rk_min_trade_count cfg \<le> int (length ts) \<and> eligible_model cfg ts col \<and>
      list_all (\<lambda>c. eligible_model cfg ts c \<longrightarrow> mean (column ts c) \<le> mean pnls) EXIT_MODEL_COLUMNS \<and>
      rv_best_exit_expectancy rv = mean pnls \<and> rk_min_expectancy cfg < mean pnls \<and>
      rv_metrics rv = compute_metrics pnls \<and>
      rv_stability_score rv = st_score (compute_stability loc ts col ''weekly'') \<and>
      rk_min_stability cfg \<le> rv_stability_score rv \<and>
      composite_score cfg (rv_metrics rv) (rv_stability_score rv) = Inr (rv_composite_score rv))"

lemma score_variant_justified:
  assumes "score_variant cfg cm loc vid ts = Inr (Some rv)"
  shows "justified cfg loc ts rv" "rv_variant_id rv = vid"
proof -
  have n: "rk_min_trade_count cfg \<le> int (length ts)"
    using assms by (simp add: score_variant_def split: if_splits)
  obtain c e tops where f: "find_best_exit_models cfg ts = (Some c, e, tops)"
    using assms by (cases "find_best_exit_models cfg ts"; cases "fst (find_best_exit_models cfg ts)")
      (auto simp: score_variant_def split: if_splits)
  note best = find_best_Some[OF f]
  have ne: "column ts c \<noteq> []" using best(1) by (auto simp: eligible_model_def mean_def)
  let ?st = "compute_stability loc ts c ''weekly''"
  have e: "rk_min_expectancy cfg < e" and st: "rk_min_stability cfg \<le> st_score ?st"
    using assms n f ne by (auto simp: score_variant_def Let_def split: if_splits)
  obtain x where x: "composite_score cfg (compute_metrics (column ts c)) (st_score ?st) = Inr x"
    using assms n f ne e st by (cases "composite_score cfg (compute_metrics (column ts c)) (st_score ?st)")
      (auto simp: score_variant_def Let_def)
  have rv: "rv_variant_id rv = vid" "rv_best_exit_model rv = without ''_result'' c" "rv_best_exit_expectancy rv = e"
      "rv_metrics rv = compute_metrics (column ts c)" "rv_stability_score rv = st_score ?st" "rv_composite_score rv = x"
    using assms n f ne e st x by (auto simp: score_variant_def Let_def compute_edge_ratio_def)
  have "without ''_result'' c @ ''_result'' = c"
    using exit_model_names best(1) by (auto simp: list_all_iff eligible_model_def)
  then show "justified cfg loc ts rv"
    using n best(1-3) e st x rv by (auto simp: justified_def Let_def list_all_iff)
  show "rv_variant_id rv = vid" by (rule rv)
qed

lemma collect_Inr:
  "collect f xs = Inr ys \<longleftrightarrow> length ys = length xs \<and> (\<forall>i < length xs. f (xs ! i) = Inr (ys ! i))"
proof (induction xs arbitrary: ys)
  case Nil
  then show ?case by auto
next
  case (Cons x xs)
  show ?case
  proof (cases ys)
    case Nil
    then show ?thesis by (auto split: sum.splits)
  next
    case (Cons y zs)
    then show ?thesis using Cons.IH[of zs] by (auto simp: All_less_Suc2 split: sum.splits)
  qed
qed

lemma collect_mem:
  assumes "collect f xs = Inr ys"
  shows "y \<in> set ys \<longleftrightarrow> (\<exists>x \<in> set xs. f x = Inr y)"
proof -
  have l: "length ys = length xs" "\<And>i. i < length xs \<Longrightarrow> f (xs ! i) = Inr (ys ! i)"
    using assms collect_Inr by auto
  show ?thesis unfolding in_set_conv_nth Bex_def using l by (metis Inr_inject nth_mem in_set_conv_nth)
qed

lemma variant_groups_mem:
  "(vid, g) \<in> set (variant_groups ts) \<longleftrightarrow> vid \<noteq> '''' \<and> g = filter (\<lambda>t. text_of t ''variant_id'' '''' = vid) ts \<and> g \<noteq> []"
  by (auto simp: variant_groups_def group_by_mem filter_empty_conv intro!: filter_cong)

lemma assign_ranks_mem: "rv \<in> set (assign_ranks rvs) \<Longrightarrow> \<exists>rv0 \<in> set rvs. rv = rv0\<lparr>rv_rank := rv_rank rv\<rparr>"
  by (auto simp: assign_ranks_def in_set_conv_nth) (metis nth_mem ranked_variant.select_convs(1) ranked_variant.update_convs(1) ranked_variant.surjective)

lemma length_assign_ranks [simp]: "length (assign_ranks rvs) = length rvs"
  by (simp add: assign_ranks_def del: upt_Suc)

lemma nth_assign_ranks: "i < length rvs \<Longrightarrow> assign_ranks rvs ! i = (rvs ! i)\<lparr>rv_rank := Suc i\<rparr>"
  by (simp add: assign_ranks_def del: upt_Suc)

lemma map_assign_ranks: "(\<And>rv i. f (rv\<lparr>rv_rank := i\<rparr>) = f rv) \<Longrightarrow> List.map f (assign_ranks rvs) = List.map f rvs"
  by (rule nth_equalityI) (simp_all add: nth_assign_ranks)

lemma ranks_assigned: "List.map rv_rank (assign_ranks rvs) = [1 ..< Suc (length rvs)]"
  by (rule nth_equalityI) (simp_all add: nth_assign_ranks del: upt_Suc)

lemma justified_rank: "justified cfg loc ts (rv\<lparr>rv_rank := i\<rparr>) = justified cfg loc ts rv"
  by (simp add: justified_def)

definition trades_of :: "research_row list \<Rightarrow> string \<Rightarrow> research_row list" where
  "trades_of ts vid = filter (\<lambda>t. text_of t ''variant_id'' '''' = vid) ts"

lemma variant_groups_distinct: "distinct (List.map fst (variant_groups ts))"
  by (simp add: variant_groups_def distinct_group_by)

lemma sorted_take_ge:
  fixes f :: "'a \<Rightarrow> pyfloat"
  assumes "x \<in> set xs" "x \<notin> set (take n (sort_key (\<lambda>x. - f x) xs))" "y \<in> set (take n (sort_key (\<lambda>x. - f x) xs))"
  shows "f x \<le> f y"
proof -
  let ?s = "sort_key (\<lambda>x. - f x) xs"
  have "x \<in> set (take n ?s @ drop n ?s)" using assms(1) by (simp only: append_take_drop_id set_sort)
  then have d: "x \<in> set (drop n ?s)" using assms(2) unfolding set_append by blast
  have "sorted (List.map (\<lambda>x. - f x) (take n ?s @ drop n ?s))" by (simp only: append_take_drop_id sorted_sort_key)
  then have "- f y \<le> - f x" using d assms(3) unfolding map_append sorted_append by auto
  then show "f x \<le> f y" by simp
qed

text \<open>The candidates: one per group that scores, each justified by its group.\<close>

lemma candidates_justified:
  assumes "collect (\<lambda>(vid, g). score_variant cfg cm loc vid g) (variant_groups ts) = Inr scored"
    and "rv \<in> set (List.map_filter (\<lambda>s. s) scored)"
  shows "justified cfg loc (trades_of ts (rv_variant_id rv)) rv" "rv_variant_id rv \<noteq> ''''"
proof -
  have "Some rv \<in> set scored" using assms(2) by (auto simp: set_map_filter)
  then obtain vid g where g: "(vid, g) \<in> set (variant_groups ts)" "score_variant cfg cm loc vid g = Inr (Some rv)"
    using collect_mem[OF assms(1), of "Some rv"] by auto
  then have "g = trades_of ts vid" "vid \<noteq> ''''" by (auto simp: variant_groups_mem trades_of_def)
  then show "justified cfg loc (trades_of ts (rv_variant_id rv)) rv" "rv_variant_id rv \<noteq> ''''"
    using score_variant_justified[OF g(2)] by auto
qed

lemma map_filter_distinct_ids:
  assumes "length gs = length scored" "distinct (List.map fst gs)"
    "\<And>i rv. i < length gs \<Longrightarrow> scored ! i = Some rv \<Longrightarrow> rv_variant_id rv = fst (gs ! i)"
  shows "distinct (List.map rv_variant_id (List.map_filter (\<lambda>s. s) scored))"
  using assms
proof (induction gs scored rule: list_induct2)
  case Nil
  then show ?case by (simp add: List.map_filter_simps)
next
  case (Cons g gs s scored)
  have ids: "rv_variant_id rv = fst (gs ! i)" if "i < length gs" "scored ! i = Some rv" for i rv
    using Cons.prems(2)[of "Suc i" rv] that by simp
  have ih: "distinct (List.map rv_variant_id (List.map_filter (\<lambda>s. s) scored))" by (rule Cons.IH) (use Cons.prems(1) ids in auto)
  show ?case
  proof (cases s)
    case None
    then show ?thesis using ih by (simp add: List.map_filter_simps)
  next
    case (Some rv)
    have "rv_variant_id rv' \<noteq> rv_variant_id rv" if rv': "rv' \<in> set (List.map_filter (\<lambda>s. s) scored)" for rv'
    proof -
      from rv' obtain i where i: "i < length scored" "scored ! i = Some rv'"
        unfolding set_map_filter by (metis in_set_conv_nth)
      then have "rv_variant_id rv' \<in> fst ` set gs" using ids[of i rv'] Cons.hyps by auto
      moreover have "fst g \<notin> fst ` set gs" using Cons.prems(1) by simp
      moreover have "rv_variant_id rv = fst g" using Cons.prems(2)[of 0 rv] Some by simp
      ultimately show ?thesis by metis
    qed
    then have "rv_variant_id rv \<notin> rv_variant_id ` set (List.map_filter (\<lambda>s. s) scored)" by (metis imageE)
    then show ?thesis using ih Some by (simp add: List.map_filter_simps)
  qed
qed


text \<open>
  The ranked list: at most \<open>top_n\<close> variants, one per variant id, ranks counted from 1, the composite
  scores descending, each variant justified by its own trades, and no scored variant left out
  unless the list is full of variants at least as good.
\<close>

definition ranking_sound ::
  "ranking_config \<Rightarrow> zone_clock \<Rightarrow> research_row list \<Rightarrow> ranked_variant list \<Rightarrow> bool" where
  "ranking_sound cfg loc ts rvs \<longleftrightarrow>
     length rvs \<le> rk_top_n cfg \<and> List.map rv_rank rvs = [1 ..< Suc (length rvs)] \<and>
     distinct (List.map rv_variant_id rvs) \<and> sorted (List.map (\<lambda>rv. - rv_composite_score rv) rvs) \<and>
     list_all (\<lambda>rv. rv_variant_id rv \<noteq> '''' \<and> justified cfg loc (trades_of ts (rv_variant_id rv)) rv) rvs \<and>
     list_all (\<lambda>(vid, g). case score_variant cfg (get_cost_model (rk_cost_model cfg)) loc vid g of
         Inl _ \<Rightarrow> False
       | Inr None \<Rightarrow> vid \<notin> rv_variant_id ` set rvs
       | Inr (Some rv) \<Rightarrow> vid \<in> rv_variant_id ` set rvs \<or>
           length rvs = rk_top_n cfg \<and> list_all (\<lambda>r. rv_composite_score rv \<le> rv_composite_score r) rvs)
       (variant_groups ts)"

lemma candidate_ids:
  assumes "collect (\<lambda>(vid, g). score_variant cfg cm loc vid g) (variant_groups ts) = Inr scored"
  shows "distinct (List.map rv_variant_id (List.map_filter (\<lambda>s. s) scored))"
proof (rule map_filter_distinct_ids)
  have c: "length scored = length (variant_groups ts)"
      "\<And>i. i < length (variant_groups ts) \<Longrightarrow>
        score_variant cfg cm loc (fst (variant_groups ts ! i)) (snd (variant_groups ts ! i)) = Inr (scored ! i)"
    using assms by (auto simp: collect_Inr case_prod_unfold)
  show "length (variant_groups ts) = length scored" by (simp add: c)
  show "distinct (List.map fst (variant_groups ts))" by (rule variant_groups_distinct)
  fix i rv assume "i < length (variant_groups ts)" "scored ! i = Some rv"
  then show "rv_variant_id rv = fst (variant_groups ts ! i)" using c(2)[of i] score_variant_justified(2) by fastforce
qed

lemma top_sound:
  assumes "collect (\<lambda>(vid, g). score_variant cfg (get_cost_model (rk_cost_model cfg)) loc vid g) (variant_groups ts) = Inr scored"
  shows "ranking_sound cfg loc ts
    (assign_ranks (take (rk_top_n cfg) (sort_key (\<lambda>rv. - rv_composite_score rv) (List.map_filter (\<lambda>s. s) scored))))"
    (is "ranking_sound cfg loc ts (assign_ranks ?top)")
proof -
  let ?c = "List.map_filter (\<lambda>s. s) scored" and ?cm = "get_cost_model (rk_cost_model cfg)"
  let ?s = "sort_key (\<lambda>rv. - rv_composite_score rv) ?c"
  have sub: "set ?top \<subseteq> set ?c" using set_take_subset[of "rk_top_n cfg" ?s] by simp
  have ids: "List.map rv_variant_id (assign_ranks ?top) = List.map rv_variant_id ?top"
    and comps: "List.map rv_composite_score (assign_ranks ?top) = List.map rv_composite_score ?top"
    by (simp_all add: map_assign_ranks)
  have id_set: "rv_variant_id ` set (assign_ranks ?top) = rv_variant_id ` set ?top"
    using arg_cong[OF ids, of set] by simp
  have "mset (List.map rv_variant_id ?s) = mset (List.map rv_variant_id ?c)" by simp
  then have "distinct (List.map rv_variant_id ?s)" using candidate_ids[OF assms] mset_eq_imp_distinct_iff by blast
  then have dist: "distinct (List.map rv_variant_id ?top)" by (metis distinct_take take_map)
  have "sorted (take (rk_top_n cfg) (List.map (\<lambda>rv. - rv_composite_score rv) ?s))" by (rule sorted_wrt_take) simp
  then have sorted: "sorted (List.map (\<lambda>rv. - rv_composite_score rv) (assign_ranks ?top))"
    by (simp add: map_assign_ranks take_map)
  have just: "rv_variant_id rv \<noteq> '''' \<and> justified cfg loc (trades_of ts (rv_variant_id rv)) rv"
    if "rv \<in> set (assign_ranks ?top)" for rv
  proof -
    obtain rv0 where rv0: "rv0 \<in> set ?top" "rv = rv0\<lparr>rv_rank := rv_rank rv\<rparr>" using assign_ranks_mem[OF \<open>rv \<in> _\<close>] by blast
    have "justified cfg loc (trades_of ts (rv_variant_id rv0)) rv0" "rv_variant_id rv0 \<noteq> ''''"
      using candidates_justified[OF assms] sub rv0(1) by auto
    moreover have "rv_variant_id rv = rv_variant_id rv0" by (subst rv0(2)) simp
    moreover have "justified cfg loc us rv = justified cfg loc us rv0" for us
      by (subst rv0(2)) (rule justified_rank)
    ultimately show ?thesis by simp
  qed
  have comp: "case score_variant cfg ?cm loc vid g of
         Inl _ \<Rightarrow> False
       | Inr None \<Rightarrow> vid \<notin> rv_variant_id ` set ?top
       | Inr (Some rv) \<Rightarrow> vid \<in> rv_variant_id ` set ?top \<or>
           length ?top = rk_top_n cfg \<and> list_all (\<lambda>r. rv_composite_score rv \<le> rv_composite_score r) ?top"
    if vg: "(vid, g) \<in> set (variant_groups ts)" for vid g
  proof -
    obtain i where i: "i < length (variant_groups ts)" "variant_groups ts ! i = (vid, g)" using vg by (auto simp: in_set_conv_nth)
    have sc: "score_variant cfg ?cm loc vid g = Inr (scored ! i)" and len: "length scored = length (variant_groups ts)"
      using assms i by (force simp: collect_Inr)+
    show ?thesis
    proof (cases "scored ! i")
      case None
      have "vid \<noteq> rv_variant_id r" if r: "r \<in> set ?top" for r
      proof
        assume v: "vid = rv_variant_id r"
        have "Some r \<in> set scored" using sub r by (auto simp: set_map_filter)
        then obtain vid' g' where g': "(vid', g') \<in> set (variant_groups ts)" "score_variant cfg ?cm loc vid' g' = Inr (Some r)"
          using collect_mem[OF assms, of "Some r"] by auto
        then have "vid' = vid" using score_variant_justified(2)[OF g'(2)] v by simp
        then have "g' = g" using g'(1) vg by (auto simp: variant_groups_mem)
        then show False using g'(2) sc None \<open>vid' = vid\<close> by simp
      qed
      then show ?thesis using sc None by auto
    next
      case (Some rv)
      have "Some rv \<in> set scored" using Some i(1) len by (metis nth_mem)
      then have rv: "rv \<in> set ?c" "rv_variant_id rv = vid"
        using Some score_variant_justified(2)[of cfg ?cm loc vid g rv] sc by (auto simp: set_map_filter)
      show ?thesis
      proof (cases "rv \<in> set ?top")
        case True
        then show ?thesis using sc Some rv by auto
      next
        case False
        have "rk_top_n cfg \<le> length ?s"
        proof (rule ccontr)
          assume "\<not> rk_top_n cfg \<le> length ?s"
          then have "?top = ?s" by simp
          then show False using False rv(1) by simp
        qed
        then have "length ?top = rk_top_n cfg" by simp
        moreover have "rv_composite_score rv \<le> rv_composite_score r" if "r \<in> set ?top" for r
          by (rule sorted_take_ge[OF rv(1) False that])
        ultimately show ?thesis using sc Some by (simp add: list_all_iff)
      qed
    qed
  qed
  have all_comps: "list_all (\<lambda>r. x \<le> rv_composite_score r) (assign_ranks ?top) = list_all (\<lambda>r. x \<le> rv_composite_score r) ?top" for x
    using arg_cong[OF comps, of "list_all (\<lambda>y. x \<le> y)"] by (simp add: list_all_length)
  show ?thesis
    unfolding ranking_sound_def all_comps id_set ranks_assigned ids length_assign_ranks
    using dist sorted just comp by (fastforce simp: list_all_iff)
qed


text \<open>
  The property over a whole run. With a positive confidence target the scorer never raises, and the
  writes are those of the returned list.
\<close>

lemma score_variant_returns:
  assumes "0 < rk_confidence_target_trades cfg"
  shows "\<exists>r. score_variant cfg cm loc vid ts = Inr r"
proof -
  obtain b e tops where f: "find_best_exit_models cfg ts = (b, e, tops)" by (cases "find_best_exit_models cfg ts")
  obtain x where "composite_score cfg (compute_metrics (column ts (the b)))
      (st_score (compute_stability loc ts (the b) ''weekly'')) = Inr x"
    using composite_defined[OF assms] by blast
  then show ?thesis by (cases b) (auto simp: score_variant_def f Let_def compute_edge_ratio_def)
qed

lemma collect_returns: "(\<And>x. x \<in> set xs \<Longrightarrow> \<exists>r. f x = Inr r) \<Longrightarrow> \<exists>ys. collect f xs = Inr ys"
proof (induction xs)
  case (Cons x xs)
  then obtain r ys where "f x = Inr r" "collect f xs = Inr ys" by fastforce
  then show ?case by simp
qed simp

lemma rank_variants_sound:
  assumes "0 < rk_confidence_target_trades cfg"
  shows "\<exists>rvs. rank_variants cfg loc load start_ms end_ms label =
      Inr (rvs, if label \<noteq> '''' \<and> load start_ms end_ms \<noteq> [] then save_scores rvs label else []) \<and>
    ranking_sound cfg loc (load start_ms end_ms) rvs"
proof (cases "load start_ms end_ms = []")
  case True
  then show ?thesis
    by (intro exI[of _ "[]"]) (simp add: rank_variants_def Let_def ranking_sound_def variant_groups_def)
next
  case False
  obtain scored where s: "collect (\<lambda>(vid, g). score_variant cfg (get_cost_model (rk_cost_model cfg)) loc vid g)
      (variant_groups (load start_ms end_ms)) = Inr scored"
    using collect_returns[of "variant_groups (load start_ms end_ms)"
        "\<lambda>(vid, g). score_variant cfg (get_cost_model (rk_cost_model cfg)) loc vid g"]
      score_variant_returns[OF assms] by auto
  show ?thesis using top_sound[OF s] False by (auto simp: rank_variants_def Let_def s)
qed

lemma justified_composite_bounds:
  assumes "justified cfg loc ts rv" and "sane_weights cfg"
  shows "0 \<le> rv_composite_score rv" "rv_composite_score rv \<le> 100"
proof -
  let ?col = "rv_best_exit_model rv @ ''_result''"
  have j: "eligible_model cfg ts ?col" "rv_metrics rv = compute_metrics (column ts ?col)"
      "rv_stability_score rv = st_score (compute_stability loc ts ?col ''weekly'')"
      "composite_score cfg (rv_metrics rv) (rv_stability_score rv) = Inr (rv_composite_score rv)"
    using assms(1) by (auto simp: justified_def Let_def)
  have "0 < sum_list (column ts ?col)" using j(1) by (auto simp: eligible_model_def mean_def zero_less_divide_iff)
  then have "0 \<le> vm_net_pnl (compute_metrics (column ts ?col))" by (simp add: metrics_counts)
  then show "0 \<le> rv_composite_score rv" "rv_composite_score rv \<le> 100"
    using composite_bounds[OF j(4)[unfolded j(2,3)] assms(2)] stability_bounds by auto
qed

text \<open>
  The trades carry the exchange's instrument tokens. For them the cost that is reported comes from
  the futures table, but the cost that is deducted is looked up by name: Bank Nifty reports 28
  points and pays the 3 points of a stock.
\<close>

lemma token_cost_not_applied:
  "map_of FUTURES_COST_POINTS ''26009'' = Some 28"
  "apply_costs (get_cost_model (rk_cost_model default_ranking)) [p] ''26009'' = [p - 3]"
proof -
  have "get_cost_model (rk_cost_model default_ranking) = COST_EQUITY_INTRADAY" by code_simp
  moreover have "cost_per_trade_points COST_EQUITY_INTRADAY ''26009'' = 3" by code_simp
  ultimately show "apply_costs (get_cost_model (rk_cost_model default_ranking)) [p] ''26009'' = [p - 3]"
    by (simp add: apply_costs_def)
qed (code_simp)


text \<open>C19: With a positive confidence target the ranker never raises. It returns at most the
  configured number of variants, each once, ranked from 1 by falling composite score; each of them
  has the required trades, its best exit model is the best of all eligible ones, its figures are
  those of that model, and a variant that passes the gates is left out only when the list is full
  of variants that score at least as high. What it writes is the returned list.\<close>

theorem ranking_correct:
  assumes "0 < rk_confidence_target_trades cfg"
  shows "\<exists>rvs. rank_variants cfg loc load start_ms end_ms label =
      Inr (rvs, if label \<noteq> '''' \<and> load start_ms end_ms \<noteq> [] then save_scores rvs label else []) \<and>
    ranking_sound cfg loc (load start_ms end_ms) rvs"
  by (rule rank_variants_sound[OF assms])

definition thin_row :: research_row where
  "thin_row = \<lparr>row_text = (\<lambda>k. if k = ''variant_id'' then Some ''v1'' else None),
     row_num = (\<lambda>k. if k = ''rr2_result'' then Some 5 else None), row_entry_ms = 1\<rparr>"

theorem ranking_correct_witness:
  "0 < rk_confidence_target_trades default_ranking \<and>
   (\<exists>rvs. ranking_sound default_ranking (utc_zones NY) [thin_row] rvs \<and>
      rank_variants default_ranking (utc_zones NY) (\<lambda>a b. [thin_row]) 0 10 ''2026-06'' = Inr (rvs, save_scores rvs ''2026-06''))"
  using ranking_correct[of default_ranking "utc_zones NY" "\<lambda>a b. [thin_row]" 0 10 "''2026-06''"]
  by (auto simp: default_ranking_def)

end
