(* ===== verification/Regime_Scorer.thy ===== *)
theory Regime_Scorer
  imports Variant_Ranker
begin

section \<open>Scoring: the best variant per market condition\<close>

text \<open>
  \<open>app/scoring/regime_scorer.py\<close>: the winners of every condition, and the forward walk over unseen
  data. The store's query for one condition and one window is the argument \<open>load\<close>. Printing and
  the command line are left out, except for the choice of the instruments.
\<close>

definition ALL_INSTRUMENTS :: "(string \<times> string) list" where
  "ALL_INSTRUMENTS = [(''26000'', ''NIFTY''), (''26009'', ''BANKNIFTY''), (''2885'', ''RELIANCE''),
     (''1333'', ''HDFCBANK''), (''4963'', ''ICICIBANK''), (''3045'', ''SBIN''), (''5900'', ''AXISBANK''),
     (''1594'', ''INFY''), (''11536'', ''TCS''), (''10604'', ''BHARTIARTL'')]"

definition INSTRUMENT_PRESETS :: "(string \<times> string list) list" where
  "INSTRUMENT_PRESETS = [(''bnf'', [''26009'']), (''nf'', [''26000'']), (''indices'', [''26000'', ''26009'']),
     (''stocks'', [''2885'', ''1333'', ''4963'', ''3045'', ''5900'', ''1594'', ''11536'', ''10604'']),
     (''all'', List.map fst ALL_INSTRUMENTS)]"

definition VOLATILITY_REGIMES :: "string list" where
  "VOLATILITY_REGIMES = [''HIGH'', ''NORMAL'', ''LOW'']"

definition MARKET_STRUCTURES :: "string list" where
  "MARKET_STRUCTURES = [''TRENDING'', ''RANGING'', ''TRANSITIONING'']"

definition DAY_SESSIONS :: "string list" where
  "DAY_SESSIONS = [''MORNING'', ''MIDDAY'', ''CLOSING'']"

record condition_key =
  ck_instrument :: string
  ck_volatility :: string
  ck_structure :: string
  ck_session :: string

definition instrument_name :: "condition_key \<Rightarrow> string" where
  "instrument_name k = (case map_of ALL_INSTRUMENTS (ck_instrument k) of None \<Rightarrow> ck_instrument k | Some n \<Rightarrow> n)"

definition condition_label :: "condition_key \<Rightarrow> string" where
  "condition_label k = instrument_name k @ ''|'' @ ck_volatility k @ ''|'' @ ck_structure k @ ''|'' @ ck_session k"

record condition_winner =
  cw_condition :: condition_key
  cw_variant_id :: string
  cw_strategy :: string
  cw_timeframe :: string
  cw_exit_model :: string
  cw_trade_count :: nat
  cw_win_rate :: pyfloat
  cw_expectancy :: pyfloat
  cw_profit_factor :: profit_ratio
  cw_net_pnl :: pyfloat
  cw_max_drawdown :: pyfloat
  cw_sharpe_ratio :: pyfloat
  cw_trades_per_month :: pyfloat
  cw_stability_score :: pyfloat
  cw_avg_mfe :: pyfloat
  cw_avg_mae :: pyfloat
  cw_max_consecutive_losses :: nat
  cw_score :: pyfloat
  cw_net_expectancy :: pyfloat
  cw_profitable_after_costs :: bool

text \<open>The scorer: its settings, and the months of the window it works on.\<close>

record regime_scorer =
  sc_min_trades :: int
  sc_top_n :: nat
  sc_cost_model_name :: string
  sc_instruments :: "string list"
  sc_min_trades_per_month :: pyfloat
  sc_train_months :: pyfloat

definition cost_for_instrument :: "regime_scorer \<Rightarrow> string \<Rightarrow> pyfloat" where
  "cost_for_instrument sc token =
     (if sc_cost_model_name sc = ''futures''
      then (case map_of FUTURES_COST_POINTS token of None \<Rightarrow> 5 | Some c \<Rightarrow> c)
      else cost_per_trade_points (get_cost_model (sc_cost_model_name sc))
             (case map_of ALL_INSTRUMENTS token of None \<Rightarrow> token | Some n \<Rightarrow> n))"

text \<open>\<open>_find_best_exit\<close>: the first model with the largest expectancy above zero.\<close>

definition best_exit_step :: "research_row list \<Rightarrow> int \<Rightarrow> string \<Rightarrow> string option \<times> pyfloat \<Rightarrow> string option \<times> pyfloat" where
  "best_exit_step ts mt col b =
     (let pnls = column ts col in
      if int (length pnls) < mt then b
      else let e = vm_expectancy (compute_metrics pnls) in
        if e > snd b then (Some col, e) else b)"

definition find_best_exit :: "research_row list \<Rightarrow> int \<Rightarrow> string option \<times> pyfloat" where
  "find_best_exit ts mt = fold (best_exit_step ts mt) EXIT_MODEL_COLUMNS (None, 0)"

definition condition_composite :: "variant_metrics \<Rightarrow> nat \<Rightarrow> pyfloat \<Rightarrow> pyfloat \<Rightarrow> pyfloat" where
  "condition_composite m trade_count trades_per_month stability_score =
     (let norm_exp = (if vm_expectancy m > 0 then min (vm_expectancy m / 100) 1 else 0);
          norm_wr = min (max 0 ((vm_win_rate m - 4/10) / (1/2))) 1;
          norm_pf = max 0 ((cap5 (vm_profit_factor m) - 1) / 4);
          norm_sharpe = min (max (vm_sharpe_ratio m) 0 / 2) 1;
          monthly_income = max 0 (vm_expectancy m * trades_per_month);
          norm_monthly = min (monthly_income / 1000) 1;
          norm_stability = stability_score / 100;
          raw = 30/100 * norm_exp + 15/100 * norm_wr + 10/100 * norm_pf + 10/100 * norm_sharpe +
                15/100 * norm_monthly + 20/100 * norm_stability;
          confidence = min 1 (sqrt (of_nat trade_count / 100))
      in raw * confidence * 100)"

text \<open>The winner that \<open>_score_variant_for_condition\<close> returns at its end.\<close>

definition build_winner ::
  "regime_scorer \<Rightarrow> string \<Rightarrow> research_row list \<Rightarrow> condition_key \<Rightarrow> string \<Rightarrow> pyfloat list \<Rightarrow> stability_result \<Rightarrow>
   condition_winner" where
  "build_winner sc vid ts cond best_exit pnls stab =
     (let m = compute_metrics pnls;
          months = (if sc_train_months sc > 0 then sc_train_months sc else 1);
          per_month = of_nat (length pnls) / months;
          net_exp = vm_expectancy m - cost_for_instrument sc (ck_instrument cond);
          mfes = column ts ''mfe''; maes = column ts ''mae''
      in \<lparr>cw_condition = cond, cw_variant_id = vid, cw_strategy = text_of (hd ts) ''strategy'' '''',
          cw_timeframe = text_of (hd ts) ''timeframe'' '''',
          cw_exit_model = without ''_result'' best_exit, cw_trade_count = vm_trade_count m,
          cw_win_rate = vm_win_rate m, cw_expectancy = vm_expectancy m,
          cw_profit_factor = vm_profit_factor m, cw_net_pnl = vm_net_pnl m,
          cw_max_drawdown = vm_max_drawdown m, cw_sharpe_ratio = vm_sharpe_ratio m,
          cw_trades_per_month = per_month, cw_stability_score = st_score stab,
          cw_avg_mfe = (if mfes \<noteq> [] then mean mfes else 0),
          cw_avg_mae = (if maes \<noteq> [] then mean maes else 0),
          cw_max_consecutive_losses = vm_max_consecutive_losses m,
          cw_score = condition_composite m (length pnls) per_month (st_score stab),
          cw_net_expectancy = net_exp, cw_profitable_after_costs = (net_exp > 0)\<rparr>)"

definition score_variant_for_condition ::
  "regime_scorer \<Rightarrow> zone_clock \<Rightarrow> string \<Rightarrow> research_row list \<Rightarrow> condition_key \<Rightarrow> int \<Rightarrow> condition_winner option" where
  "score_variant_for_condition sc loc vid ts cond mt =
     (case find_best_exit ts mt of
        (None, _) \<Rightarrow> None
      | (Some best_exit, best_exp) \<Rightarrow>
          if best_exp \<le> 0 then None
          else let pnls = column ts best_exit in
            if int (length pnls) < mt then None
            else if vm_expectancy (compute_metrics pnls) \<le> 0 then None
            else let stab = compute_stability loc ts best_exit ''monthly'' in
              if st_periods_analyzed stab \<ge> 3 \<and>
                 of_nat (st_periods_profitable stab) / of_nat (st_periods_analyzed stab) < (4/10 :: pyfloat) then None
              else Some (build_winner sc vid ts cond best_exit pnls stab))"

type_synonym condition_load = "condition_key \<Rightarrow> pyfloat \<Rightarrow> pyfloat \<Rightarrow> research_row list"

definition score_condition ::
  "regime_scorer \<Rightarrow> zone_clock \<Rightarrow> condition_load \<Rightarrow> condition_key \<Rightarrow> pyfloat \<Rightarrow> pyfloat \<Rightarrow> int option \<Rightarrow>
   condition_winner list" where
  "score_condition sc loc load cond start_ms end_ms effective_min =
     (let mt = (case effective_min of None \<Rightarrow> sc_min_trades sc | Some n \<Rightarrow> n);
          ts = load cond start_ms end_ms
      in if int (length ts) < mt then []
         else
           let candidates = List.map_filter (\<lambda>(vid, g). if int (length g) < mt then None
                 else score_variant_for_condition sc loc vid g cond mt) (variant_groups ts)
           in take (sc_top_n sc) (sort_key (\<lambda>w. - cw_score w) candidates))"

text \<open>The months of the window (at least one) and the trades a condition needs.\<close>

definition train_months :: "zone_clock \<Rightarrow> pyfloat \<Rightarrow> pyfloat \<Rightarrow> pyfloat" where
  "train_months loc start_ms end_ms =
     max 1 (of_int \<lfloor>(to_wall loc end_ms - to_wall loc start_ms) / day_ms\<rfloor> / (3044/100))"

definition effective_min_trades :: "regime_scorer \<Rightarrow> int" where
  "effective_min_trades sc =
     (if sc_min_trades_per_month sc > 0
      then max (sc_min_trades sc) (py_int (sc_min_trades_per_month sc * sc_train_months sc))
      else sc_min_trades sc)"

definition all_conditions :: "regime_scorer \<Rightarrow> condition_key list" where
  "all_conditions sc =
     [\<lparr>ck_instrument = inst, ck_volatility = vol, ck_structure = struct, ck_session = sess\<rparr>.
        inst \<leftarrow> sc_instruments sc, vol \<leftarrow> VOLATILITY_REGIMES, struct \<leftarrow> MARKET_STRUCTURES, sess \<leftarrow> DAY_SESSIONS]"

definition score_all_conditions ::
  "regime_scorer \<Rightarrow> zone_clock \<Rightarrow> condition_load \<Rightarrow> pyfloat \<Rightarrow> pyfloat \<Rightarrow>
   regime_scorer \<times> (condition_key \<times> condition_winner list) list" where
  "score_all_conditions sc loc load start_ms end_ms =
     (let sc = sc\<lparr>sc_train_months := train_months loc start_ms end_ms\<rparr>; mt = effective_min_trades sc
      in (sc, fold (\<lambda>cond res.
            let winners = score_condition sc loc load cond start_ms end_ms (Some mt)
            in if winners \<noteq> [] then AList.update cond winners res else res) (all_conditions sc) []))"

subsection \<open>Forward walk\<close>

record validation_result =
  vl_condition :: condition_key
  vl_variant_id :: string
  vl_exit_model :: string
  vl_train_trades :: nat
  vl_train_expectancy :: pyfloat
  vl_train_win_rate :: pyfloat
  vl_train_pf :: profit_ratio
  vl_val_trades :: nat
  vl_val_expectancy :: pyfloat
  vl_val_win_rate :: pyfloat
  vl_val_pf :: profit_ratio
  vl_passed :: bool
  vl_degradation_pct :: pyfloat

definition validate_condition ::
  "condition_load \<Rightarrow> pyfloat \<Rightarrow> pyfloat \<Rightarrow> condition_key \<times> condition_winner list \<Rightarrow> validation_result option" where
  "validate_condition load val_start val_end entry =
     (case entry of
        (cond, []) \<Rightarrow> None
      | (cond, w # _) \<Rightarrow>
          let ts = filter (\<lambda>t. row_text t ''variant_id'' = Some (cw_variant_id w)) (load cond val_start val_end);
              vr = \<lparr>vl_condition = cond, vl_variant_id = cw_variant_id w, vl_exit_model = cw_exit_model w,
                    vl_train_trades = cw_trade_count w, vl_train_expectancy = cw_expectancy w,
                    vl_train_win_rate = cw_win_rate w, vl_train_pf = cw_profit_factor w, vl_val_trades = 0,
                    vl_val_expectancy = 0, vl_val_win_rate = 0, vl_val_pf = Ratio 0, vl_passed = False,
                    vl_degradation_pct = 0\<rparr>
          in if length ts < 5 then Some (vr\<lparr>vl_val_trades := length ts\<rparr>)
             else let pnls = column ts (cw_exit_model w @ ''_result'') in
               if length pnls < 5 then Some vr
               else let m = compute_metrics pnls;
                        deg = (if cw_expectancy w > 0
                               then (cw_expectancy w - vm_expectancy m) / cw_expectancy w * 100 else 100)
                 in Some (vr\<lparr>vl_val_trades := vm_trade_count m, vl_val_expectancy := vm_expectancy m,
                            vl_val_win_rate := vm_win_rate m, vl_val_pf := vm_profit_factor m,
                            vl_degradation_pct := deg, vl_passed := (vm_expectancy m > 0 \<and> deg < 70)\<rparr>))"

definition validate_winners ::
  "condition_load \<Rightarrow> (condition_key \<times> condition_winner list) list \<Rightarrow> pyfloat \<Rightarrow> pyfloat \<Rightarrow> validation_result list" where
  "validate_winners load results val_start val_end =
     List.map_filter (validate_condition load val_start val_end) results"

text \<open>The instruments named on the command line: a preset, or a list of known tokens (\<open>None\<close> when one is unknown).\<close>

definition resolve_instruments :: "string \<Rightarrow> string list option" where
  "resolve_instruments arg =
     (case map_of INSTRUMENT_PRESETS arg of
        Some tokens \<Rightarrow> Some tokens
      | None \<Rightarrow>
          let tokens = List.map py_strip (filter (\<lambda>t. py_strip t \<noteq> []) (split_on CHR '','' arg))
          in if list_ex (\<lambda>t. t \<notin> fst ` set ALL_INSTRUMENTS) tokens then None else Some tokens)"

subsection \<open>The best exit model of both scorers\<close>

lemma hd_insort_key:
  "hd (insort_key g x s) = (if s = [] \<or> g x \<le> g (hd s) then x else hd s)"
  by (cases s) auto

lemma max_by_right:
  "max_by f b (x # xs) = (if f (max_by f x xs) \<le> f b then b else max_by f x xs)"
proof (induction xs arbitrary: b x)
  case Nil
  then show ?case by auto
next
  case (Cons y ys)
  have "max_by f b (x # y # ys) = max_by f (if f x > f b then x else b) (y # ys)" by simp
  also have "\<dots> = (if f (max_by f x (y # ys)) \<le> f b then b else max_by f x (y # ys))"
    using Cons.IH[of b y] Cons.IH[of x y] by (auto simp del: max_by.simps(2))
  finally show ?case .
qed

text \<open>The head of a stable descending sort is the first element with the largest key.\<close>

lemma hd_sort_key_desc: "hd (sort_key (\<lambda>x. - f x) (b # xs)) = max_by f b xs"
proof (induction xs arbitrary: b)
  case Nil
  then show ?case by simp
next
  case (Cons x xs)
  have "sort_key (\<lambda>x. - f x) (x # xs) \<noteq> []" by (metis length_0_conv length_sort list.distinct(1))
  then have "hd (sort_key (\<lambda>x. - f x) (b # x # xs)) =
      (if f (max_by f x xs) \<le> f b then b else max_by f x xs)"
    using Cons.IH[of x] by (subst sort_key_simps(2)) (simp add: hd_insort_key del: sort_key_simps)
  then show ?case using max_by_right[of f b x xs] by simp
qed

lemma max_by_map: "max_by f (g b) (List.map g xs) = g (max_by (f \<circ> g) b xs)"
  by (induction xs arbitrary: b) auto

definition usable :: "research_row list \<Rightarrow> int \<Rightarrow> string \<Rightarrow> bool" where
  "usable ts mt col \<longleftrightarrow> mt \<le> int (length (column ts col)) \<and> 0 < mean (column ts col)"

lemma best_exit_fold:
  "0 \<le> e \<Longrightarrow> fold (best_exit_step ts mt) cols (b, e) =
     fold (\<lambda>col b. if mean (column ts col) > snd b then (Some col, mean (column ts col)) else b)
       (filter (usable ts mt) cols) (b, e)"
proof (induction cols arbitrary: b e)
  case Nil
  then show ?case by simp
next
  case (Cons c cols)
  show ?case
    using Cons.prems Cons.IH[of "snd (best_exit_step ts mt c (b, e))" "fst (best_exit_step ts mt c (b, e))"]
    by (auto simp: best_exit_step_def usable_def expectancy_is_mean Let_def split: if_splits)
qed

lemma fold_max_by:
  "fold (\<lambda>col b. if f col > snd b then (Some col, f col) else b) cols (Some c, f c) =
     (Some (max_by f c cols), f (max_by f c cols))"
  by (induction cols arbitrary: c) auto

lemma find_best_exit_max_by:
  "find_best_exit ts mt =
     (case filter (usable ts mt) EXIT_MODEL_COLUMNS of
        [] \<Rightarrow> (None, 0)
      | c # cs \<Rightarrow> let best = max_by (\<lambda>col. mean (column ts col)) c cs in (Some best, mean (column ts best)))"
proof (cases "filter (usable ts mt) EXIT_MODEL_COLUMNS")
  case Nil
  then show ?thesis by (simp add: find_best_exit_def best_exit_fold)
next
  case (Cons c cs)
  then have "c \<in> set (filter (usable ts mt) EXIT_MODEL_COLUMNS)" by simp
  then have "0 < mean (column ts c)" by (auto simp: usable_def)
  then show ?thesis
    using fold_max_by[of "\<lambda>col. mean (column ts col)" cs c] Cons
    by (simp add: find_best_exit_def best_exit_fold Let_def)
qed

lemma model_scores_map:
  "List.map_filter (model_score cfg ts) cols =
     List.map (\<lambda>col. the (model_score cfg ts col)) (filter (usable ts (rk_min_trade_count cfg)) cols)"
proof (induction cols)
  case (Cons c cols)
  then show ?case using model_score_None[of cfg ts c] by (cases "model_score cfg ts c") (auto simp: List.map_filter_simps usable_def)
qed (simp add: List.map_filter_simps)

text \<open>The two implementations of the best exit model agree, ties included.\<close>

lemma best_exit_agrees:
  assumes "rk_min_trade_count cfg = mt"
  shows "find_best_exit ts mt = (fst (find_best_exit_models cfg ts), fst (snd (find_best_exit_models cfg ts)))"
proof (cases "filter (usable ts mt) EXIT_MODEL_COLUMNS")
  case Nil
  then show ?thesis using assms by (simp add: find_best_exit_max_by find_best_exit_models_def model_scores_map)
next
  case (Cons c cs)
  let ?ms = "\<lambda>col. the (model_score cfg ts col)" and ?f = "\<lambda>col. mean (column ts col)"
  have us: "ms_expectancy (?ms col) = ?f col \<and> ms_model_name (?ms col) @ ''_result'' = col"
    if "col \<in> set (c # cs)" for col
  proof -
    have "col \<in> set EXIT_MODEL_COLUMNS" "usable ts mt col" using that unfolding Cons[symmetric] by auto
    moreover then obtain s where "model_score cfg ts col = Some s"
      using model_score_None[of cfg ts col] assms by (auto simp: usable_def)
    ultimately show ?thesis using model_score_Some[of cfg ts col s] exit_model_names by (auto simp: list_all_iff)
  qed
  have eq: "max_by (ms_expectancy \<circ> ?ms) c cs = max_by ?f c cs"
  proof -
    have "max_by (ms_expectancy \<circ> ?ms) b xs = max_by ?f b xs" if "set (b # xs) \<subseteq> set (c # cs)" for b xs
      using that
    proof (induction xs arbitrary: b)
      case (Cons x xs)
      then show ?case using us by auto
    qed simp
    from this[of c cs] show ?thesis by simp
  qed
  let ?best = "max_by ?f c cs"
  have "hd (sort_key (\<lambda>s. - ms_expectancy s) (List.map ?ms (c # cs))) = ?ms ?best"
    using hd_sort_key_desc[of ms_expectancy "?ms c" "List.map ?ms cs"] max_by_map[of ms_expectancy ?ms c cs] eq by simp
  moreover have "?best \<in> set (c # cs)" by (rule max_by_in)
  ultimately show ?thesis
    using us[of ?best] Cons assms
    by (simp add: find_best_exit_max_by find_best_exit_models_def model_scores_map Let_def del: list.map sort_key_simps)
qed


lemma find_best_exit_Some:
  assumes "find_best_exit ts mt = (Some c, e)"
  shows "c \<in> set EXIT_MODEL_COLUMNS" "usable ts mt c" "e = mean (column ts c)"
    "c' \<in> set EXIT_MODEL_COLUMNS \<Longrightarrow> usable ts mt c' \<Longrightarrow> mean (column ts c') \<le> e"
proof -
  obtain d ds where d: "filter (usable ts mt) EXIT_MODEL_COLUMNS = d # ds"
    using assms by (cases "filter (usable ts mt) EXIT_MODEL_COLUMNS") (auto simp: find_best_exit_max_by)
  let ?f = "\<lambda>col. mean (column ts col)"
  have c: "c = max_by ?f d ds" "e = ?f c" using assms d by (auto simp: find_best_exit_max_by Let_def)
  have "c \<in> set (d # ds)" unfolding c(1) by (rule max_by_in)
  then show "c \<in> set EXIT_MODEL_COLUMNS" "usable ts mt c" unfolding d[symmetric] by auto
  show "e = mean (column ts c)" by (rule c(2))
  assume "c' \<in> set EXIT_MODEL_COLUMNS" "usable ts mt c'"
  then have "c' \<in> set (d # ds)" unfolding d[symmetric] by auto
  then show "?f c' \<le> e" unfolding c(2) c(1) by (rule max_by_ge)
qed

subsection \<open>Winners\<close>

lemma weighted_mean_bounds:
  fixes e w p h i s :: pyfloat
  assumes "0 \<le> e" "e \<le> 1" "0 \<le> w" "w \<le> 1" "0 \<le> p" "p \<le> 1" "0 \<le> h" "h \<le> 1" "0 \<le> i" "i \<le> 1" "0 \<le> s" "s \<le> 100"
  shows "0 \<le> 30/100 * e + 15/100 * w + 10/100 * p + 10/100 * h + 15/100 * i + 20/100 * (s / 100)"
    "30/100 * e + 15/100 * w + 10/100 * p + 10/100 * h + 15/100 * i + 20/100 * (s / 100) \<le> 1"
  using assms by linarith+

lemma condition_composite_bounds:
  assumes "0 \<le> s" "s \<le> 100"
  shows "0 \<le> condition_composite m n per_month s" "condition_composite m n per_month s \<le> 100"
proof -
  let ?e = "if vm_expectancy m > 0 then min (vm_expectancy m / 100) 1 else 0"
  let ?w = "min (max 0 ((vm_win_rate m - 4/10) / (1/2))) 1" and ?p = "max 0 ((cap5 (vm_profit_factor m) - 1) / 4)"
  let ?h = "min (max (vm_sharpe_ratio m) 0 / 2) 1"
  let ?i = "min (max 0 (vm_expectancy m * per_month) / 1000) 1" and ?c = "min 1 (sqrt (of_nat n / 100))"
  let ?raw = "30/100 * ?e + 15/100 * ?w + 10/100 * ?p + 10/100 * ?h + 15/100 * ?i + 20/100 * (s / 100)"
  have e: "0 \<le> ?e" "?e \<le> 1" by simp_all
  have w: "0 \<le> ?w" "?w \<le> 1" by simp_all
  have p: "0 \<le> ?p" "?p \<le> 1" using cap5_le[of "vm_profit_factor m"] by simp_all
  have h: "0 \<le> ?h" "?h \<le> 1" by simp_all
  have i: "0 \<le> ?i" "?i \<le> 1" by simp_all
  have r: "0 \<le> ?raw" "?raw \<le> 1" by (rule weighted_mean_bounds[OF e w p h i assms])+
  have c: "0 \<le> ?c" "?c \<le> 1" by simp_all
  have "condition_composite m n per_month s = ?raw * ?c * 100"
    unfolding condition_composite_def Let_def by (rule refl)
  with r c obtain raw conf where "condition_composite m n per_month s = raw * conf * 100"
      "0 \<le> raw" "raw \<le> 1" "0 \<le> conf" "conf \<le> 1" by metis
  then show "0 \<le> condition_composite m n per_month s" "condition_composite m n per_month s \<le> 100"
    using mult_le_one[of raw conf] by simp_all
qed

text \<open>What a winner promises of the trades it was scored on.\<close>

definition winner_ok :: "zone_clock \<Rightarrow> int \<Rightarrow> research_row list \<Rightarrow> condition_key \<Rightarrow> condition_winner \<Rightarrow> bool" where
  "winner_ok loc mt ts cond w \<longleftrightarrow>
     (let col = cw_exit_model w @ ''_result''; pnls = column ts col; st = compute_stability loc ts col ''monthly'' in
      cw_condition w = cond \<and> col \<in> set EXIT_MODEL_COLUMNS \<and> mt \<le> int (cw_trade_count w) \<and>
      cw_trade_count w = length pnls \<and> cw_expectancy w = mean pnls \<and> 0 < cw_expectancy w \<and>
      list_all (\<lambda>c. usable ts mt c \<longrightarrow> mean (column ts c) \<le> cw_expectancy w) EXIT_MODEL_COLUMNS \<and>
      (st_periods_analyzed st < 3 \<or> 4/10 * of_nat (st_periods_analyzed st) \<le> (of_nat (st_periods_profitable st) :: pyfloat)) \<and>
      0 \<le> cw_score w \<and> cw_score w \<le> 100 \<and> cw_profitable_after_costs w = (0 < cw_net_expectancy w))"

lemma scored_winner_ok:
  assumes "score_variant_for_condition sc loc vid ts cond mt = Some w"
  shows "winner_ok loc mt ts cond w" "cw_variant_id w = vid"
proof -
  obtain c e where f: "find_best_exit ts mt = (Some c, e)"
    using assms by (cases "find_best_exit ts mt"; cases "fst (find_best_exit ts mt)") (auto simp: score_variant_for_condition_def)
  note best = find_best_exit_Some[OF f]
  let ?st = "compute_stability loc ts c ''monthly''" and ?m = "compute_metrics (column ts c)"
  have guards: "\<not> e \<le> 0" "\<not> int (length (column ts c)) < mt" "\<not> vm_expectancy ?m \<le> 0"
    using best(2,3) by (auto simp: usable_def expectancy_is_mean)
  have st: "\<not> (st_periods_analyzed ?st \<ge> 3 \<and>
      of_nat (st_periods_profitable ?st) / of_nat (st_periods_analyzed ?st) < (4/10 :: pyfloat))"
    and win: "w = build_winner sc vid ts cond c (column ts c) ?st"
    using assms guards unfolding score_variant_for_condition_def f Let_def prod.case option.case
    by (simp_all only: if_False option.inject option.distinct split: if_splits) simp_all
  have w: "cw_condition w = cond" "cw_variant_id w = vid" "cw_exit_model w = without ''_result'' c"
      "cw_trade_count w = length (column ts c)" "cw_expectancy w = mean (column ts c)"
      "\<exists>per. cw_score w = condition_composite ?m (length (column ts c)) per (st_score ?st)"
      "cw_profitable_after_costs w = (0 < cw_net_expectancy w)"
    by (auto simp: win build_winner_def Let_def metrics_counts expectancy_is_mean)
  have score: "0 \<le> cw_score w" "cw_score w \<le> 100"
    using w(6) condition_composite_bounds stability_bounds by metis+
  have col: "without ''_result'' c @ ''_result'' = c" using exit_model_names best(1) by (auto simp: list_all_iff)
  have "st_periods_analyzed ?st < 3 \<or>
      4/10 * of_nat (st_periods_analyzed ?st) \<le> (of_nat (st_periods_profitable ?st) :: pyfloat)"
  proof (cases "st_periods_analyzed ?st < 3")
    case False
    then have "(4/10 :: pyfloat) \<le> of_nat (st_periods_profitable ?st) / of_nat (st_periods_analyzed ?st)"
      using st by linarith
    then show ?thesis using False by (simp add: field_simps)
  qed simp
  moreover have "mean (column ts c') \<le> cw_expectancy w" if "c' \<in> set EXIT_MODEL_COLUMNS" "usable ts mt c'" for c'
    using best(3) best(4)[OF that] w(5) by simp
  moreover have "0 < cw_expectancy w" "mt \<le> int (cw_trade_count w)" using best(2) w(4,5) by (auto simp: usable_def)
  ultimately show "winner_ok loc mt ts cond w"
    unfolding winner_ok_def Let_def w(3) col using w(1,4,5,7) best(1) score by (simp add: list_all_iff)
  show "cw_variant_id w = vid" by (rule w(2))
qed

text \<open>The winners of a condition: the best \<open>top_n\<close>, by descending score.\<close>

lemma score_condition_sound:
  assumes "w \<in> set (score_condition sc loc load cond a b (Some mt))"
  shows "winner_ok loc mt (trades_of (load cond a b) (cw_variant_id w)) cond w"
proof -
  let ?ts = "load cond a b"
  let ?c = "List.map_filter (\<lambda>(vid, g). if int (length g) < mt then None
                 else score_variant_for_condition sc loc vid g cond mt) (variant_groups ?ts)"
  have "w \<in> set ?c" using assms by (auto simp: score_condition_def Let_def split: if_splits dest!: in_set_takeD)
  then obtain vid g where g: "(vid, g) \<in> set (variant_groups ?ts)"
      "score_variant_for_condition sc loc vid g cond mt = Some w"
    by (auto simp: set_map_filter split: if_splits)
  then show ?thesis using scored_winner_ok[OF g(2)] by (auto simp: variant_groups_mem trades_of_def)
qed

lemma score_condition_order:
  "length (score_condition sc loc load cond a b mt) \<le> sc_top_n sc"
  "sorted (List.map (\<lambda>w. - cw_score w) (score_condition sc loc load cond a b mt))"
  by (simp_all add: score_condition_def Let_def sorted_wrt_take flip: take_map)

definition results_sound ::
  "zone_clock \<Rightarrow> condition_load \<Rightarrow> pyfloat \<Rightarrow> pyfloat \<Rightarrow> int \<Rightarrow> nat \<Rightarrow> (condition_key \<times> condition_winner list) list \<Rightarrow> bool" where
  "results_sound loc load a b mt n results \<longleftrightarrow>
     distinct (List.map fst results) \<and>
     list_all (\<lambda>(cond, ws). ws \<noteq> [] \<and> length ws \<le> n \<and> sorted (List.map (\<lambda>w. - cw_score w) ws) \<and>
       list_all (\<lambda>w. winner_ok loc mt (trades_of (load cond a b) (cw_variant_id w)) cond w) ws) results"

lemma score_all_sound:
  assumes "score_all_conditions sc loc load a b = (sc', results)"
  shows "results_sound loc load a b (effective_min_trades sc') (sc_top_n sc) results" "sc_min_trades sc \<le> effective_min_trades sc'"
    "1 \<le> sc_train_months sc'"
proof -
  let ?sc = "sc\<lparr>sc_train_months := train_months loc a b\<rparr>"
  let ?mt = "effective_min_trades ?sc"
  let ?step = "\<lambda>cond res. let winners = score_condition ?sc loc load cond a b (Some ?mt)
            in if winners \<noteq> [] then AList.update cond winners res else res"
  have sc': "sc' = ?sc" and r: "results = fold ?step (all_conditions ?sc) []"
    using assms by (auto simp: score_all_conditions_def Let_def)
  have "results_sound loc load a b ?mt (sc_top_n sc) (fold ?step conds [])" for conds
  proof (induction conds rule: rev_induct)
    case Nil
    then show ?case by (simp add: results_sound_def)
  next
    case (snoc c conds)
    let ?res = "fold ?step conds []" and ?ws = "score_condition ?sc loc load c a b (Some ?mt)"
    have "length ?ws \<le> sc_top_n sc" "sorted (List.map (\<lambda>w. - cw_score w) ?ws)"
      using score_condition_order[of ?sc loc load c a b "Some ?mt"] by simp_all
    moreover have "distinct (List.map fst ?res)" using snoc by (simp add: results_sound_def)
    ultimately show ?case
      using snoc score_condition_sound[of _ ?sc loc load c a b ?mt]
      by (auto simp: results_sound_def Let_def list_all_iff distinct_update set_update)
  qed
  then show "results_sound loc load a b (effective_min_trades sc') (sc_top_n sc) results" using r sc' by simp
  show "sc_min_trades sc \<le> effective_min_trades sc'" using sc' by (simp add: effective_min_trades_def)
  show "1 \<le> sc_train_months sc'" using sc' by (simp add: train_months_def)
qed

subsection \<open>The forward walk is strict\<close>

lemma validate_condition_passed:
  assumes "validate_condition load a b (cond, ws) = Some v" "vl_passed v"
  shows "\<exists>w rest pnls. ws = w # rest \<and> 5 \<le> length pnls \<and>
    pnls = column (filter (\<lambda>t. row_text t ''variant_id'' = Some (cw_variant_id w)) (load cond a b)) (cw_exit_model w @ ''_result'') \<and>
    vl_val_expectancy v = mean pnls \<and> vl_train_expectancy v = cw_expectancy w \<and>
    0 < mean pnls \<and> 3/10 * cw_expectancy w < mean pnls"
proof -
  obtain w rest where ws: "ws = w # rest" using assms(1) by (cases ws) (auto simp: validate_condition_def)
  let ?ts = "filter (\<lambda>t. row_text t ''variant_id'' = Some (cw_variant_id w)) (load cond a b)"
  let ?p = "column ?ts (cw_exit_model w @ ''_result'')"
  have n: "\<not> length ?ts < 5" "\<not> length ?p < 5"
    using assms by (auto simp: validate_condition_def ws Let_def split: if_splits)
  have v: "vl_val_expectancy v = mean ?p" "vl_train_expectancy v = cw_expectancy w" "0 < mean ?p"
      "cw_expectancy w > 0" "(cw_expectancy w - mean ?p) / cw_expectancy w * 100 < 70"
    using assms n by (auto simp: validate_condition_def ws Let_def expectancy_is_mean split: if_splits)
  then have "3/10 * cw_expectancy w < mean ?p" by (simp add: field_simps)
  then show ?thesis using ws n v by (intro exI[of _ w] exI[of _ rest] exI[of _ ?p]) auto
qed

lemma validate_condition_winners: "ws \<noteq> [] \<Longrightarrow> \<exists>v. validate_condition load a b (cond, ws) = Some v \<and> vl_condition v = cond"
  by (cases ws) (auto simp: validate_condition_def Let_def)

lemma validate_winners_all:
  "list_all (\<lambda>(cond, ws). ws \<noteq> []) results \<Longrightarrow>
   List.map vl_condition (validate_winners load results a b) = List.map fst results"
proof (induction results)
  case (Cons r results)
  then show ?case using validate_condition_winners[of "snd r" load a b "fst r"]
    by (cases r) (auto simp: validate_winners_def List.map_filter_simps)
qed (simp add: validate_winners_def List.map_filter_simps)

text \<open>Every preset names known instruments, and so does a list that is accepted.\<close>

lemma resolved_known: "resolve_instruments arg = Some tokens \<Longrightarrow> t \<in> set tokens \<Longrightarrow> t \<in> fst ` set ALL_INSTRUMENTS"
proof -
  assume r: "resolve_instruments arg = Some tokens" and t: "t \<in> set tokens"
  show ?thesis
  proof (cases "map_of INSTRUMENT_PRESETS arg")
    case None
    then show ?thesis using r t by (auto simp: resolve_instruments_def Let_def list_ex_iff split: if_splits)
  next
    case (Some ts)
    have "list_all (\<lambda>(k, ts). list_all (\<lambda>t. t \<in> fst ` set ALL_INSTRUMENTS) ts) INSTRUMENT_PRESETS" by code_simp
    then show ?thesis using map_of_SomeD[OF Some] r t Some by (auto simp: resolve_instruments_def list_all_iff)
  qed
qed

end
