(* ===== verification/Variant_Models.thy ===== *)
theory Variant_Models
  imports Text
begin

section \<open>Variants of the research engine\<close>

text \<open>
  \<open>app/variants/models.py\<close>, \<open>filter_engine.py\<close> and \<open>generator.py\<close>: the enumerations, the filter
  sets, the variants and their identifiers, the snapshots, and the generator of every combination.
  The hash of an identifier is an argument; its text is \<open>variant_raw\<close>. The free-form \<open>metadata\<close>
  dictionaries of a signal are never read and are left out.
\<close>

datatype strategy_type = ST_ORB | ST_BOLLINGER_BANDS | ST_VPA | ST_TREND_FOLLOWING | ST_MEAN_REVERSION

fun strategy_value :: "strategy_type \<Rightarrow> string" where
  "strategy_value ST_ORB = ''ORB''"
| "strategy_value ST_BOLLINGER_BANDS = ''BB''"
| "strategy_value ST_VPA = ''VPA''"
| "strategy_value ST_TREND_FOLLOWING = ''TREND''"
| "strategy_value ST_MEAN_REVERSION = ''MR''"

datatype research_timeframe = RT_M5 | RT_M15 | RT_M30

fun rtf_value :: "research_timeframe \<Rightarrow> string" where
  "rtf_value RT_M5 = ''5m''"
| "rtf_value RT_M15 = ''15m''"
| "rtf_value RT_M30 = ''30m''"

datatype variant_entry_mode = CANDLE_CLOSE | INTRABAR

fun entry_mode_value :: "variant_entry_mode \<Rightarrow> string" where
  "entry_mode_value CANDLE_CLOSE = ''CANDLE_CLOSE''"
| "entry_mode_value INTRABAR = ''INTRABAR''"

datatype trigger_type = PRICE_LEVEL | INDICATOR_EVENT | PATTERN | STRUCTURE

datatype trade_direction = LONG | SHORT

fun direction_value :: "trade_direction \<Rightarrow> string" where
  "direction_value LONG = ''LONG''"
| "direction_value SHORT = ''SHORT''"

datatype atr_filter = ATR_NONE | ATR_GT_10 | ATR_GT_15 | ATR_GT_20 | ATR_GT_25
datatype adx_filter = ADX_NONE | ADX_GT_15 | ADX_GT_20 | ADX_GT_25 | ADX_GT_30
datatype vix_filter = VIX_NONE | VIX_GT_12 | VIX_GT_15 | VIX_GT_18
datatype volume_filter = VOL_NONE | VOL_GT_1_2X | VOL_GT_1_5X | VOL_GT_2X
datatype rsi_filter = RSI_NONE | RSI_LT_30 | RSI_LT_35 | RSI_GT_65 | RSI_GT_70
datatype vwap_filter = VWAP_NONE | ABOVE_VWAP | BELOW_VWAP | DISTANCE_GT_0_5_ATR | DISTANCE_GT_1_ATR

fun atr_threshold :: "atr_filter \<Rightarrow> pyfloat option" where
  "atr_threshold ATR_NONE = None"
| "atr_threshold ATR_GT_10 = Some 10"
| "atr_threshold ATR_GT_15 = Some 15"
| "atr_threshold ATR_GT_20 = Some 20"
| "atr_threshold ATR_GT_25 = Some 25"

fun adx_threshold :: "adx_filter \<Rightarrow> pyfloat option" where
  "adx_threshold ADX_NONE = None"
| "adx_threshold ADX_GT_15 = Some 15"
| "adx_threshold ADX_GT_20 = Some 20"
| "adx_threshold ADX_GT_25 = Some 25"
| "adx_threshold ADX_GT_30 = Some 30"

fun vix_threshold :: "vix_filter \<Rightarrow> pyfloat option" where
  "vix_threshold VIX_NONE = None"
| "vix_threshold VIX_GT_12 = Some 12"
| "vix_threshold VIX_GT_15 = Some 15"
| "vix_threshold VIX_GT_18 = Some 18"

fun volume_threshold :: "volume_filter \<Rightarrow> pyfloat option" where
  "volume_threshold VOL_NONE = None"
| "volume_threshold VOL_GT_1_2X = Some (12/10)"
| "volume_threshold VOL_GT_1_5X = Some (15/10)"
| "volume_threshold VOL_GT_2X = Some 2"

record filter_set =
  fs_atr :: atr_filter
  fs_adx :: adx_filter
  fs_vix :: vix_filter
  fs_volume :: volume_filter
  fs_rsi :: rsi_filter
  fs_vwap :: vwap_filter

record variant =
  va_strategy :: strategy_type
  va_timeframe :: research_timeframe
  va_filters :: filter_set
  va_entry_mode :: variant_entry_mode

subsection \<open>Identifiers\<close>

fun atr_name :: "atr_filter \<Rightarrow> string" where
  "atr_name ATR_NONE = ''NONE''" | "atr_name ATR_GT_10 = ''GT_10''" | "atr_name ATR_GT_15 = ''GT_15''"
| "atr_name ATR_GT_20 = ''GT_20''" | "atr_name ATR_GT_25 = ''GT_25''"

fun adx_name :: "adx_filter \<Rightarrow> string" where
  "adx_name ADX_NONE = ''NONE''" | "adx_name ADX_GT_15 = ''GT_15''" | "adx_name ADX_GT_20 = ''GT_20''"
| "adx_name ADX_GT_25 = ''GT_25''" | "adx_name ADX_GT_30 = ''GT_30''"

fun vix_name :: "vix_filter \<Rightarrow> string" where
  "vix_name VIX_NONE = ''NONE''" | "vix_name VIX_GT_12 = ''GT_12''" | "vix_name VIX_GT_15 = ''GT_15''"
| "vix_name VIX_GT_18 = ''GT_18''"

fun volume_name :: "volume_filter \<Rightarrow> string" where
  "volume_name VOL_NONE = ''NONE''" | "volume_name VOL_GT_1_2X = ''GT_1_2X''"
| "volume_name VOL_GT_1_5X = ''GT_1_5X''" | "volume_name VOL_GT_2X = ''GT_2X''"

fun rsi_name :: "rsi_filter \<Rightarrow> string" where
  "rsi_name RSI_NONE = ''NONE''" | "rsi_name RSI_LT_30 = ''LT_30''" | "rsi_name RSI_LT_35 = ''LT_35''"
| "rsi_name RSI_GT_65 = ''GT_65''" | "rsi_name RSI_GT_70 = ''GT_70''"

fun vwap_name :: "vwap_filter \<Rightarrow> string" where
  "vwap_name VWAP_NONE = ''NONE''" | "vwap_name ABOVE_VWAP = ''ABOVE_VWAP''" | "vwap_name BELOW_VWAP = ''BELOW_VWAP''"
| "vwap_name DISTANCE_GT_0_5_ATR = ''DISTANCE_GT_0_5_ATR''" | "vwap_name DISTANCE_GT_1_ATR = ''DISTANCE_GT_1_ATR''"

definition active_part :: "string \<Rightarrow> string \<Rightarrow> string list" where
  "active_part tag name = (if name \<noteq> ''NONE'' then [tag @ name] else [])"

definition variant_parts :: "variant \<Rightarrow> string list" where
  "variant_parts v =
     (let f = va_filters v in
      [strategy_value (va_strategy v), rtf_value (va_timeframe v), entry_mode_value (va_entry_mode v)] @
      active_part ''ATR:'' (atr_name (fs_atr f)) @ active_part ''ADX:'' (adx_name (fs_adx f)) @
      active_part ''VIX:'' (vix_name (fs_vix f)) @ active_part ''VOL:'' (volume_name (fs_volume f)) @
      active_part ''RSI:'' (rsi_name (fs_rsi f)) @ active_part ''VWAP:'' (vwap_name (fs_vwap f)))"

definition variant_raw :: "variant \<Rightarrow> string" where
  "variant_raw v = join_with CHR ''|'' (variant_parts v)"

text \<open>\<open>md5\<close> stands for the first sixteen digits of the digest.\<close>

definition variant_id :: "(string \<Rightarrow> string) \<Rightarrow> variant \<Rightarrow> string" where
  "variant_id md5 v = md5 (variant_raw v)"

subsection \<open>Snapshots, armed variants and trade records\<close>

record indicator_snapshot =
  sn_atr :: pyfloat
  sn_adx :: pyfloat
  sn_rsi :: pyfloat
  sn_vwap :: pyfloat
  sn_volume_ratio :: pyfloat
  sn_vix :: pyfloat
  sn_ema_9 :: pyfloat
  sn_ema_21 :: pyfloat
  sn_ema_20 :: pyfloat
  sn_ema_50 :: pyfloat
  sn_ema_20_slope :: pyfloat
  sn_ema_50_slope :: pyfloat
  sn_bb_upper :: pyfloat
  sn_bb_middle :: pyfloat
  sn_bb_lower :: pyfloat
  sn_bb_squeeze :: bool
  sn_price_vs_vwap :: pyfloat

definition empty_snapshot :: indicator_snapshot where
  "empty_snapshot = \<lparr>sn_atr = 0, sn_adx = 0, sn_rsi = 0, sn_vwap = 0, sn_volume_ratio = 0, sn_vix = 0, sn_ema_9 = 0,
     sn_ema_21 = 0, sn_ema_20 = 0, sn_ema_50 = 0, sn_ema_20_slope = 0, sn_ema_50_slope = 0, sn_bb_upper = 0,
     sn_bb_middle = 0, sn_bb_lower = 0, sn_bb_squeeze = False, sn_price_vs_vwap = 0\<rparr>"

record metadata_snapshot =
  md_session :: string
  md_day_of_week :: string
  md_month :: string
  md_gap_size :: pyfloat
  md_gap_direction :: string
  md_opening_range_size :: pyfloat
  md_market_structure :: string
  md_volatility_regime :: string
  md_htf_trend_1h :: string
  md_higher_timeframe_bias :: string

definition empty_metadata :: metadata_snapshot where
  "empty_metadata = \<lparr>md_session = '''', md_day_of_week = '''', md_month = '''', md_gap_size = 0, md_gap_direction = '''',
     md_opening_range_size = 0, md_market_structure = '''', md_volatility_regime = '''', md_htf_trend_1h = '''',
     md_higher_timeframe_bias = ''''\<rparr>"

record armed_variant =
  av_variant :: variant
  av_instrument :: string
  av_direction :: trade_direction
  av_trigger_type :: trigger_type
  av_trigger_value :: pyfloat
  av_armed_at_candle :: int
  av_expiry_candles :: int
  av_entry_price_hint :: pyfloat

definition is_expired :: "armed_variant \<Rightarrow> int \<Rightarrow> bool" where
  "is_expired av current_candle \<longleftrightarrow> current_candle - av_armed_at_candle av \<ge> av_expiry_candles av"

record trade_record =
  rec_trade_id :: string
  rec_variant_id :: string
  rec_strategy :: string
  rec_timeframe :: string
  rec_instrument :: string
  rec_direction :: string
  rec_entry_time_ms :: pyfloat
  rec_entry_price :: pyfloat
  rec_snapshot :: indicator_snapshot
  rec_metadata :: metadata_snapshot

subsection \<open>Filters\<close>

definition above_threshold :: "pyfloat option \<Rightarrow> pyfloat \<Rightarrow> bool" where
  "above_threshold threshold x = (case threshold of None \<Rightarrow> True | Some v \<Rightarrow> \<not> x < v)"

fun check_rsi :: "rsi_filter \<Rightarrow> pyfloat \<Rightarrow> bool" where
  "check_rsi RSI_LT_30 x \<longleftrightarrow> x < 30"
| "check_rsi RSI_LT_35 x \<longleftrightarrow> x < 35"
| "check_rsi RSI_GT_65 x \<longleftrightarrow> x > 65"
| "check_rsi RSI_GT_70 x \<longleftrightarrow> x > 70"
| "check_rsi RSI_NONE x \<longleftrightarrow> True"

fun check_vwap :: "vwap_filter \<Rightarrow> pyfloat \<Rightarrow> bool" where
  "check_vwap ABOVE_VWAP d \<longleftrightarrow> d > 0"
| "check_vwap BELOW_VWAP d \<longleftrightarrow> d < 0"
| "check_vwap DISTANCE_GT_0_5_ATR d \<longleftrightarrow> \<bar>d\<bar> > 1/2"
| "check_vwap DISTANCE_GT_1_ATR d \<longleftrightarrow> \<bar>d\<bar> > 1"
| "check_vwap VWAP_NONE d \<longleftrightarrow> True"

definition evaluate_filters :: "filter_set \<Rightarrow> indicator_snapshot \<Rightarrow> bool" where
  "evaluate_filters f s =
     (if \<not> above_threshold (atr_threshold (fs_atr f)) (sn_atr s) then False
      else if \<not> above_threshold (adx_threshold (fs_adx f)) (sn_adx s) then False
      else if \<not> above_threshold (vix_threshold (fs_vix f)) (sn_vix s) then False
      else if \<not> above_threshold (volume_threshold (fs_volume f)) (sn_volume_ratio s) then False
      else if fs_rsi f \<noteq> RSI_NONE \<and> \<not> check_rsi (fs_rsi f) (sn_rsi s) then False
      else if fs_vwap f \<noteq> VWAP_NONE \<and> \<not> check_vwap (fs_vwap f) (sn_price_vs_vwap s) then False
      else True)"

definition no_filters :: filter_set where
  "no_filters = \<lparr>fs_atr = ATR_NONE, fs_adx = ADX_NONE, fs_vix = VIX_NONE, fs_volume = VOL_NONE, fs_rsi = RSI_NONE,
     fs_vwap = VWAP_NONE\<rparr>"

subsection \<open>The generator\<close>

fun strategy_entry_mode :: "strategy_type \<Rightarrow> variant_entry_mode" where
  "strategy_entry_mode ST_ORB = INTRABAR"
| "strategy_entry_mode ST_BOLLINGER_BANDS = INTRABAR"
| "strategy_entry_mode ST_VPA = CANDLE_CLOSE"
| "strategy_entry_mode ST_TREND_FOLLOWING = INTRABAR"
| "strategy_entry_mode ST_MEAN_REVERSION = CANDLE_CLOSE"

fun strategy_expiry_candles :: "strategy_type \<Rightarrow> int" where
  "strategy_expiry_candles ST_ORB = 3"
| "strategy_expiry_candles ST_BOLLINGER_BANDS = 3"
| "strategy_expiry_candles ST_VPA = 1"
| "strategy_expiry_candles ST_TREND_FOLLOWING = 5"
| "strategy_expiry_candles ST_MEAN_REVERSION = 1"

text \<open>The members of the enumerations, in the order of their definition.\<close>

definition all_strategy_types :: "strategy_type list" where
  "all_strategy_types = [ST_ORB, ST_BOLLINGER_BANDS, ST_VPA, ST_TREND_FOLLOWING, ST_MEAN_REVERSION]"

definition all_research_timeframes :: "research_timeframe list" where
  "all_research_timeframes = [RT_M5, RT_M15, RT_M30]"

definition all_atr_filters :: "atr_filter list" where
  "all_atr_filters = [ATR_NONE, ATR_GT_10, ATR_GT_15, ATR_GT_20, ATR_GT_25]"

definition all_adx_filters :: "adx_filter list" where
  "all_adx_filters = [ADX_NONE, ADX_GT_15, ADX_GT_20, ADX_GT_25, ADX_GT_30]"

definition all_vix_filters :: "vix_filter list" where
  "all_vix_filters = [VIX_NONE, VIX_GT_12, VIX_GT_15, VIX_GT_18]"

definition all_volume_filters :: "volume_filter list" where
  "all_volume_filters = [VOL_NONE, VOL_GT_1_2X, VOL_GT_1_5X, VOL_GT_2X]"

definition all_rsi_filters :: "rsi_filter list" where
  "all_rsi_filters = [RSI_NONE, RSI_LT_30, RSI_LT_35, RSI_GT_65, RSI_GT_70]"

definition all_vwap_filters :: "vwap_filter list" where
  "all_vwap_filters = [VWAP_NONE, ABOVE_VWAP, BELOW_VWAP, DISTANCE_GT_0_5_ATR, DISTANCE_GT_1_ATR]"


definition generate_all_filter_sets :: "filter_set list" where
  "generate_all_filter_sets =
     [\<lparr>fs_atr = a, fs_adx = d, fs_vix = x, fs_volume = v, fs_rsi = r, fs_vwap = w\<rparr>.
        a \<leftarrow> all_atr_filters, d \<leftarrow> all_adx_filters, x \<leftarrow> all_vix_filters, v \<leftarrow> all_volume_filters,
        r \<leftarrow> all_rsi_filters, w \<leftarrow> all_vwap_filters]"

definition generate_all_variants :: "variant list" where
  "generate_all_variants =
     [\<lparr>va_strategy = s, va_timeframe = t, va_filters = f, va_entry_mode = strategy_entry_mode s\<rparr>.
        s \<leftarrow> all_strategy_types, t \<leftarrow> all_research_timeframes, f \<leftarrow> generate_all_filter_sets]"

definition generate_variant_index :: "(string \<Rightarrow> string) \<Rightarrow> string \<Rightarrow> variant option" where
  "generate_variant_index md5 = map_of (rev (List.map (\<lambda>v. (variant_id md5 v, v)) generate_all_variants))"

subsection \<open>Every combination, once\<close>

lemma set_all_enums [simp]:
  "set all_strategy_types = UNIV" "set all_research_timeframes = UNIV" "set all_atr_filters = UNIV"
  "set all_adx_filters = UNIV" "set all_vix_filters = UNIV" "set all_volume_filters = UNIV"
  "set all_rsi_filters = UNIV" "set all_vwap_filters = UNIV"
proof -
  show "set all_strategy_types = UNIV" using strategy_type.exhaust by (auto simp: all_strategy_types_def)
  show "set all_research_timeframes = UNIV" using research_timeframe.exhaust by (auto simp: all_research_timeframes_def)
  show "set all_atr_filters = UNIV" using atr_filter.exhaust by (auto simp: all_atr_filters_def)
  show "set all_adx_filters = UNIV" using adx_filter.exhaust by (auto simp: all_adx_filters_def)
  show "set all_vix_filters = UNIV" using vix_filter.exhaust by (auto simp: all_vix_filters_def)
  show "set all_volume_filters = UNIV" using volume_filter.exhaust by (auto simp: all_volume_filters_def)
  show "set all_rsi_filters = UNIV" using rsi_filter.exhaust by (auto simp: all_rsi_filters_def)
  show "set all_vwap_filters = UNIV" using vwap_filter.exhaust by (auto simp: all_vwap_filters_def)
qed

lemma distinct_enums [simp]:
  "distinct all_strategy_types" "distinct all_research_timeframes" "distinct all_atr_filters"
  "distinct all_adx_filters" "distinct all_vix_filters" "distinct all_volume_filters"
  "distinct all_rsi_filters" "distinct all_vwap_filters"
  by (simp_all add: all_strategy_types_def all_research_timeframes_def all_atr_filters_def all_adx_filters_def
      all_vix_filters_def all_volume_filters_def all_rsi_filters_def all_vwap_filters_def)

lemma length_enums [simp]:
  "length all_strategy_types = 5" "length all_research_timeframes = 3" "length all_atr_filters = 5"
  "length all_adx_filters = 5" "length all_vix_filters = 4" "length all_volume_filters = 4"
  "length all_rsi_filters = 5" "length all_vwap_filters = 5"
  by (simp_all add: all_strategy_types_def all_research_timeframes_def all_atr_filters_def all_adx_filters_def
      all_vix_filters_def all_volume_filters_def all_rsi_filters_def all_vwap_filters_def)

lemma length_concat_const: "(\<And>x. length (f x) = n) \<Longrightarrow> length (concat (List.map f xs)) = length xs * n"
  by (induction xs) auto

lemma distinct_concat_inj:
  assumes "distinct xs" "\<And>x. distinct (f x)" "\<And>x y z. z \<in> set (f x) \<Longrightarrow> z \<in> set (f y) \<Longrightarrow> x = y"
  shows "distinct (concat (List.map f xs))"
  using assms(1)
proof (induction xs)
  case (Cons x xs)
  have "set (f x) \<inter> set (concat (List.map f xs)) = {}"
  proof (rule equals0I)
    fix z assume "z \<in> set (f x) \<inter> set (concat (List.map f xs))"
    then obtain y where "y \<in> set xs" "z \<in> set (f x)" "z \<in> set (f y)" by auto
    then show False using assms(3) Cons.prems by fastforce
  qed
  then show ?case using Cons assms(2) by simp
qed simp

lemma filter_sets_all:
  "set generate_all_filter_sets = UNIV" "distinct generate_all_filter_sets" "length generate_all_filter_sets = 10000"
proof -
  show "set generate_all_filter_sets = UNIV"
  proof -
    have "f \<in> set generate_all_filter_sets" for f by (cases f) (auto simp: generate_all_filter_sets_def image_iff)
    then show ?thesis by auto
  qed
  show "distinct generate_all_filter_sets"
    unfolding generate_all_filter_sets_def by (intro distinct_concat_inj) (simp_all add: distinct_map inj_on_def, auto)
  show "length generate_all_filter_sets = 10000"
    unfolding generate_all_filter_sets_def by (simp add: length_concat_const)
qed

lemma variants_all:
  "v \<in> set generate_all_variants \<longleftrightarrow> va_entry_mode v = strategy_entry_mode (va_strategy v)"
  "distinct generate_all_variants" "length generate_all_variants = 150000"
proof -
  show "v \<in> set generate_all_variants \<longleftrightarrow> va_entry_mode v = strategy_entry_mode (va_strategy v)"
    by (cases v) (auto simp: generate_all_variants_def filter_sets_all(1))
  show "distinct generate_all_variants"
    unfolding generate_all_variants_def by (intro distinct_concat_inj) (simp_all add: filter_sets_all(2) distinct_map inj_on_def, auto)
  show "length generate_all_variants = 150000"
    unfolding generate_all_variants_def by (simp add: length_concat_const filter_sets_all(3))
qed


subsection \<open>Identifiers are injective\<close>

lemma values_inj:
  "strategy_value s = strategy_value s' \<Longrightarrow> s = s'" "rtf_value t = rtf_value t' \<Longrightarrow> t = t'"
  "entry_mode_value m = entry_mode_value m' \<Longrightarrow> m = m'" "atr_name a = atr_name a' \<Longrightarrow> a = a'"
  "adx_name d = adx_name d' \<Longrightarrow> d = d'" "vix_name x = vix_name x' \<Longrightarrow> x = x'"
  "volume_name v = volume_name v' \<Longrightarrow> v = v'" "rsi_name r = rsi_name r' \<Longrightarrow> r = r'"
  "vwap_name w = vwap_name w' \<Longrightarrow> w = w'"
proof -
  show "strategy_value s = strategy_value s' \<Longrightarrow> s = s'" by (cases s; cases s') auto
  show "rtf_value t = rtf_value t' \<Longrightarrow> t = t'" by (cases t; cases t') auto
  show "entry_mode_value m = entry_mode_value m' \<Longrightarrow> m = m'" by (cases m; cases m') auto
  show "atr_name a = atr_name a' \<Longrightarrow> a = a'" by (cases a; cases a') auto
  show "adx_name d = adx_name d' \<Longrightarrow> d = d'" by (cases d; cases d') auto
  show "vix_name x = vix_name x' \<Longrightarrow> x = x'" by (cases x; cases x') auto
  show "volume_name v = volume_name v' \<Longrightarrow> v = v'" by (cases v; cases v') auto
  show "rsi_name r = rsi_name r' \<Longrightarrow> r = r'" by (cases r; cases r') auto
  show "vwap_name w = vwap_name w' \<Longrightarrow> w = w'" by (cases w; cases w') auto
qed

lemma no_bar:
  "CHR ''|'' \<notin> set (strategy_value s)" "CHR ''|'' \<notin> set (rtf_value t)" "CHR ''|'' \<notin> set (entry_mode_value m)"
  "CHR ''|'' \<notin> set (atr_name a)" "CHR ''|'' \<notin> set (adx_name d)" "CHR ''|'' \<notin> set (vix_name x)"
  "CHR ''|'' \<notin> set (volume_name v)" "CHR ''|'' \<notin> set (rsi_name r)" "CHR ''|'' \<notin> set (vwap_name w)"
proof -
  show "CHR ''|'' \<notin> set (strategy_value s)" by (cases s) auto
  show "CHR ''|'' \<notin> set (rtf_value t)" by (cases t) auto
  show "CHR ''|'' \<notin> set (entry_mode_value m)" by (cases m) auto
  show "CHR ''|'' \<notin> set (atr_name a)" by (cases a) auto
  show "CHR ''|'' \<notin> set (adx_name d)" by (cases d) auto
  show "CHR ''|'' \<notin> set (vix_name x)" by (cases x) auto
  show "CHR ''|'' \<notin> set (volume_name v)" by (cases v) auto
  show "CHR ''|'' \<notin> set (rsi_name r)" by (cases r) auto
  show "CHR ''|'' \<notin> set (vwap_name w)" by (cases w) auto
qed

lemma active_part_no_bar:
  "CHR ''|'' \<notin> set tag \<Longrightarrow> CHR ''|'' \<notin> set name \<Longrightarrow> list_all (\<lambda>w. CHR ''|'' \<notin> set w) (active_part tag name)"
  by (simp add: active_part_def)

lemma parts_no_bar: "list_all (\<lambda>w. CHR ''|'' \<notin> set w) (variant_parts v)"
  by (simp add: variant_parts_def Let_def no_bar active_part_no_bar)

lemma variant_parts_split: "split_on CHR ''|'' (variant_raw v) = variant_parts v"
  unfolding variant_raw_def by (rule split_join[OF _ parts_no_bar]) (simp add: variant_parts_def Let_def)

definition tagged_filters :: "string \<Rightarrow> string list \<Rightarrow> string list" where
  "tagged_filters tag ps = filter (\<lambda>p. take (length tag) p = tag) ps"

lemma tagged_append: "tagged_filters tag (ps @ qs) = tagged_filters tag ps @ tagged_filters tag qs"
  by (simp add: tagged_filters_def)

lemma tagged_active:
  "tagged_filters tag (active_part tag' name) =
     (if take (length tag) (tag' @ name) = tag then active_part tag' name else [])"
  by (simp add: tagged_filters_def active_part_def)

lemma active_part_inj: "active_part tag n = active_part tag n' \<Longrightarrow> n = n'"
  by (auto simp: active_part_def split: if_splits)

lemma variant_raw_inj:
  assumes "variant_raw v = variant_raw w"
  shows "v = w"
proof -
  have eq: "variant_parts v = variant_parts w" using assms variant_parts_split by metis
  let ?f = "va_filters v" and ?g = "va_filters w"
  let ?tags = "\<lambda>f. active_part ''ATR:'' (atr_name (fs_atr f)) @ active_part ''ADX:'' (adx_name (fs_adx f)) @
      active_part ''VIX:'' (vix_name (fs_vix f)) @ active_part ''VOL:'' (volume_name (fs_volume f)) @
      active_part ''RSI:'' (rsi_name (fs_rsi f)) @ active_part ''VWAP:'' (vwap_name (fs_vwap f))"
  have hd: "va_strategy v = va_strategy w" "va_timeframe v = va_timeframe w" "va_entry_mode v = va_entry_mode w"
    and tl: "?tags ?f = ?tags ?g"
    using eq by (auto simp: variant_parts_def Let_def dest: values_inj)
  have t: "tagged_filters tag (?tags ?f) = tagged_filters tag (?tags ?g)" for tag using tl by simp
  have "fs_atr ?f = fs_atr ?g"
    using t[of "''ATR:''"] by (simp add: tagged_append tagged_active) (blast dest: active_part_inj values_inj)
  moreover have "fs_adx ?f = fs_adx ?g"
    using t[of "''ADX:''"] by (simp add: tagged_append tagged_active) (blast dest: active_part_inj values_inj)
  moreover have "fs_vix ?f = fs_vix ?g"
    using t[of "''VIX:''"] by (simp add: tagged_append tagged_active) (blast dest: active_part_inj values_inj)
  moreover have "fs_volume ?f = fs_volume ?g"
    using t[of "''VOL:''"] by (simp add: tagged_append tagged_active) (blast dest: active_part_inj values_inj)
  moreover have "fs_rsi ?f = fs_rsi ?g"
    using t[of "''RSI:''"] by (simp add: tagged_append tagged_active) (blast dest: active_part_inj values_inj)
  moreover have "fs_vwap ?f = fs_vwap ?g"
    using t[of "''VWAP:''"] by (simp add: tagged_append tagged_active) (blast dest: active_part_inj values_inj)
  ultimately have "?f = ?g" by (cases ?f; cases ?g) simp
  then show ?thesis using hd by (cases v; cases w) simp
qed

lemma variant_id_inj: "inj md5 \<Longrightarrow> variant_id md5 v = variant_id md5 w \<longleftrightarrow> v = w"
  using variant_raw_inj by (auto simp: variant_id_def dest: injD)

text \<open>
  The index finds every variant again when the hash has no collision on the identifiers in use.
\<close>

lemma index_roundtrip:
  assumes "inj_on md5 (variant_raw ` set generate_all_variants)" "v \<in> set generate_all_variants"
  shows "generate_variant_index md5 (variant_id md5 v) = Some v"
proof -
  have "inj_on (variant_id md5) (set generate_all_variants)"
    unfolding variant_id_def using assms(1) variant_raw_inj by (auto simp: inj_on_def)
  then have "distinct (List.map fst (rev (List.map (\<lambda>v. (variant_id md5 v, v)) generate_all_variants)))"
    by (simp add: rev_map comp_def distinct_map variants_all(2))
  then show ?thesis unfolding generate_variant_index_def using assms(2) by (simp add: map_of_eq_Some_iff)
qed

subsection \<open>Filters are conjunctions, and only ever narrow\<close>

lemma evaluate_filters_conj:
  "evaluate_filters f s \<longleftrightarrow>
     above_threshold (atr_threshold (fs_atr f)) (sn_atr s) \<and> above_threshold (adx_threshold (fs_adx f)) (sn_adx s) \<and>
     above_threshold (vix_threshold (fs_vix f)) (sn_vix s) \<and>
     above_threshold (volume_threshold (fs_volume f)) (sn_volume_ratio s) \<and>
     check_rsi (fs_rsi f) (sn_rsi s) \<and> check_vwap (fs_vwap f) (sn_price_vs_vwap s)"
  by (auto simp: evaluate_filters_def)

lemma no_filters_pass: "evaluate_filters no_filters s"
  by (simp add: evaluate_filters_conj no_filters_def above_threshold_def)

text \<open>The order of the \<open>ATR\<close> filters is the order of their strictness, and so for the others.\<close>

lemma stricter_atr:
  assumes "evaluate_filters f s" "atr_threshold a = Some x" "atr_threshold (fs_atr f) = Some y" "x \<le> y"
  shows "evaluate_filters (f\<lparr>fs_atr := a\<rparr>) s"
  using assms by (auto simp: evaluate_filters_conj above_threshold_def)


text \<open>C22: The index built from all the generated variants finds each of them under its identifier,
  if the hash has no collision on the identifiers' texts.\<close>

theorem variant_index_roundtrip:
  assumes "inj_on md5 (variant_raw ` set generate_all_variants)" "v \<in> set generate_all_variants"
  shows "generate_variant_index md5 (variant_id md5 v) = Some v"
  by (rule index_roundtrip[OF assms])

definition plain_orb :: variant where
  "plain_orb = \<lparr>va_strategy = ST_ORB, va_timeframe = RT_M5, va_filters = no_filters, va_entry_mode = strategy_entry_mode ST_ORB\<rparr>"

theorem variant_index_roundtrip_witness: "generate_variant_index (\<lambda>s. s) (variant_id (\<lambda>s. s) plain_orb) = Some plain_orb"
  by (rule variant_index_roundtrip) (auto simp: plain_orb_def variants_all)

end
