(* ===== verification/Variant_Templates.thy ===== *)
theory Variant_Templates
  imports Variant_Models Indicators Forex_Hours Candle_Builder
begin

section \<open>Strategy templates of the research engine\<close>

text \<open>
  \<open>app/variants/strategies/*.py\<close>: five templates that turn a closed candle into candidate signals.
  Each template is its state record and an \<open>evaluate\<close>. \<open>loc\<close> is the host's time zone; a date text
  is its day number, \<open>None\<close> the empty text; a dictionary of flags is a predicate, absent keys being
  \<open>False\<close>. The indicator calls have positive periods and cannot raise (\<open>squeeze_returns\<close>).
\<close>

record candidate_signal =
  cd_direction :: trade_direction
  cd_entry_mode :: variant_entry_mode
  cd_trigger_type :: trigger_type
  cd_trigger_value :: pyfloat
  cd_entry_price_hint :: pyfloat

type_synonym tf_key = "string \<times> research_timeframe"

definition candle_day :: "zone_clock \<Rightarrow> candle \<Rightarrow> int" where
  "candle_day loc c = wall_day (to_wall loc (c_ms c))"

definition candle_clock :: "zone_clock \<Rightarrow> candle \<Rightarrow> pyfloat" where
  "candle_clock loc c = wall_time (to_wall loc (c_ms c))"

subsection \<open>Opening range breakout\<close>

definition ORB_START :: pyfloat where
  "ORB_START = 9 * hour_ms + 15 * 60000"

definition ORB_END :: pyfloat where
  "ORB_END = 9 * hour_ms + 30 * 60000"

record orb_template_state =
  ob_range_high :: "string \<rightharpoonup> pyfloat"
  ob_range_low :: "string \<rightharpoonup> pyfloat"
  ob_range_ready :: "string \<Rightarrow> bool"
  ob_long_fired :: "tf_key \<Rightarrow> bool"
  ob_short_fired :: "tf_key \<Rightarrow> bool"
  ob_last_reset_date :: "int option"

definition orb_reset :: "int option \<Rightarrow> orb_template_state" where
  "orb_reset day = \<lparr>ob_range_high = Map.empty, ob_range_low = Map.empty, ob_range_ready = (\<lambda>_. False),
     ob_long_fired = (\<lambda>_. False), ob_short_fired = (\<lambda>_. False), ob_last_reset_date = day\<rparr>"

definition orb_update_range :: "candle \<Rightarrow> orb_template_state \<Rightarrow> orb_template_state" where
  "orb_update_range c s =
     (let t = c_token c in
      case (ob_range_high s t, ob_range_low s t) of
        (Some h, Some l) \<Rightarrow> s\<lparr>ob_range_high := (ob_range_high s)(t \<mapsto> max h (c_high c)),
                              ob_range_low := (ob_range_low s)(t \<mapsto> min l (c_low c))\<rparr>
      | _ \<Rightarrow> s\<lparr>ob_range_high := (ob_range_high s)(t \<mapsto> c_high c), ob_range_low := (ob_range_low s)(t \<mapsto> c_low c)\<rparr>)"

definition price_level_candidate :: "trade_direction \<Rightarrow> pyfloat \<Rightarrow> candidate_signal" where
  "price_level_candidate d level =
     \<lparr>cd_direction = d, cd_entry_mode = INTRABAR, cd_trigger_type = PRICE_LEVEL, cd_trigger_value = level,
      cd_entry_price_hint = level\<rparr>"

text \<open>The width check: between 0.05 and 2 per cent of the middle.\<close>

definition orb_range_valid :: "pyfloat \<Rightarrow> pyfloat \<Rightarrow> bool" where
  "orb_range_valid h l =
     (let mid = (h + l) / 2; pct = (if mid > 0 then (h - l) / mid * 100 else 0) in 5/100 \<le> pct \<and> pct \<le> 2)"

definition orb_evaluate ::
  "zone_clock \<Rightarrow> research_timeframe \<Rightarrow> candle \<Rightarrow> orb_template_state \<Rightarrow> orb_template_state \<times> candidate_signal list" where
  "orb_evaluate loc tf c s =
     (let day = candle_day loc c; t = c_token c;
          s = (if Some day \<noteq> ob_last_reset_date s then orb_reset (Some day) else s)
      in if ORB_START \<le> candle_clock loc c \<and> candle_clock loc c \<le> ORB_END then (orb_update_range c s, [])
         else case (ob_range_high s t, ob_range_low s t) of
           (Some h, Some l) \<Rightarrow>
             if \<not> ob_range_ready s t \<and> \<not> orb_range_valid h l then (s, [])
             else
               let s = s\<lparr>ob_range_ready := (ob_range_ready s)(t := True)\<rparr>; key = (t, tf);
                   longs = (if \<not> ob_long_fired s key then [price_level_candidate LONG h] else []);
                   shorts = (if \<not> ob_short_fired s key then [price_level_candidate SHORT l] else [])
               in (s\<lparr>ob_long_fired := (ob_long_fired s)(key := True), ob_short_fired := (ob_short_fired s)(key := True)\<rparr>,
                   longs @ shorts)
         | _ \<Rightarrow> (s, []))"

subsection \<open>Bollinger squeeze\<close>

definition MIN_SQUEEZE_CANDLES :: nat where
  "MIN_SQUEEZE_CANDLES = 5"

definition squeeze_active :: "candle list \<Rightarrow> bool option" where
  "squeeze_active cs = (case is_squeeze cs 20 2 20 10 (3/2) of Inl e \<Rightarrow> None | Inr b \<Rightarrow> b)"

record bb_state =
  bq_squeeze_count :: "tf_key \<Rightarrow> nat"
  bq_was_in_squeeze :: "tf_key \<Rightarrow> bool"
  bq_last_reset_date :: "int option"

definition bb_reset :: "int option \<Rightarrow> bb_state" where
  "bb_reset day = \<lparr>bq_squeeze_count = (\<lambda>_. 0), bq_was_in_squeeze = (\<lambda>_. False), bq_last_reset_date = day\<rparr>"

definition bb_evaluate ::
  "zone_clock \<Rightarrow> research_timeframe \<Rightarrow> candle \<Rightarrow> candle list \<Rightarrow> indicator_snapshot \<Rightarrow> bb_state \<Rightarrow>
   bb_state \<times> candidate_signal list" where
  "bb_evaluate loc tf c history snap s =
     (let day = candle_day loc c; key = (c_token c, tf);
          s = (if Some day \<noteq> bq_last_reset_date s then bb_reset (Some day) else s)
      in if length history < 25 then (s, [])
         else case squeeze_active (take_last 25 history @ [c]) of
           None \<Rightarrow> (s, [])
         | Some True \<Rightarrow>
             (s\<lparr>bq_squeeze_count := (bq_squeeze_count s)(key := bq_squeeze_count s key + 1),
                bq_was_in_squeeze := (bq_was_in_squeeze s)(key := True)\<rparr>, [])
         | Some False \<Rightarrow>
             let duration = bq_squeeze_count s key; was = bq_was_in_squeeze s key;
                 s = s\<lparr>bq_was_in_squeeze := (bq_was_in_squeeze s)(key := False),
                       bq_squeeze_count := (bq_squeeze_count s)(key := 0)\<rparr>
             in if was \<and> MIN_SQUEEZE_CANDLES \<le> duration \<and> sn_bb_upper snap > 0 \<and> sn_bb_lower snap > 0
                then (s, [price_level_candidate LONG (sn_bb_upper snap), price_level_candidate SHORT (sn_bb_lower snap)])
                else (s, []))"

subsection \<open>Mean reversion\<close>

definition RSI_OVERSOLD :: pyfloat where "RSI_OVERSOLD = 35"
definition RSI_OVERBOUGHT :: pyfloat where "RSI_OVERBOUGHT = 65"
definition MIN_DISTANCE_ATR :: pyfloat where "MIN_DISTANCE_ATR = 3/10"

record mr_state =
  mr_prev_rsi :: "tf_key \<rightharpoonup> pyfloat"
  mr_last_reset_date :: "int option"

definition mr_reset :: "int option \<Rightarrow> mr_state" where
  "mr_reset day = \<lparr>mr_prev_rsi = Map.empty, mr_last_reset_date = day\<rparr>"

definition close_candidate :: "trigger_type \<Rightarrow> trade_direction \<Rightarrow> candle \<Rightarrow> candidate_signal" where
  "close_candidate t d c =
     \<lparr>cd_direction = d, cd_entry_mode = CANDLE_CLOSE, cd_trigger_type = t, cd_trigger_value = c_close c,
      cd_entry_price_hint = c_close c\<rparr>"

definition mr_evaluate ::
  "zone_clock \<Rightarrow> research_timeframe \<Rightarrow> candle \<Rightarrow> candle list \<Rightarrow> indicator_snapshot \<Rightarrow> mr_state \<Rightarrow>
   mr_state \<times> candidate_signal list" where
  "mr_evaluate loc tf c history snap s =
     (let day = candle_day loc c; key = (c_token c, tf);
          s = (if Some day \<noteq> mr_last_reset_date s then mr_reset (Some day) else s)
      in if length history < 15 then (s, [])
         else
           let rsi_val = sn_rsi snap; prev = mr_prev_rsi s key; s = s\<lparr>mr_prev_rsi := (mr_prev_rsi s)(key \<mapsto> rsi_val)\<rparr>
           in case prev of
                None \<Rightarrow> (s, [])
              | Some prev_rsi \<Rightarrow>
                  if rsi_val = 0 \<or> sn_ema_20 snap = 0 \<or> sn_atr snap = 0 then (s, [])
                  else
                    let distance = (c_close c - sn_ema_20 snap) / sn_atr snap;
                        longs = (if distance < - MIN_DISTANCE_ATR \<and> prev_rsi < RSI_OVERSOLD \<and> rsi_val \<ge> RSI_OVERSOLD
                                 then [close_candidate INDICATOR_EVENT LONG c] else []);
                        shorts = (if distance > MIN_DISTANCE_ATR \<and> prev_rsi > RSI_OVERBOUGHT \<and> rsi_val \<le> RSI_OVERBOUGHT
                                  then [close_candidate INDICATOR_EVENT SHORT c] else [])
                    in (s, longs @ shorts))"

subsection \<open>Trend pullback\<close>

record trend_state =
  tr_in_pullback :: "tf_key \<Rightarrow> bool"
  tr_trend_direction :: "tf_key \<rightharpoonup> string"
  tr_last_reset_date :: "int option"

definition trend_reset :: "int option \<Rightarrow> trend_state" where
  "trend_reset day = \<lparr>tr_in_pullback = (\<lambda>_. False), tr_trend_direction = Map.empty, tr_last_reset_date = day\<rparr>"

definition structure_candidate :: "trade_direction \<Rightarrow> pyfloat \<Rightarrow> candle \<Rightarrow> candidate_signal" where
  "structure_candidate d level c =
     \<lparr>cd_direction = d, cd_entry_mode = INTRABAR, cd_trigger_type = STRUCTURE, cd_trigger_value = level,
      cd_entry_price_hint = c_close c\<rparr>"

text \<open>One side of the trend: a first candle near the average arms the level.\<close>

definition pullback ::
  "bool \<Rightarrow> tf_key \<Rightarrow> string \<Rightarrow> candidate_signal \<Rightarrow> trend_state \<Rightarrow> trend_state \<times> candidate_signal list" where
  "pullback near key name sig s =
     (if near \<and> \<not> tr_in_pullback s key then
        (s\<lparr>tr_in_pullback := (tr_in_pullback s)(key := True),
           tr_trend_direction := (tr_trend_direction s)(key \<mapsto> name)\<rparr>, [sig])
      else if \<not> near then (s\<lparr>tr_in_pullback := (tr_in_pullback s)(key := False)\<rparr>, [])
      else (s, []))"

definition trend_evaluate ::
  "zone_clock \<Rightarrow> research_timeframe \<Rightarrow> candle \<Rightarrow> candle list \<Rightarrow> indicator_snapshot \<Rightarrow> trend_state \<Rightarrow>
   trend_state \<times> candidate_signal list" where
  "trend_evaluate loc tf c history snap s =
     (let day = candle_day loc c; key = (c_token c, tf);
          s = (if Some day \<noteq> tr_last_reset_date s then trend_reset (Some day) else s);
          ema9 = sn_ema_9 snap; ema21 = sn_ema_21 snap
      in if length history < 25 \<or> ema9 = 0 \<or> ema21 = 0 then (s, [])
         else
           let is_bullish = (ema9 > ema21 \<and> sn_ema_20_slope snap > 0);
               is_bearish = (ema9 < ema21 \<and> sn_ema_20_slope snap < 0)
           in if \<not> is_bullish \<and> \<not> is_bearish then
                (s\<lparr>tr_trend_direction := (tr_trend_direction s)(key \<mapsto> ''''),
                   tr_in_pullback := (tr_in_pullback s)(key := False)\<rparr>, [])
              else if is_bullish then
                pullback (c_low c \<le> ema21 * (1003/1000)) key ''BULL'' (structure_candidate LONG (ema21 * (1001/1000)) c) s
              else
                pullback (c_high c \<ge> ema21 * (997/1000)) key ''BEAR'' (structure_candidate SHORT (ema21 * (999/1000)) c) s)"

subsection \<open>Volume price action\<close>

definition engulfs :: "candle \<Rightarrow> candle \<Rightarrow> bool" where
  "engulfs prev cur \<longleftrightarrow>
     min (c_open cur) (c_close cur) \<le> min (c_open prev) (c_close prev) \<and>
     max (c_open cur) (c_close cur) \<ge> max (c_open prev) (c_close prev)"

definition is_bullish_engulfing :: "candle \<Rightarrow> candle \<Rightarrow> bool" where
  "is_bullish_engulfing prev cur \<longleftrightarrow>
     (if \<not> (c_close prev < c_open prev \<and> c_close cur > c_open cur) then False else engulfs prev cur)"

definition is_bearish_engulfing :: "candle \<Rightarrow> candle \<Rightarrow> bool" where
  "is_bearish_engulfing prev cur \<longleftrightarrow>
     (if \<not> (c_close prev > c_open prev \<and> c_close cur < c_open cur) then False else engulfs prev cur)"

definition is_hammer :: "candle \<Rightarrow> bool" where
  "is_hammer c =
     (let body = \<bar>c_close c - c_open c\<bar>; full_range = c_high c - c_low c;
          body_top = max (c_open c) (c_close c); body_bottom = min (c_open c) (c_close c);
          upper_shadow = c_high c - body_top; lower_shadow = body_bottom - c_low c
      in if full_range = 0 \<or> body = 0 then False
         else lower_shadow \<ge> 2 * body \<and> upper_shadow \<le> 3/10 * body \<and> body_top \<ge> c_low c + 65/100 * full_range)"

definition is_shooting_star :: "candle \<Rightarrow> bool" where
  "is_shooting_star c =
     (let body = \<bar>c_close c - c_open c\<bar>; full_range = c_high c - c_low c;
          body_top = max (c_open c) (c_close c); body_bottom = min (c_open c) (c_close c);
          upper_shadow = c_high c - body_top; lower_shadow = body_bottom - c_low c
      in if full_range = 0 \<or> body = 0 then False
         else upper_shadow \<ge> 2 * body \<and> lower_shadow \<le> 3/10 * body \<and> body_bottom \<le> c_low c + 35/100 * full_range)"

definition vpa_evaluate :: "candle \<Rightarrow> candle list \<Rightarrow> candidate_signal list" where
  "vpa_evaluate c history =
     (if length history < 5 then []
      else
        (if is_bullish_engulfing (last history) c then [close_candidate PATTERN LONG c] else []) @
        (if is_bearish_engulfing (last history) c then [close_candidate PATTERN SHORT c] else []) @
        (if is_hammer c then [close_candidate PATTERN LONG c] else []) @
        (if is_shooting_star c then [close_candidate PATTERN SHORT c] else []))"

subsection \<open>The templates as one component\<close>

record templates =
  tp_orb :: orb_template_state
  tp_bb :: bb_state
  tp_trend :: trend_state
  tp_mr :: mr_state

definition new_templates :: templates where
  "new_templates = \<lparr>tp_orb = orb_reset None, tp_bb = bb_reset None, tp_trend = trend_reset None, tp_mr = mr_reset None\<rparr>"

fun template_evaluate ::
  "zone_clock \<Rightarrow> strategy_type \<Rightarrow> research_timeframe \<Rightarrow> candle \<Rightarrow> candle list \<Rightarrow> indicator_snapshot \<Rightarrow> templates \<Rightarrow>
   templates \<times> candidate_signal list" where
  "template_evaluate loc ST_ORB tf c history snap t =
     (let (s, out) = orb_evaluate loc tf c (tp_orb t) in (t\<lparr>tp_orb := s\<rparr>, out))"
| "template_evaluate loc ST_BOLLINGER_BANDS tf c history snap t =
     (let (s, out) = bb_evaluate loc tf c history snap (tp_bb t) in (t\<lparr>tp_bb := s\<rparr>, out))"
| "template_evaluate loc ST_VPA tf c history snap t = (t, vpa_evaluate c history)"
| "template_evaluate loc ST_TREND_FOLLOWING tf c history snap t =
     (let (s, out) = trend_evaluate loc tf c history snap (tp_trend t) in (t\<lparr>tp_trend := s\<rparr>, out))"
| "template_evaluate loc ST_MEAN_REVERSION tf c history snap t =
     (let (s, out) = mr_evaluate loc tf c history snap (tp_mr t) in (t\<lparr>tp_mr := s\<rparr>, out))"

subsection \<open>What the templates promise\<close>

lemma squeeze_returns: "is_squeeze cs 20 2 20 10 (3/2) = Inr (squeeze_active cs)"
  by (auto simp: squeeze_active_def is_squeeze_def bollinger_bands_def keltner_channels_def ema_def atr_def Let_def
      split: sum.splits option.splits if_splits)

text \<open>Entry modes are those the generator declares, and a level candidate is a price trigger.\<close>

definition candidate_ok :: "strategy_type \<Rightarrow> candidate_signal \<Rightarrow> bool" where
  "candidate_ok st cd \<longleftrightarrow> cd_entry_mode cd = strategy_entry_mode st \<and>
     (cd_entry_mode cd = INTRABAR \<longrightarrow> cd_trigger_type cd \<in> {PRICE_LEVEL, STRUCTURE})"

lemma orb_candidates:
  "cd \<in> set (snd (orb_evaluate loc tf c s)) \<Longrightarrow> candidate_ok ST_ORB cd"
  by (auto simp: orb_evaluate_def Let_def price_level_candidate_def candidate_ok_def split: option.splits if_splits)

lemma bb_candidates:
  "cd \<in> set (snd (bb_evaluate loc tf c history snap s)) \<Longrightarrow> candidate_ok ST_BOLLINGER_BANDS cd"
  by (auto simp: bb_evaluate_def Let_def price_level_candidate_def candidate_ok_def split: option.splits bool.splits if_splits)

lemma trend_candidates:
  "cd \<in> set (snd (trend_evaluate loc tf c history snap s)) \<Longrightarrow> candidate_ok ST_TREND_FOLLOWING cd"
  by (auto simp: trend_evaluate_def Let_def pullback_def structure_candidate_def candidate_ok_def split: if_splits)

lemma mr_candidates:
  "cd \<in> set (snd (mr_evaluate loc tf c history snap s)) \<Longrightarrow> candidate_ok ST_MEAN_REVERSION cd"
  by (auto simp: mr_evaluate_def Let_def close_candidate_def candidate_ok_def split: option.splits if_splits)

lemma vpa_candidates: "cd \<in> set (vpa_evaluate c history) \<Longrightarrow> candidate_ok ST_VPA cd"
  by (auto simp: vpa_evaluate_def close_candidate_def candidate_ok_def split: if_splits)

lemma template_candidates_ok:
  "cd \<in> set (snd (template_evaluate loc st tf c history snap t)) \<Longrightarrow> candidate_ok st cd"
  by (cases st) (auto simp: Let_def case_prod_unfold
      dest: orb_candidates bb_candidates trend_candidates mr_candidates vpa_candidates)

text \<open>
  Both sides of the opening range arm_variants once per instrument, timeframe and day: after a candle outside
  the range window that produced candidates, the next one of the same day produces none.
\<close>

lemma orb_fires_once:
  assumes "orb_evaluate loc tf c s = (s', out)" "out \<noteq> []"
    and "c_token c' = c_token c" "candle_day loc c' = candle_day loc c"
  shows "snd (orb_evaluate loc tf c' s') = []"
proof -
  have day: "ob_last_reset_date s' = Some (candle_day loc c)"
    using assms(1,2) by (auto simp: orb_evaluate_def Let_def orb_reset_def split: option.splits if_splits)
  have fired: "ob_long_fired s' (c_token c, tf)" "ob_short_fired s' (c_token c, tf)"
    using assms(1,2) by (auto simp: orb_evaluate_def Let_def split: option.splits if_splits)
  show ?thesis
    using day fired assms(3,4) by (auto simp: orb_evaluate_def Let_def split: option.splits)
qed

text \<open>The two triggers enclose the middle of the range: long above, short below.\<close>

lemma orb_levels:
  assumes "orb_evaluate loc tf c s = (s', out)" "cd \<in> set out"
  shows "(case cd_direction cd of LONG \<Rightarrow> ob_range_high s' (c_token c) | SHORT \<Rightarrow> ob_range_low s' (c_token c)) =
    Some (cd_trigger_value cd)"
  using assms by (auto simp: orb_evaluate_def Let_def price_level_candidate_def split: option.splits if_splits)

text \<open>A candle cannot engulf itself: the two bodies would have opposite colours.\<close>

lemma no_self_engulfing: "\<not> is_bullish_engulfing c c" "\<not> is_bearish_engulfing c c"
  by (auto simp: is_bullish_engulfing_def is_bearish_engulfing_def)

text \<open>
  The candle builder appends a candle to its history before it emits it. Evaluated on that history,
  as the live engine does, the previous candle of the engulfing patterns is the candle itself, and
  only the hammer and the shooting star remain.
\<close>

lemma engulfing_never_fires_live:
  assumes "history = history_of (emit_candle c (c_token c, tf) b) (c_token c, tf)" "0 < cb_max_history b"
  shows "vpa_evaluate c history =
    (if length history < 5 then []
     else (if is_hammer c then [close_candidate PATTERN LONG c] else []) @
          (if is_shooting_star c then [close_candidate PATTERN SHORT c] else []))"
proof -
  have last: "last history = c" if "history \<noteq> []"
    using that assms by (auto simp: emit_candle_def history_of_def Let_def last_tl split: option.splits if_splits)
  show ?thesis
  proof (cases "length history < 5")
    case False
    then have "history \<noteq> []" by (cases history) simp_all
    then have "last history = c" by (rule last)
    then show ?thesis by (simp add: vpa_evaluate_def no_self_engulfing)
  qed (simp add: vpa_evaluate_def)
qed

end
