(* ===== verification/Variant_Execution.thy ===== *)
theory Variant_Execution
  imports Variant_Templates "HOL-Library.Multiset"
begin

section \<open>Armed variants, trigger groups and the tick engine\<close>

text \<open>
  \<open>app/execution/armed_state.py\<close>, \<open>grouping.py\<close>, \<open>tick_engine.py\<close> and \<open>trade_recorder.py\<close>. The
  identifier of a variant is the argument \<open>vid\<close>, the identifier of a trade the argument \<open>mk_id\<close> (the
  digest of its four parts). Dictionaries that are iterated over are association lists; a
  \<open>defaultdict\<close> creates the key it reads, as \<open>touch\<close> does.
\<close>

subsection \<open>Armed state\<close>

record armed_state =
  as_max_per_instrument :: nat
  as_armed :: "(string \<times> armed_variant list) list"
  as_triggered_today :: "(string \<times> string) set"

definition new_armed_state :: "nat \<Rightarrow> armed_state" where
  "new_armed_state n = \<lparr>as_max_per_instrument = n, as_armed = [], as_triggered_today = {}\<rparr>"

definition get_armed :: "armed_state \<Rightarrow> string \<Rightarrow> armed_variant list" where
  "get_armed s inst = (case map_of (as_armed s) inst of None \<Rightarrow> [] | Some avs \<Rightarrow> avs)"

definition set_armed :: "string \<Rightarrow> armed_variant list \<Rightarrow> armed_state \<Rightarrow> armed_state" where
  "set_armed inst avs s = s\<lparr>as_armed := AList.update inst avs (as_armed s)\<rparr>"

definition touch :: "string \<Rightarrow> armed_state \<Rightarrow> armed_state" where
  "touch inst s = set_armed inst (get_armed s inst) s"

text \<open>\<open>arm\<close>: the loop leaves at the first full instrument and skips what triggered today.\<close>

fun arm_variants :: "(variant \<Rightarrow> string) \<Rightarrow> armed_variant list \<Rightarrow> armed_state \<Rightarrow> armed_state \<times> nat" where
  "arm_variants vid [] s = (s, 0)"
| "arm_variants vid (av # avs) s =
     (let inst = av_instrument av; s = touch inst s in
      if length (get_armed s inst) \<ge> as_max_per_instrument s then (s, 0)
      else if (vid (av_variant av), inst) \<in> as_triggered_today s then arm_variants vid avs s
      else (let (s', n) = arm_variants vid avs (set_armed inst (get_armed s inst @ [av]) s) in (s', n + 1)))"

definition disarm_triggered :: "(variant \<Rightarrow> string) \<Rightarrow> string \<Rightarrow> string list \<Rightarrow> armed_state \<Rightarrow> armed_state" where
  "disarm_triggered vid inst ids s =
     (let s = s\<lparr>as_triggered_today := as_triggered_today s \<union> (\<lambda>i. (i, inst)) ` set ids\<rparr>
      in set_armed inst (filter (\<lambda>av. vid (av_variant av) \<notin> set ids) (get_armed s inst)) s)"

definition cleanup_expired :: "string \<Rightarrow> int \<Rightarrow> string option \<Rightarrow> armed_state \<Rightarrow> armed_state \<times> nat" where
  "cleanup_expired inst current_candle tf s =
     (let s = touch inst s; before = length (get_armed s inst);
          kept = (case tf of
              Some t \<Rightarrow> if t \<noteq> '''' then filter (\<lambda>av. \<not> (rtf_value (va_timeframe (av_variant av)) = t \<and>
                          is_expired av current_candle)) (get_armed s inst)
                        else filter (\<lambda>av. \<not> is_expired av current_candle) (get_armed s inst)
            | None \<Rightarrow> filter (\<lambda>av. \<not> is_expired av current_candle) (get_armed s inst));
          s' = set_armed inst kept s
      in (s', before - length (get_armed s' inst)))"

definition get_all_armed :: "armed_state \<Rightarrow> armed_variant list" where
  "get_all_armed s = concat (List.map snd (as_armed s))"

definition get_armed_count :: "string option \<Rightarrow> armed_state \<Rightarrow> nat" where
  "get_armed_count inst s =
     (case inst of
        Some i \<Rightarrow> if i \<noteq> '''' then length (get_armed s i) else sum_list (List.map (\<lambda>(k, avs). length avs) (as_armed s))
      | None \<Rightarrow> sum_list (List.map (\<lambda>(k, avs). length avs) (as_armed s)))"

definition get_instruments_with_armed :: "armed_state \<Rightarrow> string list" where
  "get_instruments_with_armed s = List.map fst (filter (\<lambda>(k, avs). avs \<noteq> []) (as_armed s))"

definition armed_reset_daily :: "armed_state \<Rightarrow> armed_state" where
  "armed_reset_daily s = s\<lparr>as_armed := [], as_triggered_today := {}\<rparr>"

subsection \<open>Trigger groups\<close>

record price_group =
  pg_trigger_value :: pyfloat
  pg_direction :: trade_direction
  pg_members :: "armed_variant list"

type_synonym group_key = "trade_direction \<times> pyfloat"

record inst_groups =
  ig_long :: "pyfloat list"
  ig_short :: "pyfloat list"
  ig_groups :: "(group_key \<times> price_group) list"

definition no_groups :: inst_groups where
  "no_groups = \<lparr>ig_long = [], ig_short = [], ig_groups = []\<rparr>"

type_synonym grouping = "(string \<times> inst_groups) list"

definition groups_of :: "grouping \<Rightarrow> string \<Rightarrow> inst_groups" where
  "groups_of g inst = (case map_of g inst of None \<Rightarrow> no_groups | Some ig \<Rightarrow> ig)"

definition insert_level :: "trade_direction \<Rightarrow> pyfloat \<Rightarrow> inst_groups \<Rightarrow> inst_groups" where
  "insert_level d level ig =
     (if d = LONG then ig\<lparr>ig_long := insort level (ig_long ig)\<rparr> else ig\<lparr>ig_short := insort level (ig_short ig)\<rparr>)"

definition level_of :: "armed_variant \<Rightarrow> pyfloat" where
  "level_of av = py_round (av_trigger_value av) 2"

definition is_price_trigger :: "armed_variant \<Rightarrow> bool" where
  "is_price_trigger av \<longleftrightarrow> av_trigger_type av \<in> {PRICE_LEVEL, STRUCTURE}"

definition group_variant :: "armed_variant \<Rightarrow> inst_groups \<Rightarrow> inst_groups" where
  "group_variant av ig =
     (if \<not> is_price_trigger av then ig
      else
        let level = level_of av; d = av_direction av; key = (d, level);
            ig = (if map_of (ig_groups ig) key = None
                  then insert_level d level (ig\<lparr>ig_groups := AList.update key
                         \<lparr>pg_trigger_value = level, pg_direction = d, pg_members = []\<rparr> (ig_groups ig)\<rparr>)
                  else ig)
        in case map_of (ig_groups ig) key of
             None \<Rightarrow> ig
           | Some g \<Rightarrow> ig\<lparr>ig_groups := AList.update key (g\<lparr>pg_members := pg_members g @ [av]\<rparr>) (ig_groups ig)\<rparr>)"

definition rebuild :: "string \<Rightarrow> armed_variant list \<Rightarrow> grouping \<Rightarrow> grouping \<times> nat" where
  "rebuild inst avs g =
     (let ig = fold group_variant avs no_groups in (AList.update inst ig g, length (ig_groups ig)))"

text \<open>
  \<open>check_triggers\<close>: the long levels from the lowest up while the price is at or above them, the short
  levels from the highest down while it is at or below them.
\<close>

definition check_triggers :: "grouping \<Rightarrow> string \<Rightarrow> pyfloat \<Rightarrow> price_group list" where
  "check_triggers g inst price =
     (let ig = groups_of g inst in
      if ig_groups ig = [] then []
      else List.map_filter (\<lambda>l. map_of (ig_groups ig) (LONG, l)) (takeWhile (\<lambda>l. price \<ge> l) (ig_long ig)) @
           List.map_filter (\<lambda>l. map_of (ig_groups ig) (SHORT, l)) (takeWhile (\<lambda>l. price \<le> l) (rev (ig_short ig))))"

definition remove_group :: "string \<Rightarrow> trade_direction \<Rightarrow> pyfloat \<Rightarrow> grouping \<Rightarrow> grouping" where
  "remove_group inst d level g =
     (case map_of g inst of
        None \<Rightarrow> g
      | Some ig \<Rightarrow>
          let level = py_round level 2; ig = ig\<lparr>ig_groups := AList.delete (d, level) (ig_groups ig)\<rparr>;
              ig = (if d = LONG then ig\<lparr>ig_long := remove1 level (ig_long ig)\<rparr>
                    else ig\<lparr>ig_short := remove1 level (ig_short ig)\<rparr>)
          in AList.update inst ig g)"

definition get_group_count :: "string option \<Rightarrow> grouping \<Rightarrow> nat" where
  "get_group_count inst g =
     (case inst of
        Some i \<Rightarrow> if i \<noteq> '''' then length (ig_groups (groups_of g i))
                  else sum_list (List.map (\<lambda>(k, ig). length (ig_groups ig)) g)
      | None \<Rightarrow> sum_list (List.map (\<lambda>(k, ig). length (ig_groups ig)) g))"

definition clear_groups :: "string option \<Rightarrow> grouping \<Rightarrow> grouping" where
  "clear_groups inst g = (case inst of Some i \<Rightarrow> if i \<noteq> '''' then AList.delete i g else [] | None \<Rightarrow> [])"

subsection \<open>The tick engine\<close>

record tick_engine =
  te_armed :: armed_state
  te_groups :: grouping
  te_queue :: "trade_record list"
  te_snapshots :: "string \<rightharpoonup> indicator_snapshot"
  te_metadata :: "string \<rightharpoonup> metadata_snapshot"
  te_ticks_processed :: nat
  te_groups_triggered :: nat
  te_trades_created :: nat

definition new_tick_engine :: "nat \<Rightarrow> tick_engine" where
  "new_tick_engine n = \<lparr>te_armed = new_armed_state n, te_groups = [], te_queue = [], te_snapshots = Map.empty,
     te_metadata = Map.empty, te_ticks_processed = 0, te_groups_triggered = 0, te_trades_created = 0\<rparr>"

type_synonym trade_ids = "string \<Rightarrow> string \<Rightarrow> int \<Rightarrow> string \<Rightarrow> string"

definition create_trade_record ::
  "trade_ids \<Rightarrow> (variant \<Rightarrow> string) \<Rightarrow> armed_variant \<Rightarrow> string \<Rightarrow> pyfloat \<Rightarrow> pyfloat \<Rightarrow> indicator_snapshot \<Rightarrow>
   metadata_snapshot \<Rightarrow> trade_record" where
  "create_trade_record mk_id vid av inst price ms snap meta =
     (let v = av_variant av in
      \<lparr>rec_trade_id = mk_id (vid v) inst (py_int ms) (direction_value (av_direction av)), rec_variant_id = vid v,
       rec_strategy = strategy_value (va_strategy v), rec_timeframe = rtf_value (va_timeframe v), rec_instrument = inst,
       rec_direction = direction_value (av_direction av), rec_entry_time_ms = ms, rec_entry_price = price,
       rec_snapshot = snap, rec_metadata = meta\<rparr>)"

definition fire_group ::
  "trade_ids \<Rightarrow> (variant \<Rightarrow> string) \<Rightarrow> price_group \<Rightarrow> string \<Rightarrow> pyfloat \<Rightarrow> pyfloat \<Rightarrow> tick_engine \<Rightarrow> tick_engine \<times> nat" where
  "fire_group mk_id vid g inst price ms e =
     (let snap = (case te_snapshots e inst of None \<Rightarrow> empty_snapshot | Some s \<Rightarrow> s);
          meta = (case te_metadata e inst of None \<Rightarrow> empty_metadata | Some m \<Rightarrow> m);
          recs = List.map (\<lambda>av. create_trade_record mk_id vid av inst price ms snap meta) (pg_members g);
          ids = List.map (\<lambda>av. vid (av_variant av)) (pg_members g)
      in (e\<lparr>te_groups_triggered := te_groups_triggered e + 1,
            te_queue := te_queue e @ recs,
            te_trades_created := te_trades_created e + length recs,
            te_armed := disarm_triggered vid inst ids (te_armed e),
            te_groups := remove_group inst (pg_direction g) (pg_trigger_value g) (te_groups e)\<rparr>,
          length (pg_members g)))"

fun fire_groups ::
  "trade_ids \<Rightarrow> (variant \<Rightarrow> string) \<Rightarrow> price_group list \<Rightarrow> string \<Rightarrow> pyfloat \<Rightarrow> pyfloat \<Rightarrow> tick_engine \<Rightarrow> tick_engine \<times> nat" where
  "fire_groups mk_id vid [] inst price ms e = (e, 0)"
| "fire_groups mk_id vid (g # gs) inst price ms e =
     (let (e1, n) = fire_group mk_id vid g inst price ms e; (e2, m) = fire_groups mk_id vid gs inst price ms e1
      in (e2, n + m))"

definition engine_on_tick :: "trade_ids \<Rightarrow> (variant \<Rightarrow> string) \<Rightarrow> tick \<Rightarrow> tick_engine \<Rightarrow> tick_engine \<times> nat" where
  "engine_on_tick mk_id vid t e =
     (let e = e\<lparr>te_ticks_processed := te_ticks_processed e + 1\<rparr>
      in fire_groups mk_id vid (check_triggers (te_groups e) (tk_token t) (ltp t)) (tk_token t) (ltp t) (tk_ms t) e)"

definition flush_trades :: "tick_engine \<Rightarrow> tick_engine \<times> trade_record list" where
  "flush_trades e = (e\<lparr>te_queue := []\<rparr>, te_queue e)"

definition engine_reset_daily :: "tick_engine \<Rightarrow> tick_engine" where
  "engine_reset_daily e = e\<lparr>te_queue := [], te_snapshots := Map.empty, te_metadata := Map.empty,
     te_ticks_processed := 0, te_groups_triggered := 0, te_trades_created := 0\<rparr>"

subsection \<open>The trigger index is exact\<close>

definition crossed :: "trade_direction \<times> pyfloat \<Rightarrow> pyfloat \<Rightarrow> bool" where
  "crossed k price = (case fst k of LONG \<Rightarrow> price \<ge> snd k | SHORT \<Rightarrow> price \<le> snd k)"

definition av_key :: "armed_variant \<Rightarrow> group_key" where
  "av_key av = (av_direction av, level_of av)"

definition group_ok :: "group_key \<Rightarrow> price_group \<Rightarrow> bool" where
  "group_ok k g \<longleftrightarrow> pg_direction g = fst k \<and> pg_trigger_value g = snd k \<and>
     (\<forall>av \<in> set (pg_members g). is_price_trigger av \<and> av_key av = k)"

definition ig_ok :: "inst_groups \<Rightarrow> bool" where
  "ig_ok ig \<longleftrightarrow> sorted (ig_long ig) \<and> distinct (ig_long ig) \<and> sorted (ig_short ig) \<and> distinct (ig_short ig) \<and>
     distinct (List.map fst (ig_groups ig)) \<and>
     (\<forall>l. l \<in> set (ig_long ig) \<longleftrightarrow> (LONG, l) \<in> fst ` set (ig_groups ig)) \<and>
     (\<forall>l. l \<in> set (ig_short ig) \<longleftrightarrow> (SHORT, l) \<in> fst ` set (ig_groups ig)) \<and>
     (\<forall>k g. (k, g) \<in> set (ig_groups ig) \<longrightarrow> group_ok k g \<and> py_round (snd k) 2 = snd k)"

definition ig_members :: "inst_groups \<Rightarrow> armed_variant multiset" where
  "ig_members ig = (\<Sum>(k, g) \<leftarrow> ig_groups ig. mset (pg_members g))"

lemma py_round_idem: "py_round (py_round x n) n = py_round x n"
  by (rule py_round_exact[of _ _ "round_half_even (x * 10 ^ n)"]) (simp add: py_round_def)

lemma ig_okD: "ig_ok ig \<Longrightarrow> (k, g) \<in> set (ig_groups ig) \<Longrightarrow> group_ok k g \<and> py_round (snd k) 2 = snd k"
  unfolding ig_ok_def by blast

lemma ig_ok_with_groups:
  assumes "ig_ok ig" "fst ` set al = fst ` set (ig_groups ig)" "distinct (List.map fst al)"
    "\<And>k g. (k, g) \<in> set al \<Longrightarrow> group_ok k g \<and> py_round (snd k) 2 = snd k"
  shows "ig_ok (ig\<lparr>ig_groups := al\<rparr>)"
proof -
  have "ig_ok (ig\<lparr>ig_groups := al\<rparr>) \<longleftrightarrow> sorted (ig_long ig) \<and> distinct (ig_long ig) \<and> sorted (ig_short ig) \<and>
      distinct (ig_short ig) \<and> distinct (List.map fst al) \<and>
      (\<forall>l. l \<in> set (ig_long ig) \<longleftrightarrow> (LONG, l) \<in> fst ` set al) \<and>
      (\<forall>l. l \<in> set (ig_short ig) \<longleftrightarrow> (SHORT, l) \<in> fst ` set al) \<and>
      (\<forall>k g. (k, g) \<in> set al \<longrightarrow> group_ok k g \<and> py_round (snd k) 2 = snd k)"
    unfolding ig_ok_def by simp
  then show ?thesis using assms unfolding ig_ok_def by blast
qed

lemma ig_ok_no_groups: "ig_ok no_groups"
  by (simp add: ig_ok_def no_groups_def)

lemma trade_direction_cases: "d \<noteq> LONG \<longleftrightarrow> d = SHORT"
  by (cases d) auto

lemma members_update:
  "map_of al k = Some g \<Longrightarrow>
   (\<Sum>(k, g) \<leftarrow> AList.update k (g\<lparr>pg_members := pg_members g @ [av]\<rparr>) al. mset (pg_members g)) =
   (\<Sum>(k, g) \<leftarrow> al. mset (pg_members g)) + {#av#}"
  by (induction al) (auto split: if_splits)

lemma members_new:
  "map_of al k = None \<Longrightarrow> pg_members g = [] \<Longrightarrow>
   (\<Sum>(k, g) \<leftarrow> AList.update k g al. mset (pg_members g)) = (\<Sum>(k, g) \<leftarrow> al. mset (pg_members g))"
  by (induction al) (auto split: if_splits)

text \<open>The two steps of \<open>group_variant\<close>: make sure the group is there, and append to it.\<close>

definition ensure_group :: "group_key \<Rightarrow> inst_groups \<Rightarrow> inst_groups" where
  "ensure_group k ig =
     (if map_of (ig_groups ig) k = None
      then insert_level (fst k) (snd k) (ig\<lparr>ig_groups := AList.update k
             \<lparr>pg_trigger_value = snd k, pg_direction = fst k, pg_members = []\<rparr> (ig_groups ig)\<rparr>)
      else ig)"

lemma ensure_group_ok:
  assumes "ig_ok ig" "py_round (snd k) 2 = snd k"
  shows "ig_ok (ensure_group k ig)" "ig_members (ensure_group k ig) = ig_members ig"
    "\<exists>g. map_of (ig_groups (ensure_group k ig)) k = Some g"
proof -
  have new: "k \<notin> fst ` set (ig_groups ig)" if "map_of (ig_groups ig) k = None" using that by (simp add: map_of_eq_None_iff)
  show "ig_ok (ensure_group k ig)"
  proof (cases "map_of (ig_groups ig) k")
    case None
    have nl: "snd k \<notin> set (ig_long ig)" if "fst k = LONG" using new[OF None] assms(1) that by (cases k) (auto simp: ig_ok_def)
    have ns: "snd k \<notin> set (ig_short ig)" if "fst k = SHORT" using new[OF None] assms(1) that by (cases k) (auto simp: ig_ok_def)
    let ?g = "\<lparr>pg_trigger_value = snd k, pg_direction = fst k, pg_members = []\<rparr>"
    have keys: "fst ` set (AList.update k ?g (ig_groups ig)) = insert k (fst ` set (ig_groups ig))"
      by (simp add: update_conv' flip: dom_map_of_conv_image_fst)
    have dist: "distinct (List.map fst (AList.update k ?g (ig_groups ig)))" using assms(1) by (simp add: ig_ok_def distinct_update)
    have mem: "group_ok k' g' \<and> py_round (snd k') 2 = snd k'" if "(k', g') \<in> set (AList.update k ?g (ig_groups ig))" for k' g'
    proof -
      have "(k', g') = (k, ?g) \<or> (k', g') \<in> set (ig_groups ig)" using that set_update_subset[of k ?g "ig_groups ig"] by auto
      then show ?thesis
      proof
        assume "(k', g') = (k, ?g)"
        then show ?thesis using assms(2) by (simp add: group_ok_def)
      qed (rule ig_okD[OF assms(1)])
    qed
    show ?thesis
    proof (cases "fst k")
      case LONG
      then show ?thesis using None assms(1) nl keys dist mem
        by (cases k) (auto simp: ensure_group_def insert_level_def ig_ok_def sorted_insort set_insort_key distinct_insort)
    next
      case SHORT
      then show ?thesis using None assms(1) ns keys dist mem
        by (cases k) (auto simp: ensure_group_def insert_level_def ig_ok_def sorted_insort set_insort_key distinct_insort)
    qed
  qed (use assms(1) in \<open>simp add: ensure_group_def\<close>)
  show "ig_members (ensure_group k ig) = ig_members ig"
    by (auto simp: ensure_group_def insert_level_def ig_members_def members_new)
  show "\<exists>g. map_of (ig_groups (ensure_group k ig)) k = Some g"
    by (auto simp: ensure_group_def insert_level_def)
qed

lemma group_variant_ensure:
  "is_price_trigger av \<Longrightarrow> group_variant av ig =
     (let ig = ensure_group (av_key av) ig in
      case map_of (ig_groups ig) (av_key av) of
        None \<Rightarrow> ig
      | Some g \<Rightarrow> ig\<lparr>ig_groups := AList.update (av_key av) (g\<lparr>pg_members := pg_members g @ [av]\<rparr>) (ig_groups ig)\<rparr>)"
  unfolding group_variant_def ensure_group_def av_key_def Let_def fst_conv snd_conv by simp

lemma group_variant_ok:
  assumes "ig_ok ig"
  shows "ig_ok (group_variant av ig)"
    "ig_members (group_variant av ig) = ig_members ig + (if is_price_trigger av then {#av#} else {#})"
proof -
  let ?k = "av_key av" and ?e = "ensure_group (av_key av) ig"
  have r: "py_round (snd ?k) 2 = snd ?k" by (simp add: av_key_def level_of_def py_round_idem)
  note en = ensure_group_ok[OF assms r]
  obtain g where g: "map_of (ig_groups ?e) ?k = Some g" using en(3) by blast
  let ?g = "g\<lparr>pg_members := pg_members g @ [av]\<rparr>"
  have up: "is_price_trigger av \<Longrightarrow> group_variant av ig = ?e\<lparr>ig_groups := AList.update ?k ?g (ig_groups ?e)\<rparr>"
    using g by (simp add: group_variant_ensure Let_def)
  show "ig_members (group_variant av ig) = ig_members ig + (if is_price_trigger av then {#av#} else {#})"
    using up en(2) members_update[OF g, of av] by (cases "is_price_trigger av") (simp_all add: ig_members_def group_variant_def)
  show "ig_ok (group_variant av ig)"
  proof (cases "is_price_trigger av")
    case True
    have old: "group_ok ?k g" using map_of_SomeD[OF g] ig_okD[OF en(1)] by blast
    have "group_ok ?k ?g" using old True by (auto simp: group_ok_def)
    moreover have "fst ` set (AList.update ?k ?g (ig_groups ?e)) = fst ` set (ig_groups ?e)"
      using map_fst_update_existing[OF g, of ?g] by (metis list.set_map)
    moreover have "distinct (List.map fst (AList.update ?k ?g (ig_groups ?e)))" using en(1) by (simp add: ig_ok_def distinct_update)
    moreover have "group_ok k' g' \<and> py_round (snd k') 2 = snd k'" if "(k', g') \<in> set (AList.update ?k ?g (ig_groups ?e))" for k' g'
    proof -
      have "(k', g') = (?k, ?g) \<or> (k', g') \<in> set (ig_groups ?e)" using that set_update_subset[of ?k ?g "ig_groups ?e"] by auto
      then show ?thesis
      proof
        assume "(k', g') = (?k, ?g)"
        then show ?thesis using r \<open>group_ok ?k ?g\<close> by simp
      qed (rule ig_okD[OF en(1)])
    qed
    ultimately show ?thesis unfolding up[OF True] by (intro ig_ok_with_groups[OF en(1)])
  qed (use assms in \<open>simp add: group_variant_def\<close>)
qed

lemma fold_group_variant:
  "ig_ok ig \<Longrightarrow> ig_ok (fold group_variant avs ig) \<and>
     ig_members (fold group_variant avs ig) = ig_members ig + mset (filter is_price_trigger avs)"
  by (induction avs arbitrary: ig) (auto simp: group_variant_ok)

lemma rebuild_ok:
  "ig_ok (groups_of (fst (rebuild inst avs g)) inst)"
  "ig_members (groups_of (fst (rebuild inst avs g)) inst) = mset (filter is_price_trigger avs)"
  "inst' \<noteq> inst \<Longrightarrow> groups_of (fst (rebuild inst avs g)) inst' = groups_of g inst'"
  using fold_group_variant[OF ig_ok_no_groups, of avs]
  by (simp_all add: rebuild_def groups_of_def Let_def ig_members_def no_groups_def map_of_update_other)


lemma sorted_takeWhile_le: "sorted xs \<Longrightarrow> takeWhile (\<lambda>l. l \<le> p) xs = filter (\<lambda>l. l \<le> p) xs" for p :: pyfloat
proof (induction xs)
  case (Cons x xs)
  show ?case
  proof (cases "x \<le> p")
    case False
    then have "filter (\<lambda>l. l \<le> p) xs = []" using Cons.prems by (auto simp: filter_empty_conv)
    then show ?thesis using False by simp
  qed (use Cons in simp)
qed simp

lemma sorted_rev_takeWhile_ge:
  "sorted xs \<Longrightarrow> takeWhile (\<lambda>l. p \<le> l) (rev xs) = filter (\<lambda>l. p \<le> l) (rev xs)" for p :: pyfloat
proof (induction xs rule: rev_induct)
  case (snoc x xs)
  show ?case
  proof (cases "p \<le> x")
    case False
    then have "filter (\<lambda>l. p \<le> l) (rev xs) = []" using snoc.prems by (auto simp: filter_empty_conv sorted_append)
    then show ?thesis using False by simp
  qed (use snoc in \<open>simp add: sorted_append\<close>)
qed simp

text \<open>The keys a tick selects, in the order the code visits them.\<close>

definition hit_keys :: "inst_groups \<Rightarrow> pyfloat \<Rightarrow> group_key list" where
  "hit_keys ig price = List.map (Pair LONG) (filter (\<lambda>l. l \<le> price) (ig_long ig)) @
     List.map (Pair SHORT) (filter (\<lambda>l. price \<le> l) (rev (ig_short ig)))"

lemma map_filter_total: "(\<And>x. x \<in> set xs \<Longrightarrow> f x \<noteq> None) \<Longrightarrow> List.map_filter f xs = List.map (the \<circ> f) xs"
proof (induction xs)
  case (Cons x xs)
  then obtain y where "f x = Some y" by fastforce
  then show ?case using Cons by (simp add: List.map_filter_simps)
qed (simp add: List.map_filter_simps)

lemma check_triggers_keys:
  assumes "ig_ok (groups_of g inst)"
  shows "check_triggers g inst price = List.map (the \<circ> map_of (ig_groups (groups_of g inst))) (hit_keys (groups_of g inst) price)"
proof -
  let ?ig = "groups_of g inst"
  have long: "map_of (ig_groups ?ig) (LONG, l) \<noteq> None" if "l \<in> set (ig_long ?ig)" for l
    using assms that by (auto simp: ig_ok_def map_of_eq_None_iff)
  have short: "map_of (ig_groups ?ig) (SHORT, l) \<noteq> None" if "l \<in> set (ig_short ?ig)" for l
    using assms that by (auto simp: ig_ok_def map_of_eq_None_iff)
  have sorted: "sorted (ig_long ?ig)" "sorted (ig_short ?ig)" using assms by (auto simp: ig_ok_def)
  show ?thesis
  proof (cases "ig_groups ?ig = []")
    case True
    then have "ig_long ?ig = []" "ig_short ?ig = []" using long short by force+
    then show ?thesis using True by (simp add: check_triggers_def hit_keys_def Let_def)
  next
    case False
    have "List.map_filter (\<lambda>l. map_of (ig_groups ?ig) (LONG, l)) (filter (\<lambda>l. l \<le> price) (ig_long ?ig)) =
        List.map (the \<circ> (\<lambda>l. map_of (ig_groups ?ig) (LONG, l))) (filter (\<lambda>l. l \<le> price) (ig_long ?ig))"
      by (rule map_filter_total) (use long in auto)
    moreover have "List.map_filter (\<lambda>l. map_of (ig_groups ?ig) (SHORT, l)) (filter (\<lambda>l. price \<le> l) (rev (ig_short ?ig))) =
        List.map (the \<circ> (\<lambda>l. map_of (ig_groups ?ig) (SHORT, l))) (filter (\<lambda>l. price \<le> l) (rev (ig_short ?ig)))"
      by (rule map_filter_total) (use short in auto)
    ultimately show ?thesis
      using False sorted_takeWhile_le[OF sorted(1)] sorted_rev_takeWhile_ge[OF sorted(2)]
      by (simp add: check_triggers_def hit_keys_def Let_def comp_def)
  qed
qed

lemma hit_keys_set:
  assumes "ig_ok ig"
  shows "distinct (hit_keys ig price)" "set (hit_keys ig price) = {k \<in> fst ` set (ig_groups ig). crossed k price}"
proof -
  have "distinct (ig_long ig)" "distinct (ig_short ig)" using assms by (simp_all add: ig_ok_def)
  then show "distinct (hit_keys ig price)" by (auto simp: hit_keys_def distinct_map inj_on_def)
  have "k \<in> set (hit_keys ig price) \<longleftrightarrow> k \<in> fst ` set (ig_groups ig) \<and> crossed k price" for k
  proof (cases k)
    case (Pair d l)
    show ?thesis
    proof (cases d)
      case LONG
      have "l \<in> set (ig_long ig) \<longleftrightarrow> (LONG, l) \<in> fst ` set (ig_groups ig)" using assms unfolding ig_ok_def by blast
      moreover have "(LONG, l) \<in> set (hit_keys ig price) \<longleftrightarrow> l \<in> set (ig_long ig) \<and> l \<le> price" by (auto simp: hit_keys_def)
      ultimately show ?thesis unfolding Pair LONG crossed_def fst_conv snd_conv trade_direction.case by blast
    next
      case SHORT
      have "l \<in> set (ig_short ig) \<longleftrightarrow> (SHORT, l) \<in> fst ` set (ig_groups ig)" using assms unfolding ig_ok_def by blast
      moreover have "(SHORT, l) \<in> set (hit_keys ig price) \<longleftrightarrow> l \<in> set (ig_short ig) \<and> price \<le> l" by (auto simp: hit_keys_def)
      ultimately show ?thesis unfolding Pair SHORT crossed_def fst_conv snd_conv trade_direction.case by blast
    qed
  qed
  then show "set (hit_keys ig price) = {k \<in> fst ` set (ig_groups ig). crossed k price}" by blast
qed

text \<open>A tick selects exactly the groups whose level the price has reached.\<close>

lemma check_triggers_groups:
  assumes "ig_ok (groups_of g inst)"
  shows "mset (check_triggers g inst price) =
    mset (List.map snd (filter (\<lambda>(k, pg). crossed k price) (ig_groups (groups_of g inst))))"
proof -
  let ?ig = "groups_of g inst" and ?al = "ig_groups (groups_of g inst)"
  have dist: "distinct (List.map fst ?al)" using assms by (simp add: ig_ok_def)
  have "mset (hit_keys ?ig price) = mset (List.map fst (filter (\<lambda>(k, pg). crossed k price) ?al))"
  proof (subst set_eq_iff_mset_eq_distinct[symmetric])
    show "distinct (hit_keys ?ig price)" by (rule hit_keys_set[OF assms])
    show "distinct (List.map fst (filter (\<lambda>(k, pg). crossed k price) ?al))" using dist by (rule distinct_map_filter)
    show "set (hit_keys ?ig price) = set (List.map fst (filter (\<lambda>(k, pg). crossed k price) ?al))"
      unfolding hit_keys_set(2)[OF assms] by force
  qed
  then have "mset (check_triggers g inst price) =
      mset (List.map (the \<circ> map_of ?al) (List.map fst (filter (\<lambda>(k, pg). crossed k price) ?al)))"
    unfolding check_triggers_keys[OF assms] mset_map by (rule arg_cong)
  also have "List.map (the \<circ> map_of ?al) (List.map fst (filter (\<lambda>(k, pg). crossed k price) ?al)) =
      List.map snd (filter (\<lambda>(k, pg). crossed k price) ?al)"
    using dist by (auto simp: map_of_is_SomeI)
  finally show ?thesis .
qed

lemma members_filter:
  assumes "\<And>k g. (k, g) \<in> set al \<Longrightarrow> group_ok k g"
  shows "(\<Sum>pg \<leftarrow> List.map snd (filter (\<lambda>(k, pg). crossed k price) al). mset (pg_members pg)) =
    filter_mset (\<lambda>av. crossed (av_key av) price) (\<Sum>(k, g) \<leftarrow> al. mset (pg_members g))"
  using assms
proof (induction al)
  case (Cons x al)
  obtain k g where x: "x = (k, g)" by (cases x)
  have ok: "group_ok k g" using Cons.prems x by simp
  have "filter_mset (\<lambda>av. crossed (av_key av) price) (mset (pg_members g)) =
      (if crossed k price then mset (pg_members g) else {#})"
    using ok by (auto simp: group_ok_def filter_mset_eq_conv)
  then show ?case using Cons x by auto
qed simp

text \<open>
  The whole index: after a rebuild, a tick selects exactly the armed price-triggered variants whose
  rounded level it has reached, each once per time it is armed.
\<close>

lemma sum_list_mset_cong:
  fixes f :: "'a \<Rightarrow> 'b :: comm_monoid_add"
  assumes "mset xs = mset ys"
  shows "(\<Sum>x \<leftarrow> xs. f x) = (\<Sum>y \<leftarrow> ys. f y)"
proof -
  have "sum_mset (image_mset f (mset xs)) = sum_mset (image_mset f (mset ys))" using assms by simp
  then show ?thesis by (simp only: mset_map[symmetric] sum_mset_sum_list)
qed

lemma selected_members:
  assumes "ig_ok (groups_of g inst)"
  shows "(\<Sum>pg \<leftarrow> check_triggers g inst price. mset (pg_members pg)) =
    filter_mset (\<lambda>av. crossed (av_key av) price) (ig_members (groups_of g inst))"
proof -
  have "(\<Sum>pg \<leftarrow> check_triggers g inst price. mset (pg_members pg)) =
      (\<Sum>pg \<leftarrow> List.map snd (filter (\<lambda>(k, pg). crossed k price) (ig_groups (groups_of g inst))). mset (pg_members pg))"
    by (rule sum_list_mset_cong[OF check_triggers_groups[OF assms]])
  also have "\<dots> = filter_mset (\<lambda>av. crossed (av_key av) price) (ig_members (groups_of g inst))"
    unfolding ig_members_def by (rule members_filter) (use ig_okD[OF assms] in blast)
  finally show ?thesis .
qed

lemma rebuild_check:
  "(\<Sum>pg \<leftarrow> check_triggers (fst (rebuild inst avs g)) inst price. mset (pg_members pg)) =
   mset (filter (\<lambda>av. is_price_trigger av \<and> crossed (av_key av) price) avs)"
  unfolding selected_members[OF rebuild_ok(1)] rebuild_ok(2) mset_filter[symmetric] filter_filter
  by (simp only: conj_commute)


subsection \<open>Removing fired groups\<close>

lemma ig_ok_delete:
  assumes "ig_ok ig"
  shows "ig_ok (if d = LONG then ig\<lparr>ig_groups := AList.delete (d, l) (ig_groups ig), ig_long := remove1 l (ig_long ig)\<rparr>
    else ig\<lparr>ig_groups := AList.delete (d, l) (ig_groups ig), ig_short := remove1 l (ig_short ig)\<rparr>)"
proof -
  have keys: "fst ` set (AList.delete (d, l) (ig_groups ig)) = fst ` set (ig_groups ig) - {(d, l)}"
    by (auto simp: set_delete)
  have dist: "distinct (List.map fst (AList.delete (d, l) (ig_groups ig)))" using assms by (simp add: ig_ok_def distinct_delete)
  have mem: "group_ok k g \<and> py_round (snd k) 2 = snd k" if "(k, g) \<in> set (AList.delete (d, l) (ig_groups ig))" for k g
  proof -
    have "(k, g) \<in> set (ig_groups ig)" using that by (simp add: set_delete)
    then show ?thesis by (rule ig_okD[OF assms])
  qed
  have lv: "distinct (ig_long ig)" "distinct (ig_short ig)" "sorted (ig_long ig)" "sorted (ig_short ig)"
    using assms by (simp_all add: ig_ok_def)
  have kl: "\<And>x. x \<in> set (ig_long ig) \<longleftrightarrow> (LONG, x) \<in> fst ` set (ig_groups ig)"
    and ks: "\<And>x. x \<in> set (ig_short ig) \<longleftrightarrow> (SHORT, x) \<in> fst ` set (ig_groups ig)"
    using assms unfolding ig_ok_def by blast+
  show ?thesis
  proof (cases d)
    case LONG
    then show ?thesis unfolding ig_ok_def using dist mem lv keys
      by (simp add: sorted_remove1 kl ks set_remove1_eq)
  next
    case SHORT
    then show ?thesis unfolding ig_ok_def using dist mem lv keys
      by (simp add: sorted_remove1 kl ks set_remove1_eq)
  qed
qed

lemma remove_group_other: "inst' \<noteq> inst \<Longrightarrow> groups_of (remove_group inst d l g) inst' = groups_of g inst'"
  by (auto simp: remove_group_def groups_of_def Let_def map_of_update_other split: option.split)

lemma remove_group_ok: "(\<And>i. ig_ok (groups_of g i)) \<Longrightarrow> ig_ok (groups_of (remove_group inst d l g) i)"
proof -
  assume ok: "\<And>i. ig_ok (groups_of g i)"
  show ?thesis
  proof (cases "i = inst \<and> map_of g inst \<noteq> None")
    case True
    then obtain ig where ig: "map_of g inst = Some ig" "i = inst" by auto
    then have "ig_ok ig" using ok[of inst] by (simp add: groups_of_def)
    then show ?thesis using ig_ok_delete[of ig d "py_round l 2"] ig
      by (cases "d = LONG") (simp_all add: remove_group_def groups_of_def Let_def)
  next
    case False
    then show ?thesis using ok remove_group_other[of i inst d l g] by (cases "i = inst") (auto simp: remove_group_def)
  qed
qed

lemma remove_group_keys:
  assumes "py_round l 2 = l"
  shows "ig_groups (groups_of (remove_group inst d l g) inst) = AList.delete (d, l) (ig_groups (groups_of g inst))"
  using assms by (cases "map_of g inst") (auto simp: remove_group_def groups_of_def no_groups_def Let_def)

subsection \<open>The invariant of the engine\<close>

definition armed_ok :: "(variant \<Rightarrow> string) \<Rightarrow> armed_state \<Rightarrow> bool" where
  "armed_ok vid s \<longleftrightarrow>
     (\<forall>inst. length (get_armed s inst) \<le> as_max_per_instrument s \<and>
       (\<forall>av \<in> set (get_armed s inst). av_instrument av = inst \<and> (vid (av_variant av), inst) \<notin> as_triggered_today s))"

definition engine_ok :: "(variant \<Rightarrow> string) \<Rightarrow> tick_engine \<Rightarrow> bool" where
  "engine_ok vid e \<longleftrightarrow> armed_ok vid (te_armed e) \<and> (\<forall>inst. ig_ok (groups_of (te_groups e) inst))"

lemma get_set_armed: "get_armed (set_armed inst avs s) i = (if i = inst then avs else get_armed s i)"
  by (simp add: get_armed_def set_armed_def map_of_update_other)

lemma set_armed_fields [simp]:
  "as_max_per_instrument (set_armed inst avs s) = as_max_per_instrument s"
  "as_triggered_today (set_armed inst avs s) = as_triggered_today s"
  by (simp_all add: set_armed_def)

lemma touch_same: "get_armed (touch inst s) i = get_armed s i"
  by (simp add: touch_def get_set_armed)

lemma touch_fields [simp]:
  "as_max_per_instrument (touch inst s) = as_max_per_instrument s"
  "as_triggered_today (touch inst s) = as_triggered_today s"
  by (simp_all add: touch_def)

lemma armed_ok_touch: "armed_ok vid (touch inst s) = armed_ok vid s"
  by (simp add: armed_ok_def touch_same)

lemma armed_ok_subset:
  assumes "armed_ok vid s" "length avs \<le> length (get_armed s inst)" "set avs \<subseteq> set (get_armed s inst)"
  shows "armed_ok vid (set_armed inst avs s)"
  using assms by (auto simp: armed_ok_def get_set_armed intro: le_trans)

lemma arm_ok: "armed_ok vid s \<Longrightarrow> armed_ok vid (fst (arm_variants vid avs s))"
proof (induction vid avs s rule: arm_variants.induct)
  case (1 vid s)
  then show ?case by simp
next
  case (2 vid av avs s)
  let ?inst = "av_instrument av" and ?s = "touch (av_instrument av) s"
  have ok: "armed_ok vid ?s" using 2(3) by (simp add: armed_ok_touch)
  show ?case
  proof (cases "length (get_armed ?s ?inst) \<ge> as_max_per_instrument ?s")
    case True
    then show ?thesis using ok by simp
  next
    case room: False
    show ?thesis
    proof (cases "(vid (av_variant av), ?inst) \<in> as_triggered_today ?s")
      case True
      then show ?thesis using room 2(1)[OF refl refl room True ok] by simp
    next
      case False
      have "armed_ok vid (set_armed ?inst (get_armed ?s ?inst @ [av]) ?s)"
        using ok room False by (auto simp: armed_ok_def get_set_armed)
      then show ?thesis using room False 2(2)[OF refl refl room False] by (simp add: case_prod_unfold Let_def)
    qed
  qed
qed

lemma disarm_armed:
  "get_armed (disarm_triggered vid inst ids s) i =
     (if i = inst then filter (\<lambda>av. vid (av_variant av) \<notin> set ids) (get_armed s inst) else get_armed s i)"
  by (simp add: disarm_triggered_def Let_def get_set_armed) (simp add: get_armed_def)

lemma disarm_fields [simp]:
  "as_max_per_instrument (disarm_triggered vid inst ids s) = as_max_per_instrument s"
  "as_triggered_today (disarm_triggered vid inst ids s) = as_triggered_today s \<union> (\<lambda>i. (i, inst)) ` set ids"
  by (simp_all add: disarm_triggered_def Let_def)

lemma disarm_ok: "armed_ok vid s \<Longrightarrow> armed_ok vid (disarm_triggered vid inst ids s)"
  by (auto simp: armed_ok_def disarm_armed intro: le_trans[OF length_filter_le])

lemma cleanup_ok: "armed_ok vid s \<Longrightarrow> armed_ok vid (fst (cleanup_expired inst n tf s))"
  unfolding cleanup_expired_def Let_def fst_conv
  by (intro armed_ok_subset) (auto simp: armed_ok_touch split: option.split)

lemma reset_ok: "armed_ok vid (armed_reset_daily s)"
  by (simp add: armed_ok_def armed_reset_daily_def get_armed_def)


subsection \<open>What a tick does\<close>

definition tick_records ::
  "trade_ids \<Rightarrow> (variant \<Rightarrow> string) \<Rightarrow> tick_engine \<Rightarrow> string \<Rightarrow> pyfloat \<Rightarrow> pyfloat \<Rightarrow> armed_variant list \<Rightarrow> trade_record list" where
  "tick_records mk_id vid e inst price ms avs =
     List.map (\<lambda>av. create_trade_record mk_id vid av inst price ms
       (case te_snapshots e inst of None \<Rightarrow> empty_snapshot | Some s \<Rightarrow> s)
       (case te_metadata e inst of None \<Rightarrow> empty_metadata | Some m \<Rightarrow> m)) avs"

lemma fire_group_fields:
  assumes "fire_group mk_id vid g inst price ms e = (e', n)"
  shows "n = length (pg_members g)" "te_queue e' = te_queue e @ tick_records mk_id vid e inst price ms (pg_members g)"
    "te_trades_created e' = te_trades_created e + length (pg_members g)"
    "te_groups_triggered e' = te_groups_triggered e + 1"
    "te_snapshots e' = te_snapshots e" "te_metadata e' = te_metadata e"
    "te_armed e' = disarm_triggered vid inst (List.map (\<lambda>av. vid (av_variant av)) (pg_members g)) (te_armed e)"
    "te_groups e' = remove_group inst (pg_direction g) (pg_trigger_value g) (te_groups e)"
  using assms by (auto simp: fire_group_def Let_def tick_records_def)

lemma fire_groups_effects:
  "fire_groups mk_id vid gs inst price ms e = (e', n) \<Longrightarrow>
   (let fired = concat (List.map pg_members gs) in
    n = length fired \<and> te_queue e' = te_queue e @ tick_records mk_id vid e inst price ms fired \<and>
    te_trades_created e' = te_trades_created e + length fired \<and>
    te_groups_triggered e' = te_groups_triggered e + length gs \<and>
    te_snapshots e' = te_snapshots e \<and> te_metadata e' = te_metadata e \<and>
    as_max_per_instrument (te_armed e') = as_max_per_instrument (te_armed e) \<and>
    as_triggered_today (te_armed e') = as_triggered_today (te_armed e) \<union> (\<lambda>av. (vid (av_variant av), inst)) ` set fired \<and>
    get_armed (te_armed e') i = (if i = inst
       then filter (\<lambda>av. vid (av_variant av) \<notin> (\<lambda>av. vid (av_variant av)) ` set fired) (get_armed (te_armed e) inst)
       else get_armed (te_armed e) i) \<and>
    te_groups e' = fold (\<lambda>g. remove_group inst (pg_direction g) (pg_trigger_value g)) gs (te_groups e))"
proof (induction gs arbitrary: e e' n)
  case Nil
  then show ?case by (simp add: tick_records_def Let_def)
next
  case (Cons g gs)
  obtain e1 k where f1: "fire_group mk_id vid g inst price ms e = (e1, k)" by fastforce
  obtain m where f2: "fire_groups mk_id vid gs inst price ms e1 = (e', m)" "n = k + m"
    using Cons.prems f1 by (auto split: prod.splits)
  have "tick_records mk_id vid e1 inst price ms = tick_records mk_id vid e inst price ms"
    using fire_group_fields(5,6)[OF f1] by (simp add: tick_records_def fun_eq_iff)
  then show ?case
    using Cons.IH[OF f2(1)] fire_group_fields[OF f1] f2(2)
    by (auto simp: Let_def disarm_armed image_Un tick_records_def image_image intro: filter_cong)
qed

lemma fire_groups_effect:
  assumes "fire_groups mk_id vid gs inst price ms e = (e', n)"
  shows "n = length (concat (List.map pg_members gs))"
    "te_queue e' = te_queue e @ tick_records mk_id vid e inst price ms (concat (List.map pg_members gs))"
    "as_max_per_instrument (te_armed e') = as_max_per_instrument (te_armed e)"
    "as_triggered_today (te_armed e') = as_triggered_today (te_armed e) \<union>
       (\<lambda>av. (vid (av_variant av), inst)) ` set (concat (List.map pg_members gs))"
    "get_armed (te_armed e') i = (if i = inst
       then filter (\<lambda>av. vid (av_variant av) \<notin> (\<lambda>av. vid (av_variant av)) ` set (concat (List.map pg_members gs))) (get_armed (te_armed e) inst)
       else get_armed (te_armed e) i)"
    "te_groups e' = fold (\<lambda>g. remove_group inst (pg_direction g) (pg_trigger_value g)) gs (te_groups e)"
  using fire_groups_effects[OF assms, of i] unfolding Let_def by blast+

lemma fold_remove_ok:
  "(\<And>i. ig_ok (groups_of g i)) \<Longrightarrow>
   ig_ok (groups_of (fold (\<lambda>pg. remove_group inst (pg_direction pg) (pg_trigger_value pg)) gs g) i)"
  by (induction gs arbitrary: g) (simp_all add: remove_group_ok)

lemma fold_remove_keys:
  assumes "\<And>pg. pg \<in> set gs \<Longrightarrow> py_round (pg_trigger_value pg) 2 = pg_trigger_value pg"
  shows "fst ` set (ig_groups (groups_of (fold (\<lambda>pg. remove_group inst (pg_direction pg) (pg_trigger_value pg)) gs g) inst)) =
    fst ` set (ig_groups (groups_of g inst)) - (\<lambda>pg. (pg_direction pg, pg_trigger_value pg)) ` set gs"
  using assms
proof (induction gs arbitrary: g)
  case (Cons pg gs)
  have "py_round (pg_trigger_value pg) 2 = pg_trigger_value pg" by (rule Cons.prems) simp
  then have "fst ` set (ig_groups (groups_of (remove_group inst (pg_direction pg) (pg_trigger_value pg) g) inst)) =
      fst ` set (ig_groups (groups_of g inst)) - {(pg_direction pg, pg_trigger_value pg)}"
    by (auto simp: remove_group_keys set_delete)
  moreover note Cons.IH[of "remove_group inst (pg_direction pg) (pg_trigger_value pg) g"]
  ultimately show ?case using Cons.prems by auto
qed simp

lemma check_triggers_mem:
  assumes "ig_ok (groups_of g inst)"
  shows "pg \<in> set (check_triggers g inst price) \<longleftrightarrow>
    (\<exists>k. (k, pg) \<in> set (ig_groups (groups_of g inst)) \<and> crossed k price)"
proof -
  have "set (check_triggers g inst price) =
      set (List.map snd (filter (\<lambda>(k, pg). crossed k price) (ig_groups (groups_of g inst))))"
    using check_triggers_groups[OF assms, of price] by (rule mset_eq_setD)
  then show ?thesis by force
qed

lemma no_crossed_no_trigger:
  assumes "ig_ok (groups_of g inst)" "\<And>k. k \<in> fst ` set (ig_groups (groups_of g inst)) \<Longrightarrow> \<not> crossed k price"
  shows "check_triggers g inst price = []"
proof -
  have "pg \<notin> set (check_triggers g inst price)" for pg
    using check_triggers_mem[OF assms(1)] assms(2) by force
  then show ?thesis by (metis empty_iff list.set(1) set_empty subsetI subset_empty)
qed

text \<open>Everything a tick does to an engine in order.\<close>

lemma on_tick_effect:
  assumes ok: "engine_ok vid e" and step: "engine_on_tick mk_id vid t e = (e', n)"
  shows "engine_ok vid e'"
    "\<exists>fired. mset fired = filter_mset (\<lambda>av. crossed (av_key av) (ltp t)) (ig_members (groups_of (te_groups e) (tk_token t))) \<and>
       n = length fired \<and> te_queue e' = te_queue e @ tick_records mk_id vid e (tk_token t) (ltp t) (tk_ms t) fired \<and>
       as_triggered_today (te_armed e') = as_triggered_today (te_armed e) \<union> (\<lambda>av. (vid (av_variant av), tk_token t)) ` set fired \<and>
       (\<forall>av \<in> set fired. \<forall>av' \<in> set (get_armed (te_armed e') (tk_token t)). vid (av_variant av') \<noteq> vid (av_variant av))"
    "check_triggers (te_groups e') (tk_token t) (ltp t) = []"
proof -
  let ?i = "tk_token t" and ?p = "ltp t" and ?e = "e\<lparr>te_ticks_processed := te_ticks_processed e + 1\<rparr>"
  let ?gs = "check_triggers (te_groups e) ?i ?p"
  let ?fired = "concat (List.map pg_members ?gs)"
  have f: "fire_groups mk_id vid ?gs ?i ?p (tk_ms t) ?e = (e', n)" using step by (simp add: engine_on_tick_def Let_def)
  note eff = fire_groups_effect[OF f]
  have igs: "\<And>i. ig_ok (groups_of (te_groups e) i)" using ok by (simp add: engine_ok_def)
  have groups: "te_groups e' = fold (\<lambda>g. remove_group ?i (pg_direction g) (pg_trigger_value g)) ?gs (te_groups e)"
    using eff(6) by simp
  have igs': "\<And>i. ig_ok (groups_of (te_groups e') i)" unfolding groups by (rule fold_remove_ok[OF igs])
  have "armed_ok vid (te_armed e)" using ok by (simp add: engine_ok_def)
  then have "armed_ok vid (te_armed e')"
    using eff(3,4,5) by (auto simp: armed_ok_def intro: le_trans[OF length_filter_le])
  then show "engine_ok vid e'" using igs' by (simp add: engine_ok_def)
  have m: "mset ?fired = filter_mset (\<lambda>av. crossed (av_key av) ?p) (ig_members (groups_of (te_groups e) ?i))"
    using selected_members[OF igs, of ?i ?p] by (simp add: mset_concat comp_def)
  have q: "te_queue e' = te_queue e @ tick_records mk_id vid e ?i ?p (tk_ms t) ?fired"
    using eff(2) by (simp add: tick_records_def)
  show "\<exists>fired. mset fired = filter_mset (\<lambda>av. crossed (av_key av) ?p) (ig_members (groups_of (te_groups e) ?i)) \<and>
       n = length fired \<and> te_queue e' = te_queue e @ tick_records mk_id vid e ?i ?p (tk_ms t) fired \<and>
       as_triggered_today (te_armed e') = as_triggered_today (te_armed e) \<union> (\<lambda>av. (vid (av_variant av), ?i)) ` set fired \<and>
       (\<forall>av \<in> set fired. \<forall>av' \<in> set (get_armed (te_armed e') ?i). vid (av_variant av') \<noteq> vid (av_variant av))"
  proof (intro exI[of _ ?fired] conjI)
    show "n = length ?fired" by (rule eff(1))
    show "as_triggered_today (te_armed e') = as_triggered_today (te_armed e) \<union> (\<lambda>av. (vid (av_variant av), ?i)) ` set ?fired"
      using eff(4) by simp
    show "\<forall>av \<in> set ?fired. \<forall>av' \<in> set (get_armed (te_armed e') ?i). vid (av_variant av') \<noteq> vid (av_variant av)"
      unfolding eff(5) by (auto simp: image_iff)
  qed (rule m q)+
  have key: "(pg_direction pg, pg_trigger_value pg) = k \<and> py_round (pg_trigger_value pg) 2 = pg_trigger_value pg"
    if "(k, pg) \<in> set (ig_groups (groups_of (te_groups e) ?i))" for k pg
    using ig_okD[OF igs that] by (auto simp: group_ok_def)
  have rd: "py_round (pg_trigger_value pg) 2 = pg_trigger_value pg" if "pg \<in> set ?gs" for pg
    using that key check_triggers_mem[OF igs] by blast
  have left: "fst ` set (ig_groups (groups_of (te_groups e') ?i)) = fst ` set (ig_groups (groups_of (te_groups e) ?i)) -
      (\<lambda>pg. (pg_direction pg, pg_trigger_value pg)) ` set ?gs"
    unfolding groups by (rule fold_remove_keys) (rule rd)
  show "check_triggers (te_groups e') ?i ?p = []"
  proof (rule no_crossed_no_trigger[OF igs'])
    fix k assume "k \<in> fst ` set (ig_groups (groups_of (te_groups e') ?i))"
    then have k: "k \<in> fst ` set (ig_groups (groups_of (te_groups e) ?i))"
        "k \<notin> (\<lambda>pg. (pg_direction pg, pg_trigger_value pg)) ` set ?gs"
      unfolding left by blast+
    then obtain pg where pg: "(k, pg) \<in> set (ig_groups (groups_of (te_groups e) ?i))" by auto
    show "\<not> crossed k ?p"
    proof
      assume "crossed k ?p"
      then have "pg \<in> set ?gs" using pg check_triggers_mem[OF igs] by blast
      then show False using k(2) key[OF pg] by force
    qed
  qed
qed


subsection \<open>A variant armed on both sides\<close>

text \<open>
  The opening range arms a variant long and short. The first side to fire disarms the variant, but
  the group of the other side keeps it until the next rebuild: within one candle both sides can
  fire, the second for a variant that is no longer armed and has triggered today.
\<close>

definition both_sides :: "variant \<Rightarrow> string \<Rightarrow> armed_variant list" where
  "both_sides v inst =
     [\<lparr>av_variant = v, av_instrument = inst, av_direction = LONG, av_trigger_type = PRICE_LEVEL, av_trigger_value = 110,
       av_armed_at_candle = 1, av_expiry_candles = 3, av_entry_price_hint = 110\<rparr>,
      \<lparr>av_variant = v, av_instrument = inst, av_direction = SHORT, av_trigger_type = PRICE_LEVEL, av_trigger_value = 90,
       av_armed_at_candle = 1, av_expiry_candles = 3, av_entry_price_hint = 90\<rparr>]"

lemma py_round_examples: "py_round 110 2 = 110" "py_round 90 2 = 90"
  by (rule py_round_exact[of _ _ 11000], simp, rule py_round_exact[of _ _ 9000], simp)

definition armed_engine :: "(variant \<Rightarrow> string) \<Rightarrow> armed_variant list \<Rightarrow> string \<Rightarrow> tick_engine" where
  "armed_engine vid avs inst =
     (let e = new_tick_engine 10000; s = fst (arm_variants vid avs (te_armed e))
      in e\<lparr>te_armed := s, te_groups := fst (rebuild inst (get_armed s inst) (te_groups e))\<rparr>)"

lemma both_sides_armed:
  "get_armed (fst (arm_variants vid (both_sides v inst) (new_armed_state 10000))) inst = both_sides v inst"
  by (simp add: both_sides_def new_armed_state_def touch_def get_armed_def set_armed_def Let_def)

lemma both_sides_groups:
  "groups_of (fst (rebuild inst (both_sides v inst) [])) inst =
     \<lparr>ig_long = [110], ig_short = [90],
      ig_groups = [((LONG, 110), \<lparr>pg_trigger_value = 110, pg_direction = LONG, pg_members = [both_sides v inst ! 0]\<rparr>),
                   ((SHORT, 90), \<lparr>pg_trigger_value = 90, pg_direction = SHORT, pg_members = [both_sides v inst ! 1]\<rparr>)]\<rparr>"
  by (simp add: rebuild_def both_sides_def groups_of_def group_variant_def is_price_trigger_def level_of_def
      py_round_examples no_groups_def insert_level_def Let_def)

definition sided_tick :: "string \<Rightarrow> pyfloat \<Rightarrow> tick" where
  "sided_tick inst p = \<lparr>tk_exchange = ''NSE'', tk_segment = ''CASH'', tk_token = inst, ltp = p, tk_ms = 0, tk_bid = 0, tk_ask = 0\<rparr>"

lemma both_sides_fire:
  assumes "engine_on_tick mk_id vid (sided_tick inst 110) (armed_engine vid (both_sides v inst) inst) = (e1, n1)"
    and "engine_on_tick mk_id vid (sided_tick inst 90) e1 = (e2, n2)"
  shows "n1 = 1" "get_armed (te_armed e1) inst = []" "(vid v, inst) \<in> as_triggered_today (te_armed e1)" "n2 = 1"
proof -
  let ?b = "both_sides v inst" and ?e = "armed_engine vid (both_sides v inst) inst"
  have arm_variants: "get_armed (te_armed ?e) inst = ?b"
    using both_sides_armed[of vid v inst] by (simp add: armed_engine_def Let_def new_tick_engine_def)
  have tg: "te_groups ?e = fst (rebuild inst ?b [])"
    using both_sides_armed[of vid v inst] by (simp add: armed_engine_def Let_def new_tick_engine_def)
  have c1: "check_triggers (te_groups ?e) inst 110 = [\<lparr>pg_trigger_value = 110, pg_direction = LONG, pg_members = [?b ! 0]\<rparr>]"
    unfolding tg check_triggers_def both_sides_groups Let_def by (simp add: List.map_filter_simps)
  have vs: "vid (av_variant (?b ! 0)) = vid v" "vid (av_variant (?b ! Suc 0)) = vid v" by (simp_all add: both_sides_def)
  have f1: "fire_group mk_id vid \<lparr>pg_trigger_value = 110, pg_direction = LONG, pg_members = [?b ! 0]\<rparr> inst 110 0
      (?e\<lparr>te_ticks_processed := te_ticks_processed ?e + 1\<rparr>) = (e1, n1)"
    using assms(1) c1 by (simp add: engine_on_tick_def sided_tick_def Let_def split: prod.splits)
  note d1 = fire_group_fields[OF f1]
  show "n1 = 1" using d1(1) by simp
  show "get_armed (te_armed e1) inst = []" using d1(7) arm_variants vs by (simp add: disarm_armed) (simp add: both_sides_def)
  show "(vid v, inst) \<in> as_triggered_today (te_armed e1)" using d1(7) vs by simp
  have "groups_of (te_groups e1) inst = \<lparr>ig_long = [], ig_short = [90],
      ig_groups = [((SHORT, 90), \<lparr>pg_trigger_value = 90, pg_direction = SHORT, pg_members = [?b ! 1]\<rparr>)]\<rparr>"
  proof -
    obtain ig where ig: "map_of (te_groups ?e) inst = Some ig" by (simp add: tg rebuild_def Let_def)
    have "ig = groups_of (te_groups ?e) inst" using ig by (simp add: groups_of_def)
    then have "ig = \<lparr>ig_long = [110], ig_short = [90],
      ig_groups = [((LONG, 110), \<lparr>pg_trigger_value = 110, pg_direction = LONG, pg_members = [?b ! 0]\<rparr>),
                   ((SHORT, 90), \<lparr>pg_trigger_value = 90, pg_direction = SHORT, pg_members = [?b ! 1]\<rparr>)]\<rparr>"
      unfolding tg both_sides_groups .
    with ig show ?thesis by (simp add: d1(8) remove_group_def groups_of_def py_round_examples Let_def)
  qed
  then have "check_triggers (te_groups e1) inst 90 = [\<lparr>pg_trigger_value = 90, pg_direction = SHORT, pg_members = [?b ! 1]\<rparr>]"
    unfolding check_triggers_def Let_def by (simp add: List.map_filter_simps)
  then have "\<exists>e. fire_group mk_id vid \<lparr>pg_trigger_value = 90, pg_direction = SHORT, pg_members = [?b ! 1]\<rparr> inst 90 0 e = (e2, n2)"
    using assms(2) by (auto simp: engine_on_tick_def sided_tick_def Let_def split: prod.splits)
  then show "n2 = 1" using fire_group_fields(1) by fastforce
qed


subsection \<open>Every armed variant is watched\<close>

definition watched :: "tick_engine \<Rightarrow> bool" where
  "watched e \<longleftrightarrow> (\<forall>inst. \<forall>av \<in> set (get_armed (te_armed e) inst).
     is_price_trigger av \<and> av \<in># ig_members (groups_of (te_groups e) inst))"

lemma ig_members_mem: "av \<in># ig_members ig \<longleftrightarrow> (\<exists>k g. (k, g) \<in> set (ig_groups ig) \<and> av \<in> set (pg_members g))"
proof -
  have "av \<in># (\<Sum>(k, g) \<leftarrow> al. mset (pg_members g)) \<longleftrightarrow> (\<exists>k g. (k, g) \<in> set al \<and> av \<in> set (pg_members g))"
    for al :: "(group_key \<times> price_group) list"
  proof (induction al)
    case (Cons x al)
    then show ?case by (cases x) (auto simp del: split_paired_Ex split_paired_All)
  qed simp
  then show ?thesis by (simp add: ig_members_def)
qed

lemma fold_remove_groups:
  assumes "\<And>pg. pg \<in> set gs \<Longrightarrow> py_round (pg_trigger_value pg) 2 = pg_trigger_value pg"
    and "(k, g) \<in> set (ig_groups (groups_of gr inst))" "k \<notin> (\<lambda>pg. (pg_direction pg, pg_trigger_value pg)) ` set gs"
  shows "(k, g) \<in> set (ig_groups (groups_of (fold (\<lambda>pg. remove_group inst (pg_direction pg) (pg_trigger_value pg)) gs gr) inst))"
  using assms
proof (induction gs arbitrary: gr)
  case (Cons pg gs)
  have "py_round (pg_trigger_value pg) 2 = pg_trigger_value pg" by (rule Cons.prems) simp
  then have "(k, g) \<in> set (ig_groups (groups_of (remove_group inst (pg_direction pg) (pg_trigger_value pg) gr) inst))"
    using Cons.prems(2,3) by (auto simp: remove_group_keys set_delete)
  then show ?case using Cons.IH[of "remove_group inst (pg_direction pg) (pg_trigger_value pg) gr"] Cons.prems by simp
qed simp

lemma fold_remove_other:
  "i \<noteq> inst \<Longrightarrow> groups_of (fold (\<lambda>pg. remove_group inst (pg_direction pg) (pg_trigger_value pg)) gs gr) i = groups_of gr i"
  by (induction gs arbitrary: gr) (simp_all add: remove_group_other)

lemma on_tick_watched:
  assumes ok: "engine_ok vid e" and w: "watched e" and step: "engine_on_tick mk_id vid t e = (e', n)"
  shows "watched e'" "\<And>i. set (get_armed (te_armed e') i) \<subseteq> set (get_armed (te_armed e) i)"
proof -
  let ?i = "tk_token t" and ?p = "ltp t" and ?e = "e\<lparr>te_ticks_processed := te_ticks_processed e + 1\<rparr>"
  let ?gs = "check_triggers (te_groups e) ?i ?p"
  have f: "fire_groups mk_id vid ?gs ?i ?p (tk_ms t) ?e = (e', n)" using step by (simp add: engine_on_tick_def Let_def)
  note eff = fire_groups_effect[OF f]
  have igs: "\<And>i. ig_ok (groups_of (te_groups e) i)" using ok by (simp add: engine_ok_def)
  have groups: "te_groups e' = fold (\<lambda>g. remove_group ?i (pg_direction g) (pg_trigger_value g)) ?gs (te_groups e)"
    using eff(6) by simp
  show sub: "set (get_armed (te_armed e') i) \<subseteq> set (get_armed (te_armed e) i)" for i unfolding eff(5) by auto
  have key: "(pg_direction pg, pg_trigger_value pg) = k \<and> py_round (pg_trigger_value pg) 2 = pg_trigger_value pg"
    if "(k, pg) \<in> set (ig_groups (groups_of (te_groups e) ?i))" for k pg
    using ig_okD[OF igs that] by (auto simp: group_ok_def)
  have "av \<in># ig_members (groups_of (te_groups e') i)" if av: "av \<in> set (get_armed (te_armed e') i)" for i av
  proof (cases "i = ?i")
    case False
    then show ?thesis using w sub av unfolding groups by (auto simp: watched_def fold_remove_other)
  next
    case True
    then have "av \<in># ig_members (groups_of (te_groups e) ?i)" using w sub av by (auto simp: watched_def)
    then obtain k g where g: "(k, g) \<in> set (ig_groups (groups_of (te_groups e) ?i))" "av \<in> set (pg_members g)"
      unfolding ig_members_mem by blast
    have "vid (av_variant av) \<notin> (\<lambda>av. vid (av_variant av)) ` set (concat (List.map pg_members ?gs))"
      using av True unfolding eff(5) by simp
    then have "g \<notin> set ?gs" using g(2) by auto
    then have "k \<notin> (\<lambda>pg. (pg_direction pg, pg_trigger_value pg)) ` set ?gs"
      using g(1) check_triggers_mem[OF igs, of _ ?i ?p] key by (metis (no_types, lifting) imageE)
    then have "(k, g) \<in> set (ig_groups (groups_of (te_groups e') ?i))"
      unfolding groups by (intro fold_remove_groups g(1)) (use check_triggers_mem[OF igs, of _ ?i ?p] key in blast)+
    then show ?thesis using True g(2) unfolding ig_members_mem by blast
  qed
  then show "watched e'" using w sub by (fastforce simp: watched_def)
qed

end
