(* ===== verification/Trade_Recorder.thy ===== *)
theory Trade_Recorder
  imports Variant_Execution
begin

section \<open>The trade recorder\<close>

text \<open>
  \<open>app/execution/trade_recorder.py\<close> with \<open>write_trades_batch\<close> of the research store: a buffer of
  trades, deduplicated per variant, instrument and minute, flushed into a table that ignores a
  trade id it has. Whether a write of the database succeeds is an argument of each call. The second
  part gives the steps of \<open>_flush\<close> their own granularity: it copies the buffer under the lock,
  writes without it, and takes the lock again to drop what it wrote.
\<close>

record recorder =
  rc_buffer :: "trade_record list"
  rc_seen_today :: "(string \<times> string \<times> int) set"
  rc_max_buffer :: nat
  rc_total_recorded :: nat
  rc_total_deduplicated :: nat
  rc_flush_count :: nat
  rc_table :: "trade_record list"

definition new_recorder :: "nat \<Rightarrow> recorder" where
  "new_recorder n = \<lparr>rc_buffer = [], rc_seen_today = {}, rc_max_buffer = n, rc_total_recorded = 0,
     rc_total_deduplicated = 0, rc_flush_count = 0, rc_table = []\<rparr>"

text \<open>\<open>INSERT ... ON CONFLICT (trade_id) DO NOTHING\<close>, row by row.\<close>

definition insert_trade :: "trade_record \<Rightarrow> trade_record list \<Rightarrow> trade_record list" where
  "insert_trade t table = (if rec_trade_id t \<in> rec_trade_id ` set table then table else table @ [t])"

definition write_trades_batch :: "bool \<Rightarrow> trade_record list \<Rightarrow> trade_record list \<Rightarrow> trade_record list \<times> nat" where
  "write_trades_batch ok trades table =
     (if trades = [] then (table, 0) else if ok then (fold insert_trade trades table, length trades) else (table, 0))"

definition flush :: "bool \<Rightarrow> recorder \<Rightarrow> recorder" where
  "flush ok r =
     (if rc_buffer r = [] then r
      else let trades = rc_buffer r; (table, n) = write_trades_batch ok trades (rc_table r); r = r\<lparr>rc_table := table\<rparr>
        in if n > 0 then r\<lparr>rc_buffer := drop (length trades) (rc_buffer r), rc_total_recorded := rc_total_recorded r + n,
                           rc_flush_count := rc_flush_count r + 1\<rparr>
           else r)"

definition dedup_key :: "trade_record \<Rightarrow> string \<times> string \<times> int" where
  "dedup_key t = (rec_variant_id t, rec_instrument t, py_int (rec_entry_time_ms t / 60000))"

definition record_trade :: "bool \<Rightarrow> trade_record \<Rightarrow> recorder \<Rightarrow> recorder \<times> bool" where
  "record_trade ok t r =
     (if dedup_key t \<in> rc_seen_today r then (r\<lparr>rc_total_deduplicated := rc_total_deduplicated r + 1\<rparr>, False)
      else
        let r = r\<lparr>rc_seen_today := insert (dedup_key t) (rc_seen_today r), rc_buffer := rc_buffer r @ [t]\<rparr>
        in (if length (rc_buffer r) \<ge> rc_max_buffer r then flush ok r else r, True))"

text \<open>\<open>record_tick_trades\<close>: the writes that full buffers cause succeed as the list \<open>oks\<close> says.\<close>

fun record_tick_trades :: "(trade_record \<times> bool) list \<Rightarrow> recorder \<Rightarrow> recorder \<times> nat" where
  "record_tick_trades [] r = (r, 0)"
| "record_tick_trades ((t, ok) # ts) r =
     (let (r1, fresh) = record_trade ok t r; (r2, n) = record_tick_trades ts r1 in (r2, (if fresh then n + 1 else n)))"

text \<open>The record of an immediate trade, and \<open>record_immediate_trades\<close>.\<close>

definition immediate_record ::
  "trade_ids \<Rightarrow> (variant \<Rightarrow> string) \<Rightarrow> string \<Rightarrow> pyfloat \<Rightarrow> indicator_snapshot \<Rightarrow> metadata_snapshot \<Rightarrow>
   variant \<times> candidate_signal \<Rightarrow> trade_record" where
  "immediate_record mk_id vid inst ms snap meta vc =
     (case vc of (v, cd) \<Rightarrow>
        \<lparr>rec_trade_id = mk_id (vid v) inst (py_int ms) (direction_value (cd_direction cd)), rec_variant_id = vid v,
         rec_strategy = strategy_value (va_strategy v), rec_timeframe = rtf_value (va_timeframe v), rec_instrument = inst,
         rec_direction = direction_value (cd_direction cd), rec_entry_time_ms = ms,
         rec_entry_price = cd_entry_price_hint cd, rec_snapshot = snap, rec_metadata = meta\<rparr>)"

definition record_immediate_trades ::
  "trade_ids \<Rightarrow> (variant \<Rightarrow> string) \<Rightarrow> ((variant \<times> candidate_signal) \<times> bool) list \<Rightarrow> string \<Rightarrow> pyfloat \<Rightarrow>
   indicator_snapshot \<Rightarrow> metadata_snapshot \<Rightarrow> recorder \<Rightarrow> recorder \<times> nat" where
  "record_immediate_trades mk_id vid vcs inst ms snap meta r =
     record_tick_trades (List.map (\<lambda>(vc, ok). (immediate_record mk_id vid inst ms snap meta vc, ok)) vcs) r"

definition recorder_reset_daily :: "recorder \<Rightarrow> recorder" where
  "recorder_reset_daily r = r\<lparr>rc_seen_today := {}\<rparr>"

definition stop_recorder :: "bool \<Rightarrow> recorder \<Rightarrow> recorder" where
  "stop_recorder ok r = flush ok r"

subsection \<open>Nothing is lost, nothing is recorded twice\<close>

definition kept_ids :: "recorder \<Rightarrow> string set" where
  "kept_ids r = rec_trade_id ` (set (rc_buffer r) \<union> set (rc_table r))"

lemma insert_trades_ids: "rec_trade_id ` set (fold insert_trade ts table) = rec_trade_id ` (set ts \<union> set table)"
  by (induction ts arbitrary: table) (auto simp: insert_trade_def)

lemma insert_trades_distinct:
  "distinct (List.map rec_trade_id table) \<Longrightarrow> distinct (List.map rec_trade_id (fold insert_trade ts table))"
  by (induction ts arbitrary: table) (auto simp: insert_trade_def)

lemma flush_kept [simp]: "kept_ids (flush ok r) = kept_ids r"
  by (auto simp: flush_def kept_ids_def write_trades_batch_def Let_def insert_trades_ids)

lemma flush_buffer: "rc_buffer (flush ok r) = (if ok then [] else rc_buffer r)"
  by (auto simp: flush_def write_trades_batch_def Let_def)

lemma flush_seen [simp]: "rc_seen_today (flush ok r) = rc_seen_today r" "rc_max_buffer (flush ok r) = rc_max_buffer r"
  by (auto simp: flush_def write_trades_batch_def Let_def split: prod.splits)

lemma record_trade_kept:
  "kept_ids (fst (record_trade ok t r)) =
     (if snd (record_trade ok t r) then insert (rec_trade_id t) (kept_ids r) else kept_ids r)"
  by (auto simp: record_trade_def Let_def) (auto simp: kept_ids_def)

lemma record_trade_fresh: "snd (record_trade ok t r) \<longleftrightarrow> dedup_key t \<notin> rc_seen_today r"
  by (simp add: record_trade_def Let_def)

lemma record_trade_seen: "rc_seen_today (fst (record_trade ok t r)) = insert (dedup_key t) (rc_seen_today r)"
  by (auto simp: record_trade_def Let_def)

text \<open>A day of recording: which trades are accepted, and that each of them is kept.\<close>

fun accepted :: "(trade_record \<times> bool) list \<Rightarrow> recorder \<Rightarrow> trade_record list" where
  "accepted [] r = []"
| "accepted ((t, ok) # ts) r =
     (if snd (record_trade ok t r) then [t] else []) @ accepted ts (fst (record_trade ok t r))"

lemma accepted_kept:
  "kept_ids (fst (record_tick_trades ts r)) = kept_ids r \<union> rec_trade_id ` set (accepted ts r)"
  by (induction ts r rule: accepted.induct) (auto simp: Let_def case_prod_unfold record_trade_kept)

lemma accepted_count: "snd (record_tick_trades ts r) = length (accepted ts r)"
  by (induction ts r rule: accepted.induct) (auto simp: Let_def case_prod_unfold)

lemma accepted_keys:
  "distinct (List.map dedup_key (accepted ts r)) \<and> set (List.map dedup_key (accepted ts r)) \<inter> rc_seen_today r = {}"
proof (induction ts r rule: accepted.induct)
  case (2 t ok ts r)
  then show ?case by (auto simp: record_trade_fresh record_trade_seen)
qed simp

text \<open>Every minute of a variant on an instrument has its first trade: nothing else is dropped.\<close>

lemma accepted_complete:
  "(t, ok) \<in> set ts \<Longrightarrow> dedup_key t \<in> rc_seen_today r \<union> dedup_key ` set (accepted ts r)"
proof (induction ts r rule: accepted.induct)
  case (2 u oku ts r)
  show ?case
  proof (cases "t = u \<and> ok = oku")
    case True
    then show ?thesis by (auto simp: record_trade_fresh)
  next
    case False
    then have "(t, ok) \<in> set ts" using 2(2) by auto
    then show ?thesis using 2(1) by (auto simp: record_trade_seen record_trade_fresh)
  qed
qed simp

subsection \<open>Two flushes at once\<close>

text \<open>
  The timer and the feed both flush. A thread that has copied the buffer holds its copy in
  \<open>cf_copy\<close>; \<open>Commit\<close> is its write and the drop of as many elements as it copied.
\<close>

record flush_system =
  cf_buffer :: "trade_record list"
  cf_table :: "trade_record list"
  cf_copy :: "nat \<rightharpoonup> trade_record list"
  cf_accepted :: "trade_record list"

inductive flush_step :: "flush_system \<Rightarrow> flush_system \<Rightarrow> bool" where
  Record: "flush_step s (s\<lparr>cf_buffer := cf_buffer s @ [t], cf_accepted := cf_accepted s @ [t]\<rparr>)"
| Copy: "cf_copy s i = None \<Longrightarrow> cf_buffer s \<noteq> [] \<Longrightarrow> flush_step s (s\<lparr>cf_copy := (cf_copy s)(i \<mapsto> cf_buffer s)\<rparr>)"
| Commit: "cf_copy s i = Some ts \<Longrightarrow>
    flush_step s (s\<lparr>cf_table := fold insert_trade ts (cf_table s), cf_buffer := drop (length ts) (cf_buffer s),
                    cf_copy := (cf_copy s)(i := None)\<rparr>)"

definition no_trades :: flush_system where
  "no_trades = \<lparr>cf_buffer = [], cf_table = [], cf_copy = Map.empty, cf_accepted = []\<rparr>"

definition lost :: "flush_system \<Rightarrow> trade_record \<Rightarrow> bool" where
  "lost s t \<longleftrightarrow> t \<in> set (cf_accepted s) \<and> t \<notin> set (cf_buffer s) \<and> rec_trade_id t \<notin> rec_trade_id ` set (cf_table s) \<and>
     (\<forall>i ts. cf_copy s i = Some ts \<longrightarrow> t \<notin> set ts)"

text \<open>One thread at a time loses nothing.\<close>

inductive solo_reachable :: "flush_system \<Rightarrow> bool" where
  init: "solo_reachable no_trades"
| step: "solo_reachable s \<Longrightarrow> flush_step s s' \<Longrightarrow> (\<And>i j. cf_copy s' i \<noteq> None \<Longrightarrow> cf_copy s' j \<noteq> None \<Longrightarrow> i = j) \<Longrightarrow>
    solo_reachable s'"

definition solo_inv :: "flush_system \<Rightarrow> bool" where
  "solo_inv s \<longleftrightarrow> rec_trade_id ` set (cf_accepted s) \<subseteq> rec_trade_id ` (set (cf_buffer s) \<union> set (cf_table s)) \<and>
     (\<forall>i ts. cf_copy s i = Some ts \<longrightarrow> (\<exists>rest. cf_buffer s = ts @ rest)) \<and>
     (\<forall>i j. cf_copy s i \<noteq> None \<longrightarrow> cf_copy s j \<noteq> None \<longrightarrow> i = j)"

lemma solo_inv_reachable: "solo_reachable s \<Longrightarrow> solo_inv s"
proof (induction rule: solo_reachable.induct)
  case init
  then show ?case by (simp add: solo_inv_def no_trades_def)
next
  case (step s s')
  have inv: "rec_trade_id ` set (cf_accepted s) \<subseteq> rec_trade_id ` (set (cf_buffer s) \<union> set (cf_table s))"
      "\<And>i ts. cf_copy s i = Some ts \<Longrightarrow> \<exists>rest. cf_buffer s = ts @ rest"
      "\<And>i j. cf_copy s i \<noteq> None \<Longrightarrow> cf_copy s j \<noteq> None \<Longrightarrow> i = j"
    using step.IH unfolding solo_inv_def by blast+
  have only: "\<forall>i j. cf_copy s' i \<noteq> None \<longrightarrow> cf_copy s' j \<noteq> None \<longrightarrow> i = j" using step.hyps(3) by blast
  from step.hyps(2) show ?case
  proof cases
    case (Record t)
    have "\<exists>rest. cf_buffer s' = ts @ rest" if copied: "cf_copy s' i = Some ts" for i ts
    proof -
      obtain rest where "cf_buffer s = ts @ rest" using inv(2)[of i ts] copied Record by auto
      then show ?thesis using Record by (intro exI[of _ "rest @ [t]"]) simp
    qed
    moreover have "rec_trade_id ` set (cf_accepted s') \<subseteq> rec_trade_id ` (set (cf_buffer s') \<union> set (cf_table s'))"
      using inv(1) Record by auto
    ultimately show ?thesis using only by (simp add: solo_inv_def)
  next
    case (Copy i)
    have "\<exists>rest. cf_buffer s' = ts @ rest" if copied: "cf_copy s' j = Some ts" for j ts
      using inv(2)[of j ts] copied Copy(1) by (auto split: if_splits)
    moreover have "rec_trade_id ` set (cf_accepted s') \<subseteq> rec_trade_id ` (set (cf_buffer s') \<union> set (cf_table s'))"
      using inv(1) Copy(1) by simp
    ultimately show ?thesis using only by (simp add: solo_inv_def)
  next
    case (Commit i ts)
    obtain rest where rest: "cf_buffer s = ts @ rest" using inv(2) Commit(2) by blast
    have none: "cf_copy s' j = None" for j using inv(3)[of i j] Commit by (cases "j = i"; cases "cf_copy s j") auto
    have "rec_trade_id ` set (cf_table s') = rec_trade_id ` (set ts \<union> set (cf_table s))"
      using Commit(1) by (simp add: insert_trades_ids)
    moreover have "cf_buffer s' = rest" "cf_accepted s' = cf_accepted s" using Commit(1) rest by simp_all
    ultimately have "rec_trade_id ` set (cf_accepted s') \<subseteq> rec_trade_id ` (set (cf_buffer s') \<union> set (cf_table s'))"
      using inv(1) rest by (auto simp: image_Un)
    then show ?thesis using none by (simp add: solo_inv_def)
  qed
qed

text \<open>
  Two threads can lose a trade: both copy the first trade, the first commits, a second trade is
  recorded, and the second commit drops it from the buffer without having written it.
\<close>

inductive flush_reachable :: "flush_system \<Rightarrow> bool" where
  start: "flush_reachable no_trades"
| move: "flush_reachable s \<Longrightarrow> flush_step s s' \<Longrightarrow> flush_reachable s'"

lemma concurrent_flush_loses:
  fixes a b :: trade_record
  assumes "rec_trade_id a \<noteq> rec_trade_id b"
  shows "\<exists>s. flush_reachable s \<and> lost s b"
proof -
  let ?s1 = "no_trades\<lparr>cf_buffer := [a], cf_accepted := [a]\<rparr>"
  let ?s2 = "?s1\<lparr>cf_copy := [0 \<mapsto> [a]]\<rparr>"
  let ?s3 = "?s1\<lparr>cf_copy := [0 \<mapsto> [a], 1 \<mapsto> [a]]\<rparr>"
  let ?s4 = "\<lparr>cf_buffer = [], cf_table = [a], cf_copy = [1 \<mapsto> [a]], cf_accepted = [a]\<rparr>"
  let ?s5 = "?s4\<lparr>cf_buffer := [b], cf_accepted := [a, b]\<rparr>"
  let ?s6 = "\<lparr>cf_buffer = [], cf_table = [a], cf_copy = Map.empty, cf_accepted = [a, b]\<rparr>"
  have "flush_step no_trades ?s1" using flush_step.Record[of no_trades a] by (simp add: no_trades_def)
  then have r1: "flush_reachable ?s1" by (rule flush_reachable.move[OF flush_reachable.start])
  have "flush_step ?s1 ?s2" using flush_step.Copy[of ?s1 0] by (simp add: no_trades_def)
  then have r2: "flush_reachable ?s2" by (rule flush_reachable.move[OF r1])
  have "flush_step ?s2 ?s3" using flush_step.Copy[of ?s2 1] by (simp add: no_trades_def)
  then have r3: "flush_reachable ?s3" by (rule flush_reachable.move[OF r2])
  have m: "([0 \<mapsto> [a], 1 \<mapsto> [a]])(0 := None) = [1 :: nat \<mapsto> [a]]" "([1 :: nat \<mapsto> [a]])(1 := None) = Map.empty" for a :: trade_record
    by (auto simp: fun_eq_iff)
  have "flush_step ?s3 ?s4" using flush_step.Commit[of ?s3 0 "[a]"] by (simp add: no_trades_def insert_trade_def m)
  then have r4: "flush_reachable ?s4" by (rule flush_reachable.move[OF r3])
  have "flush_step ?s4 ?s5" using flush_step.Record[of ?s4 b] by simp
  then have r5: "flush_reachable ?s5" by (rule flush_reachable.move[OF r4])
  have "flush_step ?s5 ?s6" using flush_step.Commit[of ?s5 1 "[a]"] by (simp add: insert_trade_def m)
  then have r6: "flush_reachable ?s6" by (rule flush_reachable.move[OF r5])
  moreover have "lost ?s6 b" using assms by (simp add: lost_def)
  ultimately show ?thesis by blast
qed


subsection \<open>What has been seen has been kept\<close>

definition recorder_ok :: "recorder \<Rightarrow> bool" where
  "recorder_ok r \<longleftrightarrow> (\<forall>k \<in> rc_seen_today r. \<exists>t. dedup_key t = k \<and> rec_trade_id t \<in> kept_ids r)"

lemma recorder_ok_trade: "recorder_ok r \<Longrightarrow> recorder_ok (fst (record_trade ok t r))"
  by (auto simp: recorder_ok_def record_trade_seen record_trade_kept record_trade_fresh)

lemma recorder_ok_trades: "recorder_ok r \<Longrightarrow> recorder_ok (fst (record_tick_trades ts r))"
proof (induction ts r rule: accepted.induct)
  case (2 t ok ts r)
  then show ?case by (simp add: Let_def case_prod_unfold recorder_ok_trade)
qed simp

lemma recorder_ok_simps [simp]: "recorder_ok (flush ok r) = recorder_ok r" "recorder_ok (recorder_reset_daily r)" "recorder_ok (new_recorder n)"
  by (simp_all add: recorder_ok_def recorder_reset_daily_def new_recorder_def)

lemma record_trades_seen: "rc_seen_today (fst (record_tick_trades ts r)) = rc_seen_today r \<union> (\<lambda>(t, ok). dedup_key t) ` set ts"
  by (induction ts r rule: accepted.induct) (auto simp: Let_def case_prod_unfold record_trade_seen)


text \<open>C21: The recorder keeps the first trade of each variant, instrument and minute and drops
  exactly the others, whichever writes fail: the accepted trades have distinct keys not seen
  before, every trade's key is seen or accepted, the count returned is that of the accepted ones,
  and each accepted trade is in the buffer or in the table, with all that was there.\<close>

theorem recorder_first_of_each:
  "distinct (List.map dedup_key (accepted ts r)) \<and> dedup_key ` set (accepted ts r) \<inter> rc_seen_today r = {} \<and>
   (\<lambda>(t, ok). dedup_key t) ` set ts \<subseteq> rc_seen_today r \<union> dedup_key ` set (accepted ts r) \<and>
   snd (record_tick_trades ts r) = length (accepted ts r) \<and>
   kept_ids (fst (record_tick_trades ts r)) = kept_ids r \<union> rec_trade_id ` set (accepted ts r)"
proof -
  have "dedup_key (fst p) \<in> rc_seen_today r \<union> dedup_key ` set (accepted ts r)" if "p \<in> set ts" for p
    using accepted_complete[of "fst p" "snd p" ts r] that by simp
  then have "(\<lambda>(t, ok). dedup_key t) ` set ts \<subseteq> rc_seen_today r \<union> dedup_key ` set (accepted ts r)"
    unfolding image_subset_iff case_prod_unfold by blast
  then show ?thesis using accepted_keys[of ts r] by (simp add: accepted_count accepted_kept)
qed

end
