(* ===== verification/Indicator_Engine.thy ===== *)
theory Indicator_Engine
  imports Variant_Templates Deployability
begin

section \<open>The shared indicator engine\<close>

text \<open>
  \<open>app/indicators/engine.py\<close>: one snapshot of every indicator per instrument and timeframe on each
  closed candle, and the market context of an instrument. The candle builder's history of the
  candle's instrument and timeframe is the argument \<open>history\<close>; \<open>loc\<close> is the host's zone and
  \<open>now_ms\<close> its clock. The indicator functions are called with positive periods and do not raise.
\<close>

fun to_research_timeframe :: "timeframe \<Rightarrow> research_timeframe option" where
  "to_research_timeframe M5 = Some RT_M5"
| "to_research_timeframe M15 = Some RT_M15"
| "to_research_timeframe M30 = Some RT_M30"
| "to_research_timeframe _ = None"

record indicator_engine =
  ie_snapshots :: "tf_key \<rightharpoonup> indicator_snapshot"
  ie_metadata :: "string \<rightharpoonup> metadata_snapshot"
  ie_vix_value :: pyfloat
  ie_prev_day_close :: "string \<rightharpoonup> pyfloat"
  ie_opening_range :: "string \<rightharpoonup> pyfloat \<times> pyfloat"
  ie_volume_history :: "tf_key \<rightharpoonup> int list"
  ie_prev_ema20 :: "tf_key \<rightharpoonup> pyfloat"
  ie_prev_ema50 :: "tf_key \<rightharpoonup> pyfloat"
  ie_last_candle_ms :: "string \<rightharpoonup> pyfloat"

definition VOLUME_HISTORY_SIZE :: nat where
  "VOLUME_HISTORY_SIZE = 20"

definition new_indicator_engine :: indicator_engine where
  "new_indicator_engine = \<lparr>ie_snapshots = Map.empty, ie_metadata = Map.empty, ie_vix_value = 0,
     ie_prev_day_close = Map.empty, ie_opening_range = Map.empty, ie_volume_history = Map.empty,
     ie_prev_ema20 = Map.empty, ie_prev_ema50 = Map.empty, ie_last_candle_ms = Map.empty\<rparr>"

text \<open>\<open>x if x is not None else dflt\<close> on an indicator that cannot raise.\<close>

definition or_default :: "'a option result \<Rightarrow> 'a \<Rightarrow> 'a" where
  "or_default r dflt = (case r of Inr (Some x) \<Rightarrow> x | _ \<Rightarrow> dflt)"

text \<open>The volume over the average of the recent volumes before it.\<close>

definition push_volume :: "int list \<Rightarrow> int \<Rightarrow> int list" where
  "push_volume hist v = (let h = hist @ [v] in if length h > VOLUME_HISTORY_SIZE then tl h else h)"

definition volume_ratio_of :: "int list \<Rightarrow> int \<Rightarrow> pyfloat" where
  "volume_ratio_of hist v =
     (if length hist < 2 then 1
      else let avg = of_int (sum_list (butlast hist)) / of_nat (length (butlast hist))
        in if avg = 0 then 1 else of_int v / avg)"

definition session_candles :: "zone_clock \<Rightarrow> candle list \<Rightarrow> candle list" where
  "session_candles loc cs =
     (if cs = [] then []
      else let open_ms = of_wall loc (combine (candle_day loc (last cs)) (9 * hour_ms + 15 * 60000))
        in filter (\<lambda>c. c_ms c \<ge> open_ms) cs)"

text \<open>The candles the indicators are computed on: the last 50 of a history that ends with the candle, or it is added.\<close>

definition indicator_window :: "candle list \<Rightarrow> candle \<Rightarrow> candle list" where
  "indicator_window history c =
     (if history \<noteq> [] \<and> c_ms (last history) = c_ms c then take_last 50 history else take_last 50 history @ [c])"

definition slope_of :: "pyfloat \<Rightarrow> pyfloat \<Rightarrow> pyfloat" where
  "slope_of prev cur = (if prev > 0 \<and> cur > 0 then cur - prev else 0)"

definition price_vs_vwap_of :: "pyfloat \<Rightarrow> pyfloat \<Rightarrow> pyfloat \<Rightarrow> pyfloat" where
  "price_vs_vwap_of cl vw a_val =
     (if vw > 0 \<and> a_val > 0 then (cl - vw) / a_val else if vw > 0 then (if cl > vw then 1 else - 1) else 0)"

definition get_or :: "('k \<rightharpoonup> 'v) \<Rightarrow> 'k \<Rightarrow> 'v \<Rightarrow> 'v" where
  "get_or m k dflt = (case m k of None \<Rightarrow> dflt | Some v \<Rightarrow> v)"

definition build_snapshot ::
  "zone_clock \<Rightarrow> candle list \<Rightarrow> candle \<Rightarrow> int list \<Rightarrow> pyfloat \<Rightarrow> pyfloat \<Rightarrow> pyfloat \<Rightarrow> indicator_snapshot" where
  "build_snapshot loc cs c volumes vix prev20 prev50 =
     (let closes = List.map c_close cs; a = or_default (atr cs 14) 0;
          vw = (case vwap (session_candles loc cs) of None \<Rightarrow> c_close c | Some v \<Rightarrow> v);
          e20 = or_default (ema closes 20) 0;
          e50 = (if length closes \<ge> 50 then or_default (ema closes 50) 0 else 0);
          (upper, middle, lower) = or_default (bollinger_bands cs 20 2) (0, 0, 0)
      in \<lparr>sn_atr = a, sn_adx = or_default (adx cs 14) 0, sn_rsi = or_default (rsi closes 14) 50, sn_vwap = vw,
          sn_volume_ratio = volume_ratio_of volumes (c_volume c), sn_vix = vix,
          sn_ema_9 = or_default (ema closes 9) 0, sn_ema_21 = or_default (ema closes 21) 0, sn_ema_20 = e20,
          sn_ema_50 = e50, sn_ema_20_slope = slope_of prev20 e20, sn_ema_50_slope = slope_of prev50 e50,
          sn_bb_upper = upper, sn_bb_middle = middle, sn_bb_lower = lower,
          sn_bb_squeeze = (case squeeze_active cs of None \<Rightarrow> False | Some b \<Rightarrow> b),
          sn_price_vs_vwap = price_vs_vwap_of (c_close c) vw a\<rparr>)"

definition indicators_on_candle ::
  "zone_clock \<Rightarrow> candle list \<Rightarrow> candle \<Rightarrow> indicator_engine \<Rightarrow> indicator_engine \<times> indicator_snapshot option" where
  "indicators_on_candle loc history c e =
     (case to_research_timeframe (c_timeframe c) of
        None \<Rightarrow> (e, None)
      | Some rtf \<Rightarrow>
          if length history < 30 then (e, None)
          else
            let key = (c_token c, rtf); volumes = push_volume (get_or (ie_volume_history e) key []) (c_volume c);
                snap = build_snapshot loc (indicator_window history c) c volumes (ie_vix_value e)
                         (get_or (ie_prev_ema20 e) key 0) (get_or (ie_prev_ema50 e) key 0)
            in (e\<lparr>ie_volume_history := (ie_volume_history e)(key \<mapsto> volumes),
                  ie_prev_ema20 := (ie_prev_ema20 e)(key \<mapsto> sn_ema_20 snap),
                  ie_prev_ema50 := (ie_prev_ema50 e)(key \<mapsto> sn_ema_50 snap),
                  ie_snapshots := (ie_snapshots e)(key \<mapsto> snap),
                  ie_last_candle_ms := (ie_last_candle_ms e)(c_token c \<mapsto> c_ms c)\<rparr>, Some snap))"

definition get_snapshot :: "indicator_engine \<Rightarrow> string \<Rightarrow> research_timeframe \<Rightarrow> indicator_snapshot option" where
  "get_snapshot e token tf = ie_snapshots e (token, tf)"

definition update_vix :: "pyfloat \<Rightarrow> indicator_engine \<Rightarrow> indicator_engine" where
  "update_vix v e = e\<lparr>ie_vix_value := v\<rparr>"

definition set_prev_day_close :: "string \<Rightarrow> pyfloat \<Rightarrow> indicator_engine \<Rightarrow> indicator_engine" where
  "set_prev_day_close token p e = e\<lparr>ie_prev_day_close := (ie_prev_day_close e)(token \<mapsto> p)\<rparr>"

definition update_opening_range :: "string \<Rightarrow> candle \<Rightarrow> indicator_engine \<Rightarrow> indicator_engine" where
  "update_opening_range token c e =
     (case ie_opening_range e token of
        None \<Rightarrow> e\<lparr>ie_opening_range := (ie_opening_range e)(token \<mapsto> (c_high c, c_low c))\<rparr>
      | Some (h, l) \<Rightarrow> e\<lparr>ie_opening_range := (ie_opening_range e)(token \<mapsto> (max h (c_high c), min l (c_low c)))\<rparr>)"

subsection \<open>Market context\<close>

definition DAY_NAMES :: "string list" where
  "DAY_NAMES = [''MON'', ''TUE'', ''WED'', ''THU'', ''FRI'', ''SAT'', ''SUN'']"

definition MONTH_NAMES :: "string list" where
  "MONTH_NAMES = [''JAN'', ''FEB'', ''MAR'', ''APR'', ''MAY'', ''JUN'', ''JUL'', ''AUG'', ''SEP'', ''OCT'', ''NOV'', ''DEC'']"

definition session_name :: "pyfloat \<Rightarrow> string" where
  "session_name t =
     (if 9 * hour_ms + 15 * 60000 \<le> t \<and> t \<le> 11 * hour_ms + 30 * 60000 then ''MORNING''
      else if 11 * hour_ms + 30 * 60000 \<le> t \<and> t \<le> 14 * hour_ms then ''MIDDAY''
      else if 14 * hour_ms \<le> t \<and> t \<le> 15 * hour_ms + 30 * 60000 then ''CLOSING'' else ''PRE_MARKET'')"

definition with_clock :: "zone_clock \<Rightarrow> pyfloat \<Rightarrow> metadata_snapshot \<Rightarrow> metadata_snapshot" where
  "with_clock loc ms m =
     (let w = to_wall loc ms; d = wall_day w in
      m\<lparr>md_session := session_name (wall_time w), md_day_of_week := DAY_NAMES ! nat (weekday d),
        md_month := MONTH_NAMES ! nat (fst (month_day d) - 1)\<rparr>)"

definition with_gap :: "pyfloat \<Rightarrow> (pyfloat \<times> pyfloat) option \<Rightarrow> metadata_snapshot \<Rightarrow> metadata_snapshot" where
  "with_gap prev_close opening m =
     (case opening of
        None \<Rightarrow> m
      | Some (h, l) \<Rightarrow>
          let m = (if prev_close > 0 then
                     let gap_pct = ((h + l) / 2 - prev_close) / prev_close * 100 in
                     m\<lparr>md_gap_size := \<bar>gap_pct\<bar>,
                       md_gap_direction := (if gap_pct > 1/10 then ''UP'' else if gap_pct < - (1/10) then ''DOWN'' else ''FLAT'')\<rparr>
                   else m)
          in m\<lparr>md_opening_range_size := h - l\<rparr>)"

definition with_volatility :: "pyfloat \<Rightarrow> metadata_snapshot \<Rightarrow> metadata_snapshot" where
  "with_volatility vix m =
     (if vix > 0 then m\<lparr>md_volatility_regime := (if vix < 13 then ''LOW'' else if vix < 18 then ''NORMAL'' else ''HIGH'')\<rparr> else m)"

definition with_trend :: "indicator_snapshot option \<Rightarrow> metadata_snapshot \<Rightarrow> metadata_snapshot" where
  "with_trend s30 m =
     (case s30 of
        None \<Rightarrow> m
      | Some s \<Rightarrow>
          if sn_ema_20_slope s \<noteq> 0 then
            let t = (if sn_ema_20_slope s > 0 \<and> sn_ema_50_slope s > 0 then ''BULLISH''
                     else if sn_ema_20_slope s < 0 \<and> sn_ema_50_slope s < 0 then ''BEARISH'' else ''NEUTRAL'')
            in m\<lparr>md_htf_trend_1h := t, md_higher_timeframe_bias := t\<rparr>
          else m)"

definition with_structure :: "indicator_snapshot option \<Rightarrow> metadata_snapshot \<Rightarrow> metadata_snapshot" where
  "with_structure s5 m =
     (case s5 of
        None \<Rightarrow> m
      | Some s \<Rightarrow> m\<lparr>md_market_structure := (if sn_adx s > 25 then ''TRENDING'' else if sn_adx s < 15 then ''RANGING''
                                              else ''TRANSITIONING'')\<rparr>)"

definition maybe_update_metadata :: "zone_clock \<Rightarrow> pyfloat \<Rightarrow> string \<Rightarrow> indicator_engine \<Rightarrow> indicator_engine" where
  "maybe_update_metadata loc now_ms token e =
     (let ts = get_or (ie_last_candle_ms e) token 0;
          m = with_structure (ie_snapshots e (token, RT_M5))
                (with_trend (ie_snapshots e (token, RT_M30))
                  (with_volatility (ie_vix_value e)
                    (with_gap (get_or (ie_prev_day_close e) token 0) (ie_opening_range e token)
                      (with_clock loc (if ts > 0 then ts else now_ms) (get_or (ie_metadata e) token empty_metadata)))))
      in e\<lparr>ie_metadata := (ie_metadata e)(token \<mapsto> m)\<rparr>)"

definition get_metadata :: "zone_clock \<Rightarrow> pyfloat \<Rightarrow> string \<Rightarrow> indicator_engine \<Rightarrow> indicator_engine \<times> metadata_snapshot" where
  "get_metadata loc now_ms token e =
     (let e = maybe_update_metadata loc now_ms token e in (e, get_or (ie_metadata e) token empty_metadata))"

definition indicators_reset_daily :: "indicator_engine \<Rightarrow> indicator_engine" where
  "indicators_reset_daily e = e\<lparr>ie_opening_range := Map.empty, ie_prev_ema20 := Map.empty, ie_prev_ema50 := Map.empty,
     ie_volume_history := Map.empty, ie_snapshots := Map.empty, ie_metadata := Map.empty\<rparr>"

subsection \<open>The calls do not raise\<close>

lemma indicators_return:
  "\<exists>x. atr cs 14 = Inr x" "\<exists>x. bollinger_bands cs 20 2 = Inr x" "0 < n \<Longrightarrow> \<exists>x. ema xs n = Inr x"
  "\<exists>x. adx cs 14 = Inr x" "\<exists>x. rsi xs 14 = Inr x"
proof -
  show "\<exists>x. rsi xs 14 = Inr x" using rsi_in_range[of 14 xs] by (cases "rsi xs 14") auto
qed (auto simp: atr_def bollinger_bands_def ema_def adx_def Let_def)

subsection \<open>Isolation of instruments and timeframes\<close>

text \<open>A candle touches the state of its own instrument and timeframe only.\<close>

lemma on_candle_isolated:
  assumes "indicators_on_candle loc history c e = (e', r)"
    and "key \<noteq> (c_token c, rtf)" "to_research_timeframe (c_timeframe c) = Some rtf"
  shows "ie_snapshots e' key = ie_snapshots e key" "ie_volume_history e' key = ie_volume_history e key"
    "ie_prev_ema20 e' key = ie_prev_ema20 e key" "ie_prev_ema50 e' key = ie_prev_ema50 e key"
  using assms by (auto simp: indicators_on_candle_def Let_def split: if_splits)

lemma on_candle_other_instrument:
  assumes "indicators_on_candle loc history c e = (e', r)" "token \<noteq> c_token c"
  shows "snd (get_metadata loc now token e') = snd (get_metadata loc now token e)"
proof -
  have same: "ie_metadata e' = ie_metadata e" "ie_vix_value e' = ie_vix_value e" "ie_prev_day_close e' = ie_prev_day_close e"
      "ie_opening_range e' = ie_opening_range e" "ie_last_candle_ms e' token = ie_last_candle_ms e token"
      "ie_snapshots e' (token, tf) = ie_snapshots e (token, tf)" for tf
    using assms by (auto simp: indicators_on_candle_def Let_def split: option.splits if_splits)
  show "snd (get_metadata loc now token e') = snd (get_metadata loc now token e)"
    using same by (simp add: get_metadata_def maybe_update_metadata_def Let_def get_or_def)
qed

lemma too_little_history:
  "length history < 30 \<Longrightarrow> indicators_on_candle loc history c e = (e, None)"
  by (auto simp: indicators_on_candle_def split: option.split)

lemma snapshot_stored:
  assumes "indicators_on_candle loc history c e = (e', Some snap)"
  shows "\<exists>rtf. to_research_timeframe (c_timeframe c) = Some rtf \<and> get_snapshot e' (c_token c) rtf = Some snap"
  using assms by (auto simp: indicators_on_candle_def get_snapshot_def Let_def split: option.splits if_splits)

subsection \<open>Bounded memory\<close>

definition volumes_bounded :: "indicator_engine \<Rightarrow> bool" where
  "volumes_bounded e \<longleftrightarrow> (\<forall>key h. ie_volume_history e key = Some h \<longrightarrow> length h \<le> VOLUME_HISTORY_SIZE)"

lemma push_volume_bounded: "length hist \<le> VOLUME_HISTORY_SIZE \<Longrightarrow> length (push_volume hist v) \<le> VOLUME_HISTORY_SIZE"
  by (auto simp: push_volume_def Let_def)

lemma volumes_bounded_on_candle:
  "volumes_bounded e \<Longrightarrow> volumes_bounded (fst (indicators_on_candle loc history c e))"
  by (auto simp: volumes_bounded_def indicators_on_candle_def Let_def get_or_def VOLUME_HISTORY_SIZE_def
      intro!: push_volume_bounded[unfolded VOLUME_HISTORY_SIZE_def] split: option.split)

lemma indicator_window_length: "length (indicator_window history c) \<le> 51"
  by (auto simp: indicator_window_def)

text \<open>When the history ends with the candle, as in the live feed, the window does too, and holds it once.\<close>

lemma indicator_window_last:
  "last (indicator_window history c) = (if history \<noteq> [] \<and> c_ms (last history) = c_ms c then last history else c)"
  by (auto simp: indicator_window_def take_last_def)

end
