(* ===== verification/Variant_Evaluator.thy ===== *)
theory Variant_Evaluator
  imports Indicator_Engine Variant_Execution
begin

section \<open>The batch evaluator of a candle\<close>

text \<open>
  \<open>app/variants/evaluator.py\<close>: the variants are grouped by strategy and timeframe once; on a
  candle each template with variants runs once, and each of its candidates passes over the filters
  of the group. The reference is a scan of all the variants for each candidate of each template.
\<close>

type_synonym evaluator_key = "strategy_type \<times> research_timeframe"

definition add_to_group :: "variant \<Rightarrow> (evaluator_key \<rightharpoonup> variant list) \<Rightarrow> evaluator_key \<rightharpoonup> variant list" where
  "add_to_group v m = (let key = (va_strategy v, va_timeframe v) in m(key \<mapsto> get_or m key [] @ [v]))"

definition evaluator_groups :: "variant list \<Rightarrow> evaluator_key \<rightharpoonup> variant list" where
  "evaluator_groups vs = fold add_to_group vs Map.empty"

record evaluation_result =
  er_total_variants :: nat
  er_filters_passed :: nat
  er_candidates_produced :: nat
  er_armed :: "armed_variant list"
  er_immediate :: "(variant \<times> candidate_signal) list"

definition empty_result :: evaluation_result where
  "empty_result = \<lparr>er_total_variants = 0, er_filters_passed = 0, er_candidates_produced = 0, er_armed = [], er_immediate = []\<rparr>"

definition armed_variant_of :: "string \<Rightarrow> int \<Rightarrow> strategy_type \<Rightarrow> candidate_signal \<Rightarrow> variant \<Rightarrow> armed_variant" where
  "armed_variant_of inst candle_index st cd v =
     \<lparr>av_variant = v, av_instrument = inst, av_direction = cd_direction cd, av_trigger_type = cd_trigger_type cd,
      av_trigger_value = cd_trigger_value cd, av_armed_at_candle = candle_index,
      av_expiry_candles = strategy_expiry_candles st, av_entry_price_hint = cd_entry_price_hint cd\<rparr>"

definition process_variant ::
  "string \<Rightarrow> int \<Rightarrow> strategy_type \<Rightarrow> indicator_snapshot \<Rightarrow> candidate_signal \<Rightarrow> variant \<Rightarrow> evaluation_result \<Rightarrow> evaluation_result" where
  "process_variant inst candle_index st snap cd v r =
     (if \<not> evaluate_filters (va_filters v) snap then r
      else
        let r = r\<lparr>er_filters_passed := er_filters_passed r + 1\<rparr> in
        if cd_entry_mode cd = Variant_Models.CANDLE_CLOSE then r\<lparr>er_immediate := er_immediate r @ [(v, cd)]\<rparr>
        else r\<lparr>er_armed := er_armed r @ [armed_variant_of inst candle_index st cd v]\<rparr>)"

definition process_candidate ::
  "string \<Rightarrow> int \<Rightarrow> strategy_type \<Rightarrow> indicator_snapshot \<Rightarrow> variant list \<Rightarrow> candidate_signal \<Rightarrow> evaluation_result \<Rightarrow>
   evaluation_result" where
  "process_candidate inst candle_index st snap vs cd r = fold (process_variant inst candle_index st snap cd) vs r"

definition evaluate_strategy ::
  "zone_clock \<Rightarrow> (evaluator_key \<rightharpoonup> variant list) \<Rightarrow> string \<Rightarrow> research_timeframe \<Rightarrow> candle \<Rightarrow> candle list \<Rightarrow>
   indicator_snapshot \<Rightarrow> int \<Rightarrow> strategy_type \<Rightarrow> templates \<times> evaluation_result \<Rightarrow> templates \<times> evaluation_result" where
  "evaluate_strategy loc groups inst tf c history snap candle_index st tr =
     (case tr of (t, r) \<Rightarrow>
        let vs = get_or groups (st, tf) [] in
        if vs = [] then (t, r)
        else
          let r = r\<lparr>er_total_variants := er_total_variants r + length vs\<rparr>;
              (t, candidates) = template_evaluate loc st tf c history snap t
          in if candidates = [] then (t, r)
             else (t, fold (process_candidate inst candle_index st snap vs) candidates
                        (r\<lparr>er_candidates_produced := er_candidates_produced r + length candidates\<rparr>)))"

text \<open>The templates in the order of the orchestrator's dictionary.\<close>

definition TEMPLATE_ORDER :: "strategy_type list" where
  "TEMPLATE_ORDER = [ST_ORB, ST_BOLLINGER_BANDS, ST_VPA, ST_TREND_FOLLOWING, ST_MEAN_REVERSION]"

definition evaluate_variants ::
  "zone_clock \<Rightarrow> (evaluator_key \<rightharpoonup> variant list) \<Rightarrow> string \<Rightarrow> research_timeframe \<Rightarrow> candle \<Rightarrow> candle list \<Rightarrow>
   indicator_snapshot \<Rightarrow> int \<Rightarrow> templates \<Rightarrow> templates \<times> evaluation_result" where
  "evaluate_variants loc groups inst tf c history snap candle_index t =
     fold (evaluate_strategy loc groups inst tf c history snap candle_index) TEMPLATE_ORDER (t, empty_result)"

subsection \<open>The groups\<close>

lemma get_or_upd: "get_or (m(k \<mapsto> v)) k' d = (if k' = k then v else get_or m k' d)"
  by (simp add: get_or_def)

lemma evaluator_groups_filter:
  "get_or (evaluator_groups vs) (st, tf) [] = filter (\<lambda>v. va_strategy v = st \<and> va_timeframe v = tf) vs"
proof -
  have "get_or (fold add_to_group vs m) (st, tf) [] =
      get_or m (st, tf) [] @ filter (\<lambda>v. va_strategy v = st \<and> va_timeframe v = tf) vs" for m
    by (induction vs arbitrary: m) (auto simp: add_to_group_def get_or_upd Let_def)
  then show ?thesis by (simp add: evaluator_groups_def get_or_def)
qed

subsection \<open>One candidate against a group\<close>

definition passing :: "indicator_snapshot \<Rightarrow> variant list \<Rightarrow> variant list" where
  "passing snap vs = filter (\<lambda>v. evaluate_filters (va_filters v) snap) vs"

lemma process_candidate_result:
  "process_candidate inst n st snap vs cd r =
     r\<lparr>er_filters_passed := er_filters_passed r + length (passing snap vs),
       er_armed := er_armed r @ (if cd_entry_mode cd = Variant_Models.CANDLE_CLOSE then []
         else List.map (armed_variant_of inst n st cd) (passing snap vs)),
       er_immediate := er_immediate r @ (if cd_entry_mode cd = Variant_Models.CANDLE_CLOSE
         then List.map (\<lambda>v. (v, cd)) (passing snap vs) else [])\<rparr>"
  unfolding process_candidate_def
  by (induction vs arbitrary: r) (simp_all add: process_variant_def passing_def Let_def)

lemma process_candidates_result:
  "fold (process_candidate inst n st snap vs) cds r =
     r\<lparr>er_filters_passed := er_filters_passed r + length cds * length (passing snap vs),
       er_armed := er_armed r @ [armed_variant_of inst n st cd v. cd \<leftarrow> cds, cd_entry_mode cd \<noteq> Variant_Models.CANDLE_CLOSE, v \<leftarrow> passing snap vs],
       er_immediate := er_immediate r @ [(v, cd). cd \<leftarrow> cds, cd_entry_mode cd = Variant_Models.CANDLE_CLOSE, v \<leftarrow> passing snap vs]\<rparr>"
  by (induction cds arbitrary: r) (simp_all add: process_candidate_result)

subsection \<open>The whole candle, against a scan of all the variants\<close>

lemma evaluate_strategy_result:
  "evaluate_strategy loc groups inst tf c history snap n st (t, r) =
     (let vs = get_or groups (st, tf) []; cds = (if vs = [] then [] else snd (template_evaluate loc st tf c history snap t)) in
      ((if vs = [] then t else fst (template_evaluate loc st tf c history snap t)),
       r\<lparr>er_total_variants := er_total_variants r + length vs,
         er_candidates_produced := er_candidates_produced r + length cds,
         er_filters_passed := er_filters_passed r + length cds * length (passing snap vs),
         er_armed := er_armed r @ [armed_variant_of inst n st cd v. cd \<leftarrow> cds, cd_entry_mode cd \<noteq> Variant_Models.CANDLE_CLOSE, v \<leftarrow> passing snap vs],
         er_immediate := er_immediate r @ [(v, cd). cd \<leftarrow> cds, cd_entry_mode cd = Variant_Models.CANDLE_CLOSE, v \<leftarrow> passing snap vs]\<rparr>))"
  by (cases "template_evaluate loc st tf c history snap t") (auto simp: evaluate_strategy_def process_candidates_result Let_def)

text \<open>A template reads and writes its own state only.\<close>

lemma template_independent:
  "st \<noteq> st' \<Longrightarrow> snd (template_evaluate loc st tf c history snap (fst (template_evaluate loc st' tf' c' history' snap' t))) =
     snd (template_evaluate loc st tf c history snap t)"
  by (cases st; cases st') (simp_all add: case_prod_unfold Let_def)

definition candidates_of ::
  "zone_clock \<Rightarrow> research_timeframe \<Rightarrow> candle \<Rightarrow> candle list \<Rightarrow> indicator_snapshot \<Rightarrow> templates \<Rightarrow> strategy_type \<Rightarrow> candidate_signal list" where
  "candidates_of loc tf c history snap t st = snd (template_evaluate loc st tf c history snap t)"

definition variants_of :: "variant list \<Rightarrow> strategy_type \<Rightarrow> research_timeframe \<Rightarrow> variant list" where
  "variants_of vs st tf = filter (\<lambda>v. va_strategy v = st \<and> va_timeframe v = tf) vs"

definition scan_armed ::
  "zone_clock \<Rightarrow> variant list \<Rightarrow> string \<Rightarrow> research_timeframe \<Rightarrow> candle \<Rightarrow> candle list \<Rightarrow> indicator_snapshot \<Rightarrow> int \<Rightarrow>
   templates \<Rightarrow> strategy_type \<Rightarrow> armed_variant list" where
  "scan_armed loc vs inst tf c history snap n t st =
     [armed_variant_of inst n st cd v. cd \<leftarrow> candidates_of loc tf c history snap t st,
        cd_entry_mode cd \<noteq> Variant_Models.CANDLE_CLOSE, v \<leftarrow> passing snap (variants_of vs st tf)]"

definition scan_immediate ::
  "zone_clock \<Rightarrow> variant list \<Rightarrow> research_timeframe \<Rightarrow> candle \<Rightarrow> candle list \<Rightarrow> indicator_snapshot \<Rightarrow>
   templates \<Rightarrow> strategy_type \<Rightarrow> (variant \<times> candidate_signal) list" where
  "scan_immediate loc vs tf c history snap t st =
     [(v, cd). cd \<leftarrow> candidates_of loc tf c history snap t st,
        cd_entry_mode cd = Variant_Models.CANDLE_CLOSE, v \<leftarrow> passing snap (variants_of vs st tf)]"

lemma evaluate_strategy_scan:
  fixes loc vs inst tf c history snap n st t r
  defines "e \<equiv> evaluate_strategy loc (evaluator_groups vs) inst tf c history snap n st (t, r)"
  shows "fst e = (if variants_of vs st tf = [] then t else fst (template_evaluate loc st tf c history snap t))"
    "er_armed (snd e) = er_armed r @ scan_armed loc vs inst tf c history snap n t st"
    "er_immediate (snd e) = er_immediate r @ scan_immediate loc vs tf c history snap t st"
proof -
  have g: "get_or (evaluator_groups vs) (st, tf) [] = variants_of vs st tf"
    by (simp add: evaluator_groups_filter variants_of_def)
  have none: "passing snap [] = []" by (simp add: passing_def)
  show "fst e = (if variants_of vs st tf = [] then t else fst (template_evaluate loc st tf c history snap t))"
    unfolding e_def evaluate_strategy_result Let_def g by simp
  show "er_armed (snd e) = er_armed r @ scan_armed loc vs inst tf c history snap n t st"
    unfolding e_def evaluate_strategy_result Let_def g scan_armed_def candidates_of_def
    by (cases "variants_of vs st tf") (auto simp: none)
  show "er_immediate (snd e) = er_immediate r @ scan_immediate loc vs tf c history snap t st"
    unfolding e_def evaluate_strategy_result Let_def g scan_immediate_def candidates_of_def
    by (cases "variants_of vs st tf") (auto simp: none)
qed

lemma evaluate_strategies_scan:
  assumes "distinct sts"
  shows "er_armed (snd (fold (evaluate_strategy loc (evaluator_groups vs) inst tf c history snap n) sts (t, r))) =
      er_armed r @ concat (List.map (scan_armed loc vs inst tf c history snap n t) sts) \<and>
    er_immediate (snd (fold (evaluate_strategy loc (evaluator_groups vs) inst tf c history snap n) sts (t, r))) =
      er_immediate r @ concat (List.map (scan_immediate loc vs tf c history snap t) sts)"
  using assms
proof (induction sts arbitrary: t r)
  case (Cons st sts)
  let ?t = "if variants_of vs st tf = [] then t else fst (template_evaluate loc st tf c history snap t)"
  let ?e = "evaluate_strategy loc (evaluator_groups vs) inst tf c history snap n st (t, r)"
  have "candidates_of loc tf c history snap ?t st' = candidates_of loc tf c history snap t st'" if "st' \<in> set sts" for st'
  proof -
    have "st' \<noteq> st" using Cons.prems that by auto
    then show ?thesis by (simp add: candidates_of_def template_independent)
  qed
  then have same: "List.map (scan_armed loc vs inst tf c history snap n ?t) sts = List.map (scan_armed loc vs inst tf c history snap n t) sts"
      "List.map (scan_immediate loc vs tf c history snap ?t) sts = List.map (scan_immediate loc vs tf c history snap t) sts"
    unfolding scan_armed_def scan_immediate_def by (auto simp del: map_eq_conv intro!: List.map_cong)
  then show ?case
    using Cons.IH[of ?t "snd ?e"] Cons.prems evaluate_strategy_scan[of loc vs inst tf c history snap n st t r]
    by (cases ?e) (simp del: map_eq_conv)
qed simp

text \<open>The grouped evaluation is the scan, and what it arms carries a level to watch.\<close>

lemma evaluate_is_scan:
  "er_armed (snd (evaluate_variants loc (evaluator_groups vs) inst tf c history snap n t)) =
     concat (List.map (scan_armed loc vs inst tf c history snap n t) TEMPLATE_ORDER)"
  "er_immediate (snd (evaluate_variants loc (evaluator_groups vs) inst tf c history snap n t)) =
     concat (List.map (scan_immediate loc vs tf c history snap t) TEMPLATE_ORDER)"
  using evaluate_strategies_scan[of TEMPLATE_ORDER loc vs inst tf c history snap n t empty_result]
  by (simp_all add: evaluate_variants_def empty_result_def TEMPLATE_ORDER_def)

lemma evaluated_armed:
  assumes "av \<in> set (er_armed (snd (evaluate_variants loc (evaluator_groups vs) inst tf c history snap n t)))"
  shows "av_instrument av = inst" "av_armed_at_candle av = n" "av_variant av \<in> set vs" "va_timeframe (av_variant av) = tf"
    "evaluate_filters (va_filters (av_variant av)) snap" "is_price_trigger av"
    "av_expiry_candles av = strategy_expiry_candles (va_strategy (av_variant av))"
proof -
  obtain st cd v where x: "cd \<in> set (candidates_of loc tf c history snap t st)" "cd_entry_mode cd \<noteq> Variant_Models.CANDLE_CLOSE"
      "v \<in> set (passing snap (variants_of vs st tf))" "av = armed_variant_of inst n st cd v"
    using assms unfolding evaluate_is_scan scan_armed_def by (auto split: if_splits)
  show "av_instrument av = inst" "av_armed_at_candle av = n" using x(4) by (simp_all add: armed_variant_of_def)
  show "av_variant av \<in> set vs" "va_timeframe (av_variant av) = tf" "evaluate_filters (va_filters (av_variant av)) snap"
      "av_expiry_candles av = strategy_expiry_candles (va_strategy (av_variant av))"
    using x(3,4) by (auto simp: armed_variant_of_def passing_def variants_of_def)
  have "candidate_ok st cd" using x(1) template_candidates_ok by (simp add: candidates_of_def)
  then show "is_price_trigger av"
    using x(2,4) by (cases "cd_entry_mode cd") (auto simp: candidate_ok_def is_price_trigger_def armed_variant_of_def)
qed


text \<open>C20: The grouped evaluation of a candle arms and trades exactly what a scan of all the
  variants would: for each template in order and each of its candidates, the variants of the
  strategy and timeframe whose filters pass, in their order, armed with the candle's index and the
  expiry of the strategy, or traded at once when the candidate enters at the close.\<close>

theorem evaluator_is_scan:
  "er_armed (snd (evaluate_variants loc (evaluator_groups vs) inst tf c history snap n t)) =
     [armed_variant_of inst n st cd v. st \<leftarrow> TEMPLATE_ORDER, cd \<leftarrow> candidates_of loc tf c history snap t st,
        cd_entry_mode cd \<noteq> Variant_Models.CANDLE_CLOSE, v \<leftarrow> passing snap (variants_of vs st tf)] \<and>
   er_immediate (snd (evaluate_variants loc (evaluator_groups vs) inst tf c history snap n t)) =
     [(v, cd). st \<leftarrow> TEMPLATE_ORDER, cd \<leftarrow> candidates_of loc tf c history snap t st,
        cd_entry_mode cd = Variant_Models.CANDLE_CLOSE, v \<leftarrow> passing snap (variants_of vs st tf)]"
  unfolding evaluate_is_scan scan_armed_def scan_immediate_def by simp

end
