(* ===== verification/Research_Orchestrator.thy ===== *)
theory Research_Orchestrator
  imports Variant_Evaluator Trade_Recorder
begin

section \<open>The research orchestrator\<close>

text \<open>
  \<open>ResearchOrchestrator\<close> of \<open>app/main_research.py\<close> with \<open>app/execution/candle_cache.py\<close>: the state
  of all the parts, the handlers of the tick and of the candle event, the daily reset and the stop,
  and the feed that runs them in the order of the subscriptions (the orchestrator, then the candle
  builder, then the candles the builder emits). Arguments: the zone of the clock, the hashes of
  trade and variant ids, the grouped variants, the configuration, the wall clock at each event, and
  for each trade whether a write that it causes succeeds.
\<close>

subsection \<open>The candle cache\<close>

type_synonym cache_key = "string \<times> string \<times> pyfloat"

record cached_candle =
  cr_candle :: candle
  cr_session :: int

record candle_cache =
  cc_table :: "(cache_key \<times> cached_candle) list"
  cc_today :: int
  cc_candles_cached :: nat

text \<open>\<open>cache_candle\<close>: Postgres keeps the session date of a row it updates, SQLite replaces the row.\<close>

definition cache_candle :: "bool \<Rightarrow> int \<Rightarrow> candle \<Rightarrow> (cache_key \<times> cached_candle) list \<Rightarrow> (cache_key \<times> cached_candle) list" where
  "cache_candle postgres session c table =
     (let key = (c_token c, timeframe_value (c_timeframe c), c_ms c);
          session = (case map_of table key of Some row \<Rightarrow> if postgres then cr_session row else session | None \<Rightarrow> session)
      in AList.update key \<lparr>cr_candle = c, cr_session = session\<rparr> table)"

definition get_cached_candles :: "string \<Rightarrow> string \<Rightarrow> pyfloat \<Rightarrow> pyfloat \<Rightarrow> (cache_key \<times> cached_candle) list \<Rightarrow> cached_candle list" where
  "get_cached_candles inst tf start_ms end_ms table =
     sort_key (\<lambda>row. c_ms (cr_candle row))
       (List.map snd (filter (\<lambda>((i, t, ms), row). i = inst \<and> t = tf \<and> ms \<ge> start_ms \<and> ms \<le> end_ms) table))"

definition cleanup_candle_cache :: "int \<Rightarrow> (cache_key \<times> cached_candle) list \<Rightarrow> (cache_key \<times> cached_candle) list \<times> nat" where
  "cleanup_candle_cache before_day table =
     (let kept = filter (\<lambda>(k, row). \<not> cr_session row < before_day) table in (kept, length table - length kept))"

definition cache_on_candle :: "bool \<Rightarrow> bool \<Rightarrow> candle \<Rightarrow> candle_cache \<Rightarrow> candle_cache" where
  "cache_on_candle postgres up c k =
     k\<lparr>cc_table := (if up then cache_candle postgres (cc_today k) c (cc_table k) else cc_table k),
       cc_candles_cached := cc_candles_cached k + 1\<rparr>"

definition cache_cleanup :: "int \<Rightarrow> int \<Rightarrow> candle_cache \<Rightarrow> candle_cache \<times> nat" where
  "cache_cleanup today days_to_keep k =
     (let (table, n) = cleanup_candle_cache (today - days_to_keep) (cc_table k) in (k\<lparr>cc_table := table\<rparr>, n))"

definition cache_reset_daily :: "int \<Rightarrow> candle_cache \<Rightarrow> candle_cache" where
  "cache_reset_daily today k = k\<lparr>cc_today := today, cc_candles_cached := 0\<rparr>"

subsection \<open>State\<close>

record research_env =
  en_clock :: zone_clock
  en_trade_id :: trade_ids
  en_variant_id :: "variant \<Rightarrow> string"
  en_variants :: "variant list"
  en_instruments :: "string list"
  en_vix_token :: string
  en_postgres :: bool
  en_write_ok :: "trade_record \<Rightarrow> bool"
  en_cache_ok :: "candle \<Rightarrow> bool"

record orchestrator =
  ro_running :: bool
  ro_ticks :: tick_engine
  ro_recorder :: recorder
  ro_indicators :: indicator_engine
  ro_templates :: templates
  ro_cache :: candle_cache
  ro_counters :: "tf_key \<rightharpoonup> int"
  ro_vix_value :: pyfloat
  ro_total_evaluations :: nat
  ro_total_candles :: nat
  ro_trading_date :: "int option"

definition new_orchestrator :: "nat \<Rightarrow> nat \<Rightarrow> int \<Rightarrow> orchestrator" where
  "new_orchestrator max_armed max_buffer today =
     \<lparr>ro_running = False, ro_ticks = new_tick_engine max_armed, ro_recorder = new_recorder max_buffer,
      ro_indicators = update_vix 14 new_indicator_engine, ro_templates = new_templates,
      ro_cache = \<lparr>cc_table = [], cc_today = today, cc_candles_cached = 0\<rparr>, ro_counters = Map.empty,
      ro_vix_value = 14, ro_total_evaluations = 0, ro_total_candles = 0, ro_trading_date = None\<rparr>"

definition start_orchestrator :: "orchestrator \<Rightarrow> orchestrator" where
  "start_orchestrator s = s\<lparr>ro_running := True\<rparr>"

subsection \<open>Handlers\<close>

definition reset_templates :: "templates \<Rightarrow> templates" where
  "reset_templates t = t\<lparr>tp_orb := orb_reset None, tp_bb := bb_reset None, tp_trend := trend_reset None, tp_mr := mr_reset None\<rparr>"

definition orchestrator_reset_daily :: "int \<Rightarrow> orchestrator \<Rightarrow> orchestrator" where
  "orchestrator_reset_daily today s =
     (let e = ro_ticks s; e = e\<lparr>te_armed := armed_reset_daily (te_armed e), te_groups := clear_groups None (te_groups e)\<rparr>
      in s\<lparr>ro_ticks := engine_reset_daily e,
           ro_recorder := recorder_reset_daily (ro_recorder s),
           ro_cache := cache_reset_daily today (ro_cache s),
           ro_indicators := indicators_reset_daily (ro_indicators s),
           ro_counters := Map.empty,
           ro_templates := reset_templates (ro_templates s)\<rparr>)"

definition research_check_reset :: "zone_clock \<Rightarrow> int \<Rightarrow> pyfloat \<Rightarrow> orchestrator \<Rightarrow> orchestrator" where
  "research_check_reset loc today ms s =
     (let tick_date = wall_day (to_wall loc ms) in
      case ro_trading_date s of
        None \<Rightarrow> s\<lparr>ro_trading_date := Some tick_date\<rparr>
      | Some d \<Rightarrow> if tick_date \<noteq> d then (orchestrator_reset_daily today s)\<lparr>ro_trading_date := Some tick_date\<rparr> else s)"

definition MARKET_OPEN :: pyfloat where
  "MARKET_OPEN = 9 * hour_ms + 15 * 60000"

definition record_fired :: "research_env \<Rightarrow> orchestrator \<Rightarrow> orchestrator" where
  "record_fired env s =
     (let (e, trades) = flush_trades (ro_ticks s);
          (r, n) = record_tick_trades (List.map (\<lambda>t. (t, en_write_ok env t)) trades) (ro_recorder s)
      in s\<lparr>ro_ticks := e, ro_recorder := r\<rparr>)"

definition orchestrator_on_tick :: "research_env \<Rightarrow> int \<Rightarrow> tick \<Rightarrow> orchestrator \<Rightarrow> orchestrator" where
  "orchestrator_on_tick env today t s =
     (if \<not> ro_running s then s
      else
        let s = research_check_reset (en_clock env) today (tk_ms t) s in
        if wall_time (to_wall (en_clock env) (tk_ms t)) < MARKET_OPEN then s
        else if tk_token t = en_vix_token env
        then s\<lparr>ro_vix_value := ltp t, ro_indicators := update_vix (ltp t) (ro_indicators s)\<rparr>
        else
          let (e, fired) = engine_on_tick (en_trade_id env) (en_variant_id env) t (ro_ticks s); s = s\<lparr>ro_ticks := e\<rparr>
          in if fired > 0 then record_fired env s else s)"

text \<open>The evaluation of a candle once its indicators are computed (steps 3 to 9).\<close>

definition evaluate_candle ::
  "research_env \<Rightarrow> pyfloat \<Rightarrow> candle list \<Rightarrow> research_timeframe \<Rightarrow> candle \<Rightarrow> indicator_snapshot \<Rightarrow> orchestrator \<Rightarrow> orchestrator" where
  "evaluate_candle env now_ms history rtf c snap s =
     (let token = c_token c; vid = en_variant_id env;
          e = ro_ticks s; e = e\<lparr>te_snapshots := (te_snapshots e)(token \<mapsto> snap)\<rparr>;
          (ind, meta) = get_metadata (en_clock env) now_ms token (ro_indicators s);
          e = e\<lparr>te_metadata := (te_metadata e)(token \<mapsto> meta)\<rparr>;
          key = (token, rtf); index = get_or (ro_counters s) key 0 + 1;
          (armed, expired) = cleanup_expired token index (Some (rtf_value rtf)) (te_armed e);
          (templates, result) = evaluate_variants (en_clock env) (evaluator_groups (en_variants env)) token rtf c history snap
                                  index (ro_templates s);
          recorder = (if er_immediate result \<noteq> []
                      then fst (record_immediate_trades (en_trade_id env) vid
                             (List.map (\<lambda>vc. (vc, en_write_ok env (immediate_record (en_trade_id env) vid token (c_ms c) snap meta vc)))
                               (er_immediate result)) token (c_ms c) snap meta (ro_recorder s))
                      else ro_recorder s);
          armed = (if er_armed result \<noteq> [] then fst (arm_variants vid (er_armed result) armed) else armed);
          (groups, n) = rebuild token (get_armed armed token) (te_groups e)
      in s\<lparr>ro_ticks := e\<lparr>te_armed := armed, te_groups := groups\<rparr>, ro_indicators := ind, ro_templates := templates,
           ro_recorder := recorder, ro_counters := (ro_counters s)(key \<mapsto> index),
           ro_total_evaluations := ro_total_evaluations s + 1\<rparr>)"

definition orchestrator_on_candle :: "research_env \<Rightarrow> pyfloat \<Rightarrow> candle list \<Rightarrow> candle \<Rightarrow> orchestrator \<Rightarrow> orchestrator" where
  "orchestrator_on_candle env now_ms history c s =
     (if \<not> ro_running s then s
      else case to_research_timeframe (c_timeframe c) of
        None \<Rightarrow> s
      | Some rtf \<Rightarrow>
          if c_token c \<notin> set (en_instruments env) then s
          else
            let s = s\<lparr>ro_total_candles := ro_total_candles s + 1,
                      ro_cache := cache_on_candle (en_postgres env) (en_cache_ok env c) c (ro_cache s)\<rparr>;
                (ind, snap) = indicators_on_candle (en_clock env) history c (ro_indicators s);
                s = s\<lparr>ro_indicators := ind\<rparr>
            in case snap of
                 None \<Rightarrow> s
               | Some snap \<Rightarrow> evaluate_candle env now_ms history rtf c snap s)"

definition stop_orchestrator :: "research_env \<Rightarrow> bool \<Rightarrow> orchestrator \<Rightarrow> orchestrator" where
  "stop_orchestrator env ok s =
     (let s = s\<lparr>ro_running := False\<rparr>; s = (if te_queue (ro_ticks s) \<noteq> [] then record_fired env s else s)
      in s\<lparr>ro_recorder := stop_recorder ok (ro_recorder s)\<rparr>)"


subsection \<open>The feed\<close>

text \<open>
  One tick of the feed: the bus calls the orchestrator first and the candle builder second, and
  each candle the builder emits reaches the orchestrator at once. The builder's history of an
  instrument and timeframe is complete when it emits, and is not changed by its other timeframes.
\<close>

definition research_tick ::
  "research_env \<Rightarrow> int \<Rightarrow> pyfloat \<Rightarrow> tick \<Rightarrow> orchestrator \<times> candle_builder \<Rightarrow> orchestrator \<times> candle_builder" where
  "research_tick env today now_ms t sb =
     (case sb of (s, b) \<Rightarrow>
        let s = orchestrator_on_tick env today t s; (b, out) = on_tick t b
        in (fold (\<lambda>c. orchestrator_on_candle env now_ms (get_history (c_token c) (c_timeframe c) None b) c) out s, b))"

inductive orchestrator_step :: "research_env \<Rightarrow> orchestrator \<Rightarrow> orchestrator \<Rightarrow> bool" for env where
  Start: "orchestrator_step env s (start_orchestrator s)"
| Tick: "orchestrator_step env s (orchestrator_on_tick env today t s)"
| Candle: "orchestrator_step env s (orchestrator_on_candle env now_ms history c s)"
| Reset: "orchestrator_step env s (orchestrator_reset_daily today s)"
| Stop: "orchestrator_step env s (stop_orchestrator env ok s)"

inductive research_reachable :: "research_env \<Rightarrow> orchestrator \<Rightarrow> bool" for env where
  init: "research_reachable env (new_orchestrator max_armed max_buffer today)"
| step: "research_reachable env s \<Longrightarrow> orchestrator_step env s s' \<Longrightarrow> research_reachable env s'"

subsection \<open>The invariant\<close>

text \<open>
  Armed variants belong to their instrument and have not fired today, every one of them is in a
  trigger group, none has outlived its expiry on the counter of its timeframe, the queue of the
  tick engine is empty between events, and the histories of volumes are bounded.
\<close>

definition unexpired :: "orchestrator \<Rightarrow> bool" where
  "unexpired s \<longleftrightarrow> (\<forall>inst. \<forall>av \<in> set (get_armed (te_armed (ro_ticks s)) inst).
     \<not> is_expired av (get_or (ro_counters s) (inst, va_timeframe (av_variant av)) 0))"

definition research_ok :: "research_env \<Rightarrow> orchestrator \<Rightarrow> bool" where
  "research_ok env s \<longleftrightarrow> engine_ok (en_variant_id env) (ro_ticks s) \<and> watched (ro_ticks s) \<and> unexpired s \<and>
     te_queue (ro_ticks s) = [] \<and> volumes_bounded (ro_indicators s) \<and> recorder_ok (ro_recorder s)"

lemma research_okD:
  assumes "research_ok env s"
  shows "engine_ok (en_variant_id env) (ro_ticks s)" "watched (ro_ticks s)" "unexpired s" "te_queue (ro_ticks s) = []"
    "volumes_bounded (ro_indicators s)" "recorder_ok (ro_recorder s)"
  using assms by (simp_all add: research_ok_def)

lemma nothing_armed:
  assumes "\<And>i. get_armed (te_armed (ro_ticks s)) i = []" "te_groups (ro_ticks s) = []" "te_queue (ro_ticks s) = []"
    and "volumes_bounded (ro_indicators s)" "recorder_ok (ro_recorder s)"
  shows "research_ok env s"
  using assms by (simp add: research_ok_def engine_ok_def armed_ok_def watched_def unexpired_def groups_of_def ig_ok_no_groups)

lemma volumes_bounded_simps [simp]:
  "volumes_bounded (update_vix v e) = volumes_bounded e" "volumes_bounded (indicators_reset_daily e)"
  "volumes_bounded (fst (get_metadata loc now tok e)) = volumes_bounded e" "volumes_bounded new_indicator_engine"
  by (simp_all add: volumes_bounded_def update_vix_def indicators_reset_daily_def get_metadata_def maybe_update_metadata_def
      new_indicator_engine_def Let_def)

lemma research_ok_new: "research_ok env (new_orchestrator max_armed max_buffer today)"
  by (rule nothing_armed) (simp_all add: new_orchestrator_def new_tick_engine_def new_armed_state_def get_armed_def)

lemma research_ok_reset: "research_ok env (orchestrator_reset_daily today s)"
  by (rule nothing_armed)
    (simp_all add: orchestrator_reset_daily_def engine_reset_daily_def armed_reset_daily_def clear_groups_def get_armed_def Let_def)

lemma research_ok_fields:
  "ro_ticks s' = ro_ticks s \<Longrightarrow> ro_counters s' = ro_counters s \<Longrightarrow> ro_recorder s' = ro_recorder s \<Longrightarrow> volumes_bounded (ro_indicators s') \<Longrightarrow>
   research_ok env s \<Longrightarrow> research_ok env s'"
  by (simp add: research_ok_def unexpired_def)

lemma research_ok_date [simp]: "research_ok env (s\<lparr>ro_trading_date := d\<rparr>) = research_ok env s"
  by (simp add: research_ok_def unexpired_def)

lemma research_ok_check_reset:
  "research_ok env s \<Longrightarrow> research_ok env (research_check_reset loc today ms s)"
  by (simp add: research_check_reset_def research_ok_reset Let_def split: option.split)

lemma record_fired_ok:
  assumes "engine_ok (en_variant_id env) (ro_ticks s)" "watched (ro_ticks s)" "unexpired s" "volumes_bounded (ro_indicators s)"
    "recorder_ok (ro_recorder s)"
  shows "research_ok env (record_fired env s)"
  using assms by (simp add: research_ok_def record_fired_def flush_trades_def engine_ok_def watched_def unexpired_def
      recorder_ok_trades Let_def case_prod_unfold)

lemma research_ok_tick: "research_ok env s \<Longrightarrow> research_ok env (orchestrator_on_tick env today t s)"
proof -
  assume ok: "research_ok env s"
  let ?s = "research_check_reset (en_clock env) today (tk_ms t) s"
  have c: "research_ok env ?s" by (rule research_ok_check_reset[OF ok])
  obtain e n where e: "engine_on_tick (en_trade_id env) (en_variant_id env) t (ro_ticks ?s) = (e, n)" by fastforce
  note d = research_okD[OF c]
  have e_ok: "engine_ok (en_variant_id env) e" by (rule on_tick_effect(1)[OF d(1) e])
  have w: "watched e" by (rule on_tick_watched(1)[OF d(1,2) e])
  have u: "unexpired (?s\<lparr>ro_ticks := e\<rparr>)"
    using d(3) on_tick_watched(2)[OF d(1,2) e] by (fastforce simp: unexpired_def)
  have q: "te_queue e = []" if "n = 0" using on_tick_effect(2)[OF d(1) e] d(4) that by (auto simp: tick_records_def)
  have vix: "research_ok env (?s\<lparr>ro_vix_value := ltp t, ro_indicators := update_vix (ltp t) (ro_indicators ?s)\<rparr>)"
    by (rule research_ok_fields[OF _ _ _ _ c]) (simp_all add: d(5))
  have none: "research_ok env (?s\<lparr>ro_ticks := e\<rparr>)" if "n = 0"
    using e_ok w u q[OF that] d(5,6) by (simp add: research_ok_def)
  have fired: "research_ok env (record_fired env (?s\<lparr>ro_ticks := e\<rparr>))"
    by (rule record_fired_ok) (use e_ok w u d(5,6) in simp_all)
  show ?thesis unfolding orchestrator_on_tick_def Let_def e prod.case
    using ok c vix none fired by simp
qed


subsection \<open>Candles\<close>

lemma arm_members: "set (get_armed (fst (arm_variants vid avs s)) i) \<subseteq> set (get_armed s i) \<union> {av \<in> set avs. av_instrument av = i}"
proof (induction vid avs s rule: arm_variants.induct)
  case (2 vid av avs s)
  then show ?case by (fastforce simp: Let_def touch_same get_set_armed case_prod_unfold split: if_splits)
qed simp

lemma cleanup_members:
  "set (get_armed (fst (cleanup_expired inst n (Some tf) s)) i) \<subseteq> set (get_armed s i)"
  "tf \<noteq> '''' \<Longrightarrow> av \<in> set (get_armed (fst (cleanup_expired inst n (Some tf) s)) inst) \<Longrightarrow>
     rtf_value (va_timeframe (av_variant av)) = tf \<Longrightarrow> \<not> is_expired av n"
  by (auto simp: cleanup_expired_def Let_def get_set_armed touch_same split: if_splits)

lemma rtf_value_inj: "rtf_value a = rtf_value b \<Longrightarrow> a = b" "rtf_value a \<noteq> ''''"
  by (cases a; cases b; simp) (cases a; simp)

text \<open>What \<open>evaluate_candle\<close> leaves, in the terms of its parts.\<close>

lemma evaluate_candle_fields:
  fixes env now_ms history rtf c snap s
  defines "s' \<equiv> evaluate_candle env now_ms history rtf c snap s"
    and "index \<equiv> get_or (ro_counters s) (c_token c, rtf) 0 + 1"
  defines "armed \<equiv> fst (cleanup_expired (c_token c) index (Some (rtf_value rtf)) (te_armed (ro_ticks s)))"
    and "result \<equiv> snd (evaluate_variants (en_clock env) (evaluator_groups (en_variants env)) (c_token c) rtf c history snap index (ro_templates s))"
  shows "te_armed (ro_ticks s') = (if er_armed result = [] then armed else fst (arm_variants (en_variant_id env) (er_armed result) armed))"
    "te_groups (ro_ticks s') = fst (rebuild (c_token c) (get_armed (te_armed (ro_ticks s')) (c_token c)) (te_groups (ro_ticks s)))"
    "te_queue (ro_ticks s') = te_queue (ro_ticks s)"
    "ro_counters s' = (ro_counters s)((c_token c, rtf) \<mapsto> index)"
    "ro_indicators s' = fst (get_metadata (en_clock env) now_ms (c_token c) (ro_indicators s))"
  unfolding s'_def index_def armed_def result_def
  by (simp_all add: evaluate_candle_def Let_def case_prod_unfold)

lemma evaluate_candle_recorder:
  "recorder_ok (ro_recorder s) \<Longrightarrow> recorder_ok (ro_recorder (evaluate_candle env now_ms history rtf c snap s))"
  by (simp add: evaluate_candle_def record_immediate_trades_def recorder_ok_trades Let_def case_prod_unfold)

lemma evaluate_candle_armed:
  assumes "av \<in> set (get_armed (te_armed (ro_ticks (evaluate_candle env now_ms history rtf c snap s))) i)"
  defines "index \<equiv> get_or (ro_counters s) (c_token c, rtf) 0 + 1"
  shows "av \<in> set (get_armed (te_armed (ro_ticks s)) i) \<and> (i = c_token c \<and> va_timeframe (av_variant av) = rtf \<longrightarrow> \<not> is_expired av index) \<or>
     i = c_token c \<and> va_timeframe (av_variant av) = rtf \<and> av_armed_at_candle av = index \<and> is_price_trigger av \<and> av_variant av \<in> set (en_variants env) \<and>
     av_expiry_candles av = strategy_expiry_candles (va_strategy (av_variant av)) \<and> evaluate_filters (va_filters (av_variant av)) snap"
proof -
  let ?armed = "fst (cleanup_expired (c_token c) index (Some (rtf_value rtf)) (te_armed (ro_ticks s)))"
  let ?new = "er_armed (snd (evaluate_variants (en_clock env) (evaluator_groups (en_variants env)) (c_token c) rtf c history snap index (ro_templates s)))"
  have "av \<in> set (get_armed ?armed i) \<or> av \<in> set ?new \<and> av_instrument av = i"
    using assms(1) arm_members[of "en_variant_id env" ?new ?armed i]
    unfolding evaluate_candle_fields index_def[symmetric] by (auto split: if_splits)
  then show ?thesis
  proof
    assume a: "av \<in> set (get_armed ?armed i)"
    then have "av \<in> set (get_armed (te_armed (ro_ticks s)) i)" using cleanup_members(1) by blast
    moreover have "\<not> is_expired av index" if "i = c_token c" "va_timeframe (av_variant av) = rtf"
      using cleanup_members(2)[OF rtf_value_inj(2)] a that by blast
    ultimately show ?thesis by blast
  next
    assume new: "av \<in> set ?new \<and> av_instrument av = i"
    then show ?thesis using evaluated_armed[OF conjunct1[OF new]] by simp
  qed
qed

lemma strategy_expiry_pos: "0 < strategy_expiry_candles st"
  by (cases st) simp_all

lemma research_ok_evaluate:
  assumes ok: "research_ok env s"
  shows "research_ok env (evaluate_candle env now_ms history rtf c snap s)"
proof -
  let ?s = "evaluate_candle env now_ms history rtf c snap s" and ?vid = "en_variant_id env"
  note d = research_okD[OF ok]
  note f = evaluate_candle_fields[of env now_ms history rtf c snap s]
  note m = evaluate_candle_armed[of _ env now_ms history rtf c snap s]
  have igs: "ig_ok (groups_of (te_groups (ro_ticks s)) i)" for i using d(1) by (simp add: engine_ok_def)
  have "armed_ok ?vid (te_armed (ro_ticks ?s))"
    unfolding f(1) using d(1) by (auto simp: engine_ok_def intro: arm_ok cleanup_ok)
  moreover have "ig_ok (groups_of (te_groups (ro_ticks ?s)) i)" for i
    unfolding f(2) using rebuild_ok(1) rebuild_ok(3) igs by (cases "i = c_token c") auto
  ultimately have e: "engine_ok ?vid (ro_ticks ?s)" by (simp add: engine_ok_def)
  have pt: "is_price_trigger av" if "av \<in> set (get_armed (te_armed (ro_ticks ?s)) i)" for av i
    using m[OF that] d(2) by (auto simp: watched_def)
  have "av \<in># ig_members (groups_of (te_groups (ro_ticks ?s)) i)" if av: "av \<in> set (get_armed (te_armed (ro_ticks ?s)) i)" for av i
  proof (cases "i = c_token c")
    case True
    then show ?thesis using av pt[OF av] unfolding f(2) by (simp add: rebuild_ok(2))
  next
    case False
    then have "av \<in> set (get_armed (te_armed (ro_ticks s)) i)" using m[OF av] by blast
    then show ?thesis using d(2) False unfolding f(2) by (auto simp: watched_def rebuild_ok(3))
  qed
  then have w: "watched (ro_ticks ?s)" using pt by (simp add: watched_def)
  have "\<not> is_expired av (get_or (ro_counters ?s) (i, va_timeframe (av_variant av)) 0)"
    if av: "av \<in> set (get_armed (te_armed (ro_ticks ?s)) i)" for av i
    using m[OF av] d(3) strategy_expiry_pos[of "va_strategy (av_variant av)"]
    unfolding f(4) by (auto simp: get_or_upd is_expired_def unexpired_def)
  then have u: "unexpired ?s" by (simp add: unexpired_def)
  show ?thesis using e w u d(4,5) f(3,5) evaluate_candle_recorder[OF d(6)] by (simp add: research_ok_def)
qed

lemma research_ok_candle:
  assumes "research_ok env s"
  shows "research_ok env (orchestrator_on_candle env now_ms history c s)"
proof -
  let ?s = "s\<lparr>ro_total_candles := ro_total_candles s + 1,
      ro_cache := cache_on_candle (en_postgres env) (en_cache_ok env c) c (ro_cache s),
      ro_indicators := fst (indicators_on_candle (en_clock env) history c (ro_indicators s))\<rparr>"
  have "research_ok env ?s"
    by (rule research_ok_fields[OF _ _ _ _ assms]) (simp_all add: volumes_bounded_on_candle research_okD(5)[OF assms])
  then show ?thesis
    using assms by (simp add: orchestrator_on_candle_def Let_def case_prod_unfold research_ok_evaluate split: option.split)
qed

lemma research_ok_stop: "research_ok env s \<Longrightarrow> research_ok env (stop_orchestrator env ok s)"
  by (simp add: stop_orchestrator_def stop_recorder_def research_ok_def unexpired_def Let_def)

lemma research_ok_start: "research_ok env s \<Longrightarrow> research_ok env (start_orchestrator s)"
  by (simp add: start_orchestrator_def research_ok_def unexpired_def)

lemma research_reachable_ok: "research_reachable env s \<Longrightarrow> research_ok env s"
proof (induction rule: research_reachable.induct)
  case (step s s')
  from step.hyps(2) step.IH show ?case
    by cases (simp_all add: research_ok_start research_ok_tick research_ok_candle research_ok_reset research_ok_stop)
qed (rule research_ok_new)


subsection \<open>A tick fires what it crosses\<close>

lemma not_crossed_left:
  assumes "engine_ok vid e" "watched e" "check_triggers (te_groups e) inst price = []"
    and "av \<in> set (get_armed (te_armed e) inst)"
  shows "\<not> crossed (av_key av) price"
proof
  assume c: "crossed (av_key av) price"
  have ig: "ig_ok (groups_of (te_groups e) inst)" using assms(1) by (simp add: engine_ok_def)
  have "av \<in># ig_members (groups_of (te_groups e) inst)" using assms(2,4) by (auto simp: watched_def)
  then obtain k g where g: "(k, g) \<in> set (ig_groups (groups_of (te_groups e) inst))" "av \<in> set (pg_members g)"
    unfolding ig_members_mem by blast
  then have "av_key av = k" using ig_okD[OF ig g(1)] by (auto simp: group_ok_def)
  then have "g \<in> set (check_triggers (te_groups e) inst price)" using g(1) c check_triggers_mem[OF ig] by blast
  then show False using assms(3) by simp
qed

definition live_tick :: "research_env \<Rightarrow> orchestrator \<Rightarrow> tick \<Rightarrow> bool" where
  "live_tick env s t \<longleftrightarrow> ro_running s \<and> ro_trading_date s = Some (wall_day (to_wall (en_clock env) (tk_ms t))) \<and>
     MARKET_OPEN \<le> wall_time (to_wall (en_clock env) (tk_ms t)) \<and> tk_token t \<noteq> en_vix_token env"

lemma live_tick_step:
  assumes "live_tick env s t" "engine_on_tick (en_trade_id env) (en_variant_id env) t (ro_ticks s) = (e, n)"
  shows "orchestrator_on_tick env today t s = (if n > 0 then record_fired env (s\<lparr>ro_ticks := e\<rparr>) else s\<lparr>ro_ticks := e\<rparr>)"
  using assms by (simp add: live_tick_def orchestrator_on_tick_def research_check_reset_def Let_def)

lemma live_tick_fires:
  fixes today
  assumes ok: "research_ok env s" and live: "live_tick env s t" and av: "av \<in> set (get_armed (te_armed (ro_ticks s)) (tk_token t))"
  defines "s' \<equiv> orchestrator_on_tick env today t s"
  shows "crossed (av_key av) (ltp t) \<Longrightarrow> (en_variant_id env (av_variant av), tk_token t) \<in> as_triggered_today (te_armed (ro_ticks s'))"
    "crossed (av_key av) (ltp t) \<Longrightarrow>
       (en_variant_id env (av_variant av), tk_token t, py_int (tk_ms t / 60000)) \<in> rc_seen_today (ro_recorder s')"
proof -
  obtain e n where e: "engine_on_tick (en_trade_id env) (en_variant_id env) t (ro_ticks s) = (e, n)" by fastforce
  note d = research_okD[OF ok]
  obtain fired where f: "mset fired = filter_mset (\<lambda>av. crossed (av_key av) (ltp t)) (ig_members (groups_of (te_groups (ro_ticks s)) (tk_token t)))"
      "n = length fired" "te_queue e = tick_records (en_trade_id env) (en_variant_id env) (ro_ticks s) (tk_token t) (ltp t) (tk_ms t) fired"
      "as_triggered_today (te_armed e) = as_triggered_today (te_armed (ro_ticks s)) \<union> (\<lambda>av. (en_variant_id env (av_variant av), tk_token t)) ` set fired"
    using on_tick_effect(2)[OF d(1) e] d(4) by auto
  assume c: "crossed (av_key av) (ltp t)"
  have "av \<in># ig_members (groups_of (te_groups (ro_ticks s)) (tk_token t))" using d(2) av by (auto simp: watched_def)
  then have "av \<in># mset fired" unfolding f(1) using c by simp
  then have in_fired: "av \<in> set fired" by simp
  then have "n > 0" using f(2) by auto
  then have s': "s' = record_fired env (s\<lparr>ro_ticks := e\<rparr>)" unfolding s'_def live_tick_step[OF live e] by simp
  show "(en_variant_id env (av_variant av), tk_token t) \<in> as_triggered_today (te_armed (ro_ticks s'))"
    unfolding s' using in_fired f(4) by (auto simp: record_fired_def flush_trades_def Let_def case_prod_unfold)
  let ?r = "create_trade_record (en_trade_id env) (en_variant_id env) av (tk_token t) (ltp t) (tk_ms t)
      (case te_snapshots (ro_ticks s) (tk_token t) of None \<Rightarrow> empty_snapshot | Some s \<Rightarrow> s)
      (case te_metadata (ro_ticks s) (tk_token t) of None \<Rightarrow> empty_metadata | Some m \<Rightarrow> m)"
  have key: "dedup_key ?r = (en_variant_id env (av_variant av), tk_token t, py_int (tk_ms t / 60000))"
    by (simp add: dedup_key_def create_trade_record_def Let_def)
  have "?r \<in> set (te_queue e)" unfolding f(3) tick_records_def using in_fired by simp
  then have "dedup_key ?r \<in> rc_seen_today (ro_recorder s')"
    unfolding s' by (simp add: record_fired_def flush_trades_def record_trades_seen Let_def case_prod_unfold image_image)
  then show "(en_variant_id env (av_variant av), tk_token t, py_int (tk_ms t / 60000)) \<in> rc_seen_today (ro_recorder s')"
    unfolding key .
qed

lemma live_tick_leaves:
  assumes ok: "research_ok env s" and live: "live_tick env s t"
    and av: "av \<in> set (get_armed (te_armed (ro_ticks (orchestrator_on_tick env today t s))) (tk_token t))"
  shows "\<not> crossed (av_key av) (ltp t)"
proof -
  obtain e n where e: "engine_on_tick (en_trade_id env) (en_variant_id env) t (ro_ticks s) = (e, n)" by fastforce
  note d = research_okD[OF ok]
  have "av \<in> set (get_armed (te_armed e) (tk_token t))"
    using av unfolding live_tick_step[OF live e]
    by (auto simp: record_fired_def flush_trades_def Let_def case_prod_unfold split: if_splits)
  then show ?thesis
    using not_crossed_left[OF on_tick_effect(1)[OF d(1) e] on_tick_watched(1)[OF d(1,2) e] on_tick_effect(3)[OF d(1) e]] by blast
qed


subsection \<open>What the engine guarantees\<close>


definition demo_env :: research_env where
  "demo_env = \<lparr>en_clock = utc_zones NY, en_trade_id = (\<lambda>v i ms d. v @ i @ d), en_variant_id = variant_raw, en_variants = [],
     en_instruments = [''2885''], en_vix_token = ''INDIAVIX'', en_postgres = False, en_write_ok = (\<lambda>_. True),
     en_cache_ok = (\<lambda>_. True)\<rparr>"

definition demo_started :: orchestrator where
  "demo_started = orchestrator_on_tick demo_env 0
     \<lparr>tk_exchange = ''NSE'', tk_segment = ''CASH'', tk_token = ''2885'', ltp = 100, tk_ms = 36000000, tk_bid = 0, tk_ask = 0\<rparr>
     (start_orchestrator (new_orchestrator 10000 500 0))"

lemma demo_started_reachable: "research_reachable demo_env demo_started"
  unfolding demo_started_def
  by (rule research_reachable.step[OF research_reachable.step[OF research_reachable.init Start] Tick])




definition demo_at_eleven :: tick where
  "demo_at_eleven = \<lparr>tk_exchange = ''NSE'', tk_segment = ''CASH'', tk_token = ''2885'', ltp = 101, tk_ms = 39600000, tk_bid = 0, tk_ask = 0\<rparr>"

lemma demo_live: "live_tick demo_env demo_started demo_at_eleven"
  by (simp add: live_tick_def demo_started_def demo_env_def demo_at_eleven_def orchestrator_on_tick_def research_check_reset_def
      start_orchestrator_def new_orchestrator_def engine_on_tick_def new_tick_engine_def check_triggers_def groups_of_def
      no_groups_def utc_zones_def wall_day_def wall_time_def day_ms_def MARKET_OPEN_def hour_ms_def Let_def case_prod_unfold)


subsection \<open>The bar that closes after the reset\<close>

text \<open>
  The first tick of a new day resets the orchestrator before the candle builder sees it, and then
  closes the last bar of the day before, which is evaluated on the new day: its counter is already
  1, and what it arms is watched by the ticks of the new day.
\<close>

lemma evaluate_candle_counts:
  "ro_counters (evaluate_candle env now_ms history rtf c snap s) (c_token c, rtf) = Some (get_or (ro_counters s) (c_token c, rtf) 0 + 1)"
  by (simp add: evaluate_candle_fields)

lemma stale_bar_evaluated:
  assumes run: "ro_running s" and day: "ro_trading_date s = Some d" "d \<noteq> wall_day (to_wall (en_clock env) (tk_ms t))"
    and bar: "on_tick t b = (b', [c])" "c_token c \<in> set (en_instruments env)" "to_research_timeframe (c_timeframe c) = Some rtf"
    and hist: "30 \<le> length (get_history (c_token c) (c_timeframe c) None b')"
  shows "ro_counters (fst (research_tick env today now_ms t (s, b))) (c_token c, rtf) = Some 1"
proof -
  let ?s = "orchestrator_on_tick env today t s"
  have fired: "ro_counters (record_fired env x) = ro_counters x" "ro_running (record_fired env x) = ro_running x" for x
    by (simp_all add: record_fired_def Let_def case_prod_unfold)
  have counters: "ro_counters ?s = Map.empty" and running: "ro_running ?s"
    using run day by (simp_all add: orchestrator_on_tick_def research_check_reset_def orchestrator_reset_daily_def fired
        Let_def case_prod_unfold)
  show ?thesis
    using bar hist running
    by (simp add: research_tick_def orchestrator_on_candle_def indicators_on_candle_def evaluate_candle_counts counters
        get_or_def Let_def)
qed

end
