(* ===== verification/Market_Hours.thy ===== *)
theory Market_Hours
  imports Deployability
begin

section \<open>Hours of the equity market\<close>

text \<open>
  \<open>app/utils/market_hours.py\<close>. The clock is an argument: \<open>n\<close> is the local wall clock in
  milliseconds, as in \<open>Forex_Hours\<close>, and dates are day numbers. A calendar day given to
  \<open>is_trading_day\<close> is an argument too, where the source defaults to today.
\<close>

definition NSE_OPEN :: pyfloat where
  "NSE_OPEN = 9 * hour_ms + 15 * 60000"

definition LAST_ENTRY :: pyfloat where
  "LAST_ENTRY = 15 * hour_ms + 15 * 60000"

definition SQUARE_OFF :: pyfloat where
  "SQUARE_OFF = 15 * hour_ms + 20 * 60000"

definition NSE_CLOSE :: pyfloat where
  "NSE_CLOSE = 15 * hour_ms + 30 * 60000"

definition PRE_MARKET_WAKE :: pyfloat where
  "PRE_MARKET_WAKE = 9 * hour_ms"

definition NSE_HOLIDAYS_2026 :: "int list" where
  "NSE_HOLIDAYS_2026 = List.map (\<lambda>(m, d). days_from_civil 2026 m d)
     [(1, 26), (3, 3), (3, 26), (3, 31), (4, 3), (4, 14), (5, 1), (5, 28), (6, 26), (9, 14), (10, 2), (10, 20),
      (11, 10), (11, 24), (12, 25)]"

definition is_trading_day :: "int \<Rightarrow> bool" where
  "is_trading_day d = (if weekday d \<ge> 5 then False else if d \<in> set NSE_HOLIDAYS_2026 then False else True)"

definition nse_is_market_open :: "pyfloat \<Rightarrow> bool" where
  "nse_is_market_open n =
     (if \<not> is_trading_day (wall_day n) then False else NSE_OPEN \<le> wall_time n \<and> wall_time n \<le> NSE_CLOSE)"

definition nse_can_open_new_position :: "pyfloat \<Rightarrow> bool" where
  "nse_can_open_new_position n =
     (if \<not> is_trading_day (wall_day n) then False else NSE_OPEN \<le> wall_time n \<and> wall_time n \<le> LAST_ENTRY)"

definition should_square_off :: "pyfloat \<Rightarrow> bool" where
  "should_square_off n = (if \<not> is_trading_day (wall_day n) then False else wall_time n \<ge> SQUARE_OFF)"

definition nse_should_process_for_strategy :: "pyfloat \<Rightarrow> bool" where
  "nse_should_process_for_strategy n =
     (if \<not> is_trading_day (wall_day n) then False else NSE_OPEN \<le> wall_time n \<and> wall_time n \<le> NSE_CLOSE)"

definition is_within_active_window :: "pyfloat \<Rightarrow> bool" where
  "is_within_active_window n =
     (if \<not> is_trading_day (wall_day n) then False else PRE_MARKET_WAKE \<le> wall_time n \<and> wall_time n \<le> NSE_CLOSE)"

text \<open>The loop over the next days, \<open>k\<close> of them left, and the seconds until the next wake-up.\<close>

fun next_wake :: "nat \<Rightarrow> int \<Rightarrow> pyfloat \<Rightarrow> pyfloat" where
  "next_wake 0 next_day n = 12 * 3600"
| "next_wake (Suc k) next_day n =
     (if is_trading_day next_day then (combine next_day PRE_MARKET_WAKE - n) / 1000 else next_wake k (next_day + 1) n)"

definition nse_seconds_until_market_open :: "pyfloat \<Rightarrow> pyfloat" where
  "nse_seconds_until_market_open n =
     (if is_trading_day (wall_day n) \<and> wall_time n < NSE_CLOSE then
        (if wall_time n \<ge> PRE_MARKET_WAKE then 0 else (combine (wall_day n) PRE_MARKET_WAKE - n) / 1000)
      else next_wake 10 (wall_day n + 1) n)"

subsection \<open>The windows are nested, and entries stop before the square-off\<close>

lemmas market_clock = NSE_OPEN_def LAST_ENTRY_def SQUARE_OFF_def NSE_CLOSE_def PRE_MARKET_WAKE_def hour_ms_def day_ms_def

lemma windows_nested:
  "nse_can_open_new_position n \<Longrightarrow> nse_is_market_open n" "nse_is_market_open n \<Longrightarrow> is_within_active_window n"
  "nse_should_process_for_strategy n = nse_is_market_open n" "\<not> (nse_can_open_new_position n \<and> should_square_off n)"
  by (auto simp: nse_can_open_new_position_def nse_is_market_open_def is_within_active_window_def nse_should_process_for_strategy_def
      should_square_off_def market_clock split: if_splits)

subsection \<open>The wake-up\<close>

text \<open>Every Wednesday is a trading day, so ten days in a row hold one and the fallback of twelve hours is never used.\<close>

lemma holiday_days: "NSE_HOLIDAYS_2026 = [20479, 20515, 20538, 20543, 20546, 20557, 20574, 20601, 20630, 20710, 20728, 20746, 20767, 20781, 20812]"
  by code_simp


lemma wednesday_trades: "weekday d = 2 \<Longrightarrow> is_trading_day d"
  by (auto simp: is_trading_day_def holiday_days weekday_def)

lemma trading_soon: "\<exists>k. 1 \<le> k \<and> k \<le> 10 \<and> is_trading_day (d + k)"
proof -
  let ?k = "(2 - weekday (d + 1)) mod 7"
  have "weekday (d + 1 + ?k) = 2" by (rule weekday_ahead) simp_all
  then have "is_trading_day (d + (1 + ?k))" using wednesday_trades by (simp only: add.assoc)
  moreover have "0 \<le> ?k" "?k < 7" by simp_all
  ultimately show ?thesis by (intro exI[of _ "1 + ?k"]) linarith
qed

lemma next_wake_found:
  assumes "\<exists>i. 0 \<le> i \<and> i < int k \<and> is_trading_day (d + i)"
  shows "\<exists>i. 0 \<le> i \<and> i < int k \<and> is_trading_day (d + i) \<and> (\<forall>j. 0 \<le> j \<and> j < i \<longrightarrow> \<not> is_trading_day (d + j)) \<and>
    next_wake k d n = (combine (d + i) PRE_MARKET_WAKE - n) / 1000"
  using assms
proof (induction k arbitrary: d)
  case (Suc k)
  show ?case
  proof (cases "is_trading_day d")
    case True
    then show ?thesis by (intro exI[of _ 0]) auto
  next
    case False
    obtain i where i: "0 \<le> i" "i < int (Suc k)" "is_trading_day (d + i)" using Suc.prems by blast
    then have "i \<noteq> 0" using False by (metis add.right_neutral)
    then have "\<exists>i. 0 \<le> i \<and> i < int k \<and> is_trading_day (d + 1 + i)" using i by (intro exI[of _ "i - 1"]) simp
    from Suc.IH[OF this] obtain i where i: "0 \<le> i" "i < int k" "is_trading_day (d + 1 + i)"
        "\<forall>j. 0 \<le> j \<and> j < i \<longrightarrow> \<not> is_trading_day (d + 1 + j)" "next_wake k (d + 1) n = (combine (d + 1 + i) PRE_MARKET_WAKE - n) / 1000"
      by blast
    have "\<not> is_trading_day (d + j)" if "0 \<le> j" "j < i + 1" for j
      using that False i(4)[rule_format, of "j - 1"] by (cases "j = 0") (auto simp: algebra_simps)
    then show ?thesis using i False by (intro exI[of _ "i + 1"]) (auto simp: algebra_simps)
  qed
qed auto

text \<open>
  Outside the active window the result leads to the wake-up time of the first trading day whose
  wake-up is still ahead; inside it is zero. The exception is the last instant of the window, where
  the comparison is strict here and not there.
\<close>

lemma seconds_inside:
  "is_within_active_window n \<Longrightarrow> wall_time n \<noteq> NSE_CLOSE \<Longrightarrow> nse_seconds_until_market_open n = 0"
  by (auto simp: is_within_active_window_def nse_seconds_until_market_open_def split: if_splits)

lemma seconds_outside:
  assumes "\<not> is_within_active_window n \<or> wall_time n = NSE_CLOSE"
  shows "\<exists>d. wall_day n \<le> d \<and> d \<le> wall_day n + 10 \<and> is_trading_day d \<and> n < combine d PRE_MARKET_WAKE \<and>
    nse_seconds_until_market_open n = (combine d PRE_MARKET_WAKE - n) / 1000 \<and>
    (\<forall>d'. d' < d \<longrightarrow> is_trading_day d' \<longrightarrow> combine d' PRE_MARKET_WAKE \<le> n)"
proof (cases "is_trading_day (wall_day n) \<and> wall_time n < NSE_CLOSE")
  case True
  then have early: "wall_time n < PRE_MARKET_WAKE" using assms by (auto simp: is_within_active_window_def)
  have "combine d' PRE_MARKET_WAKE \<le> n" if "d' < wall_day n" for d'
  proof -
    have "of_int d' * day_ms \<le> of_int (wall_day n - 1) * day_ms" using that by (simp add: day_ms_def)
    then show ?thesis using wall_split[of n] wall_time_bounds[of n] by (simp add: combine_def market_clock algebra_simps)
  qed
  moreover have "n < combine (wall_day n) PRE_MARKET_WAKE" using early wall_split[of n] by (simp add: combine_def)
  ultimately show ?thesis using True early
    by (intro exI[of _ "wall_day n"]) (simp add: nse_seconds_until_market_open_def)
next
  case False
  have "\<exists>i. 0 \<le> i \<and> i < int 10 \<and> is_trading_day (wall_day n + 1 + i)"
  proof -
    obtain k where "1 \<le> k" "k \<le> 10" "is_trading_day (wall_day n + k)" using trading_soon by blast
    then show ?thesis by (intro exI[of _ "k - 1"]) simp
  qed
  from next_wake_found[OF this, of n] obtain i where i: "0 \<le> i" "i < 10" "is_trading_day (wall_day n + 1 + i)"
      "\<forall>j. 0 \<le> j \<and> j < i \<longrightarrow> \<not> is_trading_day (wall_day n + 1 + j)"
      "next_wake 10 (wall_day n + 1) n = (combine (wall_day n + 1 + i) PRE_MARKET_WAKE - n) / 1000"
    by auto
  have "n < of_int (wall_day n + 1) * day_ms" using wall_split[of n] wall_time_bounds[of n] by (simp add: algebra_simps)
  also have "\<dots> \<le> of_int (wall_day n + 1 + i) * day_ms" using i(1) by (simp add: day_ms_def)
  also have "\<dots> \<le> combine (wall_day n + 1 + i) PRE_MARKET_WAKE" by (simp add: combine_def market_clock)
  finally have ahead: "n < combine (wall_day n + 1 + i) PRE_MARKET_WAKE" .
  have before: "combine d' PRE_MARKET_WAKE \<le> n" if d': "d' < wall_day n + 1 + i" "is_trading_day d'" for d'
  proof -
    have "\<not> wall_day n + 1 \<le> d'" using i(4)[rule_format, of "d' - (wall_day n + 1)"] d' by auto
    then have le: "d' \<le> wall_day n" by simp
    have "PRE_MARKET_WAKE \<le> wall_time n" if "d' = wall_day n"
      using False d'(2) that by (simp add: market_clock)
    moreover have "of_int d' * day_ms \<le> of_int (wall_day n - 1) * day_ms" if "d' \<noteq> wall_day n"
      using le that by (simp add: day_ms_def)
    ultimately show ?thesis
      using wall_split[of n] wall_time_bounds[of n] by (cases "d' = wall_day n") (auto simp: combine_def market_clock algebra_simps)
  qed
  show ?thesis
    by (rule exI[of _ "wall_day n + 1 + i"]) (use i ahead before False in \<open>auto simp: nse_seconds_until_market_open_def\<close>)
qed

end
