(* ===== verification/Equity_Risk.thy ===== *)
theory Equity_Risk
  imports Core_Models
begin

section \<open>Exit enhancements of equity positions\<close>

text \<open>
  \<open>app/paper_trader/risk_management.py\<close>: breakeven stop, trailing stop, partial profit and time
  exit, each per position identifier. The position is mutated in place, so an update returns the
  manager, the position and the action.
\<close>

datatype position_action = Act_HOLD | Act_CLOSE | Act_PARTIAL_CLOSE

record exit_tools =
  xt_trailing_stop :: bool
  xt_trailing_atr_multiplier :: pyfloat
  xt_trailing_pct :: pyfloat
  xt_breakeven_after_1r :: bool
  xt_breakeven_trigger_r :: pyfloat
  xt_breakeven_buffer_pct :: pyfloat
  xt_partial_profit_at_1r :: bool
  xt_partial_close_pct :: pyfloat
  xt_partial_trigger_r :: pyfloat
  xt_time_exit :: bool
  xt_time_exit_candles :: int

definition default_tools :: exit_tools where
  "default_tools = \<lparr>xt_trailing_stop = False, xt_trailing_atr_multiplier = 1, xt_trailing_pct = 0,
     xt_breakeven_after_1r = False, xt_breakeven_trigger_r = 1, xt_breakeven_buffer_pct = 5/100,
     xt_partial_profit_at_1r = False, xt_partial_close_pct = 50, xt_partial_trigger_r = 1, xt_time_exit = False,
     xt_time_exit_candles = 20\<rparr>"

record risk_manager =
  rm_config :: exit_tools
  rm_highest_price :: "string \<rightharpoonup> pyfloat"
  rm_lowest_price :: "string \<rightharpoonup> pyfloat"
  rm_partial_taken :: "string \<rightharpoonup> bool"
  rm_breakeven_set :: "string \<rightharpoonup> bool"
  rm_candles_elapsed :: "string \<rightharpoonup> int"
  rm_original_sl :: "string \<rightharpoonup> pyfloat"
  rm_original_risk :: "string \<rightharpoonup> pyfloat"

definition new_risk_manager :: "exit_tools \<Rightarrow> risk_manager" where
  "new_risk_manager cfg = \<lparr>rm_config = cfg, rm_highest_price = Map.empty, rm_lowest_price = Map.empty,
     rm_partial_taken = Map.empty, rm_breakeven_set = Map.empty, rm_candles_elapsed = Map.empty,
     rm_original_sl = Map.empty, rm_original_risk = Map.empty\<rparr>"

definition get_dflt :: "('k \<rightharpoonup> 'v) \<Rightarrow> 'k \<Rightarrow> 'v \<Rightarrow> 'v" where
  "get_dflt m k d = (case m k of None \<Rightarrow> d | Some v \<Rightarrow> v)"

definition current_profit :: "core_position \<Rightarrow> pyfloat \<Rightarrow> pyfloat" where
  "current_profit p price = (if cp_side p = BUY then price - cp_entry_price p else cp_entry_price p - price)"

definition calculate_trailing_sl :: "risk_manager \<Rightarrow> core_position \<Rightarrow> pyfloat \<Rightarrow> pyfloat option" where
  "calculate_trailing_sl m p price =
     (let cfg = rm_config m; i = cp_id p; original_risk = get_dflt (rm_original_risk m) i 0 in
      if xt_trailing_pct cfg > 0 then
        Some (if cp_side p = BUY then get_dflt (rm_highest_price m) i price * (1 - xt_trailing_pct cfg / 100)
              else get_dflt (rm_lowest_price m) i price * (1 + xt_trailing_pct cfg / 100))
      else if xt_trailing_atr_multiplier cfg > 0 \<and> original_risk > 0 then
        (let trail = original_risk * xt_trailing_atr_multiplier cfg in
         Some (if cp_side p = BUY then get_dflt (rm_highest_price m) i price - trail
               else get_dflt (rm_lowest_price m) i price + trail))
      else None)"

text \<open>The stop and the risk at the first encounter, and the extremes of the price.\<close>

definition note_entry :: "core_position \<Rightarrow> risk_manager \<Rightarrow> risk_manager" where
  "note_entry p m =
     (if rm_original_sl m (cp_id p) \<noteq> None then m
      else
        let entry = cp_entry_price p; sl = cp_stop_loss p;
            risk = (if cp_side p = BUY then (if sl > 0 then entry - sl else entry * (1/100))
                    else (if sl > 0 then sl - entry else entry * (1/100)))
        in m\<lparr>rm_original_sl := (rm_original_sl m)(cp_id p \<mapsto> sl), rm_original_risk := (rm_original_risk m)(cp_id p \<mapsto> risk)\<rparr>)"

definition note_extreme :: "core_position \<Rightarrow> pyfloat \<Rightarrow> risk_manager \<Rightarrow> risk_manager" where
  "note_extreme p price m =
     (if cp_side p = BUY
      then m\<lparr>rm_highest_price := (rm_highest_price m)(cp_id p \<mapsto> max (get_dflt (rm_highest_price m) (cp_id p) (cp_entry_price p)) price)\<rparr>
      else m\<lparr>rm_lowest_price := (rm_lowest_price m)(cp_id p \<mapsto> min (get_dflt (rm_lowest_price m) (cp_id p) (cp_entry_price p)) price)\<rparr>)"

definition breakeven_step :: "pyfloat \<Rightarrow> pyfloat \<Rightarrow> risk_manager \<times> core_position \<Rightarrow> risk_manager \<times> core_position" where
  "breakeven_step risk price mp =
     (case mp of (m, p) \<Rightarrow>
        let cfg = rm_config m; i = cp_id p in
        if xt_breakeven_after_1r cfg \<and> risk > 0 \<and> \<not> get_dflt (rm_breakeven_set m) i False \<and>
           current_profit p price \<ge> risk * xt_breakeven_trigger_r cfg
        then
          (let buffer = cp_entry_price p * (xt_breakeven_buffer_pct cfg / 100);
               new_sl = (if cp_side p = BUY then cp_entry_price p + buffer else cp_entry_price p - buffer)
           in if (if cp_side p = BUY then new_sl > cp_stop_loss p else new_sl < cp_stop_loss p)
              then (m\<lparr>rm_breakeven_set := (rm_breakeven_set m)(i \<mapsto> True)\<rparr>, p\<lparr>cp_stop_loss := new_sl\<rparr>)
              else (m, p))
        else (m, p))"

definition trailing_step :: "pyfloat \<Rightarrow> risk_manager \<times> core_position \<Rightarrow> risk_manager \<times> core_position" where
  "trailing_step price mp =
     (case mp of (m, p) \<Rightarrow>
        if xt_trailing_stop (rm_config m) then
          (case calculate_trailing_sl m p price of
             None \<Rightarrow> (m, p)
           | Some new_sl \<Rightarrow>
               if cp_side p = BUY \<and> new_sl > cp_stop_loss p then (m, p\<lparr>cp_stop_loss := new_sl\<rparr>)
               else if cp_side p = SELL \<and> new_sl < cp_stop_loss p then (m, p\<lparr>cp_stop_loss := new_sl\<rparr>)
               else (m, p))
        else (m, p))"

definition partial_step :: "pyfloat \<Rightarrow> pyfloat \<Rightarrow> risk_manager \<times> core_position \<Rightarrow> risk_manager \<times> core_position \<times> position_action" where
  "partial_step risk price mp =
     (case mp of (m, p) \<Rightarrow>
        let cfg = rm_config m; i = cp_id p in
        if xt_partial_profit_at_1r cfg \<and> risk > 0 \<and> \<not> get_dflt (rm_partial_taken m) i False \<and>
           current_profit p price \<ge> risk * xt_partial_trigger_r cfg
        then (m\<lparr>rm_partial_taken := (rm_partial_taken m)(i \<mapsto> True)\<rparr>, p, Act_PARTIAL_CLOSE)
        else (m, p, Act_HOLD))"

definition update_on_tick :: "core_position \<Rightarrow> pyfloat \<Rightarrow> risk_manager \<Rightarrow> risk_manager \<times> core_position \<times> position_action" where
  "update_on_tick p price m =
     (if \<not> cp_is_open p then (m, p, Act_HOLD)
      else
        let m = note_entry p m; risk = get_dflt (rm_original_risk m) (cp_id p) 0; m = note_extreme p price m
        in partial_step risk price (trailing_step price (breakeven_step risk price (m, p))))"

definition update_on_candle :: "core_position \<Rightarrow> risk_manager \<Rightarrow> risk_manager \<times> position_action" where
  "update_on_candle p m =
     (if \<not> cp_is_open p then (m, Act_HOLD)
      else if xt_time_exit (rm_config m) then
        (let elapsed = get_dflt (rm_candles_elapsed m) (cp_id p) 0 + 1;
             m = m\<lparr>rm_candles_elapsed := (rm_candles_elapsed m)(cp_id p \<mapsto> elapsed)\<rparr>
         in (m, if elapsed \<ge> xt_time_exit_candles (rm_config m) then Act_CLOSE else Act_HOLD))
      else (m, Act_HOLD))"

definition risk_cleanup :: "string \<Rightarrow> risk_manager \<Rightarrow> risk_manager" where
  "risk_cleanup i m = m\<lparr>rm_highest_price := (rm_highest_price m)(i := None), rm_lowest_price := (rm_lowest_price m)(i := None),
     rm_partial_taken := (rm_partial_taken m)(i := None), rm_breakeven_set := (rm_breakeven_set m)(i := None),
     rm_candles_elapsed := (rm_candles_elapsed m)(i := None), rm_original_sl := (rm_original_sl m)(i := None),
     rm_original_risk := (rm_original_risk m)(i := None)\<rparr>"

definition risk_reset_daily :: "risk_manager \<Rightarrow> risk_manager" where
  "risk_reset_daily m = new_risk_manager (rm_config m)"

subsection \<open>The stop only tightens\<close>

definition tighter :: "order_side \<Rightarrow> pyfloat \<Rightarrow> pyfloat \<Rightarrow> bool" where
  "tighter side new old \<longleftrightarrow> (case side of BUY \<Rightarrow> old \<le> new | SELL \<Rightarrow> new \<le> old)"

lemma tighter_refl [simp]: "tighter side x x"
  by (simp add: tighter_def split: order_side.split)

lemma tighter_trans: "tighter side a b \<Longrightarrow> tighter side b c \<Longrightarrow> tighter side a c"
  by (auto simp: tighter_def split: order_side.splits)

lemma breakeven_position:
  "\<exists>sl. snd (breakeven_step risk price (m, p)) = p\<lparr>cp_stop_loss := sl\<rparr> \<and> tighter (cp_side p) sl (cp_stop_loss p)"
  by (cases "cp_side p") (auto simp: breakeven_step_def tighter_def Let_def intro: exI[of _ "cp_stop_loss p"])

lemma trailing_position:
  "\<exists>sl. snd (trailing_step price (m, p)) = p\<lparr>cp_stop_loss := sl\<rparr> \<and> tighter (cp_side p) sl (cp_stop_loss p)"
  by (cases "cp_side p") (auto simp: trailing_step_def tighter_def intro: exI[of _ "cp_stop_loss p"] split: option.split)

lemma partial_position: "fst (snd (partial_step risk price (m, p))) = p"
  by (simp add: partial_step_def Let_def)

text \<open>A tick changes nothing of the position but its stop, and that only to the safer side.\<close>

lemma update_on_tick_position:
  "\<exists>sl. fst (snd (update_on_tick p price m)) = p\<lparr>cp_stop_loss := sl\<rparr> \<and> tighter (cp_side p) sl (cp_stop_loss p)"
proof (cases "cp_is_open p")
  case False
  then show ?thesis by (intro exI[of _ "cp_stop_loss p"]) (simp add: update_on_tick_def)
next
  case True
  let ?m = "note_extreme p price (note_entry p m)" and ?r = "get_dflt (rm_original_risk (note_entry p m)) (cp_id p) 0"
  obtain m1 p1 where b: "breakeven_step ?r price (?m, p) = (m1, p1)" by fastforce
  obtain m2 p2 where t: "trailing_step price (m1, p1) = (m2, p2)" by fastforce
  obtain sl1 where 1: "p1 = p\<lparr>cp_stop_loss := sl1\<rparr>" "tighter (cp_side p) sl1 (cp_stop_loss p)"
    using breakeven_position[of ?r price ?m p] b by auto
  obtain sl2 where 2: "p2 = p1\<lparr>cp_stop_loss := sl2\<rparr>" "tighter (cp_side p1) sl2 (cp_stop_loss p1)"
    using trailing_position[of price m1 p1] t by auto
  have "fst (snd (update_on_tick p price m)) = p2"
    using True b t by (simp add: update_on_tick_def Let_def partial_position)
  then show ?thesis using 1 2 tighter_trans by (intro exI[of _ sl2]) auto
qed

text \<open>
  A short without a stop keeps none: its stop is 0, and every level it could move to is above that.
\<close>

lemma short_without_stop_unprotected:
  assumes "cp_side p = SELL" "cp_stop_loss p = 0" "0 < cp_entry_price p" "0 \<le> price"
    and "\<And>x. rm_lowest_price m (cp_id p) = Some x \<Longrightarrow> 0 \<le> x" "rm_original_sl m (cp_id p) = None"
    and "0 \<le> xt_breakeven_buffer_pct (rm_config m)" "xt_breakeven_buffer_pct (rm_config m) \<le> 100"
  shows "cp_stop_loss (fst (snd (update_on_tick p price m))) = 0"
proof -
  let ?m = "note_extreme p price (note_entry p m)" and ?r = "get_dflt (rm_original_risk (note_entry p m)) (cp_id p) 0"
  have cfg: "rm_config ?m = rm_config m" by (simp add: note_extreme_def note_entry_def Let_def)
  have "cp_entry_price p * (xt_breakeven_buffer_pct (rm_config m) / 100) \<le> cp_entry_price p * 1"
    using assms(3,8) by (intro mult_left_mono) auto
  then have b: "breakeven_step ?r price (?m, p) = (?m, p)"
    using assms(1,2) cfg by (simp add: breakeven_step_def Let_def)
  have low: "0 \<le> get_dflt (rm_lowest_price ?m) (cp_id p) price"
    using assms(1,3,4,5) by (auto simp: note_extreme_def note_entry_def get_dflt_def Let_def split: option.split)
  have risk: "0 \<le> get_dflt (rm_original_risk ?m) (cp_id p) 0"
    using assms(1,2,3,6) by (simp add: note_extreme_def note_entry_def get_dflt_def)
  have "0 \<le> sl" if "calculate_trailing_sl ?m p price = Some sl" for sl
    using that low risk assms(1) by (auto simp: calculate_trailing_sl_def Let_def split: if_splits)
  then have "snd (trailing_step price (?m, p)) = p"
    using assms(1,2) by (auto simp: trailing_step_def split: option.split)
  then show ?thesis
    using assms(2) b by (auto simp: update_on_tick_def Let_def partial_step_def case_prod_unfold)
qed

subsection \<open>Partial profits once, time exits on time\<close>

lemma partial_once:
  assumes "snd (snd (update_on_tick p price m)) = Act_PARTIAL_CLOSE"
  shows "rm_partial_taken m (cp_id p) \<noteq> Some True" "rm_partial_taken (fst (update_on_tick p price m)) (cp_id p) = Some True"
proof -
  let ?m = "note_extreme p price (note_entry p m)" and ?r = "get_dflt (rm_original_risk (note_entry p m)) (cp_id p) 0"
  obtain m1 p1 where b: "breakeven_step ?r price (?m, p) = (m1, p1)" by fastforce
  obtain m2 p2 where t: "trailing_step price (m1, p1) = (m2, p2)" by fastforce
  have same: "rm_partial_taken m2 = rm_partial_taken m" "cp_id p2 = cp_id p"
    using b t by (auto simp: breakeven_step_def trailing_step_def note_extreme_def note_entry_def Let_def
        split: if_splits option.splits)
  have u: "update_on_tick p price m = partial_step ?r price (m2, p2)"
    using assms b t by (auto simp: update_on_tick_def Let_def split: if_splits)
  show "rm_partial_taken m (cp_id p) \<noteq> Some True" "rm_partial_taken (fst (update_on_tick p price m)) (cp_id p) = Some True"
    using assms same unfolding u by (auto simp: partial_step_def get_dflt_def Let_def split: if_splits option.splits)
qed

fun candle_updates :: "nat \<Rightarrow> core_position \<Rightarrow> risk_manager \<Rightarrow> risk_manager \<times> position_action list" where
  "candle_updates 0 p m = (m, [])"
| "candle_updates (Suc n) p m =
     (let (m1, a) = update_on_candle p m; (m2, as) = candle_updates n p m1 in (m2, a # as))"

text \<open>A position that stays open is closed by the candle at which it has lived its limit, and not before.\<close>

lemma time_exit_on_time:
  assumes "cp_is_open p" "xt_time_exit (rm_config m)"
  shows "snd (candle_updates n p m) =
    List.map (\<lambda>i. if get_dflt (rm_candles_elapsed m) (cp_id p) 0 + int i \<ge> xt_time_exit_candles (rm_config m) then Act_CLOSE else Act_HOLD)
      [1 ..< Suc n]"
  using assms
proof (induction n arbitrary: m)
  case (Suc n)
  let ?e = "get_dflt (rm_candles_elapsed m) (cp_id p) 0"
  let ?m = "m\<lparr>rm_candles_elapsed := (rm_candles_elapsed m)(cp_id p \<mapsto> ?e + 1)\<rparr>"
  have u: "update_on_candle p m = (?m, if ?e + 1 \<ge> xt_time_exit_candles (rm_config m) then Act_CLOSE else Act_HOLD)"
    using Suc.prems by (simp add: update_on_candle_def Let_def)
  have "[1 ..< Suc (Suc n)] = 1 # List.map Suc [1 ..< Suc n]" by (simp add: upt_conv_Cons map_Suc_upt del: upt_Suc)
  moreover have "snd (candle_updates n p ?m) =
      List.map (\<lambda>i. if ?e + 1 + int i \<ge> xt_time_exit_candles (rm_config m) then Act_CLOSE else Act_HOLD) [1 ..< Suc n]"
    using Suc.IH[of ?m] Suc.prems by (simp add: get_dflt_def del: upt_Suc)
  ultimately show ?case
    by (simp add: u Let_def case_prod_unfold comp_def algebra_simps del: upt_Suc)
qed simp

end
