(* ===== verification/Equity_Paper.thy ===== *)
theory Equity_Paper
  imports Market_Hours
begin

section \<open>The equity paper trader\<close>

text \<open>
  \<open>app/paper_trader/engine.py\<close> with \<open>Signal\<close> and \<open>PaperOrder\<close> of \<open>core/models.py\<close>. A trader is
  its configuration and its lists of orders and positions; the events it emits are appended to a
  log. Arguments: wall seconds and the local wall clock of the call, the random slippage in
  \<open>[0, 1]\<close>, the generated identifiers, and \<open>fmt\<close>, which formats a price in a reason.
\<close>

datatype signal_type = Signal_BUY | Signal_SELL

record trade_signal =
  sg_type :: signal_type
  sg_exchange :: string
  sg_segment :: string
  sg_token :: string
  sg_price :: pyfloat
  sg_ms :: pyfloat
  sg_strategy_name :: string
  sg_reason :: string
  sg_stop_loss :: "pyfloat option"
  sg_take_profit :: "pyfloat option"

record paper_order =
  or_id :: string
  or_side :: order_side
  or_exchange :: string
  or_segment :: string
  or_token :: string
  or_quantity :: int
  or_price :: pyfloat
  or_ms :: pyfloat
  or_strategy_name :: string
  or_signal_reason :: string

datatype paper_event = Order_Event paper_order | Open_Event core_position | Close_Event core_position

record paper_trader =
  pt_max_open_positions :: int
  pt_allow_multiple :: bool
  pt_starting_balance :: pyfloat
  pt_position_size_pct :: pyfloat
  pt_slippage_pct :: pyfloat
  pt_brokerage_pct :: pyfloat
  pt_signal_cooldown :: pyfloat
  pt_orders :: "paper_order list"
  pt_positions :: "core_position list"
  pt_last_signal_time :: "string \<rightharpoonup> pyfloat"
  pt_latest_prices :: "string \<rightharpoonup> pyfloat"
  pt_running :: bool
  pt_events :: "paper_event list"

definition new_paper_trader :: "int \<Rightarrow> bool \<Rightarrow> pyfloat \<Rightarrow> pyfloat \<Rightarrow> pyfloat \<Rightarrow> pyfloat \<Rightarrow> pyfloat \<Rightarrow> paper_trader" where
  "new_paper_trader max_open multiple balance size_pct slippage brokerage cooldown =
     \<lparr>pt_max_open_positions = max_open, pt_allow_multiple = multiple, pt_starting_balance = balance,
      pt_position_size_pct = size_pct, pt_slippage_pct = slippage, pt_brokerage_pct = brokerage,
      pt_signal_cooldown = cooldown, pt_orders = [], pt_positions = [], pt_last_signal_time = Map.empty,
      pt_latest_prices = Map.empty, pt_running = False, pt_events = []\<rparr>"

definition start_trader :: "paper_trader \<Rightarrow> paper_trader" where
  "start_trader s = s\<lparr>pt_running := True\<rparr>"

definition stop_trader :: "paper_trader \<Rightarrow> paper_trader" where
  "stop_trader s = s\<lparr>pt_running := False\<rparr>"

definition trader_open_positions :: "paper_trader \<Rightarrow> core_position list" where
  "trader_open_positions s = filter cp_is_open (pt_positions s)"

definition closed_positions :: "paper_trader \<Rightarrow> core_position list" where
  "closed_positions s = filter (\<lambda>p. \<not> cp_is_open p) (pt_positions s)"

definition paper_total_pnl :: "paper_trader \<Rightarrow> pyfloat" where
  "paper_total_pnl s = (\<Sum>p \<leftarrow> closed_positions s. cp_pnl p)"

definition paper_unrealized_pnl :: "paper_trader \<Rightarrow> pyfloat" where
  "paper_unrealized_pnl s =
     (\<Sum>p \<leftarrow> trader_open_positions s. case pt_latest_prices s (cp_token p) of
        None \<Rightarrow> 0
      | Some price \<Rightarrow> (if cp_side p = BUY then price - cp_entry_price p else cp_entry_price p - price) * of_int (cp_quantity p))"

definition get_position_for_instrument :: "paper_trader \<Rightarrow> string \<Rightarrow> core_position option" where
  "get_position_for_instrument s token = List.find (\<lambda>p. cp_token p = token) (trader_open_positions s)"

subsection \<open>Costs and sizes\<close>

definition apply_slippage :: "pyfloat \<Rightarrow> paper_trader \<Rightarrow> pyfloat \<Rightarrow> signal_type \<Rightarrow> pyfloat" where
  "apply_slippage u s price st =
     (let slippage = price * (pt_slippage_pct s / 100) * u
      in if st = Signal_BUY then price + slippage else price - slippage)"

definition apply_brokerage :: "paper_trader \<Rightarrow> pyfloat \<Rightarrow> pyfloat \<Rightarrow> pyfloat \<Rightarrow> int \<Rightarrow> pyfloat" where
  "apply_brokerage s pnl entry xprice q =
     (let turnover = entry * of_int q + xprice * of_int q in pnl - turnover * (pt_brokerage_pct s / 100))"

definition calculate_quantity :: "paper_trader \<Rightarrow> pyfloat \<Rightarrow> int" where
  "calculate_quantity s price =
     (if price \<le> 0 then 0
      else
        let current_balance = pt_starting_balance s + paper_total_pnl s;
            allocation = current_balance * (pt_position_size_pct s / 100)
        in max (py_int (allocation / price)) 0)"

subsection \<open>Closing\<close>

text \<open>\<open>_close_position\<close> on the position: \<open>Position.close\<close>, the brokerage and the percentage.\<close>

definition close_paper :: "paper_trader \<Rightarrow> core_position \<Rightarrow> pyfloat \<Rightarrow> pyfloat \<Rightarrow> string \<Rightarrow> core_position outcome" where
  "close_paper s p xprice ms reason =
     seq (position_close p xprice ms reason) (\<lambda>p1.
       let p2 = p1\<lparr>cp_pnl := apply_brokerage s (cp_pnl p1) (cp_entry_price p1) xprice (cp_quantity p1)\<rparr>
       in if cp_entry_price p2 > 0 then
            (if cp_quantity p2 = 0 then raises ZeroDivisionError p2
             else returns (p2\<lparr>cp_pnl_pct := (cp_pnl p2 / (cp_entry_price p2 * of_int (cp_quantity p2))) * 100\<rparr>))
          else returns p2)"

text \<open>
  A loop over the open positions that closes those for which \<open>exit_of\<close> names a price and a reason.
  It leaves at the first exception, with the positions mutated so far.
\<close>

fun close_loop ::
  "paper_trader \<Rightarrow> (core_position \<Rightarrow> (pyfloat \<times> string) option) \<Rightarrow> pyfloat \<Rightarrow> core_position list \<Rightarrow>
   (core_position list \<times> paper_event list) \<times> py_exn option" where
  "close_loop s exit_of ms [] = (([], []), None)"
| "close_loop s exit_of ms (p # ps) =
     (if \<not> cp_is_open p then (case close_loop s exit_of ms ps of ((qs, ev), e) \<Rightarrow> ((p # qs, ev), e))
      else case exit_of p of
        None \<Rightarrow> (case close_loop s exit_of ms ps of ((qs, ev), e) \<Rightarrow> ((p # qs, ev), e))
      | Some (x, reason) \<Rightarrow>
          (case close_paper s p x ms reason of
             (q, Some e) \<Rightarrow> ((q # ps, []), Some e)
           | (q, None) \<Rightarrow> (case close_loop s exit_of ms ps of ((qs, ev), e) \<Rightarrow> ((q # qs, Close_Event q # ev), e))))"

definition close_matching ::
  "(core_position \<Rightarrow> (pyfloat \<times> string) option) \<Rightarrow> pyfloat \<Rightarrow> paper_trader \<Rightarrow> paper_trader outcome" where
  "close_matching exit_of ms s =
     (case close_loop s exit_of ms (pt_positions s) of
        ((qs, ev), e) \<Rightarrow> (s\<lparr>pt_positions := qs, pt_events := pt_events s @ ev\<rparr>, e))"

subsection \<open>Ticks\<close>

definition update_excursion_eq :: "tick \<Rightarrow> core_position \<Rightarrow> core_position" where
  "update_excursion_eq t p =
     (if cp_is_open p \<and> cp_token p = tk_token t then
        (if cp_side p = BUY then
           (let p = (if ltp t > cp_max_favorable_price p then p\<lparr>cp_max_favorable_price := ltp t\<rparr> else p)
            in if cp_max_adverse_price p = 0 \<or> ltp t < cp_max_adverse_price p then p\<lparr>cp_max_adverse_price := ltp t\<rparr> else p)
         else
           (let p = (if cp_max_favorable_price p = 0 \<or> ltp t < cp_max_favorable_price p
                     then p\<lparr>cp_max_favorable_price := ltp t\<rparr> else p)
            in if ltp t > cp_max_adverse_price p then p\<lparr>cp_max_adverse_price := ltp t\<rparr> else p))
      else p)"

definition stop_reached :: "pyfloat \<Rightarrow> core_position \<Rightarrow> bool" where
  "stop_reached price p \<longleftrightarrow> cp_stop_loss p > 0 \<and> (if cp_side p = BUY then price \<le> cp_stop_loss p else price \<ge> cp_stop_loss p)"

definition profit_reached :: "pyfloat \<Rightarrow> core_position \<Rightarrow> bool" where
  "profit_reached price p \<longleftrightarrow> cp_take_profit p > 0 \<and> (if cp_side p = BUY then price \<ge> cp_take_profit p else price \<le> cp_take_profit p)"

definition sl_tp_exit :: "(pyfloat \<Rightarrow> string) \<Rightarrow> tick \<Rightarrow> core_position \<Rightarrow> (pyfloat \<times> string) option" where
  "sl_tp_exit fmt t p =
     (if cp_token p \<noteq> tk_token t then None
      else if stop_reached (ltp t) p then Some (cp_stop_loss p, ''Stop-loss hit @ '' @ fmt (cp_stop_loss p))
      else if profit_reached (ltp t) p then Some (cp_take_profit p, ''Take-profit hit @ '' @ fmt (cp_take_profit p))
      else None)"

definition check_sl_tp :: "(pyfloat \<Rightarrow> string) \<Rightarrow> tick \<Rightarrow> paper_trader \<Rightarrow> paper_trader outcome" where
  "check_sl_tp fmt t s = close_matching (sl_tp_exit fmt t) (tk_ms t) s"

definition trader_on_tick :: "(pyfloat \<Rightarrow> string) \<Rightarrow> tick \<Rightarrow> paper_trader \<Rightarrow> paper_trader outcome" where
  "trader_on_tick fmt t s =
     (let s = s\<lparr>pt_latest_prices := (pt_latest_prices s)(tk_token t \<mapsto> ltp t),
                pt_positions := List.map (update_excursion_eq t) (pt_positions s)\<rparr>
      in if pt_running s then check_sl_tp fmt t s else returns s)"

subsection \<open>Signals\<close>

definition side_of :: "signal_type \<Rightarrow> order_side" where
  "side_of st = (if st = Signal_BUY then BUY else SELL)"

definition find_opposing_position :: "trade_signal \<Rightarrow> paper_trader \<Rightarrow> core_position option" where
  "find_opposing_position sig s =
     List.find (\<lambda>p. cp_is_open p \<and> cp_token p = sg_token sig \<and>
       (sg_type sig = Signal_BUY \<and> cp_side p = SELL \<or> sg_type sig = Signal_SELL \<and> cp_side p = BUY)) (pt_positions s)"

definition can_open_position :: "trade_signal \<Rightarrow> paper_trader \<Rightarrow> bool" where
  "can_open_position sig s =
     (if pt_max_open_positions s > 0 \<and> int (length (trader_open_positions s)) \<ge> pt_max_open_positions s then False
      else if list_ex (\<lambda>p. cp_is_open p \<and> cp_token p = sg_token sig \<and> cp_strategy_name p = sg_strategy_name sig \<and>
                cp_side p = side_of (sg_type sig)) (pt_positions s) then False
      else if \<not> pt_allow_multiple s \<and>
              list_ex (\<lambda>p. cp_is_open p \<and> cp_token p = sg_token sig \<and> cp_side p = side_of (sg_type sig)) (pt_positions s)
      then False
      else True)"

definition or_zero :: "pyfloat option \<Rightarrow> pyfloat" where
  "or_zero x = (case x of None \<Rightarrow> 0 | Some v \<Rightarrow> v)"

definition order_of :: "string \<Rightarrow> trade_signal \<Rightarrow> int \<Rightarrow> pyfloat \<Rightarrow> paper_order" where
  "order_of i sig q price =
     \<lparr>or_id = i, or_side = side_of (sg_type sig), or_exchange = sg_exchange sig, or_segment = sg_segment sig,
      or_token = sg_token sig, or_quantity = q, or_price = price, or_ms = sg_ms sig,
      or_strategy_name = sg_strategy_name sig, or_signal_reason = sg_reason sig\<rparr>"

definition position_of :: "string \<Rightarrow> trade_signal \<Rightarrow> int \<Rightarrow> pyfloat \<Rightarrow> core_position" where
  "position_of i sig q price =
     \<lparr>cp_id = i, cp_exchange = sg_exchange sig, cp_segment = sg_segment sig, cp_token = sg_token sig,
      cp_side = side_of (sg_type sig), cp_quantity = q, cp_entry_price = price, cp_entry_time_ms = sg_ms sig,
      cp_strategy_name = sg_strategy_name sig, cp_status = Pos_OPEN, cp_exit_price = 0, cp_exit_time_ms = 0,
      cp_pnl = 0, cp_pnl_pct = 0, cp_close_reason = '''', cp_stop_loss = or_zero (sg_stop_loss sig),
      cp_take_profit = or_zero (sg_take_profit sig), cp_max_favorable_price = price, cp_max_adverse_price = price\<rparr>"

definition open_position :: "string \<times> string \<Rightarrow> trade_signal \<Rightarrow> pyfloat \<Rightarrow> paper_trader \<Rightarrow> paper_trader" where
  "open_position ids sig price s =
     (let q = calculate_quantity s price in
      if q \<le> 0 then s
      else
        let ord = order_of (fst ids) sig q price; pos = position_of (snd ids) sig q price
        in s\<lparr>pt_orders := pt_orders s @ [ord], pt_positions := pt_positions s @ [pos],
             pt_events := pt_events s @ [Order_Event ord, Open_Event pos]\<rparr>)"

definition trader_on_signal ::
  "pyfloat \<Rightarrow> pyfloat \<Rightarrow> pyfloat \<Rightarrow> string \<times> string \<Rightarrow> trade_signal \<Rightarrow> paper_trader \<Rightarrow> paper_trader" where
  "trader_on_signal now_s n u ids sig s =
     (if \<not> pt_running s then s
      else if pt_signal_cooldown s > 0 \<and>
              now_s - (case pt_last_signal_time s (sg_token sig) of None \<Rightarrow> 0 | Some x \<Rightarrow> x) < pt_signal_cooldown s then s
      else
        let s = (if pt_signal_cooldown s > 0
                 then s\<lparr>pt_last_signal_time := (pt_last_signal_time s)(sg_token sig \<mapsto> now_s)\<rparr> else s);
            price = apply_slippage u s (sg_price sig) (sg_type sig)
        in if \<not> nse_can_open_new_position n then s
           else if \<not> can_open_position sig s then s
           else open_position ids sig price s)"

subsection \<open>Square-off\<close>

definition square_off_exit :: "paper_trader \<Rightarrow> core_position \<Rightarrow> (pyfloat \<times> string) option" where
  "square_off_exit s p =
     (case pt_latest_prices s (cp_token p) of
        Some price \<Rightarrow> if price \<noteq> 0 then Some (price, ''Auto square-off (market closing at 3:20 PM)'')
                      else Some (cp_entry_price p, ''Auto square-off (market closing, no live price)'')
      | None \<Rightarrow> Some (cp_entry_price p, ''Auto square-off (market closing, no live price)''))"

definition check_square_off :: "pyfloat \<Rightarrow> pyfloat \<Rightarrow> paper_trader \<Rightarrow> paper_trader outcome" where
  "check_square_off n now_ms s =
     (if \<not> pt_running s then returns s
      else if should_square_off n \<and> trader_open_positions s \<noteq> [] then close_matching (square_off_exit s) now_ms s
      else returns s)"


subsection \<open>What closing does\<close>

definition paper_pos_ok :: "core_position \<Rightarrow> bool" where
  "paper_pos_ok p \<longleftrightarrow> 0 < cp_quantity p \<and> 0 < cp_entry_price p"

definition gross_pnl :: "core_position \<Rightarrow> pyfloat \<Rightarrow> pyfloat" where
  "gross_pnl p x = (if cp_side p = BUY then x - cp_entry_price p else cp_entry_price p - x) * of_int (cp_quantity p)"

lemma close_paper_ok:
  assumes "paper_pos_ok p"
  shows "snd (close_paper s p x ms r) = None"
    "cp_is_open (fst (close_paper s p x ms r)) \<longleftrightarrow> False"
    "cp_pnl (fst (close_paper s p x ms r)) =
       gross_pnl p x - (cp_entry_price p + x) * of_int (cp_quantity p) * (pt_brokerage_pct s / 100)"
    "cp_exit_price (fst (close_paper s p x ms r)) = x"
    "paper_pos_ok (fst (close_paper s p x ms r))"
  using assms
  by (auto simp: close_paper_def position_close_def paper_pos_ok_def gross_pnl_def apply_brokerage_def cp_is_open_def
      Let_def algebra_simps)

text \<open>On sound positions the loop is a map, and nothing raises.\<close>

definition close_if :: "paper_trader \<Rightarrow> (core_position \<Rightarrow> (pyfloat \<times> string) option) \<Rightarrow> pyfloat \<Rightarrow> core_position \<Rightarrow> core_position" where
  "close_if s exit_of ms p =
     (if cp_is_open p then (case exit_of p of None \<Rightarrow> p | Some (x, r) \<Rightarrow> fst (close_paper s p x ms r)) else p)"

lemma close_loop_map:
  assumes "list_all paper_pos_ok ps"
  shows "snd (close_loop s exit_of ms ps) = None \<and> fst (fst (close_loop s exit_of ms ps)) = List.map (close_if s exit_of ms) ps"
  using assms
proof (induction ps)
  case (Cons p ps)
  then have IH: "snd (close_loop s exit_of ms ps) = None" "fst (fst (close_loop s exit_of ms ps)) = List.map (close_if s exit_of ms) ps"
    and p: "paper_pos_ok p" by simp_all
  show ?case
  proof (cases "cp_is_open p \<and> exit_of p \<noteq> None")
    case True
    then obtain x r where e: "exit_of p = Some (x, r)" by fastforce
    obtain q where q: "close_paper s p x ms r = (q, None)"
      using close_paper_ok(1)[OF p, of s x ms r] by (cases "close_paper s p x ms r") simp
    show ?thesis using True IH e q by (simp add: close_if_def case_prod_unfold)
  next
    case False
    then show ?thesis using IH by (cases "exit_of p"; cases "cp_is_open p") (simp_all add: close_if_def case_prod_unfold)
  qed
qed simp

lemma close_matching_map:
  assumes "list_all paper_pos_ok (pt_positions s)"
  shows "snd (close_matching exit_of ms s) = None"
    "pt_positions (fst (close_matching exit_of ms s)) = List.map (close_if s exit_of ms) (pt_positions s)"
  using close_loop_map[OF assms, of s exit_of ms] by (simp_all add: close_matching_def case_prod_unfold)

lemma close_matching_fields [simp]:
  "pt_max_open_positions (fst (close_matching exit_of ms s)) = pt_max_open_positions s"
  "pt_allow_multiple (fst (close_matching exit_of ms s)) = pt_allow_multiple s"
  "pt_running (fst (close_matching exit_of ms s)) = pt_running s"
  "pt_brokerage_pct (fst (close_matching exit_of ms s)) = pt_brokerage_pct s"
  by (simp_all add: close_matching_def case_prod_unfold)

subsection \<open>The invariant\<close>

definition slot_of :: "core_position \<Rightarrow> string \<times> string \<times> order_side" where
  "slot_of p = (cp_token p, cp_strategy_name p, cp_side p)"

definition lane_of :: "core_position \<Rightarrow> string \<times> order_side" where
  "lane_of p = (cp_token p, cp_side p)"

definition trader_ok :: "paper_trader \<Rightarrow> bool" where
  "trader_ok s \<longleftrightarrow> list_all paper_pos_ok (pt_positions s) \<and> distinct (List.map slot_of (trader_open_positions s)) \<and>
     (pt_allow_multiple s \<or> distinct (List.map lane_of (trader_open_positions s))) \<and>
     (pt_max_open_positions s \<le> 0 \<or> int (length (trader_open_positions s)) \<le> pt_max_open_positions s)"

text \<open>
  Whatever keeps the order of the positions, their identity and their soundness, and opens none,
  keeps the invariant.
\<close>

lemma filter_map_sublist:
  assumes "\<And>p. p \<in> set ps \<Longrightarrow> cp_is_open (f p) \<Longrightarrow> cp_is_open p" "\<And>p. p \<in> set ps \<Longrightarrow> cp_is_open (f p) \<Longrightarrow> g (f p) = g p"
  shows "\<exists>P. List.map g (filter cp_is_open (List.map f ps)) = List.map g (filter (\<lambda>p. P p) (filter cp_is_open ps))"
proof (intro exI[of _ "\<lambda>p. cp_is_open (f p)"])
  show "List.map g (filter cp_is_open (List.map f ps)) = List.map g (filter (\<lambda>p. cp_is_open (f p)) (filter cp_is_open ps))"
    using assms by (induction ps) auto
qed

lemma trader_ok_map:
  assumes ok: "trader_ok s" and ps: "pt_positions s' = List.map f (pt_positions s)"
    and f: "\<And>p. paper_pos_ok p \<Longrightarrow> paper_pos_ok (f p)" "\<And>p. paper_pos_ok p \<Longrightarrow> cp_is_open (f p) \<Longrightarrow> cp_is_open p"
      "\<And>p. paper_pos_ok p \<Longrightarrow> cp_is_open (f p) \<Longrightarrow> slot_of (f p) = slot_of p"
    and cfg: "pt_max_open_positions s' = pt_max_open_positions s" "pt_allow_multiple s' = pt_allow_multiple s"
  shows "trader_ok s'"
proof -
  have pos: "paper_pos_ok p" if "p \<in> set (pt_positions s)" for p
    using ok that by (auto simp: trader_ok_def list_all_iff)
  have lane: "lane_of (f p) = lane_of p" if "p \<in> set (pt_positions s)" "cp_is_open (f p)" for p
    using f(3)[OF pos[OF that(1)] that(2)] by (simp add: slot_of_def lane_of_def)
  have sub: "\<exists>P. List.map g (trader_open_positions s') = List.map g (filter P (trader_open_positions s))"
    if "\<And>p. p \<in> set (pt_positions s) \<Longrightarrow> cp_is_open (f p) \<Longrightarrow> g (f p) = g p" for g :: "core_position \<Rightarrow> 'b"
    unfolding trader_open_positions_def ps using filter_map_sublist[of "pt_positions s" f g] f(2) pos that by blast
  obtain P where P: "List.map slot_of (trader_open_positions s') = List.map slot_of (filter P (trader_open_positions s))"
    using sub[of slot_of] f(3) pos by blast
  obtain Q where Q: "List.map lane_of (trader_open_positions s') = List.map lane_of (filter Q (trader_open_positions s))"
    using sub[of lane_of] lane by blast
  have len: "length (trader_open_positions s') \<le> length (trader_open_positions s)"
    using P length_filter_le[of P "trader_open_positions s"] by (metis length_map)
  have "list_all paper_pos_ok (pt_positions s')" using f(1) pos unfolding ps by (auto simp: list_all_iff)
  moreover have "distinct (List.map slot_of (trader_open_positions s'))"
    using ok unfolding P trader_ok_def by (simp add: distinct_map_filter)
  moreover have "pt_allow_multiple s' \<or> distinct (List.map lane_of (trader_open_positions s'))"
    using ok unfolding Q cfg trader_ok_def by (auto simp: distinct_map_filter)
  ultimately show ?thesis using ok len unfolding trader_ok_def cfg by auto
qed

lemma close_if_keeps:
  "paper_pos_ok p \<Longrightarrow> paper_pos_ok (close_if s exit_of ms p)"
  "cp_is_open (close_if s exit_of ms p) \<Longrightarrow> cp_is_open p"
  by (auto simp: close_if_def close_paper_ok split: option.split if_splits)

lemma close_if_open: "paper_pos_ok p \<Longrightarrow> cp_is_open (close_if s exit_of ms p) \<Longrightarrow> close_if s exit_of ms p = p"
  by (auto simp: close_if_def close_paper_ok split: option.splits if_splits)

lemma trader_ok_close:
  assumes "trader_ok s"
  shows "trader_ok (fst (close_matching exit_of ms s))" "snd (close_matching exit_of ms s) = None"
proof -
  have ps: "list_all paper_pos_ok (pt_positions s)" using assms by (simp add: trader_ok_def)
  show "snd (close_matching exit_of ms s) = None" by (rule close_matching_map(1)[OF ps])
  show "trader_ok (fst (close_matching exit_of ms s))"
  proof (rule trader_ok_map[OF assms close_matching_map(2)[OF ps]])
    fix p assume p: "paper_pos_ok p"
    then show "paper_pos_ok (close_if s exit_of ms p)" by (rule close_if_keeps(1))
    assume still: "cp_is_open (close_if s exit_of ms p)"
    then show "cp_is_open p" by (rule close_if_keeps(2))
    show "slot_of (close_if s exit_of ms p) = slot_of p" by (simp only: close_if_open[OF p still])
  qed simp_all
qed

lemma excursion_keeps:
  "cp_is_open (update_excursion_eq t p) = cp_is_open p" "slot_of (update_excursion_eq t p) = slot_of p"
  "paper_pos_ok (update_excursion_eq t p) = paper_pos_ok p" "stop_reached x (update_excursion_eq t p) = stop_reached x p"
  "profit_reached x (update_excursion_eq t p) = profit_reached x p" "cp_token (update_excursion_eq t p) = cp_token p"
  by (simp_all add: update_excursion_eq_def slot_of_def paper_pos_ok_def stop_reached_def profit_reached_def cp_is_open_def Let_def)

lemma trader_ok_fields:
  "pt_positions s' = pt_positions s \<Longrightarrow> pt_max_open_positions s' = pt_max_open_positions s \<Longrightarrow>
   pt_allow_multiple s' = pt_allow_multiple s \<Longrightarrow> trader_ok s \<Longrightarrow> trader_ok s'"
  by (simp add: trader_ok_def trader_open_positions_def)

lemma trader_ok_tick:
  assumes "trader_ok s"
  shows "trader_ok (fst (trader_on_tick fmt t s))" "snd (trader_on_tick fmt t s) = None"
proof -
  let ?s = "s\<lparr>pt_latest_prices := (pt_latest_prices s)(tk_token t \<mapsto> ltp t),
      pt_positions := List.map (update_excursion_eq t) (pt_positions s)\<rparr>"
  have "trader_ok ?s" by (rule trader_ok_map[OF assms, where f = "update_excursion_eq t"]) (simp_all add: excursion_keeps)
  then show "trader_ok (fst (trader_on_tick fmt t s))" "snd (trader_on_tick fmt t s) = None"
    by (simp_all add: trader_on_tick_def check_sl_tp_def trader_ok_close Let_def)
qed

lemma trader_ok_square_off:
  assumes "trader_ok s"
  shows "trader_ok (fst (check_square_off n ms s))" "snd (check_square_off n ms s) = None"
  using assms by (simp_all add: check_square_off_def trader_ok_close)

lemma calculate_quantity_pos: "0 < calculate_quantity s price \<Longrightarrow> 0 < price"
  by (auto simp: calculate_quantity_def split: if_splits)

lemma trader_ok_open:
  assumes ok: "trader_ok s" and can: "can_open_position sig s"
  shows "trader_ok (open_position ids sig price s)"
proof (cases "calculate_quantity s price \<le> 0")
  case False
  let ?q = "calculate_quantity s price" and ?p = "position_of (snd ids) sig (calculate_quantity s price) price"
  let ?s = "open_position ids sig price s"
  have q: "0 < ?q" using False by simp
  have p: "paper_pos_ok ?p" "cp_is_open ?p" using q calculate_quantity_pos[OF q]
    by (simp_all add: paper_pos_ok_def position_of_def cp_is_open_def)
  have ps: "pt_positions ?s = pt_positions s @ [?p]" and cfg: "pt_allow_multiple ?s = pt_allow_multiple s"
      "pt_max_open_positions ?s = pt_max_open_positions s"
    using False by (simp_all add: open_position_def Let_def)
  have open': "trader_open_positions ?s = trader_open_positions s @ [?p]" using p(2) unfolding trader_open_positions_def ps by simp
  have slot: "slot_of ?p \<notin> slot_of ` set (trader_open_positions s)"
    using can by (auto simp: can_open_position_def list_ex_iff slot_of_def position_of_def trader_open_positions_def split: if_splits)
  have lane: "pt_allow_multiple s \<or> lane_of ?p \<notin> lane_of ` set (trader_open_positions s)"
    using can by (auto simp: can_open_position_def list_ex_iff lane_of_def position_of_def trader_open_positions_def split: if_splits)
  have len: "pt_max_open_positions s \<le> 0 \<or> int (length (trader_open_positions s)) < pt_max_open_positions s"
    using can by (auto simp: can_open_position_def split: if_splits)
  show ?thesis using ok p(1) slot lane len unfolding trader_ok_def open' ps cfg by auto
qed (use ok in \<open>simp add: open_position_def Let_def\<close>)

lemma trader_ok_signal:
  assumes "trader_ok s"
  shows "trader_ok (trader_on_signal now_s n u ids sig s)"
proof -
  have "trader_ok (s\<lparr>pt_last_signal_time := m\<rparr>)" for m by (rule trader_ok_fields[OF _ _ _ assms]) simp_all
  then show ?thesis using assms by (simp add: trader_on_signal_def trader_ok_open Let_def)
qed

lemma trader_ok_new: "trader_ok (new_paper_trader max_open multiple balance size_pct slippage brokerage cooldown)"
  by (auto simp: trader_ok_def new_paper_trader_def trader_open_positions_def)

inductive trader_step :: "paper_trader \<Rightarrow> paper_trader \<Rightarrow> bool" where
  Start: "trader_step s (start_trader s)"
| Stop: "trader_step s (stop_trader s)"
| Tick: "trader_step s (fst (trader_on_tick fmt t s))"
| Signal: "trader_step s (trader_on_signal now_s n u ids sig s)"
| Square_Off: "trader_step s (fst (check_square_off n ms s))"

inductive trader_reachable :: "paper_trader \<Rightarrow> bool" where
  init: "trader_reachable (new_paper_trader max_open multiple balance size_pct slippage brokerage cooldown)"
| step: "trader_reachable s \<Longrightarrow> trader_step s s' \<Longrightarrow> trader_reachable s'"

lemma trader_reachable_ok: "trader_reachable s \<Longrightarrow> trader_ok s"
proof (induction rule: trader_reachable.induct)
  case (step s s')
  from step.hyps(2) step.IH show ?case
    by cases (auto simp: trader_ok_tick trader_ok_signal trader_ok_square_off start_trader_def stop_trader_def
        intro: trader_ok_fields)
qed (rule trader_ok_new)


subsection \<open>What a tick does, and what a position may cost\<close>

definition tick_outcome :: "paper_trader \<Rightarrow> tick \<Rightarrow> core_position \<Rightarrow> core_position \<Rightarrow> bool" where
  "tick_outcome s t p q \<longleftrightarrow>
     (let settled = (\<lambda>x. \<not> cp_is_open q \<and> cp_exit_price q = x \<and>
            cp_pnl q = gross_pnl p x - (cp_entry_price p + x) * of_int (cp_quantity p) * (pt_brokerage_pct s / 100))
      in if \<not> cp_is_open p \<or> cp_token p \<noteq> tk_token t then q = p
         else if stop_reached (ltp t) p then settled (cp_stop_loss p)
         else if profit_reached (ltp t) p then settled (cp_take_profit p)
         else q = update_excursion_eq t p)"

lemma gross_pnl_excursion [simp]: "gross_pnl (update_excursion_eq t p) x = gross_pnl p x"
  by (simp add: gross_pnl_def update_excursion_eq_def Let_def)

lemma excursion_prices [simp]:
  "cp_entry_price (update_excursion_eq t p) = cp_entry_price p" "cp_quantity (update_excursion_eq t p) = cp_quantity p"
  "cp_stop_loss (update_excursion_eq t p) = cp_stop_loss p" "cp_take_profit (update_excursion_eq t p) = cp_take_profit p"
  by (simp_all add: update_excursion_eq_def Let_def)

lemma excursion_idle: "\<not> cp_is_open p \<or> cp_token p \<noteq> tk_token t \<Longrightarrow> update_excursion_eq t p = p"
  unfolding update_excursion_eq_def by (rule if_not_P) blast

lemma sl_tp_exit_excursion: "sl_tp_exit fmt t (update_excursion_eq t p) = sl_tp_exit fmt t p"
  by (simp add: sl_tp_exit_def excursion_keeps)

lemma tick_outcome_close:
  assumes "paper_pos_ok p" "pt_brokerage_pct s' = pt_brokerage_pct s"
  shows "tick_outcome s t p (close_if s' (sl_tp_exit fmt t) (tk_ms t) (update_excursion_eq t p))"
proof -
  let ?p = "update_excursion_eq t p"
  have ok: "paper_pos_ok ?p" using assms(1) by (simp add: excursion_keeps)
  consider "\<not> cp_is_open p \<or> cp_token p \<noteq> tk_token t" | "cp_is_open p" "cp_token p = tk_token t" by blast
  then show ?thesis
  proof cases
    case 1
    then have p: "?p = p" by (rule excursion_idle)
    have "close_if s' (sl_tp_exit fmt t) (tk_ms t) p = p"
    proof (cases "cp_is_open p")
      case True
      then have "sl_tp_exit fmt t p = None" using 1 by (simp add: sl_tp_exit_def)
      then show ?thesis by (simp add: close_if_def)
    qed (simp add: close_if_def)
    then show ?thesis unfolding p tick_outcome_def Let_def using 1 by simp
  next
    case 2
    then have closed: "close_if s' (sl_tp_exit fmt t) (tk_ms t) ?p =
        (case sl_tp_exit fmt t p of None \<Rightarrow> ?p | Some (x, r) \<Rightarrow> fst (close_paper s' ?p x (tk_ms t) r))"
      by (simp add: close_if_def excursion_keeps sl_tp_exit_excursion)
    have settled: "let q = fst (close_paper s' ?p x (tk_ms t) r) in \<not> cp_is_open q \<and> cp_exit_price q = x \<and>
        cp_pnl q = gross_pnl p x - (cp_entry_price p + x) * of_int (cp_quantity p) * (pt_brokerage_pct s / 100)" for x r
      unfolding Let_def using close_paper_ok(2-4)[OF ok, of s' x "tk_ms t" r] assms(2) by simp
    consider "stop_reached (ltp t) p" | "\<not> stop_reached (ltp t) p" "profit_reached (ltp t) p" | "\<not> stop_reached (ltp t) p" "\<not> profit_reached (ltp t) p"
      by blast
    then show ?thesis
    proof cases
      case 1
      then have e: "sl_tp_exit fmt t p = Some (cp_stop_loss p, ''Stop-loss hit @ '' @ fmt (cp_stop_loss p))"
        using 2 by (simp add: sl_tp_exit_def)
      show ?thesis unfolding closed e tick_outcome_def Let_def using 1 2
          settled[of "cp_stop_loss p" "''Stop-loss hit @ '' @ fmt (cp_stop_loss p)", unfolded Let_def] by simp
    next
      case a: 2
      then have e: "sl_tp_exit fmt t p = Some (cp_take_profit p, ''Take-profit hit @ '' @ fmt (cp_take_profit p))"
        using 2 by (simp add: sl_tp_exit_def)
      show ?thesis unfolding closed e tick_outcome_def Let_def using a 2
          settled[of "cp_take_profit p" "''Take-profit hit @ '' @ fmt (cp_take_profit p)", unfolded Let_def] by simp
    next
      case 3
      then have e: "sl_tp_exit fmt t p = None" using 2 by (simp add: sl_tp_exit_def)
      show ?thesis unfolding closed e tick_outcome_def Let_def using 3 2 by simp
    qed
  qed
qed

lemma trader_tick_outcomes:
  assumes "trader_ok s" "pt_running s"
  shows "list_all2 (tick_outcome s t) (pt_positions s) (pt_positions (fst (trader_on_tick fmt t s)))"
proof -
  let ?s = "s\<lparr>pt_latest_prices := (pt_latest_prices s)(tk_token t \<mapsto> ltp t),
      pt_positions := List.map (update_excursion_eq t) (pt_positions s)\<rparr>"
  have ok: "list_all paper_pos_ok (pt_positions s)" using assms(1) by (simp add: trader_ok_def)
  then have ok': "list_all paper_pos_ok (pt_positions ?s)" by (simp add: list_all_iff excursion_keeps)
  have "pt_positions (fst (trader_on_tick fmt t s)) =
      List.map (\<lambda>p. close_if ?s (sl_tp_exit fmt t) (tk_ms t) (update_excursion_eq t p)) (pt_positions s)"
    using assms(2) close_matching_map(2)[OF ok', of "sl_tp_exit fmt t" "tk_ms t"]
    by (simp add: trader_on_tick_def check_sl_tp_def Let_def)
  moreover have "tick_outcome s t p (close_if ?s (sl_tp_exit fmt t) (tk_ms t) (update_excursion_eq t p))"
    if "p \<in> set (pt_positions s)" for p
    using that ok by (intro tick_outcome_close) (auto simp: list_all_iff)
  ultimately show ?thesis by (simp add: list_all2_conv_all_nth)
qed

text \<open>C23: In every state a paper trader reaches, each position has a positive size and entry price,
  no two open positions share instrument, strategy and side, nor instrument and side when multiple
  positions are off, and the number of open positions is within the limit.\<close>

theorem paper_trader_invariant:
  assumes "trader_reachable s"
  shows "list_all paper_pos_ok (pt_positions s) \<and> distinct (List.map slot_of (trader_open_positions s)) \<and>
     (pt_allow_multiple s \<or> distinct (List.map lane_of (trader_open_positions s))) \<and>
     (pt_max_open_positions s \<le> 0 \<or> int (length (trader_open_positions s)) \<le> pt_max_open_positions s)"
  using trader_reachable_ok[OF assms] by (simp add: trader_ok_def)

definition demo_trade_signal :: trade_signal where
  "demo_trade_signal = \<lparr>sg_type = Signal_BUY, sg_exchange = ''NSE'', sg_segment = ''CASH'', sg_token = ''2885'', sg_price = 100,
     sg_ms = 0, sg_strategy_name = ''ORB'', sg_reason = '''', sg_stop_loss = Some 95, sg_take_profit = Some 110\<rparr>"

definition demo_trader :: paper_trader where
  "demo_trader = trader_on_signal 1000 (combine 20460 (10 * hour_ms)) 0 (''ORD-1'', ''POS-1'') demo_trade_signal
     (start_trader (new_paper_trader 5 False 100000 10 (5/100) (5/100) 120))"

lemma demo_trader_reachable: "trader_reachable demo_trader"
  unfolding demo_trader_def
  by (rule trader_reachable.step[OF trader_reachable.step[OF trader_reachable.init Start] Signal])

lemma demo_clock: "nse_can_open_new_position (combine 20460 (10 * hour_ms))"
proof -
  have "wall_day (combine 20460 (10 * hour_ms)) = 20460" "wall_time (combine 20460 (10 * hour_ms)) = 10 * hour_ms"
    by (rule combine_split; simp add: hour_ms_def day_ms_def)+
  moreover have "is_trading_day 20460" by (rule wednesday_trades) (simp add: weekday_def)
  ultimately show ?thesis by (simp add: nse_can_open_new_position_def market_clock)
qed

lemma demo_trader_positions: "pt_positions demo_trader = [position_of ''POS-1'' demo_trade_signal 100 100]" "pt_running demo_trader"
  by (simp_all add: demo_trader_def trader_on_signal_def start_trader_def new_paper_trader_def demo_clock can_open_position_def
      trader_open_positions_def open_position_def calculate_quantity_def paper_total_pnl_def closed_positions_def apply_slippage_def
      demo_trade_signal_def py_int_def Let_def)

theorem paper_trader_invariant_witness: "length (trader_open_positions demo_trader) = 1 \<and> list_all paper_pos_ok (pt_positions demo_trader)"
  using paper_trader_invariant[OF demo_trader_reachable] demo_trader_positions
  by (simp add: trader_open_positions_def position_of_def cp_is_open_def)

text \<open>C24: A tick of a running trader raises nothing and settles every position by its own levels:
  an open position of the instrument whose stop is reached is closed at the stop, one whose target
  alone is reached at the target, with the gross profit less the brokerage on both legs; the others
  only record the price, and positions of other instruments and closed ones are untouched.\<close>

theorem paper_tick_settles:
  assumes "trader_reachable s" "pt_running s"
  shows "snd (trader_on_tick fmt t s) = None \<and>
    list_all2 (tick_outcome s t) (pt_positions s) (pt_positions (fst (trader_on_tick fmt t s)))"
  using trader_ok_tick(2) trader_tick_outcomes trader_reachable_ok[OF assms(1)] assms(2) by blast

theorem paper_tick_settles_witness:
  "\<exists>q. pt_positions (fst (trader_on_tick (\<lambda>_. '''')
       \<lparr>tk_exchange = ''NSE'', tk_segment = ''CASH'', tk_token = ''2885'', ltp = 94, tk_ms = 5, tk_bid = 0, tk_ask = 0\<rparr> demo_trader)) = [q] \<and>
     \<not> cp_is_open q \<and> cp_exit_price q = 95"
  using paper_tick_settles[OF demo_trader_reachable demo_trader_positions(2), of "\<lambda>_. ''''"
      "\<lparr>tk_exchange = ''NSE'', tk_segment = ''CASH'', tk_token = ''2885'', ltp = 94, tk_ms = 5, tk_bid = 0, tk_ask = 0\<rparr>"]
  by (auto simp: demo_trader_positions list_all2_Cons1 tick_outcome_def position_of_def demo_trade_signal_def stop_reached_def
      cp_is_open_def side_of_def or_zero_def)

text \<open>The size of a new position is the largest whole number of shares whose cost fits the
  allocated share of the current balance, and none when the allocation is negative.\<close>

theorem quantity_within_allocation:
  fixes s :: paper_trader
  assumes "0 < price"
  defines "allocation \<equiv> (pt_starting_balance s + paper_total_pnl s) * (pt_position_size_pct s / 100)"
  shows "0 \<le> calculate_quantity s price \<and> of_int (calculate_quantity s price) * price \<le> max 0 allocation \<and>
    allocation < of_int (calculate_quantity s price + 1) * price"
proof -
  have qty: "calculate_quantity s price = max (py_int (allocation / price)) 0"
    unfolding calculate_quantity_def allocation_def Let_def using assms(1) by simp
  show ?thesis
proof (cases "0 \<le> allocation")
  case True
  then have "0 \<le> allocation / price" using assms(1) by simp
  then have q: "calculate_quantity s price = \<lfloor>allocation / price\<rfloor>"
    unfolding qty py_int_def by (simp add: max_absorb1)
  have "real_of_int \<lfloor>allocation / price\<rfloor> \<le> allocation / price" "allocation / price < real_of_int \<lfloor>allocation / price\<rfloor> + 1"
    by linarith+
  then have "real_of_int \<lfloor>allocation / price\<rfloor> * price \<le> allocation"
      "allocation < (real_of_int \<lfloor>allocation / price\<rfloor> + 1) * price"
    using assms(1) by (simp_all only: pos_le_divide_eq pos_divide_less_eq)
  then show ?thesis using True \<open>0 \<le> allocation / price\<close> by (simp add: q)
next
  case False
  then have neg: "allocation / price < 0" using assms(1) by (simp add: divide_neg_pos)
  then have "\<lceil>allocation / price\<rceil> \<le> 0" by (simp add: ceiling_le_iff)
  then have "calculate_quantity s price = 0"
    unfolding qty py_int_def using neg by (simp add: max_def)
  then show ?thesis using False assms(1) by simp
qed
qed

theorem quantity_within_allocation_witness:
  "(0::pyfloat) < 100 \<and> 0 \<le> calculate_quantity (new_paper_trader 5 False 100000 10 0 0 0) 100"
  using quantity_within_allocation[of 100 "new_paper_trader 5 False 100000 10 0 0 0"] by simp

end
