(* ===== verification/Equity_Traders.thy ===== *)
theory Equity_Traders
  imports Equity_Paper "HOL-Library.Char_ord" "HOL-Library.List_Lexorder"
begin

section \<open>Confluence of signals and the equity traders together\<close>

text \<open>
  \<open>app/paper_trader/confluence.py\<close> and \<open>app/paper_trader/multi_trader.py\<close>. The tracker keeps the
  signals of the last five minutes by instrument and direction and emits a result when two, or
  three, different strategies agree. The manager keeps a trader per strategy and one for each of
  the two agreement levels. Arguments: the wall seconds, the environment of every trader's call (as
  in \<open>Equity_Paper\<close>), and \<open>show_int\<close>, which prints a number in a reason.
\<close>

definition CONFLUENCE_WINDOW_SECONDS :: pyfloat where
  "CONFLUENCE_WINDOW_SECONDS = 300"

record buffered_signal =
  bf_signal :: trade_signal
  bf_timestamp :: pyfloat

record confluence_result =
  cr_signal_type :: signal_type
  cr_exchange :: string
  cr_segment :: string
  cr_token :: string
  cr_price :: pyfloat
  cr_stop_loss :: pyfloat
  cr_take_profit :: pyfloat
  cr_ms :: pyfloat
  cr_strategies :: "string list"
  cr_count :: nat

type_synonym confluence_key = "string \<times> string"

record confluence_tracker =
  ct_buffer :: "confluence_key \<rightharpoonup> buffered_signal list"
  ct_fired_2 :: "confluence_key \<rightharpoonup> pyfloat"
  ct_fired_3 :: "confluence_key \<rightharpoonup> pyfloat"

datatype confluence_event = Confluence_2 confluence_result | Confluence_3 confluence_result

definition new_tracker :: confluence_tracker where
  "new_tracker = \<lparr>ct_buffer = Map.empty, ct_fired_2 = Map.empty, ct_fired_3 = Map.empty\<rparr>"

fun signal_type_value :: "signal_type \<Rightarrow> string" where
  "signal_type_value Signal_BUY = ''BUY''"
| "signal_type_value Signal_SELL = ''SELL''"

definition confluence_key_of :: "trade_signal \<Rightarrow> confluence_key" where
  "confluence_key_of sig = (sg_token sig, signal_type_value (sg_type sig))"

text \<open>A price that is set: neither \<open>None\<close> nor zero.\<close>

definition set_values :: "(trade_signal \<Rightarrow> pyfloat option) \<Rightarrow> buffered_signal list \<Rightarrow> pyfloat list" where
  "set_values f bs = List.map_filter (\<lambda>b. case f (bf_signal b) of None \<Rightarrow> None | Some v \<Rightarrow> if v \<noteq> 0 then Some v else None) bs"

text \<open>\<open>b # bs\<close> are the active signals, which hold at least the one just added.\<close>

definition build_confluence :: "buffered_signal \<Rightarrow> buffered_signal list \<Rightarrow> string set \<Rightarrow> confluence_result" where
  "build_confluence b bs strategies =
     (let sig = bf_signal (max_by bf_timestamp b bs);
          sl_values = set_values sg_stop_loss (b # bs);
          best_sl = (case sl_values of
              [] \<Rightarrow> or_zero (sg_stop_loss sig)
            | x # xs \<Rightarrow> if sg_type sig = Signal_BUY then fold max xs x else fold min xs x);
          tp_values = set_values sg_take_profit (b # bs);
          best_tp = (if tp_values \<noteq> [] then sum_list tp_values / of_nat (length tp_values) else or_zero (sg_take_profit sig));
          prices = List.map (sg_price \<circ> bf_signal) (b # bs)
      in \<lparr>cr_signal_type = sg_type sig, cr_exchange = sg_exchange sig, cr_segment = sg_segment sig,
          cr_token = sg_token sig, cr_price = sum_list prices / of_nat (length prices),
          cr_stop_loss = best_sl, cr_take_profit = best_tp, cr_ms = sg_ms sig,
          cr_strategies = sorted_list_of_set strategies, cr_count = card strategies\<rparr>)"

definition clean_expired :: "pyfloat \<Rightarrow> buffered_signal list \<Rightarrow> buffered_signal list" where
  "clean_expired now bs = filter (\<lambda>b. now - bf_timestamp b \<le> CONFLUENCE_WINDOW_SECONDS) bs"

definition fired_at :: "(confluence_key \<rightharpoonup> pyfloat) \<Rightarrow> confluence_key \<Rightarrow> pyfloat" where
  "fired_at m k = (case m k of None \<Rightarrow> 0 | Some x \<Rightarrow> x)"

text \<open>
  \<open>on_signal\<close>: the new state and the events emitted, in order. The handlers of the two events do
  not touch the tracker. After the new signal is added and the expired ones are removed the list
  is not empty.
\<close>

definition tracker_on_signal :: "pyfloat \<Rightarrow> trade_signal \<Rightarrow> confluence_tracker \<Rightarrow> confluence_tracker \<times> confluence_event list" where
  "tracker_on_signal now sig s =
     (let key = confluence_key_of sig;
          bs = (case ct_buffer s key of None \<Rightarrow> [] | Some bs \<Rightarrow> bs) @ [\<lparr>bf_signal = sig, bf_timestamp = now\<rparr>];
          active = clean_expired now bs;
          s = s\<lparr>ct_buffer := (ct_buffer s)(key \<mapsto> active)\<rparr>;
          strategies = (sg_strategy_name \<circ> bf_signal) ` set active;
          result = build_confluence (hd active) (tl active) strategies;
          fire2 = (card strategies \<ge> 2 \<and> now - fired_at (ct_fired_2 s) key > CONFLUENCE_WINDOW_SECONDS);
          s = (if fire2 then s\<lparr>ct_fired_2 := (ct_fired_2 s)(key \<mapsto> now)\<rparr> else s);
          fire3 = (card strategies \<ge> 3 \<and> now - fired_at (ct_fired_3 s) key > CONFLUENCE_WINDOW_SECONDS);
          s = (if fire3 then s\<lparr>ct_fired_3 := (ct_fired_3 s)(key \<mapsto> now)\<rparr> else s)
      in (s, (if fire2 then [Confluence_2 result] else []) @ (if fire3 then [Confluence_3 result] else [])))"

definition tracker_reset_daily :: "confluence_tracker \<Rightarrow> confluence_tracker" where
  "tracker_reset_daily s = \<lparr>ct_buffer = Map.empty, ct_fired_2 = Map.empty, ct_fired_3 = Map.empty\<rparr>"

subsection \<open>The manager\<close>

record trader_manager =
  tm_strategy_names :: "string list"
  tm_starting_balance :: pyfloat
  tm_position_size_pct :: pyfloat
  tm_isolated :: "(string \<times> paper_trader) list"
  tm_conf_2 :: paper_trader
  tm_conf_3 :: paper_trader
  tm_tracker :: confluence_tracker
  tm_running :: bool
  tm_emitted :: "trade_signal list"

text \<open>Each trader is unlimited, without a cooldown, and starts with the manager's balance and size.\<close>

definition isolated_trader :: "pyfloat \<Rightarrow> pyfloat \<Rightarrow> paper_trader" where
  "isolated_trader balance size_pct = new_paper_trader 0 True balance size_pct (5/100) (5/100) 0"

definition setup_traders :: "string list \<Rightarrow> pyfloat \<Rightarrow> pyfloat \<Rightarrow> trader_manager" where
  "setup_traders names balance size_pct =
     \<lparr>tm_strategy_names = names, tm_starting_balance = balance, tm_position_size_pct = size_pct,
      tm_isolated = fold (\<lambda>name. AList.update name (isolated_trader balance size_pct)) names [],
      tm_conf_2 = isolated_trader balance size_pct, tm_conf_3 = isolated_trader balance size_pct,
      tm_tracker = new_tracker, tm_running = False, tm_emitted = []\<rparr>"

definition each_trader :: "(paper_trader \<Rightarrow> paper_trader) \<Rightarrow> trader_manager \<Rightarrow> trader_manager" where
  "each_trader f m =
     m\<lparr>tm_isolated := List.map (\<lambda>(name, s). (name, f s)) (tm_isolated m), tm_conf_2 := f (tm_conf_2 m),
       tm_conf_3 := f (tm_conf_3 m)\<rparr>"

definition manager_start :: "trader_manager \<Rightarrow> trader_manager" where
  "manager_start m = each_trader start_trader (m\<lparr>tm_running := True\<rparr>)"

definition manager_stop :: "trader_manager \<Rightarrow> trader_manager" where
  "manager_stop m = each_trader stop_trader (m\<lparr>tm_running := False\<rparr>)"

fun tick_each ::
  "(pyfloat \<Rightarrow> string) \<Rightarrow> tick \<Rightarrow> (string \<times> paper_trader) list \<Rightarrow> (string \<times> paper_trader) list outcome" where
  "tick_each fmt t [] = returns []"
| "tick_each fmt t ((name, s) # rest) =
     (case trader_on_tick fmt t s of
        (s', Some e) \<Rightarrow> raises e ((name, s') # rest)
      | (s', None) \<Rightarrow> (case tick_each fmt t rest of (rest', e) \<Rightarrow> ((name, s') # rest', e)))"

definition manager_on_tick :: "(pyfloat \<Rightarrow> string) \<Rightarrow> tick \<Rightarrow> trader_manager \<Rightarrow> trader_manager outcome" where
  "manager_on_tick fmt t m =
     seq (case tick_each fmt t (tm_isolated m) of (xs, e) \<Rightarrow> (m\<lparr>tm_isolated := xs\<rparr>, e)) (\<lambda>m.
     seq (case trader_on_tick fmt t (tm_conf_2 m) of (s, e) \<Rightarrow> (m\<lparr>tm_conf_2 := s\<rparr>, e)) (\<lambda>m.
       case trader_on_tick fmt t (tm_conf_3 m) of (s, e) \<Rightarrow> (m\<lparr>tm_conf_3 := s\<rparr>, e)))"

text \<open>What a trader's \<open>on_signal\<close> reads of its surroundings: seconds, clock, slippage, identifiers.\<close>

type_synonym call_env = "pyfloat \<times> pyfloat \<times> pyfloat \<times> (string \<times> string)"

fun signal_in :: "call_env \<Rightarrow> trade_signal \<Rightarrow> paper_trader \<Rightarrow> paper_trader" where
  "signal_in (now_s, n, u, ids) sig s = trader_on_signal now_s n u ids sig s"

definition join_comma_space :: "string list \<Rightarrow> string" where
  "join_comma_space ws = drop 2 (concat (List.map (\<lambda>w. '','' @ '' '' @ w) ws))"

definition confluence_signal :: "(nat \<Rightarrow> string) \<Rightarrow> string \<Rightarrow> confluence_result \<Rightarrow> trade_signal" where
  "confluence_signal show_int level r =
     \<lparr>sg_type = cr_signal_type r, sg_exchange = cr_exchange r, sg_segment = cr_segment r, sg_token = cr_token r,
      sg_price = cr_price r, sg_ms = cr_ms r,
      sg_strategy_name = ''Confluence_'' @ level @ ''+('' @ join_with (CHR '','') (take 3 (cr_strategies r)) @ '')'',
      sg_reason = show_int (cr_count r) @ '' strategies agree: '' @ join_comma_space (cr_strategies r),
      sg_stop_loss = Some (cr_stop_loss r), sg_take_profit = Some (cr_take_profit r)\<rparr>"

definition on_confluence_2 :: "(nat \<Rightarrow> string) \<Rightarrow> call_env \<Rightarrow> confluence_result \<Rightarrow> trader_manager \<Rightarrow> trader_manager" where
  "on_confluence_2 show_int env r m =
     (if \<not> tm_running m then m
      else let sig = confluence_signal show_int ''2'' r
           in m\<lparr>tm_conf_2 := signal_in env sig (tm_conf_2 m), tm_emitted := tm_emitted m @ [sig]\<rparr>)"

definition on_confluence_3 :: "(nat \<Rightarrow> string) \<Rightarrow> call_env \<Rightarrow> confluence_result \<Rightarrow> trader_manager \<Rightarrow> trader_manager" where
  "on_confluence_3 show_int env r m =
     (if \<not> tm_running m then m
      else let sig = confluence_signal show_int ''3'' r
           in m\<lparr>tm_conf_3 := signal_in env sig (tm_conf_3 m), tm_emitted := tm_emitted m @ [sig]\<rparr>)"

fun on_confluence :: "(nat \<Rightarrow> string) \<Rightarrow> call_env \<Rightarrow> call_env \<Rightarrow> confluence_event \<Rightarrow> trader_manager \<Rightarrow> trader_manager" where
  "on_confluence show_int env2 env3 (Confluence_2 r) m = on_confluence_2 show_int env2 r m"
| "on_confluence show_int env2 env3 (Confluence_3 r) m = on_confluence_3 show_int env3 r m"

definition manager_on_signal ::
  "(nat \<Rightarrow> string) \<Rightarrow> pyfloat \<Rightarrow> call_env \<Rightarrow> call_env \<Rightarrow> call_env \<Rightarrow> trade_signal \<Rightarrow> trader_manager \<Rightarrow> trader_manager" where
  "manager_on_signal show_int now env env2 env3 sig m =
     (if \<not> tm_running m then m
      else
        let m = (case map_of (tm_isolated m) (sg_strategy_name sig) of
                   None \<Rightarrow> m
                 | Some s \<Rightarrow> m\<lparr>tm_isolated := AList.update (sg_strategy_name sig) (signal_in env sig s) (tm_isolated m)\<rparr>)
        in case tracker_on_signal now sig (tm_tracker m) of
             (tr, events) \<Rightarrow> fold (on_confluence show_int env2 env3) events (m\<lparr>tm_tracker := tr\<rparr>))"

definition get_trader :: "trader_manager \<Rightarrow> string \<Rightarrow> paper_trader option" where
  "get_trader m name = map_of (tm_isolated m) name"

definition all_traders :: "trader_manager \<Rightarrow> (string \<times> paper_trader) list" where
  "all_traders m =
     AList.update ''Confluence_3+'' (tm_conf_3 m) (AList.update ''Confluence_2+'' (tm_conf_2 m) (tm_isolated m))"

definition total_pnl_by_strategy :: "trader_manager \<Rightarrow> (string \<times> pyfloat) list" where
  "total_pnl_by_strategy m = List.map (\<lambda>(name, s). (name, paper_total_pnl s)) (all_traders m)"


subsection \<open>What the tracker fires, from the history alone\<close>

text \<open>
  A history lists the signals with their times, the latest first. \<open>agreeing\<close> is the set of
  strategies with a signal of the key in the window that ends now; a level fires at a signal when
  enough of them agree and every earlier firing of that key lies more than a window back.
\<close>

type_synonym history = "(pyfloat \<times> trade_signal) list"

fun tracker_of :: "history \<Rightarrow> confluence_tracker" where
  "tracker_of [] = new_tracker"
| "tracker_of ((now, sig) # h) = fst (tracker_on_signal now sig (tracker_of h))"

definition in_window :: "pyfloat \<Rightarrow> confluence_key \<Rightarrow> pyfloat \<times> trade_signal \<Rightarrow> bool" where
  "in_window now key x \<longleftrightarrow> confluence_key_of (snd x) = key \<and> now - fst x \<le> CONFLUENCE_WINDOW_SECONDS"

definition agreeing :: "pyfloat \<Rightarrow> confluence_key \<Rightarrow> history \<Rightarrow> string set" where
  "agreeing now key h = (sg_strategy_name \<circ> snd) ` set (filter (in_window now key) h)"

fun fired_times :: "nat \<Rightarrow> confluence_key \<Rightarrow> history \<Rightarrow> pyfloat list" where
  "fired_times k key [] = []"
| "fired_times k key ((now, sig) # h) =
     (if confluence_key_of sig = key \<and> k \<le> card (agreeing now key ((now, sig) # h)) \<and> CONFLUENCE_WINDOW_SECONDS < now \<and>
         list_all (\<lambda>t. CONFLUENCE_WINDOW_SECONDS < now - t) (fired_times k key h)
      then now # fired_times k key h else fired_times k key h)"

definition level_fires :: "nat \<Rightarrow> history \<Rightarrow> bool" where
  "level_fires k h = (case h of [] \<Rightarrow> False | (now, sig) # h' \<Rightarrow>
     length (fired_times k (confluence_key_of sig) h') < length (fired_times k (confluence_key_of sig) h))"

definition buffer_of :: "confluence_tracker \<Rightarrow> confluence_key \<Rightarrow> buffered_signal list" where
  "buffer_of s key = (case ct_buffer s key of None \<Rightarrow> [] | Some bs \<Rightarrow> bs)"

definition buffered :: "pyfloat \<times> trade_signal \<Rightarrow> buffered_signal" where
  "buffered x = \<lparr>bf_signal = snd x, bf_timestamp = fst x\<rparr>"

definition active_of :: "pyfloat \<Rightarrow> trade_signal \<Rightarrow> confluence_tracker \<Rightarrow> buffered_signal list" where
  "active_of now sig s = clean_expired now (buffer_of s (confluence_key_of sig) @ [buffered (now, sig)])"

definition fired_map :: "nat \<Rightarrow> confluence_tracker \<Rightarrow> confluence_key \<rightharpoonup> pyfloat" where
  "fired_map k s = (if k = 2 then ct_fired_2 s else ct_fired_3 s)"

definition fires_at :: "nat \<Rightarrow> pyfloat \<Rightarrow> trade_signal \<Rightarrow> confluence_tracker \<Rightarrow> bool" where
  "fires_at k now sig s \<longleftrightarrow> k \<le> card ((sg_strategy_name \<circ> bf_signal) ` set (active_of now sig s)) \<and>
     CONFLUENCE_WINDOW_SECONDS < now - fired_at (fired_map k s) (confluence_key_of sig)"

definition result_of :: "pyfloat \<Rightarrow> trade_signal \<Rightarrow> confluence_tracker \<Rightarrow> confluence_result" where
  "result_of now sig s =
     (let active = active_of now sig s
      in build_confluence (hd active) (tl active) ((sg_strategy_name \<circ> bf_signal) ` set active))"

lemma tracker_step:
  "snd (tracker_on_signal now sig s) =
     (if fires_at 2 now sig s then [Confluence_2 (result_of now sig s)] else []) @
     (if fires_at 3 now sig s then [Confluence_3 (result_of now sig s)] else [])"
  "ct_buffer (fst (tracker_on_signal now sig s)) = (ct_buffer s)(confluence_key_of sig \<mapsto> active_of now sig s)"
  "k = 2 \<or> k = 3 \<Longrightarrow> fired_map k (fst (tracker_on_signal now sig s)) =
     (if fires_at k now sig s then (fired_map k s)(confluence_key_of sig \<mapsto> now) else fired_map k s)"
  by (auto simp: tracker_on_signal_def fires_at_def result_of_def active_of_def buffer_of_def buffered_def fired_map_def Let_def)

lemma clean_twice: "t \<le> now \<Longrightarrow> clean_expired now (clean_expired t bs) = clean_expired now bs"
  by (induction bs) (auto simp: clean_expired_def)

lemma clean_append: "clean_expired now (xs @ ys) = clean_expired now xs @ clean_expired now ys"
  by (simp add: clean_expired_def)

lemma clean_one:
  "clean_expired now [buffered (t, sig)] = (if now - t \<le> CONFLUENCE_WINDOW_SECONDS then [buffered (t, sig)] else [])"
  by (simp add: clean_expired_def buffered_def)

lemma in_window_pair: "in_window now key (t, sig) \<longleftrightarrow> confluence_key_of sig = key \<and> now - t \<le> CONFLUENCE_WINDOW_SECONDS"
  by (simp add: in_window_def)

lemma buffer_window:
  assumes "list_all (\<lambda>x. fst x \<le> now) h"
  shows "clean_expired now (buffer_of (tracker_of h) key) = rev (List.map buffered (filter (in_window now key) h))"
  using assms
proof (induction h)
  case Nil
  then show ?case by (simp add: buffer_of_def new_tracker_def clean_expired_def)
next
  case (Cons x h)
  obtain t sig where x: "x = (t, sig)" by fastforce
  have now: "t \<le> now" and ih: "clean_expired now (buffer_of (tracker_of h) key) = rev (List.map buffered (filter (in_window now key) h))"
    using Cons by (simp_all add: x)
  show ?case
  proof (cases "confluence_key_of sig = key")
    case True
    then have b: "buffer_of (tracker_of (x # h)) key = clean_expired t (buffer_of (tracker_of h) key @ [buffered (t, sig)])"
      by (simp add: x buffer_of_def tracker_step active_of_def)
    show ?thesis unfolding b clean_twice[OF now] clean_append ih using True
      by (simp add: x in_window_pair clean_one CONFLUENCE_WINDOW_SECONDS_def)
  next
    case False
    then have "buffer_of (tracker_of (x # h)) key = buffer_of (tracker_of h) key"
      by (simp add: x buffer_of_def tracker_step)
    then show ?thesis using False ih by (simp add: in_window_pair x)
  qed
qed

lemma buffered_bf [simp]: "bf_signal (buffered x) = snd x"
  by (simp add: buffered_def)

lemma active_window:
  assumes "list_all (\<lambda>x. fst x \<le> now) h"
  shows "active_of now sig (tracker_of h) = rev (List.map buffered (filter (in_window now (confluence_key_of sig)) ((now, sig) # h)))"
  using buffer_window[OF assms, of "confluence_key_of sig"]
  by (simp add: active_of_def clean_append clean_one in_window_pair CONFLUENCE_WINDOW_SECONDS_def)

lemma agreeing_active:
  assumes "list_all (\<lambda>x. fst x \<le> now) h"
  shows "(sg_strategy_name \<circ> bf_signal) ` set (active_of now sig (tracker_of h)) = agreeing now (confluence_key_of sig) ((now, sig) # h)"
  unfolding active_window[OF assms] agreeing_def by (auto simp: image_image buffered_def)


text \<open>The firing times are in order, so the last one decides, and all lie more than a window after the epoch.\<close>

lemma fired_times_sorted:
  "sorted_wrt (\<lambda>x y. fst y \<le> fst x) h \<Longrightarrow>
   sorted_wrt (\<ge>) (fired_times k key h) \<and> list_all (\<lambda>t. CONFLUENCE_WINDOW_SECONDS < t \<and> t \<in> fst ` set h) (fired_times k key h)"
  by (induction k key h rule: fired_times.induct) (auto simp: list_all_iff)

lemma fired_map_times:
  assumes "k = 2 \<or> k = 3" "sorted_wrt (\<lambda>x y. fst y \<le> fst x) h"
  shows "fired_map k (tracker_of h) key = (case fired_times k key h of [] \<Rightarrow> None | t # _ \<Rightarrow> Some t)"
  using assms(2)
proof (induction h)
  case Nil
  then show ?case by (simp add: fired_map_def new_tracker_def)
next
  case (Cons x h)
  obtain now sig where x: "x = (now, sig)" by fastforce
  have ih: "fired_map k (tracker_of h) key = (case fired_times k key h of [] \<Rightarrow> None | t # _ \<Rightarrow> Some t)"
    using Cons by simp
  have older: "list_all (\<lambda>x. fst x \<le> now) h" using Cons.prems by (simp add: x list_all_iff)
  have sorted: "sorted_wrt (\<lambda>x y. fst y \<le> fst x) h" using Cons.prems by simp
  show ?case
  proof (cases "confluence_key_of sig = key")
    case True
    have gap: "CONFLUENCE_WINDOW_SECONDS < now - fired_at (fired_map k (tracker_of h)) key \<longleftrightarrow>
        CONFLUENCE_WINDOW_SECONDS < now \<and> list_all (\<lambda>t. CONFLUENCE_WINDOW_SECONDS < now - t) (fired_times k key h)"
      using fired_times_sorted[OF sorted, of k key] unfolding fired_at_def ih
      by (cases "fired_times k key h") (auto simp: list_all_iff CONFLUENCE_WINDOW_SECONDS_def)
    have "fires_at k now sig (tracker_of h) \<longleftrightarrow> k \<le> card (agreeing now key ((now, sig) # h)) \<and>
        CONFLUENCE_WINDOW_SECONDS < now \<and> list_all (\<lambda>t. CONFLUENCE_WINDOW_SECONDS < now - t) (fired_times k key h)"
      unfolding fires_at_def agreeing_active[OF older] True gap by simp
    then show ?thesis using True ih by (simp add: x tracker_step(3)[OF assms(1)])
  next
    case False
    then show ?thesis using ih by (simp add: x tracker_step(3)[OF assms(1)])
  qed
qed

lemma fires_at_level:
  assumes "k = 2 \<or> k = 3" "sorted_wrt (\<lambda>x y. fst y \<le> fst x) ((now, sig) # h)"
  shows "fires_at k now sig (tracker_of h) \<longleftrightarrow> level_fires k ((now, sig) # h)"
proof -
  have older: "list_all (\<lambda>x. fst x \<le> now) h" and sorted: "sorted_wrt (\<lambda>x y. fst y \<le> fst x) h"
    using assms(2) by (simp_all add: list_all_iff)
  show ?thesis using fired_times_sorted[OF sorted, of k "confluence_key_of sig"]
    unfolding level_fires_def fires_at_def agreeing_active[OF older] fired_at_def fired_map_times[OF assms(1) sorted]
    by (cases "fired_times k (confluence_key_of sig) h") (auto simp: list_all_iff CONFLUENCE_WINDOW_SECONDS_def)
qed

subsection \<open>What a result says\<close>

lemma set_values_pos: "v \<in> set (set_values f bs) \<longleftrightarrow> v \<noteq> 0 \<and> (\<exists>b\<in>set bs. f (bf_signal b) = Some v)"
  by (induction bs) (auto simp: set_values_def map_filter_simps split: option.splits if_splits)

lemma confluence_parts:
  "cr_strategies (build_confluence b bs strategies) = sorted_list_of_set strategies"
  "cr_count (build_confluence b bs strategies) = card strategies"
  "cr_price (build_confluence b bs strategies) =
     (\<Sum>x\<leftarrow>b # bs. sg_price (bf_signal x)) / of_nat (length (b # bs))"
  by (simp_all add: build_confluence_def Let_def o_def)

lemma confluence_signal_side:
  "\<exists>x\<in>set (b # bs). cr_signal_type (build_confluence b bs strategies) = sg_type (bf_signal x) \<and>
     cr_token (build_confluence b bs strategies) = sg_token (bf_signal x)"
  using max_by_in[of bf_timestamp b bs] by (auto simp: build_confluence_def Let_def)

lemma confluence_stop_tightest:
  assumes "x \<in> set (b # bs)" "sg_stop_loss (bf_signal x) = Some v" "v \<noteq> 0"
  shows "if cr_signal_type (build_confluence b bs strategies) = Signal_BUY
    then v \<le> cr_stop_loss (build_confluence b bs strategies) else cr_stop_loss (build_confluence b bs strategies) \<le> v"
proof -
  have v: "v \<in> set (set_values sg_stop_loss (b # bs))" using assms by (auto simp: set_values_pos)
  then obtain w ws where ws: "set_values sg_stop_loss (b # bs) = w # ws" by (cases "set_values sg_stop_loss (b # bs)") auto
  have "v \<in> set (w # ws)" using v by (simp only: ws)
  then show ?thesis using fold_max_ge[of v w ws] fold_min_le[of v w ws]
    unfolding build_confluence_def Let_def ws by simp
qed



definition agreeing_demo :: history where
  "agreeing_demo = [(1060, demo_trade_signal\<lparr>sg_strategy_name := ''VWAP'', sg_price := 102\<rparr>), (1000, demo_trade_signal)]"



subsection \<open>The traders are isolated\<close>

definition owned_by :: "string \<Rightarrow> paper_trader \<Rightarrow> bool" where
  "owned_by name s \<longleftrightarrow> trader_reachable s \<and> list_all (\<lambda>p. cp_strategy_name p = name) (pt_positions s)"

definition manager_ok :: "trader_manager \<Rightarrow> bool" where
  "manager_ok m \<longleftrightarrow> distinct (List.map fst (tm_isolated m)) \<and> list_all (\<lambda>(name, s). owned_by name s) (tm_isolated m) \<and>
     trader_reachable (tm_conf_2 m) \<and> trader_reachable (tm_conf_3 m)"

inductive traders_step :: "trader_manager \<Rightarrow> trader_manager \<Rightarrow> bool" where
  Start: "traders_step m (manager_start m)"
| Stop: "traders_step m (manager_stop m)"
| Tick: "traders_step m (fst (manager_on_tick fmt t m))"
| Signal: "traders_step m (manager_on_signal show_int now env env2 env3 sig m)"

inductive traders_reachable :: "trader_manager \<Rightarrow> bool" where
  init: "traders_reachable (setup_traders names balance size_pct)"
| step: "traders_reachable m \<Longrightarrow> traders_step m m' \<Longrightarrow> traders_reachable m'"

lemma signal_reachable: "trader_reachable s \<Longrightarrow> trader_reachable (signal_in env sig s)"
  by (cases env) (auto intro: trader_reachable.step trader_step.Signal)

lemma tick_reachable: "trader_reachable s \<Longrightarrow> trader_reachable (fst (trader_on_tick fmt t s)) \<and> snd (trader_on_tick fmt t s) = None"
  by (meson trader_reachable.step trader_step.Tick trader_ok_tick(2) trader_reachable_ok)

lemma owned_by_signal:
  "owned_by name s \<Longrightarrow> sg_strategy_name sig = name \<Longrightarrow> owned_by name (signal_in env sig s)"
  using signal_reachable[of s env sig]
  by (cases env) (auto simp: owned_by_def trader_on_signal_def open_position_def position_of_def Let_def)

lemma close_if_strategy [simp]: "cp_strategy_name (close_if s f ms p) = cp_strategy_name p"
  by (auto simp: close_if_def close_paper_def position_close_def seq_def returns_def raises_def Let_def split: option.split prod.split)

lemma excursion_strategy [simp]: "cp_strategy_name (update_excursion_eq t p) = cp_strategy_name p"
  by (simp add: update_excursion_eq_def Let_def)

lemma owned_by_tick:
  assumes "owned_by name s"
  shows "owned_by name (fst (trader_on_tick fmt t s))"
proof -
  let ?s = "s\<lparr>pt_latest_prices := (pt_latest_prices s)(tk_token t \<mapsto> ltp t),
      pt_positions := List.map (update_excursion_eq t) (pt_positions s)\<rparr>"
  have ok: "list_all paper_pos_ok (pt_positions ?s)"
    using trader_reachable_ok[of s] assms by (simp add: owned_by_def trader_ok_def list_all_iff excursion_keeps)
  have names: "list_all (\<lambda>p. cp_strategy_name p = name) (pt_positions ?s)"
    using assms by (simp add: owned_by_def list_all_iff)
  have "list_all (\<lambda>p. cp_strategy_name p = name) (pt_positions (fst (trader_on_tick fmt t s)))"
    using names close_matching_map(2)[OF ok, of "sl_tp_exit fmt t" "tk_ms t"]
    by (simp add: trader_on_tick_def check_sl_tp_def returns_def Let_def list_all_iff)
  then show ?thesis using assms tick_reachable by (simp add: owned_by_def)
qed


lemma tick_each_owned:
  assumes "list_all (\<lambda>(name, s). owned_by name s) xs"
  shows "snd (tick_each fmt t xs) = None" "fst (tick_each fmt t xs) = List.map (\<lambda>(name, s). (name, fst (trader_on_tick fmt t s))) xs"
proof -
  have "tick_each fmt t xs = (List.map (\<lambda>(name, s). (name, fst (trader_on_tick fmt t s))) xs, None)"
    using assms
  proof (induction xs)
    case (Cons x xs)
    obtain name s where x: "x = (name, s)" by fastforce
    have "snd (trader_on_tick fmt t s) = None" using Cons.prems tick_reachable by (simp add: x owned_by_def)
    then obtain s' where s': "trader_on_tick fmt t s = (s', None)" by (cases "trader_on_tick fmt t s") auto
    have "tick_each fmt t xs = (List.map (\<lambda>(name, s). (name, fst (trader_on_tick fmt t s))) xs, None)"
      using Cons by simp
    then show ?case by (simp add: x s')
  qed (simp add: returns_def)
  then show "snd (tick_each fmt t xs) = None" "fst (tick_each fmt t xs) = List.map (\<lambda>(name, s). (name, fst (trader_on_tick fmt t s))) xs"
    by simp_all
qed

lemma manager_tick:
  assumes "manager_ok m"
  shows "manager_on_tick fmt t m =
    (m\<lparr>tm_isolated := List.map (\<lambda>(name, s). (name, fst (trader_on_tick fmt t s))) (tm_isolated m),
       tm_conf_2 := fst (trader_on_tick fmt t (tm_conf_2 m)), tm_conf_3 := fst (trader_on_tick fmt t (tm_conf_3 m))\<rparr>, None)"
proof -
  obtain xs where xs: "tick_each fmt t (tm_isolated m) = (xs, None)" "xs = List.map (\<lambda>(name, s). (name, fst (trader_on_tick fmt t s))) (tm_isolated m)"
    using tick_each_owned[of "tm_isolated m" fmt t] assms by (cases "tick_each fmt t (tm_isolated m)") (simp add: manager_ok_def)
  obtain s2 where s2: "trader_on_tick fmt t (tm_conf_2 m) = (s2, None)"
    using tick_reachable[of "tm_conf_2 m" fmt t] assms by (cases "trader_on_tick fmt t (tm_conf_2 m)") (simp add: manager_ok_def)
  obtain s3 where s3: "trader_on_tick fmt t (tm_conf_3 m) = (s3, None)"
    using tick_reachable[of "tm_conf_3 m" fmt t] assms by (cases "trader_on_tick fmt t (tm_conf_3 m)") (simp add: manager_ok_def)
  show ?thesis by (simp add: manager_on_tick_def seq_def xs(1) s2 s3 xs(2)[symmetric])
qed

lemma owned_map:
  assumes "\<And>name s. owned_by name s \<Longrightarrow> owned_by name (f s)" "\<And>s. trader_reachable s \<Longrightarrow> trader_reachable (f s)" "manager_ok m"
  shows "manager_ok (each_trader f m)"
  using assms by (auto simp: manager_ok_def each_trader_def list_all_iff comp_def case_prod_unfold)

lemma owned_by_running: "owned_by name s \<Longrightarrow> owned_by name (start_trader s)" "owned_by name s \<Longrightarrow> owned_by name (stop_trader s)"
  using trader_reachable.step[OF _ trader_step.Start] trader_reachable.step[OF _ trader_step.Stop]
  by (auto simp: owned_by_def start_trader_def stop_trader_def)

lemma on_confluence_fields:
  "tm_isolated (on_confluence show_int env2 env3 e m) = tm_isolated m"
  "trader_reachable (tm_conf_2 m) \<Longrightarrow> trader_reachable (tm_conf_2 (on_confluence show_int env2 env3 e m))"
  "trader_reachable (tm_conf_3 m) \<Longrightarrow> trader_reachable (tm_conf_3 (on_confluence show_int env2 env3 e m))"
  by (cases e; simp add: on_confluence_2_def on_confluence_3_def signal_reachable Let_def)+

lemma on_confluences_fields:
  "tm_isolated (fold (on_confluence show_int env2 env3) es m) = tm_isolated m"
  "trader_reachable (tm_conf_2 m) \<Longrightarrow> trader_reachable (tm_conf_2 (fold (on_confluence show_int env2 env3) es m))"
  "trader_reachable (tm_conf_3 m) \<Longrightarrow> trader_reachable (tm_conf_3 (fold (on_confluence show_int env2 env3) es m))"
  by (induction es arbitrary: m) (simp_all add: on_confluence_fields)

lemma manager_signal_isolated:
  "tm_isolated (manager_on_signal show_int now env env2 env3 sig m) =
     (if tm_running m then
        (case map_of (tm_isolated m) (sg_strategy_name sig) of None \<Rightarrow> tm_isolated m
         | Some s \<Rightarrow> AList.update (sg_strategy_name sig) (signal_in env sig s) (tm_isolated m))
      else tm_isolated m)"
  by (simp add: manager_on_signal_def on_confluences_fields Let_def case_prod_unfold split: option.split)

lemma manager_ok_signal:
  assumes "manager_ok m"
  shows "manager_ok (manager_on_signal show_int now env env2 env3 sig m)"
proof -
  let ?m = "manager_on_signal show_int now env env2 env3 sig m" and ?n = "sg_strategy_name sig"
  have conf: "trader_reachable (tm_conf_2 ?m)" "trader_reachable (tm_conf_3 ?m)"
    using assms by (auto simp: manager_ok_def manager_on_signal_def on_confluences_fields Let_def case_prod_unfold split: option.split)
  have "distinct (List.map fst (tm_isolated ?m)) \<and> list_all (\<lambda>(name, s). owned_by name s) (tm_isolated ?m)"
  proof (cases "tm_running m \<and> map_of (tm_isolated m) ?n \<noteq> None")
    case True
    then obtain s where s: "map_of (tm_isolated m) ?n = Some s" by blast
    then have "owned_by ?n (signal_in env sig s)"
      using assms map_of_SomeD[OF s] by (auto simp: manager_ok_def list_all_iff intro: owned_by_signal)
    moreover have "set (AList.update ?n (signal_in env sig s) (tm_isolated m)) \<subseteq> insert (?n, signal_in env sig s) (set (tm_isolated m))"
      by (rule set_update_subset)
    ultimately show ?thesis using assms True s distinct_update[of "tm_isolated m" ?n "signal_in env sig s"]
      by (auto simp: manager_signal_isolated manager_ok_def list_all_iff)
  next
    case False
    then show ?thesis using assms by (auto simp: manager_signal_isolated manager_ok_def)
  qed
  then show ?thesis using conf by (simp add: manager_ok_def)
qed


lemma traders_reachable_ok: "traders_reachable m \<Longrightarrow> manager_ok m"
proof (induction rule: traders_reachable.induct)
  case (init names balance size_pct)
  let ?iso = "\<lambda>names xs. fold (\<lambda>name. AList.update name (isolated_trader balance size_pct)) names xs"
  have new: "trader_reachable (isolated_trader balance size_pct)" "owned_by n (isolated_trader balance size_pct)" for n
    using trader_reachable.init by (auto simp: isolated_trader_def owned_by_def new_paper_trader_def)
  have "distinct (List.map fst xs) \<Longrightarrow> list_all (\<lambda>(name, s). owned_by name s) xs \<Longrightarrow>
      distinct (List.map fst (?iso names xs)) \<and> list_all (\<lambda>(name, s). owned_by name s) (?iso names xs)" for xs
  proof (induction names arbitrary: xs)
    case (Cons n ns)
    have "set (AList.update n (isolated_trader balance size_pct) xs) \<subseteq> insert (n, isolated_trader balance size_pct) (set xs)"
      by (rule set_update_subset)
    then have "list_all (\<lambda>(name, s). owned_by name s) (AList.update n (isolated_trader balance size_pct) xs)"
      using Cons.prems(2) new(2) by (fastforce simp: list_all_iff)
    then show ?case using Cons.IH Cons.prems(1) by (simp add: distinct_update)
  qed simp
  from this[of "[]"] show ?case using new(1) by (simp add: manager_ok_def setup_traders_def)
next
  case (step m m')
  have run: "manager_ok (m\<lparr>tm_running := b\<rparr>)" for b using step.IH by (simp add: manager_ok_def)
  from step.hyps(2) show ?case
  proof cases
    case Start
    then show ?thesis unfolding manager_start_def
      by (auto intro!: owned_map run owned_by_running trader_reachable.step[OF _ trader_step.Start])
  next
    case Stop
    then show ?thesis unfolding manager_stop_def
      by (auto intro!: owned_map run owned_by_running trader_reachable.step[OF _ trader_step.Stop])
  next
    case (Tick fmt t)
    then have "m' = each_trader (\<lambda>s. fst (trader_on_tick fmt t s)) m"
      by (simp add: manager_tick[OF step.IH] each_trader_def)
    then show ?thesis using owned_map[of "\<lambda>s. fst (trader_on_tick fmt t s)" m] owned_by_tick tick_reachable step.IH by blast
  next
    case Signal
    then show ?thesis using manager_ok_signal step.IH by simp
  qed
qed

text \<open>
  In every state the manager reaches each strategy has one trader, all of whose positions are
  that strategy's, and every trader's state is one a single trader reaches. A signal changes no other
  strategy's trader, and its own as if that trader were alone; a tick never raises and gives every
  trader what it would get alone.
\<close>

theorem traders_isolated:
  assumes "traders_reachable m"
  shows "distinct (List.map fst (tm_isolated m)) \<and>
    list_all (\<lambda>(name, s). trader_reachable s \<and> list_all (\<lambda>p. cp_strategy_name p = name) (pt_positions s)) (tm_isolated m) \<and>
    (\<forall>name. get_trader (manager_on_signal show_int now env env2 env3 sig m) name =
       (if tm_running m \<and> name = sg_strategy_name sig then map_option (signal_in env sig) (get_trader m name)
        else get_trader m name)) \<and>
    snd (manager_on_tick fmt t m) = None \<and>
    (\<forall>name. get_trader (fst (manager_on_tick fmt t m)) name = map_option (\<lambda>s. fst (trader_on_tick fmt t s)) (get_trader m name))"
proof -
  have ok: "manager_ok m" by (rule traders_reachable_ok[OF assms])
  have signal: "get_trader (manager_on_signal show_int now env env2 env3 sig m) name =
       (if tm_running m \<and> name = sg_strategy_name sig then map_option (signal_in env sig) (get_trader m name)
        else get_trader m name)" for name
    by (cases "map_of (tm_isolated m) (sg_strategy_name sig)")
      (auto simp: get_trader_def manager_signal_isolated update_conv')
  have tick: "get_trader (fst (manager_on_tick fmt t m)) name = map_option (\<lambda>s. fst (trader_on_tick fmt t s)) (get_trader m name)" for name
    by (simp add: manager_tick[OF ok] get_trader_def map_of_map)
  show ?thesis using ok signal tick by (simp add: manager_ok_def owned_by_def manager_tick[OF ok])
qed

theorem traders_isolated_witness:
  "get_trader (manager_on_signal (\<lambda>_. ''2'') 0 (0, 0, 0, ('''', '''')) (0, 0, 0, ('''', '''')) (0, 0, 0, ('''', '''')) demo_trade_signal
     (manager_start (setup_traders [''ORB'', ''VWAP''] 100000 10))) ''VWAP'' = Some (start_trader (isolated_trader 100000 10))"
proof -
  have reach: "traders_reachable (manager_start (setup_traders [''ORB'', ''VWAP''] 100000 10))"
    by (rule traders_reachable.step[OF traders_reachable.init traders_step.Start])
  show ?thesis
    using traders_isolated[OF reach, of "\<lambda>_. ''2''" 0 "(0, 0, 0, ('''', ''''))" "(0, 0, 0, ('''', ''''))" "(0, 0, 0, ('''', ''''))" demo_trade_signal]
    by (simp add: demo_trade_signal_def get_trader_def manager_start_def setup_traders_def each_trader_def)
qed

end
