(* ===== verification/CFD_Indicators.thy ===== *)
theory CFD_Indicators
  imports Indicators Candle_Builder
begin

section \<open>The indicator library for CFD instruments\<close>

text \<open>
  The computed indicators of \<open>app/strategy/cfd_indicators.py\<close>: MACD, stochastic, Ichimoku,
  parabolic SAR, CCI, Donchian channel and Williams \<open>%R\<close>, each with its series over the whole
  history. As in \<open>Indicators\<close>, periods are natural numbers, \<open>None\<close> for too little data is
  \<open>Inr None\<close>, and a period of zero ends in the exception it raises: the division by the period or
  the maximum of an empty window.
\<close>

definition empty_sequence :: py_exn where
  "empty_sequence = ValueError ''empty sequence''"

text \<open>The windows \<open>xs[i - p + 1: i + 1]\<close> for \<open>i\<close> in \<open>range(p - 1, len(xs))\<close>.\<close>

definition windows :: "nat \<Rightarrow> 'a list \<Rightarrow> 'a list list" where
  "windows p xs = List.map (\<lambda>i. take p (drop i xs)) [0..<length xs + 1 - p]"

definition highest_of :: "candle list \<Rightarrow> pyfloat" where
  "highest_of w = fold max (List.map c_high (tl w)) (c_high (hd w))"

definition lowest_of :: "candle list \<Rightarrow> pyfloat" where
  "lowest_of w = fold min (List.map c_low (tl w)) (c_low (hd w))"

text \<open>\<open>xs[-n:]\<close>, which for zero is the whole list, and \<open>xs[i:j]\<close> with Python's negative indices.\<close>

definition last_n :: "nat \<Rightarrow> 'a list \<Rightarrow> 'a list" where
  "last_n n xs = (if n = 0 then xs else take_last n xs)"

definition slice_index :: "'a list \<Rightarrow> int \<Rightarrow> nat" where
  "slice_index xs i = nat (if i < 0 then max 0 (i + int (length xs)) else min i (int (length xs)))"

definition py_slice :: "'a list \<Rightarrow> int \<Rightarrow> int \<Rightarrow> 'a list" where
  "py_slice xs i j = drop (slice_index xs i) (take (slice_index xs j) xs)"

subsection \<open>MACD\<close>

definition cfd_ema_series :: "pyfloat list \<Rightarrow> nat \<Rightarrow> pyfloat list result" where
  "cfd_ema_series values period =
     (if length values < period then Inr []
      else if period = 0 then Inl ZeroDivisionError
      else
        let k = 2 / (of_nat period + 1); seed = sum_list (take period values) / of_nat period
        in Inr (replicate (period - 1) 0 @ carried (\<lambda>ema_val price. price * k + ema_val * (1 - k)) seed (drop period values)))"

record macd_result =
  macd_line :: pyfloat
  signal_line :: pyfloat
  histogram :: pyfloat

definition macd_values :: "pyfloat list \<Rightarrow> pyfloat list \<Rightarrow> nat \<Rightarrow> pyfloat list" where
  "macd_values fast slow slow_period = drop (slow_period - 1) (map2 (-) fast slow)"

definition macd :: "pyfloat list \<Rightarrow> nat \<Rightarrow> nat \<Rightarrow> nat \<Rightarrow> macd_result option result" where
  "macd closes fast_period slow_period signal_period =
     (if length closes < slow_period + signal_period - 1 then Inr None
      else
        bind_result (cfd_ema_series closes fast_period) (\<lambda>fast_ema.
        bind_result (cfd_ema_series closes slow_period) (\<lambda>slow_ema.
          if fast_ema = [] \<or> slow_ema = [] then Inr None
          else
            let series = macd_values fast_ema slow_ema slow_period in
            if length series < signal_period then Inr None
            else bind_result (cfd_ema_series series signal_period) (\<lambda>signal_ema.
              if signal_ema = [] then Inr None
              else Inr (Some \<lparr>macd_line = last series, signal_line = last signal_ema,
                              histogram = last series - last signal_ema\<rparr>)))))"

definition macd_series :: "pyfloat list \<Rightarrow> nat \<Rightarrow> nat \<Rightarrow> nat \<Rightarrow> macd_result list result" where
  "macd_series closes fast_period slow_period signal_period =
     (if length closes < slow_period + signal_period - 1 then Inr []
      else
        bind_result (cfd_ema_series closes fast_period) (\<lambda>fast_ema.
        bind_result (cfd_ema_series closes slow_period) (\<lambda>slow_ema.
          if fast_ema = [] \<or> slow_ema = [] then Inr []
          else
            let series = macd_values fast_ema slow_ema slow_period in
            if length series < signal_period then Inr []
            else bind_result (cfd_ema_series series signal_period) (\<lambda>signal_ema.
              if signal_ema = [] then Inr []
              else Inr (List.map (\<lambda>(m, s). \<lparr>macd_line = m, signal_line = s, histogram = m - s\<rparr>)
                (drop (signal_period - 1) (zip series signal_ema)))))))"

subsection \<open>Stochastic oscillator\<close>

record stochastic_result =
  st_k :: pyfloat
  st_d :: pyfloat

definition raw_k :: "candle list \<Rightarrow> pyfloat" where
  "raw_k window =
     (let highest = highest_of window; lowest = lowest_of window; denom = highest - lowest
      in if denom = 0 then 50 else (c_close (last window) - lowest) / denom * 100)"

text \<open>The raw and the smoothed \<open>%K\<close> values, which both functions compute in the same way.\<close>

definition raw_ks :: "candle list \<Rightarrow> nat \<Rightarrow> pyfloat list result" where
  "raw_ks candles k_period = (if k_period = 0 then Inl empty_sequence else Inr (List.map raw_k (windows k_period candles)))"

definition moving_means :: "nat \<Rightarrow> pyfloat list \<Rightarrow> pyfloat list result" where
  "moving_means n xs = (if n = 0 then Inl ZeroDivisionError else Inr (List.map (\<lambda>w. sum_list w / of_nat n) (windows n xs)))"

definition stochastic :: "candle list \<Rightarrow> nat \<Rightarrow> nat \<Rightarrow> nat \<Rightarrow> stochastic_result option result" where
  "stochastic candles k_period k_smooth d_period =
     (if length candles < k_period + k_smooth + d_period - 2 then Inr None
      else bind_result (raw_ks candles k_period) (\<lambda>raw.
        if length raw < k_smooth then Inr None
        else bind_result (moving_means k_smooth raw) (\<lambda>slow.
          if length slow < d_period then Inr None
          else bind_result (moving_means d_period slow) (\<lambda>ds.
            if ds = [] then Inr None else Inr (Some \<lparr>st_k = last slow, st_d = last ds\<rparr>)))))"

definition stochastic_series :: "candle list \<Rightarrow> nat \<Rightarrow> nat \<Rightarrow> nat \<Rightarrow> stochastic_result list result" where
  "stochastic_series candles k_period k_smooth d_period =
     (if length candles < k_period + k_smooth + d_period - 2 then Inr []
      else bind_result (raw_ks candles k_period) (\<lambda>raw.
        if length raw < k_smooth then Inr []
        else bind_result (moving_means k_smooth raw) (\<lambda>slow.
          if length slow < d_period then Inr []
          else bind_result (moving_means d_period slow) (\<lambda>ds.
            Inr (List.map (\<lambda>(k, d). \<lparr>st_k = k, st_d = d\<rparr>) (zip (drop (d_period - 1) slow) ds))))))"

subsection \<open>Ichimoku\<close>

record ichimoku_result =
  tenkan_sen :: pyfloat
  kijun_sen :: pyfloat
  senkou_span_a :: pyfloat
  senkou_span_b :: pyfloat
  chikou_span :: pyfloat
  cloud_top :: pyfloat
  cloud_bottom :: pyfloat

definition price_above_cloud :: "ichimoku_result \<Rightarrow> bool" where
  "price_above_cloud r \<longleftrightarrow> chikou_span r > cloud_top r"

definition price_below_cloud :: "ichimoku_result \<Rightarrow> bool" where
  "price_below_cloud r \<longleftrightarrow> chikou_span r < cloud_bottom r"

definition cloud_is_bullish :: "ichimoku_result \<Rightarrow> bool" where
  "cloud_is_bullish r \<longleftrightarrow> senkou_span_a r > senkou_span_b r"

text \<open>The midpoint of the window of \<open>period\<close> candles that ends at index \<open>i\<close>.\<close>

definition mid_price :: "candle list \<Rightarrow> int \<Rightarrow> nat \<Rightarrow> pyfloat result" where
  "mid_price candles i period =
     (let window = py_slice candles (i - int period + 1) (i + 1)
      in if window = [] then Inl empty_sequence else Inr ((highest_of window + lowest_of window) / 2))"

definition ichimoku :: "candle list \<Rightarrow> nat \<Rightarrow> nat \<Rightarrow> nat \<Rightarrow> nat \<Rightarrow> ichimoku_result option result" where
  "ichimoku candles tenkan_period kijun_period senkou_b_period displacement =
     (if length candles < max senkou_b_period (kijun_period + displacement) then Inr None
      else
        let current_idx = int (length candles) - 1 in
        bind_result (mid_price candles current_idx tenkan_period) (\<lambda>tenkan.
        bind_result (mid_price candles current_idx kijun_period) (\<lambda>kijun.
        let senkou_a = (tenkan + kijun) / 2 in
        bind_result (mid_price candles current_idx senkou_b_period) (\<lambda>senkou_b.
        let chikou = c_close (last candles); past_idx = current_idx - int displacement in
        bind_result
          (if past_idx < int (max (max tenkan_period kijun_period) senkou_b_period) - 1 then Inr (senkou_a, senkou_b)
           else
             bind_result (mid_price candles past_idx tenkan_period) (\<lambda>past_tenkan.
             bind_result (mid_price candles past_idx kijun_period) (\<lambda>past_kijun.
             let past_senkou_a = (past_tenkan + past_kijun) / 2 in
             bind_result
               (if past_idx - int senkou_b_period + 1 < 0 then Inr senkou_b else mid_price candles past_idx senkou_b_period)
               (\<lambda>past_senkou_b. Inr (max past_senkou_a past_senkou_b, min past_senkou_a past_senkou_b)))))
          (\<lambda>(cloud_t, cloud_b).
             Inr (Some \<lparr>tenkan_sen = tenkan, kijun_sen = kijun, senkou_span_a = senkou_a, senkou_span_b = senkou_b,
                        chikou_span = chikou, cloud_top = cloud_t, cloud_bottom = cloud_b\<rparr>))))))"

subsection \<open>Parabolic SAR\<close>

record sar_result =
  sar_value :: pyfloat
  sar_uptrend :: bool
  sar_af :: pyfloat

record sar_state =
  ss_sar :: pyfloat
  ss_ep :: pyfloat
  ss_af :: pyfloat
  ss_up :: bool

definition sar_start :: "pyfloat \<Rightarrow> candle list \<Rightarrow> sar_state" where
  "sar_start af_start candles =
     (let is_uptrend = c_close (candles ! 1) > c_close (candles ! 0)
      in if is_uptrend
         then \<lparr>ss_sar = c_low (candles ! 0), ss_ep = c_high (candles ! 0), ss_af = af_start, ss_up = True\<rparr>
         else \<lparr>ss_sar = c_high (candles ! 0), ss_ep = c_low (candles ! 0), ss_af = af_start, ss_up = False\<rparr>)"

text \<open>The body of the loop, at index \<open>i \<ge> 1\<close>.\<close>

definition sar_step :: "pyfloat \<Rightarrow> pyfloat \<Rightarrow> pyfloat \<Rightarrow> candle list \<Rightarrow> sar_state \<Rightarrow> nat \<Rightarrow> sar_state" where
  "sar_step af_start af_increment af_max candles s i =
     (let c = candles ! i; sar = ss_sar s + ss_af s * (ss_ep s - ss_sar s) in
      if ss_up s then
        let sar = (if i \<ge> 2 then min (min sar (c_low (candles ! (i - 1)))) (c_low (candles ! (i - 2)))
                   else min sar (c_low (candles ! (i - 1))))
        in if c_low c < sar then \<lparr>ss_sar = ss_ep s, ss_ep = c_low c, ss_af = af_start, ss_up = False\<rparr>
           else if c_high c > ss_ep s
           then \<lparr>ss_sar = sar, ss_ep = c_high c, ss_af = min (ss_af s + af_increment) af_max, ss_up = True\<rparr>
           else s\<lparr>ss_sar := sar\<rparr>
      else
        let sar = (if i \<ge> 2 then max (max sar (c_high (candles ! (i - 1)))) (c_high (candles ! (i - 2)))
                   else max sar (c_high (candles ! (i - 1))))
        in if c_high c > sar then \<lparr>ss_sar = ss_ep s, ss_ep = c_high c, ss_af = af_start, ss_up = True\<rparr>
           else if c_low c < ss_ep s
           then \<lparr>ss_sar = sar, ss_ep = c_low c, ss_af = min (ss_af s + af_increment) af_max, ss_up = False\<rparr>
           else s\<lparr>ss_sar := sar\<rparr>)"

definition sar_result_of :: "sar_state \<Rightarrow> sar_result" where
  "sar_result_of s = \<lparr>sar_value = ss_sar s, sar_uptrend = ss_up s, sar_af = ss_af s\<rparr>"

definition parabolic_sar :: "candle list \<Rightarrow> pyfloat \<Rightarrow> pyfloat \<Rightarrow> pyfloat \<Rightarrow> sar_result option" where
  "parabolic_sar candles af_start af_increment af_max =
     (if length candles < 2 then None
      else Some (sar_result_of
        (foldl (sar_step af_start af_increment af_max candles) (sar_start af_start candles) [1..<length candles])))"

definition parabolic_sar_series :: "candle list \<Rightarrow> pyfloat \<Rightarrow> pyfloat \<Rightarrow> pyfloat \<Rightarrow> sar_result list" where
  "parabolic_sar_series candles af_start af_increment af_max =
     (if length candles < 2 then []
      else List.map sar_result_of
        (tl (carried (sar_step af_start af_increment af_max candles) (sar_start af_start candles) [1..<length candles])))"

subsection \<open>CCI, Donchian channel, Williams %R\<close>

text \<open>The value for a window, whose length is the period.\<close>

definition cci_of :: "nat \<Rightarrow> candle list \<Rightarrow> pyfloat" where
  "cci_of period window =
     (let typical_prices = List.map (\<lambda>c. (c_high c + c_low c + c_close c) / 3) window;
          tp_mean = sum_list typical_prices / of_nat period;
          mean_deviation = (\<Sum>tp\<leftarrow>typical_prices. \<bar>tp - tp_mean\<bar>) / of_nat period
      in if mean_deviation = 0 then 0 else (last typical_prices - tp_mean) / (15/1000 * mean_deviation))"

definition cci :: "candle list \<Rightarrow> nat \<Rightarrow> pyfloat option result" where
  "cci candles period =
     (if length candles < period then Inr None
      else if period = 0 then Inl ZeroDivisionError
      else Inr (Some (cci_of period (last_n period candles))))"

definition cci_series :: "candle list \<Rightarrow> nat \<Rightarrow> pyfloat list result" where
  "cci_series candles period =
     (if length candles < period then Inr []
      else if period = 0 then Inl ZeroDivisionError
      else Inr (replicate (period - 1) 0 @ List.map (cci_of period) (windows period candles)))"

record donchian_result =
  dc_upper :: pyfloat
  dc_lower :: pyfloat
  dc_middle :: pyfloat
  dc_width :: pyfloat

definition donchian_of :: "candle list \<Rightarrow> donchian_result" where
  "donchian_of window =
     (let upper = highest_of window; lower = lowest_of window
      in \<lparr>dc_upper = upper, dc_lower = lower, dc_middle = (upper + lower) / 2, dc_width = upper - lower\<rparr>)"

definition donchian_channel :: "candle list \<Rightarrow> nat \<Rightarrow> donchian_result option result" where
  "donchian_channel candles period =
     (if length candles < period then Inr None
      else if last_n period candles = [] then Inl empty_sequence
      else Inr (Some (donchian_of (last_n period candles))))"

definition donchian_channel_series :: "candle list \<Rightarrow> nat \<Rightarrow> donchian_result list result" where
  "donchian_channel_series candles period =
     (if length candles < period then Inr []
      else if period = 0 then Inl empty_sequence
      else Inr (List.map donchian_of (windows period candles)))"

definition williams_of :: "candle list \<Rightarrow> pyfloat" where
  "williams_of window =
     (let highest = highest_of window; lowest = lowest_of window; denom = highest - lowest
      in if denom = 0 then -50 else (highest - c_close (last window)) / denom * -100)"

definition williams_r :: "candle list \<Rightarrow> nat \<Rightarrow> pyfloat option result" where
  "williams_r candles period =
     (if length candles < period then Inr None
      else if last_n period candles = [] then Inl empty_sequence
      else Inr (Some (williams_of (last_n period candles))))"

definition williams_r_series :: "candle list \<Rightarrow> nat \<Rightarrow> pyfloat list result" where
  "williams_r_series candles period =
     (if length candles < period then Inr []
      else if period = 0 then Inl empty_sequence
      else Inr (List.map williams_of (windows period candles)))"


subsection \<open>Windows\<close>

lemma length_windows [simp]: "length (windows p xs) = length xs + 1 - p"
  by (simp add: windows_def)

lemma windows_nth [simp]: "i < length xs + 1 - p \<Longrightarrow> windows p xs ! i = take p (drop i xs)"
  unfolding windows_def by (subst nth_map) auto

lemma windows_take: "windows p (take k xs) = take (k + 1 - p) (windows p xs)"
proof (rule nth_equalityI)
  fix i assume "i < length (windows p (take k xs))"
  then have i: "i < length xs + 1 - p" "i < k + 1 - p" by auto
  then have "p \<le> k - i" "i < length (take k xs) + 1 - p" by auto
  then show "windows p (take k xs) ! i = take (k + 1 - p) (windows p xs) ! i"
    using i by (simp add: drop_take min_absorb1)
qed auto

lemma last_window: "p \<le> length xs \<Longrightarrow> last (windows p xs) = take_last p xs"
  by (simp add: windows_def take_last_def Suc_diff_le)

lemma window_parts: "0 < p \<Longrightarrow> w \<in> set (windows p xs) \<Longrightarrow> w \<noteq> [] \<and> length w = p \<and> set w \<subseteq> set xs"
  by (auto simp: windows_def dest: in_set_takeD in_set_dropD)

lemma highest_of_ge: "c \<in> set w \<Longrightarrow> c_high c \<le> highest_of w"
  using fold_max_ge[of "c_high c" "c_high (hd w)" "List.map c_high (tl w)"] unfolding highest_of_def by (cases w) auto

lemma lowest_of_le: "c \<in> set w \<Longrightarrow> lowest_of w \<le> c_low c"
  using fold_min_le[of "c_low c" "c_low (hd w)" "List.map c_low (tl w)"] unfolding lowest_of_def by (cases w) auto

lemma highest_of_in: "w \<noteq> [] \<Longrightarrow> \<exists>c\<in>set w. highest_of w = c_high c"
  using fold_max_in[of "List.map c_high (tl w)" "c_high (hd w)"] unfolding highest_of_def by (cases w) auto

lemma lowest_of_in: "w \<noteq> [] \<Longrightarrow> \<exists>c\<in>set w. lowest_of w = c_low c"
  using fold_min_in[of "List.map c_low (tl w)" "c_low (hd w)"] unfolding lowest_of_def by (cases w) auto

subsection \<open>The series are the values on every prefix\<close>

text \<open>A series is \<open>pointwise\<close> when its entries are the values on the prefixes of \<open>first\<close> and more elements.\<close>

definition pointwise :: "('a list \<Rightarrow> 'b option result) \<Rightarrow> nat \<Rightarrow> 'a list \<Rightarrow> 'b list result \<Rightarrow> bool" where
  "pointwise f first xs series \<longleftrightarrow> (case series of Inl e \<Rightarrow> False
     | Inr vs \<Rightarrow> List.map (\<lambda>k. f (take k xs)) [first..<Suc (length xs)] = List.map (\<lambda>v. Inr (Some v)) vs)"

lemma pointwiseI:
  assumes "length vs = Suc (length xs) - first"
    "\<And>k. first \<le> k \<Longrightarrow> k \<le> length xs \<Longrightarrow> f (take k xs) = Inr (Some (vs ! (k - first)))"
  shows "pointwise f first xs (Inr vs)"
  unfolding pointwise_def by (simp del: upt_Suc, rule nth_equalityI) (use assms in \<open>simp_all del: upt_Suc\<close>)

lemma pointwise_windows:
  assumes "\<And>ys. length ys \<le> length xs \<Longrightarrow> p \<le> length ys \<Longrightarrow> f ys = Inr (Some (g (take_last p ys)))"
  shows "pointwise f p xs (Inr (List.map g (windows p xs)))"
proof (rule pointwiseI)
  fix k assume k: "p \<le> k" "k \<le> length xs"
  have "f (take k xs) = Inr (Some (g (take_last p (take k xs))))" using k by (intro assms) simp_all
  also have "take_last p (take k xs) = windows p xs ! (k - p)" using k by (simp add: take_last_def drop_take)
  finally show "f (take k xs) = Inr (Some (List.map g (windows p xs) ! (k - p)))" using k by simp
qed simp

lemma last_n_take_last: "0 < n \<Longrightarrow> last_n n xs = take_last n xs"
  by (simp add: last_n_def)

lemma take_last_Nil_iff: "take_last n xs = [] \<longleftrightarrow> n = 0 \<or> xs = []"
  by (cases xs) (auto simp: take_last_def)

lemma williams_pointwise: "0 < p \<Longrightarrow> p \<le> length cs \<Longrightarrow> pointwise (\<lambda>cs. williams_r cs p) p cs (williams_r_series cs p)"
proof -
  assume p: "0 < p" "p \<le> length cs"
  have "williams_r ys p = Inr (Some (williams_of (take_last p ys)))" if "p \<le> length ys" for ys
    using that p by (cases ys) (simp_all add: williams_r_def last_n_take_last take_last_Nil_iff)
  then have "pointwise (\<lambda>cs. williams_r cs p) p cs (Inr (List.map williams_of (windows p cs)))" by (intro pointwise_windows)
  then show ?thesis using p by (simp add: williams_r_series_def)
qed

lemma donchian_pointwise:
  "0 < p \<Longrightarrow> p \<le> length cs \<Longrightarrow> pointwise (\<lambda>cs. donchian_channel cs p) p cs (donchian_channel_series cs p)"
proof -
  assume p: "0 < p" "p \<le> length cs"
  have "donchian_channel ys p = Inr (Some (donchian_of (take_last p ys)))" if "p \<le> length ys" for ys
    using that p by (cases ys) (simp_all add: donchian_channel_def last_n_take_last take_last_Nil_iff)
  then have "pointwise (\<lambda>cs. donchian_channel cs p) p cs (Inr (List.map donchian_of (windows p cs)))" by (intro pointwise_windows)
  then show ?thesis using p by (simp add: donchian_channel_series_def)
qed

text \<open>The series of the CCI has placeholders for the first candles.\<close>

lemma cci_pointwise:
  "0 < p \<Longrightarrow> p \<le> length cs \<Longrightarrow> \<exists>vs. cci_series cs p = Inr (replicate (p - 1) 0 @ vs) \<and> pointwise (\<lambda>cs. cci cs p) p cs (Inr vs)"
  unfolding cci_series_def
  using pointwise_windows[of cs p "\<lambda>cs. cci cs p" "cci_of p"]
  by (auto simp: cci_def last_n_take_last)

subsection \<open>The same for the averages and what is built on them\<close>

lemma cfd_ema_series_eq: "cfd_ema_series values period = ema_series values period"
  unfolding cfd_ema_series_def ema_series_def mean_of_def ema_step_def Let_def by simp

lemma carried_take: "k \<le> length xs \<Longrightarrow> carried f s (take k xs) = take (Suc k) (carried f s xs)"
  by (induction xs arbitrary: s k) (auto simp: take_Cons split: nat.split)

lemma ema_series_take:
  assumes "0 < p" "p \<le> k" "k \<le> length xs" "cfd_ema_series xs p = Inr es"
  shows "cfd_ema_series (take k xs) p = Inr (take k es)" "length es = length xs"
proof -
  have "carried f s (take (k - p) (drop p xs)) = take (Suc (k - p)) (carried f s (drop p xs))" for f :: "real \<Rightarrow> real \<Rightarrow> real" and s
    using assms by (intro carried_take) simp
  moreover have "Suc (k - p) = k - (p - 1)" "min p k = p" "k - p \<le> length (drop p xs)" using assms by simp_all
  ultimately show "cfd_ema_series (take k xs) p = Inr (take k es)"
    using assms by (auto simp: cfd_ema_series_def Let_def drop_take min_absorb1)
  show "length es = length xs" using assms by (auto simp: cfd_ema_series_def Let_def)
qed

lemma moving_means_take:
  "moving_means n xs = Inr ms \<Longrightarrow> moving_means n (take k xs) = Inr (take (k + 1 - n) ms)"
  by (auto simp: moving_means_def windows_take take_map split: if_splits)


lemma cfd_ema_series_some: "0 < p \<Longrightarrow> p \<le> length xs \<Longrightarrow> \<exists>es. cfd_ema_series xs p = Inr es \<and> length es = length xs \<and> es \<noteq> []"
  by (auto simp: cfd_ema_series_def Let_def)

lemma moving_means_some: "0 < n \<Longrightarrow> \<exists>ms. moving_means n xs = Inr ms \<and> length ms = length xs + 1 - n"
  by (simp add: moving_means_def)

lemma take_map2: "take k (map2 f xs ys) = map2 f (take k xs) (take k ys)"
  by (simp add: take_map take_zip)

lemma last_take: "n \<le> length xs \<Longrightarrow> 0 < n \<Longrightarrow> last (take n xs) = xs ! (n - 1)"
  by (subst last_conv_nth) (auto simp: min_absorb2)

lemma macd_pointwise:
  assumes "0 < f" "f \<le> s" "0 < g" "s + g - 1 \<le> length xs"
  shows "pointwise (\<lambda>xs. macd xs f s g) (s + g - 1) xs (macd_series xs f s g)"
proof -
  have fl: "f \<le> length xs" and sl: "s \<le> length xs" using assms by linarith+
  obtain fs where fs: "cfd_ema_series xs f = Inr fs" "length fs = length xs"
    using cfd_ema_series_some[of f xs, OF assms(1) fl] by blast
  obtain ss where ss: "cfd_ema_series xs s = Inr ss" "length ss = length xs"
    using cfd_ema_series_some[of s xs, OF _ sl] assms(1,2) by auto
  define mv where "mv = macd_values fs ss s"
  have mv: "length mv = length xs - (s - 1)" by (simp add: mv_def macd_values_def fs ss)
  obtain gs where gs: "cfd_ema_series mv g = Inr gs" "length gs = length mv"
  proof -
    have "g \<le> length mv" using assms mv by linarith
    then show ?thesis using that cfd_ema_series_some[of g mv, OF assms(3)] by blast
  qed
  let ?vs = "List.map (\<lambda>(m, s). \<lparr>macd_line = m, signal_line = s, histogram = m - s\<rparr>) (drop (g - 1) (zip mv gs))"
  have ne: "fs \<noteq> []" "ss \<noteq> []" "gs \<noteq> []" using assms fs ss gs mv by auto
  have "\<not> length mv < g" using assms mv by linarith
  then have "macd_series xs f s g = Inr ?vs"
    using assms ne by (simp add: macd_series_def bind_result_def fs ss gs mv_def[symmetric] Let_def)
  moreover have "pointwise (\<lambda>xs. macd xs f s g) (s + g - 1) xs (Inr ?vs)"
  proof (rule pointwiseI)
    fix k assume k: "s + g - 1 \<le> k" "k \<le> length xs"
    have ks: "s \<le> k" "f \<le> k" using k assms by simp_all
    have e: "cfd_ema_series (take k xs) f = Inr (take k fs)" "cfd_ema_series (take k xs) s = Inr (take k ss)"
      using ema_series_take(1)[OF _ ks(2) k(2) fs(1)] ema_series_take(1)[OF _ ks(1) k(2) ss(1)] assms by simp_all
    have m: "macd_values (take k fs) (take k ss) s = take (k - (s - 1)) mv"
      using ks by (simp add: macd_values_def mv_def take_map2[symmetric] take_drop del: One_nat_def)
    have kg: "g \<le> k - (s - 1)" "k - (s - 1) \<le> length mv" using k mv assms by simp_all
    have eg: "cfd_ema_series (take (k - (s - 1)) mv) g = Inr (take (k - (s - 1)) gs)"
      using ema_series_take(1)[OF assms(3) kg gs(1)] .
    have kne: "take k fs \<noteq> []" "take k ss \<noteq> []" "take (k - (s - 1)) gs \<noteq> []" using ne k assms by auto
    have l: "last (take (k - (s - 1)) mv) = mv ! (k - s)" "last (take (k - (s - 1)) gs) = gs ! (k - s)"
    proof -
      have "0 < k - (s - 1)" "k - (s - 1) - 1 = k - s" using kg(1) ks assms by linarith+
      then show "last (take (k - (s - 1)) mv) = mv ! (k - s)" "last (take (k - (s - 1)) gs) = gs ! (k - s)"
        using last_take[of "k - (s - 1)" mv] last_take[of "k - (s - 1)" gs] kg(2) gs(2) by (simp_all only:)
    qed
    show "macd (take k xs) f s g = Inr (Some (?vs ! (k - (s + g - 1))))"
    proof -
      have "\<not> length (take k xs) < s + g - 1" "\<not> length (take (k - (s - 1)) mv) < g" using k kg by (simp_all add: min_absorb2)
      then have "macd (take k xs) f s g = Inr (Some \<lparr>macd_line = mv ! (k - s), signal_line = gs ! (k - s), histogram = mv ! (k - s) - gs ! (k - s)\<rparr>)"
        unfolding macd_def bind_result_def e Let_def by (simp only: sum.case if_False simp_thms m eg l kne)
      moreover have "k - (s + g - 1) < length (drop (g - 1) (zip mv gs))" "g - 1 + (k - (s + g - 1)) = k - s" "k - s < length mv"
        using k kg gs(2) assms by auto
      then have "?vs ! (k - (s + g - 1)) = \<lparr>macd_line = mv ! (k - s), signal_line = gs ! (k - s), histogram = mv ! (k - s) - gs ! (k - s)\<rparr>"
        using gs(2) by (simp only: nth_map nth_drop nth_zip prod.case length_drop length_zip min.idem less_imp_le)
      ultimately show ?thesis by (simp only:)
    qed
  qed (use mv gs assms in simp)
  ultimately show ?thesis by simp
qed

lemma stochastic_pointwise:
  assumes "0 < p" "0 < m" "0 < d" "p + m + d - 2 \<le> length cs"
  shows "pointwise (\<lambda>cs. stochastic cs p m d) (p + m + d - 2) cs (stochastic_series cs p m d)"
proof -
  define raw where "raw = List.map raw_k (windows p cs)"
  obtain slow where slow: "moving_means m raw = Inr slow" "length slow = length raw + 1 - m" using moving_means_some[OF assms(2)] by blast
  obtain ds where ds: "moving_means d slow = Inr ds" "length ds = length slow + 1 - d" using moving_means_some[OF assms(3)] by blast
  have raw: "raw_ks cs p = Inr raw" "length raw = length cs + 1 - p" using assms(1) by (simp_all add: raw_ks_def raw_def)
  let ?vs = "List.map (\<lambda>(k, d). \<lparr>st_k = k, st_d = d\<rparr>) (zip (drop (d - 1) slow) ds)"
  have "stochastic_series cs p m d = Inr ?vs"
  proof -
    have "\<not> length raw < m" "\<not> length slow < d" using assms raw slow ds by linarith+
    then show ?thesis using assms by (simp add: stochastic_series_def bind_result_def raw(1) slow(1) ds(1))
  qed
  moreover have "pointwise (\<lambda>cs. stochastic cs p m d) (p + m + d - 2) cs (Inr ?vs)"
  proof (rule pointwiseI)
    fix k assume k: "p + m + d - 2 \<le> k" "k \<le> length cs"
    have r: "raw_ks (take k cs) p = Inr (take (k + 1 - p) raw)"
      using assms(1) by (simp add: raw_ks_def raw_def windows_take take_map)
    have s: "moving_means m (take (k + 1 - p) raw) = Inr (take (k + 1 - p + 1 - m) slow)"
      by (rule moving_means_take[OF slow(1)])
    have e: "moving_means d (take (k + 1 - p + 1 - m) slow) = Inr (take (k + 1 - p + 1 - m + 1 - d) ds)"
      by (rule moving_means_take[OF ds(1)])
    have n: "k + 1 - p + 1 - m = k + 2 - p - m" "k + 2 - p - m + 1 - d = k + 3 - p - m - d" using k assms by simp_all
    have len: "k + 2 - p - m \<le> length slow" "k + 3 - p - m - d \<le> length ds" "0 < k + 3 - p - m - d" "d \<le> k + 2 - p - m"
        "k + 1 - p \<le> length raw" "m \<le> k + 1 - p"
      using k assms raw slow ds by simp_all
    have l: "last (take (k + 2 - p - m) slow) = slow ! (k + 1 - p - m)" "last (take (k + 3 - p - m - d) ds) = ds ! (k + 2 - p - m - d)"
    proof -
      have "0 < k + 2 - p - m" using len(4) assms(3) by linarith
      moreover have "k + 2 - p - m - 1 = k + 1 - p - m" "k + 3 - p - m - d - 1 = k + 2 - p - m - d" by arith+
      ultimately show "last (take (k + 2 - p - m) slow) = slow ! (k + 1 - p - m)" "last (take (k + 3 - p - m - d) ds) = ds ! (k + 2 - p - m - d)"
        using last_take[OF len(1)] last_take[OF len(2) len(3)] by (simp_all only:)
    qed
    have ne: "take (k + 3 - p - m - d) ds \<noteq> []" using len(2,3) by (cases ds) auto
    have i: "k - (p + m + d - 2) = k + 2 - p - m - d" "d - 1 + (k + 2 - p - m - d) = k + 1 - p - m" using k assms by simp_all
    have "stochastic (take k cs) p m d = Inr (Some \<lparr>st_k = slow ! (k + 1 - p - m), st_d = ds ! (k + 2 - p - m - d)\<rparr>)"
    proof -
      have "\<not> length (take k cs) < p + m + d - 2" "\<not> length (take (k + 1 - p) raw) < m" "\<not> length (take (k + 2 - p - m) slow) < d"
        using k len by (simp_all add: min_absorb2)
      then show ?thesis unfolding stochastic_def bind_result_def r
        by (simp only: sum.case if_False l ne s[unfolded n] e[unfolded n])
    qed
    moreover have "?vs ! (k + 2 - p - m - d) = \<lparr>st_k = slow ! (k + 1 - p - m), st_d = ds ! (k + 2 - p - m - d)\<rparr>"
    proof -
      have "k + 2 - p - m - d < length (drop (d - 1) slow)" "k + 2 - p - m - d < length ds" "d - 1 \<le> length slow"
        using len ds assms(3) by auto
      then show ?thesis by (simp only: nth_map nth_zip length_zip min_less_iff_conj prod.case nth_drop i(2) simp_thms)
    qed
    ultimately show "stochastic (take k cs) p m d = Inr (Some (?vs ! (k - (p + m + d - 2))))" by (simp only: i(1))
  qed (use assms raw slow ds in simp)
  ultimately show ?thesis by simp
qed

lemma sar_step_take:
  assumes "i < k"
  shows "sar_step a b c (take k cs) s i = sar_step a b c cs s i"
proof -
  have "take k cs ! i = cs ! i" "take k cs ! (i - 1) = cs ! (i - 1)" "take k cs ! (i - 2) = cs ! (i - 2)"
    using assms by simp_all
  then show ?thesis unfolding sar_step_def by (simp only:)
qed

lemma foldl_take_carried: "k \<le> length xs \<Longrightarrow> foldl f s (take k xs) = carried f s xs ! k"
  using carried_take[of k xs f s] by (simp flip: carried_last add: last_conv_nth)

lemma sar_pointwise:
  assumes "2 \<le> length cs"
  shows "pointwise (\<lambda>cs. Inr (parabolic_sar cs a b c)) 2 cs (Inr (parabolic_sar_series cs a b c))"
proof -
  let ?f = "sar_step a b c cs" and ?s = "sar_start a cs"
  have series: "parabolic_sar_series cs a b c = List.map sar_result_of (tl (carried ?f ?s [1..<length cs]))"
    using assms by (simp add: parabolic_sar_series_def)
  show ?thesis unfolding series
  proof (rule pointwiseI)
    fix k assume k: "2 \<le> k" "k \<le> length cs"
    have "foldl (sar_step a b c (take k cs)) s [1..<k] = foldl ?f s [1..<k]" for s
      by (rule foldl_cong) (auto simp: sar_step_take)
    moreover have "sar_start a (take k cs) = ?s" using k by (simp add: sar_start_def)
    moreover have "[1..<k] = take (k - 1) [1..<length cs]" using k by (simp add: take_upt)
    ultimately have "parabolic_sar (take k cs) a b c = Some (sar_result_of (carried ?f ?s [1..<length cs] ! (k - 1)))"
      using k foldl_take_carried[of "k - 1" "[1..<length cs]" ?f ?s] by (simp add: parabolic_sar_def min_absorb2)
    then show "Inr (parabolic_sar (take k cs) a b c) = Inr (Some (List.map sar_result_of (tl (carried ?f ?s [1..<length cs])) ! (k - 2)))"
      using k by (simp add: nth_tl numeral_2_eq_2 Suc_diff_Suc)
  qed simp
qed


text \<open>
  C26: The series have no look-ahead: each entry of the MACD, stochastic, CCI, Donchian, Williams
  and parabolic SAR series is what the single-value function returns on the history up to that bar,
  and there is one entry for every prefix that is long enough.
\<close>

theorem series_without_lookahead:
  assumes "0 < p" "p \<le> length cs" "2 \<le> length cs" "0 < m" "0 < d" "p + m + d - 2 \<le> length cs"
    "0 < f" "f \<le> s" "0 < g" "s + g - 1 \<le> length closes"
  shows "pointwise (\<lambda>xs. macd xs f s g) (s + g - 1) closes (macd_series closes f s g) \<and>
    pointwise (\<lambda>cs. stochastic cs p m d) (p + m + d - 2) cs (stochastic_series cs p m d) \<and>
    (\<exists>vs. cci_series cs p = Inr (replicate (p - 1) 0 @ vs) \<and> pointwise (\<lambda>cs. cci cs p) p cs (Inr vs)) \<and>
    pointwise (\<lambda>cs. donchian_channel cs p) p cs (donchian_channel_series cs p) \<and>
    pointwise (\<lambda>cs. williams_r cs p) p cs (williams_r_series cs p) \<and>
    pointwise (\<lambda>cs. Inr (parabolic_sar cs a b c)) 2 cs (Inr (parabolic_sar_series cs a b c))"
  by (intro conjI macd_pointwise stochastic_pointwise cci_pointwise donchian_pointwise williams_pointwise sar_pointwise assms)

definition demo_candle :: "pyfloat \<Rightarrow> pyfloat \<Rightarrow> pyfloat \<Rightarrow> pyfloat \<Rightarrow> candle" where
  "demo_candle opn high low cl =
     \<lparr>c_exchange = ''CFD'', c_segment = ''FX'', c_token = ''EURUSD'', c_timeframe = M5, c_ms = 0,
      c_open = opn, c_high = high, c_low = low, c_close = cl, c_volume = 1\<rparr>"

definition oscillator_bars :: "candle list" where
  "oscillator_bars = [demo_candle 10 12 8 11, demo_candle 11 13 10 12, demo_candle 12 15 11 14]"

theorem series_without_lookahead_witness:
  "williams_r_series oscillator_bars 2 = Inr [-20, -20] \<and> williams_r (take 2 oscillator_bars) 2 = Inr (Some (-20))"
proof -
  have "williams_r_series oscillator_bars 2 = Inr [-20, -20]"
    by (simp add: williams_r_series_def windows_def oscillator_bars_def demo_candle_def williams_of_def highest_of_def lowest_of_def upt_rec numeral_2_eq_2)
  moreover have "pointwise (\<lambda>cs. williams_r cs 2) 2 oscillator_bars (williams_r_series oscillator_bars 2)"
    using series_without_lookahead[of 2 oscillator_bars 1 1 1 1 1 "[1]"] by (simp add: oscillator_bars_def)
  ultimately show ?thesis by (simp add: pointwise_def oscillator_bars_def numeral_2_eq_2)
qed

subsection \<open>The ranges of the oscillators\<close>

lemma window_range:
  assumes "w \<noteq> []" "list_all ohlc_ok w"
  shows "lowest_of w \<le> c_close (last w)" "c_close (last w) \<le> highest_of w" "lowest_of w \<le> highest_of w"
proof -
  have "ohlc_ok (last w)" using assms by (simp add: list_all_iff)
  then have "c_low (last w) \<le> c_close (last w)" "c_close (last w) \<le> c_high (last w)" by (simp_all add: ohlc_ok_def)
  then show "lowest_of w \<le> c_close (last w)" "c_close (last w) \<le> highest_of w" "lowest_of w \<le> highest_of w"
    using highest_of_ge[of "last w" w] lowest_of_le[of "last w" w] last_in_set[OF assms(1)] by linarith+
qed

lemma raw_k_range:
  assumes "w \<noteq> []" "list_all ohlc_ok w"
  shows "0 \<le> raw_k w \<and> raw_k w \<le> 100"
proof (cases "highest_of w = lowest_of w")
  case False
  then have "0 < highest_of w - lowest_of w" using window_range[OF assms] by simp
  moreover define q where "q = (c_close (last w) - lowest_of w) / (highest_of w - lowest_of w)"
  ultimately have "0 \<le> q" "q \<le> 1" using window_range[OF assms] by (simp_all add: divide_le_eq_1)
  moreover have "raw_k w = q * 100" using False by (simp add: raw_k_def q_def Let_def)
  ultimately show ?thesis by simp
qed (simp add: raw_k_def Let_def)

lemma williams_inverts_stochastic: "williams_of w = raw_k w - 100"
proof (cases "highest_of w = lowest_of w")
  case False
  then show ?thesis by (simp add: williams_of_def raw_k_def Let_def divide_simps)
qed (simp add: williams_of_def raw_k_def Let_def)

lemma windows_ok: "list_all ohlc_ok cs \<Longrightarrow> 0 < p \<Longrightarrow> w \<in> set (windows p cs) \<Longrightarrow> w \<noteq> [] \<and> list_all ohlc_ok w"
  using window_parts[of p w cs] by (auto simp: list_all_iff)

lemma moving_means_range:
  assumes "list_all (\<lambda>x. a \<le> x \<and> x \<le> b) xs" "moving_means n xs = Inr ms"
  shows "list_all (\<lambda>x. a \<le> x \<and> x \<le> b) ms"
proof -
  have n: "0 < n" and ms: "ms = List.map (\<lambda>w. sum_list w / of_nat n) (windows n xs)"
    using assms(2) by (auto simp: moving_means_def split: if_splits)
  have "a \<le> sum_list w / of_nat n \<and> sum_list w / of_nat n \<le> b" if "w \<in> set (windows n xs)" for w
  proof -
    have w: "length w = n" "set w \<subseteq> set xs" using window_parts[OF n that] by simp_all
    then have "list_all (\<lambda>x. a \<le> x) w" "list_all (\<lambda>x. x \<le> b) w" using assms(1) by (auto simp: list_all_iff)
    then show ?thesis using mean_of_ge[of a w n] mean_of_le[of b w n] n w(1) by (simp add: mean_of_def)
  qed
  then show ?thesis by (auto simp: ms list_all_iff)
qed

lemma stochastic_range:
  assumes "list_all ohlc_ok cs" "stochastic cs p m d = Inr (Some r)"
  shows "0 \<le> st_k r \<and> st_k r \<le> 100 \<and> 0 \<le> st_d r \<and> st_d r \<le> 100"
proof -
  obtain raw slow ds where r: "raw_ks cs p = Inr raw" "moving_means m raw = Inr slow" "moving_means d slow = Inr ds" "ds \<noteq> []"
      "\<not> length slow < d" "r = \<lparr>st_k = last slow, st_d = last ds\<rparr>"
    using assms(2) by (auto simp: stochastic_def bind_result_def split: if_splits sum.splits)
  have p: "0 < p" and raw: "raw = List.map raw_k (windows p cs)" using r(1) by (auto simp: raw_ks_def split: if_splits)
  have "list_all (\<lambda>x. 0 \<le> x \<and> x \<le> 100) raw"
    using windows_ok[OF assms(1) p] raw_k_range by (auto simp: raw list_all_iff)
  then have s: "list_all (\<lambda>x. 0 \<le> x \<and> x \<le> 100) slow" by (rule moving_means_range[OF _ r(2)])
  then have "list_all (\<lambda>x. 0 \<le> x \<and> x \<le> 100) ds" by (rule moving_means_range[OF _ r(3)])
  moreover have "slow \<noteq> []" using r(3-5) by (auto simp: moving_means_def split: if_splits)
  ultimately show ?thesis using s r(4) last_in_set[of slow] last_in_set[of ds] unfolding r(6) by (simp add: list_all_iff)
qed

lemma williams_range:
  assumes "list_all ohlc_ok cs" "williams_r cs p = Inr (Some r)"
  shows "-100 \<le> r \<and> r \<le> 0"
proof -
  have r: "last_n p cs \<noteq> []" "r = williams_of (last_n p cs)" using assms(2) by (auto simp: williams_r_def split: if_splits)
  have "list_all ohlc_ok (last_n p cs)"
    using assms(1) by (auto simp: list_all_iff last_n_def take_last_def dest: in_set_dropD)
  then show ?thesis using raw_k_range[OF r(1)] by (simp add: r(2) williams_inverts_stochastic)
qed

text \<open>The deviations from the mean sum to zero, so none is more than half of their total.\<close>

lemma deviation_half:
  fixes xs :: "real list"
  assumes "x \<in> set xs"
  shows "2 * \<bar>x - sum_list xs / of_nat (length xs)\<bar> \<le> (\<Sum>y\<leftarrow>xs. \<bar>y - sum_list xs / of_nat (length xs)\<bar>)"
proof -
  define \<mu> where "\<mu> = sum_list xs / of_nat (length xs)"
  obtain ys zs where xs: "xs = ys @ x # zs" using assms by (meson split_list)
  have "(\<Sum>y\<leftarrow>zs. y - \<mu>) = sum_list zs - of_nat (length zs) * \<mu>" for zs :: "real list"
    by (induction zs) (auto simp: algebra_simps)
  moreover have "of_nat (length xs) * \<mu> = sum_list xs" using assms by (cases xs) (simp_all add: \<mu>_def)
  ultimately have "(\<Sum>y\<leftarrow>xs. y - \<mu>) = 0" by simp
  then have "x - \<mu> = - ((\<Sum>y\<leftarrow>ys @ zs. y - \<mu>))" by (simp add: xs)
  moreover have "\<bar>\<Sum>y\<leftarrow>ys @ zs. y - \<mu>\<bar> \<le> (\<Sum>y\<leftarrow>ys @ zs. \<bar>y - \<mu>\<bar>)"
    using sum_list_abs[of "List.map (\<lambda>y. y - \<mu>) (ys @ zs)"] by (simp add: o_def)
  ultimately have "2 * \<bar>x - \<mu>\<bar> \<le> (\<Sum>y\<leftarrow>xs. \<bar>y - \<mu>\<bar>)" by (simp add: xs)
  then show ?thesis by (simp add: \<mu>_def)
qed

lemma cci_range:
  assumes "cci cs p = Inr (Some r)"
  shows "\<bar>r\<bar> \<le> of_nat p / (3/100)"
proof -
  have p: "0 < p" "p \<le> length cs" and r: "r = cci_of p (take_last p cs)"
    using assms by (auto simp: cci_def last_n_take_last split: if_splits)
  define tps where "tps = List.map (\<lambda>c. (c_high c + c_low c + c_close c) / 3) (take_last p cs)"
  define \<mu> md where "\<mu> = sum_list tps / of_nat p" and "md = (\<Sum>tp\<leftarrow>tps. \<bar>tp - \<mu>\<bar>) / of_nat p"
  have len: "length tps = p" "tps \<noteq> []" using p by (auto simp: tps_def take_last_Nil_iff)
  have "2 * \<bar>last tps - \<mu>\<bar> \<le> md * of_nat p"
    using deviation_half[of "last tps" tps] len p(1) by (simp add: \<mu>_def md_def)
  moreover have md: "0 \<le> md" by (auto simp: md_def intro!: divide_nonneg_nonneg sum_list_nonneg)
  moreover have "r = (if md = 0 then 0 else (last tps - \<mu>) / (15/1000 * md))"
    unfolding r cci_of_def Let_def tps_def[symmetric] \<mu>_def[symmetric] md_def[symmetric] by (rule refl)
  moreover have "\<bar>last tps * 200 - \<mu> * 200\<bar> = 100 * (2 * \<bar>last tps - \<mu>\<bar>)" by (simp add: abs_if)
  moreover have "100 * (2 * \<bar>last tps - \<mu>\<bar>) \<le> md * (of_nat p * 100)" using calculation(1) by simp
  ultimately show ?thesis by (auto simp: abs_divide abs_mult divide_simps mult_ac)
qed

lemma donchian_channel_range:
  assumes "donchian_channel cs p = Inr (Some r)" "0 < p"
  shows "list_all (\<lambda>c. dc_lower r \<le> c_low c \<and> c_high c \<le> dc_upper r) (take_last p cs) \<and>
    list_ex (\<lambda>c. dc_lower r = c_low c) (take_last p cs) \<and> list_ex (\<lambda>c. dc_upper r = c_high c) (take_last p cs)"
proof -
  have ne: "take_last p cs \<noteq> []" and r: "r = donchian_of (take_last p cs)"
    using assms by (auto simp: donchian_channel_def last_n_take_last split: if_splits)
  show ?thesis using highest_of_ge lowest_of_le highest_of_in[OF ne] lowest_of_in[OF ne]
    by (auto simp: r donchian_of_def list_all_iff list_ex_iff Let_def)
qed

text \<open>
  On well-formed candles the stochastic oscillator lies between 0 and 100 and Williams \<open>%R\<close>
  between -100 and 0, and it is the raw stochastic value less 100; the CCI is at most the
  period divided by 0.03 in size; the Donchian channel is the smallest that holds the window.
\<close>

theorem oscillator_bounds:
  assumes "list_all ohlc_ok cs" "stochastic cs p m d = Inr (Some st)" "williams_r cs p = Inr (Some wr)"
    "cci cs p = Inr (Some cc)" "donchian_channel cs p = Inr (Some dc)" "0 < p"
  shows "(0 \<le> st_k st \<and> st_k st \<le> 100 \<and> 0 \<le> st_d st \<and> st_d st \<le> 100) \<and> (-100 \<le> wr \<and> wr \<le> 0) \<and>
    wr = raw_k (take_last p cs) - 100 \<and> \<bar>cc\<bar> \<le> of_nat p / (3/100) \<and>
    list_all (\<lambda>c. dc_lower dc \<le> c_low c \<and> c_high c \<le> dc_upper dc) (take_last p cs) \<and>
    list_ex (\<lambda>c. dc_lower dc = c_low c) (take_last p cs) \<and> list_ex (\<lambda>c. dc_upper dc = c_high c) (take_last p cs)"
proof -
  have "wr = williams_of (take_last p cs)" using assms(3,6) by (auto simp: williams_r_def last_n_take_last split: if_splits)
  then show ?thesis
    using stochastic_range[OF assms(1,2)] williams_range[OF assms(1,3)] cci_range[OF assms(4)] donchian_channel_range[OF assms(5,6)]
    by (simp add: williams_inverts_stochastic)
qed

theorem oscillator_bounds_witness:
  "\<exists>st. stochastic oscillator_bars 2 1 1 = Inr (Some st) \<and> 0 \<le> st_d st \<and> st_d st \<le> 100"
proof -
  have ok: "list_all ohlc_ok oscillator_bars" by (simp add: oscillator_bars_def demo_candle_def ohlc_ok_def)
  have "\<exists>st. stochastic oscillator_bars 2 1 1 = Inr (Some st)"
    by (simp add: stochastic_def bind_result_def raw_ks_def moving_means_def windows_def oscillator_bars_def upt_rec numeral_2_eq_2)
  moreover have "\<exists>r. williams_r oscillator_bars 2 = Inr (Some r)" "\<exists>r. cci oscillator_bars 2 = Inr (Some r)" "\<exists>r. donchian_channel oscillator_bars 2 = Inr (Some r)"
    by (simp_all add: williams_r_def cci_def donchian_channel_def last_n_take_last take_last_Nil_iff, simp_all add: oscillator_bars_def)
  ultimately show ?thesis using oscillator_bounds[OF ok, of 2 1 1] by fastforce
qed


subsection \<open>The parabolic SAR\<close>

text \<open>
  The acceleration stays between its start and its maximum. In an uptrend the SAR is no higher than
  the last low, or the trend has just turned; so in a downtrend.
\<close>

definition sar_ok :: "pyfloat \<Rightarrow> pyfloat \<Rightarrow> candle list \<Rightarrow> nat \<Rightarrow> sar_state \<Rightarrow> bool" where
  "sar_ok a m cs i s \<longleftrightarrow> a \<le> ss_af s \<and> ss_af s \<le> m \<and>
     (if ss_up s then ss_sar s \<le> c_low (cs ! i) \<or> ss_ep s = c_high (cs ! i) \<and> ss_af s = a
      else c_high (cs ! i) \<le> ss_sar s \<or> ss_ep s = c_low (cs ! i) \<and> ss_af s = a)"

lemma sar_step_ok:
  assumes "a \<le> ss_af s" "ss_af s \<le> m" "0 \<le> inc" "a \<le> m"
  shows "sar_ok a m cs i (sar_step a inc m cs s i)"
proof (cases "ss_up s")
  case True
  define x where "x = (if i \<ge> 2 then min (min (ss_sar s + ss_af s * (ss_ep s - ss_sar s)) (c_low (cs ! (i - 1)))) (c_low (cs ! (i - 2)))
                   else min (ss_sar s + ss_af s * (ss_ep s - ss_sar s)) (c_low (cs ! (i - 1))))"
  have "sar_step a inc m cs s i =
      (if c_low (cs ! i) < x then \<lparr>ss_sar = ss_ep s, ss_ep = c_low (cs ! i), ss_af = a, ss_up = False\<rparr>
       else if c_high (cs ! i) > ss_ep s then \<lparr>ss_sar = x, ss_ep = c_high (cs ! i), ss_af = min (ss_af s + inc) m, ss_up = True\<rparr>
       else s\<lparr>ss_sar := x\<rparr>)"
    unfolding sar_step_def Let_def x_def using True by (simp only: if_True)
  then show ?thesis using True assms by (simp add: sar_ok_def)
next
  case False
  define x where "x = (if i \<ge> 2 then max (max (ss_sar s + ss_af s * (ss_ep s - ss_sar s)) (c_high (cs ! (i - 1)))) (c_high (cs ! (i - 2)))
                   else max (ss_sar s + ss_af s * (ss_ep s - ss_sar s)) (c_high (cs ! (i - 1))))"
  have "sar_step a inc m cs s i =
      (if c_high (cs ! i) > x then \<lparr>ss_sar = ss_ep s, ss_ep = c_high (cs ! i), ss_af = a, ss_up = True\<rparr>
       else if c_low (cs ! i) < ss_ep s then \<lparr>ss_sar = x, ss_ep = c_low (cs ! i), ss_af = min (ss_af s + inc) m, ss_up = False\<rparr>
       else s\<lparr>ss_sar := x\<rparr>)"
    unfolding sar_step_def Let_def x_def using False by (simp only: if_False)
  then show ?thesis using False assms by (simp add: sar_ok_def)
qed

lemma parabolic_sar_ok:
  assumes "0 \<le> inc" "a \<le> m" "parabolic_sar cs a inc m = Some r"
  shows "a \<le> sar_af r \<and> sar_af r \<le> m \<and>
    (sar_af r = a \<or> (if sar_uptrend r then sar_value r \<le> c_low (last cs) else c_high (last cs) \<le> sar_value r))"
proof -
  let ?f = "sar_step a inc m cs" and ?s = "sar_start a cs"
  have n: "2 \<le> length cs" and r: "r = sar_result_of (foldl ?f ?s [1..<length cs])"
    using assms(3) by (auto simp: parabolic_sar_def split: if_splits)
  have af: "a \<le> ss_af (foldl ?f ?s is) \<and> ss_af (foldl ?f ?s is) \<le> m" for "is"
  proof (induction "is" rule: rev_induct)
    case Nil
    then show ?case using assms by (simp add: sar_start_def Let_def)
  next
    case (snoc i "is")
    then show ?case using sar_step_ok[OF _ _ assms(1,2), of "foldl ?f ?s is" cs i] by (simp add: sar_ok_def)
  qed
  obtain k where "length cs = Suc k" "1 \<le> k" using n by (cases "length cs") auto
  then have "[1..<length cs] = [1..<length cs - 1] @ [length cs - 1]" by simp
  then have "foldl ?f ?s [1..<length cs] = ?f (foldl ?f ?s [1..<length cs - 1]) (length cs - 1)" by simp
  moreover have "sar_ok a m cs (length cs - 1) (?f (foldl ?f ?s [1..<length cs - 1]) (length cs - 1))"
    using af by (intro sar_step_ok assms) auto
  moreover have "last cs = cs ! (length cs - 1)" using n by (subst last_conv_nth) auto
  ultimately show ?thesis by (auto simp: r sar_result_of_def sar_ok_def split: if_splits)
qed

text \<open>A bar that turns the trend may reach beyond the old extreme, which is the new SAR.\<close>

lemma sar_turn_inside_bar:
  "parabolic_sar [demo_candle 10 12 8 11, demo_candle 11 15 7 12] (2/100) (2/100) (20/100) =
     Some \<lparr>sar_value = 12, sar_uptrend = False, sar_af = 2/100\<rparr>"
  by (simp add: parabolic_sar_def sar_start_def sar_step_def sar_result_of_def demo_candle_def Let_def)

subsection \<open>The Ichimoku cloud\<close>

text \<open>
  With a history long enough for the displaced spans the top of the cloud is above its bottom. With
  less, which the length test lets through, the two are the undisplaced spans in a fixed order and
  may be exchanged.
\<close>

lemma bind_result_Inr: "bind_result r f = Inr y \<longleftrightarrow> (\<exists>x. r = Inr x \<and> f x = Inr y)"
  by (cases r) (simp_all add: bind_result_def)

lemma ichimoku_cloud:
  assumes "ichimoku cs t k b d = Inr (Some r)" "max (max t k) b + d \<le> length cs"
  shows "cloud_bottom r \<le> cloud_top r"
proof -
  have "\<not> int (length cs) - 1 - int d < int (max (max t k) b) - 1" using assms(2) by linarith
  moreover have "\<not> length cs < max b (k + d)" using assms(1) by (auto simp: ichimoku_def)
  ultimately obtain x y where "cloud_top r = max x y" "cloud_bottom r = min x y"
    using assms(1) unfolding ichimoku_def Let_def
    by (simp only: if_False bind_result_Inr sum.inject option.inject)
      (elim exE conjE, hypsubst, unfold prod.case sum.inject option.inject, hypsubst, simp)
  then show ?thesis by simp
qed

lemma ichimoku_cloud_exchanged:
  "ichimoku [demo_candle 20 21 19 20, demo_candle 10 11 9 10] 1 1 2 1 =
     Inr (Some \<lparr>tenkan_sen = 10, kijun_sen = 10, senkou_span_a = 10, senkou_span_b = 15, chikou_span = 10,
                cloud_top = 10, cloud_bottom = 15\<rparr>)"
  by (simp add: ichimoku_def bind_result_def mid_price_def py_slice_def slice_index_def highest_of_def lowest_of_def
      demo_candle_def Let_def)

end
