(* ===== verification/Price_Structure.thy ===== *)
theory Price_Structure
  imports CFD_Indicators Forex_Hours
begin

section \<open>Price structure, sessions and Fibonacci levels\<close>

text \<open>
  The pattern detectors of \<open>app/strategy/cfd_indicators.py\<close>: fair value gaps, order blocks, swing
  points and market structure, RSI divergences, the sessions and kill zones of the day, and
  Fibonacci levels. Candles are read by index, as the code does; \<open>percent\<close> and \<open>three_digits\<close>,
  which print a ratio in a label, are arguments.
\<close>

subsection \<open>Fair value gaps\<close>

datatype fvg_direction = FVG_BULLISH | FVG_BEARISH

record fair_value_gap =
  fvg_direction :: fvg_direction
  fvg_top :: pyfloat
  fvg_bottom :: pyfloat
  fvg_midpoint :: pyfloat
  fvg_index :: nat
  fvg_ms :: pyfloat

definition fvg_size :: "fair_value_gap \<Rightarrow> pyfloat" where
  "fvg_size g = fvg_top g - fvg_bottom g"

text \<open>The gap between \<open>bottom\<close> and \<open>top\<close> around the middle candle, unless it is too small for the filter.\<close>

definition make_gap :: "candle list \<Rightarrow> pyfloat \<Rightarrow> nat \<Rightarrow> fvg_direction \<Rightarrow> pyfloat \<Rightarrow> pyfloat \<Rightarrow> fair_value_gap option" where
  "make_gap candles min_ratio i dir gap_top gap_bottom =
     (let gap_size = gap_top - gap_bottom; mid = candles ! (i - 1); mid_range = c_high mid - c_low mid in
      if min_ratio > 0 \<and> mid_range > 0 \<and> gap_size / mid_range < min_ratio then None
      else Some \<lparr>fvg_direction = dir, fvg_top = gap_top, fvg_bottom = gap_bottom,
                 fvg_midpoint = (gap_top + gap_bottom) / 2, fvg_index = i - 1, fvg_ms = c_ms mid\<rparr>)"

definition gap_at :: "candle list \<Rightarrow> pyfloat \<Rightarrow> nat \<Rightarrow> fair_value_gap option" where
  "gap_at candles min_ratio i =
     (if c_low (candles ! i) > c_high (candles ! (i - 2)) then
        make_gap candles min_ratio i FVG_BULLISH (c_low (candles ! i)) (c_high (candles ! (i - 2)))
      else if c_high (candles ! i) < c_low (candles ! (i - 2)) then
        make_gap candles min_ratio i FVG_BEARISH (c_low (candles ! (i - 2))) (c_high (candles ! i))
      else None)"

definition detect_fvg :: "candle list \<Rightarrow> pyfloat \<Rightarrow> fair_value_gap list" where
  "detect_fvg candles min_ratio =
     (if length candles < 3 then [] else List.map_filter (gap_at candles min_ratio) [2..<length candles])"

definition fills_gap :: "fair_value_gap \<Rightarrow> candle \<Rightarrow> bool" where
  "fills_gap g c \<longleftrightarrow> (if fvg_direction g = FVG_BULLISH then c_low c \<le> fvg_bottom g else c_high c \<ge> fvg_top g)"

definition detect_unfilled_fvg :: "candle list \<Rightarrow> pyfloat \<Rightarrow> fair_value_gap list" where
  "detect_unfilled_fvg candles min_ratio =
     filter (\<lambda>g. \<not> list_ex (fills_gap g) (drop (fvg_index g + 2) candles)) (detect_fvg candles min_ratio)"

subsection \<open>Order blocks\<close>

datatype ob_direction = OB_BULLISH | OB_BEARISH

record order_block =
  ob_direction :: ob_direction
  ob_high :: pyfloat
  ob_low :: pyfloat
  ob_index :: nat
  ob_ms :: pyfloat
  ob_strength :: pyfloat

definition ob_midpoint :: "order_block \<Rightarrow> pyfloat" where
  "ob_midpoint b = (ob_high b + ob_low b) / 2"

definition candle_body :: "candle \<Rightarrow> pyfloat" where
  "candle_body c = c_close c - c_open c"

definition make_block :: "ob_direction \<Rightarrow> candle list \<Rightarrow> nat \<Rightarrow> pyfloat \<Rightarrow> order_block" where
  "make_block dir candles j strength =
     \<lparr>ob_direction = dir, ob_high = c_high (candles ! j), ob_low = c_low (candles ! j), ob_index = j,
      ob_ms = c_ms (candles ! j), ob_strength = strength\<rparr>"

text \<open>The search back for the last opposing candle, over the indices in the order they are tried.\<close>

fun find_block :: "candle list \<Rightarrow> bool \<Rightarrow> pyfloat \<Rightarrow> nat list \<Rightarrow> order_block option" where
  "find_block candles bullish strength [] = None"
| "find_block candles bullish strength (j # js) =
     (if bullish \<and> candle_body (candles ! j) < 0 then Some (make_block OB_BULLISH candles j strength)
      else if \<not> bullish \<and> candle_body (candles ! j) > 0 then Some (make_block OB_BEARISH candles j strength)
      else find_block candles bullish strength js)"

definition order_block_at :: "candle list \<Rightarrow> pyfloat list \<Rightarrow> pyfloat \<Rightarrow> nat \<Rightarrow> nat \<Rightarrow> order_block option" where
  "order_block_at candles atr_vals factor start_idx i =
     (let atr_val = (if i < length atr_vals then atr_vals ! i else 0) in
      if atr_val \<le> 0 then None
      else
        let body = candle_body (candles ! i) in
        if \<bar>body\<bar> < factor * atr_val then None
        else find_block candles (body > 0) (\<bar>body\<bar> / atr_val) (rev [max (i - 15) (start_idx - 1)..<i]))"

text \<open>A period of zero raises in \<open>atr_series\<close>, so the search never starts before the first candle.\<close>

definition detect_order_blocks :: "candle list \<Rightarrow> pyfloat \<Rightarrow> nat \<Rightarrow> nat \<Rightarrow> order_block list result" where
  "detect_order_blocks candles factor atr_period lookback =
     (if length candles < atr_period + 2 then Inr []
      else bind_result (atr_series candles atr_period) (\<lambda>atr_vals.
        if atr_vals = [] then Inr []
        else
          let start_idx = max atr_period (length candles - lookback)
          in Inr (List.map_filter (order_block_at candles atr_vals factor start_idx) [start_idx..<length candles])))"

subsection \<open>Swing points\<close>

datatype swing_type = Swing_HIGH | Swing_LOW

record swing_point =
  sw_type :: swing_type
  sw_price :: pyfloat
  sw_index :: nat
  sw_ms :: pyfloat

text \<open>No candle of the \<open>left\<close> before and the \<open>right\<close> after reaches the candle's high, or its low.\<close>

definition is_swing_high :: "candle list \<Rightarrow> nat \<Rightarrow> nat \<Rightarrow> nat \<Rightarrow> bool" where
  "is_swing_high candles left right i \<longleftrightarrow>
     list_all (\<lambda>j. \<not> c_high (candles ! (i - j)) \<ge> c_high (candles ! i)) [1..<left + 1] \<and>
     list_all (\<lambda>j. \<not> c_high (candles ! (i + j)) \<ge> c_high (candles ! i)) [1..<right + 1]"

definition is_swing_low :: "candle list \<Rightarrow> nat \<Rightarrow> nat \<Rightarrow> nat \<Rightarrow> bool" where
  "is_swing_low candles left right i \<longleftrightarrow>
     list_all (\<lambda>j. \<not> c_low (candles ! (i - j)) \<le> c_low (candles ! i)) [1..<left + 1] \<and>
     list_all (\<lambda>j. \<not> c_low (candles ! (i + j)) \<le> c_low (candles ! i)) [1..<right + 1]"

definition swings_at :: "candle list \<Rightarrow> nat \<Rightarrow> nat \<Rightarrow> nat \<Rightarrow> swing_point list" where
  "swings_at candles left right i =
     (if is_swing_high candles left right i
      then [\<lparr>sw_type = Swing_HIGH, sw_price = c_high (candles ! i), sw_index = i, sw_ms = c_ms (candles ! i)\<rparr>] else []) @
     (if is_swing_low candles left right i
      then [\<lparr>sw_type = Swing_LOW, sw_price = c_low (candles ! i), sw_index = i, sw_ms = c_ms (candles ! i)\<rparr>] else [])"

definition detect_swing_points :: "candle list \<Rightarrow> nat \<Rightarrow> nat \<Rightarrow> swing_point list" where
  "detect_swing_points candles left right =
     (if length candles < left + right + 1 then []
      else sort_key sw_index (concat (List.map (swings_at candles left right) [left..<length candles - right])))"

subsection \<open>Market structure\<close>

datatype structure_event = Event_BOS | Event_CHOCH

datatype trend_bias = Bias_BULLISH | Bias_BEARISH | Bias_NEUTRAL

record structure_break =
  sb_event :: structure_event
  sb_direction :: trend_bias
  sb_level :: pyfloat
  sb_price :: pyfloat
  sb_index :: nat
  sb_ms :: pyfloat

record market_structure =
  ms_swing_points :: "swing_point list"
  ms_breaks :: "structure_break list"
  ms_bias :: trend_bias
  ms_last_high :: "pyfloat option"
  ms_last_low :: "pyfloat option"

record structure_scan =
  sc_pending :: "swing_point list"
  sc_highs :: "swing_point list"
  sc_lows :: "swing_point list"
  sc_bias :: trend_bias
  sc_breaks :: "structure_break list"

text \<open>The \<open>while\<close> loop that moves the swing points up to the candle to the active lists.\<close>

fun activate :: "nat \<Rightarrow> swing_point list \<Rightarrow> swing_point list \<times> swing_point list \<Rightarrow> swing_point list \<times> swing_point list \<times> swing_point list" where
  "activate i [] (highs, lows) = ([], highs, lows)"
| "activate i (sp # rest) (highs, lows) =
     (if sw_index sp \<le> i then
        (if sw_type sp = Swing_HIGH then activate i rest (highs @ [sp], lows) else activate i rest (highs, lows @ [sp]))
      else (sp # rest, highs, lows))"

definition break_event :: "trend_bias \<Rightarrow> trend_bias \<Rightarrow> structure_event" where
  "break_event bias dir = (if bias = dir then Event_BOS else Event_CHOCH)"

definition break_highs :: "candle list \<Rightarrow> nat \<Rightarrow> structure_scan \<Rightarrow> structure_scan" where
  "break_highs candles i s =
     (case filter (\<lambda>sh. c_close (candles ! i) > sw_price sh \<and> i > sw_index sh) (sc_highs s) of
        [] \<Rightarrow> s
      | b # bs \<Rightarrow>
          let broken = max_by (\<lambda>x. of_nat (sw_index x)) b bs
          in s\<lparr>sc_breaks := sc_breaks s @ [\<lparr>sb_event = break_event (sc_bias s) Bias_BULLISH, sb_direction = Bias_BULLISH,
                 sb_level = sw_price broken, sb_price = c_close (candles ! i), sb_index = i, sb_ms = c_ms (candles ! i)\<rparr>],
               sc_bias := Bias_BULLISH, sc_highs := filter (\<lambda>sh. sw_price sh > c_close (candles ! i)) (sc_highs s)\<rparr>)"

text \<open>\<open>min\<close> with a key takes the first of the smallest, so the oldest of the broken lows.\<close>

definition break_lows :: "candle list \<Rightarrow> nat \<Rightarrow> structure_scan \<Rightarrow> structure_scan" where
  "break_lows candles i s =
     (case filter (\<lambda>sl. c_close (candles ! i) < sw_price sl \<and> i > sw_index sl) (sc_lows s) of
        [] \<Rightarrow> s
      | b # bs \<Rightarrow>
          let broken = max_by (\<lambda>x. - of_nat (sw_index x)) b bs
          in s\<lparr>sc_breaks := sc_breaks s @ [\<lparr>sb_event = break_event (sc_bias s) Bias_BEARISH, sb_direction = Bias_BEARISH,
                 sb_level = sw_price broken, sb_price = c_close (candles ! i), sb_index = i, sb_ms = c_ms (candles ! i)\<rparr>],
               sc_bias := Bias_BEARISH, sc_lows := filter (\<lambda>sl. sw_price sl < c_close (candles ! i)) (sc_lows s)\<rparr>)"

definition scan_candle :: "candle list \<Rightarrow> structure_scan \<Rightarrow> nat \<Rightarrow> structure_scan" where
  "scan_candle candles s i =
     (case activate i (sc_pending s) (sc_highs s, sc_lows s) of
        (pending, highs, lows) \<Rightarrow>
          break_lows candles i (break_highs candles i (s\<lparr>sc_pending := pending, sc_highs := highs, sc_lows := lows\<rparr>)))"

definition last_swing :: "swing_type \<Rightarrow> swing_point list \<Rightarrow> swing_point option" where
  "last_swing ty swings = List.find (\<lambda>sp. sw_type sp = ty) (rev swings)"

definition analyze_market_structure :: "candle list \<Rightarrow> nat \<Rightarrow> nat \<Rightarrow> market_structure option" where
  "analyze_market_structure candles left right =
     (if length candles < left + right + 3 then None
      else
        let swings = detect_swing_points candles left right in
        if length swings < 2 then
          Some \<lparr>ms_swing_points = swings, ms_breaks = [], ms_bias = Bias_NEUTRAL, ms_last_high = None, ms_last_low = None\<rparr>
        else
          let s = foldl (scan_candle candles)
                \<lparr>sc_pending = swings, sc_highs = [], sc_lows = [], sc_bias = Bias_NEUTRAL, sc_breaks = []\<rparr> [0..<length candles]
          in Some \<lparr>ms_swing_points = swings, ms_breaks = sc_breaks s, ms_bias = sc_bias s,
                   ms_last_high = map_option sw_price (last_swing Swing_HIGH swings),
                   ms_last_low = map_option sw_price (last_swing Swing_LOW swings)\<rparr>)"

subsection \<open>Sessions and kill zones\<close>

datatype fx_session = Session_SYDNEY | Session_TOKYO | Session_LONDON | Session_NEW_YORK | Session_OFF_HOURS

datatype kill_zone = KZ_LONDON_OPEN | KZ_NEW_YORK_OPEN | KZ_LONDON_NY_OVERLAP | KZ_LONDON_CLOSE | KZ_TOKYO_LONDON_OVERLAP | KZ_NONE

definition SESSION_TIMES :: "(fx_session \<times> int \<times> int) list" where
  "SESSION_TIMES = [(Session_SYDNEY, 21, 6), (Session_TOKYO, 0, 9), (Session_LONDON, 7, 16), (Session_NEW_YORK, 12, 21)]"

text \<open>The UTC hour and minute of a time stamp.\<close>

definition utc_hour :: "pyfloat \<Rightarrow> int" where
  "utc_hour ms = \<lfloor>wall_time ms / hour_ms\<rfloor>"

definition utc_minute :: "pyfloat \<Rightarrow> int" where
  "utc_minute ms = \<lfloor>wall_time ms / 60000\<rfloor> mod 60"

definition session_active :: "int \<Rightarrow> fx_session \<times> int \<times> int \<Rightarrow> bool" where
  "session_active hour x = (case x of (_, start, stop) \<Rightarrow>
     if start < stop then start \<le> hour \<and> hour < stop else hour \<ge> start \<or> hour < stop)"

definition get_active_sessions :: "pyfloat \<Rightarrow> fx_session list" where
  "get_active_sessions ms =
     (let active = List.map fst (filter (session_active (utc_hour ms)) SESSION_TIMES)
      in if active = [] then [Session_OFF_HOURS] else active)"

definition get_kill_zone :: "pyfloat \<Rightarrow> kill_zone" where
  "get_kill_zone ms =
     (let time_decimal = (of_int (utc_hour ms) + of_int (utc_minute ms) / 60 :: pyfloat) in
      if 15 \<le> time_decimal \<and> time_decimal < 16 then KZ_LONDON_CLOSE
      else if 12 \<le> time_decimal \<and> time_decimal < 14 then KZ_NEW_YORK_OPEN
      else if 12 \<le> time_decimal \<and> time_decimal < 16 then KZ_LONDON_NY_OVERLAP
      else if 7 \<le> time_decimal \<and> time_decimal < 8 then KZ_TOKYO_LONDON_OVERLAP
      else if 7 \<le> time_decimal \<and> time_decimal < 9 then KZ_LONDON_OPEN
      else KZ_NONE)"

text \<open>The symbol is upper-cased by \<open>str.upper\<close>, which is an argument.\<close>

definition is_kill_zone_for_instrument :: "(string \<Rightarrow> string) \<Rightarrow> pyfloat \<Rightarrow> string \<Rightarrow> bool" where
  "is_kill_zone_for_instrument upper ms symbol =
     (let kz = get_kill_zone ms in
      if kz = KZ_NONE then False
      else
        let symbol = upper symbol in
        if symbol \<in> {''XAUUSD'', ''XAGUSD''} then
          kz \<in> {KZ_LONDON_OPEN, KZ_LONDON_NY_OVERLAP, KZ_NEW_YORK_OPEN, KZ_LONDON_CLOSE}
        else if symbol \<in> {''EURUSD'', ''GBPUSD'', ''USDJPY''} then
          kz \<in> {KZ_LONDON_OPEN, KZ_NEW_YORK_OPEN, KZ_LONDON_NY_OVERLAP, KZ_TOKYO_LONDON_OVERLAP}
        else if symbol \<in> {''US30'', ''US500'', ''USTEC''} then kz \<in> {KZ_NEW_YORK_OPEN, KZ_LONDON_NY_OVERLAP}
        else if symbol = ''DE40'' then kz \<in> {KZ_LONDON_OPEN, KZ_TOKYO_LONDON_OVERLAP, KZ_LONDON_NY_OVERLAP}
        else if symbol = ''XTIUSD'' then kz \<in> {KZ_NEW_YORK_OPEN, KZ_LONDON_NY_OVERLAP}
        else True)"

subsection \<open>Fibonacci levels\<close>

definition FIBONACCI_LEVELS :: "pyfloat list" where
  "FIBONACCI_LEVELS = [0, 236/1000, 382/1000, 5/10, 618/1000, 786/1000, 1]"

definition FIBONACCI_EXTENSIONS :: "pyfloat list" where
  "FIBONACCI_EXTENSIONS = [1272/1000, 1414/1000, 1618/1000, 2, 2618/1000]"

record fibonacci_level =
  fl_ratio :: pyfloat
  fl_price :: pyfloat
  fl_label :: string

record fibonacci_result =
  fr_swing_high :: pyfloat
  fr_swing_low :: pyfloat
  fr_is_uptrend :: bool
  fr_retracements :: "fibonacci_level list"
  fr_extensions :: "fibonacci_level list"

definition retracement_price :: "pyfloat \<Rightarrow> pyfloat \<Rightarrow> bool \<Rightarrow> pyfloat \<Rightarrow> pyfloat" where
  "retracement_price high low up ratio = (if up then high - ratio * (high - low) else low + ratio * (high - low))"

definition extension_price :: "pyfloat \<Rightarrow> pyfloat \<Rightarrow> bool \<Rightarrow> pyfloat \<Rightarrow> pyfloat" where
  "extension_price high low up ratio = (if up then high + (ratio - 1) * (high - low) else low - (ratio - 1) * (high - low))"

definition fibonacci_retracement ::
  "(pyfloat \<Rightarrow> string) \<Rightarrow> (pyfloat \<Rightarrow> string) \<Rightarrow> pyfloat \<Rightarrow> pyfloat \<Rightarrow> bool \<Rightarrow> bool \<Rightarrow> fibonacci_result" where
  "fibonacci_retracement percent three_digits high low up include_extensions =
     \<lparr>fr_swing_high = high, fr_swing_low = low, fr_is_uptrend = up,
      fr_retracements = List.map (\<lambda>r. \<lparr>fl_ratio = r, fl_price = retracement_price high low up r,
        fl_label = (if r \<noteq> 5/10 then percent r else ''50%'')\<rparr>) FIBONACCI_LEVELS,
      fr_extensions = (if include_extensions
        then List.map (\<lambda>r. \<lparr>fl_ratio = r, fl_price = extension_price high low up r, fl_label = three_digits r\<rparr>) FIBONACCI_EXTENSIONS
        else [])\<rparr>"

definition auto_fibonacci ::
  "(pyfloat \<Rightarrow> string) \<Rightarrow> (pyfloat \<Rightarrow> string) \<Rightarrow> candle list \<Rightarrow> nat \<Rightarrow> nat \<Rightarrow> fibonacci_result option" where
  "auto_fibonacci percent three_digits candles left right =
     (let swings = detect_swing_points candles left right in
      if length swings < 2 then None
      else case (last_swing Swing_HIGH swings, last_swing Swing_LOW swings) of
        (Some h, Some l) \<Rightarrow>
          Some (fibonacci_retracement percent three_digits (sw_price h) (sw_price l) (sw_index h > sw_index l) True)
      | _ \<Rightarrow> None)"

subsection \<open>RSI divergences\<close>

datatype divergence_type = Regular_Bullish | Regular_Bearish | Hidden_Bullish | Hidden_Bearish

record divergence =
  dv_type :: divergence_type
  dv_price_1 :: pyfloat
  dv_rsi_1 :: pyfloat
  dv_index_1 :: nat
  dv_price_2 :: pyfloat
  dv_rsi_2 :: pyfloat
  dv_index_2 :: nat
  dv_ms :: pyfloat

fun rsi_values :: "candle list \<Rightarrow> nat \<Rightarrow> nat list \<Rightarrow> pyfloat option list result" where
  "rsi_values candles rsi_period [] = Inr []"
| "rsi_values candles rsi_period (i # js) =
     bind_result (if i < rsi_period then Inr None else rsi (take (i + 1) (List.map c_close candles)) rsi_period) (\<lambda>v.
     bind_result (rsi_values candles rsi_period js) (\<lambda>vs. Inr (v # vs)))"

text \<open>The pivots, of one kind, with a defined RSI.\<close>

definition rsi_pivots :: "(nat \<Rightarrow> bool) \<Rightarrow> pyfloat option list \<Rightarrow> nat list \<Rightarrow> nat list" where
  "rsi_pivots is_pivot rsis js = filter (\<lambda>i. rsis ! i \<noteq> None \<and> is_pivot i) js"

definition mk_divergence ::
  "candle list \<Rightarrow> (candle \<Rightarrow> pyfloat) \<Rightarrow> divergence_type \<Rightarrow> nat \<Rightarrow> pyfloat \<Rightarrow> nat \<Rightarrow> pyfloat \<Rightarrow> divergence" where
  "mk_divergence candles price ty i1 r1 i2 r2 =
     \<lparr>dv_type = ty, dv_price_1 = price (candles ! i1), dv_rsi_1 = r1, dv_index_1 = i1,
      dv_price_2 = price (candles ! i2), dv_rsi_2 = r2, dv_index_2 = i2, dv_ms = c_ms (candles ! i2)\<rparr>"

text \<open>
  Two pivots in a row: \<open>falling\<close> is the divergence when the price falls and the RSI rises, \<open>rising\<close>
  when the price rises and the RSI falls.
\<close>

definition pivot_pair ::
  "candle list \<Rightarrow> pyfloat option list \<Rightarrow> nat \<Rightarrow> (candle \<Rightarrow> pyfloat) \<Rightarrow> divergence_type \<Rightarrow> divergence_type \<Rightarrow>
   nat \<times> nat \<Rightarrow> divergence list" where
  "pivot_pair candles rsis max_distance price falling rising ij =
     (case ij of (i1, i2) \<Rightarrow>
      if i2 - i1 > max_distance then []
      else case (rsis ! i1, rsis ! i2) of
        (Some r1, Some r2) \<Rightarrow>
          (if price (candles ! i2) < price (candles ! i1) \<and> r2 > r1 then [mk_divergence candles price falling i1 r1 i2 r2] else []) @
          (if price (candles ! i2) > price (candles ! i1) \<and> r2 < r1 then [mk_divergence candles price rising i1 r1 i2 r2] else [])
      | _ \<Rightarrow> [])"

definition detect_rsi_divergence :: "candle list \<Rightarrow> nat \<Rightarrow> nat \<Rightarrow> nat \<Rightarrow> nat \<Rightarrow> divergence list result" where
  "detect_rsi_divergence candles rsi_period left right max_distance =
     (if length candles < rsi_period + left + right + 2 then Inr []
      else bind_result (rsi_values candles rsi_period [0..<length candles]) (\<lambda>rsis.
        let js = [left..<length candles - right];
            lows = rsi_pivots (is_swing_low candles left right) rsis js;
            highs = rsi_pivots (is_swing_high candles left right) rsis js
        in Inr (sort_key dv_index_2
             (concat (List.map (pivot_pair candles rsis max_distance c_low Regular_Bullish Hidden_Bullish) (zip (butlast lows) (tl lows))) @
              concat (List.map (pivot_pair candles rsis max_distance c_high Hidden_Bearish Regular_Bearish) (zip (butlast highs) (tl highs)))))))"


subsection \<open>Gaps\<close>

lemma map_filter_set: "y \<in> set (List.map_filter f xs) \<longleftrightarrow> (\<exists>x\<in>set xs. f x = Some y)"
  by (force simp: List.map_filter_def)

lemma make_gap_parts:
  "make_gap cs q i dir t b = Some g \<Longrightarrow>
   fvg_direction g = dir \<and> fvg_top g = t \<and> fvg_bottom g = b \<and> fvg_midpoint g = (t + b) / 2 \<and> fvg_index g = i - 1"
  by (auto simp: make_gap_def Let_def split: if_splits)

lemma gap_at_parts:
  assumes "gap_at cs q i = Some g"
  shows "fvg_bottom g < fvg_midpoint g" "fvg_midpoint g < fvg_top g" "fvg_index g = i - 1"
    "fvg_direction g = FVG_BULLISH \<Longrightarrow> fvg_top g = c_low (cs ! i) \<and> fvg_bottom g = c_high (cs ! (i - 2))"
    "fvg_direction g = FVG_BEARISH \<Longrightarrow> fvg_top g = c_low (cs ! (i - 2)) \<and> fvg_bottom g = c_high (cs ! i)"
  using assms by (auto simp: gap_at_def dest!: make_gap_parts split: if_splits)

text \<open>
  The unfilled gaps are those between the candles before and after some middle candle, with a
  positive size and the midpoint inside, for which no later candle reaches the far side of the gap.
\<close>

theorem unfilled_gaps_exact:
  "g \<in> set (detect_unfilled_fvg cs q) \<longleftrightarrow>
     (\<exists>i. 2 \<le> i \<and> i < length cs \<and> gap_at cs q i = Some g \<and>
       (\<forall>k. i < k \<and> k < length cs \<longrightarrow>
          (if fvg_direction g = FVG_BULLISH then c_high (cs ! (i - 2)) < c_low (cs ! k) else c_high (cs ! k) < c_low (cs ! (i - 2)))))"
proof -
  have open': "\<not> list_ex (fills_gap g) (drop (fvg_index g + 2) cs) \<longleftrightarrow>
      (\<forall>k. i < k \<and> k < length cs \<longrightarrow>
          (if fvg_direction g = FVG_BULLISH then c_high (cs ! (i - 2)) < c_low (cs ! k) else c_high (cs ! k) < c_low (cs ! (i - 2))))"
    if "2 \<le> i" "gap_at cs q i = Some g" for i
  proof -
    have d: "fvg_index g + 2 = Suc i" using gap_at_parts(3)[OF that(2)] that(1) by simp
    have later: "set (drop (Suc i) cs) = {cs ! k | k. i < k \<and> k < length cs}"
    proof (intro equalityI subsetI)
      fix x assume "x \<in> set (drop (Suc i) cs)"
      then obtain j where "j < length cs - Suc i" "x = cs ! (Suc i + j)" by (auto simp: in_set_conv_nth)
      then show "x \<in> {cs ! k | k. i < k \<and> k < length cs}" by (intro CollectI exI[of _ "Suc i + j"]) auto
    next
      fix x assume "x \<in> {cs ! k | k. i < k \<and> k < length cs}"
      then obtain k where "i < k" "k < length cs" "x = cs ! k" by blast
      then show "x \<in> set (drop (Suc i) cs)" unfolding in_set_conv_nth by (intro exI[of _ "k - Suc i"]) simp
    qed
    have "list_ex (fills_gap g) (drop (fvg_index g + 2) cs) \<longleftrightarrow> (\<exists>k. i < k \<and> k < length cs \<and> fills_gap g (cs ! k))"
      unfolding list_ex_iff d later by auto
    moreover have "fills_gap g c \<longleftrightarrow> \<not> (if fvg_direction g = FVG_BULLISH then c_high (cs ! (i - 2)) < c_low c else c_high c < c_low (cs ! (i - 2)))" for c
      using gap_at_parts(4,5)[OF that(2)] by (cases "fvg_direction g") (auto simp: fills_gap_def)
    ultimately show ?thesis by blast
  qed
  have "g \<in> set (detect_fvg cs q) \<longleftrightarrow> (\<exists>i. 2 \<le> i \<and> i < length cs \<and> gap_at cs q i = Some g)"
    by (auto simp: detect_fvg_def map_filter_set)
  then show ?thesis unfolding detect_unfilled_fvg_def set_filter using open' by blast
qed

definition gap_bars :: "candle list" where
  "gap_bars = [demo_candle 10 11 9 10, demo_candle 10 15 10 15, demo_candle 15 17 13 16, demo_candle 16 17 12 13]"

theorem unfilled_gaps_exact_witness: "List.map fvg_bottom (detect_unfilled_fvg gap_bars 0) = [11] \<and> gap_at gap_bars 0 2 \<noteq> None"
proof -
  have d: "detect_unfilled_fvg gap_bars 0 =
      [\<lparr>fvg_direction = FVG_BULLISH, fvg_top = 13, fvg_bottom = 11, fvg_midpoint = 12, fvg_index = 1, fvg_ms = 0\<rparr>]"
    by (simp add: detect_unfilled_fvg_def detect_fvg_def gap_bars_def gap_at_def make_gap_def fills_gap_def demo_candle_def
        List.map_filter_def upt_rec numeral_2_eq_2)
  then have "\<exists>i. 2 \<le> i \<and> i < length gap_bars \<and> gap_at gap_bars 0 i \<noteq> None"
    using unfilled_gaps_exact[of "hd (detect_unfilled_fvg gap_bars 0)" gap_bars 0] by auto
  then show ?thesis using d by (simp add: gap_bars_def gap_at_def make_gap_def demo_candle_def)
qed

text \<open>A comment in the code says that reaching the near side fills a gap; it does not.\<close>

lemma touched_gap_unfilled: "fvg_top (hd (detect_unfilled_fvg gap_bars 0)) = 13 \<and> c_low (gap_bars ! 3) = 12"
  by (simp add: detect_unfilled_fvg_def detect_fvg_def gap_bars_def gap_at_def make_gap_def fills_gap_def demo_candle_def
      List.map_filter_def upt_rec numeral_2_eq_2)

subsection \<open>Swing points are confirmed and in order\<close>

definition confirmed_swing :: "candle list \<Rightarrow> nat \<Rightarrow> nat \<Rightarrow> swing_point \<Rightarrow> bool" where
  "confirmed_swing cs left right sp \<longleftrightarrow> left \<le> sw_index sp \<and> sw_index sp + right < length cs \<and>
     (case sw_type sp of
        Swing_HIGH \<Rightarrow> is_swing_high cs left right (sw_index sp) \<and> sw_price sp = c_high (cs ! sw_index sp)
      | Swing_LOW \<Rightarrow> is_swing_low cs left right (sw_index sp) \<and> sw_price sp = c_low (cs ! sw_index sp))"

lemma swings_at_confirmed:
  "sp \<in> set (swings_at cs left right i) \<Longrightarrow> left \<le> i \<Longrightarrow> i + right < length cs \<Longrightarrow> confirmed_swing cs left right sp"
  by (auto simp: swings_at_def confirmed_swing_def split: if_splits)

lemma detect_swings_confirmed:
  assumes "sp \<in> set (detect_swing_points cs left right)"
  shows "confirmed_swing cs left right sp"
proof -
  obtain i where "left \<le> i" "i < length cs - right" "sp \<in> set (swings_at cs left right i)"
    using assms by (auto simp: detect_swing_points_def split: if_splits)
  then show ?thesis by (intro swings_at_confirmed) auto
qed

lemma detect_swings_sorted: "sorted (List.map sw_index (detect_swing_points cs left right))"
  by (simp add: detect_swing_points_def)

text \<open>A confirmed high is above the next \<open>right\<close> candles, so a close breaks it only after them.\<close>

lemma confirmed_unbroken:
  assumes "confirmed_swing cs left right sp" "list_all ohlc_ok cs" "sw_index sp < i" "i < length cs"
    "if sw_type sp = Swing_HIGH then sw_price sp < c_close (cs ! i) else c_close (cs ! i) < sw_price sp"
  shows "sw_index sp + right < i"
proof (rule ccontr)
  let ?k = "sw_index sp"
  assume "\<not> ?k + right < i"
  then have j: "i - ?k \<in> set [1..<right + 1]" and i: "?k + (i - ?k) = i" using assms(3) by auto
  have ok: "ohlc_ok (cs ! i)" using assms(2,4) by (simp add: list_all_length)
  show False
  proof (cases "sw_type sp")
    case Swing_HIGH
    then have "\<not> c_high (cs ! (?k + (i - ?k))) \<ge> c_high (cs ! ?k)" "sw_price sp = c_high (cs ! ?k)"
      using assms(1) j unfolding confirmed_swing_def is_swing_high_def list_all_iff by (auto simp del: set_upt)
    then show False using assms(5) ok Swing_HIGH unfolding i by (auto simp: ohlc_ok_def)
  next
    case Swing_LOW
    then have "\<not> c_low (cs ! (?k + (i - ?k))) \<le> c_low (cs ! ?k)" "sw_price sp = c_low (cs ! ?k)"
      using assms(1) j unfolding confirmed_swing_def is_swing_low_def list_all_iff by (auto simp del: set_upt)
    then show False using assms(5) ok Swing_LOW unfolding i by (auto simp: ohlc_ok_def)
  qed
qed


subsection \<open>Market structure\<close>

fun chained :: "trend_bias \<Rightarrow> structure_break list \<Rightarrow> bool" where
  "chained bias [] \<longleftrightarrow> True"
| "chained bias (b # bs) \<longleftrightarrow> sb_event b = break_event bias (sb_direction b) \<and> chained (sb_direction b) bs"

definition bias_after :: "trend_bias \<Rightarrow> structure_break list \<Rightarrow> trend_bias" where
  "bias_after bias bs = (if bs = [] then bias else sb_direction (last bs))"

lemma chained_snoc:
  "chained bias (bs @ [b]) \<longleftrightarrow> chained bias bs \<and> sb_event b = break_event (bias_after bias bs) (sb_direction b)"
  by (induction bs arbitrary: bias) (auto simp: bias_after_def)

text \<open>A break closes beyond a swing point of an earlier candle: above a high, or below a low.\<close>

definition break_of :: "candle list \<Rightarrow> structure_break \<Rightarrow> swing_point \<Rightarrow> bool" where
  "break_of cs b sp \<longleftrightarrow> sb_level b = sw_price sp \<and> sw_index sp < sb_index b \<and> sb_index b < length cs \<and>
     sb_price b = c_close (cs ! sb_index b) \<and>
     (if sw_type sp = Swing_HIGH then sb_direction b = Bias_BULLISH \<and> sb_level b < sb_price b
      else sb_direction b = Bias_BEARISH \<and> sb_price b < sb_level b)"

definition scan_ok :: "candle list \<Rightarrow> swing_point list \<Rightarrow> structure_scan \<Rightarrow> bool" where
  "scan_ok cs swings s \<longleftrightarrow> set (sc_pending s) \<union> set (sc_highs s) \<union> set (sc_lows s) \<subseteq> set swings \<and>
     list_all (\<lambda>sp. sw_type sp = Swing_HIGH) (sc_highs s) \<and> list_all (\<lambda>sp. sw_type sp = Swing_LOW) (sc_lows s) \<and>
     chained Bias_NEUTRAL (sc_breaks s) \<and> sc_bias s = bias_after Bias_NEUTRAL (sc_breaks s) \<and>
     list_all (\<lambda>b. list_ex (break_of cs b) swings) (sc_breaks s)"

lemma activate_ok:
  assumes "activate i pending (highs, lows) = (pending', highs', lows')"
    "list_all (\<lambda>sp. sw_type sp = Swing_HIGH) highs" "list_all (\<lambda>sp. sw_type sp = Swing_LOW) lows"
  shows "set pending' \<union> set highs' \<union> set lows' \<subseteq> set pending \<union> set highs \<union> set lows \<and>
    list_all (\<lambda>sp. sw_type sp = Swing_HIGH) highs' \<and> list_all (\<lambda>sp. sw_type sp = Swing_LOW) lows'"
  using assms
proof (induction pending arbitrary: highs lows)
  case (Cons sp rest)
  show ?case
  proof (cases "sw_index sp \<le> i")
    case True
    then show ?thesis
      using Cons.prems Cons.IH[of "highs @ [sp]" lows] Cons.IH[of highs "lows @ [sp]"]
      by (cases "sw_type sp") auto
  qed (use Cons.prems in auto)
qed simp

lemma break_highs_ok:
  assumes "scan_ok cs swings s" "i < length cs"
  shows "scan_ok cs swings (break_highs cs i s)"
proof (cases "filter (\<lambda>sh. c_close (cs ! i) > sw_price sh \<and> i > sw_index sh) (sc_highs s)")
  case (Cons b bs)
  let ?m = "max_by (\<lambda>x. of_nat (sw_index x)) b bs"
  have "?m \<in> set (filter (\<lambda>sh. c_close (cs ! i) > sw_price sh \<and> i > sw_index sh) (sc_highs s))"
    unfolding Cons by (rule max_by_in)
  then have m: "?m \<in> set (sc_highs s)" "sw_price ?m < c_close (cs ! i)" "sw_index ?m < i" by auto
  then have t: "sw_type ?m = Swing_HIGH" "?m \<in> set swings" using assms(1) by (auto simp: scan_ok_def list_all_iff)
  define x where "x = \<lparr>sb_event = break_event (sc_bias s) Bias_BULLISH, sb_direction = Bias_BULLISH,
                 sb_level = sw_price ?m, sb_price = c_close (cs ! i), sb_index = i, sb_ms = c_ms (cs ! i)\<rparr>"
  have "break_of cs x ?m" using m t assms(2) by (simp add: break_of_def x_def)
  then have x: "list_ex (break_of cs x) swings" using t(2) by (auto simp: list_ex_iff)
  have "break_highs cs i s = s\<lparr>sc_breaks := sc_breaks s @ [x], sc_bias := Bias_BULLISH,
      sc_highs := filter (\<lambda>sh. sw_price sh > c_close (cs ! i)) (sc_highs s)\<rparr>"
    by (simp add: break_highs_def Cons x_def Let_def)
  then show ?thesis using assms(1) x
    by (auto simp: scan_ok_def chained_snoc bias_after_def list_all_iff x_def)
qed (use assms in \<open>simp add: break_highs_def\<close>)

lemma break_lows_ok:
  assumes "scan_ok cs swings s" "i < length cs"
  shows "scan_ok cs swings (break_lows cs i s)"
proof (cases "filter (\<lambda>sl. c_close (cs ! i) < sw_price sl \<and> i > sw_index sl) (sc_lows s)")
  case (Cons b bs)
  let ?m = "max_by (\<lambda>x. - of_nat (sw_index x)) b bs"
  have "?m \<in> set (filter (\<lambda>sl. c_close (cs ! i) < sw_price sl \<and> i > sw_index sl) (sc_lows s))"
    unfolding Cons by (rule max_by_in)
  then have m: "?m \<in> set (sc_lows s)" "c_close (cs ! i) < sw_price ?m" "sw_index ?m < i" by auto
  then have t: "sw_type ?m = Swing_LOW" "?m \<in> set swings" using assms(1) by (auto simp: scan_ok_def list_all_iff)
  define x where "x = \<lparr>sb_event = break_event (sc_bias s) Bias_BEARISH, sb_direction = Bias_BEARISH,
                 sb_level = sw_price ?m, sb_price = c_close (cs ! i), sb_index = i, sb_ms = c_ms (cs ! i)\<rparr>"
  have "break_of cs x ?m" using m t assms(2) by (simp add: break_of_def x_def)
  then have x: "list_ex (break_of cs x) swings" using t(2) by (auto simp: list_ex_iff)
  have "break_lows cs i s = s\<lparr>sc_breaks := sc_breaks s @ [x], sc_bias := Bias_BEARISH,
      sc_lows := filter (\<lambda>sl. sw_price sl < c_close (cs ! i)) (sc_lows s)\<rparr>"
    by (simp add: break_lows_def Cons x_def Let_def)
  then show ?thesis using assms(1) x
    by (auto simp: scan_ok_def chained_snoc bias_after_def list_all_iff x_def)
qed (use assms in \<open>simp add: break_lows_def\<close>)

lemma scan_candle_ok:
  assumes "scan_ok cs swings s" "i < length cs"
  shows "scan_ok cs swings (scan_candle cs s i)"
proof -
  obtain p h l where a: "activate i (sc_pending s) (sc_highs s, sc_lows s) = (p, h, l)" by (metis prod_cases3)
  have "scan_ok cs swings (s\<lparr>sc_pending := p, sc_highs := h, sc_lows := l\<rparr>)"
    using activate_ok[OF a] assms(1) by (auto simp: scan_ok_def)
  then show ?thesis using assms(2) by (simp add: scan_candle_def a break_highs_ok break_lows_ok)
qed

text \<open>
  C27: The breaks of market structure: each closes beyond a confirmed swing point, which on
  well-formed candles lies more than \<open>right\<close> bars back, so nothing is repainted; it continues the
  trend exactly when the break before it had the same direction; and the bias is the direction of
  the last one, or neutral.
\<close>

theorem market_structure_sound:
  assumes "analyze_market_structure cs left right = Some ms"
  shows "chained Bias_NEUTRAL (ms_breaks ms) \<and> ms_bias ms = bias_after Bias_NEUTRAL (ms_breaks ms) \<and>
    list_all (\<lambda>b. list_ex (\<lambda>sp. break_of cs b sp \<and> confirmed_swing cs left right sp \<and>
      (list_all ohlc_ok cs \<longrightarrow> sw_index sp + right < sb_index b)) (ms_swing_points ms)) (ms_breaks ms)"
proof -
  let ?S = "detect_swing_points cs left right"
  have swings: "ms_swing_points ms = ?S"
    using assms by (auto simp: analyze_market_structure_def Let_def split: if_splits)
  have late: "list_ex (\<lambda>sp. break_of cs b sp \<and> confirmed_swing cs left right sp \<and>
      (list_all ohlc_ok cs \<longrightarrow> sw_index sp + right < sb_index b)) ?S" if broken: "list_ex (break_of cs b) ?S" for b
  proof -
    obtain sp where sp: "sp \<in> set ?S" "break_of cs b sp" using broken by (auto simp: list_ex_iff)
    have "confirmed_swing cs left right sp" by (rule detect_swings_confirmed[OF sp(1)])
    moreover have "sw_index sp + right < sb_index b" if "list_all ohlc_ok cs"
      using confirmed_unbroken[OF calculation that, of "sb_index b"] sp(2) by (auto simp: break_of_def split: if_splits)
    ultimately show ?thesis using sp by (auto simp: list_ex_iff)
  qed
  show ?thesis
  proof (cases "length ?S < 2")
    case True
    then show ?thesis using assms by (auto simp: analyze_market_structure_def bias_after_def Let_def split: if_splits)
  next
    case False
    let ?s0 = "\<lparr>sc_pending = ?S, sc_highs = [], sc_lows = [], sc_bias = Bias_NEUTRAL, sc_breaks = []\<rparr>"
    have "scan_ok cs ?S (foldl (scan_candle cs) ?s0 [0..<length cs])"
      by (rule foldl_invariant) (auto simp: scan_candle_ok, simp add: scan_ok_def bias_after_def)
    moreover have "ms_breaks ms = sc_breaks (foldl (scan_candle cs) ?s0 [0..<length cs])"
        "ms_bias ms = sc_bias (foldl (scan_candle cs) ?s0 [0..<length cs])"
      using assms False by (auto simp: analyze_market_structure_def Let_def split: if_splits)
    ultimately show ?thesis using late unfolding swings by (auto simp: scan_ok_def list_all_iff)
  qed
qed

definition structure_bars :: "candle list" where
  "structure_bars = [demo_candle 10 11 9 10, demo_candle 10 13 10 11, demo_candle 11 12 8 9, demo_candle 9 11 9 10,
     demo_candle 10 15 10 14]"

theorem market_structure_sound_witness:
  "\<exists>ms. analyze_market_structure structure_bars 1 1 = Some ms \<and> List.map sb_event (ms_breaks ms) = [Event_CHOCH] \<and>
     ms_bias ms = Bias_BULLISH"
proof -
  have swings: "detect_swing_points structure_bars 1 1 =
      [\<lparr>sw_type = Swing_HIGH, sw_price = 13, sw_index = 1, sw_ms = 0\<rparr>, \<lparr>sw_type = Swing_LOW, sw_price = 8, sw_index = 2, sw_ms = 0\<rparr>]"
    by (simp add: detect_swing_points_def swings_at_def is_swing_high_def is_swing_low_def structure_bars_def demo_candle_def upt_rec)
  have "\<exists>ms. analyze_market_structure structure_bars 1 1 = Some ms \<and> List.map sb_direction (ms_breaks ms) = [Bias_BULLISH]"
    unfolding analyze_market_structure_def swings
    by (simp add: structure_bars_def scan_candle_def break_highs_def break_lows_def demo_candle_def upt_rec Let_def)
  then obtain ms where ms: "analyze_market_structure structure_bars 1 1 = Some ms" "List.map sb_direction (ms_breaks ms) = [Bias_BULLISH]"
    by (elim exE conjE)
  then obtain b where b: "ms_breaks ms = [b]" "sb_direction b = Bias_BULLISH" by auto
  have "chained Bias_NEUTRAL [b]" "ms_bias ms = bias_after Bias_NEUTRAL [b]"
    using market_structure_sound[OF ms(1)] unfolding b(1) by blast+
  then have "sb_event b = Event_CHOCH" "ms_bias ms = Bias_BULLISH" by (simp_all add: b(2) break_event_def bias_after_def)
  then show ?thesis using ms(1) b(1) by (intro exI[of _ ms]) simp
qed


text \<open>
  Of several highs broken at once the newest is reported, of several lows the oldest: the key of
  \<open>min\<close> is the index.
\<close>

lemma broken_low_is_oldest:
  assumes "filter (\<lambda>sl. c_close (cs ! i) < sw_price sl \<and> i > sw_index sl) (sc_lows s) = b # bs"
  shows "\<exists>sp\<in>set (b # bs). (\<forall>x\<in>set (b # bs). sw_index sp \<le> sw_index x) \<and>
    sb_level (last (sc_breaks (break_lows cs i s))) = sw_price sp"
proof (intro bexI conjI ballI)
  let ?m = "max_by (\<lambda>x. - of_nat (sw_index x)) b bs"
  show "?m \<in> set (b # bs)" by (rule max_by_in)
  show "sw_index ?m \<le> sw_index x" if "x \<in> set (b # bs)" for x
    using max_by_ge[OF that, of "\<lambda>x. - of_nat (sw_index x)"] by simp
  show "sb_level (last (sc_breaks (break_lows cs i s))) = sw_price ?m" by (simp add: break_lows_def assms(1) Let_def)
qed

lemma broken_high_is_newest:
  assumes "filter (\<lambda>sh. c_close (cs ! i) > sw_price sh \<and> i > sw_index sh) (sc_highs s) = b # bs"
  shows "\<exists>sp\<in>set (b # bs). (\<forall>x\<in>set (b # bs). sw_index x \<le> sw_index sp) \<and>
    sb_level (last (sc_breaks (break_highs cs i s))) = sw_price sp"
proof (intro bexI conjI ballI)
  let ?m = "max_by (\<lambda>x. of_nat (sw_index x)) b bs"
  show "?m \<in> set (b # bs)" by (rule max_by_in)
  show "sw_index x \<le> sw_index ?m" if "x \<in> set (b # bs)" for x
    using max_by_ge[OF that, of "\<lambda>x. of_nat (sw_index x)"] by simp
  show "sb_level (last (sc_breaks (break_highs cs i s))) = sw_price ?m" by (simp add: break_highs_def assms(1) Let_def)
qed

subsection \<open>Order blocks\<close>

lemma find_block_parts:
  "find_block cs bullish x js = Some b \<Longrightarrow> ob_index b \<in> set js \<and> ob_high b = c_high (cs ! ob_index b) \<and>
     ob_low b = c_low (cs ! ob_index b) \<and> ob_strength b = x \<and> (ob_direction b = OB_BULLISH \<longleftrightarrow> bullish) \<and>
     (if bullish then candle_body (cs ! ob_index b) < 0 else candle_body (cs ! ob_index b) > 0)"
  by (induction js) (auto simp: make_block_def split: if_splits)

text \<open>The block is the candle against the move, within fifteen candles before a body of enough ATRs.\<close>

lemma order_block_sound:
  assumes "order_block_at cs as f start i = Some b"
  shows "ob_index b < i \<and> i \<le> ob_index b + 15 \<and> 0 < as ! i \<and> f * as ! i \<le> \<bar>candle_body (cs ! i)\<bar> \<and>
     ob_strength b * as ! i = \<bar>candle_body (cs ! i)\<bar> \<and>
     (if ob_direction b = OB_BULLISH then candle_body (cs ! ob_index b) < 0 \<and> 0 < candle_body (cs ! i)
      else 0 < candle_body (cs ! ob_index b) \<and> candle_body (cs ! i) \<le> 0)"
  using assms unfolding order_block_at_def Let_def
  by (auto split: if_splits dest!: find_block_parts simp: not_less)

subsection \<open>RSI divergences\<close>

lemma pivot_pair_parts:
  assumes "x \<in> set (pivot_pair cs rsis dist_max price fa ri (i, j))"
  shows "dv_index_1 x = i \<and> dv_index_2 x = j \<and> j - i \<le> dist_max \<and> dv_price_1 x = price (cs ! i) \<and> dv_price_2 x = price (cs ! j) \<and>
    rsis ! i = Some (dv_rsi_1 x) \<and> rsis ! j = Some (dv_rsi_2 x) \<and>
    (dv_type x = fa \<and> dv_price_2 x < dv_price_1 x \<and> dv_rsi_1 x < dv_rsi_2 x \<or>
     dv_type x = ri \<and> dv_price_1 x < dv_price_2 x \<and> dv_rsi_2 x < dv_rsi_1 x)"
  using assms by (auto simp: pivot_pair_def mk_divergence_def split: if_splits option.splits)

lemma consecutive_sorted:
  assumes "sorted_wrt (<) xs" "(i, j) \<in> set (zip (butlast xs) (tl xs))"
  shows "i < j \<and> i \<in> set xs \<and> j \<in> set xs"
proof -
  obtain k where k: "k < length (zip (butlast xs) (tl xs))" "zip (butlast xs) (tl xs) ! k = (i, j)"
    using assms(2) by (auto simp: in_set_conv_nth)
  then have "i = xs ! k" "j = xs ! Suc k" "Suc k < length xs" by (auto simp: nth_butlast nth_tl)
  then show ?thesis using sorted_wrt_nth_less[OF assms(1), of k "Suc k"] by auto
qed

definition divergence_ok :: "candle list \<Rightarrow> nat \<Rightarrow> nat \<Rightarrow> nat \<Rightarrow> divergence \<Rightarrow> bool" where
  "divergence_ok cs left right dist_max x \<longleftrightarrow> dv_index_1 x < dv_index_2 x \<and> dv_index_2 x - dv_index_1 x \<le> dist_max \<and>
     dv_index_2 x + right < length cs \<and>
     (if dv_type x \<in> {Regular_Bullish, Hidden_Bullish}
      then is_swing_low cs left right (dv_index_1 x) \<and> is_swing_low cs left right (dv_index_2 x)
      else is_swing_high cs left right (dv_index_1 x) \<and> is_swing_high cs left right (dv_index_2 x)) \<and>
     (if dv_type x \<in> {Regular_Bullish, Hidden_Bearish} then dv_price_2 x < dv_price_1 x \<and> dv_rsi_1 x < dv_rsi_2 x
      else dv_price_1 x < dv_price_2 x \<and> dv_rsi_2 x < dv_rsi_1 x)"

lemma pivots_divergence_ok:
  assumes "x \<in> set (pivot_pair cs rsis dist_max price fa ri ij)"
    "ij \<in> set (zip (butlast (rsi_pivots P rsis [left..<length cs - right])) (tl (rsi_pivots P rsis [left..<length cs - right])))"
    "fa = Regular_Bullish \<and> ri = Hidden_Bullish \<and> P = is_swing_low cs left right \<or>
     fa = Hidden_Bearish \<and> ri = Regular_Bearish \<and> P = is_swing_high cs left right"
  shows "divergence_ok cs left right dist_max x"
proof -
  obtain i j where ij: "ij = (i, j)" by fastforce
  have s: "sorted_wrt (<) (rsi_pivots P rsis [left..<length cs - right])"
    unfolding rsi_pivots_def by (rule sorted_wrt_filter) simp
  have "i < j" "P i" "P j" "j + right < length cs"
    using consecutive_sorted[OF s, of i j] assms(2) by (auto simp: ij rsi_pivots_def)
  then show ?thesis using pivot_pair_parts[OF assms(1)[unfolded ij]] assms(3) by (auto simp: divergence_ok_def)
qed

text \<open>
  Every RSI divergence compares two confirmed swing points of the same kind, the older first
  and no farther apart than allowed, with the price and the RSI moving in opposite directions as its
  type says; the result is ordered by the later point, and the only exception is a period of zero.
\<close>

theorem divergences_sound:
  assumes "detect_rsi_divergence cs n left right dist_max = Inr ds"
  shows "list_all (divergence_ok cs left right dist_max) ds \<and> sorted (List.map dv_index_2 ds)"
proof (cases "length cs < n + left + right + 2")
  case True
  then show ?thesis using assms by (simp add: detect_rsi_divergence_def)
next
  case False
  then obtain rsis where r: "rsi_values cs n [0..<length cs] = Inr rsis"
    using assms by (auto simp: detect_rsi_divergence_def bind_result_def split: sum.splits)
  show ?thesis using assms False r pivots_divergence_ok
    by (auto simp: detect_rsi_divergence_def bind_result_def list_all_iff Let_def)
qed


definition divergence_bars :: "candle list" where
  "divergence_bars = [demo_candle 10 11 9 10, demo_candle 10 10 5 6, demo_candle 6 12 6 12, demo_candle 12 12 4 11, demo_candle 11 14 10 13]"

theorem divergences_sound_witness:
  "\<exists>ds. detect_rsi_divergence divergence_bars 1 1 1 5 = Inr ds \<and> list_all (divergence_ok divergence_bars 1 1 5) ds"
proof -
  have "\<exists>ds. detect_rsi_divergence divergence_bars 1 1 1 5 = Inr ds"
  proof (cases "detect_rsi_divergence divergence_bars 1 1 1 5")
    case (Inl e)
    have "\<exists>rsis. rsi_values divergence_bars 1 [0..<length divergence_bars] = Inr rsis"
      by (simp add: divergence_bars_def demo_candle_def bind_result_def rsi_def mean_of_def gain_def loss_def wilder_def
          Let_def upt_rec)
    then show ?thesis by (auto simp: detect_rsi_divergence_def bind_result_def divergence_bars_def Let_def)
  qed blast
  then show ?thesis using divergences_sound by blast
qed

subsection \<open>Sessions and kill zones\<close>

text \<open>The four sessions cover the day, so the code never reports off hours.\<close>

lemma utc_hour_range: "0 \<le> utc_hour ms \<and> utc_hour ms < 24"
proof -
  have "0 \<le> wall_time ms / hour_ms" "wall_time ms / hour_ms < 24"
    using wall_time_bounds[of ms] by (simp_all add: hour_ms_def day_ms_def)
  then show ?thesis unfolding utc_hour_def by (simp add: floor_less_iff)
qed

lemma never_off_hours: "Session_OFF_HOURS \<notin> set (get_active_sessions ms)"
proof -
  have "session_active (utc_hour ms) (Session_SYDNEY, 21, 6) \<or> session_active (utc_hour ms) (Session_TOKYO, 0, 9) \<or>
      session_active (utc_hour ms) (Session_LONDON, 7, 16) \<or> session_active (utc_hour ms) (Session_NEW_YORK, 12, 21)"
    using utc_hour_range[of ms] by (auto simp: session_active_def)
  then show ?thesis by (auto simp: get_active_sessions_def SESSION_TIMES_def)
qed

lemma utc_minute_range: "0 \<le> utc_minute ms \<and> utc_minute ms < 60"
  by (simp add: utc_minute_def)

text \<open>The kill zone by the hour: the minute does not matter, and the zones named first hide the others.\<close>

lemma kill_zone_hours:
  "get_kill_zone ms =
     (if utc_hour ms = 7 then KZ_TOKYO_LONDON_OVERLAP else if utc_hour ms = 8 then KZ_LONDON_OPEN
      else if utc_hour ms = 12 \<or> utc_hour ms = 13 then KZ_NEW_YORK_OPEN else if utc_hour ms = 14 then KZ_LONDON_NY_OVERLAP
      else if utc_hour ms = 15 then KZ_LONDON_CLOSE else KZ_NONE)"
proof -
  define t where "t = (of_int (utc_hour ms) + of_int (utc_minute ms) / 60 :: pyfloat)"
  have m: "0 \<le> (of_int (utc_minute ms) / 60 :: pyfloat)" "(of_int (utc_minute ms) / 60 :: pyfloat) < 1"
    using utc_minute_range[of ms] by simp_all
  have below: "t < of_int k \<longleftrightarrow> utc_hour ms < k" for k
  proof
    assume "t < of_int k"
    then have "of_int (utc_hour ms) < (of_int k :: pyfloat)" using m(1) unfolding t_def by linarith
    then show "utc_hour ms < k" by simp
  next
    assume "utc_hour ms < k"
    then have "of_int (utc_hour ms) + 1 \<le> (of_int k :: pyfloat)" by (metis of_int_1 of_int_add of_int_le_iff zless_imp_add1_zle)
    then show "t < of_int k" using m(2) unfolding t_def by linarith
  qed
  have since: "of_int k \<le> t \<longleftrightarrow> k \<le> utc_hour ms" for k using below[of k] by (metis not_le)
  note hours = below[of 8, simplified] below[of 9, simplified] below[of 14, simplified] below[of 16, simplified]
    since[of 7, simplified] since[of 12, simplified] since[of 15, simplified]
  have "get_kill_zone ms =
     (if 15 \<le> t \<and> t < 16 then KZ_LONDON_CLOSE else if 12 \<le> t \<and> t < 14 then KZ_NEW_YORK_OPEN
      else if 12 \<le> t \<and> t < 16 then KZ_LONDON_NY_OVERLAP else if 7 \<le> t \<and> t < 8 then KZ_TOKYO_LONDON_OVERLAP
      else if 7 \<le> t \<and> t < 9 then KZ_LONDON_OPEN else KZ_NONE)"
    unfolding get_kill_zone_def t_def Let_def ..
  also have "\<dots> = (if utc_hour ms = 7 then KZ_TOKYO_LONDON_OVERLAP else if utc_hour ms = 8 then KZ_LONDON_OPEN
      else if utc_hour ms = 12 \<or> utc_hour ms = 13 then KZ_NEW_YORK_OPEN else if utc_hour ms = 14 then KZ_LONDON_NY_OVERLAP
      else if utc_hour ms = 15 then KZ_LONDON_CLOSE else KZ_NONE)"
    unfolding hours by (auto split: if_splits)
  finally show ?thesis .
qed

text \<open>
  So the metals are shut out of the first hour of the London open, and the US indices of the last
  hour of the London and New York overlap, which the list of zones gives them.
\<close>

lemma metals_miss_seven: "utc_hour ms = 7 \<Longrightarrow> upper s = ''XAUUSD'' \<Longrightarrow> \<not> is_kill_zone_for_instrument upper ms s"
  by (simp add: is_kill_zone_for_instrument_def kill_zone_hours)

lemma indices_miss_fifteen: "utc_hour ms = 15 \<Longrightarrow> upper s = ''US30'' \<Longrightarrow> \<not> is_kill_zone_for_instrument upper ms s"
  by (simp add: is_kill_zone_for_instrument_def kill_zone_hours)

subsection \<open>Fibonacci levels\<close>

text \<open>The retracements start at the end of the move, fall back evenly inside it and end where it started; the extensions lie beyond.\<close>

lemma retracement_inside:
  assumes "low \<le> high" "r \<in> set FIBONACCI_LEVELS"
  shows "low \<le> retracement_price high low up r \<and> retracement_price high low up r \<le> high"
proof -
  have r: "0 \<le> r" "r \<le> 1" using assms(2) by (auto simp: FIBONACCI_LEVELS_def)
  then have "0 \<le> r * (high - low)" "r * (high - low) \<le> high - low" using assms(1) by (auto intro: mult_left_le_one_le)
  then show ?thesis by (auto simp: retracement_price_def)
qed

lemma extension_outside:
  assumes "low < high" "r \<in> set FIBONACCI_EXTENSIONS"
  shows "if up then high < extension_price high low up r else extension_price high low up r < low"
  using assms by (auto simp: FIBONACCI_EXTENSIONS_def extension_price_def)

end
