(* ===== verification/NSE_Strategies.thy ===== *)
theory NSE_Strategies
  imports Equity_Paper CFD_Indicators
begin

section \<open>The equity strategies\<close>

text \<open>
  \<open>app/strategy/\<close>: the CPR filter and the ORB, EMA, SMA, squeeze, SuperTrend and VWAP strategies.
  A handler takes the local wall clock \<open>n\<close> (one instant for the whole call), the local zone, the
  shared CPR filter and its own state, and returns the filter and the state as it left them with
  the signal or the exception. A price that is a division by a zero period is that exception.
  Arguments: \<open>texts\<close> prints numbers in names and reasons; the metadata of a signal is left out.
\<close>

record texts =
  two_digits :: "pyfloat \<Rightarrow> string"
  one_digit :: "pyfloat \<Rightarrow> string"
  of_number :: "int \<Rightarrow> string"
  of_float :: "pyfloat \<Rightarrow> string"

subsection \<open>The CPR filter\<close>

datatype cpr_bias = CPR_BULLISH | CPR_BEARISH | CPR_NEUTRAL

datatype market_type = MT_TRENDING | MT_RANGING | MT_NORMAL

record cpr_filter =
  cpr_pp :: pyfloat
  cpr_tc :: pyfloat
  cpr_bc :: pyfloat
  cpr_r1 :: pyfloat
  cpr_s1 :: pyfloat
  cpr_bias :: cpr_bias
  cpr_market_type :: market_type
  cpr_calculated :: bool
  cpr_last_calc :: "int option"

definition new_cpr :: cpr_filter where
  "new_cpr = \<lparr>cpr_pp = 0, cpr_tc = 0, cpr_bc = 0, cpr_r1 = 0, cpr_s1 = 0, cpr_bias = CPR_NEUTRAL,
     cpr_market_type = MT_NORMAL, cpr_calculated = False, cpr_last_calc = None\<rparr>"

definition cpr_calculate :: "pyfloat \<Rightarrow> pyfloat \<Rightarrow> pyfloat \<Rightarrow> pyfloat \<Rightarrow> cpr_filter \<Rightarrow> cpr_filter" where
  "cpr_calculate n prev_high prev_low prev_close f =
     (let pp = (prev_high + prev_low + prev_close) / 3; bc = (prev_high + prev_low) / 2; tc = 2 * pp - bc;
          cpr_width = \<bar>tc - bc\<bar>;
          width_pct = (if pp > 0 then cpr_width / pp * 100 else 0);
          market = (if cpr_width = 0 then
                (let day_range = prev_high - prev_low; range_pct = (if pp > 0 then day_range / pp * 100 else 0)
                 in if range_pct < 15/10 then MT_TRENDING else if range_pct > 3 then MT_RANGING else MT_NORMAL)
              else if width_pct < 3/10 then MT_TRENDING
              else if width_pct > 7/10 then MT_RANGING
              else MT_NORMAL)
      in f\<lparr>cpr_pp := pp, cpr_bc := bc, cpr_tc := tc, cpr_r1 := 2 * pp - prev_low, cpr_s1 := 2 * pp - prev_high,
           cpr_market_type := market, cpr_calculated := True, cpr_last_calc := Some (wall_day n)\<rparr>)"

definition calculate_from_candles :: "pyfloat \<Rightarrow> candle list \<Rightarrow> cpr_filter \<Rightarrow> cpr_filter" where
  "calculate_from_candles n daily f =
     (if daily = [] then f else cpr_calculate n (c_high (last daily)) (c_low (last daily)) (c_close (last daily)) f)"

definition calculate_from_5m_candles :: "zone_clock \<Rightarrow> pyfloat \<Rightarrow> candle list \<Rightarrow> cpr_filter \<Rightarrow> cpr_filter" where
  "calculate_from_5m_candles loc n cs f =
     (if cs = [] then f
      else
        let before = filter (\<lambda>c. wall_day (to_wall loc (c_ms c)) < wall_day n) cs;
            ys = (if before = [] then cs else before)
        in cpr_calculate n (highest_of ys) (lowest_of ys) (c_close (last ys)) f)"

definition update_bias :: "pyfloat \<Rightarrow> cpr_filter \<Rightarrow> cpr_filter" where
  "update_bias price f =
     (if \<not> cpr_calculated f then f
      else if price > cpr_tc f then f\<lparr>cpr_bias := CPR_BULLISH\<rparr>
      else if price < cpr_bc f then f\<lparr>cpr_bias := CPR_BEARISH\<rparr>
      else f\<lparr>cpr_bias := CPR_NEUTRAL\<rparr>)"

definition allows_signal :: "signal_type \<Rightarrow> pyfloat \<Rightarrow> cpr_filter \<Rightarrow> bool \<times> cpr_filter" where
  "allows_signal st price f =
     (if \<not> cpr_calculated f then (True, f)
      else
        let f = update_bias price f in
        if cpr_bias f = CPR_NEUTRAL then (True, f)
        else if cpr_bias f = CPR_BULLISH \<and> st = Signal_SELL then (False, f)
        else if cpr_bias f = CPR_BEARISH \<and> st = Signal_BUY then (False, f)
        else (True, f))"

definition maybe_recalculate :: "zone_clock \<Rightarrow> pyfloat \<Rightarrow> candle list \<Rightarrow> cpr_filter \<Rightarrow> cpr_filter" where
  "maybe_recalculate loc n cs f = (if Some (wall_day n) \<noteq> cpr_last_calc f then calculate_from_5m_candles loc n cs f else f)"

text \<open>The test the strategies make, with a filter that may be absent.\<close>

definition cpr_allows :: "signal_type \<Rightarrow> pyfloat \<Rightarrow> cpr_filter option \<Rightarrow> bool \<times> cpr_filter option" where
  "cpr_allows st price cpr =
     (case cpr of None \<Rightarrow> (True, None) | Some f \<Rightarrow> (case allows_signal st price f of (b, f') \<Rightarrow> (b, Some f')))"

subsection \<open>What the strategies share\<close>

definition NO_TRADE_BEFORE :: pyfloat where
  "NO_TRADE_BEFORE = 9 * hour_ms + 30 * 60000"

definition NO_TRADE_AFTER :: pyfloat where
  "NO_TRADE_AFTER = 15 * hour_ms + 15 * 60000"

definition get_today_candles :: "zone_clock \<Rightarrow> pyfloat \<Rightarrow> candle list \<Rightarrow> candle \<Rightarrow> candle list" where
  "get_today_candles loc n history c =
     filter (\<lambda>x. c_ms x \<ge> of_wall loc (combine (wall_day n) NSE_OPEN)) history @ [c]"

type_synonym 's handler_result = "'s \<times> cpr_filter option \<times> trade_signal option result"

definition no_signal :: "'s \<Rightarrow> cpr_filter option \<Rightarrow> 's handler_result" where
  "no_signal s cpr = (s, cpr, Inr None)"

text \<open>A step that reads an indicator: its exception leaves the handler with the state so far.\<close>

definition reading :: "'a result \<Rightarrow> 's \<Rightarrow> cpr_filter option \<Rightarrow> ('a \<Rightarrow> 's handler_result) \<Rightarrow> 's handler_result" where
  "reading r s cpr f = (case r of Inl e \<Rightarrow> (s, cpr, Inl e) | Inr x \<Rightarrow> f x)"

definition signal_of ::
  "signal_type \<Rightarrow> candle \<Rightarrow> string \<Rightarrow> string \<Rightarrow> pyfloat option \<Rightarrow> pyfloat option \<Rightarrow> trade_signal" where
  "signal_of st c strategy reason sl tp =
     \<lparr>sg_type = st, sg_exchange = c_exchange c, sg_segment = c_segment c, sg_token = c_token c, sg_price = c_close c,
      sg_ms = c_ms c, sg_strategy_name = strategy, sg_reason = reason, sg_stop_loss = sl, sg_take_profit = tp\<rparr>"

definition lookup_or :: "('k \<rightharpoonup> 'v) \<Rightarrow> 'k \<Rightarrow> 'v \<Rightarrow> 'v" where
  "lookup_or m k d = (case m k of None \<Rightarrow> d | Some v \<Rightarrow> v)"

definition serves :: "string list \<Rightarrow> candle \<Rightarrow> bool" where
  "serves tokens c \<longleftrightarrow> tokens = [] \<or> c_token c \<in> set tokens"

subsection \<open>Opening range breakout\<close>

definition ORB_END_FORMATION :: pyfloat where
  "ORB_END_FORMATION = 9 * hour_ms + 31 * 60000"

record orb_strategy =
  orb_tokens :: "string list"
  orb_rr :: pyfloat
  orb_max_range_pct :: pyfloat
  orb_min_range_pct :: pyfloat
  orb_use_vwap :: bool
  orb_high :: "string \<rightharpoonup> pyfloat"
  orb_low :: "string \<rightharpoonup> pyfloat"
  orb_ready :: "string \<rightharpoonup> bool"
  orb_volume :: "string \<rightharpoonup> int list"
  orb_long_taken :: "string \<rightharpoonup> bool"
  orb_short_taken :: "string \<rightharpoonup> bool"
  orb_last_reset :: "int option"

definition new_orb :: "string list \<Rightarrow> pyfloat \<Rightarrow> pyfloat \<Rightarrow> pyfloat \<Rightarrow> bool \<Rightarrow> orb_strategy" where
  "new_orb tokens rr max_range_pct min_range_pct use_vwap =
     \<lparr>orb_tokens = tokens, orb_rr = rr, orb_max_range_pct = max_range_pct, orb_min_range_pct = min_range_pct,
      orb_use_vwap = use_vwap, orb_high = Map.empty, orb_low = Map.empty, orb_ready = Map.empty, orb_volume = Map.empty,
      orb_long_taken = Map.empty, orb_short_taken = Map.empty, orb_last_reset = None\<rparr>"

definition orb_maybe_reset :: "pyfloat \<Rightarrow> orb_strategy \<Rightarrow> orb_strategy" where
  "orb_maybe_reset n s =
     (if Some (wall_day n) \<noteq> orb_last_reset s
      then s\<lparr>orb_high := Map.empty, orb_low := Map.empty, orb_ready := Map.empty, orb_volume := Map.empty,
             orb_long_taken := Map.empty, orb_short_taken := Map.empty, orb_last_reset := Some (wall_day n)\<rparr>
      else s)"

definition orb_extend_range :: "candle \<Rightarrow> orb_strategy \<Rightarrow> orb_strategy" where
  "orb_extend_range c s =
     (let token = c_token c in
      case orb_high s token of
        None \<Rightarrow> s\<lparr>orb_high := (orb_high s)(token \<mapsto> c_high c), orb_low := (orb_low s)(token \<mapsto> c_low c),
                 orb_volume := (orb_volume s)(token \<mapsto> [c_volume c])\<rparr>
      | Some h \<Rightarrow> s\<lparr>orb_high := (orb_high s)(token \<mapsto> max h (c_high c)),
                   orb_low := (orb_low s)(token \<mapsto> min (lookup_or (orb_low s) token 0) (c_low c)),
                   orb_volume := (orb_volume s)(token \<mapsto> lookup_or (orb_volume s) token [] @ [c_volume c])\<rparr>)"

text \<open>The range is checked when it is complete; the second component tells the handler to stop.\<close>

definition orb_check_range :: "pyfloat \<Rightarrow> string \<Rightarrow> orb_strategy \<Rightarrow> orb_strategy \<times> bool" where
  "orb_check_range now token s =
     (if now > ORB_END_FORMATION \<and> \<not> lookup_or (orb_ready s) token False then
        (case (orb_high s token, orb_low s token) of
           (Some h, Some l) \<Rightarrow>
             (let range_size = h - l; mid_price = (h + l) / 2;
                  range_pct = (if mid_price > 0 then range_size / mid_price * 100 else 0)
              in if range_pct > orb_max_range_pct s then (s\<lparr>orb_ready := (orb_ready s)(token \<mapsto> False)\<rparr>, True)
                 else if range_pct < orb_min_range_pct s then (s\<lparr>orb_ready := (orb_ready s)(token \<mapsto> False)\<rparr>, True)
                 else (s\<lparr>orb_ready := (orb_ready s)(token \<mapsto> True)\<rparr>, False))
         | _ \<Rightarrow> (s, False))
      else (s, False))"

definition orb_check_breakout ::
  "texts \<Rightarrow> zone_clock \<Rightarrow> pyfloat \<Rightarrow> candle \<Rightarrow> candle list \<Rightarrow> cpr_filter option \<Rightarrow> orb_strategy \<Rightarrow> orb_strategy handler_result" where
  "orb_check_breakout tx loc n c history cpr s =
     (let token = c_token c; range_high = lookup_or (orb_high s) token 0; range_low = lookup_or (orb_low s) token 0;
          range_size = range_high - range_low; vols = lookup_or (orb_volume s) token [];
          avg_range_vol = (if vols = [] then 0 else of_int (sum_list vols) / of_nat (length vols) :: pyfloat);
          has_volume = (if avg_range_vol > 0 then of_int (c_volume c) > avg_range_vol else True);
          vwap_val = (if orb_use_vwap s \<and> history \<noteq> [] then vwap (get_today_candles loc n history c) else None);
          vwap_ok_long = (case vwap_val of None \<Rightarrow> True | Some v \<Rightarrow> c_close c > v);
          vwap_ok_short = (case vwap_val of None \<Rightarrow> True | Some v \<Rightarrow> c_close c < v)
      in if \<not> lookup_or (orb_long_taken s) token False \<and> c_close c > range_high \<and> has_volume \<and> vwap_ok_long then
           (case cpr_allows Signal_BUY (c_close c) cpr of
              (False, cpr) \<Rightarrow> no_signal s cpr
            | (True, cpr) \<Rightarrow>
                (s\<lparr>orb_long_taken := (orb_long_taken s)(token \<mapsto> True)\<rparr>, cpr,
                 Inr (Some (signal_of Signal_BUY c ''ORB_15min'' (''ORB bullish breakout above '' @ two_digits tx range_high)
                   (Some range_low) (Some (c_close c + orb_rr s * range_size))))))
         else if \<not> lookup_or (orb_short_taken s) token False \<and> c_close c < range_low \<and> has_volume \<and> vwap_ok_short then
           (case cpr_allows Signal_SELL (c_close c) cpr of
              (False, cpr) \<Rightarrow> no_signal s cpr
            | (True, cpr) \<Rightarrow>
                (s\<lparr>orb_short_taken := (orb_short_taken s)(token \<mapsto> True)\<rparr>, cpr,
                 Inr (Some (signal_of Signal_SELL c ''ORB_15min'' (''ORB bearish breakout below '' @ two_digits tx range_low)
                   (Some range_high) (Some (c_close c - orb_rr s * range_size))))))
         else no_signal s cpr)"

definition orb_on_candle ::
  "texts \<Rightarrow> zone_clock \<Rightarrow> pyfloat \<Rightarrow> candle \<Rightarrow> candle list \<Rightarrow> cpr_filter option \<Rightarrow> orb_strategy \<Rightarrow> orb_strategy handler_result" where
  "orb_on_candle tx loc n c history cpr s =
     (if c_timeframe c \<noteq> M5 then no_signal s cpr
      else if \<not> serves (orb_tokens s) c then no_signal s cpr
      else
        let s = orb_maybe_reset n s; now = wall_time n in
        if NSE_OPEN \<le> now \<and> now \<le> ORB_END_FORMATION then no_signal (orb_extend_range c s) cpr
        else case orb_check_range now (c_token c) s of
          (s, True) \<Rightarrow> no_signal s cpr
        | (s, False) \<Rightarrow>
            if \<not> lookup_or (orb_ready s) (c_token c) False then no_signal s cpr
            else if \<not> (NO_TRADE_BEFORE \<le> now \<and> now \<le> NO_TRADE_AFTER) then no_signal s cpr
            else orb_check_breakout tx loc n c history cpr s)"

subsection \<open>EMA crossover\<close>

record ema_strategy =
  em_tokens :: "string list"
  em_fast :: nat
  em_slow :: nat
  em_adx_threshold :: pyfloat
  em_atr_period :: nat
  em_sl_mult :: pyfloat
  em_tp_mult :: pyfloat
  em_use_vwap :: bool
  em_cooldown :: int
  em_prev_fast :: "string \<rightharpoonup> pyfloat"
  em_prev_slow :: "string \<rightharpoonup> pyfloat"
  em_since :: "string \<rightharpoonup> int"
  em_last_reset :: "int option"

definition new_ema :: "string list \<Rightarrow> nat \<Rightarrow> nat \<Rightarrow> pyfloat \<Rightarrow> nat \<Rightarrow> pyfloat \<Rightarrow> pyfloat \<Rightarrow> bool \<Rightarrow> int \<Rightarrow> ema_strategy" where
  "new_ema tokens fast slow adx_threshold atr_period sl_mult tp_mult use_vwap cooldown =
     \<lparr>em_tokens = tokens, em_fast = fast, em_slow = slow, em_adx_threshold = adx_threshold, em_atr_period = atr_period,
      em_sl_mult = sl_mult, em_tp_mult = tp_mult, em_use_vwap = use_vwap, em_cooldown = cooldown,
      em_prev_fast = Map.empty, em_prev_slow = Map.empty, em_since = Map.empty, em_last_reset = None\<rparr>"

definition ema_maybe_reset :: "pyfloat \<Rightarrow> ema_strategy \<Rightarrow> ema_strategy" where
  "ema_maybe_reset n s =
     (if Some (wall_day n) \<noteq> em_last_reset s
      then s\<lparr>em_prev_fast := Map.empty, em_prev_slow := Map.empty, em_since := Map.empty, em_last_reset := Some (wall_day n)\<rparr>
      else s)"

definition count_candle :: "string \<Rightarrow> (string \<rightharpoonup> int) \<Rightarrow> (string \<rightharpoonup> int)" where
  "count_candle token m = (case m token of None \<Rightarrow> m | Some k \<Rightarrow> m(token \<mapsto> k + 1))"

definition ema_name :: "texts \<Rightarrow> ema_strategy \<Rightarrow> string" where
  "ema_name tx s = ''EMA_Crossover('' @ of_number tx (int (em_fast s)) @ ''/'' @ of_number tx (int (em_slow s)) @ '')''"

definition ema_reason :: "texts \<Rightarrow> ema_strategy \<Rightarrow> string \<Rightarrow> pyfloat \<Rightarrow> string" where
  "ema_reason tx s dir adx_val =
     ''EMA '' @ of_number tx (int (em_fast s)) @ '' crossed '' @ dir @ '' EMA '' @ of_number tx (int (em_slow s)) @
     '' (ADX='' @ one_digit tx adx_val @ '')''"

text \<open>From the crossover on: the filters, the cooldown reset and the signal.\<close>

definition ema_signal ::
  "texts \<Rightarrow> zone_clock \<Rightarrow> pyfloat \<Rightarrow> candle \<Rightarrow> candle list \<Rightarrow> candle list \<Rightarrow> bool \<Rightarrow> cpr_filter option \<Rightarrow> ema_strategy \<Rightarrow>
   ema_strategy handler_result" where
  "ema_signal tx loc n c history all_candles bullish cpr s =
     (let token = c_token c; candles_since = lookup_or (em_since s) token (em_cooldown s + 1) in
      if candles_since < em_cooldown s then no_signal s cpr
      else reading (adx all_candles 14) s cpr (\<lambda>adx_val. case adx_val of None \<Rightarrow> no_signal s cpr | Some adx_val \<Rightarrow>
        if adx_val < em_adx_threshold s then no_signal s cpr
        else reading (atr all_candles (em_atr_period s)) s cpr (\<lambda>atr_val. case atr_val of None \<Rightarrow> no_signal s cpr | Some atr_val \<Rightarrow>
          if atr_val \<le> 0 then no_signal s cpr
          else
            let vwap_val = (if em_use_vwap s then vwap (get_today_candles loc n history c) else None);
                rejected = (case vwap_val of None \<Rightarrow> False
                  | Some v \<Rightarrow> if bullish then c_close c < v * (998/1000) else c_close c > v * (1002/1000))
            in if rejected then no_signal s cpr
               else
                 let s = s\<lparr>em_since := (em_since s)(token \<mapsto> 0)\<rparr>; st = (if bullish then Signal_BUY else Signal_SELL)
                 in case cpr_allows st (c_close c) cpr of
                      (False, cpr) \<Rightarrow> no_signal s cpr
                    | (True, cpr) \<Rightarrow>
                        (s, cpr, Inr (Some
                          (if bullish
                           then signal_of Signal_BUY c (ema_name tx s) (ema_reason tx s ''above'' adx_val)
                                  (Some (c_close c - em_sl_mult s * atr_val)) (Some (c_close c + em_tp_mult s * atr_val))
                           else signal_of Signal_SELL c (ema_name tx s) (ema_reason tx s ''below'' adx_val)
                                  (Some (c_close c + em_sl_mult s * atr_val)) (Some (c_close c - em_tp_mult s * atr_val))))))))"

definition ema_on_candle ::
  "texts \<Rightarrow> zone_clock \<Rightarrow> pyfloat \<Rightarrow> candle \<Rightarrow> candle list \<Rightarrow> cpr_filter option \<Rightarrow> ema_strategy \<Rightarrow> ema_strategy handler_result" where
  "ema_on_candle tx loc n c history cpr s =
     (if c_timeframe c \<noteq> M5 then no_signal s cpr
      else if \<not> serves (em_tokens s) c then no_signal s cpr
      else
        let s = ema_maybe_reset n s; now = wall_time n; token = c_token c in
        if \<not> (NO_TRADE_BEFORE \<le> now \<and> now \<le> NO_TRADE_AFTER) then no_signal s cpr
        else
          let s = s\<lparr>em_since := count_candle token (em_since s)\<rparr> in
          if length history < 25 then no_signal s cpr
          else
            let all_candles = take_last 30 history @ [c]; closes = List.map c_close all_candles in
            reading (ema closes (em_fast s)) s cpr (\<lambda>fast_ema.
            reading (ema closes (em_slow s)) s cpr (\<lambda>slow_ema.
              case (fast_ema, slow_ema) of
                (Some f, Some g) \<Rightarrow>
                  (let prev_fast = em_prev_fast s token; prev_slow = em_prev_slow s token;
                       s = s\<lparr>em_prev_fast := (em_prev_fast s)(token \<mapsto> f), em_prev_slow := (em_prev_slow s)(token \<mapsto> g)\<rparr>
                   in case (prev_fast, prev_slow) of
                        (Some pf, Some pg) \<Rightarrow>
                          (let bullish_cross = (pf \<le> pg \<and> f > g); bearish_cross = (pf \<ge> pg \<and> f < g)
                           in if \<not> bullish_cross \<and> \<not> bearish_cross then no_signal s cpr
                              else ema_signal tx loc n c history all_candles bullish_cross cpr s)
                      | _ \<Rightarrow> no_signal s cpr)
              | _ \<Rightarrow> no_signal s cpr)))"

subsection \<open>SMA crossover\<close>

record sma_strategy =
  sm_fast :: nat
  sm_slow :: nat
  sm_tokens :: "string list"
  sm_min_volume :: int
  sm_prev_fast :: "string \<rightharpoonup> pyfloat"
  sm_prev_slow :: "string \<rightharpoonup> pyfloat"

definition new_sma :: "nat \<Rightarrow> nat \<Rightarrow> string list \<Rightarrow> int \<Rightarrow> sma_strategy" where
  "new_sma fast slow tokens min_volume =
     \<lparr>sm_fast = fast, sm_slow = slow, sm_tokens = tokens, sm_min_volume = min_volume, sm_prev_fast = Map.empty,
      sm_prev_slow = Map.empty\<rparr>"

definition sma_of :: "pyfloat list \<Rightarrow> nat \<Rightarrow> pyfloat option result" where
  "sma_of values period =
     (if length values < period then Inr None
      else if period = 0 then Inl ZeroDivisionError
      else Inr (Some (sum_list (take_last period values) / of_nat period)))"

definition detect_crossover ::
  "texts \<Rightarrow> sma_strategy \<Rightarrow> pyfloat \<Rightarrow> pyfloat \<Rightarrow> pyfloat \<Rightarrow> pyfloat \<Rightarrow> candle \<Rightarrow> trade_signal option" where
  "detect_crossover tx s prev_fast prev_slow curr_fast curr_slow c =
     (let name = ''SMA_Crossover('' @ of_number tx (int (sm_fast s)) @ ''/'' @ of_number tx (int (sm_slow s)) @ '')'';
          values = ''(fast='' @ two_digits tx curr_fast @ '', slow='' @ two_digits tx curr_slow @ '')''
      in if prev_fast \<le> prev_slow \<and> curr_fast > curr_slow
         then Some (signal_of Signal_BUY c name (''Bullish SMA crossover '' @ values) None None)
         else if prev_fast \<ge> prev_slow \<and> curr_fast < curr_slow
         then Some (signal_of Signal_SELL c name (''Bearish SMA crossover '' @ values) None None)
         else None)"

definition gap_too_wide :: "candle \<Rightarrow> candle list \<Rightarrow> bool" where
  "gap_too_wide c history \<longleftrightarrow> length history \<ge> 2 \<and>
     (let prev_close = c_close (history ! (length history - 2))
      in prev_close > 0 \<and> \<bar>c_close c - prev_close\<bar> / prev_close * 100 > 3)"

definition sma_on_candle ::
  "texts \<Rightarrow> candle \<Rightarrow> candle list \<Rightarrow> cpr_filter option \<Rightarrow> sma_strategy \<Rightarrow> sma_strategy handler_result" where
  "sma_on_candle tx c history cpr s =
     (if \<not> serves (sm_tokens s) c then no_signal s cpr
      else if length history < sm_slow s then no_signal s cpr
      else if c_volume c < sm_min_volume s then no_signal s cpr
      else if gap_too_wide c history then no_signal s cpr
      else
        let closes = List.map c_close (last_n (sm_slow s) history); token = c_token c in
        reading (sma_of closes (sm_fast s)) s cpr (\<lambda>fast_sma.
        reading (sma_of closes (sm_slow s)) s cpr (\<lambda>slow_sma.
          case (fast_sma, slow_sma) of
            (Some f, Some g) \<Rightarrow>
              (let prev_fast = sm_prev_fast s token; prev_slow = sm_prev_slow s token;
                   s = s\<lparr>sm_prev_fast := (sm_prev_fast s)(token \<mapsto> f), sm_prev_slow := (sm_prev_slow s)(token \<mapsto> g)\<rparr>
               in case (prev_fast, prev_slow) of
                    (Some pf, Some pg) \<Rightarrow> (s, cpr, Inr (detect_crossover tx s pf pg f g c))
                  | _ \<Rightarrow> no_signal s cpr)
          | _ \<Rightarrow> no_signal s cpr)))"

end
