(* ===== verification/NSE_Momentum.thy ===== *)
theory NSE_Momentum
  imports NSE_Strategies
begin

section \<open>The equity strategies on squeezes, flips and pullbacks\<close>

text \<open>
  \<open>app/strategy/bb_squeeze.py\<close>, \<open>supertrend_strategy.py\<close> and \<open>vwap_rsi.py\<close>, with the conventions
  of \<open>NSE_Strategies\<close>.
\<close>

subsection \<open>Bollinger squeeze\<close>

record squeeze_strategy =
  bq_tokens :: "string list"
  bq_period :: nat
  bq_std :: pyfloat
  bq_min_candles :: int
  bq_rr :: pyfloat
  bq_volume_mult :: pyfloat
  bq_use_vwap :: bool
  bq_max_trades :: int
  bq_count :: "string \<rightharpoonup> int"
  bq_was_in :: "string \<rightharpoonup> bool"
  bq_volumes :: "string \<rightharpoonup> int list"
  bq_trades_today :: "string \<rightharpoonup> int"
  bq_last_reset :: "int option"
  bq_warmup :: "string \<rightharpoonup> candle list"

definition new_squeeze ::
  "string list \<Rightarrow> nat \<Rightarrow> pyfloat \<Rightarrow> int \<Rightarrow> pyfloat \<Rightarrow> pyfloat \<Rightarrow> bool \<Rightarrow> int \<Rightarrow> squeeze_strategy" where
  "new_squeeze tokens period std min_candles rr volume_mult use_vwap max_trades =
     \<lparr>bq_tokens = tokens, bq_period = period, bq_std = std, bq_min_candles = min_candles, bq_rr = rr,
      bq_volume_mult = volume_mult, bq_use_vwap = use_vwap, bq_max_trades = max_trades, bq_count = Map.empty,
      bq_was_in = Map.empty, bq_volumes = Map.empty, bq_trades_today = Map.empty, bq_last_reset = None, bq_warmup = Map.empty\<rparr>"

text \<open>\<open>is_squeeze\<close> with its default periods.\<close>

definition squeeze_now :: "candle list \<Rightarrow> bool option result" where
  "squeeze_now cs = is_squeeze cs 20 2 20 10 (15/10)"

definition enter_squeeze :: "candle \<Rightarrow> string \<Rightarrow> squeeze_strategy \<Rightarrow> squeeze_strategy" where
  "enter_squeeze c token s =
     s\<lparr>bq_count := (bq_count s)(token \<mapsto> lookup_or (bq_count s) token 0 + 1), bq_was_in := (bq_was_in s)(token \<mapsto> True),
       bq_volumes := (bq_volumes s)(token \<mapsto> lookup_or (bq_volumes s) token [] @ [c_volume c])\<rparr>"

text \<open>One candle of \<open>warmup_history\<close>; the loop goes over the candles in turn.\<close>

definition warmup_candle :: "string \<Rightarrow> candle \<Rightarrow> squeeze_strategy \<Rightarrow> squeeze_strategy outcome" where
  "warmup_candle token c s =
     (if c_timeframe c \<noteq> M5 then returns s
      else
        let w = lookup_or (bq_warmup s) token [] @ [c]; window = (if length w > 25 then tl w else w);
            s = s\<lparr>bq_warmup := (bq_warmup s)(token \<mapsto> window)\<rparr>
        in if length window < 25 then returns s
           else case squeeze_now window of
             Inl e \<Rightarrow> raises e s
           | Inr None \<Rightarrow> returns s
           | Inr (Some True) \<Rightarrow> returns (enter_squeeze c token s)
           | Inr (Some False) \<Rightarrow>
               (let s = (if lookup_or (bq_was_in s) token False
                         then s\<lparr>bq_count := (bq_count s)(token \<mapsto> 0), bq_volumes := (bq_volumes s)(token \<mapsto> [])\<rparr> else s)
                in returns (s\<lparr>bq_was_in := (bq_was_in s)(token \<mapsto> False)\<rparr>)))"

definition warmup_history :: "string \<Rightarrow> candle list \<Rightarrow> squeeze_strategy \<Rightarrow> squeeze_strategy outcome" where
  "warmup_history token cs s = for_each (warmup_candle token) cs s"

definition squeeze_maybe_reset :: "pyfloat \<Rightarrow> squeeze_strategy \<Rightarrow> squeeze_strategy" where
  "squeeze_maybe_reset n s =
     (if Some (wall_day n) \<noteq> bq_last_reset s
      then s\<lparr>bq_count := Map.empty, bq_was_in := Map.empty, bq_volumes := Map.empty, bq_trades_today := Map.empty,
             bq_last_reset := Some (wall_day n)\<rparr>
      else s)"

definition release_breakout ::
  "texts \<Rightarrow> zone_clock \<Rightarrow> pyfloat \<Rightarrow> candle \<Rightarrow> candle list \<Rightarrow> int list \<Rightarrow> int \<Rightarrow> cpr_filter option \<Rightarrow> squeeze_strategy \<Rightarrow>
   squeeze_strategy handler_result" where
  "release_breakout tx loc n c all_candles squeeze_vols duration cpr s =
     reading (bollinger_bands all_candles (bq_period s) (bq_std s)) s cpr (\<lambda>bb. case bb of None \<Rightarrow> no_signal s cpr
     | Some (band_hi, band_mid, band_lo) \<Rightarrow>
        let token = c_token c; entry = c_close c; squeeze_range = band_hi - band_lo;
            avg_vol = (if squeeze_vols \<noteq> [] then of_int (sum_list squeeze_vols) / of_nat (length squeeze_vols) else 0 :: pyfloat);
            has_volume = (if avg_vol > 0 then of_int (c_volume c) > avg_vol * bq_volume_mult s else True);
            vwap_val = (if bq_use_vwap s then vwap (get_today_candles loc n all_candles c) else None);
            against_vwap = (case vwap_val of None \<Rightarrow> False
              | Some v \<Rightarrow> entry > band_hi \<and> entry < v \<or> entry < band_lo \<and> entry > v);
            min_sl = entry * (3/1000);
            traded = s\<lparr>bq_trades_today := (bq_trades_today s)(token \<mapsto> lookup_or (bq_trades_today s) token 0 + 1)\<rparr>
        in if \<not> has_volume then no_signal s cpr
           else if against_vwap then no_signal s cpr
           else if entry > band_hi then
             (case cpr_allows Signal_BUY entry cpr of
                (False, cpr) \<Rightarrow> no_signal s cpr
              | (True, cpr) \<Rightarrow>
                  let sl = (if entry - band_mid < min_sl then entry - min_sl else band_mid)
                  in (traded, cpr, Inr (Some (signal_of Signal_BUY c ''BB_Squeeze''
                       (''BB Squeeze breakout UP after '' @ of_number tx duration @ '' candle compression'')
                       (Some sl) (Some (entry + bq_rr s * squeeze_range))))))
           else if entry < band_lo then
             (case cpr_allows Signal_SELL entry cpr of
                (False, cpr) \<Rightarrow> no_signal s cpr
              | (True, cpr) \<Rightarrow>
                  let sl = (if band_mid - entry < min_sl then entry + min_sl else band_mid)
                  in (traded, cpr, Inr (Some (signal_of Signal_SELL c ''BB_Squeeze''
                       (''BB Squeeze breakout DOWN after '' @ of_number tx duration @ '' candle compression'')
                       (Some sl) (Some (entry - bq_rr s * squeeze_range))))))
           else no_signal s cpr)"

definition leave_squeeze :: "string \<Rightarrow> squeeze_strategy \<Rightarrow> squeeze_strategy" where
  "leave_squeeze token s =
     s\<lparr>bq_was_in := (bq_was_in s)(token \<mapsto> False), bq_count := (bq_count s)(token \<mapsto> 0), bq_volumes := (bq_volumes s)(token \<mapsto> [])\<rparr>"

definition squeeze_on_candle ::
  "texts \<Rightarrow> zone_clock \<Rightarrow> pyfloat \<Rightarrow> candle \<Rightarrow> candle list \<Rightarrow> cpr_filter option \<Rightarrow> squeeze_strategy \<Rightarrow>
   squeeze_strategy handler_result" where
  "squeeze_on_candle tx loc n c history cpr s =
     (if c_timeframe c \<noteq> M5 then no_signal s cpr
      else if \<not> serves (bq_tokens s) c then no_signal s cpr
      else
        let s = squeeze_maybe_reset n s; now = wall_time n; token = c_token c in
        if \<not> (NO_TRADE_BEFORE \<le> now \<and> now \<le> NO_TRADE_AFTER) then no_signal s cpr
        else if lookup_or (bq_trades_today s) token 0 \<ge> bq_max_trades s then no_signal s cpr
        else if length history < 25 then no_signal s cpr
        else
          let all_candles = take_last 25 history @ [c] in
          reading (squeeze_now all_candles) s cpr (\<lambda>active. case active of None \<Rightarrow> no_signal s cpr
          | Some True \<Rightarrow> no_signal (enter_squeeze c token s) cpr
          | Some False \<Rightarrow>
              let s' = leave_squeeze token s in
              if lookup_or (bq_was_in s) token False then
                (let duration = lookup_or (bq_count s) token 0; vols = lookup_or (bq_volumes s) token [] in
                 if duration < bq_min_candles s then no_signal s' cpr
                 else release_breakout tx loc n c all_candles vols duration cpr s')
              else no_signal s' cpr))"

subsection \<open>SuperTrend\<close>

record flip_strategy =
  su_tokens :: "string list"
  su_atr_period :: nat
  su_multiplier :: pyfloat
  su_rr :: pyfloat
  su_max_flips :: nat
  su_chop_window :: nat
  su_directions :: "string \<rightharpoonup> bool list"
  su_last_reset :: "int option"

definition new_flip :: "string list \<Rightarrow> nat \<Rightarrow> pyfloat \<Rightarrow> pyfloat \<Rightarrow> nat \<Rightarrow> nat \<Rightarrow> flip_strategy" where
  "new_flip tokens atr_period multiplier rr max_flips chop_window =
     \<lparr>su_tokens = tokens, su_atr_period = atr_period, su_multiplier = multiplier, su_rr = rr, su_max_flips = max_flips,
      su_chop_window = chop_window, su_directions = Map.empty, su_last_reset = None\<rparr>"

definition flip_maybe_reset :: "pyfloat \<Rightarrow> flip_strategy \<Rightarrow> flip_strategy" where
  "flip_maybe_reset n s =
     (if Some (wall_day n) \<noteq> su_last_reset s then s\<lparr>su_directions := Map.empty, su_last_reset := Some (wall_day n)\<rparr> else s)"

fun count_flips :: "bool list \<Rightarrow> nat" where
  "count_flips (a # b # xs) = (if b \<noteq> a then 1 else 0) + count_flips (b # xs)"
| "count_flips _ = 0"

definition flip_on_candle ::
  "texts \<Rightarrow> pyfloat \<Rightarrow> candle \<Rightarrow> candle list \<Rightarrow> cpr_filter option \<Rightarrow> flip_strategy \<Rightarrow> flip_strategy handler_result" where
  "flip_on_candle tx n c history cpr s =
     (if c_timeframe c \<noteq> M5 then no_signal s cpr
      else if \<not> serves (su_tokens s) c then no_signal s cpr
      else
        let s = flip_maybe_reset n s; now = wall_time n; token = c_token c; entry = c_close c in
        if \<not> (NO_TRADE_BEFORE \<le> now \<and> now \<le> NO_TRADE_AFTER) then no_signal s cpr
        else if length history < 25 then no_signal s cpr
        else
          let all_candles = take_last 25 history @ [c] in
          reading (supertrend_with_prev all_candles (su_atr_period s) (su_multiplier s)) s cpr (\<lambda>st. case st of
            None \<Rightarrow> no_signal s cpr
          | Some (current_st, current_up, prev_st, prev_up) \<Rightarrow>
              let dirs = lookup_or (su_directions s) token [] @ [current_up];
                  dirs = (if length dirs > su_chop_window s then last_n (su_chop_window s) dirs else dirs);
                  s = s\<lparr>su_directions := (su_directions s)(token \<mapsto> dirs)\<rparr>;
                  name = ''SuperTrend('' @ of_number tx (int (su_atr_period s)) @ '','' @ of_float tx (su_multiplier s) @ '')''
              in if current_up = prev_up then no_signal s cpr
                 else if length dirs \<ge> su_chop_window s \<and> count_flips dirs \<ge> su_max_flips s then no_signal s cpr
                 else if current_up then
                   (case cpr_allows Signal_BUY entry cpr of
                      (False, cpr) \<Rightarrow> no_signal s cpr
                    | (True, cpr) \<Rightarrow>
                        let sl = (if current_st \<ge> entry then entry * (995/1000) else current_st); risk = entry - sl
                        in (s, cpr, Inr (Some (signal_of Signal_BUY c name (''SuperTrend flipped UP (ST='' @ two_digits tx current_st @ '')'')
                             (Some sl) (Some (entry + su_rr s * risk))))))
                 else
                   (case cpr_allows Signal_SELL entry cpr of
                      (False, cpr) \<Rightarrow> no_signal s cpr
                    | (True, cpr) \<Rightarrow>
                        let sl = (if current_st \<le> entry then entry * (1005/1000) else current_st); risk = sl - entry
                        in (s, cpr, Inr (Some (signal_of Signal_SELL c name (''SuperTrend flipped DOWN (ST='' @ two_digits tx current_st @ '')'')
                             (Some sl) (Some (entry - su_rr s * risk))))))))"

subsection \<open>VWAP and RSI pullback\<close>

record pullback_strategy =
  pb_tokens :: "string list"
  pb_rsi_period :: nat
  pb_oversold :: pyfloat
  pb_overbought :: pyfloat
  pb_adx_threshold :: pyfloat
  pb_min_sl_pct :: pyfloat
  pb_rr :: pyfloat
  pb_max_trades :: int
  pb_cooldown :: int
  pb_prev_rsi :: "string \<rightharpoonup> pyfloat"
  pb_trades_today :: "string \<rightharpoonup> int"
  pb_since :: "string \<rightharpoonup> int"
  pb_last_reset :: "int option"

definition new_pullback ::
  "string list \<Rightarrow> nat \<Rightarrow> pyfloat \<Rightarrow> pyfloat \<Rightarrow> pyfloat \<Rightarrow> pyfloat \<Rightarrow> pyfloat \<Rightarrow> int \<Rightarrow> int \<Rightarrow> pullback_strategy" where
  "new_pullback tokens rsi_period oversold overbought adx_threshold min_sl_pct rr max_trades cooldown =
     \<lparr>pb_tokens = tokens, pb_rsi_period = rsi_period, pb_oversold = oversold, pb_overbought = overbought,
      pb_adx_threshold = adx_threshold, pb_min_sl_pct = min_sl_pct, pb_rr = rr, pb_max_trades = max_trades,
      pb_cooldown = cooldown, pb_prev_rsi = Map.empty, pb_trades_today = Map.empty, pb_since = Map.empty, pb_last_reset = None\<rparr>"

definition pullback_maybe_reset :: "pyfloat \<Rightarrow> pullback_strategy \<Rightarrow> pullback_strategy" where
  "pullback_maybe_reset n s =
     (if Some (wall_day n) \<noteq> pb_last_reset s
      then s\<lparr>pb_trades_today := Map.empty, pb_prev_rsi := Map.empty, pb_since := Map.empty, pb_last_reset := Some (wall_day n)\<rparr>
      else s)"

text \<open>The arrow in the reason, in UTF-8.\<close>

definition RIGHT_ARROW :: string where
  "RIGHT_ARROW = [CHR 0xE2, CHR 0x86, CHR 0x92]"

text \<open>The counters after a signal.\<close>

definition pullback_traded :: "string \<Rightarrow> pullback_strategy \<Rightarrow> pullback_strategy" where
  "pullback_traded token s =
     s\<lparr>pb_trades_today := (pb_trades_today s)(token \<mapsto> lookup_or (pb_trades_today s) token 0 + 1),
       pb_since := (pb_since s)(token \<mapsto> 0)\<rparr>"

definition pullback_signal ::
  "texts \<Rightarrow> candle \<Rightarrow> pyfloat \<Rightarrow> pyfloat \<Rightarrow> pyfloat \<Rightarrow> cpr_filter option \<Rightarrow> pullback_strategy \<Rightarrow> pullback_strategy handler_result" where
  "pullback_signal tx c vwap_val prev_rsi rsi_val cpr s =
     (let entry = c_close c; min_sl_distance = entry * (pb_min_sl_pct s / 100); token = c_token c;
          moved = one_digit tx prev_rsi @ RIGHT_ARROW @ one_digit tx rsi_val
      in if entry > vwap_val \<and> prev_rsi < pb_oversold s \<and> rsi_val \<ge> pb_oversold s then
           (case cpr_allows Signal_BUY entry cpr of
              (False, cpr) \<Rightarrow> no_signal s cpr
            | (True, cpr) \<Rightarrow>
                let sl = (if entry - vwap_val < min_sl_distance then entry - min_sl_distance else vwap_val); risk = entry - sl
                in (pullback_traded token s, cpr, Inr (Some (signal_of Signal_BUY c ''VWAP_RSI_Pullback''
                     (''RSI pullback recovery ('' @ moved @ '') above VWAP'') (Some sl) (Some (entry + pb_rr s * risk))))))
         else if entry < vwap_val \<and> prev_rsi > pb_overbought s \<and> rsi_val \<le> pb_overbought s then
           (case cpr_allows Signal_SELL entry cpr of
              (False, cpr) \<Rightarrow> no_signal s cpr
            | (True, cpr) \<Rightarrow>
                let sl = (if vwap_val - entry < min_sl_distance then entry + min_sl_distance else vwap_val); risk = sl - entry
                in (pullback_traded token s, cpr, Inr (Some (signal_of Signal_SELL c ''VWAP_RSI_Pullback''
                     (''RSI pullback recovery ('' @ moved @ '') below VWAP'') (Some sl) (Some (entry - pb_rr s * risk))))))
         else no_signal s cpr)"

definition pullback_on_candle ::
  "texts \<Rightarrow> zone_clock \<Rightarrow> pyfloat \<Rightarrow> candle \<Rightarrow> candle list \<Rightarrow> cpr_filter option \<Rightarrow> pullback_strategy \<Rightarrow>
   pullback_strategy handler_result" where
  "pullback_on_candle tx loc n c history cpr s =
     (if c_timeframe c \<noteq> M5 then no_signal s cpr
      else if \<not> serves (pb_tokens s) c then no_signal s cpr
      else
        let s = pullback_maybe_reset n s; now = wall_time n; token = c_token c in
        if \<not> (NO_TRADE_BEFORE \<le> now \<and> now \<le> NO_TRADE_AFTER) then no_signal s cpr
        else
          let s = s\<lparr>pb_since := count_candle token (pb_since s)\<rparr> in
          if lookup_or (pb_trades_today s) token 0 \<ge> pb_max_trades s then no_signal s cpr
          else if lookup_or (pb_since s) token (pb_cooldown s + 1) < pb_cooldown s then no_signal s cpr
          else if length history < 30 then no_signal s cpr
          else case vwap (get_today_candles loc n history c) of
            None \<Rightarrow> no_signal s cpr
          | Some vwap_val \<Rightarrow>
              let closes = List.map c_close (take_last (pb_rsi_period s + 5) history) @ [c_close c] in
              reading (rsi closes (pb_rsi_period s)) s cpr (\<lambda>r. case r of None \<Rightarrow> no_signal s cpr
              | Some rsi_val \<Rightarrow>
                  reading (adx (take_last 30 history @ [c]) 14) s cpr (\<lambda>a.
                    let prev_rsi = pb_prev_rsi s token; stored = s\<lparr>pb_prev_rsi := (pb_prev_rsi s)(token \<mapsto> rsi_val)\<rparr> in
                    case a of None \<Rightarrow> no_signal stored cpr
                    | Some adx_val \<Rightarrow>
                        if adx_val < pb_adx_threshold s then no_signal stored cpr
                        else case prev_rsi of None \<Rightarrow> no_signal stored cpr
                          | Some p \<Rightarrow> pullback_signal tx c vwap_val p rsi_val cpr stored)))"

end
