(* ===== verification/Strategy_Engine.thy ===== *)
theory Strategy_Engine
  imports NSE_Momentum
begin

section \<open>The engine of the equity strategies\<close>

text \<open>
  \<open>app/strategy/base.py\<close> and \<open>app/strategy/engine.py\<close>, with the strategies as the cases of a
  datatype for the dynamic dispatch. All share one CPR filter, as \<open>main.py\<close> builds them. The
  signals emitted are collected in a log; the history is what the candle builder returns.
\<close>

datatype nse_strategy =
    Orb orb_strategy | Ema ema_strategy | Sma sma_strategy | Squeeze squeeze_strategy | Flip flip_strategy
  | Pullback pullback_strategy

definition wrap :: "('s \<Rightarrow> nse_strategy) \<Rightarrow> 's handler_result \<Rightarrow> nse_strategy handler_result" where
  "wrap f r = (case r of (s, cpr, res) \<Rightarrow> (f s, cpr, res))"

fun strategy_on_candle ::
  "texts \<Rightarrow> zone_clock \<Rightarrow> pyfloat \<Rightarrow> candle \<Rightarrow> candle list \<Rightarrow> cpr_filter option \<Rightarrow> nse_strategy \<Rightarrow> nse_strategy handler_result" where
  "strategy_on_candle tx loc n c history cpr (Orb s) = wrap Orb (orb_on_candle tx loc n c history cpr s)"
| "strategy_on_candle tx loc n c history cpr (Ema s) = wrap Ema (ema_on_candle tx loc n c history cpr s)"
| "strategy_on_candle tx loc n c history cpr (Sma s) = wrap Sma (sma_on_candle tx c history cpr s)"
| "strategy_on_candle tx loc n c history cpr (Squeeze s) = wrap Squeeze (squeeze_on_candle tx loc n c history cpr s)"
| "strategy_on_candle tx loc n c history cpr (Flip s) = wrap Flip (flip_on_candle tx n c history cpr s)"
| "strategy_on_candle tx loc n c history cpr (Pullback s) = wrap Pullback (pullback_on_candle tx loc n c history cpr s)"

fun strategy_warmup :: "nse_strategy \<Rightarrow> (string \<times> int) list" where
  "strategy_warmup (Orb s) = []"
| "strategy_warmup (Sma s) = [(''1m'', int (sm_slow s) + 5)]"
| "strategy_warmup _ = [(''5m'', 50)]"

record strategy_engine =
  eng_strategies :: "nse_strategy list"
  eng_cpr :: "cpr_filter option"
  eng_running :: bool
  eng_signals :: "trade_signal list"

definition new_engine :: "cpr_filter option \<Rightarrow> strategy_engine" where
  "new_engine cpr = \<lparr>eng_strategies = [], eng_cpr = cpr, eng_running = False, eng_signals = []\<rparr>"

definition register_strategy :: "nse_strategy \<Rightarrow> strategy_engine \<Rightarrow> strategy_engine" where
  "register_strategy s e = e\<lparr>eng_strategies := eng_strategies e @ [s]\<rparr>"

definition start_engine :: "strategy_engine \<Rightarrow> strategy_engine" where
  "start_engine e = e\<lparr>eng_running := True\<rparr>"

definition stop_engine :: "strategy_engine \<Rightarrow> strategy_engine" where
  "stop_engine e = e\<lparr>eng_running := False\<rparr>"

text \<open>The loop over the strategies; an exception is logged and the loop goes on.\<close>

fun run_strategies ::
  "texts \<Rightarrow> zone_clock \<Rightarrow> pyfloat \<Rightarrow> candle \<Rightarrow> candle list \<Rightarrow> cpr_filter option \<Rightarrow> nse_strategy list \<Rightarrow>
   nse_strategy list \<times> cpr_filter option \<times> trade_signal list" where
  "run_strategies tx loc n c history cpr [] = ([], cpr, [])"
| "run_strategies tx loc n c history cpr (s # ss) =
     (case strategy_on_candle tx loc n c history cpr s of (s', cpr', r) \<Rightarrow>
      case run_strategies tx loc n c history cpr' ss of (ss', cpr'', sigs) \<Rightarrow>
        (s' # ss', cpr'', (case r of Inr (Some g) \<Rightarrow> g # sigs | _ \<Rightarrow> sigs)))"

definition engine_on_candle ::
  "texts \<Rightarrow> zone_clock \<Rightarrow> pyfloat \<Rightarrow> candle \<Rightarrow> candle_builder \<Rightarrow> strategy_engine \<Rightarrow> strategy_engine" where
  "engine_on_candle tx loc n c b e =
     (if \<not> eng_running e then e
      else if \<not> nse_should_process_for_strategy n then e
      else
        let history = get_history (c_token c) (c_timeframe c) None b in
        case run_strategies tx loc n c history (eng_cpr e) (eng_strategies e) of
          (ss, cpr, sigs) \<Rightarrow> e\<lparr>eng_strategies := ss, eng_cpr := cpr, eng_signals := eng_signals e @ sigs\<rparr>)"

text \<open>No strategy overrides \<open>on_tick\<close>, whose default returns nothing.\<close>

definition strategies_on_tick :: "pyfloat \<Rightarrow> tick \<Rightarrow> strategy_engine \<Rightarrow> strategy_engine" where
  "strategies_on_tick n t e = e"

subsection \<open>The shared filter couples no strategies\<close>

text \<open>
  \<open>allows_signal\<close> sets the bias from the price before it reads it, so two filters that differ only in
  the bias decide alike. \<open>alike l\<close> relates results with the same state and signal and with such filters,
  whose levels are those of \<open>l\<close>.
\<close>

definition same_levels :: "cpr_filter option \<Rightarrow> cpr_filter option \<Rightarrow> bool" where
  "same_levels f g \<longleftrightarrow> map_option (cpr_bias_update (\<lambda>_. CPR_NEUTRAL)) f = map_option (cpr_bias_update (\<lambda>_. CPR_NEUTRAL)) g"

definition near :: "cpr_filter option \<Rightarrow> cpr_filter option \<Rightarrow> cpr_filter option \<Rightarrow> bool" where
  "near l f g \<longleftrightarrow> same_levels f g \<and> same_levels f l"

definition alike :: "cpr_filter option \<Rightarrow> 's handler_result \<Rightarrow> 's handler_result \<Rightarrow> bool" where
  "alike l r r' \<longleftrightarrow> fst r = fst r' \<and> snd (snd r) = snd (snd r') \<and> near l (fst (snd r)) (fst (snd r'))"

named_theorems alike_intros

lemma same_levels_refl [simp]: "same_levels f f"
  by (simp add: same_levels_def)

lemma same_levels_trans: "same_levels f g \<Longrightarrow> same_levels g h \<Longrightarrow> same_levels f h"
  by (simp add: same_levels_def)

lemma allows_bias: "allows_signal st x (f\<lparr>cpr_bias := b\<rparr>) = (fst (allows_signal st x f),
    if cpr_calculated f then snd (allows_signal st x f) else f\<lparr>cpr_bias := b\<rparr>)"
  by (simp add: allows_signal_def update_bias_def Let_def)

lemma allows_keeps: "cpr_bias_update (\<lambda>_. CPR_NEUTRAL) (snd (allows_signal st x f)) = cpr_bias_update (\<lambda>_. CPR_NEUTRAL) f"
  by (simp add: allows_signal_def update_bias_def Let_def)

lemma cpr_allows_alike:
  assumes "same_levels f g"
  shows "fst (cpr_allows st x f) = fst (cpr_allows st x g)" "same_levels (snd (cpr_allows st x f)) (snd (cpr_allows st x g))"
    "same_levels (snd (cpr_allows st x f)) f"
proof -
  have same: "fst (allows_signal st x a) = fst (allows_signal st x b)"
    if "cpr_bias_update (\<lambda>_. CPR_NEUTRAL) a = cpr_bias_update (\<lambda>_. CPR_NEUTRAL) b" for a b
    using allows_bias[of st x CPR_NEUTRAL a] allows_bias[of st x CPR_NEUTRAL b] that by simp
  show "fst (cpr_allows st x f) = fst (cpr_allows st x g)"
    using assms by (cases f; cases g) (auto simp: same_levels_def cpr_allows_def split_beta dest: same)
  show "same_levels (snd (cpr_allows st x f)) (snd (cpr_allows st x g))" "same_levels (snd (cpr_allows st x f)) f"
    using assms by (cases f; cases g; simp add: same_levels_def cpr_allows_def split_beta allows_keeps)+
qed

lemma alike_no_signal [alike_intros]: "near l f g \<Longrightarrow> alike l (no_signal s f) (no_signal s g)"
  by (simp add: alike_def no_signal_def)

lemma alike_result [alike_intros]: "near l f g \<Longrightarrow> alike l (s, f, r) (s, g, r)"
  by (simp add: alike_def)

lemma alike_reading [alike_intros]:
  "near l f g \<Longrightarrow> (\<And>x. alike l (k x) (k' x)) \<Longrightarrow> alike l (reading r s f k) (reading r s g k')"
  by (auto simp: reading_def alike_def split: sum.split)

lemma alike_if [alike_intros]: "alike l x x' \<Longrightarrow> alike l y y' \<Longrightarrow> alike l (if b then x else y) (if b then x' else y')"
  by simp

lemma alike_option [alike_intros]:
  "alike l x x' \<Longrightarrow> (\<And>v. alike l (k v) (k' v)) \<Longrightarrow> alike l (case v of None \<Rightarrow> x | Some v \<Rightarrow> k v) (case v of None \<Rightarrow> x' | Some v \<Rightarrow> k' v)"
  by (cases v) simp_all

lemma alike_pair [alike_intros]:
  "(\<And>a b. alike l (k a b) (k' a b)) \<Longrightarrow> alike l (case p of (a, b) \<Rightarrow> k a b) (case p of (a, b) \<Rightarrow> k' a b)"
  by (cases p) simp

lemma alike_bool [alike_intros]:
  "alike l x x' \<Longrightarrow> alike l y y' \<Longrightarrow> alike l (case b of True \<Rightarrow> x | False \<Rightarrow> y) (case b of True \<Rightarrow> x' | False \<Rightarrow> y')"
  by (cases b) simp_all

lemma alike_allows [alike_intros]:
  assumes "near l f g" "\<And>f g. near l f g \<Longrightarrow> alike l (x f) (x' g)" "\<And>f g. near l f g \<Longrightarrow> alike l (y f) (y' g)"
  shows "alike l (case cpr_allows st p f of (True, f) \<Rightarrow> x f | (False, f) \<Rightarrow> y f)
     (case cpr_allows st p g of (True, g) \<Rightarrow> x' g | (False, g) \<Rightarrow> y' g)"
proof -
  have fg: "same_levels f g" "same_levels f l" using assms(1) by (simp_all add: near_def)
  then have "near l (snd (cpr_allows st p f)) (snd (cpr_allows st p g))"
    using cpr_allows_alike(2,3)[OF fg(1), of st p] same_levels_trans by (auto simp: near_def)
  then show ?thesis using cpr_allows_alike(1)[OF fg(1), of st p] assms(2,3)
    by (cases "cpr_allows st p f"; cases "cpr_allows st p g") (auto split: bool.split)
qed

lemma alike_handlers:
  assumes "near l f g"
  shows "alike l (orb_on_candle tx loc n c h f s1) (orb_on_candle tx loc n c h g s1)"
    "alike l (ema_on_candle tx loc n c h f s2) (ema_on_candle tx loc n c h g s2)"
    "alike l (sma_on_candle tx c h f s3) (sma_on_candle tx c h g s3)"
    "alike l (squeeze_on_candle tx loc n c h f s4) (squeeze_on_candle tx loc n c h g s4)"
    "alike l (flip_on_candle tx n c h f s5) (flip_on_candle tx n c h g s5)"
    "alike l (pullback_on_candle tx loc n c h f s6) (pullback_on_candle tx loc n c h g s6)"
  subgoal unfolding orb_on_candle_def orb_check_breakout_def Let_def by (intro alike_intros assms; assumption)
  subgoal unfolding ema_on_candle_def ema_signal_def Let_def by (intro alike_intros assms; assumption)
  subgoal unfolding sma_on_candle_def Let_def by (intro alike_intros assms; assumption)
  subgoal unfolding squeeze_on_candle_def release_breakout_def Let_def by (intro alike_intros assms; assumption)
  subgoal unfolding flip_on_candle_def Let_def by (intro alike_intros assms; assumption)
  subgoal unfolding pullback_on_candle_def pullback_signal_def Let_def by (intro alike_intros assms; assumption)
  done


lemma alike_wrap: "alike l r r' \<Longrightarrow> alike l (wrap k r) (wrap k r')"
  by (auto simp: alike_def wrap_def split_beta)

lemma alike_strategy:
  "near l f g \<Longrightarrow> alike l (strategy_on_candle tx loc n c h f s) (strategy_on_candle tx loc n c h g s)"
  by (cases s) (simp_all add: alike_wrap alike_handlers)

definition own_signals :: "texts \<Rightarrow> zone_clock \<Rightarrow> pyfloat \<Rightarrow> candle \<Rightarrow> candle list \<Rightarrow> cpr_filter option \<Rightarrow> nse_strategy \<Rightarrow> trade_signal list" where
  "own_signals tx loc n c h cpr s =
     (case snd (snd (strategy_on_candle tx loc n c h cpr s)) of Inr (Some g) \<Rightarrow> [g] | _ \<Rightarrow> [])"

lemma run_strategies_own:
  assumes "near l f l"
  shows "run_strategies tx loc n c h f ss = (ss', cpr', sigs) \<Longrightarrow>
    ss' = List.map (\<lambda>s. fst (strategy_on_candle tx loc n c h l s)) ss \<and> near l cpr' l \<and>
    sigs = concat (List.map (own_signals tx loc n c h l) ss)"
  using assms
proof (induction ss arbitrary: f ss' cpr' sigs)
  case (Cons s ss)
  obtain s1 f1 r1 where r1: "strategy_on_candle tx loc n c h f s = (s1, f1, r1)" by (metis prod_cases3)
  obtain ss2 f2 sigs2 where r2: "run_strategies tx loc n c h f1 ss = (ss2, f2, sigs2)" by (metis prod_cases3)
  have a: "alike l (strategy_on_candle tx loc n c h f s) (strategy_on_candle tx loc n c h l s)"
    by (rule alike_strategy[OF Cons.prems(2)])
  then have "same_levels f1 l" by (simp add: alike_def near_def r1)
  then have "near l f1 l" by (simp add: near_def)
  from Cons.IH[OF r2 this] have ih: "ss2 = List.map (\<lambda>s. fst (strategy_on_candle tx loc n c h l s)) ss" "near l f2 l"
      "sigs2 = concat (List.map (own_signals tx loc n c h l) ss)" by blast+
  have "s1 = fst (strategy_on_candle tx loc n c h l s)" "r1 = snd (snd (strategy_on_candle tx loc n c h l s))"
    using a by (simp_all add: alike_def r1)
  moreover from this have e: "(case r1 of Inr (Some g) \<Rightarrow> g # sigs2 | _ \<Rightarrow> sigs2) = own_signals tx loc n c h l s @ sigs2"
    by (simp add: own_signals_def split: sum.split option.split)
  moreover have "ss' = s1 # ss2" "cpr' = f2" "sigs = own_signals tx loc n c h l s @ sigs2"
    using Cons.prems(1) unfolding run_strategies.simps r1 r2 prod.case e by simp_all
  ultimately show ?case using ih by simp
qed (simp add: near_def)

text \<open>
  On a candle in market hours each strategy of a running engine gets what it would get alone:
  its new state and its signal do not depend on the others, neither through the shared CPR filter
  nor through their exceptions; outside, nothing happens.
\<close>

theorem engine_runs_each_alone:
  fixes c :: candle and b :: candle_builder
  assumes "eng_running e" "nse_should_process_for_strategy n"
  defines "history \<equiv> get_history (c_token c) (c_timeframe c) None b"
  shows "eng_strategies (engine_on_candle tx loc n c b e) =
      List.map (\<lambda>s. fst (strategy_on_candle tx loc n c history (eng_cpr e) s)) (eng_strategies e) \<and>
    eng_signals (engine_on_candle tx loc n c b e) =
      eng_signals e @ concat (List.map (own_signals tx loc n c history (eng_cpr e)) (eng_strategies e)) \<and>
    same_levels (eng_cpr (engine_on_candle tx loc n c b e)) (eng_cpr e)"
proof -
  obtain ss cpr sigs where r: "run_strategies tx loc n c history (eng_cpr e) (eng_strategies e) = (ss, cpr, sigs)" by (metis prod_cases3)
  have "near (eng_cpr e) (eng_cpr e) (eng_cpr e)" by (simp add: near_def)
  from run_strategies_own[OF this r] show ?thesis
    using assms(1,2) r by (simp add: engine_on_candle_def history_def[symmetric] near_def)
qed

lemma engine_idle: "\<not> eng_running e \<or> \<not> nse_should_process_for_strategy n \<Longrightarrow> engine_on_candle tx loc n c b e = e"
  by (auto simp: engine_on_candle_def)

subsection \<open>The history a strategy is given ends with the candle\<close>

text \<open>
  The candle builder stores a completed candle before it emits it. So \<open>history[-k:] + [candle]\<close>, which
  the EMA, squeeze, SuperTrend and VWAP strategies compute their indicators on, holds it twice.
\<close>

lemma history_ends_with_candle:
  assumes "key = (c_token c, c_timeframe c)" "0 < cb_max_history b"
  shows "get_history (c_token c) (c_timeframe c) None (emit_candle c key b) \<noteq> [] \<and>
    last (get_history (c_token c) (c_timeframe c) None (emit_candle c key b)) = c"
proof -
  define h where "h = history_of b key @ [c]"
  have "get_history (c_token c) (c_timeframe c) None (emit_candle c key b) = (if length h > cb_max_history b then tl h else h)"
    by (simp add: get_history_def emit_candle_def history_of_def h_def Let_def assms(1))
  moreover have "tl h \<noteq> [] \<and> last (tl h) = c" if "length h > cb_max_history b"
  proof -
    have "history_of b key \<noteq> []" using that assms(2) by (auto simp: h_def)
    then show ?thesis by (simp add: h_def)
  qed
  ultimately show ?thesis by (simp add: h_def)
qed

lemma candle_counted_twice:
  assumes "history \<noteq> []" "last history = c" "0 < k"
  shows "\<exists>ys. take_last k history @ [c] = ys @ [c, c]"
proof -
  have "take_last k history \<noteq> []" "last (take_last k history) = c"
  proof -
    obtain x xs where xs: "history = x # xs" using assms(1) by (cases history) auto
    have "Suc (length xs) - k < length history" using assms(3) by (simp add: xs)
    then show "take_last k history \<noteq> []" "last (take_last k history) = c"
      using assms(2) unfolding take_last_def by (simp_all add: xs del: last.simps)
  qed
  then show ?thesis by (metis append_Cons append_Nil append_assoc append_butlast_last_id)
qed


subsection \<open>Signals are on the right side of the market\<close>

definition sane_signal :: "candle \<Rightarrow> trade_signal \<Rightarrow> bool" where
  "sane_signal c g \<longleftrightarrow> sg_price g = c_close c \<and> sg_token g = c_token c \<and> sg_ms g = c_ms c \<and>
     (case sg_stop_loss g of None \<Rightarrow> True
      | Some sl \<Rightarrow> if sg_type g = Signal_BUY then sl < c_close c else c_close c < sl) \<and>
     (case sg_take_profit g of None \<Rightarrow> True
      | Some tp \<Rightarrow> if sg_type g = Signal_BUY then c_close c \<le> tp else tp \<le> c_close c)"

text \<open>
  \<open>outcome_ok r x\<close>: the state and the signal of a result are in the relation \<open>r\<close>; \<open>good q p\<close> is the
  case of a condition on the state and one on the signal, if there is one.
\<close>

definition signal_in_result :: "'s handler_result \<Rightarrow> trade_signal option" where
  "signal_in_result x = (case snd (snd x) of Inr (Some g) \<Rightarrow> Some g | _ \<Rightarrow> None)"

definition outcome_ok :: "('s \<Rightarrow> trade_signal option \<Rightarrow> bool) \<Rightarrow> 's handler_result \<Rightarrow> bool" where
  "outcome_ok r x \<longleftrightarrow> r (fst x) (signal_in_result x)"

definition both :: "('s \<Rightarrow> bool) \<Rightarrow> (trade_signal \<Rightarrow> bool) \<Rightarrow> 's \<Rightarrow> trade_signal option \<Rightarrow> bool" where
  "both q p s g \<longleftrightarrow> q s \<and> (case g of None \<Rightarrow> True | Some g \<Rightarrow> p g)"

definition good :: "('s \<Rightarrow> bool) \<Rightarrow> (trade_signal \<Rightarrow> bool) \<Rightarrow> 's handler_result \<Rightarrow> bool" where
  "good q p x \<longleftrightarrow> outcome_ok (both q p) x"

named_theorems outcome_intros
named_theorems good_intros

lemma outcome_no_signal [outcome_intros]: "r s None \<Longrightarrow> outcome_ok r (no_signal s f)"
  by (simp add: outcome_ok_def signal_in_result_def no_signal_def)

lemma outcome_signal [outcome_intros]: "r s (Some g) \<Longrightarrow> outcome_ok r (s, f, Inr (Some g))"
  by (simp add: outcome_ok_def signal_in_result_def)

lemma outcome_reading [outcome_intros]:
  "r s None \<Longrightarrow> (\<And>y. v = Inr y \<Longrightarrow> outcome_ok r (k y)) \<Longrightarrow> outcome_ok r (reading v s f k)"
  by (cases v) (auto simp: reading_def outcome_ok_def signal_in_result_def)

lemma outcome_if [outcome_intros]:
  "(b \<Longrightarrow> outcome_ok r x) \<Longrightarrow> (\<not> b \<Longrightarrow> outcome_ok r y) \<Longrightarrow> outcome_ok r (if b then x else y)"
  by simp

lemma outcome_option [outcome_intros]:
  "(v = None \<Longrightarrow> outcome_ok r x) \<Longrightarrow> (\<And>w. v = Some w \<Longrightarrow> outcome_ok r (k w)) \<Longrightarrow>
   outcome_ok r (case v of None \<Rightarrow> x | Some w \<Rightarrow> k w)"
  by (cases v) simp_all

lemma outcome_pair [outcome_intros]:
  "(\<And>a b. z = (a, b) \<Longrightarrow> outcome_ok r (k a b)) \<Longrightarrow> outcome_ok r (case z of (a, b) \<Rightarrow> k a b)"
  by (cases z) simp

lemma outcome_bool [outcome_intros]:
  "(b \<Longrightarrow> outcome_ok r x) \<Longrightarrow> (\<not> b \<Longrightarrow> outcome_ok r y) \<Longrightarrow> outcome_ok r (case b of True \<Rightarrow> x | False \<Rightarrow> y)"
  by (cases b) simp_all

lemma good_no_signal [good_intros]: "q s \<Longrightarrow> good q p (no_signal s f)"
  unfolding good_def by (rule outcome_no_signal) (simp add: both_def)

lemma good_signal [good_intros]: "q s \<Longrightarrow> p g \<Longrightarrow> good q p (s, f, Inr (Some g))"
  unfolding good_def by (rule outcome_signal) (simp add: both_def)

lemma good_reading [good_intros]: "q s \<Longrightarrow> (\<And>y. v = Inr y \<Longrightarrow> good q p (k y)) \<Longrightarrow> good q p (reading v s f k)"
  unfolding good_def by (rule outcome_reading) (simp_all add: both_def)

lemmas good_cases [good_intros] =
  outcome_if[where r = "both q p" for q p, folded good_def] outcome_option[where r = "both q p" for q p, folded good_def]
  outcome_pair[where r = "both q p" for q p, folded good_def] outcome_bool[where r = "both q p" for q p, folded good_def]

definition range_ok :: "pyfloat option \<Rightarrow> pyfloat option \<Rightarrow> bool option \<Rightarrow> bool" where
  "range_ok h l r \<longleftrightarrow> (h = None \<and> l = None \<or> (\<exists>x y. h = Some x \<and> l = Some y \<and> y \<le> x)) \<and> (r = Some True \<longrightarrow> h \<noteq> None)"

definition orb_ok :: "orb_strategy \<Rightarrow> bool" where
  "orb_ok s \<longleftrightarrow> 0 \<le> orb_rr s \<and> (\<forall>t. range_ok (orb_high s t) (orb_low s t) (orb_ready s t))"

fun strategy_ok :: "nse_strategy \<Rightarrow> bool" where
  "strategy_ok (Orb s) \<longleftrightarrow> orb_ok s"
| "strategy_ok (Ema s) \<longleftrightarrow> 0 < em_sl_mult s \<and> 0 \<le> em_tp_mult s"
| "strategy_ok (Sma s) \<longleftrightarrow> True"
| "strategy_ok (Squeeze s) \<longleftrightarrow> 0 \<le> bq_rr s \<and> 0 \<le> bq_std s"
| "strategy_ok (Flip s) \<longleftrightarrow> 0 \<le> su_rr s"
| "strategy_ok (Pullback s) \<longleftrightarrow> 0 \<le> pb_rr s \<and> 0 \<le> pb_min_sl_pct s"

lemma signal_of_sane:
  "sane_signal c (signal_of st c name reason sl tp) \<longleftrightarrow>
     (case sl of None \<Rightarrow> True | Some sl \<Rightarrow> if st = Signal_BUY then sl < c_close c else c_close c < sl) \<and>
     (case tp of None \<Rightarrow> True | Some tp \<Rightarrow> if st = Signal_BUY then c_close c \<le> tp else tp \<le> c_close c)"
  by (cases sl; cases tp; simp add: sane_signal_def signal_of_def)

lemma good_ema:
  assumes "0 < em_sl_mult s" "0 \<le> em_tp_mult s"
  shows "good (\<lambda>s. 0 < em_sl_mult s \<and> 0 \<le> em_tp_mult s) (sane_signal c) (ema_on_candle tx loc n c h f s)"
  unfolding ema_on_candle_def ema_signal_def ema_maybe_reset_def Let_def
  by (intro good_intros) (use assms in \<open>auto simp: signal_of_sane split: if_splits\<close>)

lemma good_sma: "good (\<lambda>s. True) (sane_signal c) (sma_on_candle tx c h f s)"
  unfolding sma_on_candle_def Let_def
  by (intro good_intros)
    (auto simp: good_def outcome_ok_def both_def signal_in_result_def detect_crossover_def signal_of_sane Let_def split: option.split)

lemma good_flip:
  assumes "0 \<le> su_rr s" "0 < c_close c"
  shows "good (\<lambda>s. 0 \<le> su_rr s) (sane_signal c) (flip_on_candle tx n c h f s)"
  unfolding flip_on_candle_def flip_maybe_reset_def Let_def
  by (intro good_intros) (use assms in \<open>auto simp: signal_of_sane split: if_splits\<close>)


lemma bollinger_ordered:
  assumes "bollinger_bands cs p std = Inr (Some (hi, mid, lo))" "0 \<le> std"
  shows "lo \<le> mid \<and> mid \<le> hi"
proof -
  define w where "w = List.map c_close (take_last p cs)"
  have p: "0 < p" "length w = p" using assms(1) by (auto simp: bollinger_bands_def w_def split: if_splits)
  have "0 \<le> mean_of p (List.map (\<lambda>c. (c - mean_of p w) ^ 2) w)"
    using p by (intro mean_of_ge) (auto simp: list_all_iff)
  then have "0 \<le> std * sqrt (mean_of p (List.map (\<lambda>c. (c - mean_of p w) ^ 2) w))" using assms(2) by simp
  then show ?thesis using assms(1) unfolding bollinger_bands_def Let_def w_def[symmetric] by (auto split: if_splits)
qed

lemma good_squeeze:
  assumes "0 \<le> bq_rr s" "0 \<le> bq_std s" "0 < c_close c"
  shows "good (\<lambda>s. 0 \<le> bq_rr s \<and> 0 \<le> bq_std s) (sane_signal c) (squeeze_on_candle tx loc n c h f s)"
proof -
  have release: "good (\<lambda>s. 0 \<le> bq_rr s \<and> 0 \<le> bq_std s) (sane_signal c) (release_breakout tx loc n c cs vols dur f s)"
    if r: "0 \<le> bq_rr s" "0 \<le> bq_std s" for s cs vols dur f
  proof -
    have "0 \<le> bq_rr s * (hi - lo)" if "lo \<le> mid \<and> mid \<le> hi" for hi mid lo using that r by (intro mult_nonneg_nonneg) linarith+
    then show ?thesis unfolding release_breakout_def Let_def
      by (intro good_intros)
        (use r assms(3) in \<open>auto simp: signal_of_sane split: if_splits dest!: bollinger_ordered[OF _ r(2)]\<close>)
  qed
  show ?thesis unfolding squeeze_on_candle_def squeeze_maybe_reset_def enter_squeeze_def leave_squeeze_def Let_def
    by (intro good_intros release) (use assms in auto)
qed

lemma good_pullback:
  assumes "0 \<le> pb_rr s" "0 \<le> pb_min_sl_pct s" "0 < c_close c"
  shows "good (\<lambda>s. 0 \<le> pb_rr s \<and> 0 \<le> pb_min_sl_pct s) (sane_signal c) (pullback_on_candle tx loc n c h f s)"
proof -
  have sig: "good (\<lambda>s. 0 \<le> pb_rr s \<and> 0 \<le> pb_min_sl_pct s) (sane_signal c) (pullback_signal tx c v p r f s)"
    if q: "0 \<le> pb_rr s" "0 \<le> pb_min_sl_pct s" for s v p r f
    unfolding pullback_signal_def pullback_traded_def Let_def
    by (intro good_intros) (use q assms(3) in \<open>auto simp: signal_of_sane split: if_splits\<close>)
  show ?thesis unfolding pullback_on_candle_def pullback_maybe_reset_def Let_def
    by (intro good_intros sig) (use assms in auto)
qed


lemma orb_ok_reset: "orb_ok s \<Longrightarrow> orb_ok (orb_maybe_reset n s)"
  by (simp add: orb_ok_def orb_maybe_reset_def range_ok_def)

lemma orb_ok_extend:
  assumes "orb_ok s" "ohlc_ok c"
  shows "orb_ok (orb_extend_range c s)"
proof -
  let ?s = "orb_extend_range c s" and ?k = "c_token c"
  have "range_ok (orb_high ?s t) (orb_low ?s t) (orb_ready ?s t)" for t
  proof (cases "t = ?k")
    case True
    then show ?thesis using assms(1) ohlc_ok_range[OF assms(2)]
      by (auto simp: orb_ok_def range_ok_def orb_extend_range_def lookup_or_def Let_def split: option.split dest!: spec[of _ ?k])
  next
    case False
    then have "orb_high ?s t = orb_high s t" "orb_low ?s t = orb_low s t" "orb_ready ?s t = orb_ready s t"
      by (simp_all add: orb_extend_range_def Let_def split: option.split)
    then show ?thesis using assms(1) by (simp add: orb_ok_def)
  qed
  moreover have "orb_rr ?s = orb_rr s" by (simp add: orb_extend_range_def Let_def split: option.split)
  ultimately show ?thesis using assms(1) by (simp add: orb_ok_def)
qed

lemma orb_ok_check:
  assumes "orb_ok s"
  shows "orb_ok (fst (orb_check_range now token s))"
proof -
  let ?s = "fst (orb_check_range now token s)"
  have same: "orb_high ?s = orb_high s" "orb_low ?s = orb_low s" "orb_rr ?s = orb_rr s"
    by (simp_all add: orb_check_range_def Let_def split: option.split)
  have "orb_ready ?s t = orb_ready s t \<or> orb_ready ?s t \<noteq> Some True \<or> orb_high s t \<noteq> None" for t
    by (auto simp: orb_check_range_def Let_def split: option.split)
  then show ?thesis using assms unfolding orb_ok_def same range_ok_def by metis
qed

lemma orb_ok_ready:
  assumes "orb_ok s" "lookup_or (orb_ready s) token False"
  shows "lookup_or (orb_low s) token 0 \<le> lookup_or (orb_high s) token 0"
proof -
  have "range_ok (orb_high s token) (orb_low s token) (orb_ready s token)" "orb_ready s token = Some True"
    using assms by (auto simp: orb_ok_def lookup_or_def split: option.splits)
  then show ?thesis by (auto simp: range_ok_def lookup_or_def)
qed

lemma good_orb:
  assumes "orb_ok s" "ohlc_ok c"
  shows "good orb_ok (sane_signal c) (orb_on_candle tx loc n c h f s)"
proof -
  have taken: "orb_ok (s\<lparr>orb_long_taken := m\<rparr>)" "orb_ok (s\<lparr>orb_short_taken := m\<rparr>)" if "orb_ok s" for s m
    using that by (simp_all add: orb_ok_def)
  have breakout: "good orb_ok (sane_signal c) (orb_check_breakout tx loc n c h f s)"
    if s: "orb_ok s" "lookup_or (orb_ready s) (c_token c) False" for s f
  proof -
    have "lookup_or (orb_low s) (c_token c) 0 \<le> lookup_or (orb_high s) (c_token c) 0" by (rule orb_ok_ready[OF s])
    moreover have "0 \<le> orb_rr s" using s(1) by (simp add: orb_ok_def)
    ultimately have "0 \<le> orb_rr s * (lookup_or (orb_high s) (c_token c) 0 - lookup_or (orb_low s) (c_token c) 0)"
      "lookup_or (orb_low s) (c_token c) 0 \<le> lookup_or (orb_high s) (c_token c) 0" by simp_all
    then show ?thesis unfolding orb_check_breakout_def Let_def
      by (intro good_intros s(1) taken(1)[OF s(1)] taken(2)[OF s(1)]) (auto simp: signal_of_sane)
  qed
  let ?s = "orb_maybe_reset n s"
  have ok: "orb_ok ?s" "orb_ok (orb_extend_range c ?s)" using assms by (simp_all add: orb_ok_reset orb_ok_extend)
  have ok': "orb_ok s'" if "orb_check_range now t ?s = (s', b)" for now t s' b
    using orb_ok_check[OF ok(1), of now t] that by simp
  show ?thesis unfolding orb_on_candle_def Let_def
    by (intro good_intros breakout assms(1) ok) (auto dest: ok')
qed



subsection \<open>One breakout per side and day\<close>

definition taken :: "signal_type \<Rightarrow> string \<Rightarrow> int \<Rightarrow> orb_strategy \<Rightarrow> bool" where
  "taken st t d s \<longleftrightarrow> orb_last_reset s = Some d \<and>
     lookup_or (if st = Signal_BUY then orb_long_taken s else orb_short_taken s) t False"

text \<open>On day \<open>d\<close>: a signal is the first of its side, and marks it; no other step unmarks it.\<close>

definition marks :: "signal_type \<Rightarrow> string \<Rightarrow> int \<Rightarrow> orb_strategy \<Rightarrow> orb_strategy \<Rightarrow> trade_signal option \<Rightarrow> bool" where
  "marks st t d s s' g \<longleftrightarrow> (taken st t d s \<longrightarrow> taken st t d s') \<and>
     (case g of None \<Rightarrow> True
      | Some x \<Rightarrow> sg_type x = st \<and> sg_token x = t \<longrightarrow> \<not> taken st t d s \<and> taken st t d s')"

lemma marks_none: "(taken st t d s \<Longrightarrow> taken st t d s') \<Longrightarrow> marks st t d s s' None"
  by (simp add: marks_def)

lemma marks_long:
  "orb_last_reset x = Some d \<Longrightarrow> taken st t d x = taken st t d s \<Longrightarrow> \<not> lookup_or (orb_long_taken x) (c_token c) False \<Longrightarrow>
   marks st t d s (x\<lparr>orb_long_taken := (orb_long_taken x)(c_token c \<mapsto> True)\<rparr>) (Some (signal_of Signal_BUY c nm rs sl tp))"
  by (cases st) (auto simp: marks_def taken_def lookup_or_def signal_of_def)

lemma marks_short:
  "orb_last_reset x = Some d \<Longrightarrow> taken st t d x = taken st t d s \<Longrightarrow> \<not> lookup_or (orb_short_taken x) (c_token c) False \<Longrightarrow>
   marks st t d s (x\<lparr>orb_short_taken := (orb_short_taken x)(c_token c \<mapsto> True)\<rparr>) (Some (signal_of Signal_SELL c nm rs sl tp))"
  by (cases st) (auto simp: marks_def taken_def lookup_or_def signal_of_def)

lemma orb_marks:
  assumes "wall_day n = d"
  shows "outcome_ok (marks st t d s) (orb_on_candle tx loc n c h f s)"
proof -
  let ?s = "orb_maybe_reset n s"
  have reset: "orb_last_reset ?s = Some d" "taken st t d ?s \<longleftrightarrow> taken st t d s"
    using assms by (auto simp: orb_maybe_reset_def taken_def lookup_or_def)
  have extend: "taken st t d (orb_extend_range c ?s) \<longleftrightarrow> taken st t d s"
    using reset by (auto simp: orb_extend_range_def taken_def Let_def split: option.split)
  have check: "orb_last_reset s' = Some d" "orb_long_taken s' = orb_long_taken ?s" "orb_short_taken s' = orb_short_taken ?s"
    if "orb_check_range (wall_time n) (c_token c) ?s = (s', b)" for s' b
    using that reset(1) by (auto simp: orb_check_range_def Let_def split: option.splits if_splits)
  have check_taken: "taken st t d s' \<longleftrightarrow> taken st t d s" if "orb_check_range (wall_time n) (c_token c) ?s = (s', b)" for s' b
    using reset(2)[unfolded taken_def[of st t d ?s] reset(1)] unfolding taken_def[of st t d s'] check[OF that] by simp
  show ?thesis unfolding orb_on_candle_def orb_check_breakout_def Let_def
    by (intro outcome_intros marks_none marks_long marks_short) (simp_all add: extend check check_taken)
qed

fun orb_signals ::
  "texts \<Rightarrow> zone_clock \<Rightarrow> (pyfloat \<times> candle \<times> candle list) list \<Rightarrow> cpr_filter option \<Rightarrow> orb_strategy \<Rightarrow> trade_signal list" where
  "orb_signals tx loc [] f s = []"
| "orb_signals tx loc ((n, c, h) # es) f s =
     (case orb_on_candle tx loc n c h f s of (s', f', r) \<Rightarrow>
        (case r of Inr (Some g) \<Rightarrow> [g] | _ \<Rightarrow> []) @ orb_signals tx loc es f' s')"

text \<open>
  On one day the opening range breakout gives at most one long and one short signal per
  instrument, whatever candles, histories and CPR levels it is shown and whatever its state before.
\<close>

theorem orb_once_a_day:
  assumes "list_all (\<lambda>(n, c, h). wall_day n = d) es"
  shows "length (filter (\<lambda>g. sg_type g = st \<and> sg_token g = t) (orb_signals tx loc es f s)) \<le> 1"
proof -
  have "length (filter (\<lambda>g. sg_type g = st \<and> sg_token g = t) (orb_signals tx loc es f s)) \<le> (if taken st t d s then 0 else 1)"
    using assms
  proof (induction es arbitrary: f s)
    case (Cons e es)
    obtain n c h where e: "e = (n, c, h)" by (metis prod_cases3)
    obtain s' f' r where r: "orb_on_candle tx loc n c h f s = (s', f', r)" by (metis prod_cases3)
    have "wall_day n = d" using Cons.prems by (simp add: e)
    from orb_marks[OF this, of st t s tx loc c h f]
    have m: "marks st t d s s' (case r of Inr (Some g) \<Rightarrow> Some g | _ \<Rightarrow> None)" by (simp add: outcome_ok_def signal_in_result_def r)
    have "length (filter (\<lambda>g. sg_type g = st \<and> sg_token g = t) (orb_signals tx loc es f' s')) \<le> (if taken st t d s' then 0 else 1)"
      using Cons by simp
    then show ?case using m by (cases r; cases "projr r") (auto simp: e r marks_def split: if_splits option.splits)
  qed simp
  then show ?thesis by (auto split: if_splits)
qed


subsection \<open>The daily trade limits\<close>

definition day_trades :: "int \<Rightarrow> string \<Rightarrow> int option \<Rightarrow> (string \<rightharpoonup> int) \<Rightarrow> int" where
  "day_trades d t last_reset m = (if last_reset = Some d then lookup_or m t 0 else 0)"

text \<open>A signal of the instrument counts as one trade and needs room under the limit; nothing else changes the count.\<close>

definition counts_up :: "('s \<Rightarrow> int) \<Rightarrow> ('s \<Rightarrow> int) \<Rightarrow> string \<Rightarrow> 's \<Rightarrow> 's \<Rightarrow> trade_signal option \<Rightarrow> bool" where
  "counts_up trades limit t s s' g \<longleftrightarrow> limit s' = limit s \<and>
     (if \<exists>x. g = Some x \<and> sg_token x = t then trades s < limit s \<and> trades s' = trades s + 1 else trades s' = trades s)"

lemma counts_none: "limit s' = limit s \<Longrightarrow> trades s' = trades s \<Longrightarrow> counts_up trades limit t s s' None"
  by (simp add: counts_up_def)

lemma counts_signal:
  "limit s' = limit s \<Longrightarrow> trades s' = (if sg_token x = t then trades s + 1 else trades s) \<Longrightarrow> (sg_token x = t \<Longrightarrow> trades s < limit s) \<Longrightarrow>
   counts_up trades limit t s s' (Some x)"
  by (simp add: counts_up_def)

abbreviation squeeze_trades :: "int \<Rightarrow> string \<Rightarrow> squeeze_strategy \<Rightarrow> int" where
  "squeeze_trades d t s \<equiv> day_trades d t (bq_last_reset s) (bq_trades_today s)"

abbreviation pullback_trades :: "int \<Rightarrow> string \<Rightarrow> pullback_strategy \<Rightarrow> int" where
  "pullback_trades d t s \<equiv> day_trades d t (pb_last_reset s) (pb_trades_today s)"

lemma signal_of_token [simp]: "sg_token (signal_of st c nm rs sl tp) = c_token c"
  by (simp add: signal_of_def)

lemma squeeze_counts:
  assumes "wall_day n = d"
  shows "outcome_ok (counts_up (squeeze_trades d t) bq_max_trades t s) (squeeze_on_candle tx loc n c h f s)"
proof -
  let ?s = "squeeze_maybe_reset n s"
  have reset: "bq_last_reset ?s = Some d" "squeeze_trades d t ?s = squeeze_trades d t s" "bq_max_trades ?s = bq_max_trades s"
    using assms by (auto simp: squeeze_maybe_reset_def day_trades_def lookup_or_def)
  have release: "outcome_ok (counts_up (squeeze_trades d t) bq_max_trades t s) (release_breakout tx loc n c cs vols dur f x)"
    if x: "bq_last_reset x = Some d" "bq_trades_today x = bq_trades_today ?s" "bq_max_trades x = bq_max_trades s"
      "lookup_or (bq_trades_today ?s) (c_token c) 0 < bq_max_trades s" for x f cs vols dur
    unfolding release_breakout_def Let_def
    by (intro outcome_intros counts_none counts_signal)
      (use x reset in \<open>auto simp: day_trades_def lookup_or_def split: if_splits\<close>)
  show ?thesis unfolding squeeze_on_candle_def Let_def
    by (intro outcome_intros counts_none release)
      (use reset assms in \<open>auto simp: day_trades_def enter_squeeze_def leave_squeeze_def lookup_or_def\<close>)
qed

lemma pullback_counts:
  assumes "wall_day n = d"
  shows "outcome_ok (counts_up (pullback_trades d t) pb_max_trades t s) (pullback_on_candle tx loc n c h f s)"
proof -
  let ?s = "pullback_maybe_reset n s"
  have reset: "pb_last_reset ?s = Some d" "pullback_trades d t ?s = pullback_trades d t s" "pb_max_trades ?s = pb_max_trades s"
    using assms by (auto simp: pullback_maybe_reset_def day_trades_def lookup_or_def)
  have sig: "outcome_ok (counts_up (pullback_trades d t) pb_max_trades t s) (pullback_signal tx c v p r f x)"
    if x: "pb_last_reset x = Some d" "pb_trades_today x = pb_trades_today ?s" "pb_max_trades x = pb_max_trades s"
      "lookup_or (pb_trades_today ?s) (c_token c) 0 < pb_max_trades s" for x f v p r
    unfolding pullback_signal_def pullback_traded_def Let_def
    by (intro outcome_intros counts_none counts_signal)
      (use x reset in \<open>auto simp: day_trades_def lookup_or_def split: if_splits\<close>)
  show ?thesis unfolding pullback_on_candle_def Let_def
    by (intro outcome_intros counts_none sig) (use reset assms in \<open>auto simp: day_trades_def lookup_or_def\<close>)
qed

fun handler_signals ::
  "(pyfloat \<Rightarrow> candle \<Rightarrow> candle list \<Rightarrow> cpr_filter option \<Rightarrow> 's \<Rightarrow> 's handler_result) \<Rightarrow>
   (pyfloat \<times> candle \<times> candle list) list \<Rightarrow> cpr_filter option \<Rightarrow> 's \<Rightarrow> trade_signal list" where
  "handler_signals step [] f s = []"
| "handler_signals step ((n, c, h) # es) f s =
     (case step n c h f s of (s', f', r) \<Rightarrow> (case r of Inr (Some g) \<Rightarrow> [g] | _ \<Rightarrow> []) @ handler_signals step es f' s')"

lemma counted_signals:
  assumes "\<And>n c h f s. wall_day n = d \<Longrightarrow> outcome_ok (counts_up trades limit t s) (step n c h f s)"
    "list_all (\<lambda>(n, c, h). wall_day n = d) es"
  shows "int (length (filter (\<lambda>g. sg_token g = t) (handler_signals step es f s))) \<le> max 0 (limit s - trades s)"
  using assms(2)
proof (induction es arbitrary: f s)
  case (Cons e es)
  obtain n c h where e: "e = (n, c, h)" by (metis prod_cases3)
  obtain s' f' r where r: "step n c h f s = (s', f', r)" by (metis prod_cases3)
  have "wall_day n = d" using Cons.prems by (simp add: e)
  from assms(1)[OF this, of s c h f]
  have m: "counts_up trades limit t s s' (case r of Inr (Some g) \<Rightarrow> Some g | _ \<Rightarrow> None)" by (simp add: outcome_ok_def signal_in_result_def r)
  have "int (length (filter (\<lambda>g. sg_token g = t) (handler_signals step es f' s'))) \<le> max 0 (limit s' - trades s')" using Cons by simp
  then show ?case using m by (cases r; cases "projr r") (auto simp: e r counts_up_def split: if_splits option.splits)
qed simp

text \<open>
  On one day the squeeze and the pullback strategy give each instrument at most the signals that
  are left of its daily limit, whatever candles, histories and CPR levels they are shown.
\<close>

theorem daily_trade_limit:
  assumes "list_all (\<lambda>(n, c, h). wall_day n = d) es"
  shows "int (length (filter (\<lambda>g. sg_token g = t) (handler_signals (squeeze_on_candle tx loc) es f s)))
       \<le> max 0 (bq_max_trades s - squeeze_trades d t s) \<and>
    int (length (filter (\<lambda>g. sg_token g = t) (handler_signals (pullback_on_candle tx loc) es f p)))
       \<le> max 0 (pb_max_trades p - pullback_trades d t p)"
  by (intro conjI counted_signals[where step = "squeeze_on_candle tx loc", OF squeeze_counts assms]
      counted_signals[where step = "pullback_on_candle tx loc", OF pullback_counts assms])

subsection \<open>Examples\<close>

definition demo_texts :: texts where
  "demo_texts = \<lparr>two_digits = \<lambda>_. [], one_digit = \<lambda>_. [], of_number = \<lambda>_. [], of_float = \<lambda>_. []\<rparr>"

definition demo_zone :: zone_clock where
  "demo_zone = \<lparr>to_wall = \<lambda>x. x, of_wall = \<lambda>x. x\<rparr>"

text \<open>An opening range from 99 to 101 on a Wednesday, and a close above it at ten.\<close>

definition demo_orb :: orb_strategy where
  "demo_orb = (new_orb [] (3/2) 5 (1/10) False)\<lparr>orb_high := [''EURUSD'' \<mapsto> 101], orb_low := [''EURUSD'' \<mapsto> 99],
     orb_ready := [''EURUSD'' \<mapsto> True], orb_last_reset := Some 20460\<rparr>"

definition ten_oclock :: pyfloat where
  "ten_oclock = combine 20460 (10 * hour_ms)"

lemma ten_oclock_clock: "wall_day ten_oclock = 20460" "wall_time ten_oclock = 10 * hour_ms"
  unfolding ten_oclock_def by (rule combine_split; simp add: hour_ms_def day_ms_def)+

lemma demo_candle_key: "c_token (demo_candle p h l c) = ''EURUSD''" "c_timeframe (demo_candle p h l c) = M5"
  by (simp_all add: demo_candle_def)

lemma demo_orb_breaks:
  "orb_on_candle demo_texts demo_zone ten_oclock (demo_candle 100 103 100 102) [] None demo_orb =
     (demo_orb\<lparr>orb_long_taken := [''EURUSD'' \<mapsto> True]\<rparr>, None,
      Inr (Some (signal_of Signal_BUY (demo_candle 100 103 100 102) ''ORB_15min'' ''ORB bullish breakout above '' (Some 99) (Some 105))))"
  by (simp add: orb_on_candle_def orb_maybe_reset_def orb_check_range_def orb_check_breakout_def demo_orb_def new_orb_def
      ten_oclock_clock serves_def lookup_or_def cpr_allows_def market_clock ORB_END_FORMATION_def NO_TRADE_BEFORE_def
      NO_TRADE_AFTER_def demo_candle_def demo_texts_def Let_def)

theorem engine_runs_each_alone_witness:
  "List.map sg_stop_loss (eng_signals (engine_on_candle demo_texts demo_zone ten_oclock (demo_candle 100 103 100 102) (new_builder None)
     (start_engine (register_strategy (Orb demo_orb) (new_engine None))))) = [Some 99]"
proof -
  let ?e = "start_engine (register_strategy (Orb demo_orb) (new_engine None))"
  have run: "eng_running ?e" "nse_should_process_for_strategy ten_oclock"
  proof -
    have "is_trading_day 20460" by (rule wednesday_trades) (simp add: weekday_def)
    then show "eng_running ?e" "nse_should_process_for_strategy ten_oclock"
      by (simp_all add: start_engine_def nse_should_process_for_strategy_def ten_oclock_clock market_clock)
  qed
  have "get_history ''EURUSD'' M5 None (new_builder None) = []"
    by (simp add: get_history_def history_of_def new_builder_def)
  then show ?thesis using engine_runs_each_alone[OF run, of demo_texts demo_zone "demo_candle 100 103 100 102" "new_builder None"]
    by (simp add: start_engine_def register_strategy_def new_engine_def own_signals_def demo_orb_breaks wrap_def
        demo_candle_key signal_of_def)
qed


theorem orb_once_a_day_witness:
  "length (filter (\<lambda>g. sg_type g = Signal_BUY \<and> sg_token g = ''EURUSD'') (orb_signals demo_texts demo_zone
     [(ten_oclock, demo_candle 100 103 100 102, []), (ten_oclock, demo_candle 102 105 101 104, [])] None demo_orb)) = 1"
  using orb_once_a_day[of 20460 "[(ten_oclock, demo_candle 100 103 100 102, []), (ten_oclock, demo_candle 102 105 101 104, [])]"
      Signal_BUY "''EURUSD''" demo_texts demo_zone None demo_orb]
  by (simp add: demo_orb_breaks ten_oclock_clock, simp add: signal_of_def demo_candle_def)

theorem daily_trade_limit_witness:
  "int (length (handler_signals (squeeze_on_candle demo_texts demo_zone) [(ten_oclock, demo_candle 100 103 100 102, [])] None
     (new_squeeze [] 20 2 5 (3/2) (6/5) False 0))) = 0"
proof -
  let ?q = "new_squeeze [] 20 2 5 (3/2) (6/5) False 0"
  have "length (filter (\<lambda>g. sg_token g = t) (handler_signals (squeeze_on_candle demo_texts demo_zone)
      [(ten_oclock, demo_candle 100 103 100 102, [])] None ?q)) = 0" for t
    using daily_trade_limit[of 20460 "[(ten_oclock, demo_candle 100 103 100 102, [])]" t demo_texts demo_zone None ?q
        "new_pullback [] 14 40 60 20 (3/10) 2 2 6"]
    by (simp add: ten_oclock_clock new_squeeze_def day_trades_def)
  then have "g \<notin> set (handler_signals (squeeze_on_candle demo_texts demo_zone)
      [(ten_oclock, demo_candle 100 103 100 102, [])] None ?q)" for g
    unfolding length_0_conv filter_empty_conv by blast
  then show ?thesis by (metis length_0_conv list.set_intros(1) neq_Nil_conv of_nat_0)
qed

end
