(* ===== verification/Exit_Path.thy ===== *)
theory Exit_Path
  imports CFD_Indicators
begin

section \<open>Exits over the candle path of a trade\<close>

text \<open>
  The first half of \<open>app/exit_engine/models\<close>: \<open>rr_exit.py\<close>, \<open>stop_loss_models.py\<close>,
  \<open>trailing_models.py\<close> and \<open>time_exits.py\<close>. Each model walks the candles after the entry and
  returns the price, the points won, the reason and the index of the exit. Directions are the
  strings of the trades table, compared as the code compares them. A reason that contains a figure
  carries it instead of its text.
\<close>

datatype path_exit_reason =
    Tp_Hit | Sl_Hit | Close_At_Eod | Atr_Sl_Hit | Swing_Sl_Hit | Fixed_Sl_Hit | Atr_Trail_Hit
  | Ema_Initial_Sl | Ema_Trail_Exit | Swing_Trail_Hit | No_Path | Time_Candles int | Session_Na | Dead_Trade nat
  | Partial_A_Full_Sl | Partial_A_Eod | Partial_A_Blended | Partial_B_Full_Sl | Partial_B_Eod
  | Partial_B_Partial | Partial_B_Blended | Partial_C_Partial_Sl | Partial_C_Eod | Partial_C_Blended
  | Be_Trail_Hit | Initial_Sl_Hit | Be_Hit | Be_Ema_Exit | Be_Rr_Tp pyfloat | Be_Rr_Trail_Hit
  | Chandelier_Hit pyfloat | Pct_Trail_Hit pyfloat | Step_Trail_Hit | Delay_Sl_Hit | Delayed_Chandelier
  | Vwap_Sl_Hit | Vwap_Cross_Exit | Ema_Cross_Sl | Ema_Cross_Exit nat | Rsi_Sl_Hit | Rsi_Exit pyfloat
  | Xover_Sl_Hit | Bearish_Xover_Exit | Bullish_Xover_Exit

record exit_result =
  xr_exit_price :: pyfloat
  xr_pnl_points :: pyfloat
  xr_reason :: path_exit_reason
  xr_index :: int

subsection \<open>What the models share\<close>

text \<open>The points of a price, the exit at one, and the close of the last candle when nothing else ended the trade.\<close>

definition points :: "string \<Rightarrow> pyfloat \<Rightarrow> pyfloat \<Rightarrow> pyfloat" where
  "points d e price = (if d = ''LONG'' then price - e else e - price)"

definition leave_at :: "string \<Rightarrow> pyfloat \<Rightarrow> pyfloat \<Rightarrow> path_exit_reason \<Rightarrow> nat \<Rightarrow> exit_result" where
  "leave_at d e price reason i =
     \<lparr>xr_exit_price = price, xr_pnl_points = points d e price, xr_reason = reason, xr_index = int i\<rparr>"

definition close_at_eod :: "string \<Rightarrow> pyfloat \<Rightarrow> candle list \<Rightarrow> exit_result" where
  "close_at_eod d e path =
     (let last_close = (if path = [] then e else c_close (last path))
      in \<lparr>xr_exit_price = last_close, xr_pnl_points = points d e last_close, xr_reason = Close_At_Eod, xr_index = -1\<rparr>)"

text \<open>The loop \<open>for i, candle in enumerate(candle_path)\<close>: the body returns an exit or goes on with its new state.\<close>

fun walk_path :: "(nat \<Rightarrow> candle \<Rightarrow> 's \<Rightarrow> exit_result option \<times> 's) \<Rightarrow> nat \<Rightarrow> candle list \<Rightarrow> 's \<Rightarrow> exit_result option" where
  "walk_path body i [] s = None"
| "walk_path body i (c # cs) s =
     (case body i c s of (Some r, _) \<Rightarrow> Some r | (None, s') \<Rightarrow> walk_path body (Suc i) cs s')"

definition walked :: "string \<Rightarrow> pyfloat \<Rightarrow> candle list \<Rightarrow> (nat \<Rightarrow> candle \<Rightarrow> 's \<Rightarrow> exit_result option \<times> 's) \<Rightarrow> 's \<Rightarrow> exit_result" where
  "walked d e path body s = (case walk_path body 0 path s of Some r \<Rightarrow> r | None \<Rightarrow> close_at_eod d e path)"

definition risk_unit :: "pyfloat \<Rightarrow> pyfloat \<Rightarrow> pyfloat" where
  "risk_unit e atr_at_entry = (if atr_at_entry \<le> 0 then e * (5/1000) else atr_at_entry)"

definition stop_behind :: "string \<Rightarrow> pyfloat \<Rightarrow> pyfloat \<Rightarrow> pyfloat" where
  "stop_behind d e x = (if d = ''LONG'' then e - x else e + x)"

definition target_ahead :: "string \<Rightarrow> pyfloat \<Rightarrow> pyfloat \<Rightarrow> pyfloat" where
  "target_ahead d e x = (if d = ''LONG'' then e + x else e - x)"

text \<open>
  A stop is touched: \<open>if direction == "LONG" and ... elif direction == "SHORT" and ...\<close>, and the
  same with a plain \<open>else\<close>.
\<close>

definition path_stop_touched :: "string \<Rightarrow> candle \<Rightarrow> pyfloat \<Rightarrow> bool" where
  "path_stop_touched d c stop \<longleftrightarrow> (d = ''LONG'' \<and> c_low c \<le> stop) \<or> (d = ''SHORT'' \<and> c_high c \<ge> stop)"

definition stop_passed :: "string \<Rightarrow> candle \<Rightarrow> pyfloat \<Rightarrow> bool" where
  "stop_passed d c stop \<longleftrightarrow> (if d = ''LONG'' then c_low c \<le> stop else c_high c \<ge> stop)"

definition target_passed :: "string \<Rightarrow> candle \<Rightarrow> pyfloat \<Rightarrow> bool" where
  "target_passed d c tp \<longleftrightarrow> (if d = ''LONG'' then c_high c \<ge> tp else c_low c \<le> tp)"

text \<open>The best price so far and the tighter of two stops.\<close>

definition best_of :: "string \<Rightarrow> candle \<Rightarrow> pyfloat \<Rightarrow> pyfloat" where
  "best_of d c best =
     (if d = ''LONG'' then (if c_high c > best then c_high c else best) else (if c_low c < best then c_low c else best))"

definition tighter_path_stop :: "string \<Rightarrow> pyfloat \<Rightarrow> pyfloat \<Rightarrow> pyfloat" where
  "tighter_path_stop d a b = (if d = ''LONG'' then max a b else min a b)"

subsection \<open>Fixed risk-reward exits\<close>

definition RR_MULTIPLES :: "(pyfloat \<times> string) list" where
  "RR_MULTIPLES = [(1, ''rr1''), (3/2, ''rr1_5''), (2, ''rr2''), (5/2, ''rr2_5''), (3, ''rr3''), (5, ''rr5''), (10, ''rr10'')]"

definition rr_body :: "string \<Rightarrow> pyfloat \<Rightarrow> pyfloat \<Rightarrow> pyfloat \<Rightarrow> nat \<Rightarrow> candle \<Rightarrow> unit \<Rightarrow> exit_result option \<times> unit" where
  "rr_body d e stop_loss tp i c s =
     (if stop_passed d c stop_loss then Some (leave_at d e stop_loss Sl_Hit i)
      else if target_passed d c tp then Some (leave_at d e tp Tp_Hit i)
      else None, s)"

definition simulate_rr_exit :: "pyfloat \<Rightarrow> string \<Rightarrow> pyfloat \<Rightarrow> candle list \<Rightarrow> pyfloat \<Rightarrow> exit_result" where
  "simulate_rr_exit e d atr_at_entry path rr =
     (let risk = risk_unit e atr_at_entry
      in walked d e path (rr_body d e (stop_behind d e risk) (target_ahead d e (risk * rr))) ())"

definition simulate_all_rr :: "pyfloat \<Rightarrow> string \<Rightarrow> pyfloat \<Rightarrow> candle list \<Rightarrow> (string \<times> pyfloat) list" where
  "simulate_all_rr e d atr_at_entry path =
     List.map (\<lambda>(rr, key). (key, xr_pnl_points (simulate_rr_exit e d atr_at_entry path rr))) RR_MULTIPLES"

subsection \<open>Stop-loss models\<close>

definition find_swing_level :: "candle list \<Rightarrow> string \<Rightarrow> pyfloat option" where
  "find_swing_level before d =
     (if before = [] then None
      else let lookback = take_last 5 before
        in Some (if d = ''LONG'' then lowest_of lookback else highest_of lookback))"

definition stop_body :: "string \<Rightarrow> pyfloat \<Rightarrow> pyfloat \<Rightarrow> path_exit_reason \<Rightarrow> nat \<Rightarrow> candle \<Rightarrow> unit \<Rightarrow> exit_result option \<times> unit" where
  "stop_body d e stop_loss reason i c s =
     (if path_stop_touched d c stop_loss then Some (leave_at d e stop_loss reason i) else None, s)"

definition simulate_atr_stop :: "pyfloat \<Rightarrow> string \<Rightarrow> pyfloat \<Rightarrow> candle list \<Rightarrow> pyfloat \<Rightarrow> exit_result" where
  "simulate_atr_stop e d atr_at_entry path multiplier =
     walked d e path (stop_body d e (stop_behind d e (multiplier * risk_unit e atr_at_entry)) Atr_Sl_Hit) ()"

definition simulate_swing_stop :: "pyfloat \<Rightarrow> string \<Rightarrow> candle list \<Rightarrow> candle list \<Rightarrow> exit_result" where
  "simulate_swing_stop e d path before =
     (let level = (case find_swing_level before d of Some x \<Rightarrow> x
                   | None \<Rightarrow> if d = ''LONG'' then e * (99/100) else e * (101/100))
      in walked d e path (stop_body d e level Swing_Sl_Hit) ())"

definition simulate_fixed_stop :: "pyfloat \<Rightarrow> string \<Rightarrow> candle list \<Rightarrow> pyfloat \<Rightarrow> exit_result" where
  "simulate_fixed_stop e d path stop_pct =
     walked d e path (stop_body d e (if d = ''LONG'' then e * (1 - stop_pct) else e * (1 + stop_pct)) Fixed_Sl_Hit) ()"

definition simulate_all_stops :: "pyfloat \<Rightarrow> string \<Rightarrow> pyfloat \<Rightarrow> candle list \<Rightarrow> candle list \<Rightarrow> (string \<times> pyfloat) list" where
  "simulate_all_stops e d atr_at_entry path before =
     [(''atr_stop'', xr_pnl_points (simulate_atr_stop e d atr_at_entry path (3/2))),
      (''swing_stop'', xr_pnl_points (simulate_swing_stop e d path before)),
      (''fixed_stop'', xr_pnl_points (simulate_fixed_stop e d path (5/1000)))]"

subsection \<open>Trailing models\<close>

text \<open>The trailing stop and the best price. A new best price moves the stop, never away from the price.\<close>

definition atr_trail_body :: "string \<Rightarrow> pyfloat \<Rightarrow> pyfloat \<Rightarrow> nat \<Rightarrow> candle \<Rightarrow> pyfloat \<times> pyfloat \<Rightarrow> exit_result option \<times> pyfloat \<times> pyfloat" where
  "atr_trail_body d e trail_distance i c s =
     (case s of (stop, best) \<Rightarrow>
        let best' = best_of d c best;
            stop' = (if best' \<noteq> best then tighter_path_stop d stop (stop_behind d best' trail_distance) else stop)
        in (if stop_passed d c stop' then Some (leave_at d e stop' Atr_Trail_Hit i) else None, stop', best'))"

definition simulate_atr_trail :: "pyfloat \<Rightarrow> string \<Rightarrow> pyfloat \<Rightarrow> candle list \<Rightarrow> pyfloat \<Rightarrow> pyfloat \<Rightarrow> exit_result" where
  "simulate_atr_trail e d atr_at_entry path trail_multiplier initial_sl_multiplier =
     (let r = risk_unit e atr_at_entry
      in walked d e path (atr_trail_body d e (trail_multiplier * r)) (stop_behind d e (initial_sl_multiplier * r), e))"

text \<open>The period is positive in every call.\<close>

definition compute_ema_on_path :: "candle list \<Rightarrow> nat \<Rightarrow> pyfloat list" where
  "compute_ema_on_path path period =
     (if length path < period then []
      else
        let closes = List.map c_close path; k = 2 / (of_nat period + 1); seed = sum_list (take period closes) / of_nat period
        in replicate (period - 1) 0 @ carried (\<lambda>ema_val x. x * k + ema_val * (1 - k)) seed (drop period closes))"

definition crossed_line :: "string \<Rightarrow> pyfloat \<Rightarrow> pyfloat \<Rightarrow> bool" where
  "crossed_line d x line \<longleftrightarrow> (d = ''LONG'' \<and> x < line) \<or> (d = ''SHORT'' \<and> x > line)"

definition ema_trail_body :: "string \<Rightarrow> pyfloat \<Rightarrow> pyfloat \<Rightarrow> pyfloat list \<Rightarrow> nat \<Rightarrow> candle \<Rightarrow> unit \<Rightarrow> exit_result option \<times> unit" where
  "ema_trail_body d e initial_stop ema_values i c s =
     (if path_stop_touched d c initial_stop then Some (leave_at d e initial_stop Ema_Initial_Sl i)
      else if i < length ema_values \<and> ema_values ! i > 0 \<and> crossed_line d (c_close c) (ema_values ! i)
      then Some (leave_at d e (c_close c) Ema_Trail_Exit i)
      else None, s)"

definition simulate_ema_trail :: "pyfloat \<Rightarrow> string \<Rightarrow> pyfloat \<Rightarrow> candle list \<Rightarrow> nat \<Rightarrow> exit_result" where
  "simulate_ema_trail e d atr_at_entry path ema_period =
     walked d e path (ema_trail_body d e (stop_behind d e (3/2 * risk_unit e atr_at_entry)) (compute_ema_on_path path ema_period)) ()"

definition swing_trail_body :: "string \<Rightarrow> pyfloat \<Rightarrow> candle list \<Rightarrow> nat \<Rightarrow> nat \<Rightarrow> candle \<Rightarrow> pyfloat \<Rightarrow> exit_result option \<times> pyfloat" where
  "swing_trail_body d e path swing_lookback i c stop =
     (let stop' = (if i \<ge> swing_lookback
                   then let lookback = take swing_lookback (drop (i - swing_lookback) path)
                     in tighter_path_stop d stop (if d = ''LONG'' then lowest_of lookback else highest_of lookback)
                   else stop)
      in (if path_stop_touched d c stop' then Some (leave_at d e stop' Swing_Trail_Hit i) else None, stop'))"

definition simulate_swing_trail :: "pyfloat \<Rightarrow> string \<Rightarrow> pyfloat \<Rightarrow> candle list \<Rightarrow> nat \<Rightarrow> exit_result" where
  "simulate_swing_trail e d atr_at_entry path swing_lookback =
     walked d e path (swing_trail_body d e path swing_lookback) (stop_behind d e (3/2 * risk_unit e atr_at_entry))"

definition simulate_all_trails :: "pyfloat \<Rightarrow> string \<Rightarrow> pyfloat \<Rightarrow> candle list \<Rightarrow> (string \<times> pyfloat) list" where
  "simulate_all_trails e d atr_at_entry path =
     [(''atr_trail'', xr_pnl_points (simulate_atr_trail e d atr_at_entry path 2 (3/2))),
      (''ema_trail'', xr_pnl_points (simulate_ema_trail e d atr_at_entry path 9)),
      (''swing_trail'', xr_pnl_points (simulate_swing_trail e d atr_at_entry path 3))]"

subsection \<open>Time exits\<close>

definition TIME_CANDLE_EXITS :: "(int \<times> string) list" where
  "TIME_CANDLE_EXITS = [(3, ''time_15m''), (6, ''time_30m''), (12, ''time_1h''), (24, ''time_2h''), (48, ''time_4h'')]"

text \<open>The holding time is positive in every call, so the index is not negative.\<close>

definition simulate_time_exit :: "pyfloat \<Rightarrow> string \<Rightarrow> candle list \<Rightarrow> int \<Rightarrow> exit_result" where
  "simulate_time_exit e d path hold_candles =
     (if path = [] then \<lparr>xr_exit_price = e, xr_pnl_points = 0, xr_reason = No_Path, xr_index = -1\<rparr>
      else let exit_idx = min (hold_candles - 1) (int (length path) - 1)
        in leave_at d e (c_close (path ! nat exit_idx)) (Time_Candles hold_candles) (nat exit_idx))"

definition simulate_all_time_exits :: "pyfloat \<Rightarrow> string \<Rightarrow> candle list \<Rightarrow> (string \<times> pyfloat) list" where
  "simulate_all_time_exits e d path =
     List.map (\<lambda>(n, key). (key, xr_pnl_points (simulate_time_exit e d path n))) TIME_CANDLE_EXITS"

definition SESSION_EXITS :: "(string \<times> int) list" where
  "SESSION_EXITS = [(''session_morning'', 27), (''session_midday'', 45), (''session_afternoon'', 57), (''session_preclose'', 72)]"

definition simulate_session_exit :: "pyfloat \<Rightarrow> string \<Rightarrow> candle list \<Rightarrow> int \<Rightarrow> int \<Rightarrow> exit_result" where
  "simulate_session_exit e d path entry_candle_from_open session_close_candle =
     (let candles_to_hold = session_close_candle - entry_candle_from_open
      in if candles_to_hold \<le> 0
         then if path \<noteq> [] then (close_at_eod d e path)\<lparr>xr_reason := Session_Na\<rparr>
              else \<lparr>xr_exit_price = e, xr_pnl_points = 0, xr_reason = Session_Na, xr_index = -1\<rparr>
         else simulate_time_exit e d path candles_to_hold)"

definition simulate_all_session_exits :: "pyfloat \<Rightarrow> string \<Rightarrow> candle list \<Rightarrow> int \<Rightarrow> (string \<times> pyfloat) list" where
  "simulate_all_session_exits e d path entry_candle_from_open =
     List.map (\<lambda>(key, close_candle). (key, xr_pnl_points (simulate_session_exit e d path entry_candle_from_open close_candle)))
       SESSION_EXITS"

definition DEAD_TRADE_CANDLES :: "(nat \<times> string) list" where
  "DEAD_TRADE_CANDLES = [(6, ''dead_30m''), (12, ''dead_1h''), (24, ''dead_2h'')]"

definition simulate_dead_trade_exit :: "pyfloat \<Rightarrow> string \<Rightarrow> candle list \<Rightarrow> nat \<Rightarrow> exit_result" where
  "simulate_dead_trade_exit e d path check_after_candles =
     (if path = [] \<or> length path < check_after_candles
      then if path \<noteq> [] then close_at_eod d e path
           else \<lparr>xr_exit_price = e, xr_pnl_points = 0, xr_reason = No_Path, xr_index = -1\<rparr>
      else let check_close = c_close (path ! (check_after_candles - 1))
        in if points d e check_close \<le> 0
           then leave_at d e check_close (Dead_Trade check_after_candles) (check_after_candles - 1)
           else close_at_eod d e path)"

definition simulate_all_dead_trade_exits :: "pyfloat \<Rightarrow> string \<Rightarrow> candle list \<Rightarrow> (string \<times> pyfloat) list" where
  "simulate_all_dead_trade_exits e d path =
     List.map (\<lambda>(n, key). (key, xr_pnl_points (simulate_dead_trade_exit e d path n))) DEAD_TRADE_CANDLES"

end
