(* ===== verification/Exit_Trails.thy ===== *)
theory Exit_Trails
  imports Exit_Path
begin

section \<open>Partial, breakeven, chandelier and indicator exits\<close>

text \<open>
  The second half of \<open>app/exit_engine/models\<close>: \<open>partial_exit_models.py\<close>, \<open>breakeven_trail.py\<close>,
  \<open>chandelier_exit.py\<close> and \<open>indicator_exits.py\<close>.
\<close>

subsection \<open>Partial exits\<close>

definition blended :: "pyfloat \<Rightarrow> path_exit_reason \<Rightarrow> exit_result" where
  "blended pnl reason = \<lparr>xr_exit_price = 0, xr_pnl_points = pnl, xr_reason = reason, xr_index = -1\<rparr>"

text \<open>\<open>candle_path[r.exit_candle_index + 1:]\<close>, where the index is not negative.\<close>

definition path_after :: "candle list \<Rightarrow> exit_result \<Rightarrow> candle list" where
  "path_after path r = drop (nat (xr_index r + 1)) path"

text \<open>The points of the rest: the trail over the remaining candles, or a given value when there are none.\<close>

definition trail_rest :: "pyfloat \<Rightarrow> string \<Rightarrow> pyfloat \<Rightarrow> candle list \<Rightarrow> pyfloat \<Rightarrow> pyfloat" where
  "trail_rest e d r rest otherwise =
     (if rest \<noteq> [] then xr_pnl_points (simulate_atr_trail e d r rest 2 (3/2)) else otherwise)"

definition simulate_partial_a :: "pyfloat \<Rightarrow> string \<Rightarrow> pyfloat \<Rightarrow> candle list \<Rightarrow> exit_result" where
  "simulate_partial_a e d atr_at_entry path =
     (let r = risk_unit e atr_at_entry; rr1 = simulate_rr_exit e d r path 1
      in if xr_reason rr1 = Sl_Hit then rr1\<lparr>xr_reason := Partial_A_Full_Sl\<rparr>
         else if xr_reason rr1 = Close_At_Eod then rr1\<lparr>xr_reason := Partial_A_Eod\<rparr>
         else
           let rr1_pnl = xr_pnl_points rr1; trail_pnl = trail_rest e d r (path_after path rr1) rr1_pnl
           in blended (1/2 * rr1_pnl + 1/2 * trail_pnl) Partial_A_Blended)"

definition simulate_partial_b :: "pyfloat \<Rightarrow> string \<Rightarrow> pyfloat \<Rightarrow> candle list \<Rightarrow> exit_result" where
  "simulate_partial_b e d atr_at_entry path =
     (let r = risk_unit e atr_at_entry; rr1 = simulate_rr_exit e d r path 1
      in if xr_reason rr1 = Sl_Hit then rr1\<lparr>xr_reason := Partial_B_Full_Sl\<rparr>
         else if xr_reason rr1 = Close_At_Eod then rr1\<lparr>xr_reason := Partial_B_Eod\<rparr>
         else
           let rr1_pnl = xr_pnl_points rr1; path1 = path_after path rr1;
               rr2 = simulate_rr_exit e d r path1 2; rr2_pnl = xr_pnl_points rr2
           in if xr_reason rr2 = Sl_Hit \<or> xr_reason rr2 = Close_At_Eod
              then blended (1/3 * rr1_pnl + 2/3 * rr2_pnl) Partial_B_Partial
              else
                let trail_pnl = trail_rest e d r (path_after path1 rr2) rr2_pnl
                in blended (1/3 * rr1_pnl + 1/3 * rr2_pnl + 1/3 * trail_pnl) Partial_B_Blended)"

text \<open>The loop over the targets 1, 2 and 3, with the portions taken so far; the rest trails.\<close>

fun partial_c_loop :: "pyfloat \<Rightarrow> string \<Rightarrow> pyfloat \<Rightarrow> pyfloat list \<Rightarrow> pyfloat list \<Rightarrow> candle list \<Rightarrow> exit_result" where
  "partial_c_loop e d r [] portions path =
     (let trail_pnl = trail_rest e d r path (if portions \<noteq> [] then last portions else 0)
      in blended (sum_list (List.map (\<lambda>p. 1/4 * p) portions) + 1/4 * trail_pnl) Partial_C_Blended)"
| "partial_c_loop e d r (rr # rrs) portions path =
     (let result = simulate_rr_exit e d r path rr; weight = 1 - 1/4 * of_nat (length portions);
          pnl = sum_list (List.map (\<lambda>p. 1/4 * p) portions) + weight * xr_pnl_points result
      in if xr_reason result = Sl_Hit then blended pnl Partial_C_Partial_Sl
         else if xr_reason result = Close_At_Eod then blended pnl Partial_C_Eod
         else partial_c_loop e d r rrs (portions @ [xr_pnl_points result]) (path_after path result))"

definition simulate_partial_c :: "pyfloat \<Rightarrow> string \<Rightarrow> pyfloat \<Rightarrow> candle list \<Rightarrow> exit_result" where
  "simulate_partial_c e d atr_at_entry path = partial_c_loop e d (risk_unit e atr_at_entry) [1, 2, 3] [] path"

definition simulate_all_partials :: "pyfloat \<Rightarrow> string \<Rightarrow> pyfloat \<Rightarrow> candle list \<Rightarrow> (string \<times> pyfloat) list" where
  "simulate_all_partials e d atr_at_entry path =
     [(''partial_a'', xr_pnl_points (simulate_partial_a e d atr_at_entry path)),
      (''partial_b'', xr_pnl_points (simulate_partial_b e d atr_at_entry path)),
      (''partial_c'', xr_pnl_points (simulate_partial_c e d atr_at_entry path))]"

subsection \<open>Breakeven and trail\<close>

text \<open>The loop state: whether breakeven is active, the best price, the stop.\<close>

definition be_body ::
  "string \<Rightarrow> pyfloat \<Rightarrow> pyfloat \<Rightarrow> pyfloat \<Rightarrow> nat \<Rightarrow> candle \<Rightarrow> bool \<times> pyfloat \<times> pyfloat \<Rightarrow> exit_result option \<times> bool \<times> pyfloat \<times> pyfloat" where
  "be_body d e be_trigger_level trail_distance i c s =
     (case s of (active, best, stop) \<Rightarrow>
        let best' = best_of d c best;
            trigger = (\<not> active \<and> points d e best' \<ge> be_trigger_level);
            active' = (active \<or> trigger); stop1 = (if trigger then e else stop);
            stop' = (if active' then tighter_path_stop d stop1 (stop_behind d best' trail_distance) else stop1)
        in (if stop_passed d c stop' then Some (leave_at d e stop' (if active' then Be_Trail_Hit else Initial_Sl_Hit) i) else None,
            active', best', stop'))"

definition simulate_be_trail :: "pyfloat \<Rightarrow> string \<Rightarrow> pyfloat \<Rightarrow> candle list \<Rightarrow> pyfloat \<Rightarrow> pyfloat \<Rightarrow> exit_result" where
  "simulate_be_trail e d atr_at_entry path be_trigger_r trail_atr_multiplier =
     (let risk = risk_unit e atr_at_entry
      in walked d e path (be_body d e (risk * be_trigger_r) (trail_atr_multiplier * risk)) (False, e, stop_behind d e (3/2 * risk)))"

definition simulate_be_atr_trail :: "pyfloat \<Rightarrow> string \<Rightarrow> pyfloat \<Rightarrow> candle list \<Rightarrow> exit_result" where
  "simulate_be_atr_trail e d a path = simulate_be_trail e d a path 1 2"

definition simulate_be_tight_trail :: "pyfloat \<Rightarrow> string \<Rightarrow> pyfloat \<Rightarrow> candle list \<Rightarrow> exit_result" where
  "simulate_be_tight_trail e d a path = simulate_be_trail e d a path 1 1"

definition simulate_be_wide_trail :: "pyfloat \<Rightarrow> string \<Rightarrow> pyfloat \<Rightarrow> candle list \<Rightarrow> exit_result" where
  "simulate_be_wide_trail e d a path = simulate_be_trail e d a path 1 3"

text \<open>Here the close is compared with the average without looking at the direction again.\<close>

definition worse_than :: "string \<Rightarrow> pyfloat \<Rightarrow> pyfloat \<Rightarrow> bool" where
  "worse_than d x line \<longleftrightarrow> (if d = ''LONG'' then x < line else x > line)"

definition be_ema_body ::
  "string \<Rightarrow> pyfloat \<Rightarrow> pyfloat \<Rightarrow> pyfloat list \<Rightarrow> nat \<Rightarrow> candle \<Rightarrow> bool \<times> pyfloat \<Rightarrow> exit_result option \<times> bool \<times> pyfloat" where
  "be_ema_body d e risk ema_values i c s =
     (case s of (active, best) \<Rightarrow>
        let best' = best_of d c best; active' = (active \<or> points d e best' \<ge> risk); initial_sl = stop_behind d e (3/2 * risk)
        in (if \<not> active' \<and> stop_passed d c initial_sl then Some (leave_at d e initial_sl Initial_Sl_Hit i)
            else if active' \<and> stop_passed d c e then Some (leave_at d e e Be_Hit i)
            else if active' \<and> i < length ema_values \<and> ema_values ! i > 0 \<and> worse_than d (c_close c) (ema_values ! i)
            then Some (leave_at d e (c_close c) Be_Ema_Exit i)
            else None, active', best'))"

definition simulate_be_ema_trail :: "pyfloat \<Rightarrow> string \<Rightarrow> pyfloat \<Rightarrow> candle list \<Rightarrow> exit_result" where
  "simulate_be_ema_trail e d atr_at_entry path =
     walked d e path (be_ema_body d e (risk_unit e atr_at_entry) (compute_ema_on_path path 9)) (False, e)"

definition be_target_body ::
  "string \<Rightarrow> pyfloat \<Rightarrow> pyfloat \<Rightarrow> pyfloat \<Rightarrow> nat \<Rightarrow> candle \<Rightarrow> bool \<times> pyfloat \<times> pyfloat \<Rightarrow> exit_result option \<times> bool \<times> pyfloat \<times> pyfloat" where
  "be_target_body d e risk target_rr i c s =
     (case s of (active, best, stop) \<Rightarrow>
        let best' = best_of d c best; target = target_ahead d e (target_rr * risk);
            trigger = (\<not> active \<and> points d e best' \<ge> risk);
            active' = (active \<or> trigger); stop1 = (if trigger then e else stop);
            stop' = (if active' then tighter_path_stop d stop1 (stop_behind d best' (2 * risk)) else stop1)
        in (if target_passed d c target then Some (leave_at d e target (Be_Rr_Tp target_rr) i)
            else if stop_passed d c stop' then Some (leave_at d e stop' Be_Rr_Trail_Hit i)
            else None, active', best', stop'))"

definition simulate_be_rr_target :: "pyfloat \<Rightarrow> string \<Rightarrow> pyfloat \<Rightarrow> candle list \<Rightarrow> pyfloat \<Rightarrow> exit_result" where
  "simulate_be_rr_target e d atr_at_entry path target_rr =
     (let risk = risk_unit e atr_at_entry
      in walked d e path (be_target_body d e risk target_rr) (False, e, stop_behind d e (3/2 * risk)))"

definition simulate_all_breakeven_trails :: "pyfloat \<Rightarrow> string \<Rightarrow> pyfloat \<Rightarrow> candle list \<Rightarrow> (string \<times> pyfloat) list" where
  "simulate_all_breakeven_trails e d a path =
     [(''be_atr_trail'', xr_pnl_points (simulate_be_atr_trail e d a path)),
      (''be_tight_trail'', xr_pnl_points (simulate_be_tight_trail e d a path)),
      (''be_wide_trail'', xr_pnl_points (simulate_be_wide_trail e d a path)),
      (''be_ema_trail'', xr_pnl_points (simulate_be_ema_trail e d a path)),
      (''be_rr2_target'', xr_pnl_points (simulate_be_rr_target e d a path 2)),
      (''be_rr3_target'', xr_pnl_points (simulate_be_rr_target e d a path 3)),
      (''be_rr5_target'', xr_pnl_points (simulate_be_rr_target e d a path 5))]"

subsection \<open>Chandelier, percentage, step and delayed trails\<close>

text \<open>The loop state: the best price and the stop.\<close>

definition chandelier_body ::
  "string \<Rightarrow> pyfloat \<Rightarrow> pyfloat \<Rightarrow> pyfloat \<Rightarrow> nat \<Rightarrow> candle \<Rightarrow> pyfloat \<times> pyfloat \<Rightarrow> exit_result option \<times> pyfloat \<times> pyfloat" where
  "chandelier_body d e chandelier_distance multiplier i c s =
     (case s of (best, stop) \<Rightarrow>
        let best' = best_of d c best;
            stop' = (if best' \<noteq> best then tighter_path_stop d stop (stop_behind d best' chandelier_distance) else stop)
        in (if stop_passed d c stop' then Some (leave_at d e stop' (Chandelier_Hit multiplier) i) else None, best', stop'))"

definition simulate_chandelier_exit :: "pyfloat \<Rightarrow> string \<Rightarrow> pyfloat \<Rightarrow> candle list \<Rightarrow> pyfloat \<Rightarrow> exit_result" where
  "simulate_chandelier_exit e d atr_at_entry path multiplier =
     (let dist_c = multiplier * risk_unit e atr_at_entry
      in walked d e path (chandelier_body d e dist_c multiplier) (e, stop_behind d e dist_c))"

definition pct_behind :: "string \<Rightarrow> pyfloat \<Rightarrow> pyfloat \<Rightarrow> pyfloat" where
  "pct_behind d x pct = (if d = ''LONG'' then x * (1 - pct) else x * (1 + pct))"

definition pct_trail_body ::
  "string \<Rightarrow> pyfloat \<Rightarrow> pyfloat \<Rightarrow> nat \<Rightarrow> candle \<Rightarrow> pyfloat \<times> pyfloat \<Rightarrow> exit_result option \<times> pyfloat \<times> pyfloat" where
  "pct_trail_body d e trail_pct i c s =
     (case s of (best, stop) \<Rightarrow>
        let best' = best_of d c best;
            stop' = (if best' \<noteq> best then tighter_path_stop d stop (pct_behind d best' trail_pct) else stop)
        in (if stop_passed d c stop' then Some (leave_at d e stop' (Pct_Trail_Hit trail_pct) i) else None, best', stop'))"

definition simulate_pct_trail :: "pyfloat \<Rightarrow> string \<Rightarrow> candle list \<Rightarrow> pyfloat \<Rightarrow> exit_result" where
  "simulate_pct_trail e d path trail_pct =
     (if path = [] then \<lparr>xr_exit_price = e, xr_pnl_points = 0, xr_reason = No_Path, xr_index = -1\<rparr>
      else walked d e path (pct_trail_body d e trail_pct) (e, pct_behind d e trail_pct))"

text \<open>The loop state: the steps triggered and the stop. The risk and the step are positive.\<close>

definition step_trail_body ::
  "string \<Rightarrow> pyfloat \<Rightarrow> pyfloat \<Rightarrow> pyfloat \<Rightarrow> pyfloat \<Rightarrow> nat \<Rightarrow> candle \<Rightarrow> int \<times> pyfloat \<Rightarrow> exit_result option \<times> int \<times> pyfloat" where
  "step_trail_body d e risk step_r lock_r i c s =
     (case s of (steps, stop) \<Rightarrow>
        let max_profit_r = points d e (if d = ''LONG'' then c_high c else c_low c) / risk;
            new_steps = py_int (max_profit_r / step_r);
            steps' = (if new_steps > steps then new_steps else steps);
            stop' = (if new_steps > steps
                     then (if d = ''LONG'' then e - 3/2 * risk + of_int steps' * lock_r * risk
                           else e + 3/2 * risk - of_int steps' * lock_r * risk)
                     else stop)
        in (if stop_passed d c stop' then Some (leave_at d e stop' Step_Trail_Hit i) else None, steps', stop'))"

definition simulate_step_trail :: "pyfloat \<Rightarrow> string \<Rightarrow> pyfloat \<Rightarrow> candle list \<Rightarrow> pyfloat \<Rightarrow> pyfloat \<Rightarrow> exit_result" where
  "simulate_step_trail e d atr_at_entry path step_r lock_r =
     (let risk = risk_unit e atr_at_entry
      in walked d e path (step_trail_body d e risk step_r lock_r) (0, stop_behind d e (3/2 * risk)))"

definition delayed_body ::
  "string \<Rightarrow> pyfloat \<Rightarrow> pyfloat \<Rightarrow> pyfloat \<Rightarrow> nat \<Rightarrow> nat \<Rightarrow> candle \<Rightarrow> pyfloat \<Rightarrow> exit_result option \<times> pyfloat" where
  "delayed_body d e initial_sl chandelier_distance delay_candles i c best =
     (let best' = best_of d c best; trailing_stop = tighter_path_stop d (stop_behind d best' chandelier_distance) initial_sl
      in (if i < delay_candles then if stop_passed d c initial_sl then Some (leave_at d e initial_sl Delay_Sl_Hit i) else None
          else if stop_passed d c trailing_stop then Some (leave_at d e trailing_stop Delayed_Chandelier i) else None,
          best'))"

definition simulate_delayed_chandelier :: "pyfloat \<Rightarrow> string \<Rightarrow> pyfloat \<Rightarrow> candle list \<Rightarrow> nat \<Rightarrow> pyfloat \<Rightarrow> exit_result" where
  "simulate_delayed_chandelier e d atr_at_entry path delay_candles multiplier =
     (let r = risk_unit e atr_at_entry
      in walked d e path (delayed_body d e (stop_behind d e (3/2 * r)) (multiplier * r) delay_candles) e)"

definition simulate_all_chandelier_exits :: "pyfloat \<Rightarrow> string \<Rightarrow> pyfloat \<Rightarrow> candle list \<Rightarrow> (string \<times> pyfloat) list" where
  "simulate_all_chandelier_exits e d a path =
     [(''chandelier_2x'', xr_pnl_points (simulate_chandelier_exit e d a path 2)),
      (''chandelier_3x'', xr_pnl_points (simulate_chandelier_exit e d a path 3)),
      (''chandelier_4x'', xr_pnl_points (simulate_chandelier_exit e d a path 4)),
      (''pct_trail_05'', xr_pnl_points (simulate_pct_trail e d path (5/1000))),
      (''pct_trail_1'', xr_pnl_points (simulate_pct_trail e d path (1/100))),
      (''pct_trail_15'', xr_pnl_points (simulate_pct_trail e d path (15/1000))),
      (''pct_trail_2'', xr_pnl_points (simulate_pct_trail e d path (2/100))),
      (''step_trail_1r'', xr_pnl_points (simulate_step_trail e d a path 1 (1/2))),
      (''step_trail_05r'', xr_pnl_points (simulate_step_trail e d a path (1/2) (1/4))),
      (''delayed_chand_2x'', xr_pnl_points (simulate_delayed_chandelier e d a path 6 2)),
      (''delayed_chand_3x'', xr_pnl_points (simulate_delayed_chandelier e d a path 6 3)),
      (''delayed_chand_4x'', xr_pnl_points (simulate_delayed_chandelier e d a path 6 4))]"

end
