(* ===== verification/Exit_Signals.thy ===== *)
theory Exit_Signals
  imports Exit_Trails
begin

section \<open>Indicator exits\<close>

text \<open>
  \<open>app/exit_engine/models/indicator_exits.py\<close>: exits on an indicator of the path itself. The
  periods are positive in every call. Every model keeps the stop of one and a half units.
\<close>

definition ema_on_closes :: "pyfloat list \<Rightarrow> nat \<Rightarrow> pyfloat list" where
  "ema_on_closes closes period =
     (if length closes < period then replicate (length closes) 0
      else
        let k = 2 / (of_nat period + 1); seed = sum_list (take period closes) / of_nat period
        in replicate (period - 1) 0 @ carried (\<lambda>ema_val x. x * k + ema_val * (1 - k)) seed (drop period closes))"

fun rsi_loop :: "nat \<Rightarrow> pyfloat \<Rightarrow> pyfloat \<Rightarrow> pyfloat list \<Rightarrow> pyfloat list" where
  "rsi_loop period avg_gain avg_loss [] = []"
| "rsi_loop period avg_gain avg_loss (change # rest) =
     (let g = max change 0; l = \<bar>min change 0\<bar>;
          avg_gain' = (avg_gain * of_nat (period - 1) + g) / of_nat period;
          avg_loss' = (avg_loss * of_nat (period - 1) + l) / of_nat period
      in (if avg_loss' = 0 then 100 else 100 - 100 / (1 + avg_gain' / avg_loss')) # rsi_loop period avg_gain' avg_loss' rest)"

definition rsi_on_closes :: "pyfloat list \<Rightarrow> nat \<Rightarrow> pyfloat list" where
  "rsi_on_closes closes period =
     (if length closes < period + 1 then replicate (length closes) 50
      else
        let diffs = map2 (-) (tl closes) closes; first = take period diffs;
            avg_gain = sum_list (List.map (\<lambda>c. max c 0) first) / of_nat period;
            avg_loss = sum_list (List.map (\<lambda>c. \<bar>min c 0\<bar>) first) / of_nat period
        in replicate period 50 @ rsi_loop period avg_gain avg_loss (drop period diffs))"

text \<open>What all the loops do: the stop first, then the model's condition for leaving at the close.\<close>

definition guarded_exit ::
  "string \<Rightarrow> pyfloat \<Rightarrow> pyfloat \<Rightarrow> path_exit_reason \<Rightarrow> nat \<Rightarrow> candle \<Rightarrow> path_exit_reason option \<Rightarrow> exit_result option" where
  "guarded_exit d e initial_sl sl_reason i c leaving =
     (if path_stop_touched d c initial_sl then Some (leave_at d e initial_sl sl_reason i)
      else map_option (\<lambda>reason. leave_at d e (c_close c) reason i) leaving)"

definition safety_stop :: "string \<Rightarrow> pyfloat \<Rightarrow> pyfloat \<Rightarrow> pyfloat" where
  "safety_stop d e atr_at_entry = stop_behind d e (3/2 * risk_unit e atr_at_entry)"

text \<open>The loop state: the summed price times volume and the summed volume.\<close>

definition vwap_cross_body :: "string \<Rightarrow> pyfloat \<Rightarrow> pyfloat \<Rightarrow> nat \<Rightarrow> candle \<Rightarrow> pyfloat \<times> int \<Rightarrow> exit_result option \<times> pyfloat \<times> int" where
  "vwap_cross_body d e initial_sl i c s =
     (case s of (cum_tp_vol, cum_vol) \<Rightarrow>
        let tp = (c_high c + c_low c + c_close c) / 3; tp_vol = cum_tp_vol + tp * of_int (c_volume c); vol = cum_vol + c_volume c;
            vwap_val = (if vol > 0 then tp_vol / of_int vol else e)
        in (guarded_exit d e initial_sl Vwap_Sl_Hit i c
              (if i \<ge> 3 \<and> crossed_line d (c_close c) vwap_val then Some Vwap_Cross_Exit else None), tp_vol, vol))"

definition simulate_vwap_cross_exit :: "pyfloat \<Rightarrow> string \<Rightarrow> pyfloat \<Rightarrow> candle list \<Rightarrow> exit_result" where
  "simulate_vwap_cross_exit e d atr_at_entry path =
     walked d e path (vwap_cross_body d e (safety_stop d e atr_at_entry)) (0, 0)"

definition ema_cross_body ::
  "string \<Rightarrow> pyfloat \<Rightarrow> pyfloat \<Rightarrow> nat \<Rightarrow> pyfloat list \<Rightarrow> nat \<Rightarrow> candle \<Rightarrow> unit \<Rightarrow> exit_result option \<times> unit" where
  "ema_cross_body d e initial_sl ema_period ema_vals i c s =
     (guarded_exit d e initial_sl Ema_Cross_Sl i c
        (if i < length ema_vals \<and> ema_vals ! i > 0 \<and> crossed_line d (c_close c) (ema_vals ! i) then Some (Ema_Cross_Exit ema_period)
         else None), s)"

definition simulate_ema_cross_exit :: "pyfloat \<Rightarrow> string \<Rightarrow> pyfloat \<Rightarrow> candle list \<Rightarrow> nat \<Rightarrow> exit_result" where
  "simulate_ema_cross_exit e d atr_at_entry path ema_period =
     walked d e path (ema_cross_body d e (safety_stop d e atr_at_entry) ema_period (ema_on_closes (List.map c_close path) ema_period)) ()"

definition rsi_extreme_body ::
  "string \<Rightarrow> pyfloat \<Rightarrow> pyfloat \<Rightarrow> pyfloat \<Rightarrow> pyfloat list \<Rightarrow> nat \<Rightarrow> candle \<Rightarrow> unit \<Rightarrow> exit_result option \<times> unit" where
  "rsi_extreme_body d e initial_sl rsi_exit_level rsi_vals i c s =
     (let short_exit_level = 100 - rsi_exit_level
      in guarded_exit d e initial_sl Rsi_Sl_Hit i c
        (if i < length rsi_vals then
           if d = ''LONG'' \<and> rsi_vals ! i \<ge> rsi_exit_level then Some (Rsi_Exit rsi_exit_level)
           else if d = ''SHORT'' \<and> rsi_vals ! i \<le> short_exit_level then Some (Rsi_Exit short_exit_level)
           else None
         else None), s)"

definition simulate_rsi_extreme_exit :: "pyfloat \<Rightarrow> string \<Rightarrow> pyfloat \<Rightarrow> candle list \<Rightarrow> pyfloat \<Rightarrow> exit_result" where
  "simulate_rsi_extreme_exit e d atr_at_entry path rsi_exit_level =
     walked d e path (rsi_extreme_body d e (safety_stop d e atr_at_entry) rsi_exit_level (rsi_on_closes (List.map c_close path) 14)) ()"

definition ema_crossover_body ::
  "string \<Rightarrow> pyfloat \<Rightarrow> pyfloat \<Rightarrow> pyfloat list \<Rightarrow> pyfloat list \<Rightarrow> nat \<Rightarrow> candle \<Rightarrow> unit \<Rightarrow> exit_result option \<times> unit" where
  "ema_crossover_body d e initial_sl fast_ema slow_ema i c s =
     (guarded_exit d e initial_sl Xover_Sl_Hit i c
        (if i < length fast_ema \<and> i < length slow_ema \<and> fast_ema ! i > 0 \<and> slow_ema ! i > 0 then
           if d = ''LONG'' \<and> fast_ema ! i < slow_ema ! i then Some Bearish_Xover_Exit
           else if d = ''SHORT'' \<and> fast_ema ! i > slow_ema ! i then Some Bullish_Xover_Exit
           else None
         else None), s)"

definition simulate_ema_crossover_exit :: "pyfloat \<Rightarrow> string \<Rightarrow> pyfloat \<Rightarrow> candle list \<Rightarrow> nat \<Rightarrow> nat \<Rightarrow> exit_result" where
  "simulate_ema_crossover_exit e d atr_at_entry path fast_period slow_period =
     (let closes = List.map c_close path
      in walked d e path
           (ema_crossover_body d e (safety_stop d e atr_at_entry) (ema_on_closes closes fast_period) (ema_on_closes closes slow_period)) ())"

definition simulate_all_indicator_exits :: "pyfloat \<Rightarrow> string \<Rightarrow> pyfloat \<Rightarrow> candle list \<Rightarrow> (string \<times> pyfloat) list" where
  "simulate_all_indicator_exits e d a path =
     [(''vwap_cross'', xr_pnl_points (simulate_vwap_cross_exit e d a path)),
      (''ema9_cross'', xr_pnl_points (simulate_ema_cross_exit e d a path 9)),
      (''ema13_cross'', xr_pnl_points (simulate_ema_cross_exit e d a path 13)),
      (''ema20_cross'', xr_pnl_points (simulate_ema_cross_exit e d a path 20)),
      (''ema50_cross'', xr_pnl_points (simulate_ema_cross_exit e d a path 50)),
      (''rsi_70_exit'', xr_pnl_points (simulate_rsi_extreme_exit e d a path 70)),
      (''rsi_75_exit'', xr_pnl_points (simulate_rsi_extreme_exit e d a path 75)),
      (''rsi_80_exit'', xr_pnl_points (simulate_rsi_extreme_exit e d a path 80)),
      (''ema_9_21_xover'', xr_pnl_points (simulate_ema_crossover_exit e d a path 9 21)),
      (''ema_9_50_xover'', xr_pnl_points (simulate_ema_crossover_exit e d a path 9 50))]"

end
