(* ===== verification/Exit_Bounds.thy ===== *)
theory Exit_Bounds
  imports Exit_Signals
begin

section \<open>No exit gains or loses more than the path offers\<close>

text \<open>
  Over candles between \<open>lo\<close> and \<open>hi\<close> every exit price lies between the entry and the range, and so
  the points lie between the adverse and the favourable excursion, widened to contain zero. One
  rule for the loop reduces this to the bodies, and every stop a body sets stays on the right side
  of the range.
\<close>

definition bar_in :: "pyfloat \<Rightarrow> pyfloat \<Rightarrow> candle \<Rightarrow> bool" where
  "bar_in lo hi c \<longleftrightarrow> lo \<le> c_low c \<and> c_low c \<le> c_close c \<and> c_close c \<le> c_high c \<and> c_high c \<le> hi"

definition attainable :: "pyfloat \<Rightarrow> pyfloat \<Rightarrow> pyfloat \<Rightarrow> pyfloat \<Rightarrow> bool" where
  "attainable e lo hi p \<longleftrightarrow> min e lo \<le> p \<and> p \<le> max e hi"

definition inside :: "string \<Rightarrow> pyfloat \<Rightarrow> pyfloat \<Rightarrow> pyfloat \<Rightarrow> pyfloat \<Rightarrow> bool" where
  "inside d e lo hi v \<longleftrightarrow>
     (if d = ''LONG'' then min 0 (lo - e) \<le> v \<and> v \<le> max 0 (hi - e) else min 0 (e - hi) \<le> v \<and> v \<le> max 0 (e - lo))"

text \<open>A stop that the range can reach: a price the path offers, or beyond the entry on the losing side.\<close>

definition on_side :: "string \<Rightarrow> pyfloat \<Rightarrow> pyfloat \<Rightarrow> pyfloat \<Rightarrow> pyfloat \<Rightarrow> bool" where
  "on_side d e lo hi x \<longleftrightarrow> (if d = ''LONG'' then x \<le> max e hi else min e lo \<le> x)"

lemma inside_points [intro]: "attainable e lo hi p \<Longrightarrow> inside d e lo hi (points d e p)"
  by (auto simp: attainable_def inside_def points_def min_def max_def split: if_splits)

lemma inside_0 [simp, intro]: "inside d e lo hi 0"
  by (simp add: inside_def)

lemma inside_mix:
  assumes "inside d e lo hi x" "inside d e lo hi y" "0 \<le> a" "0 \<le> b" "a + b = 1"
  shows "inside d e lo hi (a * x + b * y)"
proof -
  have between: "l \<le> a * x + b * y \<and> a * x + b * y \<le> u" if "l \<le> x" "x \<le> u" "l \<le> y" "y \<le> u" for l u
  proof -
    have "a * l + b * l \<le> a * x + b * y" "a * x + b * y \<le> a * u + b * u"
      using that assms(3,4) by (intro add_mono mult_left_mono; simp)+
    moreover have "a * l + b * l = l" "a * u + b * u = u" using assms(5) by (simp_all flip: distrib_right)
    ultimately show ?thesis by simp
  qed
  show ?thesis
  proof (cases "d = ''LONG''")
    case True
    then show ?thesis using between[of "min 0 (lo - e)" "max 0 (hi - e)"] assms(1,2) by (simp add: inside_def)
  next
    case False
    then show ?thesis using between[of "min 0 (e - hi)" "max 0 (e - lo)"] assms(1,2) by (simp add: inside_def)
  qed
qed

lemma attainable_stop: "stop_passed d c p \<Longrightarrow> bar_in lo hi c \<Longrightarrow> on_side d e lo hi p \<Longrightarrow> attainable e lo hi p"
  by (auto simp: stop_passed_def bar_in_def on_side_def attainable_def min_def max_def split: if_splits)

lemma touched_passed: "path_stop_touched d c p \<Longrightarrow> stop_passed d c p"
  by (auto simp: path_stop_touched_def stop_passed_def)

lemma attainable_target:
  "target_passed d c (target_ahead d e x) \<Longrightarrow> bar_in lo hi c \<Longrightarrow> 0 \<le> x \<Longrightarrow> attainable e lo hi (target_ahead d e x)"
  by (auto simp: target_passed_def target_ahead_def bar_in_def attainable_def min_def max_def split: if_splits)

lemma attainable_close: "bar_in lo hi c \<Longrightarrow> attainable e lo hi (c_close c)"
  by (auto simp: bar_in_def attainable_def min_def max_def)

lemma attainable_entry: "attainable e lo hi e"
  by (simp add: attainable_def)

lemma side_entry: "on_side d e lo hi e"
  by (simp add: on_side_def)

lemma side_behind: "on_side d e lo hi x \<Longrightarrow> 0 \<le> r \<Longrightarrow> on_side d e lo hi (stop_behind d x r)"
  by (auto simp: on_side_def stop_behind_def split: if_splits)

lemma side_best: "on_side d e lo hi best \<Longrightarrow> bar_in lo hi c \<Longrightarrow> on_side d e lo hi (best_of d c best)"
  by (auto simp: on_side_def best_of_def bar_in_def split: if_splits)

lemma side_tighter: "on_side d e lo hi x \<Longrightarrow> on_side d e lo hi y \<Longrightarrow> on_side d e lo hi (tighter_path_stop d x y)"
  by (auto simp: on_side_def tighter_path_stop_def split: if_splits)

lemma risk_unit_pos: "0 < e \<Longrightarrow> 0 < risk_unit e a"
  by (simp add: risk_unit_def)

lemma risk_unit_idem: "0 < e \<Longrightarrow> risk_unit e (risk_unit e a) = risk_unit e a"
  by (simp add: risk_unit_def)

lemmas side_rules = side_entry side_behind side_best side_tighter

subsection \<open>The loop\<close>

abbreviation exit_inside :: "string \<Rightarrow> pyfloat \<Rightarrow> pyfloat \<Rightarrow> pyfloat \<Rightarrow> exit_result \<Rightarrow> bool" where
  "exit_inside d e lo hi r \<equiv> inside d e lo hi (xr_pnl_points r)"

lemma leave_inside [intro]: "attainable e lo hi p \<Longrightarrow> exit_inside d e lo hi (leave_at d e p reason i)"
  by (simp add: leave_at_def inside_points)

lemma eod_inside: "list_all (bar_in lo hi) path \<Longrightarrow> exit_inside d e lo hi (close_at_eod d e path)"
  using attainable_close[of lo hi "last path" e] attainable_entry[of e lo hi]
  by (cases "path = []") (auto simp: close_at_eod_def list_all_iff Let_def)

definition body_ok :: "string \<Rightarrow> pyfloat \<Rightarrow> pyfloat \<Rightarrow> pyfloat \<Rightarrow> ('s \<Rightarrow> bool) \<Rightarrow> exit_result option \<times> 's \<Rightarrow> bool" where
  "body_ok d e lo hi kept x \<longleftrightarrow> (case fst x of Some r \<Rightarrow> exit_inside d e lo hi r | None \<Rightarrow> kept (snd x))"

lemma walk_path_index:
  assumes "walk_path body i cs s = Some r" "kept s"
    and "\<And>k s. k < length cs \<Longrightarrow> kept s \<Longrightarrow> body_ok d e lo hi kept (body (i + k) (cs ! k) s)"
  shows "exit_inside d e lo hi r"
  using assms
proof (induction cs arbitrary: i s)
  case (Cons c cs)
  have ok: "body_ok d e lo hi kept (body i c s)" using Cons.prems(2) Cons.prems(3)[of 0] by simp
  show ?case
  proof (cases "fst (body i c s)")
    case None
    then have "walk_path body (Suc i) cs (snd (body i c s)) = Some r" using Cons.prems(1) by (simp split: prod.splits)
    moreover have "kept (snd (body i c s))" using ok None by (simp add: body_ok_def)
    ultimately show ?thesis using Cons.prems(3)[of "Suc _"] by (intro Cons.IH) auto
  next
    case (Some q)
    then show ?thesis using Cons.prems(1) ok by (simp add: body_ok_def split: prod.splits)
  qed
qed simp

subsection \<open>The models\<close>

definition path_ok :: "pyfloat \<Rightarrow> pyfloat \<Rightarrow> pyfloat \<Rightarrow> candle list \<Rightarrow> bool" where
  "path_ok lo hi e path \<longleftrightarrow> list_all (bar_in lo hi) path \<and> 0 < e \<and> 0 < lo"

lemma path_ok_drop: "path_ok lo hi e path \<Longrightarrow> path_ok lo hi e (drop n path)"
  using in_set_dropD by (fastforce simp: path_ok_def list_all_iff)

lemma path_risk: "path_ok lo hi e path \<Longrightarrow> 0 \<le> m \<Longrightarrow> 0 \<le> m * risk_unit e a"
  using risk_unit_pos[of e a] by (simp add: path_ok_def)

text \<open>The rule for a loop over a valid path, also for bodies that look at the index and for those without a state.\<close>

lemma indexed_inside:
  assumes "path_ok lo hi e path" "kept s"
    and "\<And>i s. i < length path \<Longrightarrow> bar_in lo hi (path ! i) \<Longrightarrow> kept s \<Longrightarrow> body_ok d e lo hi kept (body i (path ! i) s)"
  shows "exit_inside d e lo hi (walked d e path body s)"
proof -
  have bars: "list_all (bar_in lo hi) path" using assms(1) by (simp add: path_ok_def)
  show ?thesis
  proof (cases "walk_path body 0 path s")
    case (Some r)
    have "exit_inside d e lo hi r"
      by (rule walk_path_index[where kept = kept, OF Some assms(2)]) (use assms(3) bars in \<open>simp add: list_all_length\<close>)
    then show ?thesis by (simp add: walked_def Some)
  next
    case None
    then show ?thesis by (simp add: walked_def eod_inside bars)
  qed
qed

lemma model_inside:
  assumes "path_ok lo hi e path" "kept s"
    and "\<And>i c s. bar_in lo hi c \<Longrightarrow> kept s \<Longrightarrow> body_ok d e lo hi kept (body i c s)"
  shows "exit_inside d e lo hi (walked d e path body s)"
  using assms(3) by (intro indexed_inside[where kept = kept, OF assms(1,2)])

lemma stateless_inside:
  assumes "path_ok lo hi e path" and "\<And>i c r. bar_in lo hi c \<Longrightarrow> fst (body i c ()) = Some r \<Longrightarrow> exit_inside d e lo hi r"
  shows "exit_inside d e lo hi (walked d e path body ())"
  by (rule model_inside[where kept = "\<lambda>_. True", OF assms(1)]) (use assms(2) in \<open>auto simp: body_ok_def split: option.splits\<close>)

lemma path_risk_unit: "path_ok lo hi e path \<Longrightarrow> 0 \<le> risk_unit e a"
  using path_risk[of lo hi e path 1 a] by simp

lemmas exit_rules = leave_inside attainable_stop attainable_target attainable_close attainable_entry side_rules

lemma rr_inside:
  assumes "path_ok lo hi e path" "0 \<le> rr"
  shows "exit_inside d e lo hi (simulate_rr_exit e d a path rr)"
  unfolding simulate_rr_exit_def Let_def
  by (rule stateless_inside[OF assms(1)])
    (use path_risk_unit[OF assms(1), of a] assms(2) in \<open>auto simp: rr_body_def dest!: touched_passed intro!: exit_rules split: if_splits\<close>)

lemma stop_inside:
  "path_ok lo hi e path \<Longrightarrow> on_side d e lo hi stop \<Longrightarrow> exit_inside d e lo hi (walked d e path (stop_body d e stop reason) ())"
  by (erule stateless_inside) (auto simp: stop_body_def dest!: touched_passed intro!: exit_rules split: if_splits)

lemma atr_stop_inside: "path_ok lo hi e path \<Longrightarrow> 0 \<le> m \<Longrightarrow> exit_inside d e lo hi (simulate_atr_stop e d a path m)"
  unfolding simulate_atr_stop_def by (intro stop_inside side_rules path_risk)

text \<open>A level a share of the price away.\<close>

lemma side_share:
  assumes "on_side d e lo hi x" "0 \<le> x" "0 \<le> pct"
  shows "on_side d e lo hi (if d = ''LONG'' then x * (1 - pct) else x * (1 + pct))"
proof -
  have "0 \<le> x * pct" using assms(2,3) by simp
  then show ?thesis using assms(1) unfolding on_side_def distrib_left right_diff_distrib by (auto simp del: max_less_iff_conj)
qed

lemma fixed_stop_inside: "path_ok lo hi e path \<Longrightarrow> 0 \<le> pct \<Longrightarrow> exit_inside d e lo hi (simulate_fixed_stop e d path pct)"
  unfolding simulate_fixed_stop_def by (intro stop_inside side_share side_entry) (simp_all add: path_ok_def)

lemma atr_trail_inside:
  assumes "path_ok lo hi e path" "0 \<le> m" "0 \<le> m0"
  shows "exit_inside d e lo hi (simulate_atr_trail e d a path m m0)"
  unfolding simulate_atr_trail_def Let_def
  by (rule model_inside[where kept = "\<lambda>(stop, best). on_side d e lo hi stop \<and> on_side d e lo hi best", OF assms(1)])
    (use path_risk[OF assms(1)] assms(2,3) in
      \<open>auto simp: atr_trail_body_def Let_def body_ok_def dest!: touched_passed intro!: exit_rules split: if_splits\<close>)

lemma ema_trail_inside:
  assumes "path_ok lo hi e path"
  shows "exit_inside d e lo hi (simulate_ema_trail e d a path n)"
  unfolding simulate_ema_trail_def
  by (rule stateless_inside[OF assms])
    (use path_risk_unit[OF assms, of a] in \<open>auto simp: ema_trail_body_def dest!: touched_passed intro!: exit_rules split: if_splits\<close>)

lemma side_swing:
  assumes "w \<noteq> []" "set w \<subseteq> set path" "path_ok lo hi e path"
  shows "on_side d e lo hi (if d = ''LONG'' then lowest_of w else highest_of w)"
proof -
  have "hd w \<in> set w" using assms(1) by simp
  moreover from this have "bar_in lo hi (hd w)" using assms(2,3) by (auto simp: path_ok_def list_all_iff)
  ultimately show ?thesis using lowest_of_le[of "hd w" w] highest_of_ge[of "hd w" w] by (auto simp: bar_in_def on_side_def)
qed

lemma swing_trail_inside:
  assumes "path_ok lo hi e path" "0 < n"
  shows "exit_inside d e lo hi (simulate_swing_trail e d a path n)"
proof -
  have slice: "on_side d e lo hi (if d = ''LONG'' then lowest_of (take n (drop k path)) else highest_of (take n (drop k path)))"
    if "k < length path" for k
    using that assms(2) by (intro side_swing[OF _ _ assms(1)]) (auto dest!: in_set_takeD in_set_dropD)
  show ?thesis unfolding simulate_swing_trail_def
    by (rule indexed_inside[where kept = "on_side d e lo hi", OF assms(1)])
      (use path_risk[OF assms(1), of "3/2" a] slice in
        \<open>auto simp: swing_trail_body_def body_ok_def Let_def dest!: touched_passed intro!: exit_rules split: if_splits\<close>)
qed

lemma time_exit_inside:
  assumes "path_ok lo hi e path" "0 < n"
  shows "exit_inside d e lo hi (simulate_time_exit e d path n)"
proof (cases "path = []")
  case False
  then have "nat (min (n - 1) (int (length path) - 1)) < length path" by (cases path) auto
  then have "bar_in lo hi (path ! nat (min (n - 1) (int (length path) - 1)))"
    using assms(1) by (simp add: path_ok_def list_all_length)
  then show ?thesis using False by (auto simp: simulate_time_exit_def Let_def intro!: exit_rules)
qed (simp add: simulate_time_exit_def)

lemma path_eod: "path_ok lo hi e path \<Longrightarrow> exit_inside d e lo hi (close_at_eod d e path)"
  by (simp add: path_ok_def eod_inside)

lemma session_exit_inside: "path_ok lo hi e path \<Longrightarrow> exit_inside d e lo hi (simulate_session_exit e d path i n)"
  using time_exit_inside path_eod by (simp add: simulate_session_exit_def Let_def)

lemma dead_trade_inside:
  assumes "path_ok lo hi e path" "0 < n"
  shows "exit_inside d e lo hi (simulate_dead_trade_exit e d path n)"
proof -
  have "bar_in lo hi (path ! (n - 1))" if "\<not> length path < n"
    using that assms by (auto simp: path_ok_def list_all_length)
  then show ?thesis using path_eod[OF assms(1)] by (auto simp: simulate_dead_trade_exit_def Let_def intro!: exit_rules)
qed

subsection \<open>Breakeven, chandelier and indicator exits\<close>

lemma be_inside:
  assumes "path_ok lo hi e path" "0 \<le> m"
  shows "exit_inside d e lo hi (simulate_be_trail e d a path t m)"
  unfolding simulate_be_trail_def Let_def
  by (rule model_inside[where kept = "\<lambda>(active, best, stop). on_side d e lo hi best \<and> on_side d e lo hi stop", OF assms(1)])
    (use path_risk[OF assms(1)] assms(2) in \<open>auto simp: be_body_def Let_def body_ok_def intro!: exit_rules split: if_splits\<close>)

lemma be_ema_inside:
  assumes "path_ok lo hi e path"
  shows "exit_inside d e lo hi (simulate_be_ema_trail e d a path)"
  unfolding simulate_be_ema_trail_def
  by (rule model_inside[where kept = "\<lambda>_. True", OF assms])
    (use path_risk[OF assms, of "3/2" a] in \<open>auto simp: be_ema_body_def Let_def body_ok_def intro!: exit_rules split: if_splits\<close>)

lemma be_target_inside:
  assumes "path_ok lo hi e path" "0 \<le> m"
  shows "exit_inside d e lo hi (simulate_be_rr_target e d a path m)"
  unfolding simulate_be_rr_target_def Let_def
  by (rule model_inside[where kept = "\<lambda>(active, best, stop). on_side d e lo hi best \<and> on_side d e lo hi stop", OF assms(1)])
    (use path_risk[OF assms(1)] assms(2) in \<open>auto simp: be_target_body_def Let_def body_ok_def intro!: exit_rules split: if_splits\<close>)

lemma chandelier_inside:
  assumes "path_ok lo hi e path" "0 \<le> m"
  shows "exit_inside d e lo hi (simulate_chandelier_exit e d a path m)"
  unfolding simulate_chandelier_exit_def Let_def
  by (rule model_inside[where kept = "\<lambda>(best, stop). on_side d e lo hi best \<and> on_side d e lo hi stop", OF assms(1)])
    (use path_risk[OF assms(1)] assms(2) in \<open>auto simp: chandelier_body_def Let_def body_ok_def intro!: exit_rules split: if_splits\<close>)

lemma delayed_inside:
  assumes "path_ok lo hi e path" "0 \<le> m"
  shows "exit_inside d e lo hi (simulate_delayed_chandelier e d a path n m)"
  unfolding simulate_delayed_chandelier_def Let_def
  by (rule model_inside[where kept = "on_side d e lo hi", OF assms(1)])
    (use path_risk[OF assms(1)] assms(2) in \<open>auto simp: delayed_body_def Let_def body_ok_def intro!: exit_rules split: if_splits\<close>)

text \<open>A share behind the best price, which stays positive.\<close>

lemma best_pos: "0 < best \<Longrightarrow> 0 < lo \<Longrightarrow> bar_in lo hi c \<Longrightarrow> 0 < best_of d c best"
  by (auto simp: best_of_def bar_in_def)

lemma side_pct: "on_side d e lo hi x \<Longrightarrow> 0 < x \<Longrightarrow> 0 \<le> pct \<Longrightarrow> on_side d e lo hi (pct_behind d x pct)"
  unfolding pct_behind_def by (rule side_share) simp_all

lemma pct_trail_inside:
  assumes "path_ok lo hi e path" "0 \<le> pct"
  shows "exit_inside d e lo hi (simulate_pct_trail e d path pct)"
proof -
  have pos: "0 < e" "0 < lo" using assms(1) by (simp_all add: path_ok_def)
  have "exit_inside d e lo hi (walked d e path (pct_trail_body d e pct) (e, pct_behind d e pct))"
    by (rule model_inside[where kept = "\<lambda>(best, stop). 0 < best \<and> on_side d e lo hi best \<and> on_side d e lo hi stop", OF assms(1)])
      (use pos assms(2) in \<open>auto simp: pct_trail_body_def Let_def body_ok_def intro!: exit_rules side_pct best_pos split: if_splits\<close>)
  then show ?thesis by (simp add: simulate_pct_trail_def)
qed

text \<open>A staircase that locks half of each step stays below half of the profit.\<close>

lemma py_int_le: "0 < py_int x \<Longrightarrow> of_int (py_int x) \<le> x"
  by (auto simp: py_int_def split: if_splits)

lemma step_level:
  assumes "bar_in lo hi c" "0 < risk" "0 < step_r" "0 < n" "of_int n \<le> points d e (if d = ''LONG'' then c_high c else c_low c) / risk / step_r"
  shows "on_side d e lo hi (if d = ''LONG'' then e - 3/2 * risk + of_int n * (step_r / 2) * risk else e + 3/2 * risk - of_int n * (step_r / 2) * risk)"
proof -
  let ?p = "points d e (if d = ''LONG'' then c_high c else c_low c)"
  have "of_int n * step_r \<le> ?p / risk" using assms(3,5) by (simp only: pos_le_divide_eq)
  then have le: "of_int n * step_r * risk \<le> ?p" using assms(2) by (simp only: pos_le_divide_eq)
  have "0 < of_int n * step_r * risk" using assms(2-4) by simp
  then show ?thesis using le assms(1,2) unfolding on_side_def points_def bar_in_def by (auto split: if_splits)
qed

lemma step_trail_inside:
  assumes "path_ok lo hi e path" "0 < step_r"
  shows "exit_inside d e lo hi (simulate_step_trail e d a path step_r (step_r / 2))"
proof -
  have risk: "0 < risk_unit e a" using risk_unit_pos assms(1) by (simp add: path_ok_def)
  show ?thesis unfolding simulate_step_trail_def Let_def
  proof (rule model_inside[where kept = "\<lambda>(steps, stop). 0 \<le> steps \<and> on_side d e lo hi stop", OF assms(1)])
    fix i c and s :: "int \<times> pyfloat" assume c: "bar_in lo hi c" and s: "case s of (steps, stop) \<Rightarrow> 0 \<le> steps \<and> on_side d e lo hi stop"
    let ?n = "py_int (points d e (if d = ''LONG'' then c_high c else c_low c) / risk_unit e a / step_r)"
    have "on_side d e lo hi (if d = ''LONG'' then e - 3/2 * risk_unit e a + of_int ?n * (step_r / 2) * risk_unit e a
        else e + 3/2 * risk_unit e a - of_int ?n * (step_r / 2) * risk_unit e a)" if "0 < ?n"
      by (rule step_level[OF c risk assms(2) that py_int_le[OF that]])
    then show "body_ok d e lo hi (\<lambda>(steps, stop). 0 \<le> steps \<and> on_side d e lo hi stop)
        (step_trail_body d e (risk_unit e a) step_r (step_r / 2) i c s)"
      using c s by (cases s) (auto simp: step_trail_body_def Let_def body_ok_def intro!: exit_rules split: if_splits)
  qed (use risk in \<open>auto intro!: side_rules\<close>)
qed

lemma guarded_inside:
  assumes "path_ok lo hi e path" "bar_in lo hi c" "guarded_exit d e (safety_stop d e a) reason i c leaving = Some r"
  shows "exit_inside d e lo hi r"
proof -
  have "on_side d e lo hi (safety_stop d e a)" unfolding safety_stop_def by (intro side_rules path_risk[OF assms(1)]) simp
  then show ?thesis using assms(2,3) by (auto simp: guarded_exit_def dest!: touched_passed intro!: exit_rules split: if_splits)
qed

lemma indicator_inside:
  assumes "path_ok lo hi e path"
  shows "exit_inside d e lo hi (simulate_vwap_cross_exit e d a path)"
    "exit_inside d e lo hi (simulate_ema_cross_exit e d a path n)"
    "exit_inside d e lo hi (simulate_rsi_extreme_exit e d a path level)"
    "exit_inside d e lo hi (simulate_ema_crossover_exit e d a path n m)"
proof -
  show "exit_inside d e lo hi (simulate_vwap_cross_exit e d a path)"
    unfolding simulate_vwap_cross_exit_def
    by (rule model_inside[where kept = "\<lambda>_. True", OF assms])
      (use guarded_inside[OF assms] in \<open>auto simp: vwap_cross_body_def body_ok_def Let_def split: option.splits\<close>)
  show "exit_inside d e lo hi (simulate_ema_cross_exit e d a path n)"
    "exit_inside d e lo hi (simulate_rsi_extreme_exit e d a path level)"
    "exit_inside d e lo hi (simulate_ema_crossover_exit e d a path n m)"
    unfolding simulate_ema_cross_exit_def simulate_rsi_extreme_exit_def simulate_ema_crossover_exit_def Let_def
    by (rule stateless_inside[OF assms], rule guarded_inside[OF assms], assumption,
        simp add: ema_cross_body_def rsi_extreme_body_def ema_crossover_body_def Let_def)+
qed

subsection \<open>Partial exits\<close>

text \<open>Quarters of values between two bounds, and the rest of another.\<close>

lemma quarters_between:
  fixes ps :: "pyfloat list"
  assumes "list_all (\<lambda>p. l \<le> p \<and> p \<le> u) ps" "l \<le> x" "x \<le> u" "length ps \<le> 4"
  shows "l \<le> (\<Sum>p\<leftarrow>ps. 1/4 * p) + (1 - 1/4 * of_nat (length ps)) * x"
    "(\<Sum>p\<leftarrow>ps. 1/4 * p) + (1 - 1/4 * of_nat (length ps)) * x \<le> u"
proof -
  have sums: "1/4 * of_nat (length ps) * l \<le> (\<Sum>p\<leftarrow>ps. 1/4 * p)" "(\<Sum>p\<leftarrow>ps. 1/4 * p) \<le> 1/4 * of_nat (length ps) * u"
    using assms(1) by (induction ps) (auto simp: algebra_simps)
  let ?w = "1 - 1/4 * of_nat (length ps) :: pyfloat"
  have "of_nat (length ps) \<le> (4 :: pyfloat)" using assms(4) by simp
  then have "0 \<le> ?w" by linarith
  then have "?w * l \<le> ?w * x" "?w * x \<le> ?w * u" using assms(2,3) by (simp_all add: mult_left_mono)
  moreover have "1/4 * of_nat (length ps) * y + ?w * y = y" for y by (simp add: algebra_simps)
  ultimately show "l \<le> (\<Sum>p\<leftarrow>ps. 1/4 * p) + ?w * x" "(\<Sum>p\<leftarrow>ps. 1/4 * p) + ?w * x \<le> u"
    using sums by (metis add_mono)+
qed

lemma inside_quarters:
  assumes "list_all (inside d e lo hi) ps" "inside d e lo hi x" "length ps \<le> 4"
  shows "inside d e lo hi ((\<Sum>p\<leftarrow>ps. 1/4 * p) + (1 - 1/4 * of_nat (length ps)) * x)"
proof -
  have bounds: "\<exists>l u. inside d e lo hi = (\<lambda>v. l \<le> v \<and> v \<le> u)"
    by (cases "d = ''LONG''") (auto simp: inside_def fun_eq_iff)
  then obtain l u where lu: "inside d e lo hi = (\<lambda>v. l \<le> v \<and> v \<le> u)" by blast
  show ?thesis using assms quarters_between[of l u ps x] unfolding lu by blast
qed

lemma relabelled: "xr_pnl_points (r\<lparr>xr_reason := x\<rparr>) = xr_pnl_points r"
  by simp

lemma trail_rest_inside:
  "path_ok lo hi e path \<Longrightarrow> inside d e lo hi v \<Longrightarrow> inside d e lo hi (trail_rest e d r (path_after path q) v)"
  unfolding trail_rest_def path_after_def by (simp add: atr_trail_inside path_ok_drop)

lemma partial_a_inside:
  assumes "path_ok lo hi e path"
  shows "exit_inside d e lo hi (simulate_partial_a e d a path)"
proof -
  let ?r = "risk_unit e a"
  have rr: "exit_inside d e lo hi (simulate_rr_exit e d ?r path 1)" by (rule rr_inside[OF assms]) simp
  show ?thesis using rr inside_mix[OF rr trail_rest_inside[OF assms rr], of "1/2" "1/2" ?r "simulate_rr_exit e d ?r path 1"]
    by (simp add: simulate_partial_a_def blended_def Let_def)
qed

lemma partial_b_inside:
  assumes "path_ok lo hi e path"
  shows "exit_inside d e lo hi (simulate_partial_b e d a path)"
proof -
  let ?r = "risk_unit e a"
  let ?rr1 = "simulate_rr_exit e d ?r path 1"
  let ?path1 = "path_after path ?rr1"
  let ?rr2 = "simulate_rr_exit e d ?r ?path1 2"
  have path1: "path_ok lo hi e ?path1" unfolding path_after_def by (rule path_ok_drop[OF assms])
  have rr1: "exit_inside d e lo hi ?rr1" by (rule rr_inside[OF assms]) simp
  have rr2: "exit_inside d e lo hi ?rr2" by (rule rr_inside[OF path1]) simp
  let ?t = "trail_rest e d ?r (path_after ?path1 ?rr2) (xr_pnl_points ?rr2)"
  have rest: "inside d e lo hi (1/2 * xr_pnl_points ?rr2 + 1/2 * ?t)"
    by (rule inside_mix[OF rr2 trail_rest_inside[OF path1 rr2]]) simp_all
  have two: "inside d e lo hi (1/3 * xr_pnl_points ?rr1 + 2/3 * xr_pnl_points ?rr2)" by (rule inside_mix[OF rr1 rr2]) simp_all
  have three: "inside d e lo hi (1/3 * xr_pnl_points ?rr1 + 2/3 * (1/2 * xr_pnl_points ?rr2 + 1/2 * ?t))"
    by (rule inside_mix[OF rr1 rest]) simp_all
  then have three: "inside d e lo hi (1/3 * xr_pnl_points ?rr1 + 1/3 * xr_pnl_points ?rr2 + 1/3 * ?t)" by (simp add: algebra_simps)
  show ?thesis unfolding simulate_partial_b_def Let_def blended_def
    using rr1 two three by (simp only: exit_result.simps relabelled split: if_split) simp
qed

lemma partial_c_inside:
  assumes "path_ok lo hi e path" "list_all (inside d e lo hi) portions" "length portions + length rrs = 3" "list_all (\<lambda>rr. 0 \<le> rr) rrs"
  shows "exit_inside d e lo hi (partial_c_loop e d r rrs portions path)"
  using assms
proof (induction rrs arbitrary: portions path)
  case Nil
  let ?v = "if portions \<noteq> [] then last portions else 0"
  have "inside d e lo hi ?v" using Nil.prems(2) by (simp add: list_all_iff)
  then have "inside d e lo hi (trail_rest e d r path ?v)" using Nil.prems(1) by (simp add: trail_rest_def atr_trail_inside)
  moreover have "1 - 1/4 * of_nat (length portions) = (1/4 :: pyfloat)" using Nil.prems(3) by simp
  ultimately show ?case using inside_quarters[OF Nil.prems(2), of "trail_rest e d r path ?v"] Nil.prems(3)
    by (simp only: partial_c_loop.simps Let_def blended_def exit_result.simps)
next
  case (Cons rr rrs)
  let ?x = "simulate_rr_exit e d r path rr"
  have x: "exit_inside d e lo hi ?x" using Cons.prems(4) by (intro rr_inside[OF Cons.prems(1)]) simp
  have "length portions \<le> 4" using Cons.prems(3) by simp
  note stopped = inside_quarters[OF Cons.prems(2) x this]
  have "exit_inside d e lo hi (partial_c_loop e d r rrs (portions @ [xr_pnl_points ?x]) (path_after path ?x))"
    using Cons.prems x by (intro Cons.IH) (simp_all add: path_after_def path_ok_drop)
  then show ?case using stopped by (simp only: partial_c_loop.simps Let_def blended_def exit_result.simps split: if_split) simp
qed

end
