(* ===== verification/Exit_Engine.thy ===== *)
theory Exit_Engine
  imports Exit_Bounds Research_Orchestrator Variant_Ranker
begin

section \<open>The nightly exit simulation\<close>

text \<open>
  \<open>app/exit_engine/engine.py\<close>: for every research trade of a day the candle path from its entry to
  the close of the market, all exit models over that path, the excursions, the best and the worst
  model, and the row of the results table. The trades are those the recorder wrote, the candles
  those of the candle cache. The row is written by \<open>write_exit_result\<close> of \<open>db/research_store.py\<close>;
  whether a write succeeds is an argument, and so is the zone of the clock. The statistics of the
  elapsed time are left out.
\<close>

record exit_results =
  er_pnls :: "(string \<times> pyfloat) list"
  er_mfe :: pyfloat
  er_mae :: pyfloat
  er_best :: "(string \<times> pyfloat) option"
  er_worst :: "(string \<times> pyfloat) option"

definition compute_excursions :: "pyfloat \<Rightarrow> string \<Rightarrow> candle list \<Rightarrow> pyfloat \<times> pyfloat" where
  "compute_excursions e d path =
     (if path = [] then (0, 0)
      else if d = ''LONG'' then (highest_of path - e, lowest_of path - e)
      else (e - lowest_of path, e - highest_of path))"

text \<open>\<open>results.update(...)\<close> for one group of models after the other; the keys are all different.\<close>

definition all_exits :: "pyfloat \<Rightarrow> string \<Rightarrow> pyfloat \<Rightarrow> candle list \<Rightarrow> candle list \<Rightarrow> int \<Rightarrow> (string \<times> pyfloat) list" where
  "all_exits e d atr_at_entry path before entry_candle_from_open =
     simulate_all_rr e d atr_at_entry path @ simulate_all_stops e d atr_at_entry path before @
     simulate_all_trails e d atr_at_entry path @ simulate_all_partials e d atr_at_entry path @
     simulate_all_time_exits e d path @ simulate_all_session_exits e d path entry_candle_from_open @
     simulate_all_dead_trade_exits e d path @ simulate_all_breakeven_trails e d atr_at_entry path @
     simulate_all_chandelier_exits e d atr_at_entry path @ simulate_all_indicator_exits e d atr_at_entry path"

text \<open>\<open>max(all_pnls, key=all_pnls.get)\<close> is the first of the largest, \<open>min\<close> the first of the smallest.\<close>

definition best_model :: "(string \<times> pyfloat) list \<Rightarrow> (string \<times> pyfloat) option" where
  "best_model pnls = (case pnls of [] \<Rightarrow> None | b # bs \<Rightarrow> Some (max_by snd b bs))"

definition worst_model :: "(string \<times> pyfloat) list \<Rightarrow> (string \<times> pyfloat) option" where
  "worst_model pnls = (case pnls of [] \<Rightarrow> None | b # bs \<Rightarrow> Some (max_by (\<lambda>x. - snd x) b bs))"

definition results_of :: "(string \<times> pyfloat) list \<Rightarrow> pyfloat \<times> pyfloat \<Rightarrow> exit_results" where
  "results_of pnls excursions =
     \<lparr>er_pnls = pnls, er_mfe = fst excursions, er_mae = snd excursions, er_best = best_model pnls, er_worst = worst_model pnls\<rparr>"

type_synonym day_candles = "string \<times> string \<Rightarrow> candle list option"

text \<open>The candles of a trade: its timeframe's, or the five-minute ones when there are none.\<close>

definition candles_for :: "trade_record \<Rightarrow> day_candles \<Rightarrow> candle list" where
  "candles_for t day =
     (case day (rec_instrument t, rec_timeframe t) of
        Some (c # cs) \<Rightarrow> c # cs
      | _ \<Rightarrow> (case day (rec_instrument t, ''5m'') of Some cs \<Rightarrow> cs | None \<Rightarrow> []))"

definition eod_of :: "zone_clock \<Rightarrow> trade_record \<Rightarrow> pyfloat" where
  "eod_of loc t = of_wall loc (combine (wall_day (to_wall loc (rec_entry_time_ms t))) (15 * hour_ms + hour_ms / 2))"

text \<open>A candle with the time and, nearly, the close of the entry is the candle whose close was the entry; it is skipped.\<close>

definition skip_entry_candle :: "trade_record \<Rightarrow> candle list \<Rightarrow> candle list" where
  "skip_entry_candle t path =
     (case path of [] \<Rightarrow> []
      | c # cs \<Rightarrow> if c_ms c = rec_entry_time_ms t \<and> \<bar>c_close c - rec_entry_price t\<bar> < 1/100 then cs else path)"

definition candle_path :: "zone_clock \<Rightarrow> trade_record \<Rightarrow> candle list \<Rightarrow> candle list" where
  "candle_path loc t candles_all =
     skip_entry_candle t (filter (\<lambda>c. c_ms c \<ge> rec_entry_time_ms t \<and> c_ms c \<le> eod_of loc t) candles_all)"

definition candles_before_entry :: "trade_record \<Rightarrow> candle list \<Rightarrow> candle list" where
  "candles_before_entry t candles_all =
     filter (\<lambda>c. c_ms c \<ge> rec_entry_time_ms t - 5 * 300000 \<and> c_ms c < rec_entry_time_ms t) candles_all"

text \<open>Five-minute candles between a quarter past nine and the entry, as each of the two functions computes them.\<close>

definition entry_candle_from_open :: "zone_clock \<Rightarrow> trade_record \<Rightarrow> int" where
  "entry_candle_from_open loc t =
     (let since_open = wall_time (to_wall loc (rec_entry_time_ms t)) - (9 * hour_ms + hour_ms / 4)
      in if since_open > 0 then py_int (since_open / 1000 / 60 / 5) else 0)"

definition worker_candle_from_open :: "zone_clock \<Rightarrow> trade_record \<Rightarrow> int" where
  "worker_candle_from_open loc t =
     (let since_open = wall_time (to_wall loc (rec_entry_time_ms t)) - (9 * hour_ms + hour_ms / 4)
      in if since_open > 0 then py_int (since_open / 1000 / 300) else 0)"

definition trade_exits :: "zone_clock \<Rightarrow> trade_record \<Rightarrow> day_candles \<Rightarrow> exit_results option" where
  "trade_exits loc t day =
     (let e = rec_entry_price t; d = trade_record.rec_direction t; candles_all = candles_for t day; path = candle_path loc t candles_all
      in if path = [] then None
         else Some (results_of
           (all_exits e d (sn_atr (rec_snapshot t)) path (candles_before_entry t candles_all) (entry_candle_from_open loc t))
           (compute_excursions e d path)))"

text \<open>The module-level worker for a pool of processes, which returns the results instead of writing them.\<close>

definition process_trade_worker :: "zone_clock \<Rightarrow> trade_record \<Rightarrow> day_candles \<Rightarrow> exit_results option" where
  "process_trade_worker loc t day =
     (let e = rec_entry_price t; d = trade_record.rec_direction t; atr_at_entry = sn_atr (rec_snapshot t); candles_all = candles_for t day;
          raw = filter (\<lambda>c. c_ms c \<ge> rec_entry_time_ms t \<and> c_ms c \<le> eod_of loc t) candles_all;
          path = skip_entry_candle t raw
      in if candles_all = [] then None
         else if raw = [] then None
         else if path = [] then None
         else
           let pnls = simulate_all_rr e d atr_at_entry path @
                 simulate_all_stops e d atr_at_entry path (candles_before_entry t candles_all) @
                 simulate_all_trails e d atr_at_entry path @ simulate_all_partials e d atr_at_entry path @
                 simulate_all_time_exits e d path @ simulate_all_session_exits e d path (worker_candle_from_open loc t) @
                 simulate_all_dead_trade_exits e d path @ simulate_all_breakeven_trails e d atr_at_entry path @
                 simulate_all_chandelier_exits e d atr_at_entry path @ simulate_all_indicator_exits e d atr_at_entry path
           in Some (results_of pnls (compute_excursions e d path)))"

subsection \<open>The results table and the run over a day\<close>

text \<open>The columns a row gets: the models' with a suffix, and those that keep their name.\<close>

definition result_columns :: "exit_results \<Rightarrow> string list" where
  "result_columns r =
     List.map (\<lambda>(key, v). key @ ''_result'') (er_pnls r) @ [''mfe'', ''mae''] @
     (case er_best r of None \<Rightarrow> [] | Some b \<Rightarrow> [''best_exit_model'', ''best_pnl'']) @
     (case er_worst r of None \<Rightarrow> [] | Some b \<Rightarrow> [''worst_exit_model'', ''worst_pnl''])"

text \<open>A failed write is logged and changes nothing; otherwise the row of the trade is inserted or replaced.\<close>

definition write_exit_result :: "bool \<Rightarrow> string \<Rightarrow> exit_results \<Rightarrow> (string \<times> exit_results) list \<Rightarrow> (string \<times> exit_results) list" where
  "write_exit_result ok trade_id r table = (if ok then AList.update trade_id r table else table)"

definition process_trade ::
  "(string \<Rightarrow> bool) \<Rightarrow> zone_clock \<Rightarrow> day_candles \<Rightarrow> trade_record \<Rightarrow> (string \<times> exit_results) list \<Rightarrow> (string \<times> exit_results) list \<times> bool" where
  "process_trade ok loc day t table =
     (case trade_exits loc t day of
        None \<Rightarrow> (table, False)
      | Some r \<Rightarrow> (write_exit_result (ok (rec_trade_id t)) (rec_trade_id t) r table, True))"

definition get_trades_for_date :: "zone_clock \<Rightarrow> int \<Rightarrow> trade_record list \<Rightarrow> trade_record list" where
  "get_trades_for_date loc d trades =
     (let start_ms = of_wall loc (combine d 0); end_ms = start_ms + 86400 * 1000
      in sort_key rec_entry_time_ms (filter (\<lambda>t. rec_entry_time_ms t \<ge> start_ms \<and> rec_entry_time_ms t < end_ms) trades))"

text \<open>The candles of the day, one query for each instrument and timeframe of the trades and for its five-minute fallback.\<close>

definition load_day :: "zone_clock \<Rightarrow> int \<Rightarrow> trade_record list \<Rightarrow> (cache_key \<times> cached_candle) list \<Rightarrow> day_candles" where
  "load_day loc d trades cache key =
     (if list_ex (\<lambda>t. key = (rec_instrument t, rec_timeframe t) \<or> key = (rec_instrument t, ''5m'')) trades
      then Some (List.map cr_candle (get_cached_candles (fst key) (snd key)
             (of_wall loc (combine d (9 * hour_ms))) (of_wall loc (combine d (15 * hour_ms + 35 * 60000))) cache))
      else None)"

record exit_engine_stats =
  trades_processed :: nat
  trades_skipped :: nat

fun process_trades ::
  "(string \<Rightarrow> bool) \<Rightarrow> zone_clock \<Rightarrow> day_candles \<Rightarrow> trade_record list \<Rightarrow> (string \<times> exit_results) list \<times> exit_engine_stats
     \<Rightarrow> (string \<times> exit_results) list \<times> exit_engine_stats" where
  "process_trades ok loc day [] s = s"
| "process_trades ok loc day (t # ts) (table, st) =
     (case process_trade ok loc day t table of (table', success) \<Rightarrow>
        process_trades ok loc day ts
          (table', if success then st\<lparr>trades_processed := trades_processed st + 1\<rparr> else st\<lparr>trades_skipped := trades_skipped st + 1\<rparr>))"

definition run_for_date ::
  "(string \<Rightarrow> bool) \<Rightarrow> zone_clock \<Rightarrow> int \<Rightarrow> trade_record list \<Rightarrow> (cache_key \<times> cached_candle) list \<Rightarrow> (string \<times> exit_results) list
     \<Rightarrow> (string \<times> exit_results) list \<times> exit_engine_stats" where
  "run_for_date ok loc d trades cache table =
     (let day_trades = get_trades_for_date loc d trades; st = \<lparr>trades_processed = 0, trades_skipped = 0\<rparr>
      in if day_trades = [] then (table, st) else process_trades ok loc (load_day loc d day_trades cache) day_trades (table, st))"

subsection \<open>Which columns there are\<close>

definition model_keys :: "string list" where
  "model_keys = List.map fst (all_exits 0 [] 0 [] [] 0)"

lemma all_exits_keys: "List.map fst (all_exits e d a path before n) = model_keys"
  unfolding model_keys_def all_exits_def simulate_all_rr_def RR_MULTIPLES_def simulate_all_stops_def simulate_all_trails_def
    simulate_all_partials_def simulate_all_time_exits_def TIME_CANDLE_EXITS_def simulate_all_session_exits_def SESSION_EXITS_def
    simulate_all_dead_trade_exits_def DEAD_TRADE_CANDLES_def simulate_all_breakeven_trails_def simulate_all_chandelier_exits_def
    simulate_all_indicator_exits_def
  by (simp only: list.map map_append prod.case fst_conv append.simps)

text \<open>The ranker reads exactly the columns of the models, each once.\<close>

lemma model_columns: "List.map (\<lambda>key. key @ ''_result'') model_keys = EXIT_MODEL_COLUMNS"
  unfolding model_keys_def EXIT_MODEL_COLUMNS_def all_exits_def simulate_all_rr_def RR_MULTIPLES_def simulate_all_stops_def simulate_all_trails_def
    simulate_all_partials_def simulate_all_time_exits_def TIME_CANDLE_EXITS_def simulate_all_session_exits_def SESSION_EXITS_def
    simulate_all_dead_trade_exits_def DEAD_TRADE_CANDLES_def simulate_all_breakeven_trails_def simulate_all_chandelier_exits_def
    simulate_all_indicator_exits_def
  by (simp only: list.map map_append prod.case fst_conv append.simps)

lemma columns_distinct: "distinct EXIT_MODEL_COLUMNS"
  by code_simp

lemma keys_distinct: "distinct model_keys"
  by (metis columns_distinct distinct_map model_columns)

subsection \<open>The results of a trade\<close>

definition sound_bar :: "candle \<Rightarrow> bool" where
  "sound_bar c \<longleftrightarrow> ohlc_ok c \<and> 0 < c_low c"

lemma candle_path_subset: "set (candle_path loc t cs) \<subseteq> set cs"
  by (auto simp: candle_path_def skip_entry_candle_def split: list.splits if_splits
      dest!: arg_cong[where f = set])

lemma path_ok_range:
  assumes "path \<noteq> []" "list_all sound_bar path" "0 < e"
  shows "path_ok (lowest_of path) (highest_of path) e path"
proof -
  have "bar_in (lowest_of path) (highest_of path) c" if "c \<in> set path" for c
    using lowest_of_le[OF that] highest_of_ge[OF that] that assms(2) by (auto simp: bar_in_def sound_bar_def ohlc_ok_def list_all_iff)
  moreover obtain c where "c \<in> set path" "lowest_of path = c_low c" using lowest_of_in[OF assms(1)] by blast
  ultimately show ?thesis using assms(2,3) by (auto simp: path_ok_def sound_bar_def list_all_iff)
qed

lemma all_exits_inside:
  assumes "path_ok lo hi e path"
  shows "list_all (\<lambda>(key, v). key = ''swing_stop'' \<or> inside d e lo hi v) (all_exits e d a path before n)"
proof -
  note models = rr_inside atr_stop_inside fixed_stop_inside atr_trail_inside ema_trail_inside swing_trail_inside
    partial_a_inside partial_b_inside time_exit_inside session_exit_inside dead_trade_inside
    be_inside be_ema_inside be_target_inside chandelier_inside delayed_inside pct_trail_inside indicator_inside
  have halves: "exit_inside d e lo hi (simulate_step_trail e d a path 1 (1/2))" "exit_inside d e lo hi (simulate_step_trail e d a path (1/2) (1/4))"
    using step_trail_inside[OF assms, of 1] step_trail_inside[OF assms, of "1/2"] by simp_all
  have c: "exit_inside d e lo hi (simulate_partial_c e d a path)"
    unfolding simulate_partial_c_def by (rule partial_c_inside[OF assms]) simp_all
  have "list_all (\<lambda>(key, v). inside d e lo hi v) (simulate_all_rr e d a path @ simulate_all_trails e d a path @
      simulate_all_partials e d a path @ simulate_all_time_exits e d path @ simulate_all_session_exits e d path n @
      simulate_all_dead_trade_exits e d path @ simulate_all_breakeven_trails e d a path @
      simulate_all_chandelier_exits e d a path @ simulate_all_indicator_exits e d a path)"
    unfolding simulate_all_rr_def RR_MULTIPLES_def simulate_all_trails_def
      simulate_all_partials_def simulate_all_time_exits_def TIME_CANDLE_EXITS_def simulate_all_session_exits_def SESSION_EXITS_def
      simulate_all_dead_trade_exits_def DEAD_TRADE_CANDLES_def simulate_all_breakeven_trails_def simulate_all_chandelier_exits_def
      simulate_all_indicator_exits_def simulate_be_atr_trail_def simulate_be_tight_trail_def simulate_be_wide_trail_def
    by (simp add: models[OF assms] halves c)
  moreover have "list_all (\<lambda>(key, v). key = ''swing_stop'' \<or> inside d e lo hi v) (simulate_all_stops e d a path before)"
    unfolding simulate_all_stops_def by (simp add: models[OF assms])
  ultimately show ?thesis unfolding all_exits_def by (auto simp: list_all_iff)
qed

lemma inside_excursions:
  "path \<noteq> [] \<Longrightarrow> inside d e (lowest_of path) (highest_of path) v \<longleftrightarrow>
     min 0 (snd (compute_excursions e d path)) \<le> v \<and> v \<le> max 0 (fst (compute_excursions e d path))"
  by (simp add: inside_def compute_excursions_def)

lemma best_and_worst:
  assumes "pnls \<noteq> []"
  shows "\<exists>b w. best_model pnls = Some b \<and> worst_model pnls = Some w \<and> b \<in> set pnls \<and> w \<in> set pnls \<and>
     list_all (\<lambda>x. snd w \<le> snd x \<and> snd x \<le> snd b) pnls"
proof -
  obtain p ps where p: "pnls = p # ps" using assms by (cases pnls) auto
  show ?thesis
    using max_by_in[of snd p ps] max_by_in[of "\<lambda>x. - snd x" p ps] max_by_ge[of _ p ps snd] max_by_ge[of _ p ps "\<lambda>x. - snd x"]
    by (simp add: p best_model_def worst_model_def list_all_iff)
qed

lemma trade_exits_results:
  assumes "trade_exits loc t day = Some r"
  defines "path \<equiv> candle_path loc t (candles_for t day)"
  shows "path \<noteq> []" "r = results_of
     (all_exits (rec_entry_price t) (trade_record.rec_direction t) (sn_atr (rec_snapshot t)) path
        (candles_before_entry t (candles_for t day)) (entry_candle_from_open loc t))
     (compute_excursions (rec_entry_price t) (trade_record.rec_direction t) path)"
  using assms by (auto simp: trade_exits_def Let_def split: if_splits)

text \<open>
  C29: The results of a trade over well-formed candles with positive prices: one for every model,
  each except the swing stop between the adverse and the favourable excursion of the path, widened
  to contain zero; and the best and the worst model are among them with the largest and the
  smallest result.
\<close>

theorem exits_within_excursion:
  assumes "trade_exits loc t day = Some r" "0 < rec_entry_price t" "list_all sound_bar (candles_for t day)"
  shows "List.map fst (er_pnls r) = model_keys \<and>
    list_all (\<lambda>(key, v). key = ''swing_stop'' \<or> (min 0 (er_mae r) \<le> v \<and> v \<le> max 0 (er_mfe r))) (er_pnls r) \<and>
    (\<exists>b w. er_best r = Some b \<and> er_worst r = Some w \<and> b \<in> set (er_pnls r) \<and> w \<in> set (er_pnls r) \<and>
       list_all (\<lambda>x. snd w \<le> snd x \<and> snd x \<le> snd b) (er_pnls r))"
proof -
  let ?path = "candle_path loc t (candles_for t day)" and ?e = "rec_entry_price t" and ?d = "trade_record.rec_direction t"
  let ?pnls = "all_exits ?e ?d (sn_atr (rec_snapshot t)) ?path (candles_before_entry t (candles_for t day)) (entry_candle_from_open loc t)"
  note path = trade_exits_results(1)[OF assms(1)] and r = trade_exits_results(2)[OF assms(1)]
  have "list_all sound_bar ?path" using assms(3) candle_path_subset by (fastforce simp: list_all_iff)
  then have ok: "path_ok (lowest_of ?path) (highest_of ?path) ?e ?path" by (intro path_ok_range path assms(2))
  have keys: "List.map fst ?pnls = model_keys" by (rule all_exits_keys)
  have "model_keys \<noteq> []" using model_columns by (auto simp: EXIT_MODEL_COLUMNS_def)
  then have "?pnls \<noteq> []" using keys by (metis list.map_disc_iff)
  from best_and_worst[OF this] show ?thesis
    using all_exits_inside[OF ok, of ?d] keys unfolding r results_of_def inside_excursions[OF path] by simp
qed

text \<open>The worker of the process pool returns exactly the results the engine writes.\<close>

theorem worker_is_engine: "process_trade_worker loc t day = trade_exits loc t day"
proof -
  have "worker_candle_from_open loc t = entry_candle_from_open loc t"
    by (simp add: worker_candle_from_open_def entry_candle_from_open_def)
  then show ?thesis
    by (auto simp: process_trade_worker_def trade_exits_def all_exits_def candle_path_def skip_entry_candle_def Let_def)
qed

text \<open>
  A written row has, beside the excursions and the best and the worst model, exactly the
  columns from which the ranker scores the exit models, in its order.
\<close>

theorem written_columns_scored:
  assumes "trade_exits loc t day = Some r"
  shows "result_columns r = EXIT_MODEL_COLUMNS @ [''mfe'', ''mae'', ''best_exit_model'', ''best_pnl'', ''worst_exit_model'', ''worst_pnl'']"
proof -
  obtain pnls x where r: "r = results_of pnls x" "List.map fst pnls = model_keys"
    using trade_exits_results[OF assms] all_exits_keys by metis
  have "List.map (\<lambda>(key, v). key @ ''_result'') pnls = List.map (\<lambda>key. key @ ''_result'') (List.map fst pnls)" by (simp add: case_prod_beta)
  then have cols: "List.map (\<lambda>(key, v). key @ ''_result'') pnls = EXIT_MODEL_COLUMNS" by (simp only: r(2) model_columns)
  then have "pnls \<noteq> []" by (auto simp: EXIT_MODEL_COLUMNS_def)
  then show ?thesis using best_and_worst[of pnls] cols by (auto simp: r(1) results_of_def result_columns_def)
qed

subsection \<open>The run over a day\<close>

text \<open>What a run leaves in the table for a trade.\<close>

definition written_row ::
  "(string \<Rightarrow> bool) \<Rightarrow> zone_clock \<Rightarrow> day_candles \<Rightarrow> trade_record \<Rightarrow> exit_results option \<Rightarrow> exit_results option" where
  "written_row ok loc day t old =
     (case trade_exits loc t day of Some r \<Rightarrow> if ok (rec_trade_id t) then Some r else old | None \<Rightarrow> old)"

lemma process_trade_row:
  "map_of (fst (process_trade ok loc day t table)) k =
     (if k = rec_trade_id t then written_row ok loc day t (map_of table k) else map_of table k)"
  by (auto simp: process_trade_def written_row_def write_exit_result_def map_of_update_other split: option.splits)

lemma process_trade_again:
  "written_row ok loc day t (map_of table (rec_trade_id t)) = map_of table (rec_trade_id t) \<Longrightarrow>
     fst (process_trade ok loc day t table) = table"
  by (auto simp: process_trade_def written_row_def write_exit_result_def split: option.splits if_splits intro: update_same_value)

lemma process_trade_success: "snd (process_trade ok loc day t table) \<longleftrightarrow> trade_exits loc t day \<noteq> None"
  by (auto simp: process_trade_def split: option.splits)

lemma written_row_again: "written_row ok loc day t (written_row ok loc day t old) = written_row ok loc day t old"
  by (auto simp: written_row_def split: option.splits)

lemma process_trades_Cons [simp]:
  "process_trades ok loc day (t # ts) (table, st) =
     process_trades ok loc day ts (fst (process_trade ok loc day t table),
       if snd (process_trade ok loc day t table) then st\<lparr>trades_processed := trades_processed st + 1\<rparr>
       else st\<lparr>trades_skipped := trades_skipped st + 1\<rparr>)"
  by (simp add: case_prod_beta)

declare process_trades.simps(2) [simp del]

lemma process_trades_other:
  "k \<notin> rec_trade_id ` set ts \<Longrightarrow> map_of (fst (process_trades ok loc day ts (table, st))) k = map_of table k"
proof (induction ts arbitrary: table st)
  case (Cons t ts)
  then show ?case using process_trade_row[of ok loc day t table k] by simp
qed simp

lemma process_trades_rows:
  assumes "distinct (List.map rec_trade_id ts)" "t \<in> set ts"
  shows "map_of (fst (process_trades ok loc day ts (table, st))) (rec_trade_id t) = written_row ok loc day t (map_of table (rec_trade_id t))"
  using assms
proof (induction ts arbitrary: table st)
  case (Cons a ts)
  show ?case
  proof (cases "t = a")
    case True
    then have "rec_trade_id t \<notin> rec_trade_id ` set ts" using Cons.prems(1) by simp
    then show ?thesis using process_trade_row[of ok loc day t table "rec_trade_id t"] True
      by (simp add: process_trades_other)
  next
    case False
    then have "t \<in> set ts" "rec_trade_id t \<noteq> rec_trade_id a" using Cons.prems by (auto simp: image_iff)
    then show ?thesis using Cons process_trade_row[of ok loc day a table "rec_trade_id t"] by simp
  qed
qed simp

lemma process_trades_again:
  "list_all (\<lambda>t. written_row ok loc day t (map_of table (rec_trade_id t)) = map_of table (rec_trade_id t)) ts \<Longrightarrow>
     fst (process_trades ok loc day ts (table, st)) = table"
proof (induction ts arbitrary: st)
  case (Cons t ts)
  then show ?case using process_trade_again[of ok loc day t table] by auto
qed simp

lemma process_trades_stats:
  "trades_processed (snd (process_trades ok loc day ts (table, st))) = trades_processed st + length (filter (\<lambda>t. trade_exits loc t day \<noteq> None) ts)"
  "trades_skipped (snd (process_trades ok loc day ts (table, st))) = trades_skipped st + length (filter (\<lambda>t. trade_exits loc t day = None) ts)"
proof (induction ts arbitrary: table st)
  case (Cons t ts)
  { case 1 show ?case using Cons(1) process_trade_success[of ok loc day t table] by auto }
  { case 2 show ?case using Cons(2) process_trade_success[of ok loc day t table] by auto }
qed simp_all

lemma date_trades_distinct: "distinct (List.map rec_trade_id trades) \<Longrightarrow> distinct (List.map rec_trade_id (get_trades_for_date loc d trades))"
  by (auto simp: get_trades_for_date_def Let_def distinct_map intro: inj_on_subset)

text \<open>
  C30: After a run for a date every trade of the date has the row of its results, unless they
  could not be computed or written; other rows are untouched; each trade is counted once, as
  processed or as skipped; and the run is idempotent.
\<close>

theorem exit_run_correct:
  fixes ok :: "string \<Rightarrow> bool" and loc :: zone_clock and d :: int
    and cache :: "(cache_key \<times> cached_candle) list" and table :: "(string \<times> exit_results) list"
  assumes "distinct (List.map rec_trade_id trades)"
  defines "today \<equiv> get_trades_for_date loc d trades"
  defines "day \<equiv> load_day loc d today cache"
  defines "out \<equiv> run_for_date ok loc d trades cache table"
  shows "list_all (\<lambda>t. map_of (fst out) (rec_trade_id t) = written_row ok loc day t (map_of table (rec_trade_id t))) today \<and>
    (\<forall>k. k \<notin> rec_trade_id ` set today \<longrightarrow> map_of (fst out) k = map_of table k) \<and>
    trades_processed (snd out) = length (filter (\<lambda>t. trade_exits loc t day \<noteq> None) today) \<and>
    trades_skipped (snd out) = length (filter (\<lambda>t. trade_exits loc t day = None) today) \<and>
    run_for_date ok loc d trades cache (fst out) = out"
proof -
  let ?st = "\<lparr>trades_processed = 0, trades_skipped = 0\<rparr>"
  have run: "run_for_date ok loc d trades cache tab = process_trades ok loc day today (tab, ?st)" for tab
    by (simp add: run_for_date_def today_def day_def Let_def)
  have ids: "distinct (List.map rec_trade_id today)" unfolding today_def by (rule date_trades_distinct[OF assms(1)])
  have rows: "map_of (fst out) (rec_trade_id t) = written_row ok loc day t (map_of table (rec_trade_id t))" if "t \<in> set today" for t
    unfolding out_def run by (rule process_trades_rows[OF ids that])
  have "fst (run_for_date ok loc d trades cache (fst out)) = fst out"
    unfolding run by (rule process_trades_again) (simp add: list_all_iff rows written_row_again)
  moreover have "snd (run_for_date ok loc d trades cache (fst out)) = snd out"
    unfolding out_def run by (rule exit_engine_stats.equality) (simp_all add: process_trades_stats)
  ultimately have "run_for_date ok loc d trades cache (fst out) = out" by (rule prod_eqI)
  then show ?thesis using rows process_trades_other[of _ today ok loc day table ?st] process_trades_stats[of ok loc day today table ?st]
    by (simp add: list_all_iff out_def run)
qed

subsection \<open>What the models do not do\<close>

text \<open>
  The RSI series has one entry too few: the first average gives none, so entry \<open>i\<close> is the RSI of the
  closes up to \<open>i + 1\<close>, and an exit at candle \<open>i\<close> knows the close after it.
\<close>

lemma length_rsi_loop: "length (rsi_loop n g l cs) = length cs"
  by (induction cs arbitrary: g l) (simp_all add: Let_def)

lemma rsi_one_short: "n + 1 \<le> length closes \<Longrightarrow> length (rsi_on_closes closes n) = length closes - 1"
  by (simp add: rsi_on_closes_def length_rsi_loop Let_def)

lemma rsi_looks_ahead: "rsi_on_closes [10, 11, 12] 1 ! 1 = 100 \<and> rsi_on_closes [10, 11, 5] 1 ! 1 = 0"
  by (simp add: rsi_on_closes_def Let_def)

text \<open>A swing low above the entry of a long is hit at once and books a profit the path never offers.\<close>

lemma swing_stop_above_entry:
  "xr_pnl_points (simulate_swing_stop 100 ''LONG'' [demo_candle 100 102 98 101] [demo_candle 106 107 105 106]) = 5 \<and>
   fst (compute_excursions 100 ''LONG'' [demo_candle 100 102 98 101]) = 2"
  by (simp add: simulate_swing_stop_def find_swing_level_def stop_body_def path_stop_touched_def walked_def leave_at_def points_def
      compute_excursions_def highest_of_def lowest_of_def demo_candle_def take_last_def)

text \<open>After one step of profit the stop is one unit below the entry, not half a unit.\<close>

lemma step_trail_example:
  "xr_exit_price (simulate_step_trail 100 ''LONG'' 10 [demo_candle 100 110 105 108, demo_candle 108 108 80 85] 1 (1/2)) = 90"
  by (simp add: simulate_step_trail_def step_trail_body_def stop_passed_def stop_behind_def walked_def leave_at_def points_def
      risk_unit_def py_int_def demo_candle_def)

text \<open>The second half of partial exit A keeps the initial stop after the first target, so the whole may still lose.\<close>

lemma partial_a_not_breakeven:
  "xr_pnl_points (simulate_partial_a 100 ''LONG'' 10 [demo_candle 100 110 95 100, demo_candle 100 100 80 85]) = - (5/2)"
  by (simp add: simulate_partial_a_def simulate_rr_exit_def rr_body_def simulate_atr_trail_def atr_trail_body_def best_of_def
      stop_passed_def target_passed_def stop_behind_def target_ahead_def walked_def leave_at_def points_def risk_unit_def
      trail_rest_def path_after_def blended_def demo_candle_def)

text \<open>When the first target is reached on the last candle, partial exit B closes the other two thirds at the entry price.\<close>

lemma partial_b_last_candle:
  "xr_pnl_points (simulate_partial_b 100 ''LONG'' 10 [demo_candle 100 112 99 112]) = 10/3"
  by (simp add: simulate_partial_b_def simulate_rr_exit_def rr_body_def close_at_eod_def
      stop_passed_def target_passed_def stop_behind_def target_ahead_def walked_def leave_at_def points_def risk_unit_def
      path_after_def blended_def demo_candle_def)

text \<open>The EMA trail and the cross of the nine-period average are the same model: two columns with one content.\<close>

lemma walk_path_same_points:
  assumes "\<And>i c s. map_option xr_pnl_points (fst (f i c s)) = map_option xr_pnl_points (fst (g i c s)) \<and> snd (f i c s) = snd (g i c s)"
  shows "map_option xr_pnl_points (walk_path f i cs s) = map_option xr_pnl_points (walk_path g i cs s)"
proof (induction cs arbitrary: i s)
  case (Cons c cs)
  show ?case using assms[of i c s] Cons
    by (cases "f i c s"; cases "g i c s"; cases "fst (f i c s)"; cases "fst (g i c s)") auto
qed simp

lemma ema_trail_is_ema9_cross:
  "xr_pnl_points (simulate_ema_trail e d a path n) = xr_pnl_points (simulate_ema_cross_exit e d a path n)"
proof -
  let ?f = "ema_trail_body d e (safety_stop d e a) (compute_ema_on_path path n)"
  let ?g = "ema_cross_body d e (safety_stop d e a) n (ema_on_closes (List.map c_close path) n)"
  have ema: "i < length (compute_ema_on_path path n) \<and> compute_ema_on_path path n ! i > 0 \<and> crossed_line d x (compute_ema_on_path path n ! i) \<longleftrightarrow>
     i < length (ema_on_closes (List.map c_close path) n) \<and> ema_on_closes (List.map c_close path) n ! i > 0 \<and>
       crossed_line d x (ema_on_closes (List.map c_close path) n ! i)" for i x
    by (auto simp: compute_ema_on_path_def ema_on_closes_def Let_def)
  have "map_option xr_pnl_points (walk_path ?f 0 path ()) = map_option xr_pnl_points (walk_path ?g 0 path ())"
    by (rule walk_path_same_points) (simp add: ema_trail_body_def ema_cross_body_def guarded_exit_def ema leave_at_def)
  then show ?thesis
    by (auto simp: simulate_ema_trail_def simulate_ema_cross_exit_def walked_def safety_stop_def split: option.splits)
qed

subsection \<open>Examples\<close>

definition research_zone :: zone_clock where
  "research_zone = \<lparr>to_wall = \<lambda>x. x, of_wall = \<lambda>x. x\<rparr>"

text \<open>A long at 100 at ten o'clock, over one candle that starts then.\<close>

definition ten_ms :: pyfloat where
  "ten_ms = combine 0 (10 * hour_ms)"

definition research_trade :: trade_record where
  "research_trade = \<lparr>rec_trade_id = ''T1'', rec_variant_id = ''V1'', rec_strategy = ''ORB'', rec_timeframe = ''5m'', rec_instrument = ''EURUSD'',
     rec_direction = ''LONG'', rec_entry_time_ms = ten_ms, rec_entry_price = 100, rec_snapshot = empty_snapshot\<lparr>sn_atr := 10\<rparr>,
     rec_metadata = empty_metadata\<rparr>"

definition research_bar :: candle where
  "research_bar = (demo_candle 100 102 98 101)\<lparr>c_ms := ten_ms\<rparr>"

lemma ten_ms_clock: "wall_day ten_ms = 0" "wall_time ten_ms = 10 * hour_ms"
  unfolding ten_ms_def by (rule combine_split; simp add: hour_ms_def day_ms_def)+

lemma research_path: "candle_path research_zone research_trade [research_bar] = [research_bar]"
  by (simp add: candle_path_def eod_of_def ten_ms_clock research_zone_def research_trade_def research_bar_def skip_entry_candle_def demo_candle_def)
    (simp add: ten_ms_def combine_def hour_ms_def)

lemma research_results: "day (''EURUSD'', ''5m'') = Some [research_bar] \<Longrightarrow> \<exists>r. trade_exits research_zone research_trade day = Some r"
proof -
  assume day: "day (''EURUSD'', ''5m'') = Some [research_bar]"
  then have "candles_for research_trade day = [research_bar]" by (simp add: candles_for_def research_trade_def)
  then show ?thesis by (simp add: trade_exits_def research_path Let_def)
qed

theorem exits_within_excursion_witness:
  "\<exists>r. trade_exits research_zone research_trade (\<lambda>_. Some [research_bar]) = Some r \<and>
     list_all (\<lambda>(key, v). key = ''swing_stop'' \<or> (-2 \<le> v \<and> v \<le> 2)) (er_pnls r)"
proof -
  obtain r where r: "trade_exits research_zone research_trade (\<lambda>_. Some [research_bar]) = Some r"
    using research_results[of "\<lambda>_. Some [research_bar]"] by auto
  have all: "candles_for research_trade (\<lambda>_. Some [research_bar]) = [research_bar]" by (simp add: candles_for_def)
  have "er_mfe r = 2" "er_mae r = -2" using trade_exits_results(2)[OF r]
    by (simp_all add: all research_path results_of_def compute_excursions_def highest_of_def lowest_of_def)
      (simp_all add: research_trade_def research_bar_def demo_candle_def)
  then show ?thesis using exits_within_excursion[OF r] r
    by (simp add: all sound_bar_def ohlc_ok_def) (simp add: research_trade_def research_bar_def demo_candle_def)
qed

theorem written_columns_scored_witness:
  "\<exists>r. trade_exits research_zone research_trade (\<lambda>_. Some [research_bar]) = Some r \<and> take 57 (result_columns r) = EXIT_MODEL_COLUMNS"
proof -
  obtain r where r: "trade_exits research_zone research_trade (\<lambda>_. Some [research_bar]) = Some r"
    using research_results[of "\<lambda>_. Some [research_bar]"] by auto
  show ?thesis using written_columns_scored[OF r] r by (simp add: EXIT_MODEL_COLUMNS_def)
qed

theorem exit_run_correct_witness:
  "trades_processed (snd (run_for_date (\<lambda>_. True) research_zone 0 [research_trade]
      [((''EURUSD'', ''5m'', ten_ms), \<lparr>cr_candle = research_bar, cr_session = 0\<rparr>)] [])) = 1"
proof -
  let ?cache = "[((''EURUSD'', ''5m'', ten_ms), \<lparr>cr_candle = research_bar, cr_session = 0\<rparr>)]"
  have today: "get_trades_for_date research_zone 0 [research_trade] = [research_trade]"
    by (simp add: get_trades_for_date_def research_zone_def research_trade_def) (simp add: ten_ms_def combine_def hour_ms_def)
  have "load_day research_zone 0 [research_trade] ?cache (''EURUSD'', ''5m'') = Some [research_bar]"
    by (simp add: load_day_def get_cached_candles_def research_zone_def research_trade_def) (simp add: ten_ms_def combine_def hour_ms_def)
  from research_results[where day = "load_day research_zone 0 [research_trade] ?cache", OF this] show ?thesis
    using exit_run_correct[of "[research_trade]" "\<lambda>_. True" research_zone 0 ?cache "[]"] by (auto simp: today)
qed

end
