(* ===== verification/Spec2Isabelle.thy ===== *)
theory Spec2Isabelle
  imports Prelude Core_Models Event_Bus Bounded_Buffer Candle_Builder Instruments Costs Position_Sizing
    Risk_Guard Strategy_Base Exec_Base Exit_Simulator Paper_Executor Paper_Account Multi_Account Indicators
    Text Forex_Hours Regime Backtest_Replay Exit_Models Challenge_Sim Timeframe_Agg Entry_Replay Portfolio_Sim
    Grouping Deployability Slice_Scorer Research_Entries Live_Strategies Port_Parity Strategy_Registry Streams
    Variant_Metrics Stability Variant_Ranker Regime_Scorer Variant_Models Variant_Templates Variant_Execution
    Trade_Recorder Indicator_Engine Variant_Evaluator Research_Orchestrator
    Market_Hours Equity_Risk Equity_Paper Equity_Traders CFD_Indicators Price_Structure NSE_Strategies
    NSE_Momentum Strategy_Engine Exit_Path Exit_Trails Exit_Signals Exit_Bounds
    Exit_Engine
begin

section \<open>The trading systems of algo-strategy\<close>

text \<open>
  The repository trades contracts for difference: ticks become candles, strategies turn candles
  into signals, executors turn signals into positions under a drawdown guard, and a research
  pipeline decides which strategies are worth running by replaying them over history and running
  the results through simulated prop-firm challenges. Beside it runs an older system for Indian
  equities, whose research engine evaluates 150,000 variants of five strategies on every candle and
  scores their trades. This library models both from the tick to the verdict, in the order the data
  flows. All paths are under \<open>src/app\<close>.

  \<^bold>\<open>Live path.\<close>
  \<^item> \<open>Core_Models\<close> (\<open>core/models.py\<close>, \<open>broker/base.py\<close>): candles, ticks, positions.
  \<^item> \<open>Event_Bus\<close> (\<open>core/events.py\<close>): handlers called in subscription order.
  \<^item> \<open>Bounded_Buffer\<close>, \<open>Candle_Builder\<close> (\<open>core/candle_builder.py\<close>): ticks to bars of every
    timeframe, with bounded histories. The two ways a history grows are interpretations of the
    locale \<open>bounded_buffer\<close>.
  \<^item> \<open>Instruments\<close>, \<open>Costs\<close>, \<open>Position_Sizing\<close>, \<open>Risk_Guard\<close> (\<open>cfd_risk\<close>): contract
    specifications and overrides, trade costs, lots for a risk budget, daily and overall drawdown
    limits.
  \<^item> \<open>Strategy_Base\<close>, \<open>Strategy_Registry\<close> (\<open>cfd_strategy\<close>): plans and signals, whose
    constructors refuse unsafe ones, and the registry of strategies.
  \<^item> \<open>Exec_Base\<close>, \<open>Paper_Executor\<close>, \<open>Paper_Account\<close>, \<open>Multi_Account\<close> (\<open>cfd_execution\<close>):
    managed positions and their exits; one account's handlers for signals, ticks, candle closes and
    resets; the account as a reachable state of these handlers; the fan-out over accounts.
  \<^item> \<open>Streams\<close> (\<open>cfd_execution/streams.py\<close>): which accounts run.
  \<^item> \<open>Forex_Hours\<close>, \<open>Text\<close> (\<open>utils/forex_hours.py\<close>): the trading week, sessions, resets.
  \<^item> \<open>Indicators\<close>, \<open>Regime\<close> (\<open>strategy/indicators.py\<close>, \<open>cfd_research/regime.py\<close>).
  \<^item> \<open>Live_Strategies\<close> (\<open>cfd_strategy/strategies\<close>): the three registered strategies.

  \<^bold>\<open>Backtest and research path.\<close>
  \<^item> \<open>Exit_Simulator\<close>, \<open>Backtest_Replay\<close> (\<open>cfd_backtest\<close>): a signal's trade over the bars after
    it, strategies over stored candles, and the statistics.
  \<^item> \<open>Exit_Models\<close>, \<open>Timeframe_Agg\<close>, \<open>Entry_Replay\<close>, \<open>Research_Entries\<close> (\<open>cfd_research\<close>): the
    six exit models, aggregation to coarser bars, every entry under every exit, and the eight entry
    rules.
  \<^item> \<open>Challenge_Sim\<close>, \<open>Portfolio_Sim\<close>: a two-step evaluation over one stream of trades, over
    overlapping trades, and over a shared account with caps; starts all over history.
  \<^item> \<open>Grouping\<close>, \<open>Deployability\<close>, \<open>Slice_Scorer\<close>: trades by tag, the owner's four gates, the
    scored slices and their out-of-sample check.
  \<^item> \<open>Port_Parity\<close>: the live strategies against the research rules they were ported from.

  \<^bold>\<open>Variant research engine (equities).\<close>
  \<^item> \<open>Variant_Models\<close> (\<open>variants/models.py\<close>, \<open>filter_engine.py\<close>, \<open>generator.py\<close>): the variants,
    their identifiers and filters. \<open>Variant_Templates\<close> (\<open>variants/strategies\<close>): the five templates,
    each a state and a step on a candle.
  \<^item> \<open>Indicator_Engine\<close> (\<open>indicators/engine.py\<close>), \<open>Variant_Evaluator\<close> (\<open>variants/evaluator.py\<close>):
    the indicator snapshot of a candle, and the variants it arms or trades at once.
  \<^item> \<open>Variant_Execution\<close>, \<open>Trade_Recorder\<close> (\<open>execution\<close>): armed variants grouped by trigger level,
    the ticks that fire them, and the buffer of their trades.
  \<^item> \<open>Research_Orchestrator\<close> (\<open>main_research.py\<close>, \<open>execution/candle_cache.py\<close>): all of these
    behind the tick and candle handlers, and the states they reach.
  \<^item> \<open>Variant_Metrics\<close>, \<open>Stability\<close>, \<open>Variant_Ranker\<close>, \<open>Regime_Scorer\<close> (\<open>scoring\<close>): costs, metrics,
    consistency over periods, the ranking, and the winners per market condition with their
    validation on later trades.

  \<^item> \<open>Exit_Path\<close>, \<open>Exit_Trails\<close>, \<open>Exit_Signals\<close> (\<open>exit_engine/models\<close>): the exit models over the
    candles after an entry. \<open>Exit_Bounds\<close>: what they can gain and lose. \<open>Exit_Engine\<close>
    (\<open>exit_engine/engine.py\<close>): the nightly run that fills the results the ranker scores.

  \<^bold>\<open>Live path (equities).\<close>
  \<^item> \<open>Market_Hours\<close> (\<open>utils/market_hours.py\<close>): trading days, the nested windows of a day, the
    next wake-up.
  \<^item> \<open>NSE_Strategies\<close>, \<open>NSE_Momentum\<close> (\<open>strategy/cpr_filter.py\<close>, \<open>orb.py\<close>, \<open>ema_crossover.py\<close>,
    \<open>sma_crossover.py\<close>; \<open>bb_squeeze.py\<close>, \<open>supertrend_strategy.py\<close>, \<open>vwap_rsi.py\<close>): the six
    strategies, each a state and its handler, and the pivot filter they share.
    \<open>Strategy_Engine\<close> (\<open>strategy/base.py\<close>, \<open>engine.py\<close>): the engine that runs them.
  \<^item> \<open>Equity_Paper\<close>, \<open>Equity_Risk\<close>, \<open>Equity_Traders\<close> (\<open>paper_trader\<close>): one trader with its
    sizing, stops and square-off; the stop rules of the risk manager; the confluence of strategies
    and the isolated traders of the manager.
  \<^item> \<open>CFD_Indicators\<close>, \<open>Price_Structure\<close> (\<open>strategy/cfd_indicators.py\<close>): the oscillators and
    channels with their series; gaps, order blocks, swings, structure breaks, sessions, Fibonacci
    levels and divergences.

  A component is its state as a record, one definition per method or handler with the guards in the
  code's order, and the lemmas that make it correct. A method that mutates and may raise returns the
  state it leaves and the exception (\<open>outcome\<close>); a function that may raise returns \<open>result\<close>.
\<close>

text \<open>
  \<^bold>\<open>What is proved.\<close> Each numbered property is a theorem with a text of its own.
  \<^item> Money safety of the live path: constructed plans have their stop on the losing side and the
    required reward; a position is sized within its budget; a stop only tightens and is honoured on
    the tick that touches it; a closed trade loses no more than it risked; the account's ledger adds
    up; a breached account stays closed; accounts do not affect each other.
  \<^item> Refinements and equivalences: the candle loop against bars defined by grouping ticks; the
    aggregation against runs of a bucket; the drawdown and phase loops against their definitions by
    sums and maxima; the concurrent phase against the sequential one; the research exit against the
    backtest exit; a live port against its research rule.
  \<^item> The research verdict: a trade of any exit model keeps its risk; replays do not look ahead or
    hold overnight; the caps of a shared account hold at every event; the Monte Carlo returns and
    its counters partition the runs; a slice is deployable exactly when the owner's conditions hold.
  \<^item> Composition: every live strategy emits only signals for which the backtest theorem holds
    (\<open>honest\<close>); every research rule only intents for which the replay theorem holds
    (\<open>sound_entries\<close>). Locales carry such contracts: \<open>position_closer\<close>, \<open>instrument_source\<close>,
    \<open>drawdown_guard\<close>, \<open>account_executor\<close>, \<open>entry_rule\<close>, each interpreted on the model.

  \<^item> The research engine: its invariant in every reachable state; a tick fires exactly what it
    crosses; the grouped evaluation is a scan of all variants; the recorder keeps the first trade of
    each variant and minute; the ranking is justified by the trades. The two searches for the best
    exit model agree (\<open>best_exit_agrees\<close>).
  \<^item> The equity live path: a trader's invariant and what a tick does to each position; the size of a
    purchase; when a confluence fires; traders and strategies do not affect each other
    (\<open>traders_isolated\<close>, \<open>engine_runs_each_alone\<close>); the signals of the six strategies have their
    levels on the right sides and keep their daily limits (\<open>daily_trade_limit\<close>); indicator series do
    not look ahead; structure breaks are breaks of confirmed swings.
  \<^item> The exit simulation: no model but the swing stop gains or loses more than the path offers; a run
    leaves the results of every trade of the day and is idempotent; the pool worker is the engine
    (\<open>worker_is_engine\<close>) and the columns written are those the ranker reads
    (\<open>written_columns_scored\<close>).

  \<^bold>\<open>Idealisations.\<close> Python floats are real numbers (\<open>pyfloat\<close>), with every comparison, tolerance
  and rounding call of the code kept; integers are unbounded, as in Python. Times are milliseconds,
  dates day numbers; time-zone conversion is a parameter (\<open>zones\<close>). Dictionaries that are iterated
  over are association lists in insertion order. The database, the clock, the environment, generated
  ids and number formatting are arguments. Logging, alerts and report texts are left out; locks too,
  so a handler is one step.

  \<^bold>\<open>Termination.\<close> Loops over lists are structural recursions, and \<open>advance_to\<close> has a measure. The
  Monte Carlo loops may run for ever, with a step of zero days, and are partial functions into
  options: \<open>None\<close> is not returning. No model uses fuel.

  \<^bold>\<open>Not modelled.\<close> The cTrader and MetaTrader connections and the executor over them, whose
  behaviour is the broker's; the database stores, but for the tables of the trades, the candles and the exit results;
  Telegram; downloads, warm-up and the process entry points, which are input and output; the
  command-line drivers and parameter search of the research pipeline;
  and the command line, scheduler and reports around the exit simulation (\<open>exit_engine/run.py\<close>,
  \<open>scheduler.py\<close>, \<open>analytics\<close>).
\<close>

end
